(* ===== verification/Base.thy ===== *)
theory Base
  imports "HOL-Library.Word" "HOL-Library.Monad_Syntax"
begin

text \<open>
  The prelude of the development: bytes, the host's 32-bit words and their network order,
  the byte memory the streams' pointers point into, and the facts about them that the
  components share.  The model is of the LP64 build of the library on a little-endian host:
  \<open>int\<close> and \<open>u_int\<close> are \<^typ>\<open>32 word\<close>, \<open>long\<close>, \<open>u_long\<close> and
  \<open>size_t\<close> are \<^typ>\<open>64 word\<close>, a pointer is a natural number with 0 for \<open>NULL\<close>.
  Signedness is in the operations: a C conversion to a wider type is \<open>scast\<close> from a
  signed type and \<open>ucast\<close> from an unsigned one, to a narrower type always \<open>ucast\<close>.

  A C function that returns is \<open>Some\<close> of its result and of the state it leaves;
  \<open>None\<close> is a run that C gives no result: a call through a null function pointer, or
  a loop that never exits.
\<close>

unbundle bit_operations_syntax

section \<open>Bytes and 32-bit words\<close>

type_synonym byte = "8 word"

text \<open>The four bytes of a word as the little-endian host stores them, and back.\<close>

definition le32 :: "32 word \<Rightarrow> byte list" where
  "le32 w = [ucast w, ucast (drop_bit 8 w), ucast (drop_bit 16 w), ucast (drop_bit 24 w)]"

fun of_le32 :: "byte list \<Rightarrow> 32 word" where
  "of_le32 [a, b, c, d] =
     ucast a OR push_bit 8 (ucast b) OR push_bit 16 (ucast c) OR push_bit 24 (ucast d)"
| "of_le32 _ = 0"

text \<open>\<open>htonl\<close> and \<open>ntohl\<close> reverse the bytes of a word; the wire order is \<open>be32\<close>.\<close>

definition htonl :: "32 word \<Rightarrow> 32 word" where
  "htonl w = of_le32 (rev (le32 w))"

definition ntohl :: "32 word \<Rightarrow> 32 word" where
  "ntohl w = of_le32 (rev (le32 w))"

definition be32 :: "32 word \<Rightarrow> byte list" where
  "be32 w = rev (le32 w)"

lemma length_le32 [simp]: "length (le32 w) = 4"
  by (simp add: le32_def)

lemma length_be32 [simp]: "length (be32 w) = 4"
  by (simp add: be32_def)

lemma of_le32_le32 [simp]: "of_le32 (le32 w) = w"
  unfolding le32_def
proof (rule bit_word_eqI)
  fix n :: nat
  assume "n < LENGTH(32)"
  consider "n < 8" | "8 \<le> n" "n < 16" | "16 \<le> n" "n < 24" | "24 \<le> n" by linarith
  then show "bit (of_le32 [ucast w, ucast (drop_bit 8 w), ucast (drop_bit 16 w), ucast (drop_bit 24 w)]) n
      = bit w n"
    using \<open>n < LENGTH(32)\<close>
    by cases (simp_all add: bit_or_iff bit_push_bit_iff bit_ucast_iff bit_drop_bit_eq, auto)
qed

lemma length_4E:
  assumes "length bs = 4"
  obtains a b c d where "bs = [a, b, c, d]"
  using assms by (auto simp: numeral_eq_Suc length_Suc_conv)

lemma ucast_bytes:
  fixes a b c d :: byte
  defines "w \<equiv> ucast a OR push_bit 8 (ucast b) OR push_bit 16 (ucast c) OR push_bit 24 (ucast d)
    :: 32 word"
  shows "ucast w = a" and "ucast (drop_bit 8 w) = b"
    and "ucast (drop_bit 16 w) = c" and "ucast (drop_bit 24 w) = d"
  unfolding w_def
  by (rule bit_word_eqI, simp add: bit_simps, auto dest: bit_imp_le_length)+

lemma le32_of_le32 [simp]: "length bs = 4 \<Longrightarrow> le32 (of_le32 bs) = bs"
  by (erule length_4E) (simp only: of_le32.simps le32_def ucast_bytes)

lemma le32_htonl [simp]: "le32 (htonl w) = be32 w"
  by (simp add: htonl_def be32_def)

lemma ntohl_of_le32_be32 [simp]: "ntohl (of_le32 (be32 w)) = w"
  by (simp add: ntohl_def be32_def)

lemma ntohl_htonl [simp]: "ntohl (htonl w) = w"
  by (simp add: ntohl_def be32_def)

lemma be32_inj [simp]: "be32 v = be32 w \<longleftrightarrow> v = w"
  by (metis ntohl_of_le32_be32)

lemma be32_nonempty [simp]: "be32 w \<noteq> []"
  using length_be32 [of w] by fastforce

section \<open>Memory\<close>

text \<open>
  The memory the stream pointers point into, as a total map from addresses to bytes.
  \<open>rd m a n\<close> is what \<open>memcpy(_, a, n)\<close> copies out, \<open>wr m a bs\<close> what
  \<open>memcpy(a, bs, length bs)\<close> leaves.
\<close>

type_synonym addr = nat
type_synonym mem = "nat \<Rightarrow> byte"

definition rd :: "mem \<Rightarrow> addr \<Rightarrow> nat \<Rightarrow> byte list" where
  "rd m a n = map m [a ..< a + n]"

definition wr :: "mem \<Rightarrow> addr \<Rightarrow> byte list \<Rightarrow> mem" where
  "wr m a bs = (\<lambda>x. if a \<le> x \<and> x < a + length bs then bs ! (x - a) else m x)"

text \<open>\<open>*(int32_t *) a\<close> read and written.\<close>

definition load32 :: "mem \<Rightarrow> addr \<Rightarrow> 32 word" where
  "load32 m a = of_le32 (rd m a 4)"

definition store32 :: "mem \<Rightarrow> addr \<Rightarrow> 32 word \<Rightarrow> mem" where
  "store32 m a w = wr m a (le32 w)"

lemma length_rd [simp]: "length (rd m a n) = n"
  by (simp add: rd_def)

lemma rd_0 [simp]: "rd m a 0 = []"
  by (simp add: rd_def)

lemma rd_nth: "i < n \<Longrightarrow> rd m a n ! i = m (a + i)"
  by (simp add: rd_def)

lemma rd_add: "rd m a (n + k) = rd m a n @ rd m (a + n) k"
  by (rule nth_equalityI) (auto simp: rd_nth nth_append)

lemma take_rd: "k \<le> n \<Longrightarrow> take k (rd m a n) = rd m a k"
  by (rule nth_equalityI) (auto simp: rd_nth)

lemma drop_rd: "drop k (rd m a n) = rd m (a + k) (n - k)"
  by (rule nth_equalityI) (auto simp: rd_nth add.assoc)

lemma rd_split:
  assumes "rd m a n = xs @ ys"
  shows "rd m a (length xs) = xs" and "rd m (a + length xs) (n - length xs) = ys"
    and "length xs \<le> n"
proof -
  have n: "n = length xs + length ys"
    using assms by (metis length_append length_rd)
  with assms show "rd m a (length xs) = xs" and "rd m (a + length xs) (n - length xs) = ys"
    and "length xs \<le> n"
    by (simp_all add: rd_add)
qed

lemma rd_wr_same [simp]: "n = length bs \<Longrightarrow> rd (wr m a bs) a n = bs"
  by (rule nth_equalityI) (auto simp: rd_nth wr_def)

lemma rd_wr_disjoint [simp]:
  "a + n \<le> b \<or> b + length bs \<le> a \<Longrightarrow> rd (wr m b bs) a n = rd m a n"
  by (rule nth_equalityI) (auto simp: rd_nth wr_def)

lemma rd_cong: "(\<And>x. a \<le> x \<Longrightarrow> x < a + n \<Longrightarrow> m x = m' x) \<Longrightarrow> rd m a n = rd m' a n"
  by (rule nth_equalityI) (auto simp: rd_nth)

lemma wr_outside: "x < a \<or> a + length bs \<le> x \<Longrightarrow> wr m a bs x = m x"
  by (auto simp: wr_def)

lemma wr_Nil [simp]: "wr m a [] = m"
  by (rule ext) (auto simp: wr_def)

lemma wr_append: "wr (wr m a xs) (a + length xs) ys = wr m a (xs @ ys)"
  by (rule ext) (auto simp: wr_def nth_append add.assoc)

lemma rd_be32:
  "rd m a n = be32 w @ bs \<Longrightarrow> load32 m a = htonl w"
  using rd_split(1) [of m a n "be32 w" bs] by (simp add: load32_def htonl_def be32_def)

lemma store32_htonl: "store32 m a (htonl w) = wr m a (be32 w)"
  by (simp add: store32_def)

section \<open>Buffers of the caller\<close>

text \<open>
  A \<open>char *\<close> argument is the list of bytes of the block it points to, \<open>None\<close> being
  \<open>NULL\<close>; \<open>fill old bs\<close> is what lies from its address on when \<open>bs\<close> has been copied there.
  That is longer than the block when \<open>bs\<close> is: the copy then runs over the end of the block,
  which no caller may do.  The code that copies into a block, \<open>XDR_GETBYTES\<close> above all, has no
  result then.
\<close>

definition fill :: "byte list \<Rightarrow> byte list \<Rightarrow> byte list" where
  "fill old bs = bs @ drop (length bs) old"

lemma length_fill [simp]: "length bs \<le> length old \<Longrightarrow> length (fill old bs) = length old"
  by (simp add: fill_def)

lemma fill_full [simp]: "length old = length bs \<Longrightarrow> fill old bs = bs"
  by (simp add: fill_def)

text \<open>\<open>patch buf off bs\<close> copies \<open>bs\<close> to the offset \<open>off\<close> of the block.\<close>

definition patch :: "byte list \<Rightarrow> nat \<Rightarrow> byte list \<Rightarrow> byte list" where
  "patch buf off bs = take off buf @ bs @ drop (off + length bs) buf"

lemma patch_0: "patch buf 0 bs = fill buf bs"
  by (simp add: patch_def fill_def)

text \<open>\<open>strlen\<close>: the bytes before the first zero byte.\<close>

definition cstr :: "byte list \<Rightarrow> byte list" where
  "cstr s = takeWhile (\<lambda>c. c \<noteq> 0) s"

definition strlen :: "byte list \<Rightarrow> nat" where
  "strlen s = length (cstr s)"

text \<open>A block without a zero byte is read beyond its end, which is not defined.\<close>

definition c_strlen :: "byte list \<Rightarrow> nat option" where
  "c_strlen s = (if 0 \<in> set s then Some (strlen s) else None)"

lemma c_strlen_Some [simp]: "0 \<in> set s \<Longrightarrow> c_strlen s = Some (strlen s)"
  by (simp add: c_strlen_def)

lemma take_strlen [simp]: "take (strlen s) s = cstr s"
  unfolding strlen_def cstr_def by (rule takeWhile_eq_take [symmetric])

lemma strlen_le: "strlen s \<le> length s"
  by (simp add: strlen_def cstr_def length_takeWhile_le)

lemma cstr_no_zero: "0 \<notin> set (cstr s)"
  by (auto simp: cstr_def dest: set_takeWhileD)

lemma cstr_terminated: "0 \<notin> set bs \<Longrightarrow> cstr (bs @ 0 # rest) = bs"
  unfolding cstr_def by (subst takeWhile_append2) auto

text \<open>The difference of two addresses, as the C type it is stored in.\<close>

definition ptrdiff :: "addr \<Rightarrow> addr \<Rightarrow> 'a::len word" where
  "ptrdiff a b = of_int (int a - int b)"

lemma ptrdiff_le: "b \<le> a \<Longrightarrow> ptrdiff a b = of_nat (a - b)"
  by (simp add: ptrdiff_def of_nat_diff)

lemma ptrdiff_self [simp]: "ptrdiff a a = 0"
  by (simp add: ptrdiff_def)

section \<open>Lengths and padding\<close>

text \<open>The zero bytes after \<open>n\<close> bytes of data that fill the last 4-byte unit.\<close>

definition pad :: "nat \<Rightarrow> nat" where
  "pad n = (if n mod 4 = 0 then 0 else 4 - n mod 4)"

definition padded :: "byte list \<Rightarrow> byte list" where
  "padded bs = bs @ replicate (pad (length bs)) 0"

lemma pad_less: "pad n < 4"
  by (simp add: pad_def)

lemma padded_mod_4: "length (padded bs) mod 4 = 0"
proof -
  have "(n + pad n) mod 4 = 0" for n :: nat
    by (simp add: pad_def) presburger
  then show ?thesis by (simp add: padded_def)
qed

lemma padded_Nil [simp]: "padded [] = []"
  by (simp add: padded_def pad_def)

section \<open>Words\<close>

lemma ucast_up_down [simp]: "(ucast (ucast (w :: 32 word) :: 64 word) :: 32 word) = w"
  by (rule bit_word_eqI) (simp add: bit_simps)

lemma scast_up_down [simp]: "(ucast (scast (w :: 32 word) :: 64 word) :: 32 word) = w"
  by (rule bit_word_eqI) (simp add: bit_simps)

lemma ucast_down_up: "(w :: 64 word) < 2 ^ 32 \<Longrightarrow> ucast (ucast w :: 32 word) = w"
  by (simp add: word_unat_eq_iff unsigned_ucast_eq unsigned_take_bit_eq take_bit_nat_eq_self word_less_nat_alt)

lemma unat_of_nat32: "n < 2 ^ 32 \<Longrightarrow> unat (of_nat n :: 32 word) = n"
  by (simp add: unat_of_nat take_bit_nat_eq_self)

end
