(* ===== verification/Xdr_Handle.thy ===== *)
theory Xdr_Handle
  imports Base
begin

text \<open>
  The XDR handle of \<open>tirpc/rpc/xdr.h\<close> and, with the same fields, the \<open>FLEXXDR\<close> handle of
  \<open>flexrpc/flexxdr.h\<close>: the operation in progress, the vector of the stream's operations, the
  memory its pointers point into and its private data, whose type \<^typ>\<open>'s\<close> each stream
  chooses.  The macros that call through the vector, and the \<open>IXDR_*\<close> macros that use an
  in-line buffer.
\<close>

section \<open>The handle\<close>

datatype xdr_op = XDR_ENCODE | XDR_DECODE | XDR_FREE

text \<open>
  A slot that some vector of the repository leaves null is an option.  \<open>getpostn\<close>,
  \<open>setpostn\<close> and \<open>inline\<close> take the operation because the C functions read
  \<open>xdrs->x_op\<close>; \<open>inline\<close> returns the address of the buffer, 0 for \<open>NULL\<close>.
  \<open>x_getlong\<close> and \<open>x_getbytes\<close> take what their out-parameter holds before the call.
\<close>

record 's xdr_ops =
  x_getlong :: "mem \<times> 's \<Rightarrow> 64 word \<Rightarrow> (bool \<times> 64 word \<times> mem \<times> 's) option"
  x_putlong :: "mem \<times> 's \<Rightarrow> 64 word \<Rightarrow> (bool \<times> mem \<times> 's) option"
  x_getbytes :: "mem \<times> 's \<Rightarrow> byte list \<Rightarrow> 32 word \<Rightarrow> (bool \<times> byte list \<times> mem \<times> 's) option"
  x_putbytes :: "mem \<times> 's \<Rightarrow> byte list \<Rightarrow> 32 word \<Rightarrow> (bool \<times> mem \<times> 's) option"
  x_getpostn :: "(xdr_op \<Rightarrow> mem \<times> 's \<Rightarrow> 32 word) option"
  x_setpostn :: "(xdr_op \<Rightarrow> mem \<times> 's \<Rightarrow> 32 word \<Rightarrow> bool \<times> mem \<times> 's) option"
  x_inline :: "(xdr_op \<Rightarrow> mem \<times> 's \<Rightarrow> 32 word \<Rightarrow> addr \<times> mem \<times> 's) option"

record 's XDR =
  x_op :: xdr_op
  x_ops :: "'s xdr_ops"
  x_mem :: mem
  x_private :: 's

type_synonym 's FLEXXDR = "'s XDR"

text \<open>
  A filter takes the handle and the object its pointer argument points to, and returns its
  \<open>bool_t\<close>, the handle and the object as it leaves them.
\<close>

type_synonym ('s, 'a) xdrproc_t = "'s XDR \<Rightarrow> 'a \<Rightarrow> (bool \<times> 's XDR \<times> 'a) option"

definition xst :: "'s XDR \<Rightarrow> mem \<times> 's" where
  "xst xdrs = (x_mem xdrs, x_private xdrs)"

definition with_xst :: "'s XDR \<Rightarrow> mem \<times> 's \<Rightarrow> 's XDR" where
  "with_xst xdrs st = xdrs\<lparr>x_mem := fst st, x_private := snd st\<rparr>"

lemma xst_with_xst [simp]: "xst (with_xst xdrs st) = st"
  by (simp add: xst_def with_xst_def)

lemma with_xst_fields [simp]:
  "x_op (with_xst xdrs st) = x_op xdrs" "x_ops (with_xst xdrs st) = x_ops xdrs"
  "x_mem (with_xst xdrs st) = fst st" "x_private (with_xst xdrs st) = snd st"
  by (simp_all add: with_xst_def)

section \<open>The macros\<close>

text \<open>A length rounded up to whole units.\<close>

definition RNDUP :: "32 word \<Rightarrow> 32 word" where
  "RNDUP x = (x + 4 - 1) div 4 * 4"

lemma unat_RNDUP:
  assumes "unat l < 2 ^ 31"
  shows "unat (RNDUP l) = unat l + pad (unat l)"
proof -
  have unat_numeral_4: "unat (4 :: 32 word) = 4" by simp
  have "unat (l + 4 - 1) = unat l + 3"
  proof -
    have "l + 4 - 1 = l + 3" by simp
    moreover have "unat (l + 3) = unat l + 3"
      using assms by (subst unat_add_lem [THEN iffD1]) simp_all
    ultimately show ?thesis by (simp only:)
  qed
  then have d: "unat ((l + 4 - 1) div 4) = (unat l + 3) div 4"
    by (simp only: unat_div_distrib unat_numeral_4)
  have "unat ((l + 4 - 1) div 4 * 4) = (unat l + 3) div 4 * 4"
  proof -
    have "unat ((l + 4 - 1) div 4) * unat (4 :: 32 word) < 2 ^ LENGTH(32)"
      using assms unfolding d unat_numeral_4 by simp
    then have "unat ((l + 4 - 1) div 4 * 4) = unat ((l + 4 - 1) div 4) * unat (4 :: 32 word)"
      by (rule unat_mult_lem [THEN iffD1])
    then show ?thesis by (simp only: d unat_numeral_4)
  qed
  moreover have "(unat l + 3) div 4 * 4 = unat l + pad (unat l)"
    by (simp add: pad_def) presburger
  ultimately show ?thesis by (simp add: RNDUP_def)
qed

definition XDR_GETLONG :: "'s XDR \<Rightarrow> 64 word \<Rightarrow> (bool \<times> 's XDR \<times> 64 word) option" where
  "XDR_GETLONG xdrs l =
     do { (ok, l', st) \<leftarrow> x_getlong (x_ops xdrs) (xst xdrs) l; Some (ok, with_xst xdrs st, l') }"

definition XDR_PUTLONG :: "'s XDR \<Rightarrow> 64 word \<Rightarrow> (bool \<times> 's XDR) option" where
  "XDR_PUTLONG xdrs l =
     do { (ok, st) \<leftarrow> x_putlong (x_ops xdrs) (xst xdrs) l; Some (ok, with_xst xdrs st) }"

text \<open>
  A block is overrun when the stream stores more into it than it holds, or reads more from it
  than it holds: neither has a result.
\<close>

definition XDR_GETBYTES ::
    "'s XDR \<Rightarrow> byte list \<Rightarrow> 32 word \<Rightarrow> (bool \<times> 's XDR \<times> byte list) option" where
  "XDR_GETBYTES xdrs buf len =
     do { (ok, buf', st) \<leftarrow> x_getbytes (x_ops xdrs) (xst xdrs) buf len;
          if length buf < length buf' then None else Some (ok, with_xst xdrs st, buf') }"

definition XDR_PUTBYTES :: "'s XDR \<Rightarrow> byte list \<Rightarrow> 32 word \<Rightarrow> (bool \<times> 's XDR) option" where
  "XDR_PUTBYTES xdrs bs len =
     do { (ok, st) \<leftarrow> x_putbytes (x_ops xdrs) (xst xdrs) bs len;
          if ok \<and> length bs < unat len then None else Some (ok, with_xst xdrs st) }"

definition XDR_GETPOS :: "'s XDR \<Rightarrow> 32 word option" where
  "XDR_GETPOS xdrs = do { f \<leftarrow> x_getpostn (x_ops xdrs); Some (f (x_op xdrs) (xst xdrs)) }"

definition XDR_SETPOS :: "'s XDR \<Rightarrow> 32 word \<Rightarrow> (bool \<times> 's XDR) option" where
  "XDR_SETPOS xdrs pos =
     do { f \<leftarrow> x_setpostn (x_ops xdrs);
          let (ok, st) = f (x_op xdrs) (xst xdrs) pos in Some (ok, with_xst xdrs st) }"

definition XDR_INLINE :: "'s XDR \<Rightarrow> 32 word \<Rightarrow> (addr \<times> 's XDR) option" where
  "XDR_INLINE xdrs len =
     do { f \<leftarrow> x_inline (x_ops xdrs);
          let (buf, st) = f (x_op xdrs) (xst xdrs) len in Some (buf, with_xst xdrs st) }"

text \<open>
  The macros on an in-line buffer: \<open>*(buf)++\<close> written or read in network order.
  \<open>IXDR_PUT_LONG\<close> and \<open>IXDR_PUT_ENUM\<close> are the same store of the low 32 bits.
\<close>

definition IXDR_PUT_INT32 :: "'s XDR \<Rightarrow> addr \<Rightarrow> 32 word \<Rightarrow> 's XDR \<times> addr" where
  "IXDR_PUT_INT32 xdrs buf v = (xdrs\<lparr>x_mem := store32 (x_mem xdrs) buf (htonl v)\<rparr>, buf + 4)"

definition IXDR_GET_INT32 :: "'s XDR \<Rightarrow> addr \<Rightarrow> 32 word \<times> addr" where
  "IXDR_GET_INT32 xdrs buf = (ntohl (load32 (x_mem xdrs) buf), buf + 4)"

text \<open>Successive stores are one store of the words in network order, successive loads the reverse.\<close>

lemma IXDR_PUT_INT32_wr:
  "IXDR_PUT_INT32 xdrs buf v = (xdrs\<lparr>x_mem := wr (x_mem xdrs) buf (be32 v)\<rparr>, buf + 4)"
  by (simp add: IXDR_PUT_INT32_def store32_htonl)

lemma wr_wr_append: "k = a + length xs \<Longrightarrow> wr (wr m a xs) k ys = wr m a (xs @ ys)"
  by (simp add: wr_append)

lemma IXDR_GET_INT32_step:
  assumes "rd (x_mem xdrs) buf n = be32 w @ bs"
  shows "IXDR_GET_INT32 xdrs buf = (w, buf + 4)" and "rd (x_mem xdrs) (buf + 4) (n - 4) = bs"
  using rd_be32 [OF assms] rd_split(2) [OF assms] by (simp_all add: IXDR_GET_INT32_def)

section \<open>Sequencing\<close>

text \<open>
  \<open>F(xdrs, p) && G(xdrs, q)\<close>: the second call is made only when the first returned true.
  \<open>fld get upd F\<close> is the call of \<open>F\<close> on the address of a field.
\<close>

definition and_then ::
    "(bool \<times> 's XDR \<times> 'a) option \<Rightarrow> ('s, 'a) xdrproc_t \<Rightarrow> (bool \<times> 's XDR \<times> 'a) option" where
  "and_then r G = do { (ok, xdrs, v) \<leftarrow> r; if ok then G xdrs v else Some (False, xdrs, v) }"

definition fld ::
    "('r \<Rightarrow> 'a) \<Rightarrow> (('a \<Rightarrow> 'a) \<Rightarrow> 'r \<Rightarrow> 'r) \<Rightarrow> ('s, 'a) xdrproc_t \<Rightarrow> ('s, 'r) xdrproc_t" where
  "fld get upd F xdrs r =
     do { (ok, xdrs', v) \<leftarrow> F xdrs (get r); Some (ok, xdrs', upd (\<lambda>_. v) r) }"

text \<open>A condition of the code between two calls.\<close>

definition check :: "('a \<Rightarrow> bool) \<Rightarrow> ('s, 'a) xdrproc_t" where
  "check P xdrs v = Some (P v, xdrs, v)"

lemma and_then_simps [simp]:
  "and_then None G = None"
  "and_then (Some (True, xdrs, v)) G = G xdrs v"
  "and_then (Some (False, xdrs, v)) G = Some (False, xdrs, v)"
  by (simp_all add: and_then_def)

lemma and_then_eq_Some:
  "and_then r G = Some res \<longleftrightarrow>
     (\<exists>xdrs v. r = Some (True, xdrs, v) \<and> G xdrs v = Some res) \<or>
     (\<exists>xdrs v. r = Some (False, xdrs, v) \<and> res = (False, xdrs, v))"
  by (auto simp: and_then_def bind_eq_Some_conv split: if_splits)

end
