(* ===== verification/Xdr_Stream.thy ===== *)
theory Xdr_Stream
  imports Xdr_Handle
begin

text \<open>
  The interface between the streams and the filters.  A stream that can be encoded into
  (\<open>xdr_sink\<close>) promises what its \<open>putlong\<close> and \<open>putbytes\<close> append and when they fail; a
  stream that can be decoded from (\<open>xdr_source\<close>) promises what \<open>getlong\<close> and
  \<open>getbytes\<close> take.  \<open>xdr_inline_sink\<close> and \<open>xdr_inline_source\<close> add the in-line
  buffers.  Over them the contracts of the filters: \<open>encodes F v bs v'\<close> (the filter
  appends \<open>bs\<close> and leaves \<open>v'\<close> in the object), \<open>decodes F bs v0 v\<close> (from
  \<open>bs\<close> and the old object \<open>v0\<close> it makes \<open>v\<close>) and their closure under
  sequencing and field access.
\<close>

named_theorems codec \<open>the encode and decode contracts of the filters\<close>

section \<open>Encoding\<close>

locale xdr_sink =
  fixes ops :: "'s xdr_ops"
    and inv :: "mem \<times> 's \<Rightarrow> bool"
    and out :: "mem \<times> 's \<Rightarrow> byte list"
    and fits :: "mem \<times> 's \<Rightarrow> nat \<Rightarrow> bool"
  assumes putlong_ok: "inv st \<Longrightarrow> fits st (4 + n) \<Longrightarrow>
      \<exists>st'. x_putlong ops st l = Some (True, st') \<and> inv st' \<and>
            out st' = out st @ be32 (ucast l) \<and> fits st' n"
    and putlong_full: "inv st \<Longrightarrow> \<not> fits st 4 \<Longrightarrow>
      \<exists>st'. x_putlong ops st l = Some (False, st') \<and> inv st'"
    and putbytes_ok: "inv st \<Longrightarrow> fits st (unat len + n) \<Longrightarrow> unat len \<le> length bs \<Longrightarrow>
      \<exists>st'. x_putbytes ops st bs len = Some (True, st') \<and> inv st' \<and>
            out st' = out st @ take (unat len) bs \<and> fits st' n"
begin

definition sinks :: "'s XDR \<Rightarrow> bool" where
  "sinks xdrs \<longleftrightarrow> x_op xdrs = XDR_ENCODE \<and> x_ops xdrs = ops \<and> inv (xst xdrs)"

definition sent :: "'s XDR \<Rightarrow> byte list" where
  "sent xdrs = out (xst xdrs)"

definition room :: "'s XDR \<Rightarrow> nat \<Rightarrow> bool" where
  "room xdrs n = fits (xst xdrs) n"

definition encodes :: "('s, 'a) xdrproc_t \<Rightarrow> 'a \<Rightarrow> byte list \<Rightarrow> 'a \<Rightarrow> bool" where
  "encodes F v bs v' \<longleftrightarrow>
     (\<forall>xdrs n. sinks xdrs \<and> room xdrs (length bs + n) \<longrightarrow>
        (\<exists>xdrs'. F xdrs v = Some (True, xdrs', v') \<and> sinks xdrs' \<and>
                 sent xdrs' = sent xdrs @ bs \<and> room xdrs' n))"

lemma encodesI:
  "(\<And>xdrs n. sinks xdrs \<Longrightarrow> room xdrs (length bs + n) \<Longrightarrow>
      \<exists>xdrs'. F xdrs v = Some (True, xdrs', v') \<and> sinks xdrs' \<and>
              sent xdrs' = sent xdrs @ bs \<and> room xdrs' n) \<Longrightarrow> encodes F v bs v'"
  by (simp add: encodes_def)

lemma encodesE:
  assumes "encodes F v bs v'" and "sinks xdrs" and "room xdrs (length bs + n)"
  obtains xdrs' where "F xdrs v = Some (True, xdrs', v')" and "sinks xdrs'"
    and "sent xdrs' = sent xdrs @ bs" and "room xdrs' n"
  using assms unfolding encodes_def by blast

lemma sinks_op [simp]: "sinks xdrs \<Longrightarrow> x_op xdrs = XDR_ENCODE"
  by (simp add: sinks_def)

lemma sinks_with_xst:
  "sinks xdrs \<Longrightarrow> inv st \<Longrightarrow> sinks (with_xst xdrs st)"
  by (simp add: sinks_def)

lemma XDR_PUTLONG_ok:
  assumes "sinks xdrs" and "room xdrs (4 + n)"
  obtains xdrs' where "XDR_PUTLONG xdrs l = Some (True, xdrs')" and "sinks xdrs'"
    and "sent xdrs' = sent xdrs @ be32 (ucast l)" and "room xdrs' n"
proof -
  from assms obtain st' where "x_putlong ops (xst xdrs) l = Some (True, st')" and "inv st'"
    and "out st' = out (xst xdrs) @ be32 (ucast l)" and "fits st' n"
    using putlong_ok [of "xst xdrs" n l] by (auto simp: sinks_def room_def)
  with assms show thesis
    by (intro that [of "with_xst xdrs st'"])
      (auto simp: XDR_PUTLONG_def sinks_def sent_def room_def)
qed

lemma XDR_PUTBYTES_ok:
  assumes "sinks xdrs" and "room xdrs (unat len + n)" and "unat len \<le> length bs"
  obtains xdrs' where "XDR_PUTBYTES xdrs bs len = Some (True, xdrs')" and "sinks xdrs'"
    and "sent xdrs' = sent xdrs @ take (unat len) bs" and "room xdrs' n"
proof -
  from assms obtain st' where "x_putbytes ops (xst xdrs) bs len = Some (True, st')" and "inv st'"
    and "out st' = out (xst xdrs) @ take (unat len) bs" and "fits st' n"
    using putbytes_ok [of "xst xdrs" len n bs] by (auto simp: sinks_def room_def)
  with assms show thesis
    by (intro that [of "with_xst xdrs st'"])
      (auto simp: XDR_PUTBYTES_def sinks_def sent_def room_def)
qed

lemma XDR_PUTLONG_full:
  assumes "sinks xdrs" and "\<not> room xdrs 4"
  obtains xdrs' where "XDR_PUTLONG xdrs l = Some (False, xdrs')" and "sinks xdrs'"
proof -
  from assms obtain st' where "x_putlong ops (xst xdrs) l = Some (False, st')" and "inv st'"
    using putlong_full [of "xst xdrs" l] by (auto simp: sinks_def room_def)
  with assms show thesis
    by (intro that [of "with_xst xdrs st'"]) (auto simp: XDR_PUTLONG_def sinks_def)
qed

lemma encodes_check [codec]: "P v \<Longrightarrow> encodes (check P) v [] v"
  by (auto simp: encodes_def check_def)

lemma encodes_and_then [codec]:
  assumes F: "encodes F v bs v1" and G: "encodes G v1 cs v2"
  shows "encodes (\<lambda>xdrs v. and_then (F xdrs v) G) v (bs @ cs) v2"
proof (rule encodesI)
  fix xdrs n
  assume s: "sinks xdrs" and "room xdrs (length (bs @ cs) + n)"
  then have r: "room xdrs (length bs + (length cs + n))" by (simp add: add.assoc)
  obtain x1 where 1: "F xdrs v = Some (True, x1, v1)" "sent x1 = sent xdrs @ bs"
    and s1: "sinks x1" and r1: "room x1 (length cs + n)"
    by (rule encodesE [OF F s r])
  obtain x2 where "G x1 v1 = Some (True, x2, v2)" "sent x2 = sent x1 @ cs" "sinks x2" "room x2 n"
    by (rule encodesE [OF G s1 r1])
  with 1 show "\<exists>xdrs'. and_then (F xdrs v) G = Some (True, xdrs', v2) \<and> sinks xdrs' \<and>
      sent xdrs' = sent xdrs @ bs @ cs \<and> room xdrs' n"
    by simp
qed

lemma encodes_fld [codec]:
  assumes "encodes F (get r) bs v'"
  shows "encodes (fld get upd F) r bs (upd (\<lambda>_. v') r)"
proof (rule encodesI)
  fix xdrs n
  assume "sinks xdrs" and "room xdrs (length bs + n)"
  with assms show "\<exists>xdrs'. fld get upd F xdrs r = Some (True, xdrs', upd (\<lambda>_. v') r) \<and>
      sinks xdrs' \<and> sent xdrs' = sent xdrs @ bs \<and> room xdrs' n"
    by (auto simp: fld_def elim!: encodesE)
qed

lemma encodes_fst: "encodes F a bs a' \<Longrightarrow> encodes (fld fst apfst F) (a, b) bs (a', b)"
  using encodes_fld [of F fst "(a, b)" bs a' apfst] by simp

lemma encodes_snd: "encodes F b bs b' \<Longrightarrow> encodes (fld snd apsnd F) (a, b) bs (a, b')"
  using encodes_fld [of F snd "(a, b)" bs b' apsnd] by simp

lemma encodes_skip: "encodes (\<lambda>xdrs v. Some (True, xdrs, v)) v [] v"
  by (auto simp: encodes_def)

lemma encodes_if:
  "(P v \<Longrightarrow> encodes A v bs v') \<Longrightarrow> (\<not> P v \<Longrightarrow> encodes B v bs v') \<Longrightarrow>
   encodes (\<lambda>xdrs v. if P v then A xdrs v else B xdrs v) v bs v'"
  by (simp add: encodes_def)

lemma encodes_eq: "encodes F v bs v' \<Longrightarrow> bs = bs' \<Longrightarrow> v' = v'' \<Longrightarrow> encodes F v bs' v''"
  by simp

lemma encodes_cong: "encodes F v bs v' \<Longrightarrow> (\<And>xdrs. sinks xdrs \<Longrightarrow> G xdrs v = F xdrs v) \<Longrightarrow>
    encodes G v bs v'"
  by (simp add: encodes_def)

end

text \<open>
  An in-line buffer to encode into: \<open>NULL\<close>, or an address at which the caller writes
  \<open>len\<close> bytes, which are then part of the stream.
\<close>

locale xdr_inline_sink = xdr_sink ops inv out fits
  for ops :: "'s xdr_ops" and inv and out and fits +
  fixes inl :: "xdr_op \<Rightarrow> mem \<times> 's \<Rightarrow> 32 word \<Rightarrow> addr \<times> mem \<times> 's"
  assumes inline_slot: "x_inline ops = Some inl"
    and inline_ok: "inv st \<Longrightarrow> fits st (unat len + n) \<Longrightarrow>
      inl XDR_ENCODE st len = (0, st) \<or>
      (\<exists>buf st'. inl XDR_ENCODE st len = (buf, st') \<and> buf \<noteq> 0 \<and>
         (\<forall>bs. length bs = unat len \<longrightarrow>
            inv (wr (fst st') buf bs, snd st') \<and>
            out (wr (fst st') buf bs, snd st') = out st @ bs \<and>
            fits (wr (fst st') buf bs, snd st') n))"
    and fits_less: "fits st (k + n) \<Longrightarrow> fits st k"

begin

lemma XDR_INLINE_sink:
  assumes "sinks xdrs" and "room xdrs (unat len + n)"
  obtains (null) "XDR_INLINE xdrs len = Some (0, xdrs)"
  | (buffer) buf x1 where "XDR_INLINE xdrs len = Some (buf, x1)" and "buf \<noteq> 0"
      and "\<And>bs. length bs = unat len \<Longrightarrow> sinks (x1\<lparr>x_mem := wr (x_mem x1) buf bs\<rparr>)"
      and "\<And>bs. length bs = unat len \<Longrightarrow> sent (x1\<lparr>x_mem := wr (x_mem x1) buf bs\<rparr>) = sent xdrs @ bs"
      and "\<And>bs. length bs = unat len \<Longrightarrow> room (x1\<lparr>x_mem := wr (x_mem x1) buf bs\<rparr>) n"
proof -
  have inv: "inv (xst xdrs)" and ops: "x_ops xdrs = ops" "x_op xdrs = XDR_ENCODE"
    and fits: "fits (xst xdrs) (unat len + n)"
    using assms by (simp_all add: sinks_def room_def)
  consider "inl XDR_ENCODE (xst xdrs) len = (0, xst xdrs)"
    | buf m s where "inl XDR_ENCODE (xst xdrs) len = (buf, m, s)" "buf \<noteq> 0"
      "\<And>bs. length bs = unat len \<Longrightarrow> inv (wr m buf bs, s) \<and>
         out (wr m buf bs, s) = out (xst xdrs) @ bs \<and> fits (wr m buf bs, s) n"
    using inline_ok [OF inv fits] by fastforce
  then show thesis
  proof cases
    case 1
    then have "XDR_INLINE xdrs len = Some (0, with_xst xdrs (xst xdrs))"
      by (simp add: XDR_INLINE_def ops inline_slot)
    then show thesis by (intro null) (simp add: with_xst_def xst_def)
  next
    case 2
    then have "XDR_INLINE xdrs len = Some (buf, with_xst xdrs (m, s))"
      by (simp add: XDR_INLINE_def ops inline_slot)
    with 2 ops show thesis
      by (intro buffer [of buf "with_xst xdrs (m, s)"])
        (simp_all add: sinks_def sent_def room_def xst_def)
  qed
qed

end

text \<open>A stream whose in-line buffer is never refused while there is room.\<close>

locale xdr_mapped_sink = xdr_inline_sink ops inv out fits inl
  for ops :: "'s xdr_ops" and inv and out and fits and inl +
  assumes inline_mapped: "inv st \<Longrightarrow> fits st (unat len) \<Longrightarrow> fst (inl XDR_ENCODE st len) \<noteq> 0"
begin

lemma XDR_INLINE_mapped:
  assumes s: "sinks xdrs" and r: "room xdrs (unat len + n)"
  obtains buf x1 where "XDR_INLINE xdrs len = Some (buf, x1)" and "buf \<noteq> 0"
      and "\<And>bs. length bs = unat len \<Longrightarrow> sinks (x1\<lparr>x_mem := wr (x_mem x1) buf bs\<rparr>)"
      and "\<And>bs. length bs = unat len \<Longrightarrow> sent (x1\<lparr>x_mem := wr (x_mem x1) buf bs\<rparr>) = sent xdrs @ bs"
      and "\<And>bs. length bs = unat len \<Longrightarrow> room (x1\<lparr>x_mem := wr (x_mem x1) buf bs\<rparr>) n"
  using s r
proof (cases rule: XDR_INLINE_sink)
  case null
  have "fits (xst xdrs) (unat len)"
    using r fits_less [of "xst xdrs" "unat len" n] by (simp add: room_def)
  then have "fst (inl XDR_ENCODE (xst xdrs) len) \<noteq> 0"
    using s by (intro inline_mapped) (simp_all add: sinks_def)
  with null s have False by (auto simp: XDR_INLINE_def sinks_def inline_slot split: prod.splits)
  then show thesis ..
next
  case (buffer buf x1)
  then show thesis by (rule that)
qed

end

section \<open>Decoding\<close>

locale xdr_source =
  fixes ops :: "'s xdr_ops"
    and inv :: "mem \<times> 's \<Rightarrow> bool"
    and rest :: "mem \<times> 's \<Rightarrow> byte list"
    and ext :: "32 word \<Rightarrow> 64 word"
  assumes ucast_ext: "ucast (ext w) = w"
    and getlong_ok: "inv st \<Longrightarrow> rest st = be32 w @ rs \<Longrightarrow>
      \<exists>st'. x_getlong ops st l = Some (True, ext w, st') \<and> inv st' \<and> rest st' = rs"
    and getlong_short: "inv st \<Longrightarrow> length (rest st) < 4 \<Longrightarrow>
      \<exists>st'. x_getlong ops st l = Some (False, l, st')"
    and getbytes_ok: "inv st \<Longrightarrow> rest st = bs @ rs \<Longrightarrow> length bs = unat len \<Longrightarrow>
      \<exists>st'. x_getbytes ops st buf len = Some (True, fill buf bs, st') \<and> inv st' \<and> rest st' = rs"
    and getbytes_short: "inv st \<Longrightarrow> length (rest st) < unat len \<Longrightarrow>
      \<exists>buf' st'. x_getbytes ops st buf len = Some (False, buf', st')"
begin

definition sources :: "'s XDR \<Rightarrow> bool" where
  "sources xdrs \<longleftrightarrow> x_op xdrs = XDR_DECODE \<and> x_ops xdrs = ops \<and> inv (xst xdrs)"

definition pending :: "'s XDR \<Rightarrow> byte list" where
  "pending xdrs = rest (xst xdrs)"

definition decodes :: "('s, 'a) xdrproc_t \<Rightarrow> byte list \<Rightarrow> 'a \<Rightarrow> 'a \<Rightarrow> bool" where
  "decodes F bs v0 v \<longleftrightarrow>
     (\<forall>xdrs rs. sources xdrs \<and> pending xdrs = bs @ rs \<longrightarrow>
        (\<exists>xdrs'. F xdrs v0 = Some (True, xdrs', v) \<and> sources xdrs' \<and> pending xdrs' = rs))"

lemma decodesI:
  "(\<And>xdrs rs. sources xdrs \<Longrightarrow> pending xdrs = bs @ rs \<Longrightarrow>
      \<exists>xdrs'. F xdrs v0 = Some (True, xdrs', v) \<and> sources xdrs' \<and> pending xdrs' = rs) \<Longrightarrow>
   decodes F bs v0 v"
  by (simp add: decodes_def)

lemma decodesE:
  assumes "decodes F bs v0 v" and "sources xdrs" and "pending xdrs = bs @ rs"
  obtains xdrs' where "F xdrs v0 = Some (True, xdrs', v)" and "sources xdrs'"
    and "pending xdrs' = rs"
  using assms unfolding decodes_def by blast

lemma sources_op [simp]: "sources xdrs \<Longrightarrow> x_op xdrs = XDR_DECODE"
  by (simp add: sources_def)

lemma XDR_GETLONG_ok:
  assumes "sources xdrs" and "pending xdrs = be32 w @ rs"
  obtains xdrs' where "XDR_GETLONG xdrs l = Some (True, xdrs', ext w)" and "sources xdrs'"
    and "pending xdrs' = rs"
proof -
  from assms obtain st' where "x_getlong ops (xst xdrs) l = Some (True, ext w, st')"
    and "inv st'" and "rest st' = rs"
    using getlong_ok [of "xst xdrs" w rs l] by (auto simp: sources_def pending_def)
  with assms show thesis
    by (intro that [of "with_xst xdrs st'"])
      (auto simp: XDR_GETLONG_def sources_def pending_def)
qed

lemma XDR_GETLONG_short:
  assumes "sources xdrs" and "length (pending xdrs) < 4"
  obtains xdrs' where "XDR_GETLONG xdrs l = Some (False, xdrs', l)"
  using assms getlong_short [of "xst xdrs" l]
  by (auto simp: XDR_GETLONG_def sources_def pending_def)

lemma XDR_GETBYTES_ok:
  assumes "sources xdrs" and "pending xdrs = bs @ rs" and "length bs = unat len" and "length bs \<le> length buf"
  obtains xdrs' where "XDR_GETBYTES xdrs buf len = Some (True, xdrs', fill buf bs)"
    and "sources xdrs'" and "pending xdrs' = rs"
proof -
  from assms obtain st' where "x_getbytes ops (xst xdrs) buf len = Some (True, fill buf bs, st')"
    and "inv st'" and "rest st' = rs"
    using getbytes_ok [of "xst xdrs" bs rs len buf] by (auto simp: sources_def pending_def)
  with assms show thesis
    by (intro that [of "with_xst xdrs st'"])
      (auto simp: XDR_GETBYTES_def sources_def pending_def)
qed

lemma XDR_GETBYTES_overrun:
  assumes "sources xdrs" and "pending xdrs = bs @ rs" and "length bs = unat len" and "length buf < length bs"
  shows "XDR_GETBYTES xdrs buf len = None"
proof -
  from assms obtain st' where "x_getbytes ops (xst xdrs) buf len = Some (True, fill buf bs, st')"
    using getbytes_ok [of "xst xdrs" bs rs len buf] by (auto simp: sources_def pending_def)
  with assms show ?thesis by (simp add: XDR_GETBYTES_def sources_def fill_def)
qed

text \<open>A filter that runs over the end of the block \<open>v0\<close> points to when it decodes \<open>bs\<close>.\<close>

definition overruns :: "('s, 'a) xdrproc_t \<Rightarrow> byte list \<Rightarrow> 'a \<Rightarrow> bool" where
  "overruns F bs v0 \<longleftrightarrow> (\<forall>xdrs rs. sources xdrs \<and> pending xdrs = bs @ rs \<longrightarrow> F xdrs v0 = None)"

lemma decodes_check [codec]: "P v \<Longrightarrow> decodes (check P) [] v v"
  by (auto simp: decodes_def check_def)

lemma decodes_and_then [codec]:
  assumes F: "decodes F bs v0 v1" and G: "decodes G cs v1 v2"
  shows "decodes (\<lambda>xdrs v. and_then (F xdrs v) G) (bs @ cs) v0 v2"
proof (rule decodesI)
  fix xdrs rs
  assume s: "sources xdrs" and "pending xdrs = (bs @ cs) @ rs"
  then have p: "pending xdrs = bs @ (cs @ rs)" by simp
  obtain x1 where 1: "F xdrs v0 = Some (True, x1, v1)" and s1: "sources x1"
    and p1: "pending x1 = cs @ rs"
    by (rule decodesE [OF F s p])
  obtain x2 where "G x1 v1 = Some (True, x2, v2)" "sources x2" "pending x2 = rs"
    by (rule decodesE [OF G s1 p1])
  with 1 show "\<exists>xdrs'. and_then (F xdrs v0) G = Some (True, xdrs', v2) \<and> sources xdrs' \<and>
      pending xdrs' = rs"
    by simp
qed

lemma decodes_fld [codec]:
  assumes "decodes F bs (get r) v"
  shows "decodes (fld get upd F) bs r (upd (\<lambda>_. v) r)"
proof (rule decodesI)
  fix xdrs rs
  assume "sources xdrs" and "pending xdrs = bs @ rs"
  with assms show "\<exists>xdrs'. fld get upd F xdrs r = Some (True, xdrs', upd (\<lambda>_. v) r) \<and>
      sources xdrs' \<and> pending xdrs' = rs"
    by (auto simp: fld_def elim!: decodesE)
qed

lemma decodes_fst: "decodes F bs a a' \<Longrightarrow> decodes (fld fst apfst F) bs (a, b) (a', b)"
  using decodes_fld [of F bs fst "(a, b)" a' apfst] by simp

lemma decodes_snd: "decodes F bs b b' \<Longrightarrow> decodes (fld snd apsnd F) bs (a, b) (a, b')"
  using decodes_fld [of F bs snd "(a, b)" b' apsnd] by simp

lemma decodes_skip: "decodes (\<lambda>xdrs v. Some (True, xdrs, v)) [] v v"
  by (auto simp: decodes_def)

lemma decodes_if:
  "(P v0 \<Longrightarrow> decodes A bs v0 v) \<Longrightarrow> (\<not> P v0 \<Longrightarrow> decodes B bs v0 v) \<Longrightarrow>
   decodes (\<lambda>xdrs v. if P v then A xdrs v else B xdrs v) bs v0 v"
  by (simp add: decodes_def)

lemma decodes_eq: "decodes F bs v0 v \<Longrightarrow> bs = bs' \<Longrightarrow> v = v' \<Longrightarrow> decodes F bs' v0 v'"
  by simp

lemma decodes_from: "decodes F bs v0 v \<Longrightarrow> v0 = v1 \<Longrightarrow> decodes F bs v1 v"
  by simp

lemma decodes_cong: "decodes F bs v0 v \<Longrightarrow> (\<And>xdrs. sources xdrs \<Longrightarrow> G xdrs v0 = F xdrs v0) \<Longrightarrow>
    decodes G bs v0 v"
  by (simp add: decodes_def)

end

text \<open>
  An in-line buffer to decode from: \<open>NULL\<close> with the stream as it was, or the address of
  the next \<open>len\<close> bytes, which the stream has passed.
\<close>

locale xdr_inline_source = xdr_source ops inv rest ext
  for ops :: "'s xdr_ops" and inv and rest and ext +
  fixes inl :: "xdr_op \<Rightarrow> mem \<times> 's \<Rightarrow> 32 word \<Rightarrow> addr \<times> mem \<times> 's"
  assumes inline_slot: "x_inline ops = Some inl"
    and inline_ok: "inv st \<Longrightarrow> rest st = bs @ rs \<Longrightarrow> length bs = unat len \<Longrightarrow>
      inl XDR_DECODE st len = (0, st) \<or>
      (\<exists>buf st'. inl XDR_DECODE st len = (buf, st') \<and> buf \<noteq> 0 \<and>
         rd (fst st') buf (unat len) = bs \<and> inv st' \<and> rest st' = rs)"
    and inline_short: "inv st \<Longrightarrow> length (rest st) < unat len \<Longrightarrow> inl XDR_DECODE st len = (0, st)"

begin

lemma XDR_INLINE_source:
  assumes "sources xdrs" and "pending xdrs = bs @ rs" and "length bs = unat len"
  obtains (null) "XDR_INLINE xdrs len = Some (0, xdrs)"
  | (buffer) buf x1 where "XDR_INLINE xdrs len = Some (buf, x1)" and "buf \<noteq> 0"
      and "rd (x_mem x1) buf (length bs) = bs" and "sources x1" and "pending x1 = rs"
proof -
  have inv: "inv (xst xdrs)" and ops: "x_ops xdrs = ops" "x_op xdrs = XDR_DECODE"
    and rest: "rest (xst xdrs) = bs @ rs"
    using assms by (simp_all add: sources_def pending_def)
  consider "inl XDR_DECODE (xst xdrs) len = (0, xst xdrs)"
    | buf m s where "inl XDR_DECODE (xst xdrs) len = (buf, m, s)" "buf \<noteq> 0"
      "rd m buf (unat len) = bs" "inv (m, s)" "rest (m, s) = rs"
    using inline_ok [OF inv rest assms(3)] by fastforce
  then show thesis
  proof cases
    case 1
    then have "XDR_INLINE xdrs len = Some (0, with_xst xdrs (xst xdrs))"
      by (simp add: XDR_INLINE_def ops inline_slot)
    then show thesis by (intro null) (simp add: with_xst_def xst_def)
  next
    case 2
    then have "XDR_INLINE xdrs len = Some (buf, with_xst xdrs (m, s))"
      by (simp add: XDR_INLINE_def ops inline_slot)
    with 2 ops assms(3) show thesis
      by (intro buffer [of buf "with_xst xdrs (m, s)"])
        (simp_all add: sources_def pending_def)
  qed
qed

lemma XDR_INLINE_short:
  assumes "sources xdrs" and "length (pending xdrs) < unat len"
  shows "XDR_INLINE xdrs len = Some (0, xdrs)"
  using assms inline_short [of "xst xdrs" len]
  by (simp add: XDR_INLINE_def sources_def pending_def inline_slot with_xst_def xst_def)

end

text \<open>A stream that always gives the bytes it has as an in-line buffer.\<close>

locale xdr_mapped_source = xdr_inline_source ops inv rest ext inl
  for ops :: "'s xdr_ops" and inv and rest and ext and inl +
  assumes inline_mapped: "inv st \<Longrightarrow> unat len \<le> length (rest st) \<Longrightarrow>
      fst (inl XDR_DECODE st len) \<noteq> 0"
begin

lemma XDR_INLINE_mapped:
  assumes s: "sources xdrs" and p: "pending xdrs = bs @ rs" and l: "length bs = unat len"
  obtains buf x1 where "XDR_INLINE xdrs len = Some (buf, x1)" and "buf \<noteq> 0"
      and "rd (x_mem x1) buf (length bs) = bs" and "sources x1" and "pending x1 = rs"
  using s p l
proof (cases rule: XDR_INLINE_source)
  case null
  have "fst (inl XDR_DECODE (xst xdrs) len) \<noteq> 0"
    using s p l by (intro inline_mapped) (simp_all add: sources_def pending_def)
  with null s have False by (auto simp: XDR_INLINE_def sources_def inline_slot split: prod.splits)
  then show thesis ..
next
  case (buffer buf x1)
  then show thesis by (rule that)
qed

end

end
