(* ===== verification/Xdr_Generic.thy ===== *)
theory Xdr_Generic
  imports Xdr_Stream
begin

text \<open>
  \<open>lib/libtirpc/src/xdr.c\<close>: the generic filters, in the order of the file, and their
  contracts over any stream.  \<open>long\<close> is 64 bits wide, \<open>char\<close> is signed.  Storage comes
  from \<open>mem_alloc\<close>, which is \<open>calloc(1, n)\<close>: the parameter \<open>avail\<close> says which
  sizes it can serve.  The arguments a filter does not pass through the object (a maximal
  size, an element filter) come before the handle.
\<close>

definition mem_alloc :: "(nat \<Rightarrow> bool) \<Rightarrow> nat \<Rightarrow> byte list option" where
  "mem_alloc avail n = (if avail n then Some (replicate n 0) else None)"

definition xdr_free :: "('s, 'a) xdrproc_t \<Rightarrow> 's XDR \<Rightarrow> 'a \<Rightarrow> 'a option" where
  "xdr_free proc x objp = map_option (\<lambda>(ok, xdrs, obj). obj) (proc (x\<lparr>x_op := XDR_FREE\<rparr>) objp)"

definition xdr_void :: "('s, 'a) xdrproc_t" where
  "xdr_void xdrs v = Some (True, xdrs, v)"

section \<open>Integers\<close>

text \<open>
  The body the integer filters share: convert to \<open>long\<close> and put, get a \<open>long\<close> and
  convert back, nothing to free.  They differ in the two conversions.
\<close>

definition xdr_via_long ::
    "('a \<Rightarrow> 64 word) \<Rightarrow> (64 word \<Rightarrow> 'a) \<Rightarrow> ('s, 'a) xdrproc_t" where
  "xdr_via_long to_long of_long xdrs ip = (case x_op xdrs of
     XDR_ENCODE \<Rightarrow> do {
       let l = to_long ip;
       (ok, xdrs) \<leftarrow> XDR_PUTLONG xdrs l;
       Some (ok, xdrs, ip) }
   | XDR_DECODE \<Rightarrow> do {
       (ok, xdrs, l) \<leftarrow> XDR_GETLONG xdrs 0;
       if \<not> ok then Some (False, xdrs, ip) else Some (True, xdrs, of_long l) }
   | XDR_FREE \<Rightarrow> Some (True, xdrs, ip))"

definition xdr_int :: "('s, 32 word) xdrproc_t" where
  "xdr_int = xdr_via_long scast ucast"

definition xdr_u_int :: "('s, 32 word) xdrproc_t" where
  "xdr_u_int = xdr_via_long ucast ucast"

definition xdr_long :: "('s, 64 word) xdrproc_t" where
  "xdr_long xdrs lp = (case x_op xdrs of
     XDR_ENCODE \<Rightarrow> do { (ok, xdrs) \<leftarrow> XDR_PUTLONG xdrs lp; Some (ok, xdrs, lp) }
   | XDR_DECODE \<Rightarrow> XDR_GETLONG xdrs lp
   | XDR_FREE \<Rightarrow> Some (True, xdrs, lp))"

definition xdr_u_long :: "('s, 64 word) xdrproc_t" where
  "xdr_u_long xdrs ulp = (case x_op xdrs of
     XDR_ENCODE \<Rightarrow> do { (ok, xdrs) \<leftarrow> XDR_PUTLONG xdrs ulp; Some (ok, xdrs, ulp) }
   | XDR_DECODE \<Rightarrow> XDR_GETLONG xdrs ulp
   | XDR_FREE \<Rightarrow> Some (True, xdrs, ulp))"

definition xdr_int32_t :: "('s, 32 word) xdrproc_t" where
  "xdr_int32_t = xdr_via_long scast ucast"

definition xdr_u_int32_t :: "('s, 32 word) xdrproc_t" where
  "xdr_u_int32_t = xdr_via_long ucast ucast"

definition xdr_uint32_t :: "('s, 32 word) xdrproc_t" where
  "xdr_uint32_t xdrs p = xdr_u_int32_t xdrs p"

definition xdr_short :: "('s, 16 word) xdrproc_t" where
  "xdr_short = xdr_via_long scast ucast"

definition xdr_u_short :: "('s, 16 word) xdrproc_t" where
  "xdr_u_short = xdr_via_long ucast ucast"

definition xdr_int16_t :: "('s, 16 word) xdrproc_t" where
  "xdr_int16_t = xdr_via_long scast ucast"

definition xdr_u_int16_t :: "('s, 16 word) xdrproc_t" where
  "xdr_u_int16_t = xdr_via_long ucast ucast"

definition xdr_uint16_t :: "('s, 16 word) xdrproc_t" where
  "xdr_uint16_t xdrs p = xdr_u_int16_t xdrs p"

definition xdr_int8_t :: "('s, 8 word) xdrproc_t" where
  "xdr_int8_t = xdr_via_long scast ucast"

definition xdr_u_int8_t :: "('s, 8 word) xdrproc_t" where
  "xdr_u_int8_t = xdr_via_long ucast ucast"

definition xdr_uint8_t :: "('s, 8 word) xdrproc_t" where
  "xdr_uint8_t xdrs p = xdr_u_int8_t xdrs p"

definition xdr_char :: "('s, 8 word) xdrproc_t" where
  "xdr_char xdrs cp = do {
     let i = scast cp;
     (ok, xdrs, i) \<leftarrow> xdr_int xdrs i;
     if \<not> ok then Some (False, xdrs, cp) else Some (True, xdrs, ucast i) }"

definition xdr_u_char :: "('s, 8 word) xdrproc_t" where
  "xdr_u_char xdrs cp = do {
     let u = ucast cp;
     (ok, xdrs, u) \<leftarrow> xdr_u_int xdrs u;
     if \<not> ok then Some (False, xdrs, cp) else Some (True, xdrs, ucast u) }"

definition xdr_bool :: "('s, 32 word) xdrproc_t" where
  "xdr_bool xdrs bp = (case x_op xdrs of
     XDR_ENCODE \<Rightarrow> do {
       let lb = (if bp \<noteq> 0 then 1 else 0);
       (ok, xdrs) \<leftarrow> XDR_PUTLONG xdrs lb;
       Some (ok, xdrs, bp) }
   | XDR_DECODE \<Rightarrow> do {
       (ok, xdrs, lb) \<leftarrow> XDR_GETLONG xdrs 0;
       if \<not> ok then Some (False, xdrs, bp)
       else Some (True, xdrs, if lb = 0 then 0 else 1) }
   | XDR_FREE \<Rightarrow> Some (True, xdrs, bp))"

text \<open>The size comparisons are constant: an enumeration is as wide as an \<open>int\<close>.\<close>

definition xdr_enum :: "('s, 32 word) xdrproc_t" where
  "xdr_enum xdrs ep = xdr_int xdrs ep"

section \<open>Opaque bytes and strings\<close>

definition xdr_zero :: "byte list" where
  "xdr_zero = [0, 0, 0, 0]"

definition xdr_opaque :: "32 word \<Rightarrow> ('s, byte list) xdrproc_t" where
  "xdr_opaque cnt xdrs cp =
    (if cnt = 0 then Some (True, xdrs, cp)
     else let r = cnt mod 4; rndup = (if r > 0 then 4 - r else r); crud = replicate 16 0 in
       case x_op xdrs of
         XDR_DECODE \<Rightarrow> do {
           (ok, xdrs, cp) \<leftarrow> XDR_GETBYTES xdrs cp cnt;
           if \<not> ok then Some (False, xdrs, cp)
           else if rndup = 0 then Some (True, xdrs, cp)
           else do {
             (ok, xdrs, _) \<leftarrow> XDR_GETBYTES xdrs crud rndup;
             Some (ok, xdrs, cp) } }
       | XDR_ENCODE \<Rightarrow> do {
           (ok, xdrs) \<leftarrow> XDR_PUTBYTES xdrs cp cnt;
           if \<not> ok then Some (False, xdrs, cp)
           else if rndup = 0 then Some (True, xdrs, cp)
           else do {
             (ok, xdrs) \<leftarrow> XDR_PUTBYTES xdrs xdr_zero rndup;
             Some (ok, xdrs, cp) } }
       | XDR_FREE \<Rightarrow> Some (True, xdrs, cp))"

text \<open>
  The object of \<open>xdr_bytes\<close> is \<open>*cpp\<close> and \<open>*sizep\<close>.  Encoding a null \<open>*cpp\<close> of a
  positive size reads through the null pointer.
\<close>

definition xdr_bytes :: "(nat \<Rightarrow> bool) \<Rightarrow> 32 word \<Rightarrow> ('s, byte list option \<times> 32 word) xdrproc_t" where
  "xdr_bytes avail maxsize xdrs = (\<lambda>(sp, size0). do {
     (ok, xdrs, nodesize) \<leftarrow> xdr_u_int xdrs size0;
     if \<not> ok then Some (False, xdrs, sp, nodesize)
     else if nodesize > maxsize \<and> x_op xdrs \<noteq> XDR_FREE then Some (False, xdrs, sp, nodesize)
     else case x_op xdrs of
       XDR_DECODE \<Rightarrow>
         if nodesize = 0 then Some (True, xdrs, sp, nodesize)
         else (case sp of
           None \<Rightarrow> (case mem_alloc avail (unat nodesize) of
               None \<Rightarrow> Some (False, xdrs, None, nodesize)
             | Some b \<Rightarrow> do {
                 (ret, xdrs, b) \<leftarrow> xdr_opaque nodesize xdrs b;
                 Some (ret, xdrs, if ret then Some b else None, nodesize) })
         | Some b \<Rightarrow> do {
             (ret, xdrs, b) \<leftarrow> xdr_opaque nodesize xdrs b;
             Some (ret, xdrs, Some b, nodesize) })
     | XDR_ENCODE \<Rightarrow> (case sp of
           None \<Rightarrow> if nodesize = 0 then Some (True, xdrs, None, nodesize) else None
         | Some b \<Rightarrow> do {
             (ret, xdrs, b) \<leftarrow> xdr_opaque nodesize xdrs b;
             Some (ret, xdrs, Some b, nodesize) })
     | XDR_FREE \<Rightarrow> Some (True, xdrs, None, nodesize) })"

definition MAX_NETOBJ_SZ :: "32 word" where
  "MAX_NETOBJ_SZ = 1024"

definition xdr_netobj :: "(nat \<Rightarrow> bool) \<Rightarrow> ('s, byte list option \<times> 32 word) xdrproc_t" where
  "xdr_netobj avail xdrs np = xdr_bytes avail MAX_NETOBJ_SZ xdrs np"

text \<open>
  \<open>choices\<close> is the array of \<open>xdr_discrim\<close>, which ends at the first null procedure; a
  search that runs off the array is not defined.
\<close>

fun find_arm :: "(32 word \<times> 'p option) list \<Rightarrow> 32 word \<Rightarrow> 'p option option" where
  "find_arm ((_, None) # _) dscm = Some None"
| "find_arm ((val, Some proc) # choices) dscm =
     (if val = dscm then Some (Some proc) else find_arm choices dscm)"
| "find_arm [] _ = None"

definition xdr_union ::
    "(32 word \<times> ('s, 'u) xdrproc_t option) list \<Rightarrow> ('s, 'u) xdrproc_t option \<Rightarrow>
     ('s, 32 word \<times> 'u) xdrproc_t" where
  "xdr_union choices dfault xdrs = (\<lambda>(dscmp, unp). do {
     (ok, xdrs, dscm) \<leftarrow> xdr_enum xdrs dscmp;
     if \<not> ok then Some (False, xdrs, dscm, unp)
     else do {
       arm \<leftarrow> find_arm choices dscm;
       case arm of
         Some proc \<Rightarrow> do { (ok, xdrs, un) \<leftarrow> proc xdrs unp; Some (ok, xdrs, dscm, un) }
       | None \<Rightarrow> (case dfault of
           None \<Rightarrow> Some (False, xdrs, dscm, unp)
         | Some proc \<Rightarrow> do { (ok, xdrs, un) \<leftarrow> proc xdrs unp; Some (ok, xdrs, dscm, un) }) } })"

text \<open>
  \<open>xdr_string\<close>: \<open>size\<close> is not set before decoding; its value is not used then.  The
  terminator is stored before the bytes are read; a block too short for it would be overrun.
\<close>

definition xdr_string :: "(nat \<Rightarrow> bool) \<Rightarrow> 32 word \<Rightarrow> ('s, byte list option) xdrproc_t" where
  "xdr_string avail maxsize xdrs sp =
    (if x_op xdrs = XDR_FREE \<and> sp = None then Some (True, xdrs, sp)
     else if x_op xdrs = XDR_ENCODE \<and> sp = None then Some (False, xdrs, sp)
     else do {
         size0 \<leftarrow> (if x_op xdrs = XDR_DECODE then Some 0
                   else case sp of Some b \<Rightarrow> c_strlen b | None \<Rightarrow> None);
         (ok, xdrs, size) \<leftarrow> xdr_u_int xdrs (of_nat size0);
         if \<not> ok then Some (False, xdrs, sp)
         else if size > maxsize then Some (False, xdrs, sp)
         else let nodesize = size + 1 in
           if nodesize = 0 then Some (False, xdrs, sp)
           else case x_op xdrs of
             XDR_DECODE \<Rightarrow> (case sp of
                 None \<Rightarrow> (case mem_alloc avail (unat nodesize) of
                     None \<Rightarrow> Some (False, xdrs, None)
                   | Some b \<Rightarrow> do {
                       (ret, xdrs, b) \<leftarrow> xdr_opaque size xdrs (b[unat size := 0]);
                       Some (ret, xdrs, if ret then Some b else None) })
               | Some b \<Rightarrow> do {
                   (ret, xdrs, b) \<leftarrow> xdr_opaque size xdrs (b[unat size := 0]);
                   Some (ret, xdrs, Some b) })
           | XDR_ENCODE \<Rightarrow> (case sp of
                 None \<Rightarrow> None
               | Some b \<Rightarrow> do {
                   (ret, xdrs, b) \<leftarrow> xdr_opaque size xdrs b;
                   Some (ret, xdrs, Some b) })
           | XDR_FREE \<Rightarrow> Some (True, xdrs, None) })"

definition RPC_MAXDATASIZE :: "32 word" where
  "RPC_MAXDATASIZE = 9000"

definition xdr_wrapstring :: "(nat \<Rightarrow> bool) \<Rightarrow> ('s, byte list option) xdrproc_t" where
  "xdr_wrapstring avail xdrs cpp = xdr_string avail RPC_MAXDATASIZE xdrs cpp"

section \<open>64-bit integers\<close>

definition xdr_u_int64_t :: "('s, 64 word) xdrproc_t" where
  "xdr_u_int64_t xdrs ullp = (case x_op xdrs of
     XDR_ENCODE \<Rightarrow> do {
       let ul0 = drop_bit 32 ullp AND 0xffffffff;
       let ul1 = ullp AND 0xffffffff;
       (ok, xdrs) \<leftarrow> XDR_PUTLONG xdrs ul0;
       if \<not> ok then Some (False, xdrs, ullp)
       else do { (ok, xdrs) \<leftarrow> XDR_PUTLONG xdrs ul1; Some (ok, xdrs, ullp) } }
   | XDR_DECODE \<Rightarrow> do {
       (ok, xdrs, ul0) \<leftarrow> XDR_GETLONG xdrs 0;
       if \<not> ok then Some (False, xdrs, ullp)
       else do {
         (ok, xdrs, ul1) \<leftarrow> XDR_GETLONG xdrs 0;
         if \<not> ok then Some (False, xdrs, ullp)
         else Some (True, xdrs, push_bit 32 ul0 OR (ul1 AND 0xffffffff)) } }
   | XDR_FREE \<Rightarrow> Some (True, xdrs, ullp))"

definition xdr_int64_t :: "('s, 64 word) xdrproc_t" where
  "xdr_int64_t xdrs llp = (case x_op xdrs of
     XDR_ENCODE \<Rightarrow> do {
       let ul0 = drop_bit 32 llp AND 0xffffffff;
       let ul1 = llp AND 0xffffffff;
       (ok, xdrs) \<leftarrow> XDR_PUTLONG xdrs ul0;
       if \<not> ok then Some (False, xdrs, llp)
       else do { (ok, xdrs) \<leftarrow> XDR_PUTLONG xdrs ul1; Some (ok, xdrs, llp) } }
   | XDR_DECODE \<Rightarrow> do {
       (ok, xdrs, ul0) \<leftarrow> XDR_GETLONG xdrs 0;
       if \<not> ok then Some (False, xdrs, llp)
       else do {
         (ok, xdrs, ul1) \<leftarrow> XDR_GETLONG xdrs 0;
         if \<not> ok then Some (False, xdrs, llp)
         else Some (True, xdrs, push_bit 32 ul0 OR (ul1 AND 0xffffffff)) } }
   | XDR_FREE \<Rightarrow> Some (True, xdrs, llp))"

definition xdr_uint64_t :: "('s, 64 word) xdrproc_t" where
  "xdr_uint64_t xdrs ullp = xdr_u_int64_t xdrs ullp"

definition xdr_hyper :: "('s, 64 word) xdrproc_t" where
  "xdr_hyper xdrs llp = xdr_int64_t xdrs llp"

definition xdr_u_hyper :: "('s, 64 word) xdrproc_t" where
  "xdr_u_hyper xdrs ullp = xdr_u_int64_t xdrs ullp"

definition xdr_longlong_t :: "('s, 64 word) xdrproc_t" where
  "xdr_longlong_t xdrs llp = xdr_int64_t xdrs llp"

definition xdr_u_longlong_t :: "('s, 64 word) xdrproc_t" where
  "xdr_u_longlong_t xdrs ullp = xdr_u_int64_t xdrs ullp"

definition xdr_quad_t :: "('s, 64 word) xdrproc_t" where
  "xdr_quad_t xdrs llp = xdr_int64_t xdrs llp"

definition xdr_u_quad_t :: "('s, 64 word) xdrproc_t" where
  "xdr_u_quad_t xdrs ullp = xdr_u_int64_t xdrs ullp"

end
