(* ===== verification/Xdr_Mem.thy ===== *)
theory Xdr_Mem
  imports Xdr_Stream
begin

text \<open>
  \<open>lib/libtirpc/src/xdr_mem.c\<close>: the memory stream.  Its private data are the three words
  of the handle it uses, \<open>x_base\<close>, \<open>x_private\<close> and \<open>x_handy\<close>; the buffer is the
  memory they point into.  The invariant \<open>mem_inv m0 b n\<close> says that the stream is within the
  \<open>n\<close> bytes at \<open>b\<close> and that no byte outside them differs from \<open>m0\<close>, so the
  interpretations of the stream interfaces also show that no filter writes outside the buffer.
\<close>

record memstrm =
  m_base :: addr
  m_private :: addr
  m_handy :: "32 word"

text \<open>\<open>x_handy -= len; x_private += len\<close>.\<close>

definition advance :: "memstrm \<Rightarrow> 32 word \<Rightarrow> memstrm" where
  "advance s len = s\<lparr>m_handy := m_handy s - len, m_private := m_private s + unat len\<rparr>"

section \<open>The operations\<close>

definition xdrmem_getlong_aligned ::
    "mem \<times> memstrm \<Rightarrow> 64 word \<Rightarrow> (bool \<times> 64 word \<times> mem \<times> memstrm) option" where
  "xdrmem_getlong_aligned = (\<lambda>(m, s) lp.
     if m_handy s < 4 then Some (False, lp, m, s)
     else Some (True, ucast (ntohl (load32 m (m_private s))), m, advance s 4))"

definition xdrmem_putlong_aligned ::
    "mem \<times> memstrm \<Rightarrow> 64 word \<Rightarrow> (bool \<times> mem \<times> memstrm) option" where
  "xdrmem_putlong_aligned = (\<lambda>(m, s) lp.
     if m_handy s < 4 then Some (False, m, s)
     else Some (True, store32 m (m_private s) (htonl (ucast lp)), advance s 4))"

text \<open>The unaligned variants go through a local \<open>u_int32_t\<close> with \<open>memmove\<close>.\<close>

definition xdrmem_getlong_unaligned ::
    "mem \<times> memstrm \<Rightarrow> 64 word \<Rightarrow> (bool \<times> 64 word \<times> mem \<times> memstrm) option" where
  "xdrmem_getlong_unaligned = (\<lambda>(m, s) lp.
     if m_handy s < 4 then Some (False, lp, m, s)
     else let l = of_le32 (rd m (m_private s) 4)
       in Some (True, ucast (ntohl l), m, advance s 4))"

definition xdrmem_putlong_unaligned ::
    "mem \<times> memstrm \<Rightarrow> 64 word \<Rightarrow> (bool \<times> mem \<times> memstrm) option" where
  "xdrmem_putlong_unaligned = (\<lambda>(m, s) lp.
     if m_handy s < 4 then Some (False, m, s)
     else let l = htonl (ucast lp)
       in Some (True, wr m (m_private s) (le32 l), advance s 4))"

definition xdrmem_getbytes ::
    "mem \<times> memstrm \<Rightarrow> byte list \<Rightarrow> 32 word \<Rightarrow> (bool \<times> byte list \<times> mem \<times> memstrm) option" where
  "xdrmem_getbytes = (\<lambda>(m, s) addr len.
     if m_handy s < len then Some (False, addr, m, s)
     else Some (True, fill addr (rd m (m_private s) (unat len)), m, advance s len))"

definition xdrmem_putbytes ::
    "mem \<times> memstrm \<Rightarrow> byte list \<Rightarrow> 32 word \<Rightarrow> (bool \<times> mem \<times> memstrm) option" where
  "xdrmem_putbytes = (\<lambda>(m, s) addr len.
     if m_handy s < len then Some (False, m, s)
     else Some (True, wr m (m_private s) (take (unat len) addr), advance s len))"

definition xdrmem_getpos :: "xdr_op \<Rightarrow> mem \<times> memstrm \<Rightarrow> 32 word" where
  "xdrmem_getpos op = (\<lambda>(m, s). of_int (int (m_private s) - int (m_base s)))"

definition xdrmem_setpos :: "xdr_op \<Rightarrow> mem \<times> memstrm \<Rightarrow> 32 word \<Rightarrow> bool \<times> mem \<times> memstrm" where
  "xdrmem_setpos op = (\<lambda>(m, s) pos.
     let newaddr = m_base s + unat pos;
         lastaddr = m_private s + unat (m_handy s)
     in if newaddr > lastaddr then (False, m, s)
        else (True, m, s\<lparr>m_private := newaddr, m_handy := of_nat (lastaddr - newaddr)\<rparr>))"

definition xdrmem_inline_aligned ::
    "xdr_op \<Rightarrow> mem \<times> memstrm \<Rightarrow> 32 word \<Rightarrow> addr \<times> mem \<times> memstrm" where
  "xdrmem_inline_aligned op = (\<lambda>(m, s) len.
     if m_handy s \<ge> len then (m_private s, m, advance s len) else (0, m, s))"

definition xdrmem_inline_unaligned ::
    "xdr_op \<Rightarrow> mem \<times> memstrm \<Rightarrow> 32 word \<Rightarrow> addr \<times> mem \<times> memstrm" where
  "xdrmem_inline_unaligned op st len = (0, st)"

definition xdrmem_ops_aligned :: "memstrm xdr_ops" where
  "xdrmem_ops_aligned = \<lparr>
     x_getlong = xdrmem_getlong_aligned,
     x_putlong = xdrmem_putlong_aligned,
     x_getbytes = xdrmem_getbytes,
     x_putbytes = xdrmem_putbytes,
     x_getpostn = Some xdrmem_getpos,
     x_setpostn = Some xdrmem_setpos,
     x_inline = Some xdrmem_inline_aligned\<rparr>"

definition xdrmem_ops_unaligned :: "memstrm xdr_ops" where
  "xdrmem_ops_unaligned = \<lparr>
     x_getlong = xdrmem_getlong_unaligned,
     x_putlong = xdrmem_putlong_unaligned,
     x_getbytes = xdrmem_getbytes,
     x_putbytes = xdrmem_putbytes,
     x_getpostn = Some xdrmem_getpos,
     x_setpostn = Some xdrmem_setpos,
     x_inline = Some xdrmem_inline_unaligned\<rparr>"

text \<open>\<open>xdrmem_create\<close> picks the vector by the alignment of the buffer.\<close>

definition xdrmem_create :: "mem \<Rightarrow> addr \<Rightarrow> 32 word \<Rightarrow> xdr_op \<Rightarrow> memstrm XDR" where
  "xdrmem_create m addr sz op = \<lparr>
     x_op = op,
     x_ops = (if addr mod 4 \<noteq> 0 then xdrmem_ops_unaligned else xdrmem_ops_aligned),
     x_mem = m,
     x_private = \<lparr>m_base = addr, m_private = addr, m_handy = sz\<rparr>\<rparr>"

section \<open>The stream's invariant\<close>

definition mem_inv :: "mem \<Rightarrow> addr \<Rightarrow> nat \<Rightarrow> mem \<times> memstrm \<Rightarrow> bool" where
  "mem_inv m0 b n = (\<lambda>(m, s). b \<noteq> 0 \<and> m_base s = b \<and> b \<le> m_private s \<and>
     m_private s + unat (m_handy s) = b + n \<and> (\<forall>x. x < b \<or> b + n \<le> x \<longrightarrow> m x = m0 x))"

definition mem_out :: "mem \<times> memstrm \<Rightarrow> byte list" where
  "mem_out = (\<lambda>(m, s). rd m (m_base s) (m_private s - m_base s))"

definition mem_fits :: "mem \<times> memstrm \<Rightarrow> nat \<Rightarrow> bool" where
  "mem_fits = (\<lambda>(m, s) k. k \<le> unat (m_handy s))"

definition mem_rest :: "mem \<times> memstrm \<Rightarrow> byte list" where
  "mem_rest = (\<lambda>(m, s). rd m (m_private s) (unat (m_handy s)))"

lemmas mem_stream_defs = mem_inv_def mem_out_def mem_fits_def mem_rest_def

lemma advance_fields [simp]:
  "m_base (advance s len) = m_base s"
  "m_private (advance s len) = m_private s + unat len"
  "m_handy (advance s len) = m_handy s - len"
  by (simp_all add: advance_def)

text \<open>The two facts every operation rests on: writing and reading at the finger.\<close>

lemma mem_write:
  assumes inv: "mem_inv m0 b n (m, s)" and fits: "mem_fits (m, s) (unat len + k)"
    and len: "length bs = unat len"
  shows "mem_inv m0 b n (wr m (m_private s) bs, advance s len)"
    and "mem_out (wr m (m_private s) bs, advance s len) = mem_out (m, s) @ bs"
    and "mem_fits (wr m (m_private s) bs, advance s len) k"
proof -
  have le: "len \<le> m_handy s"
    using fits by (simp add: mem_fits_def word_le_nat_alt)
  then have handy: "unat (m_handy s - len) = unat (m_handy s) - unat len"
    by (rule unat_sub)
  have le': "unat len \<le> unat (m_handy s)"
    using le by (simp add: word_le_nat_alt)
  from inv handy le' len show "mem_inv m0 b n (wr m (m_private s) bs, advance s len)"
    by (auto simp: mem_inv_def wr_outside)
  from inv have base: "m_base s \<le> m_private s"
    by (simp add: mem_inv_def)
  then have "m_private s + unat len - m_base s = (m_private s - m_base s) + unat len"
    and "m_base s + (m_private s - m_base s) = m_private s"
    by simp_all
  with base len show "mem_out (wr m (m_private s) bs, advance s len) = mem_out (m, s) @ bs"
    by (simp only: mem_out_def prod.case advance_fields rd_add) simp
  from handy fits show "mem_fits (wr m (m_private s) bs, advance s len) k"
    by (simp add: mem_fits_def)
qed

lemma mem_read:
  assumes inv: "mem_inv m0 b n (m, s)" and rest: "mem_rest (m, s) = bs @ rs"
    and len: "length bs = unat len"
  shows "len \<le> m_handy s" and "rd m (m_private s) (unat len) = bs"
    and "mem_inv m0 b n (m, advance s len)" and "mem_rest (m, advance s len) = rs"
proof -
  have split: "rd m (m_private s) (unat (m_handy s)) = bs @ rs"
    using rest by (simp add: mem_rest_def)
  from rd_split(3) [OF split] len show le: "len \<le> m_handy s"
    by (simp add: word_le_nat_alt)
  then have handy: "unat (m_handy s - len) = unat (m_handy s) - unat len"
    by (rule unat_sub)
  from rd_split(1) [OF split] len show "rd m (m_private s) (unat len) = bs"
    by simp
  from inv handy le show "mem_inv m0 b n (m, advance s len)"
    by (auto simp: mem_inv_def word_le_nat_alt)
  from rd_split(2) [OF split] len handy show "mem_rest (m, advance s len) = rs"
    by (simp add: mem_rest_def)
qed

lemma mem_short: "length (mem_rest (m, s)) < unat len \<Longrightarrow> m_handy s < len"
  by (simp add: mem_rest_def word_less_nat_alt)

lemma unat_4 [simp]: "unat (4 :: 32 word) = 4"
  by simp

section \<open>Both vectors are streams\<close>

lemmas xdrmem_op_defs =
  xdrmem_getlong_aligned_def xdrmem_putlong_aligned_def xdrmem_getlong_unaligned_def
  xdrmem_putlong_unaligned_def xdrmem_getbytes_def xdrmem_putbytes_def
  xdrmem_inline_aligned_def xdrmem_inline_unaligned_def

lemma mem_fits_handy: "mem_fits (m, s) (unat len + k) \<Longrightarrow> \<not> m_handy s < len"
  by (simp add: mem_fits_def word_less_nat_alt)

lemma xdrmem_putlong_ok:
  assumes "mem_inv m0 b n st" and "mem_fits st (4 + k)" and "f = xdrmem_putlong_aligned \<or> f = xdrmem_putlong_unaligned"
  shows "\<exists>st'. f st l = Some (True, st') \<and> mem_inv m0 b n st' \<and>
    mem_out st' = mem_out st @ be32 (ucast l) \<and> mem_fits st' k"
proof (cases st)
  case (Pair m s)
  with assms(1,2) have inv: "mem_inv m0 b n (m, s)" and fits: "mem_fits (m, s) (unat (4 :: 32 word) + k)"
    by simp_all
  note w = mem_write [OF inv fits, of "be32 (ucast l)"]
  from mem_fits_handy [OF fits] assms(3) w Pair show ?thesis
    by (auto simp: xdrmem_op_defs store32_htonl Let_def)
qed

lemma xdrmem_putlong_full:
  assumes "mem_inv m0 b n st" and "\<not> mem_fits st 4" and "f = xdrmem_putlong_aligned \<or> f = xdrmem_putlong_unaligned"
  shows "\<exists>st'. f st l = Some (False, st') \<and> mem_inv m0 b n st'"
  using assms by (cases st) (auto simp: xdrmem_op_defs mem_fits_def word_less_nat_alt)

lemma xdrmem_putbytes_ok:
  assumes "mem_inv m0 b n st" and "mem_fits st (unat len + k)" and "unat len \<le> length bs"
  shows "\<exists>st'. xdrmem_putbytes st bs len = Some (True, st') \<and> mem_inv m0 b n st' \<and>
    mem_out st' = mem_out st @ take (unat len) bs \<and> mem_fits st' k"
proof (cases st)
  case (Pair m s)
  with assms(1,2) have inv: "mem_inv m0 b n (m, s)" and fits: "mem_fits (m, s) (unat len + k)"
    by simp_all
  from mem_fits_handy [OF fits] mem_write [OF inv fits, of "take (unat len) bs"] assms(3) Pair
  show ?thesis
    by (auto simp: xdrmem_op_defs)
qed

lemma xdrmem_getlong_ok:
  assumes "mem_inv m0 b n st" and "mem_rest st = be32 w @ rs"
    and "f = xdrmem_getlong_aligned \<or> f = xdrmem_getlong_unaligned"
  shows "\<exists>st'. f st l = Some (True, ucast w, st') \<and> mem_inv m0 b n st' \<and> mem_rest st' = rs"
proof (cases st)
  case (Pair m s)
  with assms(1,2) have inv: "mem_inv m0 b n (m, s)" and rest: "mem_rest (m, s) = be32 w @ rs"
    by simp_all
  from mem_read [OF inv rest, of 4] assms(3) Pair show ?thesis
    by (auto simp: xdrmem_op_defs load32_def Let_def)
qed

lemma xdrmem_getbytes_ok:
  assumes "mem_inv m0 b n st" and "mem_rest st = bs @ rs" and "length bs = unat len"
  shows "\<exists>st'. xdrmem_getbytes st buf len = Some (True, fill buf bs, st') \<and>
    mem_inv m0 b n st' \<and> mem_rest st' = rs"
proof (cases st)
  case (Pair m s)
  with assms(1,2) have inv: "mem_inv m0 b n (m, s)" and rest: "mem_rest (m, s) = bs @ rs"
    by simp_all
  from mem_read [OF inv rest assms(3)] Pair show ?thesis
    by (auto simp: xdrmem_op_defs)
qed

lemma xdrmem_getlong_short:
  assumes "length (mem_rest st) < 4"
    and "f = xdrmem_getlong_aligned \<or> f = xdrmem_getlong_unaligned"
  shows "\<exists>st'. f st l = Some (False, l, st')"
  using assms mem_short [of "fst st" "snd st" 4] by (cases st) (auto simp: xdrmem_op_defs)

lemma xdrmem_getbytes_short:
  assumes "length (mem_rest st) < unat len"
  shows "\<exists>buf' st'. xdrmem_getbytes st buf len = Some (False, buf', st')"
  using assms mem_short [of "fst st" "snd st" len] by (cases st) (auto simp: xdrmem_op_defs)

lemma xdrmem_inline_short:
  assumes "length (mem_rest st) < unat len"
  shows "xdrmem_inline_aligned op st len = (0, st)"
  using assms mem_short [of "fst st" "snd st" len]
  by (cases st) (auto simp: xdrmem_op_defs not_le [symmetric])

lemma xdrmem_inline_encode:
  assumes "mem_inv m0 b n st" and "mem_fits st (unat len + k)"
  shows "\<exists>buf st'. xdrmem_inline_aligned op st len = (buf, st') \<and> buf \<noteq> 0 \<and>
    (\<forall>bs. length bs = unat len \<longrightarrow> mem_inv m0 b n (wr (fst st') buf bs, snd st') \<and>
       mem_out (wr (fst st') buf bs, snd st') = mem_out st @ bs \<and>
       mem_fits (wr (fst st') buf bs, snd st') k)"
proof (cases st)
  case (Pair m s)
  with assms have inv: "mem_inv m0 b n (m, s)" and fits: "mem_fits (m, s) (unat len + k)"
    by simp_all
  from inv have "m_private s \<noteq> 0" by (auto simp: mem_inv_def)
  with mem_fits_handy [OF fits] mem_write [OF inv fits] Pair show ?thesis
    by (auto simp: xdrmem_op_defs not_less)
qed

lemma xdrmem_inline_decode:
  assumes "mem_inv m0 b n st" and "mem_rest st = bs @ rs" and "length bs = unat len"
  shows "\<exists>buf st'. xdrmem_inline_aligned op st len = (buf, st') \<and> buf \<noteq> 0 \<and>
    rd (fst st') buf (unat len) = bs \<and> mem_inv m0 b n st' \<and> mem_rest st' = rs"
proof (cases st)
  case (Pair m s)
  with assms(1,2) have inv: "mem_inv m0 b n (m, s)" and rest: "mem_rest (m, s) = bs @ rs"
    by simp_all
  from inv have "m_private s \<noteq> 0" by (auto simp: mem_inv_def)
  with mem_read [OF inv rest assms(3)] Pair show ?thesis
    by (auto simp: xdrmem_op_defs)
qed

lemma xdrmem_ops_aligned_sel:
  "x_getlong xdrmem_ops_aligned = xdrmem_getlong_aligned"
  "x_putlong xdrmem_ops_aligned = xdrmem_putlong_aligned"
  "x_getbytes xdrmem_ops_aligned = xdrmem_getbytes"
  "x_putbytes xdrmem_ops_aligned = xdrmem_putbytes"
  "x_inline xdrmem_ops_aligned = Some xdrmem_inline_aligned"
  by (simp_all add: xdrmem_ops_aligned_def)

lemma xdrmem_ops_unaligned_sel:
  "x_getlong xdrmem_ops_unaligned = xdrmem_getlong_unaligned"
  "x_putlong xdrmem_ops_unaligned = xdrmem_putlong_unaligned"
  "x_getbytes xdrmem_ops_unaligned = xdrmem_getbytes"
  "x_putbytes xdrmem_ops_unaligned = xdrmem_putbytes"
  "x_inline xdrmem_ops_unaligned = Some xdrmem_inline_unaligned"
  by (simp_all add: xdrmem_ops_unaligned_def)

lemma mem_fits_less: "mem_fits st (k + n) \<Longrightarrow> mem_fits st k"
  by (cases st) (simp add: mem_fits_def)

lemma xdrmem_inline_nonnull:
  assumes "mem_inv m0 b n st" and "mem_fits st (unat len) \<or> unat len \<le> length (mem_rest st)"
  shows "fst (xdrmem_inline_aligned op st len) \<noteq> 0"
  using assms by (cases st) (auto simp: xdrmem_op_defs mem_inv_def mem_fits_def mem_rest_def word_le_nat_alt)

lemmas mem_sink_laws = xdrmem_putlong_ok xdrmem_putlong_full xdrmem_putbytes_ok mem_fits_less
  disjI2 [OF xdrmem_inline_encode] xdrmem_inline_nonnull

lemmas mem_source_laws = xdrmem_getlong_ok xdrmem_getlong_short xdrmem_getbytes_ok
  xdrmem_getbytes_short disjI2 [OF xdrmem_inline_decode] xdrmem_inline_short xdrmem_inline_nonnull

interpretation al: xdr_mapped_sink xdrmem_ops_aligned "mem_inv m0 b n" mem_out mem_fits
  xdrmem_inline_aligned for m0 b n
  by (unfold_locales; (simp only: xdrmem_ops_aligned_sel)?; (rule mem_sink_laws)?;
      (assumption | simp))

interpretation un: xdr_inline_sink xdrmem_ops_unaligned "mem_inv m0 b n" mem_out mem_fits
  xdrmem_inline_unaligned for m0 b n
  by (unfold_locales; (simp only: xdrmem_ops_unaligned_sel xdrmem_inline_unaligned_def simp_thms)?;
      rule mem_sink_laws; (assumption | simp))

interpretation ald: xdr_mapped_source xdrmem_ops_aligned "mem_inv m0 b n" mem_rest ucast
  xdrmem_inline_aligned for m0 b n
  by (unfold_locales; (simp only: xdrmem_ops_aligned_sel ucast_up_down)?; rule mem_source_laws;
      (assumption | simp))

interpretation und: xdr_inline_source xdrmem_ops_unaligned "mem_inv m0 b n" mem_rest ucast
  xdrmem_inline_unaligned for m0 b n
  by (unfold_locales;
      (simp only: xdrmem_ops_unaligned_sel ucast_up_down xdrmem_inline_unaligned_def simp_thms)?;
      rule mem_source_laws; (assumption | simp))

section \<open>Encoding into a buffer and decoding from one\<close>

text \<open>
  What the contracts say of a handle that has just been created on a buffer: the bytes are at
  its front, nothing outside it was written, and the finger is behind them.
\<close>

definition mem_handle :: "memstrm xdr_ops \<Rightarrow> mem \<Rightarrow> addr \<Rightarrow> 32 word \<Rightarrow> xdr_op \<Rightarrow> memstrm XDR" where
  "mem_handle ops m a sz op = \<lparr>x_op = op, x_ops = ops, x_mem = m,
     x_private = \<lparr>m_base = a, m_private = a, m_handy = sz\<rparr>\<rparr>"

lemma mem_handle_inv: "a \<noteq> 0 \<Longrightarrow> mem_inv m a (unat sz) (xst (mem_handle ops m a sz op))"
  by (simp add: mem_handle_def xst_def mem_inv_def)

lemma mem_handle_fields [simp]:
  "x_op (mem_handle ops m a sz op) = op" "x_ops (mem_handle ops m a sz op) = ops"
  by (simp_all add: mem_handle_def)

lemma mem_full:
  assumes inv: "mem_inv m0 a n st" and out: "length (mem_out st) = n"
  shows "\<not> mem_fits st 4"
  using assms by (cases st) (auto simp: mem_stream_defs)

locale mem_sink = xdr_sink ops "mem_inv m0 b n" mem_out mem_fits
  for ops :: "memstrm xdr_ops" and m0 b n
begin

lemma mem_encode:
  assumes F: "encodes F v bs v'" and n: "n = unat sz" and a: "b \<noteq> 0" and l: "length bs \<le> unat sz"
  obtains xdrs where "F (mem_handle ops m0 b sz XDR_ENCODE) v = Some (True, xdrs, v')"
    and "rd (x_mem xdrs) b (length bs) = bs"
    and "\<forall>x. x < b \<or> b + unat sz \<le> x \<longrightarrow> x_mem xdrs x = m0 x"
    and "x_ops xdrs = ops" and "x_op xdrs = XDR_ENCODE"
    and "m_base (x_private xdrs) = b" and "m_private (x_private xdrs) = b + length bs"
proof -
  let ?x0 = "mem_handle ops m0 b sz XDR_ENCODE"
  have s0: "sinks ?x0"
    unfolding sinks_def unfolding n by (simp add: mem_handle_inv [OF a])
  have sent0: "sent ?x0 = []"
    unfolding sent_def by (simp add: mem_handle_def xst_def mem_out_def)
  have "room ?x0 (length bs + 0)"
    unfolding room_def using l by (simp add: mem_handle_def xst_def mem_fits_def)
  then obtain x1 where F1: "F ?x0 v = Some (True, x1, v')" and s: "sinks x1" and out: "sent x1 = bs"
    using encodesE [OF F s0, of 0] sent0 by auto
  have inv: "mem_inv m0 b n (x_mem x1, x_private x1)"
    and ops: "x_ops x1 = ops" "x_op x1 = XDR_ENCODE"
    using s unfolding sinks_def by (simp_all add: xst_def)
  have base: "m_base (x_private x1) = b" and le: "b \<le> m_private (x_private x1)"
    and frame: "\<forall>x. x < b \<or> b + unat sz \<le> x \<longrightarrow> x_mem x1 x = m0 x"
    using inv n by (auto simp: mem_inv_def)
  have rd: "rd (x_mem x1) b (m_private (x_private x1) - b) = bs"
    using out base unfolding sent_def by (simp add: xst_def mem_out_def)
  then have len: "m_private (x_private x1) - b = length bs"
    by (metis length_rd)
  with le have priv: "m_private (x_private x1) = b + length bs" by simp
  from rd len have "rd (x_mem x1) b (length bs) = bs" by simp
  with F1 frame ops base priv show thesis by (intro that)
qed

end

locale mem_source = xdr_source ops "mem_inv m0 b n" mem_rest ext
  for ops :: "memstrm xdr_ops" and m0 b n and ext
begin

lemma mem_decode_rest:
  assumes F: "decodes F bs v0 v" and n: "n = unat sz" and a: "b \<noteq> 0" and l: "length bs \<le> unat sz"
    and rd: "rd m0 b (length bs) = bs"
  obtains xdrs where "F (mem_handle ops m0 b sz XDR_DECODE) v0 = Some (True, xdrs, v)"
    and "\<forall>x. x < b \<or> b + unat sz \<le> x \<longrightarrow> x_mem xdrs x = m0 x"
    and "x_ops xdrs = ops" and "x_op xdrs = XDR_DECODE"
    and "m_base (x_private xdrs) = b" and "m_private (x_private xdrs) = b + length bs"
    and "rd (x_mem xdrs) (b + length bs) (unat sz - length bs) = rd m0 (b + length bs) (unat sz - length bs)"
proof -
  let ?x0 = "mem_handle ops m0 b sz XDR_DECODE"
  obtain k where k: "unat sz = length bs + k"
    using l le_Suc_ex by blast
  have s0: "sources ?x0"
    unfolding sources_def unfolding n by (simp add: mem_handle_inv [OF a])
  have "pending ?x0 = bs @ rd m0 (b + length bs) k"
    unfolding pending_def using rd k by (simp add: mem_handle_def xst_def mem_rest_def rd_add)
  then obtain x1 where F1: "F ?x0 v0 = Some (True, x1, v)" and s: "sources x1"
    and p: "pending x1 = rd m0 (b + length bs) k"
    by (rule decodesE [OF F s0])
  have inv: "mem_inv m0 b n (x_mem x1, x_private x1)"
    and ops: "x_ops x1 = ops" "x_op x1 = XDR_DECODE"
    using s unfolding sources_def by (simp_all add: xst_def)
  have base: "m_base (x_private x1) = b"
    and sum: "m_private (x_private x1) + unat (m_handy (x_private x1)) = b + unat sz"
    and frame: "\<forall>x. x < b \<or> b + unat sz \<le> x \<longrightarrow> x_mem x1 x = m0 x"
    using inv n by (auto simp: mem_inv_def)
  have h: "unat (m_handy (x_private x1)) = k"
    using arg_cong [OF p, of length] unfolding pending_def by (simp add: xst_def mem_rest_def)
  with sum k have priv: "m_private (x_private x1) = b + length bs" by simp
  have "rd (x_mem x1) (b + length bs) k = rd m0 (b + length bs) k"
    using p h priv unfolding pending_def by (simp add: xst_def mem_rest_def)
  then have "rd (x_mem x1) (b + length bs) (unat sz - length bs) = rd m0 (b + length bs) (unat sz - length bs)"
    by (simp add: k)
  with F1 frame ops base priv show thesis by (intro that)
qed

lemma mem_decode:
  assumes "decodes F bs v0 v" and "n = unat sz" and "b \<noteq> 0" and "length bs \<le> unat sz"
    and "rd m0 b (length bs) = bs"
  obtains xdrs where "F (mem_handle ops m0 b sz XDR_DECODE) v0 = Some (True, xdrs, v)"
    and "\<forall>x. x < b \<or> b + unat sz \<le> x \<longrightarrow> x_mem xdrs x = m0 x"
    and "x_ops xdrs = ops" and "x_op xdrs = XDR_DECODE"
    and "m_base (x_private xdrs) = b" and "m_private (x_private xdrs) = b + length bs"
  by (rule mem_decode_rest [OF assms]) (rule that)

lemma mem_overrun:
  assumes F: "overruns F bs v0" and n: "n = unat sz" and a: "b \<noteq> 0" and l: "length bs \<le> unat sz"
    and rd: "rd m0 b (length bs) = bs"
  shows "F (mem_handle ops m0 b sz XDR_DECODE) v0 = None"
proof -
  obtain k where k: "unat sz = length bs + k" using l le_Suc_ex by blast
  have "sources (mem_handle ops m0 b sz XDR_DECODE)"
    unfolding sources_def unfolding n by (simp add: mem_handle_inv [OF a])
  moreover have "pending (mem_handle ops m0 b sz XDR_DECODE) = bs @ rd m0 (b + length bs) k"
    unfolding pending_def using rd k by (simp add: mem_handle_def xst_def mem_rest_def rd_add)
  ultimately show ?thesis using F unfolding overruns_def by blast
qed

end

interpretation alb: mem_sink xdrmem_ops_aligned m0 b n for m0 b n
  by unfold_locales

interpretation unb: mem_sink xdrmem_ops_unaligned m0 b n for m0 b n
  by unfold_locales

interpretation aldb: mem_source xdrmem_ops_aligned m0 b n ucast for m0 b n
  by unfold_locales

interpretation undb: mem_source xdrmem_ops_unaligned m0 b n ucast for m0 b n
  by unfold_locales

lemma xdrmem_create_handle:
  "a mod 4 = 0 \<Longrightarrow> xdrmem_create m a sz op = mem_handle xdrmem_ops_aligned m a sz op"
  "a mod 4 \<noteq> 0 \<Longrightarrow> xdrmem_create m a sz op = mem_handle xdrmem_ops_unaligned m a sz op"
  by (simp_all add: xdrmem_create_def mem_handle_def)

text \<open>A filter with the same contract on both vectors does the same on any buffer.\<close>

lemma xdrmem_encode:
  assumes F: "al.encodes m a (unat sz) F v bs v'" "un.encodes m a (unat sz) F v bs v'"
    and a: "a \<noteq> 0" and l: "length bs \<le> unat sz"
  obtains xdrs where "F (xdrmem_create m a sz XDR_ENCODE) v = Some (True, xdrs, v')"
    and "rd (x_mem xdrs) a (length bs) = bs"
    and "\<forall>x. x < a \<or> a + unat sz \<le> x \<longrightarrow> x_mem xdrs x = m x"
    and "m_private (x_private xdrs) = a + length bs"
proof (cases "a mod 4 = 0")
  case True
  show thesis
    by (rule alb.mem_encode [OF F(1) refl a l]) (rule that, simp_all add: xdrmem_create_handle True)
next
  case False
  show thesis
    by (rule unb.mem_encode [OF F(2) refl a l])
      (rule that, simp_all only: xdrmem_create_handle(2) [OF False] simp_thms)
qed

lemma xdrmem_pos:
  assumes "x_ops xdrs \<in> {xdrmem_ops_aligned, xdrmem_ops_unaligned}"
    and "m_base (x_private xdrs) = a" and "m_private (x_private xdrs) = a + n"
  shows "XDR_GETPOS xdrs = Some (of_nat n)"
  using assms
  by (auto simp: XDR_GETPOS_def xdrmem_ops_aligned_def xdrmem_ops_unaligned_def xdrmem_getpos_def xst_def)

lemma xdrmem_encode_pos:
  assumes F: "al.encodes m a (unat sz) F v bs v'" "un.encodes m a (unat sz) F v bs v'"
    and a: "a \<noteq> 0" and l: "length bs \<le> unat sz"
  obtains xdrs where "F (xdrmem_create m a sz XDR_ENCODE) v = Some (True, xdrs, v')"
    and "rd (x_mem xdrs) a (length bs) = bs" and "XDR_GETPOS xdrs = Some (of_nat (length bs))"
proof (cases "a mod 4 = 0")
  case True
  show thesis
    by (rule alb.mem_encode [OF F(1) refl a l])
      (rule that, simp add: xdrmem_create_handle True, simp, rule xdrmem_pos, simp_all)
next
  case False
  show thesis
    by (rule unb.mem_encode [OF F(2) refl a l])
      (rule that, simp add: xdrmem_create_handle(2) [OF False], simp, rule xdrmem_pos, simp_all)
qed

lemma xdrmem_decode_rest:
  assumes F: "ald.decodes m a (unat sz) F bs v0 v" "und.decodes m a (unat sz) F bs v0 v"
    and a: "a \<noteq> 0" and l: "length bs \<le> unat sz" and rd: "rd m a (length bs) = bs"
  obtains xdrs where "F (xdrmem_create m a sz XDR_DECODE) v0 = Some (True, xdrs, v)"
    and "m_private (x_private xdrs) = a + length bs" and "m_base (x_private xdrs) = a"
    and "x_ops xdrs \<in> {xdrmem_ops_aligned, xdrmem_ops_unaligned}"
    and "rd (x_mem xdrs) (a + length bs) (unat sz - length bs) = rd m (a + length bs) (unat sz - length bs)"
proof (cases "a mod 4 = 0")
  case True
  show thesis
    by (rule aldb.mem_decode_rest [OF F(1) refl a l rd]) (rule that, simp_all add: xdrmem_create_handle True)
next
  case False
  show thesis
    by (rule undb.mem_decode_rest [OF F(2) refl a l rd])
      (rule that, simp_all only: xdrmem_create_handle(2) [OF False] simp_thms insert_iff)
qed

lemma xdrmem_decode:
  assumes F: "ald.decodes m a (unat sz) F bs v0 v" "und.decodes m a (unat sz) F bs v0 v"
    and a: "a \<noteq> 0" and l: "length bs \<le> unat sz" and rd: "rd m a (length bs) = bs"
  obtains xdrs where "F (xdrmem_create m a sz XDR_DECODE) v0 = Some (True, xdrs, v)"
    and "\<forall>x. x < a \<or> a + unat sz \<le> x \<longrightarrow> x_mem xdrs x = m x"
    and "m_private (x_private xdrs) = a + length bs" and "x_op xdrs = XDR_DECODE"
proof (cases "a mod 4 = 0")
  case True
  show thesis
    by (rule aldb.mem_decode [OF F(1) refl a l rd]) (rule that, simp_all add: xdrmem_create_handle True)
next
  case False
  show thesis
    by (rule undb.mem_decode [OF F(2) refl a l rd])
      (rule that, simp_all only: xdrmem_create_handle(2) [OF False] simp_thms)
qed

end
