(* ===== verification/Flex_Mem.thy ===== *)
theory Flex_Mem
  imports Xdr_Mem
begin

text \<open>
  \<open>src/flexrpc/flexxdr_mem.c\<close>: the memory stream of flexrpc, over the same three words of
  the handle (\<open>f_base\<close>, \<open>f_private\<close>, \<open>f_handy\<close>).  It has one vector, whatever the
  alignment, and reads a long sign-extended where libtirpc reads it zero-extended.  The
  interpretations show that it is a stream like libtirpc's; \<open>flexxdrmem_setpos\<close>, which takes
  \<open>f_private - f_handy\<close> for the end of the buffer, is characterised on its own.
\<close>

definition flexxdrmem_getlong ::
    "mem \<times> memstrm \<Rightarrow> 64 word \<Rightarrow> (bool \<times> 64 word \<times> mem \<times> memstrm) option" where
  "flexxdrmem_getlong = (\<lambda>(m, s) lp.
     if m_handy s < 4 then Some (False, lp, m, s)
     else Some (True, scast (ntohl (load32 m (m_private s))), m, advance s 4))"

definition flexxdrmem_putlong ::
    "mem \<times> memstrm \<Rightarrow> 64 word \<Rightarrow> (bool \<times> mem \<times> memstrm) option" where
  "flexxdrmem_putlong = (\<lambda>(m, s) lp.
     if m_handy s < 4 then Some (False, m, s)
     else Some (True, store32 m (m_private s) (htonl (ucast lp)), advance s 4))"

definition flexxdrmem_getbytes ::
    "mem \<times> memstrm \<Rightarrow> byte list \<Rightarrow> 32 word \<Rightarrow> (bool \<times> byte list \<times> mem \<times> memstrm) option" where
  "flexxdrmem_getbytes = (\<lambda>(m, s) addr len.
     if m_handy s < len then Some (False, addr, m, s)
     else Some (True, fill addr (rd m (m_private s) (unat len)), m, advance s len))"

definition flexxdrmem_putbytes ::
    "mem \<times> memstrm \<Rightarrow> byte list \<Rightarrow> 32 word \<Rightarrow> (bool \<times> mem \<times> memstrm) option" where
  "flexxdrmem_putbytes = (\<lambda>(m, s) addr len.
     if m_handy s < len then Some (False, m, s)
     else Some (True, wr m (m_private s) (take (unat len) addr), advance s len))"

definition flexxdrmem_getpos :: "xdr_op \<Rightarrow> mem \<times> memstrm \<Rightarrow> 32 word" where
  "flexxdrmem_getpos op = (\<lambda>(m, s). of_int (int (m_private s) - int (m_base s)))"

text \<open>
  Pointers are compared as integers, so that \<open>f_private - f_handy\<close> may lie below
  \<open>f_base\<close>; \<open>handy\<close> is a \<open>size_t\<close>.
\<close>

definition flexxdrmem_setpos :: "xdr_op \<Rightarrow> mem \<times> memstrm \<Rightarrow> 32 word \<Rightarrow> bool \<times> mem \<times> memstrm" where
  "flexxdrmem_setpos op = (\<lambda>(m, s) pos.
     let newaddr = int (m_base s) + uint pos;
         lastaddr = int (m_private s) - uint (m_handy s);
         handy = (of_int (lastaddr - newaddr) :: 64 word)
     in if newaddr > lastaddr \<or> newaddr < int (m_base s) \<or> handy \<noteq> ucast (ucast handy :: 32 word)
        then (False, m, s)
        else (True, m, s\<lparr>m_private := nat newaddr, m_handy := ucast handy\<rparr>))"

definition flexxdrmem_inline ::
    "xdr_op \<Rightarrow> mem \<times> memstrm \<Rightarrow> 32 word \<Rightarrow> addr \<times> mem \<times> memstrm" where
  "flexxdrmem_inline op = (\<lambda>(m, s) len.
     let buf = 0 in
     if m_handy s \<ge> len then (m_private s, m, advance s len) else (buf, m, s))"

definition flexxdrmem_ops :: "memstrm xdr_ops" where
  "flexxdrmem_ops = \<lparr>
     x_getlong = flexxdrmem_getlong,
     x_putlong = flexxdrmem_putlong,
     x_getbytes = flexxdrmem_getbytes,
     x_putbytes = flexxdrmem_putbytes,
     x_getpostn = Some flexxdrmem_getpos,
     x_setpostn = Some flexxdrmem_setpos,
     x_inline = Some flexxdrmem_inline\<rparr>"

definition flexxdrmem_create :: "mem \<Rightarrow> addr \<Rightarrow> 32 word \<Rightarrow> xdr_op \<Rightarrow> memstrm FLEXXDR" where
  "flexxdrmem_create m addr sz op = \<lparr>
     x_op = op,
     x_ops = flexxdrmem_ops,
     x_mem = m,
     x_private = \<lparr>m_base = addr, m_private = addr, m_handy = sz\<rparr>\<rparr>"

section \<open>It is a stream\<close>

text \<open>Five of the operations are libtirpc's own.\<close>

lemma flexxdrmem_eqs:
  "flexxdrmem_putlong = xdrmem_putlong_aligned"
  "flexxdrmem_getbytes = xdrmem_getbytes"
  "flexxdrmem_putbytes = xdrmem_putbytes"
  "flexxdrmem_getpos = xdrmem_getpos"
  "flexxdrmem_inline = xdrmem_inline_aligned"
  by (simp_all add: fun_eq_iff flexxdrmem_putlong_def xdrmem_putlong_aligned_def
        flexxdrmem_getbytes_def xdrmem_getbytes_def flexxdrmem_putbytes_def xdrmem_putbytes_def
        flexxdrmem_getpos_def xdrmem_getpos_def flexxdrmem_inline_def xdrmem_inline_aligned_def)

lemma flexxdrmem_ops_sel:
  "x_getlong flexxdrmem_ops = flexxdrmem_getlong"
  "x_putlong flexxdrmem_ops = xdrmem_putlong_aligned"
  "x_getbytes flexxdrmem_ops = xdrmem_getbytes"
  "x_putbytes flexxdrmem_ops = xdrmem_putbytes"
  "x_inline flexxdrmem_ops = Some xdrmem_inline_aligned"
  by (simp_all add: flexxdrmem_ops_def flexxdrmem_eqs)

lemma flexxdrmem_getlong_ok:
  assumes "mem_inv m0 b n st" and "mem_rest st = be32 w @ rs"
  shows "\<exists>st'. flexxdrmem_getlong st l = Some (True, scast w, st') \<and> mem_inv m0 b n st' \<and>
    mem_rest st' = rs"
proof (cases st)
  case (Pair m s)
  with assms(1,2) have inv: "mem_inv m0 b n (m, s)" and rest: "mem_rest (m, s) = be32 w @ rs"
    by simp_all
  from mem_read [OF inv rest, of 4] Pair show ?thesis
    by (auto simp: flexxdrmem_getlong_def load32_def)
qed

lemma flexxdrmem_getlong_short:
  assumes "length (mem_rest st) < 4"
  shows "\<exists>st'. flexxdrmem_getlong st l = Some (False, l, st')"
  using assms mem_short [of "fst st" "snd st" 4] by (cases st) (auto simp: flexxdrmem_getlong_def)

interpretation fm: xdr_mapped_sink flexxdrmem_ops "mem_inv m0 b n" mem_out mem_fits
  xdrmem_inline_aligned for m0 b n
  by (unfold_locales; (simp only: flexxdrmem_ops_sel)?; rule mem_sink_laws; (assumption | simp))

interpretation fmd: xdr_mapped_source flexxdrmem_ops "mem_inv m0 b n" mem_rest scast
  xdrmem_inline_aligned for m0 b n
  by (unfold_locales; (simp only: flexxdrmem_ops_sel scast_up_down)?;
      rule mem_source_laws flexxdrmem_getlong_ok flexxdrmem_getlong_short; (assumption | simp))

section \<open>Encoding into a buffer and decoding from one\<close>

interpretation fmb: mem_sink flexxdrmem_ops m0 b n for m0 b n
  by unfold_locales

interpretation fmdb: mem_source flexxdrmem_ops m0 b n scast for m0 b n
  by unfold_locales

lemma flexxdrmem_create_handle: "flexxdrmem_create m a sz op = mem_handle flexxdrmem_ops m a sz op"
  by (simp add: flexxdrmem_create_def mem_handle_def)

lemmas flexxdrmem_encode = fmb.mem_encode [folded flexxdrmem_create_handle]

lemmas flexxdrmem_decode = fmdb.mem_decode [folded flexxdrmem_create_handle]

lemmas flexxdrmem_overrun = fmdb.mem_overrun [folded flexxdrmem_create_handle]

end
