(* ===== verification/Xdr_Codec.thy ===== *)
theory Xdr_Codec
  imports Xdr_Generic Flex_Mem
begin

text \<open>
  The contracts of the filters of \<open>Xdr_Generic\<close>, proved once in the stream interfaces: what
  each filter appends to a stream it encodes into, and that decoding the same bytes from any
  stream gives the value back.  The memory streams are imported so that their interpretations
  carry every contract from here on.
\<close>

section \<open>Conversions\<close>

lemma ucast_mask32_64 [simp]:
  "(ucast (x AND 0xffffffff :: 64 word) :: 32 word) = ucast x"
proof -
  have mask: "(0xffffffff :: 64 word) = mask 32"
    by (simp add: mask_eq_exp_minus_1)
  show ?thesis
    unfolding mask by (rule bit_word_eqI) (simp add: bit_simps)
qed

lemma join_halves:
  fixes x hi lo :: "64 word"
  assumes "(ucast hi :: 32 word) = ucast (drop_bit 32 x)" and "(ucast lo :: 32 word) = ucast x"
  shows "push_bit 32 hi OR (lo AND 0xffffffff) = x"
proof (rule bit_word_eqI)
  fix n :: nat
  assume n: "n < LENGTH(64)"
  have mask: "(0xffffffff :: 64 word) = mask 32"
    by (simp add: mask_eq_exp_minus_1)
  have hi: "bit hi k = bit x (32 + k)" and lo: "bit lo k = bit x k" if "k < 32" for k
    using that arg_cong [where f = "\<lambda>w. bit w k", OF assms(1)]
      arg_cong [where f = "\<lambda>w. bit w k", OF assms(2)]
    by (simp_all add: bit_simps)
  show "bit (push_bit 32 hi OR (lo AND 0xffffffff)) n = bit x n"
  proof (cases "n < 32")
    case True
    with n lo show ?thesis by (simp only: mask) (simp add: bit_simps)
  next
    case False
    with n hi [of "n - 32"] show ?thesis by (simp only: mask) (simp add: bit_simps)
  qed
qed

lemma ucast_low:
  assumes "LENGTH('a::len) \<le> 32"
  shows "(ucast (x :: 64 word) :: 'a word) = ucast (ucast x :: 32 word)"
  using assms by (intro bit_word_eqI) (simp add: bit_simps)

lemma scast_down [simp]:
  "(ucast (scast (v :: 16 word) :: 32 word) :: 16 word) = v"
  "(ucast (scast (c :: 8 word) :: 32 word) :: 8 word) = c"
  "(ucast (ucast (v :: 16 word) :: 32 word) :: 16 word) = v"
  "(ucast (ucast (c :: 8 word) :: 32 word) :: 8 word) = c"
  by (rule bit_word_eqI, simp add: bit_simps)+

lemma cast_twice [simp]:
  "(ucast (scast (v :: 16 word) :: 64 word) :: 32 word) = scast v"
  "(ucast (scast (c :: 8 word) :: 64 word) :: 32 word) = scast c"
  "(ucast (ucast (v :: 16 word) :: 64 word) :: 32 word) = ucast v"
  "(ucast (ucast (c :: 8 word) :: 64 word) :: 32 word) = ucast c"
  by (rule bit_word_eqI, simp add: bit_simps)+

text \<open>The number of zero bytes \<open>xdr_opaque\<close> adds is \<open>pad\<close>.\<close>

lemma rndup_pad:
  fixes cnt :: "32 word"
  shows "unat (if cnt mod 4 > 0 then 4 - cnt mod 4 else cnt mod 4) = pad (unat cnt)"
proof -
  have "unat (cnt mod 4) = unat cnt mod 4"
    by (simp add: unat_mod_distrib)
  moreover have "cnt mod 4 \<le> 4"
    using calculation by (simp add: word_le_nat_alt)
  ultimately show ?thesis
    by (auto simp: pad_def unat_sub word_gt_0 unat_eq_0 [symmetric])
qed

section \<open>Encoding\<close>

lemma ucast_low_iff: "(ucast (ucast v :: 32 word) :: 64 word) = v \<longleftrightarrow> v < 2 ^ 32"
  by transfer (auto simp: take_bit_eq_mod)

text \<open>The filter that \<open>xdr_union\<close> runs for a discriminant: its arm, or the default.\<close>

definition union_arm :: "(32 word \<times> 'p option) list \<Rightarrow> 'p option \<Rightarrow> 32 word \<Rightarrow> 'p option" where
  "union_arm choices dfault d = do { arm \<leftarrow> find_arm choices d;
     case arm of Some proc \<Rightarrow> Some proc | None \<Rightarrow> dfault }"

lemma xdr_int64_eq: "xdr_int64_t = xdr_u_int64_t"
  by (simp add: fun_eq_iff xdr_int64_t_def xdr_u_int64_t_def)

context xdr_sink begin

lemma encodes_PUTLONG:
  assumes F: "\<And>xdrs. sinks xdrs \<Longrightarrow>
      F xdrs v = do { (ok, xdrs) \<leftarrow> XDR_PUTLONG xdrs l; Some (ok, xdrs, v) }"
    and w: "ucast l = w"
  shows "encodes F v (be32 w) v"
proof (rule encodesI)
  fix xdrs n
  assume s: "sinks xdrs" and "room xdrs (length (be32 w) + n)"
  then have r: "room xdrs (4 + n)" by simp
  obtain x1 where "XDR_PUTLONG xdrs l = Some (True, x1)" "sinks x1"
    "sent x1 = sent xdrs @ be32 (ucast l)" "room x1 n"
    by (rule XDR_PUTLONG_ok [OF s r])
  with s w show "\<exists>xdrs'. F xdrs v = Some (True, xdrs', v) \<and> sinks xdrs' \<and>
      sent xdrs' = sent xdrs @ be32 w \<and> room xdrs' n"
    by (simp add: F)
qed

lemma encodes_via_long:
  "ucast (to_long v) = w \<Longrightarrow> encodes (xdr_via_long to_long of_long) v (be32 w) v"
  by (rule encodes_PUTLONG [where l = "to_long v"]) (simp_all add: xdr_via_long_def)

lemma encodes_xdr_int [codec]: "encodes xdr_int v (be32 v) v"
  unfolding xdr_int_def by (rule encodes_via_long) simp

lemma encodes_xdr_u_int [codec]: "encodes xdr_u_int v (be32 v) v"
  unfolding xdr_u_int_def by (rule encodes_via_long) simp

lemma encodes_xdr_u_int32_t [codec]: "encodes xdr_u_int32_t v (be32 v) v"
  unfolding xdr_u_int32_t_def by (rule encodes_via_long) simp

lemma encodes_xdr_short: "encodes xdr_short v (be32 (scast v)) v"
  unfolding xdr_short_def by (rule encodes_via_long) simp

lemma encodes_xdr_u_short: "encodes xdr_u_short v (be32 (ucast v)) v"
  unfolding xdr_u_short_def by (rule encodes_via_long) simp

lemma encodes_xdr_int8_t: "encodes xdr_int8_t v (be32 (scast v)) v"
  unfolding xdr_int8_t_def by (rule encodes_via_long) simp

lemma encodes_xdr_u_int8_t: "encodes xdr_u_int8_t v (be32 (ucast v)) v"
  unfolding xdr_u_int8_t_def by (rule encodes_via_long) simp

lemma encodes_xdr_enum [codec]: "encodes xdr_enum v (be32 v) v"
  using encodes_xdr_int by (simp add: encodes_def xdr_enum_def)

lemma encodes_xdr_u_long [codec]: "encodes xdr_u_long v (be32 (ucast v)) v"
  by (rule encodes_PUTLONG [where l = v]) (simp_all add: xdr_u_long_def)

lemma encodes_xdr_long [codec]: "encodes xdr_long v (be32 (ucast v)) v"
  by (rule encodes_PUTLONG [where l = v]) (simp_all add: xdr_long_def)

lemma encodes_xdr_bool [codec]: "encodes xdr_bool v (be32 (if v \<noteq> 0 then 1 else 0)) v"
  by (rule encodes_PUTLONG [where l = "if v \<noteq> 0 then 1 else 0"]) (simp_all add: xdr_bool_def)

lemma encodes_xdr_char: "encodes xdr_char v (be32 (scast v)) v"
  by (rule encodes_PUTLONG [where l = "scast (scast v :: 32 word)"])
    (auto simp: xdr_char_def xdr_int_def xdr_via_long_def split: bind_split)

lemma encodes_xdr_u_char: "encodes xdr_u_char v (be32 (ucast v)) v"
  by (rule encodes_PUTLONG [where l = "ucast (ucast v :: 32 word)"])
    (auto simp: xdr_u_char_def xdr_u_int_def xdr_via_long_def split: bind_split)

lemma encodes_xdr_u_int64_t:
  "encodes xdr_u_int64_t v (be32 (ucast (drop_bit 32 v)) @ be32 (ucast v)) v"
proof (rule encodesI)
  fix xdrs n
  assume s: "sinks xdrs"
    and "room xdrs (length (be32 (ucast (drop_bit 32 v)) @ be32 (ucast v)) + n)"
  then have r: "room xdrs (4 + (4 + n))" by simp
  obtain x1 where 1: "XDR_PUTLONG xdrs (drop_bit 32 v AND 0xffffffff) = Some (True, x1)"
    and s1: "sinks x1" and o1: "sent x1 = sent xdrs @ be32 (ucast (drop_bit 32 v AND 0xffffffff))"
    and r1: "room x1 (4 + n)"
    by (rule XDR_PUTLONG_ok [OF s r])
  obtain x2 where "XDR_PUTLONG x1 (v AND 0xffffffff) = Some (True, x2)" "sinks x2"
    "sent x2 = sent x1 @ be32 (ucast (v AND 0xffffffff))" "room x2 n"
    by (rule XDR_PUTLONG_ok [OF s1 r1])
  with 1 s o1 show "\<exists>xdrs'. xdr_u_int64_t xdrs v = Some (True, xdrs', v) \<and> sinks xdrs' \<and>
      sent xdrs' = sent xdrs @ be32 (ucast (drop_bit 32 v)) @ be32 (ucast v) \<and> room xdrs' n"
    by (simp add: xdr_u_int64_t_def)
qed

lemma encodes_xdr_opaque [codec]:
  assumes "unat cnt \<le> length cp"
  shows "encodes (xdr_opaque cnt) cp (padded (take (unat cnt) cp)) cp"
proof (rule encodesI)
  fix xdrs n
  assume s: "sinks xdrs" and "room xdrs (length (padded (take (unat cnt) cp)) + n)"
  with assms have r: "room xdrs (unat cnt + (pad (unat cnt) + n))"
    by (simp add: padded_def add.assoc)
  let ?rndup = "if cnt mod 4 > 0 then 4 - cnt mod 4 else cnt mod 4"
  show "\<exists>xdrs'. xdr_opaque cnt xdrs cp = Some (True, xdrs', cp) \<and> sinks xdrs' \<and>
      sent xdrs' = sent xdrs @ padded (take (unat cnt) cp) \<and> room xdrs' n"
  proof (cases "cnt = 0")
    case True
    with s r show ?thesis by (simp add: xdr_opaque_def pad_def)
  next
    case False
    obtain x1 where 1: "XDR_PUTBYTES xdrs cp cnt = Some (True, x1)"
      and s1: "sinks x1" and o1: "sent x1 = sent xdrs @ take (unat cnt) cp"
      and r1: "room x1 (unat ?rndup + n)"
      by (rule XDR_PUTBYTES_ok [OF s r assms]) (simp add: rndup_pad)
    show ?thesis
    proof (cases "?rndup = 0")
      case True
      then have "pad (unat cnt) = 0" using rndup_pad [of cnt] by simp
      with False True s 1 s1 o1 r1 assms show ?thesis
        by (auto simp: xdr_opaque_def padded_def Let_def)
    next
      case nz: False
      have l: "unat ?rndup \<le> length xdr_zero"
        using rndup_pad [of cnt] pad_less [of "unat cnt"] by (simp only: xdr_zero_def) simp
      obtain x2 where "XDR_PUTBYTES x1 xdr_zero ?rndup = Some (True, x2)" "sinks x2"
        "sent x2 = sent x1 @ take (unat ?rndup) xdr_zero" "room x2 n"
        by (rule XDR_PUTBYTES_ok [OF s1 r1 l])
      moreover have "take (unat ?rndup) xdr_zero = replicate (pad (unat cnt)) 0"
        using pad_less [of "unat cnt"]
        by (simp only: rndup_pad xdr_zero_def) (auto simp: less_Suc_eq numeral_eq_Suc)
      ultimately show ?thesis
        using False nz s 1 o1 assms
        by (simp add: xdr_opaque_def padded_def Let_def del: if_split cong: if_cong)
    qed
  qed
qed

lemma encodes_xdr_bytes [codec]:
  assumes "unat sz \<le> length bs" and "sz \<le> maxsize"
  shows "encodes (xdr_bytes avail maxsize) (Some bs, sz)
    (be32 sz @ padded (take (unat sz) bs)) (Some bs, sz)"
proof (rule encodesI)
  fix xdrs n
  assume s: "sinks xdrs" and "room xdrs (length (be32 sz @ padded (take (unat sz) bs)) + n)"
  then have r: "room xdrs (length (be32 sz) + (length (padded (take (unat sz) bs)) + n))"
    by (simp add: add.assoc)
  obtain x1 where 1: "xdr_u_int xdrs sz = Some (True, x1, sz)" "sent x1 = sent xdrs @ be32 sz"
    and s1: "sinks x1" and r1: "room x1 (length (padded (take (unat sz) bs)) + n)"
    by (rule encodesE [OF encodes_xdr_u_int s r])
  obtain x2 where "xdr_opaque sz x1 bs = Some (True, x2, bs)" "sinks x2"
    "sent x2 = sent x1 @ padded (take (unat sz) bs)" "room x2 n"
    by (rule encodesE [OF encodes_xdr_opaque [OF assms(1)] s1 r1])
  with 1 s1 assms(2) show "\<exists>xdrs'. xdr_bytes avail maxsize xdrs (Some bs, sz) =
      Some (True, xdrs', Some bs, sz) \<and> sinks xdrs' \<and>
      sent xdrs' = sent xdrs @ be32 sz @ padded (take (unat sz) bs) \<and> room xdrs' n"
    by (simp add: xdr_bytes_def not_less [symmetric])
qed

lemma encodes_xdr_string [codec]:
  assumes "0 \<in> set s" and "strlen s \<le> unat maxsize" and "strlen s + 1 < 2 ^ 32"
  shows "encodes (xdr_string avail maxsize) (Some s)
    (be32 (of_nat (strlen s)) @ padded (cstr s)) (Some s)"
proof (rule encodesI)
  fix xdrs n
  let ?w = "of_nat (strlen s) :: 32 word"
  assume k: "sinks xdrs" and "room xdrs (length (be32 ?w @ padded (cstr s)) + n)"
  then have r: "room xdrs (length (be32 ?w) + (length (padded (cstr s)) + n))"
    by (simp add: add.assoc)
  have w: "unat ?w = strlen s" using assms(3) by (simp add: unat_of_nat32)
  have w1: "?w + 1 \<noteq> 0"
    using assms(3) w unat_word_ariths(1) [of ?w 1] by (auto simp: unat_eq_0 [symmetric])
  obtain x1 where 1: "xdr_u_int xdrs ?w = Some (True, x1, ?w)" "sent x1 = sent xdrs @ be32 ?w"
    and s1: "sinks x1" and r1: "room x1 (length (padded (take (unat ?w) s)) + n)"
    by (rule encodesE [OF encodes_xdr_u_int k r]) (simp add: w)
  have "unat ?w \<le> length s" using w strlen_le by simp
  then obtain x2 where "xdr_opaque ?w x1 s = Some (True, x2, s)" "sinks x2"
    "sent x2 = sent x1 @ padded (take (unat ?w) s)" "room x2 n"
    by (rule encodesE [OF encodes_xdr_opaque s1 r1])
  moreover have "\<not> maxsize < ?w" using assms(2) w by (simp add: word_less_nat_alt)
  ultimately show "\<exists>xdrs'. xdr_string avail maxsize xdrs (Some s) = Some (True, xdrs', Some s) \<and>
      sinks xdrs' \<and> sent xdrs' = sent xdrs @ be32 ?w @ padded (cstr s) \<and> room xdrs' n"
    using 1 s1 k w w1 assms(1) by (simp add: xdr_string_def Let_def)
qed

lemma encodes_xdr_union:
  assumes arm: "union_arm choices dfault d = Some proc" and u: "encodes proc u bs u'"
  shows "encodes (xdr_union choices dfault) (d, u) (be32 d @ bs) (d, u')"
proof (rule encodesI)
  fix xdrs n
  assume s: "sinks xdrs" and "room xdrs (length (be32 d @ bs) + n)"
  then have r: "room xdrs (length (be32 d) + (length bs + n))" by (simp add: add.assoc)
  obtain x1 where 1: "xdr_enum xdrs d = Some (True, x1, d)" "sent x1 = sent xdrs @ be32 d"
    and s1: "sinks x1" and r1: "room x1 (length bs + n)"
    by (rule encodesE [OF encodes_xdr_enum s r])
  obtain x2 where "proc x1 u = Some (True, x2, u')" "sinks x2" "sent x2 = sent x1 @ bs" "room x2 n"
    by (rule encodesE [OF u s1 r1])
  with 1 arm show "\<exists>xdrs'. xdr_union choices dfault xdrs (d, u) = Some (True, xdrs', d, u') \<and>
      sinks xdrs' \<and> sent xdrs' = sent xdrs @ be32 d @ bs \<and> room xdrs' n"
    by (auto simp: xdr_union_def union_arm_def split: option.splits bind_splits)
qed

end

section \<open>Decoding\<close>

context xdr_source begin

lemma decodes_GETLONG:
  assumes F: "\<And>xdrs. sources xdrs \<Longrightarrow> F xdrs v0 = do {
      (ok, xdrs, l) \<leftarrow> XDR_GETLONG xdrs l0;
      if \<not> ok then Some (False, xdrs, h l) else Some (True, xdrs, g l) }"
    and v: "g (ext w) = v"
  shows "decodes F (be32 w) v0 v"
proof (rule decodesI)
  fix xdrs rs
  assume s: "sources xdrs" and p: "pending xdrs = be32 w @ rs"
  obtain x1 where "XDR_GETLONG xdrs l0 = Some (True, x1, ext w)" "sources x1" "pending x1 = rs"
    by (rule XDR_GETLONG_ok [OF s p])
  with s v show "\<exists>xdrs'. F xdrs v0 = Some (True, xdrs', v) \<and> sources xdrs' \<and> pending xdrs' = rs"
    by (simp add: F)
qed

lemma decodes_via_long:
  "of_long (ext w) = v \<Longrightarrow> decodes (xdr_via_long to_long of_long) (be32 w) v0 v"
  by (rule decodes_GETLONG [where ?l0.0 = 0 and g = of_long and h = "\<lambda>_. v0"])
    (simp_all add: xdr_via_long_def)

lemma ucast_ext_low: "LENGTH('b::len) \<le> 32 \<Longrightarrow> (ucast (ext w) :: 'b word) = ucast w"
  by (simp add: ucast_low ucast_ext)

lemma decodes_xdr_int [codec]: "decodes xdr_int (be32 v) v0 v"
  unfolding xdr_int_def by (rule decodes_via_long) (rule ucast_ext)

lemma decodes_xdr_u_int [codec]: "decodes xdr_u_int (be32 v) v0 v"
  unfolding xdr_u_int_def by (rule decodes_via_long) (rule ucast_ext)

lemma decodes_xdr_u_int32_t [codec]: "decodes xdr_u_int32_t (be32 v) v0 v"
  unfolding xdr_u_int32_t_def by (rule decodes_via_long) (rule ucast_ext)

lemma decodes_xdr_short: "decodes xdr_short (be32 (scast v)) v0 v"
  unfolding xdr_short_def by (rule decodes_via_long) (simp add: ucast_ext_low)

lemma decodes_xdr_u_short: "decodes xdr_u_short (be32 (ucast v)) v0 v"
  unfolding xdr_u_short_def by (rule decodes_via_long) (simp add: ucast_ext_low)

lemma decodes_xdr_int8_t: "decodes xdr_int8_t (be32 (scast v)) v0 v"
  unfolding xdr_int8_t_def by (rule decodes_via_long) (simp add: ucast_ext_low)

lemma decodes_xdr_u_int8_t: "decodes xdr_u_int8_t (be32 (ucast v)) v0 v"
  unfolding xdr_u_int8_t_def by (rule decodes_via_long) (simp add: ucast_ext_low)

lemma decodes_xdr_enum [codec]: "decodes xdr_enum (be32 v) v0 v"
  using decodes_xdr_int by (simp add: decodes_def xdr_enum_def)

lemma decodes_xdr_u_long [codec]: "decodes xdr_u_long (be32 w) v0 (ext w)"
  by (rule decodes_GETLONG [where ?l0.0 = v0 and g = id and h = id])
    (auto simp: xdr_u_long_def split: bind_split)

lemma decodes_xdr_long [codec]: "decodes xdr_long (be32 w) v0 (ext w)"
  by (rule decodes_GETLONG [where ?l0.0 = v0 and g = id and h = id])
    (auto simp: xdr_long_def split: bind_split)

lemma ext_0_iff: "ext w = 0 \<Longrightarrow> w = 0"
  using ucast_ext [of w] by simp

lemma decodes_xdr_bool [codec]:
  assumes "ext 0 = 0"
  shows "decodes xdr_bool (be32 w) v0 (if w = 0 then 0 else 1)"
  by (rule decodes_GETLONG [where ?l0.0 = 0 and g = "\<lambda>lb. if lb = 0 then 0 else 1" and h = "\<lambda>_. v0"])
    (auto simp: xdr_bool_def assms dest: ext_0_iff)

lemma decodes_xdr_char: "decodes xdr_char (be32 (scast v)) v0 v"
  by (rule decodes_GETLONG [where ?l0.0 = 0 and g = "\<lambda>l. ucast (ucast l :: 32 word)" and h = "\<lambda>_. v0"])
    (auto simp: xdr_char_def xdr_int_def xdr_via_long_def ucast_ext split: bind_split)

lemma decodes_xdr_u_char: "decodes xdr_u_char (be32 (ucast v)) v0 v"
  by (rule decodes_GETLONG [where ?l0.0 = 0 and g = "\<lambda>l. ucast (ucast l :: 32 word)" and h = "\<lambda>_. v0"])
    (auto simp: xdr_u_char_def xdr_u_int_def xdr_via_long_def ucast_ext split: bind_split)

lemma decodes_xdr_u_int64_t:
  "decodes xdr_u_int64_t (be32 (ucast (drop_bit 32 v)) @ be32 (ucast v)) v0 v"
proof (rule decodesI)
  fix xdrs rs
  let ?hi = "ucast (drop_bit 32 v) :: 32 word" and ?lo = "ucast v :: 32 word"
  assume s: "sources xdrs" and "pending xdrs = (be32 ?hi @ be32 ?lo) @ rs"
  then have p: "pending xdrs = be32 ?hi @ (be32 ?lo @ rs)" by simp
  obtain x1 where 1: "XDR_GETLONG xdrs 0 = Some (True, x1, ext ?hi)" and s1: "sources x1"
    and p1: "pending x1 = be32 ?lo @ rs"
    by (rule XDR_GETLONG_ok [OF s p])
  obtain x2 where 2: "XDR_GETLONG x1 0 = Some (True, x2, ext ?lo)" and "sources x2" "pending x2 = rs"
    by (rule XDR_GETLONG_ok [OF s1 p1])
  moreover have "push_bit 32 (ext ?hi) OR (ext ?lo AND 0xffffffff) = v"
    by (rule join_halves) (rule ucast_ext)+
  ultimately show "\<exists>xdrs'. xdr_u_int64_t xdrs v0 = Some (True, xdrs', v) \<and> sources xdrs' \<and>
      pending xdrs' = rs"
    using 1 s by (simp add: xdr_u_int64_t_def)
qed

lemma decodes_xdr_opaque [codec]:
  assumes len: "length bs = unat cnt" and blk: "length bs \<le> length old"
  shows "decodes (xdr_opaque cnt) (padded bs) old (fill old bs)"
proof (rule decodesI)
  fix xdrs rs
  let ?rndup = "if cnt mod 4 > 0 then 4 - cnt mod 4 else cnt mod 4"
  assume s: "sources xdrs" and "pending xdrs = padded bs @ rs"
  then have p: "pending xdrs = bs @ (replicate (pad (unat cnt)) 0 @ rs)"
    by (simp add: padded_def len)
  show "\<exists>xdrs'. xdr_opaque cnt xdrs old = Some (True, xdrs', fill old bs) \<and> sources xdrs' \<and>
      pending xdrs' = rs"
  proof (cases "cnt = 0")
    case True
    with s p len show ?thesis by (simp add: xdr_opaque_def pad_def fill_def)
  next
    case False
    obtain x1 where 1: "XDR_GETBYTES xdrs old cnt = Some (True, x1, fill old bs)"
      and s1: "sources x1" and p1: "pending x1 = replicate (pad (unat cnt)) 0 @ rs"
      by (rule XDR_GETBYTES_ok [OF s p len blk])
    show ?thesis
    proof (cases "?rndup = 0")
      case True
      then have "pad (unat cnt) = 0" using rndup_pad [of cnt] by simp
      with False True s 1 s1 p1 show ?thesis by (auto simp: xdr_opaque_def Let_def)
    next
      case nz: False
      have l: "length (replicate (pad (unat cnt)) (0 :: byte)) = unat ?rndup"
        by (simp only: rndup_pad length_replicate)
      have crud: "length (replicate (pad (unat cnt)) (0 :: byte)) \<le> length (replicate 16 (0 :: byte))"
        using pad_less [of "unat cnt"] by simp
      obtain x2 buf' where "XDR_GETBYTES x1 (replicate 16 0) ?rndup = Some (True, x2, buf')"
        "sources x2" "pending x2 = rs"
        by (rule XDR_GETBYTES_ok [OF s1 p1 l crud])
      with False nz s 1 show ?thesis
        by (simp add: xdr_opaque_def Let_def del: if_split cong: if_cong)
    qed
  qed
qed

text \<open>A null pointer is replaced by a fresh block of the size decoded.\<close>

lemma decodes_xdr_bytes_alloc:
  assumes "length bs = unat sz" and "sz \<le> maxsize" and "avail (unat sz)" and "sz \<noteq> 0"
  shows "decodes (xdr_bytes avail maxsize) (be32 sz @ padded bs) (None, sz0) (Some bs, sz)"
proof (rule decodesI)
  fix xdrs rs
  assume s: "sources xdrs" and "pending xdrs = (be32 sz @ padded bs) @ rs"
  then have p: "pending xdrs = be32 sz @ (padded bs @ rs)" by simp
  obtain x1 where 1: "xdr_u_int xdrs sz0 = Some (True, x1, sz)"
    and s1: "sources x1" and p1: "pending x1 = padded bs @ rs"
    by (rule decodesE [OF decodes_xdr_u_int s p])
  have blk: "length bs \<le> length (replicate (unat sz) (0 :: byte))" by (simp add: assms(1))
  obtain x2 where "xdr_opaque sz x1 (replicate (unat sz) 0) =
      Some (True, x2, fill (replicate (unat sz) 0) bs)" "sources x2" "pending x2 = rs"
    by (rule decodesE [OF decodes_xdr_opaque [OF assms(1) blk] s1 p1])
  with 1 s1 assms show "\<exists>xdrs'. xdr_bytes avail maxsize xdrs (None, sz0) =
      Some (True, xdrs', Some bs, sz) \<and> sources xdrs' \<and> pending xdrs' = rs"
    by (simp add: xdr_bytes_def mem_alloc_def not_less [symmetric])
qed

text \<open>A block the caller supplies is written from its front.\<close>

lemma decodes_xdr_bytes_block:
  assumes "length bs = unat sz" and "sz \<le> maxsize" and "length bs \<le> length old"
  shows "decodes (xdr_bytes avail maxsize) (be32 sz @ padded bs) (Some old, sz0)
    (Some (fill old bs), sz)"
proof (rule decodesI)
  fix xdrs rs
  assume s: "sources xdrs" and "pending xdrs = (be32 sz @ padded bs) @ rs"
  then have p: "pending xdrs = be32 sz @ (padded bs @ rs)" by simp
  obtain x1 where 1: "xdr_u_int xdrs sz0 = Some (True, x1, sz)"
    and s1: "sources x1" and p1: "pending x1 = padded bs @ rs"
    by (rule decodesE [OF decodes_xdr_u_int s p])
  obtain x2 where "xdr_opaque sz x1 old = Some (True, x2, fill old bs)" "sources x2" "pending x2 = rs"
    by (rule decodesE [OF decodes_xdr_opaque [OF assms(1,3)] s1 p1])
  moreover from this have "xdr_opaque 0 x1 old = Some (True, x1, old)"
    by (simp add: xdr_opaque_def)
  ultimately show "\<exists>xdrs'. xdr_bytes avail maxsize xdrs (Some old, sz0) =
      Some (True, xdrs', Some (fill old bs), sz) \<and> sources xdrs' \<and> pending xdrs' = rs"
    using 1 s1 assms by (auto simp: xdr_bytes_def not_less [symmetric] fill_def)
qed

lemma decodes_xdr_string_alloc:
  assumes len: "length bs < 2 ^ 32 - 1" and max: "length bs \<le> unat maxsize"
    and av: "avail (length bs + 1)"
  shows "decodes (xdr_string avail maxsize) (be32 (of_nat (length bs)) @ padded bs) None
    (Some (bs @ [0]))"
proof (rule decodesI)
  fix xdrs rs
  let ?w = "of_nat (length bs) :: 32 word"
  assume s: "sources xdrs" and "pending xdrs = (be32 ?w @ padded bs) @ rs"
  then have p: "pending xdrs = be32 ?w @ (padded bs @ rs)" by simp
  have w: "unat ?w = length bs" using len by (simp add: unat_of_nat32)
  then have w1: "unat (?w + 1) = length bs + 1"
    using len unat_word_ariths(1) [of ?w 1] by simp
  then have nz: "?w + 1 \<noteq> 0" by (auto simp: unat_eq_0 [symmetric])
  obtain x1 where 1: "xdr_u_int xdrs 0 = Some (True, x1, ?w)"
    and s1: "sources x1" and p1: "pending x1 = padded bs @ rs"
    by (rule decodesE [OF decodes_xdr_u_int s p])
  have blk: "length bs \<le> length (replicate (length bs + 1) (0 :: byte))" by simp
  obtain x2 where "xdr_opaque ?w x1 (replicate (length bs + 1) 0) =
      Some (True, x2, fill (replicate (length bs + 1) 0) bs)" "sources x2" "pending x2 = rs"
    by (rule decodesE [OF decodes_xdr_opaque [OF w [symmetric] blk] s1 p1])
  moreover have "(replicate (length bs + 1) 0)[length bs := 0] = replicate (length bs + 1) (0 :: byte)"
    by (simp add: list_update_same_conv nth_replicate del: replicate_Suc)
  moreover have "replicate (Suc 0) (0 :: byte) = [0]" by simp
  moreover have "\<not> maxsize < ?w" using max w by (simp add: word_less_nat_alt)
  ultimately show "\<exists>xdrs'. xdr_string avail maxsize xdrs None = Some (True, xdrs', Some (bs @ [0])) \<and>
      sources xdrs' \<and> pending xdrs' = rs"
    using 1 s s1 w w1 nz av
    by (simp add: xdr_string_def Let_def mem_alloc_def fill_def del: replicate_Suc)
qed

lemma decodes_xdr_union:
  assumes arm: "union_arm choices dfault d = Some proc" and u: "decodes proc bs u0 u"
  shows "decodes (xdr_union choices dfault) (be32 d @ bs) (d0, u0) (d, u)"
proof (rule decodesI)
  fix xdrs rs
  assume s: "sources xdrs" and "pending xdrs = (be32 d @ bs) @ rs"
  then have p: "pending xdrs = be32 d @ (bs @ rs)" by simp
  obtain x1 where 1: "xdr_enum xdrs d0 = Some (True, x1, d)" and s1: "sources x1"
    and p1: "pending x1 = bs @ rs"
    by (rule decodesE [OF decodes_xdr_enum s p])
  obtain x2 where "proc x1 u0 = Some (True, x2, u)" "sources x2" "pending x2 = rs"
    by (rule decodesE [OF u s1 p1])
  with 1 arm show "\<exists>xdrs'. xdr_union choices dfault xdrs (d0, u0) = Some (True, xdrs', d, u) \<and>
      sources xdrs' \<and> pending xdrs' = rs"
    by (auto simp: xdr_union_def union_arm_def split: option.splits bind_splits)
qed

end

section \<open>From one buffer to another\<close>

text \<open>
  \<open>xdrmem_transfers F v bs v0 v'\<close>: encoding \<open>v\<close> into any large enough buffer, aligned or not,
  succeeds, puts \<open>bs\<close> at its front, leaves \<open>v\<close> and every byte outside the buffer as they
  were, and decoding \<open>bs\<close> from any buffer into the object \<open>v0\<close> makes it \<open>v'\<close>.
\<close>

definition xdrmem_transfers ::
    "(memstrm, 'a) xdrproc_t \<Rightarrow> 'a \<Rightarrow> byte list \<Rightarrow> 'a \<Rightarrow> 'a \<Rightarrow> bool" where
  "xdrmem_transfers F v bs v0 v' \<longleftrightarrow> (\<forall>m a m2 b sz. a \<noteq> 0 \<and> b \<noteq> 0 \<and> length bs \<le> unat sz \<longrightarrow>
     (\<exists>x y. F (xdrmem_create m a sz XDR_ENCODE) v = Some (True, x, v) \<and>
        rd (x_mem x) a (length bs) = bs \<and>
        (\<forall>c. c < a \<or> a + unat sz \<le> c \<longrightarrow> x_mem x c = m c) \<and>
        F (xdrmem_create (wr m2 b bs) b sz XDR_DECODE) v0 = Some (True, y, v')))"

lemma xdrmem_transfersI:
  assumes enc: "\<And>m b n. al.encodes m b n F v bs v" "\<And>m b n. un.encodes m b n F v bs v"
    and dec: "\<And>m b n. ald.decodes m b n F bs v0 v'" "\<And>m b n. und.decodes m b n F bs v0 v'"
  shows "xdrmem_transfers F v bs v0 v'"
  unfolding xdrmem_transfers_def
proof (intro allI impI, elim conjE)
  fix m m2 :: mem and a b :: addr and sz :: "32 word"
  assume a: "a \<noteq> 0" and b: "b \<noteq> 0" and l: "length bs \<le> unat sz"
  obtain x where "F (xdrmem_create m a sz XDR_ENCODE) v = Some (True, x, v)"
    and "rd (x_mem x) a (length bs) = bs" and "\<forall>c. c < a \<or> a + unat sz \<le> c \<longrightarrow> x_mem x c = m c"
    by (rule xdrmem_encode [OF enc a l])
  moreover have rd: "rd (wr m2 b bs) b (length bs) = bs" by simp
  obtain y where "F (xdrmem_create (wr m2 b bs) b sz XDR_DECODE) v0 = Some (True, y, v')"
    by (rule xdrmem_decode [OF dec b l rd])
  ultimately show "\<exists>x y. F (xdrmem_create m a sz XDR_ENCODE) v = Some (True, x, v) \<and>
        rd (x_mem x) a (length bs) = bs \<and>
        (\<forall>c. c < a \<or> a + unat sz \<le> c \<longrightarrow> x_mem x c = m c) \<and>
        F (xdrmem_create (wr m2 b bs) b sz XDR_DECODE) v0 = Some (True, y, v')"
    by blast
qed

text \<open>The same over the buffers of flexrpc.\<close>

definition flexmem_transfers ::
    "(memstrm, 'a) xdrproc_t \<Rightarrow> 'a \<Rightarrow> byte list \<Rightarrow> 'a \<Rightarrow> 'a \<Rightarrow> bool" where
  "flexmem_transfers F v bs v0 v' \<longleftrightarrow> (\<forall>m a m2 b sz. a \<noteq> 0 \<and> b \<noteq> 0 \<and> length bs \<le> unat sz \<longrightarrow>
     (\<exists>x y. F (flexxdrmem_create m a sz XDR_ENCODE) v = Some (True, x, v) \<and>
        rd (x_mem x) a (length bs) = bs \<and>
        (\<forall>c. c < a \<or> a + unat sz \<le> c \<longrightarrow> x_mem x c = m c) \<and>
        F (flexxdrmem_create (wr m2 b bs) b sz XDR_DECODE) v0 = Some (True, y, v')))"

lemma flexmem_transfersI:
  assumes enc: "\<And>m b n. fm.encodes m b n F v bs v" and dec: "\<And>m b n. fmd.decodes m b n F bs v0 v'"
  shows "flexmem_transfers F v bs v0 v'"
  unfolding flexmem_transfers_def
proof (intro allI impI, elim conjE)
  fix m m2 :: mem and a b :: addr and sz :: "32 word"
  assume a: "a \<noteq> 0" and b: "b \<noteq> 0" and l: "length bs \<le> unat sz"
  obtain x where "F (flexxdrmem_create m a sz XDR_ENCODE) v = Some (True, x, v)"
    and "rd (x_mem x) a (length bs) = bs" and "\<forall>c. c < a \<or> a + unat sz \<le> c \<longrightarrow> x_mem x c = m c"
    by (rule flexxdrmem_encode [OF enc refl a l])
  moreover have rd: "rd (wr m2 b bs) b (length bs) = bs" by simp
  obtain y where "F (flexxdrmem_create (wr m2 b bs) b sz XDR_DECODE) v0 = Some (True, y, v')"
    by (rule flexxdrmem_decode [OF dec refl b l rd])
  ultimately show "\<exists>x y. F (flexxdrmem_create m a sz XDR_ENCODE) v = Some (True, x, v) \<and>
        rd (x_mem x) a (length bs) = bs \<and>
        (\<forall>c. c < a \<or> a + unat sz \<le> c \<longrightarrow> x_mem x c = m c) \<and>
        F (flexxdrmem_create (wr m2 b bs) b sz XDR_DECODE) v0 = Some (True, y, v')"
    by blast
qed

section \<open>The primitive filters between two buffers\<close>

lemmas integer_codecs =
  al.encodes_xdr_int un.encodes_xdr_int ald.decodes_xdr_int und.decodes_xdr_int
  al.encodes_xdr_u_int un.encodes_xdr_u_int ald.decodes_xdr_u_int und.decodes_xdr_u_int
  al.encodes_xdr_enum un.encodes_xdr_enum ald.decodes_xdr_enum und.decodes_xdr_enum
  al.encodes_xdr_short un.encodes_xdr_short ald.decodes_xdr_short und.decodes_xdr_short
  al.encodes_xdr_u_short un.encodes_xdr_u_short ald.decodes_xdr_u_short und.decodes_xdr_u_short
  al.encodes_xdr_int8_t un.encodes_xdr_int8_t ald.decodes_xdr_int8_t und.decodes_xdr_int8_t
  al.encodes_xdr_char un.encodes_xdr_char ald.decodes_xdr_char und.decodes_xdr_char
  al.encodes_xdr_u_char un.encodes_xdr_u_char ald.decodes_xdr_u_char und.decodes_xdr_u_char
  al.encodes_xdr_u_int64_t un.encodes_xdr_u_int64_t ald.decodes_xdr_u_int64_t
  und.decodes_xdr_u_int64_t

text \<open>
  Every integer filter carries its value through memory buffers, aligned or not: the wire
  holds the sign-extended or zero-extended value as one big-endian word, or two for the 64-bit
  filters, and decoding gives the value back, whatever the receiver's object held.
\<close>

theorem xdr_integers_transfer:
  "xdrmem_transfers xdr_int i (be32 i) i0 i \<and>
   xdrmem_transfers xdr_u_int i (be32 i) i0 i \<and>
   xdrmem_transfers xdr_enum i (be32 i) i0 i \<and>
   xdrmem_transfers xdr_short s (be32 (scast s)) s0 s \<and>
   xdrmem_transfers xdr_u_short s (be32 (ucast s)) s0 s \<and>
   xdrmem_transfers xdr_int8_t c (be32 (scast c)) c0 c \<and>
   xdrmem_transfers xdr_char c (be32 (scast c)) c0 c \<and>
   xdrmem_transfers xdr_u_char c (be32 (ucast c)) c0 c \<and>
   xdrmem_transfers xdr_int64_t d (be32 (ucast (drop_bit 32 d)) @ be32 (ucast d)) d0 d \<and>
   xdrmem_transfers xdr_u_int64_t d (be32 (ucast (drop_bit 32 d)) @ be32 (ucast d)) d0 d"
  unfolding xdr_int64_eq
  by (intro conjI xdrmem_transfersI integer_codecs)

text \<open>
  \<open>xdr_long\<close> carries a 64-bit \<open>long\<close> as its low 32 bits and the receiver zero-extends
  them, so that exactly the values below $2^{32}$ survive: no negative \<open>long\<close> does.
\<close>

theorem xdr_long_zero_extends:
  "xdrmem_transfers xdr_long v (be32 (ucast v)) v0 (ucast (ucast v :: 32 word)) \<and>
   ((ucast (ucast v :: 32 word) :: 64 word) = v \<longleftrightarrow> v < 2 ^ 32)"
  using ucast_low_iff
  by (intro conjI xdrmem_transfersI al.encodes_xdr_long un.encodes_xdr_long ald.decodes_xdr_long
      und.decodes_xdr_long)

text \<open>\<open>xdr_bool\<close> sends 1 for every value but 0, and what is received is 0 or 1.\<close>

theorem xdr_bool_normalises:
  "xdrmem_transfers xdr_bool v (be32 (if v \<noteq> 0 then 1 else 0)) v0 (if v \<noteq> 0 then 1 else 0)"
proof -
  have z: "(ucast (0 :: 32 word) :: 64 word) = 0" by simp
  show ?thesis
    using ald.decodes_xdr_bool [OF z, of _ _ _ "if v \<noteq> 0 then 1 else 0" v0]
      und.decodes_xdr_bool [OF z, of _ _ _ "if v \<noteq> 0 then 1 else 0" v0]
    by (intro xdrmem_transfersI al.encodes_xdr_bool un.encodes_xdr_bool) (auto split: if_splits)
qed


text \<open>
  An opaque block of the given length goes through any memory buffers as its bytes and
  zeros up to a multiple of four, and is stored over the front of the receiver's block.
\<close>

theorem xdr_opaque_transfers:
  assumes "length bs = unat cnt" and "length bs \<le> length old"
  shows "xdrmem_transfers (xdr_opaque cnt) bs (padded bs) old (fill old bs)"
  using assms al.encodes_xdr_opaque [of cnt bs] un.encodes_xdr_opaque [of cnt bs]
  by (intro xdrmem_transfersI ald.decodes_xdr_opaque und.decodes_xdr_opaque) simp_all

theorem xdr_opaque_transfers_witness:
  "xdrmem_transfers (xdr_opaque 3) [1, 2, 3] [1, 2, 3, 0] [9, 9, 9, 9] [1, 2, 3, 9]"
  using xdr_opaque_transfers [of "[1, 2, 3]" 3 "[9, 9, 9, 9]"]
  by (simp add: padded_def pad_def fill_def)

text \<open>
  A counted block within the maximum, received where the pointer is null, arrives as a
  fresh block of exactly its bytes.
\<close>

theorem xdr_bytes_transfers:
  assumes "length bs = unat sz" and "sz \<le> maxsize" and "avail (unat sz)" and "sz \<noteq> 0"
  shows "xdrmem_transfers (xdr_bytes avail maxsize) (Some bs, sz) (be32 sz @ padded bs)
    (None, sz0) (Some bs, sz)"
  using assms al.encodes_xdr_bytes [of sz bs maxsize] un.encodes_xdr_bytes [of sz bs maxsize]
  by (intro xdrmem_transfersI ald.decodes_xdr_bytes_alloc und.decodes_xdr_bytes_alloc) simp_all

theorem xdr_bytes_transfers_witness:
  "xdrmem_transfers (xdr_bytes (\<lambda>_. True) 16) (Some [1, 2, 3], 3) (be32 3 @ [1, 2, 3, 0])
    (None, 0) (Some [1, 2, 3], 3)"
  using xdr_bytes_transfers [of "[1, 2, 3]" 3 16 "\<lambda>_. True" 0]
  by (simp add: padded_def pad_def)

text \<open>
  A string within the maximum, received where the pointer is null, arrives as a fresh
  block with exactly its characters and a terminator; what followed the sender's terminator
  is not sent.
\<close>

theorem xdr_string_transfers:
  assumes s: "0 \<in> set s" and len: "strlen s < 2 ^ 32 - 1" and max: "strlen s \<le> unat maxsize"
    and av: "avail (strlen s + 1)"
  shows "xdrmem_transfers (xdr_string avail maxsize) (Some s)
    (be32 (of_nat (strlen s)) @ padded (cstr s)) None (Some (cstr s @ [0]))"
  using assms al.encodes_xdr_string [OF s max] un.encodes_xdr_string [OF s max]
    ald.decodes_xdr_string_alloc [of "cstr s" maxsize avail]
    und.decodes_xdr_string_alloc [of "cstr s" maxsize avail]
  by (intro xdrmem_transfersI) (simp_all add: strlen_def)

theorem xdr_string_transfers_witness:
  "xdrmem_transfers (xdr_string (\<lambda>_. True) 255) (Some [67, 69, 79, 0, 1])
    (be32 3 @ [67, 69, 79, 0]) None (Some [67, 69, 79, 0])"
  using xdr_string_transfers [of "[67, 69, 79, 0, 1]" 255 "\<lambda>_. True"]
  by (simp add: strlen_def cstr_def padded_def pad_def)

text \<open>
  A union goes through any memory buffers as its discriminant and the arm that the
  table of arms, or the default, gives for it, and both sides run the same arm.
\<close>

theorem xdr_union_transfers:
  fixes proc :: "(memstrm, 'u) xdrproc_t"
  assumes arm: "union_arm choices dfault d = Some proc"
    and enc: "\<And>m b n. al.encodes m b n proc u bs u" "\<And>m b n. un.encodes m b n proc u bs u"
    and dec: "\<And>m b n. ald.decodes m b n proc bs u0 v" "\<And>m b n. und.decodes m b n proc bs u0 v"
  shows "xdrmem_transfers (xdr_union choices dfault) (d, u) (be32 d @ bs) (d0, u0) (d, v)"
  using al.encodes_xdr_union [OF arm enc(1)] un.encodes_xdr_union [OF arm enc(2)]
    ald.decodes_xdr_union [OF arm dec(1)] und.decodes_xdr_union [OF arm dec(2)]
  by (intro xdrmem_transfersI)

theorem xdr_union_transfers_witness:
  "xdrmem_transfers (xdr_union [(0, Some xdr_void), (1, Some xdr_u_int), (9, None)] None)
    (1, 7) (be32 1 @ be32 7) (0, 3) (1, 7)"
  by (rule xdr_union_transfers [where proc = xdr_u_int])
    (simp_all add: union_arm_def al.encodes_xdr_u_int un.encodes_xdr_u_int ald.decodes_xdr_u_int
      und.decodes_xdr_u_int)

text \<open>
  A discriminant that is not in the table is refused where there is no default, and the
  arm's object is left as it was.
\<close>

theorem xdr_union_unknown:
  assumes a: "a \<noteq> 0" "4 \<le> unat sz" and none: "find_arm choices d = Some None"
  shows "\<exists>x. xdr_union choices None (xdrmem_create (wr m a (be32 d)) a sz XDR_DECODE) (d0, u) =
    Some (False, x, d, u)"
proof -
  have rd: "rd (wr m a (be32 d)) a (length (be32 d)) = be32 d" and l: "length (be32 d) \<le> unat sz"
    using a(2) by simp_all
  obtain x where "xdr_enum (xdrmem_create (wr m a (be32 d)) a sz XDR_DECODE) d0 = Some (True, x, d)"
    by (rule xdrmem_decode [OF ald.decodes_xdr_enum und.decodes_xdr_enum a(1) l rd])
  with none show ?thesis by (simp add: xdr_union_def)
qed

theorem xdr_union_unknown_witness:
  "\<exists>x. xdr_union [(0, Some xdr_void), (1, None)] None
    (xdrmem_create (wr (\<lambda>_. 0) 4096 (be32 5)) 4096 8 XDR_DECODE) (0, 0 :: 32 word) =
    Some (False, x, 5, 0)"
  by (rule xdr_union_unknown) simp_all

end
