(* ===== verification/Flex_Xdr.thy ===== *)
theory Flex_Xdr
  imports Xdr_Codec
begin

text \<open>
  \<open>src/flexrpc/flexxdr.c\<close>: flexrpc's own generic filters.  The calls of \<open>printf\<close> are left
  out.  \<open>mem_alloc\<close> is \<open>malloc\<close> here: the parameter \<open>malloc\<close> gives the block a size is
  served with, contents and all, or none.  Six of the filters are libtirpc's; the others
  differ where the lemmas say.
\<close>

section \<open>The filters\<close>

definition flexxdr_void :: "('s, 'a) xdrproc_t" where
  "flexxdr_void flexxdrs v = Some (True, flexxdrs, v)"

definition flexxdr_int :: "('s, 32 word) xdrproc_t" where
  "flexxdr_int flexxdrs ip = (case x_op flexxdrs of
     XDR_ENCODE \<Rightarrow> do {
       let l = scast ip;
       (ok, flexxdrs) \<leftarrow> XDR_PUTLONG flexxdrs l;
       Some (ok, flexxdrs, ip) }
   | XDR_DECODE \<Rightarrow> do {
       (ok, flexxdrs, l) \<leftarrow> XDR_GETLONG flexxdrs 0;
       if \<not> ok then Some (False, flexxdrs, ip) else Some (True, flexxdrs, ucast l) }
   | XDR_FREE \<Rightarrow> Some (True, flexxdrs, ip))"

definition flexxdr_enum :: "('s, 32 word) xdrproc_t" where
  "flexxdr_enum flexxdrs ep = (case x_op flexxdrs of
     XDR_ENCODE \<Rightarrow> do {
       let l = scast ep;
       (ok, flexxdrs) \<leftarrow> XDR_PUTLONG flexxdrs l;
       Some (ok, flexxdrs, ep) }
   | XDR_DECODE \<Rightarrow> do {
       (ok, flexxdrs, l) \<leftarrow> XDR_GETLONG flexxdrs 0;
       if \<not> ok then Some (False, flexxdrs, ep) else Some (True, flexxdrs, ucast l) }
   | XDR_FREE \<Rightarrow> Some (True, flexxdrs, ep))"

text \<open>
  The loop of \<open>flexxdr_union\<close> over its array of arms, and what it then calls.  An arm gets a third
  argument, \<open>LASTUNSIGNED\<close>; a filter with two parameters takes no notice of it.
\<close>

type_synonym ('s, 'a) flexxdr_arm = "'s FLEXXDR \<Rightarrow> 'a \<Rightarrow> 32 word \<Rightarrow> (bool \<times> 's FLEXXDR \<times> 'a) option"

definition LASTUNSIGNED :: "32 word" where "LASTUNSIGNED = 0 - 1"

definition two_args :: "('s, 'a) xdrproc_t \<Rightarrow> ('s, 'a) flexxdr_arm" where
  "two_args proc flexxdrs obj _ = proc flexxdrs obj"

fun flex_find_arm :: "(32 word \<times> 'p option) list \<Rightarrow> 32 word \<Rightarrow> 'p option option" where
  "flex_find_arm ((_, None) # _) dscm = Some None"
| "flex_find_arm ((val, Some proc) # choices) dscm =
     (if val = dscm then Some (Some proc) else flex_find_arm choices dscm)"
| "flex_find_arm [] _ = None"

definition flexxdr_union ::
    "(32 word \<times> ('s, 'u) flexxdr_arm option) list \<Rightarrow> ('s, 'u) flexxdr_arm option \<Rightarrow>
     ('s, 32 word \<times> 'u) xdrproc_t" where
  "flexxdr_union choices dfault flexxdrs = (\<lambda>(dscmp, unp). do {
     (ok, flexxdrs, dscm) \<leftarrow> flexxdr_enum flexxdrs dscmp;
     if \<not> ok then Some (False, flexxdrs, dscm, unp)
     else do {
       arm \<leftarrow> flex_find_arm choices dscm;
       case arm of
         Some proc \<Rightarrow> do {
           (ok, flexxdrs, un) \<leftarrow> proc flexxdrs unp LASTUNSIGNED; Some (ok, flexxdrs, dscm, un) }
       | None \<Rightarrow> (case dfault of
           None \<Rightarrow> Some (False, flexxdrs, dscm, unp)
         | Some proc \<Rightarrow> do {
             (ok, flexxdrs, un) \<leftarrow> proc flexxdrs unp LASTUNSIGNED; Some (ok, flexxdrs, dscm, un) }) } })"

text \<open>\<open>sizeof (int32_t) == sizeof (long)\<close> is false: a long outside 32 bits is refused.\<close>

definition flexxdr_long :: "('s, 64 word) xdrproc_t" where
  "flexxdr_long flexxdrs lp =
    (if x_op flexxdrs = XDR_ENCODE \<and> scast (ucast lp :: 32 word) = lp then do {
       (ok, flexxdrs) \<leftarrow> XDR_PUTLONG flexxdrs lp; Some (ok, flexxdrs, lp) }
     else if x_op flexxdrs = XDR_DECODE then XDR_GETLONG flexxdrs lp
     else Some (False, flexxdrs, lp))"

definition flexxdr_u_long :: "('s, 64 word) xdrproc_t" where
  "flexxdr_u_long flexxdrs ulp = (case x_op flexxdrs of
     XDR_DECODE \<Rightarrow> do {
       (ok, flexxdrs, tmp) \<leftarrow> XDR_GETLONG flexxdrs 0;
       if \<not> ok then Some (False, flexxdrs, ulp)
       else Some (True, flexxdrs, ucast (ucast tmp :: 32 word)) }
   | XDR_ENCODE \<Rightarrow>
       if ucast (ucast ulp :: 32 word) \<noteq> ulp then Some (False, flexxdrs, ulp)
       else do { (ok, flexxdrs) \<leftarrow> XDR_PUTLONG flexxdrs ulp; Some (ok, flexxdrs, ulp) }
   | XDR_FREE \<Rightarrow> Some (True, flexxdrs, ulp))"

definition flexxdr_char :: "('s, 8 word) xdrproc_t" where
  "flexxdr_char flexxdrs cp = do {
     let i = scast cp;
     (ok, flexxdrs, i) \<leftarrow> flexxdr_int flexxdrs i;
     if \<not> ok then Some (False, flexxdrs, cp) else Some (True, flexxdrs, ucast i) }"

definition flexxdr_u_int :: "('s, 32 word) xdrproc_t" where
  "flexxdr_u_int flexxdrs up = (case x_op flexxdrs of
     XDR_ENCODE \<Rightarrow> do {
       let l = ucast up;
       (ok, flexxdrs) \<leftarrow> XDR_PUTLONG flexxdrs l;
       Some (ok, flexxdrs, up) }
   | XDR_DECODE \<Rightarrow> do {
       (ok, flexxdrs, l) \<leftarrow> XDR_GETLONG flexxdrs 0;
       if \<not> ok then Some (False, flexxdrs, up) else Some (True, flexxdrs, ucast l) }
   | XDR_FREE \<Rightarrow> Some (True, flexxdrs, up))"

definition flexxdr_zero :: "byte list" where
  "flexxdr_zero = [0, 0, 0, 0]"

definition flexxdr_opaque :: "32 word \<Rightarrow> ('s, byte list) xdrproc_t" where
  "flexxdr_opaque cnt flexxdrs cp =
    (if cnt = 0 then Some (True, flexxdrs, cp)
     else let r = cnt mod 4; rndup = (if r > 0 then 4 - r else r); crud = replicate 4 0 in
       case x_op flexxdrs of
         XDR_DECODE \<Rightarrow> do {
           (ok, flexxdrs, cp) \<leftarrow> XDR_GETBYTES flexxdrs cp cnt;
           if \<not> ok then Some (False, flexxdrs, cp)
           else if rndup = 0 then Some (True, flexxdrs, cp)
           else do {
             (ok, flexxdrs, _) \<leftarrow> XDR_GETBYTES flexxdrs crud rndup;
             Some (ok, flexxdrs, cp) } }
       | XDR_ENCODE \<Rightarrow> do {
           (ok, flexxdrs) \<leftarrow> XDR_PUTBYTES flexxdrs cp cnt;
           if \<not> ok then Some (False, flexxdrs, cp)
           else if rndup = 0 then Some (True, flexxdrs, cp)
           else do {
             (ok, flexxdrs) \<leftarrow> XDR_PUTBYTES flexxdrs flexxdr_zero rndup;
             Some (ok, flexxdrs, cp) } }
       | XDR_FREE \<Rightarrow> Some (True, flexxdrs, cp))"

definition flexxdr_bytes ::
    "(nat \<Rightarrow> byte list option) \<Rightarrow> 32 word \<Rightarrow> ('s, byte list option \<times> 32 word) xdrproc_t" where
  "flexxdr_bytes malloc maxsize flexxdrs = (\<lambda>(sp, size0). do {
     (ok, flexxdrs, nodesize) \<leftarrow> flexxdr_u_int flexxdrs size0;
     if \<not> ok then Some (False, flexxdrs, sp, nodesize)
     else if nodesize > maxsize \<and> x_op flexxdrs \<noteq> XDR_FREE
       then Some (False, flexxdrs, sp, nodesize)
     else case x_op flexxdrs of
       XDR_DECODE \<Rightarrow>
         if nodesize = 0 then Some (True, flexxdrs, sp, nodesize)
         else (case (case sp of None \<Rightarrow> malloc (unat nodesize) | Some b \<Rightarrow> Some b) of
           None \<Rightarrow> Some (False, flexxdrs, None, nodesize)
         | Some b \<Rightarrow> do {
             (ret, flexxdrs, b) \<leftarrow> flexxdr_opaque nodesize flexxdrs b;
             Some (ret, flexxdrs, Some b, nodesize) })
     | XDR_ENCODE \<Rightarrow> (case sp of
           None \<Rightarrow> if nodesize = 0 then Some (True, flexxdrs, None, nodesize) else None
         | Some b \<Rightarrow> do {
             (ret, flexxdrs, b) \<leftarrow> flexxdr_opaque nodesize flexxdrs b;
             Some (ret, flexxdrs, Some b, nodesize) })
     | XDR_FREE \<Rightarrow> Some (True, flexxdrs, sp, nodesize) })"

definition flexxdr_string ::
    "(nat \<Rightarrow> byte list option) \<Rightarrow> 32 word \<Rightarrow> ('s, byte list option) xdrproc_t" where
  "flexxdr_string malloc maxsize flexxdrs sp =
    (if x_op flexxdrs = XDR_FREE \<and> sp = None then Some (True, flexxdrs, sp)
     else if x_op flexxdrs = XDR_ENCODE \<and> sp = None then Some (False, flexxdrs, sp)
     else do {
         size0 \<leftarrow> (if x_op flexxdrs = XDR_DECODE then Some 0
                   else case sp of Some b \<Rightarrow> c_strlen b | None \<Rightarrow> None);
         (ok, flexxdrs, size) \<leftarrow> flexxdr_u_int flexxdrs (of_nat size0);
         if \<not> ok then Some (False, flexxdrs, sp)
         else if size > maxsize then Some (False, flexxdrs, sp)
         else let nodesize = size + 1 in
           if nodesize = 0 then Some (False, flexxdrs, sp)
           else case x_op flexxdrs of
             XDR_DECODE \<Rightarrow>
               (case (case sp of None \<Rightarrow> malloc (unat nodesize) | Some b \<Rightarrow> Some b) of
                 None \<Rightarrow> Some (False, flexxdrs, None)
               | Some b \<Rightarrow> do {
                   (ret, flexxdrs, b) \<leftarrow> flexxdr_opaque size flexxdrs b;
                   Some (ret, flexxdrs, Some b) })
           | XDR_ENCODE \<Rightarrow> (case sp of
                 None \<Rightarrow> None
               | Some b \<Rightarrow> do {
                   (ret, flexxdrs, b) \<leftarrow> flexxdr_opaque size flexxdrs b;
                   Some (ret, flexxdrs, Some b) })
           | XDR_FREE \<Rightarrow> Some (True, flexxdrs, sp) })"

section \<open>The filters that are libtirpc's\<close>

lemma flexxdr_int_eq: "flexxdr_int = xdr_int"
  by (simp add: fun_eq_iff flexxdr_int_def xdr_int_def xdr_via_long_def)

lemma flexxdr_enum_eq: "flexxdr_enum = xdr_enum"
  by (simp add: fun_eq_iff flexxdr_enum_def xdr_enum_def xdr_int_def xdr_via_long_def)

lemma flexxdr_u_int_eq: "flexxdr_u_int = xdr_u_int"
  by (simp add: fun_eq_iff flexxdr_u_int_def xdr_u_int_def xdr_via_long_def)

lemma flexxdr_char_eq: "flexxdr_char = xdr_char"
  by (simp add: fun_eq_iff flexxdr_char_def xdr_char_def flexxdr_int_eq)

lemma flexxdr_zero_eq: "flexxdr_zero = xdr_zero"
  by (simp add: flexxdr_zero_def xdr_zero_def)

section \<open>Contracts\<close>

definition fits32 :: "64 word \<Rightarrow> bool" where
  "fits32 w \<longleftrightarrow> w < 2 ^ 32"

lemma fits32_ucast [simp]: "fits32 w \<Longrightarrow> ucast (ucast w :: 32 word) = w"
  by (simp add: fits32_def ucast_down_up)

lemma fits32_ucast32 [simp]: "fits32 (ucast (w :: 32 word))"
proof -
  have w: "unat w < 2 ^ 32"
    by (rule order_less_le_trans [OF unsigned_less]) simp
  then have "unat w < 2 ^ 64" by simp
  with w have "unat (ucast w :: 64 word) < 2 ^ 32"
    by (simp add: unsigned_ucast_eq take_bit_nat_eq_self)
  then show ?thesis by (simp add: fits32_def word_less_nat_alt)
qed

context xdr_sink begin

lemma encodes_flexxdr_int [codec]: "encodes flexxdr_int v (be32 v) v"
  unfolding flexxdr_int_eq by (rule encodes_xdr_int)

lemma encodes_flexxdr_enum [codec]: "encodes flexxdr_enum v (be32 v) v"
  unfolding flexxdr_enum_eq by (rule encodes_xdr_enum)

lemma encodes_flexxdr_u_int [codec]: "encodes flexxdr_u_int v (be32 v) v"
  unfolding flexxdr_u_int_eq by (rule encodes_xdr_u_int)

lemma encodes_flexxdr_u_long [codec]:
  "fits32 v \<Longrightarrow> encodes flexxdr_u_long v (be32 (ucast v)) v"
  by (rule encodes_PUTLONG [where l = v]) (simp_all add: flexxdr_u_long_def)

lemma encodes_flexxdr_long [codec]:
  "scast (ucast v :: 32 word) = v \<Longrightarrow> encodes flexxdr_long v (be32 (ucast v)) v"
  by (rule encodes_PUTLONG [where l = v]) (simp_all add: flexxdr_long_def)

lemma flexxdr_opaque_encode: "sinks xdrs \<Longrightarrow> flexxdr_opaque cnt xdrs cp = xdr_opaque cnt xdrs cp"
  unfolding flexxdr_opaque_def xdr_opaque_def flexxdr_zero_eq Let_def by simp

lemma encodes_flexxdr_opaque [codec]:
  "unat cnt \<le> length cp \<Longrightarrow>
   encodes (flexxdr_opaque cnt) cp (padded (take (unat cnt) cp)) cp"
  by (rule encodes_cong [OF encodes_xdr_opaque flexxdr_opaque_encode])

lemma encodes_flexxdr_char: "encodes flexxdr_char v (be32 (scast v)) v"
  unfolding flexxdr_char_eq by (rule encodes_xdr_char)

lemma encodes_flexxdr_bytes [codec]:
  assumes "unat sz \<le> length bs" and "sz \<le> maxsize"
  shows "encodes (flexxdr_bytes malloc maxsize) (Some bs, sz)
    (be32 sz @ padded (take (unat sz) bs)) (Some bs, sz)"
proof (rule encodesI)
  fix xdrs n
  assume s: "sinks xdrs" and "room xdrs (length (be32 sz @ padded (take (unat sz) bs)) + n)"
  then have r: "room xdrs (length (be32 sz) + (length (padded (take (unat sz) bs)) + n))"
    by (simp add: add.assoc)
  obtain x1 where 1: "flexxdr_u_int xdrs sz = Some (True, x1, sz)" "sent x1 = sent xdrs @ be32 sz"
    and s1: "sinks x1" and r1: "room x1 (length (padded (take (unat sz) bs)) + n)"
    by (rule encodesE [OF encodes_flexxdr_u_int s r])
  obtain x2 where "flexxdr_opaque sz x1 bs = Some (True, x2, bs)" "sinks x2"
    "sent x2 = sent x1 @ padded (take (unat sz) bs)" "room x2 n"
    by (rule encodesE [OF encodes_flexxdr_opaque [OF assms(1)] s1 r1])
  with 1 s1 assms(2) show "\<exists>xdrs'. flexxdr_bytes malloc maxsize xdrs (Some bs, sz) =
      Some (True, xdrs', Some bs, sz) \<and> sinks xdrs' \<and>
      sent xdrs' = sent xdrs @ be32 sz @ padded (take (unat sz) bs) \<and> room xdrs' n"
    by (simp add: flexxdr_bytes_def not_less [symmetric])
qed

lemma encodes_flexxdr_string [codec]:
  assumes "0 \<in> set s" and "strlen s \<le> unat maxsize" and "strlen s + 1 < 2 ^ 32"
  shows "encodes (flexxdr_string malloc maxsize) (Some s)
    (be32 (of_nat (strlen s)) @ padded (cstr s)) (Some s)"
proof (rule encodesI)
  fix xdrs n
  let ?w = "of_nat (strlen s) :: 32 word"
  assume k: "sinks xdrs" and "room xdrs (length (be32 ?w @ padded (cstr s)) + n)"
  then have r: "room xdrs (length (be32 ?w) + (length (padded (cstr s)) + n))"
    by (simp add: add.assoc)
  have w: "unat ?w = strlen s" using assms(3) by (simp add: unat_of_nat32)
  have w1: "?w + 1 \<noteq> 0"
    using assms(3) w unat_word_ariths(1) [of ?w 1] by (auto simp: unat_eq_0 [symmetric])
  obtain x1 where 1: "flexxdr_u_int xdrs ?w = Some (True, x1, ?w)" "sent x1 = sent xdrs @ be32 ?w"
    and s1: "sinks x1" and r1: "room x1 (length (padded (take (unat ?w) s)) + n)"
    by (rule encodesE [OF encodes_flexxdr_u_int k r]) (simp add: w)
  have "unat ?w \<le> length s" using w strlen_le by simp
  then obtain x2 where "flexxdr_opaque ?w x1 s = Some (True, x2, s)" "sinks x2"
    "sent x2 = sent x1 @ padded (take (unat ?w) s)" "room x2 n"
    by (rule encodesE [OF encodes_flexxdr_opaque s1 r1])
  moreover have "\<not> maxsize < ?w" using assms(2) w by (simp add: word_less_nat_alt)
  ultimately show "\<exists>xdrs'. flexxdr_string malloc maxsize xdrs (Some s) = Some (True, xdrs', Some s) \<and>
      sinks xdrs' \<and> sent xdrs' = sent xdrs @ be32 ?w @ padded (cstr s) \<and> room xdrs' n"
    using 1 s1 k w w1 assms(1) by (simp add: flexxdr_string_def Let_def)
qed

end

context xdr_source begin

lemma decodes_flexxdr_int [codec]: "decodes flexxdr_int (be32 v) v0 v"
  unfolding flexxdr_int_eq by (rule decodes_xdr_int)

lemma decodes_flexxdr_enum [codec]: "decodes flexxdr_enum (be32 v) v0 v"
  unfolding flexxdr_enum_eq by (rule decodes_xdr_enum)

lemma decodes_flexxdr_u_int [codec]: "decodes flexxdr_u_int (be32 v) v0 v"
  unfolding flexxdr_u_int_eq by (rule decodes_xdr_u_int)

lemma decodes_flexxdr_char: "decodes flexxdr_char (be32 (scast v)) v0 v"
  unfolding flexxdr_char_eq by (rule decodes_xdr_char)

text \<open>An unsigned long comes back zero-extended whatever the stream's \<open>getlong\<close> does.\<close>

lemma decodes_flexxdr_u_long [codec]: "decodes flexxdr_u_long (be32 w) v0 (ucast w)"
  by (rule decodes_GETLONG [where ?l0.0 = 0 and g = "\<lambda>l. ucast (ucast l :: 32 word)"
        and h = "\<lambda>_. v0"])
    (simp_all add: flexxdr_u_long_def ucast_ext)

lemma decodes_flexxdr_long [codec]: "decodes flexxdr_long (be32 w) v0 (ext w)"
  by (rule decodes_GETLONG [where ?l0.0 = v0 and g = id and h = id])
    (auto simp: flexxdr_long_def split: bind_split)

lemma decodes_flexxdr_opaque [codec]:
  assumes len: "length bs = unat cnt" and blk: "length bs \<le> length cp"
  shows "decodes (flexxdr_opaque cnt) (padded bs) cp (fill cp bs)"
proof (rule decodesI)
  fix xdrs rs
  assume s: "sources xdrs" and "pending xdrs = padded bs @ rs"
  then have p: "pending xdrs = bs @ (replicate (pad (unat cnt)) 0 @ rs)"
    by (simp add: padded_def len)
  let ?rndup = "if cnt mod 4 > 0 then 4 - cnt mod 4 else cnt mod 4"
  show "\<exists>xdrs'. flexxdr_opaque cnt xdrs cp = Some (True, xdrs', fill cp bs) \<and> sources xdrs' \<and>
      pending xdrs' = rs"
  proof (cases "cnt = 0")
    case True
    with s p len show ?thesis by (simp add: flexxdr_opaque_def pad_def fill_def)
  next
    case False
    obtain x1 where 1: "XDR_GETBYTES xdrs cp cnt = Some (True, x1, fill cp bs)" and s1: "sources x1"
      and p1: "pending x1 = replicate (pad (unat cnt)) 0 @ rs"
      by (rule XDR_GETBYTES_ok [OF s p len blk])
    show ?thesis
    proof (cases "?rndup = 0")
      case True
      then have "pad (unat cnt) = 0" using rndup_pad [of cnt] by simp
      with False True s 1 s1 p1 show ?thesis by (auto simp: flexxdr_opaque_def Let_def)
    next
      case nz: False
      have l: "length (replicate (pad (unat cnt)) (0 :: byte)) = unat ?rndup"
        by (simp only: rndup_pad length_replicate)
      have crud: "length (replicate (pad (unat cnt)) (0 :: byte)) \<le> length (replicate 4 (0 :: byte))"
        using pad_less [of "unat cnt"] by simp
      obtain x2 buf' where "XDR_GETBYTES x1 (replicate 4 0) ?rndup = Some (True, x2, buf')"
        "sources x2" "pending x2 = rs"
        by (rule XDR_GETBYTES_ok [OF s1 p1 l crud])
      with False nz s 1 show ?thesis
        by (simp add: flexxdr_opaque_def Let_def del: if_split cong: if_cong)
    qed
  qed
qed

text \<open>
  Decoding into a block the caller supplies writes it from its front; a null pointer is
  replaced by what \<open>malloc\<close> gives.  A string gets no terminator either way.
\<close>

lemma decodes_flexxdr_bytes_block:
  assumes "length bs = unat sz" and "sz \<le> maxsize" and "length bs \<le> length old"
  shows "decodes (flexxdr_bytes malloc maxsize) (be32 sz @ padded bs) (Some old, sz0)
    (Some (fill old bs), sz)"
proof (rule decodesI)
  fix xdrs rs
  assume s: "sources xdrs" and "pending xdrs = (be32 sz @ padded bs) @ rs"
  then have p: "pending xdrs = be32 sz @ (padded bs @ rs)" by simp
  obtain x1 where 1: "flexxdr_u_int xdrs sz0 = Some (True, x1, sz)"
    and s1: "sources x1" and p1: "pending x1 = padded bs @ rs"
    by (rule decodesE [OF decodes_flexxdr_u_int s p])
  obtain x2 where "flexxdr_opaque sz x1 old = Some (True, x2, fill old bs)" "sources x2"
    "pending x2 = rs"
    by (rule decodesE [OF decodes_flexxdr_opaque [OF assms(1,3)] s1 p1])
  moreover from this have "flexxdr_opaque 0 x1 old = Some (True, x1, old)"
    by (simp add: flexxdr_opaque_def)
  ultimately show "\<exists>xdrs'. flexxdr_bytes malloc maxsize xdrs (Some old, sz0) =
      Some (True, xdrs', Some (fill old bs), sz) \<and> sources xdrs' \<and> pending xdrs' = rs"
    using 1 s1 assms by (auto simp: flexxdr_bytes_def not_less [symmetric] fill_def)
qed

lemma decodes_flexxdr_string:
  assumes len: "length bs < 2 ^ 32 - 1" and max: "length bs \<le> unat maxsize"
    and sp: "(case sp of None \<Rightarrow> malloc (length bs + 1) | Some b \<Rightarrow> Some b) = Some old"
    and blk: "length bs \<le> length old"
  shows "decodes (flexxdr_string malloc maxsize) (be32 (of_nat (length bs)) @ padded bs) sp
    (Some (fill old bs))"
proof (rule decodesI)
  fix xdrs rs
  let ?w = "of_nat (length bs) :: 32 word"
  assume s: "sources xdrs" and "pending xdrs = (be32 ?w @ padded bs) @ rs"
  then have p: "pending xdrs = be32 ?w @ (padded bs @ rs)" by simp
  have w: "unat ?w = length bs" using len by (simp add: unat_of_nat32)
  then have w1: "unat (?w + 1) = length bs + 1"
    using len unat_word_ariths(1) [of ?w 1] by simp
  then have nz: "?w + 1 \<noteq> 0" by (auto simp: unat_eq_0 [symmetric])
  obtain x1 where 1: "flexxdr_u_int xdrs 0 = Some (True, x1, ?w)"
    and s1: "sources x1" and p1: "pending x1 = padded bs @ rs"
    by (rule decodesE [OF decodes_flexxdr_u_int s p])
  obtain x2 where "flexxdr_opaque ?w x1 old = Some (True, x2, fill old bs)"
    "sources x2" "pending x2 = rs"
    by (rule decodesE [OF decodes_flexxdr_opaque [OF w [symmetric] blk] s1 p1])
  moreover have "\<not> maxsize < ?w" using max w by (simp add: word_less_nat_alt)
  ultimately show "\<exists>xdrs'. flexxdr_string malloc maxsize xdrs sp = Some (True, xdrs', Some (fill old bs)) \<and>
      sources xdrs' \<and> pending xdrs' = rs"
    using 1 s s1 w1 nz sp by (cases sp) (simp_all add: flexxdr_string_def Let_def)
qed

text \<open>A block that is too short for the string is overrun.\<close>

lemma overruns_flexxdr_string:
  assumes len: "length bs < 2 ^ 32 - 1" and max: "length bs \<le> unat maxsize" and blk: "length old < length bs"
  shows "overruns (flexxdr_string malloc maxsize) (be32 (of_nat (length bs)) @ padded bs) (Some old)"
  unfolding overruns_def
proof (intro allI impI, elim conjE)
  fix xdrs rs
  let ?w = "of_nat (length bs) :: 32 word"
  assume s: "sources xdrs" and "pending xdrs = (be32 ?w @ padded bs) @ rs"
  then have p: "pending xdrs = be32 ?w @ (padded bs @ rs)" by simp
  have w: "unat ?w = length bs" using len by (simp add: unat_of_nat32)
  then have nz: "?w + 1 \<noteq> 0" "?w \<noteq> 0"
    using len blk unat_word_ariths(1) [of ?w 1] by (auto simp: unat_eq_0 [symmetric])
  obtain x1 where 1: "flexxdr_u_int xdrs 0 = Some (True, x1, ?w)"
    and s1: "sources x1" and p1: "pending x1 = padded bs @ rs"
    by (rule decodesE [OF decodes_flexxdr_u_int s p])
  have "pending x1 = bs @ (replicate (pad (length bs)) 0 @ rs)" using p1 by (simp add: padded_def)
  from XDR_GETBYTES_overrun [OF s1 this w [symmetric] blk]
  have "flexxdr_opaque ?w x1 old = None" using nz s1 by (simp add: flexxdr_opaque_def Let_def)
  moreover have "\<not> maxsize < ?w" using max w by (simp add: word_less_nat_alt)
  ultimately show "flexxdr_string malloc maxsize xdrs (Some old) = None"
    using 1 s s1 nz by (simp add: flexxdr_string_def Let_def)
qed

end

section \<open>The filters between two buffers\<close>


text \<open>
  flexrpc's filters for 64-bit longs send the longs that one word of the wire can carry,
  sign-extended or zero-extended, and the receiver gets them back; every other long is refused
  before anything is sent.
\<close>

theorem flexxdr_longs_faithful:
  "(if scast (ucast v :: 32 word) = v then flexmem_transfers flexxdr_long v (be32 (ucast v)) v0 v
    else flexxdr_long (flexxdrmem_create m a sz XDR_ENCODE) v =
      Some (False, flexxdrmem_create m a sz XDR_ENCODE, v)) \<and>
   (if v < 2 ^ 32 then flexmem_transfers flexxdr_u_long v (be32 (ucast v)) v0 v
    else flexxdr_u_long (flexxdrmem_create m a sz XDR_ENCODE) v =
      Some (False, flexxdrmem_create m a sz XDR_ENCODE, v))"
proof (intro conjI)
  have "flexmem_transfers flexxdr_long v (be32 (ucast v)) v0 v" if r: "scast (ucast v :: 32 word) = v"
    using fm.encodes_flexxdr_long [OF r] fmd.decodes_flexxdr_long [of _ _ _ "ucast v" v0] r
    by (intro flexmem_transfersI) simp_all
  then show "if scast (ucast v :: 32 word) = v then flexmem_transfers flexxdr_long v (be32 (ucast v)) v0 v
    else flexxdr_long (flexxdrmem_create m a sz XDR_ENCODE) v =
      Some (False, flexxdrmem_create m a sz XDR_ENCODE, v)"
    by (simp add: flexxdr_long_def flexxdrmem_create_def)
  have "flexmem_transfers flexxdr_u_long v (be32 (ucast v)) v0 v" if r: "fits32 v"
    using fm.encodes_flexxdr_u_long [OF r] fmd.decodes_flexxdr_u_long [of _ _ _ "ucast v" v0] r
    by (intro flexmem_transfersI) simp_all
  moreover have "ucast (ucast v :: 32 word) \<noteq> v" if "\<not> v < 2 ^ 32"
    using that by (simp add: ucast_low_iff)
  ultimately show "if v < 2 ^ 32 then flexmem_transfers flexxdr_u_long v (be32 (ucast v)) v0 v
    else flexxdr_u_long (flexxdrmem_create m a sz XDR_ENCODE) v =
      Some (False, flexxdrmem_create m a sz XDR_ENCODE, v)"
    by (simp add: fits32_def flexxdr_u_long_def flexxdrmem_create_def)
qed

text \<open>
  A string within the maximum goes through flexrpc's buffers into the receiver's block
  without its terminator: behind the characters the block keeps what it held.
\<close>

theorem flexxdr_string_unterminated:
  assumes s: "0 \<in> set s" and len: "strlen s < 2 ^ 32 - 1" and max: "strlen s \<le> unat maxsize"
    and blk: "strlen s \<le> length old"
  shows "flexmem_transfers (flexxdr_string malloc maxsize) (Some s)
    (be32 (of_nat (strlen s)) @ padded (cstr s)) (Some old) (Some (cstr s @ drop (strlen s) old))"
  using assms fm.encodes_flexxdr_string [OF s max]
    fmd.decodes_flexxdr_string [where bs = "cstr s" and maxsize = maxsize and sp = "Some old"
      and malloc = malloc and old = old]
  by (intro flexmem_transfersI) (simp_all add: strlen_def fill_def)

theorem flexxdr_string_unterminated_witness:
  "flexmem_transfers (flexxdr_string (\<lambda>_. None) 255) (Some [67, 69, 79, 0])
    (be32 3 @ [67, 69, 79, 0]) (Some [1, 2, 3, 4, 5, 0]) (Some [67, 69, 79, 4, 5, 0])"
  using flexxdr_string_unterminated [of "[67, 69, 79, 0]" 255 "[1, 2, 3, 4, 5, 0]" "\<lambda>_. None"]
  by (simp add: strlen_def cstr_def padded_def pad_def)

text \<open>
  Freeing through libtirpc's filter for counted bytes releases the block and clears the
  pointer; through flexrpc's filters it leaves block and pointer as they are and reports
  success, and for a \<open>long\<close> it reports failure.
\<close>

theorem flexxdr_free_keeps:
  assumes op: "x_op x = XDR_FREE"
  shows "xdr_bytes avail maxsize x (Some b, sz) = Some (True, x, None, sz) \<and>
    flexxdr_bytes malloc maxsize x (Some b, sz) = Some (True, x, Some b, sz) \<and>
    flexxdr_long x v = Some (False, x, v)"
  using op by (simp add: xdr_bytes_def flexxdr_bytes_def flexxdr_long_def xdr_u_int_def xdr_via_long_def
      flexxdr_u_int_def)

theorem flexxdr_free_keeps_witness:
  "xdr_bytes (\<lambda>_. True) 9 (xdrmem_create (\<lambda>_. 0) 8 0 XDR_FREE) (Some [1], 1) =
    Some (True, xdrmem_create (\<lambda>_. 0) 8 0 XDR_FREE, None, 1)"
  using flexxdr_free_keeps [of "xdrmem_create (\<lambda>_. 0) 8 0 XDR_FREE"] by (simp add: xdrmem_create_def)

end
