(* ===== verification/Msg_Enums.thy ===== *)
theory Msg_Enums
  imports Base
begin

text \<open>
  The enumerations of an RPC message, which \<open>flexrpc/flexrpc_msg.h\<close> and
  \<open>tirpc/rpc/rpc_msg.h\<close> define alike.  An enumeration is a 32-bit word.
\<close>

type_synonym enum_t = "32 word"

definition CALL :: enum_t where "CALL = 0"
definition REPLY :: enum_t where "REPLY = 1"

definition MSG_ACCEPTED :: enum_t where "MSG_ACCEPTED = 0"
definition MSG_DENIED :: enum_t where "MSG_DENIED = 1"

definition SUCCESS :: enum_t where "SUCCESS = 0"
definition PROG_UNAVAIL :: enum_t where "PROG_UNAVAIL = 1"
definition PROG_MISMATCH :: enum_t where "PROG_MISMATCH = 2"
definition PROC_UNAVAIL :: enum_t where "PROC_UNAVAIL = 3"
definition GARBAGE_ARGS :: enum_t where "GARBAGE_ARGS = 4"
definition SYSTEM_ERR :: enum_t where "SYSTEM_ERR = 5"

definition RPC_MISMATCH :: enum_t where "RPC_MISMATCH = 0"
definition AUTH_ERROR :: enum_t where "AUTH_ERROR = 1"

lemmas msg_enums = CALL_def REPLY_def MSG_ACCEPTED_def MSG_DENIED_def SUCCESS_def
  PROG_UNAVAIL_def PROG_MISMATCH_def PROC_UNAVAIL_def GARBAGE_ARGS_def SYSTEM_ERR_def
  RPC_MISMATCH_def AUTH_ERROR_def

end
