(* ===== verification/Flex_Msg.thy ===== *)
theory Flex_Msg
  imports Flex_Xdr Msg_Enums
begin

text \<open>
  \<open>src/flexrpc/flexrpc_msg.h\<close>, \<open>flexrpc_prot.c\<close> and \<open>flexrpc_cmsg.c\<close>: the messages of
  flexrpc and their filters.  A \<open>u_long\<close> field is a \<^typ>\<open>64 word\<close>, an enumeration a
  \<^typ>\<open>32 word\<close>.  The members of a C union are fields of one record: no code of the
  repository reads a member of these unions after another one was stored.  \<open>ar_results.where\<close>
  is the object it points to, of the type \<^typ>\<open>'w\<close> on which the procedures of the
  application work; a null \<open>ar_results.proc\<close> is \<open>None\<close>, and calling it is not defined.
\<close>

section \<open>Messages\<close>

definition FLEXRPC_MSG_VERSION :: "64 word" where "FLEXRPC_MSG_VERSION = 8"

lemmas flex_msg_consts = msg_enums FLEXRPC_MSG_VERSION_def

record ('s, 'w) accepted_reply =
  ar_stat :: enum_t
  ar_low :: "64 word"
  ar_high :: "64 word"
  ar_where :: 'w
  ar_proc :: "('s, 'w) xdrproc_t option"

record rejected_reply =
  rj_stat :: enum_t
  rj_low :: "64 word"
  rj_high :: "64 word"

record ('s, 'w) reply_body =
  rp_stat :: enum_t
  rp_acpt :: "('s, 'w) accepted_reply"
  rp_rjct :: rejected_reply

record call_body =
  cb_rpcvers :: "64 word"
  cb_prog :: "64 word"
  cb_vers :: "64 word"
  cb_proc :: "64 word"

record ('s, 'w) rpc_msg =
  rm_xid :: "64 word"
  rm_direction :: enum_t
  rm_call :: call_body
  rm_reply :: "('s, 'w) reply_body"

text \<open>Fields of the call within the message.\<close>

abbreviation rm_call_fld where
  "rm_call_fld get upd \<equiv> fld (\<lambda>msg. get (rm_call msg)) (\<lambda>f. rm_call_update (upd f))"

section \<open>Replies\<close>

definition flexxdr_accepted_reply :: "('s, ('s, 'w) accepted_reply) xdrproc_t" where
  "flexxdr_accepted_reply flexxdrs ar =
     and_then (fld ar_stat ar_stat_update flexxdr_enum flexxdrs ar) (\<lambda>flexxdrs ar.
       if ar_stat ar = SUCCESS then
         (case ar_proc ar of
            None \<Rightarrow> None
          | Some proc \<Rightarrow> fld ar_where ar_where_update proc flexxdrs ar)
       else if ar_stat ar = PROG_MISMATCH then
         and_then (fld ar_low ar_low_update flexxdr_u_long flexxdrs ar)
           (fld ar_high ar_high_update flexxdr_u_long)
       else Some (True, flexxdrs, ar))"

definition flexxdr_rejected_reply :: "('s, rejected_reply) xdrproc_t" where
  "flexxdr_rejected_reply flexxdrs rr =
     and_then (fld rj_stat rj_stat_update flexxdr_enum flexxdrs rr) (\<lambda>flexxdrs rr.
       if rj_stat rr = RPC_MISMATCH then
         and_then (fld rj_low rj_low_update flexxdr_u_long flexxdrs rr)
           (fld rj_high rj_high_update flexxdr_u_long)
       else Some (False, flexxdrs, rr))"

text \<open>The arms of the union work on the two members of \<open>rm_reply.ru\<close>.\<close>

definition reply_dscrm ::
    "(32 word \<times> ('s, ('s, 'w) accepted_reply \<times> rejected_reply) flexxdr_arm option) list" where
  "reply_dscrm = [
     (MSG_ACCEPTED, Some (two_args (fld fst apfst flexxdr_accepted_reply))),
     (MSG_DENIED, Some (two_args (fld snd apsnd flexxdr_rejected_reply))),
     (-1, None)]"

definition flexxdr_replymsg :: "('s, ('s, 'w) rpc_msg) xdrproc_t" where
  "flexxdr_replymsg flexxdrs rmsg =
    (if rm_direction rmsg = REPLY then do {
       let r = rm_reply rmsg;
       (res, flexxdrs, stat, acpt, rjct) \<leftarrow>
         flexxdr_union reply_dscrm None flexxdrs (rp_stat r, rp_acpt r, rp_rjct r);
       Some (res, flexxdrs,
         rmsg\<lparr>rm_reply := r\<lparr>rp_stat := stat, rp_acpt := acpt, rp_rjct := rjct\<rparr>\<rparr>) }
     else Some (False, flexxdrs, rmsg))"

section \<open>Calls\<close>

definition flexxdr_callhdr :: "('s, ('s, 'w) rpc_msg) xdrproc_t" where
  "flexxdr_callhdr flexxdrs cmsg0 =
    (let cmsg = cmsg0\<lparr>rm_direction := CALL,
           rm_call := (rm_call cmsg0)\<lparr>cb_rpcvers := FLEXRPC_MSG_VERSION\<rparr>\<rparr> in
     and_then (and_then (and_then (and_then (and_then
       (check (\<lambda>_. x_op flexxdrs = XDR_ENCODE) flexxdrs cmsg)
       (fld rm_xid rm_xid_update flexxdr_u_long))
       (fld rm_direction rm_direction_update flexxdr_enum))
       (rm_call_fld cb_rpcvers cb_rpcvers_update flexxdr_u_long))
       (rm_call_fld cb_prog cb_prog_update flexxdr_u_long))
       (rm_call_fld cb_vers cb_vers_update flexxdr_u_long))"

definition IFLEXXDR_PUT_LONG :: "'s FLEXXDR \<Rightarrow> addr \<Rightarrow> 64 word \<Rightarrow> 's FLEXXDR \<times> addr" where
  "IFLEXXDR_PUT_LONG flexxdrs buf v = IXDR_PUT_INT32 flexxdrs buf (ucast v)"

text \<open>The value read is an unsigned 32-bit word before it is a \<open>long\<close>.\<close>

definition IFLEXXDR_GET_LONG :: "'s FLEXXDR \<Rightarrow> addr \<Rightarrow> 64 word \<times> addr" where
  "IFLEXXDR_GET_LONG flexxdrs buf =
     (let (v, buf) = IXDR_GET_INT32 flexxdrs buf in (ucast v, buf))"

text \<open>The two in-line paths of \<open>flexxdr_callmsg\<close>, after the null test.\<close>

definition callmsg_put :: "addr \<Rightarrow> ('s, ('s, 'w) rpc_msg) xdrproc_t" where
  "callmsg_put buf flexxdrs cmsg =
    (let (flexxdrs, buf) = IFLEXXDR_PUT_LONG flexxdrs buf (cb_rpcvers (rm_call cmsg)) in
     if cb_rpcvers (rm_call cmsg) \<noteq> FLEXRPC_MSG_VERSION then Some (False, flexxdrs, cmsg)
     else
       let (flexxdrs, buf) = IFLEXXDR_PUT_LONG flexxdrs buf (cb_prog (rm_call cmsg));
           (flexxdrs, buf) = IFLEXXDR_PUT_LONG flexxdrs buf (cb_vers (rm_call cmsg));
           (flexxdrs, buf) = IFLEXXDR_PUT_LONG flexxdrs buf (cb_proc (rm_call cmsg))
       in Some (True, flexxdrs, cmsg))"

definition callmsg_get :: "addr \<Rightarrow> ('s, ('s, 'w) rpc_msg) xdrproc_t" where
  "callmsg_get buf flexxdrs cmsg =
    (let (v, buf) = IFLEXXDR_GET_LONG flexxdrs buf;
         cmsg = rm_call_update (cb_rpcvers_update (\<lambda>_. v)) cmsg in
     if cb_rpcvers (rm_call cmsg) \<noteq> FLEXRPC_MSG_VERSION then Some (False, flexxdrs, cmsg)
     else
       let (v, buf) = IFLEXXDR_GET_LONG flexxdrs buf;
           cmsg = rm_call_update (cb_prog_update (\<lambda>_. v)) cmsg;
           (v, buf) = IFLEXXDR_GET_LONG flexxdrs buf;
           cmsg = rm_call_update (cb_vers_update (\<lambda>_. v)) cmsg;
           (v, buf) = IFLEXXDR_GET_LONG flexxdrs buf;
           cmsg = rm_call_update (cb_proc_update (\<lambda>_. v)) cmsg
       in Some (True, flexxdrs, cmsg))"

text \<open>The path taken without an in-line buffer.\<close>

definition callmsg_fields :: "('s, ('s, 'w) rpc_msg) xdrproc_t" where
  "callmsg_fields flexxdrs cmsg =
     and_then (and_then (and_then (and_then (and_then (and_then (and_then
       (fld rm_xid rm_xid_update flexxdr_u_long flexxdrs cmsg)
       (fld rm_direction rm_direction_update flexxdr_enum))
       (check (\<lambda>cmsg. rm_direction cmsg = CALL)))
       (rm_call_fld cb_rpcvers cb_rpcvers_update flexxdr_u_long))
       (check (\<lambda>cmsg. cb_rpcvers (rm_call cmsg) = FLEXRPC_MSG_VERSION)))
       (rm_call_fld cb_prog cb_prog_update flexxdr_u_long))
       (rm_call_fld cb_vers cb_vers_update flexxdr_u_long))
       (rm_call_fld cb_proc cb_proc_update flexxdr_u_long)"

definition flexxdr_callmsg :: "('s, ('s, 'w) rpc_msg) xdrproc_t" where
  "flexxdr_callmsg flexxdrs cmsg =
    (case x_op flexxdrs of
       XDR_ENCODE \<Rightarrow> do {
         (buf, flexxdrs) \<leftarrow> XDR_INLINE flexxdrs (4 * 4);
         if buf \<noteq> 0 then callmsg_put buf flexxdrs cmsg else callmsg_fields flexxdrs cmsg }
     | XDR_DECODE \<Rightarrow> do {
         (buf, flexxdrs) \<leftarrow> XDR_INLINE flexxdrs (4 * 4);
         if buf \<noteq> 0 then callmsg_get buf flexxdrs cmsg else callmsg_fields flexxdrs cmsg }
     | XDR_FREE \<Rightarrow> callmsg_fields flexxdrs cmsg)"

section \<open>The wire format\<close>

definition callhdr_bytes :: "64 word \<Rightarrow> 64 word \<Rightarrow> 64 word \<Rightarrow> byte list" where
  "callhdr_bytes xid prog vers =
     be32 (ucast xid) @ be32 CALL @ be32 8 @ be32 (ucast prog) @ be32 (ucast vers)"

definition callmsg_bytes :: "64 word \<Rightarrow> 64 word \<Rightarrow> 64 word \<Rightarrow> byte list" where
  "callmsg_bytes prog vers proc =
     be32 8 @ be32 (ucast prog) @ be32 (ucast vers) @ be32 (ucast proc)"

lemma length_callmsg_bytes [simp]: "length (callmsg_bytes prog vers proc) = 16"
  by (simp add: callmsg_bytes_def)

text \<open>A header followed by the procedure number is the xid, the direction and a call.\<close>

lemma callhdr_callmsg_bytes:
  "callhdr_bytes xid prog vers @ be32 (ucast proc) =
     be32 (ucast xid) @ be32 CALL @ callmsg_bytes prog vers proc"
  by (simp add: callhdr_bytes_def callmsg_bytes_def)

section \<open>Encoding\<close>

context xdr_sink begin

lemma encodes_callhdr:
  assumes "fits32 (rm_xid cmsg)" and "fits32 (cb_prog (rm_call cmsg))"
    and "fits32 (cb_vers (rm_call cmsg))"
  shows "encodes flexxdr_callhdr cmsg
    (callhdr_bytes (rm_xid cmsg) (cb_prog (rm_call cmsg)) (cb_vers (rm_call cmsg)))
    (cmsg\<lparr>rm_direction := CALL,
       rm_call := (rm_call cmsg)\<lparr>cb_rpcvers := FLEXRPC_MSG_VERSION\<rparr>\<rparr>)" (is "encodes _ _ ?bs ?c")
proof -
  have 8: "fits32 FLEXRPC_MSG_VERSION" by (simp add: fits32_def FLEXRPC_MSG_VERSION_def)
  let ?chain = "\<lambda>x c. and_then (and_then (and_then (and_then
      (fld rm_xid rm_xid_update flexxdr_u_long x c)
      (fld rm_direction rm_direction_update flexxdr_enum))
      (rm_call_fld cb_rpcvers cb_rpcvers_update flexxdr_u_long))
      (rm_call_fld cb_prog cb_prog_update flexxdr_u_long))
      (rm_call_fld cb_vers cb_vers_update flexxdr_u_long)"
  have chain: "encodes ?chain ?c ?bs ?c"
    by (rule encodes_eq, (rule codec | simp add: assms 8; fail)+)
      (simp_all add: callhdr_bytes_def FLEXRPC_MSG_VERSION_def)
  show ?thesis
  proof (rule encodesI)
    fix xdrs n
    assume s: "sinks xdrs" and r: "room xdrs (length ?bs + n)"
    then show "\<exists>xdrs'. flexxdr_callhdr xdrs cmsg = Some (True, xdrs', ?c) \<and> sinks xdrs' \<and>
        sent xdrs' = sent xdrs @ ?bs \<and> room xdrs' n"
      using encodesE [OF chain s r] by (simp add: flexxdr_callhdr_def check_def) blast
  qed
qed

text \<open>A reply that was accepted: its two discriminants, then what its filter writes.\<close>

lemma encodes_success_reply:
  assumes proc: "ar_proc ar = Some proc" and w: "encodes proc (ar_where ar) bs w'"
    and ar: "ar = rp_acpt (rm_reply msg)" and stat: "ar_stat ar = SUCCESS"
    and rp: "rp_stat (rm_reply msg) = MSG_ACCEPTED" and dir: "rm_direction msg = REPLY"
  shows "encodes flexxdr_replymsg msg (be32 MSG_ACCEPTED @ be32 SUCCESS @ bs)
    (msg\<lparr>rm_reply := (rm_reply msg)\<lparr>rp_acpt := ar\<lparr>ar_where := w'\<rparr>\<rparr>\<rparr>)"
proof (rule encodesI)
  fix xdrs n
  assume s: "sinks xdrs" and "room xdrs (length (be32 MSG_ACCEPTED @ be32 SUCCESS @ bs) + n)"
  then have r: "room xdrs (length (be32 MSG_ACCEPTED) + (length (be32 SUCCESS) + (length bs + n)))"
    by (simp add: add.assoc)
  obtain x1 where 1: "flexxdr_enum xdrs MSG_ACCEPTED = Some (True, x1, MSG_ACCEPTED)"
    "sent x1 = sent xdrs @ be32 MSG_ACCEPTED"
    and s1: "sinks x1" and r1: "room x1 (length (be32 SUCCESS) + (length bs + n))"
    by (rule encodesE [OF encodes_flexxdr_enum s r])
  obtain x2 where 2: "flexxdr_enum x1 SUCCESS = Some (True, x2, SUCCESS)"
    "sent x2 = sent x1 @ be32 SUCCESS" and s2: "sinks x2" and r2: "room x2 (length bs + n)"
    by (rule encodesE [OF encodes_flexxdr_enum s1 r1])
  obtain x3 where 3: "proc x2 (ar_where ar) = Some (True, x3, w')"
    "sent x3 = sent x2 @ bs" "sinks x3" "room x3 n"
    by (rule encodesE [OF w s2 r2])
  have "flexxdr_accepted_reply x1 ar = Some (True, x3, ar\<lparr>ar_where := w'\<rparr>)"
    using 2 3 proc stat by (simp add: flexxdr_accepted_reply_def fld_def)
  then have "flexxdr_replymsg xdrs msg = Some (True, x3,
      msg\<lparr>rm_reply := (rm_reply msg)\<lparr>rp_acpt := ar\<lparr>ar_where := w'\<rparr>\<rparr>\<rparr>)"
    using 1 rp dir ar
    by (cases "rm_reply msg")
      (simp add: flexxdr_replymsg_def flexxdr_union_def two_args_def reply_dscrm_def fld_def)
  with 1 2 3 show "\<exists>xdrs'. flexxdr_replymsg xdrs msg = Some (True, xdrs',
      msg\<lparr>rm_reply := (rm_reply msg)\<lparr>rp_acpt := ar\<lparr>ar_where := w'\<rparr>\<rparr>\<rparr>) \<and> sinks xdrs' \<and>
      sent xdrs' = sent xdrs @ be32 MSG_ACCEPTED @ be32 SUCCESS @ bs \<and> room xdrs' n"
    by simp
qed

text \<open>Over 32 bits an unsigned long is refused and nothing is put.\<close>

lemma flexxdr_u_long_refuses:
  "sinks xdrs \<Longrightarrow> \<not> fits32 v \<Longrightarrow> flexxdr_u_long xdrs v = Some (False, xdrs, v)"
proof -
  assume s: "sinks xdrs" and v: "\<not> fits32 v"
  have "ucast (ucast v :: 32 word) \<noteq> v"
    using v fits32_ucast32 [of "ucast v"] by metis
  with s show ?thesis by (simp add: flexxdr_u_long_def)
qed

end

context xdr_mapped_sink begin

lemma callmsg_put_encodes:
  "cb_rpcvers (rm_call cmsg) = FLEXRPC_MSG_VERSION \<Longrightarrow>
   callmsg_put buf x1 cmsg = Some (True, x1\<lparr>x_mem := wr (x_mem x1) buf
     (callmsg_bytes (cb_prog (rm_call cmsg)) (cb_vers (rm_call cmsg)) (cb_proc (rm_call cmsg)))\<rparr>, cmsg)"
  by (simp add: callmsg_put_def IFLEXXDR_PUT_LONG_def IXDR_PUT_INT32_wr wr_wr_append
      callmsg_bytes_def FLEXRPC_MSG_VERSION_def)

lemma encodes_callmsg:
  assumes v: "cb_rpcvers (rm_call cmsg) = FLEXRPC_MSG_VERSION"
  shows "encodes flexxdr_callmsg cmsg
    (callmsg_bytes (cb_prog (rm_call cmsg)) (cb_vers (rm_call cmsg)) (cb_proc (rm_call cmsg))) cmsg"
    (is "encodes _ _ ?bs _")
proof (rule encodesI)
  fix xdrs n
  assume s: "sinks xdrs" and "room xdrs (length ?bs + n)"
  then have r: "room xdrs (unat (4 * 4 :: 32 word) + n)" by simp
  have l: "length ?bs = unat (4 * 4 :: 32 word)" by simp
  obtain buf x1 where "XDR_INLINE xdrs (4 * 4) = Some (buf, x1)" "buf \<noteq> 0"
    and w: "sinks (x1\<lparr>x_mem := wr (x_mem x1) buf ?bs\<rparr>)"
      "sent (x1\<lparr>x_mem := wr (x_mem x1) buf ?bs\<rparr>) = sent xdrs @ ?bs"
      "room (x1\<lparr>x_mem := wr (x_mem x1) buf ?bs\<rparr>) n"
    using XDR_INLINE_mapped [OF s r] l by metis
  with s have "flexxdr_callmsg xdrs cmsg = Some (True, x1\<lparr>x_mem := wr (x_mem x1) buf ?bs\<rparr>, cmsg)"
    by (simp add: flexxdr_callmsg_def callmsg_put_encodes [OF v])
  with w show "\<exists>xdrs'. flexxdr_callmsg xdrs cmsg = Some (True, xdrs', cmsg) \<and> sinks xdrs' \<and>
      sent xdrs' = sent xdrs @ ?bs \<and> room xdrs' n"
    by blast
qed

end

section \<open>Decoding\<close>

context xdr_source begin

lemma decodes_success_reply:
  assumes proc: "ar_proc ar = Some proc" and w: "decodes proc bs (ar_where ar) w'"
    and ar: "ar = rp_acpt (rm_reply msg)" and dir: "rm_direction msg = REPLY"
  shows "decodes flexxdr_replymsg (be32 MSG_ACCEPTED @ be32 SUCCESS @ bs) msg
    (msg\<lparr>rm_reply := (rm_reply msg)\<lparr>rp_stat := MSG_ACCEPTED,
       rp_acpt := ar\<lparr>ar_stat := SUCCESS, ar_where := w'\<rparr>\<rparr>\<rparr>)" (is "decodes _ _ _ ?msg")
proof (rule decodesI)
  fix xdrs rs
  assume s: "sources xdrs" and "pending xdrs = (be32 MSG_ACCEPTED @ be32 SUCCESS @ bs) @ rs"
  then have p: "pending xdrs = be32 MSG_ACCEPTED @ (be32 SUCCESS @ (bs @ rs))" by simp
  obtain x1 where 1: "flexxdr_enum xdrs (rp_stat (rm_reply msg)) = Some (True, x1, MSG_ACCEPTED)"
    and s1: "sources x1" and p1: "pending x1 = be32 SUCCESS @ (bs @ rs)"
    by (rule decodesE [OF decodes_flexxdr_enum s p])
  obtain x2 where 2: "flexxdr_enum x1 (ar_stat ar) = Some (True, x2, SUCCESS)"
    and s2: "sources x2" and p2: "pending x2 = bs @ rs"
    by (rule decodesE [OF decodes_flexxdr_enum s1 p1])
  obtain x3 where 3: "proc x2 (ar_where ar) = Some (True, x3, w')" "sources x3" "pending x3 = rs"
    by (rule decodesE [OF w s2 p2])
  have "flexxdr_accepted_reply x1 ar = Some (True, x3, ar\<lparr>ar_stat := SUCCESS, ar_where := w'\<rparr>)"
    using 2 3 proc by (simp add: flexxdr_accepted_reply_def fld_def)
  then have "flexxdr_replymsg xdrs msg = Some (True, x3, ?msg)"
    using 1 dir ar
    by (cases "rm_reply msg")
      (simp add: flexxdr_replymsg_def flexxdr_union_def two_args_def reply_dscrm_def fld_def)
  with 3 show "\<exists>xdrs'. flexxdr_replymsg xdrs msg = Some (True, xdrs', ?msg) \<and>
      sources xdrs' \<and> pending xdrs' = rs"
    by simp
qed

end

context xdr_mapped_source begin

lemma callmsg_get_decodes:
  assumes "rd (x_mem x1) buf 16 = callmsg_bytes prog vers proc"
    and "fits32 prog" and "fits32 vers" and "fits32 proc"
  shows "callmsg_get buf x1 cmsg = Some (True, x1, cmsg\<lparr>rm_call :=
    \<lparr>cb_rpcvers = FLEXRPC_MSG_VERSION, cb_prog = prog, cb_vers = vers, cb_proc = proc\<rparr>\<rparr>)"
proof -
  have 1: "rd (x_mem x1) buf 16 = be32 8 @ be32 (ucast prog) @ be32 (ucast vers) @ be32 (ucast proc) @ []"
    using assms(1) by (simp add: callmsg_bytes_def)
  note g1 = IXDR_GET_INT32_step [OF 1]
  note g2 = IXDR_GET_INT32_step [OF g1(2)]
  note g3 = IXDR_GET_INT32_step [OF g2(2)]
  note g4 = IXDR_GET_INT32_step [OF g3(2)]
  show ?thesis
    using assms(2-4)
    by (cases cmsg; cases "rm_call cmsg")
      (simp add: callmsg_get_def IFLEXXDR_GET_LONG_def g1(1) g2(1) g3(1) [simplified]
        g4(1) [simplified] FLEXRPC_MSG_VERSION_def)
qed

lemma decodes_callmsg:
  assumes "fits32 prog" and "fits32 vers" and "fits32 proc"
  shows "decodes flexxdr_callmsg (callmsg_bytes prog vers proc) cmsg (cmsg\<lparr>rm_call :=
    \<lparr>cb_rpcvers = FLEXRPC_MSG_VERSION, cb_prog = prog, cb_vers = vers, cb_proc = proc\<rparr>\<rparr>)"
proof (rule decodesI)
  fix xdrs rs
  assume s: "sources xdrs" and p: "pending xdrs = callmsg_bytes prog vers proc @ rs"
  have l: "length (callmsg_bytes prog vers proc) = unat (4 * 4 :: 32 word)" by simp
  obtain buf x1 where i: "XDR_INLINE xdrs (4 * 4) = Some (buf, x1)" "buf \<noteq> 0"
    and rd: "rd (x_mem x1) buf (length (callmsg_bytes prog vers proc)) = callmsg_bytes prog vers proc"
    and x1: "sources x1" "pending x1 = rs"
    by (rule XDR_INLINE_mapped [OF s p l])
  have "rd (x_mem x1) buf 16 = callmsg_bytes prog vers proc" using rd by simp
  from callmsg_get_decodes [OF this assms, where cmsg = cmsg] s i x1
  show "\<exists>xdrs'. flexxdr_callmsg xdrs cmsg = Some (True, xdrs', cmsg\<lparr>rm_call :=
      \<lparr>cb_rpcvers = FLEXRPC_MSG_VERSION, cb_prog = prog, cb_vers = vers, cb_proc = proc\<rparr>\<rparr>) \<and>
      sources xdrs' \<and> pending xdrs' = rs"
    by (simp add: flexxdr_callmsg_def)
qed

end

section \<open>Calls and rejections between two buffers\<close>

text \<open>A message of which only the call body matters.\<close>

definition body_only :: "call_body \<Rightarrow> (memstrm, unit) rpc_msg" where
  "body_only c = \<lparr>rm_xid = 5, rm_direction = CALL, rm_call = c,
     rm_reply = \<lparr>rp_stat = 0,
       rp_acpt = \<lparr>ar_stat = 0, ar_low = 0, ar_high = 0, ar_where = (), ar_proc = None\<rparr>,
       rp_rjct = \<lparr>rj_stat = 0, rj_low = 0, rj_high = 0\<rparr>\<rparr>\<rparr>"


text \<open>
  The body of a call of version 8 (version, program, version of the program, procedure,
  each in 32 bits) goes through flexrpc's buffers as four words, and decoding sets these four
  fields of the receiver's message and no other.
\<close>

theorem flexxdr_callmsg_transfers:
  assumes v: "cb_rpcvers (rm_call msg) = FLEXRPC_MSG_VERSION"
    and fits: "fits32 (cb_prog (rm_call msg))" "fits32 (cb_vers (rm_call msg))"
      "fits32 (cb_proc (rm_call msg))"
  shows "flexmem_transfers flexxdr_callmsg msg
    (callmsg_bytes (cb_prog (rm_call msg)) (cb_vers (rm_call msg)) (cb_proc (rm_call msg)))
    msg0 (msg0\<lparr>rm_call := rm_call msg\<rparr>)"
proof -
  have e: "rm_call msg = \<lparr>cb_rpcvers = FLEXRPC_MSG_VERSION, cb_prog = cb_prog (rm_call msg),
      cb_vers = cb_vers (rm_call msg), cb_proc = cb_proc (rm_call msg)\<rparr>"
    using v by simp
  show ?thesis
    using fm.encodes_callmsg [OF v] fmd.decodes_callmsg [OF fits] e
    by (intro flexmem_transfersI) simp_all
qed

theorem flexxdr_callmsg_transfers_witness:
  "flexmem_transfers flexxdr_callmsg (body_only \<lparr>cb_rpcvers = 8, cb_prog = 9, cb_vers = 1, cb_proc = 2\<rparr>)
    (be32 8 @ be32 9 @ be32 1 @ be32 2)
    (body_only \<lparr>cb_rpcvers = 0, cb_prog = 0, cb_vers = 0, cb_proc = 0\<rparr>)
    (body_only \<lparr>cb_rpcvers = 8, cb_prog = 9, cb_vers = 1, cb_proc = 2\<rparr>)"
  using flexxdr_callmsg_transfers [of "body_only \<lparr>cb_rpcvers = 8, cb_prog = 9, cb_vers = 1, cb_proc = 2\<rparr>"
      "body_only \<lparr>cb_rpcvers = 0, cb_prog = 0, cb_vers = 0, cb_proc = 0\<rparr>"]
  by (simp add: body_only_def FLEXRPC_MSG_VERSION_def fits32_def callmsg_bytes_def)

text \<open>
  A call body of any other version is refused when it is decoded: the version is stored,
  the program is left as it was.
\<close>

theorem flexxdr_callmsg_version:
  assumes v: "v \<noteq> 8" and a: "a \<noteq> 0" "16 \<le> unat sz" and bs: "length bs = 12"
  shows "\<exists>x msg'. flexxdr_callmsg (flexxdrmem_create (wr m a (be32 v @ bs)) a sz XDR_DECODE) msg =
    Some (False, x, msg') \<and> cb_rpcvers (rm_call msg') = ucast v \<and> cb_prog (rm_call msg') = cb_prog (rm_call msg)"
proof -
  let ?m = "wr m a (be32 v @ bs)"
  have "\<not> sz < 16" using a(2) by (simp add: word_less_nat_alt)
  then have i: "XDR_INLINE (flexxdrmem_create ?m a sz XDR_DECODE) 16 =
      Some (a, (flexxdrmem_create ?m a sz XDR_DECODE)
        \<lparr>x_private := advance \<lparr>m_base = a, m_private = a, m_handy = sz\<rparr> 16\<rparr>)"
    by (simp add: XDR_INLINE_def flexxdrmem_create_def flexxdrmem_ops_def flexxdrmem_inline_def xst_def
        with_xst_def not_less)
  have "(ucast v :: 64 word) \<noteq> FLEXRPC_MSG_VERSION"
  proof
    assume "(ucast v :: 64 word) = FLEXRPC_MSG_VERSION"
    then have "(ucast (ucast v :: 64 word) :: 32 word) = ucast FLEXRPC_MSG_VERSION" by simp
    with v show False by (simp add: FLEXRPC_MSG_VERSION_def)
  qed
  moreover have "rd ?m a 16 = be32 v @ bs" by (simp add: bs)
  ultimately show ?thesis
    using i a(1) IXDR_GET_INT32_step(1) [of "(flexxdrmem_create ?m a sz XDR_DECODE)
        \<lparr>x_private := advance \<lparr>m_base = a, m_private = a, m_handy = sz\<rparr> 16\<rparr>" a 16 v bs]
    by (simp add: flexxdr_callmsg_def callmsg_get_def IFLEXXDR_GET_LONG_def flexxdrmem_create_def)
qed

theorem flexxdr_callmsg_version_witness:
  "\<exists>x msg'. flexxdr_callmsg (flexxdrmem_create (wr (\<lambda>_. 0) 64 (be32 2 @ replicate 12 0)) 64 16 XDR_DECODE)
    (body_only \<lparr>cb_rpcvers = 0, cb_prog = 9, cb_vers = 0, cb_proc = 0\<rparr>) = Some (False, x, msg') \<and>
    cb_rpcvers (rm_call msg') = 2 \<and> cb_prog (rm_call msg') = 9"
  using flexxdr_callmsg_version [of 2 64 16 "replicate 12 0" "\<lambda>_. 0"
      "body_only \<lparr>cb_rpcvers = 0, cb_prog = 9, cb_vers = 0, cb_proc = 0\<rparr>"]
  by (simp add: body_only_def)

text \<open>
  flexrpc cannot send an authentication error: the status is written and the filter then
  reports failure, whatever room there is.
\<close>

theorem flexxdr_rejected_reply_auth:
  assumes a: "a \<noteq> 0" "4 \<le> unat sz" and st: "rj_stat rr = AUTH_ERROR"
  shows "\<exists>x. flexxdr_rejected_reply (flexxdrmem_create m a sz XDR_ENCODE) rr = Some (False, x, rr) \<and>
    rd (x_mem x) a 4 = be32 AUTH_ERROR"
proof -
  have l: "length (be32 AUTH_ERROR) \<le> unat sz" using a(2) by simp
  obtain x where "flexxdr_enum (flexxdrmem_create m a sz XDR_ENCODE) AUTH_ERROR =
      Some (True, x, AUTH_ERROR)" and "rd (x_mem x) a (length (be32 AUTH_ERROR)) = be32 AUTH_ERROR"
    by (rule flexxdrmem_encode [OF fm.encodes_flexxdr_enum refl a(1) l])
  with st show ?thesis
    by (cases rr) (simp add: flexxdr_rejected_reply_def fld_def and_then_def AUTH_ERROR_def RPC_MISMATCH_def)
qed

theorem flexxdr_rejected_reply_auth_witness:
  "\<exists>x. flexxdr_rejected_reply (flexxdrmem_create (\<lambda>_. 0) 64 40 XDR_ENCODE)
    \<lparr>rj_stat = AUTH_ERROR, rj_low = 0, rj_high = 0\<rparr> =
      Some (False, x, \<lparr>rj_stat = AUTH_ERROR, rj_low = 0, rj_high = 0\<rparr>)"
  using flexxdr_rejected_reply_auth [of 64 40 "\<lparr>rj_stat = AUTH_ERROR, rj_low = 0, rj_high = 0\<rparr>" "\<lambda>_. 0"]
  by auto

end
