(* ===== verification/Cornflake.thy ===== *)
theory Cornflake
  imports Flex_Msg Flex_Mem
begin

text \<open>
  \<open>src/cornflakes/cornflake.c\<close>: the registry of services and the serialisation of calls and
  replies by the filters registered for them.  \<open>CF_DEBUG\<close> and \<open>printf\<close> are left out.
\<close>

section \<open>The registry\<close>

record ('s, 'w, 'd) cf_registry =
  reg_prog :: "64 word"
  reg_vers :: "64 word"
  reg_proc :: "64 word"
  cf_call_schema :: "('s, 'w) xdrproc_t option"
  cf_reply_schema :: "('s, 'w) xdrproc_t option"
  dispatch :: 'd

text \<open>
  The static entry \<open>rpc_registry\<close>, the entries its \<open>next\<close> leads to, and the blocks
  \<open>malloc\<close> has given: an entry is found through the first two only.
\<close>

record ('s, 'w, 'd) cf_state =
  rpc_registry :: "('s, 'w, 'd) cf_registry"
  next_chain :: "('s, 'w, 'd) cf_registry list"
  malloced :: "('s, 'w, 'd) cf_registry list"

text \<open>\<open>have_mem\<close> is whether \<open>malloc\<close> succeeds; its result is not tested.\<close>

definition cornflake_register ::
    "bool \<Rightarrow> 64 word \<Rightarrow> 64 word \<Rightarrow> 64 word \<Rightarrow> ('s, 'w) xdrproc_t option \<Rightarrow> ('s, 'w) xdrproc_t option \<Rightarrow>
     'd \<Rightarrow> ('s, 'w, 'd) cf_state \<Rightarrow> (bool \<times> ('s, 'w, 'd) cf_state) option" where
  "cornflake_register have_mem prog vers proc call_schema reply_schema disp st =
    (let reg = \<lparr>reg_prog = prog, reg_vers = vers, reg_proc = proc, cf_call_schema = call_schema,
                cf_reply_schema = reply_schema, dispatch = disp\<rparr> in
     if reg_vers (rpc_registry st) = 0 then Some (True, st\<lparr>rpc_registry := reg\<rparr>)
     else if have_mem then Some (True, st\<lparr>malloced := reg # malloced st\<rparr>)
     else None)"

text \<open>The loop of \<open>cornflake_get_schema\<close>, from the entry \<open>reg\<close> on.\<close>

fun find_reg ::
    "64 word \<Rightarrow> 64 word \<Rightarrow> 64 word \<Rightarrow> ('s, 'w, 'd) cf_registry \<Rightarrow> ('s, 'w, 'd) cf_registry list \<Rightarrow>
     ('s, 'w, 'd) cf_registry option" where
  "find_reg prog vers proc reg chain =
    (if reg_vers reg \<noteq> vers \<or> reg_prog reg \<noteq> prog \<or> reg_proc reg \<noteq> proc then
       (case chain of
          [] \<Rightarrow> None
        | reg' # chain' \<Rightarrow> find_reg prog vers proc reg' chain')
     else Some reg)"

declare find_reg.simps [simp del]

lemma find_reg_steps [simp]:
  "find_reg prog vers proc reg [] =
     (if reg_vers reg = vers \<and> reg_prog reg = prog \<and> reg_proc reg = proc then Some reg else None)"
  "find_reg prog vers proc reg (reg' # chain) =
     (if reg_vers reg = vers \<and> reg_prog reg = prog \<and> reg_proc reg = proc then Some reg
      else find_reg prog vers proc reg' chain)"
  by (auto simp: find_reg.simps [of prog vers proc reg])

definition cornflake_get_schema ::
    "64 word \<Rightarrow> 64 word \<Rightarrow> 64 word \<Rightarrow> enum_t \<Rightarrow> ('s, 'w, 'd) cf_state \<Rightarrow> ('s, 'w) xdrproc_t option" where
  "cornflake_get_schema prog vers proc direction st =
    (if reg_vers (rpc_registry st) = 0 then None
     else case find_reg prog vers proc (rpc_registry st) (next_chain st) of
       None \<Rightarrow> None
     | Some reg \<Rightarrow>
         if direction = CALL then cf_call_schema reg
         else if direction = REPLY then cf_reply_schema reg
         else None)"

section \<open>Serialisation\<close>

record ('s, 'w) CFLAKE =
  cf_msg :: "('s, 'w) rpc_msg"
  cf_args :: 'w

definition cornflake_peek_header :: "('s, ('s, 'w) CFLAKE) xdrproc_t" where
  "cornflake_peek_header = fld cf_msg cf_msg_update (\<lambda>flexxdrs msg.
     and_then (fld rm_xid rm_xid_update flexxdr_u_long flexxdrs msg)
       (fld rm_direction rm_direction_update flexxdr_enum))"

text \<open>
  A null schema is called all the same; what the calls after the header return is not
  looked at.
\<close>

definition cornflake_serialize :: "('s, 'w, 'd) cf_state \<Rightarrow> ('s, ('s, 'w) CFLAKE) xdrproc_t" where
  "cornflake_serialize st flexxdrs cf =
    (if rm_direction (cf_msg cf) = CALL then do {
       (ok, flexxdrs, cf) \<leftarrow> fld cf_msg cf_msg_update flexxdr_callhdr flexxdrs cf;
       if \<not> ok then Some (False, flexxdrs, cf)
       else do {
         let c = rm_call (cf_msg cf);
         let schema = cornflake_get_schema (cb_prog c) (cb_vers c) (cb_proc c) CALL st;
         (ok, flexxdrs) \<leftarrow> XDR_PUTLONG flexxdrs (cb_proc c);
         if \<not> ok then Some (True, flexxdrs, cf)
         else do {
           proc \<leftarrow> schema;
           (_, flexxdrs, cf) \<leftarrow> fld cf_args cf_args_update proc flexxdrs cf;
           Some (True, flexxdrs, cf) } } }
     else if rm_direction (cf_msg cf) = REPLY then do {
       (_, flexxdrs, cf) \<leftarrow> cornflake_peek_header flexxdrs cf;
       fld cf_msg cf_msg_update flexxdr_replymsg flexxdrs cf }
     else Some (False, flexxdrs, cf))"

definition cornflake_deserialize :: "('s, 'w, 'd) cf_state \<Rightarrow> ('s, ('s, 'w) CFLAKE) xdrproc_t" where
  "cornflake_deserialize st flexxdrs cf = do {
     (status, flexxdrs, cf) \<leftarrow> cornflake_peek_header flexxdrs cf;
     if \<not> status then Some (False, flexxdrs, cf)
     else do {
       (ok, flexxdrs, cf) \<leftarrow> (if rm_direction (cf_msg cf) = CALL then do {
           (_, flexxdrs, cf) \<leftarrow> fld cf_msg cf_msg_update flexxdr_callmsg flexxdrs cf;
           let c = rm_call (cf_msg cf);
           proc \<leftarrow> cornflake_get_schema (cb_prog c) (cb_vers c) (cb_proc c)
                     (rm_direction (cf_msg cf)) st;
           fld cf_args cf_args_update proc flexxdrs cf }
         else Some (True, flexxdrs, cf));
       if \<not> ok then Some (False, flexxdrs, cf)
       else if rm_direction (cf_msg cf) = REPLY then
         fld cf_msg cf_msg_update flexxdr_replymsg flexxdrs cf
       else Some (True, flexxdrs, cf) } }"

section \<open>The registry's laws\<close>

lemma find_reg_here:
  "reg_vers reg = vers \<Longrightarrow> reg_prog reg = prog \<Longrightarrow> reg_proc reg = proc \<Longrightarrow>
   find_reg prog vers proc reg chain = Some reg"
  by (cases chain) simp_all

text \<open>Only the first registration is ever found; later ones are allocated and lost.\<close>

lemma register_first:
  "reg_vers (rpc_registry st) = 0 \<Longrightarrow> vers \<noteq> 0 \<Longrightarrow>
   cornflake_register mem prog vers proc cs rs d st = Some (True, st') \<Longrightarrow>
   cornflake_get_schema prog vers proc CALL st' = cs \<and>
   cornflake_get_schema prog vers proc REPLY st' = rs"
  by (auto simp: cornflake_register_def cornflake_get_schema_def find_reg_here CALL_def REPLY_def)

lemma register_again:
  assumes "reg_vers (rpc_registry st) \<noteq> 0"
    and "cornflake_register mem prog vers proc cs rs d st = Some (ok, st')"
  shows "ok" and "cornflake_get_schema p v q dir st' = cornflake_get_schema p v q dir st"
    and "length (malloced st') = Suc (length (malloced st))"
  using assms by (auto simp: cornflake_register_def cornflake_get_schema_def split: if_splits)

lemma register_chain:
  "cornflake_register mem prog vers proc cs rs d st = Some (ok, st') \<Longrightarrow> next_chain st' = next_chain st"
  by (auto simp: cornflake_register_def Let_def split: if_splits)

lemma find_reg_sound:
  "find_reg prog vers proc reg chain = Some r \<Longrightarrow>
   r \<in> set (reg # chain) \<and> reg_prog r = prog \<and> reg_vers r = vers \<and> reg_proc r = proc"
  by (induction chain arbitrary: reg) (auto split: if_splits)

lemma find_reg_complete:
  "find_reg prog vers proc reg chain = None \<Longrightarrow> r \<in> set (reg # chain) \<Longrightarrow>
   \<not> (reg_prog r = prog \<and> reg_vers r = vers \<and> reg_proc r = proc)"
  by (induction chain arbitrary: reg) (auto split: if_splits)

section \<open>Serialisation over a stream\<close>

lemma msg_eqI:
  "rm_xid (m :: ('s, 'w) rpc_msg) = rm_xid m' \<Longrightarrow> rm_direction m = rm_direction m' \<Longrightarrow>
   rm_call m = rm_call m' \<Longrightarrow> rm_reply m = rm_reply m' \<Longrightarrow> m = m'"
  by simp

context xdr_sink begin

lemma encodes_peek_header:
  "fits32 (rm_xid (cf_msg cf)) \<Longrightarrow> encodes cornflake_peek_header cf
     (be32 (ucast (rm_xid (cf_msg cf))) @ be32 (rm_direction (cf_msg cf))) cf"
  unfolding cornflake_peek_header_def
  by (rule encodes_eq, (rule codec | simp; fail)+)

lemma encodes_serialize_call:
  assumes dir: "rm_direction (cf_msg cf) = CALL" and c: "rm_call (cf_msg cf) = c"
    and fits: "fits32 (rm_xid (cf_msg cf))" "fits32 (cb_prog c)" "fits32 (cb_vers c)"
    and schema: "cornflake_get_schema (cb_prog c) (cb_vers c) (cb_proc c) CALL st = Some proc"
    and args: "encodes proc (cf_args cf) bs args'"
  shows "encodes (cornflake_serialize st) cf
    (callhdr_bytes (rm_xid (cf_msg cf)) (cb_prog c) (cb_vers c) @ be32 (ucast (cb_proc c)) @ bs)
    (cf\<lparr>cf_msg := (cf_msg cf)\<lparr>rm_call := c\<lparr>cb_rpcvers := FLEXRPC_MSG_VERSION\<rparr>\<rparr>, cf_args := args'\<rparr>)"
    (is "encodes _ _ (?hdr @ _) ?cf")
proof (rule encodesI)
  fix xdrs n
  assume s: "sinks xdrs" and "room xdrs (length (?hdr @ be32 (ucast (cb_proc c)) @ bs) + n)"
  then have r: "room xdrs (length ?hdr + (4 + (length bs + n)))" by (simp add: add.assoc)
  let ?msg = "(cf_msg cf)\<lparr>rm_direction := CALL, rm_call := c\<lparr>cb_rpcvers := FLEXRPC_MSG_VERSION\<rparr>\<rparr>"
  have hdr: "encodes flexxdr_callhdr (cf_msg cf) ?hdr ?msg"
    using encodes_callhdr [of "cf_msg cf"] fits c by simp
  obtain x1 where 1: "flexxdr_callhdr xdrs (cf_msg cf) = Some (True, x1, ?msg)"
    "sent x1 = sent xdrs @ ?hdr" and s1: "sinks x1" and r1: "room x1 (4 + (length bs + n))"
    by (rule encodesE [OF hdr s r])
  obtain x2 where 2: "XDR_PUTLONG x1 (cb_proc c) = Some (True, x2)"
    "sent x2 = sent x1 @ be32 (ucast (cb_proc c))" and s2: "sinks x2"
    and r2: "room x2 (length bs + n)"
    by (rule XDR_PUTLONG_ok [OF s1 r1])
  obtain x3 where 3: "proc x2 (cf_args cf) = Some (True, x3, args')" "sent x3 = sent x2 @ bs"
    "sinks x3" "room x3 n"
    by (rule encodesE [OF args s2 r2])
  have "cornflake_serialize st xdrs cf = Some (True, x3, ?cf)"
    using 1 2 3 dir c schema
    by (cases cf; cases "cf_msg cf") (simp add: cornflake_serialize_def fld_def)
  with 1 2 3 show "\<exists>xdrs'. cornflake_serialize st xdrs cf = Some (True, xdrs', ?cf) \<and> sinks xdrs' \<and>
      sent xdrs' = sent xdrs @ ?hdr @ be32 (ucast (cb_proc c)) @ bs \<and> room xdrs' n"
    by simp
qed

lemma encodes_serialize_reply:
  assumes fits: "fits32 (rm_xid (cf_msg cf))" and dir: "rm_direction (cf_msg cf) = REPLY"
    and reply: "encodes flexxdr_replymsg (cf_msg cf) bs msg'"
  shows "encodes (cornflake_serialize st) cf
    (be32 (ucast (rm_xid (cf_msg cf))) @ be32 REPLY @ bs) (cf\<lparr>cf_msg := msg'\<rparr>)"
proof (rule encodesI)
  fix xdrs n
  let ?hdr = "be32 (ucast (rm_xid (cf_msg cf))) @ be32 REPLY"
  assume s: "sinks xdrs"
    and "room xdrs (length (be32 (ucast (rm_xid (cf_msg cf))) @ be32 REPLY @ bs) + n)"
  then have r: "room xdrs (length ?hdr + (length bs + n))" by (simp add: add.assoc)
  have hdr: "encodes cornflake_peek_header cf ?hdr cf"
    using encodes_peek_header [OF fits] dir by simp
  obtain x1 where 1: "cornflake_peek_header xdrs cf = Some (True, x1, cf)"
    "sent x1 = sent xdrs @ ?hdr" and s1: "sinks x1" and r1: "room x1 (length bs + n)"
    by (rule encodesE [OF hdr s r])
  obtain x2 where 2: "flexxdr_replymsg x1 (cf_msg cf) = Some (True, x2, msg')"
    "sent x2 = sent x1 @ bs" "sinks x2" "room x2 n"
    by (rule encodesE [OF reply s1 r1])
  with 1 dir show "\<exists>xdrs'. cornflake_serialize st xdrs cf = Some (True, xdrs', cf\<lparr>cf_msg := msg'\<rparr>) \<and>
      sinks xdrs' \<and> sent xdrs' = sent xdrs @ be32 (ucast (rm_xid (cf_msg cf))) @ be32 REPLY @ bs \<and>
      room xdrs' n"
    by (simp add: cornflake_serialize_def fld_def CALL_def REPLY_def)
qed

lemma serialize_header_only:
  fixes cf :: "('s, 'w) CFLAKE"
  assumes dir: "rm_direction (cf_msg cf) = CALL" and c: "rm_call (cf_msg cf) = c"
    and fits: "fits32 (rm_xid (cf_msg cf))" "fits32 (cb_prog c)" "fits32 (cb_vers c)"
    and s: "sinks xdrs" and r: "room xdrs 20"
  obtains x1 where "sinks x1"
    and "sent x1 = sent xdrs @ callhdr_bytes (rm_xid (cf_msg cf)) (cb_prog c) (cb_vers c)"
    and "\<not> room x1 4 \<Longrightarrow> \<exists>x2 cf'. cornflake_serialize st xdrs cf = Some (True, x2, cf')"
proof -
  let ?hdr = "callhdr_bytes (rm_xid (cf_msg cf)) (cb_prog c) (cb_vers c)"
  let ?msg = "(cf_msg cf)\<lparr>rm_direction := CALL, rm_call := c\<lparr>cb_rpcvers := FLEXRPC_MSG_VERSION\<rparr>\<rparr>"
  have hdr: "encodes flexxdr_callhdr (cf_msg cf) ?hdr ?msg"
    using encodes_callhdr [of "cf_msg cf"] fits c by simp
  have "room xdrs (length ?hdr + 0)" using r by (simp add: callhdr_bytes_def)
  then obtain x1 where 1: "flexxdr_callhdr xdrs (cf_msg cf) = Some (True, x1, ?msg)"
    "sent x1 = sent xdrs @ ?hdr" and s1: "sinks x1"
    by (rule encodesE [OF hdr s])
  show thesis
  proof (rule that [OF s1 1(2)])
    assume "\<not> room x1 4"
    then obtain x2 where "XDR_PUTLONG x1 (cb_proc c) = Some (False, x2)"
      by (rule XDR_PUTLONG_full [OF s1])
    with 1 dir c show "\<exists>x2 cf'. cornflake_serialize st xdrs cf = Some (True, x2, cf')"
      by (cases cf; cases "cf_msg cf") (simp add: cornflake_serialize_def fld_def)
  qed
qed

lemma serialize_unregistered:
  fixes cf :: "('s, 'w) CFLAKE"
  assumes dir: "rm_direction (cf_msg cf) = CALL" and c: "rm_call (cf_msg cf) = c"
    and fits: "fits32 (rm_xid (cf_msg cf))" "fits32 (cb_prog c)" "fits32 (cb_vers c)"
    and none: "cornflake_get_schema (cb_prog c) (cb_vers c) (cb_proc c) CALL st = None"
    and s: "sinks xdrs" and r: "room xdrs 24"
  shows "cornflake_serialize st xdrs cf = None"
proof -
  let ?hdr = "callhdr_bytes (rm_xid (cf_msg cf)) (cb_prog c) (cb_vers c)"
  let ?msg = "(cf_msg cf)\<lparr>rm_direction := CALL, rm_call := c\<lparr>cb_rpcvers := FLEXRPC_MSG_VERSION\<rparr>\<rparr>"
  have hdr: "encodes flexxdr_callhdr (cf_msg cf) ?hdr ?msg"
    using encodes_callhdr [of "cf_msg cf"] fits c by simp
  have "room xdrs (length ?hdr + (4 + 0))" using r by (simp add: callhdr_bytes_def)
  then obtain x1 where 1: "flexxdr_callhdr xdrs (cf_msg cf) = Some (True, x1, ?msg)"
    and s1: "sinks x1" and r1: "room x1 (4 + 0)"
    by (rule encodesE [OF hdr s])
  obtain x2 where "XDR_PUTLONG x1 (cb_proc c) = Some (True, x2)"
    by (rule XDR_PUTLONG_ok [OF s1 r1])
  with 1 dir c none show ?thesis
    by (cases cf; cases "cf_msg cf") (simp add: cornflake_serialize_def fld_def)
qed

end

context xdr_source begin

lemma decodes_peek_header:
  "decodes cornflake_peek_header (be32 xid @ be32 dir) cf
     (cf\<lparr>cf_msg := (cf_msg cf)\<lparr>rm_xid := ucast xid, rm_direction := dir\<rparr>\<rparr>)"
  unfolding cornflake_peek_header_def
  by (rule decodes_eq, (rule codec)+) simp_all

lemma decodes_deserialize_reply:
  assumes reply: "decodes flexxdr_replymsg bs
      ((cf_msg cf)\<lparr>rm_xid := ucast xid, rm_direction := REPLY\<rparr>) msg'"
  shows "decodes (cornflake_deserialize st) (be32 xid @ be32 REPLY @ bs) cf (cf\<lparr>cf_msg := msg'\<rparr>)"
proof (rule decodesI)
  fix xdrs rs
  assume s: "sources xdrs" and "pending xdrs = (be32 xid @ be32 REPLY @ bs) @ rs"
  then have p: "pending xdrs = (be32 xid @ be32 REPLY) @ (bs @ rs)" by simp
  obtain x1 where 1: "cornflake_peek_header xdrs cf = Some (True, x1,
      cf\<lparr>cf_msg := (cf_msg cf)\<lparr>rm_xid := ucast xid, rm_direction := REPLY\<rparr>\<rparr>)"
    and s1: "sources x1" and p1: "pending x1 = bs @ rs"
    by (rule decodesE [OF decodes_peek_header s p])
  obtain x2 where "flexxdr_replymsg x1 ((cf_msg cf)\<lparr>rm_xid := ucast xid, rm_direction := REPLY\<rparr>) =
      Some (True, x2, msg')" "sources x2" "pending x2 = rs"
    by (rule decodesE [OF reply s1 p1])
  with 1 show "\<exists>xdrs'. cornflake_deserialize st xdrs cf = Some (True, xdrs', cf\<lparr>cf_msg := msg'\<rparr>) \<and>
      sources xdrs' \<and> pending xdrs' = rs"
    by (simp add: cornflake_deserialize_def fld_def CALL_def REPLY_def)
qed

end

context xdr_mapped_source begin

lemma decodes_deserialize_call:
  fixes cf :: "('s, 'w) CFLAKE"
  assumes fits: "fits32 prog" "fits32 vers" "fits32 proc"
    and schema: "cornflake_get_schema prog vers proc CALL st = Some sch"
    and args: "decodes sch bs (cf_args cf) args'"
  shows "decodes (cornflake_deserialize st)
    (be32 xid @ be32 CALL @ callmsg_bytes prog vers proc @ bs) cf
    (cf\<lparr>cf_msg := (cf_msg cf)\<lparr>rm_xid := ucast xid, rm_direction := CALL, rm_call :=
       \<lparr>cb_rpcvers = FLEXRPC_MSG_VERSION, cb_prog = prog, cb_vers = vers, cb_proc = proc\<rparr>\<rparr>,
       cf_args := args'\<rparr>)" (is "decodes _ _ _ ?cf")
proof (rule decodesI)
  fix xdrs rs
  assume s: "sources xdrs"
    and "pending xdrs = (be32 xid @ be32 CALL @ callmsg_bytes prog vers proc @ bs) @ rs"
  then have p: "pending xdrs = (be32 xid @ be32 CALL) @ (callmsg_bytes prog vers proc @ (bs @ rs))"
    by simp
  let ?msg = "(cf_msg cf)\<lparr>rm_xid := ucast xid, rm_direction := CALL\<rparr>"
  obtain x1 where 1: "cornflake_peek_header xdrs cf = Some (True, x1, cf\<lparr>cf_msg := ?msg\<rparr>)"
    and s1: "sources x1" and p1: "pending x1 = callmsg_bytes prog vers proc @ (bs @ rs)"
    by (rule decodesE [OF decodes_peek_header s p])
  obtain x2 where 2: "flexxdr_callmsg x1 ?msg = Some (True, x2, ?msg\<lparr>rm_call :=
      \<lparr>cb_rpcvers = FLEXRPC_MSG_VERSION, cb_prog = prog, cb_vers = vers, cb_proc = proc\<rparr>\<rparr>)"
    and s2: "sources x2" and p2: "pending x2 = bs @ rs"
    by (rule decodesE [OF decodes_callmsg [OF fits] s1 p1])
  obtain x3 where "sch x2 (cf_args cf) = Some (True, x3, args')" "sources x3" "pending x3 = rs"
    by (rule decodesE [OF args s2 p2])
  with 1 2 schema show "\<exists>xdrs'. cornflake_deserialize st xdrs cf = Some (True, xdrs', ?cf) \<and>
      sources xdrs' \<and> pending xdrs' = rs"
    by (simp add: cornflake_deserialize_def fld_def CALL_def REPLY_def)
qed

lemma overruns_deserialize_call:
  fixes cf :: "('s, 'w) CFLAKE"
  assumes fits: "fits32 prog" "fits32 vers" "fits32 proc"
    and schema: "cornflake_get_schema prog vers proc CALL st = Some sch"
    and args: "overruns sch bs (cf_args cf)"
  shows "overruns (cornflake_deserialize st) (be32 xid @ be32 CALL @ callmsg_bytes prog vers proc @ bs) cf"
  unfolding overruns_def
proof (intro allI impI, elim conjE)
  fix xdrs rs
  assume s: "sources xdrs"
    and "pending xdrs = (be32 xid @ be32 CALL @ callmsg_bytes prog vers proc @ bs) @ rs"
  then have p: "pending xdrs = (be32 xid @ be32 CALL) @ (callmsg_bytes prog vers proc @ (bs @ rs))"
    by simp
  let ?msg = "(cf_msg cf)\<lparr>rm_xid := ucast xid, rm_direction := CALL\<rparr>"
  obtain x1 where 1: "cornflake_peek_header xdrs cf = Some (True, x1, cf\<lparr>cf_msg := ?msg\<rparr>)"
    and s1: "sources x1" and p1: "pending x1 = callmsg_bytes prog vers proc @ (bs @ rs)"
    by (rule decodesE [OF decodes_peek_header s p])
  obtain x2 where 2: "flexxdr_callmsg x1 ?msg = Some (True, x2, ?msg\<lparr>rm_call :=
      \<lparr>cb_rpcvers = FLEXRPC_MSG_VERSION, cb_prog = prog, cb_vers = vers, cb_proc = proc\<rparr>\<rparr>)"
    and s2: "sources x2" and p2: "pending x2 = bs @ rs"
    by (rule decodesE [OF decodes_callmsg [OF fits] s1 p1])
  have "sch x2 (cf_args cf) = None" using args s2 p2 unfolding overruns_def by blast
  with 1 2 schema show "cornflake_deserialize st xdrs cf = None"
    by (simp add: cornflake_deserialize_def fld_def)
qed

end

end
