(* ===== verification/Cf_Oats.thy ===== *)
theory Cf_Oats
  imports Cornflake
begin

text \<open>
  \<open>src/cornflakes/examples\<close>: the filters of the example service (\<open>templates/oats.c\<close>) and
  what the example client (\<open>cf_client.c\<close>) and server (\<open>cf_server.c\<close>) do with a message.  The
  sockets are the lists of bytes that \<open>read\<close> and \<open>write\<close> move; the parts of a message the
  code leaves uninitialised, and the contents of a fresh \<open>malloc\<close> block, are arguments.
\<close>

section \<open>oats.c\<close>

text \<open>
  What a \<open>char *\<close> argument of the filters points to: the arguments of the call, the
  arguments of the reply, or something else.  A filter that finds another structure than
  its own behind the pointer is not defined.
\<close>

datatype oats_args =
    Printmessage_call_args "byte list option" "byte list option"
  | Printmessage_reply_args "byte list option" "32 word"
  | Other_object

definition OATSPROGRAM :: "64 word" where "OATSPROGRAM = 0x20000001"
definition PRINTMESSAGEVER :: "64 word" where "PRINTMESSAGEVER = 1"
definition PRINTMESSAGE :: "64 word" where "PRINTMESSAGE = 1"

definition MAX_STRING_SIZE :: "32 word" where "MAX_STRING_SIZE = 255"

definition printmessage_call ::
    "(nat \<Rightarrow> byte list option) \<Rightarrow> ('s, oats_args) xdrproc_t" where
  "printmessage_call malloc flexxdrs args = (case args of
     Printmessage_call_args name title \<Rightarrow> do {
       (ok, flexxdrs, name, title) \<leftarrow>
         and_then (fld fst apfst (flexxdr_string malloc MAX_STRING_SIZE) flexxdrs (name, title))
           (fld snd apsnd (flexxdr_string malloc MAX_STRING_SIZE));
       Some (ok, flexxdrs, Printmessage_call_args name title) }
   | _ \<Rightarrow> None)"

definition printmessage_reply ::
    "(nat \<Rightarrow> byte list option) \<Rightarrow> ('s, oats_args) xdrproc_t" where
  "printmessage_reply malloc flexxdrs args = (case args of
     Printmessage_reply_args name result \<Rightarrow> do {
       (ok, flexxdrs, name, result) \<leftarrow>
         and_then (fld fst apfst (flexxdr_string malloc MAX_STRING_SIZE) flexxdrs (name, result))
           (fld snd apsnd flexxdr_u_int);
       Some (ok, flexxdrs, Printmessage_reply_args name result) }
   | _ \<Rightarrow> None)"

section \<open>The messages of the client and the server\<close>

text \<open>\<open>main\<close> of both registers the service first.\<close>

definition oats_register ::
    "(nat \<Rightarrow> byte list option) \<Rightarrow> 'd \<Rightarrow> ('s, oats_args, 'd) cf_state \<Rightarrow>
     (bool \<times> ('s, oats_args, 'd) cf_state) option" where
  "oats_register malloc disp =
     cornflake_register True OATSPROGRAM PRINTMESSAGEVER PRINTMESSAGE
       (Some (printmessage_call malloc)) (Some (printmessage_reply malloc)) disp"

definition prepare_call ::
    "('s, oats_args, 'd) cf_state \<Rightarrow> 's FLEXXDR \<Rightarrow> byte list option \<Rightarrow> byte list option \<Rightarrow> 64 word \<Rightarrow>
     ('s, oats_args) rpc_msg \<Rightarrow> 's FLEXXDR option" where
  "prepare_call st flexxdr name title ixd msg0 = do {
     let msg = msg0\<lparr>rm_xid := ixd, rm_direction := CALL,
       rm_call := \<lparr>cb_rpcvers = 8, cb_prog = OATSPROGRAM, cb_vers = PRINTMESSAGEVER,
                   cb_proc = PRINTMESSAGE\<rparr>\<rparr>;
     (res, flexxdr, cf) \<leftarrow> cornflake_serialize st flexxdr
       \<lparr>cf_msg = msg, cf_args = Printmessage_call_args name title\<rparr>;
     Some flexxdr }"

text \<open>
  \<open>cf.args\<close> is set to the address of the pointer \<open>reply_args\<close>, not to the structure.
  What the filter leaves in the structure is read through \<open>name\<close> and \<open>result\<close>.
\<close>

definition read_reply ::
    "('s, oats_args, 'd) cf_state \<Rightarrow> 's FLEXXDR \<Rightarrow> byte list option \<Rightarrow> 32 word \<Rightarrow>
     ('s, oats_args) rpc_msg \<Rightarrow> ('s FLEXXDR \<times> byte list option \<times> 32 word) option" where
  "read_reply st flexxdr name result rply = do {
     let reply_args = Printmessage_reply_args name result;
     let ar = (rp_acpt (rm_reply rply))\<lparr>ar_where := reply_args,
       ar_proc := cornflake_get_schema OATSPROGRAM PRINTMESSAGEVER PRINTMESSAGE REPLY st\<rparr>;
     let rply = rply\<lparr>rm_reply := (rm_reply rply)\<lparr>rp_acpt := ar\<rparr>\<rparr>;
     (res, flexxdr, cf) \<leftarrow> cornflake_deserialize st flexxdr
       \<lparr>cf_msg = rply, cf_args = Other_object\<rparr>;
     (case ar_where (rp_acpt (rm_reply (cf_msg cf))) of
        Printmessage_reply_args name result \<Rightarrow> Some (flexxdr, name, result)
      | _ \<Rightarrow> None) }"

definition get_call ::
    "('s, oats_args, 'd) cf_state \<Rightarrow> 's FLEXXDR \<Rightarrow> byte list option \<Rightarrow> byte list option \<Rightarrow>
     ('s, oats_args) rpc_msg \<Rightarrow>
     ('s FLEXXDR \<times> byte list option \<times> byte list option \<times> ('s, oats_args) rpc_msg) option" where
  "get_call st flexxdr name title msg = do {
     let call_args = Printmessage_call_args name title;
     (res, flexxdr, cf) \<leftarrow> cornflake_deserialize st flexxdr \<lparr>cf_msg = msg, cf_args = call_args\<rparr>;
     (case cf_args cf of
        Printmessage_call_args name title \<Rightarrow> Some (flexxdr, name, title, cf_msg cf)
      | _ \<Rightarrow> None) }"

definition set_reply ::
    "('s, oats_args, 'd) cf_state \<Rightarrow> 's FLEXXDR \<Rightarrow> byte list option \<Rightarrow> 32 word \<Rightarrow>
     ('s, oats_args) rpc_msg \<Rightarrow> ('s, oats_args) rpc_msg \<Rightarrow> 's FLEXXDR option" where
  "set_reply st flexxdr name result cmsg rply0 = do {
     let reply_args = Printmessage_reply_args name result;
     let c = rm_call cmsg;
     let ar = (rp_acpt (rm_reply rply0))\<lparr>ar_stat := SUCCESS, ar_where := reply_args,
       ar_proc := cornflake_get_schema (cb_prog c) (cb_vers c) (cb_proc c) REPLY st\<rparr>;
     let rply = rply0\<lparr>rm_xid := rm_xid cmsg, rm_direction := REPLY,
       rm_reply := (rm_reply rply0)\<lparr>rp_stat := MSG_ACCEPTED, rp_acpt := ar\<rparr>\<rparr>;
     (res, flexxdr, cf) \<leftarrow> cornflake_serialize st flexxdr \<lparr>cf_msg = rply, cf_args = reply_args\<rparr>;
     Some flexxdr }"

section \<open>The client's and the server's exchange\<close>

text \<open>What \<open>write\<close> sends: the bytes from \<open>f_base\<close> to \<open>f_private\<close>.\<close>

definition outgoing :: "memstrm FLEXXDR \<Rightarrow> byte list" where
  "outgoing x =
     rd (x_mem x) (m_base (x_private x)) (m_private (x_private x) - m_base (x_private x))"

text \<open>\<open>sizeof(buf)\<close> is the size of the pointer: 8 bytes are cleared.\<close>

definition flip :: "addr \<Rightarrow> xdr_op \<Rightarrow> memstrm FLEXXDR \<Rightarrow> memstrm FLEXXDR" where
  "flip buf op x = x\<lparr>x_mem := wr (x_mem x) buf (replicate 8 0), x_op := op,
     x_private := (x_private x)\<lparr>m_private := m_base (x_private x), m_handy := 80\<rparr>\<rparr>"

definition read_buf :: "addr \<Rightarrow> byte list \<Rightarrow> memstrm FLEXXDR \<Rightarrow> memstrm FLEXXDR" where
  "read_buf buf incoming x = x\<lparr>x_mem := wr (x_mem x) buf (take 80 incoming)\<rparr>"

definition client_func ::
    "(memstrm, oats_args, 'd) cf_state \<Rightarrow> memstrm FLEXXDR \<Rightarrow> addr \<Rightarrow> byte list \<Rightarrow> byte list option \<Rightarrow>
     32 word \<Rightarrow> (memstrm, oats_args) rpc_msg \<Rightarrow>
     (memstrm FLEXXDR \<times> byte list option \<times> 32 word) option" where
  "client_func st flexxdrs buf incoming name_block result0 reply0 =
    (let flexxdrs = flip buf XDR_DECODE flexxdrs;
         flexxdrs = read_buf buf incoming flexxdrs
     in read_reply st flexxdrs name_block result0 reply0)"

definition server_func ::
    "(memstrm, oats_args, 'd) cf_state \<Rightarrow> memstrm FLEXXDR \<Rightarrow> addr \<Rightarrow> byte list \<Rightarrow> byte list option \<Rightarrow>
     byte list option \<Rightarrow> (memstrm, oats_args) rpc_msg \<Rightarrow> (memstrm, oats_args) rpc_msg \<Rightarrow>
     (byte list \<times> byte list option \<times> byte list option) option" where
  "server_func st flexxdrs buf incoming name_block title_block cmsg0 rply0 = do {
     let flexxdrs = read_buf buf incoming flexxdrs;
     let result = 1;
     (flexxdrs, name, title, cmsg) \<leftarrow> get_call st flexxdrs name_block title_block cmsg0;
     let flexxdrs = flip buf XDR_ENCODE flexxdrs;
     flexxdrs \<leftarrow> set_reply st flexxdrs name result cmsg rply0;
     Some (outgoing flexxdrs, name, title) }"

section \<open>The filters over a stream\<close>

text \<open>A counted string on the wire.\<close>

definition string_bytes :: "byte list \<Rightarrow> byte list" where
  "string_bytes bs = be32 (of_nat (length bs)) @ padded bs"

lemma length_string_bytes: "length (string_bytes bs) = 4 + length bs + pad (length bs)"
  by (simp add: string_bytes_def padded_def)

context xdr_sink begin

lemma encodes_oats_string:
  "0 \<in> set s \<Longrightarrow> strlen s \<le> 255 \<Longrightarrow>
   encodes (flexxdr_string malloc MAX_STRING_SIZE) (Some s) (string_bytes (cstr s)) (Some s)"
  using encodes_flexxdr_string [of s MAX_STRING_SIZE malloc]
  by (simp add: string_bytes_def MAX_STRING_SIZE_def strlen_def)

lemma encodes_printmessage_call:
  assumes "0 \<in> set name" "strlen name \<le> 255" "0 \<in> set title" "strlen title \<le> 255"
  shows "encodes (printmessage_call malloc) (Printmessage_call_args (Some name) (Some title))
    (string_bytes (cstr name) @ string_bytes (cstr title))
    (Printmessage_call_args (Some name) (Some title))"
proof -
  let ?F = "\<lambda>x v. and_then (fld fst apfst (flexxdr_string malloc MAX_STRING_SIZE) x v)
      (fld snd apsnd (flexxdr_string malloc MAX_STRING_SIZE))"
  have "encodes ?F (Some name, Some title)
      (string_bytes (cstr name) @ string_bytes (cstr title)) (Some name, Some title)"
    by (rule encodes_and_then [OF encodes_fst [OF encodes_oats_string [OF assms(1,2)]]
          encodes_snd [OF encodes_oats_string [OF assms(3,4)]]])
  then show ?thesis
    by (fastforce simp: encodes_def printmessage_call_def)
qed

lemma encodes_printmessage_reply:
  assumes "0 \<in> set name" "strlen name \<le> 255"
  shows "encodes (printmessage_reply malloc) (Printmessage_reply_args (Some name) result)
    (string_bytes (cstr name) @ be32 result) (Printmessage_reply_args (Some name) result)"
proof -
  let ?F = "\<lambda>x v. and_then (fld fst apfst (flexxdr_string malloc MAX_STRING_SIZE) x v)
      (fld snd apsnd flexxdr_u_int)"
  have "encodes ?F (Some name, result) (string_bytes (cstr name) @ be32 result) (Some name, result)"
    by (rule encodes_and_then [OF encodes_fst [OF encodes_oats_string [OF assms]]
          encodes_snd [OF encodes_flexxdr_u_int]])
  then show ?thesis
    by (fastforce simp: encodes_def printmessage_reply_def)
qed

end

context xdr_source begin

lemma decodes_oats_string:
  "length bs \<le> 255 \<Longrightarrow> length bs \<le> length old \<Longrightarrow>
   decodes (flexxdr_string malloc MAX_STRING_SIZE) (string_bytes bs) (Some old) (Some (fill old bs))"
  using decodes_flexxdr_string [of bs MAX_STRING_SIZE malloc "Some old" old]
  by (simp add: string_bytes_def MAX_STRING_SIZE_def)

lemma decodes_printmessage_call:
  assumes "length name \<le> 255" "length name \<le> length b" "length title \<le> 255" "length title \<le> length c"
  shows "decodes (printmessage_call malloc) (string_bytes name @ string_bytes title)
    (Printmessage_call_args (Some b) (Some c))
    (Printmessage_call_args (Some (fill b name)) (Some (fill c title)))"
proof -
  let ?F = "\<lambda>x v. and_then (fld fst apfst (flexxdr_string malloc MAX_STRING_SIZE) x v)
      (fld snd apsnd (flexxdr_string malloc MAX_STRING_SIZE))"
  have "decodes ?F (string_bytes name @ string_bytes title) (Some b, Some c)
      (Some (fill b name), Some (fill c title))"
    by (rule decodes_and_then [OF decodes_fst [OF decodes_oats_string [OF assms(1,2)]]
          decodes_snd [OF decodes_oats_string [OF assms(3,4)]]])
  then show ?thesis
    by (fastforce simp: decodes_def printmessage_call_def)
qed

lemma overruns_printmessage_call:
  assumes "length name \<le> 255" "length b < length name"
  shows "overruns (printmessage_call malloc) (string_bytes name @ bs) (Printmessage_call_args (Some b) c)"
  unfolding overruns_def
proof (intro allI impI, elim conjE)
  fix xdrs rs
  assume s: "sources xdrs" and p: "pending xdrs = (string_bytes name @ bs) @ rs"
  have "overruns (flexxdr_string malloc MAX_STRING_SIZE) (string_bytes name) (Some b)"
    unfolding string_bytes_def by (rule overruns_flexxdr_string) (use assms in \<open>simp_all add: MAX_STRING_SIZE_def\<close>)
  then have "flexxdr_string malloc MAX_STRING_SIZE xdrs (Some b) = None"
    using s p unfolding overruns_def by simp
  then show "printmessage_call malloc xdrs (Printmessage_call_args (Some b) c) = None"
    by (simp add: printmessage_call_def fld_def)
qed

lemma decodes_printmessage_reply:
  assumes "length name \<le> 255" "length name \<le> length b"
  shows "decodes (printmessage_reply malloc) (string_bytes name @ be32 result)
    (Printmessage_reply_args (Some b) r) (Printmessage_reply_args (Some (fill b name)) result)"
proof -
  let ?F = "\<lambda>x v. and_then (fld fst apfst (flexxdr_string malloc MAX_STRING_SIZE) x v)
      (fld snd apsnd flexxdr_u_int)"
  have "decodes ?F (string_bytes name @ be32 result) (Some b, r) (Some (fill b name), result)"
    by (rule decodes_and_then [OF decodes_fst [OF decodes_oats_string [OF assms]]
          decodes_snd [OF decodes_flexxdr_u_int]])
  then show ?thesis
    by (fastforce simp: decodes_def printmessage_reply_def)
qed

end

section \<open>The exchange\<close>

text \<open>The messages of the exchange on the wire.\<close>

definition call_bytes :: "64 word \<Rightarrow> byte list \<Rightarrow> byte list \<Rightarrow> byte list" where
  "call_bytes xid name title =
     be32 (ucast xid) @ be32 CALL @ callmsg_bytes OATSPROGRAM PRINTMESSAGEVER PRINTMESSAGE @
     string_bytes name @ string_bytes title"

definition reply_bytes :: "64 word \<Rightarrow> byte list \<Rightarrow> 32 word \<Rightarrow> byte list" where
  "reply_bytes xid name result =
     be32 (ucast xid) @ be32 REPLY @ be32 MSG_ACCEPTED @ be32 SUCCESS @
     string_bytes name @ be32 result"

definition oats_registered ::
    "(nat \<Rightarrow> byte list option) \<Rightarrow> ('s, oats_args, 'd) cf_state \<Rightarrow> bool" where
  "oats_registered malloc st \<longleftrightarrow>
     cornflake_get_schema OATSPROGRAM PRINTMESSAGEVER PRINTMESSAGE CALL st =
       Some (printmessage_call malloc) \<and>
     cornflake_get_schema OATSPROGRAM PRINTMESSAGEVER PRINTMESSAGE REPLY st =
       Some (printmessage_reply malloc)"

lemma oats_register_registered:
  "reg_vers (rpc_registry st) = 0 \<Longrightarrow> oats_register malloc disp st = Some (True, st') \<Longrightarrow>
   oats_registered malloc st'"
  unfolding oats_register_def oats_registered_def
  by (rule register_first) (simp_all add: PRINTMESSAGEVER_def)

lemma fits32_oats [simp]: "fits32 OATSPROGRAM" "fits32 PRINTMESSAGEVER" "fits32 PRINTMESSAGE"
  by (simp_all add: fits32_def OATSPROGRAM_def PRINTMESSAGEVER_def PRINTMESSAGE_def)

lemma read_buf_create:
  "read_buf a bs (flexxdrmem_create m a sz op) = flexxdrmem_create (wr m a (take 80 bs)) a sz op"
  by (simp add: read_buf_def flexxdrmem_create_def)

lemma flip_create:
  "x_ops x = flexxdrmem_ops \<Longrightarrow> m_base (x_private x) = a \<Longrightarrow>
   flip a op x = flexxdrmem_create (wr (x_mem x) a (replicate 8 0)) a 80 op"
  by (cases x; cases "x_private x") (simp add: flip_def flexxdrmem_create_def)

lemma outgoingI:
  "m_base (x_private x) = a \<Longrightarrow> m_private (x_private x) = a + length bs \<Longrightarrow>
   rd (x_mem x) a (length bs) = bs \<Longrightarrow> outgoing x = bs"
  by (simp add: outgoing_def)

lemma prepare_call_sends:
  assumes reg: "oats_registered malloc st" and a: "a \<noteq> 0" and xid: "fits32 xid"
    and name: "0 \<in> set name" "strlen name \<le> 255" and title: "0 \<in> set title" "strlen title \<le> 255"
    and fits: "length (call_bytes xid (cstr name) (cstr title)) \<le> 80"
  obtains x where
    "prepare_call st (flexxdrmem_create m a 80 XDR_ENCODE) (Some name) (Some title) xid msg0 = Some x"
    and "outgoing x = call_bytes xid (cstr name) (cstr title)"
    and "x_ops x = flexxdrmem_ops" and "m_base (x_private x) = a"
    and "\<forall>y. y < a \<or> a + 80 \<le> y \<longrightarrow> x_mem x y = m y"
proof -
  define c where "c = \<lparr>cb_rpcvers = 8, cb_prog = OATSPROGRAM, cb_vers = PRINTMESSAGEVER,
      cb_proc = PRINTMESSAGE\<rparr>"
  define cf where "cf = \<lparr>cf_msg = msg0\<lparr>rm_xid := xid, rm_direction := CALL, rm_call := c\<rparr>,
      cf_args = Printmessage_call_args (Some name) (Some title)\<rparr>"
  note args = fm.encodes_printmessage_call [OF name title, of m a "unat (80 :: 32 word)" malloc]
  have ser: "fm.encodes m a (unat (80 :: 32 word)) (cornflake_serialize st) cf
      (call_bytes xid (cstr name) (cstr title))
      (cf\<lparr>cf_msg := (cf_msg cf)\<lparr>rm_call := c\<lparr>cb_rpcvers := FLEXRPC_MSG_VERSION\<rparr>\<rparr>,
        cf_args := Printmessage_call_args (Some name) (Some title)\<rparr>)"
    using fm.encodes_serialize_call [of cf c st "printmessage_call malloc" m a "unat (80 :: 32 word)"] args reg xid
    by (simp add: cf_def c_def oats_registered_def call_bytes_def callhdr_bytes_def callmsg_bytes_def)
  have l: "length (call_bytes xid (cstr name) (cstr title)) \<le> unat (80 :: 32 word)"
    using fits by simp
  obtain x where "cornflake_serialize st (flexxdrmem_create m a 80 XDR_ENCODE) cf = Some (True, x,
      cf\<lparr>cf_msg := (cf_msg cf)\<lparr>rm_call := c\<lparr>cb_rpcvers := FLEXRPC_MSG_VERSION\<rparr>\<rparr>,
        cf_args := Printmessage_call_args (Some name) (Some title)\<rparr>)"
    and rest: "rd (x_mem x) a (length (call_bytes xid (cstr name) (cstr title))) =
        call_bytes xid (cstr name) (cstr title)"
      "\<forall>y. y < a \<or> a + unat (80 :: 32 word) \<le> y \<longrightarrow> x_mem x y = m y"
      "x_ops x = flexxdrmem_ops" "m_base (x_private x) = a"
      "m_private (x_private x) = a + length (call_bytes xid (cstr name) (cstr title))"
    by (rule flexxdrmem_encode [OF ser refl a l]) blast
  then have "prepare_call st (flexxdrmem_create m a 80 XDR_ENCODE) (Some name) (Some title) xid msg0 =
      Some x"
    by (simp add: prepare_call_def cf_def c_def)
  moreover have "outgoing x = call_bytes xid (cstr name) (cstr title)"
    using rest by (intro outgoingI [of x a]) simp_all
  ultimately show thesis
    using rest by (intro that) simp_all
qed

lemma get_call_receives:
  assumes reg: "oats_registered malloc st" and a: "a \<noteq> 0" and xid: "fits32 xid"
    and name: "length name \<le> 255" "length name \<le> length nb" and title: "length title \<le> 255" "length title \<le> length tb"
    and fits: "length (call_bytes xid name title) \<le> 80"
    and rd: "rd m a (length (call_bytes xid name title)) = call_bytes xid name title"
  obtains x msg where
    "get_call st (flexxdrmem_create m a 80 XDR_DECODE) (Some nb) (Some tb) msg0 =
       Some (x, Some (fill nb name), Some (fill tb title), msg)"
    and "rm_xid msg = xid" and "rm_call msg = \<lparr>cb_rpcvers = FLEXRPC_MSG_VERSION,
       cb_prog = OATSPROGRAM, cb_vers = PRINTMESSAGEVER, cb_proc = PRINTMESSAGE\<rparr>"
    and "x_ops x = flexxdrmem_ops" and "m_base (x_private x) = a"
    and "\<forall>y. y < a \<or> a + 80 \<le> y \<longrightarrow> x_mem x y = m y"
proof -
  define cf where "cf = \<lparr>cf_msg = msg0, cf_args = Printmessage_call_args (Some nb) (Some tb)\<rparr>"
  define cf' where "cf' = cf\<lparr>cf_msg := msg0\<lparr>rm_xid := xid, rm_direction := CALL, rm_call :=
      \<lparr>cb_rpcvers = FLEXRPC_MSG_VERSION, cb_prog = OATSPROGRAM, cb_vers = PRINTMESSAGEVER,
       cb_proc = PRINTMESSAGE\<rparr>\<rparr>,
      cf_args := Printmessage_call_args (Some (fill nb name)) (Some (fill tb title))\<rparr>"
  note args = fmd.decodes_printmessage_call [OF name title, of m a "unat (80 :: 32 word)" malloc]
  have des: "fmd.decodes m a (unat (80 :: 32 word)) (cornflake_deserialize st) (call_bytes xid name title) cf cf'"
    using fmd.decodes_deserialize_call [of OATSPROGRAM PRINTMESSAGEVER PRINTMESSAGE st
        "printmessage_call malloc" m a "unat (80 :: 32 word)" "string_bytes name @ string_bytes title" cf
        "Printmessage_call_args (Some (fill nb name)) (Some (fill tb title))" "ucast xid"] args reg xid
    by (simp add: cf_def cf'_def oats_registered_def call_bytes_def)
  have l: "length (call_bytes xid name title) \<le> unat (80 :: 32 word)"
    using fits by simp
  obtain x where "cornflake_deserialize st (flexxdrmem_create m a 80 XDR_DECODE) cf = Some (True, x, cf')"
    and rest: "\<forall>y. y < a \<or> a + unat (80 :: 32 word) \<le> y \<longrightarrow> x_mem x y = m y"
      "x_ops x = flexxdrmem_ops" "m_base (x_private x) = a"
    by (rule flexxdrmem_decode [OF des refl a l rd]) blast
  then have "get_call st (flexxdrmem_create m a 80 XDR_DECODE) (Some nb) (Some tb) msg0 =
      Some (x, Some (fill nb name), Some (fill tb title), cf_msg cf')"
    by (simp add: get_call_def cf_def cf'_def)
  moreover have "rm_xid (cf_msg cf') = xid"
    and "rm_call (cf_msg cf') = \<lparr>cb_rpcvers = FLEXRPC_MSG_VERSION,
       cb_prog = OATSPROGRAM, cb_vers = PRINTMESSAGEVER, cb_proc = PRINTMESSAGE\<rparr>"
    by (simp_all add: cf'_def cf_def)
  ultimately show thesis
    using rest by (intro that) simp_all
qed

lemma set_reply_sends:
  assumes reg: "oats_registered malloc st" and a: "a \<noteq> 0"
    and msg: "rm_xid msg = xid" "fits32 xid" "rm_call msg = \<lparr>cb_rpcvers = v,
       cb_prog = OATSPROGRAM, cb_vers = PRINTMESSAGEVER, cb_proc = PRINTMESSAGE\<rparr>"
    and name: "0 \<in> set name" "strlen name \<le> 255"
    and fits: "length (reply_bytes xid (cstr name) result) \<le> 80"
  obtains x where
    "set_reply st (flexxdrmem_create m a 80 XDR_ENCODE) (Some name) result msg rply0 = Some x"
    and "outgoing x = reply_bytes xid (cstr name) result"
    and "\<forall>y. y < a \<or> a + 80 \<le> y \<longrightarrow> x_mem x y = m y"
proof -
  define args where "args = Printmessage_reply_args (Some name) result"
  define ar where "ar = (rp_acpt (rm_reply rply0))\<lparr>ar_stat := SUCCESS, ar_where := args,
      ar_proc := Some (printmessage_reply malloc)\<rparr>"
  define rply where "rply = rply0\<lparr>rm_xid := xid, rm_direction := REPLY,
      rm_reply := (rm_reply rply0)\<lparr>rp_stat := MSG_ACCEPTED, rp_acpt := ar\<rparr>\<rparr>"
  let ?bs = "reply_bytes xid (cstr name) result"
  have "fm.encodes m a (unat (80 :: 32 word)) flexxdr_replymsg rply
      (be32 MSG_ACCEPTED @ be32 SUCCESS @ (string_bytes (cstr name) @ be32 result))
      (rply\<lparr>rm_reply := (rm_reply rply)\<lparr>rp_acpt := ar\<lparr>ar_where := args\<rparr>\<rparr>\<rparr>)"
    by (rule fm.encodes_success_reply [where proc = "printmessage_reply malloc"])
      (simp_all add: rply_def ar_def args_def fm.encodes_printmessage_reply name)
  then obtain cf' where ser: "fm.encodes m a (unat (80 :: 32 word)) (cornflake_serialize st)
      \<lparr>cf_msg = rply, cf_args = args\<rparr> ?bs cf'"
    using fm.encodes_serialize_reply [of "\<lparr>cf_msg = rply, cf_args = args\<rparr>" m a "unat (80 :: 32 word)" _ _ st] msg
    by (force simp: rply_def reply_bytes_def)
  have l: "length ?bs \<le> unat (80 :: 32 word)" using fits by simp
  obtain x where "cornflake_serialize st (flexxdrmem_create m a 80 XDR_ENCODE)
      \<lparr>cf_msg = rply, cf_args = args\<rparr> = Some (True, x, cf')"
    and rest: "rd (x_mem x) a (length ?bs) = ?bs"
      "\<forall>y. y < a \<or> a + unat (80 :: 32 word) \<le> y \<longrightarrow> x_mem x y = m y"
      "m_base (x_private x) = a" "m_private (x_private x) = a + length ?bs"
    by (rule flexxdrmem_encode [OF ser refl a l]) blast
  then have "set_reply st (flexxdrmem_create m a 80 XDR_ENCODE) (Some name) result msg rply0 = Some x"
    using msg reg
    by (simp add: set_reply_def rply_def ar_def args_def oats_registered_def)
  moreover have "outgoing x = ?bs"
    using rest by (intro outgoingI [of x a]) simp_all
  ultimately show thesis
    using rest by (intro that) simp_all
qed

lemma read_reply_receives:
  assumes reg: "oats_registered malloc st" and a: "a \<noteq> 0"
    and name: "length name \<le> 255" "length name \<le> length nb"
    and fits: "length (reply_bytes xid name result) \<le> 80"
    and rd: "rd m a (length (reply_bytes xid name result)) = reply_bytes xid name result"
  obtains x where
    "read_reply st (flexxdrmem_create m a 80 XDR_DECODE) (Some nb) r0 reply0 =
       Some (x, Some (fill nb name), result)"
proof -
  define ar where "ar = (rp_acpt (rm_reply reply0))\<lparr>ar_where := Printmessage_reply_args (Some nb) r0,
      ar_proc := Some (printmessage_reply malloc)\<rparr>"
  define rply where "rply = reply0\<lparr>rm_reply := (rm_reply reply0)\<lparr>rp_acpt := ar\<rparr>\<rparr>"
  define cf where "cf = \<lparr>cf_msg = rply, cf_args = Other_object\<rparr>"
  define w' where "w' = Printmessage_reply_args (Some (fill nb name)) result"
  let ?msg = "rply\<lparr>rm_xid := ucast (ucast xid :: 32 word), rm_direction := REPLY\<rparr>"
  let ?msg' = "?msg\<lparr>rm_reply := (rm_reply ?msg)\<lparr>rp_stat := MSG_ACCEPTED,
      rp_acpt := ar\<lparr>ar_stat := SUCCESS, ar_where := w'\<rparr>\<rparr>\<rparr>"
  let ?bs = "reply_bytes xid name result"
  have "fmd.decodes m a (unat (80 :: 32 word)) flexxdr_replymsg
      (be32 MSG_ACCEPTED @ be32 SUCCESS @ (string_bytes name @ be32 result)) ?msg ?msg'"
    by (rule fmd.decodes_success_reply [where proc = "printmessage_reply malloc"])
      (simp_all add: rply_def ar_def w'_def fmd.decodes_printmessage_reply name)
  then have des: "fmd.decodes m a (unat (80 :: 32 word)) (cornflake_deserialize st) ?bs cf (cf\<lparr>cf_msg := ?msg'\<rparr>)"
    using fmd.decodes_deserialize_reply [where cf = cf and xid = "ucast xid" and msg' = ?msg']
    by (simp add: cf_def reply_bytes_def)
  have l: "length ?bs \<le> unat (80 :: 32 word)" using fits by simp
  obtain x where "cornflake_deserialize st (flexxdrmem_create m a 80 XDR_DECODE) cf =
      Some (True, x, cf\<lparr>cf_msg := ?msg'\<rparr>)"
    by (rule flexxdrmem_decode [OF des refl a l rd]) blast
  then have "read_reply st (flexxdrmem_create m a 80 XDR_DECODE) (Some nb) r0 reply0 =
      Some (x, Some (fill nb name), result)"
    using reg by (simp add: read_reply_def cf_def rply_def ar_def w'_def oats_registered_def)
  then show thesis by (rule that)
qed

text \<open>The server, from the bytes of a call to the bytes of its reply.\<close>

lemma server_func_replies:
  assumes reg: "oats_registered malloc st" and a: "a \<noteq> 0" and xid: "fits32 xid"
    and name: "length name \<le> 255" "length name \<le> length nb" and title: "length title \<le> 255" "length title \<le> length tb"
    and fits: "length (call_bytes xid name title) \<le> 80"
    and block: "0 \<in> set (fill nb name)" "strlen (fill nb name) \<le> 255"
    and fits': "length (reply_bytes xid (cstr (fill nb name)) 1) \<le> 80"
  shows "server_func st (flexxdrmem_create m a 80 XDR_DECODE) a (call_bytes xid name title)
      (Some nb) (Some tb) cmsg0 rply0 =
    Some (reply_bytes xid (cstr (fill nb name)) 1, Some (fill nb name), Some (fill tb title))"
proof -
  let ?m = "wr m a (call_bytes xid name title)"
  have rd: "rd ?m a (length (call_bytes xid name title)) = call_bytes xid name title" by simp
  obtain x msg where get: "get_call st (flexxdrmem_create ?m a 80 XDR_DECODE) (Some nb) (Some tb) cmsg0 =
      Some (x, Some (fill nb name), Some (fill tb title), msg)"
    and msg: "rm_xid msg = xid" "rm_call msg = \<lparr>cb_rpcvers = FLEXRPC_MSG_VERSION,
       cb_prog = OATSPROGRAM, cb_vers = PRINTMESSAGEVER, cb_proc = PRINTMESSAGE\<rparr>"
    and x: "x_ops x = flexxdrmem_ops" "m_base (x_private x) = a"
    by (rule get_call_receives [OF reg a xid name title fits rd]) blast
  obtain y where "set_reply st (flexxdrmem_create (wr (x_mem x) a (replicate 8 0)) a 80 XDR_ENCODE)
      (Some (fill nb name)) 1 msg rply0 = Some y"
    and "outgoing y = reply_bytes xid (cstr (fill nb name)) 1"
    by (rule set_reply_sends [OF reg a msg(1) xid msg(2) block fits'])
  then show ?thesis
    using get fits by (simp add: server_func_def read_buf_create flip_create [OF x])
qed

text \<open>The client, from its call to the reply it reads.\<close>

lemma client_func_receives:
  assumes reg: "oats_registered malloc st" and a: "a \<noteq> 0"
    and x: "x_ops x = flexxdrmem_ops" "m_base (x_private x) = a"
    and name: "length name \<le> 255" "length name \<le> length nb"
    and fits: "length (reply_bytes xid name result) \<le> 80"
  obtains y where "client_func st x a (reply_bytes xid name result) (Some nb) r0 reply0 =
    Some (y, Some (fill nb name), result)"
proof -
  let ?m = "wr (wr (x_mem x) a (replicate 8 0)) a (reply_bytes xid name result)"
  have rd: "rd ?m a (length (reply_bytes xid name result)) = reply_bytes xid name result" by simp
  obtain y where "read_reply st (flexxdrmem_create ?m a 80 XDR_DECODE) (Some nb) r0 reply0 =
      Some (y, Some (fill nb name), result)"
    by (rule read_reply_receives [OF reg a name fits rd])
  then have "client_func st x a (reply_bytes xid name result) (Some nb) r0 reply0 =
      Some (y, Some (fill nb name), result)"
    using fits by (simp add: client_func_def flip_create [OF x] read_buf_create)
  then show thesis by (rule that)
qed

end
