(* ===== verification/Rpc_Msg.thy ===== *)
theory Rpc_Msg
  imports Xdr_Codec Msg_Enums
begin

text \<open>
  \<open>lib/libtirpc/src/rpc_prot.c\<close> and \<open>rpc_callmsg.c\<close>: the messages of ONC RPC and their
  filters.  Structure and field names that flexrpc uses too have a \<open>t\<close> in front.  The members
  of a C union are fields of one record, since no member is read after another was stored.
  \<open>mem_alloc\<close> is the parameter \<open>avail\<close>, as in \<open>Xdr_Generic\<close>.  The \<open>assert\<close>s, all on
  pointers that are not null, are left out.
\<close>

section \<open>Authentication\<close>

definition MAX_AUTH_BYTES :: "32 word" where "MAX_AUTH_BYTES = 400"
definition RPC_MSG_VERSION :: "32 word" where "RPC_MSG_VERSION = 2"

record opaque_auth =
  oa_flavor :: enum_t
  oa_base :: "byte list option"
  oa_length :: "32 word"

text \<open>\<open>_null_auth\<close>.\<close>

definition null_auth :: opaque_auth where
  "null_auth = \<lparr>oa_flavor = 0, oa_base = None, oa_length = 0\<rparr>"

definition xdr_opaque_auth :: "(nat \<Rightarrow> bool) \<Rightarrow> ('s, opaque_auth) xdrproc_t" where
  "xdr_opaque_auth avail xdrs ap =
     and_then (fld oa_flavor oa_flavor_update xdr_enum xdrs ap)
       (fld (\<lambda>ap. (oa_base ap, oa_length ap))
         (\<lambda>f ap. let (b, l) = f (oa_base ap, oa_length ap) in ap\<lparr>oa_base := b, oa_length := l\<rparr>)
         (xdr_bytes avail MAX_AUTH_BYTES))"

definition xdr_des_block :: "('s, byte list) xdrproc_t" where
  "xdr_des_block xdrs blkp = xdr_opaque 8 xdrs blkp"

section \<open>Messages\<close>

record ('s, 'w) taccepted_reply =
  tar_verf :: opaque_auth
  tar_stat :: enum_t
  tar_low :: "32 word"
  tar_high :: "32 word"
  tar_where :: 'w
  tar_proc :: "('s, 'w) xdrproc_t option"

record trejected_reply =
  trj_stat :: enum_t
  trj_low :: "32 word"
  trj_high :: "32 word"
  trj_why :: enum_t

record ('s, 'w) treply_body =
  trp_stat :: enum_t
  trp_acpt :: "('s, 'w) taccepted_reply"
  trp_rjct :: trejected_reply

record tcall_body =
  tcb_rpcvers :: "32 word"
  tcb_prog :: "32 word"
  tcb_vers :: "32 word"
  tcb_proc :: "32 word"
  tcb_cred :: opaque_auth
  tcb_verf :: opaque_auth

record ('s, 'w) trpc_msg =
  trm_xid :: "32 word"
  trm_direction :: enum_t
  trm_call :: tcall_body
  trm_reply :: "('s, 'w) treply_body"

abbreviation trm_call_fld where
  "trm_call_fld get upd \<equiv> fld (\<lambda>msg. get (trm_call msg)) (\<lambda>f. trm_call_update (upd f))"

section \<open>Replies\<close>

definition xdr_accepted_reply :: "(nat \<Rightarrow> bool) \<Rightarrow> ('s, ('s, 'w) taccepted_reply) xdrproc_t" where
  "xdr_accepted_reply avail xdrs ar =
     and_then (and_then
       (fld tar_verf tar_verf_update (xdr_opaque_auth avail) xdrs ar)
       (fld tar_stat tar_stat_update xdr_enum)) (\<lambda>xdrs ar.
       if tar_stat ar = SUCCESS then
         (case tar_proc ar of
            None \<Rightarrow> None
          | Some proc \<Rightarrow> fld tar_where tar_where_update proc xdrs ar)
       else if tar_stat ar = PROG_MISMATCH then
         and_then (fld tar_low tar_low_update xdr_u_int32_t xdrs ar)
           (fld tar_high tar_high_update xdr_u_int32_t)
       else Some (True, xdrs, ar))"

definition xdr_rejected_reply :: "('s, trejected_reply) xdrproc_t" where
  "xdr_rejected_reply xdrs rr =
     and_then (fld trj_stat trj_stat_update xdr_enum xdrs rr) (\<lambda>xdrs rr.
       if trj_stat rr = RPC_MISMATCH then
         and_then (fld trj_low trj_low_update xdr_u_int32_t xdrs rr)
           (fld trj_high trj_high_update xdr_u_int32_t)
       else if trj_stat rr = AUTH_ERROR then fld trj_why trj_why_update xdr_enum xdrs rr
       else Some (False, xdrs, rr))"

definition xdr_reply_dscrm ::
    "(nat \<Rightarrow> bool) \<Rightarrow>
     (32 word \<times> ('s, ('s, 'w) taccepted_reply \<times> trejected_reply) xdrproc_t option) list" where
  "xdr_reply_dscrm avail = [
     (MSG_ACCEPTED, Some (fld fst apfst (xdr_accepted_reply avail))),
     (MSG_DENIED, Some (fld snd apsnd xdr_rejected_reply)),
     (-1, None)]"

definition xdr_reply_body :: "(nat \<Rightarrow> bool) \<Rightarrow> ('s, ('s, 'w) treply_body) xdrproc_t" where
  "xdr_reply_body avail xdrs r = do {
     (ok, xdrs, stat, acpt, rjct) \<leftarrow>
       xdr_union (xdr_reply_dscrm avail) None xdrs (trp_stat r, trp_acpt r, trp_rjct r);
     Some (ok, xdrs, r\<lparr>trp_stat := stat, trp_acpt := acpt, trp_rjct := rjct\<rparr>) }"

definition xdr_replymsg :: "(nat \<Rightarrow> bool) \<Rightarrow> ('s, ('s, 'w) trpc_msg) xdrproc_t" where
  "xdr_replymsg avail xdrs rmsg =
     and_then (and_then (and_then
       (fld trm_xid trm_xid_update xdr_u_int32_t xdrs rmsg)
       (fld trm_direction trm_direction_update xdr_enum))
       (check (\<lambda>rmsg. trm_direction rmsg = REPLY)))
       (fld trm_reply trm_reply_update (xdr_reply_body avail))"

section \<open>Calls\<close>

definition xdr_callhdr :: "('s, ('s, 'w) trpc_msg) xdrproc_t" where
  "xdr_callhdr xdrs cmsg0 =
    (let cmsg = cmsg0\<lparr>trm_direction := CALL,
           trm_call := (trm_call cmsg0)\<lparr>tcb_rpcvers := RPC_MSG_VERSION\<rparr>\<rparr> in
     and_then (and_then (and_then (and_then (and_then
       (check (\<lambda>_. x_op xdrs = XDR_ENCODE) xdrs cmsg)
       (fld trm_xid trm_xid_update xdr_u_int32_t))
       (fld trm_direction trm_direction_update xdr_enum))
       (trm_call_fld tcb_rpcvers tcb_rpcvers_update xdr_u_int32_t))
       (trm_call_fld tcb_prog tcb_prog_update xdr_u_int32_t))
       (trm_call_fld tcb_vers tcb_vers_update xdr_u_int32_t))"

text \<open>
  The in-line encoding of a credential or verifier: \<open>memmove\<close> stores \<open>oa_length\<close> bytes and
  the pointer steps over the padding, which is not stored.
\<close>

definition put_auth :: "opaque_auth \<Rightarrow> 's XDR \<Rightarrow> addr \<Rightarrow> ('s XDR \<times> addr) option" where
  "put_auth oa xdrs buf =
    (let (xdrs, buf) = IXDR_PUT_INT32 xdrs buf (oa_flavor oa);
         (xdrs, buf) = IXDR_PUT_INT32 xdrs buf (oa_length oa)
     in if oa_length oa \<noteq> 0 then
          (case oa_base oa of
             None \<Rightarrow> None
           | Some b \<Rightarrow> Some (xdrs\<lparr>x_mem := wr (x_mem xdrs) buf (take (unat (oa_length oa)) b)\<rparr>,
               buf + unat (RNDUP (oa_length oa))))
        else Some (xdrs, buf))"

definition xdr_callmsg_put :: "addr \<Rightarrow> ('s, ('s, 'w) trpc_msg) xdrproc_t" where
  "xdr_callmsg_put buf xdrs cmsg =
    (let (xdrs, buf) = IXDR_PUT_INT32 xdrs buf (trm_xid cmsg);
         (xdrs, buf) = IXDR_PUT_INT32 xdrs buf (trm_direction cmsg);
         call = trm_call cmsg
     in if trm_direction cmsg \<noteq> CALL then Some (False, xdrs, cmsg)
     else let (xdrs, buf) = IXDR_PUT_INT32 xdrs buf (tcb_rpcvers call)
     in if tcb_rpcvers call \<noteq> RPC_MSG_VERSION then Some (False, xdrs, cmsg)
     else do {
       let (xdrs, buf) = IXDR_PUT_INT32 xdrs buf (tcb_prog call);
       let (xdrs, buf) = IXDR_PUT_INT32 xdrs buf (tcb_vers call);
       let (xdrs, buf) = IXDR_PUT_INT32 xdrs buf (tcb_proc call);
       (xdrs, buf) \<leftarrow> put_auth (tcb_cred call) xdrs buf;
       (xdrs, buf) \<leftarrow> put_auth (tcb_verf call) xdrs buf;
       Some (True, xdrs, cmsg) })"

text \<open>
  The body of a credential or verifier whose flavor and length have been decoded: an in-line
  buffer of its own, or \<open>xdr_opaque\<close>.
\<close>

definition get_auth_body :: "(nat \<Rightarrow> bool) \<Rightarrow> ('s, opaque_auth) xdrproc_t" where
  "get_auth_body avail xdrs oa =
    (if oa_length oa \<noteq> 0 then
       if oa_length oa > MAX_AUTH_BYTES then Some (False, xdrs, oa)
       else case (case oa_base oa of
                    None \<Rightarrow> mem_alloc avail (unat (oa_length oa)) | Some b \<Rightarrow> Some b) of
         None \<Rightarrow> Some (False, xdrs, oa\<lparr>oa_base := None\<rparr>)
       | Some base \<Rightarrow> do {
           (buf, xdrs) \<leftarrow> XDR_INLINE xdrs (RNDUP (oa_length oa));
           if buf = 0 then do {
             (ok, xdrs, base) \<leftarrow> xdr_opaque (oa_length oa) xdrs base;
             Some (ok, xdrs, oa\<lparr>oa_base := Some base\<rparr>) }
           else if length base < unat (oa_length oa) then None
           else Some (True, xdrs,
             oa\<lparr>oa_base := Some (fill base (rd (x_mem xdrs) buf (unat (oa_length oa))))\<rparr>) }
     else Some (True, xdrs, oa))"

text \<open>The verifier's flavor and length, from two words in line or through the filters.\<close>

definition get_verf_head :: "('s, opaque_auth) xdrproc_t" where
  "get_verf_head xdrs oa = do {
     (buf, xdrs) \<leftarrow> XDR_INLINE xdrs (2 * 4);
     if buf = 0 then
       and_then (fld oa_flavor oa_flavor_update xdr_enum xdrs oa)
         (fld oa_length oa_length_update xdr_u_int)
     else
       let (flavor, buf) = IXDR_GET_INT32 xdrs buf;
           (len, buf) = IXDR_GET_INT32 xdrs buf
       in Some (True, xdrs, oa\<lparr>oa_flavor := flavor, oa_length := len\<rparr>) }"

text \<open>What follows the eight words of the first in-line buffer.\<close>

definition xdr_callmsg_rest :: "(nat \<Rightarrow> bool) \<Rightarrow> ('s, ('s, 'w) trpc_msg) xdrproc_t" where
  "xdr_callmsg_rest avail xdrs cmsg = and_then (and_then
     (trm_call_fld tcb_cred tcb_cred_update (get_auth_body avail) xdrs cmsg)
     (trm_call_fld tcb_verf tcb_verf_update get_verf_head))
     (trm_call_fld tcb_verf tcb_verf_update (get_auth_body avail))"

definition xdr_callmsg_get ::
    "(nat \<Rightarrow> bool) \<Rightarrow> addr \<Rightarrow> ('s, ('s, 'w) trpc_msg) xdrproc_t" where
  "xdr_callmsg_get avail buf xdrs cmsg =
    (let (v, buf) = IXDR_GET_INT32 xdrs buf;
         cmsg = cmsg\<lparr>trm_xid := v\<rparr>;
         (v, buf) = IXDR_GET_INT32 xdrs buf;
         cmsg = cmsg\<lparr>trm_direction := v\<rparr>
     in if trm_direction cmsg \<noteq> CALL then Some (False, xdrs, cmsg)
     else let
         (v, buf) = IXDR_GET_INT32 xdrs buf;
         cmsg = trm_call_update (tcb_rpcvers_update (\<lambda>_. v)) cmsg
     in if tcb_rpcvers (trm_call cmsg) \<noteq> RPC_MSG_VERSION then Some (False, xdrs, cmsg)
     else let
         (v, buf) = IXDR_GET_INT32 xdrs buf;
         cmsg = trm_call_update (tcb_prog_update (\<lambda>_. v)) cmsg;
         (v, buf) = IXDR_GET_INT32 xdrs buf;
         cmsg = trm_call_update (tcb_vers_update (\<lambda>_. v)) cmsg;
         (v, buf) = IXDR_GET_INT32 xdrs buf;
         cmsg = trm_call_update (tcb_proc_update (\<lambda>_. v)) cmsg;
         (flavor, buf) = IXDR_GET_INT32 xdrs buf;
         (len, buf) = IXDR_GET_INT32 xdrs buf;
         cmsg = trm_call_update (tcb_cred_update (\<lambda>oa. oa\<lparr>oa_flavor := flavor, oa_length := len\<rparr>)) cmsg
     in xdr_callmsg_rest avail xdrs cmsg)"

text \<open>The path taken without an in-line buffer.\<close>

definition xdr_callmsg_fields :: "(nat \<Rightarrow> bool) \<Rightarrow> ('s, ('s, 'w) trpc_msg) xdrproc_t" where
  "xdr_callmsg_fields avail xdrs cmsg =
     and_then (and_then (and_then (and_then (and_then (and_then (and_then (and_then (and_then
       (fld trm_xid trm_xid_update xdr_u_int32_t xdrs cmsg)
       (fld trm_direction trm_direction_update xdr_enum))
       (check (\<lambda>cmsg. trm_direction cmsg = CALL)))
       (trm_call_fld tcb_rpcvers tcb_rpcvers_update xdr_u_int32_t))
       (check (\<lambda>cmsg. tcb_rpcvers (trm_call cmsg) = RPC_MSG_VERSION)))
       (trm_call_fld tcb_prog tcb_prog_update xdr_u_int32_t))
       (trm_call_fld tcb_vers tcb_vers_update xdr_u_int32_t))
       (trm_call_fld tcb_proc tcb_proc_update xdr_u_int32_t))
       (trm_call_fld tcb_cred tcb_cred_update (xdr_opaque_auth avail)))
       (trm_call_fld tcb_verf tcb_verf_update (xdr_opaque_auth avail))"

definition xdr_callmsg :: "(nat \<Rightarrow> bool) \<Rightarrow> ('s, ('s, 'w) trpc_msg) xdrproc_t" where
  "xdr_callmsg avail xdrs cmsg =
    (let cred = tcb_cred (trm_call cmsg); verf = tcb_verf (trm_call cmsg) in
     case x_op xdrs of
       XDR_ENCODE \<Rightarrow>
         if oa_length cred > MAX_AUTH_BYTES then Some (False, xdrs, cmsg)
         else if oa_length verf > MAX_AUTH_BYTES then Some (False, xdrs, cmsg)
         else do {
           (buf, xdrs) \<leftarrow> XDR_INLINE xdrs (8 * 4 + RNDUP (oa_length cred) + 2 * 4 +
                             RNDUP (oa_length verf));
           if buf \<noteq> 0 then xdr_callmsg_put buf xdrs cmsg else xdr_callmsg_fields avail xdrs cmsg }
     | XDR_DECODE \<Rightarrow> do {
         (buf, xdrs) \<leftarrow> XDR_INLINE xdrs (8 * 4);
         if buf \<noteq> 0 then xdr_callmsg_get avail buf xdrs cmsg
         else xdr_callmsg_fields avail xdrs cmsg }
     | XDR_FREE \<Rightarrow> xdr_callmsg_fields avail xdrs cmsg)"

section \<open>Reply to error\<close>

datatype clnt_stat =
    RPC_SUCCESS | RPC_CANTENCODEARGS | RPC_CANTDECODERES | RPC_CANTSEND | RPC_CANTRECV
  | RPC_TIMEDOUT | RPC_INTR | RPC_UDERROR | RPC_VERSMISMATCH | RPC_AUTHERROR | RPC_PROGUNAVAIL
  | RPC_PROGVERSMISMATCH | RPC_PROCUNAVAIL | RPC_CANTDECODEARGS | RPC_SYSTEMERROR
  | RPC_UNKNOWNHOST | RPC_UNKNOWNPROTO | RPC_UNKNOWNADDR | RPC_NOBROADCAST | RPC_RPCBFAILURE
  | RPC_PROGNOTREGISTERED | RPC_N2AXLATEFAILURE | RPC_TLIERROR | RPC_FAILED | RPC_INPROGRESS
  | RPC_STALERACHANDLE | RPC_CANTCONNECT | RPC_XPRTFAILED | RPC_CANTCREATESTREAM

record rpc_err =
  re_status :: clnt_stat
  re_why :: enum_t
  re_vers_low :: "32 word"
  re_vers_high :: "32 word"
  re_lb_s1 :: "32 word"
  re_lb_s2 :: "32 word"

definition accepted :: "enum_t \<Rightarrow> rpc_err \<Rightarrow> rpc_err" where
  "accepted acpt_stat error =
    (if acpt_stat = PROG_UNAVAIL then error\<lparr>re_status := RPC_PROGUNAVAIL\<rparr>
     else if acpt_stat = PROG_MISMATCH then error\<lparr>re_status := RPC_PROGVERSMISMATCH\<rparr>
     else if acpt_stat = PROC_UNAVAIL then error\<lparr>re_status := RPC_PROCUNAVAIL\<rparr>
     else if acpt_stat = GARBAGE_ARGS then error\<lparr>re_status := RPC_CANTDECODEARGS\<rparr>
     else if acpt_stat = SYSTEM_ERR then error\<lparr>re_status := RPC_SYSTEMERROR\<rparr>
     else if acpt_stat = SUCCESS then error\<lparr>re_status := RPC_SUCCESS\<rparr>
     else error\<lparr>re_status := RPC_FAILED, re_lb_s1 := MSG_ACCEPTED, re_lb_s2 := acpt_stat\<rparr>)"

definition rejected :: "enum_t \<Rightarrow> rpc_err \<Rightarrow> rpc_err" where
  "rejected rjct_stat error =
    (if rjct_stat = RPC_MISMATCH then error\<lparr>re_status := RPC_VERSMISMATCH\<rparr>
     else if rjct_stat = AUTH_ERROR then error\<lparr>re_status := RPC_AUTHERROR\<rparr>
     else error\<lparr>re_status := RPC_FAILED, re_lb_s1 := MSG_DENIED, re_lb_s2 := rjct_stat\<rparr>)"

definition seterr_details :: "('s, 'w) trpc_msg \<Rightarrow> rpc_err \<Rightarrow> rpc_err" where
  "seterr_details msg error = (case re_status error of
     RPC_VERSMISMATCH \<Rightarrow> error\<lparr>re_vers_low := trj_low (trp_rjct (trm_reply msg)),
       re_vers_high := trj_high (trp_rjct (trm_reply msg))\<rparr>
   | RPC_AUTHERROR \<Rightarrow> error\<lparr>re_why := trj_why (trp_rjct (trm_reply msg))\<rparr>
   | RPC_PROGVERSMISMATCH \<Rightarrow> error\<lparr>re_vers_low := tar_low (trp_acpt (trm_reply msg)),
       re_vers_high := tar_high (trp_acpt (trm_reply msg))\<rparr>
   | _ \<Rightarrow> error)"

definition seterr_reply :: "('s, 'w) trpc_msg \<Rightarrow> rpc_err \<Rightarrow> rpc_err" where
  "seterr_reply msg error =
    (if trp_stat (trm_reply msg) = MSG_ACCEPTED then
       if tar_stat (trp_acpt (trm_reply msg)) = SUCCESS then error\<lparr>re_status := RPC_SUCCESS\<rparr>
       else seterr_details msg (accepted (tar_stat (trp_acpt (trm_reply msg))) error)
     else if trp_stat (trm_reply msg) = MSG_DENIED then
       seterr_details msg (rejected (trj_stat (trp_rjct (trm_reply msg))) error)
     else seterr_details msg
       (error\<lparr>re_status := RPC_FAILED, re_lb_s1 := trp_stat (trm_reply msg)\<rparr>))"

section \<open>The wire format of a call\<close>

definition auth_body :: "opaque_auth \<Rightarrow> byte list" where
  "auth_body oa = (case oa_base oa of None \<Rightarrow> [] | Some b \<Rightarrow> take (unat (oa_length oa)) b)"

definition auth_bytes :: "opaque_auth \<Rightarrow> byte list" where
  "auth_bytes oa = be32 (oa_flavor oa) @ be32 (oa_length oa) @ padded (auth_body oa)"

definition valid_auth :: "opaque_auth \<Rightarrow> bool" where
  "valid_auth oa \<longleftrightarrow> oa_length oa \<le> MAX_AUTH_BYTES \<and> length (auth_body oa) = unat (oa_length oa)"

definition tcallmsg_head :: "('s, 'w) trpc_msg \<Rightarrow> byte list" where
  "tcallmsg_head msg = be32 (trm_xid msg) @ be32 CALL @ be32 RPC_MSG_VERSION @
     be32 (tcb_prog (trm_call msg)) @ be32 (tcb_vers (trm_call msg)) @ be32 (tcb_proc (trm_call msg))"

definition tcallmsg_bytes :: "('s, 'w) trpc_msg \<Rightarrow> byte list" where
  "tcallmsg_bytes msg = tcallmsg_head msg @ auth_bytes (tcb_cred (trm_call msg)) @
     auth_bytes (tcb_verf (trm_call msg))"

definition call_ok :: "('s, 'w) trpc_msg \<Rightarrow> bool" where
  "call_ok msg \<longleftrightarrow> trm_direction msg = CALL \<and> tcb_rpcvers (trm_call msg) = RPC_MSG_VERSION \<and>
     valid_auth (tcb_cred (trm_call msg)) \<and> valid_auth (tcb_verf (trm_call msg))"

lemma valid_auth_le: "valid_auth oa \<Longrightarrow> unat (oa_length oa) \<le> 400"
  by (simp add: valid_auth_def MAX_AUTH_BYTES_def word_le_nat_alt)

lemma RNDUP_pad: "unat l \<le> 400 \<Longrightarrow> unat (RNDUP l) = unat l + pad (unat l)"
  by (rule unat_RNDUP) simp

section \<open>Encoding\<close>

context xdr_sink begin

lemma encodes_bytes_null:
  "encodes (xdr_bytes avail maxsize) (None, 0) (be32 0) (None, 0)"
proof (rule encodesI)
  fix xdrs n
  assume s: "sinks xdrs" and r: "room xdrs (length (be32 0) + n)"
  obtain x1 where "xdr_u_int xdrs 0 = Some (True, x1, 0)" "sent x1 = sent xdrs @ be32 0"
    "sinks x1" "room x1 n"
    by (rule encodesE [OF encodes_xdr_u_int s r])
  then show "\<exists>xdrs'. xdr_bytes avail maxsize xdrs (None, 0) = Some (True, xdrs', None, 0) \<and>
      sinks xdrs' \<and> sent xdrs' = sent xdrs @ be32 0 \<and> room xdrs' n"
    by (simp add: xdr_bytes_def)
qed

lemma encodes_auth_bytes:
  assumes "valid_auth oa"
  shows "encodes (xdr_bytes avail MAX_AUTH_BYTES) (oa_base oa, oa_length oa)
    (be32 (oa_length oa) @ padded (auth_body oa)) (oa_base oa, oa_length oa)"
proof (cases "oa_base oa")
  case None
  with assms have "oa_length oa = 0"
    by (simp add: valid_auth_def auth_body_def unat_eq_0 [symmetric])
  then show ?thesis
    using None encodes_bytes_null by (simp add: auth_body_def)
next
  case (Some b)
  with assms show ?thesis
    using encodes_xdr_bytes [of "oa_length oa" b MAX_AUTH_BYTES avail]
    by (simp add: valid_auth_def auth_body_def min_def split: if_splits)
qed

lemma encodes_opaque_auth [codec]:
  assumes "valid_auth oa"
  shows "encodes (xdr_opaque_auth avail) oa (auth_bytes oa) oa"
  unfolding xdr_opaque_auth_def auth_bytes_def
  by (rule encodes_eq, rule encodes_and_then, rule encodes_fld, rule encodes_xdr_enum,
      rule encodes_fld, simp, rule encodes_auth_bytes [OF assms]) simp_all

lemma encodes_tcallmsg_fields:
  assumes "call_ok msg"
  shows "encodes (xdr_callmsg_fields avail) msg (tcallmsg_bytes msg) msg"
  unfolding xdr_callmsg_fields_def
  by (rule encodes_eq, (rule codec | (use assms in \<open>simp add: call_ok_def\<close>; fail))+)
    (use assms in \<open>simp_all add: tcallmsg_bytes_def tcallmsg_head_def call_ok_def\<close>)

lemma encodes_tcallhdr:
  "encodes xdr_callhdr msg (be32 (trm_xid msg) @ be32 CALL @ be32 RPC_MSG_VERSION @
     be32 (tcb_prog (trm_call msg)) @ be32 (tcb_vers (trm_call msg)))
   (msg\<lparr>trm_direction := CALL, trm_call := (trm_call msg)\<lparr>tcb_rpcvers := RPC_MSG_VERSION\<rparr>\<rparr>)"
  (is "encodes _ _ ?bs ?c")
proof -
  let ?chain = "\<lambda>x c. and_then (and_then (and_then (and_then
      (fld trm_xid trm_xid_update xdr_u_int32_t x c)
      (fld trm_direction trm_direction_update xdr_enum))
      (trm_call_fld tcb_rpcvers tcb_rpcvers_update xdr_u_int32_t))
      (trm_call_fld tcb_prog tcb_prog_update xdr_u_int32_t))
      (trm_call_fld tcb_vers tcb_vers_update xdr_u_int32_t)"
  have chain: "encodes ?chain ?c ?bs ?c"
    by (rule encodes_eq, (rule codec)+) simp_all
  show ?thesis
  proof (rule encodesI)
    fix xdrs n
    assume s: "sinks xdrs" and r: "room xdrs (length ?bs + n)"
    then show "\<exists>xdrs'. xdr_callhdr xdrs msg = Some (True, xdrs', ?c) \<and> sinks xdrs' \<and>
        sent xdrs' = sent xdrs @ ?bs \<and> room xdrs' n"
      using encodesE [OF chain s r] by (simp add: xdr_callhdr_def check_def) blast
  qed
qed

end

text \<open>
  The in-line path stores the same bytes, except that it does not store the padding: what the
  buffer held there goes out.  With lengths that are multiples of 4 the two paths agree.
\<close>

lemma put_auth_stores:
  assumes "valid_auth oa" and "unat (oa_length oa) mod 4 = 0"
  shows "put_auth oa x buf = Some (x\<lparr>x_mem := wr (x_mem x) buf (auth_bytes oa)\<rparr>,
    buf + length (auth_bytes oa))"
proof -
  have p: "pad (unat (oa_length oa)) = 0" using assms(2) by (simp add: pad_def)
  have r: "unat (RNDUP (oa_length oa)) = unat (oa_length oa)"
    using RNDUP_pad [OF valid_auth_le [OF assms(1)]] p by simp
  have l: "length (auth_body oa) = unat (oa_length oa)"
    using assms(1) by (simp add: valid_auth_def)
  show ?thesis
  proof (cases "oa_length oa = 0")
    case True
    with l show ?thesis
      by (simp add: put_auth_def IXDR_PUT_INT32_wr wr_wr_append auth_bytes_def)
  next
    case False
    then have "unat (oa_length oa) \<noteq> 0" by (simp add: unat_eq_0)
    with l obtain b where b: "oa_base oa = Some b" "take (unat (oa_length oa)) b = auth_body oa"
      by (cases "oa_base oa") (auto simp: auth_body_def)
    with False l p r show ?thesis
      by (simp add: put_auth_def IXDR_PUT_INT32_wr wr_wr_append auth_bytes_def padded_def)
  qed
qed

lemma xdr_callmsg_put_stores:
  assumes ok: "call_ok msg"
    and mod4: "unat (oa_length (tcb_cred (trm_call msg))) mod 4 = 0"
      "unat (oa_length (tcb_verf (trm_call msg))) mod 4 = 0"
  shows "xdr_callmsg_put buf x msg =
    Some (True, x\<lparr>x_mem := wr (x_mem x) buf (tcallmsg_bytes msg)\<rparr>, msg)"
proof -
  have cred: "valid_auth (tcb_cred (trm_call msg))" and verf: "valid_auth (tcb_verf (trm_call msg))"
    and dir: "trm_direction msg = CALL" "tcb_rpcvers (trm_call msg) = RPC_MSG_VERSION"
    using ok by (simp_all add: call_ok_def)
  show ?thesis
    by (simp add: xdr_callmsg_put_def IXDR_PUT_INT32_wr wr_wr_append dir
        put_auth_stores [OF cred mod4(1)] put_auth_stores [OF verf mod4(2)]
        tcallmsg_bytes_def tcallmsg_head_def Let_def)
qed

lemma length_tcallmsg_bytes:
  assumes ok: "call_ok msg"
  shows "length (tcallmsg_bytes msg) = unat (8 * 4 + RNDUP (oa_length (tcb_cred (trm_call msg))) +
    2 * 4 + RNDUP (oa_length (tcb_verf (trm_call msg))))"
proof -
  let ?c = "oa_length (tcb_cred (trm_call msg))" and ?v = "oa_length (tcb_verf (trm_call msg))"
  have c: "unat ?c \<le> 400" and v: "unat ?v \<le> 400"
    and lc: "length (auth_body (tcb_cred (trm_call msg))) = unat ?c"
    and lv: "length (auth_body (tcb_verf (trm_call msg))) = unat ?v"
    using ok valid_auth_le by (auto simp: call_ok_def valid_auth_def)
  have rc: "unat (RNDUP ?c) \<le> 404" and rv: "unat (RNDUP ?v) \<le> 404"
    using RNDUP_pad [OF c] RNDUP_pad [OF v] c v pad_less [of "unat ?c"] pad_less [of "unat ?v"]
    by simp_all
  have "unat (8 * 4 + RNDUP ?c + 2 * 4 + RNDUP ?v) = 32 + unat (RNDUP ?c) + 8 + unat (RNDUP ?v)"
    using rc rv by (simp add: unat_word_ariths)
  then show ?thesis
    using lc lv RNDUP_pad [OF c] RNDUP_pad [OF v]
    by (simp add: tcallmsg_bytes_def tcallmsg_head_def auth_bytes_def padded_def)
qed

context xdr_inline_sink begin

lemma encodes_tcallmsg:
  assumes ok: "call_ok msg"
    and mod4: "unat (oa_length (tcb_cred (trm_call msg))) mod 4 = 0"
      "unat (oa_length (tcb_verf (trm_call msg))) mod 4 = 0"
  shows "encodes (xdr_callmsg avail) msg (tcallmsg_bytes msg) msg"
proof (rule encodesI)
  fix xdrs n
  assume s: "sinks xdrs" and r: "room xdrs (length (tcallmsg_bytes msg) + n)"
  let ?len = "8 * 4 + RNDUP (oa_length (tcb_cred (trm_call msg))) + 2 * 4 +
    RNDUP (oa_length (tcb_verf (trm_call msg)))"
  have l: "length (tcallmsg_bytes msg) = unat ?len"
    by (rule length_tcallmsg_bytes [OF ok])
  then have r': "room xdrs (unat ?len + n)" using r by (simp only:)
  have le: "\<not> oa_length (tcb_cred (trm_call msg)) > MAX_AUTH_BYTES"
    "\<not> oa_length (tcb_verf (trm_call msg)) > MAX_AUTH_BYTES"
    using ok by (simp_all add: call_ok_def valid_auth_def not_less)
  show "\<exists>xdrs'. xdr_callmsg avail xdrs msg = Some (True, xdrs', msg) \<and> sinks xdrs' \<and>
      sent xdrs' = sent xdrs @ tcallmsg_bytes msg \<and> room xdrs' n"
    using s r'
  proof (cases rule: XDR_INLINE_sink)
    case null
    have "xdr_callmsg avail xdrs msg = xdr_callmsg_fields avail xdrs msg"
      using s le null unfolding xdr_callmsg_def Let_def by (simp only: sinks_op xdr_op.case) simp
    then show ?thesis
      using encodesE [OF encodes_tcallmsg_fields [OF ok] s r] by metis
  next
    case (buffer buf x1)
    have "xdr_callmsg avail xdrs msg =
        Some (True, x1\<lparr>x_mem := wr (x_mem x1) buf (tcallmsg_bytes msg)\<rparr>, msg)"
      using s le buffer(1,2) xdr_callmsg_put_stores [OF ok mod4]
      unfolding xdr_callmsg_def Let_def by (simp only: sinks_op xdr_op.case) simp
    with buffer(3-5) [OF l] show ?thesis by blast
  qed
qed

end

section \<open>Decoding\<close>

text \<open>
  What decoding \<open>auth_bytes oa\<close> makes of the object \<open>oa0\<close>: its block, or a fresh one, has
  the body at its front.
\<close>

definition auth_block :: "(nat \<Rightarrow> bool) \<Rightarrow> opaque_auth \<Rightarrow> nat \<Rightarrow> byte list option" where
  "auth_block avail oa0 n = (case oa_base oa0 of None \<Rightarrow> mem_alloc avail n | Some b \<Rightarrow> Some b)"

definition auth_decoded :: "(nat \<Rightarrow> bool) \<Rightarrow> opaque_auth \<Rightarrow> opaque_auth \<Rightarrow> opaque_auth" where
  "auth_decoded avail oa0 oa = oa0\<lparr>oa_flavor := oa_flavor oa, oa_length := oa_length oa,
     oa_base := (if oa_length oa = 0 then oa_base oa0
                 else map_option (\<lambda>b. fill b (auth_body oa))
                        (auth_block avail oa0 (unat (oa_length oa))))\<rparr>"

definition auth_room :: "(nat \<Rightarrow> bool) \<Rightarrow> opaque_auth \<Rightarrow> opaque_auth \<Rightarrow> bool" where
  "auth_room avail oa0 oa \<longleftrightarrow>
     (oa_length oa = 0 \<or> (case auth_block avail oa0 (unat (oa_length oa)) of
        None \<Rightarrow> False | Some b \<Rightarrow> unat (oa_length oa) \<le> length b))"

definition msg_decoded :: "(nat \<Rightarrow> bool) \<Rightarrow> ('s, 'w) trpc_msg \<Rightarrow> ('s, 'w) trpc_msg \<Rightarrow> ('s, 'w) trpc_msg" where
  "msg_decoded avail msg0 msg = msg0\<lparr>trm_xid := trm_xid msg, trm_direction := CALL,
     trm_call := \<lparr>tcb_rpcvers = RPC_MSG_VERSION, tcb_prog = tcb_prog (trm_call msg),
       tcb_vers = tcb_vers (trm_call msg), tcb_proc = tcb_proc (trm_call msg),
       tcb_cred = auth_decoded avail (tcb_cred (trm_call msg0)) (tcb_cred (trm_call msg)),
       tcb_verf = auth_decoded avail (tcb_verf (trm_call msg0)) (tcb_verf (trm_call msg))\<rparr>\<rparr>"

definition msg_room :: "(nat \<Rightarrow> bool) \<Rightarrow> ('s, 'w) trpc_msg \<Rightarrow> ('s, 'w) trpc_msg \<Rightarrow> bool" where
  "msg_room avail msg0 msg \<longleftrightarrow>
     auth_room avail (tcb_cred (trm_call msg0)) (tcb_cred (trm_call msg)) \<and>
     auth_room avail (tcb_verf (trm_call msg0)) (tcb_verf (trm_call msg))"

context xdr_source begin

lemma decodes_bytes_zero:
  "decodes (xdr_bytes avail maxsize) (be32 0) (sp, n0) (sp, 0)"
proof (rule decodesI)
  fix xdrs rs
  assume s: "sources xdrs" and p: "pending xdrs = be32 0 @ rs"
  obtain x1 where "xdr_u_int xdrs n0 = Some (True, x1, 0)" "sources x1" "pending x1 = rs"
    by (rule decodesE [OF decodes_xdr_u_int s p])
  then show "\<exists>xdrs'. xdr_bytes avail maxsize xdrs (sp, n0) = Some (True, xdrs', sp, 0) \<and>
      sources xdrs' \<and> pending xdrs' = rs"
    by (simp add: xdr_bytes_def)
qed

lemma decodes_auth_bytes:
  assumes v: "valid_auth oa" and room: "auth_room avail oa0 oa"
  shows "decodes (xdr_bytes avail MAX_AUTH_BYTES) (be32 (oa_length oa) @ padded (auth_body oa))
    (oa_base oa0, n0) (oa_base (auth_decoded avail oa0 oa), oa_length oa)"
proof (cases "oa_length oa = 0")
  case True
  with v show ?thesis
    using decodes_bytes_zero by (simp add: valid_auth_def auth_decoded_def)
next
  case False
  have len: "length (auth_body oa) = unat (oa_length oa)" and max: "oa_length oa \<le> MAX_AUTH_BYTES"
    using v by (simp_all add: valid_auth_def)
  show ?thesis
  proof (cases "oa_base oa0")
    case None
    with False room have "avail (unat (oa_length oa))"
      by (simp add: auth_room_def auth_block_def mem_alloc_def split: if_splits)
    with None False show ?thesis
      using decodes_xdr_bytes_alloc [OF len max, where avail = avail and ?sz0.0 = n0] len
      by (simp add: auth_decoded_def auth_block_def mem_alloc_def)
  next
    case (Some b)
    with False room len have "length (auth_body oa) \<le> length b"
      by (simp add: auth_room_def auth_block_def)
    with False Some show ?thesis
      using decodes_xdr_bytes_block [OF len max, where avail = avail and ?sz0.0 = n0 and old = b]
      by (simp add: auth_decoded_def auth_block_def)
  qed
qed

lemma auth_decoded_fields:
  "oa0\<lparr>oa_flavor := oa_flavor oa, oa_base := oa_base (auth_decoded avail oa0 oa),
     oa_length := oa_length oa\<rparr> = auth_decoded avail oa0 oa"
  by (cases oa0) (simp add: auth_decoded_def)

lemma decodes_opaque_auth:
  assumes v: "valid_auth oa" and room: "auth_room avail oa0 oa"
  shows "decodes (xdr_opaque_auth avail) (auth_bytes oa) oa0 (auth_decoded avail oa0 oa)"
proof -
  let ?oa1 = "oa0\<lparr>oa_flavor := oa_flavor oa\<rparr>"
  have "auth_room avail ?oa1 oa" using room by (simp add: auth_room_def auth_block_def)
  note b = decodes_auth_bytes [OF v this, where ?n0.0 = "oa_length ?oa1"]
  have base: "oa_base (auth_decoded avail ?oa1 oa) = oa_base (auth_decoded avail oa0 oa)"
    by (simp add: auth_decoded_def auth_block_def)
  show ?thesis
    unfolding xdr_opaque_auth_def auth_bytes_def
    by (rule decodes_eq, rule decodes_and_then, rule decodes_fld, rule decodes_xdr_enum,
        rule decodes_fld, rule b)
      (simp_all add: base auth_decoded_fields)
qed

lemma decodes_tcallmsg_fields:
  assumes "call_ok msg" and "msg_room avail msg0 msg"
  shows "decodes (xdr_callmsg_fields avail) (tcallmsg_bytes msg) msg0 (msg_decoded avail msg0 msg)"
proof -
  have v: "valid_auth (tcb_cred (trm_call msg))" "valid_auth (tcb_verf (trm_call msg))"
    and r: "auth_room avail (tcb_cred (trm_call msg0)) (tcb_cred (trm_call msg))"
      "auth_room avail (tcb_verf (trm_call msg0)) (tcb_verf (trm_call msg))"
    using assms by (simp_all add: call_ok_def msg_room_def)
  show ?thesis
    unfolding xdr_callmsg_fields_def
    by (rule decodes_eq, (rule decodes_and_then decodes_fld decodes_xdr_enum
          decodes_xdr_u_int32_t decodes_check)+, simp,
        (rule decodes_fld decodes_xdr_u_int32_t decodes_check)+, simp,
        (rule decodes_fld decodes_xdr_u_int32_t)+,
        rule decodes_opaque_auth [OF v(1)], simp add: r,
        rule decodes_fld, rule decodes_opaque_auth [OF v(2)], simp add: r)
      (cases msg0; cases "trm_call msg0"; simp add: msg_decoded_def tcallmsg_bytes_def tcallmsg_head_def)+
qed

end

text \<open>The in-line path decodes the same bytes to the same message.\<close>

context xdr_inline_source begin

lemma decodes_get_auth_body:
  assumes v: "valid_auth oa" and oa1: "oa_flavor oa1 = oa_flavor oa" "oa_length oa1 = oa_length oa"
    and room: "auth_room avail oa1 oa"
  shows "decodes (get_auth_body avail) (padded (auth_body oa)) oa1 (auth_decoded avail oa1 oa)"
proof (rule decodesI)
  fix xdrs rs
  assume s: "sources xdrs" and p: "pending xdrs = padded (auth_body oa) @ rs"
  have len: "length (auth_body oa) = unat (oa_length oa)" and max: "oa_length oa \<le> MAX_AUTH_BYTES"
    using v by (simp_all add: valid_auth_def)
  show "\<exists>xdrs'. get_auth_body avail xdrs oa1 = Some (True, xdrs', auth_decoded avail oa1 oa) \<and>
      sources xdrs' \<and> pending xdrs' = rs"
  proof (cases "oa_length oa = 0")
    case True
    have "auth_decoded avail oa1 oa = oa1"
      using True oa1 by (cases oa1) (simp add: auth_decoded_def)
    with True oa1 s p len show ?thesis
      by (simp add: get_auth_body_def)
  next
    case False
    then obtain base where base: "auth_block avail oa1 (unat (oa_length oa)) = Some base"
      and blk: "length (auth_body oa) \<le> length base"
      using room len by (auto simp: auth_room_def split: option.splits)
    have dec: "oa1\<lparr>oa_base := Some (fill base (auth_body oa))\<rparr> = auth_decoded avail oa1 oa"
      using False base oa1 by (cases oa1) (simp add: auth_decoded_def)
    have l: "length (padded (auth_body oa)) = unat (RNDUP (oa_length oa))"
      using RNDUP_pad [OF valid_auth_le [OF v]] len by (simp add: padded_def)
    have unf: "get_auth_body avail xdrs oa1 = do {
        (buf, xdrs) \<leftarrow> XDR_INLINE xdrs (RNDUP (oa_length oa1));
        if buf = 0 then do {
          (ok, xdrs, base) \<leftarrow> xdr_opaque (oa_length oa1) xdrs base;
          Some (ok, xdrs, oa1\<lparr>oa_base := Some base\<rparr>) }
        else if length base < unat (oa_length oa1) then None
        else Some (True, xdrs,
          oa1\<lparr>oa_base := Some (fill base (rd (x_mem xdrs) buf (unat (oa_length oa1))))\<rparr>) }"
      using False max base oa1
      unfolding get_auth_body_def oa1(2) [symmetric]
      by (cases "oa_base oa1") (simp_all add: auth_block_def not_less [symmetric])
    show ?thesis
      using s p l
    proof (cases rule: XDR_INLINE_source)
      case null
      obtain x2 where "xdr_opaque (oa_length oa) xdrs base =
          Some (True, x2, fill base (auth_body oa))" "sources x2" "pending x2 = rs"
        by (rule decodesE [OF decodes_xdr_opaque [OF len blk] s p])
      with null show ?thesis by (simp add: unf dec oa1)
    next
      case (buffer buf x1)
      have "rd (x_mem x1) buf (unat (oa_length oa)) = auth_body oa"
        using rd_split(1) [of "x_mem x1" buf "length (padded (auth_body oa))" "auth_body oa"]
          buffer(3) len by (simp add: padded_def)
      with buffer blk len show ?thesis by (simp add: unf dec oa1)
    qed
  qed
qed

lemma decodes_get_verf_head:
  "decodes get_verf_head (be32 f @ be32 l) oa (oa\<lparr>oa_flavor := f, oa_length := l\<rparr>)"
proof (rule decodesI)
  fix xdrs rs
  assume s: "sources xdrs" and p: "pending xdrs = (be32 f @ be32 l) @ rs"
  have len: "length (be32 f @ be32 l) = unat (2 * 4 :: 32 word)" by simp
  show "\<exists>xdrs'. get_verf_head xdrs oa = Some (True, xdrs', oa\<lparr>oa_flavor := f, oa_length := l\<rparr>) \<and>
      sources xdrs' \<and> pending xdrs' = rs"
    using s p len
  proof (cases rule: XDR_INLINE_source)
    case null
    have d: "decodes (\<lambda>x v. and_then (fld oa_flavor oa_flavor_update xdr_enum x v)
        (fld oa_length oa_length_update xdr_u_int)) (be32 f @ be32 l) oa
        (oa\<lparr>oa_flavor := f, oa_length := l\<rparr>)"
      by (rule decodes_eq, (rule codec)+) simp_all
    obtain x1 where "and_then (fld oa_flavor oa_flavor_update xdr_enum xdrs oa)
        (fld oa_length oa_length_update xdr_u_int) =
        Some (True, x1, oa\<lparr>oa_flavor := f, oa_length := l\<rparr>)" "sources x1" "pending x1 = rs"
      by (rule decodesE [OF d s p])
    with null show ?thesis by (simp add: get_verf_head_def)
  next
    case (buffer buf x1)
    have 1: "rd (x_mem x1) buf 8 = be32 f @ be32 l @ []" using buffer(3) by simp
    note g1 = IXDR_GET_INT32_step [OF 1]
    note g2 = IXDR_GET_INT32_step [OF g1(2)]
    from buffer show ?thesis by (simp add: get_verf_head_def g1(1) g2(1))
  qed
qed

lemma decodes_xdr_callmsg_rest:
  assumes ok: "call_ok msg" and room: "msg_room avail msg0 msg"
    and m1: "m1 = msg0\<lparr>trm_xid := trm_xid msg, trm_direction := CALL, trm_call :=
      \<lparr>tcb_rpcvers = RPC_MSG_VERSION, tcb_prog = tcb_prog (trm_call msg),
       tcb_vers = tcb_vers (trm_call msg), tcb_proc = tcb_proc (trm_call msg),
       tcb_cred = (tcb_cred (trm_call msg0))\<lparr>oa_flavor := oa_flavor (tcb_cred (trm_call msg)),
         oa_length := oa_length (tcb_cred (trm_call msg))\<rparr>,
       tcb_verf = tcb_verf (trm_call msg0)\<rparr>\<rparr>"
  shows "decodes (xdr_callmsg_rest avail)
    (padded (auth_body (tcb_cred (trm_call msg))) @ auth_bytes (tcb_verf (trm_call msg)))
    m1 (msg_decoded avail msg0 msg)"
proof -
  let ?cred = "tcb_cred (trm_call msg)" and ?verf = "tcb_verf (trm_call msg)"
  let ?cred1 = "(tcb_cred (trm_call msg0))\<lparr>oa_flavor := oa_flavor ?cred, oa_length := oa_length ?cred\<rparr>"
  let ?verf1 = "(tcb_verf (trm_call msg0))\<lparr>oa_flavor := oa_flavor ?verf, oa_length := oa_length ?verf\<rparr>"
  have v: "valid_auth ?cred" "valid_auth ?verf"
    using ok by (simp_all add: call_ok_def)
  have r: "auth_room avail ?cred1 ?cred" "auth_room avail ?verf1 ?verf"
    using room by (simp_all add: msg_room_def auth_room_def auth_block_def)
  have d: "auth_decoded avail ?cred1 ?cred = auth_decoded avail (tcb_cred (trm_call msg0)) ?cred"
    "auth_decoded avail ?verf1 ?verf = auth_decoded avail (tcb_verf (trm_call msg0)) ?verf"
    by (simp_all add: auth_decoded_def auth_block_def)
  have c: "decodes (get_auth_body avail) (padded (auth_body ?cred)) ?cred1
      (auth_decoded avail (tcb_cred (trm_call msg0)) ?cred)"
    using decodes_get_auth_body [OF v(1) _ _ r(1)] d by simp
  have b: "decodes (get_auth_body avail) (padded (auth_body ?verf)) ?verf1
      (auth_decoded avail (tcb_verf (trm_call msg0)) ?verf)"
    using decodes_get_auth_body [OF v(2) _ _ r(2)] d by simp
  show ?thesis
    unfolding xdr_callmsg_rest_def auth_bytes_def
    by (rule decodes_eq, rule decodes_and_then, rule decodes_and_then, rule decodes_fld,
        rule decodes_from, rule c, simp add: m1, rule decodes_fld,
        rule decodes_get_verf_head, rule decodes_fld, rule decodes_from, rule b, simp add: m1)
      (simp_all add: m1 msg_decoded_def)
qed

lemma decodes_tcallmsg:
  assumes ok: "call_ok msg" and room: "msg_room avail msg0 msg"
  shows "decodes (xdr_callmsg avail) (tcallmsg_bytes msg) msg0 (msg_decoded avail msg0 msg)"
proof (rule decodesI)
  fix xdrs rs
  assume s: "sources xdrs" and p: "pending xdrs = tcallmsg_bytes msg @ rs"
  let ?cred = "tcb_cred (trm_call msg)" and ?verf = "tcb_verf (trm_call msg)"
  let ?head = "tcallmsg_head msg @ be32 (oa_flavor ?cred) @ be32 (oa_length ?cred)"
  have p': "pending xdrs = ?head @ ((padded (auth_body ?cred) @ auth_bytes ?verf) @ rs)"
    using p by (simp add: tcallmsg_bytes_def auth_bytes_def)
  have l: "length ?head = unat (8 * 4 :: 32 word)" by (simp add: tcallmsg_head_def)
  show "\<exists>xdrs'. xdr_callmsg avail xdrs msg0 = Some (True, xdrs', msg_decoded avail msg0 msg) \<and>
      sources xdrs' \<and> pending xdrs' = rs"
    using s p' l
  proof (cases rule: XDR_INLINE_source)
    case null
    obtain x1 where "xdr_callmsg_fields avail xdrs msg0 = Some (True, x1, msg_decoded avail msg0 msg)"
      "sources x1" "pending x1 = rs"
      by (rule decodesE [OF decodes_tcallmsg_fields [OF ok room] s p])
    with null s show ?thesis by (simp add: xdr_callmsg_def)
  next
    case (buffer buf x1)
    have 1: "rd (x_mem x1) buf 32 = be32 (trm_xid msg) @ be32 CALL @ be32 RPC_MSG_VERSION @
        be32 (tcb_prog (trm_call msg)) @ be32 (tcb_vers (trm_call msg)) @
        be32 (tcb_proc (trm_call msg)) @ be32 (oa_flavor ?cred) @ be32 (oa_length ?cred) @ []"
      using buffer(3) by (simp add: tcallmsg_head_def)
    note g1 = IXDR_GET_INT32_step [OF 1]
    note g2 = IXDR_GET_INT32_step [OF g1(2)]
    note g3 = IXDR_GET_INT32_step [OF g2(2)]
    note g4 = IXDR_GET_INT32_step [OF g3(2)]
    note g5 = IXDR_GET_INT32_step [OF g4(2)]
    note g6 = IXDR_GET_INT32_step [OF g5(2)]
    note g7 = IXDR_GET_INT32_step [OF g6(2)]
    note g8 = IXDR_GET_INT32_step [OF g7(2)]
    let ?m1 = "msg0\<lparr>trm_xid := trm_xid msg, trm_direction := CALL, trm_call :=
      \<lparr>tcb_rpcvers = RPC_MSG_VERSION, tcb_prog = tcb_prog (trm_call msg),
       tcb_vers = tcb_vers (trm_call msg), tcb_proc = tcb_proc (trm_call msg),
       tcb_cred = (tcb_cred (trm_call msg0))\<lparr>oa_flavor := oa_flavor ?cred,
         oa_length := oa_length ?cred\<rparr>,
       tcb_verf = tcb_verf (trm_call msg0)\<rparr>\<rparr>"
    have "xdr_callmsg_get avail buf x1 msg0 = xdr_callmsg_rest avail x1 ?m1"
      unfolding xdr_callmsg_get_def g1(1) prod.case Let_def g2(1) g3(1) g4(1) g5(1) g6(1) g7(1) g8(1)
      by (cases msg0; cases "trm_call msg0") simp
    moreover obtain x2 where "xdr_callmsg_rest avail x1 ?m1 =
        Some (True, x2, msg_decoded avail msg0 msg)" "sources x2" "pending x2 = rs"
      by (rule decodesE [OF decodes_xdr_callmsg_rest [OF ok room refl] buffer(4,5)])
    ultimately show ?thesis using s buffer(1,2) by (simp add: xdr_callmsg_def)
  qed
qed

end

section \<open>Replies on a stream\<close>

text \<open>\<open>bs\<close> stands for the encoded results of a call that succeeded.\<close>

definition accepted_bytes :: "('s, 'w) taccepted_reply \<Rightarrow> byte list \<Rightarrow> byte list" where
  "accepted_bytes ar bs = auth_bytes (tar_verf ar) @ be32 (tar_stat ar) @
     (if tar_stat ar = SUCCESS then bs
      else if tar_stat ar = PROG_MISMATCH then be32 (tar_low ar) @ be32 (tar_high ar) else [])"

definition rejected_bytes :: "trejected_reply \<Rightarrow> byte list" where
  "rejected_bytes rr = be32 (trj_stat rr) @
     (if trj_stat rr = RPC_MISMATCH then be32 (trj_low rr) @ be32 (trj_high rr)
      else be32 (trj_why rr))"

definition treply_bytes :: "('s, 'w) trpc_msg \<Rightarrow> byte list \<Rightarrow> byte list" where
  "treply_bytes msg bs = be32 (trm_xid msg) @ be32 REPLY @ be32 (trp_stat (trm_reply msg)) @
     (if trp_stat (trm_reply msg) = MSG_ACCEPTED then accepted_bytes (trp_acpt (trm_reply msg)) bs
      else rejected_bytes (trp_rjct (trm_reply msg)))"

definition treply_ok :: "('s, 'w) trpc_msg \<Rightarrow> bool" where
  "treply_ok msg \<longleftrightarrow> trm_direction msg = REPLY \<and>
     (if trp_stat (trm_reply msg) = MSG_ACCEPTED
      then valid_auth (tar_verf (trp_acpt (trm_reply msg)))
      else trp_stat (trm_reply msg) = MSG_DENIED \<and>
        trj_stat (trp_rjct (trm_reply msg)) \<in> {RPC_MISMATCH, AUTH_ERROR})"

definition accepted_succeeded :: "('s, 'w) trpc_msg \<Rightarrow> bool" where
  "accepted_succeeded msg \<longleftrightarrow> trp_stat (trm_reply msg) = MSG_ACCEPTED \<and>
     tar_stat (trp_acpt (trm_reply msg)) = SUCCESS"

context xdr_sink begin

lemma encodes_accepted_reply:
  assumes v: "valid_auth (tar_verf ar)"
    and res: "tar_stat ar = SUCCESS \<Longrightarrow> \<exists>proc. tar_proc ar = Some proc \<and>
      encodes proc (tar_where ar) bs (tar_where ar)"
  shows "encodes (xdr_accepted_reply avail) ar (accepted_bytes ar bs) ar"
proof -
  let ?arm = "\<lambda>xdrs ar. if tar_stat ar = SUCCESS then
         (case tar_proc ar of
            None \<Rightarrow> None
          | Some proc \<Rightarrow> fld tar_where tar_where_update proc xdrs ar)
       else if tar_stat ar = PROG_MISMATCH then
         and_then (fld tar_low tar_low_update xdr_u_int32_t xdrs ar)
           (fld tar_high tar_high_update xdr_u_int32_t)
       else Some (True, xdrs, ar)"
  let ?bs = "if tar_stat ar = SUCCESS then bs
      else if tar_stat ar = PROG_MISMATCH then be32 (tar_low ar) @ be32 (tar_high ar) else []"
  have vers: "encodes (\<lambda>x v. and_then (fld tar_low tar_low_update xdr_u_int32_t x v)
      (fld tar_high tar_high_update xdr_u_int32_t)) ar (be32 (tar_low ar) @ be32 (tar_high ar)) ar"
    by (rule encodes_eq, (rule codec)+) simp_all
  have success: "encodes (\<lambda>xdrs ar. case tar_proc ar of None \<Rightarrow> None
      | Some proc \<Rightarrow> fld tar_where tar_where_update proc xdrs ar) ar bs ar" if stat: "tar_stat ar = SUCCESS"
  proof -
    obtain proc where p: "tar_proc ar = Some proc" "encodes proc (tar_where ar) bs (tar_where ar)"
      using res [OF stat] by blast
    have "encodes (fld tar_where tar_where_update proc) ar bs ar"
      using encodes_fld [of proc tar_where ar bs _ tar_where_update, OF p(2)] by simp
    then show ?thesis by (rule encodes_cong) (simp add: p)
  qed
  have arm: "encodes ?arm ar ?bs ar"
    by (rule encodes_if; (rule encodes_if)?)
      (simp_all add: success vers encodes_skip)
  have "encodes (\<lambda>xdrs ar. and_then (and_then
       (fld tar_verf tar_verf_update (xdr_opaque_auth avail) xdrs ar)
       (fld tar_stat tar_stat_update xdr_enum)) ?arm) ar (accepted_bytes ar bs) ar"
    unfolding accepted_bytes_def
    by (rule encodes_eq, rule encodes_and_then, rule encodes_and_then,
        rule encodes_fld, rule encodes_opaque_auth [OF v], rule encodes_fld, rule encodes_xdr_enum,
        simp, rule arm) simp_all
  then show ?thesis by (simp only: xdr_accepted_reply_def [abs_def])
qed

lemma encodes_rejected_reply:
  assumes "trj_stat rr \<in> {RPC_MISMATCH, AUTH_ERROR}"
  shows "encodes xdr_rejected_reply rr (rejected_bytes rr) rr"
proof -
  let ?arm = "\<lambda>xdrs rr. if trj_stat rr = RPC_MISMATCH then
         and_then (fld trj_low trj_low_update xdr_u_int32_t xdrs rr)
           (fld trj_high trj_high_update xdr_u_int32_t)
       else if trj_stat rr = AUTH_ERROR then fld trj_why trj_why_update xdr_enum xdrs rr
       else Some (False, xdrs, rr)"
  have vers: "encodes (\<lambda>x v. and_then (fld trj_low trj_low_update xdr_u_int32_t x v)
      (fld trj_high trj_high_update xdr_u_int32_t)) rr (be32 (trj_low rr) @ be32 (trj_high rr)) rr"
    by (rule encodes_eq, (rule codec)+) simp_all
  have why: "encodes (fld trj_why trj_why_update xdr_enum) rr (be32 (trj_why rr)) rr"
    by (rule encodes_eq, (rule codec)+) simp_all
  have arm: "encodes ?arm rr (if trj_stat rr = RPC_MISMATCH then be32 (trj_low rr) @ be32 (trj_high rr)
      else be32 (trj_why rr)) rr"
    by (rule encodes_if; (rule encodes_if)?) (use assms in \<open>auto simp: vers why\<close>)
  have "encodes (\<lambda>xdrs rr. and_then (fld trj_stat trj_stat_update xdr_enum xdrs rr) ?arm) rr
      (rejected_bytes rr) rr"
    unfolding rejected_bytes_def
    by (rule encodes_and_then [OF _ arm])
      (rule encodes_eq, rule encodes_fld, rule encodes_xdr_enum, simp_all)
  then show ?thesis by (simp only: xdr_rejected_reply_def [abs_def])
qed

lemma encodes_reply_body:
  assumes ok: "if trp_stat r = MSG_ACCEPTED then encodes (xdr_accepted_reply avail) (trp_acpt r) bs (trp_acpt r)
      else trp_stat r = MSG_DENIED \<and> encodes xdr_rejected_reply (trp_rjct r) bs (trp_rjct r)"
  shows "encodes (xdr_reply_body avail) r (be32 (trp_stat r) @ bs) r"
proof (rule encodesI)
  fix xdrs n
  assume s: "sinks xdrs" and "room xdrs (length (be32 (trp_stat r) @ bs) + n)"
  then have r: "room xdrs (length (be32 (trp_stat r)) + (length bs + n))" by (simp add: add.assoc)
  obtain x1 where 1: "xdr_enum xdrs (trp_stat r) = Some (True, x1, trp_stat r)"
    "sent x1 = sent xdrs @ be32 (trp_stat r)" and s1: "sinks x1" and r1: "room x1 (length bs + n)"
    by (rule encodesE [OF encodes_xdr_enum s r])
  show "\<exists>xdrs'. xdr_reply_body avail xdrs r = Some (True, xdrs', r) \<and> sinks xdrs' \<and>
      sent xdrs' = sent xdrs @ be32 (trp_stat r) @ bs \<and> room xdrs' n"
  proof (cases "trp_stat r = MSG_ACCEPTED")
    case True
    with ok obtain x2 where "xdr_accepted_reply avail x1 (trp_acpt r) = Some (True, x2, trp_acpt r)"
      "sinks x2" "sent x2 = sent x1 @ bs" "room x2 n"
      using encodesE [OF _ s1 r1, of "xdr_accepted_reply avail" "trp_acpt r" "trp_acpt r"] by auto
    with 1 True show ?thesis
      by (simp add: xdr_reply_body_def xdr_union_def xdr_reply_dscrm_def fld_def)
  next
    case False
    with ok obtain x2 where "xdr_rejected_reply x1 (trp_rjct r) = Some (True, x2, trp_rjct r)"
      "sinks x2" "sent x2 = sent x1 @ bs" "room x2 n"
      using encodesE [OF _ s1 r1, of xdr_rejected_reply "trp_rjct r" "trp_rjct r"] by auto
    with 1 False ok show ?thesis
      by (simp add: xdr_reply_body_def xdr_union_def xdr_reply_dscrm_def fld_def MSG_ACCEPTED_def MSG_DENIED_def)
  qed
qed

lemma encodes_treplymsg:
  assumes ok: "treply_ok msg"
    and res: "accepted_succeeded msg \<Longrightarrow> \<exists>proc. tar_proc (trp_acpt (trm_reply msg)) = Some proc \<and>
      encodes proc (tar_where (trp_acpt (trm_reply msg))) bs (tar_where (trp_acpt (trm_reply msg)))"
  shows "encodes (xdr_replymsg avail) msg (treply_bytes msg bs) msg"
proof -
  let ?r = "trm_reply msg"
  let ?bs = "if trp_stat ?r = MSG_ACCEPTED then accepted_bytes (trp_acpt ?r) bs
    else rejected_bytes (trp_rjct ?r)"
  have body: "encodes (xdr_reply_body avail) ?r (be32 (trp_stat ?r) @ ?bs) ?r"
    by (rule encodes_reply_body)
      (use ok res in \<open>auto simp: treply_ok_def accepted_succeeded_def split: if_splits
         intro!: encodes_accepted_reply encodes_rejected_reply\<close>)
  show ?thesis
    unfolding xdr_replymsg_def treply_bytes_def
    by (rule encodes_eq, rule encodes_and_then, rule encodes_and_then, rule encodes_and_then,
        rule encodes_fld, rule encodes_xdr_u_int32_t, rule encodes_fld, rule encodes_xdr_enum,
        rule encodes_check, use ok in \<open>simp add: treply_ok_def\<close>, rule encodes_fld,
        simp, rule body)
      (use ok in \<open>simp_all add: treply_ok_def\<close>)
qed

end

text \<open>What decoding a reply makes of the client's message; \<open>w\<close> is the decoded result.\<close>

definition accepted_decoded ::
    "(nat \<Rightarrow> bool) \<Rightarrow> ('s, 'w) taccepted_reply \<Rightarrow> ('t, 'v) taccepted_reply \<Rightarrow> 'w \<Rightarrow>
     ('s, 'w) taccepted_reply" where
  "accepted_decoded avail ar0 ar w =
    (let ar1 = ar0\<lparr>tar_verf := auth_decoded avail (tar_verf ar0) (tar_verf ar),
                    tar_stat := tar_stat ar\<rparr>
     in if tar_stat ar = SUCCESS then ar1\<lparr>tar_where := w\<rparr>
        else if tar_stat ar = PROG_MISMATCH then ar1\<lparr>tar_low := tar_low ar, tar_high := tar_high ar\<rparr>
        else ar1)"

definition rejected_decoded :: "trejected_reply \<Rightarrow> trejected_reply \<Rightarrow> trejected_reply" where
  "rejected_decoded rr0 rr =
    (let rr1 = rr0\<lparr>trj_stat := trj_stat rr\<rparr>
     in if trj_stat rr = RPC_MISMATCH then rr1\<lparr>trj_low := trj_low rr, trj_high := trj_high rr\<rparr>
        else rr1\<lparr>trj_why := trj_why rr\<rparr>)"

definition reply_decoded ::
    "(nat \<Rightarrow> bool) \<Rightarrow> ('s, 'w) trpc_msg \<Rightarrow> ('t, 'v) trpc_msg \<Rightarrow> 'w \<Rightarrow> ('s, 'w) trpc_msg" where
  "reply_decoded avail msg0 msg w =
    (let r0 = trm_reply msg0; r = trm_reply msg; r1 = r0\<lparr>trp_stat := trp_stat r\<rparr>
     in msg0\<lparr>trm_xid := trm_xid msg, trm_direction := REPLY, trm_reply :=
          (if trp_stat r = MSG_ACCEPTED
           then r1\<lparr>trp_acpt := accepted_decoded avail (trp_acpt r0) (trp_acpt r) w\<rparr>
           else r1\<lparr>trp_rjct := rejected_decoded (trp_rjct r0) (trp_rjct r)\<rparr>)\<rparr>)"

text \<open>The client draws from the decoded reply the error the server's reply states.\<close>

lemma seterr_reply_decoded:
  "treply_ok msg \<Longrightarrow> seterr_reply (reply_decoded avail msg0 msg w) error = seterr_reply msg error"
  by (auto simp: seterr_reply_def seterr_details_def reply_decoded_def accepted_decoded_def
      rejected_decoded_def treply_ok_def accepted_def rejected_def Let_def msg_enums
      split: clnt_stat.splits)

context xdr_source begin

lemma decodes_accepted_reply:
  fixes ar :: "('t, 'v) taccepted_reply"
  assumes v: "valid_auth (tar_verf ar)" and room: "auth_room avail (tar_verf ar0) (tar_verf ar)"
    and res: "tar_stat ar = SUCCESS \<Longrightarrow> \<exists>proc. tar_proc ar0 = Some proc \<and>
      decodes proc bs (tar_where ar0) w"
  shows "decodes (xdr_accepted_reply avail) (accepted_bytes ar bs) ar0 (accepted_decoded avail ar0 ar w)"
proof -
  let ?arm = "\<lambda>xdrs ar. if tar_stat ar = SUCCESS then
         (case tar_proc ar of
            None \<Rightarrow> None
          | Some proc \<Rightarrow> fld tar_where tar_where_update proc xdrs ar)
       else if tar_stat ar = PROG_MISMATCH then
         and_then (fld tar_low tar_low_update xdr_u_int32_t xdrs ar)
           (fld tar_high tar_high_update xdr_u_int32_t)
       else Some (True, xdrs, ar)"
  let ?bs = "if tar_stat ar = SUCCESS then bs
      else if tar_stat ar = PROG_MISMATCH then be32 (tar_low ar) @ be32 (tar_high ar) else []"
  let ?ar1 = "ar0\<lparr>tar_verf := auth_decoded avail (tar_verf ar0) (tar_verf ar), tar_stat := tar_stat ar\<rparr>"
  have vers: "decodes (\<lambda>x v. and_then (fld tar_low tar_low_update xdr_u_int32_t x v)
      (fld tar_high tar_high_update xdr_u_int32_t)) (be32 (tar_low ar) @ be32 (tar_high ar)) ?ar1
      (?ar1\<lparr>tar_low := tar_low ar, tar_high := tar_high ar\<rparr>)"
    by (rule decodes_eq, (rule codec)+) simp_all
  have success: "decodes (\<lambda>xdrs ar. case tar_proc ar of None \<Rightarrow> None
      | Some proc \<Rightarrow> fld tar_where tar_where_update proc xdrs ar) bs ?ar1 (?ar1\<lparr>tar_where := w\<rparr>)"
    if stat: "tar_stat ar = SUCCESS"
  proof -
    obtain proc where p: "tar_proc ar0 = Some proc" "decodes proc bs (tar_where ?ar1) w"
      using res [OF stat] by auto
    have "decodes (fld tar_where tar_where_update proc) bs ?ar1 (?ar1\<lparr>tar_where := w\<rparr>)"
      using decodes_fld [of proc bs tar_where ?ar1 w tar_where_update, OF p(2)] by simp
    then show ?thesis by (rule decodes_cong) (simp add: p)
  qed
  have arm: "decodes ?arm ?bs ?ar1 (accepted_decoded avail ar0 ar w)"
    by (rule decodes_if; (rule decodes_if)?)
      (use success vers in \<open>auto simp: accepted_decoded_def decodes_skip\<close>)
  have "decodes (\<lambda>xdrs ar. and_then (and_then
       (fld tar_verf tar_verf_update (xdr_opaque_auth avail) xdrs ar)
       (fld tar_stat tar_stat_update xdr_enum)) ?arm) (accepted_bytes ar bs) ar0
       (accepted_decoded avail ar0 ar w)"
    unfolding accepted_bytes_def
    by (rule decodes_eq, rule decodes_and_then, rule decodes_and_then,
        rule decodes_fld, rule decodes_opaque_auth [OF v room], rule decodes_fld, rule decodes_xdr_enum,
        rule decodes_from, rule arm) simp_all
  then show ?thesis by (simp only: xdr_accepted_reply_def [abs_def])
qed

lemma decodes_rejected_reply:
  assumes "trj_stat rr \<in> {RPC_MISMATCH, AUTH_ERROR}"
  shows "decodes xdr_rejected_reply (rejected_bytes rr) rr0 (rejected_decoded rr0 rr)"
proof -
  let ?arm = "\<lambda>xdrs rr. if trj_stat rr = RPC_MISMATCH then
         and_then (fld trj_low trj_low_update xdr_u_int32_t xdrs rr)
           (fld trj_high trj_high_update xdr_u_int32_t)
       else if trj_stat rr = AUTH_ERROR then fld trj_why trj_why_update xdr_enum xdrs rr
       else Some (False, xdrs, rr)"
  let ?rr1 = "rr0\<lparr>trj_stat := trj_stat rr\<rparr>"
  have vers: "decodes (\<lambda>x v. and_then (fld trj_low trj_low_update xdr_u_int32_t x v)
      (fld trj_high trj_high_update xdr_u_int32_t)) (be32 (trj_low rr) @ be32 (trj_high rr)) ?rr1
      (?rr1\<lparr>trj_low := trj_low rr, trj_high := trj_high rr\<rparr>)"
    by (rule decodes_eq, (rule codec)+) simp_all
  have why: "decodes (fld trj_why trj_why_update xdr_enum) (be32 (trj_why rr)) ?rr1
      (?rr1\<lparr>trj_why := trj_why rr\<rparr>)"
    by (rule decodes_eq, (rule codec)+) simp_all
  have arm: "decodes ?arm (if trj_stat rr = RPC_MISMATCH then be32 (trj_low rr) @ be32 (trj_high rr)
      else be32 (trj_why rr)) ?rr1 (rejected_decoded rr0 rr)"
    by (rule decodes_if; (rule decodes_if)?) (use assms vers why in \<open>auto simp: rejected_decoded_def\<close>)
  have "decodes (\<lambda>xdrs rr. and_then (fld trj_stat trj_stat_update xdr_enum xdrs rr) ?arm)
      (rejected_bytes rr) rr0 (rejected_decoded rr0 rr)"
    unfolding rejected_bytes_def
    by (rule decodes_and_then [OF _ arm])
      (rule decodes_eq, rule decodes_fld, rule decodes_xdr_enum, simp_all)
  then show ?thesis by (simp only: xdr_rejected_reply_def [abs_def])
qed

lemma decodes_accepted_body:
  assumes a: "decodes (xdr_accepted_reply avail) bs (trp_acpt r) ar"
  shows "decodes (xdr_reply_body avail) (be32 MSG_ACCEPTED @ bs) r
    (r\<lparr>trp_stat := MSG_ACCEPTED, trp_acpt := ar\<rparr>)"
proof (rule decodesI)
  fix xdrs rs
  assume s: "sources xdrs" and "pending xdrs = (be32 MSG_ACCEPTED @ bs) @ rs"
  then have p: "pending xdrs = be32 MSG_ACCEPTED @ (bs @ rs)" by simp
  obtain x1 where 1: "xdr_enum xdrs (trp_stat r) = Some (True, x1, MSG_ACCEPTED)"
    and s1: "sources x1" and p1: "pending x1 = bs @ rs"
    by (rule decodesE [OF decodes_xdr_enum s p])
  obtain x2 where "xdr_accepted_reply avail x1 (trp_acpt r) = Some (True, x2, ar)" "sources x2"
    "pending x2 = rs"
    by (rule decodesE [OF a s1 p1])
  with 1 show "\<exists>xdrs'. xdr_reply_body avail xdrs r =
      Some (True, xdrs', r\<lparr>trp_stat := MSG_ACCEPTED, trp_acpt := ar\<rparr>) \<and> sources xdrs' \<and> pending xdrs' = rs"
    by (cases r) (simp add: xdr_reply_body_def xdr_union_def xdr_reply_dscrm_def fld_def)
qed

lemma decodes_denied_body:
  assumes a: "decodes xdr_rejected_reply bs (trp_rjct r) rr"
  shows "decodes (xdr_reply_body avail) (be32 MSG_DENIED @ bs) r
    (r\<lparr>trp_stat := MSG_DENIED, trp_rjct := rr\<rparr>)"
proof (rule decodesI)
  fix xdrs rs
  assume s: "sources xdrs" and "pending xdrs = (be32 MSG_DENIED @ bs) @ rs"
  then have p: "pending xdrs = be32 MSG_DENIED @ (bs @ rs)" by simp
  obtain x1 where 1: "xdr_enum xdrs (trp_stat r) = Some (True, x1, MSG_DENIED)"
    and s1: "sources x1" and p1: "pending x1 = bs @ rs"
    by (rule decodesE [OF decodes_xdr_enum s p])
  obtain x2 where "xdr_rejected_reply x1 (trp_rjct r) = Some (True, x2, rr)" "sources x2"
    "pending x2 = rs"
    by (rule decodesE [OF a s1 p1])
  with 1 show "\<exists>xdrs'. xdr_reply_body avail xdrs r =
      Some (True, xdrs', r\<lparr>trp_stat := MSG_DENIED, trp_rjct := rr\<rparr>) \<and> sources xdrs' \<and> pending xdrs' = rs"
    by (cases r) (simp add: xdr_reply_body_def xdr_union_def xdr_reply_dscrm_def fld_def
        MSG_ACCEPTED_def MSG_DENIED_def)
qed

lemma decodes_treplymsg:
  fixes msg :: "('t, 'v) trpc_msg"
  assumes ok: "treply_ok msg"
    and room: "auth_room avail (tar_verf (trp_acpt (trm_reply msg0))) (tar_verf (trp_acpt (trm_reply msg)))"
    and res: "accepted_succeeded msg \<Longrightarrow> \<exists>proc. tar_proc (trp_acpt (trm_reply msg0)) = Some proc \<and>
      decodes proc bs (tar_where (trp_acpt (trm_reply msg0))) w"
  shows "decodes (xdr_replymsg avail) (treply_bytes msg bs) msg0 (reply_decoded avail msg0 msg w)"
proof -
  let ?q = "trm_reply msg0" and ?r = "trm_reply msg"
  let ?bs = "if trp_stat ?r = MSG_ACCEPTED then accepted_bytes (trp_acpt ?r) bs
    else rejected_bytes (trp_rjct ?r)"
  have body: "decodes (xdr_reply_body avail) (be32 (trp_stat ?r) @ ?bs) ?q
      (trm_reply (reply_decoded avail msg0 msg w))"
  proof (cases "trp_stat ?r = MSG_ACCEPTED")
    case True
    have "decodes (xdr_accepted_reply avail) (accepted_bytes (trp_acpt ?r) bs) (trp_acpt ?q)
        (accepted_decoded avail (trp_acpt ?q) (trp_acpt ?r) w)"
      using ok res room True
      by (intro decodes_accepted_reply) (auto simp: treply_ok_def accepted_succeeded_def)
    from decodes_accepted_body [OF this] True show ?thesis
      by (simp add: reply_decoded_def Let_def)
  next
    case False
    have "decodes xdr_rejected_reply (rejected_bytes (trp_rjct ?r)) (trp_rjct ?q)
        (rejected_decoded (trp_rjct ?q) (trp_rjct ?r))"
      using ok False by (intro decodes_rejected_reply) (auto simp: treply_ok_def)
    from decodes_denied_body [OF this] False ok show ?thesis
      by (simp add: reply_decoded_def treply_ok_def Let_def)
  qed
  show ?thesis
    unfolding xdr_replymsg_def treply_bytes_def
    by (rule decodes_eq, rule decodes_and_then, rule decodes_and_then, rule decodes_and_then,
        rule decodes_fld, rule decodes_xdr_u_int32_t, rule decodes_fld, rule decodes_xdr_enum,
        rule decodes_check, simp, rule decodes_fld,
        rule decodes_from, rule body)
      (simp_all add: reply_decoded_def Let_def)
qed

end

section \<open>A message of zeros\<close>

definition zero_auth :: opaque_auth where
  "zero_auth = \<lparr>oa_flavor = 0, oa_base = None, oa_length = 0\<rparr>"

definition zero_tmsg :: "'w \<Rightarrow> ('s, 'w) trpc_msg" where
  "zero_tmsg w = \<lparr>trm_xid = 0, trm_direction = 0,
     trm_call = \<lparr>tcb_rpcvers = 0, tcb_prog = 0, tcb_vers = 0, tcb_proc = 0, tcb_cred = zero_auth,
       tcb_verf = zero_auth\<rparr>,
     trm_reply = \<lparr>trp_stat = 0,
       trp_acpt = \<lparr>tar_verf = zero_auth, tar_stat = 0, tar_low = 0, tar_high = 0, tar_where = w,
         tar_proc = None\<rparr>,
       trp_rjct = \<lparr>trj_stat = 0, trj_low = 0, trj_high = 0, trj_why = 0\<rparr>\<rparr>\<rparr>"

end
