(* ===== verification/Xdr_Compound.thy ===== *)
theory Xdr_Compound
  imports Xdr_Codec
begin

text \<open>
  \<open>lib/libtirpc/src/xdr_array.c\<close> and \<open>xdr_reference.c\<close>: arrays, vectors, references and
  pointers.  An array in memory is the list of its elements, an access beyond them is not
  defined, and \<open>zero\<close> is the element whose bytes are all zero.
\<close>

section \<open>Arrays and vectors\<close>

text \<open>The loop over the elements; it stops at the first element whose filter fails.\<close>

fun xdr_elems :: "('s, 'a) xdrproc_t \<Rightarrow> nat \<Rightarrow> ('s, 'a list) xdrproc_t" where
  "xdr_elems elproc 0 xdrs target = Some (True, xdrs, target)"
| "xdr_elems elproc (Suc n) xdrs [] = None"
| "xdr_elems elproc (Suc n) xdrs (a # target) = do {
     (stat, xdrs, a) \<leftarrow> elproc xdrs a;
     if stat then do {
       (stat, xdrs, target) \<leftarrow> xdr_elems elproc n xdrs target;
       Some (stat, xdrs, a # target) }
     else Some (False, xdrs, a # target) }"

text \<open>\<open>UINT_MAX/elsize\<close> divides by zero when \<open>elsize\<close> is 0 and the count is not too large.\<close>

definition xdr_array ::
    "(nat \<Rightarrow> bool) \<Rightarrow> 'a \<Rightarrow> 32 word \<Rightarrow> 32 word \<Rightarrow> ('s, 'a) xdrproc_t \<Rightarrow>
     ('s, 'a list option \<times> 32 word) xdrproc_t" where
  "xdr_array avail zero maxsize elsize elproc xdrs = (\<lambda>(target, size0). do {
     (ok, xdrs, c) \<leftarrow> xdr_u_int xdrs size0;
     if \<not> ok then Some (False, xdrs, target, c)
     else if \<not> c > maxsize \<and> elsize = 0 then None
     else if (c > maxsize \<or> 0xffffffff div elsize < c) \<and> x_op xdrs \<noteq> XDR_FREE
       then Some (False, xdrs, target, c)
     else
       let nodesize = c * elsize;
           elements = (\<lambda>xdrs target. do {
             (stat, xdrs, target) \<leftarrow> xdr_elems elproc (unat c) xdrs target;
             Some (stat, xdrs, if x_op xdrs = XDR_FREE then None else Some target, c) })
       in case target of
         Some elems \<Rightarrow> elements xdrs elems
       | None \<Rightarrow> (case x_op xdrs of
           XDR_DECODE \<Rightarrow>
             if c = 0 then Some (True, xdrs, None, c)
             else if avail (unat nodesize) then elements xdrs (replicate (unat c) zero)
             else Some (False, xdrs, None, c)
         | XDR_FREE \<Rightarrow> Some (True, xdrs, None, c)
         | XDR_ENCODE \<Rightarrow> if c = 0 then Some (True, xdrs, None, c) else None) })"

definition xdr_vector :: "32 word \<Rightarrow> ('s, 'a) xdrproc_t \<Rightarrow> ('s, 'a list) xdrproc_t" where
  "xdr_vector nelem elproc xdrs basep = xdr_elems elproc (unat nelem) xdrs basep"

section \<open>References and pointers\<close>

definition xdr_reference ::
    "(nat \<Rightarrow> bool) \<Rightarrow> 'a \<Rightarrow> 32 word \<Rightarrow> ('s, 'a) xdrproc_t \<Rightarrow> ('s, 'a option) xdrproc_t" where
  "xdr_reference avail zero sz proc xdrs loc =
    (let referenced = (\<lambda>xdrs loc. do {
           (stat, xdrs, loc) \<leftarrow> proc xdrs loc;
           Some (stat, xdrs, if x_op xdrs = XDR_FREE then None else Some loc) })
     in case loc of
       Some l \<Rightarrow> referenced xdrs l
     | None \<Rightarrow> (case x_op xdrs of
         XDR_FREE \<Rightarrow> Some (True, xdrs, None)
       | XDR_DECODE \<Rightarrow>
           if avail (unat sz) then referenced xdrs zero else Some (False, xdrs, None)
       | XDR_ENCODE \<Rightarrow> None))"

definition xdr_pointer ::
    "(nat \<Rightarrow> bool) \<Rightarrow> 'a \<Rightarrow> 32 word \<Rightarrow> ('s, 'a) xdrproc_t \<Rightarrow> ('s, 'a option) xdrproc_t" where
  "xdr_pointer avail zero obj_size xdr_obj xdrs obj = do {
     let more_data = (if obj \<noteq> None then 1 else 0);
     (ok, xdrs, more_data) \<leftarrow> xdr_bool xdrs more_data;
     if \<not> ok then Some (False, xdrs, obj)
     else if more_data = 0 then Some (True, xdrs, None)
     else xdr_reference avail zero obj_size xdr_obj xdrs obj }"

text \<open>The guard of \<open>xdr_array\<close> catches every product of count and size over 32 bits.\<close>

lemma count_overflow:
  fixes c elsize :: "32 word"
  assumes nz: "elsize \<noteq> 0" and big: "2 ^ 32 \<le> unat c * unat elsize"
  shows "0xffffffff div elsize < c"
proof -
  have "unat (0xffffffff :: 32 word) = 2 ^ 32 - 1" by simp
  then have "unat (0xffffffff :: 32 word) < unat c * unat elsize"
    using big by (simp only:) simp
  moreover have "0 < unat elsize"
    using nz by (simp add: unat_gt_0)
  ultimately have "unat (0xffffffff :: 32 word) div unat elsize < unat c"
    by (simp only: div_less_iff_less_mult)
  then show ?thesis
    by (simp only: word_less_nat_alt unat_div_distrib)
qed

section \<open>Encoding\<close>

context xdr_sink begin

lemma encodes_elems:
  "list_all2 (\<lambda>a bs. encodes elproc a bs a) as bss \<Longrightarrow>
   encodes (xdr_elems elproc (length as)) as (concat bss) as"
proof (induction as bss rule: list_all2_induct)
  case Nil
  show ?case by (auto simp: encodes_def)
next
  case (Cons a as bs bss)
  show ?case
  proof (rule encodesI)
    fix xdrs n
    assume s: "sinks xdrs" and "room xdrs (length (concat (bs # bss)) + n)"
    then have r: "room xdrs (length bs + (length (concat bss) + n))" by (simp add: add.assoc)
    obtain x1 where 1: "elproc xdrs a = Some (True, x1, a)" "sent x1 = sent xdrs @ bs"
      and s1: "sinks x1" and r1: "room x1 (length (concat bss) + n)"
      by (rule encodesE [OF Cons(1) s r])
    obtain x2 where "xdr_elems elproc (length as) x1 as = Some (True, x2, as)"
      "sent x2 = sent x1 @ concat bss" "sinks x2" "room x2 n"
      by (rule encodesE [OF Cons(3) s1 r1])
    with 1 show "\<exists>xdrs'. xdr_elems elproc (length (a # as)) xdrs (a # as) =
        Some (True, xdrs', a # as) \<and> sinks xdrs' \<and>
        sent xdrs' = sent xdrs @ concat (bs # bss) \<and> room xdrs' n"
      by simp
  qed
qed

lemma encodes_xdr_vector:
  "list_all2 (\<lambda>a bs. encodes elproc a bs a) as bss \<Longrightarrow> length as = unat nelem \<Longrightarrow>
   encodes (xdr_vector nelem elproc) as (concat bss) as"
  using encodes_elems [of elproc as bss] by (simp add: encodes_def xdr_vector_def)

lemma encodes_xdr_array:
  assumes el: "list_all2 (\<lambda>a bs. encodes elproc a bs a) as bss" and c: "length as = unat c"
    and max: "c \<le> maxsize" and sz: "elsize \<noteq> 0" "c \<le> 0xffffffff div elsize"
  shows "encodes (xdr_array avail zero maxsize elsize elproc) (Some as, c)
    (be32 c @ concat bss) (Some as, c)"
proof (rule encodesI)
  fix xdrs n
  assume s: "sinks xdrs" and "room xdrs (length (be32 c @ concat bss) + n)"
  then have r: "room xdrs (length (be32 c) + (length (concat bss) + n))" by (simp add: add.assoc)
  obtain x1 where 1: "xdr_u_int xdrs c = Some (True, x1, c)" "sent x1 = sent xdrs @ be32 c"
    and s1: "sinks x1" and r1: "room x1 (length (concat bss) + n)"
    by (rule encodesE [OF encodes_xdr_u_int s r])
  obtain x2 where "xdr_elems elproc (unat c) x1 as = Some (True, x2, as)"
    "sent x2 = sent x1 @ concat bss" and s2: "sinks x2" "room x2 n"
    using encodesE [OF encodes_elems [OF el] s1 r1] c by auto
  with 1 s1 max sz show "\<exists>xdrs'. xdr_array avail zero maxsize elsize elproc xdrs (Some as, c) =
      Some (True, xdrs', Some as, c) \<and> sinks xdrs' \<and>
      sent xdrs' = sent xdrs @ be32 c @ concat bss \<and> room xdrs' n"
    by (simp add: xdr_array_def not_less [symmetric] Let_def)
qed

lemma encodes_xdr_reference:
  "encodes proc a bs a \<Longrightarrow> encodes (xdr_reference avail zero sz proc) (Some a) bs (Some a)"
  unfolding encodes_def xdr_reference_def
  by (fastforce simp: sinks_op)

lemma encodes_xdr_pointer:
  assumes "encodes proc a bs a"
  shows "encodes (xdr_pointer avail zero sz proc) (Some a) (be32 1 @ bs) (Some a)"
proof (rule encodesI)
  fix xdrs n
  assume s: "sinks xdrs" and "room xdrs (length (be32 1 @ bs) + n)"
  then have r: "room xdrs (length (be32 (if (1 :: 32 word) \<noteq> 0 then 1 else 0)) + (length bs + n))"
    by (simp add: add.assoc)
  obtain x1 where 1: "xdr_bool xdrs 1 = Some (True, x1, 1)" "sent x1 = sent xdrs @ be32 1"
    and s1: "sinks x1" and r1: "room x1 (length bs + n)"
    using encodesE [OF encodes_xdr_bool s r] by auto
  obtain x2 where "xdr_reference avail zero sz proc x1 (Some a) = Some (True, x2, Some a)"
    "sent x2 = sent x1 @ bs" "sinks x2" "room x2 n"
    by (rule encodesE [OF encodes_xdr_reference [OF assms] s1 r1])
  with 1 show "\<exists>xdrs'. xdr_pointer avail zero sz proc xdrs (Some a) = Some (True, xdrs', Some a) \<and>
      sinks xdrs' \<and> sent xdrs' = sent xdrs @ be32 1 @ bs \<and> room xdrs' n"
    by (simp add: xdr_pointer_def)
qed

lemma encodes_xdr_pointer_null:
  "encodes (xdr_pointer avail zero sz proc) None (be32 0) None"
proof (rule encodesI)
  fix xdrs n
  assume s: "sinks xdrs" and "room xdrs (length (be32 0) + n)"
  then have r: "room xdrs (length (be32 (if (0 :: 32 word) \<noteq> 0 then 1 else 0)) + n)" by simp
  obtain x1 where "xdr_bool xdrs 0 = Some (True, x1, 0)" "sent x1 = sent xdrs @ be32 0"
    "sinks x1" "room x1 n"
    using encodesE [OF encodes_xdr_bool s r] by auto
  then show "\<exists>xdrs'. xdr_pointer avail zero sz proc xdrs None = Some (True, xdrs', None) \<and>
      sinks xdrs' \<and> sent xdrs' = sent xdrs @ be32 0 \<and> room xdrs' n"
    by (simp add: xdr_pointer_def)
qed

end

section \<open>Decoding\<close>

context xdr_source begin

lemma decodes_elems:
  "list_all2 (\<lambda>bs a. decodes elproc bs zero a) bss as \<Longrightarrow>
   decodes (xdr_elems elproc (length as)) (concat bss) (replicate (length as) zero) as"
proof (induction bss as rule: list_all2_induct)
  case Nil
  show ?case by (auto simp: decodes_def)
next
  case (Cons bs bss a as)
  show ?case
  proof (rule decodesI)
    fix xdrs rs
    assume s: "sources xdrs" and "pending xdrs = concat (bs # bss) @ rs"
    then have p: "pending xdrs = bs @ (concat bss @ rs)" by simp
    obtain x1 where 1: "elproc xdrs zero = Some (True, x1, a)"
      and s1: "sources x1" and p1: "pending x1 = concat bss @ rs"
      by (rule decodesE [OF Cons(1) s p])
    obtain x2 where "xdr_elems elproc (length as) x1 (replicate (length as) zero) =
        Some (True, x2, as)" "sources x2" "pending x2 = rs"
      by (rule decodesE [OF Cons(3) s1 p1])
    with 1 show "\<exists>xdrs'. xdr_elems elproc (length (a # as)) xdrs (replicate (length (a # as)) zero) =
        Some (True, xdrs', a # as) \<and> sources xdrs' \<and> pending xdrs' = rs"
      by simp
  qed
qed

lemma decodes_xdr_vector:
  "list_all2 (\<lambda>bs a. decodes elproc bs zero a) bss as \<Longrightarrow> length as = unat nelem \<Longrightarrow>
   decodes (xdr_vector nelem elproc) (concat bss) (replicate (length as) zero) as"
  using decodes_elems [of elproc zero bss as] by (simp add: decodes_def xdr_vector_def)

lemma decodes_xdr_array:
  assumes el: "list_all2 (\<lambda>bs a. decodes elproc bs zero a) bss as" and c: "length as = unat c"
    and max: "c \<le> maxsize" and sz: "elsize \<noteq> 0" "c \<le> 0xffffffff div elsize"
    and av: "avail (unat (c * elsize))" and nz: "c \<noteq> 0"
  shows "decodes (xdr_array avail zero maxsize elsize elproc) (be32 c @ concat bss) (None, c0)
    (Some as, c)"
proof (rule decodesI)
  fix xdrs rs
  assume s: "sources xdrs" and "pending xdrs = (be32 c @ concat bss) @ rs"
  then have p: "pending xdrs = be32 c @ (concat bss @ rs)" by simp
  obtain x1 where 1: "xdr_u_int xdrs c0 = Some (True, x1, c)"
    and s1: "sources x1" and p1: "pending x1 = concat bss @ rs"
    by (rule decodesE [OF decodes_xdr_u_int s p])
  obtain x2 where "xdr_elems elproc (unat c) x1 (replicate (unat c) zero) = Some (True, x2, as)"
    and s2: "sources x2" "pending x2 = rs"
    using decodesE [OF decodes_elems [OF el] s1 p1] c by metis
  with 1 s1 max sz av nz show "\<exists>xdrs'. xdr_array avail zero maxsize elsize elproc xdrs (None, c0) =
      Some (True, xdrs', Some as, c) \<and> sources xdrs' \<and> pending xdrs' = rs"
    by (simp add: xdr_array_def not_less [symmetric] Let_def)
qed

text \<open>A count beyond the maximum, or whose size in bytes overflows, is refused before allocating.\<close>

lemma xdr_array_refuses:
  assumes s: "sources xdrs" and p: "pending xdrs = be32 c @ rs"
    and big: "c > maxsize \<or> elsize \<noteq> 0 \<and> 2 ^ 32 \<le> unat c * unat elsize"
  obtains xdrs' where "xdr_array avail zero maxsize elsize elproc xdrs (t, c0) =
    Some (False, xdrs', t, c)"
proof -
  obtain x1 where 1: "xdr_u_int xdrs c0 = Some (True, x1, c)" and s1: "sources x1"
    by (rule decodesE [OF decodes_xdr_u_int s p])
  have "c > maxsize \<or> elsize \<noteq> 0 \<and> 0xffffffff div elsize < c"
    using big count_overflow by blast
  with 1 s1 show thesis
    by (intro that [of x1]) (auto simp: xdr_array_def)
qed

lemma decodes_xdr_reference:
  assumes p: "decodes proc bs zero a" and av: "avail (unat sz)"
  shows "decodes (xdr_reference avail zero sz proc) bs None (Some a)"
proof (rule decodesI)
  fix xdrs rs
  assume s: "sources xdrs" and pd: "pending xdrs = bs @ rs"
  obtain x1 where "proc xdrs zero = Some (True, x1, a)" "sources x1" "pending x1 = rs"
    by (rule decodesE [OF p s pd])
  with s av show "\<exists>xdrs'. xdr_reference avail zero sz proc xdrs None = Some (True, xdrs', Some a) \<and>
      sources xdrs' \<and> pending xdrs' = rs"
    by (simp add: xdr_reference_def)
qed

lemma decodes_xdr_pointer:
  assumes z: "ext 0 = 0" and p: "decodes proc bs zero a" and av: "avail (unat sz)"
  shows "decodes (xdr_pointer avail zero sz proc) (be32 1 @ bs) None (Some a)"
proof (rule decodesI)
  fix xdrs rs
  assume s: "sources xdrs" and "pending xdrs = (be32 1 @ bs) @ rs"
  then have p0: "pending xdrs = be32 1 @ (bs @ rs)" by simp
  obtain x1 where 1: "xdr_bool xdrs 0 = Some (True, x1, 1)" and s1: "sources x1"
    and p1: "pending x1 = bs @ rs"
    using decodesE [OF decodes_xdr_bool [OF z] s p0] by auto
  obtain x2 where "xdr_reference avail zero sz proc x1 None = Some (True, x2, Some a)"
    "sources x2" "pending x2 = rs"
    by (rule decodesE [OF decodes_xdr_reference [OF p, where avail = avail and sz = sz, OF av] s1 p1])
  with 1 show "\<exists>xdrs'. xdr_pointer avail zero sz proc xdrs None = Some (True, xdrs', Some a) \<and>
      sources xdrs' \<and> pending xdrs' = rs"
    by (simp add: xdr_pointer_def)
qed

lemma decodes_xdr_pointer_null:
  assumes z: "ext 0 = 0"
  shows "decodes (xdr_pointer avail zero sz proc) (be32 0) obj None"
proof (rule decodesI)
  fix xdrs rs
  assume s: "sources xdrs" and p: "pending xdrs = be32 0 @ rs"
  obtain x1 where "xdr_bool xdrs (if obj \<noteq> None then 1 else 0) = Some (True, x1, 0)"
    "sources x1" "pending x1 = rs"
    using decodesE [OF decodes_xdr_bool [OF z] s p] by auto
  then show "\<exists>xdrs'. xdr_pointer avail zero sz proc xdrs obj = Some (True, xdrs', None) \<and>
      sources xdrs' \<and> pending xdrs' = rs"
    by (simp add: xdr_pointer_def)
qed

end

section \<open>Arrays and pointers between two buffers\<close>

text \<open>
  An array whose count is within the maximum and whose size in bytes does not overflow,
  received where the pointer is null, arrives as a fresh array of the same elements, if the
  element filter carries each of them.
\<close>

theorem xdr_array_transfers:
  fixes elproc :: "(memstrm, 'a) xdrproc_t"
  assumes enc: "\<And>m b n. list_all2 (\<lambda>v bs. al.encodes m b n elproc v bs v) vs bss"
      "\<And>m b n. list_all2 (\<lambda>v bs. un.encodes m b n elproc v bs v) vs bss"
    and dec: "\<And>m b n. list_all2 (\<lambda>bs v. ald.decodes m b n elproc bs zero v) bss vs"
      "\<And>m b n. list_all2 (\<lambda>bs v. und.decodes m b n elproc bs zero v) bss vs"
    and c: "length vs = unat c" "c \<noteq> 0" "c \<le> maxsize"
    and sz: "elsize \<noteq> 0" "c \<le> 0xffffffff div elsize" and av: "avail (unat (c * elsize))"
  shows "xdrmem_transfers (xdr_array avail zero maxsize elsize elproc) (Some vs, c)
    (be32 c @ concat bss) (None, c0) (Some vs, c)"
  by (intro xdrmem_transfersI al.encodes_xdr_array un.encodes_xdr_array ald.decodes_xdr_array
      und.decodes_xdr_array enc dec c sz av)

theorem xdr_array_transfers_witness:
  "xdrmem_transfers (xdr_array (\<lambda>_. True) 0 10 4 xdr_u_int) (Some [5, 6], 2)
    (be32 2 @ be32 5 @ be32 6) (None, 0) (Some [5, 6], 2)"
proof -
  have "(2 :: 32 word) \<le> 0xffffffff div 4" by (simp add: word_le_nat_alt unat_div)
  then show ?thesis
    using xdr_array_transfers [of xdr_u_int "[5, 6]" "[be32 5, be32 6]" 0 2 10 4 "\<lambda>_. True" 0]
    by (simp add: al.encodes_xdr_u_int un.encodes_xdr_u_int ald.decodes_xdr_u_int
        und.decodes_xdr_u_int)
qed

text \<open>
  C38: A received count that exceeds the maximum, or whose size in bytes does not fit 32 bits,
  is refused before anything is allocated or stored.
\<close>

theorem xdr_array_bounds:
  assumes a: "a \<noteq> 0" "4 \<le> unat sz"
    and big: "c > maxsize \<or> elsize \<noteq> 0 \<and> 2 ^ 32 \<le> unat c * unat elsize"
  shows "\<exists>x. xdr_array avail zero maxsize elsize elproc
    (xdrmem_create (wr m a (be32 c)) a sz XDR_DECODE) (target, c0) = Some (False, x, target, c)"
proof -
  let ?x = "xdrmem_create (wr m a (be32 c)) a sz XDR_DECODE"
  have rd: "rd (wr m a (be32 c)) a (length (be32 c)) = be32 c" and l: "length (be32 c) \<le> unat sz"
    using a(2) by simp_all
  obtain x1 where 1: "xdr_u_int ?x c0 = Some (True, x1, c)" and op: "x_op x1 = XDR_DECODE"
    by (rule xdrmem_decode [OF ald.decodes_xdr_u_int und.decodes_xdr_u_int a(1) l rd])
  have "c > maxsize \<or> elsize \<noteq> 0 \<and> 0xffffffff div elsize < c"
    using big count_overflow by blast
  with 1 op show ?thesis
    by (intro exI [of _ x1]) (auto simp: xdr_array_def)
qed

theorem xdr_array_bounds_witness:
  "\<exists>x. xdr_array (\<lambda>_. True) 0 0xffffffff 4 xdr_u_int
    (xdrmem_create (wr (\<lambda>_. 0) 64 (be32 0x40000000)) 64 8 XDR_DECODE) (None, 0) =
      Some (False, x, None, 0x40000000)"
  by (rule xdr_array_bounds) simp_all

text \<open>
  A pointer to an object arrives as a pointer to a fresh copy of it, a null pointer as a
  null pointer.
\<close>

theorem xdr_pointer_transfers:
  fixes proc :: "(memstrm, 'a) xdrproc_t"
  assumes enc: "\<And>m b n. al.encodes m b n proc v bs v" "\<And>m b n. un.encodes m b n proc v bs v"
    and dec: "\<And>m b n. ald.decodes m b n proc bs zero v" "\<And>m b n. und.decodes m b n proc bs zero v"
    and av: "avail (unat sz)"
  shows "xdrmem_transfers (xdr_pointer avail zero sz proc) (Some v) (be32 1 @ bs) None (Some v) \<and>
    xdrmem_transfers (xdr_pointer avail zero sz proc) None (be32 0) obj None"
proof -
  have z: "(ucast (0 :: 32 word) :: 64 word) = 0" by simp
  show ?thesis
    by (intro conjI xdrmem_transfersI al.encodes_xdr_pointer un.encodes_xdr_pointer
        ald.decodes_xdr_pointer [OF z] und.decodes_xdr_pointer [OF z]
        al.encodes_xdr_pointer_null un.encodes_xdr_pointer_null
        ald.decodes_xdr_pointer_null [OF z] und.decodes_xdr_pointer_null [OF z] enc dec av)
qed

theorem xdr_pointer_transfers_witness:
  "xdrmem_transfers (xdr_pointer (\<lambda>_. True) 0 4 xdr_u_int) (Some 5) (be32 1 @ be32 5) None (Some 5)"
  using xdr_pointer_transfers [of xdr_u_int 5 "be32 5" 0 "\<lambda>_. True" 4 None]
  by (simp add: al.encodes_xdr_u_int un.encodes_xdr_u_int ald.decodes_xdr_u_int und.decodes_xdr_u_int)

end
