(* ===== verification/Flex_Rec.thy ===== *)
theory Flex_Rec
  imports Flex_Xdr
begin

text \<open>
  \<open>src/flexrpc/flexxdr_rec.c\<close>: the record stream of flexrpc.  Its pointers are addresses of
  the handle's memory; the transport is a state \<^typ>\<open>'h\<close> that the function pointers
  \<open>readit\<close> and \<open>writeit\<close> of the structure take and return.  Loops are
  \<open>partial_function (option)\<close>: \<open>None\<close> is a loop that never exits.  The calls of
  \<open>printf\<close> are left out.
\<close>

section \<open>The stream\<close>

text \<open>
  \<open>readit h n\<close> is the result of reading \<open>n\<close> bytes (-1 for an error), the bytes it stored
  and the transport it leaves.
\<close>

record 'h recstrm =
  flextcp_handle :: 'h
  flex_buffer :: addr
  writeit :: "'h \<Rightarrow> byte list \<Rightarrow> int \<times> 'h"
  out_base :: addr
  out_finger :: addr
  out_boundary :: addr
  frag_header :: addr
  frag_sent :: bool
  readit :: "'h \<Rightarrow> nat \<Rightarrow> int \<times> byte list \<times> 'h"
  in_size :: "64 word"
  in_base :: addr
  in_finger :: addr
  in_boundary :: addr
  fbtbc :: "64 word"
  last_frag :: bool
  sendsize :: "32 word"
  recvsize :: "32 word"

definition LAST_FRAG :: "64 word" where
  "LAST_FRAG = push_bit 31 1"

text \<open>\<open>RNDUP\<close> of \<open>flexxdr.h\<close>, the variant that is compiled.\<close>

definition FLEX_RNDUP :: "32 word \<Rightarrow> 32 word" where
  "FLEX_RNDUP x = (x - 4 - 1) AND NOT (4 - 1)"

definition fix_buf_size :: "32 word \<Rightarrow> 32 word" where
  "fix_buf_size s = FLEX_RNDUP (if s < 100 then 4000 else s)"

section \<open>Output\<close>

text \<open>
  The \<open>if\<close> after \<open>writeit\<close> governs the \<open>printf\<close> only: the function always returns false.
\<close>

definition flush_out :: "mem \<times> 'h recstrm \<Rightarrow> bool \<Rightarrow> bool \<times> mem \<times> 'h recstrm" where
  "flush_out = (\<lambda>(m, rstrm) eor.
     let eormask = (if eor then LAST_FRAG else 0);
         len = of_int ((int (out_finger rstrm) - int (frag_header rstrm)) div 4 - 4);
         m = store32 m (frag_header rstrm) (htonl (ucast (len OR eormask)));
         (n, h) = writeit rstrm (flextcp_handle rstrm) (rd m (out_finger rstrm) 4)
     in (False, m, rstrm\<lparr>flextcp_handle := h\<rparr>))"

definition flexxdrrec_putlong ::
    "mem \<times> 'h recstrm \<Rightarrow> 64 word \<Rightarrow> (bool \<times> mem \<times> 'h recstrm) option" where
  "flexxdrrec_putlong = (\<lambda>(m, rstrm) lp.
     let dest_lp = out_finger rstrm;
         rstrm = rstrm\<lparr>out_finger := out_finger rstrm + 4\<rparr>;
         (go, m, rstrm, dest_lp) =
           (if out_finger rstrm > out_boundary rstrm then
              let rstrm = rstrm\<lparr>out_finger := out_finger rstrm - 4, frag_sent := True\<rparr>;
                  (ok, m, rstrm) = flush_out (m, rstrm) False
              in if \<not> ok then (False, m, rstrm, dest_lp)
                 else (True, m, rstrm\<lparr>out_finger := out_finger rstrm + 4\<rparr>, out_finger rstrm)
            else (True, m, rstrm, dest_lp))
     in if \<not> go then Some (False, m, rstrm)
        else Some (True, store32 m dest_lp (htonl (ucast lp)), rstrm\<lparr>out_finger := dest_lp\<rparr>))"

partial_function (option) flexxdrrec_putbytes ::
    "mem \<times> 'h recstrm \<Rightarrow> byte list \<Rightarrow> 32 word \<Rightarrow> (bool \<times> mem \<times> 'h recstrm) option" where
  "flexxdrrec_putbytes st addr len =
    (let (m, rstrm) = st in
     if len > 0 then
       let avail = ptrdiff (out_boundary rstrm) (out_finger rstrm);
           current = (if len < avail then len else avail);
           m = wr m (out_finger rstrm) (take (unat current) addr);
           rstrm = rstrm\<lparr>out_finger := out_finger rstrm + unat current\<rparr>;
           addr = drop (unat current) addr;
           len = len - current
       in if out_finger rstrm = out_boundary rstrm \<and> len > 0 then
            let rstrm = rstrm\<lparr>frag_sent := True\<rparr>;
                (ok, st) = flush_out (m, rstrm) False
            in if \<not> ok then Some (False, st) else flexxdrrec_putbytes st addr len
          else flexxdrrec_putbytes (m, rstrm) addr len
     else Some (True, m, rstrm))"

definition flexxdrrec_endofrecord ::
    "mem \<times> 'h recstrm \<Rightarrow> bool \<Rightarrow> bool \<times> mem \<times> 'h recstrm" where
  "flexxdrrec_endofrecord = (\<lambda>(m, rstrm) sendnow.
     if sendnow \<or> frag_sent rstrm \<or> out_finger rstrm + 4 \<ge> out_boundary rstrm then
       flush_out (m, rstrm\<lparr>frag_sent := False\<rparr>) True
     else
       let len = (of_int (int (out_finger rstrm) - int (frag_header rstrm) - 4) :: 64 word)
       in (True, store32 m (frag_header rstrm) (htonl (ucast (len OR LAST_FRAG))),
           rstrm\<lparr>frag_header := out_finger rstrm, out_finger := out_finger rstrm + 4\<rparr>))"

section \<open>Input\<close>

text \<open>Four bytes are asked for, and four are taken to have come unless the result is -1.\<close>

definition fill_input_buf :: "mem \<times> 'h recstrm \<Rightarrow> bool \<times> mem \<times> 'h recstrm" where
  "fill_input_buf = (\<lambda>(m, rstrm).
     let whr = in_base rstrm;
         (len, bs, h) = readit rstrm (flextcp_handle rstrm) 4;
         m = wr m whr bs;
         rstrm = rstrm\<lparr>flextcp_handle := h\<rparr>
     in if len = -1 then (False, m, rstrm)
        else (True, m, rstrm\<lparr>in_finger := whr, in_boundary := whr + 4\<rparr>))"

text \<open>
  \<open>got\<close> is what has been copied so far; \<open>len = 0\<close> after the first copy ends the loop.
\<close>

partial_function (option) get_input_bytes ::
    "mem \<times> 'h recstrm \<Rightarrow> 32 word \<Rightarrow> byte list \<Rightarrow> (bool \<times> byte list \<times> mem \<times> 'h recstrm) option" where
  "get_input_bytes st len got =
    (if 0 <s len then
       let current = ptrdiff (in_boundary (snd st)) (in_finger (snd st)) in
       if current = 0 then
         let (ok, st) = fill_input_buf st
         in if \<not> ok then Some (False, got, st) else get_input_bytes st len got
       else
         let current = (if len <s current then len else current);
             bs = rd (fst st) (in_finger (snd st)) (unat current);
             rstrm = (snd st)\<lparr>in_finger := in_finger (snd st) + unat current\<rparr>;
             len = 0
         in get_input_bytes (fst st, rstrm) len (got @ bs)
     else Some (True, got, st))"

definition set_input_fragment :: "mem \<times> 'h recstrm \<Rightarrow> (bool \<times> mem \<times> 'h recstrm) option" where
  "set_input_fragment st = do {
     (ok, bs, m, rstrm) \<leftarrow> get_input_bytes st 4 [];
     if \<not> ok then Some (False, m, rstrm)
     else let header = ntohl (of_le32 (fill [0, 0, 0, 0] bs));
              rstrm = rstrm\<lparr>last_frag := (ucast header AND LAST_FRAG) \<noteq> 0\<rparr>
       in if header = 0 then Some (False, m, rstrm)
          else Some (True, m, rstrm\<lparr>fbtbc := ucast header AND NOT LAST_FRAG\<rparr>) }"

text \<open>The loop of \<open>flexxdrrec_getbytes\<close>: \<open>off\<close> is how far \<open>addr\<close> has moved.\<close>

partial_function (option) rec_getbytes_loop ::
    "mem \<times> 'h recstrm \<Rightarrow> byte list \<Rightarrow> nat \<Rightarrow> 32 word \<Rightarrow>
     (bool \<times> byte list \<times> mem \<times> 'h recstrm) option" where
  "rec_getbytes_loop st buf off len =
    (if len > 0 then
       let current = (ucast (fbtbc (snd st)) :: 32 word) in
       if current = 0 then
         if last_frag (snd st) then Some (False, buf, st)
         else do {
           (ok, st) \<leftarrow> set_input_fragment st;
           if \<not> ok then Some (False, buf, st) else rec_getbytes_loop st buf off len }
       else
         let current = (if len < current then len else current) in
         do {
           (ok, bs, m, rstrm) \<leftarrow> get_input_bytes st current [];
           let buf = patch buf off bs;
           if \<not> ok then Some (False, buf, m, rstrm)
           else rec_getbytes_loop (m, rstrm\<lparr>fbtbc := fbtbc rstrm - ucast current\<rparr>) buf
                  (off + unat current) (len - current) }
     else Some (True, buf, st))"

definition flexxdrrec_getbytes ::
    "mem \<times> 'h recstrm \<Rightarrow> byte list \<Rightarrow> 32 word \<Rightarrow> (bool \<times> byte list \<times> mem \<times> 'h recstrm) option" where
  "flexxdrrec_getbytes st addr len = rec_getbytes_loop st addr 0 len"

definition flexxdrrec_getlong ::
    "mem \<times> 'h recstrm \<Rightarrow> 64 word \<Rightarrow> (bool \<times> 64 word \<times> mem \<times> 'h recstrm) option" where
  "flexxdrrec_getlong = (\<lambda>(m, rstrm) lp.
     if 4 \<le>s fbtbc rstrm \<and> int (in_boundary rstrm) - int (in_finger rstrm) \<ge> 4 then
       Some (True, scast (ntohl (load32 m (in_finger rstrm))), m,
         rstrm\<lparr>fbtbc := fbtbc rstrm - 4, in_finger := in_finger rstrm + 4\<rparr>)
     else do {
       (ok, mylong, st) \<leftarrow> flexxdrrec_getbytes (m, rstrm) [0, 0, 0, 0] 4;
       if \<not> ok then Some (False, lp, st)
       else Some (True, scast (ntohl (of_le32 mylong)), st) })"

partial_function (option) skip_input_bytes ::
    "mem \<times> 'h recstrm \<Rightarrow> 64 word \<Rightarrow> (bool \<times> mem \<times> 'h recstrm) option" where
  "skip_input_bytes st cnt =
    (if 0 <s cnt then
       let current = (ptrdiff (in_boundary (snd st)) (in_finger (snd st)) :: 32 word) in
       if current = 0 then
         let (ok, st) = fill_input_buf st
         in if \<not> ok then Some (False, st) else skip_input_bytes st cnt
       else
         let current = (if cnt <s scast current then ucast cnt else current);
             rstrm = (snd st)\<lparr>in_finger := nat (int (in_finger (snd st)) + sint current)\<rparr>
         in skip_input_bytes (fst st, rstrm) (cnt - scast current)
     else Some (True, st))"

text \<open>The loop of \<open>flexxdrrec_skiprecord\<close>; it ends when no last fragment is followed up.\<close>

partial_function (option) skiprecord_loop ::
    "mem \<times> 'h recstrm \<Rightarrow> (bool \<times> mem \<times> 'h recstrm) option" where
  "skiprecord_loop st =
    (if 0 <s fbtbc (snd st) \<or> \<not> last_frag (snd st) then do {
       (ok, m, rstrm) \<leftarrow> skip_input_bytes st (fbtbc (snd st));
       if \<not> ok then Some (False, m, rstrm)
       else
         let st = (m, rstrm\<lparr>fbtbc := 0\<rparr>) in
         if \<not> last_frag (snd st) then do {
           (ok, st) \<leftarrow> set_input_fragment st;
           if \<not> ok then Some (False, st) else skiprecord_loop st }
         else skiprecord_loop st }
     else Some (True, st))"

definition flexxdrrec_skiprecord :: "mem \<times> 'h recstrm \<Rightarrow> (bool \<times> mem \<times> 'h recstrm) option" where
  "flexxdrrec_skiprecord st = do {
     (ok, m, rstrm) \<leftarrow> skiprecord_loop st;
     Some (ok, m, if ok then rstrm\<lparr>last_frag := False\<rparr> else rstrm) }"

section \<open>The vector and the constructor\<close>

definition flexxdrrec_ops :: "'h recstrm xdr_ops" where
  "flexxdrrec_ops = \<lparr>
     x_getlong = flexxdrrec_getlong,
     x_putlong = flexxdrrec_putlong,
     x_getbytes = flexxdrrec_getbytes,
     x_putbytes = flexxdrrec_putbytes,
     x_getpostn = None,
     x_setpostn = None,
     x_inline = None\<rparr>"

text \<open>
  \<open>buf\<close> is what \<open>mem_alloc\<close> gives for the buffer, \<open>have_strm\<close> whether it serves the
  structure.  Without storage the handle is left as it was.  \<open>f_op\<close> is not set.
\<close>

definition aligned4 :: "addr \<Rightarrow> addr" where
  "aligned4 a = (if a mod 4 \<noteq> 0 then a + (4 - a mod 4) else a)"

definition flexxdrrec_create ::
    "bool \<Rightarrow> addr option \<Rightarrow> 32 word \<Rightarrow> 32 word \<Rightarrow> 'h \<Rightarrow> ('h \<Rightarrow> nat \<Rightarrow> int \<times> byte list \<times> 'h) \<Rightarrow>
     ('h \<Rightarrow> byte list \<Rightarrow> int \<times> 'h) \<Rightarrow> 'h recstrm FLEXXDR \<Rightarrow> 'h recstrm FLEXXDR" where
  "flexxdrrec_create have_strm buf ssize0 rsize0 handle rd_it wr_it flexxdrs =
    (let ssize = fix_buf_size ssize0; rsize = fix_buf_size rsize0 in
     case (have_strm, buf) of
       (True, Some buf) \<Rightarrow>
         let tmp = aligned4 buf;
             ibase = tmp + unat ssize;
             rstrm = \<lparr>flextcp_handle = handle, flex_buffer = buf, writeit = wr_it,
               out_base = tmp, out_finger = tmp + 16, out_boundary = tmp + 16 + unat ssize,
               frag_header = tmp, frag_sent = False, readit = rd_it, in_size = ucast rsize,
               in_base = ibase, in_finger = ibase + unat rsize,
               in_boundary = ibase + unat rsize, fbtbc = 0, last_frag = True,
               sendsize = ssize, recvsize = rsize\<rparr>
         in flexxdrs\<lparr>x_ops := flexxdrrec_ops, x_private := rstrm\<rparr>
     | _ \<Rightarrow> flexxdrs)"

section \<open>Sizes\<close>

text \<open>The compiled \<open>RNDUP\<close> rounds down, and by more than a unit.\<close>

lemma FLEX_RNDUP_mod_4: "unat (FLEX_RNDUP x) mod 4 = 0"
proof -
  have mask: "(4 - 1 :: 32 word) = mask 2" by (simp add: mask_eq_exp_minus_1)
  have "take_bit 2 (FLEX_RNDUP x) = 0"
    unfolding FLEX_RNDUP_def mask by (rule bit_word_eqI) (simp add: bit_simps)
  then have "unat (FLEX_RNDUP x mod 4) = 0"
    by (simp add: take_bit_eq_mod)
  then show ?thesis by (simp add: unat_mod_distrib)
qed

lemma FLEX_RNDUP_less: "5 \<le> x \<Longrightarrow> FLEX_RNDUP x < x"
proof -
  assume x: "5 \<le> x"
  have "FLEX_RNDUP x \<le> x - 4 - 1"
    unfolding FLEX_RNDUP_def by (rule word_and_le2)
  also have "x - 4 - 1 < x"
    using x by (simp add: word_less_nat_alt word_le_nat_alt unat_sub_if')
  finally show ?thesis .
qed

lemma fix_buf_size_less: "100 \<le> s \<Longrightarrow> fix_buf_size s < s"
  using FLEX_RNDUP_less [of s] by (simp add: fix_buf_size_def word_le_nat_alt word_less_nat_alt)

section \<open>Output\<close>

lemma flush_out_fails: "fst (flush_out st eor) = False"
  by (cases st) (simp add: flush_out_def Let_def split: prod.splits)

text \<open>With room for a word, \<open>putlong\<close> stores it at the finger and leaves the finger there.\<close>

lemma flexxdrrec_putlong_room:
  "out_finger r + 4 \<le> out_boundary r \<Longrightarrow>
   flexxdrrec_putlong (m, r) l = Some (True, wr m (out_finger r) (be32 (ucast l)), r)"
  by (simp add: flexxdrrec_putlong_def store32_htonl Let_def)

lemma flexxdrrec_putlong_no_room:
  "\<not> out_finger r + 4 \<le> out_boundary r \<Longrightarrow>
   \<exists>m' r'. flexxdrrec_putlong (m, r) l = Some (False, m', r')"
  using flush_out_fails [of "(m, r\<lparr>frag_sent := True\<rparr>)" False]
  by (cases "flush_out (m, r\<lparr>frag_sent := True\<rparr>) False")
    (simp add: flexxdrrec_putlong_def Let_def)

lemma wr_wr_same: "length ys = length xs \<Longrightarrow> wr (wr m a xs) a ys = wr m a ys"
  by (rule ext) (auto simp: wr_def)

text \<open>
  \<open>putbytes\<close> stores what fits before the boundary and then either is done or fails, since
  flushing fails.
\<close>

lemma flexxdrrec_putbytes_0: "flexxdrrec_putbytes st addr 0 = Some (True, st)"
  by (subst flexxdrrec_putbytes.simps) (simp split: prod.splits)

lemma ptrdiff_room:
  "a \<le> b \<Longrightarrow> b - a < 2 ^ 32 \<Longrightarrow> unat (ptrdiff b a :: 32 word) = b - a"
  by (simp only: ptrdiff_le unat_of_nat32)

lemma flexxdrrec_putbytes_room:
  assumes room: "out_finger r + unat len \<le> out_boundary r"
    and sz: "out_boundary r - out_finger r < 2 ^ 32"
  shows "flexxdrrec_putbytes (m, r) addr len =
    Some (True, wr m (out_finger r) (take (unat len) addr), r\<lparr>out_finger := out_finger r + unat len\<rparr>)"
proof (cases "len > 0")
  case False
  then have "len = 0" by (simp add: word_gt_0)
  then show ?thesis by (simp add: flexxdrrec_putbytes_0)
next
  case True
  let ?av = "ptrdiff (out_boundary r) (out_finger r) :: 32 word"
  have "unat ?av = out_boundary r - out_finger r"
    using room sz by (intro ptrdiff_room) simp_all
  then have "len \<le> ?av" using room by (simp add: word_le_nat_alt)
  then have cur: "(if len < ?av then len else ?av) = len" by auto
  show ?thesis
    using True cur by (subst flexxdrrec_putbytes.simps) (simp add: Let_def flexxdrrec_putbytes_0)
qed

lemma flexxdrrec_putbytes_no_room:
  assumes le: "out_finger r \<le> out_boundary r" and no: "out_boundary r < out_finger r + unat len"
  shows "\<exists>st. flexxdrrec_putbytes (m, r) addr len = Some (False, st)"
proof -
  let ?av = "ptrdiff (out_boundary r) (out_finger r) :: 32 word"
  have sz: "out_boundary r - out_finger r < 2 ^ 32"
    using le no unsigned_less [of len, where ?'a = nat] by simp
  have av: "unat ?av = out_boundary r - out_finger r"
    by (rule ptrdiff_room [OF le sz])
  then have lt: "?av < len" using no le by (simp add: word_less_nat_alt)
  then have cur: "(if len < ?av then len else ?av) = ?av" by auto
  have fin: "out_finger r + unat ?av = out_boundary r" using av le by simp
  have pos: "0 < len" "0 < len - ?av"
    using lt by (auto simp: word_gt_0)
  let ?m = "wr m (out_finger r) (take (unat ?av) addr)"
  let ?r = "r\<lparr>out_finger := out_boundary r, frag_sent := True\<rparr>"
  obtain st where "flush_out (?m, ?r) False = (False, st)"
    using flush_out_fails [of "(?m, ?r)" False] by (cases "flush_out (?m, ?r) False") auto
  then have "flexxdrrec_putbytes (m, r) addr len = Some (False, st)"
    using pos fin by (subst flexxdrrec_putbytes.simps) (simp only: cur Let_def prod.case, simp)
  then show ?thesis by blast
qed

section \<open>Input\<close>

text \<open>Every read of input returns, whatever the transport does.\<close>

lemma get_input_bytes_done: "\<not> 0 <s len \<Longrightarrow> get_input_bytes st len got = Some (True, got, st)"
  by (subst get_input_bytes.simps) simp

lemma get_input_bytes_buffered:
  assumes "0 <s len" and "(ptrdiff (in_boundary (snd st)) (in_finger (snd st)) :: 32 word) = cur"
    and "cur \<noteq> 0"
  shows "get_input_bytes st len got =
    (let n = unat (if len <s cur then len else cur)
     in Some (True, got @ rd (fst st) (in_finger (snd st)) n, fst st,
          (snd st)\<lparr>in_finger := in_finger (snd st) + n\<rparr>))"
  using assms by (subst get_input_bytes.simps) (simp add: Let_def get_input_bytes_done)

lemma get_input_bytes_empty:
  assumes "0 <s len" and "(ptrdiff (in_boundary r) (in_finger r) :: 32 word) = 0"
  shows "get_input_bytes (m, r) len got =
    (let (n, bs, h) = readit r (flextcp_handle r) 4;
         m = wr m (in_base r) bs; r = r\<lparr>flextcp_handle := h\<rparr>
     in if n = -1 then Some (False, got, m, r)
        else let k = unat (if len <s 4 then len else 4)
          in Some (True, got @ rd m (in_base r) k, m,
               r\<lparr>in_finger := in_base r + k, in_boundary := in_base r + 4\<rparr>))"
proof -
  obtain n bs h where rd: "readit r (flextcp_handle r) 4 = (n, bs, h)"
    by (cases "readit r (flextcp_handle r) 4")
  have p: "(ptrdiff (in_base r + 4) (in_base r) :: 32 word) = 4"
    by (simp add: ptrdiff_le)
  show ?thesis
    using assms rd
    by (subst get_input_bytes.simps)
      (simp add: fill_input_buf_def Let_def get_input_bytes_buffered [OF assms(1), where cur = 4] p)
qed

lemma get_input_bytes_returns:
  obtains ok bs m r where "get_input_bytes st len got = Some (ok, bs, m, r)"
    and "fbtbc r = fbtbc (snd st)" and "last_frag r = last_frag (snd st)"
proof (cases "0 <s len")
  case False
  then show thesis
    by (intro that [of True got "fst st" "snd st"]) (simp_all add: get_input_bytes_done)
next
  case True
  show thesis
  proof (cases "(ptrdiff (in_boundary (snd st)) (in_finger (snd st)) :: 32 word) = 0")
    case False
    then show thesis
      using get_input_bytes_buffered [OF True refl False, of got] that by (simp add: Let_def)
  next
    case empty: True
    obtain n bs h where "readit (snd st) (flextcp_handle (snd st)) 4 = (n, bs, h)"
      by (cases "readit (snd st) (flextcp_handle (snd st)) 4")
    then have e: "get_input_bytes st len got =
        (let m = wr (fst st) (in_base (snd st)) bs; r = (snd st)\<lparr>flextcp_handle := h\<rparr>
         in if n = -1 then Some (False, got, m, r)
            else let k = unat (if len <s 4 then len else 4)
              in Some (True, got @ rd m (in_base r) k, m,
                   r\<lparr>in_finger := in_base r + k, in_boundary := in_base r + 4\<rparr>))"
      using get_input_bytes_empty [OF True empty, of "fst st" got] by (simp add: Let_def)
    show thesis
    proof (cases "n = -1")
      case True
      with e have "get_input_bytes st len got = Some (False, got, wr (fst st) (in_base (snd st)) bs,
          (snd st)\<lparr>flextcp_handle := h\<rparr>)"
        by (simp add: Let_def)
      then show thesis by (rule that) simp_all
    next
      case False
      define k where "k = unat (if len <s 4 then len else 4)"
      from e False have "get_input_bytes st len got =
          Some (True, got @ rd (wr (fst st) (in_base (snd st)) bs) (in_base (snd st)) k,
            wr (fst st) (in_base (snd st)) bs, (snd st)\<lparr>flextcp_handle := h,
              in_finger := in_base (snd st) + k, in_boundary := in_base (snd st) + 4\<rparr>)"
        by (simp add: Let_def k_def)
      then show thesis by (rule that) simp_all
    qed
  qed
qed

lemma bit_LAST_FRAG: "bit LAST_FRAG n \<longleftrightarrow> n = 31"
  unfolding LAST_FRAG_def bit_push_bit_iff bit_1_iff by auto

lemma LAST_FRAG_mask: "(ucast (h :: 32 word) AND NOT LAST_FRAG) = (ucast (h AND mask 31) :: 64 word)"
  by (rule bit_word_eqI) (auto simp: bit_simps bit_LAST_FRAG dest: bit_imp_le_length)

lemma header_bits:
  fixes h :: "32 word"
  assumes "h \<noteq> 0" and "h AND mask 31 = 0"
  shows "(ucast h AND LAST_FRAG) \<noteq> 0"
proof
  assume last: "ucast h AND LAST_FRAG = 0"
  have "bit h n = False" if "n < 32" for n
  proof (cases "n = 31")
    case True
    have "bit (ucast h AND LAST_FRAG :: 64 word) 31 = bit (0 :: 64 word) 31"
      by (simp only: last)
    with True show ?thesis by (simp add: bit_LAST_FRAG bit_simps)
  next
    case False
    have "bit (h AND mask 31) n = bit (0 :: 32 word) n" by (simp only: assms(2))
    with False that show ?thesis by (simp add: bit_simps)
  qed
  then have "h = 0" by (intro bit_word_eqI) simp
  with assms(1) show False by simp
qed

text \<open>A fragment that was accepted has bytes in it or is the last one.\<close>

lemma set_input_fragment_returns:
  obtains ok m r where "set_input_fragment st = Some (ok, m, r)"
    and "ok \<Longrightarrow> (ucast (fbtbc r) :: 32 word) \<noteq> 0 \<or> last_frag r"
proof -
  obtain ok bs m r where g: "get_input_bytes st 4 [] = Some (ok, bs, m, r)"
    by (rule get_input_bytes_returns)
  define h where "h = ntohl (of_le32 (fill [0, 0, 0, 0] bs))"
  let ?r = "r\<lparr>last_frag := (ucast h AND LAST_FRAG) \<noteq> 0\<rparr>"
  consider "\<not> ok" | "ok" "h = 0" | "ok" "h \<noteq> 0" by blast
  then show thesis
  proof cases
    case 1
    with g show thesis
      by (intro that [of False m r]) (simp_all add: set_input_fragment_def)
  next
    case 2
    with g show thesis
      by (intro that [of False m ?r]) (simp_all add: set_input_fragment_def h_def [symmetric])
  next
    case 3
    let ?q = "?r\<lparr>fbtbc := ucast h AND NOT LAST_FRAG\<rparr>"
    have "set_input_fragment st = Some (True, m, ?q)"
      using g 3 by (simp add: set_input_fragment_def h_def [symmetric])
    moreover have "(ucast (fbtbc ?q) :: 32 word) \<noteq> 0 \<or> last_frag ?q"
      using 3 header_bits [of h] by (auto simp: LAST_FRAG_mask)
    ultimately show thesis by (rule that)
  qed
qed

lemma rec_getbytes_loop_0: "rec_getbytes_loop st buf off 0 = Some (True, buf, st)"
  by (subst rec_getbytes_loop.simps) simp

lemma rec_getbytes_loop_returns: "\<exists>res. rec_getbytes_loop st buf off len = Some res"
proof (induction "2 * unat len + (if (ucast (fbtbc (snd st)) :: 32 word) = 0 \<and> \<not> last_frag (snd st) then 1 else 0)"
    arbitrary: st buf off len rule: less_induct)
  case less
  let ?cur = "ucast (fbtbc (snd st)) :: 32 word"
  consider "len = 0" | "len > 0" "?cur = 0" "last_frag (snd st)"
    | "len > 0" "?cur = 0" "\<not> last_frag (snd st)" | "len > 0" "?cur \<noteq> 0"
    by (cases "len = 0") (auto simp: word_gt_0)
  then show ?case
  proof cases
    case 1
    then show ?thesis using rec_getbytes_loop_0 by blast
  next
    case 2
    then have "rec_getbytes_loop st buf off len = Some (False, buf, st)"
      by (subst rec_getbytes_loop.simps) simp
    then show ?thesis by blast
  next
    case 3
    obtain ok m r where f: "set_input_fragment st = Some (ok, m, r)"
      and p: "ok \<Longrightarrow> (ucast (fbtbc r) :: 32 word) \<noteq> 0 \<or> last_frag r"
      using set_input_fragment_returns [of st] by blast
    show ?thesis
    proof (cases ok)
      case True
      have "\<exists>res. rec_getbytes_loop (m, r) buf off len = Some res"
        using p [OF True] 3 by (intro less) auto
      with 3 f True show ?thesis by (subst rec_getbytes_loop.simps) simp
    next
      case False
      with 3 f have "rec_getbytes_loop st buf off len = Some (False, buf, m, r)"
        by (subst rec_getbytes_loop.simps) simp
      then show ?thesis by blast
    qed
  next
    case 4
    define n where "n = (if len < ?cur then len else ?cur)"
    have n: "0 < n" "n \<le> len" using 4 by (auto simp: n_def word_gt_0)
    then have lt: "unat (len - n) < unat len"
      by (simp add: unat_sub word_less_nat_alt word_le_nat_alt)
    obtain ok bs m r where g: "get_input_bytes st n [] = Some (ok, bs, m, r)"
      by (rule get_input_bytes_returns)
    show ?thesis
    proof (cases ok)
      case True
      have "\<exists>res. rec_getbytes_loop (m, r\<lparr>fbtbc := fbtbc r - ucast n\<rparr>) (patch buf off bs)
          (off + unat n) (len - n) = Some res"
        using lt by (intro less) auto
      with 4 g True show ?thesis
        by (subst rec_getbytes_loop.simps) (simp add: n_def [symmetric] Let_def)
    next
      case False
      with 4 g have "rec_getbytes_loop st buf off len = Some (False, patch buf off bs, m, r)"
        by (subst rec_getbytes_loop.simps) (simp add: n_def [symmetric] Let_def)
      then show ?thesis by blast
    qed
  qed
qed

lemma flexxdrrec_getlong_returns: "\<exists>res. flexxdrrec_getlong st lp = Some res"
proof (cases st)
  case (Pair m r)
  obtain ok w st' where "flexxdrrec_getbytes (m, r) [0, 0, 0, 0] 4 = Some (ok, w, st')"
    using rec_getbytes_loop_returns [of "(m, r)" "[0, 0, 0, 0]" 0 4]
    by (auto simp: flexxdrrec_getbytes_def)
  then show ?thesis by (auto simp: flexxdrrec_getlong_def Pair)
qed

text \<open>
  On a transport that delivers, a long is the next four bytes of the fragment.  More than four
  bytes at a time are not: four are copied and the rest of the block is left as it was.
\<close>

definition list_read :: "byte list \<Rightarrow> nat \<Rightarrow> int \<times> byte list \<times> byte list" where
  "list_read h n = (if n \<le> length h then (int n, take n h, drop n h) else (-1, [], h))"

lemma get_input_bytes_list:
  assumes "readit r = list_read" and "flextcp_handle r = bs @ rest" and "length bs = 4"
    and "in_boundary r = in_finger r" and "0 <s len" and "\<not> len <s 4"
  shows "get_input_bytes (m, r) len [] = Some (True, bs, wr m (in_base r) bs,
    r\<lparr>flextcp_handle := rest, in_finger := in_base r + 4, in_boundary := in_base r + 4\<rparr>)"
  using assms get_input_bytes_empty [of len r m "[]"]
  by (simp add: list_read_def Let_def)

text \<open>The state after four bytes of the fragment were read into the empty buffer.\<close>

definition after_read :: "'h recstrm \<Rightarrow> 'h \<Rightarrow> 32 word \<Rightarrow> 'h recstrm" where
  "after_read r h n = r\<lparr>flextcp_handle := h, in_finger := in_base r + 4,
     in_boundary := in_base r + 4, fbtbc := fbtbc r - ucast n\<rparr>"

lemma rec_getbytes_once:
  assumes io: "readit r = list_read" "flextcp_handle r = bs @ rest" "length bs = 4"
    and buf: "in_boundary r = in_finger r"
    and len: "0 <s len" "\<not> len <s 4" and frag: "len \<le> ucast (fbtbc r)"
  shows "flexxdrrec_getbytes (m, r) old len =
    Some (True, fill old bs, wr m (in_base r) bs, after_read r rest len)"
proof -
  have pos: "0 < len" using len(1) by (auto simp: word_gt_0)
  with frag have nz: "(ucast (fbtbc r) :: 32 word) \<noteq> 0" by auto
  have cur: "(if len < ucast (fbtbc r) then len else ucast (fbtbc r)) = len"
    using frag by auto
  show ?thesis
    unfolding flexxdrrec_getbytes_def
    using pos nz by (subst rec_getbytes_loop.simps)
      (simp add: cur Let_def get_input_bytes_list [OF io buf len] rec_getbytes_loop_0 patch_0 after_read_def)
qed

lemma getlong_next:
  assumes io: "readit r = list_read" "flextcp_handle r = be32 w @ rest"
    and buf: "in_boundary r = in_finger r" and frag: "4 \<le> (ucast (fbtbc r) :: 32 word)"
  shows "flexxdrrec_getlong (m, r) lp =
    Some (True, scast w, wr m (in_base r) (be32 w), after_read r rest 4)"
proof -
  have s4: "0 <s (4 :: 32 word)" "\<not> (4 :: 32 word) <s 4"
    by (simp_all add: word_sless_alt)
  show ?thesis
    using rec_getbytes_once [OF io length_be32 buf s4 frag, of m "[0, 0, 0, 0]"] buf
    by (simp add: flexxdrrec_getlong_def)
qed

text \<open>The state is one from which the next word can be read.\<close>

lemma after_read_next:
  "readit (after_read r h n) = readit r" "flextcp_handle (after_read r h n) = h"
  "in_boundary (after_read r h n) = in_finger (after_read r h n)"
  "in_base (after_read r h n) = in_base r" "fbtbc (after_read r h n) = fbtbc r - ucast n"
  by (simp_all add: after_read_def)

text \<open>A header is read as the word before a fragment.\<close>

lemma set_input_fragment_list:
  assumes io: "readit r = list_read" "flextcp_handle r = be32 hdr @ rest" and hdr: "hdr \<noteq> 0"
    and buf: "in_boundary r = in_finger r"
  shows "set_input_fragment (m, r) = Some (True, wr m (in_base r) (be32 hdr),
    r\<lparr>flextcp_handle := rest, in_finger := in_base r + 4, in_boundary := in_base r + 4,
      last_frag := bit hdr 31, fbtbc := ucast (hdr AND mask 31)\<rparr>)"
proof -
  have s4: "0 <s (4 :: 32 word)" "\<not> (4 :: 32 word) <s 4"
    by (simp_all add: word_sless_alt)
  have last: "(ucast hdr AND LAST_FRAG \<noteq> 0) = bit hdr 31"
  proof -
    have "bit hdr 31 \<Longrightarrow> bit (ucast hdr AND LAST_FRAG :: 64 word) 31"
      by (simp add: bit_simps bit_LAST_FRAG)
    moreover have "ucast hdr AND LAST_FRAG = 0" if "\<not> bit hdr 31"
      using that by (intro bit_word_eqI) (auto simp: bit_simps bit_LAST_FRAG)
    ultimately show ?thesis by (metis bit_0_eq bot_apply bot_bool_def)
  qed
  show ?thesis
    using hdr get_input_bytes_list [OF io length_be32 buf s4, of m]
    by (simp add: set_input_fragment_def last LAST_FRAG_mask fill_def)
qed

section \<open>What the record stream does\<close>

text \<open>A stream as \<open>flexxdrrec_create\<close> sets it up, with the bytes that will arrive.\<close>

definition idle_stream :: "byte list \<Rightarrow> byte list recstrm" where
  "idle_stream incoming = \<lparr>flextcp_handle = incoming, flex_buffer = 64,
     writeit = (\<lambda>h bs. (int (length bs), h)), out_base = 64, out_finger = 80, out_boundary = 180,
     frag_header = 64, frag_sent = False, readit = list_read, in_size = 96, in_base = 164,
     in_finger = 260, in_boundary = 260, fbtbc = 0, last_frag = True, sendsize = 100, recvsize = 96\<rparr>"

text \<open>
  The size a buffer gets is a multiple of 4 but never the size asked for: it is smaller,
  or smaller than 4000 where fewer than 100 bytes were asked for.
\<close>

theorem fix_buf_size_shrinks:
  "unat (fix_buf_size s) mod 4 = 0 \<and> fix_buf_size s < max s 4000"
proof
  show "unat (fix_buf_size s) mod 4 = 0" by (simp add: fix_buf_size_def FLEX_RNDUP_mod_4)
  show "fix_buf_size s < max s 4000"
  proof (cases "s < 100")
    case True
    have "FLEX_RNDUP 4000 < 4000" by (rule FLEX_RNDUP_less) simp
    with True show ?thesis by (simp add: fix_buf_size_def less_max_iff_disj)
  next
    case False
    then have "fix_buf_size s < s" by (intro fix_buf_size_less) (simp add: not_less)
    then show ?thesis by (simp add: less_max_iff_disj)
  qed
qed

text \<open>
  Nothing that has to send a fragment ever succeeds, whatever the transport reports: not
  ending a record that is to be sent now, and not putting a long or bytes that the buffer has
  no room for.
\<close>

theorem flexxdrrec_never_sends:
  "fst (flexxdrrec_endofrecord (m, r) True) = False \<and>
   (out_boundary r < out_finger r + 4 \<longrightarrow> (\<exists>m' r'. flexxdrrec_putlong (m, r) l = Some (False, m', r'))) \<and>
   (out_finger r \<le> out_boundary r \<and> out_boundary r < out_finger r + unat len \<longrightarrow>
     (\<exists>st. flexxdrrec_putbytes (m, r) bs len = Some (False, st)))"
  using flush_out_fails flexxdrrec_putlong_no_room [of r m l] flexxdrrec_putbytes_no_room [of r len m bs]
  by (auto simp: flexxdrrec_endofrecord_def not_le)

theorem flexxdrrec_never_sends_witness:
  "(\<exists>m' r'. flexxdrrec_putlong ((\<lambda>_. 0), (idle_stream [])\<lparr>out_finger := 180\<rparr>) 7 = Some (False, m', r')) \<and>
   (\<exists>st. flexxdrrec_putbytes ((\<lambda>_. 0), idle_stream []) (replicate 101 1) 101 = Some (False, st))"
  using flexxdrrec_never_sends [of "\<lambda>_. 0" "(idle_stream [])\<lparr>out_finger := 180\<rparr>" 7]
    flexxdrrec_never_sends [where r = "idle_stream []" and len = 101]
  by (simp add: idle_stream_def)

text \<open>Longs put one after the other.\<close>

primrec putlongs :: "64 word list \<Rightarrow> mem \<times> 'h recstrm \<Rightarrow> (bool \<times> mem \<times> 'h recstrm) option" where
  "putlongs [] st = Some (True, st)"
| "putlongs (l # ls) st = do {
     (ok, st) \<leftarrow> flexxdrrec_putlong st l; if ok then putlongs ls st else Some (False, st) }"

text \<open>
  Longs that the buffer has room for are put one over the other: the finger does not move,
  and only the last is left in the buffer.
\<close>

theorem flexxdrrec_putlong_overwrites:
  assumes "out_finger r + 4 \<le> out_boundary r"
  shows "putlongs (ls @ [l]) (m, r) = Some (True, wr m (out_finger r) (be32 (ucast l)), r)"
  using assms by (induction ls arbitrary: m) (simp_all add: flexxdrrec_putlong_room wr_wr_same)

theorem flexxdrrec_putlong_overwrites_witness:
  "putlongs [1, 2, 3] ((\<lambda>_. 0), idle_stream []) = Some (True, wr (\<lambda>_. 0) 80 (be32 3), idle_stream [])"
  using flexxdrrec_putlong_overwrites [of "idle_stream []" "[1, 2]" 3 "\<lambda>_. 0"]
  by (simp add: idle_stream_def)

text \<open>Longs got one after the other.\<close>

primrec getlongs :: "nat \<Rightarrow> mem \<times> 'h recstrm \<Rightarrow> (bool \<times> 64 word list \<times> mem \<times> 'h recstrm) option" where
  "getlongs 0 st = Some (True, [], st)"
| "getlongs (Suc n) st = do {
     (ok, l, st) \<leftarrow> flexxdrrec_getlong st 0;
     if ok then do { (ok, ls, st) \<leftarrow> getlongs n st; Some (ok, l # ls, st) }
     else Some (False, [], st) }"

lemma getlongs_fragment:
  assumes "readit r = list_read" and "flextcp_handle r = concat (map be32 ws) @ rest"
    and "in_boundary r = in_finger r" and "fbtbc r = of_nat (4 * length ws)" and "length ws < 2 ^ 29"
  shows "\<exists>m' r'. getlongs (length ws) (m, r) = Some (True, map scast ws, m', r') \<and>
    flextcp_handle r' = rest \<and> fbtbc r' = 0 \<and> last_frag r' = last_frag r"
  using assms
proof (induction ws arbitrary: m r)
  case (Cons w ws)
  let ?r = "after_read r (concat (map be32 ws) @ rest) 4"
  have c: "(ucast (fbtbc r) :: 32 word) = of_nat (4 * length (w # ws))"
    unfolding Cons.prems(4) by transfer simp
  have "unat (of_nat (4 * length (w # ws)) :: 32 word) = 4 * length (w # ws)"
    by (rule unat_of_nat32) (use Cons.prems(5) in simp)
  then have "4 \<le> (ucast (fbtbc r) :: 32 word)"
    unfolding c word_le_nat_alt by simp
  then have g: "flexxdrrec_getlong (m, r) 0 = Some (True, scast w, wr m (in_base r) (be32 w), ?r)"
    using Cons.prems by (intro getlong_next) simp_all
  have "fbtbc ?r = of_nat (4 * length ws)"
    unfolding after_read_next Cons.prems(4) by simp
  then obtain m' r' where "getlongs (length ws) (wr m (in_base r) (be32 w), ?r) =
      Some (True, map scast ws, m', r')" "flextcp_handle r' = rest" "fbtbc r' = 0" "last_frag r' = last_frag ?r"
    using Cons.IH [of ?r "wr m (in_base r) (be32 w)"] Cons.prems by (auto simp: after_read_next)
  with g show ?case by (simp add: after_read_def)
qed simp


lemma getlong_new_fragment:
  assumes start: "fbtbc r = 0" "\<not> last_frag r"
    and frag: "set_input_fragment (m, r) = Some (True, m1, r1)" "in_boundary r1 = in_finger r1"
  shows "flexxdrrec_getlong (m, r) lp = flexxdrrec_getlong (m1, r1) lp"
proof -
  have "flexxdrrec_getbytes (m, r) [0, 0, 0, 0] 4 = flexxdrrec_getbytes (m1, r1) [0, 0, 0, 0] 4"
    unfolding flexxdrrec_getbytes_def rec_getbytes_loop.simps [of "(m, r)"]
    using start frag by simp
  moreover have "\<not> (4 :: 64 word) \<le>s 0" by (simp add: word_sle_eq)
  ultimately show ?thesis using start frag by (simp add: flexxdrrec_getlong_def)
qed

lemma skiprecord_at_end:
  "fbtbc r = 0 \<Longrightarrow> last_frag r \<Longrightarrow> flexxdrrec_skiprecord (m, r) = Some (True, m, r\<lparr>last_frag := False\<rparr>)"
  by (simp add: flexxdrrec_skiprecord_def skiprecord_loop.simps [of "(m, r)"])

text \<open>
  On a transport that delivers, a handle whose record is finished skips to the next one and
  gets the words of its first fragment in order, each sign-extended; then the fragment is used
  up, and whether it was the record's last is what its header says.
\<close>

theorem flexxdrrec_reads_fragment:
  assumes io: "readit r = list_read" "flextcp_handle r = be32 hdr @ concat (map be32 (w # ws)) @ rest"
    and start: "fbtbc r = 0" "last_frag r" "in_boundary r = in_finger r"
    and hdr: "hdr AND mask 31 = of_nat (4 * length (w # ws))" and len: "length (w # ws) < 2 ^ 29"
  shows "\<exists>m1 r1 m' r'. flexxdrrec_skiprecord (m, r) = Some (True, m1, r1) \<and>
    getlongs (length (w # ws)) (m1, r1) = Some (True, map scast (w # ws), m', r') \<and>
    flextcp_handle r' = rest \<and> fbtbc r' = 0 \<and> last_frag r' = bit hdr 31"
proof -
  let ?r1 = "r\<lparr>last_frag := False\<rparr>"
  let ?r2 = "?r1\<lparr>flextcp_handle := concat (map be32 (w # ws)) @ rest, in_finger := in_base r + 4,
    in_boundary := in_base r + 4, last_frag := bit hdr 31, fbtbc := ucast (hdr AND mask 31)\<rparr>"
  have u: "unat (of_nat (4 * length (w # ws)) :: 32 word) = 4 * length (w # ws)"
    by (rule unat_of_nat32) (use len in simp)
  then have "hdr AND mask 31 \<noteq> 0" unfolding hdr by auto
  then have nz: "hdr \<noteq> 0" by auto
  have frag: "set_input_fragment (m, ?r1) = Some (True, wr m (in_base r) (be32 hdr), ?r2)"
    using set_input_fragment_list [of ?r1 hdr "concat (map be32 (w # ws)) @ rest" m] io start nz by simp
  have first: "flexxdrrec_getlong (m, ?r1) 0 = flexxdrrec_getlong (wr m (in_base r) (be32 hdr), ?r2) 0"
    by (rule getlong_new_fragment [OF _ _ frag]) (use start in simp_all)
  have "fbtbc ?r2 = of_nat (4 * length (w # ws))"
  proof -
    have "(ucast (of_nat (4 * length (w # ws)) :: 32 word) :: 64 word) =
        of_nat (unat (of_nat (4 * length (w # ws)) :: 32 word))" by simp
    then show ?thesis unfolding u using hdr by simp
  qed
  then obtain m' r' where "getlongs (length (w # ws)) (wr m (in_base r) (be32 hdr), ?r2) =
      Some (True, map scast (w # ws), m', r')" "flextcp_handle r' = rest" "fbtbc r' = 0"
      "last_frag r' = bit hdr 31"
    using getlongs_fragment [of ?r2 "w # ws" rest "wr m (in_base r) (be32 hdr)"] io len by auto
  then have "getlongs (length (w # ws)) (m, ?r1) = Some (True, map scast (w # ws), m', r')"
    and r': "flextcp_handle r' = rest" "fbtbc r' = 0" "last_frag r' = bit hdr 31"
    using first by (simp_all only: getlongs.simps length_Cons)
  with skiprecord_at_end [OF start(1,2), of m] show ?thesis by blast
qed

theorem flexxdrrec_reads_fragment_witness:
  "\<exists>m1 r1 m' r'. flexxdrrec_skiprecord ((\<lambda>_. 0), idle_stream (be32 0x80000008 @ be32 7 @ be32 9)) =
      Some (True, m1, r1) \<and>
    getlongs 2 (m1, r1) = Some (True, [7, 9], m', r') \<and> flextcp_handle r' = [] \<and> last_frag r'"
proof -
  let ?s = "idle_stream (be32 0x80000008 @ be32 7 @ be32 9)"
  have io: "readit ?s = list_read" "flextcp_handle ?s = be32 0x80000008 @ concat (map be32 [7, 9]) @ []"
    and start: "fbtbc ?s = 0" "last_frag ?s" "in_boundary ?s = in_finger ?s"
    by (simp_all add: idle_stream_def)
  have hdr: "(0x80000008 :: 32 word) AND mask 31 = of_nat (4 * length [7, 9 :: 32 word])"
    and last: "bit (0x80000008 :: 32 word) 31"
    by (simp_all add: mask_eq_exp_minus_1 bit_simps)
  have len: "length [7, 9 :: 32 word] < 2 ^ 29" by simp
  have e: "length [7, 9 :: 32 word] = 2" "map scast [7, 9 :: 32 word] = [7, 9 :: 64 word]" by simp_all
  show ?thesis
    using flexxdrrec_reads_fragment [OF io start hdr len, of "\<lambda>_. 0"] last unfolding e by blast
qed

text \<open>
  Getting bytes or a long returns for every state of the stream, every transport and every
  length, although the loops have no bound in the code: each round takes at least one byte off
  the length, or gets a fragment that is not empty, or is the last.
\<close>

theorem flexxdrrec_input_returns:
  "(\<exists>res. flexxdrrec_getbytes st buf len = Some res) \<and> (\<exists>res. flexxdrrec_getlong st l = Some res)"
  using rec_getbytes_loop_returns [of st buf 0 len] flexxdrrec_getlong_returns [of st l]
  by (simp add: flexxdrrec_getbytes_def)

text \<open>
  Getting more than four bytes of a fragment at once reports success, takes four bytes from
  the transport, counts all of them as consumed and leaves the rest of the caller's block as it
  was.
\<close>

theorem flexxdrrec_getbytes_short:
  assumes io: "readit r = list_read" "flextcp_handle r = bs @ rest" "length bs = 4"
    and buf: "in_boundary r = in_finger r"
    and len: "0 <s len" "\<not> len <s 4" and frag: "len \<le> ucast (fbtbc r)"
  shows "\<exists>m' r'. flexxdrrec_getbytes (m, r) old len = Some (True, bs @ drop 4 old, m', r') \<and>
    flextcp_handle r' = rest \<and> fbtbc r' = fbtbc r - ucast len"
  using rec_getbytes_once [OF assms] io(3) by (simp add: fill_def after_read_def)

theorem flexxdrrec_getbytes_short_witness:
  "\<exists>m' r'. flexxdrrec_getbytes ((\<lambda>_. 0), (idle_stream [1, 2, 3, 4, 5, 6, 7, 8])\<lparr>fbtbc := 8\<rparr>)
    [0, 0, 0, 0, 0, 0, 0, 0] 8 = Some (True, [1, 2, 3, 4, 0, 0, 0, 0], m', r') \<and>
    flextcp_handle r' = [5, 6, 7, 8] \<and> fbtbc r' = 0"
  using flexxdrrec_getbytes_short [of "(idle_stream [1, 2, 3, 4, 5, 6, 7, 8])\<lparr>fbtbc := 8\<rparr>" "[1, 2, 3, 4]"
      "[5, 6, 7, 8]" 8 "\<lambda>_. 0" "[0, 0, 0, 0, 0, 0, 0, 0]"]
  by (simp add: idle_stream_def word_sless_alt)

end
