(* ===== verification/Mem_Safety.thy ===== *)
theory Mem_Safety
  imports Flex_Mem
begin

text \<open>
  Memory safety of the memory streams, \<open>tirpc/src/xdr_mem.c\<close> and \<open>flexrpc/flexxdr_mem.c\<close>:
  whatever a caller does with a handle through its vector, in any order and with any
  arguments, no byte outside the buffer the handle was created on is written.  The calls are
  the steps of a relation, with the caller's own stores into an in-line buffer among them;
  the interface is the invariant each operation of a vector keeps.
\<close>

section \<open>What a caller can do\<close>

text \<open>
  One call through the vector \<open>ops\<close> of a handle whose operation is \<open>op\<close>.  A caller of
  \<open>putbytes\<close> supplies the bytes it names, and a caller of \<open>inline\<close> writes at most the
  bytes it asked for at the address it was given.
\<close>

inductive stream_step :: "'s xdr_ops \<Rightarrow> xdr_op \<Rightarrow> mem \<times> 's \<Rightarrow> mem \<times> 's \<Rightarrow> bool" for ops op where
  getlong: "x_getlong ops st l = Some (ok, l', st') \<Longrightarrow> stream_step ops op st st'"
| putlong: "x_putlong ops st l = Some (ok, st') \<Longrightarrow> stream_step ops op st st'"
| getbytes: "x_getbytes ops st buf len = Some (ok, buf', st') \<Longrightarrow> stream_step ops op st st'"
| putbytes: "unat len \<le> length bs \<Longrightarrow> x_putbytes ops st bs len = Some (ok, st') \<Longrightarrow>
    stream_step ops op st st'"
| setpos: "x_setpostn ops = Some f \<Longrightarrow> f op st pos = (ok, st') \<Longrightarrow> stream_step ops op st st'"
| inline_skip: "x_inline ops = Some f \<Longrightarrow> f op st len = (buf, st') \<Longrightarrow> stream_step ops op st st'"
| inline_store: "x_inline ops = Some f \<Longrightarrow> f op st len = (buf, m, s) \<Longrightarrow> buf \<noteq> 0 \<Longrightarrow>
    length bs \<le> unat len \<Longrightarrow> stream_step ops op st (wr m buf bs, s)"

inductive_cases stream_stepE: "stream_step ops op st st'"

abbreviation stream_steps where
  "stream_steps ops op \<equiv> (stream_step ops op)\<^sup>*\<^sup>*"

section \<open>The interface: operations that stay within a buffer\<close>

text \<open>
  The finger and the bytes left lie within the \<open>n\<close> bytes at \<open>b\<close>, outside of which memory is
  what it was.  It is weaker than the invariant of the contracts: the last byte left may lie
  before the end of the buffer, as it does after flexrpc's \<open>setpos\<close>.
\<close>

definition within :: "mem \<Rightarrow> addr \<Rightarrow> nat \<Rightarrow> mem \<times> memstrm \<Rightarrow> bool" where
  "within m0 b n = (\<lambda>(m, s). m_base s = b \<and> b \<le> m_private s \<and>
     m_private s + unat (m_handy s) \<le> b + n \<and> (\<forall>x. x < b \<or> b + n \<le> x \<longrightarrow> m x = m0 x))"

locale bounded_vector =
  fixes ops :: "memstrm xdr_ops"
  assumes getlong_within: "within m0 b n st \<Longrightarrow> x_getlong ops st l = Some (ok, l', st') \<Longrightarrow>
      within m0 b n st'"
    and putlong_within: "within m0 b n st \<Longrightarrow> x_putlong ops st l = Some (ok, st') \<Longrightarrow>
      within m0 b n st'"
    and getbytes_within: "within m0 b n st \<Longrightarrow> x_getbytes ops st buf len = Some (ok, buf', st') \<Longrightarrow>
      within m0 b n st'"
    and putbytes_within: "within m0 b n st \<Longrightarrow> unat len \<le> length bs \<Longrightarrow>
      x_putbytes ops st bs len = Some (ok, st') \<Longrightarrow> within m0 b n st'"
    and setpos_within: "within m0 b n st \<Longrightarrow> n < 2 ^ 32 \<Longrightarrow> x_setpostn ops = Some f \<Longrightarrow>
      f op st pos = (ok, st') \<Longrightarrow> within m0 b n st'"
    and inline_within: "within m0 b n st \<Longrightarrow> x_inline ops = Some g \<Longrightarrow>
      g op st len = (a, st') \<Longrightarrow> within m0 b n st'"
    and inline_store_within: "within m0 b n st \<Longrightarrow> x_inline ops = Some g \<Longrightarrow>
      g op st len = (a, m, s) \<Longrightarrow> a \<noteq> 0 \<Longrightarrow> length bs \<le> unat len \<Longrightarrow>
      within m0 b n (wr m a bs, s)"
begin

lemmas within_laws = getlong_within putlong_within getbytes_within putbytes_within
  setpos_within inline_within inline_store_within

lemma step_within:
  "stream_step ops op st st' \<Longrightarrow> n < 2 ^ 32 \<Longrightarrow> within m0 b n st \<Longrightarrow> within m0 b n st'"
  by (erule stream_stepE) (auto intro: within_laws)

lemma steps_within:
  "stream_steps ops op st st' \<Longrightarrow> n < 2 ^ 32 \<Longrightarrow> within m0 b n st \<Longrightarrow> within m0 b n st'"
  by (induction rule: rtranclp_induct) (auto intro: step_within)

lemma handle_confined:
  assumes steps: "stream_steps ops op (xst (mem_handle ops m a sz op)) (m', s')"
  shows "\<forall>x. x < a \<or> a + unat sz \<le> x \<longrightarrow> m' x = m x"
    and "m_base s' = a \<and> a \<le> m_private s' \<and> m_private s' + unat (m_handy s') \<le> a + unat sz"
proof -
  have "unat sz < 2 ^ 32" using unsigned_less [of sz] by simp
  moreover have "within m a (unat sz) (xst (mem_handle ops m a sz op))"
    by (simp add: within_def mem_handle_def xst_def)
  ultimately have "within m a (unat sz) (m', s')"
    by (rule steps_within [OF steps])
  then show "\<forall>x. x < a \<or> a + unat sz \<le> x \<longrightarrow> m' x = m x"
    and "m_base s' = a \<and> a \<le> m_private s' \<and> m_private s' + unat (m_handy s') \<le> a + unat sz"
    by (simp_all add: within_def)
qed

end

section \<open>The vectors\<close>

lemma within_advance:
  "within m0 b n (m, s) \<Longrightarrow> len \<le> m_handy s \<Longrightarrow> within m0 b n (m, advance s len)"
  using unat_sub [of len "m_handy s"]
  by (auto simp: within_def word_le_nat_alt)

lemma within_store:
  assumes "within m0 b n (m, s)" and "len \<le> m_handy s" and "length bs \<le> unat len"
  shows "within m0 b n (wr m (m_private s) bs, advance s len)"
proof -
  have "within m0 b n (m, advance s len)" by (rule within_advance [OF assms(1,2)])
  then show ?thesis
    using assms(1,3) by (auto simp: within_def wr_def)
qed

lemma within_setpos:
  assumes "within m0 b n (m, s)" and "n < 2 ^ 32" and "xdrmem_setpos op (m, s) pos = (ok, st')"
  shows "within m0 b n st'"
proof -
  have le: "m_private s + unat (m_handy s) \<le> b + n" and base: "m_base s = b" "b \<le> m_private s"
    using assms(1) by (simp_all add: within_def)
  let ?rest = "m_private s + unat (m_handy s) - (m_base s + unat pos)"
  have "?rest < 2 ^ 32" using le base assms(2) by simp
  then have "unat (of_nat ?rest :: 32 word) = ?rest" by (rule unat_of_nat32)
  with assms(1,3) show ?thesis
    unfolding xdrmem_setpos_def Let_def prod.case
    by (auto simp: within_def simp del: of_nat_diff split: if_splits)
qed

lemma if_pair_eq: "(if C then (x, y) else (x', y')) = (ok, z) \<Longrightarrow> z = y \<or> \<not> C \<and> z = y'"
  by (simp split: if_splits)

lemma unat_cast_int:
  assumes "0 \<le> d" and "d < 2 ^ 32"
  shows "unat (ucast (of_int d :: 64 word) :: 32 word) = nat d"
proof -
  have "uint (ucast (of_int d :: 64 word) :: 32 word) = d"
    using assms by (simp add: unsigned_ucast_eq uint_word_of_int_eq take_bit_int_eq_self_iff)
  then show ?thesis by (metis nat_uint_eq)
qed

lemma within_flex_setpos:
  assumes "within m0 b n (m, s)" and "n < 2 ^ 32" and "flexxdrmem_setpos op (m, s) pos = (ok, st')"
  shows "within m0 b n st'"
proof -
  define d where "d = int (m_private s) - uint (m_handy s) - (int (m_base s) + uint pos)"
  have le: "m_private s + unat (m_handy s) \<le> b + n" and base: "m_base s = b" "b \<le> m_private s"
    using assms(1) by (simp_all add: within_def)
  have h: "int (unat (m_handy s)) = uint (m_handy s)" "int (unat pos) = uint pos"
    by (simp_all only: uint_nat)
  have "d \<le> int n" using le base h uint_ge_0 [of pos] unfolding d_def by linarith
  then have small: "d < 2 ^ 32" using assms(2) by simp
  have "st' = (m, s) \<or> 0 \<le> d \<and> st' =
      (m, s\<lparr>m_private := nat (int (m_base s) + uint pos), m_handy := ucast (of_int d :: 64 word)\<rparr>)"
    using if_pair_eq [OF assms(3) [unfolded flexxdrmem_setpos_def Let_def prod.case d_def [symmetric]]]
  proof (elim disjE conjE)
    assume "\<not> (int (m_private s) - uint (m_handy s) < int (m_base s) + uint pos \<or>
        int (m_base s) + uint pos < int (m_base s) \<or>
        (of_int d :: 64 word) \<noteq> ucast (ucast (of_int d :: 64 word) :: 32 word))"
    then have "0 \<le> d" unfolding d_def by linarith
    moreover assume "st' =
      (m, s\<lparr>m_private := nat (int (m_base s) + uint pos), m_handy := ucast (of_int d :: 64 word)\<rparr>)"
    ultimately show ?thesis by blast
  qed blast
  then show ?thesis
  proof (elim disjE conjE)
    assume nn: "0 \<le> d" and st': "st' =
      (m, s\<lparr>m_private := nat (int (m_base s) + uint pos), m_handy := ucast (of_int d :: 64 word)\<rparr>)"
    note unat_cast_int [OF nn small]
    moreover have "nat (int (m_base s) + uint pos) = m_base s + unat pos"
      using h by linarith
    moreover have "m_base s + unat pos + nat d \<le> b + n"
      using nn le base h unfolding d_def by linarith
    ultimately show ?thesis
      using assms(1) unfolding st' by (simp add: within_def)
  qed (use assms(1) in simp)
qed

lemmas within_op_defs = xdrmem_op_defs store32_htonl Let_def

interpretation alv: bounded_vector xdrmem_ops_aligned
  by unfold_locales
    (auto simp: xdrmem_ops_aligned_def within_op_defs not_less intro!: within_store
      intro: within_advance dest: within_setpos split: if_splits)

interpretation unv: bounded_vector xdrmem_ops_unaligned
  by unfold_locales
    (auto simp: xdrmem_ops_unaligned_def within_op_defs not_less intro!: within_store
      intro: within_advance dest: within_setpos split: if_splits)

interpretation fmv: bounded_vector flexxdrmem_ops
  by unfold_locales
    (auto simp: flexxdrmem_ops_def flexxdrmem_eqs flexxdrmem_getlong_def within_op_defs not_less
      intro!: within_store intro: within_advance dest: within_flex_setpos
      split: if_splits)

section \<open>Confinement\<close>

text \<open>
  C26: Whatever calls are made, in whatever order and with whatever arguments, through a handle
  that \<open>xdrmem_create\<close> set up on \<open>sz\<close> bytes at \<open>a\<close>, aligned or not: no byte outside them
  is written, the base stays at \<open>a\<close>, and the finger with the bytes left stays among them.
\<close>

theorem xdrmem_confined:
  assumes "stream_steps (x_ops (xdrmem_create m a sz op)) op (xst (xdrmem_create m a sz op)) (m', s')"
  shows "(\<forall>x. x < a \<or> a + unat sz \<le> x \<longrightarrow> m' x = m x) \<and> m_base s' = a \<and> a \<le> m_private s' \<and>
    m_private s' + unat (m_handy s') \<le> a + unat sz"
proof (cases "a mod 4 = 0")
  case True
  with assms alv.handle_confined [of op m a sz m' s'] show ?thesis
    by (simp add: xdrmem_create_handle)
next
  case False
  then have "xdrmem_create m a sz op = mem_handle xdrmem_ops_unaligned m a sz op"
    by (rule xdrmem_create_handle)
  with assms unv.handle_confined [of op m a sz m' s'] show ?thesis by simp
qed

theorem xdrmem_confined_witness:
  "\<exists>m' s'. stream_steps (x_ops (xdrmem_create (\<lambda>_. 0) 4096 8 XDR_ENCODE)) XDR_ENCODE
      (xst (xdrmem_create (\<lambda>_. 0) 4096 8 XDR_ENCODE)) (m', s') \<and> m' 4099 = 7 \<and> m' 5000 = 0"
proof -
  let ?x = "xdrmem_create (\<lambda>_. 0) 4096 8 XDR_ENCODE"
  let ?s = "advance (x_private ?x) 4"
  have "xdrmem_putlong_aligned (xst ?x) 7 = Some (True, wr (\<lambda>_. 0) 4096 (be32 7), ?s)"
    by (simp add: xdrmem_create_def xst_def within_op_defs)
  then have step: "stream_steps (x_ops ?x) XDR_ENCODE (xst ?x) (wr (\<lambda>_. 0) 4096 (be32 7), ?s)"
    by (intro r_into_rtranclp stream_step.putlong) (simp add: xdrmem_create_def xdrmem_ops_aligned_def)
  then have "\<forall>x. x < 4096 \<or> 4096 + unat (8 :: 32 word) \<le> x \<longrightarrow> wr (\<lambda>_. 0) 4096 (be32 7) x = 0"
    using xdrmem_confined [of "\<lambda>_. 0" 4096 8 XDR_ENCODE "wr (\<lambda>_. 0) 4096 (be32 7)" ?s] by blast
  from spec [OF this, of 5000] have "wr (\<lambda>_. 0) 4096 (be32 7) 5000 = 0" by simp
  moreover have "wr (\<lambda>_. 0) 4096 (be32 7) 4099 = 7" by (simp add: wr_def be32_def le32_def)
  ultimately show ?thesis using step by blast
qed

text \<open>
  C33: The same of flexrpc's streams, although their \<open>setpos\<close> takes \<open>f_private - f_handy\<close> for
  the end of the buffer: what it makes of the handle still lies within the buffer.
\<close>

theorem flexxdrmem_confined:
  assumes "stream_steps flexxdrmem_ops op (xst (flexxdrmem_create m a sz op)) (m', s')"
  shows "(\<forall>x. x < a \<or> a + unat sz \<le> x \<longrightarrow> m' x = m x) \<and> m_base s' = a \<and> a \<le> m_private s' \<and>
    m_private s' + unat (m_handy s') \<le> a + unat sz"
  using fmv.handle_confined [of op m a sz m' s'] assms
  unfolding flexxdrmem_create_handle by blast

theorem flexxdrmem_confined_witness:
  "\<exists>m' s'. stream_steps flexxdrmem_ops XDR_ENCODE
      (xst (flexxdrmem_create (\<lambda>_. 0) 4096 8 XDR_ENCODE)) (m', s') \<and> m' 4099 = 7 \<and> m' 5000 = 0"
proof -
  let ?x = "flexxdrmem_create (\<lambda>_. 0) 4096 8 XDR_ENCODE"
  let ?s = "advance (x_private ?x) 4"
  have "flexxdrmem_putlong (xst ?x) 7 = Some (True, wr (\<lambda>_. 0) 4096 (be32 7), ?s)"
    by (simp add: flexxdrmem_create_def flexxdrmem_putlong_def xst_def store32_htonl)
  then have step: "stream_steps flexxdrmem_ops XDR_ENCODE (xst ?x) (wr (\<lambda>_. 0) 4096 (be32 7), ?s)"
    by (intro r_into_rtranclp stream_step.putlong) (simp add: flexxdrmem_ops_def)
  then have "\<forall>x. x < 4096 \<or> 4096 + unat (8 :: 32 word) \<le> x \<longrightarrow> wr (\<lambda>_. 0) 4096 (be32 7) x = 0"
    using flexxdrmem_confined [of XDR_ENCODE "\<lambda>_. 0" 4096 8 "wr (\<lambda>_. 0) 4096 (be32 7)" ?s] by blast
  from spec [OF this, of 5000] have "wr (\<lambda>_. 0) 4096 (be32 7) 5000 = 0" by simp
  moreover have "wr (\<lambda>_. 0) 4096 (be32 7) 4099 = 7" by (simp add: wr_def be32_def le32_def)
  ultimately show ?thesis using step by blast
qed

section \<open>Repositioning\<close>

lemma xdrmem_setpos_inv:
  assumes inv: "mem_inv m0 b n (m, s)" and n: "n < 2 ^ 32"
  shows "fst (xdrmem_setpos op (m, s) pos) \<longleftrightarrow> unat pos \<le> n"
    and "mem_inv m0 b n (snd (xdrmem_setpos op (m, s) pos))"
proof -
  have last: "m_private s + unat (m_handy s) = m_base s + n" "m_base s = b"
    using inv by (simp_all add: mem_inv_def)
  then show "fst (xdrmem_setpos op (m, s) pos) \<longleftrightarrow> unat pos \<le> n"
    by (auto simp: xdrmem_setpos_def Let_def)
  have "unat (of_nat (n - unat pos) :: 32 word) = n - unat pos"
    using n by (intro unat_of_nat32) simp
  with inv last show "mem_inv m0 b n (snd (xdrmem_setpos op (m, s) pos))"
    unfolding xdrmem_setpos_def Let_def prod.case last diff_add_inverse
    by (auto simp: mem_inv_def simp del: of_nat_diff)
qed

text \<open>A difference of addresses that is not negative and fits 32 bits survives both casts.\<close>

lemma handy_round_trip:
  assumes "0 \<le> d" and "d < 2 ^ 32"
  shows "(of_int d :: 64 word) = ucast (ucast (of_int d :: 64 word) :: 32 word)"
proof -
  have "uint (of_int d :: 64 word) = d"
    using assms by (simp add: uint_word_of_int_eq take_bit_int_eq_self_iff)
  then have "(of_int d :: 64 word) < 2 ^ 32"
    using assms by (simp add: word_less_def)
  then show ?thesis by (simp only: ucast_down_up)
qed

lemma flexxdrmem_setpos_iff:
  assumes "mem_inv m0 b n (m, s)" and "n < 2 ^ 32"
  shows "fst (flexxdrmem_setpos op (m, s) pos) \<longleftrightarrow>
    unat pos + unat (m_handy s) \<le> m_private s - m_base s"
proof -
  define d where "d = int (m_private s) - uint (m_handy s) - (int (m_base s) + uint pos)"
  have inv: "m_base s \<le> m_private s" "m_private s + unat (m_handy s) = m_base s + n"
    using assms by (simp_all add: mem_inv_def)
  have "d \<le> int n"
    using inv unfolding d_def by (simp only: uint_nat)
  then have rt: "0 \<le> d \<Longrightarrow> (of_int d :: 64 word) = ucast (ucast (of_int d :: 64 word) :: 32 word)"
    using assms(2) by (intro handy_round_trip) simp_all
  have d: "0 \<le> d \<longleftrightarrow> unat pos + unat (m_handy s) \<le> m_private s - m_base s"
    using inv(1) unfolding d_def by (simp only: uint_nat) linarith
  have "fst (flexxdrmem_setpos op (m, s) pos) \<longleftrightarrow> 0 \<le> d"
    using rt uint_ge_0 [of pos]
    unfolding flexxdrmem_setpos_def Let_def prod.case d_def [symmetric] by (auto simp: d_def)
  with d show ?thesis by simp
qed

text \<open>
  libtirpc's \<open>setpos\<close> accepts exactly the positions within the buffer the handle was
  created on, in every state of the stream that keeps its invariant, and then leaves the rest of the buffer to read or
  write; flexrpc's accepts a position only when at least as many bytes lie between it and the
  finger as are left behind it, so none while the finger is in the first half of the buffer.
\<close>

theorem mem_setpos_accepts:
  assumes "mem_inv m0 a n (m, s)" and "n < 2 ^ 32"
  shows "(fst (xdrmem_setpos op (m, s) pos) \<longleftrightarrow> unat pos \<le> n) \<and>
    mem_inv m0 a n (snd (xdrmem_setpos op (m, s) pos)) \<and>
    (fst (flexxdrmem_setpos op (m, s) pos) \<longleftrightarrow> unat pos + unat (m_handy s) \<le> m_private s - m_base s)"
  using assms by (intro conjI xdrmem_setpos_inv flexxdrmem_setpos_iff)

theorem mem_setpos_accepts_witness:
  "fst (xdrmem_setpos XDR_DECODE (xst (xdrmem_create (\<lambda>_. 0) 4096 8 XDR_DECODE)) 4) \<and>
   \<not> fst (flexxdrmem_setpos XDR_DECODE (xst (flexxdrmem_create (\<lambda>_. 0) 4096 8 XDR_DECODE)) 4)"
  using mem_setpos_accepts [of "\<lambda>_. 0" 4096 8 "\<lambda>_. 0" "\<lparr>m_base = 4096, m_private = 4096, m_handy = 8\<rparr>"
      XDR_DECODE 4]
  by (simp add: mem_inv_def xst_def xdrmem_create_def flexxdrmem_create_def)

end
