(* ===== verification/Rpcb_List.thy ===== *)
theory Rpcb_List
  imports Base
begin

text \<open>
  The registry of \<open>rpcbind\<close> (\<open>lib/rpcbind/src\<close>): the list \<open>list_rbl\<close> of version 3 and 4
  services and the list \<open>list_pml\<close> of version 2 services, with the functions of
  \<open>rpcb_svc_com.c\<close> and \<open>pmap_svc.c\<close> that search and change them, as built with \<open>PORTMAP\<close>.
  The lists are HOL lists in the order of the links, and a pointer into a list is the entry
  it points to.  Strings are never null in a list: \<open>map_set\<close> fills it from \<open>strdup\<close>.
  The lookup of an entry is an interface that both lists provide.
\<close>

section \<open>Strings of the C library\<close>

definition tolower :: "char \<Rightarrow> char" where
  "tolower c = (if 65 \<le> (of_char c :: nat) \<and> (of_char c :: nat) \<le> 90
     then char_of ((of_char c :: nat) + 32) else c)"

definition strcasecmp :: "string \<Rightarrow> string \<Rightarrow> bool" where
  "strcasecmp s t \<longleftrightarrow> map tolower s \<noteq> map tolower t"

text \<open>\<open>strrchr\<close> gives what stands before and after the last occurrence.\<close>

definition strrchr :: "string \<Rightarrow> char \<Rightarrow> (string \<times> string) option" where
  "strrchr s c = (let t = takeWhile (\<lambda>d. d \<noteq> c) (rev s) in
     if length t = length s then None
     else Some (take (length s - length t - 1) s, rev t))"

definition isspace :: "char \<Rightarrow> bool" where
  "isspace c \<longleftrightarrow> (let n = of_char c :: nat in n = 32 \<or> 9 \<le> n \<and> n \<le> 13)"

definition isdigit :: "char \<Rightarrow> bool" where
  "isdigit c \<longleftrightarrow> (let n = of_char c :: nat in 48 \<le> n \<and> n \<le> 57)"

fun digits :: "nat \<Rightarrow> string \<Rightarrow> nat" where
  "digits acc [] = acc"
| "digits acc (c # s) = (if isdigit c then digits (10 * acc + (of_char c - 48)) s else acc)"

text \<open>
  \<open>atoi\<close> skips white space, takes a sign and reads digits.  As in the C libraries, where
  it is \<open>(int) strtol(s, NULL, 10)\<close>, the value saturates at 64 bits and is then cut to 32.
\<close>

definition atoi :: "string \<Rightarrow> 32 word" where
  "atoi s = (let s = dropWhile isspace s;
      v = (case s of
         [] \<Rightarrow> 0
       | c # s' \<Rightarrow> if c = CHR ''-'' then - int (digits 0 s')
           else if c = CHR ''+'' then int (digits 0 s') else int (digits 0 s))
     in word_of_int (max (- (2 ^ 63)) (min (2 ^ 63 - 1) v)))"

text \<open>\<open>%d\<close> of a number that is not negative.\<close>

fun decimal :: "nat \<Rightarrow> string" where
  "decimal n = (if n < 10 then [char_of (48 + n)]
     else decimal (n div 10) @ [char_of (48 + n mod 10)])"

declare decimal.simps [simp del]

section \<open>Entries and state\<close>

text \<open>
  \<open>rpcprog_t\<close> and \<open>rpcvers_t\<close> have 32 bits; the fields of \<open>struct pmap\<close> are \<open>long unsigned\<close>.
\<close>

record rpcb =
  r_prog :: "32 word"
  r_vers :: "32 word"
  r_netid :: string
  r_addr :: string
  r_owner :: string

record pmap =
  pm_prog :: "64 word"
  pm_vers :: "64 word"
  pm_prot :: "64 word"
  pm_port :: "64 word"

record registry =
  list_rbl :: "rpcb list"
  list_pml :: "pmap list"
  tcptrans :: string
  udptrans :: string

text \<open>Which of the allocations of an operation succeed.\<close>

record allocs =
  rbl_ok :: bool
  strdup_ok :: bool
  pml_ok :: bool

definition IPPROTO_TCP :: "64 word" where "IPPROTO_TCP = 6"
definition IPPROTO_UDP :: "64 word" where "IPPROTO_UDP = 17"

definition pmap_netid2ipprot :: "registry \<Rightarrow> string \<Rightarrow> 64 word" where
  "pmap_netid2ipprot g netid =
     (if netid = tcptrans g then IPPROTO_TCP
      else if netid = udptrans g then IPPROTO_UDP else 0)"

definition pmap_ipprot2netid :: "registry \<Rightarrow> 64 word \<Rightarrow> string option" where
  "pmap_ipprot2netid g proto =
     (if proto = IPPROTO_UDP then Some (udptrans g)
      else if proto = IPPROTO_TCP then Some (tcptrans g) else None)"

section \<open>Lookup\<close>

text \<open>
  The loop of both searches: entries that do not fit are skipped, one that fits is
  remembered, one of the wanted version ends the loop.
\<close>

fun hit_loop :: "('a \<Rightarrow> bool) \<Rightarrow> ('a \<Rightarrow> bool) \<Rightarrow> 'a list \<Rightarrow> 'a option \<Rightarrow> 'a option" where
  "hit_loop skip stop [] hit = hit"
| "hit_loop skip stop (a # l) hit =
     (if skip a then hit_loop skip stop l hit
      else if stop a then Some a
      else hit_loop skip stop l (Some a))"

definition find_service :: "rpcb list \<Rightarrow> 32 word \<times> string \<Rightarrow> 32 word \<Rightarrow> rpcb option" where
  "find_service l = (\<lambda>(prog, netid) vers.
     hit_loop (\<lambda>rbl. r_prog rbl \<noteq> prog \<or> strcasecmp (r_netid rbl) netid)
       (\<lambda>rbl. r_vers rbl = vers) l None)"

definition find_service_pmap :: "pmap list \<Rightarrow> 32 word \<times> 32 word \<Rightarrow> 32 word \<Rightarrow> pmap option" where
  "find_service_pmap l = (\<lambda>(prog, prot) vers.
     hit_loop (\<lambda>pml. pm_prog pml \<noteq> ucast prog \<or> pm_prot pml \<noteq> ucast prot)
       (\<lambda>pml. pm_vers pml = ucast vers) l None)"

fun find_versions_loop :: "32 word \<Rightarrow> string \<Rightarrow> rpcb list \<Rightarrow> 32 word \<Rightarrow> 32 word \<Rightarrow> 32 word \<times> 32 word" where
  "find_versions_loop prog netid [] lowv highv = (lowv, highv)"
| "find_versions_loop prog netid (rbl # l) lowv highv =
     (if r_prog rbl \<noteq> prog \<or> strcasecmp (r_netid rbl) netid
        then find_versions_loop prog netid l lowv highv
      else if lowv = 0 then find_versions_loop prog netid l (r_vers rbl) (r_vers rbl)
      else if r_vers rbl < lowv then find_versions_loop prog netid l (r_vers rbl) highv
      else if highv < r_vers rbl then find_versions_loop prog netid l lowv (r_vers rbl)
      else find_versions_loop prog netid l lowv highv)"

definition find_versions :: "registry \<Rightarrow> 32 word \<Rightarrow> string \<Rightarrow> 32 word \<times> 32 word" where
  "find_versions g prog netid = find_versions_loop prog netid (list_rbl g) 0 0"

section \<open>Changes\<close>

text \<open>\<open>uaddr2port\<close> restores the string it cuts, and leaves \<open>*p_port\<close> alone when it fails.\<close>

definition uaddr2port :: "string \<Rightarrow> 64 word option" where
  "uaddr2port uaddr = (case strrchr uaddr CHR ''.'' of
     None \<Rightarrow> None
   | Some (front, pt1) \<Rightarrow> (case strrchr front CHR ''.'' of
       None \<Rightarrow> None
     | Some (_, pt2) \<Rightarrow> Some (scast (atoi pt2 * 256 + atoi pt1))))"

definition add_pmaplist :: "allocs \<Rightarrow> rpcb \<Rightarrow> registry \<Rightarrow> registry" where
  "add_pmaplist al arg g = (let prot = pmap_netid2ipprot g (r_netid arg) in
     if prot = 0 then g
     else case uaddr2port (r_addr arg) of
       None \<Rightarrow> g
     | Some port \<Rightarrow>
         if \<not> pml_ok al then g
         else g\<lparr>list_pml := list_pml g @
           [\<lparr>pm_prog = ucast (r_prog arg), pm_vers = ucast (r_vers arg), pm_prot = prot, pm_port = port\<rparr>]\<rparr>)"

definition del_pmaplist :: "rpcb \<Rightarrow> registry \<Rightarrow> registry" where
  "del_pmaplist arg g =
     (let prot = (if r_netid arg = [] then 0 else pmap_netid2ipprot g (r_netid arg)) in
      if r_netid arg \<noteq> [] \<and> prot = 0 then g
      else g\<lparr>list_pml := [pml \<leftarrow> list_pml g. pm_prog pml \<noteq> ucast (r_prog arg)
        \<or> pm_vers pml \<noteq> ucast (r_vers arg) \<or> prot \<noteq> 0 \<and> pm_prot pml \<noteq> prot]\<rparr>)"

definition map_add :: "allocs \<Rightarrow> rpcb \<Rightarrow> string \<Rightarrow> registry \<Rightarrow> bool \<times> registry" where
  "map_add al regp owner g =
     (if \<not> rbl_ok al \<or> \<not> strdup_ok al then (False, g)
      else (True, add_pmaplist al regp (g\<lparr>list_rbl := list_rbl g @ [regp\<lparr>r_owner := owner\<rparr>]\<rparr>)))"

definition map_set :: "allocs \<Rightarrow> rpcb \<Rightarrow> string \<Rightarrow> registry \<Rightarrow> bool \<times> registry" where
  "map_set al regp owner g =
     (case find_service (list_rbl g) (r_prog regp, r_netid regp) (r_vers regp) of
        Some fnd \<Rightarrow> if r_vers fnd = r_vers regp then (r_addr fnd = r_addr regp, g)
          else map_add al regp owner g
      | None \<Rightarrow> map_add al regp owner g)"

text \<open>
  The loop of \<open>map_unset\<close> gives the list it leaves, whether it removed an entry (\<open>ans\<close>), and
  whether it returned from inside because an entry belongs to somebody else.
\<close>

definition unset_skips :: "rpcb \<Rightarrow> rpcb \<Rightarrow> bool" where
  "unset_skips regp rbl \<longleftrightarrow> r_prog rbl \<noteq> r_prog regp \<or> r_vers rbl \<noteq> r_vers regp
     \<or> r_netid regp \<noteq> [] \<and> strcasecmp (r_netid regp) (r_netid rbl)"

fun unset_loop :: "rpcb \<Rightarrow> string \<Rightarrow> rpcb list \<Rightarrow> rpcb list \<times> bool \<times> bool" where
  "unset_loop regp owner [] = ([], False, False)"
| "unset_loop regp owner (rbl # l) =
     (if unset_skips regp rbl then
        (let (l, ans, denied) = unset_loop regp owner l in (rbl # l, ans, denied))
      else if owner \<noteq> ''superuser'' \<and> r_owner rbl \<noteq> owner then (rbl # l, False, True)
      else (let (l, ans, denied) = unset_loop regp owner l in (l, True, denied)))"

text \<open>A null \<open>owner\<close> is \<open>None\<close>.\<close>

definition map_unset :: "rpcb \<Rightarrow> string option \<Rightarrow> registry \<Rightarrow> bool \<times> registry" where
  "map_unset regp owner g = (case owner of
     None \<Rightarrow> (False, g)
   | Some owner \<Rightarrow>
       (let (l, ans, denied) = unset_loop regp owner (list_rbl g);
            g = g\<lparr>list_rbl := l\<rparr> in
        if denied then (False, g)
        else if ans then (True, del_pmaplist regp g)
        else (True, g)))"

section \<open>check_bound.c\<close>

text \<open>
  The list \<open>fdhead\<close> of the transports, each named by \<open>nc_netid\<close>.  \<open>probe\<close> stands for what
  \<open>check_bound\<close> asks the system when it is told to check: whether the address can be
  converted, a socket opened and bound to it (\<open>bind\<close> returned 0).
\<close>

record fdlist =
  nc_netid :: string
  check_binding :: bool

definition check_bound :: "(string \<Rightarrow> string \<Rightarrow> bool) \<Rightarrow> fdlist \<Rightarrow> string \<Rightarrow> bool" where
  "check_bound probe fdl uaddr =
     (if \<not> check_binding fdl then True else \<not> probe (nc_netid fdl) uaddr)"

text \<open>\<open>found\<close> is what \<open>getnetconfigent\<close> returned, \<open>mem\<close> whether \<open>malloc\<close> served the node.\<close>

definition add_bndlist :: "string option \<Rightarrow> bool \<Rightarrow> fdlist list \<Rightarrow> 32 word \<times> fdlist list" where
  "add_bndlist found mem fds = (case found of
     None \<Rightarrow> (-1, fds)
   | Some netid \<Rightarrow> if \<not> mem then (-1, fds)
       else (0, fds @ [\<lparr>nc_netid = netid, check_binding = False\<rparr>]))"

definition find_fd :: "fdlist list \<Rightarrow> string \<Rightarrow> fdlist option" where
  "find_fd fds netid = find (\<lambda>fdl. nc_netid fdl = netid) fds"

definition is_bound :: "(string \<Rightarrow> string \<Rightarrow> bool) \<Rightarrow> fdlist list \<Rightarrow> string \<Rightarrow> string \<Rightarrow> bool" where
  "is_bound probe fds netid uaddr = (case find_fd fds netid of
     None \<Rightarrow> True
   | Some fdl \<Rightarrow> check_bound probe fdl uaddr)"

text \<open>
  \<open>delete_prog\<close> walks the list while \<open>map_unset\<close> frees nodes of it.  The entry it has just
  unset is one of them, and the step to its successor reads the freed node: the run has no
  result from there on.
\<close>

fun delete_prog_loop :: "(string \<Rightarrow> string \<Rightarrow> bool) \<Rightarrow> fdlist list \<Rightarrow> 32 word \<Rightarrow> rpcb list
    \<Rightarrow> registry \<Rightarrow> registry option" where
  "delete_prog_loop probe fds prog [] g = Some g"
| "delete_prog_loop probe fds prog (rbl # l) g =
     (if r_prog rbl \<noteq> prog then delete_prog_loop probe fds prog l g
      else if is_bound probe fds (r_netid rbl) (r_addr rbl) then delete_prog_loop probe fds prog l g
      else (let (_, g) = map_unset rbl (Some ''superuser'') g in
        if rbl \<in> set (list_rbl g) then delete_prog_loop probe fds prog l g else None))"

definition delete_prog :: "(string \<Rightarrow> string \<Rightarrow> bool) \<Rightarrow> fdlist list \<Rightarrow> 32 word
    \<Rightarrow> registry \<Rightarrow> registry option" where
  "delete_prog probe fds prog g = delete_prog_loop probe fds prog (list_rbl g) g"

section \<open>The lookup interface\<close>

lemma find_SomeD: "find P l = Some a \<Longrightarrow> a \<in> set l \<and> P a"
  by (induction l) (auto split: if_splits)

text \<open>
  What a client of either search relies on: an entry of the wanted version wins, the first
  of them; without one, the last entry that fits is the answer.
\<close>

locale service_lookup =
  fixes look :: "'a list \<Rightarrow> 'k \<Rightarrow> 'v \<Rightarrow> 'a option"
    and fits :: "'k \<Rightarrow> 'a \<Rightarrow> bool"
    and of_vers :: "'v \<Rightarrow> 'a \<Rightarrow> bool"
  assumes look_exact: "\<exists>a \<in> set l. fits k a \<and> of_vers v a
      \<Longrightarrow> look l k v = find (\<lambda>a. fits k a \<and> of_vers v a) l"
    and look_other: "\<forall>a \<in> set l. fits k a \<longrightarrow> \<not> of_vers v a
      \<Longrightarrow> look l k v = find (fits k) (rev l)"
begin

lemma look_SomeD:
  assumes "look l k v = Some a"
  shows "a \<in> set l \<and> fits k a \<and> (\<forall>b \<in> set l. fits k b \<longrightarrow> of_vers v b \<longrightarrow> of_vers v a)"
proof (cases "\<exists>a \<in> set l. fits k a \<and> of_vers v a")
  case True
  then have "find (\<lambda>a. fits k a \<and> of_vers v a) l = Some a"
    using look_exact assms by simp
  then show ?thesis by (auto dest: find_SomeD)
next
  case False
  then have "find (fits k) (rev l) = Some a"
    using look_other [of l k v] assms by auto
  from find_SomeD [OF this] False show ?thesis by auto
qed

lemma look_None: "look l k v = None \<longleftrightarrow> (\<forall>a \<in> set l. \<not> fits k a)"
proof (cases "\<exists>a \<in> set l. fits k a \<and> of_vers v a")
  case True
  then show ?thesis by (auto simp: look_exact [OF True] find_None_iff)
next
  case False
  then have "look l k v = find (fits k) (rev l)" by (intro look_other) auto
  then show ?thesis by (auto simp: find_None_iff)
qed

lemma look_of_vers:
  "find (\<lambda>a. fits k a \<and> of_vers v a) l =
    (case look l k v of None \<Rightarrow> None | Some a \<Rightarrow> if of_vers v a then Some a else None)"
proof (cases "\<exists>a \<in> set l. fits k a \<and> of_vers v a")
  case True
  then show ?thesis
    by (auto simp: look_exact [OF True] split: option.splits dest: find_SomeD)
next
  case False
  then have "find (\<lambda>a. fits k a \<and> of_vers v a) l = None" by (auto simp: find_None_iff)
  then show ?thesis using False by (auto split: option.splits dest!: look_SomeD)
qed

lemma look_appended:
  assumes "find (\<lambda>a. fits k a \<and> of_vers v a) l = None" and "fits k a" and "of_vers v a"
  shows "look (l @ [a]) k v = Some a"
proof -
  have "find (\<lambda>b. fits k b \<and> of_vers v b) (l @ [a]) = Some a"
    using assms by (induction l) (auto split: if_splits)
  then show ?thesis using look_exact [of "l @ [a]" k v] assms(2,3) by auto
qed

end

lemma hit_loop_exact:
  "\<exists>a \<in> set l. \<not> skip a \<and> stop a \<Longrightarrow> hit_loop skip stop l hit = find (\<lambda>a. \<not> skip a \<and> stop a) l"
  by (induction l arbitrary: hit) auto

lemma find_append_one:
  "find P (xs @ [a]) = (case find P xs of None \<Rightarrow> if P a then Some a else None | Some b \<Rightarrow> Some b)"
  by (induction xs) auto

lemma hit_loop_other:
  "\<forall>a \<in> set l. \<not> skip a \<longrightarrow> \<not> stop a \<Longrightarrow>
    hit_loop skip stop l hit = (case find (\<lambda>a. \<not> skip a) (rev l) of None \<Rightarrow> hit | Some a \<Rightarrow> Some a)"
  by (induction l arbitrary: hit) (auto simp: find_append_one split: option.splits)

lemma hit_loop_lookup:
  "service_lookup (\<lambda>l k v. hit_loop (\<lambda>a. \<not> fits k a) (of_vers v) l None) fits of_vers"
  by unfold_locales (simp_all add: hit_loop_exact hit_loop_other option.case_eq_if)

text \<open>An entry fits a program and a transport; \<open>strcasecmp\<close> compares the network identifiers.\<close>

definition rbl_fits :: "32 word \<times> string \<Rightarrow> rpcb \<Rightarrow> bool" where
  "rbl_fits = (\<lambda>(prog, netid) rbl. r_prog rbl = prog \<and> \<not> strcasecmp (r_netid rbl) netid)"

definition pml_fits :: "32 word \<times> 32 word \<Rightarrow> pmap \<Rightarrow> bool" where
  "pml_fits = (\<lambda>(prog, prot) pml. pm_prog pml = ucast prog \<and> pm_prot pml = ucast prot)"

lemma find_service_hit_loop:
  "find_service = (\<lambda>l k v. hit_loop (\<lambda>a. \<not> rbl_fits k a) (\<lambda>rbl. r_vers rbl = v) l None)"
  by (auto simp: fun_eq_iff find_service_def rbl_fits_def intro!: arg_cong [where f = "\<lambda>s. hit_loop s _ _ _"])

lemma find_service_pmap_hit_loop:
  "find_service_pmap = (\<lambda>l k v. hit_loop (\<lambda>a. \<not> pml_fits k a) (\<lambda>pml. pm_vers pml = ucast v) l None)"
  by (auto simp: fun_eq_iff find_service_pmap_def pml_fits_def intro!: arg_cong [where f = "\<lambda>s. hit_loop s _ _ _"])

interpretation rbl: service_lookup find_service rbl_fits "\<lambda>v rbl. r_vers rbl = v"
  unfolding find_service_hit_loop by (rule hit_loop_lookup)

interpretation pml: service_lookup find_service_pmap pml_fits "\<lambda>v pml. pm_vers pml = ucast v"
  unfolding find_service_pmap_hit_loop by (rule hit_loop_lookup)

end
