(* ===== verification/Rpcb_Registry.thy ===== *)
theory Rpcb_Registry
  imports Rpcb_List
begin

text \<open>
  What the registry of \<open>rpcbind\<close> promises.  The abstract registry is a map from program,
  version and network identifier (in lower case, since \<open>strcasecmp\<close> compares them) to the
  address and the owner; \<open>map_set\<close> and \<open>map_unset\<close> refine its two operations.  Runs of
  requests keep the keys distinct, keep the version 2 list in step with the other one as long
  as the requests name the transports as the process does, and protect an owner's entries.
\<close>

section \<open>The abstract registry\<close>

type_synonym bindings = "32 word \<times> 32 word \<times> string \<rightharpoonup> string \<times> string"

definition spec_set :: "32 word \<times> 32 word \<times> string \<Rightarrow> string \<Rightarrow> string \<Rightarrow> bindings \<Rightarrow> bool \<times> bindings" where
  "spec_set k uaddr owner m = (case m k of
     Some (uaddr', _) \<Rightarrow> (uaddr' = uaddr, m)
   | None \<Rightarrow> (True, m(k \<mapsto> (uaddr, owner))))"

definition spec_unset :: "32 word \<times> 32 word \<times> string \<Rightarrow> string \<Rightarrow> bindings \<Rightarrow> bool \<times> bindings" where
  "spec_unset k owner m = (case m k of
     None \<Rightarrow> (True, m)
   | Some (_, owner') \<Rightarrow>
       if owner \<noteq> ''superuser'' \<and> owner' \<noteq> owner then (False, m) else (True, m(k := None)))"

text \<open>The key of an entry, what it is bound to, and the map a list stands for.\<close>

definition key :: "rpcb \<Rightarrow> 32 word \<times> 32 word \<times> string" where
  "key r = (r_prog r, r_vers r, map tolower (r_netid r))"

definition bindings :: "registry \<Rightarrow> bindings" where
  "bindings g = map_of (map (\<lambda>r. (key r, r_addr r, r_owner r)) (list_rbl g))"

definition registry_inv :: "registry \<Rightarrow> bool" where
  "registry_inv g \<longleftrightarrow> distinct (map key (list_rbl g))"

lemma map_of_key:
  "map_of (map (\<lambda>r. (key r, f r)) l) k = map_option f (find (\<lambda>r. key r = k) l)"
  by (induction l) auto

lemma key_fits: "key r = key regp \<longleftrightarrow> rbl_fits (r_prog regp, r_netid regp) r \<and> r_vers r = r_vers regp"
  by (auto simp: key_def rbl_fits_def strcasecmp_def)

lemma find_key:
  "find (\<lambda>r. key r = key regp) l =
    (case find_service l (r_prog regp, r_netid regp) (r_vers regp) of None \<Rightarrow> None
     | Some a \<Rightarrow> if r_vers a = r_vers regp then Some a else None)"
  by (simp add: key_fits rbl.look_of_vers)

lemma add_pmaplist_rbl [simp]:
  "list_rbl (add_pmaplist al arg g) = list_rbl g"
  "tcptrans (add_pmaplist al arg g) = tcptrans g" "udptrans (add_pmaplist al arg g) = udptrans g"
  by (auto simp: add_pmaplist_def Let_def split: option.splits)

lemma del_pmaplist_rbl [simp]:
  "list_rbl (del_pmaplist arg g) = list_rbl g"
  "tcptrans (del_pmaplist arg g) = tcptrans g" "udptrans (del_pmaplist arg g) = udptrans g"
  by (auto simp: del_pmaplist_def Let_def)

text \<open>\<open>map_set\<close> in terms of the keys.\<close>

lemma map_set_cases:
  "map_set al regp owner g = (case find (\<lambda>r. key r = key regp) (list_rbl g) of
     Some fnd \<Rightarrow> (r_addr fnd = r_addr regp, g)
   | None \<Rightarrow> map_add al regp owner g)"
  by (auto simp: map_set_def find_key split: option.splits)

lemma find_key_None: "find (\<lambda>r. key r = k) l = None \<longleftrightarrow> k \<notin> key ` set l"
  by (auto simp: find_None_iff)

lemma map_set_list:
  "list_rbl (snd (map_set al regp owner g)) =
    list_rbl g @ (if key regp \<in> key ` set (list_rbl g) \<or> \<not> rbl_ok al \<or> \<not> strdup_ok al then []
      else [regp\<lparr>r_owner := owner\<rparr>])"
  by (auto simp: map_set_cases map_add_def find_key_None split: option.splits)
     (metis find_key_None option.distinct(1) imageI)+

text \<open>\<open>map_unset\<close>: the loop removes what does not keep, unless it meets somebody else's entry.\<close>

lemma unset_loop_result:
  "unset_loop regp owner l =
    (let mine = (\<lambda>r. unset_skips regp r \<or> owner = ''superuser'' \<or> r_owner r = owner) in
     if \<forall>r \<in> set l. mine r then (filter (unset_skips regp) l, \<exists>r \<in> set l. \<not> unset_skips regp r, False)
     else (filter (unset_skips regp) (takeWhile mine l) @ dropWhile mine l,
       \<exists>r \<in> set (takeWhile mine l). \<not> unset_skips regp r, True))"
  by (induction l) (auto simp: Let_def split: if_splits)

lemma unset_skips_key:
  "r_netid regp \<noteq> [] \<Longrightarrow> unset_skips regp r \<longleftrightarrow> key r \<noteq> key regp"
  by (auto simp: unset_skips_def key_def strcasecmp_def)

lemma map_unset_kept:
  assumes "\<forall>r \<in> set (list_rbl g). unset_skips regp r \<or> owner = ''superuser'' \<or> r_owner r = owner"
  shows "map_unset regp (Some owner) g =
    (True, if \<forall>r \<in> set (list_rbl g). unset_skips regp r then g
      else del_pmaplist regp (g\<lparr>list_rbl := filter (unset_skips regp) (list_rbl g)\<rparr>))"
  using assms by (auto simp: map_unset_def unset_loop_result Let_def filter_id_conv)

lemma map_unset_denied:
  assumes "\<not> (\<forall>r \<in> set (list_rbl g). unset_skips regp r \<or> owner = ''superuser'' \<or> r_owner r = owner)"
  shows "map_unset regp (Some owner) g = (False, g\<lparr>list_rbl :=
    filter (unset_skips regp) (takeWhile (\<lambda>r. unset_skips regp r \<or> owner = ''superuser'' \<or> r_owner r = owner) (list_rbl g))
      @ dropWhile (\<lambda>r. unset_skips regp r \<or> owner = ''superuser'' \<or> r_owner r = owner) (list_rbl g)\<rparr>)"
  using assms by (simp only: map_unset_def unset_loop_result Let_def option.case if_False) simp

lemma distinct_keyD:
  "registry_inv g \<Longrightarrow> r \<in> set (list_rbl g) \<Longrightarrow> s \<in> set (list_rbl g) \<Longrightarrow> key r = key s \<Longrightarrow> r = s"
  by (auto simp: registry_inv_def distinct_map inj_on_def)

lemma map_unset_one:
  assumes inv: "registry_inv g" and n: "r_netid regp \<noteq> []"
  shows "map_unset regp (Some owner) g = (case find (\<lambda>r. key r = key regp) (list_rbl g) of
     None \<Rightarrow> (True, g)
   | Some r \<Rightarrow> if owner \<noteq> ''superuser'' \<and> r_owner r \<noteq> owner then (False, g)
       else (True, del_pmaplist regp (g\<lparr>list_rbl := filter (\<lambda>r. key r \<noteq> key regp) (list_rbl g)\<rparr>)))"
proof (cases "find (\<lambda>r. key r = key regp) (list_rbl g)")
  case None
  then have "\<forall>r \<in> set (list_rbl g). unset_skips regp r"
    by (auto simp: find_None_iff unset_skips_key [OF n])
  then show ?thesis using None by (subst map_unset_kept) auto
next
  case (Some r)
  then have r: "r \<in> set (list_rbl g)" "key r = key regp" by (auto dest: find_SomeD)
  have only: "s = r" if "s \<in> set (list_rbl g)" "key s = key regp" for s
    using distinct_keyD [OF inv] r that by auto
  let ?mine = "\<lambda>r. unset_skips regp r \<or> owner = ''superuser'' \<or> r_owner r = owner"
  show ?thesis
  proof (cases "owner \<noteq> ''superuser'' \<and> r_owner r \<noteq> owner")
    case True
    have "unset_skips regp s" if "s \<in> set (takeWhile ?mine (list_rbl g))" for s
      using set_takeWhileD [OF that] only [of s] True by (auto simp: unset_skips_key [OF n])
    then have "filter (unset_skips regp) (takeWhile ?mine (list_rbl g)) = takeWhile ?mine (list_rbl g)"
      by (auto simp: filter_id_conv)
    moreover have "\<not> (\<forall>r \<in> set (list_rbl g). ?mine r)"
      using r True by (auto simp: unset_skips_key [OF n])
    ultimately show ?thesis using Some True by (simp add: map_unset_denied)
  next
    case False
    then have "\<forall>r \<in> set (list_rbl g). ?mine r"
      using only by (auto simp: unset_skips_key [OF n])
    moreover have "unset_skips regp = (\<lambda>r. key r \<noteq> key regp)"
      by (simp add: fun_eq_iff unset_skips_key [OF n])
    ultimately show ?thesis using Some False r by (auto simp: map_unset_kept)
  qed
qed

lemma key_owner [simp]: "key (r\<lparr>r_owner := owner\<rparr>) = key r"
  by (simp add: key_def)

lemma bindings_find:
  "bindings g k = map_option (\<lambda>r. (r_addr r, r_owner r)) (find (\<lambda>r. key r = k) (list_rbl g))"
  by (simp add: bindings_def map_of_key)

lemma bindings_filter:
  "bindings (g\<lparr>list_rbl := filter (\<lambda>r. key r \<noteq> k) (list_rbl g)\<rparr>) = (bindings g)(k := None)"
proof
  fix x
  have "find (\<lambda>r. key r = x) (filter (\<lambda>r. key r \<noteq> k) l) = (if x = k then None else find (\<lambda>r. key r = x) l)" for l
    by (induction l) auto
  then show "bindings (g\<lparr>list_rbl := filter (\<lambda>r. key r \<noteq> k) (list_rbl g)\<rparr>) x = ((bindings g)(k := None)) x"
    by (simp add: bindings_def map_of_key)
qed

lemma bindings_rbl: "list_rbl g = list_rbl h \<Longrightarrow> bindings g = bindings h"
  by (simp add: bindings_def)

lemma spec_set_bindings:
  "spec_set (key regp) a owner (bindings g) = (case find (\<lambda>r. key r = key regp) (list_rbl g) of
     Some r \<Rightarrow> (r_addr r = a, bindings g) | None \<Rightarrow> (True, (bindings g)(key regp \<mapsto> (a, owner))))"
  by (auto simp: spec_set_def bindings_def map_of_key split: option.splits)

lemma map_set_refines:
  assumes "rbl_ok al" and "strdup_ok al"
  shows "map_prod id bindings (map_set al regp owner g) =
    spec_set (key regp) (r_addr regp) owner (bindings g)"
proof (cases "find (\<lambda>r. key r = key regp) (list_rbl g)")
  case None
  then have "bindings (g\<lparr>list_rbl := list_rbl g @ [regp\<lparr>r_owner := owner\<rparr>]\<rparr>)
      = (bindings g)(key regp \<mapsto> (r_addr regp, owner))"
    by (auto simp: bindings_find find_append_one fun_eq_iff split: option.splits)
  then show ?thesis using None assms
    by (simp add: map_set_cases map_add_def spec_set_bindings bindings_rbl [OF add_pmaplist_rbl(1)])
qed (simp add: map_set_cases spec_set_bindings)

lemma map_unset_refines:
  assumes "registry_inv g" and "r_netid regp \<noteq> []"
  shows "map_prod id bindings (map_unset regp (Some owner) g) = spec_unset (key regp) owner (bindings g)"
proof -
  have "spec_unset (key regp) owner (bindings g) = (case find (\<lambda>r. key r = key regp) (list_rbl g) of
     None \<Rightarrow> (True, bindings g)
   | Some r \<Rightarrow> if owner \<noteq> ''superuser'' \<and> r_owner r \<noteq> owner then (False, bindings g)
       else (True, (bindings g)(key regp := None)))"
    by (auto simp: spec_unset_def bindings_def map_of_key split: option.splits)
  then show ?thesis
    by (auto simp: map_unset_one [OF assms] bindings_rbl [OF del_pmaplist_rbl(1)] bindings_filter
        split: option.splits)
qed

lemma map_set_inv: "registry_inv g \<Longrightarrow> registry_inv (snd (map_set al regp owner g))"
  by (auto simp: registry_inv_def map_set_list)

lemma unset_loop_subset:
  "set (fst (unset_loop regp owner l)) \<subseteq> set l"
  by (induction l) (auto simp: Let_def split: prod.splits)

lemma unset_loop_distinct:
  "distinct (map key l) \<Longrightarrow> distinct (map key (fst (unset_loop regp owner l)))"
proof (induction l)
  case (Cons r l)
  then show ?case
    using unset_loop_subset [of regp owner l] by (auto simp: Let_def split: prod.splits)
qed simp

lemma unset_loop_foreign:
  "owner \<noteq> ''superuser'' \<Longrightarrow> r \<in> set l \<Longrightarrow> r_owner r \<noteq> owner \<Longrightarrow> r \<in> set (fst (unset_loop regp owner l))"
  by (induction l) (auto simp: Let_def split: prod.splits)

lemma map_unset_list:
  "list_rbl (snd (map_unset regp owner g)) = (case owner of None \<Rightarrow> list_rbl g
     | Some owner \<Rightarrow> fst (unset_loop regp owner (list_rbl g)))"
  by (auto simp: map_unset_def Let_def split: option.splits prod.splits)

lemma map_unset_inv: "registry_inv g \<Longrightarrow> registry_inv (snd (map_unset regp owner g))"
  by (auto simp: registry_inv_def map_unset_list unset_loop_distinct split: option.splits)

section \<open>Runs of requests\<close>

datatype request = Set_req allocs rpcb string | Unset_req rpcb "string option"

fun serve :: "request \<Rightarrow> registry \<Rightarrow> registry" where
  "serve (Set_req al regp owner) g = snd (map_set al regp owner g)"
| "serve (Unset_req regp owner) g = snd (map_unset regp owner g)"

text \<open>The states that requests of a kind lead to.\<close>

inductive served :: "(request \<Rightarrow> bool) \<Rightarrow> registry \<Rightarrow> registry \<Rightarrow> bool" for A g where
  start: "served A g g"
| request: "served A g h \<Longrightarrow> A q \<Longrightarrow> served A g (serve q h)"

lemma served_induct_inv:
  "served A g h \<Longrightarrow> I g \<Longrightarrow> (\<And>q h. I h \<Longrightarrow> A q \<Longrightarrow> I (serve q h)) \<Longrightarrow> I h"
  by (induction rule: served.induct) auto

lemma serve_inv: "registry_inv g \<Longrightarrow> registry_inv (serve q g)"
  by (cases q) (simp_all add: map_set_inv map_unset_inv)

section \<open>The version 2 list\<close>

text \<open>What \<open>add_pmaplist\<close> makes of an entry, and the version 2 list the other list stands for.\<close>

definition pmap_of :: "registry \<Rightarrow> rpcb \<Rightarrow> pmap option" where
  "pmap_of g r = (let prot = pmap_netid2ipprot g (r_netid r) in
     if prot = 0 then None
     else map_option (\<lambda>port. \<lparr>pm_prog = ucast (r_prog r), pm_vers = ucast (r_vers r),
       pm_prot = prot, pm_port = port\<rparr>) (uaddr2port (r_addr r)))"

definition in_step :: "registry \<Rightarrow> bool" where
  "in_step g \<longleftrightarrow> list_pml g = List.map_filter (pmap_of g) (list_rbl g)"

text \<open>
  A request that names its transport in lower case, finds memory, and asks for all
  transports at once only with the rights to remove every entry.
\<close>

fun canonical :: "request \<Rightarrow> bool" where
  "canonical (Set_req al regp owner) \<longleftrightarrow> map tolower (r_netid regp) = r_netid regp \<and> pml_ok al"
| "canonical (Unset_req regp owner) \<longleftrightarrow> map tolower (r_netid regp) = r_netid regp
     \<and> (r_netid regp = [] \<longrightarrow> owner = Some ''superuser'')"

definition step_inv :: "registry \<Rightarrow> bool" where
  "step_inv g \<longleftrightarrow> registry_inv g \<and> in_step g \<and> tcptrans g \<noteq> udptrans g
     \<and> (\<forall>r \<in> set (list_rbl g). map tolower (r_netid r) = r_netid r)"

lemma pmap_of_cong:
  "tcptrans h = tcptrans g \<Longrightarrow> udptrans h = udptrans g \<Longrightarrow> pmap_of h = pmap_of g"
  by (simp add: pmap_of_def pmap_netid2ipprot_def fun_eq_iff)

lemma pmap_of_owner [simp]: "pmap_of g (r\<lparr>r_owner := owner\<rparr>) = pmap_of g r"
  by (simp add: pmap_of_def Let_def)

lemma add_pmaplist_pml:
  "pml_ok al \<Longrightarrow> list_pml (add_pmaplist al r g) = list_pml g @ List.map_filter (pmap_of g) [r]"
  by (auto simp: add_pmaplist_def pmap_of_def Let_def map_filter_simps split: option.splits)

lemma map_filter_append: "List.map_filter f (xs @ ys) = List.map_filter f xs @ List.map_filter f ys"
  by (simp add: List.map_filter_def)

lemma filter_map_filter:
  "(\<And>x y. x \<in> set xs \<Longrightarrow> f x = Some y \<Longrightarrow> P y \<longleftrightarrow> Q x) \<Longrightarrow>
    filter P (List.map_filter f xs) = List.map_filter f (filter Q xs)"
  by (induction xs) (auto simp: map_filter_simps split: option.splits)

lemma map_set_step_inv:
  assumes "step_inv g" and "canonical (Set_req al regp owner)"
  shows "step_inv (snd (map_set al regp owner g))"
proof (cases "find (\<lambda>r. key r = key regp) (list_rbl g)")
  case None
  show ?thesis
  proof (cases "rbl_ok al \<and> strdup_ok al")
    case True
    let ?h = "g\<lparr>list_rbl := list_rbl g @ [regp\<lparr>r_owner := owner\<rparr>]\<rparr>"
    have h: "snd (map_set al regp owner g) = add_pmaplist al regp ?h"
      using None True by (simp add: map_set_cases map_add_def)
    have "in_step (add_pmaplist al regp ?h)"
      using assms by (simp add: in_step_def step_inv_def add_pmaplist_pml map_filter_append
          pmap_of_cong [of ?h g] pmap_of_cong [of "add_pmaplist al regp ?h" g] map_filter_simps)
    moreover have "registry_inv (add_pmaplist al regp ?h)"
      using map_set_inv [of g al regp owner] assms(1) by (simp add: h step_inv_def)
    ultimately show ?thesis using assms by (auto simp: h step_inv_def)
  qed (use None assms in \<open>auto simp: map_set_cases map_add_def\<close>)
qed (use assms in \<open>simp add: map_set_cases\<close>)

text \<open>An entry that the loop of \<open>map_unset\<close> removes is one that \<open>del_pmaplist\<close> removes.\<close>

lemma del_pmaplist_matches:
  assumes "step_inv g" and n: "map tolower (r_netid regp) = r_netid regp"
    and "r \<in> set (list_rbl g)" and p: "pmap_of g r = Some p"
  shows "unset_skips regp r \<longleftrightarrow> pm_prog p \<noteq> ucast (r_prog regp) \<or> pm_vers p \<noteq> ucast (r_vers regp)
    \<or> r_netid regp \<noteq> [] \<and> pm_prot p \<noteq> pmap_netid2ipprot g (r_netid regp)"
proof -
  have "pm_prot p = pmap_netid2ipprot g (r_netid r)" "pm_prot p \<noteq> 0"
    "pm_prog p = ucast (r_prog r)" "pm_vers p = ucast (r_vers r)"
    using p by (auto simp: pmap_of_def Let_def split: if_splits)
  moreover have "map tolower (r_netid r) = r_netid r" "tcptrans g \<noteq> udptrans g"
    using assms by (auto simp: step_inv_def)
  moreover have "ucast v = (ucast w :: 64 word) \<longleftrightarrow> v = w" for v w :: "32 word"
    by transfer simp
  ultimately show ?thesis
    using n by (auto simp: unset_skips_def strcasecmp_def pmap_netid2ipprot_def IPPROTO_TCP_def IPPROTO_UDP_def
        split: if_splits)
qed

lemma map_unset_step_inv:
  assumes g: "step_inv g" and c: "canonical (Unset_req regp owner)"
  shows "step_inv (snd (map_unset regp owner g))"
proof (cases owner)
  case None
  then show ?thesis using g by (simp add: map_unset_def)
next
  case [simp]: (Some own)
  consider (same) "snd (map_unset regp owner g) = g"
    | (removed) "snd (map_unset regp owner g) =
        del_pmaplist regp (g\<lparr>list_rbl := filter (unset_skips regp) (list_rbl g)\<rparr>)"
  proof (cases "r_netid regp = []")
    case True
    then show ?thesis using that c map_unset_kept [of g regp own] by (auto split: if_splits)
  next
    case False
    then have "unset_skips regp = (\<lambda>r. key r \<noteq> key regp)"
      by (simp add: fun_eq_iff unset_skips_key)
    moreover have "registry_inv g" using g by (simp add: step_inv_def)
    ultimately have "snd (map_unset regp owner g) = g \<or> snd (map_unset regp owner g) =
        del_pmaplist regp (g\<lparr>list_rbl := filter (unset_skips regp) (list_rbl g)\<rparr>)"
      using False by (simp add: map_unset_one split: option.splits)
    then show ?thesis using that by blast
  qed
  then show ?thesis
  proof cases
    case removed
    let ?h = "g\<lparr>list_rbl := filter (unset_skips regp) (list_rbl g)\<rparr>"
    have nc: "map tolower (r_netid regp) = r_netid regp" using c by simp
    have "in_step (del_pmaplist regp ?h)"
    proof (cases "r_netid regp \<noteq> [] \<and> pmap_netid2ipprot g (r_netid regp) = 0")
      case True
      have "pmap_of g r = None" if "\<not> unset_skips regp r" "r \<in> set (list_rbl g)" for r
        using True del_pmaplist_matches [OF g nc that(2)] that(1)
        by (cases "pmap_of g r") (auto simp: pmap_of_def Let_def split: if_splits)
      then have "List.map_filter (pmap_of g) (filter (unset_skips regp) (list_rbl g))
          = List.map_filter (pmap_of g) (list_rbl g)"
        using filter_map_filter [of "list_rbl g" "pmap_of g" "\<lambda>_. True" "unset_skips regp"] by force
      then show ?thesis using True g
        by (simp add: in_step_def del_pmaplist_def step_inv_def pmap_of_cong [of ?h g]
            pmap_netid2ipprot_def split: if_splits)
    next
      case False
      let ?P = "\<lambda>p. pm_prog p \<noteq> ucast (r_prog regp) \<or> pm_vers p \<noteq> ucast (r_vers regp)
        \<or> r_netid regp \<noteq> [] \<and> pm_prot p \<noteq> pmap_netid2ipprot g (r_netid regp)"
      have "list_pml (del_pmaplist regp ?h) = filter ?P (list_pml g)"
        using False by (auto simp: del_pmaplist_def Let_def pmap_netid2ipprot_def intro!: filter_cong split: if_splits)
      also have "\<dots> = List.map_filter (pmap_of g) (filter (unset_skips regp) (list_rbl g))"
        using g del_pmaplist_matches [OF g nc]
        by (auto simp: step_inv_def in_step_def intro!: filter_map_filter)
      finally show ?thesis by (simp add: in_step_def pmap_of_cong [of "del_pmaplist regp ?h" g])
    qed
    moreover have "registry_inv (del_pmaplist regp ?h)"
      using map_unset_inv [of g regp owner] g by (simp only: removed step_inv_def)
    ultimately show ?thesis using g unfolding removed by (auto simp: step_inv_def)
  qed (use g in simp)
qed

lemma serve_step_inv: "step_inv g \<Longrightarrow> canonical q \<Longrightarrow> step_inv (serve q g)"
  by (cases q) (simp_all only: serve.simps map_set_step_inv map_unset_step_inv)

text \<open>An unset whose netid names neither list's transport leaves the version 2 list as it is.\<close>

lemma map_unset_pml_other:
  assumes "r_netid regp \<notin> {[], tcptrans g, udptrans g}"
  shows "list_pml (snd (map_unset regp owner g)) = list_pml g"
  using assms by (auto simp: map_unset_def Let_def del_pmaplist_def pmap_netid2ipprot_def
      split: option.splits prod.splits)

section \<open>Who may remove what\<close>

definition asked_by :: "string \<Rightarrow> request \<Rightarrow> bool" where
  "asked_by owner q = (case q of Set_req _ _ o' \<Rightarrow> o' = owner | Unset_req _ o' \<Rightarrow> o' = None \<or> o' = Some owner)"

lemma serve_foreign:
  "owner \<noteq> ''superuser'' \<Longrightarrow> asked_by owner q \<Longrightarrow> r \<in> set (list_rbl g) \<Longrightarrow> r_owner r \<noteq> owner
    \<Longrightarrow> r \<in> set (list_rbl (serve q g))"
  by (cases q) (auto simp: asked_by_def map_set_list map_unset_list unset_loop_foreign)

section \<open>Versions\<close>

definition versions :: "registry \<Rightarrow> 32 word \<Rightarrow> string \<Rightarrow> 32 word list" where
  "versions g prog netid = map r_vers (filter (rbl_fits (prog, netid)) (list_rbl g))"

lemma find_versions_loop_nonzero:
  "lowv \<noteq> 0 \<Longrightarrow> lowv \<le> highv \<Longrightarrow> 0 \<notin> r_vers ` set (filter (rbl_fits (prog, netid)) l) \<Longrightarrow>
    find_versions_loop prog netid l lowv highv =
      (fold min (map r_vers (filter (rbl_fits (prog, netid)) l)) lowv,
       fold max (map r_vers (filter (rbl_fits (prog, netid)) l)) highv)"
proof (induction l arbitrary: lowv highv)
  case (Cons r l)
  show ?case
  proof (cases "rbl_fits (prog, netid) r")
    case True
    then have "r_vers r \<noteq> 0" using Cons.prems(3) by auto
    then show ?thesis
      using True Cons.prems Cons.IH [of "r_vers r" highv] Cons.IH [of lowv "r_vers r"] Cons.IH [of lowv highv]
      by (auto simp: rbl_fits_def min_def max_def not_less)
  next
    case False
    then show ?thesis using Cons by (auto simp: rbl_fits_def)
  qed
qed simp

lemma find_versions_loop_start:
  "0 \<notin> r_vers ` set (filter (rbl_fits (prog, netid)) l) \<Longrightarrow>
    find_versions_loop prog netid l 0 0 =
      (case map r_vers (filter (rbl_fits (prog, netid)) l) of [] \<Rightarrow> (0, 0)
       | v # vs \<Rightarrow> (fold min vs v, fold max vs v))"
  by (induction l) (auto simp: find_versions_loop_nonzero, auto simp: rbl_fits_def)

section \<open>Transports\<close>

definition transports :: "(string option \<times> bool) list \<Rightarrow> fdlist list" where
  "transports calls = fold (\<lambda>(found, mem) fds. snd (add_bndlist found mem fds)) calls []"

lemma transports_unchecked: "list_all (\<lambda>fdl. \<not> check_binding fdl) (transports calls)"
proof -
  have "list_all (\<lambda>fdl. \<not> check_binding fdl)
      (fold (\<lambda>(found, mem) fds. snd (add_bndlist found mem fds)) calls fds)"
    if "list_all (\<lambda>fdl. \<not> check_binding fdl) fds" for fds
    using that by (induction calls arbitrary: fds)
      (simp_all add: case_prod_unfold add_bndlist_def option.case_eq_if)
  then show ?thesis by (simp add: transports_def)
qed

lemma is_bound_transports: "is_bound probe (transports calls) netid uaddr"
proof (cases "find_fd (transports calls) netid")
  case (Some fdl)
  then have "fdl \<in> set (transports calls)"
    using find_SomeD [of "\<lambda>fdl. nc_netid fdl = netid" "transports calls" fdl] by (simp add: find_fd_def)
  then have "\<not> check_binding fdl" using transports_unchecked [of calls] by (simp add: list_all_iff)
  with Some show ?thesis by (simp add: is_bound_def check_bound_def)
qed (simp add: is_bound_def)

lemma delete_prog_loop_bound:
  "(\<And>netid uaddr. is_bound probe fds netid uaddr) \<Longrightarrow> delete_prog_loop probe fds prog l g = Some g"
  by (induction l) auto

section \<open>Properties\<close>

text \<open>
  C7: The list \<open>list_rbl\<close> with \<open>map_set\<close> and \<open>map_unset\<close> implements a map from program, version
  and network identifier to address and owner.  Given memory, \<open>map_set\<close> binds a free key and
  succeeds, and for a bound key changes nothing and succeeds exactly if the address is the
  same.  For one transport \<open>map_unset\<close> unbinds the key and succeeds, also if it was free, or
  changes nothing and fails if the key is bound by somebody else and the caller is not the
  superuser.
\<close>

theorem registry_refines:
  assumes "registry_inv g" and "rbl_ok al" and "strdup_ok al" and "r_netid regp \<noteq> []"
  shows "map_prod id bindings (map_set al regp owner g) = spec_set (key regp) (r_addr regp) owner (bindings g)
    \<and> map_prod id bindings (map_unset regp (Some owner) g) = spec_unset (key regp) owner (bindings g)"
  using assms by (simp add: map_set_refines map_unset_refines)

definition empty_registry :: registry where
  "empty_registry = \<lparr>list_rbl = [], list_pml = [], tcptrans = ''tcp'', udptrans = ''udp''\<rparr>"

definition allocs_ok :: allocs where
  "allocs_ok = \<lparr>rbl_ok = True, strdup_ok = True, pml_ok = True\<rparr>"

definition nfs_tcp :: rpcb where
  "nfs_tcp = \<lparr>r_prog = 100003, r_vers = 3, r_netid = ''tcp'', r_addr = ''0.0.0.0.8.1'', r_owner = []\<rparr>"

lemma tolower_tcp:
  "tolower CHR ''t'' = CHR ''t''" "tolower CHR ''c'' = CHR ''c''" "tolower CHR ''p'' = CHR ''p''"
  "tolower CHR ''T'' = CHR ''t''" "tolower CHR ''C'' = CHR ''c''" "tolower CHR ''P'' = CHR ''p''"
  by code_simp+

lemma registry_refines_witness:
  "map_prod id bindings (map_set allocs_ok nfs_tcp ''1000'' empty_registry) =
    spec_set (key nfs_tcp) ''0.0.0.0.8.1'' ''1000'' (bindings empty_registry)
   \<and> map_prod id bindings (map_unset nfs_tcp (Some ''1000'') empty_registry) =
    spec_unset (key nfs_tcp) ''1000'' (bindings empty_registry)"
  using registry_refines [of empty_registry allocs_ok nfs_tcp "''1000''"]
  by (simp add: registry_inv_def empty_registry_def allocs_ok_def nfs_tcp_def)

text \<open>
  Whatever requests are served, in whatever order and by whomever, the registry never
  holds two entries of one program, version and network identifier.
\<close>

theorem registry_keys_distinct:
  assumes "served A g h" and "registry_inv g"
  shows "registry_inv h"
  using assms by (rule served_induct_inv) (simp add: serve_inv)

lemma registry_keys_distinct_witness:
  "registry_inv (serve (Set_req allocs_ok nfs_tcp ''1000'') empty_registry)"
  using registry_keys_distinct [OF served.request [OF served.start], of "\<lambda>_. True" "Set_req allocs_ok nfs_tcp ''1000''" empty_registry]
  by (simp add: registry_inv_def empty_registry_def)

text \<open>
  C28: The version 2 list stays what the version 3 and 4 list makes of it, entry by entry and
  in the same order, over all runs of requests that name transports in lower case, find
  memory, and unset all transports at once only as the superuser, from any state where it is
  so; the names of the two transports must differ.
\<close>

theorem registry_lists_agree:
  assumes "served canonical g h" and "registry_inv g" and "in_step g" and "tcptrans g \<noteq> udptrans g"
    and "\<forall>r \<in> set (list_rbl g). map tolower (r_netid r) = r_netid r"
  shows "list_pml h = List.map_filter (pmap_of h) (list_rbl h)"
proof -
  have "step_inv g" using assms by (simp add: step_inv_def)
  with assms(1) have "step_inv h" by (rule served_induct_inv) (rule serve_step_inv)
  then show ?thesis by (simp add: step_inv_def in_step_def)
qed

lemma registry_lists_agree_witness:
  "let h = serve (Set_req allocs_ok nfs_tcp ''1000'') empty_registry in
    list_pml h = List.map_filter (pmap_of h) (list_rbl h)"
  unfolding Let_def
  by (rule registry_lists_agree [OF served.request [OF served.start]])
    (simp_all add: nfs_tcp_def tolower_tcp allocs_ok_def registry_inv_def in_step_def empty_registry_def
      map_filter_simps)

text \<open>
  Without those conditions the two lists part.  An entry registered for the TCP transport
  is removed by an unset that spells the transport otherwise, since \<open>strcasecmp\<close> ignores
  case; \<open>pmap_netid2ipprot\<close> compares with \<open>strcmp\<close>, so the version 2 list keeps the mapping
  and goes on answering for it.
\<close>

theorem map_unset_stale_pmap:
  assumes "r_netid regp \<notin> {[], tcptrans g, udptrans g}"
    and "map tolower (r_netid regp) = map tolower (tcptrans g)"
    and "map_unset regp (Some ''superuser'') g = (ok, h)"
  shows "ok \<and> (\<forall>r \<in> set (list_rbl h). key r \<noteq> key (regp\<lparr>r_netid := tcptrans g\<rparr>)) \<and> list_pml h = list_pml g"
proof -
  have k: "key (regp\<lparr>r_netid := tcptrans g\<rparr>) = key regp" using assms(2) by (simp add: key_def)
  have "ok \<and> (\<forall>r \<in> set (list_rbl h). unset_skips regp r)"
    using map_unset_kept [of g regp "''superuser''"] assms(3) by (auto split: if_splits)
  then show ?thesis
    using k map_unset_pml_other [OF assms(1), of "Some ''superuser''"] assms(1,3)
    by (auto simp: unset_skips_key)
qed

lemma map_unset_stale_pmap_witness:
  "let g = serve (Set_req allocs_ok nfs_tcp ''1000'') empty_registry;
       (ok, h) = map_unset (nfs_tcp\<lparr>r_netid := ''TCP''\<rparr>) (Some ''superuser'') g
   in ok \<and> (\<forall>r \<in> set (list_rbl h). key r \<noteq> key nfs_tcp) \<and> list_pml h = list_pml g"
proof -
  define g where "g = serve (Set_req allocs_ok nfs_tcp ''1000'') empty_registry"
  have t: "tcptrans g = ''tcp''" "udptrans g = ''udp''"
    by (simp_all add: g_def map_set_def find_service_def empty_registry_def map_add_def allocs_ok_def)
  have n: "nfs_tcp\<lparr>r_netid := ''tcp''\<rparr> = nfs_tcp" by (simp add: nfs_tcp_def)
  show ?thesis
    unfolding g_def [symmetric] Let_def
    using map_unset_stale_pmap [of "nfs_tcp\<lparr>r_netid := ''TCP''\<rparr>" g]
    by (auto simp: t n tolower_tcp split: prod.splits)
qed

text \<open>
  A request for all transports by a caller who owns only the first of the entries it
  names fails half-way: it reports failure although it has removed those before the first
  foreign entry, and \<open>del_pmaplist\<close> is never called, so that the version 2 list keeps them.
\<close>

theorem map_unset_partial:
  assumes "owner \<noteq> ''superuser''" and "list_rbl g = xs @ r # ys"
    and "\<forall>x \<in> set xs. unset_skips regp x \<or> r_owner x = owner"
    and "\<not> unset_skips regp r" and "r_owner r \<noteq> owner"
  shows "map_unset regp (Some owner) g = (False, g\<lparr>list_rbl := filter (unset_skips regp) xs @ r # ys\<rparr>)"
proof -
  have "takeWhile (\<lambda>r. unset_skips regp r \<or> owner = ''superuser'' \<or> r_owner r = owner) (list_rbl g) = xs"
    and "dropWhile (\<lambda>r. unset_skips regp r \<or> owner = ''superuser'' \<or> r_owner r = owner) (list_rbl g) = r # ys"
    using assms by (simp_all add: takeWhile_append2 dropWhile_append2)
  moreover have "\<not> (\<forall>r \<in> set (list_rbl g). unset_skips regp r \<or> owner = ''superuser'' \<or> r_owner r = owner)"
    using assms by auto
  ultimately show ?thesis by (subst map_unset_denied) simp_all
qed

lemma map_unset_partial_witness:
  "let mine = nfs_tcp\<lparr>r_owner := ''1000''\<rparr>; his = nfs_tcp\<lparr>r_netid := ''udp'', r_owner := ''0''\<rparr>;
       g = empty_registry\<lparr>list_rbl := [mine, his]\<rparr>
   in map_unset (nfs_tcp\<lparr>r_netid := []\<rparr>) (Some ''1000'') g = (False, g\<lparr>list_rbl := [his]\<rparr>)"
  using map_unset_partial [of "''1000''" "empty_registry\<lparr>list_rbl := [nfs_tcp\<lparr>r_owner := ''1000''\<rparr>,
      nfs_tcp\<lparr>r_netid := ''udp'', r_owner := ''0''\<rparr>]\<rparr>" "[nfs_tcp\<lparr>r_owner := ''1000''\<rparr>]"
      "nfs_tcp\<lparr>r_netid := ''udp'', r_owner := ''0''\<rparr>" "[]" "nfs_tcp\<lparr>r_netid := []\<rparr>"]
  by (simp add: unset_skips_def)

text \<open>
  A caller who is not the superuser can neither remove nor alter an entry of another
  owner, whatever requests it makes and however many.
\<close>

theorem registry_owner_safe:
  assumes "served (asked_by owner) g h" and "owner \<noteq> ''superuser''"
    and "r \<in> set (list_rbl g)" and "r_owner r \<noteq> owner"
  shows "r \<in> set (list_rbl h)"
  using assms(1,3) by (rule served_induct_inv) (use assms(2,4) in \<open>simp add: serve_foreign\<close>)

lemma registry_owner_safe_witness:
  "nfs_tcp\<lparr>r_owner := ''1000''\<rparr> \<in> set (list_rbl (serve (Unset_req nfs_tcp (Some ''unknown''))
    (empty_registry\<lparr>list_rbl := [nfs_tcp\<lparr>r_owner := ''1000''\<rparr>]\<rparr>)))"
  by (rule registry_owner_safe [OF served.request [OF served.start], where owner = "''unknown''"])
    (simp_all add: asked_by_def)

text \<open>
  Both searches, \<open>find_service\<close> for versions 3 and 4 and \<open>find_service_pmap\<close> for
  version 2, find nothing exactly if no entry fits program and transport, return only an
  entry that fits, and return one of the wanted version whenever there is one.
\<close>

theorem find_service_best:
  "(case find_service l k vers of
      None \<Rightarrow> \<forall>r \<in> set l. \<not> rbl_fits k r
    | Some a \<Rightarrow> a \<in> set l \<and> rbl_fits k a
        \<and> (\<forall>r \<in> set l. rbl_fits k r \<and> r_vers r = vers \<longrightarrow> r_vers a = vers))
   \<and> (case find_service_pmap m j vers of
      None \<Rightarrow> \<forall>p \<in> set m. \<not> pml_fits j p
    | Some a \<Rightarrow> a \<in> set m \<and> pml_fits j a
        \<and> (\<forall>p \<in> set m. pml_fits j p \<and> pm_vers p = ucast vers \<longrightarrow> pm_vers a = ucast vers))"
  using rbl.look_None [of l k vers] rbl.look_SomeD [of l k vers]
    pml.look_None [of m j vers] pml.look_SomeD [of m j vers]
  by (auto split: option.splits)

lemma find_service_best_witness:
  "case find_service [nfs_tcp] (100003, ''TCP'') 4 of None \<Rightarrow> False | Some a \<Rightarrow> r_vers a = 3"
  using find_service_best [of "[nfs_tcp]" "(100003, ''TCP'')" 4 "[]" "(0, 0)"]
  by (auto simp: rbl_fits_def nfs_tcp_def strcasecmp_def tolower_tcp split: option.splits)

text \<open>
  \<open>find_versions\<close> gives the lowest and the highest version registered for a program and
  a transport, and 0 for both if there is none, as long as no entry has version 0, which the
  loop takes for the sign that it has seen none.
\<close>

theorem find_versions_bounds:
  assumes "0 \<notin> set (versions g prog netid)"
  shows "find_versions g prog netid = (case versions g prog netid of
      [] \<Rightarrow> (0, 0) | v # vs \<Rightarrow> (Min (set (v # vs)), Max (set (v # vs))))"
  using find_versions_loop_start [of prog netid "list_rbl g"] assms
  by (auto simp: find_versions_def versions_def Min.set_eq_fold Max.set_eq_fold split: list.splits
      simp del: list.set)

lemma find_versions_bounds_witness:
  "find_versions (empty_registry\<lparr>list_rbl := [nfs_tcp\<lparr>r_vers := 4\<rparr>, nfs_tcp]\<rparr>) 100003 ''tcp'' = (3, 4)"
  using find_versions_bounds [of "empty_registry\<lparr>list_rbl := [nfs_tcp\<lparr>r_vers := 4\<rparr>, nfs_tcp]\<rparr>" 100003 "''tcp''"]
  by (simp add: versions_def rbl_fits_def nfs_tcp_def strcasecmp_def)

text \<open>
  On the transports that \<open>add_bndlist\<close> installs every address counts as bound, since it
  always turns the check off: \<open>delete_prog\<close>, which should remove the services that died,
  removes nothing, and never comes to the step through the node it has freed.
\<close>

theorem delete_prog_noop:
  "is_bound probe (transports calls) netid uaddr \<and> delete_prog probe (transports calls) prog g = Some g"
  by (simp add: is_bound_transports delete_prog_def delete_prog_loop_bound)

end
