(* ===== verification/Rpcb_Stats.thy ===== *)
theory Rpcb_Stats
  imports Rpcb_List
begin

text \<open>
  \<open>lib/rpcbind/src/rpcb_stat.c\<close>: the statistics \<open>inf\<close>, one \<open>rpcb_stat\<close> for each version of
  the protocol.  The counters are C \<open>int\<close>s, kept as words.  The lists of address and remote
  call statistics never hold a null \<open>netid\<close>, since it is taken from a \<open>netconfig\<close>.
\<close>

section \<open>State\<close>

record rpcbs_addrlist =
  al_prog :: "32 word"
  al_vers :: "32 word"
  al_success :: "32 word"
  al_failure :: "32 word"
  al_netid :: string

record rpcbs_rmtcalllist =
  rl_prog :: "32 word"
  rl_vers :: "32 word"
  rl_proc :: "32 word"
  rl_success :: "32 word"
  rl_failure :: "32 word"
  rl_indirect :: "32 word"
  rl_netid :: string

record rpcb_stat =
  info :: "32 word list"
  setinfo :: "32 word"
  unsetinfo :: "32 word"
  addrinfo :: "rpcbs_addrlist list"
  rmtinfo :: "rpcbs_rmtcalllist list"

type_synonym rpcb_stat_byvers = "rpcb_stat list"

definition PMAPVERS :: "32 word" where "PMAPVERS = 2"
definition RPCBVERS :: "32 word" where "RPCBVERS = 3"
definition RPCBVERS4 :: "32 word" where "RPCBVERS4 = 4"
definition rpcb_highproc_2 :: "32 word" where "rpcb_highproc_2 = 5"
definition rpcb_highproc_3 :: "32 word" where "rpcb_highproc_3 = 8"
definition rpcb_highproc_4 :: "32 word" where "rpcb_highproc_4 = 12"
definition RPCBVERS_STAT :: "32 word" where "RPCBVERS_STAT = 3"
definition RPCBVERS_2_STAT :: "32 word" where "RPCBVERS_2_STAT = 0"
definition RPCBVERS_3_STAT :: "32 word" where "RPCBVERS_3_STAT = 1"
definition RPCBVERS_4_STAT :: "32 word" where "RPCBVERS_4_STAT = 2"

lemmas stat_consts = PMAPVERS_def RPCBVERS_def RPCBVERS4_def rpcb_highproc_2_def rpcb_highproc_3_def
  rpcb_highproc_4_def RPCBVERS_STAT_def RPCBVERS_2_STAT_def RPCBVERS_3_STAT_def RPCBVERS_4_STAT_def

text \<open>\<open>static rpcb_stat_byvers inf\<close>, zero at the start.\<close>

definition inf_start :: rpcb_stat_byvers where
  "inf_start = replicate 3 \<lparr>info = replicate 13 0, setinfo = 0, unsetinfo = 0, addrinfo = [], rmtinfo = []\<rparr>"

section \<open>Operations\<close>

definition at_version :: "32 word \<Rightarrow> (rpcb_stat \<Rightarrow> rpcb_stat) \<Rightarrow> rpcb_stat_byvers \<Rightarrow> rpcb_stat_byvers" where
  "at_version rtype f stats = stats[unat rtype := f (stats ! unat rtype)]"

definition rpcbs_procinfo :: "32 word \<Rightarrow> 32 word \<Rightarrow> rpcb_stat_byvers \<Rightarrow> rpcb_stat_byvers" where
  "rpcbs_procinfo rtype proc stats =
     (if rtype + 2 = PMAPVERS \<and> proc \<le> rpcb_highproc_2
        \<or> rtype + 2 = RPCBVERS \<and> proc \<le> rpcb_highproc_3
        \<or> rtype + 2 = RPCBVERS4 \<and> proc \<le> rpcb_highproc_4
      then at_version rtype (\<lambda>s. s\<lparr>info := (info s)[unat proc := info s ! unat proc + 1]\<rparr>) stats
      else stats)"

definition rpcbs_set :: "32 word \<Rightarrow> bool \<Rightarrow> rpcb_stat_byvers \<Rightarrow> rpcb_stat_byvers" where
  "rpcbs_set rtype success stats =
     (if RPCBVERS_STAT \<le> rtype \<or> \<not> success then stats
      else at_version rtype (\<lambda>s. s\<lparr>setinfo := setinfo s + 1\<rparr>) stats)"

definition rpcbs_unset :: "32 word \<Rightarrow> bool \<Rightarrow> rpcb_stat_byvers \<Rightarrow> rpcb_stat_byvers" where
  "rpcbs_unset rtype success stats =
     (if RPCBVERS_STAT \<le> rtype \<or> \<not> success then stats
      else at_version rtype (\<lambda>s. s\<lparr>unsetinfo := unsetinfo s + 1\<rparr>) stats)"

text \<open>The loops over the lists change the first entry that matches, or find none.\<close>

fun bump :: "('a \<Rightarrow> bool) \<Rightarrow> ('a \<Rightarrow> 'a) \<Rightarrow> 'a list \<Rightarrow> 'a list option" where
  "bump matches f [] = None"
| "bump matches f (a # l) = (if matches a then Some (f a # l)
     else map_option ((#) a) (bump matches f l))"

text \<open>
  \<open>conf\<close> says which network identifiers \<open>rpcbind_get_conf\<close> knows, \<open>mem\<close> whether \<open>malloc\<close>
  serves the new node; a null \<open>uaddr\<close> is \<open>None\<close>.
\<close>

definition rpcbs_getaddr :: "(string \<Rightarrow> bool) \<Rightarrow> bool \<Rightarrow> 32 word \<Rightarrow> 32 word \<Rightarrow> 32 word \<Rightarrow> string
    \<Rightarrow> string option \<Rightarrow> rpcb_stat_byvers \<Rightarrow> rpcb_stat_byvers" where
  "rpcbs_getaddr conf mem rtype prog vers netid uaddr stats =
     (let failed = (uaddr = None \<or> uaddr = Some []) in
      if RPCBVERS_STAT \<le> rtype then stats
      else case bump (\<lambda>al. al_prog al = prog \<and> al_vers al = vers \<and> al_netid al = netid)
          (\<lambda>al. if failed then al\<lparr>al_failure := al_failure al + 1\<rparr> else al\<lparr>al_success := al_success al + 1\<rparr>)
          (addrinfo (stats ! unat rtype)) of
        Some l \<Rightarrow> at_version rtype (\<lambda>s. s\<lparr>addrinfo := l\<rparr>) stats
      | None \<Rightarrow>
          if \<not> conf netid \<or> \<not> mem then stats
          else at_version rtype (\<lambda>s. s\<lparr>addrinfo :=
            \<lparr>al_prog = prog, al_vers = vers, al_success = (if failed then 0 else 1),
             al_failure = (if failed then 1 else 0), al_netid = netid\<rparr> # addrinfo s\<rparr>) stats)"

definition RPCBPROC_INDIRECT :: "32 word" where "RPCBPROC_INDIRECT = 10"

definition rpcbs_rmtcall :: "(string \<Rightarrow> bool) \<Rightarrow> bool \<Rightarrow> 32 word \<Rightarrow> 32 word \<Rightarrow> 32 word \<Rightarrow> 32 word \<Rightarrow> 32 word
    \<Rightarrow> string \<Rightarrow> rpcb option \<Rightarrow> rpcb_stat_byvers \<Rightarrow> rpcb_stat_byvers" where
  "rpcbs_rmtcall conf mem rtype rpcbproc prog vers proc netid rbl stats =
     (let failed = (case rbl of None \<Rightarrow> True | Some rbl \<Rightarrow> r_vers rbl \<noteq> vers) in
      if RPCBVERS_STAT \<le> rtype then stats
      else case bump (\<lambda>rl. rl_prog rl = prog \<and> rl_vers rl = vers \<and> rl_proc rl = proc \<and> rl_netid rl = netid)
          (\<lambda>rl. let rl = (if failed then rl\<lparr>rl_failure := rl_failure rl + 1\<rparr>
                else rl\<lparr>rl_success := rl_success rl + 1\<rparr>)
             in if rpcbproc = RPCBPROC_INDIRECT then rl\<lparr>rl_indirect := rl_indirect rl + 1\<rparr> else rl)
          (rmtinfo (stats ! unat rtype)) of
        Some l \<Rightarrow> at_version rtype (\<lambda>s. s\<lparr>rmtinfo := l\<rparr>) stats
      | None \<Rightarrow>
          if \<not> conf netid \<or> \<not> mem then stats
          else at_version rtype (\<lambda>s. s\<lparr>rmtinfo :=
            \<lparr>rl_prog = prog, rl_vers = vers, rl_proc = proc, rl_success = (if failed then 0 else 1),
             rl_failure = (if failed then 1 else 0), rl_indirect = 1, rl_netid = netid\<rparr> # rmtinfo s\<rparr>) stats)"

section \<open>What the address statistics count\<close>

text \<open>The entry for a program, version and transport, and the calls of \<open>rpcbs_getaddr\<close> for it.\<close>

type_synonym getaddr_call = "(32 word \<times> 32 word \<times> string) \<times> string option"

definition al_entry :: "32 word \<times> 32 word \<times> string \<Rightarrow> rpcbs_addrlist list \<Rightarrow> rpcbs_addrlist option" where
  "al_entry k = find (\<lambda>al. (al_prog al, al_vers al, al_netid al) = k)"

definition al_counts :: "rpcbs_addrlist option \<Rightarrow> 32 word \<times> 32 word" where
  "al_counts a = (case a of None \<Rightarrow> (0, 0) | Some al \<Rightarrow> (al_success al, al_failure al))"

definition answered :: "getaddr_call \<Rightarrow> bool" where
  "answered c \<longleftrightarrow> (case snd c of None \<Rightarrow> False | Some uaddr \<Rightarrow> uaddr \<noteq> [])"

definition rpcbs_getaddrs :: "32 word \<Rightarrow> getaddr_call list \<Rightarrow> rpcb_stat_byvers \<Rightarrow> rpcb_stat_byvers" where
  "rpcbs_getaddrs rtype = fold (\<lambda>((prog, vers, netid), uaddr). rpcbs_getaddr (\<lambda>_. True) True rtype prog vers netid uaddr)"

lemma find_bump:
  assumes "bump P f l = Some l'" and "\<And>a. key (f a) = key a" and "\<And>a. P a \<longleftrightarrow> key a = k"
  shows "find (\<lambda>a. key a = j) l' = (if j = k then map_option f (find (\<lambda>a. key a = j) l) else find (\<lambda>a. key a = j) l)"
  using assms by (induction l arbitrary: l') (auto split: if_splits)

lemma bump_SomeD: "bump P f l = Some l' \<Longrightarrow> \<exists>a \<in> set l. P a"
  by (induction l arbitrary: l') (auto split: if_splits)

lemma bump_None: "bump P f l = None \<longleftrightarrow> find P l = None"
  by (induction l) auto

lemma at_version_nth [simp]:
  "unat rtype < length stats \<Longrightarrow> at_version rtype f stats ! unat rtype = f (stats ! unat rtype)"
  "length (at_version rtype f stats) = length stats"
  by (simp_all add: at_version_def)

definition count_one :: "getaddr_call \<Rightarrow> 32 word \<times> 32 word \<times> string \<Rightarrow> 32 word \<times> 32 word \<Rightarrow> 32 word \<times> 32 word" where
  "count_one c k = (\<lambda>(s, f). if fst c \<noteq> k then (s, f) else if answered c then (s + 1, f) else (s, f + 1))"

lemma al_counts_bump:
  assumes b: "bump (\<lambda>al. al_prog al = prog \<and> al_vers al = vers \<and> al_netid al = netid) f l = Some l'"
    and f: "f = (\<lambda>al. if answered ((prog, vers, netid), uaddr) then al\<lparr>al_success := al_success al + 1\<rparr>
      else al\<lparr>al_failure := al_failure al + 1\<rparr>)"
  shows "al_counts (al_entry k l') = count_one ((prog, vers, netid), uaddr) k (al_counts (al_entry k l))"
proof -
  let ?key = "\<lambda>al. (al_prog al, al_vers al, al_netid al)"
  have "find (\<lambda>a. ?key a = k) l' = (if k = (prog, vers, netid) then map_option f (find (\<lambda>a. ?key a = k) l)
      else find (\<lambda>a. ?key a = k) l)"
    by (rule find_bump [OF b]) (auto simp: f)
  moreover have "find (\<lambda>a. ?key a = (prog, vers, netid)) l \<noteq> None"
    using bump_SomeD [OF b] by (auto simp: find_None_iff)
  ultimately show ?thesis
    unfolding al_entry_def
    by (cases "k = (prog, vers, netid)") (auto simp: al_counts_def count_one_def f)
qed

lemma rpcbs_getaddr_counts:
  assumes "rtype < RPCBVERS_STAT" and "length stats = 3"
  shows "al_counts (al_entry k (addrinfo (rpcbs_getaddr (\<lambda>_. True) True rtype prog vers netid uaddr stats ! unat rtype)))
      = count_one ((prog, vers, netid), uaddr) k (al_counts (al_entry k (addrinfo (stats ! unat rtype))))"
    and "length (rpcbs_getaddr (\<lambda>_. True) True rtype prog vers netid uaddr stats) = 3"
proof -
  have len: "unat rtype < length stats" using assms by (simp add: stat_consts word_less_nat_alt)
  let ?P = "\<lambda>al. al_prog al = prog \<and> al_vers al = vers \<and> al_netid al = netid"
  let ?f = "\<lambda>al. if answered ((prog, vers, netid), uaddr) then al\<lparr>al_success := al_success al + 1\<rparr>
    else al\<lparr>al_failure := al_failure al + 1\<rparr>"
  have lt: "(RPCBVERS_STAT \<le> rtype) = False" using assms by simp
  have f: "(\<lambda>al. if uaddr = None \<or> uaddr = Some [] then al\<lparr>al_failure := al_failure al + 1\<rparr>
      else al\<lparr>al_success := al_success al + 1\<rparr>) = ?f"
    by (auto simp: fun_eq_iff answered_def split: option.splits)
  have g: "rpcbs_getaddr (\<lambda>_. True) True rtype prog vers netid uaddr stats =
      (case bump ?P ?f (addrinfo (stats ! unat rtype)) of
        Some l \<Rightarrow> at_version rtype (\<lambda>s. s\<lparr>addrinfo := l\<rparr>) stats
      | None \<Rightarrow> at_version rtype (\<lambda>s. s\<lparr>addrinfo :=
          \<lparr>al_prog = prog, al_vers = vers, al_success = (if uaddr = None \<or> uaddr = Some [] then 0 else 1),
           al_failure = (if uaddr = None \<or> uaddr = Some [] then 1 else 0), al_netid = netid\<rparr> # addrinfo s\<rparr>) stats)"
    by (simp only: rpcbs_getaddr_def Let_def f lt if_False simp_thms)
  show "length (rpcbs_getaddr (\<lambda>_. True) True rtype prog vers netid uaddr stats) = 3"
    using assms(2) by (simp add: g split: option.splits)
  show "al_counts (al_entry k (addrinfo (rpcbs_getaddr (\<lambda>_. True) True rtype prog vers netid uaddr stats ! unat rtype)))
      = count_one ((prog, vers, netid), uaddr) k (al_counts (al_entry k (addrinfo (stats ! unat rtype))))"
  proof (cases "bump ?P ?f (addrinfo (stats ! unat rtype))")
    case None
    then have "al_entry (prog, vers, netid) (addrinfo (stats ! unat rtype)) = None"
      by (simp add: bump_None al_entry_def find_None_iff)
    with None show ?thesis unfolding g
      by (cases "k = (prog, vers, netid)")
        (auto simp: len al_entry_def al_counts_def count_one_def answered_def split: option.splits)
  next
    case (Some l)
    then have "addrinfo ((case bump ?P ?f (addrinfo (stats ! unat rtype)) of
        Some l \<Rightarrow> at_version rtype (\<lambda>s. s\<lparr>addrinfo := l\<rparr>) stats | None \<Rightarrow> stats') ! unat rtype) = l" for stats'
      by (simp add: len)
    then show ?thesis unfolding g by (simp only: al_counts_bump [OF Some refl])
  qed
qed

section \<open>Properties\<close>

text \<open>
  After any sequence of \<open>rpcbs_getaddr\<close> calls from the start, for transports that
  \<open>rpcbind_get_conf\<close> knows and with memory, the entry of a program, version and transport
  shows how many of the calls for it were answered with an address and how many were not,
  modulo 2 to the 32.
\<close>

theorem rpcbs_getaddr_counts_calls:
  assumes "rtype < RPCBVERS_STAT"
  shows "al_counts (al_entry k (addrinfo (rpcbs_getaddrs rtype calls inf_start ! unat rtype))) =
    (of_nat (length (filter (\<lambda>c. fst c = k \<and> answered c) calls)),
     of_nat (length (filter (\<lambda>c. fst c = k \<and> \<not> answered c) calls)))"
proof -
  have "length (rpcbs_getaddrs rtype calls inf_start) = 3 \<and>
    al_counts (al_entry k (addrinfo (rpcbs_getaddrs rtype calls inf_start ! unat rtype))) =
    (of_nat (length (filter (\<lambda>c. fst c = k \<and> answered c) calls)),
     of_nat (length (filter (\<lambda>c. fst c = k \<and> \<not> answered c) calls)))"
  proof (induction calls rule: rev_induct)
    case Nil
    have "unat rtype < 3" using assms by (simp add: stat_consts word_less_nat_alt)
    then show ?case by (simp add: rpcbs_getaddrs_def inf_start_def al_entry_def al_counts_def)
  next
    case (snoc c calls)
    obtain prog vers netid uaddr where c: "c = ((prog, vers, netid), uaddr)" by (metis prod.exhaust)
    have "rpcbs_getaddrs rtype (calls @ [c]) inf_start =
        rpcbs_getaddr (\<lambda>_. True) True rtype prog vers netid uaddr (rpcbs_getaddrs rtype calls inf_start)"
      by (simp add: rpcbs_getaddrs_def c)
    then show ?case using snoc rpcbs_getaddr_counts [OF assms] by (auto simp: count_one_def c)
  qed
  then show ?thesis by blast
qed

lemma rpcbs_getaddr_counts_calls_witness:
  "let k = (100003, 3, ''tcp''); calls = [(k, Some ''0.0.0.0.8.1''), (k, None), (k, Some ''0.0.0.0.8.1'')]
   in al_counts (al_entry k (addrinfo (rpcbs_getaddrs 1 calls inf_start ! 1))) = (2, 1)"
  using rpcbs_getaddr_counts_calls [of 1 "(100003, 3, ''tcp'')" "[((100003, 3, ''tcp''), Some ''0.0.0.0.8.1''),
      ((100003, 3, ''tcp''), None), ((100003, 3, ''tcp''), Some ''0.0.0.0.8.1'')]"]
  by (simp add: stat_consts answered_def Let_def)

text \<open>
  The first remote call to a procedure is counted as an indirect one, whatever procedure
  of \<open>rpcbind\<close> it came through: \<open>rpcbs_rmtcall\<close> sets \<open>indirect\<close> to 1 in the entry it makes,
  where it would have to ask for \<open>RPCBPROC_INDIRECT\<close> as it does when the entry exists.
\<close>

theorem rpcbs_rmtcall_first_indirect:
  assumes "rtype < RPCBVERS_STAT" and "length stats = 3" and "conf netid"
    and "\<forall>rl \<in> set (rmtinfo (stats ! unat rtype)). rl_prog rl \<noteq> prog"
  shows "rl_indirect (hd (rmtinfo (rpcbs_rmtcall conf True rtype rpcbproc prog vers proc netid rbl stats ! unat rtype))) = 1"
proof -
  have "unat rtype < length stats" using assms by (simp add: stat_consts word_less_nat_alt)
  moreover have "bump (\<lambda>rl. rl_prog rl = prog \<and> rl_vers rl = vers \<and> rl_proc rl = proc \<and> rl_netid rl = netid) f
      (rmtinfo (stats ! unat rtype)) = None" for f
    using assms(4) by (auto simp: bump_None find_None_iff)
  moreover have "\<not> RPCBVERS_STAT \<le> rtype" using assms(1) by simp
  ultimately show ?thesis using assms by (simp add: rpcbs_rmtcall_def Let_def)
qed

lemma rpcbs_rmtcall_first_indirect_witness:
  "rl_indirect (hd (rmtinfo (rpcbs_rmtcall (\<lambda>_. True) True 1 5 100003 3 0 ''udp'' None inf_start ! 1))) = 1"
  using rpcbs_rmtcall_first_indirect [of 1 inf_start "\<lambda>_. True" "''udp''" 100003 5 3 0 None]
  by (simp add: stat_consts inf_start_def)

end
