(* ===== verification/Rpcb_Forward.thy ===== *)
theory Rpcb_Forward
  imports Rpcb_Stats Rpc_Msg
begin

text \<open>
  The forwarding of calls in \<open>lib/rpcbind/src/rpcb_svc_com.c\<close>: the table \<open>FINFO\<close> of the calls
  that were forwarded and not yet answered, with the number of pending calls and the last
  transaction id, and the handling of an answer.  A transaction id encodes the slot of the
  table.  A \<open>netbuf\<close> is the list of its bytes; \<open>time_t\<close> is \<open>int\<close>.
\<close>

section \<open>The table\<close>

record finfo =
  active :: bool
  caller_xid :: "32 word"
  caller_addr :: "byte list"
  forward_xid :: "32 word"
  forward_fd :: "32 word"
  fi_uaddr :: "string option"
  reply_type :: "32 word"
  versnum :: "32 word"
  fi_time :: int

record forwarding =
  FINFO :: "finfo list"
  rpcb_rmtcalls :: int
  lastxid :: "32 word"

definition NFORWARD :: nat where "NFORWARD = 64"
definition MAXTIME_OFF :: int where "MAXTIME_OFF = 300"

text \<open>The table as the process starts: static storage is zero.\<close>

definition finfo_zero :: finfo where
  "finfo_zero = \<lparr>active = False, caller_xid = 0, caller_addr = [], forward_xid = 0, forward_fd = 0,
     fi_uaddr = None, reply_type = 0, versnum = 0, fi_time = 0\<rparr>"

definition forwarding_start :: forwarding where
  "forwarding_start = \<lparr>FINFO = replicate NFORWARD finfo_zero, rpcb_rmtcalls = 0, lastxid = 0\<rparr>"

definition netbufcmp :: "byte list \<Rightarrow> byte list \<Rightarrow> bool" where
  "netbufcmp n1 n2 \<longleftrightarrow> length n1 \<noteq> length n2 \<or> n1 \<noteq> n2"

definition netbufdup :: "bool \<Rightarrow> byte list \<Rightarrow> byte list option" where
  "netbufdup mem ap = (if mem then Some ap else None)"

definition free_slot_by_index :: "nat \<Rightarrow> forwarding \<Rightarrow> bool \<times> forwarding" where
  "free_slot_by_index i f =
     (if active (FINFO f ! i) then
        (True, f\<lparr>FINFO := (FINFO f)[i := (FINFO f ! i)\<lparr>active := False\<rparr>],
                 rpcb_rmtcalls := rpcb_rmtcalls f - 1\<rparr>)
      else (False, f))"

definition free_slot_by_xid :: "32 word \<Rightarrow> forwarding \<Rightarrow> bool \<times> forwarding" where
  "free_slot_by_xid xid = free_slot_by_index (unat xid mod NFORWARD)"

definition forward_find :: "32 word \<Rightarrow> forwarding \<Rightarrow> finfo option" where
  "forward_find reply_xid f = (let fi = FINFO f ! (unat reply_xid mod NFORWARD) in
     if active fi \<and> forward_xid fi = reply_xid then Some fi else None)"

text \<open>What is to be registered: the request's own id, address and kind.\<close>

record forward_req =
  q_xid :: "32 word"
  q_addr :: "byte list"
  q_fd :: "32 word"
  q_uaddr :: "string option"
  q_type :: "32 word"
  q_vers :: "32 word"

definition same_call :: "forward_req \<Rightarrow> finfo \<Rightarrow> bool" where
  "same_call q fi \<longleftrightarrow> active fi \<and> caller_xid fi = q_xid q \<and> reply_type fi = q_type q
     \<and> versnum fi = q_vers q \<and> \<not> netbufcmp (caller_addr fi) (q_addr q)"

text \<open>
  The loop over the slots: it gives up at a duplicate (\<open>None\<close>), whose time it renews, frees
  what has waited too long, and finds the first free slot (\<open>entry\<close>) and, as long as there is
  none, the slot \<open>j\<close> with the earliest time.
\<close>

definition expire :: "int \<Rightarrow> nat \<Rightarrow> forwarding \<Rightarrow> forwarding" where
  "expire time_now i f =
     (if active (FINFO f ! i) \<and> time_now - fi_time (FINFO f ! i) > MAXTIME_OFF
      then snd (free_slot_by_index i f) else f)"

definition pick_slot :: "nat \<Rightarrow> finfo \<Rightarrow> nat option \<times> nat \<times> int \<Rightarrow> nat option \<times> nat \<times> int" where
  "pick_slot i fi = (\<lambda>(entry, j, min_time).
     if entry \<noteq> None then (entry, j, min_time)
     else if \<not> active fi then (Some i, j, min_time)
     else if fi_time fi < min_time then (entry, i, fi_time fi)
     else (entry, j, min_time))"

fun register_loop :: "forward_req \<Rightarrow> int \<Rightarrow> int \<Rightarrow> nat list \<Rightarrow> nat option \<times> nat \<times> int \<Rightarrow> forwarding
    \<Rightarrow> (nat option \<times> nat \<times> int) option \<times> forwarding" where
  "register_loop q time_now later [] best f = (Some best, f)"
| "register_loop q time_now later (i # is) best f =
     (if same_call q (FINFO f ! i) then
        (None, f\<lparr>FINFO := (FINFO f)[i := (FINFO f ! i)\<lparr>fi_time := later\<rparr>]\<rparr>)
      else let f = expire time_now i f in
        register_loop q time_now later is (pick_slot i (FINFO f ! i) best) f)"

text \<open>The rest of \<open>forward_register\<close>, once the slot is free: the new entry and its id.\<close>

definition next_xid :: "32 word \<Rightarrow> 32 word" where
  "next_xid l = (let l = l + of_nat NFORWARD in
     if l + of_nat NFORWARD \<le> of_nat NFORWARD then of_nat NFORWARD else l)"

definition new_finfo :: "forward_req \<Rightarrow> int \<Rightarrow> 32 word \<Rightarrow> byte list \<Rightarrow> finfo" where
  "new_finfo q time_now xid addr = \<lparr>active = True, caller_xid = q_xid q, caller_addr = addr,
     forward_xid = xid, forward_fd = q_fd q, fi_uaddr = q_uaddr q, reply_type = q_type q,
     versnum = q_vers q, fi_time = time_now\<rparr>"

definition fill_slot :: "bool \<Rightarrow> int \<Rightarrow> forward_req \<Rightarrow> nat \<Rightarrow> forwarding \<Rightarrow> int \<times> 32 word option \<times> forwarding" where
  "fill_slot mem time_now q j f = (case netbufdup mem (q_addr q) of
     None \<Rightarrow> (-1, None, f)
   | Some addr \<Rightarrow>
       (let l = next_xid (lastxid f); xid = l + of_nat j in
        (1, Some xid, f\<lparr>FINFO := (FINFO f)[j := new_finfo q time_now xid addr],
           rpcb_rmtcalls := rpcb_rmtcalls f + 1, lastxid := l\<rparr>)))"

text \<open>
  \<open>time_now\<close> and \<open>later\<close> are what the two calls of \<open>time\<close> return, \<open>mem\<close> whether \<open>netbufdup\<close>
  finds memory.  The result is 1, 0 or -1 and, for 1, the id to forward under.
\<close>

definition first_xid :: "int \<Rightarrow> forwarding \<Rightarrow> forwarding" where
  "first_xid time_now f = (if lastxid f = 0 then f\<lparr>lastxid := word_of_int (time_now * int NFORWARD)\<rparr> else f)"

definition forward_register :: "bool \<Rightarrow> int \<Rightarrow> int \<Rightarrow> forward_req \<Rightarrow> forwarding
    \<Rightarrow> int \<times> 32 word option \<times> forwarding" where
  "forward_register mem time_now later q f =
     (case register_loop q time_now later [0 ..< NFORWARD] (None, 0, fi_time (FINFO f ! 0)) (first_xid time_now f) of
        (None, f) \<Rightarrow> (0, None, f)
      | (Some (entry, j, _), f) \<Rightarrow> (case entry of
            Some i \<Rightarrow> fill_slot mem time_now q i f
          | None \<Rightarrow> fill_slot mem time_now q j (snd (free_slot_by_index j f))))"

section \<open>An answer arrives\<close>

text \<open>
  What is sent: the result of a forwarded call, or a system error to an indirect call, to the
  address of the original caller and under its transaction id.
\<close>

datatype answer =
    Answer "byte list" "32 word" "32 word" "string option" "byte list"
  | Syserr "byte list" "32 word"

definition release :: "32 word \<Rightarrow> forwarding \<Rightarrow> forwarding" where
  "release xid f = (if xid = 0 then f else snd (free_slot_by_xid xid f))"

definition RPC_BUF_MAX :: nat where "RPC_BUF_MAX = 65536"

definition reply_ready :: "(memstrm, unit) trpc_msg \<Rightarrow> (memstrm, unit) trpc_msg" where
  "reply_ready msg = msg\<lparr>trm_reply := (trm_reply msg)\<lparr>trp_acpt :=
     (trp_acpt (trm_reply msg))\<lparr>tar_verf := null_auth, tar_where := (), tar_proc := Some xdr_void\<rparr>\<rparr>\<rparr>"

text \<open>
  \<open>received\<close> is what \<open>recvfrom\<close> left in the buffer at \<open>buffer\<close>, \<open>None\<close> if it failed or there
  was no memory for the buffer; \<open>msg\<close> and \<open>err\<close> are the structures as the stack held them.  At
  the end the slot is freed that the id in \<open>msg\<close> names, whatever happened before.
\<close>

definition handle_reply :: "(nat \<Rightarrow> bool) \<Rightarrow> mem \<Rightarrow> addr \<Rightarrow> byte list option \<Rightarrow> (memstrm, unit) trpc_msg
    \<Rightarrow> rpc_err \<Rightarrow> forwarding \<Rightarrow> (answer list \<times> forwarding) option" where
  "handle_reply avail m buffer received msg err f = (case received of
     None \<Rightarrow> Some ([], release (trm_xid msg) f)
   | Some bs \<Rightarrow> do {
       let m = wr m buffer bs;
       (ok, xdrs, msg) \<leftarrow> xdr_replymsg avail
         (xdrmem_create m buffer (of_nat (length bs)) XDR_DECODE) (reply_ready msg);
       if \<not> ok then Some ([], release (trm_xid msg) f)
       else case forward_find (trm_xid msg) f of
         None \<Rightarrow> Some ([], release (trm_xid msg) f)
       | Some fi \<Rightarrow>
           if re_status (seterr_reply msg err) \<noteq> RPC_SUCCESS then
             Some (if reply_type fi = RPCBPROC_INDIRECT then [Syserr (caller_addr fi) (caller_xid fi)] else [],
               release (trm_xid msg) f)
           else do {
             pos \<leftarrow> XDR_GETPOS xdrs;
             Some ([Answer (caller_addr fi) (caller_xid fi) (versnum fi) (fi_uaddr fi)
                 (rd (x_mem xdrs) (buffer + unat pos) (length bs - unat pos))],
               release (trm_xid msg) f) } })"

section \<open>The table's invariant\<close>

text \<open>
  The ids are spaced by 64, the id of a pending call names its slot and is not 0, and
  \<open>rpcb_rmtcalls\<close> counts the pending calls.
\<close>

definition forwarding_inv :: "forwarding \<Rightarrow> bool" where
  "forwarding_inv f \<longleftrightarrow> length (FINFO f) = NFORWARD \<and> unat (lastxid f) mod NFORWARD = 0
     \<and> rpcb_rmtcalls f = int (length (filter active (FINFO f)))
     \<and> (\<forall>j < NFORWARD. active (FINFO f ! j) \<longrightarrow>
          unat (forward_xid (FINFO f ! j)) mod NFORWARD = j \<and> forward_xid (FINFO f ! j) \<noteq> 0)"

text \<open>Operations on the table only ever touch slots below its length.\<close>

lemma count_update:
  "i < length l \<Longrightarrow> int (length (filter P (l[i := x]))) =
    int (length (filter P l)) - (if P (l ! i) then 1 else 0) + (if P x then 1 else 0)"
proof (induction l arbitrary: i)
  case (Cons a l)
  then show ?case
  proof (cases i)
    case (Suc n)
    then show ?thesis using Cons.IH [of n] Cons.prems by (cases "P a") (simp_all split: if_splits)
  qed simp
qed simp

lemma free_slot_inv:
  "forwarding_inv f \<Longrightarrow> i < NFORWARD \<Longrightarrow> forwarding_inv (snd (free_slot_by_index i f))"
  by (auto simp: forwarding_inv_def free_slot_by_index_def count_update nth_list_update)

lemma free_slot_other:
  "j \<noteq> i \<Longrightarrow> FINFO (snd (free_slot_by_index i f)) ! j = FINFO f ! j"
  by (simp add: free_slot_by_index_def)

lemma free_slot_same:
  "i < length (FINFO f) \<Longrightarrow> \<not> active (FINFO (snd (free_slot_by_index i f)) ! i)"
  by (simp add: free_slot_by_index_def)

lemma free_slot_length [simp]:
  "length (FINFO (snd (free_slot_by_index i f))) = length (FINFO f)"
  "lastxid (snd (free_slot_by_index i f)) = lastxid f"
  by (simp_all add: free_slot_by_index_def)

lemma free_slot_by_xid_inv: "forwarding_inv f \<Longrightarrow> forwarding_inv (snd (free_slot_by_xid xid f))"
  by (simp add: free_slot_by_xid_def free_slot_inv NFORWARD_def)

lemma renew_inv: "forwarding_inv f \<Longrightarrow> i < NFORWARD \<Longrightarrow>
    forwarding_inv (f\<lparr>FINFO := (FINFO f)[i := (FINFO f ! i)\<lparr>fi_time := t\<rparr>]\<rparr>)"
  by (auto simp: forwarding_inv_def count_update nth_list_update)

lemma expire_inv: "forwarding_inv f \<Longrightarrow> i < NFORWARD \<Longrightarrow> forwarding_inv (expire t i f)"
  by (simp add: expire_def free_slot_inv)

lemma expire_other: "j \<noteq> i \<Longrightarrow> FINFO (expire t i f) ! j = FINFO f ! j"
  by (simp add: expire_def free_slot_other)

lemma expire_same [simp]:
  "length (FINFO (expire t i f)) = length (FINFO f)" "lastxid (expire t i f) = lastxid f"
  by (simp_all add: expire_def)

lemma register_loop_inv:
  "forwarding_inv f \<Longrightarrow> set is \<subseteq> {..<NFORWARD} \<Longrightarrow> forwarding_inv (snd (register_loop q t t' is best f))"
  by (induction "is" arbitrary: best f) (auto simp: Let_def renew_inv expire_inv)

text \<open>The loop touches only the slots it looks at, and changes no id.\<close>

lemma register_loop_other:
  "j \<notin> set is \<Longrightarrow> FINFO (snd (register_loop q t t' is best f)) ! j = FINFO f ! j"
  by (induction "is" arbitrary: best f) (auto simp: Let_def expire_other)

lemma register_loop_keeps:
  "length (FINFO (snd (register_loop q t t' is best f))) = length (FINFO f)"
  "lastxid (snd (register_loop q t t' is best f)) = lastxid f"
  by (induction "is" arbitrary: best f) (auto simp: Let_def)

text \<open>
  What is known of the best slot after the slots \<open>seen\<close>: a free one, or the one with the
  earliest time if all of them are taken.
\<close>

definition best_slot :: "nat set \<Rightarrow> nat option \<times> nat \<times> int \<Rightarrow> forwarding \<Rightarrow> bool" where
  "best_slot seen = (\<lambda>(entry, j, m) f. m = fi_time (FINFO f ! j) \<and> (case entry of
     Some i \<Rightarrow> i \<in> seen \<and> \<not> active (FINFO f ! i)
   | None \<Rightarrow> \<forall>i \<in> seen. active (FINFO f ! i) \<and> m \<le> fi_time (FINFO f ! i)))"

lemma expire_time [simp]: "fi_time (FINFO (expire t i f) ! j) = fi_time (FINFO f ! j)"
  by (cases "i = j"; cases "i < length (FINFO f)")
    (auto simp: expire_def free_slot_by_index_def list_update_beyond)

lemma best_slot_step:
  assumes "best_slot seen best f" and "i \<notin> seen" and "f' = expire t i f"
  shows "best_slot (insert i seen) (pick_slot i (FINFO f' ! i) best) f'"
proof -
  have "FINFO f' ! k = FINFO f ! k" if "k \<in> seen" for k
    using that assms(2,3) expire_other [of k i t f] by auto
  moreover have "fi_time (FINFO f' ! k) = fi_time (FINFO f ! k)" for k by (simp add: assms(3))
  ultimately show ?thesis using assms(1)
    by (cases best) (auto simp: best_slot_def pick_slot_def split: option.splits)
qed

lemma register_loop_best:
  "register_loop q t t' is best f = (Some best', f') \<Longrightarrow> best_slot seen best f \<Longrightarrow> distinct is
    \<Longrightarrow> set is \<inter> seen = {} \<Longrightarrow> best_slot (seen \<union> set is) best' f'"
proof (induction "is" arbitrary: seen best f)
  case (Cons i "is")
  have "best_slot (insert i seen) (pick_slot i (FINFO (expire t i f) ! i) best) (expire t i f)"
    using Cons.prems by (intro best_slot_step) auto
  with Cons.IH [of _ _ "insert i seen"] Cons.prems show ?case
    by (auto simp: Let_def split: if_splits)
qed simp

lemma pick_slot_range:
  "pick_slot i fi best = (entry, j, m) \<Longrightarrow> fst (snd best) < n \<Longrightarrow> i < n \<Longrightarrow> j < n"
  by (auto simp: pick_slot_def split: if_splits prod.splits)

lemma register_loop_range:
  "register_loop q t t' is best f = (Some (entry, j, m), f') \<Longrightarrow> fst (snd best) < n \<Longrightarrow> set is \<subseteq> {..<n} \<Longrightarrow> j < n"
proof (induction "is" arbitrary: best f)
  case (Cons i "is")
  obtain e k l where p: "pick_slot i (FINFO (expire t i f) ! i) best = (e, k, l)" by (metis prod.exhaust)
  then have "k < n" using Cons.prems by (auto intro: pick_slot_range)
  then show ?case using Cons p by (auto simp: Let_def split: if_splits)
qed auto

text \<open>A slot the loop passes keeps its call, unless the call waited too long.\<close>

lemma register_loop_active:
  "register_loop q t t' is best f = (Some best', f') \<Longrightarrow> active (FINFO f ! j) \<Longrightarrow>
    FINFO f' ! j = FINFO f ! j \<or> t - fi_time (FINFO f ! j) > MAXTIME_OFF"
proof (induction "is" arbitrary: best f)
  case (Cons i "is")
  have "active (FINFO (expire t i f) ! j) \<and> FINFO (expire t i f) ! j = FINFO f ! j
      \<or> t - fi_time (FINFO f ! j) > MAXTIME_OFF"
    using Cons.prems(2) expire_other [of j i t f] by (cases "i = j") (auto simp: expire_def)
  moreover have "register_loop q t t' is (pick_slot i (FINFO (expire t i f) ! i) best) (expire t i f)
      = (Some best', f')"
    using Cons.prems(1) by (simp add: Let_def split: if_splits)
  ultimately show ?case using Cons.IH by fastforce
qed simp

lemma register_loop_inactive:
  "register_loop q t t' is best f = (Some best', f') \<Longrightarrow> \<not> active (FINFO f ! j) \<Longrightarrow> FINFO f' ! j = FINFO f ! j"
proof (induction "is" arbitrary: best f)
  case (Cons i "is")
  have "FINFO (expire t i f) ! j = FINFO f ! j"
    using Cons.prems(2) expire_other [of j i t f] by (cases "i = j") (auto simp: expire_def)
  then show ?case using Cons by (auto simp: Let_def split: if_splits)
qed simp

section \<open>Transaction ids\<close>

lemma xid_step:
  assumes "unat (l :: 32 word) mod 64 = 0"
  shows "unat (l + 64) mod 64 = 0"
    and "\<not> l + 64 \<le> 64 \<Longrightarrow> j < 64 \<Longrightarrow> unat (l + of_nat j) = unat l + j \<and> 64 \<le> unat l"
proof -
  obtain k where k: "unat l = 64 * k" using assms by (metis mod_0_imp_dvd dvdE)
  have lt: "unat l < 2 ^ 32" using unsigned_less [of l] by simp
  have u: "unat (l + 64) = (unat l + 64) mod 2 ^ 32" by (simp add: unat_word_ariths)
  have "(unat l + 64) mod 2 ^ 32 mod 64 = (unat l + 64) mod 64"
    by (simp add: mod_mod_cancel)
  then show "unat (l + 64) mod 64 = 0" using u k by simp
  assume *: "\<not> l + 64 \<le> 64" "j < 64"
  then have "64 < (unat l + 64) mod 2 ^ 32" using u by (simp add: word_le_nat_alt)
  then have "unat l + 64 < 2 ^ 32" "0 < unat l" using lt k by (auto simp: mod_if split: if_splits)
  then show "unat (l + of_nat j) = unat l + j \<and> 64 \<le> unat l"
    using *(2) k by (auto simp: unat_word_ariths unat_of_nat)
qed

lemma next_xid_ok:
  assumes "unat l mod NFORWARD = 0"
  shows "unat (next_xid l) mod NFORWARD = 0"
    and "j < NFORWARD \<Longrightarrow> unat (next_xid l + of_nat j) mod NFORWARD = j"
    and "j < NFORWARD \<Longrightarrow> next_xid l + of_nat j \<noteq> 0"
proof -
  let ?m = "l + 64"
  have m: "unat ?m mod 64 = 0" using xid_step(1) [of l] assms by (simp add: NFORWARD_def)
  then show "unat (next_xid l) mod NFORWARD = 0" by (simp add: next_xid_def NFORWARD_def Let_def)
  have "unat (next_xid l + of_nat j) = unat (next_xid l) + j \<and> 64 \<le> unat (next_xid l)" if "j < 64"
  proof (cases "?m + 64 \<le> 64")
    case True
    then have "next_xid l = 64" by (simp add: next_xid_def NFORWARD_def Let_def)
    then show ?thesis using that by (simp add: unat_word_ariths unat_of_nat)
  next
    case False
    then have "next_xid l = ?m" by (simp add: next_xid_def NFORWARD_def Let_def)
    then show ?thesis using xid_step(2) [OF m False that] by simp
  qed
  moreover have "unat (next_xid l) mod 64 = 0"
    using m by (simp add: next_xid_def NFORWARD_def Let_def)
  ultimately have *: "unat (next_xid l + of_nat j) mod 64 = j \<and> unat (next_xid l + of_nat j) \<noteq> 0" if "j < 64"
    using that by (auto simp: mod_add_eq [symmetric])
  show "unat (next_xid l + of_nat j) mod NFORWARD = j" if "j < NFORWARD"
    using * that by (simp add: NFORWARD_def)
  show "next_xid l + of_nat j \<noteq> 0" if "j < NFORWARD"
    using * that by (auto simp: NFORWARD_def unat_eq_zero)
qed

lemma first_xid_inv: "forwarding_inv f \<Longrightarrow> forwarding_inv (first_xid t f)"
proof -
  have "uint (word_of_int (t * 64) :: 32 word) mod 64 = 0"
    by (simp only: uint_word_of_int) (simp add: mod_mod_cancel)
  then have "unat (word_of_int (t * 64) :: 32 word) mod 64 = 0"
    by (metis nat_mod_as_int nat_numeral of_nat_eq_0_iff of_nat_numeral uint_nat zmod_int)
  then show "forwarding_inv f \<Longrightarrow> forwarding_inv (first_xid t f)"
    by (simp add: first_xid_def forwarding_inv_def NFORWARD_def)
qed

lemma fill_slot_inv:
  assumes "forwarding_inv f" and "j < NFORWARD" and "\<not> active (FINFO f ! j)"
  shows "forwarding_inv (snd (snd (fill_slot mem t q j f)))"
  using assms next_xid_ok [of "lastxid f"]
  by (auto simp: fill_slot_def forwarding_inv_def Let_def new_finfo_def count_update nth_list_update
      split: option.splits)

text \<open>The slot that is filled: free in the end, whichever way it was found.\<close>

lemma forward_register_slot:
  assumes inv: "forwarding_inv f"
    and loop: "register_loop q t t' [0 ..< NFORWARD] (None, 0, fi_time (FINFO f ! 0)) (first_xid t f) = (Some best, g)"
  obtains i j m where "best = (Some i, j, m)" "i < NFORWARD" "\<not> active (FINFO g ! i)"
  | j m where "best = (None, j, m)" "j < NFORWARD" "\<forall>i < NFORWARD. active (FINFO g ! i)
      \<and> fi_time (FINFO g ! j) \<le> fi_time (FINFO g ! i)"
proof -
  have b: "best_slot {..<NFORWARD} best g"
    using register_loop_best [OF loop, of "{}"]
    by (simp add: best_slot_def first_xid_def atLeast0LessThan)
  obtain entry j m where best: "best = (entry, j, m)" by (metis prod.exhaust)
  have "j < NFORWARD"
    using register_loop_range [OF loop [unfolded best], of NFORWARD] by (auto simp: NFORWARD_def atLeast0LessThan)
  then show thesis using b that best by (cases entry) (auto simp: best_slot_def)
qed

lemma forward_register_inv:
  assumes "forwarding_inv f"
  shows "forwarding_inv (snd (snd (forward_register mem t t' q f)))"
proof -
  let ?loop = "register_loop q t t' [0 ..< NFORWARD] (None, 0, fi_time (FINFO f ! 0)) (first_xid t f)"
  have inv: "forwarding_inv (snd ?loop)"
    by (rule register_loop_inv) (auto simp: assms first_xid_inv)
  show ?thesis
  proof (cases ?loop)
    case (Pair r g)
    show ?thesis
    proof (cases r)
      case None
      then show ?thesis using Pair inv by (simp add: forward_register_def)
    next
      case (Some best)
      note loop = Pair [unfolded Some]
      show ?thesis
        by (rule forward_register_slot [OF assms loop])
          (use inv loop in \<open>auto simp: forward_register_def forwarding_inv_def [of g] free_slot_same
            intro!: fill_slot_inv free_slot_inv split: prod.splits\<close>)
    qed
  qed
qed

lemma release_inv: "forwarding_inv f \<Longrightarrow> forwarding_inv (release xid f)"
  by (simp add: release_def free_slot_by_xid_inv)

lemma handle_reply_inv:
  "handle_reply avail m buffer received msg err f = Some (answers, f') \<Longrightarrow> forwarding_inv f \<Longrightarrow> forwarding_inv f'"
  by (auto simp: handle_reply_def release_inv Let_def bind_eq_Some_conv split: option.splits if_splits)

text \<open>The slot an id names is empty once it is released.\<close>

lemma forward_find_release:
  "forwarding_inv f \<Longrightarrow> xid \<noteq> 0 \<Longrightarrow> unat x mod NFORWARD = unat xid mod NFORWARD \<Longrightarrow>
    forward_find x (release xid f) = None"
  using free_slot_same [of "unat xid mod NFORWARD" f]
  by (auto simp: forward_find_def release_def free_slot_by_xid_def forwarding_inv_def NFORWARD_def Let_def)

lemma forward_find_other:
  "unat x mod NFORWARD \<noteq> unat xid mod NFORWARD \<Longrightarrow> forward_find x (release xid f) = forward_find x f"
  by (simp add: forward_find_def release_def free_slot_by_xid_def free_slot_other Let_def)

text \<open>Registering a call makes it the one its id finds.\<close>

lemma register_loop_still:
  "register_loop q t t' is best f = (Some best', f') \<Longrightarrow> active (FINFO f' ! j) \<Longrightarrow> FINFO f' ! j = FINFO f ! j"
proof (induction "is" arbitrary: best f)
  case (Cons i "is")
  have loop: "register_loop q t t' is (pick_slot i (FINFO (expire t i f) ! i) best) (expire t i f) = (Some best', f')"
    using Cons.prems(1) by (simp add: Let_def split: if_splits)
  have "FINFO f' ! j = FINFO (expire t i f) ! j" using Cons.IH [OF loop] Cons.prems(2) by simp
  moreover have "active (FINFO (expire t i f) ! j)"
    using register_loop_inactive [OF loop] Cons.prems(2) by fastforce
  ultimately show ?case
    by (cases "i < length (FINFO f)"; cases "i = j")
      (auto simp: expire_def free_slot_by_index_def list_update_beyond split: if_splits)
qed simp

lemma forward_register_Some:
  assumes inv: "forwarding_inv f" and reg: "forward_register mem t t' q f = (r, Some xid, f')"
  obtains g j where "forwarding_inv g" "j < NFORWARD" "\<not> active (FINFO g ! j)"
    "fill_slot mem t q j g = (r, Some xid, f')"
    "\<And>i. i \<noteq> j \<Longrightarrow> active (FINFO f ! i) \<Longrightarrow> t - fi_time (FINFO f ! i) \<le> MAXTIME_OFF \<Longrightarrow> FINFO g ! i = FINFO f ! i"
    "\<And>i. i \<noteq> j \<Longrightarrow> active (FINFO g ! i) \<Longrightarrow> FINFO g ! i = FINFO f ! i"
    "active (FINFO f ! j) \<Longrightarrow> t - fi_time (FINFO f ! j) \<le> MAXTIME_OFF \<Longrightarrow>
      \<forall>i < NFORWARD. active (FINFO f ! i) \<and> fi_time (FINFO f ! j) \<le> fi_time (FINFO f ! i)"
proof -
  let ?loop = "register_loop q t t' [0 ..< NFORWARD] (None, 0, fi_time (FINFO f ! 0)) (first_xid t f)"
  have F: "FINFO (first_xid t f) = FINFO f" by (simp add: first_xid_def)
  obtain best g where loop: "?loop = (Some best, g)"
  proof (cases ?loop)
    case (Pair b g)
    then show thesis using reg that by (cases b) (simp_all add: forward_register_def)
  qed
  have g: "forwarding_inv g"
    using register_loop_inv [of "first_xid t f" "[0 ..< NFORWARD]" q t t' "(None, 0, fi_time (FINFO f ! 0))"] inv
    by (simp add: loop first_xid_inv atLeast0LessThan)
  have keep: "FINFO g ! i = FINFO f ! i" if "active (FINFO f ! i)" "t - fi_time (FINFO f ! i) \<le> MAXTIME_OFF" for i
    using register_loop_active [OF loop, of i] that by (auto simp: F)
  have still: "FINFO g ! i = FINFO f ! i" if "active (FINFO g ! i)" for i
    using register_loop_still [OF loop that] by (simp add: F)
  show thesis
  proof (rule forward_register_slot [OF inv loop])
    fix i j m assume b: "best = (Some i, j, m)" and i: "i < NFORWARD" "\<not> active (FINFO g ! i)"
    have "fill_slot mem t q i g = (r, Some xid, f')"
      using reg unfolding forward_register_def loop b by simp
    then show thesis
    proof (rule that [OF g i])
      show "FINFO g ! k = FINFO f ! k" if "active (FINFO f ! k)" "t - fi_time (FINFO f ! k) \<le> MAXTIME_OFF" for k
        by (rule keep [OF that])
      show "FINFO g ! k = FINFO f ! k" if "active (FINFO g ! k)" for k
        by (rule still [OF that])
      show "\<forall>k < NFORWARD. active (FINFO f ! k) \<and> fi_time (FINFO f ! i) \<le> fi_time (FINFO f ! k)"
        if "active (FINFO f ! i)" "t - fi_time (FINFO f ! i) \<le> MAXTIME_OFF"
        using keep [OF that] i(2) that(1) by metis
    qed
  next
    fix j m assume b: "best = (None, j, m)" and j: "j < NFORWARD"
      and all: "\<forall>i < NFORWARD. active (FINFO g ! i) \<and> fi_time (FINFO g ! j) \<le> fi_time (FINFO g ! i)"
    let ?h = "snd (free_slot_by_index j g)"
    have fill: "fill_slot mem t q j ?h = (r, Some xid, f')"
      using reg unfolding forward_register_def loop b by simp
    have h: "forwarding_inv ?h" using g j by (rule free_slot_inv)
    have free: "\<not> active (FINFO ?h ! j)"
      using free_slot_same [of j g] g j by (simp add: forwarding_inv_def)
    show thesis
    proof (rule that [OF h j free fill])
      show "FINFO ?h ! i = FINFO f ! i"
        if "i \<noteq> j" "active (FINFO f ! i)" "t - fi_time (FINFO f ! i) \<le> MAXTIME_OFF" for i
        using keep [OF that(2,3)] free_slot_other [OF that(1)] by simp
      show "FINFO ?h ! i = FINFO f ! i" if "i \<noteq> j" "active (FINFO ?h ! i)" for i
      proof -
        have h: "FINFO ?h ! i = FINFO g ! i" by (rule free_slot_other [OF that(1)])
        with that(2) have "active (FINFO g ! i)" by simp
        from still [OF this] h show ?thesis by simp
      qed
      show "\<forall>i < NFORWARD. active (FINFO f ! i) \<and> fi_time (FINFO f ! j) \<le> fi_time (FINFO f ! i)"
      proof (intro allI impI)
        fix i assume i: "i < NFORWARD"
        from still [of i] still [of j] all i j
        show "active (FINFO f ! i) \<and> fi_time (FINFO f ! j) \<le> fi_time (FINFO f ! i)" by metis
      qed
    qed
  qed
qed

text \<open>What the new entry is, and where.\<close>

lemma fill_slot_Some:
  assumes "fill_slot mem t q j g = (r, Some xid, f')" and "forwarding_inv g" and "j < NFORWARD"
  shows "r = 1" "xid \<noteq> 0" "unat xid mod NFORWARD = j"
    "FINFO f' = (FINFO g)[j := new_finfo q t xid (q_addr q)]"
  using assms next_xid_ok [of "lastxid g"]
  by (auto simp: fill_slot_def netbufdup_def Let_def forwarding_inv_def split: option.splits if_splits)

lemma register_finds:
  assumes inv: "forwarding_inv f" and reg: "forward_register mem t t' q f = (r, Some xid, f')"
  shows "r = 1" "xid \<noteq> 0" "forward_find xid f' = Some (new_finfo q t xid (q_addr q))" "forwarding_inv f'"
proof -
  obtain g j where g: "forwarding_inv g" "j < NFORWARD" and fill: "fill_slot mem t q j g = (r, Some xid, f')"
    by (rule forward_register_Some [OF inv reg])
  show "r = 1" "xid \<noteq> 0" using fill_slot_Some [OF fill g] by blast+
  show "forwarding_inv f'" using forward_register_inv [OF inv, of mem t t' q] reg by simp
  show "forward_find xid f' = Some (new_finfo q t xid (q_addr q))"
    using fill_slot_Some [OF fill g] g by (simp add: forward_find_def forwarding_inv_def new_finfo_def Let_def)
qed

lemma forward_findD:
  "forward_find x f = Some fi \<Longrightarrow> fi = FINFO f ! (unat x mod NFORWARD) \<and> active fi \<and> forward_xid fi = x"
  by (auto simp: forward_find_def Let_def split: if_splits)

section \<open>Properties\<close>

text \<open>What the process can do to the table, and the tables it can come to.\<close>

inductive forwarding_reach :: "forwarding \<Rightarrow> bool" where
  start: "forwarding_reach forwarding_start"
| register: "forwarding_reach f \<Longrightarrow> forward_register mem t t' q f = (r, x, f') \<Longrightarrow> forwarding_reach f'"
| give_up: "forwarding_reach f \<Longrightarrow> free_slot_by_xid x f = (r, f') \<Longrightarrow> forwarding_reach f'"
| reply: "forwarding_reach f \<Longrightarrow> handle_reply avail m b received msg err f = Some (answers, f')
    \<Longrightarrow> forwarding_reach f'"

lemma forwarding_start_inv: "forwarding_inv forwarding_start"
  by (simp add: forwarding_inv_def forwarding_start_def finfo_zero_def)

lemma forwarding_reach_inv: "forwarding_reach f \<Longrightarrow> forwarding_inv f"
proof (induction rule: forwarding_reach.induct)
  case (register f mem t t' q r x f')
  then show ?case using forward_register_inv [of f mem t t' q] by simp
next
  case (give_up f x r f')
  then show ?case using free_slot_by_xid_inv [of f x] by simp
qed (auto simp: forwarding_start_inv intro: handle_reply_inv)

text \<open>
  C32: Whatever calls are forwarded, given up and answered, \<open>rpcb_rmtcalls\<close> is the number of the
  calls that are pending, and every pending call has an id other than 0 under which
  \<open>forward_find\<close> finds this call and no other.
\<close>

theorem forwarding_consistent:
  assumes "forwarding_reach f"
  shows "rpcb_rmtcalls f = int (length (filter active (FINFO f)))
    \<and> (\<forall>j < NFORWARD. active (FINFO f ! j) \<longrightarrow> forward_xid (FINFO f ! j) \<noteq> 0
        \<and> forward_find (forward_xid (FINFO f ! j)) f = Some (FINFO f ! j))"
  using forwarding_reach_inv [OF assms] by (auto simp: forwarding_inv_def forward_find_def Let_def)

definition a_call :: forward_req where
  "a_call = \<lparr>q_xid = 7, q_addr = [10, 0, 0, 1], q_fd = 5, q_uaddr = Some ''10.0.0.2.8.1'', q_type = 10, q_vers = 4\<rparr>"

lemma forwarding_consistent_witness:
  "let f = snd (snd (forward_register True 1000 1000 a_call forwarding_start))
   in rpcb_rmtcalls f = int (length (filter active (FINFO f)))"
proof -
  obtain r x f where f: "forward_register True 1000 1000 a_call forwarding_start = (r, x, f)"
    by (metis prod.exhaust)
  then have "forwarding_reach f" by (rule forwarding_reach.register [OF forwarding_reach.start])
  from forwarding_consistent [OF this] show ?thesis by (simp add: f)
qed

text \<open>
  When \<open>forward_register\<close> gives an id, the call is pending under it with all that is needed
  to answer the caller.  Every other call that has not waited longer than \<open>MAXTIME_OFF\<close>
  stays pending, with one exception: if all slots are taken the call with the earliest
  time gives up its slot.
\<close>

theorem forward_register_tracks:
  assumes "forwarding_reach f" and "forward_register mem t t' q f = (r, Some xid, f')"
    and "forward_find x f = Some fi" and "t - fi_time fi \<le> MAXTIME_OFF"
  shows "forward_find xid f' = Some (new_finfo q t xid (q_addr q)) \<and>
    (forward_find x f' = Some fi \<or> (\<forall>i < NFORWARD. active (FINFO f ! i) \<and> fi_time fi \<le> fi_time (FINFO f ! i)))"
proof -
  have inv: "forwarding_inv f" by (rule forwarding_reach_inv [OF assms(1)])
  let ?i = "unat x mod NFORWARD"
  have fi: "fi = FINFO f ! ?i" "active fi" "forward_xid fi = x" using forward_findD [OF assms(3)] by auto
  show ?thesis
  proof (rule forward_register_Some [OF inv assms(2)])
    fix g j
    assume g: "forwarding_inv g" "j < NFORWARD" and fill: "fill_slot mem t q j g = (r, Some xid, f')"
      and keep: "\<And>i. i \<noteq> j \<Longrightarrow> active (FINFO f ! i) \<Longrightarrow> t - fi_time (FINFO f ! i) \<le> MAXTIME_OFF \<Longrightarrow> FINFO g ! i = FINFO f ! i"
      and full: "active (FINFO f ! j) \<Longrightarrow> t - fi_time (FINFO f ! j) \<le> MAXTIME_OFF \<Longrightarrow>
        \<forall>i < NFORWARD. active (FINFO f ! i) \<and> fi_time (FINFO f ! j) \<le> fi_time (FINFO f ! i)"
    have "forward_find x f' = Some fi" if "?i \<noteq> j"
    proof -
      have "FINFO f' ! ?i = fi" using fill_slot_Some(4) [OF fill g] keep [OF that] fi assms(4) that by simp
      then show ?thesis using fi by (simp add: forward_find_def)
    qed
    moreover have "\<forall>i < NFORWARD. active (FINFO f ! i) \<and> fi_time fi \<le> fi_time (FINFO f ! i)" if "?i = j"
      using full fi assms(4) that by simp
    ultimately show ?thesis using register_finds(3) [OF inv assms(2)] by blast
  qed
qed

text \<open>The reply a server makes to a call it has carried out, with the results behind it.\<close>

lemma handle_reply_decodes:
  fixes msg :: "('t, 'v) trpc_msg"
  assumes ok: "treply_ok msg" "accepted_succeeded msg"
    and room: "auth_room avail null_auth (tar_verf (trp_acpt (trm_reply msg)))"
    and b: "b \<noteq> 0" and len: "length (treply_bytes msg [] @ results) \<le> RPC_BUF_MAX"
  obtains xdrs where "xdr_replymsg avail (xdrmem_create (wr m b (treply_bytes msg [] @ results)) b
      (of_nat (length (treply_bytes msg [] @ results))) XDR_DECODE) (reply_ready msg0)
      = Some (True, xdrs, reply_decoded avail (reply_ready msg0) msg ())"
    and "XDR_GETPOS xdrs = Some (of_nat (length (treply_bytes msg [])))"
    and "rd (x_mem xdrs) (b + length (treply_bytes msg [])) (length results) = results"
proof -
  let ?bs = "treply_bytes msg []" and ?m = "wr m b (treply_bytes msg [] @ results)"
  let ?sz = "of_nat (length (?bs @ results)) :: 32 word"
  have sz: "unat ?sz = length (?bs @ results)"
    using len by (intro unat_of_nat32) (simp add: RPC_BUF_MAX_def)
  have rd: "rd ?m b (length ?bs + length results) = ?bs @ results"
    by (rule rd_wr_same) simp
  have void: "ald.decodes ?m b (unat ?sz) xdr_void [] () ()" "und.decodes ?m b (unat ?sz) xdr_void [] () ()"
    unfolding xdr_void_def [abs_def] by (rule ald.decodes_skip und.decodes_skip)+
  have dec: "ald.decodes ?m b (unat ?sz) (xdr_replymsg avail) ?bs (reply_ready msg0) (reply_decoded avail (reply_ready msg0) msg ())"
    "und.decodes ?m b (unat ?sz) (xdr_replymsg avail) ?bs (reply_ready msg0) (reply_decoded avail (reply_ready msg0) msg ())"
    using room void
    by (auto simp: reply_ready_def intro!: ald.decodes_treplymsg [OF ok(1)] und.decodes_treplymsg [OF ok(1)])
  show thesis
  proof (rule xdrmem_decode_rest [OF dec b])
    show "length ?bs \<le> unat ?sz" by (simp only: sz) simp
    show "rd ?m b (length ?bs) = ?bs" using rd by (simp add: rd_add)
    fix xdrs
    assume x: "xdr_replymsg avail (xdrmem_create ?m b ?sz XDR_DECODE) (reply_ready msg0)
        = Some (True, xdrs, reply_decoded avail (reply_ready msg0) msg ())"
      and p: "m_private (x_private xdrs) = b + length ?bs" "m_base (x_private xdrs) = b"
        "x_ops xdrs \<in> {xdrmem_ops_aligned, xdrmem_ops_unaligned}"
      and r: "rd (x_mem xdrs) (b + length ?bs) (unat ?sz - length ?bs) = rd ?m (b + length ?bs) (unat ?sz - length ?bs)"
    have "XDR_GETPOS xdrs = Some (of_nat (length ?bs))"
      using p by (auto simp: XDR_GETPOS_def xdrmem_ops_aligned_def xdrmem_ops_unaligned_def xdrmem_getpos_def xst_def)
    moreover have "rd (x_mem xdrs) (b + length ?bs) (length results) = results"
      using r rd unfolding sz by (simp add: rd_add)
    ultimately show thesis using that x by blast
  qed
qed

text \<open>
  A reply whose id no call is pending under still frees a slot, the one its low bits
  name: \<open>handle_reply\<close> goes to \<open>done\<close> and calls \<open>free_slot_by_xid\<close>.  If another call
  waits in this slot, it is forgotten, and its answer will never be passed on.
\<close>

theorem handle_reply_stray:
  fixes msg :: "('t, 'v) trpc_msg"
  assumes "forwarding_reach f" and "forward_find x f = Some fi"
    and "trm_xid msg \<noteq> x" and "trm_xid msg \<noteq> 0" and "unat (trm_xid msg) mod NFORWARD = unat x mod NFORWARD"
    and "treply_ok msg" and "accepted_succeeded msg"
    and "auth_room avail null_auth (tar_verf (trp_acpt (trm_reply msg)))"
    and "b \<noteq> 0" and "length (treply_bytes msg [] @ results) \<le> RPC_BUF_MAX"
  shows "\<exists>f'. handle_reply avail m b (Some (treply_bytes msg [] @ results)) msg0 err f = Some ([], f')
    \<and> forward_find x f' = None"
proof -
  let ?bs = "treply_bytes msg []" and ?msg = "reply_decoded avail (reply_ready msg0) msg ()"
  obtain xdrs where dec: "xdr_replymsg avail (xdrmem_create (wr m b (?bs @ results)) b
      (of_nat (length (?bs @ results))) XDR_DECODE) (reply_ready msg0) = Some (True, xdrs, ?msg)"
    by (rule handle_reply_decodes [OF assms(6-10)])
  have xid: "trm_xid ?msg = trm_xid msg" by (simp add: reply_decoded_def Let_def)
  have "forward_find (trm_xid msg) f = None"
    using forward_findD [OF assms(2)] assms(3,5) by (auto simp: forward_find_def Let_def)
  then have "handle_reply avail m b (Some (?bs @ results)) msg0 err f = Some ([], release (trm_xid msg) f)"
    unfolding handle_reply_def Let_def option.case dec by (simp add: xid)
  moreover have "forward_find x (release (trm_xid msg) f) = None"
    using forwarding_reach_inv [OF assms(1)] assms(4,5) by (simp add: forward_find_release)
  ultimately show ?thesis by blast
qed

text \<open>The table with one call, forwarded under 64064, and replies without results.\<close>

definition a_table :: forwarding where
  "a_table = snd (snd (forward_register True 1000 1000 a_call forwarding_start))"

definition void_reply :: "32 word \<Rightarrow> ('s, unit) trpc_msg" where
  "void_reply xid = \<lparr>trm_xid = xid, trm_direction = REPLY,
     trm_call = \<lparr>tcb_rpcvers = 0, tcb_prog = 0, tcb_vers = 0, tcb_proc = 0, tcb_cred = null_auth, tcb_verf = null_auth\<rparr>,
     trm_reply = \<lparr>trp_stat = MSG_ACCEPTED,
       trp_acpt = \<lparr>tar_verf = null_auth, tar_stat = SUCCESS, tar_low = 0, tar_high = 0, tar_where = (), tar_proc = None\<rparr>,
       trp_rjct = \<lparr>trj_stat = 0, trj_low = 0, trj_high = 0, trj_why = 0\<rparr>\<rparr>\<rparr>"

definition no_err :: rpc_err where
  "no_err = \<lparr>re_status = RPC_SUCCESS, re_why = 0, re_vers_low = 0, re_vers_high = 0, re_lb_s1 = 0, re_lb_s2 = 0\<rparr>"

lemma void_reply_ok:
  "treply_ok (void_reply xid)" "accepted_succeeded (void_reply xid)" "trm_xid (void_reply xid) = xid"
  "auth_room (\<lambda>_. True) null_auth (tar_verf (trp_acpt (trm_reply (void_reply xid))))"
  "length (treply_bytes (void_reply xid) []) = 24"
  by (simp_all add: void_reply_def treply_ok_def accepted_succeeded_def valid_auth_def auth_body_def null_auth_def
      auth_room_def MAX_AUTH_BYTES_def treply_bytes_def accepted_bytes_def auth_bytes_def padded_def pad_def)

lemma a_table_pending:
  "forward_register True 1000 1000 a_call forwarding_start = (1, Some 64064, a_table)"
  by code_simp

lemma a_table_reach: "forwarding_reach a_table"
  by (rule forwarding_reach.register [OF forwarding_reach.start a_table_pending])

lemma forward_register_tracks_witness:
  "forward_find 64064 (snd (snd (forward_register True 1010 1010 (a_call\<lparr>q_xid := 8\<rparr>) a_table))) =
    Some (new_finfo a_call 1000 64064 [10, 0, 0, 1])"
proof -
  obtain f' where reg: "forward_register True 1010 1010 (a_call\<lparr>q_xid := 8\<rparr>) a_table = (1, Some 64129, f')"
  proof
    have "fst (snd (forward_register True 1010 1010 (a_call\<lparr>q_xid := 8\<rparr>) a_table)) = Some 64129"
      and "fst (forward_register True 1010 1010 (a_call\<lparr>q_xid := 8\<rparr>) a_table) = 1"
      by code_simp+
    then show "forward_register True 1010 1010 (a_call\<lparr>q_xid := 8\<rparr>) a_table =
        (1, Some 64129, snd (snd (forward_register True 1010 1010 (a_call\<lparr>q_xid := 8\<rparr>) a_table)))"
      by (metis prod.collapse)
  qed
  have "forward_find 64064 a_table = Some (new_finfo a_call 1000 64064 [10, 0, 0, 1])"
    using register_finds(3) [OF forwarding_start_inv a_table_pending] by (simp add: a_call_def)
  moreover have "\<not> active (FINFO a_table ! 1)" by code_simp
  ultimately show ?thesis
    using forward_register_tracks [OF a_table_reach reg, of 64064 "new_finfo a_call 1000 64064 [10, 0, 0, 1]"]
    by (auto simp: reg new_finfo_def MAXTIME_OFF_def NFORWARD_def)
qed

lemma handle_reply_stray_witness:
  "\<exists>f'. handle_reply (\<lambda>_. True) (\<lambda>_. 0) 4 (Some (treply_bytes (void_reply 64000 :: (unit, unit) trpc_msg) []))
      (void_reply 0) no_err a_table = Some ([], f') \<and> forward_find 64064 f' = None"
  using handle_reply_stray [OF a_table_reach register_finds(3) [OF forwarding_start_inv a_table_pending],
      of "void_reply 64000 :: (unit, unit) trpc_msg" "\<lambda>_. True" 4 "[]" "\<lambda>_. 0" "void_reply 0" no_err]
  by (simp add: void_reply_ok NFORWARD_def RPC_BUF_MAX_def)

text \<open>
  C23: A forwarded call is answered to the one who made it.  If a call was registered and a
  datagram arrives that holds, encoded by \<open>xdr_replymsg\<close>, a successful reply under the id it
  was forwarded under, with the results behind it, then \<open>handle_reply\<close> sends exactly these
  results, with the address of the service, to the caller's address and under the caller's
  own id, and the call is no longer pending.
\<close>

theorem forwarded_call_answered:
  fixes msg :: "('t, 'v) trpc_msg"
  assumes "forwarding_reach f" and "forward_register mem t t' q f = (r, Some xid, f')"
    and "treply_ok msg" and "accepted_succeeded msg" and "trm_xid msg = xid"
    and "auth_room avail null_auth (tar_verf (trp_acpt (trm_reply msg)))"
    and "b \<noteq> 0" and "length (treply_bytes msg [] @ results) \<le> RPC_BUF_MAX"
  shows "\<exists>f''. handle_reply avail m b (Some (treply_bytes msg [] @ results)) msg0 err f' =
      Some ([Answer (q_addr q) (q_xid q) (q_vers q) (q_uaddr q) results], f'') \<and> forward_find xid f'' = None"
proof -
  note inv = forwarding_reach_inv [OF assms(1)]
  note found = register_finds [OF inv assms(2)]
  let ?bs = "treply_bytes msg []"
  obtain xdrs where x: "xdr_replymsg avail (xdrmem_create (wr m b (?bs @ results)) b
      (of_nat (length (?bs @ results))) XDR_DECODE) (reply_ready msg0)
      = Some (True, xdrs, reply_decoded avail (reply_ready msg0) msg ())"
    and pos: "XDR_GETPOS xdrs = Some (of_nat (length ?bs))"
    and rd: "rd (x_mem xdrs) (b + length ?bs) (length results) = results"
    by (rule handle_reply_decodes [OF assms(3,4,6,7,8)])
  have xid: "trm_xid (reply_decoded avail (reply_ready msg0) msg ()) = xid"
    by (simp add: reply_decoded_def Let_def assms(5))
  have ok: "re_status (seterr_reply (reply_decoded avail (reply_ready msg0) msg ()) err) = RPC_SUCCESS"
    using assms(4) unfolding seterr_reply_decoded [OF assms(3)]
    by (simp add: seterr_reply_def accepted_succeeded_def)
  have pos': "unat (of_nat (length ?bs) :: 32 word) = length ?bs"
    using assms(8) by (intro unat_of_nat32) (simp add: RPC_BUF_MAX_def)
  have "handle_reply avail m b (Some (?bs @ results)) msg0 err f' =
      Some ([Answer (q_addr q) (q_xid q) (q_vers q) (q_uaddr q) results], release xid f')"
    unfolding handle_reply_def Let_def option.case x
    by (simp add: xid ok found(3) pos pos' rd new_finfo_def)
  moreover have "forward_find xid (release xid f') = None"
    using found by (simp add: forward_find_release)
  ultimately show ?thesis by blast
qed

lemma forwarded_call_answered_witness:
  "\<exists>f''. handle_reply (\<lambda>_. True) (\<lambda>_. 0) 4 (Some (treply_bytes (void_reply 64064 :: (unit, unit) trpc_msg) [] @ [0, 0, 0, 9]))
      (void_reply 0) no_err a_table = Some ([Answer [10, 0, 0, 1] 7 4 (Some ''10.0.0.2.8.1'') [0, 0, 0, 9]], f'')"
  using forwarded_call_answered [OF forwarding_reach.start a_table_pending,
      of "void_reply 64064 :: (unit, unit) trpc_msg" "\<lambda>_. True" 4 "[0, 0, 0, 9]" "\<lambda>_. 0" "void_reply 0" no_err]
  by (auto simp: void_reply_ok RPC_BUF_MAX_def a_call_def)

end
