(* ===== verification/Rpcb_Callit.thy ===== *)
theory Rpcb_Callit
  imports Rpcb_Registry Rpcb_Forward
begin

text \<open>
  The process state of \<open>rpcbind\<close>, who may do what (\<open>security.c\<close>), and the calls it makes for
  others, \<open>rpcbproc_callit_com\<close> of \<open>rpcb_svc_com.c\<close>.  What a handler asks of the system while
  it serves one request is an \<open>env\<close>: the answers of \<open>getnetconfig\<close>, \<open>bind\<close>, \<open>sendto\<close>, the
  clock, the allocator and of the address conversions of the library.  Logging is left out.
\<close>

section \<open>State and surroundings\<close>

text \<open>An address and a port, in host order.\<close>

datatype sockaddr = Sin "32 word" "16 word" | Sin6 "128 word" "16 word" | Slocal | Sother

text \<open>
  The transport of a request: its name, its peer as an address and as the bytes of the
  \<open>netbuf\<close>, and what \<open>__rpc_get_local_uid\<close> and \<open>__rpc_fd2sockinfo\<close> say of it (whether it is a
  datagram socket).
\<close>

record svcxprt =
  xp_netid :: string
  xp_caller :: sockaddr
  xp_callerbuf :: "byte list"
  xp_uid :: "32 word option"
  xp_dgram :: "bool option"

record rmtcall_args =
  rmt_prog :: "32 word"
  rmt_vers :: "32 word"
  rmt_proc :: "32 word"
  rmt_args :: "byte list"

text \<open>A request: its procedure, and what decoding its arguments with each filter gives.\<close>

record svc_req =
  rq_proc :: "32 word"
  rq_xid :: "32 word"
  rq_flavor :: "32 word"
  as_pmap :: "pmap option"
  as_rpcb :: "rpcb option"
  as_void :: bool
  as_string :: "string option"
  as_netbuf :: "byte list option"
  as_rmtcall :: "rmtcall_args option"

record config =
  insecure :: bool
  oldstyle_local :: bool

record netconfig =
  nc_protofmly :: string
  nc_semantics :: "32 word"
  nc_proto :: string

record env =
  hosts_access :: "sockaddr \<Rightarrow> bool"
  probe :: "string \<Rightarrow> string \<Rightarrow> bool"
  addrmerge :: "byte list \<Rightarrow> string \<Rightarrow> string option \<Rightarrow> string \<Rightarrow> string option"
  taddr2uaddr :: "string \<Rightarrow> byte list \<Rightarrow> string option"
  uaddr2taddr :: "string \<Rightarrow> string option \<Rightarrow> byte list option"
  local_sa :: "byte list option"
  allocs :: allocs
  stat_ok :: bool
  dup_ok :: bool
  entry_ok :: bool
  netconf :: "string \<Rightarrow> netconfig"
  now :: int
  later :: int
  authnone :: "(memstrm, unit) xdrproc_t option"
  authunix :: "(memstrm, unit) xdrproc_t option"
  sendto_ok :: bool
  sendreply_ok :: bool

record rpcbind =
  rb_reg :: registry
  rb_fds :: "fdlist list"
  rb_stats :: rpcb_stat_byvers
  rb_fwd :: forwarding
  rb_rmtfds :: "(string \<times> 32 word) list"

record rpcb_entry =
  r_maddr :: string
  r_nc_netid :: string
  r_nc_semantics :: "32 word"
  r_nc_protofmly :: string
  r_nc_proto :: string

text \<open>What a handler sends to its caller.\<close>

datatype reply =
    R_void | R_bool bool | R_long "64 word" | R_string "string option" | R_rbl "rpcb list"
  | R_pml "pmap list" | R_netbuf "byte list" | R_stat rpcb_stat_byvers
  | R_entries "rpcb_entry list" | R_time int
  | E_decode | E_weakauth | E_noproc | E_noprog | E_progvers "32 word" "32 word" | E_systemerr

section \<open>security.c\<close>

definition INADDR_LOOPBACK :: "32 word" where "INADDR_LOOPBACK = 0x7f000001"
definition IPPORT_RESERVED :: "16 word" where "IPPORT_RESERVED = 1024"

definition in6_is_loopback :: "128 word \<Rightarrow> bool" where
  "in6_is_loopback a \<longleftrightarrow> a = 1 \<or> drop_bit 32 a = 0xffff \<and> ucast a = INADDR_LOOPBACK"

definition is_loopback :: "config \<Rightarrow> sockaddr \<Rightarrow> bool" where
  "is_loopback cfg addr = (case addr of
     Sin a p \<Rightarrow> oldstyle_local cfg \<and> a = INADDR_LOOPBACK
   | Sin6 a p \<Rightarrow> oldstyle_local cfg \<and> in6_is_loopback a
   | Slocal \<Rightarrow> True
   | Sother \<Rightarrow> False)"

definition is_localroot :: "config \<Rightarrow> sockaddr \<Rightarrow> bool" where
  "is_localroot cfg addr = (case addr of
     Sin a p \<Rightarrow> oldstyle_local cfg \<and> a = INADDR_LOOPBACK \<and> p < IPPORT_RESERVED
   | Sin6 a p \<Rightarrow> oldstyle_local cfg \<and> in6_is_loopback a \<and> p < IPPORT_RESERVED
   | _ \<Rightarrow> False)"

definition RPCBPROC_SET :: "32 word" where "RPCBPROC_SET = 1"
definition RPCBPROC_UNSET :: "32 word" where "RPCBPROC_UNSET = 2"

definition check_access :: "env \<Rightarrow> config \<Rightarrow> svcxprt \<Rightarrow> 32 word \<Rightarrow> bool" where
  "check_access E cfg xprt proc =
     (if proc \<in> {RPCBPROC_SET, RPCBPROC_UNSET} \<and> \<not> insecure cfg \<and> \<not> is_loopback cfg (xp_caller xprt) then False
      else if xp_caller xprt = Slocal then True
      else hosts_access E (xp_caller xprt))"

definition NFS_PROGRAM :: "32 word" where "NFS_PROGRAM = 100003"
definition YPPROG :: "32 word" where "YPPROG = 100004"
definition MOUNTPROG :: "32 word" where "MOUNTPROG = 100005"
definition YPBINDPROG :: "32 word" where "YPBINDPROG = 100007"
definition YPPASSWDPROG :: "32 word" where "YPPASSWDPROG = 100009"
definition RQUOTAPROG :: "32 word" where "RQUOTAPROG = 100011"
definition RPCBPROG :: "32 word" where "RPCBPROG = 100000"

definition check_callit :: "config \<Rightarrow> rmtcall_args \<Rightarrow> bool" where
  "check_callit cfg args =
     (let prog = rmt_prog args; proc = rmt_proc args in
      if proc = 0 then True
      else if prog = RPCBPROG then insecure cfg
      else if prog = MOUNTPROG then proc \<noteq> 1 \<and> proc \<noteq> 3
      else if prog = YPBINDPROG then proc \<noteq> 2
      else if prog \<in> {YPPASSWDPROG, NFS_PROGRAM, RQUOTAPROG} then False
      else if prog = YPPROG then proc \<notin> {8, 3, 4, 5}
      else True)"

text \<open>\<open>getowner\<close>; \<open>%d\<close> prints the user id as a signed number.\<close>

definition signed_decimal :: "32 word \<Rightarrow> string" where
  "signed_decimal w = (if sint w < 0 then ''-'' @ decimal (nat (- sint w)) else decimal (nat (sint w)))"

definition getowner :: "config \<Rightarrow> svcxprt \<Rightarrow> string" where
  "getowner cfg xprt = (case xp_uid xprt of
     None \<Rightarrow> if is_localroot cfg (xp_caller xprt) then ''superuser'' else ''unknown''
   | Some uid \<Rightarrow> if uid = 0 then ''superuser'' else signed_decimal uid)"

section \<open>Addresses\<close>

text \<open>\<open>mergeaddr\<close> of \<open>check_bound.c\<close>; \<open>None\<close> is \<open>NULL\<close>.\<close>

definition mergeaddr :: "env \<Rightarrow> rpcbind \<Rightarrow> svcxprt \<Rightarrow> string \<Rightarrow> string \<Rightarrow> string option \<Rightarrow> string option" where
  "mergeaddr E s xprt netid uaddr saddr = (case find_fd (rb_fds s) netid of
     None \<Rightarrow> None
   | Some fdl \<Rightarrow>
       if \<not> check_bound (probe E) fdl uaddr then Some []
       else (case (case saddr of Some a \<Rightarrow> Some a | None \<Rightarrow> taddr2uaddr E (nc_netid fdl) (xp_callerbuf xprt)) of
          None \<Rightarrow> None
        | Some c_uaddr \<Rightarrow> addrmerge E (xp_callerbuf xprt) uaddr (Some c_uaddr) netid))"

definition find_rmtcallfd_by_netid :: "string \<Rightarrow> (string \<times> 32 word) list \<Rightarrow> 32 word option" where
  "find_rmtcallfd_by_netid netid fds = map_option snd (find (\<lambda>rmt. fst rmt = netid) fds)"

section \<open>rpcbproc_callit_com\<close>

definition UDPMSGSIZE :: nat where "UDPMSGSIZE = 8800"

text \<open>The authentication the call is forwarded with; \<open>None\<close> for a flavor that is not supported.\<close>

definition callit_auth :: "env \<Rightarrow> 32 word \<Rightarrow> (memstrm, unit) xdrproc_t option option" where
  "callit_auth E flavor =
     (if flavor = 0 then Some (authnone E)
      else if flavor = 1 then Some (case authunix E of None \<Rightarrow> authnone E | Some auth \<Rightarrow> Some auth)
      else None)"

text \<open>The message: \<open>Inl\<close> the error that is reported to an indirect call, \<open>Inr\<close> its bytes.\<close>

definition callit_message :: "env \<Rightarrow> mem \<Rightarrow> addr \<Rightarrow> svc_req \<Rightarrow> rmtcall_args \<Rightarrow> (memstrm, unit) trpc_msg
    \<Rightarrow> (reply + byte list) option" where
  "callit_message E m outbuf rqstp a call_msg = do {
     let m = wr m outbuf (replicate UDPMSGSIZE 0);
     (ok, xdrs, call_msg) \<leftarrow> xdr_callhdr (xdrmem_create m outbuf (of_nat UDPMSGSIZE) XDR_ENCODE) call_msg;
     if \<not> ok then Some (Inl E_systemerr) else do {
     (ok, xdrs, proc) \<leftarrow> xdr_u_int32_t xdrs (rmt_proc a);
     if \<not> ok then Some (Inl E_systemerr) else
     case callit_auth E (rq_flavor rqstp) of
       None \<Rightarrow> Some (Inl E_weakauth)
     | Some None \<Rightarrow> Some (Inl E_systemerr)
     | Some (Some marshall) \<Rightarrow> do {
         (ok, xdrs, _) \<leftarrow> marshall xdrs ();
         if \<not> ok then Some (Inl E_systemerr) else do {
         (ok, xdrs, args) \<leftarrow> xdr_opaque (of_nat (length (rmt_args a))) xdrs (rmt_args a);
         if \<not> ok then Some (Inl E_systemerr) else do {
         outlen \<leftarrow> XDR_GETPOS xdrs;
         Some (Inr (rd (x_mem xdrs) outbuf (unat outlen))) } } } } }"

text \<open>An error is reported to \<open>RPCBPROC_INDIRECT\<close> only.\<close>

definition to_indirect :: "32 word \<Rightarrow> reply \<Rightarrow> reply list" where
  "to_indirect rtype r = (if rtype = RPCBPROC_INDIRECT then [r] else [])"

text \<open>What goes out of a forwarding socket: the descriptor, the message and the address.\<close>

type_synonym datagram = "32 word \<times> byte list \<times> byte list"

text \<open>The second half, from the allocation of the message on: the call is registered under \<open>xid\<close>.\<close>

definition callit_send :: "env \<Rightarrow> mem \<Rightarrow> addr \<Rightarrow> svc_req \<Rightarrow> (memstrm, unit) trpc_msg \<Rightarrow> 32 word \<Rightarrow> rmtcall_args
    \<Rightarrow> string \<Rightarrow> string option \<Rightarrow> 32 word \<Rightarrow> 32 word \<Rightarrow> rpcbind \<Rightarrow> (reply list \<times> datagram list \<times> rpcbind) option" where
  "callit_send E m outbuf rqstp msg0 rtype a netid local_uaddr fd xid s = do {
     let give_up = s\<lparr>rb_fwd := release xid (rb_fwd s)\<rparr>;
     r \<leftarrow> callit_message E m outbuf rqstp a (msg0\<lparr>trm_xid := xid, trm_direction := CALL,
       trm_call := (trm_call msg0)\<lparr>tcb_rpcvers := RPC_MSG_VERSION, tcb_prog := rmt_prog a, tcb_vers := rmt_vers a\<rparr>\<rparr>);
     case r of
       Inl e \<Rightarrow> Some (to_indirect rtype e, [], give_up)
     | Inr msg \<Rightarrow> (case uaddr2taddr E netid local_uaddr of
         None \<Rightarrow> Some (to_indirect rtype E_systemerr, [], give_up)
       | Some na \<Rightarrow>
           if \<not> sendto_ok E then Some (to_indirect rtype E_systemerr, [], give_up)
           else Some ([], [(fd, msg, na)], s)) }"

text \<open>
  The service is there.  A null \<open>uaddr\<close> and one that is empty end an indirect call alike; the
  empty one is static storage that the code then frees, so this run has no result.
\<close>

definition callit_found :: "env \<Rightarrow> mem \<Rightarrow> addr \<Rightarrow> (memstrm, unit) trpc_msg \<Rightarrow> svc_req \<Rightarrow> svcxprt
    \<Rightarrow> 32 word \<Rightarrow> 32 word \<Rightarrow> rmtcall_args \<Rightarrow> rpcb \<Rightarrow> rpcbind \<Rightarrow> (reply list \<times> datagram list \<times> rpcbind) option" where
  "callit_found E m outbuf msg0 rqstp xprt rtype vers a rbl s =
     (let uaddr = mergeaddr E s xprt (xp_netid xprt) (r_addr rbl) None in
      if rtype = RPCBPROC_INDIRECT \<and> uaddr = None then Some ([E_noprog], [], s)
      else if rtype = RPCBPROC_INDIRECT \<and> uaddr = Some [] then None
      else (case find_fd (rb_fds s) (xp_netid xprt) of
          None \<Rightarrow> Some (to_indirect rtype E_systemerr, [], s)
        | Some nconf \<Rightarrow> (case local_sa E of
            None \<Rightarrow> Some ([], [], s)
          | Some tbuf \<Rightarrow> let
              local_uaddr = addrmerge E tbuf (r_addr rbl) None (nc_netid nconf);
              m_uaddr = addrmerge E (xp_callerbuf xprt) (r_addr rbl) None (nc_netid nconf)
            in (case find_rmtcallfd_by_netid (nc_netid nconf) (rb_rmtfds s) of
              None \<Rightarrow> Some (to_indirect rtype E_systemerr, [], s)
            | Some fd \<Rightarrow> (case forward_register (dup_ok E) (now E) (later E)
                  \<lparr>q_xid = rq_xid rqstp, q_addr = xp_callerbuf xprt, q_fd = fd, q_uaddr = m_uaddr,
                   q_type = rtype, q_vers = vers\<rparr> (rb_fwd s) of
                (_, None, f) \<Rightarrow> Some ([], [], s\<lparr>rb_fwd := f\<rparr>)
              | (_, Some xid, f) \<Rightarrow> callit_send E m outbuf rqstp msg0 rtype a
                  (nc_netid nconf) local_uaddr fd xid (s\<lparr>rb_fwd := f\<rparr>))))))"

definition rpcbproc_callit_com :: "env \<Rightarrow> config \<Rightarrow> mem \<Rightarrow> addr \<Rightarrow> (memstrm, unit) trpc_msg \<Rightarrow> svc_req \<Rightarrow> svcxprt
    \<Rightarrow> 32 word \<Rightarrow> 32 word \<Rightarrow> rpcbind \<Rightarrow> (reply list \<times> datagram list \<times> rpcbind) option" where
  "rpcbproc_callit_com E cfg m outbuf msg0 rqstp xprt rtype vers s =
     (case xp_dgram xprt of
        None \<Rightarrow> Some (to_indirect rtype E_systemerr, [], s)
      | Some dgram \<Rightarrow>
        if \<not> dgram then Some ([], [], s)
        else (case as_rmtcall rqstp of
          None \<Rightarrow> Some (to_indirect rtype E_decode, [], s)
        | Some a \<Rightarrow>
          if \<not> check_callit cfg a then Some ([E_weakauth], [], s)
          else let
            netid = xp_netid xprt;
            fnd = find_service (list_rbl (rb_reg s)) (rmt_prog a, netid) (rmt_vers a);
            s = s\<lparr>rb_stats := rpcbs_rmtcall (\<lambda>netid. find_fd (rb_fds s) netid \<noteq> None) (stat_ok E) (vers - 2)
                  rtype (rmt_prog a) (rmt_vers a) (rmt_proc a) netid fnd (rb_stats s)\<rparr>
          in (case fnd of
            None \<Rightarrow> Some (to_indirect rtype E_noprog, [], s)
          | Some rbl \<Rightarrow>
            if r_vers rbl \<noteq> rmt_vers a then
              (let (low, high) = find_versions (rb_reg s) (rmt_prog a) netid
               in Some (to_indirect rtype (E_progvers low high), [], s))
            else callit_found E m outbuf msg0 rqstp xprt rtype vers a rbl s)))"

section \<open>The message that is forwarded\<close>

text \<open>Its four parts as one filter; where it succeeds so does each part.\<close>

definition callit_filter :: "('s, unit) xdrproc_t \<Rightarrow> 32 word
    \<Rightarrow> ('s, ('s, unit) trpc_msg \<times> 32 word \<times> unit \<times> byte list) xdrproc_t" where
  "callit_filter marshall arglen xdrs st =
     and_then (and_then (and_then
       (fld fst apfst xdr_callhdr xdrs st)
       (fld (\<lambda>v. fst (snd v)) (\<lambda>f. apsnd (apfst f)) xdr_u_int32_t))
       (fld (\<lambda>v. fst (snd (snd v))) (\<lambda>f. apsnd (apsnd (apfst f))) marshall))
       (fld (\<lambda>v. snd (snd (snd v))) (\<lambda>f. apsnd (apsnd (apsnd f))) (xdr_opaque arglen))"

definition forwarded_bytes :: "32 word \<Rightarrow> rmtcall_args \<Rightarrow> byte list \<Rightarrow> byte list" where
  "forwarded_bytes xid a auth = be32 xid @ be32 CALL @ be32 RPC_MSG_VERSION @ be32 (rmt_prog a) @
     be32 (rmt_vers a) @ be32 (rmt_proc a) @ auth @ padded (rmt_args a)"

definition marshalls :: "(memstrm, unit) xdrproc_t \<Rightarrow> byte list \<Rightarrow> bool" where
  "marshalls marshall bytes \<longleftrightarrow> (\<forall>m b n. al.encodes m b n marshall () bytes () \<and> un.encodes m b n marshall () bytes ())"

context xdr_sink begin

lemma encodes_callit:
  assumes m: "encodes marshall () auth ()" and n: "unat arglen = length (rmt_args a)"
    and msg: "trm_xid msg = xid" "tcb_prog (trm_call msg) = rmt_prog a" "tcb_vers (trm_call msg) = rmt_vers a"
  shows "encodes (callit_filter marshall arglen) (msg, rmt_proc a, (), rmt_args a) (forwarded_bytes xid a auth)
    (msg\<lparr>trm_direction := CALL, trm_call := (trm_call msg)\<lparr>tcb_rpcvers := RPC_MSG_VERSION\<rparr>\<rparr>, rmt_proc a, (), rmt_args a)"
proof -
  let ?msg = "msg\<lparr>trm_direction := CALL, trm_call := (trm_call msg)\<lparr>tcb_rpcvers := RPC_MSG_VERSION\<rparr>\<rparr>"
  let ?v = "(?msg, rmt_proc a, (), rmt_args a)"
  have 1: "encodes (fld fst apfst xdr_callhdr) (msg, rmt_proc a, (), rmt_args a)
      (be32 xid @ be32 CALL @ be32 RPC_MSG_VERSION @ be32 (rmt_prog a) @ be32 (rmt_vers a)) ?v"
    using encodes_fld [of xdr_callhdr fst "(msg, rmt_proc a, (), rmt_args a)" _ _ apfst] encodes_tcallhdr [of msg]
    by (simp add: msg)
  have 2: "encodes (fld (\<lambda>v. fst (snd v)) (\<lambda>f. apsnd (apfst f)) xdr_u_int32_t) ?v (be32 (rmt_proc a)) ?v"
    using encodes_fld [of xdr_u_int32_t "\<lambda>v. fst (snd v)" ?v, OF encodes_xdr_u_int32_t, of "\<lambda>f. apsnd (apfst f)"] by simp
  have 3: "encodes (fld (\<lambda>v. fst (snd (snd v))) (\<lambda>f. apsnd (apsnd (apfst f))) marshall) ?v auth ?v"
    using encodes_fld [of marshall "\<lambda>v. fst (snd (snd v))" ?v auth "()" "\<lambda>f. apsnd (apsnd (apfst f))"] m by simp
  have "encodes (xdr_opaque arglen) (rmt_args a) (padded (rmt_args a)) (rmt_args a)"
    using encodes_xdr_opaque [of arglen "rmt_args a"] n by simp
  then have 4: "encodes (fld (\<lambda>v. snd (snd (snd v))) (\<lambda>f. apsnd (apsnd (apsnd f))) (xdr_opaque arglen)) ?v
      (padded (rmt_args a)) ?v"
    using encodes_fld [of "xdr_opaque arglen" "\<lambda>v. snd (snd (snd v))" ?v _ _ "\<lambda>f. apsnd (apsnd (apsnd f))"] by simp
  show ?thesis
    using encodes_and_then [OF encodes_and_then [OF encodes_and_then [OF 1 2] 3] 4]
    by (simp add: callit_filter_def [abs_def] forwarded_bytes_def)
qed

end

lemma callit_filter_parts:
  assumes "callit_filter marshall n x0 (msg, proc, u0, args) = Some (True, x4, msg', proc', u', args')"
  shows "\<exists>x1 c x2 p x3 u. xdr_callhdr x0 msg = Some (True, x1, c) \<and> xdr_u_int32_t x1 proc = Some (True, x2, p) \<and>
    marshall x2 u0 = Some (True, x3, u) \<and> xdr_opaque n x3 args = Some (True, x4, args')"
  using assms by (auto simp: callit_filter_def fld_def and_then_eq_Some bind_eq_Some_conv)

lemma callit_message_bytes:
  assumes auth: "callit_auth E (rq_flavor rqstp) = Some (Some marshall)" and m: "marshalls marshall auth"
    and out: "outbuf \<noteq> 0" and len: "length (forwarded_bytes xid a auth) \<le> UDPMSGSIZE"
    and msg: "trm_xid msg = xid" "tcb_prog (trm_call msg) = rmt_prog a" "tcb_vers (trm_call msg) = rmt_vers a"
  shows "callit_message E m outbuf rqstp a msg = Some (Inr (forwarded_bytes xid a auth))"
proof -
  let ?n = "of_nat (length (rmt_args a)) :: 32 word" and ?m = "wr m outbuf (replicate UDPMSGSIZE 0)"
  let ?sz = "of_nat UDPMSGSIZE :: 32 word" and ?bs = "forwarded_bytes xid a auth"
  have sz: "unat ?sz = UDPMSGSIZE" by (simp add: UDPMSGSIZE_def)
  have n: "unat ?n = length (rmt_args a)"
    using len by (intro unat_of_nat32) (simp add: forwarded_bytes_def padded_def UDPMSGSIZE_def)
  have al: "al.encodes ?m outbuf (unat ?sz) marshall () auth ()" and un: "un.encodes ?m outbuf (unat ?sz) marshall () auth ()"
    using m by (simp_all add: marshalls_def)
  have l: "length ?bs \<le> unat ?sz" using len by (simp only: sz)
  obtain xdrs msg' where run: "callit_filter marshall ?n (xdrmem_create ?m outbuf ?sz XDR_ENCODE)
      (msg, rmt_proc a, (), rmt_args a) = Some (True, xdrs, msg', rmt_proc a, (), rmt_args a)"
    and rd: "rd (x_mem xdrs) outbuf (length ?bs) = ?bs"
    and pos: "XDR_GETPOS xdrs = Some (of_nat (length ?bs))"
    by (rule xdrmem_encode_pos [OF al.encodes_callit [OF al n msg] un.encodes_callit [OF un n msg] out l]) (rule that)
  have ul: "unat (of_nat (length ?bs) :: 32 word) = length ?bs"
    using len by (intro unat_of_nat32) (simp add: UDPMSGSIZE_def)
  let ?x0 = "xdrmem_create ?m outbuf ?sz XDR_ENCODE"
  obtain x1 c x2 p x3 u where parts: "xdr_callhdr ?x0 msg = Some (True, x1, c)"
      "xdr_u_int32_t x1 (rmt_proc a) = Some (True, x2, p)" "marshall x2 () = Some (True, x3, u)"
      "xdr_opaque ?n x3 (rmt_args a) = Some (True, xdrs, rmt_args a)"
    using callit_filter_parts [OF run] by metis
  show ?thesis
    unfolding callit_message_def Let_def parts bind.bind_lunit prod.case auth option.case
    by (simp add: parts pos rd ul)
qed

section \<open>What a call does to the state\<close>

lemma mergeaddr_stats [simp]:
  "mergeaddr E (s\<lparr>rb_stats := x\<rparr>) = mergeaddr E s" "mergeaddr E (s\<lparr>rb_fwd := f\<rparr>) = mergeaddr E s"
  by (simp_all add: mergeaddr_def fun_eq_iff)

lemma release_reach: "forwarding_reach f \<Longrightarrow> forwarding_reach (release xid f)"
  by (auto simp: release_def intro: forwarding_reach.give_up surjective_pairing)

text \<open>A step of the state: registry and transports stay, the table goes on as it may.\<close>

definition call_step :: "rpcbind \<Rightarrow> rpcbind \<Rightarrow> bool" where
  "call_step s s' \<longleftrightarrow> rb_reg s' = rb_reg s \<and> rb_fds s' = rb_fds s \<and>
     (forwarding_reach (rb_fwd s) \<longrightarrow> forwarding_reach (rb_fwd s'))"

lemma call_step_refl [simp]: "call_step s s" "call_step s (s\<lparr>rb_stats := x\<rparr>)"
  by (simp_all add: call_step_def)

lemma callit_send_state:
  assumes "callit_send E m outbuf rqstp msg0 rtype a netid local_uaddr fd xid s = Some (rs, ds, s')"
  shows "call_step s s' \<and> (rtype \<noteq> RPCBPROC_INDIRECT \<longrightarrow> rs = [])"
proof -
  obtain r where "callit_message E m outbuf rqstp a (msg0\<lparr>trm_xid := xid, trm_direction := CALL,
       trm_call := (trm_call msg0)\<lparr>tcb_rpcvers := RPC_MSG_VERSION, tcb_prog := rmt_prog a, tcb_vers := rmt_vers a\<rparr>\<rparr>)
      = Some r"
    using assms by (auto simp: callit_send_def bind_eq_Some_conv Let_def)
  then show ?thesis using assms
    by (cases r) (auto simp: callit_send_def to_indirect_def Let_def call_step_def release_reach
        split: option.splits if_splits)
qed

lemma call_step_register:
  "forward_register mem t t' q (rb_fwd s) = (r, x, f) \<Longrightarrow> call_step s (s\<lparr>rb_fwd := f\<rparr>)"
  by (auto simp: call_step_def intro: forwarding_reach.register)

lemma callit_found_state:
  assumes "callit_found E m outbuf msg0 rqstp xprt rtype vers a rbl s = Some (rs, ds, s')"
  shows "call_step s s' \<and> (rtype \<noteq> RPCBPROC_INDIRECT \<longrightarrow> rs = [])"
proof -
  have step: "call_step s s'" if "forward_register mem t t' q (rb_fwd s) = (r, x, f)" "call_step (s\<lparr>rb_fwd := f\<rparr>) s'"
    for mem t t' q r x f
    using that by (auto simp: call_step_def intro: forwarding_reach.register)
  show ?thesis using assms unfolding callit_found_def Let_def
    by (auto simp: to_indirect_def dest!: callit_send_state split: option.splits if_splits prod.splits
        intro: step call_step_register)
qed

lemma callit_state:
  assumes "rpcbproc_callit_com E cfg m outbuf msg0 rqstp xprt rtype vers s = Some (rs, ds, s')"
  shows "call_step s s' \<and> (rtype \<noteq> RPCBPROC_INDIRECT \<longrightarrow> rs = [] \<or>
    rs = [E_weakauth] \<and> (\<exists>a. as_rmtcall rqstp = Some a \<and> \<not> check_callit cfg a))"
proof -
  have stats: "call_step s s'" if "call_step (s\<lparr>rb_stats := x\<rparr>) s'" for x
    using that by (simp add: call_step_def)
  show ?thesis using assms unfolding rpcbproc_callit_com_def Let_def
    by (auto simp: to_indirect_def dest!: callit_found_state split: option.splits if_splits prod.splits
        intro: stats)
qed

section \<open>Properties\<close>

text \<open>
  Remote calls are quiet.  However \<open>rpcbproc_callit_com\<close> comes out for another procedure
  than \<open>RPCBPROC_INDIRECT\<close>, it tells the caller nothing, except that a call \<open>check_callit\<close>
  forbids is answered with a weak-authentication error.  It never changes the registry or the
  transports, and leaves the table of pending calls consistent.
\<close>

theorem callit_quiet:
  assumes "rpcbproc_callit_com E cfg m outbuf msg0 rqstp xprt rtype vers s = Some (rs, ds, s')"
  shows "rb_reg s' = rb_reg s \<and> rb_fds s' = rb_fds s \<and> (forwarding_reach (rb_fwd s) \<longrightarrow> forwarding_reach (rb_fwd s'))
    \<and> (rtype \<noteq> RPCBPROC_INDIRECT \<longrightarrow> rs = [] \<or>
        rs = [E_weakauth] \<and> (\<exists>a. as_rmtcall rqstp = Some a \<and> \<not> check_callit cfg a))"
  using callit_state [OF assms] unfolding call_step_def by blast

definition an_env :: env where
  "an_env = \<lparr>hosts_access = (\<lambda>_. True), probe = (\<lambda>_ _. False), addrmerge = (\<lambda>_ u _ _. Some u),
     taddr2uaddr = (\<lambda>_ _. Some ''10.0.0.1.0.9''), uaddr2taddr = (\<lambda>_ _. Some [2, 0, 8, 1]), local_sa = Some [127, 0, 0, 1],
     allocs = allocs_ok, stat_ok = True, dup_ok = True, entry_ok = True,
     netconf = (\<lambda>n. \<lparr>nc_protofmly = ''inet'', nc_semantics = 1, nc_proto = n\<rparr>), now = 1000, later = 1000,
     authnone = Some (fld (\<lambda>_. replicate 16 0) (\<lambda>_ u. u) (xdr_opaque 16)), authunix = None,
     sendto_ok = True, sendreply_ok = True\<rparr>"

definition nfs_udp :: rpcb where
  "nfs_udp = \<lparr>r_prog = 100005, r_vers = 3, r_netid = ''udp'', r_addr = ''0.0.0.0.8.1'', r_owner = ''superuser''\<rparr>"

definition an_rpcbind :: rpcbind where
  "an_rpcbind = \<lparr>rb_reg = empty_registry\<lparr>list_rbl := [nfs_udp]\<rparr>,
     rb_fds = [\<lparr>nc_netid = ''udp'', check_binding = False\<rparr>], rb_stats = inf_start, rb_fwd = forwarding_start,
     rb_rmtfds = [(''udp'', 5)]\<rparr>"

definition a_caller :: svcxprt where
  "a_caller = \<lparr>xp_netid = ''udp'', xp_caller = Sin 0x0a000001 900, xp_callerbuf = [10, 0, 0, 1], xp_uid = None,
     xp_dgram = Some True\<rparr>"

definition a_rmtcall :: rmtcall_args where
  "a_rmtcall = \<lparr>rmt_prog = 100005, rmt_vers = 3, rmt_proc = 0, rmt_args = []\<rparr>"

definition a_request :: svc_req where
  "a_request = \<lparr>rq_proc = 10, rq_xid = 7, rq_flavor = 0, as_pmap = None, as_rpcb = None, as_void = False,
     as_string = None, as_netbuf = None, as_rmtcall = Some a_rmtcall\<rparr>"

definition a_config :: config where
  "a_config = \<lparr>insecure = False, oldstyle_local = False\<rparr>"

lemma callit_quiet_witness:
  "\<exists>rs ds s'. rpcbproc_callit_com an_env a_config (\<lambda>_. 0) 4 (void_reply 0)
      (a_request\<lparr>as_rmtcall := Some (a_rmtcall\<lparr>rmt_proc := 1\<rparr>)\<rparr>) a_caller 5 3 an_rpcbind = Some (rs, ds, s')
    \<and> (rs = [] \<or> rs = [E_weakauth]) \<and> rb_reg s' = rb_reg an_rpcbind"
proof -
  obtain rs ds s' where r: "rpcbproc_callit_com an_env a_config (\<lambda>_. 0) 4 (void_reply 0)
      (a_request\<lparr>as_rmtcall := Some (a_rmtcall\<lparr>rmt_proc := 1\<rparr>)\<rparr>) a_caller 5 3 an_rpcbind = Some (rs, ds, s')"
    by (simp add: rpcbproc_callit_com_def a_caller_def a_rmtcall_def check_callit_def RPCBPROG_def MOUNTPROG_def
        Let_def a_config_def)
  with callit_quiet [OF r] show ?thesis by (auto simp: RPCBPROC_INDIRECT_def)
qed

text \<open>
  An indirect call to a program that is not registered is told so, and one to a version that
  is not registered is told the lowest and the highest version that are; nothing is forwarded.
\<close>

theorem callit_indirect_errors:
  assumes "xp_dgram xprt = Some True" and "as_rmtcall rqstp = Some a" and "check_callit cfg a"
    and "find (\<lambda>r. rbl_fits (rmt_prog a, xp_netid xprt) r \<and> r_vers r = rmt_vers a) (list_rbl (rb_reg s)) = None"
    and "0 \<notin> set (versions (rb_reg s) (rmt_prog a) (xp_netid xprt))"
  shows "\<exists>s'. rpcbproc_callit_com E cfg m outbuf msg0 rqstp xprt RPCBPROC_INDIRECT vers s =
    Some ([case versions (rb_reg s) (rmt_prog a) (xp_netid xprt) of
        [] \<Rightarrow> E_noprog | v # vs \<Rightarrow> E_progvers (Min (set (v # vs))) (Max (set (v # vs)))], [], s')"
proof -
  let ?l = "list_rbl (rb_reg s)" and ?k = "(rmt_prog a, xp_netid xprt)"
  have v: "versions (rb_reg s) (rmt_prog a) (xp_netid xprt) = map r_vers (filter (rbl_fits ?k) ?l)"
    by (simp add: versions_def)
  have fv: "find_versions (rb_reg s) (rmt_prog a) (xp_netid xprt) = (case versions (rb_reg s) (rmt_prog a) (xp_netid xprt) of
      [] \<Rightarrow> (0, 0) | v # vs \<Rightarrow> (Min (set (v # vs)), Max (set (v # vs))))"
    using assms(5) find_versions_loop_start [of "rmt_prog a" "xp_netid xprt" ?l]
    by (auto simp: find_versions_def versions_def Min.set_eq_fold Max.set_eq_fold split: list.splits simp del: list.set)
  show ?thesis
  proof (cases "find_service ?l ?k (rmt_vers a)")
    case None
    then have "filter (rbl_fits ?k) ?l = []" by (simp add: rbl.look_None filter_empty_conv)
    with None show ?thesis
      by (simp add: rpcbproc_callit_com_def assms(1-3) to_indirect_def v Let_def)
  next
    case (Some rbl)
    then have "rbl \<in> set (filter (rbl_fits ?k) ?l)" using rbl.look_SomeD by fastforce
    then obtain w ws where vs: "versions (rb_reg s) (rmt_prog a) (xp_netid xprt) = w # ws"
      by (cases "versions (rb_reg s) (rmt_prog a) (xp_netid xprt)") (auto simp: v filter_empty_conv)
    have "r_vers rbl \<noteq> rmt_vers a"
      using assms(4) Some by (auto simp: rbl.look_of_vers split: if_splits)
    with Some vs fv show ?thesis
      by (simp add: rpcbproc_callit_com_def assms(1-3) to_indirect_def Let_def)
  qed
qed

lemma callit_indirect_errors_witness:
  "\<exists>s'. rpcbproc_callit_com an_env a_config (\<lambda>_. 0) 4 (void_reply 0)
      (a_request\<lparr>as_rmtcall := Some (a_rmtcall\<lparr>rmt_vers := 2\<rparr>)\<rparr>) a_caller RPCBPROC_INDIRECT 4 an_rpcbind =
    Some ([E_progvers 3 3], [], s')"
proof -
  have v: "versions (rb_reg an_rpcbind) 100005 ''udp'' = [3]"
    by (simp add: versions_def an_rpcbind_def nfs_udp_def rbl_fits_def strcasecmp_def)
  show ?thesis
    using callit_indirect_errors [of a_caller "a_request\<lparr>as_rmtcall := Some (a_rmtcall\<lparr>rmt_vers := 2\<rparr>)\<rparr>"
        "a_rmtcall\<lparr>rmt_vers := 2\<rparr>" a_config an_rpcbind an_env "\<lambda>_. 0" 4 "void_reply 0" 4] v
    by (simp add: a_caller_def a_request_def a_rmtcall_def check_callit_def an_rpcbind_def nfs_udp_def)
qed

text \<open>
  C37: A call that is allowed, whose service is registered under the very version and for which
  the system serves what is asked of it, goes out as one datagram: to the address of the
  service, under the new transaction id, with the program, version, procedure and arguments of
  the caller and the authentication the flavor asks for.  Nothing is said to the caller yet.
\<close>

theorem callit_forwards:
  assumes "xp_dgram xprt = Some True" and "as_rmtcall rqstp = Some a" and "check_callit cfg a"
    and "find_service (list_rbl (rb_reg s)) (rmt_prog a, xp_netid xprt) (rmt_vers a) = Some rbl"
    and "r_vers rbl = rmt_vers a"
    and "mergeaddr E s xprt (xp_netid xprt) (r_addr rbl) None \<notin> {None, Some []}"
    and "find_fd (rb_fds s) (xp_netid xprt) = Some nconf" and "local_sa E = Some tbuf"
    and "find_rmtcallfd_by_netid (nc_netid nconf) (rb_rmtfds s) = Some fd"
    and "forward_register (dup_ok E) (now E) (later E) \<lparr>q_xid = rq_xid rqstp, q_addr = xp_callerbuf xprt, q_fd = fd,
        q_uaddr = addrmerge E (xp_callerbuf xprt) (r_addr rbl) None (nc_netid nconf), q_type = rtype, q_vers = vers\<rparr>
        (rb_fwd s) = (1, Some xid, f)"
    and "callit_auth E (rq_flavor rqstp) = Some (Some marshall)" and "marshalls marshall auth"
    and "outbuf \<noteq> 0" and "length (forwarded_bytes xid a auth) \<le> UDPMSGSIZE"
    and "uaddr2taddr E (nc_netid nconf) (addrmerge E tbuf (r_addr rbl) None (nc_netid nconf)) = Some na" and "sendto_ok E"
  shows "\<exists>s'. rpcbproc_callit_com E cfg m outbuf msg0 rqstp xprt rtype vers s =
      Some ([], [(fd, forwarded_bytes xid a auth, na)], s') \<and> rb_fwd s' = f"
proof -
  have "callit_message E m outbuf rqstp a (msg0\<lparr>trm_xid := xid, trm_direction := CALL,
       trm_call := (trm_call msg0)\<lparr>tcb_rpcvers := RPC_MSG_VERSION, tcb_prog := rmt_prog a, tcb_vers := rmt_vers a\<rparr>\<rparr>)
      = Some (Inr (forwarded_bytes xid a auth))"
    by (rule callit_message_bytes [OF assms(11-14)]) simp_all
  then show ?thesis
    using assms by (simp add: rpcbproc_callit_com_def callit_found_def callit_send_def Let_def)
qed

lemma callit_forwards_witness:
  "\<exists>s'. rpcbproc_callit_com an_env a_config (\<lambda>_. 0) 4 (void_reply 0) a_request a_caller RPCBPROC_INDIRECT 4 an_rpcbind =
    Some ([], [(5, forwarded_bytes 64064 a_rmtcall (replicate 16 0), [2, 0, 8, 1])], s')"
proof -
  have auth: "marshalls (fld (\<lambda>_. replicate 16 0) (\<lambda>_ u. u) (xdr_opaque 16)) (replicate 16 0)"
    unfolding marshalls_def
    using al.encodes_fld [of _ _ _ "xdr_opaque 16" "\<lambda>_. replicate 16 0" "()" "replicate 16 0" "replicate 16 0" "\<lambda>_ u. u"]
      un.encodes_fld [of _ _ _ "xdr_opaque 16" "\<lambda>_. replicate 16 0" "()" "replicate 16 0" "replicate 16 0" "\<lambda>_ u. u"]
      al.encodes_xdr_opaque [of 16 "replicate 16 0"] un.encodes_xdr_opaque [of 16 "replicate 16 0"]
    by (simp add: padded_def pad_def)
  let ?q = "\<lparr>q_xid = 7, q_addr = [10, 0, 0, 1], q_fd = 5, q_uaddr = Some ''0.0.0.0.8.1'',
    q_type = RPCBPROC_INDIRECT, q_vers = 4\<rparr>"
  have "fst (snd (forward_register True 1000 1000 ?q forwarding_start)) = Some 64064"
    "fst (forward_register True 1000 1000 ?q forwarding_start) = 1"
    by code_simp+
  then obtain f where reg: "forward_register True 1000 1000 ?q forwarding_start = (1, Some 64064, f)"
    by (metis prod.collapse)
  have svc: "find_service [nfs_udp] (100005, ''udp'') 3 = Some nfs_udp"
    by (simp add: find_service_def nfs_udp_def strcasecmp_def)
  have len: "length (forwarded_bytes 64064 a_rmtcall (replicate 16 0)) \<le> UDPMSGSIZE"
    by (simp add: forwarded_bytes_def a_rmtcall_def UDPMSGSIZE_def padded_def pad_def)
  have merge: "mergeaddr an_env an_rpcbind a_caller ''udp'' ''0.0.0.0.8.1'' None = Some ''0.0.0.0.8.1''"
    by (simp add: mergeaddr_def an_rpcbind_def an_env_def find_fd_def check_bound_def)
  note defs = a_caller_def a_request_def a_rmtcall_def a_config_def an_rpcbind_def an_env_def
  show ?thesis
    by (insert callit_forwards [of a_caller a_request a_rmtcall a_config an_rpcbind nfs_udp an_env
        "\<lparr>nc_netid = ''udp'', check_binding = False\<rparr>" "[127, 0, 0, 1]" 5 RPCBPROC_INDIRECT 4 64064 f
        "fld (\<lambda>_. replicate 16 0) (\<lambda>_ u. u) (xdr_opaque 16)" "replicate 16 0" 4 "[2, 0, 8, 1]" "\<lambda>_. 0" "void_reply 0",
        OF _ _ _ _ _ _ _ _ _ _ _ auth _ len])
      (use reg svc merge in \<open>auto simp: defs check_callit_def nfs_udp_def find_fd_def
        find_rmtcallfd_by_netid_def callit_auth_def\<close>)
qed

end
