(* ===== verification/Rpcb_Service.thy ===== *)
theory Rpcb_Service
  imports Rpcb_Callit
begin

text \<open>
  The three services of \<open>rpcbind\<close>: \<open>pmap_service\<close> of \<open>pmap_svc.c\<close> for version 2,
  \<open>rpcb_service_3\<close> of \<open>rpcb_svc.c\<close> and \<open>rpcb_service_4\<close> of \<open>rpcb_svc_4.c\<close>, with the
  procedures they share.  A service gives what it sends to the caller, the calls it forwards
  and the new state; \<open>None\<close> is a run that C gives no result.  The argument \<open>C\<close> of the
  services is \<open>rpcbproc_callit_com\<close> on the request, without its last three arguments.
\<close>

type_synonym outcome = "(reply list \<times> datagram list \<times> rpcbind) option"
type_synonym callit = "32 word \<Rightarrow> 32 word \<Rightarrow> rpcbind \<Rightarrow> outcome"

definition get_conf :: "rpcbind \<Rightarrow> string \<Rightarrow> bool" where
  "get_conf s netid \<longleftrightarrow> find_fd (rb_fds s) netid \<noteq> None"

section \<open>Version 2\<close>

text \<open>\<open>snprintf(buf, _, "%s.%d.%d", _, (port >> 8) & 0xff, port & 0xff)\<close>\<close>

definition port_addr :: "string \<Rightarrow> 64 word \<Rightarrow> string" where
  "port_addr host port = host @ ''.'' @ decimal (unat (drop_bit 8 port AND 0xff)) @ ''.'' @
     decimal (unat (port AND 0xff))"

text \<open>Replies of version 2: where \<open>svc_sendreply\<close> fails nothing else is sent.\<close>

definition reply_2 :: "env \<Rightarrow> reply \<Rightarrow> reply list" where
  "reply_2 E r = (if sendreply_ok E then [r] else [])"

definition pmap_set :: "allocs \<Rightarrow> pmap \<Rightarrow> string \<Rightarrow> registry \<Rightarrow> bool \<times> registry" where
  "pmap_set al reg owner g = (case pmap_ipprot2netid g (pm_prot reg) of
     None \<Rightarrow> (False, g)
   | Some netid \<Rightarrow> map_set al
       \<lparr>r_prog = ucast (pm_prog reg), r_vers = ucast (pm_vers reg), r_netid = netid,
        r_addr = port_addr (if take 4 netid = ''udp6'' \<or> take 4 netid = ''tcp6'' then ''::'' else ''0.0.0.0'')
          (pm_port reg),
        r_owner = owner\<rparr> owner g)"

definition pmap_unset :: "pmap \<Rightarrow> string \<Rightarrow> registry \<Rightarrow> bool \<times> registry" where
  "pmap_unset reg owner g =
     (let rpcbreg = (\<lambda>netid. \<lparr>r_prog = ucast (pm_prog reg), r_vers = ucast (pm_vers reg), r_netid = netid,
            r_addr = [], r_owner = owner\<rparr>);
          (ans1, g) = map_unset (rpcbreg (tcptrans g)) (Some owner) g;
          (ans2, g) = map_unset (rpcbreg (udptrans g)) (Some owner) g
      in (ans1 \<or> ans2, g))"

definition pmapproc_change :: "env \<Rightarrow> config \<Rightarrow> svc_req \<Rightarrow> svcxprt \<Rightarrow> 32 word \<Rightarrow> rpcbind \<Rightarrow> outcome" where
  "pmapproc_change E cfg rqstp xprt op s =
     (let owner = getowner cfg xprt in
      case as_pmap rqstp of
        None \<Rightarrow> Some ([E_decode], [], s)
      | Some reg \<Rightarrow>
          if \<not> check_access E cfg xprt op then Some ([E_weakauth], [], s)
          else let
            (ans, g) = (if op = RPCBPROC_SET then pmap_set (allocs E) reg owner (rb_reg s)
              else if op = RPCBPROC_UNSET then pmap_unset reg owner (rb_reg s)
              else (False, rb_reg s));
            stats = (if op = RPCBPROC_SET then rpcbs_set RPCBVERS_2_STAT ans (rb_stats s)
              else rpcbs_unset RPCBVERS_2_STAT ans (rb_stats s))
          in Some (reply_2 E (R_long (if ans then 1 else 0)), [], s\<lparr>rb_reg := g, rb_stats := stats\<rparr>))"

text \<open>\<open>port\<close> is an \<open>int\<close>; a service that is not bound any more is deleted.\<close>

definition pmapproc_getport :: "env \<Rightarrow> config \<Rightarrow> svc_req \<Rightarrow> svcxprt \<Rightarrow> rpcbind \<Rightarrow> outcome" where
  "pmapproc_getport E cfg rqstp xprt s = (case as_pmap rqstp of
     None \<Rightarrow> Some ([E_decode], [], s)
   | Some reg \<Rightarrow>
       if \<not> check_access E cfg xprt 3 then Some ([E_weakauth], [], s)
       else do {
         let g = rb_reg s;
         (port, g) \<leftarrow> (case find_service_pmap (list_pml g) (ucast (pm_prog reg), ucast (pm_prot reg)) (ucast (pm_vers reg)) of
             None \<Rightarrow> Some (0 :: 32 word, g)
           | Some fnd \<Rightarrow> (case pmap_ipprot2netid g (pm_prot reg) of
               None \<Rightarrow> Some (0, g)
             | Some netid \<Rightarrow>
                 if is_bound (probe E) (rb_fds s) netid (port_addr ''0.0.0.0'' (pm_port fnd))
                 then Some (ucast (pm_port fnd), g)
                 else do { g \<leftarrow> delete_prog (probe E) (rb_fds s) (ucast (pm_prog reg)) g; Some (0, g) }));
         Some (reply_2 E (R_long (scast port)), [], s\<lparr>rb_reg := g,
           rb_stats := rpcbs_getaddr (get_conf s) (stat_ok E) RPCBVERS_2_STAT (ucast (pm_prog reg)) (ucast (pm_vers reg))
             (case pmap_ipprot2netid g (pm_prot reg) of None \<Rightarrow> ''<unknown>'' | Some n \<Rightarrow> n)
             (Some (if port \<noteq> 0 then udptrans g else [])) (rb_stats s)\<rparr>) })"

definition pmapproc_dump :: "env \<Rightarrow> config \<Rightarrow> svc_req \<Rightarrow> svcxprt \<Rightarrow> rpcbind \<Rightarrow> outcome" where
  "pmapproc_dump E cfg rqstp xprt s =
     (if \<not> as_void rqstp then Some ([E_decode], [], s)
      else if \<not> check_access E cfg xprt 4 then Some ([E_weakauth], [], s)
      else Some (reply_2 E (R_pml (list_pml (rb_reg s))), [], s))"

definition pmap_service :: "env \<Rightarrow> config \<Rightarrow> callit \<Rightarrow> svc_req \<Rightarrow> svcxprt \<Rightarrow> rpcbind \<Rightarrow> outcome" where
  "pmap_service E cfg C rqstp xprt s =
     (let proc = rq_proc rqstp; s = s\<lparr>rb_stats := rpcbs_procinfo RPCBVERS_2_STAT proc (rb_stats s)\<rparr> in
      if proc = 0 then Some (reply_2 E R_void, [], s)
      else if proc = 1 \<or> proc = 2 then pmapproc_change E cfg rqstp xprt proc s
      else if proc = 3 then pmapproc_getport E cfg rqstp xprt s
      else if proc = 4 then pmapproc_dump E cfg rqstp xprt s
      else if proc = 5 then C 5 PMAPVERS s
      else Some ([E_noproc], [], s))"

section \<open>Procedures of versions 3 and 4\<close>

text \<open>A procedure gives its result, \<open>None\<close> for a null pointer, and the state.\<close>

type_synonym local_result = "(reply option \<times> rpcbind) option"

definition rpcbproc_set_com :: "env \<Rightarrow> config \<Rightarrow> svcxprt \<Rightarrow> 32 word \<Rightarrow> rpcb \<Rightarrow> rpcbind \<Rightarrow> local_result" where
  "rpcbproc_set_com E cfg xprt vers regp s =
     (let (ans, g) = map_set (allocs E) regp (getowner cfg xprt) (rb_reg s) in
      Some (Some (R_bool ans), s\<lparr>rb_reg := g, rb_stats := rpcbs_set (vers - 2) ans (rb_stats s)\<rparr>))"

definition rpcbproc_unset_com :: "env \<Rightarrow> config \<Rightarrow> svcxprt \<Rightarrow> 32 word \<Rightarrow> rpcb \<Rightarrow> rpcbind \<Rightarrow> local_result" where
  "rpcbproc_unset_com E cfg xprt vers regp s =
     (let (ans, g) = map_unset regp (Some (getowner cfg xprt)) (rb_reg s) in
      Some (Some (R_bool ans), s\<lparr>rb_reg := g, rb_stats := rpcbs_unset (vers - 2) ans (rb_stats s)\<rparr>))"

text \<open>\<open>allvers\<close> is \<open>verstype == RPCB_ALLVERS\<close>.\<close>

definition rpcbproc_getaddr_com :: "env \<Rightarrow> svcxprt \<Rightarrow> 32 word \<Rightarrow> bool \<Rightarrow> rpcb \<Rightarrow> rpcbind \<Rightarrow> local_result" where
  "rpcbproc_getaddr_com E xprt vers allvers regp s = do {
     let netid = xp_netid xprt;
     (uaddr, g) \<leftarrow> (case find_service (list_rbl (rb_reg s)) (r_prog regp, netid) (r_vers regp) of
         None \<Rightarrow> Some (Some [], rb_reg s)
       | Some fnd \<Rightarrow>
           if allvers \<or> r_vers regp = r_vers fnd then
             (case mergeaddr E s xprt netid (r_addr fnd) (if r_addr regp \<noteq> [] then Some (r_addr regp) else None) of
                None \<Rightarrow> Some (if strdup_ok (allocs E) then Some (r_addr fnd) else None, rb_reg s)
              | Some uaddr \<Rightarrow>
                  if uaddr = [] then do {
                    g \<leftarrow> delete_prog (probe E) (rb_fds s) (r_prog regp) (rb_reg s);
                    Some (Some [], g) }
                  else Some (Some uaddr, rb_reg s))
           else Some (Some [], rb_reg s));
     Some (Some (R_string uaddr), s\<lparr>rb_reg := g,
       rb_stats := rpcbs_getaddr (get_conf s) (stat_ok E) (vers - 2) (r_prog regp) (r_vers regp) netid uaddr (rb_stats s)\<rparr>) }"

definition rpcbproc_gettime_com :: "env \<Rightarrow> rpcbind \<Rightarrow> local_result" where
  "rpcbproc_gettime_com E s = Some (Some (R_time (now E)), s)"

definition rpcbproc_uaddr2taddr_com :: "env \<Rightarrow> svcxprt \<Rightarrow> string \<Rightarrow> rpcbind \<Rightarrow> local_result" where
  "rpcbproc_uaddr2taddr_com E xprt uaddr s =
     Some (Some (R_netbuf (if \<not> get_conf s (xp_netid xprt) then []
       else case uaddr2taddr E (xp_netid xprt) (Some uaddr) of None \<Rightarrow> [] | Some taddr \<Rightarrow> taddr)), s)"

definition rpcbproc_taddr2uaddr_com :: "env \<Rightarrow> svcxprt \<Rightarrow> byte list \<Rightarrow> rpcbind \<Rightarrow> local_result" where
  "rpcbproc_taddr2uaddr_com E xprt taddr s =
     Some (Some (R_string (Some (if \<not> get_conf s (xp_netid xprt) then []
       else case taddr2uaddr E (xp_netid xprt) taddr of None \<Rightarrow> [] | Some uaddr \<Rightarrow> uaddr))), s)"

text \<open>
  The loop of \<open>rpcbproc_getaddrlist_4_local\<close>: the entries so far and the last \<open>maddr\<close>.  The
  inner \<open>None\<close> is the exit to \<open>fail\<close>.  An address that died makes the loop delete the program
  from the list it walks; \<open>delete_prog\<close> has a result only if it deletes nothing.
\<close>

fun getaddrlist_loop :: "env \<Rightarrow> svcxprt \<Rightarrow> rpcbind \<Rightarrow> rpcb \<Rightarrow> rpcb list \<Rightarrow> rpcb_entry list \<Rightarrow> string option
    \<Rightarrow> (rpcb_entry list \<times> string option) option option" where
  "getaddrlist_loop E xprt s regp [] rlist maddr = Some (Some (rlist, maddr))"
| "getaddrlist_loop E xprt s regp (rbl # l) rlist maddr =
     (if r_prog rbl \<noteq> r_prog regp \<or> r_vers rbl \<noteq> r_vers regp then getaddrlist_loop E xprt s regp l rlist maddr
      else if \<not> get_conf s (r_netid rbl) then Some None
      else if nc_protofmly (netconf E (r_netid rbl)) \<noteq> nc_protofmly (netconf E (xp_netid xprt))
      then getaddrlist_loop E xprt s regp l rlist maddr
      else (let maddr = mergeaddr E s xprt (r_netid rbl) (r_addr rbl)
              (if r_addr regp \<noteq> [] then Some (r_addr regp) else None) in
        case maddr of
          None \<Rightarrow> getaddrlist_loop E xprt s regp l rlist maddr
        | Some a \<Rightarrow>
            if a = [] then
              (case delete_prog (probe E) (rb_fds s) (r_prog regp) (rb_reg s) of
                 None \<Rightarrow> None
               | Some _ \<Rightarrow> getaddrlist_loop E xprt s regp l rlist maddr)
            else if \<not> entry_ok E then Some None
            else getaddrlist_loop E xprt s regp l (rlist @ [\<lparr>r_maddr = a, r_nc_netid = r_netid rbl,
              r_nc_semantics = nc_semantics (netconf E (r_netid rbl)),
              r_nc_protofmly = nc_protofmly (netconf E (r_netid rbl)),
              r_nc_proto = nc_proto (netconf E (r_netid rbl))\<rparr>]) maddr))"

definition rpcbproc_getaddrlist_4_local :: "env \<Rightarrow> svcxprt \<Rightarrow> rpcb \<Rightarrow> rpcbind \<Rightarrow> local_result" where
  "rpcbproc_getaddrlist_4_local E xprt regp s =
     (if \<not> get_conf s (xp_netid xprt) then Some (None, s)
      else do {
        r \<leftarrow> getaddrlist_loop E xprt s regp (list_rbl (rb_reg s)) [] None;
        case r of
          None \<Rightarrow> Some (None, s)
        | Some (rlist, maddr) \<Rightarrow> Some (Some (R_entries rlist), s\<lparr>rb_stats :=
            rpcbs_getaddr (get_conf s) (stat_ok E) (RPCBVERS4 - 2) (r_prog regp) (r_vers regp) (xp_netid xprt)
              maddr (rb_stats s)\<rparr>) })"

section \<open>Dispatch of versions 3 and 4\<close>

text \<open>
  The common part: the arguments, the access check, the procedure and its reply.  Where the
  reply cannot be sent, a string that is null among them, a system error is.
\<close>

definition dispatch_local :: "env \<Rightarrow> config \<Rightarrow> svcxprt \<Rightarrow> 32 word \<Rightarrow> 'a option \<Rightarrow> ('a \<Rightarrow> rpcbind \<Rightarrow> local_result)
    \<Rightarrow> rpcbind \<Rightarrow> outcome" where
  "dispatch_local E cfg xprt proc argument local s = (case argument of
     None \<Rightarrow> Some ([E_decode], [], s)
   | Some argument \<Rightarrow>
       if \<not> check_access E cfg xprt proc then Some ([E_weakauth], [], s)
       else do {
         (result, s) \<leftarrow> local argument s;
         Some (case result of
             None \<Rightarrow> []
           | Some r \<Rightarrow> if sendreply_ok E \<and> r \<noteq> R_string None then [r] else [E_systemerr], [], s) })"

definition void_arg :: "svc_req \<Rightarrow> unit option" where
  "void_arg rqstp = (if as_void rqstp then Some () else None)"

definition rpcb_service_3 :: "env \<Rightarrow> config \<Rightarrow> callit \<Rightarrow> svc_req \<Rightarrow> svcxprt \<Rightarrow> rpcbind \<Rightarrow> outcome" where
  "rpcb_service_3 E cfg C rqstp xprt s =
     (let proc = rq_proc rqstp; s = s\<lparr>rb_stats := rpcbs_procinfo RPCBVERS_3_STAT proc (rb_stats s)\<rparr> in
      if proc = 0 then Some (reply_2 E R_void, [], s)
      else if proc = 1 then dispatch_local E cfg xprt proc (as_rpcb rqstp) (rpcbproc_set_com E cfg xprt RPCBVERS) s
      else if proc = 2 then dispatch_local E cfg xprt proc (as_rpcb rqstp) (rpcbproc_unset_com E cfg xprt RPCBVERS) s
      else if proc = 3 then dispatch_local E cfg xprt proc (as_rpcb rqstp) (rpcbproc_getaddr_com E xprt RPCBVERS True) s
      else if proc = 4 then dispatch_local E cfg xprt proc (void_arg rqstp) (\<lambda>_ s. Some (Some (R_rbl (list_rbl (rb_reg s))), s)) s
      else if proc = 5 then C proc RPCBVERS s
      else if proc = 6 then dispatch_local E cfg xprt proc (void_arg rqstp) (\<lambda>_. rpcbproc_gettime_com E) s
      else if proc = 7 then dispatch_local E cfg xprt proc (as_string rqstp) (rpcbproc_uaddr2taddr_com E xprt) s
      else if proc = 8 then dispatch_local E cfg xprt proc (as_netbuf rqstp) (rpcbproc_taddr2uaddr_com E xprt) s
      else Some ([E_noproc], [], s))"

definition rpcb_service_4 :: "env \<Rightarrow> config \<Rightarrow> callit \<Rightarrow> svc_req \<Rightarrow> svcxprt \<Rightarrow> rpcbind \<Rightarrow> outcome" where
  "rpcb_service_4 E cfg C rqstp xprt s =
     (let proc = rq_proc rqstp; s = s\<lparr>rb_stats := rpcbs_procinfo RPCBVERS_4_STAT proc (rb_stats s)\<rparr> in
      if proc = 0 then Some (reply_2 E R_void, [], s)
      else if proc = 1 then dispatch_local E cfg xprt proc (as_rpcb rqstp) (rpcbproc_set_com E cfg xprt RPCBVERS4) s
      else if proc = 2 then dispatch_local E cfg xprt proc (as_rpcb rqstp) (rpcbproc_unset_com E cfg xprt RPCBVERS4) s
      else if proc = 3 then dispatch_local E cfg xprt proc (as_rpcb rqstp) (rpcbproc_getaddr_com E xprt RPCBVERS4 True) s
      else if proc = 9 then dispatch_local E cfg xprt proc (as_rpcb rqstp) (rpcbproc_getaddr_com E xprt RPCBVERS4 False) s
      else if proc = 4 then dispatch_local E cfg xprt proc (void_arg rqstp) (\<lambda>_ s. Some (Some (R_rbl (list_rbl (rb_reg s))), s)) s
      else if proc = 10 \<or> proc = 5 then C proc RPCBVERS4 s
      else if proc = 6 then dispatch_local E cfg xprt proc (void_arg rqstp) (\<lambda>_. rpcbproc_gettime_com E) s
      else if proc = 7 then dispatch_local E cfg xprt proc (as_string rqstp) (rpcbproc_uaddr2taddr_com E xprt) s
      else if proc = 8 then dispatch_local E cfg xprt proc (as_netbuf rqstp) (rpcbproc_taddr2uaddr_com E xprt) s
      else if proc = 11 then dispatch_local E cfg xprt proc (as_rpcb rqstp) (rpcbproc_getaddrlist_4_local E xprt) s
      else if proc = 12 then dispatch_local E cfg xprt proc (void_arg rqstp) (\<lambda>_ s. Some (Some (R_stat (rb_stats s)), s)) s
      else Some ([E_noproc], [], s))"

section \<open>The services as requests to the registry\<close>

text \<open>
  The services of the process, with the call forwarding as it is.  Only a caller on this host may
  change the registry, unless the process runs insecurely.
\<close>

definition rpcbind_service :: "env \<Rightarrow> config \<Rightarrow> mem \<Rightarrow> addr \<Rightarrow> (memstrm, unit) trpc_msg \<Rightarrow> 32 word
    \<Rightarrow> svc_req \<Rightarrow> svcxprt \<Rightarrow> rpcbind \<Rightarrow> outcome" where
  "rpcbind_service E cfg m outbuf msg0 vers rqstp xprt s =
     (let C = rpcbproc_callit_com E cfg m outbuf msg0 rqstp xprt in
      if vers = PMAPVERS then pmap_service E cfg C rqstp xprt s
      else if vers = RPCBVERS then rpcb_service_3 E cfg C rqstp xprt s
      else if vers = RPCBVERS4 then rpcb_service_4 E cfg C rqstp xprt s
      else None)"

definition may_change :: "config \<Rightarrow> svcxprt \<Rightarrow> bool" where
  "may_change cfg xprt \<longleftrightarrow> insecure cfg \<or> is_loopback cfg (xp_caller xprt)"

definition by_caller :: "config \<Rightarrow> svcxprt \<Rightarrow> request \<Rightarrow> bool" where
  "by_caller cfg xprt q \<longleftrightarrow> may_change cfg xprt \<and> asked_by (getowner cfg xprt) q"

text \<open>What a handler does to the state, as far as the registry goes.\<close>

definition handled :: "config \<Rightarrow> svcxprt \<Rightarrow> rpcbind \<Rightarrow> rpcbind \<Rightarrow> bool" where
  "handled cfg xprt s s' \<longleftrightarrow> rb_fds s' = rb_fds s \<and> served (by_caller cfg xprt) (rb_reg s) (rb_reg s')"

lemma handled_same [intro]:
  "rb_fds s' = rb_fds s \<Longrightarrow> rb_reg s' = rb_reg s \<Longrightarrow> handled cfg xprt s s'"
  by (simp add: handled_def served.start)

lemma handled_refl [simp]: "handled cfg xprt s s"
  by (simp add: handled_def served.start)

lemma handled_stats [simp]:
  "handled cfg xprt (s\<lparr>rb_stats := x\<rparr>) s' = handled cfg xprt s s'"
  "handled cfg xprt s (s'\<lparr>rb_stats := x\<rparr>) = handled cfg xprt s s'"
  by (simp_all add: handled_def)

lemma may_change_access:
  "proc \<in> {1, 2} \<Longrightarrow> check_access E cfg xprt proc \<Longrightarrow> may_change cfg xprt"
  by (auto simp: check_access_def may_change_def RPCBPROC_SET_def RPCBPROC_UNSET_def split: if_splits)

lemma served_one: "A q \<Longrightarrow> served A g (serve q g)"
  by (rule served.request [OF served.start])

lemma served_set:
  "may_change cfg xprt \<Longrightarrow> owner = getowner cfg xprt \<Longrightarrow> served (by_caller cfg xprt) g (snd (map_set al regp owner g))"
  using served_one [of "by_caller cfg xprt" "Set_req al regp owner" g] by (simp add: by_caller_def asked_by_def)

lemma served_unset:
  "may_change cfg xprt \<Longrightarrow> owner = getowner cfg xprt \<Longrightarrow> served (by_caller cfg xprt) g (snd (map_unset regp (Some owner) g))"
  using served_one [of "by_caller cfg xprt" "Unset_req regp (Some owner)" g] by (simp add: by_caller_def asked_by_def)

lemma served_trans: "served A h k \<Longrightarrow> served A g h \<Longrightarrow> served A g k"
  by (induction rule: served.induct) (auto intro: served.request)

lemma delete_prog_transports:
  "(\<And>netid uaddr. is_bound pr fds netid uaddr) \<Longrightarrow> delete_prog pr fds prog g = Some g"
  by (simp add: delete_prog_def delete_prog_loop_bound)

lemma pmapproc_change_handled:
  assumes "pmapproc_change E cfg rqstp xprt op s = Some (rs, ds, s')" and "op \<in> {1, 2}"
  shows "handled cfg xprt s s'"
proof (cases "as_pmap rqstp")
  case None
  then show ?thesis using assms by (auto simp: pmapproc_change_def)
next
  case (Some reg)
  show ?thesis
  proof (cases "check_access E cfg xprt op")
    case False
    then show ?thesis using assms Some by (auto simp: pmapproc_change_def)
  next
    case True
    with assms(2) have may: "may_change cfg xprt" by (rule may_change_access)
    have set: "served (by_caller cfg xprt) g (snd (pmap_set al reg (getowner cfg xprt) g))" for al g
      using may by (auto simp: pmap_set_def served.start served_set split: option.splits)
    have unset: "served (by_caller cfg xprt) g (snd (pmap_unset reg (getowner cfg xprt) g))" for g
      using may by (auto simp: pmap_unset_def Let_def case_prod_unfold intro: served_trans served_unset)
    show ?thesis using assms Some True set unset
      by (auto simp: pmapproc_change_def handled_def Let_def case_prod_unfold served.start split: if_splits)
  qed
qed

lemma dispatch_local_handled:
  assumes "dispatch_local E cfg xprt proc argument local s = Some (rs, ds, s')"
    and "\<And>a r t. check_access E cfg xprt proc \<Longrightarrow> local a s = Some (r, t) \<Longrightarrow> handled cfg xprt s t"
  shows "handled cfg xprt s s'"
  using assms by (auto simp: dispatch_local_def bind_eq_Some_conv split: option.splits if_splits)

definition all_bound :: "env \<Rightarrow> rpcbind \<Rightarrow> bool" where
  "all_bound E s \<longleftrightarrow> (\<forall>netid uaddr. is_bound (probe E) (rb_fds s) netid uaddr)"

lemma all_bound_transports: "rb_fds s = transports calls \<Longrightarrow> all_bound E s"
  by (simp add: all_bound_def is_bound_transports)

lemma all_bound_stats [simp]: "all_bound E (s\<lparr>rb_stats := x\<rparr>) = all_bound E s"
  by (simp add: all_bound_def)

lemma getport_handled:
  assumes "pmapproc_getport E cfg rqstp xprt s = Some (rs, ds, s')" and "all_bound E s"
  shows "handled cfg xprt s s'"
  using assms by (auto simp: pmapproc_getport_def Let_def all_bound_def split: option.splits if_splits)

lemma getaddr_handled:
  assumes "rpcbproc_getaddr_com E xprt vers allvers regp s = Some (r, s')" and "all_bound E s"
  shows "handled cfg xprt s s'"
proof -
  have "delete_prog (probe E) (rb_fds s) prog g = Some g" for prog g
    using assms(2) by (simp add: all_bound_def delete_prog_transports)
  then show ?thesis using assms(1)
    by (auto simp: rpcbproc_getaddr_com_def Let_def bind_eq_Some_conv split: option.splits if_splits)
qed

lemma getaddrlist_handled:
  "rpcbproc_getaddrlist_4_local E xprt regp s = Some (r, s') \<Longrightarrow> handled cfg xprt s s'"
  by (auto simp: rpcbproc_getaddrlist_4_local_def bind_eq_Some_conv split: option.splits if_splits prod.splits)

lemma local_handled:
  "may_change cfg xprt \<Longrightarrow> rpcbproc_set_com E cfg xprt vers regp s = Some (r, t) \<Longrightarrow> handled cfg xprt s t"
  "may_change cfg xprt \<Longrightarrow> rpcbproc_unset_com E cfg xprt vers regp s = Some (r, t) \<Longrightarrow> handled cfg xprt s t"
  "rpcbproc_gettime_com E s = Some (r, t) \<Longrightarrow> handled cfg xprt s t"
  "rpcbproc_uaddr2taddr_com E xprt u s = Some (r, t) \<Longrightarrow> handled cfg xprt s t"
  "rpcbproc_taddr2uaddr_com E xprt b s = Some (r, t) \<Longrightarrow> handled cfg xprt s t"
  by (auto simp: rpcbproc_set_com_def rpcbproc_unset_com_def rpcbproc_gettime_com_def
      rpcbproc_uaddr2taddr_com_def rpcbproc_taddr2uaddr_com_def case_prod_unfold Let_def handled_def served.start
      intro: served_set served_unset)

lemma callit_handled:
  "rpcbproc_callit_com E cfg m outbuf msg0 rqstp xprt rtype vers s = Some (rs, ds, s') \<Longrightarrow> handled cfg xprt s s'"
  by (drule callit_state) (auto simp: call_step_def)

lemma dispatched_set:
  "dispatch_local E cfg xprt 1 arg (rpcbproc_set_com E cfg xprt v) s = Some (rs, ds, s') \<Longrightarrow> handled cfg xprt s s'"
  by (erule dispatch_local_handled) (rule local_handled(1), auto intro: may_change_access [of 1])

lemma dispatched_unset:
  "dispatch_local E cfg xprt 2 arg (rpcbproc_unset_com E cfg xprt v) s = Some (rs, ds, s') \<Longrightarrow> handled cfg xprt s s'"
  by (erule dispatch_local_handled) (rule local_handled(2), auto intro: may_change_access [of 2])

lemma dispatched_getaddr:
  "dispatch_local E cfg xprt proc arg (rpcbproc_getaddr_com E xprt v allvers) s = Some (rs, ds, s')
    \<Longrightarrow> all_bound E s \<Longrightarrow> handled cfg xprt s s'"
  by (erule dispatch_local_handled) (rule getaddr_handled)

lemma dispatched_getaddrlist:
  "dispatch_local E cfg xprt proc arg (rpcbproc_getaddrlist_4_local E xprt) s = Some (rs, ds, s')
    \<Longrightarrow> handled cfg xprt s s'"
  by (erule dispatch_local_handled) (rule getaddrlist_handled)

lemma dispatched_other:
  "dispatch_local E cfg xprt proc arg (\<lambda>_. rpcbproc_gettime_com E) s = Some (rs, ds, s') \<Longrightarrow> handled cfg xprt s s'"
  "dispatch_local E cfg xprt proc arg' (rpcbproc_uaddr2taddr_com E xprt) s = Some (rs, ds, s') \<Longrightarrow> handled cfg xprt s s'"
  "dispatch_local E cfg xprt proc arg'' (rpcbproc_taddr2uaddr_com E xprt) s = Some (rs, ds, s') \<Longrightarrow> handled cfg xprt s s'"
  "dispatch_local E cfg xprt proc arg (\<lambda>_ s. Some (R s, s)) s = Some (rs, ds, s') \<Longrightarrow> handled cfg xprt s s'"
  by (erule dispatch_local_handled; auto intro: local_handled(3-))+

lemmas dispatched = dispatched_set dispatched_unset dispatched_getaddr dispatched_getaddrlist dispatched_other

lemma pmap_service_handled:
  assumes "pmap_service E cfg (rpcbproc_callit_com E cfg m outbuf msg0 rqstp xprt) rqstp xprt s = Some (rs, ds, s')"
    and "all_bound E s"
  shows "handled cfg xprt s s'"
proof -
  let ?s = "s\<lparr>rb_stats := rpcbs_procinfo RPCBVERS_2_STAT (rq_proc rqstp) (rb_stats s)\<rparr>"
  have "handled cfg xprt ?s s'"
    using assms
    by (auto simp: pmap_service_def Let_def pmapproc_dump_def split: if_splits
        dest: pmapproc_change_handled getport_handled callit_handled)
  then show ?thesis by simp
qed

lemma rpcb_service_3_handled:
  assumes "rpcb_service_3 E cfg (rpcbproc_callit_com E cfg m outbuf msg0 rqstp xprt) rqstp xprt s = Some (rs, ds, s')"
    and "all_bound E s"
  shows "handled cfg xprt s s'"
  using assms unfolding rpcb_service_3_def Let_def
  by (auto split: if_splits dest: dispatched callit_handled)

lemma rpcb_service_4_handled:
  assumes "rpcb_service_4 E cfg (rpcbproc_callit_com E cfg m outbuf msg0 rqstp xprt) rqstp xprt s = Some (rs, ds, s')"
    and "all_bound E s"
  shows "handled cfg xprt s s'"
  using assms unfolding rpcb_service_4_def Let_def
  by (auto split: if_splits dest: dispatched callit_handled)

lemma rpcbind_service_handled:
  assumes "rpcbind_service E cfg m outbuf msg0 vers rqstp xprt s = Some (rs, ds, s')" and "all_bound E s"
  shows "handled cfg xprt s s'"
  using assms
  by (auto simp: rpcbind_service_def Let_def pmap_service_handled rpcb_service_3_handled rpcb_service_4_handled
      split: if_splits)

section \<open>Ports in universal addresses\<close>

lemma isdigit_char_of: "(n :: nat) < 10 \<Longrightarrow> isdigit (char_of (48 + n))"
  by (simp add: isdigit_def Let_def)

lemma decimal_isdigit: "\<forall>c \<in> set (decimal n). isdigit c"
  by (induction n rule: decimal.induct) (subst decimal.simps, simp add: isdigit_char_of)

lemma decimal_nonempty: "decimal n \<noteq> []"
  by (subst decimal.simps) simp

lemma digits_append: "\<forall>c \<in> set s. isdigit c \<Longrightarrow> digits acc (s @ t) = digits (digits acc s) t"
  by (induction s arbitrary: acc) auto

lemma digits_decimal: "digits 0 (decimal n) = n"
proof (induction n rule: decimal.induct)
  case (1 n)
  show ?case
  proof (cases "n < 10")
    case True
    then show ?thesis by (subst decimal.simps) (simp add: isdigit_char_of)
  next
    case False
    have d: "isdigit (char_of (48 + n mod 10))" by (simp add: isdigit_char_of)
    have "decimal n = decimal (n div 10) @ [char_of (48 + n mod 10)]"
      using False by (subst decimal.simps) simp
    then show ?thesis using 1 [OF False] decimal_isdigit [of "n div 10"] d
      by (simp add: digits_append)
  qed
qed

lemma atoi_decimal: "n < 2 ^ 31 \<Longrightarrow> atoi (decimal n) = of_nat n"
proof -
  assume n: "n < 2 ^ 31"
  obtain c s where cs: "decimal n = c # s" using decimal_nonempty by (cases "decimal n") auto
  then have "isdigit c" using decimal_isdigit [of n] by simp
  then have c: "\<not> isspace c" "c \<noteq> CHR ''-''" "c \<noteq> CHR ''+''"
    by (auto simp: isdigit_def isspace_def Let_def)
  have "digits 0 (c # s) = n" using digits_decimal [of n] by (simp add: cs)
  then show ?thesis using n c
    unfolding atoi_def cs Let_def by (simp del: digits.simps)
qed

lemma strrchr_last: "c \<notin> set t \<Longrightarrow> strrchr (s @ c # t) c = Some (s, t)"
proof -
  assume t: "c \<notin> set t"
  then have "takeWhile (\<lambda>d. d \<noteq> c) (rev (s @ c # t)) = rev t"
    by (simp, subst takeWhile_append2, auto)
  then show ?thesis by (simp add: strrchr_def Let_def)
qed

lemma decimal_no_dot: "CHR ''.'' \<notin> set (decimal n)"
proof
  assume "CHR ''.'' \<in> set (decimal n)"
  then have "isdigit CHR ''.''" using decimal_isdigit by blast
  then show False by (simp add: isdigit_def)
qed

lemma unat_and_ff: "unat (w AND 0xff :: 64 word) = unat w mod 256"
proof -
  have "(0xff :: 64 word) = mask 8" by (simp add: mask_eq_exp_minus_1)
  then have "w AND 0xff = take_bit 8 w" by (simp add: take_bit_eq_mask)
  then show ?thesis by (simp add: unsigned_take_bit_eq take_bit_nat_def)
qed

lemma unat_and_ffff: "unat (w AND 0xffff :: 64 word) = unat w mod 65536"
proof -
  have "(0xffff :: 64 word) = mask 16" by (simp add: mask_eq_exp_minus_1)
  then have "w AND 0xffff = take_bit 16 w" by (simp add: take_bit_eq_mask)
  then show ?thesis by (simp add: unsigned_take_bit_eq take_bit_nat_def)
qed

lemma unat_drop_8: "unat (drop_bit 8 w :: 64 word) = unat w div 256"
proof -
  have "unat w < 2 ^ 64" using unsigned_less [of w, where 'a = nat] by simp
  then show ?thesis by (simp add: unsigned_drop_bit_eq drop_bit_nat_def take_bit_nat_eq_self)
qed

lemma scast_small: "n < 65536 \<Longrightarrow> scast (of_nat n :: 32 word) = (of_nat n :: 64 word)"
proof -
  assume n: "n < 65536"
  have "sint (of_nat n :: 32 word) = int n"
    using n by (simp add: signed_of_nat signed_take_bit_eq_if_positive bit_nat_iff bit_iff_odd take_bit_int_def)
  then show ?thesis by (simp add: scast_eq)
qed

lemma uaddr2port_port_addr: "uaddr2port (port_addr host port) = Some (port AND 0xffff)"
proof -
  let ?h = "unat (drop_bit 8 port AND 0xff)" and ?l = "unat (port AND 0xff)"
  have lt: "?h < 256" "?l < 256" by (simp_all add: unat_and_ff)
  have "strrchr (port_addr host port) CHR ''.'' = Some (host @ ''.'' @ decimal ?h, decimal ?l)"
    using strrchr_last [OF decimal_no_dot [of ?l], of "host @ ''.'' @ decimal ?h"] by (simp add: port_addr_def)
  moreover have "strrchr (host @ ''.'' @ decimal ?h) CHR ''.'' = Some (host, decimal ?h)"
    using strrchr_last [OF decimal_no_dot [of ?h], of host] by simp
  ultimately have "uaddr2port (port_addr host port) = Some (scast (atoi (decimal ?h) * 256 + atoi (decimal ?l)))"
    by (simp add: uaddr2port_def)
  also have "atoi (decimal ?h) * 256 + atoi (decimal ?l) = of_nat (?h * 256 + ?l)"
    using lt by (simp add: atoi_decimal)
  also have "scast (of_nat (?h * 256 + ?l) :: 32 word) = (of_nat (?h * 256 + ?l) :: 64 word)"
    using lt by (intro scast_small) simp
  also have "(of_nat (?h * 256 + ?l) :: 64 word) = port AND 0xffff"
  proof -
    have "?h * 256 + ?l = unat port mod 65536"
      using mod_mult2_eq [of "unat port" 256 256] by (simp add: unat_and_ff unat_drop_8)
    then have "?h * 256 + ?l = unat (port AND 0xffff)" by (simp add: unat_and_ffff)
    then show ?thesis by simp
  qed
  finally show ?thesis .
qed

section \<open>Properties\<close>

text \<open>
  C8: Whatever the process serves, in whichever version, acts on the registry as a run of
  \<open>map_set\<close> and \<open>map_unset\<close> requests in the name of the caller, an empty run if the caller
  may not change the registry; so everything that holds of such runs holds of the services.
  The transports must be those that \<open>add_bndlist\<close> installs.
\<close>

theorem services_serve_requests:
  assumes "rpcbind_service E cfg m outbuf msg0 vers rqstp xprt s = Some (rs, ds, s')"
    and "rb_fds s = transports calls"
  shows "rb_fds s' = rb_fds s
    \<and> served (\<lambda>q. may_change cfg xprt \<and> asked_by (getowner cfg xprt) q) (rb_reg s) (rb_reg s')"
  using rpcbind_service_handled [OF assms(1) all_bound_transports [OF assms(2)]]
  by (simp add: handled_def by_caller_def [abs_def])

definition set_request :: svc_req where
  "set_request = a_request\<lparr>rq_proc := 1, as_rpcb := Some nfs_tcp, as_pmap := Some
     \<lparr>pm_prog = 100003, pm_vers = 3, pm_prot = 6, pm_port = 2049\<rparr>\<rparr>"

definition start_rpcbind :: rpcbind where
  "start_rpcbind = an_rpcbind\<lparr>rb_reg := empty_registry, rb_fds := transports [(Some ''tcp'', True), (Some ''udp'', True)]\<rparr>"

definition local_caller :: svcxprt where
  "local_caller = a_caller\<lparr>xp_netid := ''tcp'', xp_caller := Slocal, xp_uid := Some 1000\<rparr>"

text \<open>SET and UNSET return whoever calls them.\<close>

lemma set_returns:
  "as_rpcb rqstp = Some regp \<Longrightarrow> rq_proc rqstp \<in> {1, 2} \<Longrightarrow>
    \<exists>rs ds s'. rpcbind_service E cfg m outbuf msg0 3 rqstp xprt s = Some (rs, ds, s')"
  by (auto simp: rpcbind_service_def Let_def PMAPVERS_def RPCBVERS_def rpcb_service_3_def dispatch_local_def
      rpcbproc_set_com_def rpcbproc_unset_com_def case_prod_unfold)

lemma services_serve_requests_witness:
  "\<exists>rs ds s'. rpcbind_service an_env a_config (\<lambda>_. 0) 4 (void_reply 0) 3 set_request local_caller start_rpcbind
      = Some (rs, ds, s') \<and> rb_fds s' = rb_fds start_rpcbind"
proof -
  obtain rs ds s' where r: "rpcbind_service an_env a_config (\<lambda>_. 0) 4 (void_reply 0) 3 set_request local_caller start_rpcbind
      = Some (rs, ds, s')"
    by (atomize_elim, rule set_returns [of _ nfs_tcp]) (simp_all add: set_request_def)
  from services_serve_requests [OF r, of "[(Some ''tcp'', True), (Some ''udp'', True)]"] r
  show ?thesis by (auto simp: start_rpcbind_def)
qed

text \<open>
  C29: A caller on another host cannot change the registry, whatever procedure of whatever
  version it calls and whatever it claims in its credentials, unless the process was started
  insecurely.
\<close>

theorem remote_keeps_registry:
  assumes "rpcbind_service E cfg m outbuf msg0 vers rqstp xprt s = Some (rs, ds, s')"
    and "rb_fds s = transports calls"
    and "\<not> insecure cfg" and "\<not> is_loopback cfg (xp_caller xprt)"
  shows "rb_reg s' = rb_reg s"
proof -
  have "served (by_caller cfg xprt) (rb_reg s) (rb_reg s')"
    using rpcbind_service_handled [OF assms(1) all_bound_transports [OF assms(2)]] by (simp add: handled_def)
  then have "rb_reg s' = rb_reg s \<or> may_change cfg xprt"
    by (induction rule: served.induct) (auto simp: by_caller_def)
  then show ?thesis using assms(3,4) by (simp add: may_change_def)
qed

lemma remote_keeps_registry_witness:
  "\<exists>rs ds s'. rpcbind_service an_env a_config (\<lambda>_. 0) 4 (void_reply 0) 3 set_request a_caller start_rpcbind
      = Some (rs, ds, s') \<and> rb_reg s' = empty_registry"
proof -
  obtain rs ds s' where r: "rpcbind_service an_env a_config (\<lambda>_. 0) 4 (void_reply 0) 3 set_request a_caller start_rpcbind
      = Some (rs, ds, s')"
    by (atomize_elim, rule set_returns [of _ nfs_tcp]) (simp_all add: set_request_def)
  from remote_keeps_registry [OF r, of "[(Some ''tcp'', True), (Some ''udp'', True)]"] r
  show ?thesis by (auto simp: start_rpcbind_def a_config_def a_caller_def is_loopback_def)
qed

text \<open>
  C11: A service that one user has registered stays registered, with its address, whatever
  calls another user makes, the superuser excepted: no call of any version removes or alters
  an entry whose owner is not the caller.
\<close>

theorem service_owner_safe:
  assumes "rpcbind_service E cfg m outbuf msg0 vers rqstp xprt s = Some (rs, ds, s')"
    and "rb_fds s = transports calls"
    and "getowner cfg xprt \<noteq> ''superuser''"
    and "r \<in> set (list_rbl (rb_reg s))" and "r_owner r \<noteq> getowner cfg xprt"
  shows "r \<in> set (list_rbl (rb_reg s'))"
proof -
  have "served (by_caller cfg xprt) (rb_reg s) (rb_reg s')"
    using rpcbind_service_handled [OF assms(1) all_bound_transports [OF assms(2)]] by (simp add: handled_def)
  then show ?thesis
    by (rule served_induct_inv) (use assms(3-5) in \<open>auto simp: by_caller_def serve_foreign\<close>)
qed

lemma service_owner_safe_witness:
  "\<exists>rs ds s'. rpcbind_service an_env a_config (\<lambda>_. 0) 4 (void_reply 0) 3 (set_request\<lparr>rq_proc := 2\<rparr>)
      (local_caller\<lparr>xp_uid := None\<rparr>) (start_rpcbind\<lparr>rb_reg := empty_registry\<lparr>list_rbl := [nfs_udp]\<rparr>\<rparr>)
      = Some (rs, ds, s') \<and> nfs_udp \<in> set (list_rbl (rb_reg s'))"
proof -
  obtain rs ds s' where r: "rpcbind_service an_env a_config (\<lambda>_. 0) 4 (void_reply 0) 3 (set_request\<lparr>rq_proc := 2\<rparr>)
      (local_caller\<lparr>xp_uid := None\<rparr>) (start_rpcbind\<lparr>rb_reg := empty_registry\<lparr>list_rbl := [nfs_udp]\<rparr>\<rparr>)
      = Some (rs, ds, s')"
    by (atomize_elim, rule set_returns [of _ nfs_tcp]) (simp_all add: set_request_def)
  from service_owner_safe [OF r, of "[(Some ''tcp'', True), (Some ''udp'', True)]" nfs_udp] r
  show ?thesis by (auto simp: start_rpcbind_def getowner_def local_caller_def is_localroot_def nfs_udp_def)
qed

text \<open>The new entry is the one both searches find.\<close>

lemma pmap_set_result:
  assumes prot: "prot = 6 \<or> prot = 17" and free: "find (\<lambda>r. key r = (prog, vers, map tolower netid)) (list_rbl g) = None"
    and netid: "pmap_ipprot2netid g (ucast prot) = Some netid" and ne: "tcptrans g \<noteq> udptrans g"
  shows "\<exists>host. pmap_set allocs_ok \<lparr>pm_prog = ucast prog, pm_vers = ucast vers, pm_prot = ucast (prot :: 32 word), pm_port = port\<rparr> owner g =
    (True, g\<lparr>list_rbl := list_rbl g @ [\<lparr>r_prog = prog, r_vers = vers, r_netid = netid, r_addr = port_addr host port, r_owner = owner\<rparr>],
      list_pml := list_pml g @ [\<lparr>pm_prog = ucast prog, pm_vers = ucast vers, pm_prot = ucast prot, pm_port = port AND 0xffff\<rparr>]\<rparr>)"
proof -
  have p: "pmap_netid2ipprot g netid = ucast prot" "ucast prot \<noteq> (0 :: 64 word)"
    using prot netid ne by (auto simp: pmap_ipprot2netid_def pmap_netid2ipprot_def IPPROTO_TCP_def IPPROTO_UDP_def)
  have k: "key \<lparr>r_prog = prog, r_vers = vers, r_netid = netid, r_addr = a, r_owner = owner\<rparr> = (prog, vers, map tolower netid)" for a
    by (simp add: key_def)
  have h: "pmap_netid2ipprot (g\<lparr>list_rbl := l\<rparr>) netid = ucast prot" for l
  proof -
    have "pmap_netid2ipprot (g\<lparr>list_rbl := l\<rparr>) netid = pmap_netid2ipprot g netid"
      by (simp add: pmap_netid2ipprot_def)
    then show ?thesis using p(1) by simp
  qed
  have uu: "ucast (ucast v :: 64 word) = v" for v :: "32 word" by simp
  show ?thesis
    using p free
    by (auto simp: pmap_set_def netid map_set_cases k map_add_def allocs_ok_def add_pmaplist_def h Let_def
        uaddr2port_port_addr uu)
qed


text \<open>With the lists in step a free key is free in both.\<close>

lemma ucast_32_64 [simp]: "(ucast (v :: 32 word) :: 64 word) = ucast w \<longleftrightarrow> v = w"
  by transfer simp

lemma pmap_of_key:
  assumes "pmap_of g r = Some p" "pml_fits (prog, prot) p" "pm_vers p = ucast vers"
    and "pmap_ipprot2netid g (ucast prot) = Some netid" and "prot = 6 \<or> prot = (17 :: 32 word)"
  shows "key r = (prog, vers, map tolower netid)"
proof -
  have p: "pm_prog p = ucast (r_prog r) \<and> pm_vers p = ucast (r_vers r) \<and> pm_prot p = pmap_netid2ipprot g (r_netid r)"
    using assms(1) by (auto simp: pmap_of_def Let_def split: if_splits)
  then have "r_prog r = prog" "r_vers r = vers" and prot: "pmap_netid2ipprot g (r_netid r) = ucast prot"
    using assms(2,3) by (simp_all add: pml_fits_def)
  moreover have "r_netid r = netid"
    using assms(5)
  proof
    assume "prot = 6"
    then show ?thesis using prot assms(4)
      by (simp add: pmap_netid2ipprot_def pmap_ipprot2netid_def IPPROTO_TCP_def IPPROTO_UDP_def split: if_splits)
  next
    assume "prot = 17"
    then show ?thesis using prot assms(4)
      by (simp add: pmap_netid2ipprot_def pmap_ipprot2netid_def IPPROTO_TCP_def IPPROTO_UDP_def split: if_splits)
  qed
  ultimately show ?thesis by (simp add: key_def)
qed

lemma pml_free:
  assumes "in_step g" and "find (\<lambda>r. key r = (prog, vers, map tolower netid)) (list_rbl g) = None"
    and "pmap_ipprot2netid g (ucast prot) = Some netid" and "prot = 6 \<or> prot = (17 :: 32 word)"
  shows "find (\<lambda>p. pml_fits (prog, prot) p \<and> pm_vers p = ucast vers) (list_pml g) = None"
  unfolding find_None_iff
proof
  assume "\<exists>p. p \<in> set (list_pml g) \<and> pml_fits (prog, prot) p \<and> pm_vers p = ucast vers"
  then obtain p where p: "p \<in> set (List.map_filter (pmap_of g) (list_rbl g))" "pml_fits (prog, prot) p" "pm_vers p = ucast vers"
    using assms(1) by (auto simp: in_step_def)
  from p(1) obtain r where "r \<in> set (list_rbl g)" "pmap_of g r = Some p"
    by (auto simp: map_filter_def)
  with pmap_of_key [OF _ p(2,3) assms(3,4)] assms(2) show False
    unfolding find_None_iff by blast
qed

lemma port_roundtrip: "(scast (ucast (port AND 0xffff :: 64 word) :: 32 word) :: 64 word) = port AND 0xffff"
proof -
  let ?n = "unat port mod 65536"
  have w: "port AND 0xffff = of_nat ?n" by (simp add: unat_and_ffff [symmetric])
  have "ucast (of_nat ?n :: 64 word) = (of_nat ?n :: 32 word)"
  proof -
    have "unat (of_nat ?n :: 64 word) = ?n" by (simp add: unat_and_ffff [symmetric])
    then show ?thesis using of_nat_unat [of "of_nat ?n :: 64 word", where 'a = "32 word"] by simp
  qed
  then show ?thesis unfolding w by (simp add: scast_small)
qed

text \<open>
  C31: What is registered through version 2 can be looked up through version 2: after a SET of
  a free program, version and transport, by a caller who may change the registry, a GETPORT
  by any caller who may ask for it is answered with the port, cut to 16 bits, although the
  entry is kept as the text of a universal address and read back from it.
\<close>

theorem pmap_set_getport:
  assumes "step_inv (rb_reg s)" and "rb_fds s = transports calls"
    and "bindings (rb_reg s) (prog, vers, map tolower netid) = None"
    and "pmap_ipprot2netid (rb_reg s) (ucast prot) = Some netid" and "prot = 6 \<or> prot = (17 :: 32 word)"
    and "allocs E = allocs_ok" and "sendreply_ok E"
    and "rq_proc req = 1" and "check_access E cfg xprt 1"
    and "as_pmap req = Some \<lparr>pm_prog = ucast prog, pm_vers = ucast vers, pm_prot = ucast prot, pm_port = port\<rparr>"
    and "rq_proc req' = 3" and "check_access E cfg xprt' 3"
    and "as_pmap req' = Some \<lparr>pm_prog = ucast prog, pm_vers = ucast vers, pm_prot = ucast prot, pm_port = port'\<rparr>"
  shows "\<exists>s' s''. pmap_service E cfg C req xprt s = Some ([R_long 1], [], s')
    \<and> pmap_service E cfg C' req' xprt' s' = Some ([R_long (port AND 0xffff)], [], s'')"
proof -
  let ?g = "rb_reg s"
  have free: "find (\<lambda>r. key r = (prog, vers, map tolower netid)) (list_rbl ?g) = None"
    using assms(3) by (simp add: bindings_find)
  have step: "in_step ?g" and ne: "tcptrans ?g \<noteq> udptrans ?g" using assms(1) by (auto simp: step_inv_def)
  let ?p = "\<lparr>pm_prog = ucast prog, pm_vers = ucast vers, pm_prot = ucast prot, pm_port = port AND 0xffff\<rparr> :: pmap"
  obtain host where set: "pmap_set allocs_ok \<lparr>pm_prog = ucast prog, pm_vers = ucast vers, pm_prot = ucast prot, pm_port = port\<rparr> (getowner cfg xprt) ?g =
      (True, ?g\<lparr>list_rbl := list_rbl ?g @ [\<lparr>r_prog = prog, r_vers = vers, r_netid = netid, r_addr = port_addr host port, r_owner = getowner cfg xprt\<rparr>],
        list_pml := list_pml ?g @ [?p]\<rparr>)"
    using pmap_set_result [OF assms(5) free assms(4) ne] by blast
  have look: "find_service_pmap (list_pml ?g @ [?p]) (prog, prot) vers = Some ?p"
    by (rule pml.look_appended [OF pml_free [OF step free assms(4,5)]]) (simp_all add: pml_fits_def)
  have uu: "ucast (ucast v :: 64 word) = v" for v :: "32 word" by simp
  have bound: "is_bound (probe E) (rb_fds s) nid a" for nid a by (simp add: assms(2) is_bound_transports)
  have net: "pmap_ipprot2netid (?g\<lparr>list_rbl := l, list_pml := l'\<rparr>) (ucast prot) = Some netid" for l l'
  proof -
    have "pmap_ipprot2netid (?g\<lparr>list_rbl := l, list_pml := l'\<rparr>) (ucast prot) = pmap_ipprot2netid ?g (ucast prot)"
      by (simp add: pmap_ipprot2netid_def)
    then show ?thesis using assms(4) by simp
  qed
  show ?thesis
    using assms(6-) set look bound net
    by (simp add: pmap_service_def pmapproc_change_def pmapproc_getport_def reply_2_def Let_def
        RPCBPROC_SET_def uu port_roundtrip)
qed


lemma pmap_set_getport_witness:
  "\<exists>s' s''. pmap_service an_env a_config (\<lambda>_ _ _. None) set_request local_caller start_rpcbind = Some ([R_long 1], [], s')
    \<and> pmap_service an_env a_config (\<lambda>_ _ _. None) (set_request\<lparr>rq_proc := 3\<rparr>) a_caller s' = Some ([R_long 2049], [], s'')"
proof -
  have "step_inv (rb_reg start_rpcbind)"
    by (simp add: step_inv_def registry_inv_def in_step_def start_rpcbind_def empty_registry_def map_filter_simps)
  from pmap_set_getport [OF this, of "[(Some ''tcp'', True), (Some ''udp'', True)]" 100003 3 "''tcp''" 6 an_env
      set_request a_config local_caller 2049 "set_request\<lparr>rq_proc := 3\<rparr>" a_caller 2049]
  show ?thesis
    by (simp add: start_rpcbind_def empty_registry_def bindings_def pmap_ipprot2netid_def IPPROTO_TCP_def
        IPPROTO_UDP_def an_env_def set_request_def check_access_def is_loopback_def local_caller_def a_caller_def
        RPCBPROC_SET_def RPCBPROC_UNSET_def)
qed

text \<open>The entry that SET adds, what a lookup in the caller's own version finds, and UNSET.\<close>

lemma set_com_free:
  assumes "key regp \<notin> key ` set (list_rbl (rb_reg s))" and "allocs E = allocs_ok"
  shows "\<exists>t. rpcbproc_set_com E cfg xprt v regp s = Some (Some (R_bool True), t)
    \<and> list_rbl (rb_reg t) = list_rbl (rb_reg s) @ [regp\<lparr>r_owner := getowner cfg xprt\<rparr>] \<and> rb_fds t = rb_fds s"
proof -
  have "map_set allocs_ok regp (getowner cfg xprt) (rb_reg s) = map_add allocs_ok regp (getowner cfg xprt) (rb_reg s)"
    using assms(1) by (simp add: map_set_cases find_key_None [THEN iffD2])
  then show ?thesis
    by (simp add: rpcbproc_set_com_def map_add_def allocs_ok_def assms(2) Let_def)
qed

lemma mergeaddr_fds: "rb_fds t = rb_fds s \<Longrightarrow> mergeaddr E t = mergeaddr E s"
  by (simp add: mergeaddr_def fun_eq_iff)

lemma getversaddr_found:
  assumes "find_service (list_rbl (rb_reg s)) (r_prog q, xp_netid xprt) (r_vers q) = Some r" and "r_vers r = r_vers q"
    and "mergeaddr E s xprt (xp_netid xprt) (r_addr r) (if r_addr q \<noteq> [] then Some (r_addr q) else None) = Some uaddr"
    and "uaddr \<noteq> []"
  shows "\<exists>t. rpcbproc_getaddr_com E xprt v allvers q s = Some (Some (R_string (Some uaddr)), t)
    \<and> rb_reg t = rb_reg s \<and> rb_fds t = rb_fds s"
  using assms by (simp add: rpcbproc_getaddr_com_def Let_def)

lemma getversaddr_missing:
  assumes "\<forall>r \<in> set (list_rbl (rb_reg s)). key r \<noteq> (r_prog q, r_vers q, map tolower (xp_netid xprt))"
  shows "\<exists>t. rpcbproc_getaddr_com E xprt v False q s = Some (Some (R_string (Some [])), t)"
proof (cases "find_service (list_rbl (rb_reg s)) (r_prog q, xp_netid xprt) (r_vers q)")
  case None
  then show ?thesis by (simp add: rpcbproc_getaddr_com_def Let_def)
next
  case (Some r)
  from rbl.look_SomeD [OF this] assms have "r_vers q \<noteq> r_vers r"
    by (auto simp: key_def rbl_fits_def strcasecmp_def)
  then show ?thesis using Some by (simp add: rpcbproc_getaddr_com_def Let_def)
qed

lemma unset_com_own:
  assumes "registry_inv (rb_reg s)" and "list_rbl (rb_reg s) = l @ [regp\<lparr>r_owner := getowner cfg xprt\<rparr>]"
    and "r_netid regp \<noteq> []"
  shows "\<exists>t. rpcbproc_unset_com E cfg xprt v regp s = Some (Some (R_bool True), t)
    \<and> list_rbl (rb_reg t) = l \<and> rb_fds t = rb_fds s"
proof -
  have d: "key regp \<notin> key ` set l" using assms(1,2) by (auto simp: registry_inv_def)
  then have "find (\<lambda>r. key r = key regp) (list_rbl (rb_reg s)) = Some (regp\<lparr>r_owner := getowner cfg xprt\<rparr>)"
    by (simp add: assms(2) find_append_one find_key_None [THEN iffD2])
  moreover have "key r \<noteq> key regp" if "r \<in> set l" for r using d that by (metis imageI)
  then have "filter (\<lambda>r. key r \<noteq> key regp) (list_rbl (rb_reg s)) = l"
    by (simp add: assms(2) filter_id_conv)
  ultimately show ?thesis
    by (simp add: rpcbproc_unset_com_def map_unset_one [OF assms(1,3)] Let_def)
qed

lemma dispatch_sent:
  "argument = Some a \<Longrightarrow> check_access E cfg xprt proc \<Longrightarrow> local a s = Some (Some r, t) \<Longrightarrow> sendreply_ok E \<Longrightarrow> r \<noteq> R_string None
    \<Longrightarrow> dispatch_local E cfg xprt proc argument local s = Some ([r], [], t)"
  by (simp add: dispatch_local_def)


text \<open>
  C30: Over version 4 a service can be registered, looked up and removed: SET of a free key by a
  caller who may change the registry succeeds, GETVERSADDR by a caller on the same transport
  then gives the address merged with that caller's own, UNSET by the first caller succeeds and
  leaves the entries that were there before, and from then on GETVERSADDR gives the empty
  string, also while other versions of the program are registered.
\<close>

theorem rpcb_set_getversaddr_unset:
  assumes "registry_inv (rb_reg s)" and "bindings (rb_reg s) (key regp) = None"
    and "r_netid regp \<noteq> []" and "xp_netid xprt' = r_netid regp"
    and "allocs E = allocs_ok" and "sendreply_ok E"
    and "check_access E cfg xprt 1" and "check_access E cfg xprt 2" and "check_access E cfg xprt' 9"
    and "as_rpcb req = Some regp" and "as_rpcb req' = Some (regp\<lparr>r_addr := []\<rparr>)"
    and "mergeaddr E s xprt' (r_netid regp) (r_addr regp) None = Some uaddr" and "uaddr \<noteq> []"
  shows "\<exists>s1 s2 s3 s4. rpcb_service_4 E cfg C (req\<lparr>rq_proc := 1\<rparr>) xprt s = Some ([R_bool True], [], s1)
    \<and> rpcb_service_4 E cfg C' (req'\<lparr>rq_proc := 9\<rparr>) xprt' s1 = Some ([R_string (Some uaddr)], [], s2)
    \<and> rpcb_service_4 E cfg C (req\<lparr>rq_proc := 2\<rparr>) xprt s2 = Some ([R_bool True], [], s3)
    \<and> list_rbl (rb_reg s3) = list_rbl (rb_reg s)
    \<and> rpcb_service_4 E cfg C' (req'\<lparr>rq_proc := 9\<rparr>) xprt' s3 = Some ([R_string (Some [])], [], s4)"
proof -
  let ?call = "\<lambda>proc s. s\<lparr>rb_stats := rpcbs_procinfo RPCBVERS_4_STAT proc (rb_stats s)\<rparr>"
  let ?new = "regp\<lparr>r_owner := getowner cfg xprt\<rparr>" and ?q = "regp\<lparr>r_addr := []\<rparr>"
  have free: "key regp \<notin> key ` set (list_rbl (rb_reg s))"
    using assms(2) by (simp add: bindings_find find_key_None)
  then have "\<exists>t. rpcbproc_set_com E cfg xprt RPCBVERS4 regp (?call 1 s) = Some (Some (R_bool True), t)
      \<and> list_rbl (rb_reg t) = list_rbl (rb_reg (?call 1 s)) @ [?new] \<and> rb_fds t = rb_fds (?call 1 s)"
    using assms(5) by (intro set_com_free) auto
  then obtain s1 where s1: "rpcbproc_set_com E cfg xprt RPCBVERS4 regp (?call 1 s) = Some (Some (R_bool True), s1)"
      "list_rbl (rb_reg s1) = list_rbl (rb_reg s) @ [?new]" "rb_fds s1 = rb_fds s" by auto
  have inv1: "registry_inv (rb_reg s1)" using assms(1) free s1(2) by (auto simp: registry_inv_def)
  have "find_service (list_rbl (rb_reg s1)) (r_prog regp, r_netid regp) (r_vers regp) = Some ?new"
    unfolding s1(2) using assms(2)
    by (intro rbl.look_appended) (simp_all add: bindings_find key_fits rbl_fits_def strcasecmp_def)
  then have "\<exists>t. rpcbproc_getaddr_com E xprt' RPCBVERS4 False ?q (?call 9 s1) = Some (Some (R_string (Some uaddr)), t)
      \<and> rb_reg t = rb_reg (?call 9 s1) \<and> rb_fds t = rb_fds (?call 9 s1)"
    using assms(4,12,13) mergeaddr_fds [of "?call 9 s1" s E] s1(3) by (intro getversaddr_found [of _ _ _ ?new]) auto
  then obtain s2 where s2: "rpcbproc_getaddr_com E xprt' RPCBVERS4 False ?q (?call 9 s1) = Some (Some (R_string (Some uaddr)), s2)"
      "rb_reg s2 = rb_reg s1" "rb_fds s2 = rb_fds s1" by auto
  have "\<exists>t. rpcbproc_unset_com E cfg xprt RPCBVERS4 regp (?call 2 s2) = Some (Some (R_bool True), t)
      \<and> list_rbl (rb_reg t) = list_rbl (rb_reg s) \<and> rb_fds t = rb_fds (?call 2 s2)"
    using inv1 s1(2) s2(2) assms(3) by (intro unset_com_own) auto
  then obtain s3 where s3: "rpcbproc_unset_com E cfg xprt RPCBVERS4 regp (?call 2 s2) = Some (Some (R_bool True), s3)"
      "list_rbl (rb_reg s3) = list_rbl (rb_reg s)" by auto
  have "\<exists>t. rpcbproc_getaddr_com E xprt' RPCBVERS4 False ?q (?call 9 s3) = Some (Some (R_string (Some [])), t)"
    using assms(2) s3(2)
    by (intro getversaddr_missing) (auto simp: bindings_find find_None_iff key_def assms(4))
  then obtain s4 where s4: "rpcbproc_getaddr_com E xprt' RPCBVERS4 False ?q (?call 9 s3) = Some (Some (R_string (Some [])), s4)"
    by auto
  show ?thesis
    using assms(6-11) s3(2)
    by - (rule exI [of _ s1], rule exI [of _ s2], rule exI [of _ s3], rule exI [of _ s4],
      simp add: rpcb_service_4_def Let_def
        dispatch_sent [where local = "rpcbproc_set_com E cfg xprt RPCBVERS4", OF _ _ s1(1)]
        dispatch_sent [where local = "rpcbproc_getaddr_com E xprt' RPCBVERS4 False", OF _ _ s2(1)]
        dispatch_sent [where local = "rpcbproc_unset_com E cfg xprt RPCBVERS4", OF _ _ s3(1)]
        dispatch_sent [where local = "rpcbproc_getaddr_com E xprt' RPCBVERS4 False", OF _ _ s4])
qed


lemma rpcb_set_getversaddr_unset_witness:
  "\<exists>s1 s2 s3 s4. rpcb_service_4 an_env a_config (\<lambda>_ _ _. None) (set_request\<lparr>rq_proc := 1\<rparr>) local_caller start_rpcbind
      = Some ([R_bool True], [], s1)
    \<and> rpcb_service_4 an_env a_config (\<lambda>_ _ _. None) (set_request\<lparr>as_rpcb := Some (nfs_tcp\<lparr>r_addr := []\<rparr>), rq_proc := 9\<rparr>)
      (a_caller\<lparr>xp_netid := ''tcp''\<rparr>) s1 = Some ([R_string (Some ''0.0.0.0.8.1'')], [], s2)
    \<and> rpcb_service_4 an_env a_config (\<lambda>_ _ _. None) (set_request\<lparr>rq_proc := 2\<rparr>) local_caller s2
      = Some ([R_bool True], [], s3)
    \<and> list_rbl (rb_reg s3) = []
    \<and> rpcb_service_4 an_env a_config (\<lambda>_ _ _. None) (set_request\<lparr>as_rpcb := Some (nfs_tcp\<lparr>r_addr := []\<rparr>), rq_proc := 9\<rparr>)
      (a_caller\<lparr>xp_netid := ''tcp''\<rparr>) s3 = Some ([R_string (Some [])], [], s4)"
proof -
  have g: "list_rbl (rb_reg start_rpcbind) = []" by (simp add: start_rpcbind_def empty_registry_def)
  have fd: "find_fd (rb_fds start_rpcbind) ''tcp'' = Some \<lparr>nc_netid = ''tcp'', check_binding = False\<rparr>"
    by (simp add: start_rpcbind_def transports_def add_bndlist_def find_fd_def)
  show ?thesis
    using rpcb_set_getversaddr_unset [of start_rpcbind nfs_tcp "a_caller\<lparr>xp_netid := ''tcp''\<rparr>" an_env a_config local_caller
        set_request "set_request\<lparr>as_rpcb := Some (nfs_tcp\<lparr>r_addr := []\<rparr>)\<rparr>" "''0.0.0.0.8.1''" "\<lambda>_ _ _. None" "\<lambda>_ _ _. None"]
    by (simp add: registry_inv_def bindings_def g fd mergeaddr_def check_bound_def nfs_tcp_def an_env_def set_request_def
        check_access_def is_loopback_def local_caller_def a_caller_def RPCBPROC_SET_def RPCBPROC_UNSET_def)
qed

end
