(* ===== verification/Xdr_Rec.thy ===== *)
theory Xdr_Rec
  imports Xdr_Stream
begin

text \<open>
  \<open>lib/libtirpc/src/xdr_rec.c\<close>: the record-marked stream of the connection transports.  Its
  buffers lie in the memory of the handle; the transport is a state \<^typ>\<open>'h\<close> that the function
  pointers \<open>readit\<close> and \<open>writeit\<close> take and return.  Loops are \<open>partial_function (option)\<close>,
  \<open>None\<close> being a loop that never exits.  Names that flexrpc's stream has too carry a \<open>t\<close>.
\<close>

section \<open>The stream\<close>

text \<open>
  \<open>rs_readit h n\<close> is the result of reading \<open>n\<close> bytes, the bytes that were stored and the
  transport; \<open>rs_eagain h\<close> says whether \<open>errno\<close> is \<open>EAGAIN\<close> or \<open>EWOULDBLOCK\<close> after a read.
  \<open>in_hdrp\<close> always points behind the \<open>in_hdrlen\<close> bytes of \<open>in_header\<close> that have come.
\<close>

record 'h trecstrm =
  rs_handle :: 'h
  rs_writeit :: "'h \<Rightarrow> byte list \<Rightarrow> int \<times> 'h"
  rs_out_base :: addr
  rs_out_finger :: addr
  rs_out_boundry :: addr
  rs_frag_header :: addr
  rs_frag_sent :: bool
  rs_readit :: "'h \<Rightarrow> nat \<Rightarrow> int \<times> byte list \<times> 'h"
  rs_eagain :: "'h \<Rightarrow> bool"
  rs_in_size :: "64 word"
  rs_in_base :: addr
  rs_in_finger :: addr
  rs_in_boundry :: addr
  rs_fbtbc :: "64 word"
  rs_last_frag :: bool
  rs_sendsize :: "32 word"
  rs_recvsize :: "32 word"
  rs_nonblock :: bool
  rs_in_haveheader :: bool
  rs_in_header :: "32 word"
  rs_in_hdrlen :: nat
  rs_in_reclen :: nat
  rs_in_received :: nat
  rs_in_maxrec :: int

datatype xprt_stat = XPRT_DIED | XPRT_MOREREQS | XPRT_IDLE

definition TLAST_FRAG :: "32 word" where
  "TLAST_FRAG = push_bit 31 1"

definition tfix_buf_size :: "32 word \<Rightarrow> 32 word" where
  "tfix_buf_size s = RNDUP (if s < 100 then 4000 else s)"

section \<open>Output\<close>

definition tflush_out :: "mem \<times> 'h trecstrm \<Rightarrow> bool \<Rightarrow> bool \<times> mem \<times> 'h trecstrm" where
  "tflush_out = (\<lambda>(m, rstrm) eor.
     let eormask = (if eor then TLAST_FRAG else 0);
         len = (ptrdiff (rs_out_finger rstrm) (rs_frag_header rstrm + 4) :: 32 word);
         m = store32 m (rs_frag_header rstrm) (htonl (len OR eormask));
         len = (ptrdiff (rs_out_finger rstrm) (rs_out_base rstrm) :: 32 word);
         (n, h) = rs_writeit rstrm (rs_handle rstrm) (rd m (rs_out_base rstrm) (unat len));
         rstrm = rstrm\<lparr>rs_handle := h\<rparr>
     in if n \<noteq> sint len then (False, m, rstrm)
        else (True, m, rstrm\<lparr>rs_frag_header := rs_out_base rstrm, rs_out_finger := rs_out_base rstrm + 4\<rparr>))"

definition xdrrec_putlong :: "mem \<times> 'h trecstrm \<Rightarrow> 64 word \<Rightarrow> (bool \<times> mem \<times> 'h trecstrm) option" where
  "xdrrec_putlong = (\<lambda>(m, rstrm) lp.
     let (ok, m, rstrm) =
       (if rs_out_finger rstrm + 4 > rs_out_boundry rstrm
        then tflush_out (m, rstrm\<lparr>rs_frag_sent := True\<rparr>) False else (True, m, rstrm))
     in if \<not> ok then Some (False, m, rstrm)
        else Some (True, store32 m (rs_out_finger rstrm) (htonl (ucast lp)),
          rstrm\<lparr>rs_out_finger := rs_out_finger rstrm + 4\<rparr>))"

partial_function (option) xdrrec_putbytes ::
    "mem \<times> 'h trecstrm \<Rightarrow> byte list \<Rightarrow> 32 word \<Rightarrow> (bool \<times> mem \<times> 'h trecstrm) option" where
  "xdrrec_putbytes st addr len =
    (let (m, rstrm) = st in
     if len > 0 then
       let avail = (ptrdiff (rs_out_boundry rstrm) (rs_out_finger rstrm) :: 64 word);
           current = (if ucast len < avail then ucast len else avail);
           m = wr m (rs_out_finger rstrm) (take (unat current) addr);
           rstrm = rstrm\<lparr>rs_out_finger := rs_out_finger rstrm + unat current\<rparr>;
           addr = drop (unat current) addr;
           len = len - ucast current
       in if rs_out_finger rstrm = rs_out_boundry rstrm then
            let (ok, st) = tflush_out (m, rstrm\<lparr>rs_frag_sent := True\<rparr>) False
            in if \<not> ok then Some (False, st) else xdrrec_putbytes st addr len
          else xdrrec_putbytes (m, rstrm) addr len
     else Some (True, m, rstrm))"

definition xdrrec_endofrecord :: "mem \<times> 'h trecstrm \<Rightarrow> bool \<Rightarrow> bool \<times> mem \<times> 'h trecstrm" where
  "xdrrec_endofrecord = (\<lambda>(m, rstrm) sendnow.
     if sendnow \<or> rs_frag_sent rstrm \<or> rs_out_finger rstrm + 4 \<ge> rs_out_boundry rstrm then
       tflush_out (m, rstrm\<lparr>rs_frag_sent := False\<rparr>) True
     else
       let len = (ptrdiff (rs_out_finger rstrm) (rs_frag_header rstrm + 4) :: 64 word)
       in (True, store32 m (rs_frag_header rstrm) (htonl (ucast len OR TLAST_FRAG)),
           rstrm\<lparr>rs_frag_header := rs_out_finger rstrm, rs_out_finger := rs_out_finger rstrm + 4\<rparr>))"

section \<open>Input\<close>

definition tfill_input_buf :: "mem \<times> 'h trecstrm \<Rightarrow> bool \<times> mem \<times> 'h trecstrm" where
  "tfill_input_buf = (\<lambda>(m, rstrm).
     if rs_nonblock rstrm then (False, m, rstrm)
     else let i = rs_in_boundry rstrm mod 4;
         whr = rs_in_base rstrm + i;
         len = (ucast (rs_in_size rstrm - of_nat i) :: 32 word);
         (len, bs, h) = rs_readit rstrm (rs_handle rstrm) (nat (sint len));
         m = wr m whr bs;
         rstrm = rstrm\<lparr>rs_handle := h\<rparr>
       in if len = -1 then (False, m, rstrm)
          else (True, m, rstrm\<lparr>rs_in_finger := whr, rs_in_boundry := nat (int whr + len)\<rparr>))"

text \<open>\<open>got\<close> is what has been copied to \<open>addr\<close> so far.\<close>

partial_function (option) input_loop ::
    "mem \<times> 'h trecstrm \<Rightarrow> 32 word \<Rightarrow> byte list \<Rightarrow> (bool \<times> byte list \<times> mem \<times> 'h trecstrm) option" where
  "input_loop st len got =
    (if 0 <s len then
       let current = (ptrdiff (rs_in_boundry (snd st)) (rs_in_finger (snd st)) :: 64 word) in
       if current = 0 then
         let (ok, st) = tfill_input_buf st
         in if \<not> ok then Some (False, got, st) else input_loop st len got
       else
         let current = (if scast len < current then scast len else current);
             bs = rd (fst st) (rs_in_finger (snd st)) (unat current);
             rstrm = (snd st)\<lparr>rs_in_finger := rs_in_finger (snd st) + unat current\<rparr>
         in input_loop (fst st, rstrm) (len - ucast current) (got @ bs)
     else Some (True, got, st))"

definition tget_input_bytes ::
    "mem \<times> 'h trecstrm \<Rightarrow> 32 word \<Rightarrow> (bool \<times> byte list \<times> mem \<times> 'h trecstrm) option" where
  "tget_input_bytes = (\<lambda>(m, rstrm) len.
     if rs_nonblock rstrm then
       if ptrdiff (rs_in_boundry rstrm) (rs_in_finger rstrm) <s len then Some (False, [], m, rstrm)
       else if len <s 0 then None
       else Some (True, rd m (rs_in_finger rstrm) (unat len), m,
         rstrm\<lparr>rs_in_finger := rs_in_finger rstrm + unat len\<rparr>)
     else input_loop (m, rstrm) len [])"

definition tset_input_fragment :: "mem \<times> 'h trecstrm \<Rightarrow> (bool \<times> mem \<times> 'h trecstrm) option" where
  "tset_input_fragment st =
    (if rs_nonblock (snd st) then Some (False, st)
     else do {
       (ok, bs, m, rstrm) \<leftarrow> tget_input_bytes st 4;
       if \<not> ok then Some (False, m, rstrm)
       else let header = ntohl (of_le32 bs);
                rstrm = rstrm\<lparr>rs_last_frag := (header AND TLAST_FRAG \<noteq> 0)\<rparr>
         in if header = 0 then Some (False, m, rstrm)
            else Some (True, m, rstrm\<lparr>rs_fbtbc := ucast (header AND NOT TLAST_FRAG)\<rparr>) })"

partial_function (option) tskip_input_bytes ::
    "mem \<times> 'h trecstrm \<Rightarrow> 64 word \<Rightarrow> (bool \<times> mem \<times> 'h trecstrm) option" where
  "tskip_input_bytes st cnt =
    (if 0 <s cnt then
       let current = (ptrdiff (rs_in_boundry (snd st)) (rs_in_finger (snd st)) :: 32 word) in
       if current = 0 then
         let (ok, st) = tfill_input_buf st
         in if \<not> ok then Some (False, st) else tskip_input_bytes st cnt
       else
         let current = (if cnt <s ucast current then ucast cnt else current);
             rstrm = (snd st)\<lparr>rs_in_finger := rs_in_finger (snd st) + unat current\<rparr>
         in tskip_input_bytes (fst st, rstrm) (cnt - ucast current)
     else Some (True, st))"

text \<open>The loop of \<open>xdrrec_getbytes\<close>: \<open>off\<close> is how far \<open>addr\<close> has moved.\<close>

partial_function (option) trec_getbytes_loop ::
    "mem \<times> 'h trecstrm \<Rightarrow> byte list \<Rightarrow> nat \<Rightarrow> 32 word \<Rightarrow> (bool \<times> byte list \<times> mem \<times> 'h trecstrm) option" where
  "trec_getbytes_loop st buf off len =
    (if len > 0 then
       let current = (ucast (rs_fbtbc (snd st)) :: 32 word) in
       if current = 0 then
         if rs_last_frag (snd st) then Some (False, buf, st)
         else do {
           (ok, st) \<leftarrow> tset_input_fragment st;
           if \<not> ok then Some (False, buf, st) else trec_getbytes_loop st buf off len }
       else
         let current = (if len < current then len else current) in
         do {
           (ok, bs, m, rstrm) \<leftarrow> tget_input_bytes st current;
           let buf = patch buf off bs;
           if \<not> ok then Some (False, buf, m, rstrm)
           else trec_getbytes_loop (m, rstrm\<lparr>rs_fbtbc := rs_fbtbc rstrm - scast current\<rparr>) buf
                  (off + unat current) (len - current) }
     else Some (True, buf, st))"

definition xdrrec_getbytes ::
    "mem \<times> 'h trecstrm \<Rightarrow> byte list \<Rightarrow> 32 word \<Rightarrow> (bool \<times> byte list \<times> mem \<times> 'h trecstrm) option" where
  "xdrrec_getbytes st addr len = trec_getbytes_loop st addr 0 len"

definition xdrrec_getlong :: "mem \<times> 'h trecstrm \<Rightarrow> 64 word \<Rightarrow> (bool \<times> 64 word \<times> mem \<times> 'h trecstrm) option" where
  "xdrrec_getlong = (\<lambda>(m, rstrm) lp.
     if 4 \<le> rs_fbtbc rstrm \<and> 4 \<le> (ptrdiff (rs_in_boundry rstrm) (rs_in_finger rstrm) :: 64 word) then
       Some (True, ucast (ntohl (load32 m (rs_in_finger rstrm))), m,
         rstrm\<lparr>rs_fbtbc := rs_fbtbc rstrm - 4, rs_in_finger := rs_in_finger rstrm + 4\<rparr>)
     else do {
       (ok, mylong, st) \<leftarrow> xdrrec_getbytes (m, rstrm) [0, 0, 0, 0] 4;
       if \<not> ok then Some (False, lp, st)
       else Some (True, ucast (ntohl (of_le32 mylong)), st) })"

section \<open>Positions and in-line buffers\<close>

definition xdrrec_getpos :: "xdr_op \<Rightarrow> mem \<times> 'h trecstrm \<Rightarrow> 32 word" where
  "xdrrec_getpos op = (\<lambda>(m, rstrm). case op of
     XDR_ENCODE \<Rightarrow> ptrdiff (rs_out_finger rstrm) (rs_out_base rstrm + 4)
   | XDR_DECODE \<Rightarrow> ptrdiff (rs_in_boundry rstrm) (rs_in_finger rstrm + 4)
   | XDR_FREE \<Rightarrow> -1)"

definition xdrrec_setpos :: "xdr_op \<Rightarrow> mem \<times> 'h trecstrm \<Rightarrow> 32 word \<Rightarrow> bool \<times> mem \<times> 'h trecstrm" where
  "xdrrec_setpos op = (\<lambda>(m, rstrm) pos.
     let currpos = xdrrec_getpos op (m, rstrm); delta = currpos - pos in
     if currpos = -1 then (False, m, rstrm)
     else case op of
       XDR_ENCODE \<Rightarrow> (let newpos = int (rs_out_finger rstrm) - sint delta in
         if newpos > int (rs_frag_header rstrm) \<and> newpos < int (rs_out_boundry rstrm)
         then (True, m, rstrm\<lparr>rs_out_finger := nat newpos\<rparr>) else (False, m, rstrm))
     | XDR_DECODE \<Rightarrow> (let newpos = int (rs_in_finger rstrm) - sint delta in
         if delta <s ucast (rs_fbtbc rstrm) \<and> newpos \<le> int (rs_in_boundry rstrm) \<and> newpos \<ge> int (rs_in_base rstrm)
         then (True, m, rstrm\<lparr>rs_in_finger := nat newpos, rs_fbtbc := rs_fbtbc rstrm - scast delta\<rparr>)
         else (False, m, rstrm))
     | XDR_FREE \<Rightarrow> (False, m, rstrm))"

definition xdrrec_inline :: "xdr_op \<Rightarrow> mem \<times> 'h trecstrm \<Rightarrow> 32 word \<Rightarrow> addr \<times> mem \<times> 'h trecstrm" where
  "xdrrec_inline op = (\<lambda>(m, rstrm) len. case op of
     XDR_ENCODE \<Rightarrow>
       if rs_out_finger rstrm + unat len \<le> rs_out_boundry rstrm
       then (rs_out_finger rstrm, m, rstrm\<lparr>rs_out_finger := rs_out_finger rstrm + unat len\<rparr>)
       else (0, m, rstrm)
   | XDR_DECODE \<Rightarrow>
       if ucast len \<le>s rs_fbtbc rstrm \<and> rs_in_finger rstrm + unat len \<le> rs_in_boundry rstrm
       then (rs_in_finger rstrm, m, rstrm\<lparr>rs_fbtbc := rs_fbtbc rstrm - ucast len,
               rs_in_finger := rs_in_finger rstrm + unat len\<rparr>)
       else (0, m, rstrm)
   | XDR_FREE \<Rightarrow> (0, m, rstrm))"

definition xdrrec_ops :: "'h trecstrm xdr_ops" where
  "xdrrec_ops = \<lparr>x_getlong = xdrrec_getlong, x_putlong = xdrrec_putlong, x_getbytes = xdrrec_getbytes,
     x_putbytes = xdrrec_putbytes, x_getpostn = Some xdrrec_getpos, x_setpostn = Some xdrrec_setpos,
     x_inline = Some xdrrec_inline\<rparr>"

text \<open>
  \<open>mem_alloc\<close> serves the structure (\<open>have_strm\<close>) and the two buffers, or not.  Fields that
  \<open>xdrrec_create\<close> leaves as \<open>mem_alloc\<close> gave them are taken from \<open>raw\<close>.
\<close>

definition xdrrec_create :: "bool \<Rightarrow> addr option \<Rightarrow> addr option \<Rightarrow> 'h trecstrm \<Rightarrow> 32 word \<Rightarrow> 32 word \<Rightarrow> 'h
    \<Rightarrow> ('h \<Rightarrow> nat \<Rightarrow> int \<times> byte list \<times> 'h) \<Rightarrow> ('h \<Rightarrow> byte list \<Rightarrow> int \<times> 'h) \<Rightarrow> 'h trecstrm XDR \<Rightarrow> 'h trecstrm XDR" where
  "xdrrec_create have_strm obuf ibuf raw ssize0 rsize0 handle rd_it wr_it xdrs =
    (let ssize = tfix_buf_size ssize0; rsize = tfix_buf_size rsize0 in
     case (have_strm, obuf, ibuf) of
       (True, Some obase, Some ibase) \<Rightarrow>
         xdrs\<lparr>x_ops := xdrrec_ops, x_private := raw\<lparr>
           rs_sendsize := ssize, rs_out_base := obase, rs_recvsize := rsize, rs_in_base := ibase,
           rs_handle := handle, rs_readit := rd_it, rs_writeit := wr_it,
           rs_frag_header := obase, rs_out_finger := obase + 4, rs_out_boundry := obase + unat ssize,
           rs_frag_sent := False, rs_in_size := ucast rsize, rs_in_boundry := ibase + unat rsize,
           rs_in_finger := ibase + unat rsize, rs_fbtbc := 0, rs_last_frag := True,
           rs_in_haveheader := False, rs_in_hdrlen := 0, rs_nonblock := False, rs_in_reclen := 0,
           rs_in_received := 0\<rparr>\<rparr>
     | _ \<Rightarrow> xdrs)"

section \<open>Records without blocking\<close>

definition realloc_stream :: "addr option \<Rightarrow> nat \<Rightarrow> mem \<times> 'h trecstrm \<Rightarrow> bool \<times> mem \<times> 'h trecstrm" where
  "realloc_stream buf sz = (\<lambda>(m, rstrm).
     if sz > unat (rs_recvsize rstrm) then (case buf of
         None \<Rightarrow> (False, m, rstrm)
       | Some buf \<Rightarrow> (True, wr m buf (rd m (rs_in_base rstrm) (unat (rs_recvsize rstrm))),
           rstrm\<lparr>rs_in_finger := nat (int (rs_in_finger rstrm) + (int buf - int (rs_in_base rstrm))), rs_in_base := buf,
             rs_in_boundry := buf + sz, rs_recvsize := of_nat sz, rs_in_size := of_nat sz\<rparr>))
     else (True, m, rstrm))"

text \<open>
  What a read of no bytes means: nothing yet, or the end of the connection.  \<open>buf\<close> is what
  \<open>realloc\<close> returns.  The outer \<open>None\<close> is a sum of lengths that \<open>int\<close> cannot hold.
\<close>

definition no_data :: "bool \<Rightarrow> 'h trecstrm \<Rightarrow> xprt_stat" where
  "no_data expectdata rstrm = (if rs_eagain rstrm (rs_handle rstrm) then XPRT_IDLE
     else if expectdata then XPRT_DIED else XPRT_IDLE)"

text \<open>The header: \<open>Inl\<close> an early return, \<open>Inr\<close> the state with a header.\<close>

definition getrec_header :: "addr option \<Rightarrow> bool \<Rightarrow> mem \<times> 'h trecstrm
    \<Rightarrow> (xprt_stat \<times> mem \<times> 'h trecstrm + mem \<times> 'h trecstrm) option" where
  "getrec_header buf expectdata = (\<lambda>(m, rstrm).
     let (n, bs, h) = rs_readit rstrm (rs_handle rstrm) (4 - rs_in_hdrlen rstrm);
         rstrm = rstrm\<lparr>rs_handle := h, rs_in_header := of_le32 (patch (le32 (rs_in_header rstrm)) (rs_in_hdrlen rstrm) bs)\<rparr>
     in if n = 0 then Some (Inl (no_data expectdata rstrm, m, rstrm))
        else if n < 0 then Some (Inl (XPRT_DIED, m, rstrm))
        else let rstrm = rstrm\<lparr>rs_in_hdrlen := rs_in_hdrlen rstrm + nat n\<rparr> in
          if rs_in_hdrlen rstrm < 4 then Some (Inl (XPRT_MOREREQS, m, rstrm))
          else let rstrm = rstrm\<lparr>rs_in_header := ntohl (rs_in_header rstrm)\<rparr>;
              fraglen = unat (rs_in_header rstrm AND NOT TLAST_FRAG)
            in if fraglen = 0 \<or> int fraglen > rs_in_maxrec rstrm then Some (Inl (XPRT_DIED, m, rstrm))
               else if rs_in_reclen rstrm + fraglen \<ge> 2 ^ 31 then None
               else if int (rs_in_reclen rstrm + fraglen) > rs_in_maxrec rstrm then Some (Inl (XPRT_DIED, m, rstrm))
               else let rstrm = rstrm\<lparr>rs_in_reclen := rs_in_reclen rstrm + fraglen\<rparr>;
                   (m, rstrm) = (if rs_in_reclen rstrm > unat (rs_recvsize rstrm)
                     then snd (realloc_stream buf (rs_in_reclen rstrm) (m, rstrm)) else (m, rstrm));
                   rstrm = (if rs_in_header rstrm AND TLAST_FRAG \<noteq> 0
                     then rstrm\<lparr>rs_in_header := rs_in_header rstrm AND NOT TLAST_FRAG, rs_last_frag := True\<rparr> else rstrm)
                 in Some (Inr (m, rstrm\<lparr>rs_in_haveheader := True\<rparr>)))"

definition getrec_body :: "bool \<Rightarrow> mem \<times> 'h trecstrm \<Rightarrow> bool \<times> xprt_stat \<times> mem \<times> 'h trecstrm" where
  "getrec_body expectdata = (\<lambda>(m, rstrm).
     let (n, bs, h) = rs_readit rstrm (rs_handle rstrm) (rs_in_reclen rstrm - rs_in_received rstrm);
         m = wr m (rs_in_base rstrm + rs_in_received rstrm) bs;
         rstrm = rstrm\<lparr>rs_handle := h\<rparr>
     in if n < 0 then (False, XPRT_DIED, m, rstrm)
        else if n = 0 then (False, no_data expectdata rstrm, m, rstrm)
        else let rstrm = rstrm\<lparr>rs_in_received := rs_in_received rstrm + nat n\<rparr> in
          if rs_in_received rstrm = rs_in_reclen rstrm then
            let rstrm = rstrm\<lparr>rs_in_haveheader := False, rs_in_hdrlen := 0\<rparr> in
            if rs_last_frag rstrm then
              (True, XPRT_MOREREQS, m, rstrm\<lparr>rs_fbtbc := of_nat (rs_in_reclen rstrm),
                 rs_in_boundry := rs_in_base rstrm + rs_in_reclen rstrm, rs_in_finger := rs_in_base rstrm,
                 rs_in_reclen := 0, rs_in_received := 0\<rparr>)
            else (False, XPRT_MOREREQS, m, rstrm)
          else (False, XPRT_MOREREQS, m, rstrm))"

definition xdrrec_getrec :: "addr option \<Rightarrow> bool \<Rightarrow> mem \<times> 'h trecstrm
    \<Rightarrow> (bool \<times> xprt_stat \<times> mem \<times> 'h trecstrm) option" where
  "xdrrec_getrec buf expectdata st =
    (if rs_in_haveheader (snd st) then Some (getrec_body expectdata st)
     else do {
       r \<leftarrow> getrec_header buf expectdata st;
       case r of Inl (xstat, st) \<Rightarrow> Some (False, xstat, st) | Inr st \<Rightarrow> Some (getrec_body expectdata st) })"

definition xdrrec_setnonblock :: "32 word \<Rightarrow> mem \<times> 'h trecstrm \<Rightarrow> bool \<times> mem \<times> 'h trecstrm" where
  "xdrrec_setnonblock maxrec = (\<lambda>(m, rstrm).
     let maxrec = (if maxrec = 0 then rs_recvsize rstrm else maxrec)
     in (True, m, rstrm\<lparr>rs_nonblock := True, rs_in_maxrec := sint maxrec\<rparr>))"

section \<open>Record boundaries\<close>

partial_function (option) tskiprecord_loop :: "mem \<times> 'h trecstrm \<Rightarrow> (bool \<times> mem \<times> 'h trecstrm) option" where
  "tskiprecord_loop st =
    (if 0 <s rs_fbtbc (snd st) \<or> \<not> rs_last_frag (snd st) then do {
       (ok, m, rstrm) \<leftarrow> tskip_input_bytes st (rs_fbtbc (snd st));
       if \<not> ok then Some (False, m, rstrm)
       else
         let st = (m, rstrm\<lparr>rs_fbtbc := 0\<rparr>) in
         if \<not> rs_last_frag (snd st) then do {
           (ok, st) \<leftarrow> tset_input_fragment st;
           if \<not> ok then Some (False, st) else tskiprecord_loop st }
         else tskiprecord_loop st }
     else Some (True, st))"

definition xdrrec_skiprecord :: "addr option \<Rightarrow> mem \<times> 'h trecstrm \<Rightarrow> (bool \<times> mem \<times> 'h trecstrm) option" where
  "xdrrec_skiprecord buf st =
    (if rs_nonblock (snd st) then do {
       (ok, xstat, m, rstrm) \<leftarrow> xdrrec_getrec buf False st;
       if ok \<or> rs_in_finger rstrm = rs_in_boundry rstrm \<and> xstat = XPRT_MOREREQS
       then Some (True, m, rstrm\<lparr>rs_fbtbc := 0\<rparr>) else Some (False, m, rstrm) }
     else do {
       (ok, m, rstrm) \<leftarrow> tskiprecord_loop st;
       Some (ok, m, if ok then rstrm\<lparr>rs_last_frag := False\<rparr> else rstrm) })"

definition xdrrec_eof :: "mem \<times> 'h trecstrm \<Rightarrow> (bool \<times> mem \<times> 'h trecstrm) option" where
  "xdrrec_eof st = do {
     (ok, m, rstrm) \<leftarrow> tskiprecord_loop st;
     Some (\<not> ok \<or> rs_in_finger rstrm = rs_in_boundry rstrm, m, rstrm) }"

end
