(* ===== verification/Rec_Sink.thy ===== *)
theory Rec_Sink
  imports Xdr_Rec Rpc_Msg
begin

text \<open>
  The sending side of \<open>xdr_rec.c\<close>.  The wire format as a pair of functions on fragments, the
  record list that a sequence of bytes on the wire stands for, and the stream as a sink of the
  filters: what is put into it becomes one record, however it is cut into fragments.
\<close>

section \<open>Fragments and records on the wire\<close>

definition frag :: "bool \<times> byte list \<Rightarrow> byte list" where
  "frag = (\<lambda>(eor, bs). be32 (of_nat (length bs) OR (if eor then TLAST_FRAG else 0)) @ bs)"

fun unfrag :: "byte list \<Rightarrow> (bool \<times> byte list) list" where
  "unfrag w = (if length w < 4 then []
     else let h = ntohl (of_le32 (take 4 w)); n = unat (h AND NOT TLAST_FRAG)
       in (h AND TLAST_FRAG \<noteq> 0, take n (drop 4 w)) # unfrag (drop (4 + n) w))"

declare unfrag.simps [simp del]

text \<open>The complete records of a list of fragments, and the bytes of the one that is not.\<close>

fun records :: "(bool \<times> byte list) list \<Rightarrow> byte list \<Rightarrow> byte list list \<times> byte list" where
  "records [] cur = ([], cur)"
| "records ((eor, bs) # fs) cur =
     (if eor then (let (rs, c) = records fs [] in ((cur @ bs) # rs, c)) else records fs (cur @ bs))"

text \<open>What the receiver accepts: a length of 31 bits, and not a header of zero.\<close>

definition wf_frag :: "bool \<times> byte list \<Rightarrow> bool" where
  "wf_frag = (\<lambda>(eor, bs). length bs < 2 ^ 31 \<and> (eor \<or> bs \<noteq> []))"

lemma take_bit_31: "n < 2 ^ 31 \<Longrightarrow> bit (of_nat n :: 32 word) k \<Longrightarrow> k < 31"
proof -
  assume n: "n < 2 ^ 31" and b: "bit (of_nat n :: 32 word) k"
  have "take_bit 31 n = n" using n by (simp add: take_bit_nat_eq_self)
  then have "bit (take_bit 31 n) k" using b by (simp add: bit_simps)
  then show "k < 31" by (simp add: bit_simps)
qed

lemma bit_TLAST_FRAG [simp]: "bit TLAST_FRAG k \<longleftrightarrow> k = 31"
  unfolding TLAST_FRAG_def by (simp only: bit_push_bit_iff bit_1_iff) auto

lemma TLAST_FRAG_nonzero [simp]: "TLAST_FRAG \<noteq> 0"
  by (metis bit_0_eq bit_TLAST_FRAG bot_apply bot_bool_def)

lemma frag_header_bits:
  assumes "n < 2 ^ 31"
  shows "(of_nat n OR (if eor then TLAST_FRAG else 0)) AND NOT TLAST_FRAG = (of_nat n :: 32 word)"
    and "(of_nat n OR (if eor then TLAST_FRAG else 0)) AND TLAST_FRAG \<noteq> 0 \<longleftrightarrow> eor"
proof -
  have "\<not> bit (of_nat n :: 32 word) 31" using take_bit_31 [OF assms, of 31] by auto
  then show "(of_nat n OR (if eor then TLAST_FRAG else 0)) AND NOT TLAST_FRAG = (of_nat n :: 32 word)"
    by (intro bit_word_eqI) (auto simp: bit_or_iff bit_and_iff bit_not_iff)
  have "(of_nat n OR (if eor then TLAST_FRAG else 0)) AND TLAST_FRAG = (if eor then TLAST_FRAG else 0)"
    using \<open>\<not> bit (of_nat n :: 32 word) 31\<close>
    by (intro bit_word_eqI) (auto simp: bit_or_iff bit_and_iff split: if_splits)
  then show "(of_nat n OR (if eor then TLAST_FRAG else 0)) AND TLAST_FRAG \<noteq> 0 \<longleftrightarrow> eor"
    by simp
qed

lemma unat_header: "n < 2 ^ 31 \<Longrightarrow> unat (of_nat n :: 32 word) = n"
  by (rule unat_of_nat32) simp

lemma unfrag_frag: "length bs < 2 ^ 31 \<Longrightarrow> unfrag (frag (eor, bs) @ w) = (eor, bs) # unfrag w"
  by (subst unfrag.simps) (simp add: frag_def frag_header_bits unat_header Let_def)

lemma unfrag_concat:
  "list_all wf_frag fs \<Longrightarrow> unfrag (concat (map frag fs) @ w) = fs @ unfrag w"
  by (induction fs) (auto simp: unfrag_frag wf_frag_def)

lemma unfrag_Nil [simp]: "unfrag [] = []"
  by (simp add: unfrag.simps)

lemma records_snoc:
  "records (fs @ [(eor, bs)]) cur =
    (let (rs, c) = records fs cur in if eor then (rs @ [c @ bs], []) else (rs, c @ bs))"
  by (induction fs cur rule: records.induct) (auto simp: Let_def split: prod.splits)

section \<open>The stream as a sink\<close>

text \<open>A transport that takes all it is given: \<open>tx h\<close> is what has gone out on it.\<close>

definition sends :: "('h \<Rightarrow> byte list) \<Rightarrow> ('h \<Rightarrow> byte list \<Rightarrow> int \<times> 'h) \<Rightarrow> bool" where
  "sends tx wr_it \<longleftrightarrow> (\<forall>h bs. length bs < 2 ^ 31 \<longrightarrow>
     (\<exists>h'. wr_it h bs = (int (length bs), h') \<and> tx h' = tx h @ bs))"

text \<open>What is on the transport and, complete but not yet sent, in the buffer; the fragment in the making.\<close>

definition wire :: "('h \<Rightarrow> byte list) \<Rightarrow> mem \<times> 'h trecstrm \<Rightarrow> byte list" where
  "wire tx = (\<lambda>(m, r). tx (rs_handle r) @ rd m (rs_out_base r) (rs_frag_header r - rs_out_base r))"

definition frag_body :: "mem \<times> 'h trecstrm \<Rightarrow> byte list" where
  "frag_body = (\<lambda>(m, r). rd m (rs_frag_header r + 4) (rs_out_finger r - (rs_frag_header r + 4)))"

definition rec_done :: "('h \<Rightarrow> byte list) \<Rightarrow> mem \<times> 'h trecstrm \<Rightarrow> byte list list" where
  "rec_done tx st = fst (records (unfrag (wire tx st)) [])"

definition rec_out :: "('h \<Rightarrow> byte list) \<Rightarrow> mem \<times> 'h trecstrm \<Rightarrow> byte list" where
  "rec_out tx st = snd (records (unfrag (wire tx st)) []) @ frag_body st"

definition sink_inv :: "('h \<Rightarrow> byte list) \<Rightarrow> mem \<times> 'h trecstrm \<Rightarrow> bool" where
  "sink_inv tx = (\<lambda>(m, r). 0 < rs_out_base r \<and> rs_out_base r \<le> rs_frag_header r
     \<and> rs_frag_header r + 4 \<le> rs_out_finger r \<and> rs_out_finger r \<le> rs_out_boundry r
     \<and> rs_frag_header r + 8 \<le> rs_out_boundry r \<and> rs_out_boundry r - rs_out_base r < 2 ^ 31
     \<and> sends tx (rs_writeit r)
     \<and> (\<exists>fs. wire tx (m, r) = concat (map frag fs) \<and> list_all wf_frag fs))"

lemma unat_ptrdiff32: "b \<le> a \<Longrightarrow> a - b < 2 ^ 31 \<Longrightarrow> unat (ptrdiff a b :: 32 word) = a - b"
  by (simp only: ptrdiff_le unat_header)

lemma sint_of_nat31: "n < 2 ^ 31 \<Longrightarrow> sint (of_nat n :: 32 word) = int n"
  by (simp add: signed_of_nat signed_take_bit_eq_if_positive bit_nat_iff bit_iff_odd take_bit_int_def)

text \<open>Flushing turns the fragment in the making into one on the wire.\<close>

lemma tflush_out_sends:
  assumes inv: "sink_inv tx (m, r)" and ne: "eor \<or> rs_frag_header r + 4 < rs_out_finger r"
  obtains m' h' where "tflush_out (m, r) eor =
      (True, m', r\<lparr>rs_handle := h', rs_frag_header := rs_out_base r, rs_out_finger := rs_out_base r + 4\<rparr>)"
    and "tx h' = wire tx (m, r) @ frag (eor, frag_body (m, r))"
proof -
  let ?ob = "rs_out_base r" and ?fh = "rs_frag_header r" and ?of = "rs_out_finger r"
  have le: "?ob \<le> ?fh" "?fh + 4 \<le> ?of" "?of - ?ob < 2 ^ 31" and tr: "sends tx (rs_writeit r)"
    using inv by (auto simp: sink_inv_def)
  have l: "unat (ptrdiff ?of ?ob :: 32 word) = ?of - ?ob" "sint (ptrdiff ?of ?ob :: 32 word) = int (?of - ?ob)"
    using le by (simp only: unat_ptrdiff32) (use le in \<open>simp only: ptrdiff_le [of ?ob] sint_of_nat31\<close>)
  let ?hd = "be32 (of_nat (?of - (?fh + 4)) OR (if eor then TLAST_FRAG else 0))"
  let ?m = "wr m ?fh ?hd"
  have rd: "rd ?m ?ob (?of - ?ob) = rd m ?ob (?fh - ?ob) @ frag (eor, frag_body (m, r))"
  proof -
    have "?of - ?ob = (?fh - ?ob) + (4 + (?of - (?fh + 4)))" using le by simp
    then have "rd ?m ?ob (?of - ?ob) = rd ?m ?ob (?fh - ?ob) @ rd ?m ?fh 4 @ rd ?m (?fh + 4) (?of - (?fh + 4))"
      using le by (simp only: rd_add) simp
    then show ?thesis using le by (simp add: frag_def frag_body_def)
  qed
  have "length (rd ?m ?ob (?of - ?ob)) < 2 ^ 31" using le by simp
  with tr obtain h' where w: "rs_writeit r (rs_handle r) (rd ?m ?ob (?of - ?ob)) = (int (?of - ?ob), h')"
      "tx h' = tx (rs_handle r) @ rd ?m ?ob (?of - ?ob)"
    unfolding sends_def by (metis length_rd)
  show thesis
  proof (rule that)
    show "tflush_out (m, r) eor = (True, ?m, r\<lparr>rs_handle := h', rs_frag_header := ?ob, rs_out_finger := ?ob + 4\<rparr>)"
      using le w(1) by (simp add: tflush_out_def Let_def store32_htonl l ptrdiff_le [of "?fh + 4"])
    show "tx h' = wire tx (m, r) @ frag (eor, frag_body (m, r))"
      using w(2) rd by (simp add: wire_def)
  qed
qed


lemma sink_frag_sent [simp]:
  "sink_inv tx (m, r\<lparr>rs_frag_sent := x\<rparr>) = sink_inv tx (m, r)"
  "rec_out tx (m, r\<lparr>rs_frag_sent := x\<rparr>) = rec_out tx (m, r)"
  "rec_done tx (m, r\<lparr>rs_frag_sent := x\<rparr>) = rec_done tx (m, r)"
  by (simp_all add: sink_inv_def rec_out_def rec_done_def wire_def frag_body_def)

lemma wire_unfrag:
  assumes "sink_inv tx st" and "length bs < 2 ^ 31"
  shows "unfrag (wire tx st @ frag (eor, bs)) = unfrag (wire tx st) @ [(eor, bs)]"
proof -
  obtain fs where "wire tx st = concat (map frag fs)" and "list_all wf_frag fs"
    using assms(1) by (cases st) (auto simp: sink_inv_def)
  then show ?thesis using unfrag_concat [of fs "[]"] unfrag_concat [of fs "frag (eor, bs)"]
    using unfrag_frag [OF assms(2), of eor "[]"] by simp
qed

lemma tflush_out_ok:
  assumes inv: "sink_inv tx (m, r)" and ne: "eor \<or> rs_frag_header r + 4 < rs_out_finger r"
  obtains m' r' where "tflush_out (m, r) eor = (True, m', r')" and "sink_inv tx (m', r')"
    and "rs_out_base r' = rs_out_base r" "rs_out_boundry r' = rs_out_boundry r"
      "rs_frag_header r' = rs_out_base r" "rs_out_finger r' = rs_out_base r + 4" "wire tx (m', r') = tx (rs_handle r')"
    and "rec_done tx (m', r') = rec_done tx (m, r) @ (if eor then [rec_out tx (m, r)] else [])"
    and "rec_out tx (m', r') = (if eor then [] else rec_out tx (m, r))"
proof -
  obtain m' h' where t: "tflush_out (m, r) eor =
      (True, m', r\<lparr>rs_handle := h', rs_frag_header := rs_out_base r, rs_out_finger := rs_out_base r + 4\<rparr>)"
    and h: "tx h' = wire tx (m, r) @ frag (eor, frag_body (m, r))"
    using tflush_out_sends [OF assms] by blast
  let ?r = "r\<lparr>rs_handle := h', rs_frag_header := rs_out_base r, rs_out_finger := rs_out_base r + 4\<rparr>"
  have l: "length (frag_body (m, r)) < 2 ^ 31" and ne': "eor \<or> frag_body (m, r) \<noteq> []"
    using inv ne by (auto simp: sink_inv_def frag_body_def rd_def)
  have w: "wire tx (m', ?r) = tx h'" and b: "frag_body (m', ?r) = []"
    by (simp_all add: wire_def frag_body_def)
  have u: "unfrag (wire tx (m', ?r)) = unfrag (wire tx (m, r)) @ [(eor, frag_body (m, r))]"
    using wire_unfrag [OF inv l] w h by simp
  show thesis
  proof (rule that [OF t])
    obtain fs where fs: "wire tx (m, r) = concat (map frag fs)" "list_all wf_frag fs"
      using inv by (auto simp: sink_inv_def)
    have "wire tx (m', ?r) = concat (map frag (fs @ [(eor, frag_body (m, r))]))"
      and "list_all wf_frag (fs @ [(eor, frag_body (m, r))])"
      using w h fs l ne' by (simp_all add: wf_frag_def)
    then have "\<exists>fs. wire tx (m', ?r) = concat (map frag fs) \<and> list_all wf_frag fs" by blast
    then show "sink_inv tx (m', ?r)" using inv by (simp add: sink_inv_def)
  qed (use w u b in \<open>auto simp: rec_done_def rec_out_def records_snoc Let_def split: prod.splits\<close>)
qed

text \<open>Bytes that fit the buffer.\<close>

lemma sink_append:
  assumes inv: "sink_inv tx (m, r)" and room: "rs_out_finger r + length bs \<le> rs_out_boundry r"
  shows "sink_inv tx (wr m (rs_out_finger r) bs, r\<lparr>rs_out_finger := rs_out_finger r + length bs\<rparr>)"
    and "rec_out tx (wr m (rs_out_finger r) bs, r\<lparr>rs_out_finger := rs_out_finger r + length bs\<rparr>) = rec_out tx (m, r) @ bs"
    and "rec_done tx (wr m (rs_out_finger r) bs, r\<lparr>rs_out_finger := rs_out_finger r + length bs\<rparr>) = rec_done tx (m, r)"
proof -
  let ?st = "(wr m (rs_out_finger r) bs, r\<lparr>rs_out_finger := rs_out_finger r + length bs\<rparr>)"
  have le: "rs_out_base r \<le> rs_frag_header r" "rs_frag_header r + 4 \<le> rs_out_finger r"
    using inv by (auto simp: sink_inv_def)
  then have w: "wire tx ?st = wire tx (m, r)" by (simp add: wire_def)
  let ?n = "rs_out_finger r - (rs_frag_header r + 4)" and ?m = "wr m (rs_out_finger r) bs"
  have "rs_out_finger r + length bs - (rs_frag_header r + 4) = ?n + length bs" using le by simp
  then have "frag_body ?st = rd ?m (rs_frag_header r + 4) (?n + length bs)" by (simp add: frag_body_def)
  also have "\<dots> = rd ?m (rs_frag_header r + 4) ?n @ rd ?m (rs_out_finger r) (length bs)"
    using le by (simp only: rd_add) simp
  also have "\<dots> = frag_body (m, r) @ bs" using le by (simp add: frag_body_def)
  finally have "frag_body ?st = frag_body (m, r) @ bs" .
  then show "rec_out tx ?st = rec_out tx (m, r) @ bs" and "rec_done tx ?st = rec_done tx (m, r)"
    using w by (simp_all add: rec_out_def rec_done_def)
  show "sink_inv tx ?st" using inv w room by (simp add: sink_inv_def)
qed

section \<open>The laws of a sink\<close>

text \<open>The finger at a unit of the buffer.\<close>

definition aligned :: "'h trecstrm \<Rightarrow> bool" where
  "aligned r \<longleftrightarrow> 4 dvd (rs_out_boundry r - rs_out_base r) \<and> 4 dvd (rs_out_finger r - rs_out_base r)"

lemma aligned_moves:
  assumes "aligned r" and "rs_out_base r' = rs_out_base r" "rs_out_boundry r' = rs_out_boundry r"
    and "rs_out_base r \<le> rs_out_finger r" "4 dvd n"
    and "rs_out_finger r' = rs_out_finger r + n \<or> rs_out_finger r' = rs_out_base r + n"
  shows "aligned r'"
proof -
  have "4 dvd (f - b) \<Longrightarrow> b \<le> f \<Longrightarrow> 4 dvd (f + n - b)" for f b :: nat
    using assms(5) by (metis dvd_add le_add_diff_inverse2 Nat.add_diff_assoc2 add.commute)
  then show ?thesis using assms by (auto simp: aligned_def)
qed

lemma xdrrec_putlong_ok:
  assumes inv: "sink_inv tx st"
  shows "\<exists>st'. xdrrec_putlong st l = Some (True, st') \<and> sink_inv tx st' \<and> rec_out tx st' = rec_out tx st @ be32 (ucast l)
    \<and> rec_done tx st' = rec_done tx st \<and> (aligned (snd st) \<longrightarrow> aligned (snd st'))"
proof -
  obtain m r where st: "st = (m, r)" by fastforce
  have put: "\<exists>st'. Some (True, wr m (rs_out_finger r) (be32 (ucast l)), r\<lparr>rs_out_finger := rs_out_finger r + 4\<rparr>) = Some (True, st')
      \<and> sink_inv tx st' \<and> rec_out tx st' = rec_out tx (m, r) @ be32 (ucast l) \<and> rec_done tx st' = rec_done tx (m, r) \<and> (aligned r \<longrightarrow> aligned (snd st'))"
    if "sink_inv tx (m, r)" "rs_out_finger r + 4 \<le> rs_out_boundry r" for m and r :: "'a trecstrm"
    using sink_append [OF that(1), of "be32 (ucast l)"] that
      aligned_moves [of r "r\<lparr>rs_out_finger := rs_out_finger r + 4\<rparr>" 4] by (auto simp: sink_inv_def)
  show ?thesis
  proof (cases "rs_out_finger r + 4 > rs_out_boundry r")
    case False
    with put [of m r] inv st show ?thesis by (simp add: xdrrec_putlong_def store32_htonl)
  next
    case True
    let ?r = "r\<lparr>rs_frag_sent := True\<rparr>"
    have "sink_inv tx (m, ?r)" using inv st by simp
    moreover have "False \<or> rs_frag_header ?r + 4 < rs_out_finger ?r"
      using inv st True by (auto simp: sink_inv_def)
    ultimately obtain m' r' where f: "tflush_out (m, ?r) False = (True, m', r')" "sink_inv tx (m', r')"
        "rs_out_boundry r' = rs_out_boundry r" "rs_out_finger r' = rs_out_base r + 4"
        "rec_done tx (m', r') = rec_done tx (m, r)" "rec_out tx (m', r') = rec_out tx (m, r)" "rs_out_base r' = rs_out_base r"
      by (rule tflush_out_ok) auto
    have "rs_out_finger r' + 4 \<le> rs_out_boundry r'" using inv st f(3,4) by (auto simp: sink_inv_def)
    moreover have "aligned r \<longrightarrow> aligned r'" using f(3,4,7) by (auto simp: aligned_def)
    ultimately show ?thesis using put [OF f(2)] f st True by (auto simp: xdrrec_putlong_def store32_htonl)
  qed
qed


text \<open>One turn of the loop of \<open>putbytes\<close> copies what fits and leaves room for more.\<close>

lemma chunk:
  assumes "f \<le> b" and "b - f < 2 ^ 31" and "c = min (unat (len :: 32 word)) (b - f)"
  shows "unat (if ucast len < (ptrdiff b f :: 64 word) then ucast len else (ptrdiff b f :: 64 word)) = c"
    and "len - ucast (if ucast len < (ptrdiff b f :: 64 word) then ucast len else (ptrdiff b f :: 64 word)) = of_nat (unat len - c)"
proof -
  let ?cur = "if ucast len < (ptrdiff b f :: 64 word) then ucast len else (ptrdiff b f :: 64 word)"
  have a: "unat (ptrdiff b f :: 64 word) = b - f"
    using assms(1,2) by (simp only: ptrdiff_le unat_of_nat) (simp add: take_bit_nat_eq_self)
  have "unat len < 2 ^ 64" using unsigned_less [of len, where 'a = nat] by simp
  then have u: "unat (ucast len :: 64 word) = unat len" by (simp add: unsigned_ucast_eq take_bit_nat_eq_self)
  show cur: "unat ?cur = c" using a u assms(3) by (simp add: word_less_nat_alt min_def)
  have "c \<le> unat len" using assms(3) by simp
  have "(ucast ?cur :: 32 word) = of_nat c"
    unfolding cur [symmetric] by (rule of_nat_unat [symmetric])
  then have "len - ucast ?cur = of_nat (unat len) - of_nat c" by simp
  also have "\<dots> = of_nat (unat len - c)" using \<open>c \<le> unat len\<close> by (rule of_nat_diff [symmetric])
  finally show "len - ucast ?cur = of_nat (unat len - c)" .
qed

lemma putbytes_turn:
  assumes inv: "sink_inv tx (m, r)" and len: "0 < len" "unat len \<le> length bs"
    and c: "c = min (unat len) (rs_out_boundry r - rs_out_finger r)"
  obtains m' r' where "xdrrec_putbytes (m, r) bs len = xdrrec_putbytes (m', r') (drop c bs) (of_nat (unat len - c))"
    and "sink_inv tx (m', r')" "rec_out tx (m', r') = rec_out tx (m, r) @ take c bs"
      "rec_done tx (m', r') = rec_done tx (m, r)" "rs_out_finger r' < rs_out_boundry r'"
      "aligned r \<longrightarrow> 4 dvd unat len \<longrightarrow> aligned r' \<and> 4 dvd (unat len - c)"
proof -
  let ?m = "wr m (rs_out_finger r) (take c bs)" and ?r = "r\<lparr>rs_out_finger := rs_out_finger r + c\<rparr>"
  have le: "rs_out_finger r \<le> rs_out_boundry r" "rs_out_boundry r - rs_out_finger r < 2 ^ 31"
    using inv by (auto simp: sink_inv_def)
  have step: "xdrrec_putbytes (m, r) bs len =
      (if rs_out_finger ?r = rs_out_boundry ?r then
         let (ok, st) = tflush_out (?m, ?r\<lparr>rs_frag_sent := True\<rparr>) False
         in if \<not> ok then Some (False, st) else xdrrec_putbytes st (drop c bs) (of_nat (unat len - c))
       else xdrrec_putbytes (?m, ?r) (drop c bs) (of_nat (unat len - c)))"
    by (subst xdrrec_putbytes.simps) (simp only: prod.case Let_def chunk [OF le c] len(1) if_True)
  have l: "length (take c bs) = c" "rs_out_finger r + c \<le> rs_out_boundry r" using c len(2) le by auto
  have app: "sink_inv tx (?m, ?r)" "rec_out tx (?m, ?r) = rec_out tx (m, r) @ take c bs"
      "rec_done tx (?m, ?r) = rec_done tx (m, r)"
    using sink_append [OF inv, of "take c bs"] l by simp_all
  have al: "4 dvd c \<and> 4 dvd (unat len - c)" if "aligned r" "4 dvd unat len"
  proof -
    have "rs_out_boundry r - rs_out_finger r = (rs_out_boundry r - rs_out_base r) - (rs_out_finger r - rs_out_base r)"
      using inv by (auto simp: sink_inv_def)
    then have "4 dvd (rs_out_boundry r - rs_out_finger r)"
      using that(1) unfolding aligned_def by (metis dvd_diff_nat)
    then show ?thesis using that(2) by (simp add: c min_def dvd_diff_nat)
  qed
  have base: "rs_out_base r \<le> rs_out_finger r" using inv by (auto simp: sink_inv_def)
  show thesis
  proof (cases "rs_out_finger ?r = rs_out_boundry ?r")
    case False
    then show thesis using step app l le al aligned_moves [of r ?r c] base by (intro that [of ?m ?r]) simp_all
  next
    case True
    have inv': "sink_inv tx (?m, ?r\<lparr>rs_frag_sent := True\<rparr>)" using app by (simp only: sink_frag_sent)
    have ne: "False \<or> rs_frag_header (?r\<lparr>rs_frag_sent := True\<rparr>) + 4 < rs_out_finger (?r\<lparr>rs_frag_sent := True\<rparr>)"
      using inv True by (auto simp: sink_inv_def)
    obtain m' r' where f: "tflush_out (?m, ?r\<lparr>rs_frag_sent := True\<rparr>) False = (True, m', r')" "sink_inv tx (m', r')"
        "rs_out_boundry r' = rs_out_boundry r" "rs_out_finger r' = rs_out_base r + 4"
        "rec_done tx (m', r') = rec_done tx (m, r)" "rec_out tx (m', r') = rec_out tx (m, r) @ take c bs"
        "rs_out_base r' = rs_out_base r"
      by (rule tflush_out_ok [OF inv' ne]) (simp add: app)
    have "rs_out_finger r' < rs_out_boundry r'" using inv f(3,4) by (auto simp: sink_inv_def)
    moreover have "aligned r \<Longrightarrow> aligned r'" using f(3,4,7) by (simp add: aligned_def)
    ultimately show thesis using step True f al by (intro that [of m' r']) simp_all
  qed
qed

lemma xdrrec_putbytes_0: "xdrrec_putbytes st bs 0 = Some (True, st)"
  by (subst xdrrec_putbytes.simps) (simp split: prod.splits)

lemma putbytes_room:
  assumes "sink_inv tx (m, r)" and "unat len \<le> length bs" and "rs_out_finger r < rs_out_boundry r"
  shows "\<exists>st'. xdrrec_putbytes (m, r) bs len = Some (True, st') \<and> sink_inv tx st'
    \<and> rec_out tx st' = rec_out tx (m, r) @ take (unat len) bs \<and> rec_done tx st' = rec_done tx (m, r)
    \<and> (aligned r \<longrightarrow> 4 dvd unat len \<longrightarrow> aligned (snd st'))"
  using assms
proof (induction "unat len" arbitrary: m r bs len rule: less_induct)
  case less
  show ?case
  proof (cases "len > 0")
    case False
    then have "len = 0" by (simp add: word_gt_0)
    then show ?thesis using less.prems by (simp add: xdrrec_putbytes_0)
  next
    case True
    define c where "c = min (unat len) (rs_out_boundry r - rs_out_finger r)"
    obtain m' r' where t: "xdrrec_putbytes (m, r) bs len = xdrrec_putbytes (m', r') (drop c bs) (of_nat (unat len - c))"
        "sink_inv tx (m', r')" "rec_out tx (m', r') = rec_out tx (m, r) @ take c bs"
        "rec_done tx (m', r') = rec_done tx (m, r)" "rs_out_finger r' < rs_out_boundry r'"
        "aligned r \<longrightarrow> 4 dvd unat len \<longrightarrow> aligned r' \<and> 4 dvd (unat len - c)"
      by (rule putbytes_turn [OF less.prems(1) True less.prems(2) c_def])
    have lt: "unat len - c < 2 ^ 32" using unsigned_less [of len, where 'a = nat] by simp
    have n: "unat (of_nat (unat len - c) :: 32 word) = unat len - c" by (rule unat_of_nat32 [OF lt])
    have "0 < c" using True less.prems(3) by (simp add: c_def unat_gt_0 word_gt_0)
    then have "unat (of_nat (unat len - c) :: 32 word) < unat len" using n True by (simp add: c_def word_gt_0 unat_gt_0)
    moreover have "unat (of_nat (unat len - c) :: 32 word) \<le> length (drop c bs)" using less.prems(2) n by simp
    ultimately obtain st' where
      "xdrrec_putbytes (m', r') (drop c bs) (of_nat (unat len - c)) = Some (True, st')" "sink_inv tx st'"
      "rec_out tx st' = rec_out tx (m', r') @ take (unat len - c) (drop c bs)" "rec_done tx st' = rec_done tx (m', r')"
      "aligned r' \<longrightarrow> 4 dvd (unat len - c) \<longrightarrow> aligned (snd st')"
      using less.hyps t(2,5) n by metis
    moreover have "take c bs @ take (unat len - c) (drop c bs) = take (unat len) bs"
      using take_add [of c "unat len - c" bs] by (simp add: c_def)
    ultimately show ?thesis using t by simp
  qed
qed

lemma xdrrec_putbytes_ok:
  assumes "sink_inv tx st" and "unat len \<le> length bs"
  shows "\<exists>st'. xdrrec_putbytes st bs len = Some (True, st') \<and> sink_inv tx st'
    \<and> rec_out tx st' = rec_out tx st @ take (unat len) bs \<and> rec_done tx st' = rec_done tx st
    \<and> (aligned (snd st) \<longrightarrow> 4 dvd unat len \<longrightarrow> aligned (snd st'))"
proof (cases "len > 0")
  case False
  then have "len = 0" by (simp add: word_gt_0)
  then show ?thesis using assms by (simp add: xdrrec_putbytes_0)
next
  case True
  obtain m r where st: "st = (m, r)" by fastforce
  define c where "c = min (unat len) (rs_out_boundry r - rs_out_finger r)"
  have inv: "sink_inv tx (m, r)" using assms st by simp
  obtain m' r' where t: "xdrrec_putbytes (m, r) bs len = xdrrec_putbytes (m', r') (drop c bs) (of_nat (unat len - c))"
      "sink_inv tx (m', r')" "rec_out tx (m', r') = rec_out tx (m, r) @ take c bs"
      "rec_done tx (m', r') = rec_done tx (m, r)" "rs_out_finger r' < rs_out_boundry r'"
      "aligned r \<longrightarrow> 4 dvd unat len \<longrightarrow> aligned r' \<and> 4 dvd (unat len - c)"
    by (rule putbytes_turn [OF inv True assms(2) c_def])
  have lt: "unat len - c < 2 ^ 32" using unsigned_less [of len, where 'a = nat] by simp
  have n: "unat (of_nat (unat len - c) :: 32 word) = unat len - c" by (rule unat_of_nat32 [OF lt])
  have "take c bs @ take (unat len - c) (drop c bs) = take (unat len) bs"
    using take_add [of c "unat len - c" bs] by (simp add: c_def)
  moreover have "unat (of_nat (unat len - c) :: 32 word) \<le> length (drop c bs)" using assms(2) n by simp
  then obtain st' where "xdrrec_putbytes (m', r') (drop c bs) (of_nat (unat len - c)) = Some (True, st')" "sink_inv tx st'"
      "rec_out tx st' = rec_out tx (m', r') @ take (unat len - c) (drop c bs)" "rec_done tx st' = rec_done tx (m', r')"
      "aligned r' \<longrightarrow> 4 dvd (unat len - c) \<longrightarrow> aligned (snd st')"
    using putbytes_room [OF t(2) _ t(5)] n by metis
  ultimately show ?thesis using t st by simp
qed


text \<open>An in-line buffer lies in the output buffer; what the caller writes there has been put.\<close>

lemma xdrrec_inline_ok:
  assumes inv: "sink_inv tx (m, r)"
  shows "xdrrec_inline XDR_ENCODE (m, r) len = (0, m, r) \<or>
    (\<exists>buf m' r'. xdrrec_inline XDR_ENCODE (m, r) len = (buf, m', r') \<and> buf \<noteq> 0 \<and>
      (\<forall>bs. length bs = unat len \<longrightarrow> sink_inv tx (wr m' buf bs, r') \<and> rec_out tx (wr m' buf bs, r') = rec_out tx (m, r) @ bs
        \<and> rec_done tx (wr m' buf bs, r') = rec_done tx (m, r)))"
proof (cases "rs_out_finger r + unat len \<le> rs_out_boundry r")
  case True
  have "sink_inv tx (wr m (rs_out_finger r) bs, r\<lparr>rs_out_finger := rs_out_finger r + unat len\<rparr>)
      \<and> rec_out tx (wr m (rs_out_finger r) bs, r\<lparr>rs_out_finger := rs_out_finger r + unat len\<rparr>) = rec_out tx (m, r) @ bs
      \<and> rec_done tx (wr m (rs_out_finger r) bs, r\<lparr>rs_out_finger := rs_out_finger r + unat len\<rparr>) = rec_done tx (m, r)"
    if "length bs = unat len" for bs
    using sink_append [OF inv, of bs] True that by simp
  moreover have "rs_out_finger r \<noteq> 0" using inv by (auto simp: sink_inv_def)
  ultimately show ?thesis using True by (simp add: xdrrec_inline_def)
qed (simp add: xdrrec_inline_def)

definition record_inv :: "('h \<Rightarrow> byte list) \<Rightarrow> byte list list \<Rightarrow> mem \<times> 'h trecstrm \<Rightarrow> bool" where
  "record_inv tx rs st \<longleftrightarrow> sink_inv tx st \<and> rec_done tx st = rs"

text \<open>The records before the one in the making stay what they are.\<close>

interpretation rec_sink: xdr_inline_sink xdrrec_ops "record_inv tx rs" "rec_out tx" "\<lambda>_ _. True" xdrrec_inline for tx rs
proof
  fix st :: "mem \<times> 'a trecstrm" and n l
  assume "record_inv tx rs st"
  then show "\<exists>st'. x_putlong xdrrec_ops st l = Some (True, st') \<and> record_inv tx rs st'
      \<and> rec_out tx st' = rec_out tx st @ be32 (ucast l) \<and> True"
    using xdrrec_putlong_ok [of tx st l] by (auto simp: xdrrec_ops_def record_inv_def)
next
  fix st :: "mem \<times> 'a trecstrm" and len :: "32 word" and n and bs :: "byte list"
  assume "record_inv tx rs st" and "unat len \<le> length bs"
  then show "\<exists>st'. x_putbytes xdrrec_ops st bs len = Some (True, st') \<and> record_inv tx rs st'
      \<and> rec_out tx st' = rec_out tx st @ take (unat len) bs \<and> True"
    using xdrrec_putbytes_ok [of tx st len bs] by (auto simp: xdrrec_ops_def record_inv_def)
next
  fix st :: "mem \<times> 'a trecstrm" and len n
  assume "record_inv tx rs st"
  then show "xdrrec_inline XDR_ENCODE st len = (0, st) \<or>
      (\<exists>buf st'. xdrrec_inline XDR_ENCODE st len = (buf, st') \<and> buf \<noteq> 0 \<and>
         (\<forall>bs. length bs = unat len \<longrightarrow> record_inv tx rs (wr (fst st') buf bs, snd st') \<and>
            rec_out tx (wr (fst st') buf bs, snd st') = rec_out tx st @ bs \<and> True))"
    using xdrrec_inline_ok [of tx "fst st" "snd st" len] by (cases st) (auto simp: record_inv_def)
qed (simp_all add: xdrrec_ops_def)

section \<open>The end of a record\<close>

lemma xdrrec_endofrecord_ok:
  assumes inv: "sink_inv tx (m, r)" and al: "sendnow \<or> 4 dvd (rs_out_boundry r - rs_out_finger r)"
  obtains m' r' where "xdrrec_endofrecord (m, r) sendnow = (True, m', r')" and "sink_inv tx (m', r')"
    and "rec_done tx (m', r') = rec_done tx (m, r) @ [rec_out tx (m, r)]" and "rec_out tx (m', r') = []"
    and "sendnow \<Longrightarrow> wire tx (m', r') = tx (rs_handle r')"
    and "rs_out_base r' = rs_out_base r" "rs_out_boundry r' = rs_out_boundry r"
      "rs_out_finger r' = rs_out_base r + 4 \<or> rs_out_finger r' = rs_out_finger r + 4"
proof (cases "sendnow \<or> rs_frag_sent r \<or> rs_out_boundry r \<le> rs_out_finger r + 4")
  case True
  let ?r = "r\<lparr>rs_frag_sent := False\<rparr>"
  have "sink_inv tx (m, ?r)" using inv by simp
  moreover have "True \<or> rs_frag_header ?r + 4 < rs_out_finger ?r" by simp
  ultimately obtain m' r' where f: "tflush_out (m, ?r) True = (True, m', r')" "sink_inv tx (m', r')"
      "rs_out_base r' = rs_out_base ?r" "rs_out_boundry r' = rs_out_boundry ?r" "rs_out_finger r' = rs_out_base ?r + 4"
      "wire tx (m', r') = tx (rs_handle r')"
      "rec_done tx (m', r') = rec_done tx (m, ?r) @ (if True then [rec_out tx (m, ?r)] else [])"
      "rec_out tx (m', r') = (if True then [] else rec_out tx (m, ?r))"
    by (rule tflush_out_ok)
  show thesis
    by (rule that [of m' r']) (use True f in \<open>simp_all add: xdrrec_endofrecord_def\<close>)
next
  case False
  let ?n = "rs_out_finger r - (rs_frag_header r + 4)"
  let ?hd = "be32 (of_nat ?n OR TLAST_FRAG)"
  let ?m = "wr m (rs_frag_header r) ?hd" and ?r = "r\<lparr>rs_frag_header := rs_out_finger r, rs_out_finger := rs_out_finger r + 4\<rparr>"
  have le: "rs_out_base r \<le> rs_frag_header r" "rs_frag_header r + 4 \<le> rs_out_finger r" and lt: "?n < 2 ^ 31"
    using inv by (auto simp: sink_inv_def)
  have "(ucast (of_nat k :: 64 word) :: 32 word) = of_nat k" for k by transfer simp
  then have e: "xdrrec_endofrecord (m, r) sendnow = (True, ?m, ?r)"
    using False le by (simp add: xdrrec_endofrecord_def Let_def store32_htonl ptrdiff_le [of "rs_frag_header r + 4"] del: of_nat_diff)
  have "rs_out_finger r - rs_out_base r = (rs_frag_header r - rs_out_base r) + (4 + ?n)" using le by simp
  then have "rd ?m (rs_out_base r) (rs_out_finger r - rs_out_base r) =
      rd ?m (rs_out_base r) (rs_frag_header r - rs_out_base r) @ rd ?m (rs_frag_header r) 4 @ rd ?m (rs_frag_header r + 4) ?n"
    using le by (simp only: rd_add) simp
  then have w: "wire tx (?m, ?r) = wire tx (m, r) @ frag (True, frag_body (m, r))"
    using le by (simp add: wire_def frag_def frag_body_def)
  have l: "length (frag_body (m, r)) < 2 ^ 31" using lt by (simp add: frag_body_def)
  have u: "unfrag (wire tx (?m, ?r)) = unfrag (wire tx (m, r)) @ [(True, frag_body (m, r))]"
    using wire_unfrag [OF inv l] w by simp
  have b: "frag_body (?m, ?r) = []" by (simp add: frag_body_def)
  show thesis
  proof (rule that [OF e])
    obtain fs where fs: "wire tx (m, r) = concat (map frag fs)" "list_all wf_frag fs"
      using inv by (auto simp: sink_inv_def)
    have "wire tx (?m, ?r) = concat (map frag (fs @ [(True, frag_body (m, r))]))"
      and "list_all wf_frag (fs @ [(True, frag_body (m, r))])"
      using w fs l by (simp_all add: wf_frag_def)
    then have "\<exists>fs. wire tx (?m, ?r) = concat (map frag fs) \<and> list_all wf_frag fs" by blast
    moreover have "rs_out_finger r + 8 \<le> rs_out_boundry r"
    proof -
      have "4 dvd (rs_out_boundry r - rs_out_finger r)" "4 < rs_out_boundry r - rs_out_finger r"
        using al False by auto
      then show ?thesis by presburger
    qed
    ultimately show "sink_inv tx (?m, ?r)" using inv by (simp add: sink_inv_def)
  qed (use False u b in \<open>simp_all add: rec_done_def rec_out_def records_snoc Let_def split: prod.splits\<close>)
qed


section \<open>A new stream\<close>

lemma tfix_buf_size_bounds:
  assumes "unat s < 2 ^ 31 - 4"
  shows "100 \<le> unat (tfix_buf_size s)" and "unat (tfix_buf_size s) < 2 ^ 31" and "4 dvd unat (tfix_buf_size s)"
proof -
  define t where "t = (if s < 100 then 4000 else s)"
  have t: "unat t < 2 ^ 31 - 4" "100 \<le> unat t"
    using assms by (auto simp: t_def word_less_nat_alt)
  then have "unat (tfix_buf_size s) = unat t + pad (unat t)"
    unfolding tfix_buf_size_def t_def [symmetric] by (intro unat_RNDUP) simp
  moreover have "4 dvd (unat t + pad (unat t))" unfolding pad_def by presburger
  ultimately show "100 \<le> unat (tfix_buf_size s)" and "unat (tfix_buf_size s) < 2 ^ 31" and "4 dvd unat (tfix_buf_size s)"
    using t pad_less [of "unat t"] by simp_all
qed

text \<open>The handle \<open>xdrrec_create\<close> makes when the allocations succeed.\<close>

lemma xdrrec_create_sink:
  assumes "sends tx wr_it" and "tx h = []" and "0 < obase" and "unat ssize0 < 2 ^ 31 - 4"
    and xdrs'_def: "xdrs' = xdrrec_create True (Some obase) (Some ibase) raw ssize0 rsize0 h rd_it wr_it xdrs"
  shows "sink_inv tx (xst xdrs')" and "rec_done tx (xst xdrs') = []" and "rec_out tx (xst xdrs') = []"
    and "4 dvd (rs_out_boundry (x_private xdrs') - rs_out_base (x_private xdrs'))"
    and "rs_out_finger (x_private xdrs') = rs_out_base (x_private xdrs') + 4"
    and "x_ops xdrs' = xdrrec_ops" "x_op xdrs' = x_op xdrs"
proof -
  note b = tfix_buf_size_bounds [OF assms(4)]
  have w: "wire tx (xst xdrs') = []" "frag_body (xst xdrs') = []"
    using assms(2) by (simp_all add: wire_def frag_body_def xdrs'_def xdrrec_create_def xst_def Let_def)
  then have "\<exists>fs. wire tx (xst xdrs') = concat (map frag fs) \<and> list_all wf_frag fs"
    by (intro exI [of _ "[]"]) simp
  then show "sink_inv tx (xst xdrs')"
    using b assms(1,3) by (simp add: sink_inv_def xdrs'_def xdrrec_create_def xst_def Let_def)
  show "rec_done tx (xst xdrs') = []" "rec_out tx (xst xdrs') = []" by (simp_all add: rec_done_def rec_out_def w)
  show "4 dvd (rs_out_boundry (x_private xdrs') - rs_out_base (x_private xdrs'))"
    and "rs_out_finger (x_private xdrs') = rs_out_base (x_private xdrs') + 4"
    and "x_ops xdrs' = xdrrec_ops" "x_op xdrs' = x_op xdrs"
    using b by (simp_all add: xdrs'_def xdrrec_create_def Let_def)
qed

section \<open>Sequences of operations\<close>

text \<open>The calls a client makes, and what they mean for the records.\<close>

datatype rec_op = Put_long "64 word" | Put_bytes "byte list" | End_record bool

fun rec_step :: "rec_op \<Rightarrow> mem \<times> 'h trecstrm \<Rightarrow> (bool \<times> mem \<times> 'h trecstrm) option" where
  "rec_step (Put_long l) st = xdrrec_putlong st l"
| "rec_step (Put_bytes bs) st = xdrrec_putbytes st bs (of_nat (length bs))"
| "rec_step (End_record sendnow) st = Some (xdrrec_endofrecord st sendnow)"

fun rec_run :: "rec_op list \<Rightarrow> mem \<times> 'h trecstrm \<Rightarrow> (bool \<times> mem \<times> 'h trecstrm) option" where
  "rec_run [] st = Some (True, st)"
| "rec_run (q # qs) st = do { (ok, st) \<leftarrow> rec_step q st; if ok then rec_run qs st else Some (False, st) }"

fun spec_step :: "rec_op \<Rightarrow> byte list list \<times> byte list \<Rightarrow> byte list list \<times> byte list" where
  "spec_step (Put_long l) (rs, cur) = (rs, cur @ be32 (ucast l))"
| "spec_step (Put_bytes bs) (rs, cur) = (rs, cur @ bs)"
| "spec_step (End_record sendnow) (rs, cur) = (rs @ [cur], [])"

text \<open>Whole units only, as the filters put them.\<close>

fun whole :: "rec_op \<Rightarrow> bool" where
  "whole (Put_long l) \<longleftrightarrow> True"
| "whole (Put_bytes bs) \<longleftrightarrow> 4 dvd length bs \<and> length bs < 2 ^ 32"
| "whole (End_record sendnow) \<longleftrightarrow> True"


lemma rec_step_ok:
  assumes inv: "sink_inv tx st" "aligned (snd st)" and q: "whole q"
  shows "\<exists>st'. rec_step q st = Some (True, st') \<and> sink_inv tx st' \<and> aligned (snd st')
    \<and> (rec_done tx st', rec_out tx st') = spec_step q (rec_done tx st, rec_out tx st)"
proof (cases q)
  case (Put_long l)
  then show ?thesis using xdrrec_putlong_ok [OF inv(1), of l] inv(2) by auto
next
  case (Put_bytes bs)
  then have "unat (of_nat (length bs) :: 32 word) = length bs" "4 dvd length bs" using q by (auto simp: unat_of_nat32)
  then show ?thesis using xdrrec_putbytes_ok [OF inv(1), of "of_nat (length bs)" bs] inv(2) Put_bytes by auto
next
  case (End_record sendnow)
  obtain m r where st: "st = (m, r)" by fastforce
  have le: "rs_out_base r \<le> rs_out_finger r" "rs_out_finger r \<le> rs_out_boundry r" using inv(1) st by (auto simp: sink_inv_def)
  then have "rs_out_boundry r - rs_out_finger r = (rs_out_boundry r - rs_out_base r) - (rs_out_finger r - rs_out_base r)" by simp
  then have "sendnow \<or> 4 dvd (rs_out_boundry r - rs_out_finger r)"
    using inv(2) st unfolding aligned_def by (metis dvd_diff_nat snd_conv)
  with inv(1) obtain m' r' where e: "xdrrec_endofrecord (m, r) sendnow = (True, m', r')" "sink_inv tx (m', r')"
      "rec_done tx (m', r') = rec_done tx (m, r) @ [rec_out tx (m, r)]" "rec_out tx (m', r') = []"
      "rs_out_base r' = rs_out_base r" "rs_out_boundry r' = rs_out_boundry r"
      "rs_out_finger r' = rs_out_base r + 4 \<or> rs_out_finger r' = rs_out_finger r + 4"
    unfolding st by (rule xdrrec_endofrecord_ok)
  have "aligned r'" by (rule aligned_moves [of r r' 4]) (use inv(2) st e le in auto)
  with e show ?thesis by (simp add: End_record st)
qed

lemma rec_run_ok:
  assumes "sink_inv tx st" "aligned (snd st)" and "list_all whole qs"
  shows "\<exists>st'. rec_run qs st = Some (True, st') \<and> sink_inv tx st'
    \<and> (rec_done tx st', rec_out tx st') = fold spec_step qs (rec_done tx st, rec_out tx st)"
  using assms
proof (induction qs arbitrary: st)
  case (Cons q qs)
  obtain st' where s: "rec_step q st = Some (True, st')" "sink_inv tx st'" "aligned (snd st')"
      "(rec_done tx st', rec_out tx st') = spec_step q (rec_done tx st, rec_out tx st)"
    using rec_step_ok [of tx st q] Cons.prems by auto
  from Cons.IH [OF s(2,3)] Cons.prems(3) s(1,4) show ?case by auto
qed simp

section \<open>Properties\<close>

text \<open>
  C24: Over a transport that takes what it is given, no call on a new stream fails, and what
  is on the wire and in the buffer stands for exactly the records that were written: for
  every sequence of longs, of blocks of whole units and of ends of records, sent at once or
  batched, and for every size of the buffer, reading the fragments off the wire gives the
  written records, whole and in order, and the bytes of the unfinished one.
\<close>

theorem records_on_the_wire:
  assumes "sends tx wr_it" and "tx h = []" and "0 < obase" and "unat ssize < 2 ^ 31 - 4" and "list_all whole qs"
  shows "\<exists>m r. rec_run qs (xst (xdrrec_create True (Some obase) (Some ibase) raw ssize rsize h rd_it wr_it xdrs)) = Some (True, m, r)
    \<and> (let (done, part) = records (unfrag (wire tx (m, r))) [] in (done, part @ frag_body (m, r)) = fold spec_step qs ([], []))"
proof -
  define x where "x = xdrrec_create True (Some obase) (Some ibase) raw ssize rsize h rd_it wr_it xdrs"
  note c = xdrrec_create_sink [OF assms(1-4) x_def]
  have "aligned (snd (xst x))" using c(4,5) by (simp add: aligned_def xst_def)
  from rec_run_ok [OF c(1) this assms(5)] c(2,3) show ?thesis
    unfolding x_def [symmetric] by (auto simp: rec_done_def rec_out_def case_prod_unfold Let_def)
qed

text \<open>A transport that keeps what was written to it and has nothing to read; a structure of zeros.\<close>

definition zero_recstrm :: "byte list trecstrm" where
  "zero_recstrm = \<lparr>rs_handle = [], rs_writeit = (\<lambda>h bs. (int (length bs), h @ bs)), rs_out_base = 0, rs_out_finger = 0,
     rs_out_boundry = 0, rs_frag_header = 0, rs_frag_sent = False, rs_readit = (\<lambda>h n. (-1, [], h)),
     rs_eagain = (\<lambda>_. False), rs_in_size = 0, rs_in_base = 0, rs_in_finger = 0, rs_in_boundry = 0, rs_fbtbc = 0,
     rs_last_frag = False, rs_sendsize = 0, rs_recvsize = 0, rs_nonblock = False, rs_in_haveheader = False,
     rs_in_header = 0, rs_in_hdrlen = 0, rs_in_reclen = 0, rs_in_received = 0, rs_in_maxrec = 0\<rparr>"

definition zero_rec :: "xdr_op \<Rightarrow> byte list trecstrm XDR" where
  "zero_rec op = \<lparr>x_op = op, x_ops = xdrrec_ops, x_mem = (\<lambda>_. 0), x_private = zero_recstrm\<rparr>"

lemma records_on_the_wire_witness:
  "\<exists>m r. rec_run [Put_long 7, End_record False, Put_bytes [1, 2, 3, 4], End_record True]
      (xst (xdrrec_create True (Some 1000) (Some 9000) zero_recstrm 0 0 [] (\<lambda>h n. (-1, [], h))
        (\<lambda>h bs. (int (length bs), h @ bs)) (zero_rec XDR_ENCODE))) = Some (True, m, r)
    \<and> (let (done, part) = records (unfrag (wire id (m, r))) []
       in (done, part @ frag_body (m, r)) = ([be32 7, [1, 2, 3, 4]], []))"
proof -
  have "(4 :: nat) dvd Suc (Suc (Suc (Suc 0)))" by (simp add: numeral_eq_Suc)
  then show ?thesis
    using records_on_the_wire [of id "\<lambda>h bs. (int (length bs), h @ bs)" "[]" 1000 0
      "[Put_long 7, End_record False, Put_bytes [1, 2, 3, 4], End_record True]" 9000 zero_recstrm 0 "\<lambda>h n. (-1, [], h)"
      "zero_rec XDR_ENCODE"] by (simp add: sends_def)
qed

end
