(* ===== verification/Rec_Source.thy ===== *)
theory Rec_Source
  imports Rec_Sink
begin

text \<open>
  The receiving side of \<open>xdr_rec.c\<close> on a blocking transport: whatever pieces the bytes come
  in, the stream is a source of the filters that gives the bytes of the current record, and
  \<open>xdrrec_skiprecord\<close> goes to the next one.
\<close>

section \<open>The input buffer\<close>

text \<open>
  A transport that delivers: \<open>rx h\<close> is what is still to come on it.  A read gives at least one
  byte of it; when nothing is to come any more, the read fails.
\<close>

definition receives :: "('h \<Rightarrow> byte list) \<Rightarrow> ('h \<Rightarrow> nat \<Rightarrow> int \<times> byte list \<times> 'h) \<Rightarrow> bool" where
  "receives rx rd_it \<longleftrightarrow> (\<forall>h n. 0 < n \<longrightarrow>
     (if rx h = [] then fst (rd_it h n) = -1
      else (\<exists>bs h'. rd_it h n = (int (length bs), bs, h') \<and> bs \<noteq> [] \<and> length bs \<le> n \<and> rx h = bs @ rx h')))"

definition raw :: "('h \<Rightarrow> byte list) \<Rightarrow> mem \<times> 'h trecstrm \<Rightarrow> byte list" where
  "raw rx = (\<lambda>(m, r). rd m (rs_in_finger r) (rs_in_boundry r - rs_in_finger r) @ rx (rs_handle r))"

definition buf_inv :: "('h \<Rightarrow> byte list) \<Rightarrow> 'h trecstrm \<Rightarrow> bool" where
  "buf_inv rx r \<longleftrightarrow> \<not> rs_nonblock r \<and> 0 < rs_in_base r \<and> rs_in_base r \<le> rs_in_finger r
     \<and> rs_in_finger r \<le> rs_in_boundry r \<and> rs_in_boundry r \<le> rs_in_base r + unat (rs_in_size r)
     \<and> 8 \<le> unat (rs_in_size r) \<and> unat (rs_in_size r) < 2 ^ 31 \<and> receives rx (rs_readit r)"

text \<open>Only the transport and the positions in the buffer differ.\<close>

definition frame :: "'h trecstrm \<Rightarrow> 'h trecstrm \<Rightarrow> bool" where
  "frame r r' \<longleftrightarrow> (\<exists>h f b. r' = r\<lparr>rs_handle := h, rs_in_finger := f, rs_in_boundry := b\<rparr>)"

lemma frame_refl [simp]: "frame r r"
  unfolding frame_def by (intro exI [of _ "rs_handle r"] exI [of _ "rs_in_finger r"] exI [of _ "rs_in_boundry r"]) simp

lemma frame_finger [simp]: "frame r (r\<lparr>rs_in_finger := f\<rparr>)"
  unfolding frame_def by (intro exI [of _ "rs_handle r"] exI [of _ f] exI [of _ "rs_in_boundry r"]) simp

lemma frame_trans: "frame r s \<Longrightarrow> frame s t \<Longrightarrow> frame r t"
  unfolding frame_def by fastforce

lemma frame_fields:
  "frame r r' \<Longrightarrow> rs_fbtbc r' = rs_fbtbc r \<and> rs_last_frag r' = rs_last_frag r \<and> rs_nonblock r' = rs_nonblock r"
  unfolding frame_def by auto

lemma sint_small: "unat (w :: 32 word) < 2 ^ 31 \<Longrightarrow> sint w = int (unat w)"
  using sint_of_nat31 [of "unat w"] by simp

lemma fill_request:
  assumes "i < 4" and "8 \<le> unat (sz :: 64 word)" and "unat sz < 2 ^ 31"
  shows "nat (sint (ucast (sz - of_nat i) :: 32 word)) = unat sz - i"
proof -
  let ?w = "ucast (sz - of_nat i) :: 32 word"
  have "unat (of_nat i :: 64 word) = i" using assms(1) by (simp add: unat_of_nat take_bit_nat_eq_self)
  then have "unat (sz - of_nat i) = unat sz - i"
    using assms(1,2) by (subst unat_sub) (simp_all only: word_le_nat_alt)
  then have uw: "unat ?w = unat sz - i"
    using assms(3) by (simp only: unsigned_ucast_eq) (simp add: take_bit_nat_eq_self)
  have "unat ?w < 2 ^ 31" using uw assms(3) by linarith
  then have "nat (sint ?w) = unat ?w" by (simp only: sint_small nat_int)
  then show ?thesis by (simp only: uw)
qed

lemma refill:
  assumes inv: "buf_inv rx r" and empty: "rs_in_finger r = rs_in_boundry r" and more: "rx (rs_handle r) \<noteq> []"
  obtains m' r' where "tfill_input_buf (m, r) = (True, m', r')" and "buf_inv rx r'" and "raw rx (m', r') = raw rx (m, r)"
    and "rs_in_finger r' < rs_in_boundry r'" and "frame r r'"
proof -
  let ?i = "rs_in_boundry r mod 4"
  let ?n = "unat (rs_in_size r) - ?i" and ?whr = "rs_in_base r + ?i"
  have sz: "8 \<le> unat (rs_in_size r)" "unat (rs_in_size r) < 2 ^ 31" and nb: "\<not> rs_nonblock r"
    and tr: "receives rx (rs_readit r)" and base: "0 < rs_in_base r"
    using inv by (auto simp: buf_inv_def)
  have i: "?i < 4" by simp
  note n = fill_request [OF i sz]
  have n0: "0 < ?n" using sz(1) i by linarith
  obtain bs h' where rd: "rs_readit r (rs_handle r) ?n = (int (length bs), bs, h')"
      "bs \<noteq> []" "length bs \<le> ?n" "rx (rs_handle r) = bs @ rx h'"
  proof -
    have "if rx (rs_handle r) = [] then fst (rs_readit r (rs_handle r) ?n) = -1
      else (\<exists>bs h'. rs_readit r (rs_handle r) ?n = (int (length bs), bs, h') \<and> bs \<noteq> [] \<and> length bs \<le> ?n
        \<and> rx (rs_handle r) = bs @ rx h')"
      using tr n0 unfolding receives_def by blast
    with more show thesis by (simp only: if_False) (elim exE conjE, rule that)
  qed
  let ?r = "r\<lparr>rs_handle := h', rs_in_finger := ?whr, rs_in_boundry := ?whr + length bs\<rparr>"
  have e: "tfill_input_buf (m, r) = (True, wr m ?whr bs, ?r)"
  proof -
    have "nat (int ?whr + int (length bs)) = ?whr + length bs" by (simp only: nat_int_add)
    moreover have "int (length bs) \<noteq> -1" by simp
    ultimately show ?thesis
      using nb by (simp only: tfill_input_buf_def Let_def prod.case n rd(1) if_False trecstrm.simps)
  qed
  have "buf_inv rx ?r" using inv rd(2,3) n0 by (auto simp: buf_inv_def)
  moreover have "raw rx (wr m ?whr bs, ?r) = raw rx (m, r)" using empty rd(4) by (simp add: raw_def)
  moreover have "rs_in_finger ?r < rs_in_boundry ?r" using rd(2) by simp
  moreover have "frame r ?r" unfolding frame_def by (intro exI) (rule refl)
  ultimately show thesis using e by (intro that)
qed


text \<open>Bytes in the buffer are taken from its front.\<close>

lemma raw_take:
  assumes "rs_in_finger r + c \<le> rs_in_boundry r" and "c \<le> length bs" and "raw rx (m, r) = bs @ rs"
  shows "rd m (rs_in_finger r) c = take c bs"
    and "raw rx (m, r\<lparr>rs_in_finger := rs_in_finger r + c\<rparr>) = drop c bs @ rs"
proof -
  have e: "raw rx (m, r) = rd m (rs_in_finger r) c @ raw rx (m, r\<lparr>rs_in_finger := rs_in_finger r + c\<rparr>)"
  proof -
    have "rs_in_boundry r - rs_in_finger r = c + (rs_in_boundry r - (rs_in_finger r + c))" using assms(1) by simp
    then have "rd m (rs_in_finger r) (rs_in_boundry r - rs_in_finger r) =
        rd m (rs_in_finger r) c @ rd m (rs_in_finger r + c) (rs_in_boundry r - (rs_in_finger r + c))"
      by (simp only: rd_add)
    then show ?thesis by (simp add: raw_def)
  qed
  show "rd m (rs_in_finger r) c = take c bs"
    using arg_cong [OF e, of "take c"] assms(2,3) by simp
  show "raw rx (m, r\<lparr>rs_in_finger := rs_in_finger r + c\<rparr>) = drop c bs @ rs"
    using arg_cong [OF e, of "drop c"] assms(2,3) by simp
qed

lemma buf_inv_finger:
  "buf_inv rx r \<Longrightarrow> rs_in_finger r + c \<le> rs_in_boundry r \<Longrightarrow> buf_inv rx (r\<lparr>rs_in_finger := rs_in_finger r + c\<rparr>)"
  by (simp add: buf_inv_def)

lemma sless_small: "unat (len :: 32 word) < 2 ^ 31 \<Longrightarrow> 0 <s len \<longleftrightarrow> 0 < unat len"
  by (simp only: word_sless_alt sint_small sint_0 of_nat_0_less_iff)

lemma scast_small32: "unat (len :: 32 word) < 2 ^ 31 \<Longrightarrow> (scast len :: 64 word) = ucast len"
  by (simp add: scast_eq sint_small unsigned_word_eqI)


lemma ptrdiff_nonzero:
  assumes "f < b" and "b - f < 2 ^ 31"
  shows "(ptrdiff b f :: 64 word) \<noteq> 0" and "(ptrdiff b f :: 32 word) \<noteq> 0"
proof -
  have "unat (ptrdiff b f :: 64 word) = b - f" "unat (ptrdiff b f :: 32 word) = b - f"
    using assms by (simp_all only: ptrdiff_le [OF less_imp_le] unat_of_nat) (simp_all add: take_bit_nat_eq_self)
  then show "(ptrdiff b f :: 64 word) \<noteq> 0" and "(ptrdiff b f :: 32 word) \<noteq> 0" using assms(1) by auto
qed

lemma buf_inv_room: "buf_inv rx r \<Longrightarrow> rs_in_boundry r - rs_in_finger r < 2 ^ 31"
  by (auto simp: buf_inv_def)

lemma input_loop_0: "input_loop st 0 got = Some (True, got, st)"
  by (subst input_loop.simps) simp

lemma input_loop_copy:
  assumes inv: "buf_inv rx r" and some: "rs_in_finger r < rs_in_boundry r" and len: "0 < unat len" "unat len < 2 ^ 31"
    and c: "c = min (unat len) (rs_in_boundry r - rs_in_finger r)"
  shows "input_loop (m, r) len got = input_loop (m, r\<lparr>rs_in_finger := rs_in_finger r + c\<rparr>) (of_nat (unat len - c))
    (got @ rd m (rs_in_finger r) c)"
proof -
  note ch = chunk [OF less_imp_le [OF some] buf_inv_room [OF inv] c]
  show ?thesis
    using len(1) ptrdiff_nonzero(1) [OF some buf_inv_room [OF inv]]
    by (subst input_loop.simps) (simp only: Let_def fst_conv snd_conv sless_small [OF len(2)] scast_small32 [OF len(2)] ch if_True if_False)
qed

lemma input_loop_refill:
  assumes inv: "buf_inv rx r" and len: "0 < unat len" "unat len < 2 ^ 31" and raw: "raw rx (m, r) \<noteq> []"
  obtains m' r' where "input_loop (m, r) len got = input_loop (m', r') len got" and "buf_inv rx r'"
    and "raw rx (m', r') = raw rx (m, r)" and "rs_in_finger r' < rs_in_boundry r'" and "frame r r'"
proof (cases "rs_in_finger r < rs_in_boundry r")
  case True
  then show thesis using inv by (intro that [of m r]) simp_all
next
  case False
  then have e: "rs_in_finger r = rs_in_boundry r" using inv by (auto simp: buf_inv_def)
  with raw have "rx (rs_handle r) \<noteq> []" by (simp add: raw_def)
  then obtain m' r' where f: "tfill_input_buf (m, r) = (True, m', r')" "buf_inv rx r'" "raw rx (m', r') = raw rx (m, r)"
      "rs_in_finger r' < rs_in_boundry r'" "frame r r'"
    by (rule refill [OF inv e])
  have "input_loop (m, r) len got = input_loop (m', r') len got"
    using len(1) by (subst input_loop.simps)
      (simp only: Let_def fst_conv snd_conv e ptrdiff_self sless_small [OF len(2)] if_True f(1) prod.case simp_thms if_False)
  with f show thesis by (intro that)
qed

lemma input_loop_takes:
  assumes "buf_inv rx r" and "raw rx (m, r) = bs @ rs" and "length bs = unat len" and "unat len < 2 ^ 31"
  shows "\<exists>m' r'. input_loop (m, r) len got = Some (True, got @ bs, m', r') \<and> buf_inv rx r' \<and> raw rx (m', r') = rs \<and> frame r r'"
  using assms
proof (induction "unat len" arbitrary: m r len bs got rule: less_induct)
  case less
  show ?case
  proof (cases "unat len = 0")
    case True
    then have "len = 0" by (simp add: unat_eq_0)
    then show ?thesis using less.prems by (auto simp: input_loop_0)
  next
    case False
    then have pos: "0 < unat len" by simp
    have "raw rx (m, r) \<noteq> []" using less.prems(2,3) pos by auto
    then obtain m1 r1 where 1: "input_loop (m, r) len got = input_loop (m1, r1) len got" "buf_inv rx r1"
        "raw rx (m1, r1) = raw rx (m, r)" "rs_in_finger r1 < rs_in_boundry r1" "frame r r1"
      by (rule input_loop_refill [OF less.prems(1) pos less.prems(4)])
    define c where "c = min (unat len) (rs_in_boundry r1 - rs_in_finger r1)"
    let ?r2 = "r1\<lparr>rs_in_finger := rs_in_finger r1 + c\<rparr>"
    have c: "0 < c" "c \<le> unat len" "rs_in_finger r1 + c \<le> rs_in_boundry r1" using pos 1(4) by (auto simp: c_def)
    have raw1: "raw rx (m1, r1) = bs @ rs" using 1(3) less.prems(2) by simp
    have c': "c \<le> length bs" using c(2) less.prems(3) by simp
    note t = raw_take [OF c(3) c' raw1]
    have "unat len - c < 2 ^ 32" using less.prems(4) by simp
    then have n: "unat (of_nat (unat len - c) :: 32 word) = unat len - c" by (rule unat_of_nat32)
    have "unat (of_nat (unat len - c) :: 32 word) < unat len" using n c by linarith
    moreover have "length (drop c bs) = unat (of_nat (unat len - c) :: 32 word)" using n less.prems(3) by simp
    moreover have "unat (of_nat (unat len - c) :: 32 word) < 2 ^ 31" unfolding n using less.prems(4) by simp
    ultimately obtain m' r' where "input_loop (m1, ?r2) (of_nat (unat len - c)) (got @ take c bs) =
        Some (True, (got @ take c bs) @ drop c bs, m', r')" "buf_inv rx r'" "raw rx (m', r') = rs" "frame ?r2 r'"
      using less.hyps [OF _ buf_inv_finger [OF 1(2) c(3)] t(2)] by blast
    moreover have "frame r ?r2" using 1(5) frame_trans frame_finger by blast
    ultimately show ?thesis
      using 1(1) input_loop_copy [OF 1(2,4) pos less.prems(4) c_def] t(1) frame_trans by auto
  qed
qed


lemma get_input_bytes_takes:
  assumes inv: "buf_inv rx r" and "raw rx (m, r) = bs @ rs" and "length bs = unat len" and "unat len < 2 ^ 31"
  obtains m' r' where "tget_input_bytes (m, r) len = Some (True, bs, m', r')" and "buf_inv rx r'"
    and "raw rx (m', r') = rs" and "frame r r'"
proof -
  obtain m' r' where "input_loop (m, r) len [] = Some (True, [] @ bs, m', r')" "buf_inv rx r'" "raw rx (m', r') = rs" "frame r r'"
    using input_loop_takes [OF assms] by blast
  moreover have "\<not> rs_nonblock r" using inv by (simp add: buf_inv_def)
  ultimately show thesis by (intro that) (simp_all add: tget_input_bytes_def)
qed

text \<open>A fragment's header sets the two fields that \<open>frame\<close> keeps.\<close>

lemma set_input_fragment_takes:
  assumes inv: "buf_inv rx r" and raw: "raw rx (m, r) = frag (eor, b) @ rs" and wf: "wf_frag (eor, b)"
  obtains m' r' where "tset_input_fragment (m, r) = Some (True, m', r')" and "buf_inv rx r'"
    and "raw rx (m', r') = b @ rs" and "rs_last_frag r' = eor" and "unat (rs_fbtbc r') = length b"
proof -
  let ?h = "of_nat (length b) OR (if eor then TLAST_FRAG else 0) :: 32 word"
  have l: "length b < 2 ^ 31" and ne: "eor \<or> b \<noteq> []" using wf by (auto simp: wf_frag_def)
  note hb = frag_header_bits [OF l, of eor]
  have nz: "?h \<noteq> 0"
  proof
    assume h0: "?h = 0"
    then have "\<not> eor" using hb(2) by auto
    moreover have "(of_nat (length b) :: 32 word) = 0" using hb(1) h0 by simp
    then have "length b = 0" using unat_header [OF l] by simp
    ultimately show False using ne by simp
  qed
  have u4: "unat (4 :: 32 word) = 4" by simp
  have "raw rx (m, r) = be32 ?h @ (b @ rs)" using raw by (simp add: frag_def)
  then obtain m1 r1 where g: "tget_input_bytes (m, r) 4 = Some (True, be32 ?h, m1, r1)" "buf_inv rx r1"
      "raw rx (m1, r1) = b @ rs" "frame r r1"
    using get_input_bytes_takes [OF inv, of m "be32 ?h" "b @ rs" 4] u4 by (simp only: length_be32) auto
  let ?r = "r1\<lparr>rs_last_frag := eor, rs_fbtbc := ucast (of_nat (length b) :: 32 word)\<rparr>"
  have nb: "\<not> rs_nonblock r" using inv by (simp add: buf_inv_def)
  show thesis
  proof (rule that)
    show "tset_input_fragment (m, r) = Some (True, m1, ?r)"
      using nb nz by (simp only: tset_input_fragment_def snd_conv if_False g(1) bind.bind_lunit prod.case Let_def
          simp_thms ntohl_of_le32_be32 hb)
    show "buf_inv rx ?r" using g(2) by (simp add: buf_inv_def)
    show "raw rx (m1, ?r) = b @ rs" using g(3) by (simp add: raw_def)
    have "unat (of_nat (length b) :: 32 word) < 2 ^ 64" using l by (simp add: unat_header)
    then show "unat (rs_fbtbc ?r) = length b"
      using unat_header [OF l] by (simp add: unsigned_ucast_eq take_bit_nat_eq_self)
  qed simp
qed

section \<open>Skipping\<close>

lemma skip_input_bytes_0: "tskip_input_bytes st 0 = Some (True, st)"
  by (subst tskip_input_bytes.simps) simp

lemma sint_small64: "unat (n :: 64 word) < 2 ^ 31 \<Longrightarrow> sint n = int (unat n)"
proof -
  have "sint (of_nat k :: 64 word) = int k" if "k < 2 ^ 31" for k
    using that by (simp add: signed_of_nat signed_take_bit_eq_if_positive bit_nat_iff bit_iff_odd take_bit_int_def)
  from this [of "unat n"] show "unat n < 2 ^ 31 \<Longrightarrow> sint n = int (unat n)" by simp
qed

lemma skip_chunk:
  assumes "f \<le> b" and "b - f < 2 ^ 31" and "unat (cnt :: 64 word) < 2 ^ 31" and "c = min (unat cnt) (b - f)"
  shows "unat (if cnt <s ucast (ptrdiff b f :: 32 word) then ucast cnt else (ptrdiff b f :: 32 word)) = c"
    and "cnt - ucast (if cnt <s ucast (ptrdiff b f :: 32 word) then ucast cnt else (ptrdiff b f :: 32 word)) = of_nat (unat cnt - c)"
proof -
  let ?p = "ptrdiff b f :: 32 word"
  let ?cur = "if cnt <s ucast ?p then ucast cnt else ?p"
  have p: "unat ?p = b - f" using assms(1,2) by (rule unat_ptrdiff32)
  then have up: "unat (ucast ?p :: 64 word) = b - f"
    using assms(2) by (simp add: unsigned_ucast_eq take_bit_nat_eq_self)
  have uc: "unat (ucast cnt :: 32 word) = unat cnt"
    using assms(3) by (simp add: unsigned_ucast_eq take_bit_nat_eq_self)
  have lt: "cnt <s ucast ?p \<longleftrightarrow> unat cnt < b - f"
    using assms(2,3) up by (simp only: word_sless_alt sint_small64 of_nat_less_iff)
  show cur: "unat ?cur = c" using p uc lt assms(4) by (simp add: min_def)
  have "(ucast ?cur :: 64 word) = of_nat c" unfolding cur [symmetric] by (rule of_nat_unat [symmetric])
  then have "cnt - ucast ?cur = of_nat (unat cnt) - of_nat c" by simp
  also have "\<dots> = of_nat (unat cnt - c)" using assms(4) by (simp add: of_nat_diff)
  finally show "cnt - ucast ?cur = of_nat (unat cnt - c)" .
qed

lemma skip_loop_copy:
  assumes inv: "buf_inv rx r" and some: "rs_in_finger r < rs_in_boundry r" and cnt: "0 < unat cnt" "unat cnt < 2 ^ 31"
    and c: "c = min (unat cnt) (rs_in_boundry r - rs_in_finger r)"
  shows "tskip_input_bytes (m, r) cnt = tskip_input_bytes (m, r\<lparr>rs_in_finger := rs_in_finger r + c\<rparr>) (of_nat (unat cnt - c))"
proof -
  note ch = skip_chunk [OF less_imp_le [OF some] buf_inv_room [OF inv] cnt(2) c]
  have "0 <s cnt" using cnt by (simp only: word_sless_alt sint_small64 sint_0 of_nat_0_less_iff)
  then show ?thesis
    using ptrdiff_nonzero(2) [OF some buf_inv_room [OF inv]]
    by (subst tskip_input_bytes.simps) (simp only: Let_def fst_conv snd_conv ch if_True if_False)
qed

lemma skip_loop_refill:
  assumes inv: "buf_inv rx r" and cnt: "0 < unat cnt" "unat cnt < 2 ^ 31" and raw: "raw rx (m, r) \<noteq> []"
  obtains m' r' where "tskip_input_bytes (m, r) cnt = tskip_input_bytes (m', r') cnt" and "buf_inv rx r'"
    and "raw rx (m', r') = raw rx (m, r)" and "rs_in_finger r' < rs_in_boundry r'" and "frame r r'"
proof (cases "rs_in_finger r < rs_in_boundry r")
  case True
  then show thesis using inv by (intro that [of m r]) simp_all
next
  case False
  then have e: "rs_in_finger r = rs_in_boundry r" using inv by (auto simp: buf_inv_def)
  with raw have "rx (rs_handle r) \<noteq> []" by (simp add: raw_def)
  then obtain m' r' where f: "tfill_input_buf (m, r) = (True, m', r')" "buf_inv rx r'" "raw rx (m', r') = raw rx (m, r)"
      "rs_in_finger r' < rs_in_boundry r'" "frame r r'"
    by (rule refill [OF inv e])
  have "0 <s cnt" using cnt by (simp only: word_sless_alt sint_small64 sint_0 of_nat_0_less_iff)
  then have "tskip_input_bytes (m, r) cnt = tskip_input_bytes (m', r') cnt"
    by (subst tskip_input_bytes.simps)
      (simp only: Let_def fst_conv snd_conv e ptrdiff_self if_True f(1) prod.case simp_thms if_False)
  with f show thesis by (intro that)
qed

lemma skip_input_bytes_takes:
  assumes "buf_inv rx r" and "raw rx (m, r) = bs @ rs" and "length bs = unat cnt" and "unat cnt < 2 ^ 31"
  shows "\<exists>m' r'. tskip_input_bytes (m, r) cnt = Some (True, m', r') \<and> buf_inv rx r' \<and> raw rx (m', r') = rs \<and> frame r r'"
  using assms
proof (induction "unat cnt" arbitrary: m r cnt bs rule: less_induct)
  case less
  show ?case
  proof (cases "unat cnt = 0")
    case True
    then have "cnt = 0" by (simp add: unat_eq_0)
    then show ?thesis using less.prems by (auto simp: skip_input_bytes_0)
  next
    case False
    then have pos: "0 < unat cnt" by simp
    have "raw rx (m, r) \<noteq> []" using less.prems(2,3) pos by auto
    then obtain m1 r1 where 1: "tskip_input_bytes (m, r) cnt = tskip_input_bytes (m1, r1) cnt" "buf_inv rx r1"
        "raw rx (m1, r1) = raw rx (m, r)" "rs_in_finger r1 < rs_in_boundry r1" "frame r r1"
      by (rule skip_loop_refill [OF less.prems(1) pos less.prems(4)])
    define c where "c = min (unat cnt) (rs_in_boundry r1 - rs_in_finger r1)"
    let ?r2 = "r1\<lparr>rs_in_finger := rs_in_finger r1 + c\<rparr>"
    have c: "0 < c" "c \<le> unat cnt" "rs_in_finger r1 + c \<le> rs_in_boundry r1" using pos 1(4) by (auto simp: c_def)
    have raw1: "raw rx (m1, r1) = bs @ rs" using 1(3) less.prems(2) by simp
    have c': "c \<le> length bs" using c(2) less.prems(3) by simp
    note t = raw_take [OF c(3) c' raw1]
    have "unat cnt - c < 2 ^ 64" using less.prems(4) by simp
    then have n: "unat (of_nat (unat cnt - c) :: 64 word) = unat cnt - c"
      by (simp only: unat_of_nat) (simp add: take_bit_nat_eq_self)
    have "unat (of_nat (unat cnt - c) :: 64 word) < unat cnt" using n c by linarith
    moreover have "length (drop c bs) = unat (of_nat (unat cnt - c) :: 64 word)" using n less.prems(3) by simp
    moreover have "unat (of_nat (unat cnt - c) :: 64 word) < 2 ^ 31" unfolding n using less.prems(4) by simp
    ultimately obtain m' r' where "tskip_input_bytes (m1, ?r2) (of_nat (unat cnt - c)) = Some (True, m', r')"
        "buf_inv rx r'" "raw rx (m', r') = rs" "frame ?r2 r'"
      using less.hyps [OF _ buf_inv_finger [OF 1(2) c(3)] t(2)] by blast
    moreover have "frame r ?r2" using 1(5) frame_trans frame_finger by blast
    ultimately show ?thesis
      using 1(1) skip_loop_copy [OF 1(2,4) pos less.prems(4) c_def] frame_trans by auto
  qed
qed


section \<open>The current record\<close>

text \<open>The fragments up to the last one of a record, and the bytes they hold.\<close>

fun ends_record :: "(bool \<times> byte list) list \<Rightarrow> bool" where
  "ends_record [] = False"
| "ends_record ((eor, b) # fs) = (if eor then fs = [] else ends_record fs)"

fun first_record :: "(bool \<times> byte list) list \<Rightarrow> byte list" where
  "first_record [] = []"
| "first_record ((eor, b) # fs) = b @ (if eor then [] else first_record fs)"

definition bodies :: "(bool \<times> byte list) list \<Rightarrow> byte list" where
  "bodies fs = concat (map snd fs)"

lemma bodies_simps [simp]: "bodies [] = []" "bodies (f # fs) = snd f @ bodies fs"
  by (simp_all add: bodies_def)

lemma first_record_ends: "ends_record fs \<Longrightarrow> first_record (fs @ gs) = bodies fs"
  by (induction fs rule: ends_record.induct) (auto split: if_splits)

text \<open>
  The state in a record: \<open>cur\<close> is left of the current fragment, \<open>fs\<close> are the fragments
  that end the record, and \<open>ftr\<close> is what follows it.
\<close>

definition in_record :: "('h \<Rightarrow> byte list) \<Rightarrow> byte list \<Rightarrow> (bool \<times> byte list) list \<Rightarrow> byte list \<Rightarrow> mem \<times> 'h trecstrm \<Rightarrow> bool" where
  "in_record rx cur fs ftr = (\<lambda>(m, r). buf_inv rx r \<and> raw rx (m, r) = cur @ concat (map frag fs) @ ftr
     \<and> length cur = unat (rs_fbtbc r) \<and> length cur < 2 ^ 31 \<and> list_all wf_frag fs
     \<and> (if rs_last_frag r then fs = [] else ends_record fs))"

definition rec_rest :: "('h \<Rightarrow> byte list) \<Rightarrow> mem \<times> 'h trecstrm \<Rightarrow> byte list" where
  "rec_rest rx = (\<lambda>(m, r). let w = raw rx (m, r); n = unat (rs_fbtbc r)
     in take n w @ (if rs_last_frag r then [] else first_record (unfrag (drop n w))))"

definition source_inv :: "('h \<Rightarrow> byte list) \<Rightarrow> byte list \<Rightarrow> mem \<times> 'h trecstrm \<Rightarrow> bool" where
  "source_inv rx ftr st \<longleftrightarrow> (\<exists>cur fs. in_record rx cur fs ftr st)"

lemma rec_rest_eq: "in_record rx cur fs ftr st \<Longrightarrow> rec_rest rx st = cur @ bodies fs"
  by (cases st) (auto simp: in_record_def rec_rest_def unfrag_concat first_record_ends)

lemma source_inv_in: "in_record rx cur fs ftr st \<Longrightarrow> source_inv rx ftr st"
  unfolding source_inv_def by blast

text \<open>The loop of \<open>getbytes\<close>: a piece of the current fragment, or the next fragment.\<close>

lemma getbytes_loop_0: "trec_getbytes_loop st buf off 0 = Some (True, buf, st)"
  by (subst trec_getbytes_loop.simps) simp

lemma fbtbc32:
  assumes "unat (w :: 64 word) < 2 ^ 31"
  shows "unat (ucast w :: 32 word) = unat w"
  using assms by (simp add: unsigned_ucast_eq take_bit_nat_eq_self)

lemma fbtbc_minus:
  assumes "unat (w :: 64 word) < 2 ^ 31" and "unat (c :: 32 word) \<le> unat w"
  shows "unat (w - scast c) = unat w - unat c"
proof -
  have c: "unat c < 2 ^ 31" using assms by simp
  then have "unat (scast c :: 64 word) = unat c"
    by (simp only: scast_small32 unsigned_ucast_eq) (simp add: take_bit_nat_eq_self)
  then show ?thesis using assms(2) by (subst unat_sub) (simp_all only: word_le_nat_alt)
qed

lemma getbytes_loop_piece:
  assumes st: "in_record rx cur fs ftr (m, r)" and cur: "cur \<noteq> []" and len: "0 < unat len"
    and c: "c = min (unat len) (length cur)"
  obtains m' r' where "trec_getbytes_loop (m, r) buf off len =
      trec_getbytes_loop (m', r') (patch buf off (take c cur)) (off + c) (of_nat (unat len - c))"
    and "in_record rx (drop c cur) fs ftr (m', r')"
proof -
  let ?b = "ucast (rs_fbtbc r) :: 32 word"
  let ?c = "if len < ?b then len else ?b"
  have f: "length cur = unat (rs_fbtbc r)" "unat (rs_fbtbc r) < 2 ^ 31" and inv: "buf_inv rx r"
    and raw: "raw rx (m, r) = cur @ concat (map frag fs) @ ftr"
    using st by (auto simp: in_record_def)
  have ub: "unat ?b = length cur" using fbtbc32 [OF f(2)] f(1) by simp
  then have uc: "unat ?c = c" using c by (simp add: word_less_nat_alt min_def)
  have b0: "?b \<noteq> 0" using ub cur by auto
  have len0: "0 < len" using len by (simp add: word_less_nat_alt)
  have raw': "raw rx (m, r) = take c cur @ (drop c cur @ concat (map frag fs) @ ftr)" using raw by simp
  have lc: "length (take c cur) = unat ?c" using uc c by simp
  have "unat ?c < 2 ^ 31" using uc c f by simp
  then obtain m' r1 where g: "tget_input_bytes (m, r) ?c = Some (True, take c cur, m', r1)" "buf_inv rx r1"
      "raw rx (m', r1) = drop c cur @ concat (map frag fs) @ ftr" "frame r r1"
    by (rule get_input_bytes_takes [OF inv raw' lc])
  let ?r = "r1\<lparr>rs_fbtbc := rs_fbtbc r1 - scast ?c\<rparr>"
  have fr: "rs_fbtbc r1 = rs_fbtbc r" "rs_last_frag r1 = rs_last_frag r" using frame_fields [OF g(4)] by auto
  have lenc: "len - ?c = of_nat (unat len - c)"
  proof -
    have "len - ?c = of_nat (unat len) - of_nat (unat ?c)" by simp
    also have "\<dots> = of_nat (unat len - c)" unfolding uc using c by (simp add: of_nat_diff)
    finally show ?thesis .
  qed
  show thesis
  proof (rule that)
    show "trec_getbytes_loop (m, r) buf off len =
        trec_getbytes_loop (m', ?r) (patch buf off (take c cur)) (off + c) (of_nat (unat len - c))"
      by (subst trec_getbytes_loop.simps)
        (simp only: len0 if_True Let_def snd_conv b0 if_False g(1) bind.bind_lunit prod.case simp_thms uc lenc)
    have "unat (rs_fbtbc ?r) = length (drop c cur)"
      using fbtbc_minus [OF f(2), of ?c] uc c f(1) fr by simp
    then show "in_record rx (drop c cur) fs ftr (m', ?r)"
      using st g(2,3) fr by (auto simp: in_record_def buf_inv_def raw_def)
  qed
qed

lemma getbytes_loop_next:
  assumes st: "in_record rx [] ((eor, b) # fs) ftr (m, r)" and len: "0 < unat len"
  obtains m' r' where "trec_getbytes_loop (m, r) buf off len = trec_getbytes_loop (m', r') buf off len"
    and "in_record rx b fs ftr (m', r')"
proof -
  have f: "rs_fbtbc r = 0" "\<not> rs_last_frag r" and inv: "buf_inv rx r" and wf: "wf_frag (eor, b)" "list_all wf_frag fs"
    and raw: "raw rx (m, r) = frag (eor, b) @ (concat (map frag fs) @ ftr)" and e: "ends_record ((eor, b) # fs)"
    using st by (auto simp: in_record_def unat_eq_0 split: if_splits)
  obtain m' r' where g: "tset_input_fragment (m, r) = Some (True, m', r')" "buf_inv rx r'"
      "raw rx (m', r') = b @ (concat (map frag fs) @ ftr)" "rs_last_frag r' = eor" "unat (rs_fbtbc r') = length b"
    by (rule set_input_fragment_takes [OF inv raw wf(1)])
  have len0: "0 < len" using len by (simp add: word_less_nat_alt)
  have f0: "(ucast (rs_fbtbc r) :: 32 word) = 0" by (simp add: f(1))
  show thesis
  proof (rule that)
    show "trec_getbytes_loop (m, r) buf off len = trec_getbytes_loop (m', r') buf off len"
      by (subst trec_getbytes_loop.simps)
        (simp only: len0 if_True Let_def snd_conv f0 f(2) if_False g(1) bind.bind_lunit prod.case simp_thms)
    show "in_record rx b fs ftr (m', r')"
      using g wf e by (auto simp: in_record_def wf_frag_def)
  qed
qed

lemma getbytes_loop_end:
  assumes st: "in_record rx [] [] ftr (m, r)" and len: "0 < unat len"
  shows "trec_getbytes_loop (m, r) buf off len = Some (False, buf, m, r)"
proof -
  have f: "rs_fbtbc r = 0" "rs_last_frag r"
    using st by (auto simp: in_record_def unat_eq_0 split: if_splits)
  have len0: "0 < len" using len by (simp add: word_less_nat_alt)
  have f0: "(ucast (rs_fbtbc r) :: 32 word) = 0" by (simp add: f(1))
  show ?thesis
    by (subst trec_getbytes_loop.simps) (simp only: len0 if_True Let_def snd_conv f0 f(2) simp_thms)
qed


lemma patch_patch:
  "off \<le> length buf \<Longrightarrow> patch (patch buf off xs) (off + length xs) ys = patch buf off (xs @ ys)"
  by (simp add: patch_def add.assoc) (simp add: add.commute add.left_commute)

lemma length_patch: "off \<le> length buf \<Longrightarrow> off + length xs \<le> length (patch buf off xs)"
  by (simp add: patch_def)

lemma patch_Nil: "patch buf off [] = buf"
  by (simp add: patch_def)

text \<open>How the loop ends: with what was asked for, or with failure when the record is too short.\<close>

definition taken :: "('h \<Rightarrow> byte list) \<Rightarrow> byte list \<Rightarrow> mem \<times> 'h trecstrm \<Rightarrow> byte list \<Rightarrow> nat \<Rightarrow> 32 word \<Rightarrow> byte list \<Rightarrow> bool" where
  "taken rx ftr st buf off len bs \<longleftrightarrow>
     (if unat len \<le> length bs
      then (\<exists>st' cur fs. trec_getbytes_loop st buf off len = Some (True, patch buf off (take (unat len) bs), st')
        \<and> in_record rx cur fs ftr st' \<and> cur @ bodies fs = drop (unat len) bs)
      else (\<exists>buf' st'. trec_getbytes_loop st buf off len = Some (False, buf', st')))"

lemma taken_0: "in_record rx cur fs ftr st \<Longrightarrow> taken rx ftr st buf off 0 (cur @ bodies fs)"
  by (auto simp: taken_def getbytes_loop_0 patch_Nil)

lemma taken_piece:
  assumes e: "trec_getbytes_loop st buf off len = trec_getbytes_loop st1 (patch buf off (take c bs)) (off + c) (of_nat (unat len - c))"
    and c: "c \<le> unat len" "c \<le> length bs" and off: "off \<le> length buf"
    and t: "taken rx ftr st1 (patch buf off (take c bs)) (off + c) (of_nat (unat len - c)) (drop c bs)"
  shows "taken rx ftr st buf off len bs"
proof -
  have "unat len - c < 2 ^ 32" using unsigned_less [of len, where 'a = nat] by simp
  then have n: "unat (of_nat (unat len - c) :: 32 word) = unat len - c" by (rule unat_of_nat32)
  have p: "patch (patch buf off (take c bs)) (off + c) (take (unat len - c) (drop c bs)) = patch buf off (take (unat len) bs)"
    using patch_patch [OF off, of "take c bs"] c take_add [of c "unat len - c" bs] by simp
  have d: "drop (unat len - c) (drop c bs) = drop (unat len) bs" using c by simp
  have l: "unat len - c \<le> length (drop c bs) \<longleftrightarrow> unat len \<le> length bs" using c by auto
  show ?thesis using t unfolding taken_def e n p d l .
qed

lemma taken_cur:
  assumes st: "in_record rx cur fs ftr st" and off: "off \<le> length buf"
    and empty: "\<And>st buf off len. in_record rx [] fs ftr st \<Longrightarrow> off \<le> length buf \<Longrightarrow> taken rx ftr st buf off len (bodies fs)"
  shows "taken rx ftr st buf off len (cur @ bodies fs)"
proof (cases "cur = [] \<or> unat len = 0")
  case True
  then show ?thesis
  proof
    assume "cur = []"
    then show ?thesis using empty [OF _ off] st by simp
  next
    assume "unat len = 0"
    then show ?thesis using taken_0 [OF st] by (simp add: unat_eq_0)
  qed
next
  case False
  obtain m r where mr: "st = (m, r)" by fastforce
  define c where "c = min (unat len) (length cur)"
  have len: "0 < unat len" and cur: "cur \<noteq> []" using False by auto
  obtain m' r' where p: "trec_getbytes_loop (m, r) buf off len =
      trec_getbytes_loop (m', r') (patch buf off (take c cur)) (off + c) (of_nat (unat len - c))"
    "in_record rx (drop c cur) fs ftr (m', r')"
    by (rule getbytes_loop_piece [OF st [unfolded mr] cur len c_def])
  have c: "c \<le> unat len" "c \<le> length (cur @ bodies fs)" "take c (cur @ bodies fs) = take c cur"
      "drop c (cur @ bodies fs) = drop c cur @ bodies fs"
    by (simp_all add: c_def)
  have off': "off + c \<le> length (patch buf off (take c cur))"
    using length_patch [OF off, of "take c cur"] by (simp add: c_def)
  have "taken rx ftr (m', r') (patch buf off (take c cur)) (off + c) (of_nat (unat len - c)) (drop c cur @ bodies fs)"
  proof (cases "unat len \<le> length cur")
    case True
    then show ?thesis using taken_0 [OF p(2)] by (simp add: c_def)
  next
    case F: False
    then have "drop c cur = []" by (simp add: c_def)
    then show ?thesis using empty [OF _ off'] p(2) by simp
  qed
  then show ?thesis
    unfolding mr by (intro taken_piece [OF _ c(1,2) off]) (simp_all only: c(3,4) p(1))
qed

lemma getbytes_loop_takes:
  "in_record rx cur fs ftr st \<Longrightarrow> off \<le> length buf \<Longrightarrow> taken rx ftr st buf off len (cur @ bodies fs)"
proof (induction fs arbitrary: cur st buf off len)
  case Nil
  have "taken rx ftr st buf off len (bodies [])" if st: "in_record rx [] [] ftr st" for st buf off len
  proof (cases "unat len = 0")
    case True
    then show ?thesis using taken_0 [OF st] by (simp add: unat_eq_0)
  next
    case False
    then show ?thesis using st getbytes_loop_end [of rx ftr "fst st" "snd st" len buf off] by (simp add: taken_def)
  qed
  from taken_cur [OF Nil this] show ?case .
next
  case (Cons f fs)
  obtain eor b where f: "f = (eor, b)" by fastforce
  have "taken rx ftr st buf off len (bodies (f # fs))" if st: "in_record rx [] (f # fs) ftr st" and off: "off \<le> length buf"
    for st buf off len
  proof (cases "unat len = 0")
    case True
    then show ?thesis using taken_0 [OF st] by (simp add: unat_eq_0)
  next
    case False
    then obtain m' r' where n: "trec_getbytes_loop st buf off len = trec_getbytes_loop (m', r') buf off len"
        "in_record rx b fs ftr (m', r')"
      using getbytes_loop_next [of rx eor b fs ftr "fst st" "snd st" len buf off] st f by (auto simp: word_gt_0)
    have "taken rx ftr (m', r') buf off len (b @ bodies fs)" by (rule Cons.IH [OF n(2) off])
    then show ?thesis unfolding taken_def n(1) f bodies_simps snd_conv .
  qed
  from taken_cur [OF Cons.prems this] show ?case .
qed


section \<open>The laws of a source\<close>

lemma xdrrec_getbytes_ok:
  assumes "source_inv rx ftr st" and "rec_rest rx st = bs @ rs" and "length bs = unat len"
  shows "\<exists>st'. xdrrec_getbytes st buf len = Some (True, fill buf bs, st') \<and> source_inv rx ftr st' \<and> rec_rest rx st' = rs"
proof -
  obtain cur fs where st: "in_record rx cur fs ftr st" using assms(1) by (auto simp: source_inv_def)
  have e: "cur @ bodies fs = bs @ rs" using rec_rest_eq [OF st] assms(2) by simp
  from getbytes_loop_takes [OF st le0, of buf len] e assms(3) obtain st' cur' fs' where
    g: "trec_getbytes_loop st buf 0 len = Some (True, patch buf 0 bs, st')" "in_record rx cur' fs' ftr st'" "cur' @ bodies fs' = rs"
    by (auto simp: taken_def)
  then show ?thesis using rec_rest_eq [OF g(2)] source_inv_in [OF g(2)] by (cases st') (simp add: xdrrec_getbytes_def patch_0)
qed

lemma xdrrec_getbytes_short:
  assumes "source_inv rx ftr st" and "length (rec_rest rx st) < unat len"
  shows "\<exists>buf' st'. xdrrec_getbytes st buf len = Some (False, buf', st')"
proof -
  obtain cur fs where st: "in_record rx cur fs ftr st" using assms(1) by (auto simp: source_inv_def)
  from getbytes_loop_takes [OF st le0, of buf len] rec_rest_eq [OF st] assms(2) show ?thesis
    by (auto simp: taken_def xdrrec_getbytes_def)
qed

text \<open>What lies in the buffer and in the current fragment can be taken directly.\<close>

lemma in_record_take:
  assumes st: "in_record rx cur fs ftr (m, r)" and c: "c \<le> length cur" "rs_in_finger r + c \<le> rs_in_boundry r"
  shows "rd m (rs_in_finger r) c = take c cur"
    and "in_record rx (drop c cur) fs ftr (m, r\<lparr>rs_fbtbc := rs_fbtbc r - of_nat c, rs_in_finger := rs_in_finger r + c\<rparr>)"
proof -
  have raw: "raw rx (m, r) = cur @ (concat (map frag fs) @ ftr)" and inv: "buf_inv rx r"
    and l: "length cur = unat (rs_fbtbc r)" "length cur < 2 ^ 31"
    using st by (auto simp: in_record_def)
  note t = raw_take [OF c(2,1) raw]
  show "rd m (rs_in_finger r) c = take c cur" by (rule t(1))
  have "unat (of_nat c :: 64 word) = c" using c(1) l by (simp add: unat_of_nat take_bit_nat_eq_self)
  then have "unat (rs_fbtbc r - of_nat c) = unat (rs_fbtbc r) - c"
    using c(1) l by (subst unat_sub) (simp_all add: word_le_nat_alt)
  then show "in_record rx (drop c cur) fs ftr (m, r\<lparr>rs_fbtbc := rs_fbtbc r - of_nat c, rs_in_finger := rs_in_finger r + c\<rparr>)"
    using st t(2) buf_inv_finger [OF inv c(2)] l by (auto simp: in_record_def raw_def buf_inv_def)
qed

lemma ptrdiff_ge4:
  assumes "f \<le> b" and "b - f < 2 ^ 31"
  shows "4 \<le> (ptrdiff b f :: 64 word) \<longleftrightarrow> f + 4 \<le> b"
proof -
  have "unat (ptrdiff b f :: 64 word) = b - f"
    using assms by (simp only: ptrdiff_le unat_of_nat) (simp add: take_bit_nat_eq_self)
  then show ?thesis using assms(1) by (simp add: word_le_nat_alt) linarith
qed

lemma xdrrec_getlong_ok:
  assumes inv: "source_inv rx ftr st" and rest: "rec_rest rx st = be32 w @ rs"
  shows "\<exists>st'. xdrrec_getlong st l = Some (True, ucast w, st') \<and> source_inv rx ftr st' \<and> rec_rest rx st' = rs"
proof -
  obtain m r where mr: "st = (m, r)" by fastforce
  obtain cur fs where st: "in_record rx cur fs ftr (m, r)" using inv mr by (auto simp: source_inv_def)
  have buf: "buf_inv rx r" and l: "length cur = unat (rs_fbtbc r)" using st by (auto simp: in_record_def)
  have e: "cur @ bodies fs = be32 w @ rs" using rec_rest_eq [OF st] rest mr by simp
  show ?thesis
  proof (cases "4 \<le> rs_fbtbc r \<and> 4 \<le> (ptrdiff (rs_in_boundry r) (rs_in_finger r) :: 64 word)")
    case True
    have c: "4 \<le> length cur" "rs_in_finger r + 4 \<le> rs_in_boundry r"
      using True l ptrdiff_ge4 [OF _ buf_inv_room [OF buf]] buf by (auto simp: word_le_nat_alt buf_inv_def)
    note t = in_record_take [OF st c]
    have w: "take 4 cur = be32 w" "drop 4 cur @ bodies fs = rs"
      using arg_cong [OF e, of "take 4"] arg_cong [OF e, of "drop 4"] c(1) by simp_all
    have "ntohl (load32 m (rs_in_finger r)) = w" by (simp add: load32_def t(1) w(1))
    then show ?thesis
      using True source_inv_in [OF t(2)] rec_rest_eq [OF t(2)] w(2) mr by (simp add: xdrrec_getlong_def)
  next
    case False
    have "length (be32 w) = unat (4 :: 32 word)" by simp
    from xdrrec_getbytes_ok [OF inv rest this, of "[0, 0, 0, 0]"] obtain st' where
      "xdrrec_getbytes st [0, 0, 0, 0] 4 = Some (True, be32 w, st')" "source_inv rx ftr st'" "rec_rest rx st' = rs"
      by auto
    then show ?thesis using False mr by (cases st') (auto simp: xdrrec_getlong_def)
  qed
qed

lemma xdrrec_getlong_short:
  assumes inv: "source_inv rx ftr st" and rest: "length (rec_rest rx st) < 4"
  shows "\<exists>st'. xdrrec_getlong st l = Some (False, l, st')"
proof -
  obtain m r where mr: "st = (m, r)" by fastforce
  obtain cur fs where st: "in_record rx cur fs ftr (m, r)" using inv mr by (auto simp: source_inv_def)
  have "length cur = unat (rs_fbtbc r)" using st by (auto simp: in_record_def)
  then have "\<not> 4 \<le> rs_fbtbc r" using rec_rest_eq [OF st] rest mr by (simp add: word_le_nat_alt)
  moreover obtain buf' st' where "xdrrec_getbytes (m, r) [0, 0, 0, 0] 4 = Some (False, buf', st')"
    using xdrrec_getbytes_short [OF inv, of 4 "[0, 0, 0, 0]"] rest mr by auto
  ultimately show ?thesis using mr by (simp add: xdrrec_getlong_def)
qed


lemma inline_fits:
  assumes "unat (w :: 64 word) < 2 ^ 31"
  shows "ucast (len :: 32 word) \<le>s w \<longleftrightarrow> unat len \<le> unat w"
proof -
  have s: "sint (of_nat k :: 64 word) = int k" if "k < 2 ^ 32" for k
    using that by (simp add: signed_of_nat signed_take_bit_eq_if_positive bit_nat_iff bit_iff_odd take_bit_int_def)
  have "sint (ucast len :: 64 word) = int (unat len)"
    using s [of "unat len"] unsigned_less [of len, where 'a = nat] by simp
  then show ?thesis using sint_small64 [OF assms] by (simp only: word_sle_eq of_nat_le_iff)
qed

lemma xdrrec_inline_source:
  assumes inv: "source_inv rx ftr st" and rest: "rec_rest rx st = bs @ rs" and len: "length bs = unat len"
  shows "xdrrec_inline XDR_DECODE st len = (0, st) \<or>
    (\<exists>buf st'. xdrrec_inline XDR_DECODE st len = (buf, st') \<and> buf \<noteq> 0 \<and> rd (fst st') buf (unat len) = bs
      \<and> source_inv rx ftr st' \<and> rec_rest rx st' = rs)"
proof -
  obtain m r where mr: "st = (m, r)" by fastforce
  obtain cur fs where st: "in_record rx cur fs ftr (m, r)" using inv mr by (auto simp: source_inv_def)
  have buf: "buf_inv rx r" and l: "length cur = unat (rs_fbtbc r)" "unat (rs_fbtbc r) < 2 ^ 31"
    using st by (auto simp: in_record_def)
  have e: "cur @ bodies fs = bs @ rs" using rec_rest_eq [OF st] rest mr by simp
  show ?thesis
  proof (cases "ucast len \<le>s rs_fbtbc r \<and> rs_in_finger r + unat len \<le> rs_in_boundry r")
    case True
    then have c: "unat len \<le> length cur" "rs_in_finger r + unat len \<le> rs_in_boundry r"
      using inline_fits [OF l(2)] l(1) by auto
    note t = in_record_take [OF st c]
    have w: "take (unat len) cur = bs" "drop (unat len) cur @ bodies fs = rs"
      using arg_cong [OF e, of "take (unat len)"] arg_cong [OF e, of "drop (unat len)"] c(1) len by simp_all
    have n: "(of_nat (unat len) :: 64 word) = ucast len" by simp
    have "rs_in_finger r \<noteq> 0" using buf by (auto simp: buf_inv_def)
    then show ?thesis
      using True source_inv_in [OF t(2)] rec_rest_eq [OF t(2)] w t(1) mr unfolding n by (simp add: xdrrec_inline_def)
  qed (auto simp: xdrrec_inline_def mr)
qed

lemma xdrrec_inline_short:
  assumes inv: "source_inv rx ftr st" and len: "length (rec_rest rx st) < unat len"
  shows "xdrrec_inline XDR_DECODE st len = (0, st)"
proof -
  obtain m r where mr: "st = (m, r)" by fastforce
  obtain cur fs where st: "in_record rx cur fs ftr (m, r)" using inv mr by (auto simp: source_inv_def)
  have l: "length cur = unat (rs_fbtbc r)" "unat (rs_fbtbc r) < 2 ^ 31" using st by (auto simp: in_record_def)
  then have "\<not> ucast len \<le>s rs_fbtbc r" using inline_fits [OF l(2), of len] rec_rest_eq [OF st] len mr by simp
  then show ?thesis by (simp add: xdrrec_inline_def mr)
qed

lemma xdrrec_ops_sel:
  "x_getlong xdrrec_ops = xdrrec_getlong" "x_getbytes xdrrec_ops = xdrrec_getbytes" "x_inline xdrrec_ops = Some xdrrec_inline"
  by (simp_all add: xdrrec_ops_def)

lemmas rec_source_laws = xdrrec_getlong_ok xdrrec_getlong_short xdrrec_getbytes_ok xdrrec_getbytes_short
  xdrrec_inline_source xdrrec_inline_short

text \<open>Whatever is taken of a record, what follows it stays.\<close>

interpretation rec_source: xdr_inline_source xdrrec_ops "source_inv rx ftr" "rec_rest rx" ucast xdrrec_inline for rx ftr
  by (unfold_locales; (simp only: xdrrec_ops_sel ucast_up_down)?; rule rec_source_laws; assumption)

section \<open>The next record\<close>

lemma skiprecord_loop_ends:
  assumes "in_record rx cur fs ftr (m, r)"
  shows "\<exists>m' r'. tskiprecord_loop (m, r) = Some (True, m', r') \<and> in_record rx [] [] ftr (m', r')"
  using assms
proof (induction fs arbitrary: cur m r)
  case Nil
  have f: "rs_last_frag r" and inv: "buf_inv rx r" and raw: "raw rx (m, r) = cur @ ftr"
    and l: "length cur = unat (rs_fbtbc r)" "unat (rs_fbtbc r) < 2 ^ 31"
    using Nil by (auto simp: in_record_def split: if_splits)
  obtain m1 r1 where k: "tskip_input_bytes (m, r) (rs_fbtbc r) = Some (True, m1, r1)" "buf_inv rx r1"
      "raw rx (m1, r1) = ftr" "frame r r1"
    using skip_input_bytes_takes [OF inv raw l] by blast
  let ?r = "r1\<lparr>rs_fbtbc := 0\<rparr>"
  have f1: "rs_last_frag ?r" using frame_fields [OF k(4)] f by simp
  have e: "tskiprecord_loop (m1, ?r) = Some (True, m1, ?r)"
    by (subst tskiprecord_loop.simps) (use f1 in simp)
  have st: "in_record rx [] [] ftr (m1, ?r)" using k f1 by (simp add: in_record_def buf_inv_def raw_def)
  show ?case
  proof (cases "0 <s rs_fbtbc r")
    case True
    have "tskiprecord_loop (m, r) = tskiprecord_loop (m1, ?r)"
      by (subst tskiprecord_loop.simps) (use f1 f k(1) True in \<open>simp add: Let_def\<close>)
    then show ?thesis using e st by auto
  next
    case False
    then have "cur = []" using l by (simp only: word_sless_alt sint_small64 sint_0 of_nat_0_less_iff) simp
    moreover have "tskiprecord_loop (m, r) = Some (True, m, r)"
      by (subst tskiprecord_loop.simps) (use f False in simp)
    ultimately show ?thesis using Nil by auto
  qed
next
  case (Cons g fs)
  obtain eor b where g: "g = (eor, b)" by fastforce
  have f: "\<not> rs_last_frag r" and inv: "buf_inv rx r" and raw: "raw rx (m, r) = cur @ (frag (eor, b) @ concat (map frag fs) @ ftr)"
    and l: "length cur = unat (rs_fbtbc r)" "unat (rs_fbtbc r) < 2 ^ 31" and wf: "wf_frag (eor, b)" "list_all wf_frag fs"
    and e: "ends_record ((eor, b) # fs)"
    using Cons.prems g by (auto simp: in_record_def split: if_splits)
  obtain m1 r1 where k: "tskip_input_bytes (m, r) (rs_fbtbc r) = Some (True, m1, r1)" "buf_inv rx r1"
      "raw rx (m1, r1) = frag (eor, b) @ concat (map frag fs) @ ftr" "frame r r1"
    using skip_input_bytes_takes [OF inv raw l] by blast
  let ?r = "r1\<lparr>rs_fbtbc := 0\<rparr>"
  have k': "buf_inv rx ?r" "raw rx (m1, ?r) = frag (eor, b) @ (concat (map frag fs) @ ftr)"
    using k(2,3) by (simp_all add: buf_inv_def raw_def)
  obtain m2 r2 where s: "tset_input_fragment (m1, ?r) = Some (True, m2, r2)" "buf_inv rx r2"
      "raw rx (m2, r2) = b @ (concat (map frag fs) @ ftr)" "rs_last_frag r2 = eor" "unat (rs_fbtbc r2) = length b"
    by (rule set_input_fragment_takes [OF k' wf(1)])
  have f1: "\<not> rs_last_frag ?r" using frame_fields [OF k(4)] f by simp
  have "tskiprecord_loop (m, r) = tskiprecord_loop (m2, r2)"
    by (subst tskiprecord_loop.simps) (use f1 f k(1) s(1) in \<open>simp add: Let_def\<close>)
  moreover have "in_record rx b fs ftr (m2, r2)" using s wf e by (auto simp: in_record_def wf_frag_def)
  ultimately show ?case using Cons.IH by simp
qed

lemma xdrrec_skiprecord_next:
  assumes st: "in_record rx cur fs (concat (map frag gs) @ ftr) st" and gs: "ends_record gs" "list_all wf_frag gs"
  obtains st' where "xdrrec_skiprecord buf st = Some (True, st')" and "in_record rx [] gs ftr st'"
proof -
  obtain m r where mr: "st = (m, r)" by fastforce
  obtain m1 r1 where k: "tskiprecord_loop (m, r) = Some (True, m1, r1)" "in_record rx [] [] (concat (map frag gs) @ ftr) (m1, r1)"
    using skiprecord_loop_ends st mr by blast
  have "\<not> rs_nonblock r" using st mr by (auto simp: in_record_def buf_inv_def)
  then have "xdrrec_skiprecord buf st = Some (True, m1, r1\<lparr>rs_last_frag := False\<rparr>)"
    using k(1) mr by (simp add: xdrrec_skiprecord_def)
  moreover have "in_record rx [] gs ftr (m1, r1\<lparr>rs_last_frag := False\<rparr>)"
    using k(2) gs by (auto simp: in_record_def buf_inv_def raw_def)
  ultimately show thesis by (rule that)
qed

lemma xdrrec_create_source:
  assumes "receives rx rd_it" and "0 < ibase" and "unat rsize0 < 2 ^ 31 - 4"
    and xdrs'_def: "xdrs' = xdrrec_create True (Some obase) (Some ibase) r0 ssize0 rsize0 h rd_it wr_it xdrs"
  shows "in_record rx [] [] (rx h) (xst xdrs')" and "x_ops xdrs' = xdrrec_ops" and "x_op xdrs' = x_op xdrs"
proof -
  note b = tfix_buf_size_bounds [OF assms(3)]
  have "unat (ucast (tfix_buf_size rsize0) :: 64 word) = unat (tfix_buf_size rsize0)"
    using b(2) by (simp add: unsigned_ucast_eq take_bit_nat_eq_self)
  then show "in_record rx [] [] (rx h) (xst xdrs')"
    using b assms(1,2) by (simp add: in_record_def buf_inv_def raw_def xdrs'_def xdrrec_create_def xst_def Let_def)
  show "x_ops xdrs' = xdrrec_ops" and "x_op xdrs' = x_op xdrs"
    by (simp_all add: xdrs'_def xdrrec_create_def Let_def)
qed

end
