(* ===== verification/Rec_Rpc.thy ===== *)
theory Rec_Rpc
  imports Rec_Source
begin

text \<open>
  Both ends of the record stream: what one side writes, the other side reads, record by record,
  and the messages of the protocol on top of them.
\<close>

section \<open>Reading records\<close>

text \<open>A record is skipped to, and some of it is read; the rest of it is left to the next call.\<close>

definition read_record :: "nat \<Rightarrow> mem \<times> 'h trecstrm \<Rightarrow> (bool \<times> byte list \<times> mem \<times> 'h trecstrm) option" where
  "read_record n st = do {
     (ok, st) \<leftarrow> xdrrec_skiprecord None st;
     if ok then xdrrec_getbytes st (replicate n 0) (of_nat n) else Some (False, [], st) }"

fun read_records :: "nat list \<Rightarrow> mem \<times> 'h trecstrm \<Rightarrow> (bool \<times> byte list list \<times> mem \<times> 'h trecstrm) option" where
  "read_records [] st = Some (True, [], st)"
| "read_records (n # ns) st = do {
     (ok, bs, st) \<leftarrow> read_record n st;
     if ok then do { (ok, bss, st) \<leftarrow> read_records ns st; Some (ok, bs # bss, st) }
     else Some (False, [], st) }"

lemma records_split:
  assumes "records fs cur = (r # rs, part)"
  shows "\<exists>gs fs'. fs = gs @ fs' \<and> ends_record gs \<and> r = cur @ bodies gs \<and> records fs' [] = (rs, part)"
  using assms
proof (induction fs cur rule: records.induct)
  case (2 eor bs fs cur)
  show ?case
  proof (cases eor)
    case True
    then show ?thesis using 2(3) by (intro exI [of _ "[(eor, bs)]"] exI [of _ fs]) (auto simp: Let_def split: prod.splits)
  next
    case False
    then obtain gs fs' where "fs = gs @ fs'" "ends_record gs" "r = (cur @ bs) @ bodies gs" "records fs' [] = (rs, part)"
      using 2 by auto
    then show ?thesis using False by (intro exI [of _ "(eor, bs) # gs"] exI [of _ fs']) simp
  qed
qed simp

lemma read_record_ok:
  assumes st: "in_record rx cur fs (concat (map frag gs) @ ftr) st" and gs: "ends_record gs" "list_all wf_frag gs"
    and n: "n \<le> length (bodies gs)" "n < 2 ^ 32"
  shows "\<exists>st' cur' fs'. read_record n st = Some (True, take n (bodies gs), st') \<and> in_record rx cur' fs' ftr st'"
proof -
  obtain st1 where s: "xdrrec_skiprecord None st = Some (True, st1)" "in_record rx [] gs ftr st1"
    by (rule xdrrec_skiprecord_next [OF st gs])
  have u: "unat (of_nat n :: 32 word) = n" using n(2) by (simp add: unat_of_nat32)
  have "rec_rest rx st1 = take n (bodies gs) @ drop n (bodies gs)" using rec_rest_eq [OF s(2)] by simp
  moreover have "length (take n (bodies gs)) = unat (of_nat n :: 32 word)" using n(1) u by simp
  ultimately obtain st' where "xdrrec_getbytes st1 (replicate n 0) (of_nat n) =
      Some (True, fill (replicate n 0) (take n (bodies gs)), st')" "source_inv rx ftr st'"
    using xdrrec_getbytes_ok [OF source_inv_in [OF s(2)]] by blast
  moreover have "fill (replicate n 0) (take n (bodies gs)) = take n (bodies gs)" using n(1) by (simp add: fill_def)
  ultimately show ?thesis using s(1) by (auto simp: read_record_def source_inv_def)
qed

lemma read_records_ok:
  assumes "in_record rx cur fs (concat (map frag gs) @ ftr) st" and "list_all wf_frag gs" and "records gs [] = (rs, part)"
    and "list_all2 (\<lambda>n r. n \<le> length r \<and> n < 2 ^ 32) ns rs"
  shows "\<exists>st'. read_records ns st = Some (True, map2 take ns rs, st')"
  using assms
proof (induction ns arbitrary: cur fs gs rs st)
  case (Cons n ns)
  then obtain r rs' where rs: "rs = r # rs'" by (cases rs) auto
  obtain g1 g2 where g: "gs = g1 @ g2" "ends_record g1" "r = bodies g1" "records g2 [] = (rs', part)"
    using records_split [of gs "[]" r rs' part] Cons.prems(3) rs by auto
  have st: "in_record rx cur fs (concat (map frag g1) @ (concat (map frag g2) @ ftr)) st"
    and wf: "list_all wf_frag g1" "list_all wf_frag g2"
    using Cons.prems(1,2) g(1) by simp_all
  obtain st1 cur' fs' where r1: "read_record n st = Some (True, take n r, st1)"
      "in_record rx cur' fs' (concat (map frag g2) @ ftr) st1"
  proof -
    have "n \<le> length (bodies g1)" "n < 2 ^ 32" using Cons.prems(4) rs g(3) by simp_all
    from read_record_ok [OF st g(2) wf(1) this] show thesis using that g(3) by blast
  qed
  from Cons.IH [OF r1(2) wf(2) g(4)] obtain st' where "read_records ns st1 = Some (True, map2 take ns rs', st')"
    using Cons.prems(4) rs by auto
  then show ?case using r1(1) rs by simp
qed auto

lemma sent_records:
  assumes "sink_inv tx st" and "rec_out tx st = []"
  obtains fs where "wire tx st = concat (map frag fs)" "list_all wf_frag fs" "records fs [] = (rec_done tx st, [])"
proof -
  obtain fs where fs: "wire tx st = concat (map frag fs)" "list_all wf_frag fs" using assms(1) by (auto simp: sink_inv_def)
  then have "unfrag (wire tx st) = fs" using unfrag_concat [of fs "[]"] by simp
  then have "records fs [] = (rec_done tx st, [])" using assms(2) by (simp add: rec_done_def rec_out_def prod_eq_iff)
  with fs show thesis by (rule that)
qed


section \<open>Properties\<close>

text \<open>
  C25: What one side writes to its record stream the other side reads, record by record.  The
  writer makes any sequence of calls that ends with a record sent at once; the transport takes
  what it is given and delivers it in pieces of any size; the reader, on a new stream of its own
  whose buffers have any other size, skips to each record and reads as much of it as it wants.
  Every call returns and succeeds, and the reader gets the prefixes it asked for, in order.
\<close>

theorem record_stream_roundtrip:
  assumes w: "sends tx wr_it" "tx h = []" "0 < obase" "unat ssize < 2 ^ 31 - 4" and qs: "list_all whole qs"
    and r: "receives rx rd_it'" "0 < ibase'" "unat rsize' < 2 ^ 31 - 4"
  shows "\<exists>m s rs. rec_run (qs @ [End_record True])
      (xst (xdrrec_create True (Some obase) (Some ibase) r0 ssize rsize h rd_it wr_it xdrs)) = Some (True, m, s)
    \<and> fold spec_step (qs @ [End_record True]) ([], []) = (rs, [])
    \<and> (\<forall>h' ftr ns. rx h' = tx (rs_handle s) @ ftr \<and> list_all2 (\<lambda>n r. n \<le> length r \<and> n < 2 ^ 32) ns rs \<longrightarrow>
        (\<exists>st'. read_records ns (xst (xdrrec_create True (Some obase') (Some ibase') r0' ssize' rsize' h' rd_it' wr_it' xdrs'))
          = Some (True, map2 take ns rs, st')))"
proof -
  define x where "x = xdrrec_create True (Some obase) (Some ibase) r0 ssize rsize h rd_it wr_it xdrs"
  note c = xdrrec_create_sink [OF w x_def]
  have al: "aligned (snd (xst x))" using c(4,5) by (simp add: aligned_def xst_def)
  obtain m1 s1 where run: "rec_run qs (xst x) = Some (True, m1, s1)" "sink_inv tx (m1, s1)"
      "(rec_done tx (m1, s1), rec_out tx (m1, s1)) = fold spec_step qs ([], [])"
    using rec_run_ok [OF c(1) al qs] c(2,3) by auto
  obtain m s where e: "xdrrec_endofrecord (m1, s1) True = (True, m, s)" "sink_inv tx (m, s)"
      "rec_done tx (m, s) = rec_done tx (m1, s1) @ [rec_out tx (m1, s1)]" "rec_out tx (m, s) = []"
      "wire tx (m, s) = tx (rs_handle s)"
    by (rule xdrrec_endofrecord_ok [OF run(2), of True]) auto
  obtain fs where fs: "wire tx (m, s) = concat (map frag fs)" "list_all wf_frag fs" "records fs [] = (rec_done tx (m, s), [])"
    by (rule sent_records [OF e(2,4)])
  have run': "rec_run (qs @ [q]) st = (case rec_run qs st of None \<Rightarrow> None
      | Some (ok, st) \<Rightarrow> if ok then rec_run [q] st else Some (False, st))" for q and st :: "mem \<times> 'a trecstrm"
    by (induction qs arbitrary: st) (auto simp: Let_def split: Option.bind_splits option.splits)
  have ends: "fold spec_step (qs @ [End_record True]) ([], []) = (rec_done tx (m, s), [])"
    using run(3) e(3) by (cases "fold spec_step qs ([], [])") simp
  have reads: "\<exists>st'. read_records ns (xst (xdrrec_create True (Some obase') (Some ibase') r0' ssize' rsize' h' rd_it' wr_it' xdrs'))
      = Some (True, map2 take ns (rec_done tx (m, s)), st')"
    if "rx h' = tx (rs_handle s) @ ftr" "list_all2 (\<lambda>n r. n \<le> length r \<and> n < 2 ^ 32) ns (rec_done tx (m, s))" for h' ftr ns
    using read_records_ok [OF _ fs(2,3) that(2)] xdrrec_create_source(1) [OF r refl, where h = h'] that(1) fs(1) e(5) by metis
  show ?thesis using run(1) e(1) ends reads unfolding x_def by (auto simp: run')
qed

text \<open>A transport that delivers a list of bytes, as much as is asked for.\<close>

definition list_recv :: "byte list \<Rightarrow> nat \<Rightarrow> int \<times> byte list \<times> byte list" where
  "list_recv h n = (if h = [] then (-1, [], []) else (int (length (take n h)), take n h, drop n h))"

lemma receives_list: "receives id list_recv"
  by (auto simp: receives_def list_recv_def)

lemma sends_list: "sends id (\<lambda>h bs. (int (length bs), h @ bs))"
  by (simp add: sends_def)

lemma record_stream_roundtrip_witness:
  "\<exists>m s st'. rec_run [Put_long 7, End_record False, Put_bytes [1, 2, 3, 4], End_record True]
      (xst (xdrrec_create True (Some 1000) (Some 9000) zero_recstrm 0 0 [] (\<lambda>h n. (-1, [], h))
        (\<lambda>h bs. (int (length bs), h @ bs)) (zero_rec XDR_ENCODE))) = Some (True, m, s)
    \<and> read_records [4, 2] (xst (xdrrec_create True (Some 1000) (Some 9000) zero_recstrm 200 104 (rs_handle s) list_recv
        (\<lambda>h bs. (int (length bs), h @ bs)) (zero_rec XDR_DECODE))) = Some (True, [be32 7, [1, 2]], st')"
proof -
  have "(4 :: nat) dvd Suc (Suc (Suc (Suc 0)))" by (simp add: numeral_eq_Suc)
  then obtain m s rs where w: "rec_run ([Put_long 7, End_record False, Put_bytes [1, 2, 3, 4]] @ [End_record True])
      (xst (xdrrec_create True (Some 1000) (Some 9000) zero_recstrm 0 0 [] (\<lambda>h n. (-1, [], h))
        (\<lambda>h bs. (int (length bs), h @ bs)) (zero_rec XDR_ENCODE))) = Some (True, m, s)"
    and rs: "fold spec_step ([Put_long 7, End_record False, Put_bytes [1, 2, 3, 4]] @ [End_record True]) ([], []) = (rs, [])"
    and r: "\<forall>h' ftr ns. id h' = id (rs_handle s) @ ftr \<and> list_all2 (\<lambda>n r. n \<le> length r \<and> n < 2 ^ 32) ns rs \<longrightarrow>
      (\<exists>st'. read_records ns (xst (xdrrec_create True (Some 1000) (Some 9000) zero_recstrm 200 104 h' list_recv
        (\<lambda>h bs. (int (length bs), h @ bs)) (zero_rec XDR_DECODE))) = Some (True, map2 take ns rs, st'))"
    using record_stream_roundtrip [OF sends_list, of "[]" 1000 0
      "[Put_long 7, End_record False, Put_bytes [1, 2, 3, 4]]" id list_recv 9000 104 9000 zero_recstrm 0 "\<lambda>h n. (-1, [], h)"
      "zero_rec XDR_ENCODE" 1000 zero_recstrm 200 "\<lambda>h bs. (int (length bs), h @ bs)" "zero_rec XDR_DECODE"] receives_list by auto
  have "rs = [be32 7, [1, 2, 3, 4]]" using rs by simp
  moreover from this r [rule_format, of "rs_handle s" "[]" "[4, 2]"] w show ?thesis by simp
qed

text \<open>
  C9: A call message goes through the record stream.  The client encodes it into a new stream and
  ends the record; the server, on its own stream over whatever of the transport arrives, skips
  to the record and decodes: every step returns and succeeds, and the server, which has room for the
  authenticators, has the xid, program, version, procedure and both of them, whichever of the in-line and the copying paths the
  sizes of the two buffers led either side through.
\<close>

theorem callmsg_over_records:
  assumes w: "sends tx wr_it" "tx h = []" "0 < obase" "unat ssize < 2 ^ 31 - 4"
    and r: "receives rx rd_it'" "0 < ibase'" "unat rsize' < 2 ^ 31 - 4"
    and op: "x_op xdrs = XDR_ENCODE" "x_op xdrs' = XDR_DECODE"
    and msg: "call_ok msg" "unat (oa_length (tcb_cred (trm_call msg))) mod 4 = 0"
      "unat (oa_length (tcb_verf (trm_call msg))) mod 4 = 0" "msg_room avail msg0 msg"
  shows "\<exists>x1 m s. xdr_callmsg avail (xdrrec_create True (Some obase) (Some ibase) r0 ssize rsize h rd_it wr_it xdrs) msg = Some (True, x1, msg)
    \<and> xdrrec_endofrecord (xst x1) True = (True, m, s)
    \<and> (\<forall>h' ftr. rx h' = tx (rs_handle s) @ ftr \<longrightarrow>
        (let y = xdrrec_create True (Some obase') (Some ibase') r0' ssize' rsize' h' rd_it' wr_it' xdrs' in
         \<exists>st y2. xdrrec_skiprecord None (xst y) = Some (True, st)
           \<and> xdr_callmsg avail (with_xst y st) msg0 = Some (True, y2, msg_decoded avail msg0 msg)))"
proof -
  define x where "x = xdrrec_create True (Some obase) (Some ibase) r0 ssize rsize h rd_it wr_it xdrs"
  note c = xdrrec_create_sink [OF w x_def]
  have s: "rec_sink.sinks tx [] x" "rec_sink.room x (length (tcallmsg_bytes msg) + 0)" "rec_sink.sent tx x = []"
    using c op by (simp_all add: rec_sink.sinks_def rec_sink.room_def rec_sink.sent_def record_inv_def)
  obtain x1 where e: "xdr_callmsg avail x msg = Some (True, x1, msg)" "rec_sink.sinks tx [] x1"
      "rec_sink.sent tx x1 = rec_sink.sent tx x @ tcallmsg_bytes msg"
    by (rule rec_sink.encodesE [OF rec_sink.encodes_tcallmsg [OF msg(1-3)] s(1,2)])
  have inv: "sink_inv tx (x_mem x1, x_private x1)" "rec_done tx (x_mem x1, x_private x1) = []"
      "rec_out tx (x_mem x1, x_private x1) = tcallmsg_bytes msg"
    using e(2,3) s(3) by (simp_all add: rec_sink.sinks_def rec_sink.sent_def record_inv_def xst_def)
  obtain m q where f: "xdrrec_endofrecord (xst x1) True = (True, m, q)" "sink_inv tx (m, q)"
      "rec_done tx (m, q) = [tcallmsg_bytes msg]" "rec_out tx (m, q) = []" "wire tx (m, q) = tx (rs_handle q)"
    by (rule xdrrec_endofrecord_ok [OF inv(1), of True]) (use inv in \<open>auto simp: xst_def\<close>)
  obtain fs where fs: "wire tx (m, q) = concat (map frag fs)" "list_all wf_frag fs" "records fs [] = ([tcallmsg_bytes msg], [])"
    using sent_records [OF f(2,4)] f(3) by metis
  obtain g1 g2 where g: "fs = g1 @ g2" "ends_record g1" "tcallmsg_bytes msg = bodies g1"
    using records_split [OF fs(3)] by auto
  have reads: "\<exists>st y2. xdrrec_skiprecord None (xst y) = Some (True, st)
      \<and> xdr_callmsg avail (with_xst y st) msg0 = Some (True, y2, msg_decoded avail msg0 msg)"
    if h': "rx h' = tx (rs_handle q) @ ftr"
      and y_def: "y = xdrrec_create True (Some obase') (Some ibase') r0' ssize' rsize' h' rd_it' wr_it' xdrs'" for h' ftr y
  proof -
    note d = xdrrec_create_source [OF r y_def]
    have "in_record rx [] [] (concat (map frag g1) @ (concat (map frag g2) @ ftr)) (xst y)" "list_all wf_frag g1"
      using d(1) fs(2) g(1) unfolding h' f(5) [symmetric] fs(1) by simp_all
    from xdrrec_skiprecord_next [OF this(1) g(2) this(2)] obtain st where
      k: "xdrrec_skiprecord None (xst y) = Some (True, st)" "in_record rx [] g1 (concat (map frag g2) @ ftr) st" by blast
    have "rec_source.sources rx (concat (map frag g2) @ ftr) (with_xst y st)"
      and "rec_source.pending rx (with_xst y st) = tcallmsg_bytes msg @ []"
      using d(2,3) op k(2) source_inv_in rec_rest_eq [OF k(2)] g(3)
      by (simp_all add: rec_source.sources_def rec_source.pending_def)
    from rec_source.decodesE [OF rec_source.decodes_tcallmsg [OF msg(1,4)] this] k(1) show ?thesis by metis
  qed
  from e(1) f(1) reads show ?thesis unfolding x_def [symmetric] Let_def by metis
qed


text \<open>A call with no credential, from a client with the smallest buffers.\<close>

definition null_call :: "(byte list trecstrm, unit) trpc_msg" where
  "null_call = (zero_tmsg ())\<lparr>trm_xid := 7, trm_call :=
     \<lparr>tcb_rpcvers = 2, tcb_prog = 100000, tcb_vers = 2, tcb_proc = 0, tcb_cred = zero_auth, tcb_verf = zero_auth\<rparr>\<rparr>"

lemma callmsg_over_records_witness:
  "\<exists>x1 m s st y2. xdr_callmsg (\<lambda>_. True) (xdrrec_create True (Some 1000) (Some 9000) zero_recstrm 100 100 [] (\<lambda>h n. (-1, [], h))
        (\<lambda>h bs. (int (length bs), h @ bs)) (zero_rec XDR_ENCODE)) null_call = Some (True, x1, null_call)
    \<and> xdrrec_endofrecord (xst x1) True = (True, m, s)
    \<and> (let y = xdrrec_create True (Some 1000) (Some 9000) zero_recstrm 0 0 (rs_handle s) list_recv
        (\<lambda>h bs. (int (length bs), h @ bs)) (zero_rec XDR_DECODE) in
       xdrrec_skiprecord None (xst y) = Some (True, st)
       \<and> xdr_callmsg (\<lambda>_. True) (with_xst y st) (zero_tmsg ()) = Some (True, y2, msg_decoded (\<lambda>_. True) (zero_tmsg ()) null_call))"
proof -
  have c: "call_ok null_call" "unat (oa_length (tcb_cred (trm_call null_call))) mod 4 = 0"
      "unat (oa_length (tcb_verf (trm_call null_call))) mod 4 = 0" "msg_room (\<lambda>_. True) (zero_tmsg ()) null_call"
    by (simp_all add: null_call_def zero_tmsg_def zero_auth_def call_ok_def valid_auth_def auth_body_def
      msg_room_def auth_room_def auth_block_def mem_alloc_def CALL_def RPC_MSG_VERSION_def MAX_AUTH_BYTES_def)
  have op: "x_op (zero_rec XDR_ENCODE) = XDR_ENCODE" "x_op (zero_rec XDR_DECODE) = XDR_DECODE" by (simp_all add: zero_rec_def)
  have n: "(0 :: nat) < 1000" "unat (100 :: 32 word) < 2 ^ 31 - 4" "(0 :: nat) < 9000" "unat (0 :: 32 word) < 2 ^ 31 - 4" "id [] = ([] :: byte list)" by simp_all
  obtain x1 m s where w: "xdr_callmsg (\<lambda>_. True) (xdrrec_create True (Some 1000) (Some 9000) zero_recstrm 100 100 [] (\<lambda>h n. (-1, [], h))
        (\<lambda>h bs. (int (length bs), h @ bs)) (zero_rec XDR_ENCODE)) null_call = Some (True, x1, null_call)"
      "xdrrec_endofrecord (xst x1) True = (True, m, s)"
    and r: "\<forall>h' ftr. id h' = id (rs_handle s) @ ftr \<longrightarrow>
      (let y = xdrrec_create True (Some 1000) (Some 9000) zero_recstrm 0 0 h' list_recv
        (\<lambda>h bs. (int (length bs), h @ bs)) (zero_rec XDR_DECODE) in
       \<exists>st y2. xdrrec_skiprecord None (xst y) = Some (True, st)
       \<and> xdr_callmsg (\<lambda>_. True) (with_xst y st) (zero_tmsg ()) = Some (True, y2, msg_decoded (\<lambda>_. True) (zero_tmsg ()) null_call))"
    by (atomize_elim, rule callmsg_over_records [OF sends_list n(5,1,2) receives_list n(3,4) op c])
  have "id (rs_handle s) = id (rs_handle s) @ []" by simp
  from r [rule_format, OF this] w show ?thesis unfolding Let_def by blast
qed



end
