(* ===== verification/Rec_Nonblock.thy ===== *)
theory Rec_Nonblock
  imports Rec_Source
begin

text \<open>
  Records on a connection that does not block (\<open>__xdrrec_getrec\<close> of \<open>xdr_rec.c\<close>): a fragment
  is collected over as many calls as its bytes take to arrive.
\<close>













lemma realloc_keeps [simp]:
  "rs_in_header (snd (snd (realloc_stream buf n (m, r)))) = rs_in_header r"
  "rs_handle (snd (snd (realloc_stream buf n (m, r)))) = rs_handle r"
  by (simp_all add: realloc_stream_def split: option.split)



section \<open>Properties\<close>





end
