(* ===== verification/Bind_Prot.thy ===== *)
theory Bind_Prot
  imports Xdr_Compound Rpcb_Stats
begin

text \<open>
  The filters of the binder protocols, \<open>lib/libtirpc/src/pmap_prot.c\<close>, \<open>pmap_prot2.c\<close>,
  \<open>pmap_rmt.c\<close>, \<open>rpcb_prot.c\<close> and \<open>rpcb_st_xdr.c\<close>.  A linked list in memory is the list of its
  nodes; a string is the block its pointer leads to.
\<close>

section \<open>Structures with their strings as blocks\<close>

record xrpcb =
  xr_prog :: "32 word"
  xr_vers :: "32 word"
  xr_netid :: "byte list option"
  xr_addr :: "byte list option"
  xr_owner :: "byte list option"

record xrpcb_entry =
  xe_maddr :: "byte list option"
  xe_nc_netid :: "byte list option"
  xe_nc_semantics :: "32 word"
  xe_nc_protofmly :: "byte list option"
  xe_nc_proto :: "byte list option"

record xaddrlist =
  xal_prog :: "32 word"
  xal_vers :: "32 word"
  xal_success :: "32 word"
  xal_failure :: "32 word"
  xal_netid :: "byte list option"

record xrmtcalllist =
  xrl_prog :: "32 word"
  xrl_vers :: "32 word"
  xrl_proc :: "32 word"
  xrl_success :: "32 word"
  xrl_failure :: "32 word"
  xrl_indirect :: "32 word"
  xrl_netid :: "byte list option"

record xrpcb_stat =
  xs_info :: "32 word list"
  xs_setinfo :: "32 word"
  xs_unsetinfo :: "32 word"
  xs_addrinfo :: "xaddrlist list"
  xs_rmtinfo :: "xrmtcalllist list"

record xnetbuf =
  xn_maxlen :: "32 word"
  xn_len :: "32 word"
  xn_buf :: "byte list option"

text \<open>The client's views of a remote call: the arguments with the filter that knows them.\<close>

record ('s, 'a) r_rmtcallargs =
  rc_prog :: "32 word"
  rc_vers :: "32 word"
  rc_proc :: "32 word"
  rc_args_len :: "32 word"
  rc_args_val :: 'a
  rc_xdr_args :: "('s, 'a) xdrproc_t"

record ('s, 'a) r_rmtcallres =
  rr_addr :: "byte list option"
  rr_results_len :: "32 word"
  rr_results_val :: 'a
  rr_xdr_res :: "('s, 'a) xdrproc_t"

record ('s, 'a) rmtcallargs =
  pc_prog :: "64 word"
  pc_vers :: "64 word"
  pc_proc :: "64 word"
  pc_arglen :: "64 word"
  pc_args_ptr :: 'a
  pc_xdr_args :: "('s, 'a) xdrproc_t"

record ('s, 'a) rmtcallres =
  pr_port_ptr :: "64 word option"
  pr_resultslen :: "64 word"
  pr_results_ptr :: 'a
  pr_xdr_results :: "('s, 'a) xdrproc_t"

text \<open>The structures as \<open>mem_alloc\<close> gives them.\<close>

definition zero_pmap :: pmap where
  "zero_pmap = \<lparr>pm_prog = 0, pm_vers = 0, pm_prot = 0, pm_port = 0\<rparr>"

definition zero_xrpcb :: xrpcb where
  "zero_xrpcb = \<lparr>xr_prog = 0, xr_vers = 0, xr_netid = None, xr_addr = None, xr_owner = None\<rparr>"

definition zero_xentry :: xrpcb_entry where
  "zero_xentry = \<lparr>xe_maddr = None, xe_nc_netid = None, xe_nc_semantics = 0, xe_nc_protofmly = None, xe_nc_proto = None\<rparr>"

definition zero_xal :: xaddrlist where
  "zero_xal = \<lparr>xal_prog = 0, xal_vers = 0, xal_success = 0, xal_failure = 0, xal_netid = None\<rparr>"

definition zero_xrl :: xrmtcalllist where
  "zero_xrl = \<lparr>xrl_prog = 0, xrl_vers = 0, xrl_proc = 0, xrl_success = 0, xrl_failure = 0, xrl_indirect = 0, xrl_netid = None\<rparr>"

section \<open>Version 2\<close>

definition xdr_pmap :: "('s, pmap) xdrproc_t" where
  "xdr_pmap xdrs regs = and_then (and_then (and_then
     (fld pm_prog pm_prog_update xdr_u_long xdrs regs)
     (fld pm_vers pm_vers_update xdr_u_long))
     (fld pm_prot pm_prot_update xdr_u_long))
     (fld pm_port pm_port_update xdr_u_long)"

text \<open>
  The loop over a list.  Encoding and decoding go on at the \<open>next\<close> field of the node; a list that
  is there already when decoding is decoded into, and stays as it is behind the last element.
\<close>

definition head_ref :: "'a list \<Rightarrow> 'a option" where
  "head_ref rp = (case rp of [] \<Rightarrow> None | x # _ \<Rightarrow> Some x)"

text \<open>
  When freeing, \<open>xdr_pmaplist\<close> takes the address of the \<open>next\<close> field before \<open>xdr_reference\<close> frees
  the node, and reads through it afterwards: what it finds in freed memory is not defined.
\<close>

partial_function (option) xdr_pmaplist :: "(nat \<Rightarrow> bool) \<Rightarrow> ('s, pmap list) xdrproc_t" where
  "xdr_pmaplist avail xdrs rp = do {
     (ok, xdrs, more_elements) \<leftarrow> xdr_bool xdrs (if rp \<noteq> [] then 1 else 0);
     if \<not> ok then Some (False, xdrs, rp)
     else if more_elements = 0 then Some (True, xdrs, rp)
     else do {
       (ok, xdrs, node) \<leftarrow> xdr_reference avail zero_pmap 40 xdr_pmap xdrs (head_ref rp);
       if \<not> ok then Some (False, xdrs, if x_op xdrs = XDR_FREE then [] else case node of None \<Rightarrow> [] | Some x \<Rightarrow> x # tl rp)
       else case node of
         None \<Rightarrow> None
       | Some x \<Rightarrow> do {
           (ok, xdrs, nxt) \<leftarrow> xdr_pmaplist avail xdrs (tl rp);
           Some (ok, xdrs, x # nxt) } } }"

definition xdr_pmaplist_ptr :: "(nat \<Rightarrow> bool) \<Rightarrow> ('s, pmap list) xdrproc_t" where
  "xdr_pmaplist_ptr = xdr_pmaplist"

section \<open>Versions 3 and 4\<close>

definition xdr_rpcb :: "(nat \<Rightarrow> bool) \<Rightarrow> ('s, xrpcb) xdrproc_t" where
  "xdr_rpcb avail xdrs objp = and_then (and_then (and_then (and_then
     (fld xr_prog xr_prog_update xdr_u_int32_t xdrs objp)
     (fld xr_vers xr_vers_update xdr_u_int32_t))
     (fld xr_netid xr_netid_update (xdr_string avail RPC_MAXDATASIZE)))
     (fld xr_addr xr_addr_update (xdr_string avail RPC_MAXDATASIZE)))
     (fld xr_owner xr_owner_update (xdr_string avail RPC_MAXDATASIZE))"

definition xdr_rpcb_entry :: "(nat \<Rightarrow> bool) \<Rightarrow> ('s, xrpcb_entry) xdrproc_t" where
  "xdr_rpcb_entry avail xdrs objp = and_then (and_then (and_then (and_then
     (fld xe_maddr xe_maddr_update (xdr_string avail RPC_MAXDATASIZE) xdrs objp)
     (fld xe_nc_netid xe_nc_netid_update (xdr_string avail RPC_MAXDATASIZE)))
     (fld xe_nc_semantics xe_nc_semantics_update xdr_u_int32_t))
     (fld xe_nc_protofmly xe_nc_protofmly_update (xdr_string avail RPC_MAXDATASIZE)))
     (fld xe_nc_proto xe_nc_proto_update (xdr_string avail RPC_MAXDATASIZE))"

text \<open>
  The loop the two lists share.  The successor is saved before a node is freed; the head pointer is
  null afterwards, and the nodes behind a failure are not reached.
\<close>

partial_function (option) xdr_list :: "(nat \<Rightarrow> bool) \<Rightarrow> 'a \<Rightarrow> 32 word \<Rightarrow> ('s, 'a) xdrproc_t \<Rightarrow> ('s, 'a list) xdrproc_t" where
  "xdr_list avail zero sz proc xdrs rp = do {
     (ok, xdrs, more_elements) \<leftarrow> xdr_bool xdrs (if rp \<noteq> [] then 1 else 0);
     if \<not> ok then Some (False, xdrs, rp)
     else if more_elements = 0 then Some (True, xdrs, rp)
     else do {
       (ok, xdrs, node) \<leftarrow> xdr_reference avail zero sz proc xdrs (head_ref rp);
       if \<not> ok then Some (False, xdrs, if x_op xdrs = XDR_FREE then [] else case node of None \<Rightarrow> [] | Some x \<Rightarrow> x # tl rp)
       else do {
         (ok, xdrs, nxt) \<leftarrow> xdr_list avail zero sz proc xdrs (tl rp);
         Some (ok, xdrs, case node of None \<Rightarrow> [] | Some x \<Rightarrow> x # nxt) } } }"

definition xdr_rpcblist_ptr :: "(nat \<Rightarrow> bool) \<Rightarrow> ('s, xrpcb list) xdrproc_t" where
  "xdr_rpcblist_ptr avail = xdr_list avail zero_xrpcb 40 (xdr_rpcb avail)"

definition xdr_rpcblist :: "(nat \<Rightarrow> bool) \<Rightarrow> ('s, xrpcb list) xdrproc_t" where
  "xdr_rpcblist avail xdrs rp = xdr_rpcblist_ptr avail xdrs rp"

definition xdr_rpcb_entry_list_ptr :: "(nat \<Rightarrow> bool) \<Rightarrow> ('s, xrpcb_entry list) xdrproc_t" where
  "xdr_rpcb_entry_list_ptr avail = xdr_list avail zero_xentry 48 (xdr_rpcb_entry avail)"

definition xdr_netbuf :: "(nat \<Rightarrow> bool) \<Rightarrow> ('s, xnetbuf) xdrproc_t" where
  "xdr_netbuf avail xdrs objp = do {
     (ok, xdrs, maxlen) \<leftarrow> xdr_u_int32_t xdrs (xn_maxlen objp);
     let objp = objp\<lparr>xn_maxlen := maxlen\<rparr>;
     if \<not> ok then Some (False, xdrs, objp)
     else if xn_maxlen objp > RPC_MAXDATASIZE then Some (False, xdrs, objp)
     else do {
       (dummy, xdrs, buf, len) \<leftarrow> xdr_bytes avail (xn_maxlen objp) xdrs (xn_buf objp, xn_len objp);
       Some (dummy, xdrs, objp\<lparr>xn_buf := buf, xn_len := len\<rparr>) } }"


section \<open>Remote calls\<close>

text \<open>
  The length is written twice, first as it was found, then, back at its position, as what the
  arguments took.  The result of \<open>XDR_SETPOS\<close> is not looked at.
\<close>

definition rmtcallargs_head :: "('s, ('s, 'a) r_rmtcallargs) xdrproc_t" where
  "rmtcallargs_head xdrs objp = do {
     (buf, xdrs) \<leftarrow> XDR_INLINE xdrs (3 * 4);
     if buf = 0 then and_then (and_then
       (fld rc_prog rc_prog_update xdr_u_int32_t xdrs objp)
       (fld rc_vers rc_vers_update xdr_u_int32_t))
       (fld rc_proc rc_proc_update xdr_u_int32_t)
     else
       let (xdrs, buf) = IXDR_PUT_INT32 xdrs buf (rc_prog objp);
           (xdrs, buf) = IXDR_PUT_INT32 xdrs buf (rc_vers objp);
           (xdrs, buf) = IXDR_PUT_INT32 xdrs buf (rc_proc objp)
       in Some (True, xdrs, objp) }"

definition xdr_rpcb_rmtcallargs :: "('s, ('s, 'a) r_rmtcallargs) xdrproc_t" where
  "xdr_rpcb_rmtcallargs xdrs objp = do {
     (ok, xdrs, objp) \<leftarrow> rmtcallargs_head xdrs objp;
     if \<not> ok then Some (False, xdrs, objp)
     else do {
       lenposition \<leftarrow> XDR_GETPOS xdrs;
       (ok, xdrs, objp) \<leftarrow> fld rc_args_len rc_args_len_update xdr_u_int xdrs objp;
       if \<not> ok then Some (False, xdrs, objp)
       else do {
         argposition \<leftarrow> XDR_GETPOS xdrs;
         (ok, xdrs, objp) \<leftarrow> fld rc_args_val rc_args_val_update (rc_xdr_args objp) xdrs objp;
         if \<not> ok then Some (False, xdrs, objp)
         else do {
           position \<leftarrow> XDR_GETPOS xdrs;
           let objp = objp\<lparr>rc_args_len := position - argposition\<rparr>;
           (_, xdrs) \<leftarrow> XDR_SETPOS xdrs lenposition;
           (ok, xdrs, objp) \<leftarrow> fld rc_args_len rc_args_len_update xdr_u_int xdrs objp;
           if \<not> ok then Some (False, xdrs, objp)
           else do {
             (_, xdrs) \<leftarrow> XDR_SETPOS xdrs position;
             Some (True, xdrs, objp) } } } } }"

definition xdr_rpcb_rmtcallres :: "(nat \<Rightarrow> bool) \<Rightarrow> ('s, ('s, 'a) r_rmtcallres) xdrproc_t" where
  "xdr_rpcb_rmtcallres avail xdrs objp = and_then (and_then
     (fld rr_addr rr_addr_update (xdr_string avail RPC_MAXDATASIZE) xdrs objp)
     (fld rr_results_len rr_results_len_update xdr_u_int))
     (fld rr_results_val rr_results_val_update (rr_xdr_res objp))"

text \<open>Version 2: the positions are computed in 64 bits.\<close>

definition xdr_rmtcall_args :: "('s, ('s, 'a) rmtcallargs) xdrproc_t" where
  "xdr_rmtcall_args xdrs cap = do {
     (ok, xdrs, cap) \<leftarrow> and_then (and_then
       (fld pc_prog pc_prog_update xdr_u_long xdrs cap)
       (fld pc_vers pc_vers_update xdr_u_long))
       (fld pc_proc pc_proc_update xdr_u_long);
     if \<not> ok then Some (False, xdrs, cap)
     else do {
       lenposition \<leftarrow> XDR_GETPOS xdrs;
       (ok, xdrs, cap) \<leftarrow> fld pc_arglen pc_arglen_update xdr_u_long xdrs cap;
       if \<not> ok then Some (False, xdrs, cap)
       else do {
         argposition \<leftarrow> XDR_GETPOS xdrs;
         (ok, xdrs, cap) \<leftarrow> fld pc_args_ptr pc_args_ptr_update (pc_xdr_args cap) xdrs cap;
         if \<not> ok then Some (False, xdrs, cap)
         else do {
           position \<leftarrow> XDR_GETPOS xdrs;
           let cap = cap\<lparr>pc_arglen := ucast position - ucast argposition\<rparr>;
           (_, xdrs) \<leftarrow> XDR_SETPOS xdrs lenposition;
           (ok, xdrs, cap) \<leftarrow> fld pc_arglen pc_arglen_update xdr_u_long xdrs cap;
           if \<not> ok then Some (False, xdrs, cap)
           else do {
             (_, xdrs) \<leftarrow> XDR_SETPOS xdrs position;
             Some (True, xdrs, cap) } } } } }"

definition xdr_rmtcallres :: "(nat \<Rightarrow> bool) \<Rightarrow> ('s, ('s, 'a) rmtcallres) xdrproc_t" where
  "xdr_rmtcallres avail xdrs crp = do {
     (ok, xdrs, port_ptr) \<leftarrow> xdr_reference avail 0 8 xdr_u_long xdrs (pr_port_ptr crp);
     if \<not> ok then Some (False, xdrs, crp)
     else do {
       (ok, xdrs, crp) \<leftarrow> fld pr_resultslen pr_resultslen_update xdr_u_long xdrs crp;
       if \<not> ok then Some (False, xdrs, crp)
       else fld pr_results_ptr pr_results_ptr_update (pr_xdr_results crp) xdrs (crp\<lparr>pr_port_ptr := port_ptr\<rparr>) } }"

subsection \<open>The binder's side\<close>

record encap_parms =
  ep_arglen :: "32 word"
  ep_args :: "byte list option"

record r_rmtcall_args =
  rm_prog :: "32 word"
  rm_vers :: "32 word"
  rm_proc :: "32 word"
  rm_localvers :: "32 word"
  rm_uaddr :: "byte list option"
  rm_args :: encap_parms

definition xdr_encap_parms :: "(nat \<Rightarrow> bool) \<Rightarrow> ('s, encap_parms) xdrproc_t" where
  "xdr_encap_parms avail xdrs epp = do {
     (ok, xdrs, args, arglen) \<leftarrow> xdr_bytes avail 0xffffffff xdrs (ep_args epp, ep_arglen epp);
     Some (ok, xdrs, epp\<lparr>ep_args := args, ep_arglen := arglen\<rparr>) }"

definition bxdr_rmtcall_args :: "(nat \<Rightarrow> bool) \<Rightarrow> ('s, r_rmtcall_args) xdrproc_t" where
  "bxdr_rmtcall_args avail xdrs cap = and_then (and_then (and_then
     (fld rm_prog rm_prog_update xdr_u_int32_t xdrs cap)
     (fld rm_vers rm_vers_update xdr_u_int32_t))
     (fld rm_proc rm_proc_update xdr_u_int32_t))
     (fld rm_args rm_args_update (xdr_encap_parms avail))"

text \<open>
  \<open>sscanf\<close> with six \<open>%d\<close> between dots: white space and a sign may stand before the digits of each.
\<close>

definition is_digit8 :: "byte \<Rightarrow> bool" where "is_digit8 c \<longleftrightarrow> 48 \<le> c \<and> c \<le> 57"

definition scan_d :: "byte list \<Rightarrow> (int \<times> byte list) option" where
  "scan_d s = (let s = dropWhile (\<lambda>c. c = 32 \<or> 9 \<le> c \<and> c \<le> 13) s;
       (neg, s) = (case s of c # r \<Rightarrow> if c = 45 then (True, r) else if c = 43 then (False, r) else (False, s) | [] \<Rightarrow> (False, s));
       ds = takeWhile is_digit8 s; v = foldl (\<lambda>a c. 10 * a + int (unat c) - 48) 0 ds
     in if ds = [] then None else Some (if neg then - v else v, dropWhile is_digit8 s))"

fun scan_dots :: "nat \<Rightarrow> byte list \<Rightarrow> int list option" where
  "scan_dots 0 s = Some []"
| "scan_dots (Suc n) s = do {
     (v, s) \<leftarrow> scan_d s;
     if n = 0 then Some [v]
     else case s of c # s \<Rightarrow> if c = 46 then map_option ((#) v) (scan_dots n s) else None | [] \<Rightarrow> None }"

definition xdr_rmtcall_result :: "(nat \<Rightarrow> bool) \<Rightarrow> ('s, r_rmtcall_args) xdrproc_t" where
  "xdr_rmtcall_result avail xdrs cap =
    (if rm_localvers cap = PMAPVERS then do {
       uaddr \<leftarrow> rm_uaddr cap;
       case scan_dots 6 (cstr uaddr) of
         None \<Rightarrow> Some (False, xdrs, cap)
       | Some hs \<Rightarrow> do {
           let port = push_bit 8 (word_of_int (hs ! 4) AND 0xff :: 32 word) + (word_of_int (hs ! 5) AND 0xff);
           (result, xdrs, _) \<leftarrow> xdr_u_long xdrs (scast port);
           if result then fld rm_args rm_args_update (xdr_encap_parms avail) xdrs cap else Some (False, xdrs, cap) } }
     else if rm_localvers cap = 3 \<or> rm_localvers cap = 4 then
       and_then (fld rm_uaddr rm_uaddr_update (xdr_wrapstring avail) xdrs cap) (fld rm_args rm_args_update (xdr_encap_parms avail))
     else Some (False, xdrs, cap))"

definition xdr_opaque_parms :: "('s, r_rmtcall_args) xdrproc_t" where
  "xdr_opaque_parms xdrs cap =
    (if ep_arglen (rm_args cap) = 0 then Some (True, xdrs, cap)
     else do {
       args \<leftarrow> ep_args (rm_args cap);
       (ok, xdrs, args) \<leftarrow> xdr_opaque (ep_arglen (rm_args cap)) xdrs args;
       Some (ok, xdrs, cap\<lparr>rm_args := (rm_args cap)\<lparr>ep_args := Some args\<rparr>\<rparr>) })"

section \<open>Statistics\<close>

text \<open>
  The lists of the statistics are recursive: the filter of a node ends with \<open>xdr_pointer\<close> on its
  \<open>next\<close> field.  A pointer to a node is the list of the nodes from it on.
\<close>

definition node_of :: "'a list \<Rightarrow> ('a \<times> 'a list) option" where
  "node_of xs = (case xs of [] \<Rightarrow> None | x # nxt \<Rightarrow> Some (x, nxt))"

definition list_of :: "('a \<times> 'a list) option \<Rightarrow> 'a list" where
  "list_of p = (case p of None \<Rightarrow> [] | Some (x, nxt) \<Rightarrow> x # nxt)"

lemma xdr_pointer_mono [partial_function_mono]:
  assumes "\<And>xdrs v. mono_option (\<lambda>f. P f xdrs v)"
  shows "mono_option (\<lambda>f. xdr_pointer avail zero sz (P f) xdrs obj)"
proof -
  note [partial_function_mono] = assms
  have r: "mono_option (\<lambda>f. xdr_reference avail zero sz (P f) x loc)" for x loc
    unfolding xdr_reference_def Let_def by (cases loc; cases "x_op x"; simp) (intro partial_function_mono assms)+
  have "mono_option (\<lambda>f. case y of (ok, xdrs, more_data) \<Rightarrow>
      if \<not> ok then Some (False, xdrs, obj) else if more_data = 0 then Some (True, xdrs, None)
      else xdr_reference avail zero sz (P f) xdrs obj)" for y
    by (cases y; simp) (intro partial_function_mono r)
  then show ?thesis unfolding xdr_pointer_def Let_def
    by (intro partial_function_mono)
qed

definition xal_fields :: "(nat \<Rightarrow> bool) \<Rightarrow> ('s, xaddrlist) xdrproc_t" where
  "xal_fields avail xdrs objp = and_then (and_then (and_then (and_then
     (fld xal_prog xal_prog_update xdr_u_int32_t xdrs objp)
     (fld xal_vers xal_vers_update xdr_u_int32_t))
     (fld xal_success xal_success_update xdr_int))
     (fld xal_failure xal_failure_update xdr_int))
     (fld xal_netid xal_netid_update (xdr_string avail RPC_MAXDATASIZE))"

partial_function (option) xdr_rpcbs_addrlist :: "(nat \<Rightarrow> bool) \<Rightarrow> 's XDR \<Rightarrow> xaddrlist \<times> xaddrlist list
    \<Rightarrow> (bool \<times> 's XDR \<times> xaddrlist \<times> xaddrlist list) option" where
  "xdr_rpcbs_addrlist avail xdrs objp = do {
     (ok, xdrs, al) \<leftarrow> xal_fields avail xdrs (fst objp);
     if \<not> ok then Some (False, xdrs, al, snd objp)
     else do {
       (ok, xdrs, p) \<leftarrow> xdr_pointer avail (zero_xal, []) 32 (xdr_rpcbs_addrlist avail) xdrs (node_of (snd objp));
       Some (ok, xdrs, al, list_of p) } }"


definition xdr_rpcbs_addrlist_ptr :: "(nat \<Rightarrow> bool) \<Rightarrow> ('s, xaddrlist list) xdrproc_t" where
  "xdr_rpcbs_addrlist_ptr avail xdrs objp = do {
     (ok, xdrs, p) \<leftarrow> xdr_pointer avail (zero_xal, []) 32 (xdr_rpcbs_addrlist avail) xdrs (node_of objp);
     Some (ok, xdrs, list_of p) }"

definition xrl_fields :: "('s, xrmtcalllist) xdrproc_t" where
  "xrl_fields xdrs objp = and_then (and_then (and_then (and_then (and_then
     (fld xrl_prog xrl_prog_update xdr_u_int32_t xdrs objp)
     (fld xrl_vers xrl_vers_update xdr_u_int32_t))
     (fld xrl_proc xrl_proc_update xdr_u_int32_t))
     (fld xrl_success xrl_success_update xdr_int))
     (fld xrl_failure xrl_failure_update xdr_int))
     (fld xrl_indirect xrl_indirect_update xdr_int)"

text \<open>The six words of a node, in line where the stream gives a buffer.\<close>

definition xrl_words :: "('s, xrmtcalllist) xdrproc_t" where
  "xrl_words xdrs objp = (case x_op xdrs of
     XDR_ENCODE \<Rightarrow> do {
       (buf, xdrs) \<leftarrow> XDR_INLINE xdrs (6 * 4);
       if buf = 0 then xrl_fields xdrs objp
       else
         let (xdrs, buf) = IXDR_PUT_INT32 xdrs buf (xrl_prog objp);
             (xdrs, buf) = IXDR_PUT_INT32 xdrs buf (xrl_vers objp);
             (xdrs, buf) = IXDR_PUT_INT32 xdrs buf (xrl_proc objp);
             (xdrs, buf) = IXDR_PUT_INT32 xdrs buf (xrl_success objp);
             (xdrs, buf) = IXDR_PUT_INT32 xdrs buf (xrl_failure objp);
             (xdrs, buf) = IXDR_PUT_INT32 xdrs buf (xrl_indirect objp)
         in Some (True, xdrs, objp) }
   | XDR_DECODE \<Rightarrow> do {
       (buf, xdrs) \<leftarrow> XDR_INLINE xdrs (6 * 4);
       if buf = 0 then xrl_fields xdrs objp
       else
         let (v, buf) = IXDR_GET_INT32 xdrs buf; objp = objp\<lparr>xrl_prog := v\<rparr>;
             (v, buf) = IXDR_GET_INT32 xdrs buf; objp = objp\<lparr>xrl_vers := v\<rparr>;
             (v, buf) = IXDR_GET_INT32 xdrs buf; objp = objp\<lparr>xrl_proc := v\<rparr>;
             (v, buf) = IXDR_GET_INT32 xdrs buf; objp = objp\<lparr>xrl_success := v\<rparr>;
             (v, buf) = IXDR_GET_INT32 xdrs buf; objp = objp\<lparr>xrl_failure := v\<rparr>;
             (v, buf) = IXDR_GET_INT32 xdrs buf; objp = objp\<lparr>xrl_indirect := v\<rparr>
         in Some (True, xdrs, objp) }
   | XDR_FREE \<Rightarrow> xrl_fields xdrs objp)"

partial_function (option) xdr_rpcbs_rmtcalllist :: "(nat \<Rightarrow> bool) \<Rightarrow> 's XDR \<Rightarrow> xrmtcalllist \<times> xrmtcalllist list
    \<Rightarrow> (bool \<times> 's XDR \<times> xrmtcalllist \<times> xrmtcalllist list) option" where
  "xdr_rpcbs_rmtcalllist avail xdrs objp = do {
     (ok, xdrs, rl) \<leftarrow> and_then (xrl_words xdrs (fst objp))
       (fld xrl_netid xrl_netid_update (xdr_string avail RPC_MAXDATASIZE));
     if \<not> ok then Some (False, xdrs, rl, snd objp)
     else do {
       (ok, xdrs, p) \<leftarrow> xdr_pointer avail (zero_xrl, []) 40 (xdr_rpcbs_rmtcalllist avail) xdrs (node_of (snd objp));
       Some (ok, xdrs, rl, list_of p) } }"

definition xdr_rpcbs_rmtcalllist_ptr :: "(nat \<Rightarrow> bool) \<Rightarrow> ('s, xrmtcalllist list) xdrproc_t" where
  "xdr_rpcbs_rmtcalllist_ptr avail xdrs objp = do {
     (ok, xdrs, p) \<leftarrow> xdr_pointer avail (zero_xrl, []) 40 (xdr_rpcbs_rmtcalllist avail) xdrs (node_of objp);
     Some (ok, xdrs, list_of p) }"

definition xdr_rpcbs_proc :: "('s, 32 word list) xdrproc_t" where
  "xdr_rpcbs_proc xdrs objp = xdr_vector 13 xdr_int xdrs objp"

definition xdr_rpcb_stat :: "(nat \<Rightarrow> bool) \<Rightarrow> ('s, xrpcb_stat) xdrproc_t" where
  "xdr_rpcb_stat avail xdrs objp = and_then (and_then (and_then (and_then
     (fld xs_info xs_info_update xdr_rpcbs_proc xdrs objp)
     (fld xs_setinfo xs_setinfo_update xdr_int))
     (fld xs_unsetinfo xs_unsetinfo_update xdr_int))
     (fld xs_addrinfo xs_addrinfo_update (xdr_rpcbs_addrlist_ptr avail)))
     (fld xs_rmtinfo xs_rmtinfo_update (xdr_rpcbs_rmtcalllist_ptr avail))"

definition xdr_rpcb_stat_byvers :: "(nat \<Rightarrow> bool) \<Rightarrow> ('s, xrpcb_stat list) xdrproc_t" where
  "xdr_rpcb_stat_byvers avail xdrs objp = xdr_vector 3 (xdr_rpcb_stat avail) xdrs objp"

end
