(* ===== verification/Bind_Codec.thy ===== *)
theory Bind_Codec
  imports Bind_Prot
begin

text \<open>
  What the filters of the binder protocols put on and take off the wire, in the interfaces of
  \<open>Xdr_Stream\<close>: lists of nodes, each behind a true word, and the words and strings of a node.
\<close>

section \<open>Wire formats\<close>

text \<open>A string a filter of the binder accepts, its bytes, and the block it is decoded into.\<close>

definition name_ok :: "byte list option \<Rightarrow> bool" where
  "name_ok p = (case p of None \<Rightarrow> False | Some b \<Rightarrow> 0 \<in> set b \<and> strlen b \<le> 9000)"

definition name_bytes :: "byte list option \<Rightarrow> byte list" where
  "name_bytes p = (case p of None \<Rightarrow> [] | Some b \<Rightarrow> be32 (of_nat (strlen b)) @ padded (cstr b))"

definition fresh_name :: "byte list option \<Rightarrow> byte list option" where
  "fresh_name p = map_option (\<lambda>b. cstr b @ [0]) p"

definition list_bytes :: "byte list list \<Rightarrow> byte list" where
  "list_bytes bss = concat (map (\<lambda>bs. be32 1 @ bs) bss) @ be32 0"

lemma list_bytes_simps [simp]:
  "list_bytes [] = be32 0" "list_bytes (bs # bss) = be32 1 @ bs @ list_bytes bss"
  by (simp_all add: list_bytes_def)

definition pmap_bytes :: "pmap \<Rightarrow> byte list" where
  "pmap_bytes r = be32 (ucast (pm_prog r)) @ be32 (ucast (pm_vers r)) @ be32 (ucast (pm_prot r)) @ be32 (ucast (pm_port r))"

definition xrpcb_ok :: "xrpcb \<Rightarrow> bool" where
  "xrpcb_ok r \<longleftrightarrow> name_ok (xr_netid r) \<and> name_ok (xr_addr r) \<and> name_ok (xr_owner r)"

definition xrpcb_bytes :: "xrpcb \<Rightarrow> byte list" where
  "xrpcb_bytes r = be32 (xr_prog r) @ be32 (xr_vers r) @ name_bytes (xr_netid r) @ name_bytes (xr_addr r) @ name_bytes (xr_owner r)"

definition fresh_xrpcb :: "xrpcb \<Rightarrow> xrpcb" where
  "fresh_xrpcb r = r\<lparr>xr_netid := fresh_name (xr_netid r), xr_addr := fresh_name (xr_addr r), xr_owner := fresh_name (xr_owner r)\<rparr>"

definition xentry_ok :: "xrpcb_entry \<Rightarrow> bool" where
  "xentry_ok e \<longleftrightarrow> name_ok (xe_maddr e) \<and> name_ok (xe_nc_netid e) \<and> name_ok (xe_nc_protofmly e) \<and> name_ok (xe_nc_proto e)"

definition xentry_bytes :: "xrpcb_entry \<Rightarrow> byte list" where
  "xentry_bytes e = name_bytes (xe_maddr e) @ name_bytes (xe_nc_netid e) @ be32 (xe_nc_semantics e)
     @ name_bytes (xe_nc_protofmly e) @ name_bytes (xe_nc_proto e)"

definition fresh_xentry :: "xrpcb_entry \<Rightarrow> xrpcb_entry" where
  "fresh_xentry e = e\<lparr>xe_maddr := fresh_name (xe_maddr e), xe_nc_netid := fresh_name (xe_nc_netid e),
     xe_nc_protofmly := fresh_name (xe_nc_protofmly e), xe_nc_proto := fresh_name (xe_nc_proto e)\<rparr>"

definition xal_bytes :: "xaddrlist \<Rightarrow> byte list" where
  "xal_bytes a = be32 (xal_prog a) @ be32 (xal_vers a) @ be32 (xal_success a) @ be32 (xal_failure a) @ name_bytes (xal_netid a)"

definition fresh_xal :: "xaddrlist \<Rightarrow> xaddrlist" where
  "fresh_xal a = a\<lparr>xal_netid := fresh_name (xal_netid a)\<rparr>"

definition xrl_head_bytes :: "xrmtcalllist \<Rightarrow> byte list" where
  "xrl_head_bytes r = be32 (xrl_prog r) @ be32 (xrl_vers r) @ be32 (xrl_proc r) @ be32 (xrl_success r)
     @ be32 (xrl_failure r) @ be32 (xrl_indirect r)"

definition fresh_xrl :: "xrmtcalllist \<Rightarrow> xrmtcalllist" where
  "fresh_xrl r = r\<lparr>xrl_netid := fresh_name (xrl_netid r)\<rparr>"

definition xstat_ok :: "xrpcb_stat \<Rightarrow> bool" where
  "xstat_ok s \<longleftrightarrow> length (xs_info s) = 13 \<and> list_all (\<lambda>a. name_ok (xal_netid a)) (xs_addrinfo s)
     \<and> list_all (\<lambda>r. name_ok (xrl_netid r)) (xs_rmtinfo s)"

definition xstat_bytes :: "xrpcb_stat \<Rightarrow> byte list" where
  "xstat_bytes s = concat (map be32 (xs_info s)) @ be32 (xs_setinfo s) @ be32 (xs_unsetinfo s)
     @ list_bytes (map xal_bytes (xs_addrinfo s))
     @ list_bytes (map (\<lambda>r. xrl_head_bytes r @ name_bytes (xrl_netid r)) (xs_rmtinfo s))"

definition fresh_xstat :: "xrpcb_stat \<Rightarrow> xrpcb_stat" where
  "fresh_xstat s = s\<lparr>xs_addrinfo := map fresh_xal (xs_addrinfo s), xs_rmtinfo := map fresh_xrl (xs_rmtinfo s)\<rparr>"

definition zero_xstat :: xrpcb_stat where
  "zero_xstat = \<lparr>xs_info = replicate 13 0, xs_setinfo = 0, xs_unsetinfo = 0, xs_addrinfo = [], xs_rmtinfo = []\<rparr>"

section \<open>Lists\<close>

context xdr_sink begin

text \<open>Any loop that goes on behind a node whose filter succeeded.\<close>

lemma encodes_loop:
  assumes nil: "\<And>x0 x1. sinks x0 \<Longrightarrow> xdr_bool x0 0 = Some (True, x1, 0) \<Longrightarrow> sinks x1 \<Longrightarrow> F x0 [] = Some (True, x1, [])"
    and cons: "\<And>x0 x1 x2 x3 v vs. sinks x0 \<Longrightarrow> xdr_bool x0 1 = Some (True, x1, 1) \<Longrightarrow> sinks x1 \<Longrightarrow>
      proc x1 v = Some (True, x2, v) \<Longrightarrow> sinks x2 \<Longrightarrow> F x2 vs = Some (True, x3, vs) \<Longrightarrow> sinks x3 \<Longrightarrow> F x0 (v # vs) = Some (True, x3, v # vs)"
    and el: "list_all2 (\<lambda>v bs. encodes proc v bs v) vs bss"
  shows "encodes F vs (list_bytes bss) vs"
  using el
proof (induction rule: list_all2_induct)
  case Nil
  show ?case
  proof (rule encodesI)
    fix x0 n
    assume s: "sinks x0" and "room x0 (length (list_bytes []) + n)"
    then have "room x0 (length (be32 (if (0 :: 32 word) \<noteq> 0 then 1 else 0)) + n)" by simp
    from encodesE [OF encodes_xdr_bool s this] obtain x1 where
      "xdr_bool x0 0 = Some (True, x1, 0)" "sinks x1" "sent x1 = sent x0 @ be32 0" "room x1 n" by auto
    with nil [OF s] show "\<exists>x1. F x0 [] = Some (True, x1, []) \<and> sinks x1 \<and> sent x1 = sent x0 @ list_bytes [] \<and> room x1 n"
      by simp
  qed
next
  case (Cons v vs bs bss)
  show ?case
  proof (rule encodesI)
    fix x0 n
    assume s: "sinks x0" and "room x0 (length (list_bytes (bs # bss)) + n)"
    then have "room x0 (length (be32 (if (1 :: 32 word) \<noteq> 0 then 1 else 0)) + (length bs + (length (list_bytes bss) + n)))"
      by (simp add: add.assoc)
    from encodesE [OF encodes_xdr_bool s this] obtain x1 where
      1: "xdr_bool x0 1 = Some (True, x1, 1)" "sinks x1" "sent x1 = sent x0 @ be32 1" "room x1 (length bs + (length (list_bytes bss) + n))"
      by auto
    obtain x2 where 2: "proc x1 v = Some (True, x2, v)" "sinks x2" "sent x2 = sent x1 @ bs" "room x2 (length (list_bytes bss) + n)"
      by (rule encodesE [OF Cons.hyps(1) 1(2,4)])
    obtain x3 where 3: "F x2 vs = Some (True, x3, vs)" "sinks x3" "sent x3 = sent x2 @ list_bytes bss" "room x3 n"
      by (rule encodesE [OF Cons.IH 2(2,4)])
    show "\<exists>x3. F x0 (v # vs) = Some (True, x3, v # vs) \<and> sinks x3 \<and> sent x3 = sent x0 @ list_bytes (bs # bss) \<and> room x3 n"
      using cons [OF s 1(1,2) 2(1,2) 3(1,2)] 1(3) 2(3) 3(2-4) by simp
  qed
qed

lemma encodes_xdr_list:
  assumes "list_all2 (\<lambda>v bs. encodes proc v bs v) vs bss"
  shows "encodes (xdr_list avail zero sz proc) vs (list_bytes bss) vs"
  by (rule encodes_loop [OF _ _ assms]; subst xdr_list.simps; simp add: head_ref_def xdr_reference_def)

lemma encodes_xdr_pmaplist:
  assumes "list_all2 (\<lambda>v bs. encodes xdr_pmap v bs v) vs bss"
  shows "encodes (xdr_pmaplist avail) vs (list_bytes bss) vs"
  by (rule encodes_loop [OF _ _ assms]; subst xdr_pmaplist.simps; simp add: head_ref_def xdr_reference_def)

lemma encodes_name [codec]: "name_ok p \<Longrightarrow> encodes (xdr_string avail RPC_MAXDATASIZE) p (name_bytes p) p"
  using encodes_xdr_string [of _ RPC_MAXDATASIZE avail]
  by (auto simp: name_ok_def name_bytes_def RPC_MAXDATASIZE_def split: option.splits)

end

context xdr_source begin

lemma decodes_loop:
  assumes z: "ext 0 = 0"
    and nil: "\<And>x0 x1. sources x0 \<Longrightarrow> xdr_bool x0 0 = Some (True, x1, 0) \<Longrightarrow> sources x1 \<Longrightarrow> F x0 [] = Some (True, x1, [])"
    and cons: "\<And>x0 x1 x2 x3 v vs. sources x0 \<Longrightarrow> xdr_bool x0 0 = Some (True, x1, 1) \<Longrightarrow> sources x1 \<Longrightarrow>
      proc x1 zero = Some (True, x2, v) \<Longrightarrow> sources x2 \<Longrightarrow> F x2 [] = Some (True, x3, vs) \<Longrightarrow> sources x3 \<Longrightarrow> F x0 [] = Some (True, x3, v # vs)"
    and el: "list_all2 (\<lambda>bs v. decodes proc bs zero v) bss vs"
  shows "decodes F (list_bytes bss) [] vs"
  using el
proof (induction rule: list_all2_induct)
  case Nil
  show ?case
  proof (rule decodesI)
    fix x0 rs
    assume s: "sources x0" and "pending x0 = list_bytes [] @ rs"
    then have "pending x0 = be32 0 @ rs" by simp
    from decodesE [OF decodes_xdr_bool [OF z] s this] obtain x1 where
      "xdr_bool x0 0 = Some (True, x1, 0)" "sources x1" "pending x1 = rs" by auto
    with nil [OF s] show "\<exists>x1. F x0 [] = Some (True, x1, []) \<and> sources x1 \<and> pending x1 = rs" by simp
  qed
next
  case (Cons bs bss v vs)
  show ?case
  proof (rule decodesI)
    fix x0 rs
    assume s: "sources x0" and "pending x0 = list_bytes (bs # bss) @ rs"
    then have "pending x0 = be32 1 @ (bs @ list_bytes bss @ rs)" by simp
    from decodesE [OF decodes_xdr_bool [OF z] s this] obtain x1 where
      1: "xdr_bool x0 0 = Some (True, x1, 1)" "sources x1" "pending x1 = bs @ (list_bytes bss @ rs)" by auto
    obtain x2 where 2: "proc x1 zero = Some (True, x2, v)" "sources x2" "pending x2 = list_bytes bss @ rs"
      by (rule decodesE [OF Cons.hyps(1) 1(2,3)])
    obtain x3 where 3: "F x2 [] = Some (True, x3, vs)" "sources x3" "pending x3 = rs"
      by (rule decodesE [OF Cons.IH 2(2,3)])
    show "\<exists>x3. F x0 [] = Some (True, x3, v # vs) \<and> sources x3 \<and> pending x3 = rs"
      using cons [OF s 1(1,2) 2(1,2) 3(1,2)] 3(2,3) by simp
  qed
qed

lemma decodes_xdr_list:
  assumes z: "ext 0 = 0" and av: "avail (unat sz)" and "list_all2 (\<lambda>bs v. decodes proc bs zero v) bss vs"
  shows "decodes (xdr_list avail zero sz proc) (list_bytes bss) [] vs"
  by (rule decodes_loop [OF z _ _ assms(3)]; subst xdr_list.simps; simp add: head_ref_def xdr_reference_def av)

lemma decodes_xdr_pmaplist:
  assumes z: "ext 0 = 0" and av: "avail 40" and "list_all2 (\<lambda>bs v. decodes xdr_pmap bs zero_pmap v) bss vs"
  shows "decodes (xdr_pmaplist avail) (list_bytes bss) [] vs"
  by (rule decodes_loop [OF z _ _ assms(3)]; subst xdr_pmaplist.simps; simp add: head_ref_def xdr_reference_def av)

lemma decodes_name [codec]:
  assumes "name_ok p" and av: "\<forall>n \<le> 9001. avail n"
  shows "decodes (xdr_string avail RPC_MAXDATASIZE) (name_bytes p) None (fresh_name p)"
proof -
  obtain b where p: "p = Some b" "0 \<in> set b" "strlen b \<le> 9000" using assms(1) by (auto simp: name_ok_def split: option.splits)
  have l: "length (cstr b) = strlen b" by (simp add: strlen_def)
  show ?thesis
    using decodes_xdr_string_alloc [of "cstr b" RPC_MAXDATASIZE avail] p av
    by (simp add: name_bytes_def fresh_name_def RPC_MAXDATASIZE_def l)
qed

end


section \<open>Nodes\<close>

lemma node_of_simps [simp]: "node_of [] = None" "node_of (x # xs) = Some (x, xs)" "list_of None = []" "list_of (Some (x, xs)) = x # xs"
  by (simp_all add: node_of_def list_of_def)

text \<open>The recursion through the pointers of the statistics.\<close>

lemma addrlist_ptr_step:
  "xdr_rpcbs_addrlist_ptr avail xdrs objp = do {
     (ok, xdrs, more_data) \<leftarrow> xdr_bool xdrs (if objp \<noteq> [] then 1 else 0);
     if \<not> ok then Some (False, xdrs, objp)
     else if more_data = 0 then Some (True, xdrs, [])
     else do {
       (ok, xdrs, p) \<leftarrow> xdr_reference avail (zero_xal, []) 32 (xdr_rpcbs_addrlist avail) xdrs (node_of objp);
       Some (ok, xdrs, list_of p) } }"
  by (cases objp) (auto simp: xdr_rpcbs_addrlist_ptr_def xdr_pointer_def bind_eq_Some_conv split: bind_splits)

lemma addrlist_step:
  "xdr_rpcbs_addrlist avail xdrs objp = do {
     (ok, xdrs, al) \<leftarrow> xal_fields avail xdrs (fst objp);
     if \<not> ok then Some (False, xdrs, al, snd objp)
     else do { (ok, xdrs, nxt) \<leftarrow> xdr_rpcbs_addrlist_ptr avail xdrs (snd objp); Some (ok, xdrs, al, nxt) } }"
  by (subst xdr_rpcbs_addrlist.simps) (auto simp: xdr_rpcbs_addrlist_ptr_def split: bind_splits)

lemma rmtcalllist_ptr_step:
  "xdr_rpcbs_rmtcalllist_ptr avail xdrs objp = do {
     (ok, xdrs, more_data) \<leftarrow> xdr_bool xdrs (if objp \<noteq> [] then 1 else 0);
     if \<not> ok then Some (False, xdrs, objp)
     else if more_data = 0 then Some (True, xdrs, [])
     else do {
       (ok, xdrs, p) \<leftarrow> xdr_reference avail (zero_xrl, []) 40 (xdr_rpcbs_rmtcalllist avail) xdrs (node_of objp);
       Some (ok, xdrs, list_of p) } }"
  by (cases objp) (auto simp: xdr_rpcbs_rmtcalllist_ptr_def xdr_pointer_def bind_eq_Some_conv split: bind_splits)

lemma rmtcalllist_step:
  "xdr_rpcbs_rmtcalllist avail xdrs objp = do {
     (ok, xdrs, rl) \<leftarrow> and_then (xrl_words xdrs (fst objp)) (fld xrl_netid xrl_netid_update (xdr_string avail RPC_MAXDATASIZE));
     if \<not> ok then Some (False, xdrs, rl, snd objp)
     else do { (ok, xdrs, nxt) \<leftarrow> xdr_rpcbs_rmtcalllist_ptr avail xdrs (snd objp); Some (ok, xdrs, rl, nxt) } }"
  by (subst xdr_rpcbs_rmtcalllist.simps) (auto simp: xdr_rpcbs_rmtcalllist_ptr_def split: bind_splits)

context xdr_sink begin

lemma encodes_xdr_pmap: "encodes xdr_pmap r (pmap_bytes r) r"
  unfolding xdr_pmap_def by (rule encodes_eq, (rule codec)+) (simp_all add: pmap_bytes_def)

lemma encodes_xdr_rpcb: "xrpcb_ok r \<Longrightarrow> encodes (xdr_rpcb avail) r (xrpcb_bytes r) r"
  unfolding xdr_rpcb_def
  by (rule encodes_eq, (rule codec | (simp add: xrpcb_ok_def; fail))+) (simp_all add: xrpcb_bytes_def)

lemma encodes_xdr_rpcb_entry: "xentry_ok e \<Longrightarrow> encodes (xdr_rpcb_entry avail) e (xentry_bytes e) e"
  unfolding xdr_rpcb_entry_def
  by (rule encodes_eq, (rule codec | (simp add: xentry_ok_def; fail))+) (simp_all add: xentry_bytes_def)

lemma encodes_xal_fields: "name_ok (xal_netid a) \<Longrightarrow> encodes (xal_fields avail) a (xal_bytes a) a"
  unfolding xal_fields_def
  by (rule encodes_eq, (rule codec | (simp; fail))+) (simp_all add: xal_bytes_def)

lemma encodes_xrl_fields: "encodes xrl_fields r (xrl_head_bytes r) r"
  unfolding xrl_fields_def by (rule encodes_eq, (rule codec)+) (simp_all add: xrl_head_bytes_def)

lemma encodes_xdr_rpcbs_addrlist_ptr:
  assumes "list_all (\<lambda>a. name_ok (xal_netid a)) as"
  shows "encodes (xdr_rpcbs_addrlist_ptr avail) as (list_bytes (map xal_bytes as)) as"
proof (rule encodes_loop [where proc = "xal_fields avail"])
  show "list_all2 (\<lambda>v bs. encodes (xal_fields avail) v bs v) as (map xal_bytes as)"
    using assms by (auto simp: list_all2_conv_all_nth list_all_length encodes_xal_fields)
qed (subst addrlist_ptr_step; simp add: xdr_reference_def addrlist_step)+

end

context xdr_source begin

lemma decodes_xdr_pmap:
  assumes z: "\<forall>w. ext w = ucast w" and r: "pm_prog r < 2 ^ 32" "pm_vers r < 2 ^ 32" "pm_prot r < 2 ^ 32" "pm_port r < 2 ^ 32"
  shows "decodes xdr_pmap (pmap_bytes r) r0 r"
proof -
  have u: "ucast (ucast v :: 32 word) = v" if "v < 2 ^ 32" for v :: "64 word"
    using that by (intro ucast_down_up) simp
  show ?thesis unfolding xdr_pmap_def
    by (rule decodes_eq, (rule codec)+) (use r in \<open>auto simp: pmap_bytes_def z u intro!: pmap.equality\<close>)
qed

lemma decodes_name_fld:
  "name_ok p \<Longrightarrow> \<forall>n \<le> 9001. avail n \<Longrightarrow> get r = None \<Longrightarrow>
   decodes (fld get upd (xdr_string avail RPC_MAXDATASIZE)) (name_bytes p) r (upd (\<lambda>_. fresh_name p) r)"
  by (rule decodes_fld) (simp add: decodes_name)

lemmas node_decodes = decodes_and_then decodes_name_fld decodes_fld decodes_xdr_u_int32_t decodes_xdr_int

lemma decodes_xdr_rpcb:
  assumes n: "xrpcb_ok r" and av: "\<forall>n \<le> 9001. avail n"
  shows "decodes (xdr_rpcb avail) (xrpcb_bytes r) zero_xrpcb (fresh_xrpcb r)"
  unfolding xdr_rpcb_def
  by (rule decodes_eq, (rule node_decodes av n [unfolded xrpcb_ok_def, THEN conjunct1] n [unfolded xrpcb_ok_def, THEN conjunct2, THEN conjunct1]
      n [unfolded xrpcb_ok_def, THEN conjunct2, THEN conjunct2] | (simp add: zero_xrpcb_def; fail))+)
    (auto simp: xrpcb_bytes_def fresh_xrpcb_def zero_xrpcb_def intro!: xrpcb.equality)

lemma decodes_xdr_rpcb_entry:
  assumes n: "xentry_ok e" and av: "\<forall>n \<le> 9001. avail n"
  shows "decodes (xdr_rpcb_entry avail) (xentry_bytes e) zero_xentry (fresh_xentry e)"
  unfolding xdr_rpcb_entry_def
  by (rule decodes_eq, (rule node_decodes av | rule n [unfolded xentry_ok_def, THEN conjunct1] n [unfolded xentry_ok_def, THEN conjunct2, THEN conjunct1]
      n [unfolded xentry_ok_def, THEN conjunct2, THEN conjunct2, THEN conjunct1] n [unfolded xentry_ok_def, THEN conjunct2, THEN conjunct2, THEN conjunct2] | (simp add: zero_xentry_def; fail))+)
    (auto simp: xentry_bytes_def fresh_xentry_def zero_xentry_def intro!: xrpcb_entry.equality)

lemma decodes_xal_fields:
  assumes n: "name_ok (xal_netid a)" and av: "\<forall>n \<le> 9001. avail n"
  shows "decodes (xal_fields avail) (xal_bytes a) zero_xal (fresh_xal a)"
  unfolding xal_fields_def
  by (rule decodes_eq, (rule node_decodes av | rule n | (simp add: zero_xal_def; fail))+)
    (auto simp: xal_bytes_def fresh_xal_def zero_xal_def intro!: xaddrlist.equality)

lemma decodes_xrl_fields: "decodes xrl_fields (xrl_head_bytes r) r0 (r\<lparr>xrl_netid := xrl_netid r0\<rparr>)"
  unfolding xrl_fields_def by (rule decodes_eq, (rule node_decodes)+) (auto simp: xrl_head_bytes_def intro!: xrmtcalllist.equality)

lemma decodes_xdr_rpcbs_addrlist_ptr:
  assumes z: "ext 0 = 0" and av: "\<forall>n \<le> 9001. avail n" and "list_all (\<lambda>a. name_ok (xal_netid a)) as"
  shows "decodes (xdr_rpcbs_addrlist_ptr avail) (list_bytes (map xal_bytes as)) [] (map fresh_xal as)"
proof (rule decodes_loop [where proc = "xal_fields avail" and zero = zero_xal, OF z])
  show "list_all2 (\<lambda>bs v. decodes (xal_fields avail) bs zero_xal v) (map xal_bytes as) (map fresh_xal as)"
    using assms by (auto simp: list_all2_conv_all_nth list_all_length decodes_xal_fields)
qed (subst addrlist_ptr_step; simp add: xdr_reference_def addrlist_step av)+

end


text \<open>A filter with an in-line path and a path through other filters that put or get the same bytes.\<close>

context xdr_inline_sink begin

lemma encodes_inline:
  assumes F: "\<And>x. sinks x \<Longrightarrow> F x v = do { (buf, x) \<leftarrow> XDR_INLINE x len; if buf = 0 then G x v else P buf x }"
    and G: "encodes G v bs v" and l: "length bs = unat len"
    and P: "\<And>buf x. P buf x = Some (True, x\<lparr>x_mem := wr (x_mem x) buf bs\<rparr>, v)"
  shows "encodes F v bs v"
proof (rule encodesI)
  fix x0 n
  assume s: "sinks x0" and r: "room x0 (length bs + n)"
  then have r': "room x0 (unat len + n)" by (simp add: l)
  show "\<exists>x1. F x0 v = Some (True, x1, v) \<and> sinks x1 \<and> sent x1 = sent x0 @ bs \<and> room x1 n"
    using s r'
  proof (cases rule: XDR_INLINE_sink)
    case null
    then show ?thesis using F [OF s] encodesE [OF G s r] by fastforce
  next
    case (buffer buf x1)
    from buffer(3-5) [OF l] show ?thesis using F [OF s] buffer(1,2) P by simp
  qed
qed

lemma encodes_xrl_words: "encodes xrl_words r (xrl_head_bytes r) r"
proof (rule encodes_inline [OF _ encodes_xrl_fields, where len = "6 * 4"])
  let ?put = "\<lambda>buf x. let (x, buf) = IXDR_PUT_INT32 x buf (xrl_prog r);
             (x, buf) = IXDR_PUT_INT32 x buf (xrl_vers r);
             (x, buf) = IXDR_PUT_INT32 x buf (xrl_proc r);
             (x, buf) = IXDR_PUT_INT32 x buf (xrl_success r);
             (x, buf) = IXDR_PUT_INT32 x buf (xrl_failure r);
             (x, buf) = IXDR_PUT_INT32 x buf (xrl_indirect r)
         in Some (True, x, r)"
  show "xrl_words x r = do { (buf, x) \<leftarrow> XDR_INLINE x (6 * 4); if buf = 0 then xrl_fields x r else ?put buf x }" if "sinks x" for x
    using that by (simp add: xrl_words_def)
  show "length (xrl_head_bytes r) = unat (6 * 4 :: 32 word)" by (simp add: xrl_head_bytes_def)
  show "?put buf x = Some (True, x\<lparr>x_mem := wr (x_mem x) buf (xrl_head_bytes r)\<rparr>, r)" for buf x
    by (simp add: IXDR_PUT_INT32_wr xrl_head_bytes_def wr_wr_append)
qed

lemma encodes_xdr_rpcbs_rmtcalllist_ptr:
  assumes "list_all (\<lambda>r. name_ok (xrl_netid r)) rs"
  shows "encodes (xdr_rpcbs_rmtcalllist_ptr avail) rs (list_bytes (map (\<lambda>r. xrl_head_bytes r @ name_bytes (xrl_netid r)) rs)) rs"
proof (rule encodes_loop [where proc = "\<lambda>x r. and_then (xrl_words x r) (fld xrl_netid xrl_netid_update (xdr_string avail RPC_MAXDATASIZE))"])
  have "encodes (\<lambda>x r. and_then (xrl_words x r) (fld xrl_netid xrl_netid_update (xdr_string avail RPC_MAXDATASIZE))) r
      (xrl_head_bytes r @ name_bytes (xrl_netid r)) r" if "name_ok (xrl_netid r)" for r
    by (rule encodes_eq, (rule encodes_and_then encodes_xrl_words encodes_fld encodes_name that)+) simp_all
  then show "list_all2 (\<lambda>v bs. encodes (\<lambda>x r. and_then (xrl_words x r) (fld xrl_netid xrl_netid_update (xdr_string avail RPC_MAXDATASIZE))) v bs v)
      rs (map (\<lambda>r. xrl_head_bytes r @ name_bytes (xrl_netid r)) rs)"
    using assms by (auto simp: list_all2_conv_all_nth list_all_length)
qed (subst rmtcalllist_ptr_step; simp add: xdr_reference_def rmtcalllist_step)+

lemma encodes_xdr_rpcbs_proc: "length vs = 13 \<Longrightarrow> encodes xdr_rpcbs_proc vs (concat (map be32 vs)) vs"
  unfolding xdr_rpcbs_proc_def
  by (rule encodes_xdr_vector) (simp_all add: list_all2_conv_all_nth encodes_xdr_int)

lemma encodes_xdr_rpcb_stat:
  assumes "xstat_ok s"
  shows "encodes (xdr_rpcb_stat avail) s (xstat_bytes s) s"
proof -
  have ok: "length (xs_info s) = 13" "list_all (\<lambda>a. name_ok (xal_netid a)) (xs_addrinfo s)"
      "list_all (\<lambda>r. name_ok (xrl_netid r)) (xs_rmtinfo s)"
    using assms by (simp_all add: xstat_ok_def)
  show ?thesis
    unfolding xdr_rpcb_stat_def
    by (rule encodes_eq, (rule encodes_and_then encodes_fld encodes_xdr_rpcbs_proc encodes_xdr_int encodes_xdr_rpcbs_addrlist_ptr
          encodes_xdr_rpcbs_rmtcalllist_ptr | (use ok in simp; fail))+) (simp_all add: xstat_bytes_def)
qed

lemma encodes_xdr_rpcb_stat_byvers:
  assumes "length ss = 3" and "list_all xstat_ok ss"
  shows "encodes (xdr_rpcb_stat_byvers avail) ss (concat (map xstat_bytes ss)) ss"
proof -
  have "list_all2 (\<lambda>a bs. encodes (xdr_rpcb_stat avail) a bs a) ss (map xstat_bytes ss)"
    using assms(2) by (auto simp: list_all2_conv_all_nth list_all_length encodes_xdr_rpcb_stat)
  from encodes_xdr_vector [OF this, of 3] show ?thesis
    using assms(1) by (simp add: encodes_def xdr_rpcb_stat_byvers_def)
qed

end

context xdr_inline_source begin

lemma decodes_inline:
  assumes F: "\<And>x. sources x \<Longrightarrow> F x v0 = do { (buf, x) \<leftarrow> XDR_INLINE x len; if buf = 0 then G x v0 else P buf x }"
    and G: "decodes G bs v0 v" and l: "length bs = unat len"
    and P: "\<And>buf x. rd (x_mem x) buf (length bs) = bs \<Longrightarrow> P buf x = Some (True, x, v)"
  shows "decodes F bs v0 v"
proof (rule decodesI)
  fix x0 rs
  assume s: "sources x0" and p: "pending x0 = bs @ rs"
  show "\<exists>x1. F x0 v0 = Some (True, x1, v) \<and> sources x1 \<and> pending x1 = rs"
    using s p l
  proof (cases rule: XDR_INLINE_source)
    case null
    then show ?thesis using F [OF s] decodesE [OF G s p] by fastforce
  next
    case (buffer buf x1)
    then show ?thesis using F [OF s] P [OF buffer(3)] by simp
  qed
qed

lemma decodes_xrl_words: "decodes xrl_words (xrl_head_bytes r) zero_xrl (r\<lparr>xrl_netid := None\<rparr>)"
proof (rule decodes_inline [where len = "6 * 4"])
  show "decodes xrl_fields (xrl_head_bytes r) zero_xrl (r\<lparr>xrl_netid := None\<rparr>)"
    using decodes_xrl_fields [of r zero_xrl] by (simp add: zero_xrl_def)
  show "length (xrl_head_bytes r) = unat (6 * 4 :: 32 word)" by (simp add: xrl_head_bytes_def)
  let ?put = "\<lambda>buf x. let (v, buf) = IXDR_GET_INT32 x buf; objp = zero_xrl\<lparr>xrl_prog := v\<rparr>;
             (v, buf) = IXDR_GET_INT32 x buf; objp = objp\<lparr>xrl_vers := v\<rparr>;
             (v, buf) = IXDR_GET_INT32 x buf; objp = objp\<lparr>xrl_proc := v\<rparr>;
             (v, buf) = IXDR_GET_INT32 x buf; objp = objp\<lparr>xrl_success := v\<rparr>;
             (v, buf) = IXDR_GET_INT32 x buf; objp = objp\<lparr>xrl_failure := v\<rparr>;
             (v, buf) = IXDR_GET_INT32 x buf; objp = objp\<lparr>xrl_indirect := v\<rparr>
         in Some (True, x, objp)"
  show "xrl_words x zero_xrl = do { (buf, x) \<leftarrow> XDR_INLINE x (6 * 4); if buf = 0 then xrl_fields x zero_xrl else ?put buf x }"
    if "sources x" for x
    using that by (simp add: xrl_words_def)
  show "?put buf x = Some (True, x, r\<lparr>xrl_netid := None\<rparr>)" if rd: "rd (x_mem x) buf (length (xrl_head_bytes r)) = xrl_head_bytes r" for buf x
  proof -
    have 1: "rd (x_mem x) buf 24 = be32 (xrl_prog r) @ be32 (xrl_vers r) @ be32 (xrl_proc r) @ be32 (xrl_success r)
        @ be32 (xrl_failure r) @ be32 (xrl_indirect r) @ []" using rd by (simp add: xrl_head_bytes_def)
    note g1 = IXDR_GET_INT32_step [OF 1]
    note g2 = IXDR_GET_INT32_step [OF g1(2)]
    note g3 = IXDR_GET_INT32_step [OF g2(2)]
    note g4 = IXDR_GET_INT32_step [OF g3(2)]
    note g5 = IXDR_GET_INT32_step [OF g4(2)]
    note g6 = IXDR_GET_INT32_step [OF g5(2)]
    show ?thesis
      by (simp only: Let_def prod.case g1(1) g2(1) g3(1) g4(1) g5(1) g6(1)) (auto simp: zero_xrl_def intro!: xrmtcalllist.equality)
  qed
qed

lemma decodes_xdr_rpcbs_rmtcalllist_ptr:
  assumes z: "ext 0 = 0" and av: "\<forall>n \<le> 9001. avail n" and ok: "list_all (\<lambda>r. name_ok (xrl_netid r)) rs"
  shows "decodes (xdr_rpcbs_rmtcalllist_ptr avail) (list_bytes (map (\<lambda>r. xrl_head_bytes r @ name_bytes (xrl_netid r)) rs)) [] (map fresh_xrl rs)"
proof (rule decodes_loop [where proc = "\<lambda>x r. and_then (xrl_words x r) (fld xrl_netid xrl_netid_update (xdr_string avail RPC_MAXDATASIZE))"
    and zero = zero_xrl, OF z])
  have "decodes (\<lambda>x r. and_then (xrl_words x r) (fld xrl_netid xrl_netid_update (xdr_string avail RPC_MAXDATASIZE)))
      (xrl_head_bytes r @ name_bytes (xrl_netid r)) zero_xrl (fresh_xrl r)" if "name_ok (xrl_netid r)" for r
    by (rule decodes_eq, (rule decodes_and_then decodes_xrl_words decodes_name_fld that av)+) (simp_all add: fresh_xrl_def)
  then show "list_all2 (\<lambda>bs v. decodes (\<lambda>x r. and_then (xrl_words x r) (fld xrl_netid xrl_netid_update (xdr_string avail RPC_MAXDATASIZE))) bs zero_xrl v)
      (map (\<lambda>r. xrl_head_bytes r @ name_bytes (xrl_netid r)) rs) (map fresh_xrl rs)"
    using ok by (auto simp: list_all2_conv_all_nth list_all_length)
qed (subst rmtcalllist_ptr_step; simp add: xdr_reference_def rmtcalllist_step av)+

lemma decodes_xdr_rpcbs_proc: "length vs = 13 \<Longrightarrow> decodes xdr_rpcbs_proc (concat (map be32 vs)) (replicate 13 0) vs"
  unfolding xdr_rpcbs_proc_def
  using decodes_xdr_vector [of xdr_int 0 "map be32 vs" vs 13] by (simp add: list_all2_conv_all_nth decodes_xdr_int)

lemma decodes_xdr_rpcb_stat:
  assumes z: "ext 0 = 0" and "xstat_ok s" and av: "\<forall>n \<le> 9001. avail n"
  shows "decodes (xdr_rpcb_stat avail) (xstat_bytes s) zero_xstat (fresh_xstat s)"
proof -
  have ok: "length (xs_info s) = 13" "list_all (\<lambda>a. name_ok (xal_netid a)) (xs_addrinfo s)"
      "list_all (\<lambda>r. name_ok (xrl_netid r)) (xs_rmtinfo s)"
    using assms by (simp_all add: xstat_ok_def)
  have p: "decodes (fld xs_info xs_info_update xdr_rpcbs_proc) (concat (map be32 (xs_info s))) zero_xstat (zero_xstat\<lparr>xs_info := xs_info s\<rparr>)"
    using decodes_fld [of xdr_rpcbs_proc _ xs_info zero_xstat "xs_info s" xs_info_update] decodes_xdr_rpcbs_proc [OF ok(1)]
    by (simp add: zero_xstat_def)
  have a: "decodes (fld xs_addrinfo xs_addrinfo_update (xdr_rpcbs_addrlist_ptr avail)) (list_bytes (map xal_bytes (xs_addrinfo s))) v
      (v\<lparr>xs_addrinfo := map fresh_xal (xs_addrinfo s)\<rparr>)" if "xs_addrinfo v = []" for v
    using decodes_fld [of _ _ xs_addrinfo v _ xs_addrinfo_update] decodes_xdr_rpcbs_addrlist_ptr [OF z av ok(2)] that by simp
  have r: "decodes (fld xs_rmtinfo xs_rmtinfo_update (xdr_rpcbs_rmtcalllist_ptr avail))
      (list_bytes (map (\<lambda>r. xrl_head_bytes r @ name_bytes (xrl_netid r)) (xs_rmtinfo s))) v
      (v\<lparr>xs_rmtinfo := map fresh_xrl (xs_rmtinfo s)\<rparr>)" if "xs_rmtinfo v = []" for v
    using decodes_fld [of _ _ xs_rmtinfo v _ xs_rmtinfo_update] decodes_xdr_rpcbs_rmtcalllist_ptr [OF z av ok(3)] that by simp
  show ?thesis
    unfolding xdr_rpcb_stat_def
    by (rule decodes_eq, (rule decodes_and_then p a r decodes_fld decodes_xdr_int | (simp add: zero_xstat_def; fail))+)
      (auto simp: xstat_bytes_def fresh_xstat_def zero_xstat_def intro!: xrpcb_stat.equality)
qed

lemma decodes_xdr_rpcb_stat_byvers:
  assumes z: "ext 0 = 0" and "length ss = 3" and "list_all xstat_ok ss" and av: "\<forall>n \<le> 9001. avail n"
  shows "decodes (xdr_rpcb_stat_byvers avail) (concat (map xstat_bytes ss)) (replicate 3 zero_xstat) (map fresh_xstat ss)"
proof -
  have "list_all2 (\<lambda>bs a. decodes (xdr_rpcb_stat avail) bs zero_xstat a) (map xstat_bytes ss) (map fresh_xstat ss)"
    using assms by (auto simp: list_all2_conv_all_nth list_all_length decodes_xdr_rpcb_stat)
  from decodes_xdr_vector [OF this, of 3] show ?thesis
    using assms(2) by (simp add: decodes_def xdr_rpcb_stat_byvers_def)
qed

end


section \<open>The binder's lists and counters\<close>

definition cblock :: "string \<Rightarrow> byte list option" where
  "cblock s = Some (map of_char s @ [0])"

definition cstring_ok :: "string \<Rightarrow> bool" where
  "cstring_ok s \<longleftrightarrow> CHR 0x00 \<notin> set s \<and> length s \<le> 9000"

definition w_rpcb :: "rpcb \<Rightarrow> xrpcb" where
  "w_rpcb r = \<lparr>xr_prog = r_prog r, xr_vers = r_vers r, xr_netid = cblock (r_netid r), xr_addr = cblock (r_addr r), xr_owner = cblock (r_owner r)\<rparr>"

definition w_al :: "rpcbs_addrlist \<Rightarrow> xaddrlist" where
  "w_al a = \<lparr>xal_prog = al_prog a, xal_vers = al_vers a, xal_success = al_success a, xal_failure = al_failure a, xal_netid = cblock (al_netid a)\<rparr>"

definition w_rl :: "rpcbs_rmtcalllist \<Rightarrow> xrmtcalllist" where
  "w_rl r = \<lparr>xrl_prog = rl_prog r, xrl_vers = rl_vers r, xrl_proc = rl_proc r, xrl_success = rl_success r,
     xrl_failure = rl_failure r, xrl_indirect = rl_indirect r, xrl_netid = cblock (rl_netid r)\<rparr>"

definition w_stat :: "rpcb_stat \<Rightarrow> xrpcb_stat" where
  "w_stat s = \<lparr>xs_info = info s, xs_setinfo = setinfo s, xs_unsetinfo = unsetinfo s, xs_addrinfo = map w_al (addrinfo s), xs_rmtinfo = map w_rl (rmtinfo s)\<rparr>"

definition rpcb_ok :: "rpcb \<Rightarrow> bool" where
  "rpcb_ok r \<longleftrightarrow> cstring_ok (r_netid r) \<and> cstring_ok (r_addr r) \<and> cstring_ok (r_owner r)"

definition pmap_ok :: "pmap \<Rightarrow> bool" where
  "pmap_ok r \<longleftrightarrow> pm_prog r < 2 ^ 32 \<and> pm_vers r < 2 ^ 32 \<and> pm_prot r < 2 ^ 32 \<and> pm_port r < 2 ^ 32"

definition stat_ok_x :: "rpcb_stat \<Rightarrow> bool" where
  "stat_ok_x s \<longleftrightarrow> length (info s) = 13 \<and> list_all (\<lambda>a. cstring_ok (al_netid a)) (addrinfo s)
     \<and> list_all (\<lambda>r. cstring_ok (rl_netid r)) (rmtinfo s)"

lemma of_char_nonzero: "c \<noteq> CHR 0x00 \<Longrightarrow> (of_char c :: byte) \<noteq> 0"
proof
  assume c: "c \<noteq> CHR 0x00" and "(of_char c :: byte) = 0"
  then have "unat (of_nat (of_char c :: nat) :: byte) = 0" by (simp add: of_char_def of_nat_of_char)
  moreover have "(of_char c :: nat) < 2 ^ 8" using range_nat_of_char by force
  ultimately have "(of_char c :: nat) = of_char (CHR 0x00)" by (simp add: unat_of_nat take_bit_nat_eq_self)
  then show False using c by (simp only: of_char_eq_iff)
qed

lemma cblock_strlen:
  assumes "cstring_ok s"
  shows "strlen (map of_char s @ [0]) = length s" and "cstr (map of_char s @ [0]) = map of_char s"
proof -
  have n: "\<forall>c \<in> set s. (of_char c :: byte) \<noteq> 0" using assms of_char_nonzero by (metis cstring_ok_def)
  then have "takeWhile (\<lambda>c. c \<noteq> (0 :: byte)) (map of_char s @ [0]) = map of_char s"
    by (induction s) auto
  then show "cstr (map of_char s @ [0]) = map of_char s" "strlen (map of_char s @ [0]) = length s"
    by (simp_all add: cstr_def strlen_def)
qed

lemma cblock_ok: "cstring_ok s \<Longrightarrow> name_ok (cblock s)" "cstring_ok s \<Longrightarrow> fresh_name (cblock s) = cblock s"
  using cblock_strlen [of s] by (auto simp: name_ok_def cblock_def fresh_name_def cstring_ok_def)

lemma w_rpcb_ok: "rpcb_ok r \<Longrightarrow> xrpcb_ok (w_rpcb r)" "rpcb_ok r \<Longrightarrow> fresh_xrpcb (w_rpcb r) = w_rpcb r"
  by (simp_all add: rpcb_ok_def xrpcb_ok_def fresh_xrpcb_def w_rpcb_def cblock_ok)

lemma w_stat_ok: "stat_ok_x s \<Longrightarrow> xstat_ok (w_stat s)" "stat_ok_x s \<Longrightarrow> fresh_xstat (w_stat s) = w_stat s"
  by (auto simp: stat_ok_x_def xstat_ok_def fresh_xstat_def w_stat_def fresh_xal_def fresh_xrl_def w_al_def w_rl_def cblock_ok list_all_iff)

section \<open>Properties\<close>

text \<open>
  C35: The registry goes over the wire: the list of versions 3 and 4 and the version 2 list, put into
  any memory buffers by \<open>xdr_rpcblist_ptr\<close> and \<open>xdr_pmaplist\<close>, are decoded, into null lists, as lists
  of the same entries in the same order, for entries whose strings have at most 9000 characters
  and whose version 2 numbers fit 32 bits.
\<close>

theorem registry_transfers:
  assumes rbl: "list_all rpcb_ok (list_rbl g)" and pml: "list_all pmap_ok (list_pml g)" and av: "\<forall>n \<le> 9001. avail n"
  shows "xdrmem_transfers (xdr_rpcblist_ptr avail) (map w_rpcb (list_rbl g))
      (list_bytes (map (\<lambda>r. xrpcb_bytes (w_rpcb r)) (list_rbl g))) [] (map w_rpcb (list_rbl g))
    \<and> xdrmem_transfers (xdr_pmaplist avail) (list_pml g) (list_bytes (map pmap_bytes (list_pml g))) [] (list_pml g)"
proof (intro conjI)
  have z: "(ucast (0 :: 32 word) :: 64 word) = 0" by simp
  have u: "\<forall>w. ucast (w :: 32 word) = (ucast w :: 64 word)" by simp
  have a: "avail (unat (40 :: 32 word))" "avail 40" using av by simp_all
  note ok = rbl [unfolded list_all_length] w_rpcb_ok
  show "xdrmem_transfers (xdr_rpcblist_ptr avail) (map w_rpcb (list_rbl g))
      (list_bytes (map (\<lambda>r. xrpcb_bytes (w_rpcb r)) (list_rbl g))) [] (map w_rpcb (list_rbl g))"
    unfolding xdr_rpcblist_ptr_def
    by (rule xdrmem_transfersI; rule al.encodes_xdr_list un.encodes_xdr_list ald.decodes_xdr_list [where avail = avail and sz = 40, OF z a(1)] und.decodes_xdr_list [where avail = avail and sz = 40, OF z a(1)])
      (use ok ald.decodes_xdr_rpcb [OF w_rpcb_ok(1) av] und.decodes_xdr_rpcb [OF w_rpcb_ok(1) av] in
        \<open>auto simp: list_all2_conv_all_nth al.encodes_xdr_rpcb un.encodes_xdr_rpcb\<close>)
  show "xdrmem_transfers (xdr_pmaplist avail) (list_pml g) (list_bytes (map pmap_bytes (list_pml g))) [] (list_pml g)"
    by (rule xdrmem_transfersI; rule al.encodes_xdr_pmaplist un.encodes_xdr_pmaplist ald.decodes_xdr_pmaplist [where avail = avail, OF z a(2)] und.decodes_xdr_pmaplist [where avail = avail, OF z a(2)])
      (use pml ald.decodes_xdr_pmap [OF u] und.decodes_xdr_pmap [OF u] in
        \<open>auto simp: list_all2_conv_all_nth list_all_length pmap_ok_def al.encodes_xdr_pmap un.encodes_xdr_pmap\<close>)
qed

lemma registry_transfers_witness:
  "xdrmem_transfers (xdr_rpcblist_ptr (\<lambda>_. True)) [w_rpcb \<lparr>r_prog = 100005, r_vers = 3, r_netid = ''udp'', r_addr = ''1.2'', r_owner = ''0''\<rparr>]
    (list_bytes [xrpcb_bytes (w_rpcb \<lparr>r_prog = 100005, r_vers = 3, r_netid = ''udp'', r_addr = ''1.2'', r_owner = ''0''\<rparr>)]) []
    [w_rpcb \<lparr>r_prog = 100005, r_vers = 3, r_netid = ''udp'', r_addr = ''1.2'', r_owner = ''0''\<rparr>]"
  using registry_transfers [of "\<lparr>list_rbl = [\<lparr>r_prog = 100005, r_vers = 3, r_netid = ''udp'', r_addr = ''1.2'', r_owner = ''0''\<rparr>],
      list_pml = [\<lparr>pm_prog = 100005, pm_vers = 3, pm_prot = 17, pm_port = 2049\<rparr>], tcptrans = ''tcp'', udptrans = ''udp''\<rparr>" "\<lambda>_. True"]
  by (simp add: rpcb_ok_def cstring_ok_def pmap_ok_def)

text \<open>
  The statistics of the three versions, as rpcbind keeps them, are decoded by the client as they
  were counted: thirteen counters each, and both lists of counted calls, whichever of the in-line
  and the field-by-field path either side takes.
\<close>

theorem statistics_transfer:
  assumes "length ss = 3" and "list_all stat_ok_x ss" and av: "\<forall>n \<le> 9001. avail n"
  shows "xdrmem_transfers (xdr_rpcb_stat_byvers avail) (map w_stat ss) (concat (map (\<lambda>s. xstat_bytes (w_stat s)) ss))
    (replicate 3 zero_xstat) (map w_stat ss)"
proof -
  have z: "(ucast (0 :: 32 word) :: 64 word) = 0" by simp
  have ok: "length (map w_stat ss) = 3" "list_all xstat_ok (map w_stat ss)" and f: "map fresh_xstat (map w_stat ss) = map w_stat ss"
    using assms(1,2) w_stat_ok by (auto simp: list_all_iff)
  show ?thesis
    using xdrmem_transfersI [OF al.encodes_xdr_rpcb_stat_byvers [OF ok] un.encodes_xdr_rpcb_stat_byvers [OF ok]
      ald.decodes_xdr_rpcb_stat_byvers [OF z ok av] und.decodes_xdr_rpcb_stat_byvers [OF z ok av]]
    unfolding f by (simp add: comp_def)
qed

definition some_stat :: rpcb_stat where
  "some_stat = \<lparr>info = replicate 13 2, setinfo = 1, unsetinfo = 0,
     addrinfo = [\<lparr>al_prog = 100005, al_vers = 3, al_success = 4, al_failure = 1, al_netid = ''tcp''\<rparr>],
     rmtinfo = [\<lparr>rl_prog = 100005, rl_vers = 3, rl_proc = 1, rl_success = 0, rl_failure = 7, rl_indirect = 1, rl_netid = ''udp''\<rparr>]\<rparr>"

lemma statistics_transfer_witness:
  "xdrmem_transfers (xdr_rpcb_stat_byvers (\<lambda>_. True)) (map w_stat [some_stat, some_stat, some_stat])
    (concat (map (\<lambda>s. xstat_bytes (w_stat s)) [some_stat, some_stat, some_stat])) (replicate 3 zero_xstat)
    (map w_stat [some_stat, some_stat, some_stat])"
  by (rule statistics_transfer) (simp_all add: some_stat_def stat_ok_x_def cstring_ok_def)

text \<open>
  Freeing a list with \<open>xdr_pmaplist\<close> reads the \<open>next\<close> field of a node that has been freed, as soon as the
  list has one; \<open>xdr_rpcblist_ptr\<close>, which saves it first, frees a list of any length and leaves a null pointer.
\<close>

theorem freeing_lists:
  assumes op: "x_op xdrs = XDR_FREE" and "rp \<noteq> []" and "list_all xrpcb_ok rs"
  shows "xdr_pmaplist avail xdrs rp = None \<and> xdr_rpcblist_ptr avail xdrs rs = Some (True, xdrs, [])"
proof (rule conjI)
  have b: "xdr_bool xdrs v = Some (True, xdrs, v)" for v using op by (simp add: xdr_bool_def)
  have l: "xdr_u_long xdrs v = Some (True, xdrs, v)" for v using op by (simp add: xdr_u_long_def)
  have u: "xdr_u_int32_t xdrs v = Some (True, xdrs, v)" "xdr_u_int xdrs v = Some (True, xdrs, v)" for v
    using op by (simp_all add: xdr_u_int32_t_def xdr_u_int_def xdr_via_long_def)
  have p: "\<exists>v'. xdr_pmap xdrs v = Some (True, xdrs, v')" for v by (simp add: xdr_pmap_def fld_def l)
  obtain r rp' where rp: "rp = r # rp'" using assms(2) by (cases rp) auto
  show "xdr_pmaplist avail xdrs rp = None"
    using p [of r] op by (subst xdr_pmaplist.simps) (auto simp: rp b head_ref_def xdr_reference_def)
  have st: "xdr_string avail RPC_MAXDATASIZE xdrs v = Some (True, xdrs, None)" if ok: "name_ok v" for v
  proof -
    obtain s where s: "v = Some s" "0 \<in> set s" "strlen s \<le> 9000" using ok by (auto simp: name_ok_def split: option.splits)
    have n: "unat (of_nat (strlen s) :: 32 word) = strlen s" using s(3) by (simp add: unat_of_nat32)
    have "unat (of_nat (strlen s + 1) :: 32 word) = strlen s + 1" by (rule unat_of_nat32) (use s(3) in simp)
    then have "of_nat (strlen s + 1) \<noteq> (0 :: 32 word)" by (metis Suc_eq_plus1 nat.distinct(1) unat_0)
    then have "of_nat (strlen s) + (1 :: 32 word) \<noteq> 0" by (simp add: add.commute)
    moreover have "\<not> of_nat (strlen s) > RPC_MAXDATASIZE" using s(3) n by (simp add: RPC_MAXDATASIZE_def word_less_nat_alt)
    ultimately show ?thesis using s(1,2) op u by (simp add: xdr_string_def c_strlen_Some Let_def)
  qed
  have e: "\<exists>v'. xdr_rpcb avail xdrs v = Some (True, xdrs, v')" if "xrpcb_ok v" for v
    using that by (simp add: xdr_rpcb_def fld_def u st xrpcb_ok_def)
  have "xdr_list avail zero_xrpcb 40 (xdr_rpcb avail) xdrs rs = Some (True, xdrs, [])"
    using assms(3)
  proof (induction rs)
    case Nil
    show ?case by (subst xdr_list.simps) (simp add: b)
  next
    case (Cons v rs)
    then show ?case using e [of v] op by (subst xdr_list.simps) (auto simp: b head_ref_def xdr_reference_def)
  qed
  then show "xdr_rpcblist_ptr avail xdrs rs = Some (True, xdrs, [])" by (simp add: xdr_rpcblist_ptr_def)
qed

lemma freeing_lists_witness:
  "xdr_pmaplist (\<lambda>_. True) (xdrmem_create (\<lambda>_. 0) 64 80 XDR_FREE) [zero_pmap] = None"
  using freeing_lists [of "xdrmem_create (\<lambda>_. 0) 64 80 XDR_FREE" "[zero_pmap]" "[]" "\<lambda>_. True"]
  by (simp add: xdrmem_create_def)

end
