(* ===== verification/Bind_Rmt.thy ===== *)
theory Bind_Rmt
  imports Bind_Codec Rpcb_Callit
begin

text \<open>
  Remote calls through the binder: the client writes the length of the arguments before it knows
  it, goes back and writes it again.  A stream that can be wound back is one more interface.
\<close>

section \<open>Winding back\<close>

locale xdr_seek_sink = xdr_inline_sink ops inv out fits inl
  for ops :: "'s xdr_ops" and inv and out and fits and inl +
  fixes getpos :: "xdr_op \<Rightarrow> mem \<times> 's \<Rightarrow> 32 word"
    and setpos :: "xdr_op \<Rightarrow> mem \<times> 's \<Rightarrow> 32 word \<Rightarrow> bool \<times> mem \<times> 's"
  assumes pos_slots: "x_getpostn ops = Some getpos" "x_setpostn ops = Some setpos"
    and getpos_ok: "inv st \<Longrightarrow> getpos op st = of_nat (length (out st))"
    and rewrite_ok: "inv st \<Longrightarrow> p + 4 \<le> length (out st) \<Longrightarrow>
      \<exists>st1 st2 st3. setpos XDR_ENCODE st (of_nat p) = (True, st1) \<and> x_putlong ops st1 l = Some (True, st2)
        \<and> setpos XDR_ENCODE st2 (of_nat (length (out st))) = (True, st3) \<and> inv st3
        \<and> out st3 = take p (out st) @ be32 (ucast l) @ drop (p + 4) (out st) \<and> (\<forall>n. fits st n \<longrightarrow> fits st3 n)"
begin

lemma XDR_GETPOS_ok: "sinks xdrs \<Longrightarrow> XDR_GETPOS xdrs = Some (of_nat (length (sent xdrs)))"
  by (simp add: XDR_GETPOS_def sinks_def sent_def pos_slots getpos_ok)

text \<open>A word that has been written is written again, and the stream goes on where it was.\<close>

lemma rewrite_word:
  assumes s: "sinks xdrs" and p: "p + 4 \<le> length (sent xdrs)"
    and F: "\<And>x. x_op x = XDR_ENCODE \<Longrightarrow> F x v = do { (ok, x) \<leftarrow> XDR_PUTLONG x l; Some (ok, x, v) }" and w: "ucast l = w"
  obtains x1 x2 x3 where "XDR_SETPOS xdrs (of_nat p) = Some (True, x1)" and "F x1 v = Some (True, x2, v)"
    and "XDR_SETPOS x2 (of_nat (length (sent xdrs))) = Some (True, x3)" and "sinks x3"
    and "sent x3 = take p (sent xdrs) @ be32 w @ drop (p + 4) (sent xdrs)" and "\<And>n. room xdrs n \<Longrightarrow> room x3 n"
proof -
  obtain st1 st2 st3 where r: "setpos XDR_ENCODE (xst xdrs) (of_nat p) = (True, st1)" "x_putlong ops st1 l = Some (True, st2)"
      "setpos XDR_ENCODE st2 (of_nat (length (out (xst xdrs)))) = (True, st3)" "inv st3"
      "out st3 = take p (out (xst xdrs)) @ be32 (ucast l) @ drop (p + 4) (out (xst xdrs))" "\<forall>n. fits (xst xdrs) n \<longrightarrow> fits st3 n"
    using rewrite_ok [of "xst xdrs" p l] s p by (auto simp: sinks_def sent_def)
  let ?x1 = "with_xst xdrs st1" let ?x2 = "with_xst ?x1 st2" let ?x3 = "with_xst ?x2 st3"
  show thesis
    by (rule that [of ?x1 ?x2 ?x3])
      (use s r w F [of ?x1] in \<open>simp_all add: XDR_SETPOS_def XDR_PUTLONG_def sinks_def sent_def room_def pos_slots\<close>)
qed

lemma encodes_rmtcallargs_head:
  "encodes rmtcallargs_head r (be32 (rc_prog r) @ be32 (rc_vers r) @ be32 (rc_proc r)) r"
proof (rule encodes_inline [where len = "3 * 4"])
  let ?flds = "\<lambda>x r. and_then (and_then
       (fld rc_prog rc_prog_update xdr_u_int32_t x r)
       (fld rc_vers rc_vers_update xdr_u_int32_t))
       (fld rc_proc rc_proc_update xdr_u_int32_t)"
  let ?put = "\<lambda>buf x. let (x, buf) = IXDR_PUT_INT32 x buf (rc_prog r);
             (x, buf) = IXDR_PUT_INT32 x buf (rc_vers r);
             (x, buf) = IXDR_PUT_INT32 x buf (rc_proc r)
         in Some (True, x, r)"
  show "rmtcallargs_head x r = do { (buf, x) \<leftarrow> XDR_INLINE x (3 * 4); if buf = 0 then ?flds x r else ?put buf x }" if "sinks x" for x
    by (simp add: rmtcallargs_head_def)
  show "encodes ?flds r (be32 (rc_prog r) @ be32 (rc_vers r) @ be32 (rc_proc r)) r"
    by (rule encodes_eq, (rule codec)+) simp_all
  show "?put buf x = Some (True, x\<lparr>x_mem := wr (x_mem x) buf (be32 (rc_prog r) @ be32 (rc_vers r) @ be32 (rc_proc r))\<rparr>, r)" for buf x
    by (simp add: IXDR_PUT_INT32_wr wr_wr_append)
qed simp

lemma encodes_rpcb_rmtcallargs:
  assumes args: "encodes (rc_xdr_args r) (rc_args_val r) bs (rc_args_val r)"
  shows "encodes xdr_rpcb_rmtcallargs r
    (be32 (rc_prog r) @ be32 (rc_vers r) @ be32 (rc_proc r) @ be32 (of_nat (length bs)) @ bs) (r\<lparr>rc_args_len := of_nat (length bs)\<rparr>)"
    (is "encodes _ _ ?bs _")
proof (rule encodesI)
  fix x0 n
  let ?h = "be32 (rc_prog r) @ be32 (rc_vers r) @ be32 (rc_proc r)"
  assume s0: "sinks x0" and "room x0 (length ?bs + n)"
  then have "room x0 (length ?h + (length (be32 (rc_args_len r)) + (length bs + n)))" by (simp add: add.assoc)
  then obtain x1 where 1: "rmtcallargs_head x0 r = Some (True, x1, r)" "sinks x1" "sent x1 = sent x0 @ ?h"
      "room x1 (length (be32 (rc_args_len r)) + (length bs + n))"
    by (rule encodesE [OF encodes_rmtcallargs_head s0])
  obtain x2 where 2: "xdr_u_int x1 (rc_args_len r) = Some (True, x2, rc_args_len r)" "sinks x2"
      "sent x2 = sent x1 @ be32 (rc_args_len r)" "room x2 (length bs + n)"
    by (rule encodesE [OF encodes_xdr_u_int 1(2,4)])
  obtain x3 where 3: "rc_xdr_args r x2 (rc_args_val r) = Some (True, x3, rc_args_val r)" "sinks x3" "sent x3 = sent x2 @ bs" "room x3 n"
    by (rule encodesE [OF args 2(2,4)])
  let ?len = "of_nat (length bs) :: 32 word"
  have len: "of_nat (length (sent x3)) - of_nat (length (sent x2)) = ?len" by (simp add: 3(3))
  have p: "length (sent x1) + 4 \<le> length (sent x3)" by (simp add: 3(3) 2(3))
  obtain x4 x5 x6 where w: "XDR_SETPOS x3 (of_nat (length (sent x1))) = Some (True, x4)" "xdr_u_int x4 ?len = Some (True, x5, ?len)"
      "XDR_SETPOS x5 (of_nat (length (sent x3))) = Some (True, x6)" "sinks x6"
      "sent x6 = take (length (sent x1)) (sent x3) @ be32 ?len @ drop (length (sent x1) + 4) (sent x3)" "\<And>n. room x3 n \<Longrightarrow> room x6 n"
    by (rule rewrite_word [OF 3(2) p, of xdr_u_int ?len "ucast ?len" ?len]) (simp_all add: xdr_u_int_def xdr_via_long_def)
  have "sent x6 = sent x0 @ ?bs" by (simp add: w(5) 3(3) 2(3) 1(3))
  moreover have "xdr_rpcb_rmtcallargs x0 r = Some (True, x6, r\<lparr>rc_args_len := ?len\<rparr>)"
    by (simp add: xdr_rpcb_rmtcallargs_def fld_def 1(1) 2(1) 3(1) w(1-3) len XDR_GETPOS_ok [OF 1(2)] XDR_GETPOS_ok [OF 2(2)] XDR_GETPOS_ok [OF 3(2)])
  ultimately show "\<exists>x. xdr_rpcb_rmtcallargs x0 r = Some (True, x, r\<lparr>rc_args_len := ?len\<rparr>) \<and> sinks x \<and> sent x = sent x0 @ ?bs \<and> room x n"
    using w(4,6) 3(4) by blast
qed

end


lemma mem_rewrite:
  assumes inv: "mem_inv m0 b (unat (sz :: 32 word)) st" and p: "p + 4 \<le> length (mem_out st)"
    and put: "\<And>st' n. mem_inv m0 b (unat sz) st' \<Longrightarrow> mem_fits st' (4 + n) \<Longrightarrow>
      \<exists>st''. putlong st' l = Some (True, st'') \<and> mem_inv m0 b (unat sz) st'' \<and> mem_out st'' = mem_out st' @ be32 (ucast l) \<and> mem_fits st'' n"
    and frame: "\<And>m s m' s'. putlong (m, s) l = Some (True, m', s') \<Longrightarrow> \<forall>x. m_private s + 4 \<le> x \<longrightarrow> m' x = m x"
  shows "\<exists>st1 st2 st3. xdrmem_setpos XDR_ENCODE st (of_nat p) = (True, st1) \<and> putlong st1 l = Some (True, st2)
        \<and> xdrmem_setpos XDR_ENCODE st2 (of_nat (length (mem_out st))) = (True, st3) \<and> mem_inv m0 b (unat sz) st3
        \<and> mem_out st3 = take p (mem_out st) @ be32 (ucast l) @ drop (p + 4) (mem_out st) \<and> (\<forall>n. mem_fits st n \<longrightarrow> mem_fits st3 n)"
proof -
  obtain m s where st: "st = (m, s)" by fastforce
  define q where "q = m_private s - b"
  have i: "b \<noteq> 0" "m_base s = b" "b \<le> m_private s" "m_private s + unat (m_handy s) = b + unat sz" "\<forall>x. x < b \<or> b + unat sz \<le> x \<longrightarrow> m x = m0 x"
    using inv st by (auto simp: mem_inv_def)
  have q: "m_private s = b + q" "length (mem_out st) = q" "mem_out st = rd m b q" "q + unat (m_handy s) = unat sz"
    using i st by (auto simp: q_def mem_out_def)
  have sz: "unat sz < 2 ^ 32" using unsigned_less [of sz, where 'a = nat] by simp
  have u: "unat (of_nat k :: 32 word) = k" if "k \<le> unat sz" for k using that sz by (simp add: unat_of_nat32)
  let ?s1 = "s\<lparr>m_private := b + p, m_handy := of_nat (unat sz - p)\<rparr>"
  have le: "p + 4 \<le> q" "q \<le> unat sz" using p q by auto
  have 1: "xdrmem_setpos XDR_ENCODE st (of_nat p) = (True, m, ?s1)"
    using i q le u [of p] st by (simp add: xdrmem_setpos_def)
  have inv1: "mem_inv m0 b (unat sz) (m, ?s1)" using i le u [of "unat sz - p"] by (simp add: mem_inv_def)
  have out1: "mem_out (m, ?s1) = rd m b p" using i by (simp add: mem_out_def)
  have "mem_fits (m, ?s1) (4 + (unat sz - p - 4))" using le u [of "unat sz - p"] by (simp add: mem_fits_def)
  from put [OF inv1 this] obtain m2 s2 where 2: "putlong (m, ?s1) l = Some (True, m2, s2)" "mem_inv m0 b (unat sz) (m2, s2)"
      "mem_out (m2, s2) = rd m b p @ be32 (ucast l)"
    using out1 by auto
  have i2: "m_base s2 = b" "b \<le> m_private s2" "m_private s2 + unat (m_handy s2) = b + unat sz"
      "\<forall>x. x < b \<or> b + unat sz \<le> x \<longrightarrow> m2 x = m0 x"
    using 2(2) by (auto simp: mem_inv_def)
  have l2: "m_private s2 = b + (p + 4)" using arg_cong [OF 2(3), of length] i2(1,2) by (simp add: mem_out_def)
  have rd2: "rd m2 b (p + 4) = rd m b p @ be32 (ucast l)" using 2(3) l2 i2(1) by (simp add: mem_out_def)
  have rest: "rd m2 (b + (p + 4)) (q - (p + 4)) = rd m (b + (p + 4)) (q - (p + 4))"
    using frame [OF 2(1)] by (intro rd_cong) simp
  let ?s3 = "s2\<lparr>m_private := b + q, m_handy := of_nat (unat sz - q)\<rparr>"
  have 3: "xdrmem_setpos XDR_ENCODE (m2, s2) (of_nat (length (mem_out st))) = (True, m2, ?s3)"
    using i2 le u [of q] q(2) by (simp add: xdrmem_setpos_def)
  have inv3: "mem_inv m0 b (unat sz) (m2, ?s3)" using i(1) i2 le u [of "unat sz - q"] by (simp add: mem_inv_def)
  have "rd m2 b q = rd m2 b (p + 4) @ rd m2 (b + (p + 4)) (q - (p + 4))"
    using rd_add [of m2 b "p + 4" "q - (p + 4)"] le by simp
  then have "mem_out (m2, ?s3) = take p (mem_out st) @ be32 (ucast l) @ drop (p + 4) (mem_out st)"
    using i2(1) rd2 rest q(3) le by (simp add: mem_out_def take_rd drop_rd min_def)
  moreover have "mem_fits (m2, ?s3) n" if "mem_fits st n" for n
    using that st q le u [of "unat sz - q"] by (simp add: mem_fits_def)
  ultimately show ?thesis using 1 2(1) 3 inv3 by blast
qed


lemma putlong_frame:
  assumes "f = xdrmem_putlong_aligned \<or> f = xdrmem_putlong_unaligned" and "f (m, s) l = Some (True, m', s')"
  shows "\<forall>x. m_private s + 4 \<le> x \<longrightarrow> m' x = m x"
  using assms by (auto simp: xdrmem_putlong_aligned_def xdrmem_putlong_unaligned_def store32_htonl wr_outside Let_def split: if_splits)

lemma getpos_out: "mem_inv m0 b n st \<Longrightarrow> xdrmem_getpos op st = of_nat (length (mem_out st))"
  by (cases st) (auto simp: mem_inv_def mem_out_def xdrmem_getpos_def ptrdiff_le)

interpretation als: xdr_seek_sink xdrmem_ops_aligned "mem_inv m0 b (unat sz)" mem_out mem_fits
  xdrmem_inline_aligned xdrmem_getpos xdrmem_setpos for m0 b and sz :: "32 word"
proof
  fix st p l
  assume "mem_inv m0 b (unat sz) st" and "p + 4 \<le> length (mem_out st)"
  then show "\<exists>st1 st2 st3. xdrmem_setpos XDR_ENCODE st (of_nat p) = (True, st1) \<and> x_putlong xdrmem_ops_aligned st1 l = Some (True, st2)
      \<and> xdrmem_setpos XDR_ENCODE st2 (of_nat (length (mem_out st))) = (True, st3) \<and> mem_inv m0 b (unat sz) st3
      \<and> mem_out st3 = take p (mem_out st) @ be32 (ucast l) @ drop (p + 4) (mem_out st) \<and> (\<forall>n. mem_fits st n \<longrightarrow> mem_fits st3 n)"
    using mem_rewrite [of m0 b sz st p xdrmem_putlong_aligned l] xdrmem_putlong_ok [of m0 b "unat sz" _ _ xdrmem_putlong_aligned l]
      putlong_frame [of xdrmem_putlong_aligned _ _ l] by (simp add: xdrmem_ops_aligned_def)
qed (simp_all add: xdrmem_ops_aligned_def getpos_out)

interpretation uns: xdr_seek_sink xdrmem_ops_unaligned "mem_inv m0 b (unat sz)" mem_out mem_fits
  xdrmem_inline_unaligned xdrmem_getpos xdrmem_setpos for m0 b and sz :: "32 word"
proof
  fix st p l
  assume "mem_inv m0 b (unat sz) st" and "p + 4 \<le> length (mem_out st)"
  then show "\<exists>st1 st2 st3. xdrmem_setpos XDR_ENCODE st (of_nat p) = (True, st1) \<and> x_putlong xdrmem_ops_unaligned st1 l = Some (True, st2)
      \<and> xdrmem_setpos XDR_ENCODE st2 (of_nat (length (mem_out st))) = (True, st3) \<and> mem_inv m0 b (unat sz) st3
      \<and> mem_out st3 = take p (mem_out st) @ be32 (ucast l) @ drop (p + 4) (mem_out st) \<and> (\<forall>n. mem_fits st n \<longrightarrow> mem_fits st3 n)"
    using mem_rewrite [of m0 b sz st p xdrmem_putlong_unaligned l] xdrmem_putlong_ok [of m0 b "unat sz" _ _ xdrmem_putlong_unaligned l]
      putlong_frame [of xdrmem_putlong_unaligned _ _ l] by (simp add: xdrmem_ops_unaligned_def)
qed (simp_all add: xdrmem_ops_unaligned_def getpos_out)

section \<open>The binder's filters\<close>

context xdr_sink begin

lemma encodes_xdr_encap_parms:
  assumes "ep_args e = Some bs" and "unat (ep_arglen e) \<le> length bs"
  shows "encodes (xdr_encap_parms avail) e (be32 (ep_arglen e) @ padded (take (unat (ep_arglen e)) bs)) e"
proof (rule encodesI)
  fix x0 n
  let ?bs = "be32 (ep_arglen e) @ padded (take (unat (ep_arglen e)) bs)"
  assume s: "sinks x0" and r: "room x0 (length ?bs + n)"
  have "encodes (xdr_bytes avail 0xffffffff) (Some bs, ep_arglen e) ?bs (Some bs, ep_arglen e)"
    by (rule encodes_xdr_bytes [OF assms(2)]) (use unsigned_less [of "ep_arglen e", where 'a = nat] in \<open>simp add: word_le_nat_alt\<close>)
  from encodesE [OF this s r] obtain x where
    "xdr_bytes avail 0xffffffff x0 (Some bs, ep_arglen e) = Some (True, x, Some bs, ep_arglen e)" "sinks x" "sent x = sent x0 @ ?bs" "room x n" .
  moreover from this(1) have "xdr_encap_parms avail x0 e = Some (True, x, e)"
    using assms(1) by (cases e) (simp add: xdr_encap_parms_def)
  ultimately show "\<exists>x. xdr_encap_parms avail x0 e = Some (True, x, e) \<and> sinks x \<and> sent x = sent x0 @ ?bs \<and> room x n"
    by blast
qed

lemma encodes_xdr_rmtcall_result:
  assumes "rm_localvers cap = 3 \<or> rm_localvers cap = 4" and "name_ok (rm_uaddr cap)"
    and "ep_args (rm_args cap) = Some bs" and "unat (ep_arglen (rm_args cap)) \<le> length bs"
  shows "encodes (xdr_rmtcall_result avail) cap
    (name_bytes (rm_uaddr cap) @ be32 (ep_arglen (rm_args cap)) @ padded (take (unat (ep_arglen (rm_args cap))) bs)) cap"
proof -
  have w: "encodes (xdr_wrapstring avail) (rm_uaddr cap) (name_bytes (rm_uaddr cap)) (rm_uaddr cap)"
    using encodes_name [OF assms(2), of avail] by (simp add: encodes_def xdr_wrapstring_def)
  have "encodes (\<lambda>x v. and_then (fld rm_uaddr rm_uaddr_update (xdr_wrapstring avail) x v) (fld rm_args rm_args_update (xdr_encap_parms avail)))
      cap (name_bytes (rm_uaddr cap) @ be32 (ep_arglen (rm_args cap)) @ padded (take (unat (ep_arglen (rm_args cap))) bs)) cap"
    by (rule encodes_eq, rule encodes_and_then, rule encodes_fld, rule w, rule encodes_fld, rule encodes_xdr_encap_parms)
      (use assms in simp_all)
  then show ?thesis using assms(1) by (auto simp: encodes_def xdr_rmtcall_result_def PMAPVERS_def)
qed

end

context xdr_source begin

lemma decodes_bxdr_rmtcall_args:
  assumes l: "length bs < 2 ^ 32" "bs \<noteq> []" and av: "avail (length bs)" and e: "ep_args (rm_args cap0) = None"
  shows "decodes (bxdr_rmtcall_args avail) (be32 p @ be32 v @ be32 c @ be32 (of_nat (length bs)) @ padded bs) cap0
    (cap0\<lparr>rm_prog := p, rm_vers := v, rm_proc := c, rm_args := \<lparr>ep_arglen = of_nat (length bs), ep_args = Some bs\<rparr>\<rparr>)"
proof -
  have u: "unat (of_nat (length bs) :: 32 word) = length bs" using l(1) by (rule unat_of_nat32)
  have d: "decodes (xdr_bytes avail 0xffffffff) (be32 (of_nat (length bs)) @ padded bs) (None, n0) (Some bs, of_nat (length bs))" for n0
    by (rule decodes_xdr_bytes_alloc) (use u l av in \<open>auto simp: word_le_nat_alt unat_eq_0 [symmetric]\<close>)
  have "decodes (xdr_encap_parms avail) (be32 (of_nat (length bs)) @ padded bs) e0 \<lparr>ep_arglen = of_nat (length bs), ep_args = Some bs\<rparr>"
    if "ep_args e0 = None" for e0
  proof (rule decodesI)
    fix x0 rs
    assume s: "sources x0" and p: "pending x0 = (be32 (of_nat (length bs)) @ padded bs) @ rs"
    obtain x1 where "xdr_bytes avail 0xffffffff x0 (None, ep_arglen e0) = Some (True, x1, Some bs, of_nat (length bs))" "sources x1" "pending x1 = rs"
      by (rule decodesE [OF d s p])
    then show "\<exists>x. xdr_encap_parms avail x0 e0 = Some (True, x, \<lparr>ep_arglen = of_nat (length bs), ep_args = Some bs\<rparr>) \<and> sources x \<and> pending x = rs"
      using that by (auto simp: xdr_encap_parms_def intro: encap_parms.equality)
  qed
  then show ?thesis unfolding bxdr_rmtcall_args_def
    by (intro decodes_eq [OF decodes_and_then [OF decodes_and_then [OF decodes_and_then [OF decodes_fld [OF decodes_xdr_u_int32_t]
        decodes_fld [OF decodes_xdr_u_int32_t]] decodes_fld [OF decodes_xdr_u_int32_t]] decodes_fld]]) (use e in \<open>simp_all\<close>)
qed

lemma decodes_rpcb_rmtcallres:
  assumes "name_ok p" and av: "\<forall>n \<le> 9001. avail n" and "rr_addr r0 = None" and res: "decodes (rr_xdr_res r0) bs (rr_results_val r0) v"
  shows "decodes (xdr_rpcb_rmtcallres avail) (name_bytes p @ be32 len @ bs) r0
    (r0\<lparr>rr_addr := fresh_name p, rr_results_len := len, rr_results_val := v\<rparr>)"
proof -
  have "decodes (\<lambda>x r. and_then (and_then (fld rr_addr rr_addr_update (xdr_string avail RPC_MAXDATASIZE) x r)
       (fld rr_results_len rr_results_len_update xdr_u_int)) (fld rr_results_val rr_results_val_update (rr_xdr_res r0)))
     (name_bytes p @ be32 len @ bs) r0 (r0\<lparr>rr_addr := fresh_name p, rr_results_len := len, rr_results_val := v\<rparr>)"
    by (intro decodes_eq [OF decodes_and_then [OF decodes_and_then [OF decodes_name_fld decodes_fld [OF decodes_xdr_u_int]] decodes_fld]])
      (use assms in simp_all)
  then show ?thesis by (rule decodes_cong) (simp add: xdr_rpcb_rmtcallres_def)
qed

end


section \<open>Properties\<close>

text \<open>
  C40: A remote call reaches the binder: whatever length the client's structure holds, \<open>xdr_rpcb_rmtcallargs\<close>
  puts the length of what the filter of the arguments really encodes in front of them, on any
  memory buffer, in line or not, and corrects the structure; the binder's own filter decodes the
  program, version and procedure and exactly the encoded arguments, as bytes.
\<close>

theorem rmtcall_reaches_binder:
  assumes args: "\<And>m b n. al.encodes m b n (rc_xdr_args r) (rc_args_val r) bs (rc_args_val r)"
      "\<And>m b n. un.encodes m b n (rc_xdr_args r) (rc_args_val r) bs (rc_args_val r)"
    and bs: "bs \<noteq> []" "4 dvd length bs" and a: "a \<noteq> 0" "16 + length bs \<le> unat sz"
    and b: "b \<noteq> 0" "16 + length bs \<le> unat sz'" and av: "avail (length bs)" and c0: "ep_args (rm_args cap0) = None"
  shows "\<exists>x wire y. xdr_rpcb_rmtcallargs (xdrmem_create m a sz XDR_ENCODE) r = Some (True, x, r\<lparr>rc_args_len := of_nat (length bs)\<rparr>)
    \<and> rd (x_mem x) a (16 + length bs) = wire
    \<and> bxdr_rmtcall_args avail (xdrmem_create (wr m' b wire) b sz' XDR_DECODE) cap0 = Some (True, y,
        cap0\<lparr>rm_prog := rc_prog r, rm_vers := rc_vers r, rm_proc := rc_proc r,
          rm_args := \<lparr>ep_arglen = of_nat (length bs), ep_args = Some bs\<rparr>\<rparr>)"
proof -
  let ?w = "be32 (rc_prog r) @ be32 (rc_vers r) @ be32 (rc_proc r) @ be32 (of_nat (length bs)) @ bs"
  have l: "length ?w = 16 + length bs" and pad: "padded bs = bs" using bs(2) by (simp_all add: padded_def pad_def dvd_eq_mod_eq_0)
  have small: "length bs < 2 ^ 32" using a(2) unsigned_less [of sz, where 'a = nat] by simp
  have len: "length ?w \<le> unat sz" "length ?w \<le> unat sz'" using a(2) b(2) l by simp_all
  obtain x where x: "xdr_rpcb_rmtcallargs (xdrmem_create m a sz XDR_ENCODE) r = Some (True, x, r\<lparr>rc_args_len := of_nat (length bs)\<rparr>)"
      "rd (x_mem x) a (length ?w) = ?w"
    by (rule xdrmem_encode [OF als.encodes_rpcb_rmtcallargs [OF args(1)] uns.encodes_rpcb_rmtcallargs [OF args(2)] a(1) len(1)])
  have rd: "rd (wr m' b ?w) b (length ?w) = ?w" by (rule rd_wr_same [OF refl])
  obtain y where "bxdr_rmtcall_args avail (xdrmem_create (wr m' b ?w) b sz' XDR_DECODE) cap0 = Some (True, y,
        cap0\<lparr>rm_prog := rc_prog r, rm_vers := rc_vers r, rm_proc := rc_proc r,
          rm_args := \<lparr>ep_arglen = of_nat (length bs), ep_args = Some bs\<rparr>\<rparr>)"
    by (rule xdrmem_decode [OF ald.decodes_bxdr_rmtcall_args [where avail = avail, OF small bs(1) av c0, unfolded pad]
          und.decodes_bxdr_rmtcall_args [where avail = avail, OF small bs(1) av c0, unfolded pad] b(1) len(2) rd])
  with x show ?thesis unfolding l by blast
qed

lemma rmtcall_reaches_binder_witness:
  "\<exists>x wire y. xdr_rpcb_rmtcallargs (xdrmem_create (\<lambda>_. 0) 64 80 XDR_ENCODE)
      \<lparr>rc_prog = 100005, rc_vers = 3, rc_proc = 1, rc_args_len = 77, rc_args_val = 5, rc_xdr_args = xdr_u_int\<rparr> =
      Some (True, x, \<lparr>rc_prog = 100005, rc_vers = 3, rc_proc = 1, rc_args_len = 4, rc_args_val = 5, rc_xdr_args = xdr_u_int\<rparr>)
    \<and> rd (x_mem x) 64 20 = wire
    \<and> bxdr_rmtcall_args (\<lambda>_. True) (xdrmem_create (wr (\<lambda>_. 0) 65 wire) 65 20 XDR_DECODE)
        \<lparr>rm_prog = 0, rm_vers = 0, rm_proc = 0, rm_localvers = 0, rm_uaddr = None, rm_args = \<lparr>ep_arglen = 0, ep_args = None\<rparr>\<rparr> =
      Some (True, y, \<lparr>rm_prog = 100005, rm_vers = 3, rm_proc = 1, rm_localvers = 0, rm_uaddr = None,
        rm_args = \<lparr>ep_arglen = 4, ep_args = Some (be32 5)\<rparr>\<rparr>)"
  using rmtcall_reaches_binder [of "\<lparr>rc_prog = 100005, rc_vers = 3, rc_proc = 1, rc_args_len = 77, rc_args_val = 5, rc_xdr_args = xdr_u_int\<rparr>"
      "be32 5" 64 80 65 20 "\<lambda>_. True"
      "\<lparr>rm_prog = 0, rm_vers = 0, rm_proc = 0, rm_localvers = 0, rm_uaddr = None, rm_args = \<lparr>ep_arglen = 0, ep_args = None\<rparr>\<rparr>" "\<lambda>_. 0" "\<lambda>_. 0"]
  by (simp add: al.encodes_xdr_u_int un.encodes_xdr_u_int)

text \<open>
  The results come back: what the binder encodes for a caller of version 3 or 4, the address of
  the service and the bytes of the results, the client decodes as a fresh copy of the address and,
  with its own filter, as the results those bytes stand for.
\<close>

theorem rmtcall_result_returns:
  assumes v: "rm_localvers cap = 3 \<or> rm_localvers cap = 4" and name: "name_ok (rm_uaddr cap)"
    and args: "ep_args (rm_args cap) = Some bs" "unat (ep_arglen (rm_args cap)) = length bs"
    and res: "\<And>m b n. ald.decodes m b n (rr_xdr_res r0) (padded bs) (rr_results_val r0) v"
      "\<And>m b n. und.decodes m b n (rr_xdr_res r0) (padded bs) (rr_results_val r0) v"
    and av: "\<forall>n \<le> 9001. avail n" and r0: "rr_addr r0 = None" and ab: "a \<noteq> 0" "b \<noteq> 0"
    and wire: "wire = name_bytes (rm_uaddr cap) @ be32 (ep_arglen (rm_args cap)) @ padded bs"
    and fits: "length wire \<le> unat sz" "length wire \<le> unat sz'"
  shows "\<exists>x y. xdr_rmtcall_result avail (xdrmem_create m a sz XDR_ENCODE) cap = Some (True, x, cap)
    \<and> rd (x_mem x) a (length wire) = wire
    \<and> xdr_rpcb_rmtcallres avail (xdrmem_create (wr m' b wire) b sz' XDR_DECODE) r0 = Some (True, y,
        r0\<lparr>rr_addr := fresh_name (rm_uaddr cap), rr_results_len := ep_arglen (rm_args cap), rr_results_val := v\<rparr>)"
proof -
  have le: "unat (ep_arglen (rm_args cap)) \<le> length bs" and t: "take (unat (ep_arglen (rm_args cap))) bs = bs" using args(2) by simp_all
  obtain x where "xdr_rmtcall_result avail (xdrmem_create m a sz XDR_ENCODE) cap = Some (True, x, cap)" "rd (x_mem x) a (length wire) = wire"
    unfolding wire
    by (rule xdrmem_encode [OF al.encodes_xdr_rmtcall_result [OF v name args(1) le, unfolded t]
          un.encodes_xdr_rmtcall_result [OF v name args(1) le, unfolded t] ab(1) fits(1) [unfolded wire]])
  moreover have rd: "rd (wr m' b wire) b (length wire) = wire" by (rule rd_wr_same [OF refl])
  obtain y where "xdr_rpcb_rmtcallres avail (xdrmem_create (wr m' b wire) b sz' XDR_DECODE) r0 = Some (True, y,
        r0\<lparr>rr_addr := fresh_name (rm_uaddr cap), rr_results_len := ep_arglen (rm_args cap), rr_results_val := v\<rparr>)"
    unfolding wire
    by (rule xdrmem_decode [OF ald.decodes_rpcb_rmtcallres [OF name av r0 res(1)] und.decodes_rpcb_rmtcallres [OF name av r0 res(2)]
          ab(2) fits(2) [unfolded wire] rd [unfolded wire]])
  ultimately show ?thesis by blast
qed

definition an_answer :: "byte list" where
  "an_answer = name_bytes (Some [49, 46, 50, 0]) @ be32 4 @ padded (be32 5)"

lemma rmtcall_result_returns_witness:
  "\<exists>x y. xdr_rmtcall_result (\<lambda>_. True) (xdrmem_create (\<lambda>_. 0) 64 80 XDR_ENCODE)
      \<lparr>rm_prog = 0, rm_vers = 0, rm_proc = 0, rm_localvers = 4, rm_uaddr = Some [49, 46, 50, 0], rm_args = \<lparr>ep_arglen = 4, ep_args = Some (be32 5)\<rparr>\<rparr> =
      Some (True, x, \<lparr>rm_prog = 0, rm_vers = 0, rm_proc = 0, rm_localvers = 4, rm_uaddr = Some [49, 46, 50, 0], rm_args = \<lparr>ep_arglen = 4, ep_args = Some (be32 5)\<rparr>\<rparr>)
    \<and> rd (x_mem x) 64 (length an_answer) = an_answer
    \<and> xdr_rpcb_rmtcallres (\<lambda>_. True) (xdrmem_create (wr (\<lambda>_. 0) 65 an_answer) 65 80 XDR_DECODE)
        \<lparr>rr_addr = None, rr_results_len = 0, rr_results_val = 0, rr_xdr_res = xdr_u_int\<rparr> =
      Some (True, y, \<lparr>rr_addr = Some [49, 46, 50, 0], rr_results_len = 4, rr_results_val = 5, rr_xdr_res = xdr_u_int\<rparr>)"
proof -
  have s: "strlen [49, 46, 50, 0 :: byte] = 3" "cstr [49, 46, 50, 0 :: byte] = [49, 46, 50]" by (simp_all add: strlen_def cstr_def)
  have p: "padded (be32 w) = be32 w" for w by (simp add: padded_def pad_def)
  show ?thesis
    unfolding an_answer_def
    using rmtcall_result_returns [of "\<lparr>rm_prog = 0, rm_vers = 0, rm_proc = 0, rm_localvers = 4, rm_uaddr = Some [49, 46, 50, 0],
        rm_args = \<lparr>ep_arglen = 4, ep_args = Some (be32 5)\<rparr>\<rparr>" "be32 5"
        "\<lparr>rr_addr = None, rr_results_len = 0, rr_results_val = 0, rr_xdr_res = xdr_u_int\<rparr>" 5 "\<lambda>_. True" 64 65 _ 80 80 "\<lambda>_. 0" "\<lambda>_. 0", OF _ _ _ _ _ _ _ _ _ _ refl]
    by (simp add: ald.decodes_xdr_u_int und.decodes_xdr_u_int name_ok_def name_bytes_def fresh_name_def s p padded_def pad_def)
qed

end
