(* ===== verification/Auth_Sys.thy ===== *)
theory Auth_Sys
  imports Rpc_Msg Xdr_Compound
begin

text \<open>
  The authenticators of the client: \<open>lib/libtirpc/src/authunix_prot.c\<close>, \<open>auth_unix.c\<close> and
  \<open>auth_none.c\<close>.  An \<open>AUTH\<close> of either kind is a record of its private data; the buffers of the
  code, which streams are set up on, are byte lists placed at addresses that are arguments
  (\<open>auth_env\<close>).  The interface \<open>authenticator\<close> is what a client may rely on: the operations of the
  handle put a credential and a verifier on the wire and keep them well formed.
\<close>

section \<open>The parameters of the flavor AUTH_SYS\<close>

definition AUTH_NONE :: enum_t where "AUTH_NONE = 0"
definition AUTH_SYS :: enum_t where "AUTH_SYS = 1"
definition AUTH_SHORT :: enum_t where "AUTH_SHORT = 2"
definition AUTH_DES :: enum_t where "AUTH_DES = 3"
definition RPCSEC_GSS :: enum_t where "RPCSEC_GSS = 6"

definition MAX_MACHINE_NAME :: "32 word" where "MAX_MACHINE_NAME = 255"
definition NGRPS :: "32 word" where "NGRPS = 16"

record authunix_parms =
  aup_time :: "64 word"
  aup_machname :: "byte list option"
  aup_uid :: "32 word"
  aup_gid :: "32 word"
  aup_len :: "32 word"
  aup_gids :: "32 word list option"

abbreviation aup_groups where
  "aup_groups \<equiv> fld (\<lambda>p. (aup_gids p, aup_len p))
     (\<lambda>f p. let (g, n) = f (aup_gids p, aup_len p) in p\<lparr>aup_gids := g, aup_len := n\<rparr>)"

definition xdr_authunix_parms :: "(nat \<Rightarrow> bool) \<Rightarrow> ('s, authunix_parms) xdrproc_t" where
  "xdr_authunix_parms avail xdrs p = and_then (and_then (and_then (and_then
     (fld aup_time aup_time_update xdr_u_long xdrs p)
     (fld aup_machname aup_machname_update (xdr_string avail MAX_MACHINE_NAME)))
     (fld aup_uid aup_uid_update xdr_u_int))
     (fld aup_gid aup_gid_update xdr_u_int))
     (aup_groups (xdr_array avail 0 NGRPS 4 xdr_int))"

section \<open>The authenticator of AUTH_SYS\<close>

text \<open>
  The private data of a handle (\<open>struct audata\<close>).  \<open>auth->ah_cred\<close> is always a copy of one of
  its two credentials, and the code tells which by comparing pointers: \<open>ah_short\<close>.
\<close>

record audata =
  au_origcred :: opaque_auth
  au_shcred :: opaque_auth
  au_shfaults :: "64 word"
  au_marshed :: "byte list"
  au_mpos :: "32 word"
  ah_short :: bool
  ah_verf :: opaque_auth

definition ah_cred :: "audata \<Rightarrow> opaque_auth" where
  "ah_cred au = (if ah_short au then au_shcred au else au_origcred au)"

text \<open>
  What the functions find outside: the allocator, the memory, the addresses of \<open>mymem\<close>, of
  \<open>au_marshed\<close>, of the block of the original credential and of a received verifier, and
  the clock.
\<close>

record auth_env =
  ae_avail :: "nat \<Rightarrow> bool"
  ae_mem :: mem
  ae_mymem :: addr
  ae_marshed :: addr
  ae_cred :: addr
  ae_verf :: addr
  ae_now :: "64 word"

text \<open>A stream on a buffer of the program that holds \<open>bs\<close>.\<close>

definition stream_on :: "auth_env \<Rightarrow> addr \<Rightarrow> byte list \<Rightarrow> 32 word \<Rightarrow> xdr_op \<Rightarrow> memstrm XDR" where
  "stream_on ae a bs sz op = xdrmem_create (wr (ae_mem ae) a bs) a sz op"

definition marshal_new_auth :: "auth_env \<Rightarrow> audata \<Rightarrow> audata option" where
  "marshal_new_auth ae au = do {
     let xdrs = stream_on ae (ae_marshed ae) (au_marshed au) MAX_AUTH_BYTES XDR_ENCODE;
     (ok, xdrs, _) \<leftarrow> and_then
       (fld fst apfst (xdr_opaque_auth (ae_avail ae)) xdrs (ah_cred au, ah_verf au))
       (fld snd apsnd (xdr_opaque_auth (ae_avail ae)));
     let au = au\<lparr>au_marshed := rd (x_mem xdrs) (ae_marshed ae) (length (au_marshed au))\<rparr>;
     if \<not> ok then Some au
     else do { pos \<leftarrow> XDR_GETPOS xdrs; Some (au\<lparr>au_mpos := pos\<rparr>) } }"

text \<open>
  \<open>mem_alloc\<close> of the two structures, which the sizes are those of; a failure is the value left in
  \<open>rpc_createerr.cf_stat\<close>.
\<close>

definition sizeof_AUTH :: nat where "sizeof_AUTH = 72"
definition sizeof_audata :: nat where "sizeof_audata = 464"

definition authunix_create ::
    "auth_env \<Rightarrow> byte list \<Rightarrow> 32 word \<Rightarrow> 32 word \<Rightarrow> 32 word \<Rightarrow> 32 word list \<Rightarrow> (clnt_stat + audata) option" where
  "authunix_create ae machname uid gid len gids =
    (if \<not> ae_avail ae sizeof_AUTH then Some (Inl RPC_SYSTEMERROR)
     else if \<not> ae_avail ae sizeof_audata then Some (Inl RPC_SYSTEMERROR)
     else do {
       let au = \<lparr>au_origcred = null_auth, au_shcred = null_auth, au_shfaults = 0,
                 au_marshed = replicate 400 0, au_mpos = 0, ah_short = False, ah_verf = null_auth\<rparr>;
       let aup = \<lparr>aup_time = ae_now ae, aup_machname = Some machname, aup_uid = uid, aup_gid = gid,
                  aup_len = len, aup_gids = Some gids\<rparr>;
       let xdrs = xdrmem_create (ae_mem ae) (ae_mymem ae) MAX_AUTH_BYTES XDR_ENCODE;
       (ok, xdrs, aup) \<leftarrow> xdr_authunix_parms (ae_avail ae) xdrs aup;
       if \<not> ok then Some (Inl RPC_CANTENCODEARGS)
       else do {
         len \<leftarrow> XDR_GETPOS xdrs;
         let au = au\<lparr>au_origcred := (au_origcred au)\<lparr>oa_length := len, oa_flavor := AUTH_SYS\<rparr>\<rparr>;
         if \<not> ae_avail ae (unat len) then Some (Inl RPC_SYSTEMERROR)
         else do {
           let au = au\<lparr>au_origcred := (au_origcred au)\<lparr>oa_base := Some (rd (x_mem xdrs) (ae_mymem ae) (unat len))\<rparr>\<rparr>;
           au \<leftarrow> marshal_new_auth ae au;
           Some (Inr au) } } })"

text \<open>
  The answers of the system to \<open>authunix_create_default\<close>: the name of the host and its groups.  Each
  attempt at the groups is two calls of \<open>getgroups\<close>, which may disagree; the second may
  fail with \<open>EINVAL\<close>, and then both are made again.  Without an end of the attempts there is no
  result.
\<close>

definition EINVAL :: int where "EINVAL = 22"

record sys_answers =
  sys_hostname :: "byte list option"
  sys_euid :: "32 word"
  sys_egid :: "32 word"
  sys_groups :: "(nat option \<times> (int + 32 word list)) list"

fun get_groups :: "(nat \<Rightarrow> bool) \<Rightarrow> (nat option \<times> (int + 32 word list)) list \<Rightarrow> (32 word list option) option" where
  "get_groups avail [] = None"
| "get_groups avail ((len, groups) # attempts) = (case len of
     None \<Rightarrow> Some None
   | Some n \<Rightarrow>
       if \<not> avail (4 * (n + 1)) then Some None
       else case groups of
         Inr gids \<Rightarrow> Some (Some gids)
       | Inl errno \<Rightarrow> if errno = EINVAL then get_groups avail attempts else Some None)"

text \<open>\<open>machname[sizeof(machname) - 1] = 0\<close>, where the array has 65 characters.\<close>

definition MAXHOSTNAMELEN :: nat where "MAXHOSTNAMELEN = 64"

definition authunix_create_default :: "auth_env \<Rightarrow> sys_answers \<Rightarrow> (clnt_stat + audata) option" where
  "authunix_create_default ae sys = (case sys_hostname sys of
     None \<Rightarrow> Some (Inl RPC_SYSTEMERROR)
   | Some name \<Rightarrow> do {
       let machname = name[MAXHOSTNAMELEN := 0];
       groups \<leftarrow> get_groups (ae_avail ae) (sys_groups sys);
       case groups of
         None \<Rightarrow> Some (Inl RPC_SYSTEMERROR)
       | Some gids \<Rightarrow>
           authunix_create ae machname (sys_euid sys) (sys_egid sys)
             (of_nat (if length gids > 16 then 16 else length gids)) gids })"

definition authunix_marshal :: "audata \<Rightarrow> 's XDR \<Rightarrow> (bool \<times> 's XDR) option" where
  "authunix_marshal au xdrs = XDR_PUTBYTES xdrs (au_marshed au) (au_mpos au)"

text \<open>
  A verifier of the flavor \<open>AUTH_SHORT\<close> carries a new credential.  The old block is freed first, so
  the new credential is decoded where the pointer is null.  A verifier without a body has a null
  block, which is not read when the length is less than a word.
\<close>

definition authunix_validate :: "auth_env \<Rightarrow> audata \<Rightarrow> opaque_auth \<Rightarrow> (bool \<times> audata) option" where
  "authunix_validate ae au verf =
    (if oa_flavor verf = AUTH_SHORT then do {
       base \<leftarrow> (case oa_base verf of
           None \<Rightarrow> if oa_length verf < 4 then Some [] else None
         | Some b \<Rightarrow> Some b);
       let xdrs = stream_on ae (ae_verf ae) base (oa_length verf) XDR_DECODE;
       let au = au\<lparr>au_shcred := (au_shcred au)\<lparr>oa_base := None\<rparr>\<rparr>;
       (ok, xdrs, cred) \<leftarrow> xdr_opaque_auth (ae_avail ae) xdrs (au_shcred au);
       let au = au\<lparr>au_shcred := cred\<rparr>;
       au \<leftarrow> (if ok then Some (au\<lparr>ah_short := True\<rparr>)
         else do {
           (_, _, cred) \<leftarrow> xdr_opaque_auth (ae_avail ae) (xdrs\<lparr>x_op := XDR_FREE\<rparr>) (au_shcred au);
           Some (au\<lparr>au_shcred := cred\<lparr>oa_base := None\<rparr>, ah_short := False\<rparr>) });
       au \<leftarrow> marshal_new_auth ae au;
       Some (True, au) }
     else Some (True, au))"

text \<open>The original credential gets a new time; its block is decoded and encoded again in place.\<close>

definition authunix_refresh :: "auth_env \<Rightarrow> audata \<Rightarrow> (bool \<times> audata) option" where
  "authunix_refresh ae au =
    (if \<not> ah_short au then Some (False, au)
     else do {
       let au = au\<lparr>au_shfaults := au_shfaults au + 1\<rparr>;
       let aup = \<lparr>aup_time = 0, aup_machname = None, aup_uid = 0, aup_gid = 0, aup_len = 0, aup_gids = None\<rparr>;
       base \<leftarrow> oa_base (au_origcred au);
       let xdrs = stream_on ae (ae_cred ae) base (oa_length (au_origcred au)) XDR_DECODE;
       (ok, xdrs, aup) \<leftarrow> xdr_authunix_parms (ae_avail ae) xdrs aup;
       if \<not> ok then do {
         (_, xdrs, aup) \<leftarrow> xdr_authunix_parms (ae_avail ae) (xdrs\<lparr>x_op := XDR_FREE\<rparr>) aup;
         Some (False, au) }
       else do {
         let aup = aup\<lparr>aup_time := ae_now ae\<rparr>;
         let xdrs = xdrs\<lparr>x_op := XDR_ENCODE\<rparr>;
         (_, xdrs) \<leftarrow> XDR_SETPOS xdrs 0;
         (ok, xdrs, aup) \<leftarrow> xdr_authunix_parms (ae_avail ae) xdrs aup;
         let au = au\<lparr>au_origcred := (au_origcred au)\<lparr>oa_base := Some (rd (x_mem xdrs) (ae_cred ae) (length base))\<rparr>\<rparr>;
         au \<leftarrow> (if ok then marshal_new_auth ae (au\<lparr>ah_short := False\<rparr>) else Some au);
         (_, xdrs, aup) \<leftarrow> xdr_authunix_parms (ae_avail ae) (xdrs\<lparr>x_op := XDR_FREE\<rparr>) aup;
         Some (ok, au) } })"

section \<open>The null authenticator\<close>

record authnone_private =
  no_cred :: opaque_auth
  no_verf :: opaque_auth
  marshalled_client :: "byte list"
  mcnt :: "32 word"

text \<open>The static pointer: \<open>None\<close> until the first call, whose \<open>calloc\<close> may fail.\<close>

definition authnone_create ::
    "auth_env \<Rightarrow> authnone_private option \<Rightarrow> (bool \<times> authnone_private option) option" where
  "authnone_create ae priv =
    (case (case priv of
         None \<Rightarrow> if ae_avail ae 136 then Some \<lparr>no_cred = null_auth, no_verf = null_auth,
                   marshalled_client = replicate 20 0, mcnt = 0\<rparr> else None
       | Some ap \<Rightarrow> Some ap) of
       None \<Rightarrow> Some (False, None)
     | Some ap \<Rightarrow>
         if mcnt ap = 0 then do {
           let ap = ap\<lparr>no_cred := null_auth, no_verf := null_auth\<rparr>;
           let xdrs = stream_on ae (ae_marshed ae) (marshalled_client ap) 20 XDR_ENCODE;
           (_, xdrs, _) \<leftarrow> xdr_opaque_auth (ae_avail ae) xdrs (no_cred ap);
           (_, xdrs, _) \<leftarrow> xdr_opaque_auth (ae_avail ae) xdrs (no_verf ap);
           pos \<leftarrow> XDR_GETPOS xdrs;
           Some (True, Some (ap\<lparr>marshalled_client := rd (x_mem xdrs) (ae_marshed ae) 20, mcnt := pos\<rparr>)) }
         else Some (True, Some ap))"

definition authnone_marshal :: "authnone_private option \<Rightarrow> 's XDR \<Rightarrow> (bool \<times> 's XDR) option" where
  "authnone_marshal priv xdrs = (case priv of
     None \<Rightarrow> Some (False, xdrs)
   | Some ap \<Rightarrow> XDR_PUTBYTES xdrs (marshalled_client ap) (mcnt ap))"

definition authnone_validate :: "authnone_private option \<Rightarrow> opaque_auth \<Rightarrow> (bool \<times> authnone_private option) option" where
  "authnone_validate priv verf = Some (True, priv)"

definition authnone_refresh :: "authnone_private option \<Rightarrow> (bool \<times> authnone_private option) option" where
  "authnone_refresh priv = Some (False, priv)"

text \<open>Both kinds leave the arguments as they are.\<close>

definition auth_wrap :: "('s, 'a) xdrproc_t \<Rightarrow> ('s, 'a) xdrproc_t" where
  "auth_wrap xfunc xdrs xwhere = xfunc xdrs xwhere"

end
