(* ===== verification/Svc_Auth.thy ===== *)
theory Svc_Auth
  imports Auth_Sys
begin

text \<open>
  The authentication of the server: \<open>lib/libtirpc/src/svc_auth.c\<close>, \<open>svc_auth_unix.c\<close> and
  \<open>svc_auth_none.c\<close>, in the default build: \<open>HAVE_RPCSEC_GSS\<close>
  is defined, \<open>AUTHDES_SUPPORT\<close> is not.  \<open>_svcauth_gss\<close>, which is the GSS library's, is an argument.  The credential
  of the message is a block at an address, and the in-line decoding of AUTH_SYS reads the memory
  there, beyond the credential's own length where the words it finds say so.
\<close>

section \<open>Statuses, requests\<close>

type_synonym auth_stat = enum_t

definition AUTH_OK :: auth_stat where "AUTH_OK = 0"
definition AUTH_BADCRED :: auth_stat where "AUTH_BADCRED = 1"
definition AUTH_REJECTEDCRED :: auth_stat where "AUTH_REJECTEDCRED = 2"
definition AUTH_TOOWEAK :: auth_stat where "AUTH_TOOWEAK = 5"
definition AUTH_FAILED :: auth_stat where "AUTH_FAILED = 7"

lemmas auth_stats = AUTH_OK_def AUTH_BADCRED_def AUTH_REJECTEDCRED_def AUTH_TOOWEAK_def AUTH_FAILED_def

text \<open>
  \<open>struct area\<close>, which the cooked credential is laid out as; the pointers of its parameters are
  always to its own arrays.
\<close>

record area =
  area_time :: "64 word"
  area_uid :: "32 word"
  area_gid :: "32 word"
  area_len :: "32 word"
  area_machname :: "byte list"
  area_gids :: "32 word list"

definition area_aup :: "area \<Rightarrow> authunix_parms" where
  "area_aup area = \<lparr>aup_time = area_time area, aup_machname = Some (area_machname area), aup_uid = area_uid area,
     aup_gid = area_gid area, aup_len = area_len area, aup_gids = Some (area_gids area)\<rparr>"

definition aup_area :: "authunix_parms \<Rightarrow> area option" where
  "aup_area aup = do {
     name \<leftarrow> aup_machname aup;
     gids \<leftarrow> aup_gids aup;
     Some \<lparr>area_time = aup_time aup, area_uid = aup_uid aup, area_gid = aup_gid aup, area_len = aup_len aup,
       area_machname = name, area_gids = gids\<rparr> }"

text \<open>
  What a request and its transport hold of authentication: the raw and the cooked credential,
  the verifier of the reply, and whether \<open>svc_ah_ops\<close> are those of \<open>svc_auth_none\<close>.
\<close>

record auth_rqst =
  rq_cred :: opaque_auth
  rq_clntcred :: area
  xp_verf :: opaque_auth
  xp_auth_none :: bool

section \<open>AUTH_SYS\<close>

fun get_gids :: "'s XDR \<Rightarrow> addr \<Rightarrow> nat \<Rightarrow> nat \<Rightarrow> 32 word list \<Rightarrow> 32 word list" where
  "get_gids xdrs buf i 0 gids = gids"
| "get_gids xdrs buf i (Suc n) gids =
     (let (v, buf) = IXDR_GET_INT32 xdrs buf in get_gids xdrs buf (Suc i) n (gids[i := v]))"

text \<open>
  The in-line decoding.  \<open>IXDR_GET_INT32\<close> is signed, so the time is sign-extended.  The length of
  the credential is compared after everything has been read.
\<close>

definition svcauth_inline :: "'s XDR \<Rightarrow> addr \<Rightarrow> 32 word \<Rightarrow> area \<Rightarrow> auth_stat \<times> area" where
  "svcauth_inline xdrs buf auth_len aup =
    (let (v, buf) = IXDR_GET_INT32 xdrs buf;
         aup = aup\<lparr>area_time := scast v\<rparr>;
         (str_len, buf) = IXDR_GET_INT32 xdrs buf
     in if str_len > MAX_MACHINE_NAME then (AUTH_BADCRED, aup)
     else let
         aup = aup\<lparr>area_machname :=
           (fill (area_machname aup) (rd (x_mem xdrs) buf (unat str_len)))[unat str_len := 0]\<rparr>;
         str_len = unat (RNDUP str_len);
         buf = buf + str_len;
         (v, buf) = IXDR_GET_INT32 xdrs buf;
         aup = aup\<lparr>area_uid := v\<rparr>;
         (v, buf) = IXDR_GET_INT32 xdrs buf;
         aup = aup\<lparr>area_gid := v\<rparr>;
         (gid_len, buf) = IXDR_GET_INT32 xdrs buf
     in if gid_len > NGRPS then (AUTH_BADCRED, aup)
     else let
         aup = aup\<lparr>area_len := gid_len\<rparr>;
         aup = aup\<lparr>area_gids := get_gids xdrs buf 0 (unat gid_len) (area_gids aup)\<rparr>
     in if (5 + unat gid_len) * 4 + str_len > unat auth_len then (AUTH_BADCRED, aup)
     else (AUTH_OK, aup))"

text \<open>The verifier of the reply is that of the call.\<close>

definition set_verf :: "opaque_auth \<Rightarrow> auth_rqst \<Rightarrow> auth_rqst" where
  "set_verf verf rqst = rqst\<lparr>xp_verf :=
     (if oa_length verf \<noteq> 0 then verf else (xp_verf rqst)\<lparr>oa_flavor := AUTH_NONE, oa_length := 0\<rparr>)\<rparr>"

text \<open>
  \<open>m\<close> is the memory and \<open>p\<close> the address of the credential's block.  Without an in-line buffer a
  failure frees what \<open>xdr_authunix_parms\<close> made, which is an array of \<open>area\<close>: \<open>free\<close> of a pointer
  that was never allocated is not defined.
\<close>

definition svcauth_unix ::
    "(nat \<Rightarrow> bool) \<Rightarrow> mem \<Rightarrow> addr \<Rightarrow> auth_rqst \<Rightarrow> ('s, 'w) trpc_msg \<Rightarrow> (auth_stat \<times> auth_rqst) option" where
  "svcauth_unix avail m p rqst msg = do {
     let cred = tcb_cred (trm_call msg);
     let auth_len = oa_length cred;
     base \<leftarrow> oa_base cred;
     let xdrs = xdrmem_create (wr m p base) p auth_len XDR_DECODE;
     (buf, xdrs) \<leftarrow> XDR_INLINE xdrs auth_len;
     if buf \<noteq> 0 then
       (case svcauth_inline xdrs buf auth_len (rq_clntcred rqst) of (stat, aup) \<Rightarrow>
          let rqst = rqst\<lparr>rq_clntcred := aup\<rparr>
          in Some (stat, if stat = AUTH_OK then set_verf (tcb_verf (trm_call msg)) rqst else rqst))
     else do {
       (ok, xdrs, aup) \<leftarrow> xdr_authunix_parms avail xdrs (area_aup (rq_clntcred rqst));
       if \<not> ok then None
       else do {
         area \<leftarrow> aup_area aup;
         Some (AUTH_OK, set_verf (tcb_verf (trm_call msg)) (rqst\<lparr>rq_clntcred := area\<rparr>)) } } }"

definition svcauth_short :: "auth_rqst \<Rightarrow> ('s, 'w) trpc_msg \<Rightarrow> auth_stat \<times> auth_rqst" where
  "svcauth_short rqst msg = (AUTH_REJECTEDCRED, rqst)"

definition svcauth_none :: "auth_rqst \<Rightarrow> ('s, 'w) trpc_msg \<Rightarrow> auth_stat \<times> auth_rqst" where
  "svcauth_none rqst msg = (AUTH_OK, rqst)"

section \<open>The switch\<close>

text \<open>The list of flavors a program has added, each with its handler.\<close>

type_synonym ('s, 'w) auth_handler =
  "auth_rqst \<Rightarrow> ('s, 'w) trpc_msg \<Rightarrow> (auth_stat \<times> auth_rqst) option"

record ('s, 'w) authsvc =
  as_flavor :: enum_t
  as_handler :: "('s, 'w) auth_handler"

type_synonym ('s, 'w) gss_handler =
  "auth_rqst \<Rightarrow> ('s, 'w) trpc_msg \<Rightarrow> bool \<Rightarrow> (auth_stat \<times> bool \<times> auth_rqst) option"

definition gss_authenticate ::
    "('s, 'w) gss_handler \<Rightarrow> (nat \<Rightarrow> bool) \<Rightarrow> mem \<Rightarrow> addr \<Rightarrow> ('s, 'w) authsvc list \<Rightarrow> auth_rqst \<Rightarrow> ('s, 'w) trpc_msg \<Rightarrow>
     (auth_stat \<times> bool \<times> auth_rqst) option" where
  "gss_authenticate gss avail m p auths rqst msg =
    (let rqst = rqst\<lparr>rq_cred := tcb_cred (trm_call msg), xp_auth_none := True,
           xp_verf := (xp_verf rqst)\<lparr>oa_flavor := oa_flavor null_auth, oa_length := 0\<rparr>\<rparr>;
         cred_flavor = oa_flavor (rq_cred rqst);
         no_dispatch = False
     in if cred_flavor = AUTH_NONE then (case svcauth_none rqst msg of (s, r) \<Rightarrow> Some (s, no_dispatch, r))
     else if cred_flavor = AUTH_SYS then do { (s, r) \<leftarrow> svcauth_unix avail m p rqst msg; Some (s, no_dispatch, r) }
     else if cred_flavor = AUTH_SHORT then (case svcauth_short rqst msg of (s, r) \<Rightarrow> Some (s, no_dispatch, r))
     else if cred_flavor = AUTH_DES then Some (AUTH_FAILED, no_dispatch, rqst)
     else if cred_flavor = RPCSEC_GSS then gss rqst msg no_dispatch
     else case find (\<lambda>asp. as_flavor asp = cred_flavor) auths of
       Some asp \<Rightarrow> do { (s, r) \<leftarrow> as_handler asp rqst msg; Some (s, no_dispatch, r) }
     | None \<Rightarrow> Some (AUTH_REJECTEDCRED, no_dispatch, rqst))"

definition authenticate ::
    "('s, 'w) gss_handler \<Rightarrow> (nat \<Rightarrow> bool) \<Rightarrow> mem \<Rightarrow> addr \<Rightarrow> ('s, 'w) authsvc list \<Rightarrow> auth_rqst \<Rightarrow> ('s, 'w) trpc_msg \<Rightarrow>
     (auth_stat \<times> auth_rqst) option" where
  "authenticate gss avail m p auths rqst msg = do {
     (s, no_dispatch, r) \<leftarrow> gss_authenticate gss avail m p auths rqst msg;
     Some (s, r) }"

text \<open>
  0 if the flavor is registered, 1 if it was already, -1 if it cannot be.  Without
  \<open>AUTHDES_SUPPORT\<close> the cases of the flavors the library knows run into \<open>return (-1)\<close>, but for
  that of RPCSEC_GSS, which follows it.
\<close>

definition svc_auth_reg ::
    "(nat \<Rightarrow> bool) \<Rightarrow> enum_t \<Rightarrow> ('s, 'w) auth_handler \<Rightarrow> ('s, 'w) authsvc list \<Rightarrow> int \<times> ('s, 'w) authsvc list" where
  "svc_auth_reg avail cred_flavor handler auths =
    (if cred_flavor \<in> {AUTH_NONE, AUTH_SYS, AUTH_SHORT, AUTH_DES} then (-1, auths)
     else if cred_flavor = RPCSEC_GSS then (1, auths)
     else if find (\<lambda>asp. as_flavor asp = cred_flavor) auths \<noteq> None then (1, auths)
     else if \<not> avail 24 then (-1, auths)
     else (0, \<lparr>as_flavor = cred_flavor, as_handler = handler\<rparr> # auths))"

end
