(* ===== verification/Xdr_Rewind.thy ===== *)
theory Xdr_Rewind
  imports Xdr_Mem
begin

text \<open>
  Several callers use one memory stream again and again: they set its operation, its position to
  0 and run a filter.  Whatever a filter did before, the rewound handle is a fresh one on the
  memory as it then is.
\<close>

definition mem_stream :: "mem \<Rightarrow> addr \<Rightarrow> 32 word \<Rightarrow> memstrm XDR \<Rightarrow> bool" where
  "mem_stream m0 a sz xdrs \<longleftrightarrow>
     x_ops xdrs = (if a mod 4 \<noteq> 0 then xdrmem_ops_unaligned else xdrmem_ops_aligned) \<and>
     mem_inv m0 a (unat sz) (xst xdrs)"

lemma mem_stream_create: "a \<noteq> 0 \<Longrightarrow> mem_stream m a sz (xdrmem_create m a sz op)"
  by (simp add: mem_stream_def xdrmem_create_def xst_def mem_inv_def)

lemma mem_stream_frame: "mem_stream m a sz xdrs \<Longrightarrow> x < a \<or> a + unat sz \<le> x \<Longrightarrow> x_mem xdrs x = m x"
  by (auto simp: mem_stream_def mem_inv_def xst_def)

lemma mem_stream_op [simp]: "mem_stream m a sz (xdrs\<lparr>x_op := op\<rparr>) = mem_stream m a sz xdrs"
  by (simp add: mem_stream_def xst_def)

lemma xdrmem_rewind:
  assumes "mem_stream m0 a sz xdrs"
  shows "XDR_SETPOS (xdrs\<lparr>x_op := op\<rparr>) 0 = Some (True, xdrmem_create (x_mem xdrs) a sz op)"
  using assms
  by (cases "a mod 4 = 0")
    (auto simp: mem_stream_def mem_inv_def xst_def XDR_SETPOS_def with_xst_def xdrmem_ops_aligned_def
      xdrmem_ops_unaligned_def xdrmem_setpos_def xdrmem_create_def Let_def intro!: XDR.equality memstrm.equality)

lemma xdrmem_encode_stream:
  assumes F: "al.encodes m a (unat sz) F v bs v'" "un.encodes m a (unat sz) F v bs v'"
    and a: "a \<noteq> 0" and l: "length bs \<le> unat sz"
  obtains xdrs where "F (xdrmem_create m a sz XDR_ENCODE) v = Some (True, xdrs, v')"
    and "rd (x_mem xdrs) a (length bs) = bs" and "mem_stream m a sz xdrs" and "x_op xdrs = XDR_ENCODE"
proof (cases "a mod 4 = 0")
  case True
  have s0: "al.sinks m a (unat sz) (xdrmem_create m a sz XDR_ENCODE)"
    using mem_stream_create [OF a, of m sz XDR_ENCODE] True by (simp add: al.sinks_def mem_stream_def xdrmem_create_def)
  have r0: "al.room (xdrmem_create m a sz XDR_ENCODE) (length bs + 0)"
    unfolding al.room_def using l by (simp add: xdrmem_create_def xst_def mem_fits_def)
  obtain x where x: "F (xdrmem_create m a sz XDR_ENCODE) v = Some (True, x, v')" and s: "al.sinks m a (unat sz) x"
    and out: "al.sent x = al.sent (xdrmem_create m a sz XDR_ENCODE) @ bs"
    by (rule al.encodesE [OF F(1) s0 r0])
  from s have i: "mem_inv m a (unat sz) (xst x)" "x_ops x = xdrmem_ops_aligned" "x_op x = XDR_ENCODE"
    by (simp_all add: al.sinks_def)
  have "rd (x_mem x) a (m_private (x_private x) - a) = bs"
    using out i(1) unfolding al.sent_def by (simp add: mem_out_def xst_def mem_inv_def xdrmem_create_def)
  then have "rd (x_mem x) a (length bs) = bs" by (metis length_rd)
  with x i True show thesis by (intro that) (simp_all add: mem_stream_def)
next
  case False
  have s0: "un.sinks m a (unat sz) (xdrmem_create m a sz XDR_ENCODE)"
    using mem_stream_create [OF a, of m sz XDR_ENCODE] False by (simp add: un.sinks_def mem_stream_def xdrmem_create_def)
  have r0: "un.room (xdrmem_create m a sz XDR_ENCODE) (length bs + 0)"
    unfolding un.room_def using l by (simp add: xdrmem_create_def xst_def mem_fits_def)
  obtain x where x: "F (xdrmem_create m a sz XDR_ENCODE) v = Some (True, x, v')" and s: "un.sinks m a (unat sz) x"
    and out: "un.sent x = un.sent (xdrmem_create m a sz XDR_ENCODE) @ bs"
    by (rule un.encodesE [OF F(2) s0 r0])
  from s have i: "mem_inv m a (unat sz) (xst x)" "x_ops x = xdrmem_ops_unaligned" "x_op x = XDR_ENCODE"
    by (simp_all add: un.sinks_def)
  have "rd (x_mem x) a (m_private (x_private x) - a) = bs"
    using out i(1) unfolding un.sent_def by (simp add: mem_out_def xst_def mem_inv_def xdrmem_create_def)
  then have "rd (x_mem x) a (length bs) = bs" by (metis length_rd)
  with x i False show thesis by (intro that) (simp_all add: mem_stream_def)
qed

lemma xdrmem_decode_stream:
  assumes F: "ald.decodes m a (unat sz) F bs v0 v" "und.decodes m a (unat sz) F bs v0 v"
    and a: "a \<noteq> 0" and l: "length bs \<le> unat sz" and rd: "rd m a (length bs) = bs"
  obtains xdrs where "F (xdrmem_create m a sz XDR_DECODE) v0 = Some (True, xdrs, v)"
    and "mem_stream m a sz xdrs" and "x_op xdrs = XDR_DECODE"
    and "mem_rest (xst xdrs) = rd m (a + length bs) (unat sz - length bs)"
proof -
  let ?rs = "rd m (a + length bs) (unat sz - length bs)"
  let ?x0 = "xdrmem_create m a sz XDR_DECODE"
  have all: "rd m a (unat sz) = bs @ ?rs" using rd l by (metis rd_add le_add_diff_inverse)
  show thesis
  proof (cases "a mod 4 = 0")
    case True
    have s0: "ald.sources m a (unat sz) ?x0"
      using mem_stream_create [OF a, of m sz XDR_DECODE] True by (simp add: ald.sources_def mem_stream_def xdrmem_create_def)
    have p0: "ald.pending ?x0 = bs @ ?rs" unfolding ald.pending_def using all by (simp add: mem_rest_def xst_def xdrmem_create_def)
    obtain x where x: "F ?x0 v0 = Some (True, x, v)" and s: "ald.sources m a (unat sz) x" and p: "ald.pending x = ?rs"
      by (rule ald.decodesE [OF F(1) s0 p0])
    with True show thesis by (intro that) (simp_all add: ald.sources_def ald.pending_def mem_stream_def)
  next
    case False
    have s0: "und.sources m a (unat sz) ?x0"
      using mem_stream_create [OF a, of m sz XDR_DECODE] False by (simp add: und.sources_def mem_stream_def xdrmem_create_def)
    have p0: "und.pending ?x0 = bs @ ?rs" unfolding und.pending_def using all by (simp add: mem_rest_def xst_def xdrmem_create_def)
    obtain x where x: "F ?x0 v0 = Some (True, x, v)" and s: "und.sources m a (unat sz) x" and p: "und.pending x = ?rs"
      by (rule und.decodesE [OF F(2) s0 p0])
    with False show thesis by (intro that) (simp_all add: und.sources_def und.pending_def mem_stream_def)
  qed
qed

end
