(* ===== verification/Auth_Codec.thy ===== *)
theory Auth_Codec
  imports Svc_Auth Xdr_Rewind
begin

text \<open>
  What the filter of AUTH_SYS puts on the wire and takes from it, what the in-line decoding of
  the server reads, and the interface \<open>authenticator\<close> that both kinds of handle implement.
\<close>

section \<open>The credential on the wire\<close>

text \<open>
  The words of the credential of a name \<open>s\<close>, its padding \<open>pd\<close>, the ids and the groups.
\<close>

definition sys_bytes :: "32 word \<Rightarrow> byte list \<Rightarrow> byte list \<Rightarrow> 32 word \<Rightarrow> 32 word \<Rightarrow> 32 word list \<Rightarrow> byte list" where
  "sys_bytes t s pd uid gid gs = be32 t @ be32 (of_nat (length s)) @ s @ pd @ be32 uid @ be32 gid @
     be32 (of_nat (length gs)) @ concat (map be32 gs)"

definition groups :: "authunix_parms \<Rightarrow> 32 word list" where
  "groups p = (case aup_gids p of None \<Rightarrow> [] | Some gs \<Rightarrow> take (unat (aup_len p)) gs)"

definition aup_ok :: "authunix_parms \<Rightarrow> bool" where
  "aup_ok p \<longleftrightarrow> (case aup_machname p of None \<Rightarrow> False | Some s \<Rightarrow> 0 \<in> set s \<and> strlen s \<le> 255) \<and>
     unat (aup_len p) \<le> 16 \<and> length (groups p) = unat (aup_len p)"

definition aup_bytes :: "authunix_parms \<Rightarrow> byte list" where
  "aup_bytes p = (let s = cstr (the (aup_machname p)) in
     sys_bytes (ucast (aup_time p)) s (replicate (pad (length s)) 0) (aup_uid p) (aup_gid p) (groups p))"

lemma length_sys_bytes: "length (sys_bytes t s pd uid gid gs) = 20 + length s + length pd + 4 * length gs"
  by (simp add: sys_bytes_def length_concat comp_def sum_list_triv)

lemma small_word: "k \<le> 400 \<Longrightarrow> unat (of_nat k :: 32 word) = k"
  by (rule unat_of_nat32) simp

lemma max_word_div4: "(0xffffffff :: 32 word) div 4 = 0x3fffffff"
  by (simp add: word_div_def)

context xdr_sink begin

lemma encodes_elems_prefix:
  "list_all2 (\<lambda>a bs. encodes elproc a bs a) as bss \<Longrightarrow>
   encodes (xdr_elems elproc (length as)) (as @ r) (concat bss) (as @ r)"
proof (induction as bss rule: list_all2_induct)
  case Nil
  show ?case by (auto simp: encodes_def)
next
  case (Cons a as bs bss)
  show ?case
  proof (rule encodesI)
    fix xdrs n
    assume s: "sinks xdrs" and "room xdrs (length (concat (bs # bss)) + n)"
    then have rm: "room xdrs (length bs + (length (concat bss) + n))" by (simp add: add.assoc)
    obtain x1 where 1: "elproc xdrs a = Some (True, x1, a)" "sent x1 = sent xdrs @ bs"
      and s1: "sinks x1" and r1: "room x1 (length (concat bss) + n)"
      by (rule encodesE [OF Cons(1) s rm])
    obtain x2 where "xdr_elems elproc (length as) x1 (as @ r) = Some (True, x2, as @ r)"
      "sent x2 = sent x1 @ concat bss" "sinks x2" "room x2 n"
      by (rule encodesE [OF Cons(3) s1 r1])
    with 1 show "\<exists>xdrs'. xdr_elems elproc (length (a # as)) xdrs ((a # as) @ r) = Some (True, xdrs', (a # as) @ r) \<and>
        sinks xdrs' \<and> sent xdrs' = sent xdrs @ concat (bs # bss) \<and> room xdrs' n"
      by simp
  qed
qed

lemma encodes_gids:
  assumes n: "unat c \<le> 16" "unat c \<le> length gs"
  shows "encodes (xdr_array avail 0 NGRPS 4 xdr_int) (Some gs, c)
    (be32 c @ concat (map be32 (take (unat c) gs))) (Some gs, c)"
proof (rule encodesI)
  fix xdrs n
  let ?bs = "concat (map be32 (take (unat c) gs))"
  assume s: "sinks xdrs" and "room xdrs (length (be32 c @ ?bs) + n)"
  then have r: "room xdrs (length (be32 c) + (length ?bs + n))" by (simp only: length_append add.assoc)
  obtain x1 where 1: "xdr_u_int xdrs c = Some (True, x1, c)" "sent x1 = sent xdrs @ be32 c"
    and s1: "sinks x1" and r1: "room x1 (length ?bs + n)"
    by (rule encodesE [OF encodes_xdr_u_int s r])
  have el: "list_all2 (\<lambda>a bs. encodes xdr_int a bs a) (take (unat c) gs) (map be32 (take (unat c) gs))"
    by (simp add: list_all2_conv_all_nth encodes_xdr_int)
  obtain x2 where 2: "xdr_elems xdr_int (length (take (unat c) gs)) x1 (take (unat c) gs @ drop (unat c) gs) =
      Some (True, x2, take (unat c) gs @ drop (unat c) gs)"
    "sent x2 = sent x1 @ ?bs" and s2: "sinks x2" "room x2 n"
    by (rule encodesE [OF encodes_elems_prefix [OF el] s1 r1])
  have l: "length (take (unat c) gs) = unat c" using n by simp
  have "c \<le> NGRPS" "c \<le> 0xffffffff div 4"
    using n(1) by (simp_all add: NGRPS_def word_le_nat_alt max_word_div4)
  then have le: "\<not> c > NGRPS" "\<not> 0xffffffff div 4 < c" by (simp_all add: not_less)
  have "xdr_array avail 0 NGRPS 4 xdr_int xdrs (Some gs, c) = Some (True, x2, Some gs, c)"
    unfolding xdr_array_def using 1(1) 2(1) [unfolded l append_take_drop_id] s1 s2(1) le
    by (simp only: Let_def prod.case bind.bind_lunit option.case sinks_op) simp
  with 1 2(2) s2
  show "\<exists>xdrs'. xdr_array avail 0 NGRPS 4 xdr_int xdrs (Some gs, c) = Some (True, xdrs', Some gs, c) \<and>
      sinks xdrs' \<and> sent xdrs' = sent xdrs @ be32 c @ ?bs \<and> room xdrs' n"
    by simp
qed

lemma encodes_no_gids: "encodes (xdr_array avail 0 NGRPS 4 xdr_int) (None, 0) (be32 0) (None, 0)"
proof (rule encodesI)
  fix xdrs n
  assume s: "sinks xdrs" and r: "room xdrs (length (be32 0) + n)"
  obtain x1 where "xdr_u_int xdrs 0 = Some (True, x1, 0)" "sent x1 = sent xdrs @ be32 0" "sinks x1" "room x1 n"
    by (rule encodesE [OF encodes_xdr_u_int s r])
  then show "\<exists>xdrs'. xdr_array avail 0 NGRPS 4 xdr_int xdrs (None, 0) = Some (True, xdrs', None, 0) \<and>
      sinks xdrs' \<and> sent xdrs' = sent xdrs @ be32 0 \<and> room xdrs' n"
    by (simp add: xdr_array_def NGRPS_def)
qed

lemma encodes_groups:
  assumes "unat (aup_len p) \<le> 16" "length (groups p) = unat (aup_len p)"
  shows "encodes (xdr_array avail 0 NGRPS 4 xdr_int) (aup_gids p, aup_len p)
    (be32 (aup_len p) @ concat (map be32 (groups p))) (aup_gids p, aup_len p)"
proof (cases "aup_gids p")
  case None
  then have "aup_len p = 0" using assms(2) by (simp add: groups_def unat_eq_0)
  then show ?thesis using encodes_no_gids None by (simp add: groups_def)
next
  case (Some gs)
  then have "unat (aup_len p) \<le> length gs" using assms(2) by (simp add: groups_def)
  then show ?thesis using encodes_gids [OF assms(1)] Some by (simp add: groups_def)
qed

lemma encodes_authunix_parms:
  assumes "aup_ok p"
  shows "encodes (xdr_authunix_parms avail) p (aup_bytes p) p"
proof -
  obtain s where p: "aup_machname p = Some s" and s: "0 \<in> set s" "strlen s \<le> 255"
    and n: "unat (aup_len p) \<le> 16" "length (groups p) = unat (aup_len p)"
    using assms by (auto simp: aup_ok_def split: option.splits)
  have m: "strlen s \<le> unat MAX_MACHINE_NAME" "strlen s + 1 < 2 ^ 32" using s(2) by (simp_all add: MAX_MACHINE_NAME_def)
  have e: "encodes (xdr_string avail MAX_MACHINE_NAME) (aup_machname q)
      (be32 (of_nat (strlen s)) @ padded (cstr s)) (Some s)" if "aup_machname q = Some s" for q
    using encodes_xdr_string [OF s(1) m] that by simp
  have "encodes (xdr_authunix_parms avail) p
      ((((be32 (ucast (aup_time p)) @ be32 (of_nat (strlen s)) @ padded (cstr s)) @ be32 (aup_uid p)) @ be32 (aup_gid p)) @
        be32 (aup_len p) @ concat (map be32 (groups p))) p"
    unfolding xdr_authunix_parms_def
    by (rule encodes_eq, rule encodes_and_then, rule encodes_and_then, rule encodes_and_then, rule encodes_and_then,
        rule encodes_fld, rule encodes_xdr_u_long, rule encodes_fld, rule e, simp add: p,
        rule encodes_fld, rule encodes_xdr_u_int, rule encodes_fld, rule encodes_xdr_u_int,
        rule encodes_fld, simp, rule encodes_groups [OF n], simp_all add: p)
  moreover have "(of_nat (length (groups p)) :: 32 word) = aup_len p"
    using n(2) by simp
  ultimately show ?thesis
    using p by (simp add: aup_bytes_def sys_bytes_def Let_def padded_def strlen_def)
qed

end

context xdr_source begin

text \<open>The strings and arrays of a block the caller supplies are written from its front.\<close>

lemma decodes_xdr_string_block:
  assumes len: "length bs < 2 ^ 32 - 1" and max: "length bs \<le> unat maxsize" and blk: "length bs < length old"
  shows "decodes (xdr_string avail maxsize) (be32 (of_nat (length bs)) @ padded bs) (Some old)
    (Some (bs @ 0 # drop (Suc (length bs)) old))"
proof (rule decodesI)
  fix xdrs rs
  let ?w = "of_nat (length bs) :: 32 word"
  assume s: "sources xdrs" and "pending xdrs = (be32 ?w @ padded bs) @ rs"
  then have p: "pending xdrs = be32 ?w @ (padded bs @ rs)" by simp
  have w: "unat ?w = length bs" using len by (simp add: unat_of_nat32)
  then have w1: "unat (?w + 1) = length bs + 1"
    using len unat_word_ariths(1) [of ?w 1] by simp
  then have nz: "?w + 1 \<noteq> 0" by (auto simp: unat_eq_0 [symmetric])
  obtain x1 where 1: "xdr_u_int xdrs 0 = Some (True, x1, ?w)"
    and s1: "sources x1" and p1: "pending x1 = padded bs @ rs"
    by (rule decodesE [OF decodes_xdr_u_int s p])
  have blk': "length bs \<le> length (old[length bs := 0])" using blk by simp
  obtain x2 where 2: "xdr_opaque ?w x1 (old[length bs := 0]) =
      Some (True, x2, fill (old[length bs := 0]) bs)" "sources x2" "pending x2 = rs"
    by (rule decodesE [OF decodes_xdr_opaque [OF w [symmetric] blk'] s1 p1])
  moreover have "fill (old[length bs := 0]) bs = bs @ 0 # drop (Suc (length bs)) old"
    using blk by (simp add: fill_def drop_update_swap [symmetric] Cons_nth_drop_Suc [symmetric] del: drop_update_swap)
  moreover have "\<not> maxsize < ?w" using max w by (simp add: word_less_nat_alt)
  ultimately show "\<exists>xdrs'. xdr_string avail maxsize xdrs (Some old) =
      Some (True, xdrs', Some (bs @ 0 # drop (Suc (length bs)) old)) \<and> sources xdrs' \<and> pending xdrs' = rs"
    using 1 s s1 w nz by (simp add: xdr_string_def Let_def)
qed

lemma decodes_ints:
  "length olds = length as \<Longrightarrow>
   decodes (xdr_elems xdr_int (length as)) (concat (map be32 as)) (olds @ r) (as @ r)"
proof (induction as arbitrary: olds)
  case Nil
  then show ?case by (auto simp: decodes_def)
next
  case (Cons a as)
  then obtain old olds' where o: "olds = old # olds'" "length olds' = length as" by (cases olds) auto
  show ?case
  proof (rule decodesI)
    fix xdrs rs
    assume s: "sources xdrs" and "pending xdrs = concat (map be32 (a # as)) @ rs"
    then have p: "pending xdrs = be32 a @ (concat (map be32 as) @ rs)" by simp
    obtain x1 where 1: "xdr_int xdrs old = Some (True, x1, a)"
      and s1: "sources x1" and p1: "pending x1 = concat (map be32 as) @ rs"
      by (rule decodesE [OF decodes_xdr_int s p])
    obtain x2 where "xdr_elems xdr_int (length as) x1 (olds' @ r) = Some (True, x2, as @ r)"
      "sources x2" "pending x2 = rs"
      by (rule decodesE [OF Cons.IH [OF o(2)] s1 p1])
    with 1 show "\<exists>xdrs'. xdr_elems xdr_int (length (a # as)) xdrs (olds @ r) = Some (True, xdrs', (a # as) @ r) \<and>
        sources xdrs' \<and> pending xdrs' = rs"
      by (simp add: o(1))
  qed
qed

lemma gid_count:
  assumes "length gs \<le> 16"
  shows "unat (of_nat (length gs) :: 32 word) = length gs" and "(of_nat (length gs) :: 32 word) \<le> NGRPS"
    and "(of_nat (length gs) :: 32 word) \<le> 0xffffffff div 4"
    and "unat (of_nat (length gs) * 4 :: 32 word) = 4 * length gs"
proof -
  show u: "unat (of_nat (length gs) :: 32 word) = length gs" using assms by (simp add: unat_of_nat32)
  show "(of_nat (length gs) :: 32 word) \<le> NGRPS" "(of_nat (length gs) :: 32 word) \<le> 0xffffffff div 4"
    using u assms by (simp_all add: NGRPS_def word_le_nat_alt max_word_div4)
  show "unat (of_nat (length gs) * 4 :: 32 word) = 4 * length gs"
    using assms u by (simp add: unat_word_ariths(2))
qed

lemma decodes_gids_alloc:
  assumes n: "length gs \<le> 16" and av: "avail (4 * length gs)"
  shows "decodes (xdr_array avail 0 NGRPS 4 xdr_int) (be32 (of_nat (length gs)) @ concat (map be32 gs))
      (None, c0) (if gs = [] then None else Some gs, of_nat (length gs))"
proof -
  let ?c = "of_nat (length gs) :: 32 word"
  note u = gid_count(1) [OF n] and le = gid_count(2,3) [OF n] and sz = gid_count(4) [OF n]
  have el: "list_all2 (\<lambda>bs a. decodes xdr_int bs 0 a) (map be32 gs) gs"
    by (simp add: list_all2_conv_all_nth decodes_xdr_int)
  show ?thesis
  proof (cases "gs = []")
    case True
    show ?thesis
    proof (rule decodesI)
      fix xdrs rs
      assume s: "sources xdrs" and "pending xdrs = (be32 ?c @ concat (map be32 gs)) @ rs"
      then have p: "pending xdrs = be32 0 @ rs" by (simp add: True)
      obtain x1 where "xdr_u_int xdrs c0 = Some (True, x1, 0)" "sources x1" "pending x1 = rs"
        by (rule decodesE [OF decodes_xdr_u_int s p])
      then show "\<exists>xdrs'. xdr_array avail 0 NGRPS 4 xdr_int xdrs (None, c0) =
          Some (True, xdrs', if gs = [] then None else Some gs, ?c) \<and> sources xdrs' \<and> pending xdrs' = rs"
        by (simp add: xdr_array_def True NGRPS_def)
    qed
  next
    case False
    then have nz: "?c \<noteq> 0" using u by auto
    have "decodes (xdr_array avail 0 NGRPS 4 xdr_int) (be32 ?c @ concat (map be32 gs)) (None, c0) (Some gs, ?c)"
      by (rule decodes_xdr_array [OF el u [symmetric] le(1) _ le(2)]) (simp_all add: sz av nz)
    then show ?thesis using False by simp
  qed
qed

lemma decodes_gids_block:
  assumes n: "length gs \<le> 16" and l: "length gs \<le> length old"
  shows "decodes (xdr_array avail 0 NGRPS 4 xdr_int) (be32 (of_nat (length gs)) @ concat (map be32 gs))
      (Some old, c0) (Some (gs @ drop (length gs) old), of_nat (length gs))"
proof (rule decodesI)
  fix xdrs rs
  let ?c = "of_nat (length gs) :: 32 word"
  assume s: "sources xdrs" and "pending xdrs = (be32 ?c @ concat (map be32 gs)) @ rs"
  then have p: "pending xdrs = be32 ?c @ (concat (map be32 gs) @ rs)" by simp
  obtain x1 where 1: "xdr_u_int xdrs c0 = Some (True, x1, ?c)" and s1: "sources x1"
    and p1: "pending x1 = concat (map be32 gs) @ rs"
    by (rule decodesE [OF decodes_xdr_u_int s p])
  have lt: "length (take (length gs) old) = length gs" using l by simp
  obtain x2 where 2: "xdr_elems xdr_int (length gs) x1 (take (length gs) old @ drop (length gs) old) =
      Some (True, x2, gs @ drop (length gs) old)" and s2: "sources x2" "pending x2 = rs"
    by (rule decodesE [OF decodes_ints [OF lt] s1 p1])
  have le: "\<not> ?c > NGRPS" "\<not> 0xffffffff div 4 < ?c" using gid_count(2,3) [OF n] by (simp_all add: not_less)
  have "xdr_array avail 0 NGRPS 4 xdr_int xdrs (Some old, c0) = Some (True, x2, Some (gs @ drop (length gs) old), ?c)"
    unfolding xdr_array_def using 1 2 [unfolded append_take_drop_id] s1 s2(1) le gid_count(1) [OF n]
    by (simp only: Let_def prod.case bind.bind_lunit option.case sources_op) simp
  with s2 show "\<exists>xdrs'. xdr_array avail 0 NGRPS 4 xdr_int xdrs (Some old, c0) =
      Some (True, xdrs', Some (gs @ drop (length gs) old), ?c) \<and> sources xdrs' \<and> pending xdrs' = rs"
    by blast
qed

lemma sys_bytes_padded:
  "sys_bytes t s (replicate (pad (length s)) 0) uid gid gs =
    (((be32 t @ be32 (of_nat (length s)) @ padded s) @ be32 uid) @ be32 gid) @ be32 (of_nat (length gs)) @ concat (map be32 gs)"
  by (simp add: sys_bytes_def padded_def)

lemma decodes_authunix_alloc:
  assumes p0: "aup_machname p0 = None" "aup_gids p0 = None" and s: "length s \<le> 255" and gs: "length gs \<le> 16"
    and av: "avail (length s + 1)" "avail (4 * length gs)"
  shows "decodes (xdr_authunix_parms avail) (sys_bytes t s (replicate (pad (length s)) 0) uid gid gs) p0
    \<lparr>aup_time = ext t, aup_machname = Some (s @ [0]), aup_uid = uid, aup_gid = gid, aup_len = of_nat (length gs),
      aup_gids = (if gs = [] then None else Some gs)\<rparr>"
proof -
  have e: "decodes (xdr_string avail MAX_MACHINE_NAME) (be32 (of_nat (length s)) @ padded s) (aup_machname q) (Some (s @ [0]))"
    if "aup_machname q = None" for q
    using decodes_xdr_string_alloc [of s MAX_MACHINE_NAME avail] s av(1) that by (simp add: MAX_MACHINE_NAME_def)
  show ?thesis
    unfolding xdr_authunix_parms_def sys_bytes_padded
    by (rule decodes_eq, rule decodes_and_then, rule decodes_and_then, rule decodes_and_then, rule decodes_and_then,
        rule decodes_fld, rule decodes_xdr_u_long, rule decodes_fld, rule e, simp add: p0,
        rule decodes_fld, rule decodes_xdr_u_int, rule decodes_fld, rule decodes_xdr_u_int,
        rule decodes_fld, simp add: p0, rule decodes_gids_alloc, rule gs, rule av(2))
      (auto simp: p0 intro!: authunix_parms.equality)
qed

lemma decodes_authunix_block:
  assumes p0: "aup_machname p0 = Some blk" "aup_gids p0 = Some old" and s: "length s \<le> 255" "length s < length blk"
    and gs: "length gs \<le> 16" "length gs \<le> length old"
  shows "decodes (xdr_authunix_parms avail) (sys_bytes t s (replicate (pad (length s)) 0) uid gid gs) p0
    \<lparr>aup_time = ext t, aup_machname = Some (s @ 0 # drop (Suc (length s)) blk), aup_uid = uid, aup_gid = gid,
      aup_len = of_nat (length gs), aup_gids = Some (gs @ drop (length gs) old)\<rparr>"
proof -
  have e: "decodes (xdr_string avail MAX_MACHINE_NAME) (be32 (of_nat (length s)) @ padded s) (aup_machname q)
      (Some (s @ 0 # drop (Suc (length s)) blk))" if "aup_machname q = Some blk" for q
    using decodes_xdr_string_block [of s MAX_MACHINE_NAME blk avail] s that by (simp add: MAX_MACHINE_NAME_def)
  show ?thesis
    unfolding xdr_authunix_parms_def sys_bytes_padded
    by (rule decodes_eq, rule decodes_and_then, rule decodes_and_then, rule decodes_and_then, rule decodes_and_then,
        rule decodes_fld, rule decodes_xdr_u_long, rule decodes_fld, rule e, simp add: p0,
        rule decodes_fld, rule decodes_xdr_u_int, rule decodes_fld, rule decodes_xdr_u_int,
        rule decodes_fld, simp add: p0, rule decodes_gids_block [OF gs])
      (auto simp: p0 intro!: authunix_parms.equality)
qed

end

section \<open>In-line decoding\<close>

definition sys_area :: "64 word \<Rightarrow> byte list \<Rightarrow> 32 word \<Rightarrow> 32 word \<Rightarrow> 32 word list \<Rightarrow> area \<Rightarrow> area" where
  "sys_area t s uid gid gs area = area\<lparr>area_time := t, area_uid := uid, area_gid := gid, area_len := of_nat (length gs),
     area_machname := s @ 0 # drop (Suc (length s)) (area_machname area),
     area_gids := gs @ drop (length gs) (area_gids area)\<rparr>"

text \<open>Any four bytes of memory are a word in network order.\<close>

definition word_at :: "mem \<Rightarrow> addr \<Rightarrow> 32 word" where
  "word_at m a = ntohl (load32 m a)"

lemma be32_word_at: "be32 (word_at m a) = rd m a 4"
  by (simp add: word_at_def load32_def ntohl_def be32_def)

lemma IXDR_GET_word: "IXDR_GET_INT32 xdrs buf = (word_at (x_mem xdrs) buf, buf + 4)"
  by (simp add: IXDR_GET_INT32_def word_at_def)

lemma word_at_rd: "rd m a n = be32 w @ bs \<Longrightarrow> word_at m a = w"
  by (simp add: word_at_def rd_be32)

definition words_at :: "mem \<Rightarrow> addr \<Rightarrow> nat \<Rightarrow> 32 word list" where
  "words_at m a n = map (\<lambda>i. word_at m (a + 4 * i)) [0..<n]"

lemma words_at_Suc: "words_at m a (Suc n) = word_at m a # words_at m (a + 4) n"
  by (simp add: words_at_def upt_conv_Cons map_Suc_upt [symmetric] comp_def del: upt_Suc) (simp add: algebra_simps)

lemma be32_words_at: "concat (map be32 (words_at m a n)) = rd m a (4 * n)"
proof (induction n arbitrary: a)
  case 0
  show ?case by (simp add: words_at_def)
next
  case (Suc n)
  have "rd m a (4 * Suc n) = rd m a 4 @ rd m (a + 4) (4 * n)" by (simp add: rd_add [symmetric])
  then show ?case by (simp add: words_at_Suc Suc be32_word_at)
qed

lemma get_gids_words:
  "i + n \<le> length gids \<Longrightarrow>
   get_gids xdrs buf i n gids = take i gids @ words_at (x_mem xdrs) buf n @ drop (i + n) gids"
proof (induction n arbitrary: buf i gids)
  case 0
  show ?case by (simp add: words_at_def)
next
  case (Suc n)
  then have "get_gids xdrs buf i (Suc n) gids =
      take (Suc i) (gids[i := word_at (x_mem xdrs) buf]) @ words_at (x_mem xdrs) (buf + 4) n @ drop (Suc i + n) gids"
    by (simp add: IXDR_GET_word)
  also have "take (Suc i) (gids[i := word_at (x_mem xdrs) buf]) = take i gids @ [word_at (x_mem xdrs) buf]"
    using Suc.prems by (simp add: take_Suc_conv_app_nth)
  finally show ?case by (simp add: words_at_Suc)
qed

lemma fill_terminated:
  "length s < length blk \<Longrightarrow> (fill blk s)[length s := 0] = s @ 0 # drop (Suc (length s)) blk"
  by (simp add: fill_def list_update_append Cons_nth_drop_Suc [symmetric] del: Cons_nth_drop_Suc)

text \<open>What the in-line decoding reads, and when it accepts.\<close>

definition area_ok :: "area \<Rightarrow> bool" where
  "area_ok area \<longleftrightarrow> length (area_machname area) = 256 \<and> length (area_gids area) = 16"

lemma svcauth_inline_words:
  assumes ok: "area_ok area"
  shows "svcauth_inline xdrs buf auth_len area =
    (let m = x_mem xdrs; n = unat (word_at m (buf + 4)); k = n + pad n; g = unat (word_at m (buf + 16 + k))
     in if n > 255 then (AUTH_BADCRED, area\<lparr>area_time := scast (word_at m buf)\<rparr>)
        else if g > 16 then (AUTH_BADCRED, area\<lparr>area_time := scast (word_at m buf),
            area_machname := rd m (buf + 8) n @ 0 # drop (Suc n) (area_machname area),
            area_uid := word_at m (buf + 8 + k), area_gid := word_at m (buf + 12 + k)\<rparr>)
        else (if 20 + 4 * g + k > unat auth_len then AUTH_BADCRED else AUTH_OK,
          sys_area (scast (word_at m buf)) (rd m (buf + 8) n) (word_at m (buf + 8 + k)) (word_at m (buf + 12 + k))
            (words_at m (buf + 20 + k) g) area))"
proof -
  let ?m = "x_mem xdrs"
  let ?l = "word_at ?m (buf + 4)"
  have le: "?l > MAX_MACHINE_NAME \<longleftrightarrow> unat ?l > 255" by (simp add: MAX_MACHINE_NAME_def word_less_nat_alt)
  show ?thesis
  proof (cases "unat ?l > 255")
    case True
    then show ?thesis by (simp add: svcauth_inline_def IXDR_GET_word le Let_def)
  next
    case False
    have k: "unat (RNDUP ?l) = unat ?l + pad (unat ?l)" using False by (intro unat_RNDUP) simp
    have f: "(fill (area_machname area) (rd ?m (buf + 8) (unat ?l)))[unat ?l := 0] =
        rd ?m (buf + 8) (unat ?l) @ 0 # drop (Suc (unat ?l)) (area_machname area)"
      using fill_terminated [of "rd ?m (buf + 8) (unat ?l)" "area_machname area"] ok False by (simp add: area_ok_def)
    let ?g = "word_at ?m (buf + 16 + unat (RNDUP ?l))"
    have ge: "?g > NGRPS \<longleftrightarrow> unat ?g > 16" by (simp add: NGRPS_def word_less_nat_alt)
    have gids: "get_gids xdrs b 0 (unat ?g) (area_gids area) = words_at ?m b (unat ?g) @ drop (unat ?g) (area_gids area)"
      if "\<not> unat ?g > 16" for b
      using get_gids_words [of 0 "unat ?g" "area_gids area" xdrs b] ok that by (simp add: area_ok_def)
    have a: "buf + 4 + 4 = buf + 8" "buf + 8 + x + 4 = buf + 12 + x" "buf + 12 + x + 4 = buf + 16 + x"
      "buf + 16 + x + 4 = buf + 20 + x" for x by simp_all
    have w: "length (words_at m b n) = n" for m b n by (simp add: words_at_def)
    show ?thesis
      unfolding svcauth_inline_def IXDR_GET_word Let_def prod.case le if_not_P [OF False] a
      unfolding ge
      using False f gids
      by (simp add: k sys_area_def w)
  qed
qed

section \<open>What the server accepts\<close>

text \<open>The bytes of a well-formed credential, accepted in line.\<close>

lemma sys_bytes_at:
  assumes rd: "rd m a n = sys_bytes t s pd uid gid gs @ rs" and s: "length s \<le> 255" and pd: "length pd = pad (length s)"
    and gs: "length gs \<le> 16"
  shows "word_at m a = t" and "unat (word_at m (a + 4)) = length s" and "rd m (a + 8) (length s) = s"
    and "word_at m (a + 8 + (length s + pad (length s))) = uid" and "word_at m (a + 12 + (length s + pad (length s))) = gid"
    and "unat (word_at m (a + 16 + (length s + pad (length s)))) = length gs"
    and "words_at m (a + 20 + (length s + pad (length s))) (length gs) = gs"
    and "20 + length s + pad (length s) + 4 * length gs \<le> n"
proof -
  let ?k = "length s + pad (length s)"
  have r0: "rd m a n = be32 t @ be32 (of_nat (length s)) @ s @ pd @ be32 uid @ be32 gid @ be32 (of_nat (length gs)) @ concat (map be32 gs) @ rs"
    using rd by (simp add: sys_bytes_def)
  note r1 = rd_split(2) [OF r0]
  note r2 = rd_split(2) [OF r1]
  note r3 = rd_split(2) [OF r2]
  note r4 = rd_split(2) [OF r3]
  note r5 = rd_split(2) [OF r4]
  note r6 = rd_split(2) [OF r5]
  note r7 = rd_split(2) [OF r6]
  show "word_at m a = t" by (rule word_at_rd [OF r0])
  show "unat (word_at m (a + 4)) = length s"
    using word_at_rd [OF r1] s by (simp add: unat_of_nat32)
  show "rd m (a + 8) (length s) = s" using rd_split(1) [OF r2] by (simp add: add.assoc)
  show "word_at m (a + 8 + ?k) = uid" using word_at_rd [OF r4] pd by (simp add: algebra_simps)
  show "word_at m (a + 12 + ?k) = gid" using word_at_rd [OF r5] pd by (simp add: algebra_simps)
  show "unat (word_at m (a + 16 + ?k)) = length gs"
    using word_at_rd [OF r6] gs pd by (simp add: unat_of_nat32 algebra_simps)
  have l: "length (concat (map be32 gs)) = 4 * length gs" for gs by (simp add: length_concat comp_def sum_list_triv)
  have inj: "concat (map be32 xs) = concat (map be32 ys) \<Longrightarrow> length xs = length ys \<Longrightarrow> xs = ys" for xs ys
    by (induction xs ys rule: list_induct2') auto
  have "rd m (a + 20 + ?k) (4 * length gs) = concat (map be32 gs)"
    using rd_split(1) [OF r7] pd unfolding l by (simp add: algebra_simps)
  then show "words_at m (a + 20 + ?k) (length gs) = gs"
    by (intro inj) (simp_all add: be32_words_at words_at_def [where n = "length gs"] flip: be32_words_at)
  show "20 + length s + pad (length s) + 4 * length gs \<le> n"
    using arg_cong [OF r0, of length] pd by (simp add: l)
qed

text \<open>And the other way: what is accepted is a well-formed credential.\<close>

lemma rd_sys_bytes:
  fixes a :: addr and m :: mem
  defines "l \<equiv> unat (word_at m (a + 4))"
  defines "k \<equiv> l + pad l"
  defines "g \<equiv> unat (word_at m (a + 16 + k))"
  shows "rd m a (20 + k + 4 * g) =
    sys_bytes (word_at m a) (rd m (a + 8) l) (rd m (a + 8 + l) (pad l)) (word_at m (a + 8 + k))
      (word_at m (a + 12 + k)) (words_at m (a + 20 + k) g)"
proof -
  have len: "length (words_at m b n) = n" for b n by (simp add: words_at_def)
  have split: "rd m a (20 + k + 4 * g) = rd m a 4 @ rd m (a + 4) 4 @ rd m (a + 8) l @ rd m (a + 8 + l) (pad l) @
      rd m (a + 8 + k) 4 @ rd m (a + 12 + k) 4 @ rd m (a + 16 + k) 4 @ rd m (a + 20 + k) (4 * g)"
  proof -
    have "20 + k + 4 * g = 4 + (4 + (l + (pad l + (4 + (4 + (4 + 4 * g))))))" by (simp add: k_def)
    then show ?thesis by (simp only: rd_add) (simp add: k_def algebra_simps)
  qed
  show ?thesis
    unfolding split sys_bytes_def be32_words_at len length_rd be32_word_at
    by (simp add: l_def g_def be32_word_at)
qed

lemma XDR_INLINE_aligned:
  assumes "p mod 4 = 0"
  shows "XDR_INLINE (xdrmem_create m p sz op) len =
    (if sz \<ge> len then Some (p, (xdrmem_create m p sz op)\<lparr>x_private := advance (x_private (xdrmem_create m p sz op)) len\<rparr>)
     else Some (0, xdrmem_create m p sz op))"
  using assms by (simp add: XDR_INLINE_def xdrmem_create_def xdrmem_ops_aligned_def xdrmem_inline_aligned_def xst_def with_xst_def)

lemma XDR_INLINE_unaligned:
  assumes "p mod 4 \<noteq> 0"
  shows "XDR_INLINE (xdrmem_create m p sz op) len = Some (0, xdrmem_create m p sz op)"
  using assms by (simp add: XDR_INLINE_def xdrmem_create_def xdrmem_ops_unaligned_def xdrmem_inline_unaligned_def xst_def with_xst_def)

lemma svcauth_unix_aligned:
  assumes p: "p mod 4 = 0" "p \<noteq> 0" and b: "oa_base (tcb_cred (trm_call msg)) = Some base"
    and ok: "area_ok (rq_clntcred rqst)" and x: "x_mem x = wr m p base"
  shows "svcauth_unix avail m p rqst msg =
    (case svcauth_inline x p (oa_length (tcb_cred (trm_call msg))) (rq_clntcred rqst) of
       (stat, aup) \<Rightarrow> Some (stat, if stat = AUTH_OK then set_verf (tcb_verf (trm_call msg)) (rqst\<lparr>rq_clntcred := aup\<rparr>)
         else rqst\<lparr>rq_clntcred := aup\<rparr>))"
proof -
  have c: "svcauth_inline y p l (rq_clntcred rqst) = svcauth_inline x p l (rq_clntcred rqst)"
    if "x_mem y = wr m p base" for y :: "memstrm XDR" and l
    unfolding svcauth_inline_words [OF ok] that x ..
  let ?y = "xdrmem_create (wr m p base) p (oa_length (tcb_cred (trm_call msg))) XDR_DECODE"
  have "x_mem (?y\<lparr>x_private := z\<rparr>) = wr m p base" for z by (simp add: xdrmem_create_def)
  note c = c [OF this]
  show ?thesis
    using p b by (simp add: svcauth_unix_def XDR_INLINE_aligned Let_def c split: prod.splits)
qed

text \<open>
  C16: On an aligned block, which is how the server keeps it, \<open>_svcauth_unix\<close> accepts a credential of
  \<open>n\<close> bytes exactly when they begin with the words of a name of at most 255 characters, the ids and
  at most 16 groups; the cooked credential is then that name, terminated, those ids and those groups,
  and does not depend on anything behind the \<open>n\<close> bytes although the code reads on before it compares
  the length.  Anything else is refused as a bad credential, with the verifier of the reply unchanged.
\<close>

theorem svcauth_unix_accepts:
  assumes p: "p mod 4 = 0" "p \<noteq> 0" and b: "oa_base (tcb_cred (trm_call msg)) = Some base"
    and n: "oa_length (tcb_cred (trm_call msg)) = n" "unat n \<le> length base" and ok: "area_ok (rq_clntcred rqst)"
  shows "if \<exists>t s pd uid gid gs rest. take (unat n) base = sys_bytes t s pd uid gid gs @ rest
        \<and> length s \<le> 255 \<and> length pd = pad (length s) \<and> length gs \<le> 16
    then \<exists>t s pd uid gid gs rest. take (unat n) base = sys_bytes t s pd uid gid gs @ rest
        \<and> svcauth_unix avail m p rqst msg = Some (AUTH_OK, set_verf (tcb_verf (trm_call msg))
            (rqst\<lparr>rq_clntcred := sys_area (scast t) s uid gid gs (rq_clntcred rqst)\<rparr>))
    else \<exists>r. svcauth_unix avail m p rqst msg = Some (AUTH_BADCRED, r) \<and> xp_verf r = xp_verf rqst"
proof -
  let ?m = "wr m p base"
  let ?x = "xdrmem_create ?m p 0 XDR_DECODE"
  let ?a = "rq_clntcred rqst"
  have x: "x_mem ?x = ?m" by (simp add: xdrmem_create_def)
  have rd: "rd ?m p (unat n) = take (unat n) base"
    using n(2) take_rd [of "unat n" "length base" ?m p] by simp
  note eq = svcauth_unix_aligned [OF p b ok x, where avail = avail, unfolded svcauth_inline_words [OF ok] x n(1)]
  define l where "l = unat (word_at ?m (p + 4))"
  define k where "k = l + pad l"
  define g where "g = unat (word_at ?m (p + 16 + k))"
  show ?thesis
  proof (split if_split, intro conjI impI)
    assume "\<exists>t s pd uid gid gs rest. take (unat n) base = sys_bytes t s pd uid gid gs @ rest
        \<and> length s \<le> 255 \<and> length pd = pad (length s) \<and> length gs \<le> 16"
    then obtain t s pd uid gid gs rest where w: "take (unat n) base = sys_bytes t s pd uid gid gs @ rest"
      and c: "length s \<le> 255" "length pd = pad (length s)" "length gs \<le> 16" by blast
    note at = sys_bytes_at [OF rd [unfolded w] c]
    have "svcauth_unix avail m p rqst msg = Some (AUTH_OK, set_verf (tcb_verf (trm_call msg))
            (rqst\<lparr>rq_clntcred := sys_area (scast t) s uid gid gs ?a\<rparr>))"
      unfolding eq Let_def at(2) using c at(8) by (simp add: at(1-7) auth_stats)
    with w show "\<exists>t s pd uid gid gs rest. take (unat n) base = sys_bytes t s pd uid gid gs @ rest
        \<and> svcauth_unix avail m p rqst msg = Some (AUTH_OK, set_verf (tcb_verf (trm_call msg))
            (rqst\<lparr>rq_clntcred := sys_area (scast t) s uid gid gs ?a\<rparr>))" by blast
  next
    assume none: "\<not> (\<exists>t s pd uid gid gs rest. take (unat n) base = sys_bytes t s pd uid gid gs @ rest
        \<and> length s \<le> 255 \<and> length pd = pad (length s) \<and> length gs \<le> 16)"
    have "l > 255 \<or> g > 16 \<or> 20 + k + 4 * g > unat n"
    proof (rule ccontr)
      assume "\<not> ?thesis"
      then have c: "l \<le> 255" "g \<le> 16" and le: "20 + k + 4 * g \<le> unat n" by simp_all
      have "take (unat n) base = rd ?m p (20 + k + 4 * g) @ rd ?m (p + (20 + k + 4 * g)) (unat n - (20 + k + 4 * g))"
        unfolding rd [symmetric] rd_add [symmetric] using le by simp
      then have "take (unat n) base = sys_bytes (word_at ?m p) (rd ?m (p + 8) l) (rd ?m (p + 8 + l) (pad l)) (word_at ?m (p + 8 + k))
        (word_at ?m (p + 12 + k)) (words_at ?m (p + 20 + k) g) @ rd ?m (p + (20 + k + 4 * g)) (unat n - (20 + k + 4 * g))"
        using rd_sys_bytes [of ?m p] by (simp add: l_def k_def g_def)
      moreover have "length (words_at ?m (p + 20 + k) g) = g" by (simp add: words_at_def)
      ultimately show False using none c by (metis length_rd)
    qed
    then show "\<exists>r. svcauth_unix avail m p rqst msg = Some (AUTH_BADCRED, r) \<and> xp_verf r = xp_verf rqst"
      unfolding eq Let_def l_def [symmetric] k_def [symmetric] g_def [symmetric]
      by (auto simp: auth_stats add.commute add.left_commute)
  qed
qed

end
