(* ===== verification/Mem_Total.thy ===== *)
theory Mem_Total
  imports Rpc_Msg
begin

text \<open>
  The filters of a credential on a memory stream always return: what they read may end or make no
  sense, then they fail; what they decode where the pointer was null is complete.
\<close>

definition on_mem :: "xdr_op \<Rightarrow> memstrm XDR \<Rightarrow> bool" where
  "on_mem op x \<longleftrightarrow> (x_ops x = xdrmem_ops_aligned \<or> x_ops x = xdrmem_ops_unaligned) \<and> x_op x = op"

lemma on_mem_create: "on_mem op (xdrmem_create m a sz op)"
  by (simp add: on_mem_def xdrmem_create_def)

text \<open>\<open>returns op F v P\<close>: the filter returns, and if it succeeds, the object it leaves satisfies \<open>P\<close>.\<close>

definition returns :: "xdr_op \<Rightarrow> (memstrm, 'a) xdrproc_t \<Rightarrow> 'a \<Rightarrow> ('a \<Rightarrow> bool) \<Rightarrow> bool" where
  "returns op F v P \<longleftrightarrow> (\<forall>x. on_mem op x \<longrightarrow> (\<exists>ok x' v'. F x v = Some (ok, x', v') \<and> on_mem op x' \<and> (ok \<longrightarrow> P v')))"

lemma returnsE:
  assumes "returns op F v P" and "on_mem op x"
  obtains ok x' v' where "F x v = Some (ok, x', v')" and "on_mem op x'" and "ok \<Longrightarrow> P v'"
  using assms unfolding returns_def by blast

lemma on_mem_getlong:
  assumes "on_mem op x"
  obtains ok x' l' where "XDR_GETLONG x l = Some (ok, x', l')" and "on_mem op x'"
proof -
  obtain m s where "xst x = (m, s)" by fastforce
  with assms show thesis
    by (cases "m_handy s < 4")
      (auto simp: on_mem_def XDR_GETLONG_def xdrmem_ops_aligned_def xdrmem_ops_unaligned_def
        xdrmem_getlong_aligned_def xdrmem_getlong_unaligned_def Let_def intro: that)
qed

lemma on_mem_putlong:
  assumes "on_mem op x"
  obtains ok x' where "XDR_PUTLONG x l = Some (ok, x')" and "on_mem op x'"
proof -
  obtain m s where "xst x = (m, s)" by fastforce
  with assms show thesis
    by (cases "m_handy s < 4")
      (auto simp: on_mem_def XDR_PUTLONG_def xdrmem_ops_aligned_def xdrmem_ops_unaligned_def
        xdrmem_putlong_aligned_def xdrmem_putlong_unaligned_def Let_def intro: that)
qed

lemma on_mem_getbytes:
  assumes "on_mem op x" and "unat len \<le> length buf"
  obtains ok x' buf' where "XDR_GETBYTES x buf len = Some (ok, x', buf')" and "on_mem op x'" and "length buf' = length buf"
proof -
  obtain m s where "xst x = (m, s)" by fastforce
  with assms show thesis
    by (cases "m_handy s < len")
      (auto simp: on_mem_def XDR_GETBYTES_def xdrmem_ops_aligned_def xdrmem_ops_unaligned_def xdrmem_getbytes_def intro: that)
qed

lemma on_mem_putbytes:
  assumes "on_mem op x" and "unat len \<le> length buf"
  obtains ok x' where "XDR_PUTBYTES x buf len = Some (ok, x')" and "on_mem op x'"
proof -
  obtain m s where "xst x = (m, s)" by fastforce
  with assms show thesis
    by (cases "m_handy s < len")
      (auto simp: on_mem_def XDR_PUTBYTES_def xdrmem_ops_aligned_def xdrmem_ops_unaligned_def xdrmem_putbytes_def intro: that)
qed

lemma returns_via_long: "returns op (xdr_via_long f g) v (\<lambda>_. True)"
  unfolding returns_def
proof (intro allI impI)
  fix x assume x: "on_mem op x"
  then have op: "x_op x = op" by (simp add: on_mem_def)
  show "\<exists>ok x' v'. xdr_via_long f g x v = Some (ok, x', v') \<and> on_mem op x' \<and> (ok \<longrightarrow> True)"
  proof (cases op)
    case XDR_ENCODE
    obtain ok x' where "XDR_PUTLONG x (f v) = Some (ok, x')" "on_mem op x'" by (rule on_mem_putlong [OF x])
    then show ?thesis using op XDR_ENCODE by (simp add: xdr_via_long_def)
  next
    case XDR_DECODE
    obtain ok x' l where "XDR_GETLONG x 0 = Some (ok, x', l)" "on_mem op x'" by (rule on_mem_getlong [OF x])
    then show ?thesis using op XDR_DECODE by (cases ok) (simp_all add: xdr_via_long_def ex_bool_eq)
  next
    case XDR_FREE
    then show ?thesis using op x by (simp add: xdr_via_long_def ex_bool_eq)
  qed
qed

lemma returns_u_int: "returns op xdr_u_int v (\<lambda>_. True)" and returns_enum: "returns op xdr_enum v (\<lambda>_. True)"
  using returns_via_long by (simp_all add: xdr_u_int_def xdr_enum_def [abs_def] xdr_int_def)

lemma returns_opaque: "unat cnt \<le> length cp \<Longrightarrow> returns op (xdr_opaque cnt) cp (\<lambda>cp'. length cp' = length cp)"
  unfolding returns_def
proof (intro allI impI)
  fix x assume len: "unat cnt \<le> length cp" and x: "on_mem op x"
  then have op: "x_op x = op" by (simp add: on_mem_def)
  let ?rndup = "if cnt mod 4 > 0 then 4 - cnt mod 4 else cnt mod 4"
  have r: "unat ?rndup < 4" unfolding rndup_pad by (rule pad_less)
  then have crud: "unat ?rndup \<le> length (replicate 16 (0 :: byte))" "unat ?rndup \<le> length xdr_zero"
    by (simp_all only: xdr_zero_def length_replicate list.size)
  show "\<exists>ok x' cp'. xdr_opaque cnt x cp = Some (ok, x', cp') \<and> on_mem op x' \<and> (ok \<longrightarrow> length cp' = length cp)"
  proof (cases "cnt = 0 \<or> op = XDR_FREE")
    case True
    then show ?thesis using op x by (auto simp: xdr_opaque_def Let_def)
  next
    case nz: False
    consider (enc) "op = XDR_ENCODE" | (dec) "op = XDR_DECODE" using nz by (cases op) auto
    then show ?thesis
    proof cases
      case enc
      obtain ok x1 where 1: "XDR_PUTBYTES x cp cnt = Some (ok, x1)" and x1: "on_mem op x1" by (rule on_mem_putbytes [OF x len])
      obtain ok2 x2 where "XDR_PUTBYTES x1 xdr_zero ?rndup = Some (ok2, x2)" "on_mem op x2" by (rule on_mem_putbytes [OF x1 crud(2)])
      with 1 x1 nz op enc show ?thesis
        by (cases ok; cases "?rndup = 0") (simp_all add: xdr_opaque_def Let_def ex_bool_eq del: if_split cong: if_cong)
    next
      case dec
      obtain ok x1 b where 1: "XDR_GETBYTES x cp cnt = Some (ok, x1, b)" and x1: "on_mem op x1" and b: "length b = length cp"
        by (rule on_mem_getbytes [OF x len])
      obtain ok2 x2 b2 where "XDR_GETBYTES x1 (replicate 16 0) ?rndup = Some (ok2, x2, b2)" "on_mem op x2"
        by (rule on_mem_getbytes [OF x1 crud(1)])
      with 1 x1 b nz op dec show ?thesis
        by (cases ok; cases "?rndup = 0") (simp_all add: xdr_opaque_def Let_def ex_bool_eq del: if_split cong: if_cong)
    qed
  qed
qed

lemma returns_bytes_decode:
  "returns XDR_DECODE (xdr_bytes avail maxsize) (None, n0)
     (\<lambda>(b, n). n \<le> maxsize \<and> (case b of None \<Rightarrow> n = 0 | Some b \<Rightarrow> length b = unat n))"
  unfolding returns_def
proof (intro allI impI)
  fix x assume x: "on_mem XDR_DECODE x"
  obtain ok x1 n where 1: "xdr_u_int x n0 = Some (ok, x1, n)" and x1: "on_mem XDR_DECODE x1"
    by (rule returnsE [OF returns_u_int x])
  have op: "x_op x1 = XDR_DECODE" using x1 by (simp add: on_mem_def)
  have l: "unat n \<le> length (replicate (unat n) (0 :: byte))" by simp
  obtain ok2 x2 b where 2: "xdr_opaque n x1 (replicate (unat n) 0) = Some (ok2, x2, b)" and x2: "on_mem XDR_DECODE x2"
    and b: "ok2 \<Longrightarrow> length b = length (replicate (unat n) (0 :: byte))"
    by (rule returnsE [OF returns_opaque [OF l] x1]) (rule that)
  consider "\<not> ok \<or> n > maxsize" | "ok" "\<not> n > maxsize" "n = 0 \<or> \<not> avail (unat n)" | "ok" "\<not> n > maxsize" "n \<noteq> 0" "avail (unat n)"
    by blast
  then show "\<exists>ok x' v'. xdr_bytes avail maxsize x (None, n0) = Some (ok, x', v') \<and> on_mem XDR_DECODE x' \<and>
      (ok \<longrightarrow> (case v' of (b, n) \<Rightarrow> n \<le> maxsize \<and> (case b of None \<Rightarrow> n = 0 | Some b \<Rightarrow> length b = unat n)))"
  proof cases
    case 1
    then have "xdr_bytes avail maxsize x (None, n0) = Some (False, x1, None, n)"
      using \<open>xdr_u_int x n0 = Some (ok, x1, n)\<close> op by (auto simp: xdr_bytes_def)
    then show ?thesis using x1 by blast
  next
    case 2
    then have "xdr_bytes avail maxsize x (None, n0) = Some (n = 0, x1, None, n)"
      using 1 op by (auto simp: xdr_bytes_def mem_alloc_def)
    then show ?thesis using x1 2 by (intro exI conjI) auto
  next
    case 3
    then have "xdr_bytes avail maxsize x (None, n0) = Some (ok2, x2, if ok2 then Some b else None, n)"
      using 1 op 2 by (simp add: xdr_bytes_def mem_alloc_def)
    then show ?thesis using x2 b 3 by (intro exI conjI) auto
  qed
qed

lemma returns_bytes_encode:
  assumes "case b of None \<Rightarrow> n = 0 | Some b \<Rightarrow> unat n \<le> length b"
  shows "returns XDR_ENCODE (xdr_bytes avail maxsize) (b, n) (\<lambda>_. True)"
  unfolding returns_def
proof (intro allI impI)
  fix x assume x: "on_mem XDR_ENCODE x"
  then have op0: "x_op x = XDR_ENCODE" by (simp add: on_mem_def)
  obtain ok x1 n' where 1: "xdr_u_int x n = Some (ok, x1, n')" and x1: "on_mem XDR_ENCODE x1"
    by (rule returnsE [OF returns_u_int x])
  have n': "n' = n" using 1 op0 by (auto simp: xdr_u_int_def xdr_via_long_def bind_eq_Some_conv)
  have op: "x_op x1 = XDR_ENCODE" using x1 by (simp add: on_mem_def)
  show "\<exists>ok x' v'. xdr_bytes avail maxsize x (b, n) = Some (ok, x', v') \<and> on_mem XDR_ENCODE x' \<and> (ok \<longrightarrow> True)"
  proof (cases b)
    case None
    then show ?thesis using 1 x1 op n' assms by (cases ok; cases "n > maxsize") (auto simp: xdr_bytes_def)
  next
    case (Some bs)
    then have "unat n \<le> length bs" using assms by simp
    obtain ok2 x2 b2 where "xdr_opaque n x1 bs = Some (ok2, x2, b2)" "on_mem XDR_ENCODE x2"
      by (rule returnsE [OF returns_opaque [OF \<open>unat n \<le> length bs\<close>] x1])
    then show ?thesis using Some 1 x1 op n' by (cases ok; cases "n > maxsize") (auto simp: xdr_bytes_def)
  qed
qed

lemma opaque_auth_decode_returns:
  assumes x: "on_mem XDR_DECODE x" and c: "oa_base c0 = None"
  obtains ok x' c where "xdr_opaque_auth avail x c0 = Some (ok, x', c)" and "ok \<Longrightarrow> valid_auth c"
proof -
  obtain ok1 x1 f where 1: "xdr_enum x (oa_flavor c0) = Some (ok1, x1, f)" and x1: "on_mem XDR_DECODE x1"
    by (rule returnsE [OF returns_enum x])
  obtain ok x' b n where 2: "xdr_bytes avail MAX_AUTH_BYTES x1 (None, oa_length c0) = Some (ok, x', b, n)"
    and ok: "ok \<Longrightarrow> n \<le> MAX_AUTH_BYTES \<and> (case b of None \<Rightarrow> n = 0 | Some b \<Rightarrow> length b = unat n)"
    using returnsE [OF returns_bytes_decode x1] by (metis (no_types, lifting) case_prod_conv surj_pair)
  let ?c = "c0\<lparr>oa_flavor := f, oa_base := b, oa_length := n\<rparr>"
  have "valid_auth ?c" if ok using ok [OF that] by (auto simp: valid_auth_def auth_body_def split: option.splits)
  with 1 2 c show thesis
    by (cases ok1) (auto simp: xdr_opaque_auth_def fld_def intro: that)
qed

lemma opaque_auth_encode_returns:
  assumes x: "on_mem XDR_ENCODE x" and c: "valid_auth c"
  obtains ok x' c' where "xdr_opaque_auth avail x c = Some (ok, x', c')" and "on_mem XDR_ENCODE x'"
proof -
  obtain ok1 x1 f where 1: "xdr_enum x (oa_flavor c) = Some (ok1, x1, f)" and x1: "on_mem XDR_ENCODE x1"
    by (rule returnsE [OF returns_enum x])
  have b: "case oa_base c of None \<Rightarrow> oa_length c = 0 | Some b \<Rightarrow> unat (oa_length c) \<le> length b"
    using c by (auto simp: valid_auth_def auth_body_def unat_eq_0 split: option.splits)
  obtain ok x' v where 2: "xdr_bytes avail MAX_AUTH_BYTES x1 (oa_base c, oa_length c) = Some (ok, x', v)" and x': "on_mem XDR_ENCODE x'"
    by (rule returnsE [OF returns_bytes_encode [OF b] x1])
  show thesis
    using 1 2 x1 x' by (cases ok1; cases v) (auto simp: xdr_opaque_auth_def fld_def intro: that)
qed

end
