(* ===== verification/Auth_Exchange.thy ===== *)
theory Auth_Exchange
  imports Auth_Codec Mem_Total
begin

text \<open>
  The handles of the client: what \<open>authunix_create\<close> makes, that every operation keeps a handle for
  the same name, ids and groups, and that the server accepts what it sends.  The interface
  \<open>authenticator\<close>, which \<open>AUTH_SYS\<close> and \<open>AUTH_NONE\<close> implement, is what the clients rest on.
\<close>

section \<open>The credential of a handle\<close>

definition sys_cred :: "32 word \<Rightarrow> byte list \<Rightarrow> 32 word \<Rightarrow> 32 word \<Rightarrow> 32 word list \<Rightarrow> opaque_auth" where
  "sys_cred t s uid gid gs =
    (let bs = sys_bytes t s (replicate (pad (length s)) 0) uid gid gs
     in \<lparr>oa_flavor = AUTH_SYS, oa_base = Some bs, oa_length = of_nat (length bs)\<rparr>)"

lemma sys_length_le: "length s \<le> 255 \<Longrightarrow> length gs \<le> 16 \<Longrightarrow> 20 + length s + pad (length s) + 4 * length gs \<le> 340"
  unfolding pad_def by presburger

lemma sys_length_mod: "pad (20 + length (s :: byte list) + pad (length s) + 4 * length gs) = 0"
proof -
  have "(length s + pad (length s)) mod 4 = 0" using padded_mod_4 [of s] by (simp add: padded_def)
  then have "(length s + pad (length s) + 4 * (5 + length gs)) mod 4 = 0" by (simp only: mod_mult_self2)
  then show ?thesis by (simp add: pad_def algebra_simps)
qed

lemma sys_cred_valid:
  assumes "length s \<le> 255" "length gs \<le> 16"
  shows "valid_auth (sys_cred t s uid gid gs)"
    and "auth_body (sys_cred t s uid gid gs) = sys_bytes t s (replicate (pad (length s)) 0) uid gid gs"
    and "unat (oa_length (sys_cred t s uid gid gs)) = 20 + length s + pad (length s) + 4 * length gs"
    and "length (auth_bytes (sys_cred t s uid gid gs)) \<le> 348"
proof -
  define n where "n = 20 + length s + pad (length s) + 4 * length gs"
  define bs where "bs = sys_bytes t s (replicate (pad (length s)) 0) uid gid gs"
  have bs: "length bs = n" by (simp add: bs_def n_def length_sys_bytes)
  have c: "sys_cred t s uid gid gs = \<lparr>oa_flavor = AUTH_SYS, oa_base = Some bs, oa_length = of_nat n\<rparr>"
    by (simp add: sys_cred_def Let_def bs_def [symmetric] bs)
  have n: "n \<le> 340" unfolding n_def by (rule sys_length_le [OF assms])
  then have u: "unat (of_nat n :: 32 word) = n" by (intro small_word) simp
  have z: "pad n = 0" unfolding n_def by (rule sys_length_mod)
  have body: "auth_body (sys_cred t s uid gid gs) = bs" using u bs by (simp add: c auth_body_def)
  show "unat (oa_length (sys_cred t s uid gid gs)) = 20 + length s + pad (length s) + 4 * length gs"
    unfolding n_def [symmetric] c opaque_auth.simps by (rule u)
  show "auth_body (sys_cred t s uid gid gs) = sys_bytes t s (replicate (pad (length s)) 0) uid gid gs"
    by (simp only: body bs_def)
  show "valid_auth (sys_cred t s uid gid gs)"
    unfolding valid_auth_def body unfolding c opaque_auth.simps u bs word_le_nat_alt using n by (simp add: MAX_AUTH_BYTES_def)
  show "length (auth_bytes (sys_cred t s uid gid gs)) \<le> 348"
    using n bs z by (simp add: auth_bytes_def body padded_def)
qed

lemma null_auth_wire: "valid_auth null_auth" "auth_bytes null_auth = be32 0 @ be32 0"
  by (simp_all add: valid_auth_def null_auth_def auth_body_def auth_bytes_def padded_def pad_def)

text \<open>
  \<open>auth_of s uid gid gs au\<close>: the handle is for the name, the ids and the groups, and what it
  sends, the first \<open>au_mpos\<close> bytes of \<open>au_marshed\<close>, are its credential and its verifier.
\<close>

definition auth_of :: "byte list \<Rightarrow> 32 word \<Rightarrow> 32 word \<Rightarrow> 32 word list \<Rightarrow> audata \<Rightarrow> bool" where
  "auth_of s uid gid gs au \<longleftrightarrow> length s \<le> 255 \<and> length gs \<le> 16 \<and> 0 \<notin> set s \<and>
     (\<exists>t. au_origcred au = sys_cred t s uid gid gs) \<and> ah_verf au = null_auth \<and> valid_auth (ah_cred au) \<and>
     length (au_marshed au) = 400 \<and> unat (au_mpos au) = length (auth_bytes (ah_cred au)) + 8 \<and>
     take (unat (au_mpos au)) (au_marshed au) = auth_bytes (ah_cred au) @ auth_bytes null_auth"

lemma marshal_new_auth_ok:
  assumes v: "valid_auth (ah_cred au)" "ah_verf au = null_auth" and fits: "length (auth_bytes (ah_cred au)) \<le> 392"
    and a: "ae_marshed ae \<noteq> 0" and l: "length (au_marshed au) = 400"
  obtains ms where "marshal_new_auth ae au = Some (au\<lparr>au_marshed := ms, au_mpos := of_nat (length (auth_bytes (ah_cred au)) + 8)\<rparr>)"
    and "length ms = 400"
    and "take (length (auth_bytes (ah_cred au)) + 8) ms = auth_bytes (ah_cred au) @ auth_bytes null_auth"
proof -
  let ?F = "\<lambda>xdrs v. and_then (fld fst apfst (xdr_opaque_auth (ae_avail ae)) xdrs v) (fld snd apsnd (xdr_opaque_auth (ae_avail ae)))"
  let ?c = "ah_cred au"
  let ?bs = "auth_bytes ?c @ auth_bytes null_auth"
  have e: "al.encodes m b n ?F (?c, null_auth) ?bs (?c, null_auth)" "un.encodes m b n ?F (?c, null_auth) ?bs (?c, null_auth)" for m b n
    using v(1) null_auth_wire(1)
    by (auto intro!: al.encodes_and_then al.encodes_fst al.encodes_snd al.encodes_opaque_auth
        un.encodes_and_then un.encodes_fst un.encodes_snd un.encodes_opaque_auth)
  have len: "length ?bs = length (auth_bytes ?c) + 8" by (simp add: null_auth_wire)
  have m: "length ?bs \<le> unat MAX_AUTH_BYTES" using fits len by (simp add: MAX_AUTH_BYTES_def)
  obtain x where x: "?F (stream_on ae (ae_marshed ae) (au_marshed au) MAX_AUTH_BYTES XDR_ENCODE) (?c, null_auth) = Some (True, x, ?c, null_auth)"
    "rd (x_mem x) (ae_marshed ae) (length ?bs) = ?bs" "XDR_GETPOS x = Some (of_nat (length ?bs))"
    unfolding stream_on_def by (rule xdrmem_encode_pos [OF e a m])
  have "length (auth_bytes ?c) + 8 \<le> 400" using fits by simp
  with x(1) x(2,3) [unfolded len] show thesis
    by (intro that [of "rd (x_mem x) (ae_marshed ae) 400"])
      (simp_all add: marshal_new_auth_def v(2) l Let_def take_rd)
qed

lemma authunix_create_ok:
  assumes av: "\<forall>n \<le> 464. ae_avail ae n" and name: "0 \<in> set machname" "strlen machname \<le> 255"
    and len: "unat len \<le> 16" "unat len \<le> length gids" and a: "ae_mymem ae \<noteq> 0" "ae_marshed ae \<noteq> 0"
  obtains au where "authunix_create ae machname uid gid len gids = Some (Inr au)"
    and "auth_of (cstr machname) uid gid (take (unat len) gids) au" and "\<not> ah_short au"
    and "au_origcred au = sys_cred (ucast (ae_now ae)) (cstr machname) uid gid (take (unat len) gids)"
proof -
  let ?s = "cstr machname" and ?gs = "take (unat len) gids"
  define aup where "aup = \<lparr>aup_time = ae_now ae, aup_machname = Some machname, aup_uid = uid, aup_gid = gid,
                  aup_len = len, aup_gids = Some gids\<rparr>"
  let ?c = "sys_cred (ucast (ae_now ae)) ?s uid gid ?gs"
  let ?bs = "sys_bytes (ucast (ae_now ae)) ?s (replicate (pad (length ?s)) 0) uid gid ?gs"
  have s: "length ?s \<le> 255" "length ?gs \<le> 16" using name(2) len by (simp_all add: strlen_def)
  note c = sys_cred_valid [OF s]
  have ok: "aup_ok aup" using name len by (simp add: aup_ok_def aup_def groups_def)
  have bs: "aup_bytes aup = ?bs" by (simp add: aup_bytes_def aup_def Let_def groups_def)
  have l: "length ?bs \<le> 340" unfolding length_sys_bytes length_replicate using sys_length_le [OF s] .
  then have m: "length ?bs \<le> unat MAX_AUTH_BYTES" by (simp add: MAX_AUTH_BYTES_def)
  note e = al.encodes_authunix_parms [OF ok] un.encodes_authunix_parms [OF ok]
  obtain x where x: "xdr_authunix_parms (ae_avail ae) (xdrmem_create (ae_mem ae) (ae_mymem ae) MAX_AUTH_BYTES XDR_ENCODE) aup = Some (True, x, aup)"
    "rd (x_mem x) (ae_mymem ae) (length ?bs) = ?bs" "XDR_GETPOS x = Some (of_nat (length ?bs))"
    by (rule xdrmem_encode_pos [OF e a(1), unfolded bs, OF m])
  have u: "unat (of_nat (length ?bs) :: 32 word) = length ?bs" using l by (simp add: unat_of_nat32)
  define au0 where "au0 = \<lparr>au_origcred = ?c, au_shcred = null_auth, au_shfaults = 0, au_marshed = replicate 400 0,
      au_mpos = 0, ah_short = False, ah_verf = null_auth\<rparr>"
  have ah: "ah_cred au0 = ?c" "ah_verf au0 = null_auth" "length (au_marshed au0) = 400" by (simp_all add: au0_def ah_cred_def)
  have f: "length (auth_bytes (ah_cred au0)) \<le> 392" using c(4) ah by (simp add: order_trans [OF c(4)])
  have v: "valid_auth (ah_cred au0)" using c(1) ah by simp
  obtain ms where ms: "marshal_new_auth ae au0 = Some (au0\<lparr>au_marshed := ms, au_mpos := of_nat (length (auth_bytes ?c) + 8)\<rparr>)"
    "length ms = 400" "take (length (auth_bytes ?c) + 8) ms = auth_bytes ?c @ auth_bytes null_auth"
    by (rule marshal_new_auth_ok [OF v ah(2) f a(2) ah(3), unfolded ah(1)])
  let ?au = "au0\<lparr>au_marshed := ms, au_mpos := of_nat (length (auth_bytes ?c) + 8)\<rparr>"
  have "ae_avail ae sizeof_AUTH" "ae_avail ae sizeof_audata" "ae_avail ae (length ?bs)"
    using av l by (simp_all add: sizeof_AUTH_def sizeof_audata_def)
  then have "authunix_create ae machname uid gid len gids = Some (Inr ?au)"
    using x u ms(1) unfolding authunix_create_def aup_def [symmetric]
    by (simp add: Let_def sys_cred_def au0_def null_auth_def)
  moreover have "unat (of_nat (length (auth_bytes ?c) + 8) :: 32 word) = length (auth_bytes ?c) + 8"
    using c(4) [of "ucast (ae_now ae)" uid gid] by (intro small_word) linarith
  then have "auth_of ?s uid gid ?gs ?au"
    using s c(1) ms cstr_no_zero [of machname] by (auto simp: auth_of_def au0_def ah_cred_def)
  ultimately show thesis by (rule that) (simp_all add: au0_def)
qed

text \<open>A verifier of the server that suggests the credential \<open>c\<close>.\<close>

definition short_verf :: "opaque_auth \<Rightarrow> opaque_auth" where
  "short_verf c = \<lparr>oa_flavor = AUTH_SHORT, oa_base = Some (auth_bytes c), oa_length = of_nat (length (auth_bytes c))\<rparr>"

lemma auth_bytes_le: "valid_auth c \<Longrightarrow> length (auth_bytes c) \<le> 411"
  using valid_auth_le [of c] pad_less [of "length (auth_body c)"]
  by (simp add: valid_auth_def auth_bytes_def padded_def)

lemma auth_decoded_fresh:
  assumes "valid_auth c" and "oa_base c0 = None" and "\<forall>n \<le> 464. avail n"
  shows "auth_room avail c0 c" and "valid_auth (auth_decoded avail c0 c)"
    and "auth_bytes (auth_decoded avail c0 c) = auth_bytes c"
proof -
  have n: "unat (oa_length c) \<le> 400" by (rule valid_auth_le [OF assms(1)])
  have b: "length (auth_body c) = unat (oa_length c)" using assms(1) by (simp add: valid_auth_def)
  show "auth_room avail c0 c" using n assms by (simp add: auth_room_def auth_block_def mem_alloc_def)
  have body: "auth_body (auth_decoded avail c0 c) = auth_body c"
  proof (cases "oa_length c = 0")
    case True
    then show ?thesis using assms(2) b by (simp add: auth_body_def auth_decoded_def)
  next
    case False
    then have "oa_base (auth_decoded avail c0 c) = Some (auth_body c)" "oa_length (auth_decoded avail c0 c) = oa_length c"
      using n assms b by (simp_all add: auth_decoded_def auth_block_def mem_alloc_def)
    then show ?thesis using b by (simp add: auth_body_def [of "auth_decoded avail c0 c"])
  qed
  then show "valid_auth (auth_decoded avail c0 c)" "auth_bytes (auth_decoded avail c0 c) = auth_bytes c"
    using assms(1) by (simp_all add: valid_auth_def auth_bytes_def auth_decoded_def)
qed

lemma authunix_validate_short:
  assumes au: "auth_of s uid gid gs au" and c: "valid_auth c" "length (auth_bytes c) \<le> 392"
    and av: "\<forall>n \<le> 464. ae_avail ae n" and a: "ae_verf ae \<noteq> 0" "ae_marshed ae \<noteq> 0"
  obtains au' where "authunix_validate ae au (short_verf c) = Some (True, au')" and "auth_of s uid gid gs au'"
    and "ah_short au'" and "auth_bytes (ah_cred au') = auth_bytes c" and "au_origcred au' = au_origcred au"
proof -
  let ?old = "(au_shcred au)\<lparr>oa_base := None\<rparr>"
  let ?c = "auth_decoded (ae_avail ae) ?old c"
  have base: "oa_base ?old = None" by simp
  note d = auth_decoded_fresh [OF c(1) base av]
  have u: "unat (of_nat (length (auth_bytes c)) :: 32 word) = length (auth_bytes c)"
    using c(2) by (intro small_word) simp
  have le: "length (auth_bytes c) \<le> unat (of_nat (length (auth_bytes c)) :: 32 word)" by (simp only: u order_refl)
  have rd: "rd (wr (ae_mem ae) (ae_verf ae) (auth_bytes c)) (ae_verf ae) (length (auth_bytes c)) = auth_bytes c" by simp
  obtain x where x: "xdr_opaque_auth (ae_avail ae) (stream_on ae (ae_verf ae) (auth_bytes c) (of_nat (length (auth_bytes c))) XDR_DECODE) ?old =
      Some (True, x, ?c)"
    unfolding stream_on_def
    by (rule xdrmem_decode [OF ald.decodes_opaque_auth [OF c(1) d(1)] und.decodes_opaque_auth [OF c(1) d(1)] a(1) le rd])
  define au1 where "au1 = au\<lparr>au_shcred := ?c, ah_short := True\<rparr>"
  have ah: "ah_cred au1 = ?c" "ah_verf au1 = null_auth" "length (au_marshed au1) = 400"
    using au by (simp_all add: au1_def ah_cred_def auth_of_def)
  have v: "valid_auth (ah_cred au1)" "length (auth_bytes (ah_cred au1)) \<le> 392" using d c(2) ah by simp_all
  obtain ms where ms: "marshal_new_auth ae au1 = Some (au1\<lparr>au_marshed := ms, au_mpos := of_nat (length (auth_bytes ?c) + 8)\<rparr>)"
    "length ms = 400" "take (length (auth_bytes ?c) + 8) ms = auth_bytes ?c @ auth_bytes null_auth"
    by (rule marshal_new_auth_ok [OF v(1) ah(2) v(2) a(2) ah(3), unfolded ah(1)])
  let ?au = "au1\<lparr>au_marshed := ms, au_mpos := of_nat (length (auth_bytes ?c) + 8)\<rparr>"
  have "authunix_validate ae au (short_verf c) = Some (True, ?au)"
    using x ms(1) by (simp add: authunix_validate_def short_verf_def Let_def au1_def)
  moreover have "unat (of_nat (length (auth_bytes ?c) + 8) :: 32 word) = length (auth_bytes ?c) + 8"
    using v(2) unfolding ah(1) by (intro small_word) simp
  then have "auth_of s uid gid gs ?au"
    using au d(2) ms by (auto simp: auth_of_def au1_def ah_cred_def)
  ultimately show thesis using d(3) by (intro that [of ?au]) (simp_all add: au1_def ah_cred_def)
qed

lemma authunix_validate_other:
  "oa_flavor v \<noteq> AUTH_SHORT \<Longrightarrow> authunix_validate ae au v = Some (True, au)"
  by (simp add: authunix_validate_def)

text \<open>
  Whatever a verifier holds, \<open>authunix_validate\<close> answers: it takes over the credential it finds, or
  goes back to the original one.  A new credential of more than 384 bytes does not fit beside the
  verifier, and \<open>marshal_new_auth\<close> leaves \<open>au_mpos\<close> as it was.
\<close>

definition verf_ok :: "opaque_auth \<Rightarrow> bool" where
  "verf_ok v \<longleftrightarrow> oa_base v = None \<longrightarrow> oa_length v < 4"

lemma marshal_new_auth_returns:
  assumes "valid_auth (ah_cred au)" and "valid_auth (ah_verf au)"
  obtains ms pos where "marshal_new_auth ae au = Some (au\<lparr>au_marshed := ms, au_mpos := pos\<rparr>)"
proof -
  let ?x = "stream_on ae (ae_marshed ae) (au_marshed au) MAX_AUTH_BYTES XDR_ENCODE"
  have x: "on_mem XDR_ENCODE ?x" by (simp add: stream_on_def on_mem_create)
  obtain ok x1 c where 1: "xdr_opaque_auth (ae_avail ae) ?x (ah_cred au) = Some (ok, x1, c)" and x1: "on_mem XDR_ENCODE x1"
    by (rule opaque_auth_encode_returns [OF x assms(1)])
  obtain ok' x2 v where 2: "xdr_opaque_auth (ae_avail ae) x1 (ah_verf au) = Some (ok', x2, v)" and x2: "on_mem XDR_ENCODE x2"
    by (rule opaque_auth_encode_returns [OF x1 assms(2)])
  have pos: "\<exists>p. XDR_GETPOS x2 = Some p"
    using x2 by (auto simp: on_mem_def XDR_GETPOS_def xdrmem_ops_aligned_def xdrmem_ops_unaligned_def)
  have "\<exists>ms pos. marshal_new_auth ae au = Some (au\<lparr>au_marshed := ms, au_mpos := pos\<rparr>)"
  proof (cases "ok \<and> ok'")
    case True
    obtain p where "XDR_GETPOS x2 = Some p" using pos by blast
    with True 1 2 have "marshal_new_auth ae au = Some (au\<lparr>au_marshed := rd (x_mem x2) (ae_marshed ae) (length (au_marshed au)), au_mpos := p\<rparr>)"
      by (simp add: marshal_new_auth_def fld_def Let_def)
    then show ?thesis by blast
  next
    case False
    have "au\<lparr>au_marshed := ms\<rparr> = au\<lparr>au_marshed := ms, au_mpos := au_mpos au\<rparr>" for ms by simp
    moreover have "\<exists>ms. marshal_new_auth ae au = Some (au\<lparr>au_marshed := ms\<rparr>)"
      using False 1 2 by (cases ok) (auto simp: marshal_new_auth_def fld_def Let_def)
    ultimately show ?thesis by metis
  qed
  then show thesis using that by blast
qed

lemma authunix_validate_cases:
  assumes v: "oa_flavor v = AUTH_SHORT" "verf_ok v" and orig: "valid_auth (au_origcred au)" and verf: "ah_verf au = null_auth"
  obtains au1 ms pos where "authunix_validate ae au v = Some (True, au1\<lparr>au_marshed := ms, au_mpos := pos\<rparr>)"
    and "marshal_new_auth ae au1 = Some (au1\<lparr>au_marshed := ms, au_mpos := pos\<rparr>)" and "valid_auth (ah_cred au1)"
    and "au_origcred au1 = au_origcred au" and "ah_verf au1 = ah_verf au" and "au_marshed au1 = au_marshed au"
    and "ah_short au1 \<or> ah_cred au1 = au_origcred au"
proof -
  obtain base where b: "(case oa_base v of None \<Rightarrow> if oa_length v < 4 then Some [] else None | Some b \<Rightarrow> Some b) = Some base"
    using v(2) by (cases "oa_base v") (simp_all add: verf_ok_def)
  let ?x = "stream_on ae (ae_verf ae) base (oa_length v) XDR_DECODE" and ?old = "(au_shcred au)\<lparr>oa_base := None\<rparr>"
  have x: "on_mem XDR_DECODE ?x" by (simp add: stream_on_def on_mem_create)
  obtain ok x1 c where 1: "xdr_opaque_auth (ae_avail ae) ?x ?old = Some (ok, x1, c)" and c: "ok \<Longrightarrow> valid_auth c"
    by (rule opaque_auth_decode_returns [OF x, of ?old "ae_avail ae"], simp, rule that)
  have free: "\<exists>x' c'. xdr_opaque_auth (ae_avail ae) (x1\<lparr>x_op := XDR_FREE\<rparr>) c = Some (True, x', c')"
    by (simp add: xdr_opaque_auth_def fld_def xdr_enum_def xdr_int_def xdr_via_long_def xdr_bytes_def xdr_u_int_def)
  then obtain x2 c2 where 2: "xdr_opaque_auth (ae_avail ae) (x1\<lparr>x_op := XDR_FREE\<rparr>) c = Some (True, x2, c2)" by blast
  define au1 where "au1 = (if ok then au\<lparr>au_shcred := c, ah_short := True\<rparr>
    else au\<lparr>au_shcred := c2\<lparr>oa_base := None\<rparr>, ah_short := False\<rparr>)"
  have f: "valid_auth (ah_cred au1)" "ah_verf au1 = ah_verf au" "au_origcred au1 = au_origcred au" "au_marshed au1 = au_marshed au"
    "ah_short au1 \<or> ah_cred au1 = au_origcred au"
    using c orig by (simp_all add: au1_def ah_cred_def)
  have n: "valid_auth (ah_verf au1)" using f(2) verf null_auth_wire(1) by simp
  obtain ms pos where m: "marshal_new_auth ae au1 = Some (au1\<lparr>au_marshed := ms, au_mpos := pos\<rparr>)"
    by (rule marshal_new_auth_returns [OF f(1) n])
  have "authunix_validate ae au v = Some (True, au1\<lparr>au_marshed := ms, au_mpos := pos\<rparr>)"
  proof (cases ok)
    case True
    then show ?thesis using v(1) b 1 m by (simp add: authunix_validate_def au1_def Let_def)
  next
    case False
    then show ?thesis using v(1) b 1 2 m by (simp add: authunix_validate_def au1_def Let_def)
  qed
  from that [OF this m f(1,3,2,4,5)] show thesis .
qed

lemma authunix_validate_answers:
  assumes "auth_of s uid gid gs au" and "verf_ok v"
  obtains au' where "authunix_validate ae au v = Some (True, au')"
proof (cases "oa_flavor v = AUTH_SHORT")
  case True
  have o: "valid_auth (au_origcred au)" "ah_verf au = null_auth"
    using assms(1) sys_cred_valid(1) by (auto simp: auth_of_def)
  show thesis by (rule authunix_validate_cases [OF True assms(2) o, of ae]) (rule that)
next
  case False
  then show thesis by (intro that [of au]) (rule authunix_validate_other)
qed

lemma authunix_validate_keeps:
  assumes au: "auth_of s uid gid gs au" and v: "authunix_validate ae au v = Some (ok, au')"
    and a: "ae_marshed ae \<noteq> 0" and small: "ah_short au' \<Longrightarrow> oa_length (au_shcred au') \<le> 384"
  shows "auth_of s uid gid gs au'"
proof (cases "oa_flavor v = AUTH_SHORT")
  case False
  then show ?thesis using v au by (simp add: authunix_validate_other)
next
  case True
  obtain t where t: "au_origcred au = sys_cred t s uid gid gs" and s: "length s \<le> 255" "length gs \<le> 16" "0 \<notin> set s"
    using au by (auto simp: auth_of_def)
  note c = sys_cred_valid [OF s(1,2), of t uid gid]
  have o: "valid_auth (au_origcred au)" "ah_verf au = null_auth" "length (au_marshed au) = 400"
    using au c(1) t by (simp_all add: auth_of_def)
  have vk: "verf_ok v" using v True by (cases "oa_base v") (auto simp: verf_ok_def authunix_validate_def split: if_splits)
  obtain au1 ms pos where 1: "authunix_validate ae au v = Some (True, au1\<lparr>au_marshed := ms, au_mpos := pos\<rparr>)"
    "marshal_new_auth ae au1 = Some (au1\<lparr>au_marshed := ms, au_mpos := pos\<rparr>)" "valid_auth (ah_cred au1)"
    "au_origcred au1 = au_origcred au" "ah_verf au1 = ah_verf au" "au_marshed au1 = au_marshed au"
    "ah_short au1 \<or> ah_cred au1 = au_origcred au"
    by (rule authunix_validate_cases [OF True vk o(1,2), of ae]) (rule that)
  have au': "au' = au1\<lparr>au_marshed := ms, au_mpos := pos\<rparr>" using v 1(1) by simp
  have l: "length (auth_bytes (ah_cred au1)) \<le> 392"
  proof (cases "ah_short au1")
    case True
    then have "unat (oa_length (ah_cred au1)) \<le> 384"
      using small by (simp add: au' ah_cred_def word_le_nat_alt)
    then show ?thesis using 1(3) by (simp add: valid_auth_def auth_bytes_def padded_def pad_def) presburger
  next
    case False
    then have "ah_cred au1 = sys_cred t s uid gid gs" using 1(7) t by simp
    then show ?thesis using c(4) by (simp add: order_trans [OF c(4)])
  qed
  have m: "ah_verf au1 = null_auth" "length (au_marshed au1) = 400" using 1(5,6) o by simp_all
  obtain ms' where ms: "marshal_new_auth ae au1 = Some (au1\<lparr>au_marshed := ms', au_mpos := of_nat (length (auth_bytes (ah_cred au1)) + 8)\<rparr>)"
    "length ms' = 400" "take (length (auth_bytes (ah_cred au1)) + 8) ms' = auth_bytes (ah_cred au1) @ auth_bytes null_auth"
    by (rule marshal_new_auth_ok [OF 1(3) m(1) l a m(2)])
  let ?au = "au1\<lparr>au_marshed := ms', au_mpos := of_nat (length (auth_bytes (ah_cred au1)) + 8)\<rparr>"
  have e: "au' = ?au" using 1(2) ms(1) au' by simp
  have cr: "ah_cred ?au = ah_cred au1" "ah_verf ?au = null_auth" "au_origcred ?au = sys_cred t s uid gid gs"
    using m(1) 1(4) t by (simp_all add: ah_cred_def)
  have u: "unat (of_nat (length (auth_bytes (ah_cred au1)) + 8) :: 32 word) = length (auth_bytes (ah_cred au1)) + 8"
    using l by (intro small_word) simp
  show ?thesis
    unfolding e auth_of_def cr using s 1(3) ms(2,3) u by auto
qed

lemma free_elems: "x_op xdrs = XDR_FREE \<Longrightarrow> n \<le> length gs \<Longrightarrow> xdr_elems xdr_int n xdrs gs = Some (True, xdrs, gs)"
proof (induction n arbitrary: gs)
  case 0
  show ?case by simp
next
  case (Suc n)
  then obtain g gs' where "gs = g # gs'" by (cases gs) auto
  with Suc show ?case by (simp add: xdr_int_def xdr_via_long_def)
qed

lemma free_authunix:
  assumes op: "x_op xdrs = XDR_FREE" and ok: "aup_ok p"
  shows "\<exists>p'. xdr_authunix_parms avail xdrs p = Some (True, xdrs, p')"
proof -
  obtain s where p: "aup_machname p = Some s" and s: "0 \<in> set s" "strlen s \<le> 255"
    and n: "unat (aup_len p) \<le> 16" "length (groups p) = unat (aup_len p)"
    using ok by (auto simp: aup_ok_def split: option.splits)
  have u: "unat (of_nat (strlen s) :: 32 word) = strlen s" using s(2) by (intro small_word) simp
  have u1: "(of_nat (strlen s) + 1 :: 32 word) \<noteq> 0"
    using u s(2) unat_word_ariths(1) [of "of_nat (strlen s) :: 32 word" 1] by (auto simp: unat_eq_0 [symmetric])
  have le: "\<not> of_nat (strlen s) > MAX_MACHINE_NAME" using u s(2) by (simp add: MAX_MACHINE_NAME_def word_less_nat_alt)
  have i: "xdr_u_int xdrs v = Some (True, xdrs, v)" "xdr_u_long xdrs w = Some (True, xdrs, w)" for v w
    using op by (simp_all add: xdr_u_int_def xdr_via_long_def xdr_u_long_def)
  have st: "xdr_string avail MAX_MACHINE_NAME xdrs (Some s) = Some (True, xdrs, None)"
    using op s le u1 i by (simp add: xdr_string_def Let_def)
  have g: "\<exists>r. xdr_array avail 0 NGRPS 4 xdr_int xdrs (aup_gids p, aup_len p) = Some (True, xdrs, r)"
  proof (cases "aup_gids p")
    case None
    then show ?thesis using op i by (simp add: xdr_array_def)
  next
    case (Some gs)
    then have "unat (aup_len p) \<le> length gs" using n(2) by (simp add: groups_def)
    from free_elems [OF op this] Some show ?thesis using op i by (simp add: xdr_array_def)
  qed
  then obtain r where "xdr_array avail 0 NGRPS 4 xdr_int xdrs (aup_gids p, aup_len p) = Some (True, xdrs, r)" by blast
  then show ?thesis using p st i by (simp add: xdr_authunix_parms_def fld_def)
qed

lemma authunix_refresh_ok:
  assumes au: "auth_of s uid gid gs au" and sh: "ah_short au"
    and av: "\<forall>n \<le> 464. ae_avail ae n" and a: "ae_cred ae \<noteq> 0" "ae_marshed ae \<noteq> 0"
  obtains au' where "authunix_refresh ae au = Some (True, au')" and "auth_of s uid gid gs au'" and "\<not> ah_short au'"
    and "au_origcred au' = sys_cred (ucast (ae_now ae)) s uid gid gs"
proof -
  obtain t where t: "au_origcred au = sys_cred t s uid gid gs" and s: "length s \<le> 255" "length gs \<le> 16" "0 \<notin> set s"
    using au by (auto simp: auth_of_def)
  let ?pd = "replicate (pad (length s)) (0 :: byte)"
  let ?bs = "\<lambda>t. sys_bytes t s ?pd uid gid gs"
  let ?sz = "of_nat (length (?bs t)) :: 32 word"
  have l: "length (?bs t') = length (?bs t)" "length (?bs t) \<le> 340" for t'
    using sys_length_le [OF s(1,2)] by (simp_all add: length_sys_bytes)
  note l1 = l(1) [of "ucast (ae_now ae)"]
  have sz: "unat ?sz = length (?bs t)" using l(2) by (intro small_word) simp
  define p0 where "p0 = \<lparr>aup_time = 0, aup_machname = None, aup_uid = 0, aup_gid = 0, aup_len = 0, aup_gids = None\<rparr>"
  define p1 where "p1 = \<lparr>aup_time = ucast t, aup_machname = Some (s @ [0]), aup_uid = uid, aup_gid = gid,
      aup_len = of_nat (length gs), aup_gids = (if gs = [] then None else Some gs)\<rparr>"
  define p2 where "p2 = p1\<lparr>aup_time := ae_now ae\<rparr>"
  have p0: "aup_machname p0 = None" "aup_gids p0 = None" by (simp_all add: p0_def)
  have avs: "ae_avail ae (length s + 1)" "ae_avail ae (4 * length gs)" using av s by simp_all
  let ?m = "wr (ae_mem ae) (ae_cred ae) (?bs t)"
  have le0: "length (?bs t) \<le> unat ?sz" by (simp only: sz order_refl)
  have rd: "rd ?m (ae_cred ae) (length (?bs t)) = ?bs t" by simp
  obtain x where x: "xdr_authunix_parms (ae_avail ae) (xdrmem_create ?m (ae_cred ae) ?sz XDR_DECODE) p0 = Some (True, x, p1)"
    "mem_stream ?m (ae_cred ae) ?sz x"
    unfolding p1_def
    by (rule xdrmem_decode_stream [OF ald.decodes_authunix_alloc [OF p0 s(1,2) avs] und.decodes_authunix_alloc [OF p0 s(1,2) avs] a(1) le0 rd])
  have n: "unat (of_nat (length gs) :: 32 word) = length gs" using s(2) by (intro small_word) simp
  have st: "strlen (s @ [0]) = length s" "cstr (s @ [0]) = s" using cstr_terminated [OF s(3), of "[]"] by (simp_all add: strlen_def)
  have g: "groups p2 = gs" by (simp add: groups_def p2_def p1_def n)
  have ok: "aup_ok p2" using s st n by (simp add: aup_ok_def g) (simp add: p2_def p1_def n)
  have b2: "aup_bytes p2 = ?bs (ucast (ae_now ae))" by (simp add: aup_bytes_def g Let_def) (simp add: p2_def p1_def st)
  have le: "length (?bs (ucast (ae_now ae))) \<le> unat ?sz" by (simp only: sz l1 order_refl)
  note e = al.encodes_authunix_parms [OF ok] un.encodes_authunix_parms [OF ok]
  obtain y where y: "xdr_authunix_parms (ae_avail ae) (xdrmem_create (x_mem x) (ae_cred ae) ?sz XDR_ENCODE) p2 = Some (True, y, p2)"
    "rd (x_mem y) (ae_cred ae) (length (?bs t)) = ?bs (ucast (ae_now ae))"
    by (rule xdrmem_encode_stream [OF e a(1), unfolded b2, OF le]) (simp add: l1)
  have "x_op (y\<lparr>x_op := XDR_FREE\<rparr>) = XDR_FREE" by simp
  from free_authunix [OF this ok] obtain p3 where p3: "xdr_authunix_parms (ae_avail ae) (y\<lparr>x_op := XDR_FREE\<rparr>) p2 = Some (True, y\<lparr>x_op := XDR_FREE\<rparr>, p3)"
    by blast
  define au1 where "au1 = au\<lparr>au_shfaults := au_shfaults au + 1, au_origcred := sys_cred (ucast (ae_now ae)) s uid gid gs, ah_short := False\<rparr>"
  have ah: "ah_cred au1 = sys_cred (ucast (ae_now ae)) s uid gid gs" "ah_verf au1 = null_auth" "length (au_marshed au1) = 400"
    using au by (simp_all add: au1_def ah_cred_def auth_of_def)
  note c = sys_cred_valid [OF s(1,2), of "ucast (ae_now ae)" uid gid]
  have v: "valid_auth (ah_cred au1)" "length (auth_bytes (ah_cred au1)) \<le> 392" using c(1,4) ah by simp_all
  obtain ms where ms: "marshal_new_auth ae au1 = Some (au1\<lparr>au_marshed := ms, au_mpos := of_nat (length (auth_bytes (ah_cred au1)) + 8)\<rparr>)"
    "length ms = 400" "take (length (auth_bytes (ah_cred au1)) + 8) ms = auth_bytes (ah_cred au1) @ auth_bytes null_auth"
    by (rule marshal_new_auth_ok [OF v(1) ah(2) v(2) a(2) ah(3)])
  let ?au = "au1\<lparr>au_marshed := ms, au_mpos := of_nat (length (auth_bytes (ah_cred au1)) + 8)\<rparr>"
  have o: "oa_base (au_origcred au) = Some (?bs t)" "oa_length (au_origcred au) = ?sz" by (simp_all add: t sys_cred_def Let_def)
  have o': "(au_origcred au)\<lparr>oa_base := Some (?bs (ucast (ae_now ae)))\<rparr> = sys_cred (ucast (ae_now ae)) s uid gid gs"
    by (simp add: t sys_cred_def Let_def l1)
  have "authunix_refresh ae au = Some (True, ?au)"
    unfolding authunix_refresh_def stream_on_def Let_def p0_def [symmetric]
    using sh x(1) xdrmem_rewind [OF x(2)] y p3 ms(1) [unfolded au1_def] o o' ah
    by (simp add: p2_def [symmetric] au1_def [symmetric])
  moreover have "unat (of_nat (length (auth_bytes (ah_cred au1)) + 8) :: 32 word) = length (auth_bytes (ah_cred au1)) + 8"
    using v(2) by (intro small_word) simp
  then have "auth_of s uid gid gs ?au"
    using s v ms ah by (auto simp: auth_of_def) (auto simp: au1_def ah_cred_def)
  ultimately show thesis by (intro that [of ?au]) (simp_all add: au1_def)
qed

section \<open>The interface of an authenticator\<close>

locale authenticator =
  fixes marshal :: "'a \<Rightarrow> 's XDR \<Rightarrow> (bool \<times> 's XDR) option"
    and validate :: "'a \<Rightarrow> opaque_auth \<Rightarrow> (bool \<times> 'a) option"
    and refresh :: "'a \<Rightarrow> (bool \<times> 'a) option"
    and inv :: "'a \<Rightarrow> bool"
    and cred :: "'a \<Rightarrow> opaque_auth"
  assumes cred_valid: "inv a \<Longrightarrow> valid_auth (cred a)"
    and marshal_wire: "inv a \<Longrightarrow> \<exists>buf len. (\<forall>xdrs. marshal a xdrs = XDR_PUTBYTES xdrs buf len) \<and>
      unat len = length (auth_bytes (cred a)) + 8 \<and> take (unat len) buf = auth_bytes (cred a) @ auth_bytes null_auth"
    and validate_plain: "inv a \<Longrightarrow> oa_flavor v \<noteq> AUTH_SHORT \<Longrightarrow> validate a v = Some (True, a)"
    and refresh_inv: "inv a \<Longrightarrow> \<exists>ok a'. refresh a = Some (ok, a') \<and> inv a'"
begin

lemma marshal_E:
  assumes "inv a"
  obtains buf len where "\<And>xdrs. marshal a xdrs = XDR_PUTBYTES xdrs buf len"
    and "unat len = length (auth_bytes (cred a) @ auth_bytes null_auth)"
    and "take (unat len) buf = auth_bytes (cred a) @ auth_bytes null_auth"
  using marshal_wire [OF assms] by (auto simp: null_auth_wire)

end

text \<open>Allocation succeeds and the buffers are somewhere.\<close>

definition auth_env_ok :: "auth_env \<Rightarrow> bool" where
  "auth_env_ok ae \<longleftrightarrow> (\<forall>n \<le> 464. ae_avail ae n) \<and> ae_mymem ae \<noteq> 0 \<and> ae_marshed ae \<noteq> 0 \<and> ae_cred ae \<noteq> 0 \<and> ae_verf ae \<noteq> 0"

lemma authunix_refresh_keeps:
  assumes au: "auth_of s uid gid gs au" and ae: "auth_env_ok ae"
  obtains au' where "authunix_refresh ae au = Some (ah_short au, au')" and "auth_of s uid gid gs au'" and "\<not> ah_short au'"
proof (cases "ah_short au")
  case True
  have av: "\<forall>n \<le> 464. ae_avail ae n" "ae_cred ae \<noteq> 0" "ae_marshed ae \<noteq> 0" using ae by (simp_all add: auth_env_ok_def)
  obtain au' where "authunix_refresh ae au = Some (True, au')" "auth_of s uid gid gs au'" "\<not> ah_short au'"
    by (rule authunix_refresh_ok [OF au True av])
  with True show thesis by (intro that) simp_all
next
  case False
  then show thesis using au by (intro that [of au]) (simp_all add: authunix_refresh_def)
qed

interpretation sys: authenticator authunix_marshal "authunix_validate ae" "authunix_refresh ae"
    "\<lambda>au. auth_env_ok ae \<and> auth_of s uid gid gs au" ah_cred for ae s uid gid gs
proof (unfold_locales, goal_cases)
  case (1 au)
  then show ?case by (simp add: auth_of_def)
next
  case (2 au)
  then show ?case
    by (intro exI [of _ "au_marshed au"] exI [of _ "au_mpos au"]) (auto simp: authunix_marshal_def auth_of_def)
next
  case (3 au v)
  then show ?case by (simp add: authunix_validate_other)
next
  case (4 au)
  then obtain au' where "authunix_refresh ae au = Some (ah_short au, au')" "auth_of s uid gid gs au'"
    by (elim conjE) (rule authunix_refresh_keeps)
  with 4 show ?case by blast
qed

text \<open>The null authenticator.\<close>

definition none_inv :: "authnone_private option \<Rightarrow> bool" where
  "none_inv priv \<longleftrightarrow> (case priv of None \<Rightarrow> False | Some ap \<Rightarrow> mcnt ap = 16 \<and>
     take 16 (marshalled_client ap) = auth_bytes null_auth @ auth_bytes null_auth)"

interpretation none: authenticator authnone_marshal authnone_validate authnone_refresh none_inv "\<lambda>_. null_auth"
proof (unfold_locales, goal_cases)
  case (1 priv)
  show ?case by (rule null_auth_wire)
next
  case (2 priv)
  then obtain ap where "priv = Some ap" "mcnt ap = 16"
    "take 16 (marshalled_client ap) = auth_bytes null_auth @ auth_bytes null_auth"
    by (auto simp: none_inv_def split: option.splits)
  then show ?case
    by (intro exI [of _ "marshalled_client ap"] exI [of _ "mcnt ap"]) (simp add: authnone_marshal_def null_auth_wire)
next
  case (3 priv v)
  show ?case by (simp add: authnone_validate_def)
next
  case (4 priv)
  then show ?case by (auto simp: authnone_refresh_def)
qed

lemma authnone_create_ok:
  assumes "ae_marshed ae \<noteq> 0" and "ae_avail ae 136 \<or> priv \<noteq> None" and "priv = None \<or> none_inv priv"
  obtains priv' where "authnone_create ae priv = Some (True, priv')" and "none_inv priv'"
proof (cases priv)
  case (Some ap)
  then show thesis using assms(3) by (intro that [of priv]) (auto simp: authnone_create_def none_inv_def)
next
  case None
  let ?b = "auth_bytes null_auth"
  have n: "valid_auth null_auth" by (rule null_auth_wire)
  let ?G = "\<lambda>xdrs v. and_then (fld fst apfst (xdr_opaque_auth (ae_avail ae)) xdrs v) (fld snd apsnd (xdr_opaque_auth (ae_avail ae)))"
  have e: "al.encodes m b k ?G (null_auth, null_auth) (?b @ ?b) (null_auth, null_auth)"
      "un.encodes m b k ?G (null_auth, null_auth) (?b @ ?b) (null_auth, null_auth)" for m b k
    using n by (auto intro!: al.encodes_and_then al.encodes_fst al.encodes_snd al.encodes_opaque_auth
        un.encodes_and_then un.encodes_fst un.encodes_snd un.encodes_opaque_auth)
  have l: "length (?b @ ?b) = 16" by (simp add: null_auth_wire)
  then have le: "length (?b @ ?b) \<le> unat (20 :: 32 word)" by (simp only: l) simp
  obtain x where x: "?G (stream_on ae (ae_marshed ae) (replicate 20 0) 20 XDR_ENCODE) (null_auth, null_auth) = Some (True, x, null_auth, null_auth)"
    "rd (x_mem x) (ae_marshed ae) (length (?b @ ?b)) = ?b @ ?b" "XDR_GETPOS x = Some (of_nat (length (?b @ ?b)))"
    unfolding stream_on_def by (rule xdrmem_encode_pos [OF e assms(1) le])
  obtain x1 where 1: "xdr_opaque_auth (ae_avail ae) (stream_on ae (ae_marshed ae) (replicate 20 0) 20 XDR_ENCODE) null_auth = Some (True, x1, null_auth)"
    "xdr_opaque_auth (ae_avail ae) x1 null_auth = Some (True, x, null_auth)"
    using x(1) by (auto simp: fld_def bind_eq_Some_conv and_then_eq_Some split: prod.splits)
  let ?ap = "\<lparr>no_cred = null_auth, no_verf = null_auth, marshalled_client = rd (x_mem x) (ae_marshed ae) 20, mcnt = 16\<rparr>"
  have "authnone_create ae priv = Some (True, Some ?ap)"
    using None assms(2) 1 x(3) unfolding l by (simp add: authnone_create_def)
  moreover have "none_inv (Some ?ap)" using x(2) unfolding l by (simp add: none_inv_def take_rd)
  ultimately show thesis by (rule that)
qed

end
