(* ===== verification/Auth_Accept.thy ===== *)
theory Auth_Accept
  imports Auth_Exchange
begin

text \<open>
  Client and server together: the server knows a client by what it gave to \<open>authunix_create\<close>, a
  handle keeps its identity through all that happens to it, and flavors can be added.
\<close>

section \<open>From the client's handle to the server's request\<close>

lemma scast_low:
  assumes "unat (t :: 32 word) < 2 ^ 31"
  shows "scast t = (ucast t :: 64 word)"
proof -
  have "uint t < 2 ^ 31" using assms by (metis of_nat_less_iff of_nat_numeral of_nat_power uint_nat)
  then have "signed_take_bit 31 (uint t) = uint t"
    using uint_ge_0 [of t] by (intro signed_take_bit_int_eq_self) linarith+
  then have "sint t = uint t" by (simp add: sint_uint)
  then show ?thesis by (metis of_int_sint of_int_uint scast_eq ucast_eq)
qed

text \<open>
  The server on the credential of \<open>sys_cred\<close>, in line or through the filter.  The 32 bits of the
  time are sign-extended in line, where the block is aligned, and zero-extended by the filter.
\<close>

definition received_time :: "addr \<Rightarrow> 32 word \<Rightarrow> 64 word" where
  "received_time p t = (if p mod 4 = 0 then scast t else ucast t)"

lemma svcauth_unix_sys_cred:
  assumes body: "auth_body (tcb_cred (trm_call msg)) = sys_bytes t s (replicate (pad (length s)) 0) uid gid gs"
    and n: "unat (oa_length (tcb_cred (trm_call msg))) = 20 + length s + pad (length s) + 4 * length gs"
    and s: "length s \<le> 255" "length gs \<le> 16" and p: "p \<noteq> 0" and ok: "area_ok (rq_clntcred rqst)"
  shows "svcauth_unix avail m p rqst msg = Some (AUTH_OK, set_verf (tcb_verf (trm_call msg))
    (rqst\<lparr>rq_clntcred := sys_area (received_time p t) s uid gid gs (rq_clntcred rqst)\<rparr>))"
proof -
  let ?bs = "sys_bytes t s (replicate (pad (length s)) 0) uid gid gs"
  let ?a = "rq_clntcred rqst"
  let ?n = "oa_length (tcb_cred (trm_call msg))"
  obtain base where b: "oa_base (tcb_cred (trm_call msg)) = Some base" and tk: "take (unat ?n) base = ?bs"
    using body n by (auto simp: auth_body_def sys_bytes_def split: option.splits)
  have l: "length ?bs = unat ?n" by (simp add: length_sys_bytes n)
  have le: "unat ?n \<le> length base" using arg_cong [OF tk, of length] l by simp
  have rd: "rd (wr m p base) p (unat ?n) = ?bs"
    using tk take_rd [OF le, of "wr m p base" p] by simp
  show ?thesis
  proof (cases "p mod 4 = 0")
    case True
    let ?x = "xdrmem_create (wr m p base) p 0 XDR_DECODE"
    have x: "x_mem ?x = wr m p base" by (simp add: xdrmem_create_def)
    have rd': "rd (wr m p base) p (unat ?n) = ?bs @ []" using rd by simp
    have pd: "length (replicate (pad (length s)) (0 :: byte)) = pad (length s)" by simp
    note at = sys_bytes_at [OF rd' s(1) pd s(2)]
    show ?thesis
      unfolding svcauth_unix_aligned [OF True p b ok x] svcauth_inline_words [OF ok] x Let_def at(2)
      using s at(8) by (simp add: at(1-7) auth_stats received_time_def True)
  next
    case False
    have a: "aup_machname (area_aup ?a) = Some (area_machname ?a)" "aup_gids (area_aup ?a) = Some (area_gids ?a)"
      by (simp_all add: area_aup_def)
    have o: "length s < length (area_machname ?a)" "length gs \<le> length (area_gids ?a)" using ok s by (simp_all add: area_ok_def)
    have rd2: "rd (wr m p base) p (length ?bs) = ?bs" using rd l by simp
    have le2: "length ?bs \<le> unat ?n" using l by simp
    note d = ald.decodes_authunix_block [OF a s(1) o(1) s(2) o(2)] und.decodes_authunix_block [OF a s(1) o(1) s(2) o(2)]
    obtain x where "xdr_authunix_parms avail (xdrmem_create (wr m p base) p ?n XDR_DECODE) (area_aup ?a) = Some (True, x,
        \<lparr>aup_time = ucast t, aup_machname = Some (s @ 0 # drop (Suc (length s)) (area_machname ?a)), aup_uid = uid, aup_gid = gid,
          aup_len = of_nat (length gs), aup_gids = Some (gs @ drop (length gs) (area_gids ?a))\<rparr>)"
      by (rule xdrmem_decode [OF d p le2 rd2])
    then show ?thesis
      using False b by (simp add: svcauth_unix_def XDR_INLINE_unaligned Let_def aup_area_def sys_area_def received_time_def)
        (auto intro!: arg_cong2 [where f = set_verf] auth_rqst.equality area.equality)
  qed
qed

lemma gss_authenticate_sys:
  assumes "oa_flavor (tcb_cred (trm_call msg)) = AUTH_SYS"
  shows "gss_authenticate gss avail m p auths rqst msg = do {
    (s, r) \<leftarrow> svcauth_unix avail m p (rqst\<lparr>rq_cred := tcb_cred (trm_call msg), xp_auth_none := True,
           xp_verf := (xp_verf rqst)\<lparr>oa_flavor := oa_flavor null_auth, oa_length := 0\<rparr>\<rparr>) msg;
    Some (s, False, r) }"
proof -
  have "AUTH_SYS \<noteq> AUTH_NONE" by (simp add: AUTH_NONE_def AUTH_SYS_def)
  with assms show ?thesis by (simp add: gss_authenticate_def Let_def)
qed

text \<open>
  C12: A program that authenticates itself with \<open>authunix_create\<close> is known to the server by exactly what
  it gave: for a name of at most 255 characters and at most 16 groups a handle is made where memory
  can be had, and a call
  that carries the handle's credential, in a block at any address, passes \<open>_gss_authenticate\<close> with
  the name, the ids and the groups in the request, in line or not.  The time is that of the handle
  when it lies before \<open>2 ^ 31\<close>; in any case it is the low 32 bits of it, sign-extended where the
  block is aligned and zero-extended where it is not.
\<close>

theorem authunix_accepted:
  assumes ae: "auth_env_ok ae" and name: "0 \<in> set machname" "strlen machname \<le> 255"
    and len: "unat len \<le> 16" "unat len \<le> length gids"
  shows "\<exists>au. authunix_create ae machname uid gid len gids = Some (Inr au) \<and>
    (\<forall>gss avail m p auths rqst (msg :: ('s, 'w) trpc_msg). p \<noteq> 0 \<and> area_ok (rq_clntcred rqst) \<and> oa_flavor (tcb_cred (trm_call msg)) = oa_flavor (ah_cred au) \<and>
        oa_length (tcb_cred (trm_call msg)) = oa_length (ah_cred au) \<and> auth_body (tcb_cred (trm_call msg)) = auth_body (ah_cred au) \<longrightarrow>
      (\<exists>r. gss_authenticate gss avail m p auths rqst msg = Some (AUTH_OK, False, r) \<and>
        rq_clntcred r = sys_area (received_time p (ucast (ae_now ae))) (cstr machname) uid gid (take (unat len) gids) (rq_clntcred rqst)
        \<and> (ae_now ae < 2 ^ 31 \<longrightarrow> received_time p (ucast (ae_now ae)) = ae_now ae)))"
proof -
  have av: "\<forall>n \<le> 464. ae_avail ae n" and a: "ae_mymem ae \<noteq> 0" "ae_marshed ae \<noteq> 0" using ae by (simp_all add: auth_env_ok_def)
  let ?s = "cstr machname" and ?gs = "take (unat len) gids" and ?t = "ucast (ae_now ae) :: 32 word"
  have s: "length ?s \<le> 255" "length ?gs \<le> 16" using name(2) len by (simp_all add: strlen_def)
  have time: "received_time p ?t = ae_now ae" if now: "ae_now ae < 2 ^ 31" for p
  proof -
    have t: "(ucast ?t :: 64 word) = ae_now ae"
      using now by (intro ucast_low_iff [THEN iffD2]) (simp add: word_less_nat_alt)
    have "unat ?t = unat (ae_now ae) mod 2 ^ 32" by (simp add: unsigned_ucast_eq take_bit_eq_mod)
    then have "unat ?t < 2 ^ 31" using now by (simp add: word_less_nat_alt)
    then show ?thesis using t by (simp add: received_time_def scast_low)
  qed
  obtain au where au: "authunix_create ae machname uid gid len gids = Some (Inr au)" "\<not> ah_short au"
    "au_origcred au = sys_cred ?t ?s uid gid ?gs"
    by (rule authunix_create_ok [OF av name len a])
  have c: "ah_cred au = sys_cred ?t ?s uid gid ?gs" using au(2,3) by (simp add: ah_cred_def)
  have fl: "oa_flavor (ah_cred au) = AUTH_SYS" by (simp add: c sys_cred_def Let_def)
  note v = sys_cred_valid [OF s, of ?t uid gid]
  have main: "\<exists>r. gss_authenticate gss avail m p auths rqst msg = Some (AUTH_OK, False, r) \<and>
        rq_clntcred r = sys_area (received_time p ?t) ?s uid gid ?gs (rq_clntcred rqst)
        \<and> (ae_now ae < 2 ^ 31 \<longrightarrow> received_time p ?t = ae_now ae)"
    if p: "p \<noteq> 0" and ok: "area_ok (rq_clntcred rqst)" and f: "oa_flavor (tcb_cred (trm_call msg)) = oa_flavor (ah_cred au)"
      "oa_length (tcb_cred (trm_call msg)) = oa_length (ah_cred au)" "auth_body (tcb_cred (trm_call msg)) = auth_body (ah_cred au)"
    for gss avail m p auths rqst and msg :: "('s, 'w) trpc_msg"
  proof -
    let ?r = "rqst\<lparr>rq_cred := tcb_cred (trm_call msg), xp_auth_none := True,
           xp_verf := (xp_verf rqst)\<lparr>oa_flavor := oa_flavor null_auth, oa_length := 0\<rparr>\<rparr>"
    have body: "auth_body (tcb_cred (trm_call msg)) = sys_bytes ?t ?s (replicate (pad (length ?s)) 0) uid gid ?gs"
      by (simp only: f(3) c v(2))
    have n: "unat (oa_length (tcb_cred (trm_call msg))) = 20 + length ?s + pad (length ?s) + 4 * length ?gs"
      by (simp only: f(2) c v(3))
    have fl1: "oa_flavor (tcb_cred (trm_call msg)) = AUTH_SYS" by (simp only: f(1) fl)
    have ok': "area_ok (rq_clntcred ?r)" using ok by simp
    note u = svcauth_unix_sys_cred [OF body n s p ok', where avail = avail and m = m]
    show ?thesis
      unfolding gss_authenticate_sys [OF fl1] u by (simp add: set_verf_def time)
  qed
  show ?thesis
    by (intro exI [of _ au] conjI allI impI, rule au(1), elim conjE, rule main)
qed

text \<open>Environment, request and message for the witnesses.\<close>

definition env0 :: auth_env where
  "env0 = \<lparr>ae_avail = \<lambda>_. True, ae_mem = \<lambda>_. 0, ae_mymem = 1024, ae_marshed = 2048, ae_cred = 3072, ae_verf = 4096, ae_now = 7\<rparr>"

definition rqst0 :: auth_rqst where
  "rqst0 = \<lparr>rq_cred = null_auth, rq_clntcred = \<lparr>area_time = 0, area_uid = 0, area_gid = 0, area_len = 0,
     area_machname = replicate 256 0, area_gids = replicate 16 0\<rparr>, xp_verf = null_auth, xp_auth_none = False\<rparr>"

definition msg_with :: "opaque_auth \<Rightarrow> (unit, unit) trpc_msg" where
  "msg_with c = trm_call_update (tcb_cred_update (\<lambda>_. c)) (zero_tmsg ())"

lemma env0_ok: "auth_env_ok env0" "ae_now env0 < 2 ^ 31" by (simp_all add: auth_env_ok_def env0_def)

lemma rqst0_ok: "area_ok (rq_clntcred rqst0)" by (simp add: area_ok_def rqst0_def)

theorem authunix_accepted_witness:
  "\<exists>au r. authunix_create env0 [104, 0] 10 20 1 [30] = Some (Inr au) \<and>
    gss_authenticate (\<lambda>_ _ _. None) (\<lambda>_. True) (\<lambda>_. 0) 8190 [] rqst0 (msg_with (ah_cred au)) = Some (AUTH_OK, False, r) \<and>
    area_uid (rq_clntcred r) = 10 \<and> area_time (rq_clntcred r) = 7"
proof -
  have n: "(0 :: byte) \<in> set [104, 0]" "strlen [104, 0] \<le> 255" "unat (1 :: 32 word) \<le> 16" "unat (1 :: 32 word) \<le> length [30 :: 32 word]"
    by (simp_all add: strlen_def cstr_def)
  obtain au where au: "authunix_create env0 [104, 0] 10 20 1 [30] = Some (Inr au)"
    and all: "\<forall>gss avail m p auths rqst (msg :: (unit, unit) trpc_msg). p \<noteq> 0 \<and> area_ok (rq_clntcred rqst) \<and>
        oa_flavor (tcb_cred (trm_call msg)) = oa_flavor (ah_cred au) \<and>
        oa_length (tcb_cred (trm_call msg)) = oa_length (ah_cred au) \<and> auth_body (tcb_cred (trm_call msg)) = auth_body (ah_cred au) \<longrightarrow>
      (\<exists>r. gss_authenticate gss avail m p auths rqst msg = Some (AUTH_OK, False, r) \<and>
        rq_clntcred r = sys_area (received_time p (ucast (ae_now env0))) (cstr [104, 0]) 10 20 (take (unat (1 :: 32 word)) [30]) (rq_clntcred rqst)
        \<and> (ae_now env0 < 2 ^ 31 \<longrightarrow> received_time p (ucast (ae_now env0)) = ae_now env0))"
    using authunix_accepted [OF env0_ok(1) n, of 10 20] by (elim exE conjE) (rule that)
  have "\<exists>r. gss_authenticate (\<lambda>_ _ _. None) (\<lambda>_. True) (\<lambda>_. 0) 8190 [] rqst0 (msg_with (ah_cred au)) = Some (AUTH_OK, False, r) \<and>
        rq_clntcred r = sys_area (received_time 8190 (ucast (ae_now env0))) (cstr [104, 0]) 10 20 (take (unat (1 :: 32 word)) [30]) (rq_clntcred rqst0)
        \<and> (ae_now env0 < 2 ^ 31 \<longrightarrow> received_time 8190 (ucast (ae_now env0)) = ae_now env0)"
    by (rule all [rule_format]) (simp add: rqst0_ok msg_with_def)
  then obtain r where "gss_authenticate (\<lambda>_ _ _. None) (\<lambda>_. True) (\<lambda>_. 0) 8190 [] rqst0 (msg_with (ah_cred au)) = Some (AUTH_OK, False, r)"
    "area_uid (rq_clntcred r) = 10" "area_time (rq_clntcred r) = 7" using env0_ok(2) by (auto simp: sys_area_def env0_def)
  with au show ?thesis by blast
qed

text \<open>
  What happens to a handle between two calls: the verifier of a reply is validated, whatever it
  holds, or the credential is refreshed after a refused call, each in a state of the world of its
  own.  A short-hand credential that is taken over has at most 384 bytes: a longer one does not fit
  into \<open>au_marshed\<close> beside the verifier.
\<close>

inductive handle_step :: "audata \<Rightarrow> audata \<Rightarrow> bool" where
  plain: "authunix_validate ae au v = Some (ok, au') \<Longrightarrow> oa_flavor v \<noteq> AUTH_SHORT \<Longrightarrow> handle_step au au'"
| short: "authunix_validate ae au v = Some (ok, au') \<Longrightarrow> auth_env_ok ae \<Longrightarrow> oa_flavor v = AUTH_SHORT \<Longrightarrow>
    (ah_short au' \<Longrightarrow> oa_length (au_shcred au') \<le> 384) \<Longrightarrow> handle_step au au'"
| refreshed: "authunix_refresh ae au = Some (ok, au') \<Longrightarrow> auth_env_ok ae \<Longrightarrow> handle_step au au'"

inductive_cases handle_stepE: "handle_step au au'"

lemma handle_step_keeps: "handle_step au au' \<Longrightarrow> auth_of s uid gid gs au \<Longrightarrow> auth_of s uid gid gs au'"
proof (induction rule: handle_step.induct)
  case (plain ae au v ok au')
  then show ?case by (simp add: authunix_validate_other)
next
  case (short ae au v ok au')
  then have "ae_marshed ae \<noteq> 0" by (simp add: auth_env_ok_def)
  from authunix_validate_keeps [OF short(5,1) this] short(4) show ?case by blast
next
  case (refreshed ae au ok au')
  obtain au2 where "authunix_refresh ae au = Some (ah_short au, au2)" "auth_of s uid gid gs au2"
    by (rule authunix_refresh_keeps [OF refreshed(3,2)])
  with refreshed(1) show ?case by simp
qed

text \<open>
  C17: However often the credential is refreshed and whatever verifiers the server sends, short-hand
  ones with a malformed body or a null one among them, a handle stays the handle of the name, ids
  and groups it was made for: its original credential is theirs, and what \<open>authunix_marshal\<close> puts on
  any stream is the credential in force, that one or the short hand, and the null verifier,
  complete.  The next verifier, whose block is null only when its length is less than a word, is
  answered too, and accepted.  Memory can be had throughout.  Left out are short-hand credentials of
  385 to 400 bytes, which do not fit into \<open>au_marshed\<close> beside the verifier.
\<close>

theorem authunix_keeps_identity:
  assumes ae: "auth_env_ok ae" and name: "0 \<in> set machname" "strlen machname \<le> 255"
    and len: "unat len \<le> 16" "unat len \<le> length gids" and au0: "authunix_create ae machname uid gid len gids = Some (Inr au0)"
    and steps: "handle_step\<^sup>*\<^sup>* au0 au"
  shows "(\<exists>t. au_origcred au = sys_cred t (cstr machname) uid gid (take (unat len) gids)) \<and>
    valid_auth (ah_cred au) \<and>
    (\<exists>buf n. take (unat n) buf = auth_bytes (ah_cred au) @ auth_bytes null_auth \<and> unat n \<le> length buf \<and>
      authunix_marshal au (xdrs :: 's XDR) = XDR_PUTBYTES xdrs buf n) \<and>
    (\<forall>ae' v. verf_ok v \<longrightarrow> (\<exists>au'. authunix_validate ae' au v = Some (True, au')))"
proof -
  have av: "\<forall>n \<le> 464. ae_avail ae n" and a: "ae_mymem ae \<noteq> 0" "ae_marshed ae \<noteq> 0" using ae by (simp_all add: auth_env_ok_def)
  have "auth_of (cstr machname) uid gid (take (unat len) gids) au0"
    by (rule authunix_create_ok [OF av name len a, of uid gid]) (use au0 in simp)
  with steps have o: "auth_of (cstr machname) uid gid (take (unat len) gids) au"
    by (induction rule: rtranclp_induct) (auto dest: handle_step_keeps)
  have l: "unat (au_mpos au) \<le> length (au_marshed au)"
  proof -
    have f: "take (unat (au_mpos au)) (au_marshed au) = auth_bytes (ah_cred au) @ auth_bytes null_auth"
      "unat (au_mpos au) = length (auth_bytes (ah_cred au)) + 8" using o unfolding auth_of_def by blast+
    have "min (length (au_marshed au)) (unat (au_mpos au)) = unat (au_mpos au)"
      using arg_cong [OF f(1), of length] f(2) by (simp only: length_take length_append) (simp add: null_auth_wire)
    then show ?thesis by (rule min.absorb_iff2 [THEN iffD2])
  qed
  have next_verf: "\<exists>au'. authunix_validate ae' au v = Some (True, au')" if "verf_ok v" for ae' v
    by (rule authunix_validate_answers [OF o that, of ae']) blast
  have "(\<exists>t. au_origcred au = sys_cred t (cstr machname) uid gid (take (unat len) gids)) \<and> valid_auth (ah_cred au) \<and>
    (\<exists>buf n. take (unat n) buf = auth_bytes (ah_cred au) @ auth_bytes null_auth \<and> unat n \<le> length buf \<and>
      authunix_marshal au xdrs = XDR_PUTBYTES xdrs buf n)"
    using o l
    by (auto simp: auth_of_def authunix_marshal_def intro!: exI [of _ "au_marshed au"] exI [of _ "au_mpos au"])
  then show ?thesis using next_verf by blast
qed

text \<open>A short-hand verifier without a body.\<close>

definition no_short :: opaque_auth where
  "no_short = \<lparr>oa_flavor = AUTH_SHORT, oa_base = None, oa_length = 0\<rparr>"

theorem authunix_keeps_identity_witness:
  "\<exists>au0 au. authunix_create env0 [104, 0] 10 20 1 [30] = Some (Inr au0) \<and>
    authunix_validate env0 au0 no_short = Some (True, au) \<and> \<not> ah_short au \<and>
    (\<exists>t. au_origcred au = sys_cred t [104] 10 20 [30]) \<and> valid_auth (ah_cred au)"
proof -
  have av: "\<forall>n \<le> 464. ae_avail env0 n" and a: "ae_mymem env0 \<noteq> 0" "ae_marshed env0 \<noteq> 0" "ae_verf env0 \<noteq> 0"
    by (simp_all add: env0_def)
  have n: "(0 :: byte) \<in> set [104, 0]" "strlen [104, 0] \<le> 255" "unat (1 :: 32 word) \<le> 16" "unat (1 :: 32 word) \<le> length [30 :: 32 word]"
    by (simp_all add: strlen_def cstr_def)
  have c: "cstr [104, 0 :: byte] = [104]" by (simp add: cstr_def)
  obtain au0 where au0: "authunix_create env0 [104, 0] 10 20 1 [30] = Some (Inr au0)" and of: "auth_of (cstr [104, 0]) 10 20 (take (unat (1 :: 32 word)) [30]) au0"
    by (rule authunix_create_ok [OF av n a(1,2)])
  have v: "oa_flavor no_short = AUTH_SHORT" "verf_ok no_short" by (simp_all add: no_short_def verf_ok_def)
  obtain au where au: "authunix_validate env0 au0 no_short = Some (True, au)"
    by (rule authunix_validate_answers [OF of v(2), of env0])
  have "\<exists>x' c. xdr_opaque_auth (ae_avail env0) (stream_on env0 (ae_verf env0) [] 0 XDR_DECODE) c0 = Some (False, x', c)" for c0
    by (simp add: stream_on_def env0_def xdrmem_create_def xdr_opaque_auth_def fld_def xdr_enum_def xdr_int_def xdr_via_long_def
        XDR_GETLONG_def xdrmem_ops_aligned_def xdrmem_getlong_aligned_def xst_def)
  then obtain x' cc where "xdr_opaque_auth (ae_avail env0) (stream_on env0 (ae_verf env0) [] 0 XDR_DECODE) ((au_shcred au0)\<lparr>oa_base := None\<rparr>) =
      Some (False, x', cc)" by blast
  then have s: "\<not> ah_short au"
    using au by (auto simp: authunix_validate_def no_short_def Let_def bind_eq_Some_conv marshal_new_auth_def split: if_splits)
  have "handle_step au0 au" by (rule handle_step.short [OF au env0_ok(1) v(1)]) (use s in simp)
  then have "handle_step\<^sup>*\<^sup>* au0 au" by simp
  from authunix_keeps_identity [OF env0_ok(1) n au0 this] au0 au s show ?thesis by (simp add: c) blast
qed

theorem svcauth_unix_accepts_witness:
  "\<exists>r. svcauth_unix (\<lambda>_. True) (\<lambda>_. 0) 8192 rqst0 (msg_with \<lparr>oa_flavor = AUTH_SYS, oa_base = Some [0, 0, 0, 1], oa_length = 4\<rparr>) =
    Some (AUTH_BADCRED, r) \<and> xp_verf r = null_auth"
proof -
  let ?msg = "msg_with \<lparr>oa_flavor = AUTH_SYS, oa_base = Some [0, 0, 0, 1], oa_length = 4\<rparr>"
  have no: "\<not> (\<exists>t s pd uid gid gs rest. take (unat (4 :: 32 word)) [0, 0, 0, 1] = sys_bytes t s pd uid gid gs @ rest
        \<and> length s \<le> 255 \<and> length pd = pad (length s) \<and> length gs \<le> 16)"
  proof
    assume "\<exists>t s pd uid gid gs rest. take (unat (4 :: 32 word)) [0, 0, 0, 1] = sys_bytes t s pd uid gid gs @ rest
        \<and> length s \<le> 255 \<and> length pd = pad (length s) \<and> length gs \<le> 16"
    then obtain t s pd uid gid gs rest where "take (unat (4 :: 32 word)) [0, 0, 0, 1] = sys_bytes t s pd uid gid gs @ rest" by blast
    from arg_cong [OF this, of length] show False by (simp add: length_sys_bytes)
  qed
  have b: "oa_base (tcb_cred (trm_call ?msg)) = Some [0, 0, 0, 1]" "oa_length (tcb_cred (trm_call ?msg)) = 4"
    "unat (4 :: 32 word) \<le> length [0, 0, 0, 1 :: byte]" by (simp_all add: msg_with_def)
  have p: "(8192 :: addr) mod 4 = 0" "(8192 :: addr) \<noteq> 0" by simp_all
  have v: "xp_verf rqst0 = null_auth" by (simp add: rqst0_def)
  show ?thesis
    using svcauth_unix_accepts [OF p b rqst0_ok, of "\<lambda>_. True" "\<lambda>_. 0"] no unfolding v by (simp only: if_False)
qed

text \<open>
  C21: A flavor the library does not know, once added with \<open>svc_auth_reg\<close>, is authenticated by its handler
  on a request with a null verifier, and adding it leaves the authentication of every other flavor
  as it was; a second handler for it is refused with 1 and not used.
\<close>

theorem svc_auth_reg_dispatches:
  assumes r: "svc_auth_reg avail f h auths = (0, auths')" and f: "oa_flavor (tcb_cred (trm_call msg)) = f"
    and f': "oa_flavor (tcb_cred (trm_call msg')) \<noteq> f"
  shows "gss_authenticate gss av m p auths' rqst msg = do {
        (s, r) \<leftarrow> h (rqst\<lparr>rq_cred := tcb_cred (trm_call msg), xp_auth_none := True,
           xp_verf := (xp_verf rqst)\<lparr>oa_flavor := 0, oa_length := 0\<rparr>\<rparr>) msg;
        Some (s, False, r) }
    \<and> gss_authenticate gss av m p auths' rqst msg' = gss_authenticate gss av m p auths rqst msg'
    \<and> svc_auth_reg avail' f h' auths' = (1, auths')"
proof -
  have n: "f \<notin> {AUTH_NONE, AUTH_SYS, AUTH_SHORT, AUTH_DES}" "f \<noteq> RPCSEC_GSS"
    and a: "auths' = \<lparr>as_flavor = f, as_handler = h\<rparr> # auths"
    using r by (auto simp: svc_auth_reg_def split: if_splits)
  show ?thesis
  proof (intro conjI)
    show "gss_authenticate gss av m p auths' rqst msg = do {
        (s, r) \<leftarrow> h (rqst\<lparr>rq_cred := tcb_cred (trm_call msg), xp_auth_none := True,
           xp_verf := (xp_verf rqst)\<lparr>oa_flavor := 0, oa_length := 0\<rparr>\<rparr>) msg;
        Some (s, False, r) }"
      using n f by (simp add: gss_authenticate_def a Let_def null_auth_def)
    show "gss_authenticate gss av m p auths' rqst msg' = gss_authenticate gss av m p auths rqst msg'"
      using f' by (simp add: gss_authenticate_def a Let_def)
    show "svc_auth_reg avail' f h' auths' = (1, auths')" using n by (simp add: svc_auth_reg_def a)
  qed
qed

theorem svc_auth_reg_dispatches_witness:
  "gss_authenticate (\<lambda>_ _ _. None) (\<lambda>_. True) (\<lambda>_. 0) 8192 [\<lparr>as_flavor = 9, as_handler = \<lambda>r msg. Some (AUTH_TOOWEAK, r)\<rparr>]
    rqst0 (msg_with (null_auth\<lparr>oa_flavor := 9\<rparr>)) =
    Some (AUTH_TOOWEAK, False, rqst0\<lparr>rq_cred := null_auth\<lparr>oa_flavor := 9\<rparr>, xp_auth_none := True,
      xp_verf := null_auth\<lparr>oa_flavor := 0, oa_length := 0\<rparr>\<rparr>)"
proof -
  have r: "svc_auth_reg (\<lambda>_. True) 9 (\<lambda>r (msg :: (unit, unit) trpc_msg). Some (AUTH_TOOWEAK, r)) [] =
      (0, [\<lparr>as_flavor = 9, as_handler = \<lambda>r msg. Some (AUTH_TOOWEAK, r)\<rparr>])"
    by (simp add: svc_auth_reg_def AUTH_NONE_def AUTH_SYS_def AUTH_SHORT_def AUTH_DES_def RPCSEC_GSS_def)
  have f: "oa_flavor (tcb_cred (trm_call (msg_with (null_auth\<lparr>oa_flavor := 9\<rparr>)))) = 9"
    "oa_flavor (tcb_cred (trm_call (msg_with null_auth))) \<noteq> 9" by (simp_all add: msg_with_def null_auth_def)
  show ?thesis
    using svc_auth_reg_dispatches [OF r f, of "\<lambda>_ _ _. None" "\<lambda>_. True" "\<lambda>_. 0" 8192 rqst0]
    by (simp add: msg_with_def rqst0_def)
qed

end
