(* ===== verification/Svc.thy ===== *)
theory Svc
  imports Svc_Auth Xdr_Rec
begin

text \<open>
  The server side of the library, \<open>lib/libtirpc/src/svc.c\<close>: the table of transports, the list of
  services (callouts), the replies and the reading of requests.  A \<open>SVCXPRT *\<close> is an identifier;
  \<open>xprts\<close> maps it to the transport while it exists, and an operation on one that has been
  destroyed is not defined.  What the operations of a transport do (\<open>xp_recv\<close>, \<open>xp_reply\<close>,
  \<open>xp_stat\<close>, \<open>xp_destroy\<close>), what the dispatch routines do and the binder's answers are functions
  of the environment; they act on the whole state, so that a dispatch routine may register,
  unregister or destroy.  A dispatch routine is an identifier too, for the code compares them.
\<close>

section \<open>State\<close>

type_synonym xptr = nat

record sxprt =
  sx_fd :: int
  sx_port :: "16 word"
  sx_netid :: "string option"
  sx_verf :: opaque_auth

record 'd callout =
  sc_prog :: "32 word"
  sc_vers :: "32 word"
  sc_netid :: "string option"
  sc_dispatch :: 'd

record pollfd =
  pf_fd :: int
  pf_events :: "16 word"

text \<open>\<open>svc_xports\<close> is \<open>NULL\<close> until the first transport is registered.\<close>

record ('d, 'w) svc_state =
  svc_xports :: "xptr option list option"
  svc_fdset :: "int set"
  svc_maxfd :: int
  svc_pollfd :: "pollfd list"
  svc_head :: "'d callout list"
  svc_maxrec :: int
  xprts :: "xptr \<rightharpoonup> sxprt"
  svc_world :: 'w

record svc_request =
  sr_prog :: "32 word"
  sr_vers :: "32 word"
  sr_proc :: "32 word"
  sr_auth :: auth_rqst
  sr_xprt :: xptr

text \<open>
  \<open>local_msg\<close> is what a local \<open>struct rpc_msg\<close> holds before it is set; in that of
  \<open>svc_getreq_common\<close> the credential and the verifier point to blocks of their own, the
  credential's at \<open>cred_at\<close>.
\<close>

record ('d, 's, 'v, 'w) svc_env =
  dtablesize :: nat
  sv_avail :: "nat \<Rightarrow> bool"
  rpcgettp :: "int \<Rightarrow> string option"
  rpcb_set_call :: "32 word \<Rightarrow> 32 word \<Rightarrow> string option \<Rightarrow> xptr \<Rightarrow> ('d, 'w) svc_state \<Rightarrow> bool \<times> ('d, 'w) svc_state"
  rpcb_unset_call :: "32 word \<Rightarrow> 32 word \<Rightarrow> ('d, 'w) svc_state \<Rightarrow> ('d, 'w) svc_state"
  pmap_set_call :: "64 word \<Rightarrow> 64 word \<Rightarrow> 32 word \<Rightarrow> 16 word \<Rightarrow> ('d, 'w) svc_state \<Rightarrow> bool \<times> ('d, 'w) svc_state"
  pmap_unset_call :: "64 word \<Rightarrow> 64 word \<Rightarrow> ('d, 'w) svc_state \<Rightarrow> ('d, 'w) svc_state"
  xp_recv :: "xptr \<Rightarrow> ('s, 'v) trpc_msg \<Rightarrow> ('d, 'w) svc_state \<Rightarrow> (bool \<times> ('s, 'v) trpc_msg \<times> ('d, 'w) svc_state) option"
  xp_reply :: "xptr \<Rightarrow> ('s, 'v) trpc_msg \<Rightarrow> ('d, 'w) svc_state \<Rightarrow> (bool \<times> ('d, 'w) svc_state) option"
  xp_stat :: "xptr \<Rightarrow> ('d, 'w) svc_state \<Rightarrow> (xprt_stat \<times> ('d, 'w) svc_state) option"
  xp_destroy :: "xptr \<Rightarrow> ('d, 'w) svc_state \<Rightarrow> ('d, 'w) svc_state option"
  run_dispatch :: "'d \<Rightarrow> svc_request \<Rightarrow> xptr \<Rightarrow> ('d, 'w) svc_state \<Rightarrow> ('d, 'w) svc_state option"
  gss :: "('s, 'v) gss_handler"
  auths :: "('s, 'v) authsvc list"
  cred_mem :: mem
  cred_at :: addr
  cred_room :: area
  local_msg :: "('s, 'v) trpc_msg"

text \<open>An operation of a transport; the transport must exist.\<close>

definition alive :: "xptr \<Rightarrow> ('d, 'w) svc_state \<Rightarrow> sxprt option" where
  "alive xprt st = xprts st xprt"

definition SVC_RECV where
  "SVC_RECV E xprt msg st = do { _ \<leftarrow> alive xprt st; xp_recv E xprt msg st }"

definition SVC_STAT where
  "SVC_STAT E xprt st = do { _ \<leftarrow> alive xprt st; xp_stat E xprt st }"

definition SVC_REPLY where
  "SVC_REPLY E xprt msg st = do { _ \<leftarrow> alive xprt st; xp_reply E xprt msg st }"

definition SVC_DESTROY where
  "SVC_DESTROY E xprt st = do { _ \<leftarrow> alive xprt st; xp_destroy E xprt st }"

section \<open>Transports\<close>

definition FD_SETSIZE :: int where "FD_SETSIZE = 1024"

text \<open>\<open>POLLIN | POLLPRI | POLLRDNORM | POLLRDBAND\<close>.\<close>

definition poll_events :: "16 word" where "poll_events = 0xC3"

text \<open>The first free slot of the poll list, if it has one.\<close>

fun poll_slot :: "int \<Rightarrow> pollfd list \<Rightarrow> pollfd list option" where
  "poll_slot sock [] = None"
| "poll_slot sock (p # ps) =
    (if pf_fd p = -1 then Some (p\<lparr>pf_fd := sock, pf_events := poll_events\<rparr> # ps)
     else map_option ((#) p) (poll_slot sock ps))"

definition xprt_register :: "('d, 's, 'v, 'w) svc_env \<Rightarrow> xptr \<Rightarrow> ('d, 'w) svc_state \<Rightarrow> ('d, 'w) svc_state option" where
  "xprt_register E xprt st = do {
     x \<leftarrow> alive xprt st;
     let sock = sx_fd x;
     case (case svc_xports st of
         None \<Rightarrow> if sv_avail E (8 * dtablesize E) then Some (replicate (dtablesize E) None) else None
       | Some tab \<Rightarrow> Some tab) of
       None \<Rightarrow> Some st
     | Some tab \<Rightarrow>
         if sock < int (dtablesize E) then
           if sock < 0 then None
           else let
             st = st\<lparr>svc_xports := Some (tab[nat sock := Some xprt])\<rparr>;
             st = (if sock < FD_SETSIZE then st\<lparr>svc_fdset := insert sock (svc_fdset st),
                     svc_maxfd := (if svc_maxfd st > sock then svc_maxfd st else sock)\<rparr> else st)
           in (case poll_slot sock (svc_pollfd st) of
                Some ps \<Rightarrow> Some (st\<lparr>svc_pollfd := ps\<rparr>)
              | None \<Rightarrow>
                  if sv_avail E (8 * (length (svc_pollfd st) + 1)) then
                    Some (st\<lparr>svc_pollfd := svc_pollfd st @ [\<lparr>pf_fd = sock, pf_events = poll_events\<rparr>]\<rparr>)
                  else Some st)
         else Some (st\<lparr>svc_xports := Some tab\<rparr>) }"

text \<open>\<open>for (svc_maxfd--; svc_maxfd >= 0; svc_maxfd--) if (__svc_xports[svc_maxfd]) break;\<close>\<close>

fun lower_maxfd :: "xptr option list \<Rightarrow> nat \<Rightarrow> int" where
  "lower_maxfd tab 0 = -1"
| "lower_maxfd tab (Suc n) = (if tab ! n \<noteq> None then int n else lower_maxfd tab n)"

text \<open>Both \<open>xprt_unregister\<close> and \<open>__xprt_unregister_unlocked\<close>, which differ in the lock only.\<close>

definition xprt_unregister :: "('d, 's, 'v, 'w) svc_env \<Rightarrow> xptr \<Rightarrow> ('d, 'w) svc_state \<Rightarrow> ('d, 'w) svc_state option" where
  "xprt_unregister E xprt st = do {
     x \<leftarrow> alive xprt st;
     let sock = sx_fd x;
     if sock < int (dtablesize E) then
       if sock < 0 then None
       else do {
         tab \<leftarrow> svc_xports st;
         if tab ! nat sock = Some xprt then
           let tab = tab[nat sock := None];
               st = st\<lparr>svc_xports := Some tab\<rparr>;
               st = (if sock < FD_SETSIZE then
                       let st = st\<lparr>svc_fdset := svc_fdset st - {sock}\<rparr>
                       in if sock \<ge> svc_maxfd st then
                            st\<lparr>svc_maxfd := (if svc_maxfd st \<le> 0 then svc_maxfd st - 1 else lower_maxfd tab (nat (svc_maxfd st)))\<rparr>
                          else st
                     else st)
           in Some (st\<lparr>svc_pollfd := map (\<lambda>p. if pf_fd p = sock then p\<lparr>pf_fd := -1\<rparr> else p) (svc_pollfd st)\<rparr>)
         else Some st }
     else Some st }"

section \<open>Services\<close>

text \<open>
  The first callout that matches, with the callouts before it, of which \<open>prev\<close> is the last, and
  those behind it.  A \<open>NULL\<close> netid on either side matches any.
\<close>

definition matches :: "32 word \<Rightarrow> 32 word \<Rightarrow> string option \<Rightarrow> 'd callout \<Rightarrow> bool" where
  "matches prog vers netid s \<longleftrightarrow> sc_prog s = prog \<and> sc_vers s = vers \<and>
     (netid = None \<or> sc_netid s = None \<or> netid = sc_netid s)"

fun svc_find ::
    "32 word \<Rightarrow> 32 word \<Rightarrow> string option \<Rightarrow> 'd callout list \<Rightarrow> ('d callout list \<times> 'd callout \<times> 'd callout list) option" where
  "svc_find prog vers netid [] = None"
| "svc_find prog vers netid (s # ss) =
    (if matches prog vers netid s then Some ([], s, ss)
     else map_option (\<lambda>(before, t, after). (s # before, t, after)) (svc_find prog vers netid ss))"

text \<open>
  The netid of a service: that of the transport, of \<open>nconf\<close>, or of the socket, copied with
  \<open>strdup\<close>; \<open>Some None\<close> is \<open>NULL\<close> with \<open>flag\<close> 0, and \<open>None\<close> a failed \<open>strdup\<close>.
\<close>

definition strdup :: "('d, 's, 'v, 'w) svc_env \<Rightarrow> string \<Rightarrow> string option" where
  "strdup E s = (if sv_avail E (length s + 1) then Some s else None)"

definition service_netid ::
    "('d, 's, 'v, 'w) svc_env \<Rightarrow> sxprt \<Rightarrow> string option option \<Rightarrow> (string option) option" where
  "service_netid E x nconf =
    (case sx_netid x of
       Some n \<Rightarrow> map_option Some (strdup E n)
     | None \<Rightarrow> (case nconf of
         Some (Some n) \<Rightarrow> map_option Some (strdup E n)
       | _ \<Rightarrow> (case rpcgettp E (sx_fd x) of
           Some n \<Rightarrow> map_option Some (strdup E n)
         | None \<Rightarrow> Some None)))"

definition sizeof_callout :: nat where "sizeof_callout = 32"

definition svc_reg ::
    "('d, 's, 'v, 'w) svc_env \<Rightarrow> xptr \<Rightarrow> 32 word \<Rightarrow> 32 word \<Rightarrow> 'd \<Rightarrow> string option option \<Rightarrow>
     ('d, 'w) svc_state \<Rightarrow> (bool \<times> ('d, 'w) svc_state) option" where
  "svc_reg E xprt prog vers dispatch nconf st = do {
     x \<leftarrow> alive xprt st;
     let rpcb_it = (\<lambda>st. case nconf of
         Some n \<Rightarrow> Some (rpcb_set_call E prog vers n xprt st)
       | None \<Rightarrow> Some (True, st));
     case service_netid E x nconf of
       None \<Rightarrow> Some (False, st)
     | Some netid \<Rightarrow>
         (case svc_find prog vers netid (svc_head st) of
            Some (_, s, _) \<Rightarrow> if sc_dispatch s = dispatch then rpcb_it st else Some (False, st)
          | None \<Rightarrow>
              if \<not> sv_avail E sizeof_callout then Some (False, st)
              else let
                st = st\<lparr>svc_head := \<lparr>sc_prog = prog, sc_vers = vers, sc_netid = netid, sc_dispatch = dispatch\<rparr> # svc_head st\<rparr>;
                st = (case netid of
                    Some n \<Rightarrow> if sx_netid x = None then st\<lparr>xprts := (xprts st)(xprt \<mapsto> x\<lparr>sx_netid := strdup E n\<rparr>)\<rparr> else st
                  | None \<Rightarrow> st)
              in rpcb_it st) }"

text \<open>The loop of \<open>svc_unreg\<close>: callouts are unlinked until none matches.\<close>

function unreg_loop :: "32 word \<Rightarrow> 32 word \<Rightarrow> 'd callout list \<Rightarrow> 'd callout list" where
  "unreg_loop prog vers ss = (case svc_find prog vers None ss of
     None \<Rightarrow> ss
   | Some (before, s, after) \<Rightarrow> unreg_loop prog vers (before @ after))"
  by pat_completeness auto

lemma svc_find_split: "svc_find prog vers netid ss = Some (before, s, after) \<Longrightarrow> ss = before @ s # after"
  by (induction ss arbitrary: before) (auto split: if_splits)

termination unreg_loop
  by (relation "measure (\<lambda>(prog, vers, ss). length ss)") (auto dest: svc_find_split)

definition svc_unreg :: "('d, 's, 'v, 'w) svc_env \<Rightarrow> 32 word \<Rightarrow> 32 word \<Rightarrow> ('d, 'w) svc_state \<Rightarrow> ('d, 'w) svc_state" where
  "svc_unreg E prog vers st =
    (let st = rpcb_unset_call E prog vers st
     in st\<lparr>svc_head := unreg_loop prog vers (svc_head st)\<rparr>)"

text \<open>The older interface, whose program and version are \<open>u_long\<close>s.  The callout has no netid.\<close>

definition svc_register ::
    "('d, 's, 'v, 'w) svc_env \<Rightarrow> xptr \<Rightarrow> 64 word \<Rightarrow> 64 word \<Rightarrow> 'd \<Rightarrow> 32 word \<Rightarrow>
     ('d, 'w) svc_state \<Rightarrow> (bool \<times> ('d, 'w) svc_state) option" where
  "svc_register E xprt prog vers dispatch protocol st = do {
     x \<leftarrow> alive xprt st;
     let pmap_it = (\<lambda>st. if protocol \<noteq> 0 then Some (pmap_set_call E prog vers protocol (sx_port x) st) else Some (True, st));
     case svc_find (ucast prog) (ucast vers) None (svc_head st) of
       Some (_, s, _) \<Rightarrow> if sc_dispatch s = dispatch then pmap_it st else Some (False, st)
     | None \<Rightarrow>
         if \<not> sv_avail E sizeof_callout then Some (False, st)
         else pmap_it (st\<lparr>svc_head :=
           \<lparr>sc_prog = ucast prog, sc_vers = ucast vers, sc_netid = None, sc_dispatch = dispatch\<rparr> # svc_head st\<rparr>) }"

definition svc_unregister :: "('d, 's, 'v, 'w) svc_env \<Rightarrow> 64 word \<Rightarrow> 64 word \<Rightarrow> ('d, 'w) svc_state \<Rightarrow> ('d, 'w) svc_state" where
  "svc_unregister E prog vers st =
    (case svc_find (ucast prog) (ucast vers) None (svc_head st) of
       None \<Rightarrow> st
     | Some (before, s, after) \<Rightarrow> pmap_unset_call E prog vers (st\<lparr>svc_head := before @ after\<rparr>))"

section \<open>Replies\<close>

definition accepted_msg ::
    "('d, 's, 'v, 'w) svc_env \<Rightarrow> sxprt \<Rightarrow> (('s, 'v) taccepted_reply \<Rightarrow> ('s, 'v) taccepted_reply) \<Rightarrow> ('s, 'v) trpc_msg" where
  "accepted_msg E x f = (local_msg E)\<lparr>trm_direction := REPLY, trm_reply :=
     (trm_reply (local_msg E))\<lparr>trp_stat := MSG_ACCEPTED,
       trp_acpt := f ((trp_acpt (trm_reply (local_msg E)))\<lparr>tar_verf := sx_verf x\<rparr>)\<rparr>\<rparr>"

definition svc_sendreply ::
    "('d, 's, 'v, 'w) svc_env \<Rightarrow> xptr \<Rightarrow> ('s, 'v) xdrproc_t \<Rightarrow> 'v \<Rightarrow> ('d, 'w) svc_state \<Rightarrow> (bool \<times> ('d, 'w) svc_state) option" where
  "svc_sendreply E xprt xdr_results xdr_location st = do {
     x \<leftarrow> alive xprt st;
     SVC_REPLY E xprt (accepted_msg E x
       (\<lambda>ar. ar\<lparr>tar_stat := SUCCESS, tar_where := xdr_location, tar_proc := Some xdr_results\<rparr>)) st }"

definition svcerr_accepted ::
    "enum_t \<Rightarrow> ('d, 's, 'v, 'w) svc_env \<Rightarrow> xptr \<Rightarrow> ('d, 'w) svc_state \<Rightarrow> ('d, 'w) svc_state option" where
  "svcerr_accepted stat E xprt st = do {
     x \<leftarrow> alive xprt st;
     (_, st) \<leftarrow> SVC_REPLY E xprt (accepted_msg E x (\<lambda>ar. ar\<lparr>tar_stat := stat\<rparr>)) st;
     Some st }"

definition svcerr_noproc where "svcerr_noproc = svcerr_accepted PROC_UNAVAIL"
definition svcerr_decode where "svcerr_decode = svcerr_accepted GARBAGE_ARGS"
definition svcerr_systemerr where "svcerr_systemerr = svcerr_accepted SYSTEM_ERR"
definition svcerr_noprog where "svcerr_noprog = svcerr_accepted PROG_UNAVAIL"

definition svcerr_progvers ::
    "('d, 's, 'v, 'w) svc_env \<Rightarrow> xptr \<Rightarrow> 32 word \<Rightarrow> 32 word \<Rightarrow> ('d, 'w) svc_state \<Rightarrow> ('d, 'w) svc_state option" where
  "svcerr_progvers E xprt low_vers high_vers st = do {
     x \<leftarrow> alive xprt st;
     (_, st) \<leftarrow> SVC_REPLY E xprt (accepted_msg E x
       (\<lambda>ar. ar\<lparr>tar_stat := PROG_MISMATCH, tar_low := low_vers, tar_high := high_vers\<rparr>)) st;
     Some st }"

definition svcerr_auth ::
    "('d, 's, 'v, 'w) svc_env \<Rightarrow> xptr \<Rightarrow> auth_stat \<Rightarrow> ('d, 'w) svc_state \<Rightarrow> ('d, 'w) svc_state option" where
  "svcerr_auth E xprt why st = do {
     (_, st) \<leftarrow> SVC_REPLY E xprt ((local_msg E)\<lparr>trm_direction := REPLY, trm_reply :=
       (trm_reply (local_msg E))\<lparr>trp_stat := MSG_DENIED,
         trp_rjct := (trp_rjct (trm_reply (local_msg E)))\<lparr>trj_stat := AUTH_ERROR, trj_why := why\<rparr>\<rparr>\<rparr>) st;
     Some st }"

definition svcerr_weakauth where
  "svcerr_weakauth E xprt st = svcerr_auth E xprt AUTH_TOOWEAK st"

section \<open>Requests\<close>

text \<open>
  The search for the service of a call: the callout whose routine is run, or whether the program
  was found at all and the lowest and highest version of it.
\<close>

fun find_callout ::
    "32 word \<Rightarrow> 32 word \<Rightarrow> 'd callout list \<Rightarrow> bool \<times> 32 word \<times> 32 word \<Rightarrow> 'd callout + bool \<times> 32 word \<times> 32 word" where
  "find_callout prog vers [] found = Inr found"
| "find_callout prog vers (s # ss) (prog_found, low_vers, high_vers) =
    (if sc_prog s = prog then
       if sc_vers s = vers then Inl s
       else find_callout prog vers ss
         (True, if sc_vers s < low_vers then sc_vers s else low_vers,
          if sc_vers s > high_vers then sc_vers s else high_vers)
     else find_callout prog vers ss (prog_found, low_vers, high_vers))"

text \<open>
  One received call, up to the label \<open>call_done\<close>; \<open>cred_room E\<close> is what the credential area at
  \<open>r.rq_clntcred\<close> holds before.  The result says whether the code came there by
  \<open>goto\<close>, past the test for a transport that has been disconnected meanwhile.
\<close>

definition serve_call ::
    "('d, 's, 'v, 'w) svc_env \<Rightarrow> xptr \<Rightarrow> ('s, 'v) trpc_msg \<Rightarrow> ('d, 'w) svc_state \<Rightarrow> (bool \<times> ('d, 'w) svc_state) option" where
  "serve_call E xprt msg st = do {
     x \<leftarrow> alive xprt st;
     let call = trm_call msg;
     (why, no_dispatch, r) \<leftarrow> gss_authenticate (gss E) (sv_avail E) (cred_mem E) (cred_at E) (auths E)
       \<lparr>rq_cred = tcb_cred call, rq_clntcred = cred_room E, xp_verf = sx_verf x, xp_auth_none = False\<rparr> msg;
     let st = st\<lparr>xprts := (xprts st)(xprt \<mapsto> x\<lparr>sx_verf := xp_verf r\<rparr>)\<rparr>;
     if why \<noteq> AUTH_OK then do { st \<leftarrow> svcerr_auth E xprt why st; Some (True, st) }
     else if no_dispatch then Some (True, st)
     else case find_callout (tcb_prog call) (tcb_vers call) (svc_head st) (False, -1, 0) of
       Inl s \<Rightarrow> do {
         st \<leftarrow> run_dispatch E (sc_dispatch s)
           \<lparr>sr_prog = tcb_prog call, sr_vers = tcb_vers call, sr_proc = tcb_proc call, sr_auth = r, sr_xprt = xprt\<rparr> xprt st;
         Some (True, st) }
     | Inr (prog_found, low_vers, high_vers) \<Rightarrow>
         if prog_found then do { st \<leftarrow> svcerr_progvers E xprt low_vers high_vers st; Some (False, st) }
         else do { st \<leftarrow> svcerr_noprog E xprt st; Some (False, st) } }"

text \<open>The slot of a descriptor; a descriptor outside the table is not defined.\<close>

definition xport_at :: "int \<Rightarrow> ('d, 'w) svc_state \<Rightarrow> xptr option option" where
  "xport_at fd st = do {
     tab \<leftarrow> svc_xports st;
     if 0 \<le> fd \<and> nat fd < length tab then Some (tab ! nat fd) else None }"

partial_function (option) getreq_loop ::
    "('d, 's, 'v, 'w) svc_env \<Rightarrow> int \<Rightarrow> xptr \<Rightarrow> ('s, 'v) trpc_msg \<Rightarrow> ('d, 'w) svc_state \<Rightarrow> ('d, 'w) svc_state option" where
  "getreq_loop E fd xprt msg st = do {
     (ok, msg, st) \<leftarrow> SVC_RECV E xprt msg st;
     (skip, st) \<leftarrow> (if ok then serve_call E xprt msg st else Some (False, st));
     connected \<leftarrow> (if skip then Some True else do { s \<leftarrow> xport_at fd st; Some (s = Some xprt) });
     if \<not> connected then Some st
     else do {
       (stat, st) \<leftarrow> SVC_STAT E xprt st;
       case stat of
         XPRT_DIED \<Rightarrow> SVC_DESTROY E xprt st
       | XPRT_MOREREQS \<Rightarrow> getreq_loop E fd xprt msg st
       | XPRT_IDLE \<Rightarrow> Some st } }"

definition svc_getreq_common :: "('d, 's, 'v, 'w) svc_env \<Rightarrow> int \<Rightarrow> ('d, 'w) svc_state \<Rightarrow> ('d, 'w) svc_state option" where
  "svc_getreq_common E fd st = do {
     s \<leftarrow> xport_at fd st;
     case s of None \<Rightarrow> Some st | Some xprt \<Rightarrow> getreq_loop E fd xprt (local_msg E) st }"

text \<open>
  The descriptors of a set, below \<open>setsize\<close> rounded up to whole words of the mask, in increasing
  order; the set is the caller's own, so what a call does to \<open>svc_fdset\<close> does not change it.
\<close>

fun getreq_fds :: "('d, 's, 'v, 'w) svc_env \<Rightarrow> int list \<Rightarrow> ('d, 'w) svc_state \<Rightarrow> ('d, 'w) svc_state option" where
  "getreq_fds E [] st = Some st"
| "getreq_fds E (fd # fds) st = do { st \<leftarrow> svc_getreq_common E fd st; getreq_fds E fds st }"

definition svc_getreqset :: "('d, 's, 'v, 'w) svc_env \<Rightarrow> int set \<Rightarrow> ('d, 'w) svc_state \<Rightarrow> ('d, 'w) svc_state option" where
  "svc_getreqset E readfds st =
    (let setsize = (if int (dtablesize E) > FD_SETSIZE then 1024 else dtablesize E);
         top = (setsize + 63) div 64 * 64
     in getreq_fds E (filter (\<lambda>fd. fd \<in> readfds) (map int [0..<top])) st)"

text \<open>\<open>fds_bits[0] = rdfds\<close>: the \<open>int\<close> is sign-extended to the 64-bit word.\<close>

definition svc_getreq :: "('d, 's, 'v, 'w) svc_env \<Rightarrow> 32 word \<Rightarrow> ('d, 'w) svc_state \<Rightarrow> ('d, 'w) svc_state option" where
  "svc_getreq E rdfds st = svc_getreqset E {fd. 0 \<le> fd \<and> fd < 64 \<and> bit (scast rdfds :: 64 word) (nat fd)} st"

text \<open>
  The descriptors with events of a poll: \<open>POLLNVAL\<close> unregisters the transport in the slot, which
  must not be \<open>NULL\<close>.  \<open>svc_max_pollfd\<close> is read again in each round.
\<close>

record polled =
  pl_fd :: int
  pl_revents :: "16 word"

definition POLLNVAL :: "16 word" where "POLLNVAL = 0x20"

fun getreq_polled :: "('d, 's, 'v, 'w) svc_env \<Rightarrow> nat \<Rightarrow> int \<Rightarrow> int \<Rightarrow> polled list \<Rightarrow> ('d, 'w) svc_state \<Rightarrow> ('d, 'w) svc_state option" where
  "getreq_polled E i found pollretval [] st = (if i < length (svc_pollfd st) then None else Some st)"
| "getreq_polled E i found pollretval (p # ps) st =
    (if i < length (svc_pollfd st) then
       if pl_fd p \<noteq> -1 \<and> pl_revents p \<noteq> 0 then do {
         st \<leftarrow> (if pl_revents p AND POLLNVAL \<noteq> 0 then do {
                 s \<leftarrow> xport_at (pl_fd p) st;
                 xprt \<leftarrow> s;
                 xprt_unregister E xprt st }
               else svc_getreq_common E (pl_fd p) st);
         if found + 1 \<ge> pollretval then Some st else getreq_polled E (Suc i) (found + 1) pollretval ps st }
       else getreq_polled E (Suc i) found pollretval ps st
     else Some st)"

definition svc_getreq_poll :: "('d, 's, 'v, 'w) svc_env \<Rightarrow> polled list \<Rightarrow> int \<Rightarrow> ('d, 'w) svc_state \<Rightarrow> ('d, 'w) svc_state option" where
  "svc_getreq_poll E pfdp pollretval st = getreq_polled E 0 0 pollretval pfdp st"

text \<open>The argument of \<open>rpc_control\<close> before and after.\<close>

definition RPC_SVC_CONNMAXREC_SET :: int where "RPC_SVC_CONNMAXREC_SET = 0"
definition RPC_SVC_CONNMAXREC_GET :: int where "RPC_SVC_CONNMAXREC_GET = 1"

definition rpc_control :: "int \<Rightarrow> int \<Rightarrow> ('d, 'w) svc_state \<Rightarrow> bool \<times> int \<times> ('d, 'w) svc_state" where
  "rpc_control what arg st =
    (if what = RPC_SVC_CONNMAXREC_SET then
       if arg \<le> 0 then (False, arg, st) else (True, arg, st\<lparr>svc_maxrec := arg\<rparr>)
     else if what = RPC_SVC_CONNMAXREC_GET then (True, svc_maxrec st, st)
     else (False, arg, st))"

end
