(* ===== verification/Svc_Serve.thy ===== *)
theory Svc_Serve
  imports Svc
begin

text \<open>
  The list of services and the calls served from it: registration never makes a search ambiguous,
  a registration is undone by its removal, and each received call is answered as RPC asks.
\<close>

section \<open>The list of services\<close>

lemma svc_find_None: "svc_find prog vers netid ss = None \<longleftrightarrow> (\<forall>s \<in> set ss. \<not> matches prog vers netid s)"
  by (induction ss) auto

lemma svc_find_Some: "svc_find prog vers netid ss = Some (before, s, after) \<Longrightarrow> ss = before @ s # after \<and> matches prog vers netid s"
  by (induction ss arbitrary: before) (auto split: if_splits)

lemma unreg_loop_filter: "unreg_loop prog vers ss = filter (\<lambda>s. \<not> (sc_prog s = prog \<and> sc_vers s = vers)) ss"
proof (induction prog vers ss rule: unreg_loop.induct)
  case (1 prog vers ss)
  have m: "matches prog vers None s \<longleftrightarrow> sc_prog s = prog \<and> sc_vers s = vers" for s :: "'a callout"
    by (simp add: matches_def)
  show ?case
  proof (cases "svc_find prog vers None ss")
    case None
    have "unreg_loop prog vers ss = ss" by (subst unreg_loop.simps) (simp add: None)
    moreover have "filter (\<lambda>s. \<not> (sc_prog s = prog \<and> sc_vers s = vers)) ss = ss"
      using None by (intro filter_True) (simp add: svc_find_None m)
    ultimately show ?thesis by simp
  next
    case (Some t)
    obtain before s after where t: "t = (before, s, after)" by (cases t) auto
    have "ss = before @ s # after" "sc_prog s = prog \<and> sc_vers s = vers"
      using svc_find_Some [of prog vers None ss before s after] Some t m by auto
    moreover have "unreg_loop prog vers (before @ after) = filter (\<lambda>s. \<not> (sc_prog s = prog \<and> sc_vers s = vers)) (before @ after)"
      using 1 [OF Some, of before "(s, after)" s after] t by simp
    ultimately show ?thesis using Some t by (subst unreg_loop.simps) simp
  qed
qed

lemmas [simp del] = unreg_loop.simps

text \<open>Two callouts that could serve one search overlap; the list never has such a pair.\<close>

definition overlap :: "'d callout \<Rightarrow> 'd callout \<Rightarrow> bool" where
  "overlap s t \<longleftrightarrow> sc_prog s = sc_prog t \<and> sc_vers s = sc_vers t \<and>
     (sc_netid s = None \<or> sc_netid t = None \<or> sc_netid s = sc_netid t)"

definition callouts_ok :: "'d callout list \<Rightarrow> bool" where
  "callouts_ok ss \<longleftrightarrow> sorted_wrt (\<lambda>s t. \<not> overlap s t) ss"

text \<open>The binder is another process: what is asked of it does not change the list.\<close>

definition binder_apart :: "('d, 's, 'v, 'w) svc_env \<Rightarrow> bool" where
  "binder_apart E \<longleftrightarrow> (\<forall>prog vers n p st. svc_head (snd (rpcb_set_call E prog vers n p st)) = svc_head st) \<and>
     (\<forall>prog vers st. svc_head (rpcb_unset_call E prog vers st) = svc_head st) \<and>
     (\<forall>prog vers proto port st. svc_head (snd (pmap_set_call E prog vers proto port st)) = svc_head st) \<and>
     (\<forall>prog vers st. svc_head (pmap_unset_call E prog vers st) = svc_head st)"

lemma svc_reg_head:
  assumes "svc_reg E xprt prog vers dispatch nconf st = Some (ok, st')" and "binder_apart E"
  shows "(svc_head st' = svc_head st \<and> (ok \<longrightarrow> (\<exists>netid. svc_find prog vers netid (svc_head st) \<noteq> None))) \<or>
    (\<exists>netid. svc_find prog vers netid (svc_head st) = None \<and>
       svc_head st' = \<lparr>sc_prog = prog, sc_vers = vers, sc_netid = netid, sc_dispatch = dispatch\<rparr> # svc_head st)"
proof -
  obtain x where x: "alive xprt st = Some x" using assms(1) by (auto simp: svc_reg_def bind_eq_Some_conv)
  define it where "it = (\<lambda>st. case nconf of Some n \<Rightarrow> Some (rpcb_set_call E prog vers n xprt st) | None \<Rightarrow> Some (True, st))"
  have it: "svc_head s' = svc_head s" if "it s = Some (r, s')" for s r s'
    using that assms(2) by (cases nconf) (auto simp: it_def binder_apart_def dest!: arg_cong [of _ _ snd] sym [of "rpcb_set_call _ _ _ _ _ _"])
  note eq = assms(1) [unfolded svc_reg_def x bind.bind_lunit Let_def it_def [symmetric]]
  show ?thesis
  proof (cases "service_netid E x nconf")
    case None
    then show ?thesis using eq by simp
  next
    case netid: (Some netid)
    show ?thesis
    proof (cases "svc_find prog vers netid (svc_head st)")
      case (Some t)
      then show ?thesis using eq netid it by (cases t) (auto split: if_splits)
    next
      case None
      let ?st = "st\<lparr>svc_head := \<lparr>sc_prog = prog, sc_vers = vers, sc_netid = netid, sc_dispatch = dispatch\<rparr> # svc_head st\<rparr>"
      define st2 where "st2 = (case netid of Some n \<Rightarrow> if sx_netid x = None then ?st\<lparr>xprts := (xprts ?st)(xprt \<mapsto> x\<lparr>sx_netid := strdup E n\<rparr>)\<rparr> else ?st
                  | None \<Rightarrow> ?st)"
      have h: "svc_head st2 = svc_head ?st" by (simp add: st2_def split: option.split)
      show ?thesis
      proof (cases "sv_avail E sizeof_callout")
        case True
        then have "it st2 = Some (ok, st')" using eq netid None by (simp add: st2_def)
        then show ?thesis using it h None by auto
      next
        case False
        then show ?thesis using eq netid None by simp
      qed
    qed
  qed
qed

lemma svc_reg_new:
  assumes "svc_reg E xprt prog vers dispatch nconf st = Some (True, st')" and "binder_apart E"
    and "\<And>netid. svc_find prog vers netid (svc_head st) = None"
  obtains netid where "svc_head st' = \<lparr>sc_prog = prog, sc_vers = vers, sc_netid = netid, sc_dispatch = dispatch\<rparr> # svc_head st"
  using svc_reg_head [OF assms(1,2)] assms(3) by auto

lemma svc_register_head:
  assumes "svc_register E xprt prog vers dispatch protocol st = Some (ok, st')" and "binder_apart E"
  shows "svc_head st' = svc_head st \<or>
    (svc_find (ucast prog) (ucast vers) None (svc_head st) = None \<and>
       svc_head st' = \<lparr>sc_prog = ucast prog, sc_vers = ucast vers, sc_netid = None, sc_dispatch = dispatch\<rparr> # svc_head st)"
proof -
  obtain x where x: "alive xprt st = Some x" using assms(1) by (auto simp: svc_register_def bind_eq_Some_conv)
  have b: "svc_head s' = svc_head s" if "pmap_set_call E p v n y s = (r, s')" for p v n y s r s'
    using assms(2) that by (auto simp: binder_apart_def dest!: arg_cong [of _ _ snd])
  note eq = assms(1) [unfolded svc_register_def x bind.bind_lunit Let_def]
  show ?thesis
  proof (cases "svc_find (ucast prog) (ucast vers) None (svc_head st)")
    case (Some t)
    then show ?thesis using eq by (cases t) (auto split: if_splits dest!: b)
  next
    case None
    then show ?thesis using eq by (auto split: if_splits dest!: b)
  qed
qed

lemma svc_unreg_head: "binder_apart E \<Longrightarrow>
    svc_head (svc_unreg E prog vers st) = filter (\<lambda>s. \<not> (sc_prog s = prog \<and> sc_vers s = vers)) (svc_head st)"
  by (simp add: svc_unreg_def Let_def unreg_loop_filter binder_apart_def)

lemma callouts_ok_Cons:
  "callouts_ok ss \<Longrightarrow> svc_find prog vers netid ss = None \<Longrightarrow>
   callouts_ok (\<lparr>sc_prog = prog, sc_vers = vers, sc_netid = netid, sc_dispatch = d\<rparr> # ss)"
  by (auto simp: callouts_ok_def svc_find_None matches_def overlap_def)

lemma callouts_ok_remove: "callouts_ok (before @ s # after) \<Longrightarrow> callouts_ok (before @ after)"
  by (auto simp: callouts_ok_def sorted_wrt_append)

inductive service_step :: "('d, 's, 'v, 'w) svc_env \<Rightarrow> ('d, 'w) svc_state \<Rightarrow> ('d, 'w) svc_state \<Rightarrow> bool" for E where
  reg: "svc_reg E xprt prog vers d nconf st = Some (ok, st') \<Longrightarrow> service_step E st st'"
| unreg: "service_step E st (svc_unreg E prog vers st)"
| register: "svc_register E xprt prog' vers' d proto st = Some (ok, st') \<Longrightarrow> service_step E st st'"
| unregister: "service_step E st (svc_unregister E prog' vers' st)"

lemma service_step_ok:
  "service_step E st st' \<Longrightarrow> binder_apart E \<Longrightarrow> callouts_ok (svc_head st) \<Longrightarrow> callouts_ok (svc_head st')"
proof (induction rule: service_step.induct)
  case (reg xprt prog vers d nconf st ok st')
  show ?case using svc_reg_head [OF reg(1,2)] reg(3) callouts_ok_Cons by metis
next
  case (unreg st prog vers)
  then show ?case by (simp add: svc_unreg_head) (simp add: callouts_ok_def sorted_wrt_filter)
next
  case (register xprt prog' vers' d proto st ok st')
  show ?case using svc_register_head [OF register(1,2)] register(3) callouts_ok_Cons by metis
next
  case (unregister st prog' vers')
  then show ?case
    by (auto simp: svc_unregister_def binder_apart_def split: option.splits dest!: svc_find_Some intro: callouts_ok_remove)
qed

text \<open>
  C18: However services are registered and unregistered, through both interfaces, no search for a
  program, version and netid has two answers: of two callouts of the same program and version
  both have a netid, and not the same one.
\<close>

theorem services_distinct:
  assumes "(service_step E)\<^sup>*\<^sup>* st0 st" and "svc_head st0 = []" and "binder_apart E"
    and "i < j" and "j < length (svc_head st)"
    and "sc_prog (svc_head st ! i) = sc_prog (svc_head st ! j)" and "sc_vers (svc_head st ! i) = sc_vers (svc_head st ! j)"
  shows "\<exists>m n. sc_netid (svc_head st ! i) = Some m \<and> sc_netid (svc_head st ! j) = Some n \<and> m \<noteq> n"
proof -
  have "callouts_ok (svc_head st)"
    using assms(1-3) by (induction rule: rtranclp_induct) (auto simp: callouts_ok_def [of "[]"] service_step_ok)
  then have "\<not> overlap (svc_head st ! i) (svc_head st ! j)"
    using assms(4,5) by (simp add: callouts_ok_def sorted_wrt_iff_nth_less)
  then show ?thesis using assms(6,7) by (auto simp: overlap_def)
qed

text \<open>
  C19: A service that is registered where its program and version had none is the one calls for them
  find, without changing what calls for any other program or version find; removing it with
  \<open>svc_unreg\<close> leaves the list as it was before.
\<close>

theorem service_lifecycle:
  assumes new: "find (\<lambda>s. sc_prog s = prog \<and> sc_vers s = vers) (svc_head st) = None"
    and reg: "svc_reg E xprt prog vers d nconf st = Some (True, st')" and apart: "binder_apart E"
    and other: "(p, v) \<noteq> (prog, vers)"
  shows "(\<exists>s. find (\<lambda>s. sc_prog s = prog \<and> sc_vers s = vers) (svc_head st') = Some s \<and> sc_dispatch s = d)
    \<and> find (\<lambda>s. sc_prog s = p \<and> sc_vers s = v) (svc_head st') = find (\<lambda>s. sc_prog s = p \<and> sc_vers s = v) (svc_head st)
    \<and> svc_head (svc_unreg E prog vers st') = svc_head st"
proof -
  have none: "\<not> (sc_prog s = prog \<and> sc_vers s = vers)" if "s \<in> set (svc_head st)" for s
    using new that by (simp add: find_None_iff)
  then have "svc_find prog vers netid (svc_head st) = None" for netid
    unfolding svc_find_None matches_def by blast
  then obtain netid where h: "svc_head st' = \<lparr>sc_prog = prog, sc_vers = vers, sc_netid = netid, sc_dispatch = d\<rparr> # svc_head st"
    by (rule svc_reg_new [OF reg apart])
  have "filter (\<lambda>s. \<not> (sc_prog s = prog \<and> sc_vers s = vers)) (svc_head st) = svc_head st"
    using none by (intro filter_True) blast
  then show ?thesis using other by (auto simp: h svc_unreg_head [OF apart])
qed

section \<open>Which routine serves a call\<close>

definition versions :: "32 word \<Rightarrow> 'd callout list \<Rightarrow> 32 word set" where
  "versions prog ss = sc_vers ` {s \<in> set ss. sc_prog s = prog}"

lemma find_callout_spec:
  "find_callout prog vers ss (found, lo, hi) =
    (case find (\<lambda>s. sc_prog s = prog \<and> sc_vers s = vers) ss of
       Some s \<Rightarrow> Inl s
     | None \<Rightarrow> Inr (found \<or> versions prog ss \<noteq> {}, Min (insert lo (versions prog ss)), Max (insert hi (versions prog ss))))"
proof (induction ss arbitrary: found lo hi)
  case Nil
  show ?case by (simp add: versions_def)
next
  case (Cons s ss)
  have fin: "finite (versions prog ss)" by (simp add: versions_def)
  show ?case
  proof (cases "sc_prog s = prog")
    case False
    then have "versions prog (s # ss) = versions prog ss" by (auto simp: versions_def)
    with Cons False show ?thesis by (simp split: option.split)
  next
    case True
    then have v: "versions prog (s # ss) = insert (sc_vers s) (versions prog ss)" by (auto simp: versions_def)
    have lo: "Min (insert (if sc_vers s < lo then sc_vers s else lo) V) = Min (insert lo (insert (sc_vers s) V))"
      and hi: "Max (insert (if hi < sc_vers s then sc_vers s else hi) V) = Max (insert hi (insert (sc_vers s) V))"
      if "finite V" for V
      using that by (cases "V = {}"; auto simp: min_def max_def)+
    have "find_callout prog vers (s # ss) (found, lo, hi) = (if sc_vers s = vers then Inl s
        else find_callout prog vers ss (True, if sc_vers s < lo then sc_vers s else lo, if hi < sc_vers s then sc_vers s else hi))"
      using True by simp
    then show ?thesis
      unfolding Cons.IH lo [OF fin] hi [OF fin] v using True by (simp split: option.split)
  qed
qed

lemma find_callout_top:
  "find_callout prog vers ss (False, -1, 0) =
    (case find (\<lambda>s. sc_prog s = prog \<and> sc_vers s = vers) ss of
       Some s \<Rightarrow> Inl s
     | None \<Rightarrow> Inr (if versions prog ss = {} then (False, -1, 0) else (True, Min (versions prog ss), Max (versions prog ss))))"
proof -
  have fin: "finite (versions prog ss)" by (simp add: versions_def)
  have "Min (insert (-1) V) = Min V" "Max (insert 0 V) = Max V" if "finite V" "V \<noteq> {}" for V :: "32 word set"
    using that by (simp_all add: min_absorb2 max_absorb2 word_order.extremum)
  with fin show ?thesis by (auto simp: find_callout_spec split: option.splits)
qed

lemma serve_authenticated:
  assumes x: "alive xprt st = Some x" and call: "call = trm_call msg"
    and auth: "gss_authenticate (gss E) (sv_avail E) (cred_mem E) (cred_at E) (auths E)
       \<lparr>rq_cred = tcb_cred call, rq_clntcred = cred_room E, xp_verf = sx_verf x, xp_auth_none = False\<rparr> msg =
       Some (AUTH_OK, False, r)"
    and st': "x' = x\<lparr>sx_verf := xp_verf r\<rparr>" "st' = st\<lparr>xprts := (xprts st)(xprt \<mapsto> x')\<rparr>"
  shows "serve_call E xprt msg st =
    (case find (\<lambda>s. sc_prog s = tcb_prog call \<and> sc_vers s = tcb_vers call) (svc_head st) of
       Some s \<Rightarrow> map_option (Pair True) (run_dispatch E (sc_dispatch s)
           \<lparr>sr_prog = tcb_prog call, sr_vers = tcb_vers call, sr_proc = tcb_proc call, sr_auth = r, sr_xprt = xprt\<rparr> xprt st')
     | None \<Rightarrow> map_option (\<lambda>(_, st). (False, st)) (SVC_REPLY E xprt (accepted_msg E x'
           (if versions (tcb_prog call) (svc_head st) = {} then tar_stat_update (\<lambda>_. PROG_UNAVAIL)
            else (\<lambda>ar. ar\<lparr>tar_stat := PROG_MISMATCH, tar_low := Min (versions (tcb_prog call) (svc_head st)),
                   tar_high := Max (versions (tcb_prog call) (svc_head st))\<rparr>))) st'))"
proof -
  have x': "alive xprt st' = Some x'" by (simp add: st' alive_def)
  show ?thesis
    unfolding serve_call_def call [symmetric] Let_def
    using auth
    by (simp add: x find_callout_top st'(1) [symmetric] st'(2) [symmetric] svcerr_progvers_def svcerr_noprog_def svcerr_accepted_def x'
        split: option.splits)
      (auto simp: st'(2) [symmetric] map_option_case bind_eq_Some_conv split: option.splits bind_splits)
qed

text \<open>
  C14: An authenticated call is served by the rules of RPC: the routine of the first callout with
  its program and version is run, with the request it was authenticated as; when only other
  versions of the program are registered the reply is \<open>PROG_MISMATCH\<close> with the lowest and the
  highest of them; when there are none it is \<open>PROG_UNAVAIL\<close>.  In the replies, the verifier is the one
  the authentication chose.
\<close>

theorem request_served:
  assumes x: "alive xprt st = Some x" and call: "call = trm_call msg"
    and auth: "gss_authenticate (gss E) (sv_avail E) (cred_mem E) (cred_at E) (auths E)
       \<lparr>rq_cred = tcb_cred call, rq_clntcred = cred_room E, xp_verf = sx_verf x, xp_auth_none = False\<rparr> msg =
       Some (AUTH_OK, False, r)"
    and st': "x' = x\<lparr>sx_verf := xp_verf r\<rparr>" "st' = st\<lparr>xprts := (xprts st)(xprt \<mapsto> x')\<rparr>"
  shows "serve_call E xprt msg st =
    (case find (\<lambda>s. sc_prog s = tcb_prog call \<and> sc_vers s = tcb_vers call) (svc_head st) of
       Some s \<Rightarrow> map_option (Pair True) (run_dispatch E (sc_dispatch s)
           \<lparr>sr_prog = tcb_prog call, sr_vers = tcb_vers call, sr_proc = tcb_proc call, sr_auth = r, sr_xprt = xprt\<rparr> xprt st')
     | None \<Rightarrow> map_option (\<lambda>(_, st). (False, st)) (SVC_REPLY E xprt (accepted_msg E x'
           (if versions (tcb_prog call) (svc_head st) = {} then tar_stat_update (\<lambda>_. PROG_UNAVAIL)
            else (\<lambda>ar. ar\<lparr>tar_stat := PROG_MISMATCH, tar_low := Min (versions (tcb_prog call) (svc_head st)),
                   tar_high := Max (versions (tcb_prog call) (svc_head st))\<rparr>))) st'))"
  by (rule serve_authenticated [OF x call auth st'])

text \<open>
  C20: When the routine of a service destroys the transport its call came over, the server uses the
  destroyed transport: the test for that is skipped by \<open>goto call_done\<close>.
\<close>

theorem getreq_after_destroy:
  assumes at: "xport_at fd st = Some (Some xprt)"
    and recv: "SVC_RECV E xprt (local_msg E) st = Some (True, msg, st1)" and x: "alive xprt st1 = Some x"
    and auth: "gss_authenticate (gss E) (sv_avail E) (cred_mem E) (cred_at E) (auths E)
       \<lparr>rq_cred = tcb_cred (trm_call msg), rq_clntcred = cred_room E, xp_verf = sx_verf x, xp_auth_none = False\<rparr> msg =
       Some (AUTH_OK, False, r)"
    and s: "find (\<lambda>s. sc_prog s = tcb_prog (trm_call msg) \<and> sc_vers s = tcb_vers (trm_call msg)) (svc_head st1) = Some s"
    and run: "run_dispatch E (sc_dispatch s) \<lparr>sr_prog = tcb_prog (trm_call msg), sr_vers = tcb_vers (trm_call msg),
        sr_proc = tcb_proc (trm_call msg), sr_auth = r, sr_xprt = xprt\<rparr> xprt
        (st1\<lparr>xprts := (xprts st1)(xprt \<mapsto> x\<lparr>sx_verf := xp_verf r\<rparr>)\<rparr>) = Some st2"
    and gone: "alive xprt st2 = None"
  shows "svc_getreq_common E fd st = None"
proof -
  have "serve_call E xprt msg st1 = Some (True, st2)"
    unfolding serve_call_def Let_def
    by (simp add: x auth find_callout_top s run)
  then show ?thesis
    by (simp add: svc_getreq_common_def at getreq_loop.simps recv SVC_STAT_def gone)
qed

end
