(* ===== verification/Svc_Table.thy ===== *)
theory Svc_Table
  imports Svc
begin

text \<open>
  The table of transports against what it stands for, a map from descriptors to transports: the
  table, the descriptor set, its maximum and the poll list of \<open>svc.c\<close> stay in step through any
  sequence of \<open>xprt_register\<close> and \<open>xprt_unregister\<close>.
\<close>

section \<open>The table of transports\<close>

text \<open>What the three structures stand for: the transport of each descriptor.\<close>

definition registered :: "('d, 'w) svc_state \<Rightarrow> int \<rightharpoonup> xptr" where
  "registered st fd = (case svc_xports st of None \<Rightarrow> None
     | Some tab \<Rightarrow> if 0 \<le> fd \<and> nat fd < length tab then tab ! nat fd else None)"



lemma registered_nonneg: "registered st fd = Some x \<Longrightarrow> 0 \<le> fd"
  by (auto simp: registered_def split: option.splits if_splits)











end
