(* ===== verification/Svc_Demo.thy ===== *)
theory Svc_Demo
  imports Svc_Serve Svc_Table Auth_Accept
begin

text \<open>
  A small server, the theorems on services, transports and calls evaluated on it.
\<close>

section \<open>A concrete server\<close>

text \<open>
  One transport on descriptor 3, over which a call of procedure 0 of version 1 of program 7 with
  \<open>AUTH_NONE\<close> arrives; the world collects the replies.  Routine 0 replies with nothing, routine 1
  destroys the transport.
\<close>

definition demo_msg :: "(unit, unit) trpc_msg" where
  "demo_msg = trm_call_update (\<lambda>c. c\<lparr>tcb_prog := 7, tcb_vers := 1, tcb_proc := 0, tcb_cred := null_auth\<rparr>) (zero_tmsg ())"

type_synonym demo_world = "(unit, unit) trpc_msg list"

definition demo_env :: "(nat, unit, unit, demo_world) svc_env" where
  "demo_env = \<lparr>dtablesize = 1024, sv_avail = \<lambda>_. True, rpcgettp = \<lambda>_. Some ''udp'',
    rpcb_set_call = \<lambda>_ _ _ _ st. (True, st), rpcb_unset_call = \<lambda>_ _ st. st,
    pmap_set_call = \<lambda>_ _ _ _ st. (True, st), pmap_unset_call = \<lambda>_ _ st. st,
    xp_recv = \<lambda>_ _ st. Some (True, demo_msg, st),
    xp_reply = \<lambda>_ msg st. Some (True, st\<lparr>svc_world := msg # svc_world st\<rparr>),
    xp_stat = \<lambda>_ st. Some (XPRT_IDLE, st), xp_destroy = \<lambda>xprt st. Some (st\<lparr>xprts := (xprts st)(xprt := None)\<rparr>),
    run_dispatch = \<lambda>d rq xprt st. Some (if d = 1 then st\<lparr>xprts := (xprts st)(xprt := None)\<rparr> else st),
    gss = \<lambda>_ _ _. None, auths = [], cred_mem = \<lambda>_. 0, cred_at = 8192,
    cred_room = rq_clntcred rqst0, local_msg = zero_tmsg ()\<rparr>"

definition demo_xprt :: sxprt where
  "demo_xprt = \<lparr>sx_fd = 3, sx_port = 0, sx_netid = None, sx_verf = null_auth\<rparr>"

definition demo_state :: "(nat, demo_world) svc_state" where
  "demo_state = \<lparr>svc_xports = None, svc_fdset = {}, svc_maxfd = -1, svc_pollfd = [], svc_head = [], svc_maxrec = 0,
     xprts = [1 \<mapsto> demo_xprt], svc_world = []\<rparr>"

definition demo_callout :: "nat \<Rightarrow> nat callout" where
  "demo_callout d = \<lparr>sc_prog = 7, sc_vers = 1, sc_netid = None, sc_dispatch = d\<rparr>"

lemma demo_apart: "binder_apart demo_env" by (simp add: binder_apart_def demo_env_def)

definition demo_rqst :: auth_rqst where
  "demo_rqst = \<lparr>rq_cred = null_auth, rq_clntcred = rq_clntcred rqst0, xp_verf = null_auth, xp_auth_none = False\<rparr>"

definition demo_authed :: auth_rqst where
  "demo_authed = demo_rqst\<lparr>xp_auth_none := True\<rparr>"

lemma demo_auth:
  "gss_authenticate (gss demo_env) (sv_avail demo_env) (cred_mem demo_env) (cred_at demo_env) (auths demo_env)
     \<lparr>rq_cred = tcb_cred (trm_call demo_msg), rq_clntcred = cred_room demo_env, xp_verf = sx_verf demo_xprt, xp_auth_none = False\<rparr> demo_msg =
   Some (AUTH_OK, False, demo_authed)"
  by (simp add: gss_authenticate_def Let_def demo_msg_def null_auth_def svcauth_none_def demo_env_def demo_xprt_def
      demo_authed_def demo_rqst_def AUTH_NONE_def)

lemma demo_call: "tcb_prog (trm_call demo_msg) = 7" "tcb_vers (trm_call demo_msg) = 1" "tcb_proc (trm_call demo_msg) = 0"
  by (simp_all add: demo_msg_def)

theorem service_lifecycle_witness:
  "\<exists>st'. svc_reg demo_env 1 7 1 0 None demo_state = Some (True, st') \<and>
    find (\<lambda>s. sc_prog s = 7 \<and> sc_vers s = 1) (svc_head st') \<noteq> None \<and> svc_head (svc_unreg demo_env 7 1 st') = []"
proof -
  obtain st' where r: "svc_reg demo_env 1 7 1 0 None demo_state = Some (True, st')"
    by (simp add: svc_reg_def service_netid_def alive_def demo_state_def demo_env_def demo_xprt_def strdup_def Let_def)
  have n: "find (\<lambda>s. sc_prog s = 7 \<and> sc_vers s = 1) (svc_head demo_state) = None" "(8 :: 32 word, 1 :: 32 word) \<noteq> (7, 1)"
    by (simp_all add: demo_state_def)
  show ?thesis using service_lifecycle [OF n(1) r demo_apart n(2)] r by (auto simp: demo_state_def)
qed

theorem request_served_witness:
  "serve_call demo_env 1 demo_msg (demo_state\<lparr>svc_head := [demo_callout 0]\<rparr>) =
    Some (True, demo_state\<lparr>svc_head := [demo_callout 0]\<rparr>)"
proof -
  have x: "alive 1 (demo_state\<lparr>svc_head := [demo_callout 0]\<rparr>) = Some demo_xprt" by (simp add: alive_def demo_state_def)
  show ?thesis
    using request_served [OF x refl demo_auth refl refl]
    by (simp add: demo_call demo_callout_def)
      (simp add: demo_env_def demo_state_def demo_authed_def demo_rqst_def demo_xprt_def)
qed

theorem getreq_after_destroy_witness:
  "svc_getreq_common demo_env 3
    (demo_state\<lparr>svc_head := [demo_callout 1], svc_xports := Some [None, None, None, Some 1]\<rparr>) = None"
proof -
  let ?st = "demo_state\<lparr>svc_head := [demo_callout 1], svc_xports := Some [None, None, None, Some 1]\<rparr>"
  have at: "xport_at 3 ?st = Some (Some 1)" by (simp add: xport_at_def numeral_eq_Suc)
  have recv: "SVC_RECV demo_env 1 (local_msg demo_env) ?st = Some (True, demo_msg, ?st)"
    by (simp add: SVC_RECV_def alive_def demo_state_def demo_env_def)
  have x: "alive 1 ?st = Some demo_xprt" by (simp add: alive_def demo_state_def)
  have s: "find (\<lambda>s. sc_prog s = tcb_prog (trm_call demo_msg) \<and> sc_vers s = tcb_vers (trm_call demo_msg)) (svc_head ?st) = Some (demo_callout 1)"
    by (simp add: demo_call demo_callout_def)
  show ?thesis
    by (rule getreq_after_destroy [OF at recv x demo_auth s, of "?st\<lparr>xprts := Map.empty\<rparr>"])
      (simp add: demo_env_def demo_callout_def demo_state_def, simp add: alive_def)
qed


theorem services_distinct_witness:
  "\<exists>st m n. (service_step demo_env)\<^sup>*\<^sup>* (demo_state\<lparr>xprts := [1 \<mapsto> demo_xprt\<lparr>sx_netid := Some ''udp''\<rparr>, 2 \<mapsto> demo_xprt\<lparr>sx_netid := Some ''tcp''\<rparr>]\<rparr>) st
    \<and> sc_netid (svc_head st ! 0) = Some m \<and> sc_netid (svc_head st ! 1) = Some n \<and> m \<noteq> n"
proof -
  let ?x = "[1 \<mapsto> demo_xprt\<lparr>sx_netid := Some ''udp''\<rparr>, 2 \<mapsto> demo_xprt\<lparr>sx_netid := Some ''tcp''\<rparr>]"
  let ?s0 = "demo_state\<lparr>xprts := ?x\<rparr>"
  let ?c = "\<lambda>n. \<lparr>sc_prog = 7, sc_vers = 1, sc_netid = Some n, sc_dispatch = 0\<rparr>"
  let ?s1 = "?s0\<lparr>svc_head := [?c ''udp'']\<rparr>" and ?s2 = "?s0\<lparr>svc_head := [?c ''tcp'', ?c ''udp'']\<rparr>"
  have r1: "svc_reg demo_env 1 7 1 0 None ?s0 = Some (True, ?s1)"
    by (simp add: svc_reg_def service_netid_def alive_def demo_state_def demo_env_def strdup_def Let_def)
  have r2: "svc_reg demo_env 2 7 1 0 None ?s1 = Some (True, ?s2)"
    by (simp add: svc_reg_def service_netid_def alive_def demo_state_def demo_env_def strdup_def Let_def matches_def)
  have "service_step demo_env ?s0 ?s1" by (rule service_step.reg [OF r1])
  moreover have "service_step demo_env ?s1 ?s2" by (rule service_step.reg [OF r2])
  ultimately have st: "(service_step demo_env)\<^sup>*\<^sup>* ?s0 ?s2" by simp
  have e: "svc_head ?s0 = []" "0 < (1 :: nat)" "1 < length (svc_head ?s2)"
    "sc_prog (svc_head ?s2 ! 0) = sc_prog (svc_head ?s2 ! 1)" "sc_vers (svc_head ?s2 ! 0) = sc_vers (svc_head ?s2 ! 1)"
    by (simp_all add: demo_state_def)
  show ?thesis using services_distinct [OF st e(1) demo_apart e(2-5)] st by blast
qed

end
