(* ===== verification/Raw.thy ===== *)
theory Raw
  imports Svc Auth_Sys
begin

text \<open>
  RPC within one process (\<open>clnt_raw.c\<close>, \<open>svc_raw.c\<close>): the client encodes a call into a buffer it
  shares with the server, runs the server on it, and decodes the reply from the same buffer.  With
  them the authenticator as the client has it, \<open>AUTH *\<close>, and the example that rpcgen made of
  \<open>msg.x\<close> (\<open>msg_clnt.c\<close>, \<open>msg_svc.c\<close>, \<open>msg_proc.c\<close>).
\<close>

section \<open>Authenticators\<close>

text \<open>A handle of either flavor, its vector of operations told by the constructor.\<close>

datatype AUTH = Auth_none "authnone_private option" | Auth_unix audata

definition AUTH_MARSHALL :: "AUTH \<Rightarrow> 's XDR \<Rightarrow> (bool \<times> 's XDR) option" where
  "AUTH_MARSHALL auth xdrs = (case auth of
     Auth_none priv \<Rightarrow> authnone_marshal priv xdrs
   | Auth_unix au \<Rightarrow> authunix_marshal au xdrs)"

definition AUTH_VALIDATE :: "auth_env \<Rightarrow> AUTH \<Rightarrow> opaque_auth \<Rightarrow> (bool \<times> AUTH) option" where
  "AUTH_VALIDATE ae auth verf = (case auth of
     Auth_none priv \<Rightarrow> map_option (apsnd Auth_none) (authnone_validate priv verf)
   | Auth_unix au \<Rightarrow> map_option (apsnd Auth_unix) (authunix_validate ae au verf))"

definition AUTH_REFRESH :: "auth_env \<Rightarrow> AUTH \<Rightarrow> (bool \<times> AUTH) option" where
  "AUTH_REFRESH ae auth = (case auth of
     Auth_none priv \<Rightarrow> map_option (apsnd Auth_none) (authnone_refresh priv)
   | Auth_unix au \<Rightarrow> map_option (apsnd Auth_unix) (authunix_refresh ae au))"

section \<open>State\<close>

text \<open>
  The structures behind \<open>svc_raw_private\<close> and \<open>clntraw_private\<close>.  Both streams are on the same
  memory, \<open>rw_mem\<close>: a stream is run on a copy that has it, and gives it back.
\<close>

record svc_raw =
  srp_buf :: addr
  srp_server :: xptr
  srp_stream :: "memstrm XDR"
  srp_verf_body :: "byte list"

record clnt_raw =
  clp_buf :: addr
  clp_stream :: "memstrm XDR"
  mashl_callmsg :: "byte list"
  clp_mcnt :: "32 word"
  cl_auth :: "AUTH option"

record 'o raw_world =
  rw_mem :: mem
  rpc_rawcombuf :: addr
  svc_raw_private :: "svc_raw option"
  clntraw_private :: "clnt_raw option"
  rw_authnone :: "authnone_private option"
  rw_other :: 'o

type_synonym ('d, 'o) raw_state = "('d, 'o raw_world) svc_state"

definition UDPMSGSIZE_raw :: "32 word" where "UDPMSGSIZE_raw = 8800"
definition MCALL_MSG_SIZE :: "32 word" where "MCALL_MSG_SIZE = 24"

text \<open>
  What the two \<open>create\<close> functions find outside: where \<open>calloc\<close> puts the buffer (0 if it fails), the
  address of \<open>mashl_callmsg\<close>, the environment of the authenticator, what the local \<open>call_msg\<close> holds.
\<close>

record raw_env =
  re_avail :: "nat \<Rightarrow> bool"
  re_buf :: addr
  re_hdr :: addr
  re_auth :: auth_env
  re_call :: "(memstrm, unit) trpc_msg"

definition share_buf :: "raw_env \<Rightarrow> 'o raw_world \<Rightarrow> 'o raw_world" where
  "share_buf re w = (if rpc_rawcombuf w = 0
     then w\<lparr>rpc_rawcombuf := re_buf re,
        rw_mem := (if re_buf re = 0 then rw_mem w else wr (rw_mem w) (re_buf re) (replicate (unat UDPMSGSIZE_raw) 0))\<rparr>
     else w)"

section \<open>The server\<close>

definition srp_run :: "svc_raw \<Rightarrow> ('d, 'o) raw_state \<Rightarrow> memstrm XDR" where
  "srp_run srp st = (srp_stream srp)\<lparr>x_mem := rw_mem (svc_world st)\<rparr>"

definition srp_back :: "svc_raw \<Rightarrow> memstrm XDR \<Rightarrow> ('d, 'o) raw_state \<Rightarrow> ('d, 'o) raw_state" where
  "srp_back srp xdrs st = st\<lparr>svc_world := (svc_world st)\<lparr>rw_mem := x_mem xdrs,
     svc_raw_private := Some (srp\<lparr>srp_stream := xdrs\<rparr>)\<rparr>\<rparr>"

definition svc_raw_stat :: "('d, 'o) raw_state \<Rightarrow> (xprt_stat \<times> ('d, 'o) raw_state) option" where
  "svc_raw_stat st = Some (XPRT_IDLE, st)"

definition svc_raw_recv ::
    "(nat \<Rightarrow> bool) \<Rightarrow> (memstrm, 'v) trpc_msg \<Rightarrow> ('d, 'o) raw_state \<Rightarrow> (bool \<times> (memstrm, 'v) trpc_msg \<times> ('d, 'o) raw_state) option" where
  "svc_raw_recv avail msg st = (case svc_raw_private (svc_world st) of
     None \<Rightarrow> Some (False, msg, st)
   | Some srp \<Rightarrow> do {
       let xdrs = (srp_run srp st)\<lparr>x_op := XDR_DECODE\<rparr>;
       (_, xdrs) \<leftarrow> XDR_SETPOS xdrs 0;
       (ok, xdrs, msg) \<leftarrow> xdr_callmsg avail xdrs msg;
       Some (ok, msg, srp_back srp xdrs st) })"

definition svc_raw_reply ::
    "(nat \<Rightarrow> bool) \<Rightarrow> (memstrm, 'v) trpc_msg \<Rightarrow> ('d, 'o) raw_state \<Rightarrow> (bool \<times> ('d, 'o) raw_state) option" where
  "svc_raw_reply avail msg st = (case svc_raw_private (svc_world st) of
     None \<Rightarrow> Some (False, st)
   | Some srp \<Rightarrow> do {
       let xdrs = (srp_run srp st)\<lparr>x_op := XDR_ENCODE\<rparr>;
       (_, xdrs) \<leftarrow> XDR_SETPOS xdrs 0;
       (ok, xdrs, _) \<leftarrow> xdr_replymsg avail xdrs msg;
       Some (ok, srp_back srp xdrs st) })"

definition svc_raw_getargs ::
    "(memstrm, 'a) xdrproc_t \<Rightarrow> 'a \<Rightarrow> ('d, 'o) raw_state \<Rightarrow> (bool \<times> 'a \<times> ('d, 'o) raw_state) option" where
  "svc_raw_getargs xdr_args args st = (case svc_raw_private (svc_world st) of
     None \<Rightarrow> Some (False, args, st)
   | Some srp \<Rightarrow> do {
       (ok, xdrs, args) \<leftarrow> xdr_args (srp_run srp st) args;
       Some (ok, args, srp_back srp xdrs st) })"

definition svc_raw_freeargs ::
    "(memstrm, 'a) xdrproc_t \<Rightarrow> 'a \<Rightarrow> ('d, 'o) raw_state \<Rightarrow> (bool \<times> 'a \<times> ('d, 'o) raw_state) option" where
  "svc_raw_freeargs xdr_args args st = (case svc_raw_private (svc_world st) of
     None \<Rightarrow> Some (False, args, st)
   | Some srp \<Rightarrow> do {
       (ok, xdrs, args) \<leftarrow> xdr_args ((srp_run srp st)\<lparr>x_op := XDR_FREE\<rparr>) args;
       Some (ok, args, srp_back srp xdrs st) })"

definition svc_raw_destroy :: "('d, 'o) raw_state \<Rightarrow> ('d, 'o) raw_state option" where
  "svc_raw_destroy st = Some st"

text \<open>The vector of operations of the transport, put into the environment.\<close>

definition svc_raw_ops ::
    "xptr \<Rightarrow> ('d, memstrm, 'v, 'o raw_world) svc_env \<Rightarrow> ('d, memstrm, 'v, 'o raw_world) svc_env" where
  "svc_raw_ops xprt E = E\<lparr>
     xp_recv := (\<lambda>p. if p = xprt then svc_raw_recv (sv_avail E) else xp_recv E p),
     xp_reply := (\<lambda>p. if p = xprt then svc_raw_reply (sv_avail E) else xp_reply E p),
     xp_stat := (\<lambda>p. if p = xprt then svc_raw_stat else xp_stat E p),
     xp_destroy := (\<lambda>p. if p = xprt then svc_raw_destroy else xp_destroy E p)\<rparr>"

text \<open>\<open>server\<close> is the transport inside the new structure, zero when that comes from \<open>calloc\<close>.\<close>

definition sizeof_srp :: nat where "sizeof_srp = 760"
definition sizeof_ext :: nat where "sizeof_ext = 48"

definition svc_raw_create ::
    "('d, memstrm, 'v, 'o raw_world) svc_env \<Rightarrow> raw_env \<Rightarrow> xptr \<Rightarrow> ('d, 'o) raw_state \<Rightarrow> (xptr option \<times> ('d, 'o) raw_state) option" where
  "svc_raw_create E re server st =
    (case (case svc_raw_private (svc_world st) of
         Some srp \<Rightarrow> Some (srp_buf srp, srp_server srp, srp_verf_body srp, st)
       | None \<Rightarrow>
           if \<not> re_avail re sizeof_srp then None
           else if \<not> re_avail re sizeof_ext then None
           else let w = share_buf re (svc_world st)
             in Some (rpc_rawcombuf w, server, replicate (unat MAX_AUTH_BYTES) 0,
               st\<lparr>svc_world := w, xprts := (xprts st)(server \<mapsto>
                 \<lparr>sx_fd = 0, sx_port = 0, sx_netid = None, sx_verf = \<lparr>oa_flavor = 0, oa_base = None, oa_length = 0\<rparr>\<rparr>)\<rparr>)) of
       None \<Rightarrow> Some (None, st)
     | Some (buf, server, body, st) \<Rightarrow> do {
         x \<leftarrow> alive server st;
         let x = x\<lparr>sx_fd := FD_SETSIZE, sx_port := 0, sx_verf := (sx_verf x)\<lparr>oa_base := Some body\<rparr>\<rparr>;
         let srp = \<lparr>srp_buf = buf, srp_server = server,
           srp_stream = xdrmem_create (rw_mem (svc_world st)) buf UDPMSGSIZE_raw XDR_DECODE, srp_verf_body = body\<rparr>;
         let st = st\<lparr>xprts := (xprts st)(server \<mapsto> x), svc_world := (svc_world st)\<lparr>svc_raw_private := Some srp\<rparr>\<rparr>;
         st \<leftarrow> xprt_register E server st;
         Some (Some server, st) })"

section \<open>The client\<close>

definition sizeof_clp :: nat where "sizeof_clp = 344"

definition clnt_raw_create :: "raw_env \<Rightarrow> 32 word \<Rightarrow> 32 word \<Rightarrow> 'o raw_world \<Rightarrow> (bool \<times> 'o raw_world) option" where
  "clnt_raw_create re prog vers w =
    (case (case clntraw_private w of
         Some clp \<Rightarrow> Some (clp_buf clp, mashl_callmsg clp, w)
       | None \<Rightarrow>
           if \<not> re_avail re sizeof_clp then None
           else let w = share_buf re w in Some (rpc_rawcombuf w, replicate (unat MCALL_MSG_SIZE) 0, w)) of
       None \<Rightarrow> Some (False, w)
     | Some (buf, callmsg, w) \<Rightarrow> do {
         let call_msg = (re_call re)\<lparr>trm_direction := CALL, trm_call := (trm_call (re_call re))\<lparr>
               tcb_rpcvers := RPC_MSG_VERSION, tcb_prog := prog, tcb_vers := vers\<rparr>\<rparr>;
         let xdrs = stream_on (re_auth re) (re_hdr re) callmsg MCALL_MSG_SIZE XDR_ENCODE;
         (_, xdrs, _) \<leftarrow> xdr_callhdr xdrs call_msg;
         pos \<leftarrow> XDR_GETPOS xdrs;
         (ok, none) \<leftarrow> authnone_create (re_auth re) (rw_authnone w);
         Some (True, w\<lparr>rw_authnone := none, clntraw_private := Some \<lparr>clp_buf = buf,
           clp_stream = xdrmem_create (rw_mem w) buf UDPMSGSIZE_raw XDR_FREE,
           mashl_callmsg = rd (x_mem xdrs) (re_hdr re) (unat MCALL_MSG_SIZE), clp_mcnt = pos,
           cl_auth = (if ok then Some (Auth_none none) else None)\<rparr>\<rparr>) })"

text \<open>\<open>u.mashl_rpcmsg.rm_xid++\<close>: the first word of the encoded header, in the order of the host.\<close>

definition incr_xid :: "byte list \<Rightarrow> byte list" where
  "incr_xid bs = le32 (of_le32 (take 4 bs) + 1) @ drop 4 bs"

definition clp_run :: "clnt_raw \<Rightarrow> ('d, 'o) raw_state \<Rightarrow> memstrm XDR" where
  "clp_run clp st = (clp_stream clp)\<lparr>x_mem := rw_mem (svc_world st)\<rparr>"

definition clp_back :: "clnt_raw \<Rightarrow> memstrm XDR \<Rightarrow> ('d, 'o) raw_state \<Rightarrow> ('d, 'o) raw_state" where
  "clp_back clp xdrs st = st\<lparr>svc_world := (svc_world st)\<lparr>rw_mem := x_mem xdrs,
     clntraw_private := Some (clp\<lparr>clp_stream := xdrs\<rparr>)\<rparr>\<rparr>"

text \<open>The request: the header, the procedure, the credential and the arguments.\<close>

definition raw_request ::
    "clnt_raw \<Rightarrow> AUTH \<Rightarrow> 32 word \<Rightarrow> (memstrm, 'a) xdrproc_t \<Rightarrow> (memstrm, 'a) xdrproc_t" where
  "raw_request clp auth proc xargs xdrs argsp = do {
     (ok, xdrs) \<leftarrow> XDR_PUTBYTES xdrs (mashl_callmsg clp) (clp_mcnt clp);
     if \<not> ok then Some (False, xdrs, argsp)
     else do {
       (ok, xdrs) \<leftarrow> XDR_PUTLONG xdrs (scast proc);
       if \<not> ok then Some (False, xdrs, argsp)
       else do {
         (ok, xdrs) \<leftarrow> AUTH_MARSHALL auth xdrs;
         if \<not> ok then Some (False, xdrs, argsp)
         else xargs xdrs argsp } } }"

text \<open>
  The reply: whether the call is to be made again, the status, the message with the results, the
  authenticator and the stream.  \<open>msg0\<close> is what the local \<open>msg\<close> holds, \<open>error0\<close> the local \<open>error\<close>.
\<close>

definition raw_answer ::
    "(nat \<Rightarrow> bool) \<Rightarrow> auth_env \<Rightarrow> (memstrm, 'r) trpc_msg \<Rightarrow> rpc_err \<Rightarrow> AUTH \<Rightarrow> (memstrm, 'r) xdrproc_t \<Rightarrow> 'r \<Rightarrow> memstrm XDR \<Rightarrow>
     (bool \<times> clnt_stat \<times> (memstrm, 'r) trpc_msg \<times> AUTH \<times> memstrm XDR) option" where
  "raw_answer avail ae msg0 error0 auth xresults resultsp xdrs = do {
     let msg = msg0\<lparr>trm_reply := (trm_reply msg0)\<lparr>trp_acpt := (trp_acpt (trm_reply msg0))\<lparr>
           tar_verf := null_auth, tar_where := resultsp, tar_proc := Some xresults\<rparr>\<rparr>\<rparr>;
     (ok, xdrs, msg) \<leftarrow> xdr_replymsg avail xdrs msg;
     let verf = (\<lambda>msg. tar_verf (trp_acpt (trm_reply msg)));
     if \<not> ok then do {
       (_, xdrs, msg) \<leftarrow> xdr_replymsg avail (xdrs\<lparr>x_op := XDR_FREE\<rparr>) msg;
       Some (False, RPC_CANTDECODERES, msg, auth, xdrs\<lparr>x_op := XDR_DECODE\<rparr>) }
     else
       let status = re_status (seterr_reply msg error0)
       in if status = RPC_SUCCESS then do {
         (ok, auth) \<leftarrow> AUTH_VALIDATE ae auth (verf msg);
         if \<not> ok then Some (False, RPC_AUTHERROR, msg, auth, xdrs)
         else do {
           (ok, auth) \<leftarrow> AUTH_VALIDATE ae auth (verf msg);
           xdrs \<leftarrow> (if oa_base (verf msg) \<noteq> None
             then map_option (fst \<circ> snd) (xdr_opaque_auth avail (xdrs\<lparr>x_op := XDR_FREE\<rparr>) (verf msg))
             else Some xdrs);
           Some (False, if ok then RPC_SUCCESS else RPC_AUTHERROR, msg, auth, xdrs) } }
       else do {
         (again, auth) \<leftarrow> AUTH_REFRESH ae auth;
         Some (again, status, msg, auth, xdrs) } }"

partial_function (option) raw_call_again ::
    "('d, memstrm, 'v, 'o raw_world) svc_env \<Rightarrow> (nat \<Rightarrow> auth_env) \<Rightarrow> nat \<Rightarrow> (memstrm, 'r) trpc_msg \<Rightarrow> rpc_err \<Rightarrow>
     32 word \<Rightarrow> (memstrm, 'a) xdrproc_t \<Rightarrow> 'a \<Rightarrow> (memstrm, 'r) xdrproc_t \<Rightarrow> 'r \<Rightarrow> ('d, 'o) raw_state \<Rightarrow>
     (clnt_stat \<times> 'r \<times> ('d, 'o) raw_state) option" where
  "raw_call_again E ae n msg0 error0 proc xargs argsp xresults resultsp st = do {
     clp \<leftarrow> clntraw_private (svc_world st);
     let xdrs = (clp_run clp st)\<lparr>x_op := XDR_ENCODE\<rparr>;
     (_, xdrs) \<leftarrow> XDR_SETPOS xdrs 0;
     let clp = clp\<lparr>mashl_callmsg := incr_xid (mashl_callmsg clp)\<rparr>;
     auth \<leftarrow> cl_auth clp;
     (ok, xdrs, argsp) \<leftarrow> raw_request clp auth proc xargs xdrs argsp;
     let st = clp_back clp xdrs st;
     if \<not> ok then Some (RPC_CANTENCODEARGS, resultsp, st)
     else do {
       st \<leftarrow> svc_getreq_common E FD_SETSIZE st;
       clp \<leftarrow> clntraw_private (svc_world st);
       let xdrs = (clp_run clp st)\<lparr>x_op := XDR_DECODE\<rparr>;
       (_, xdrs) \<leftarrow> XDR_SETPOS xdrs 0;
       auth \<leftarrow> cl_auth clp;
       (again, status, msg, auth, xdrs) \<leftarrow> raw_answer (sv_avail E) (ae n) msg0 error0 auth xresults resultsp xdrs;
       let resultsp = tar_where (trp_acpt (trm_reply msg));
       let st = clp_back (clp\<lparr>cl_auth := Some auth\<rparr>) xdrs st;
       if again then raw_call_again E ae (Suc n) msg error0 proc xargs argsp xresults resultsp st
       else Some (status, resultsp, st) } }"

definition clnt_raw_call ::
    "('d, memstrm, 'v, 'o raw_world) svc_env \<Rightarrow> (nat \<Rightarrow> auth_env) \<Rightarrow> (memstrm, 'r) trpc_msg \<Rightarrow> rpc_err \<Rightarrow>
     32 word \<Rightarrow> (memstrm, 'a) xdrproc_t \<Rightarrow> 'a \<Rightarrow> (memstrm, 'r) xdrproc_t \<Rightarrow> 'r \<Rightarrow> ('d, 'o) raw_state \<Rightarrow>
     (clnt_stat \<times> 'r \<times> ('d, 'o) raw_state) option" where
  "clnt_raw_call E ae msg0 error0 proc xargs argsp xresults resultsp st =
    (if clntraw_private (svc_world st) = None then Some (RPC_FAILED, resultsp, st)
     else raw_call_again E ae 0 msg0 error0 proc xargs argsp xresults resultsp st)"

definition clnt_raw_freeres ::
    "(memstrm, 'r) xdrproc_t \<Rightarrow> 'r \<Rightarrow> ('d, 'o) raw_state \<Rightarrow> (bool \<times> 'r \<times> ('d, 'o) raw_state) option" where
  "clnt_raw_freeres xdr_res res st = (case clntraw_private (svc_world st) of
     None \<Rightarrow> Some (True, res, st)
   | Some clp \<Rightarrow> do {
       (ok, xdrs, res) \<leftarrow> xdr_res ((clp_run clp st)\<lparr>x_op := XDR_FREE\<rparr>) res;
       Some (ok, res, clp_back clp xdrs st) })"

end
