(* ===== verification/Buf_Stream.thy ===== *)
theory Buf_Stream
  imports Xdr_Rewind
begin

text \<open>
  Filters on a memory stream whichever vector its buffer gave it, from where the stream stands: what
  the transports that keep one stream on one buffer need.
\<close>

definition mem_encodes :: "(memstrm, 'a) xdrproc_t \<Rightarrow> 'a \<Rightarrow> byte list \<Rightarrow> 'a \<Rightarrow> bool" where
  "mem_encodes F v bs v' \<longleftrightarrow> (\<forall>m a n. al.encodes m a n F v bs v' \<and> un.encodes m a n F v bs v')"

definition mem_decodes :: "(memstrm, 'a) xdrproc_t \<Rightarrow> byte list \<Rightarrow> 'a \<Rightarrow> 'a \<Rightarrow> bool" where
  "mem_decodes F bs v0 v \<longleftrightarrow> (\<forall>m a n. ald.decodes m a n F bs v0 v \<and> und.decodes m a n F bs v0 v)"

lemma mem_encodesD: "mem_encodes F v bs v' \<Longrightarrow> al.encodes m a n F v bs v'" "mem_encodes F v bs v' \<Longrightarrow> un.encodes m a n F v bs v'"
  by (simp_all only: mem_encodes_def)

lemma mem_decodesD: "mem_decodes F bs v0 v \<Longrightarrow> ald.decodes m a n F bs v0 v" "mem_decodes F bs v0 v \<Longrightarrow> und.decodes m a n F bs v0 v"
  by (simp_all only: mem_decodes_def)

lemma mem_stream_self: "mem_stream m a sz xdrs \<Longrightarrow> mem_stream (x_mem xdrs) a sz xdrs"
  by (simp add: mem_stream_def mem_inv_def xst_def)

lemma mem_stream_on: "mem_stream m a sz xdrs \<Longrightarrow> mem_stream m' a sz (xdrs\<lparr>x_mem := m'\<rparr>)"
  by (simp add: mem_stream_def mem_inv_def xst_def)

lemma encode_at:
  assumes F: "mem_encodes F v bs v'" and s: "mem_stream m a sz x0" and op: "x_op x0 = XDR_ENCODE"
    and l: "length (mem_out (xst x0)) + length bs \<le> unat sz"
  obtains x where "F x0 v = Some (True, x, v')" and "mem_stream m a sz x" and "x_op x = XDR_ENCODE"
    and "mem_out (xst x) = mem_out (xst x0) @ bs"
proof -
  have fits: "mem_fits (xst x0) (length bs + 0)"
    using s l by (auto simp: mem_stream_def mem_inv_def mem_fits_def mem_out_def xst_def)
  show thesis
  proof (cases "a mod 4 = 0")
    case True
    then have s0: "al.sinks m a (unat sz) x0" and r0: "al.room x0 (length bs + 0)"
      using s op fits by (simp_all add: al.sinks_def al.room_def mem_stream_def)
    obtain x where x: "F x0 v = Some (True, x, v')" "al.sinks m a (unat sz) x" "al.sent x = al.sent x0 @ bs"
      by (rule al.encodesE [OF mem_encodesD(1) [OF F] s0 r0])
    have "mem_stream m a sz x" "x_op x = XDR_ENCODE" "mem_out (xst x) = mem_out (xst x0) @ bs"
      using x(2,3) True by (simp_all add: al.sinks_def al.sent_def mem_stream_def)
    with x(1) show thesis by (rule that)
  next
    case False
    then have s0: "un.sinks m a (unat sz) x0" and r0: "un.room x0 (length bs + 0)"
      using s op fits by (simp_all add: un.sinks_def un.room_def mem_stream_def)
    obtain x where x: "F x0 v = Some (True, x, v')" "un.sinks m a (unat sz) x" "un.sent x = un.sent x0 @ bs"
      by (rule un.encodesE [OF mem_encodesD(2) [OF F] s0 r0])
    have "mem_stream m a sz x" "x_op x = XDR_ENCODE" "mem_out (xst x) = mem_out (xst x0) @ bs"
      using x(2,3) False by (simp_all add: un.sinks_def un.sent_def mem_stream_def)
    with x(1) show thesis by (rule that)
  qed
qed

lemma decode_at:
  assumes F: "mem_decodes F bs v0 v" and s: "mem_stream m a sz x0" and op: "x_op x0 = XDR_DECODE"
    and p: "mem_rest (xst x0) = bs @ rest"
  obtains x where "F x0 v0 = Some (True, x, v)" and "mem_stream m a sz x" and "x_op x = XDR_DECODE"
    and "mem_rest (xst x) = rest"
proof (cases "a mod 4 = 0")
  case True
  then have s0: "ald.sources m a (unat sz) x0" and p0: "ald.pending x0 = bs @ rest"
    using s op p by (simp_all add: ald.sources_def ald.pending_def mem_stream_def)
  obtain x where x: "F x0 v0 = Some (True, x, v)" "ald.sources m a (unat sz) x" "ald.pending x = rest"
    by (rule ald.decodesE [OF mem_decodesD(1) [OF F] s0 p0])
  have "mem_stream m a sz x" "x_op x = XDR_DECODE" "mem_rest (xst x) = rest"
    using x(2,3) True by (simp_all add: ald.sources_def ald.pending_def mem_stream_def)
  with x(1) show thesis by (rule that)
next
  case False
  then have s0: "und.sources m a (unat sz) x0" and p0: "und.pending x0 = bs @ rest"
    using s op p by (simp_all add: und.sources_def und.pending_def mem_stream_def)
  obtain x where x: "F x0 v0 = Some (True, x, v)" "und.sources m a (unat sz) x" "und.pending x = rest"
    by (rule und.decodesE [OF mem_decodesD(2) [OF F] s0 p0])
  have "mem_stream m a sz x" "x_op x = XDR_DECODE" "mem_rest (xst x) = rest"
    using x(2,3) False by (simp_all add: und.sources_def und.pending_def mem_stream_def)
  with x(1) show thesis by (rule that)
qed

lemma fresh_stream:
  "mem_out (xst (xdrmem_create m a sz op)) = []"
  "mem_rest (xst (xdrmem_create m a sz op)) = rd m a (unat sz)"
  "x_op (xdrmem_create m a sz op) = op"
  by (simp_all add: xdrmem_create_def xst_def mem_out_def mem_rest_def)

lemma mem_out_rd:
  "mem_stream m a sz xdrs \<Longrightarrow> rd (x_mem xdrs) a (length (mem_out (xst xdrs))) = mem_out (xst xdrs)"
  by (simp add: mem_stream_def mem_inv_def mem_out_def xst_def)

lemma mem_stream_pos:
  assumes "mem_stream m a sz xdrs"
  shows "XDR_GETPOS xdrs = Some (of_nat (length (mem_out (xst xdrs))))"
    and "length (mem_out (xst xdrs)) \<le> unat sz"
proof -
  have "x_ops xdrs \<in> {xdrmem_ops_aligned, xdrmem_ops_unaligned}" "m_base (x_private xdrs) = a"
    "m_private (x_private xdrs) = a + length (mem_out (xst xdrs))"
    using assms by (auto simp: mem_stream_def mem_inv_def mem_out_def xst_def split: if_splits)
  then show "XDR_GETPOS xdrs = Some (of_nat (length (mem_out (xst xdrs))))" by (rule xdrmem_pos)
  show "length (mem_out (xst xdrs)) \<le> unat sz"
    using assms by (auto simp: mem_stream_def mem_inv_def mem_out_def xst_def)
qed

end
