(* ===== verification/Raw_Stream.thy ===== *)
theory Raw_Stream
  imports Raw Auth_Accept Svc_Serve Buf_Stream
begin

text \<open>
  The two streams on the shared buffer: what the client encodes the server decodes, and back.
\<close>

section \<open>Filters on either memory stream\<close>

text \<open>A handle on the buffer at \<open>a\<close>, whatever the memory and the position.\<close>

definition buf_stream :: "addr \<Rightarrow> memstrm XDR \<Rightarrow> bool" where
  "buf_stream a xdrs \<longleftrightarrow> mem_stream (x_mem xdrs) a UDPMSGSIZE_raw xdrs"

lemma buf_stream_mem [simp]: "buf_stream a (xdrs\<lparr>x_mem := m\<rparr>) = buf_stream a xdrs"
  by (simp add: buf_stream_def mem_stream_def mem_inv_def xst_def)

lemma buf_stream_op [simp]: "buf_stream a (xdrs\<lparr>x_op := op\<rparr>) = buf_stream a xdrs"
  by (simp add: buf_stream_def)

lemma mem_stream_buf: "mem_stream m a UDPMSGSIZE_raw xdrs \<Longrightarrow> buf_stream a xdrs"
  by (simp add: buf_stream_def mem_stream_def mem_inv_def xst_def)

lemma buf_stream_create: "a \<noteq> 0 \<Longrightarrow> buf_stream a (xdrmem_create m a UDPMSGSIZE_raw op)"
  by (rule mem_stream_buf) (rule mem_stream_create)

lemma buf_stream_rewind:
  "buf_stream a xdrs \<Longrightarrow> XDR_SETPOS (xdrs\<lparr>x_op := op\<rparr>) 0 = Some (True, xdrmem_create (x_mem xdrs) a UDPMSGSIZE_raw op)"
  by (simp add: buf_stream_def xdrmem_rewind)

lemma unat_UDPMSGSIZE_raw [simp]: "unat UDPMSGSIZE_raw = 8800"
  by (simp add: UDPMSGSIZE_raw_def)

lemma buf_encode:
  assumes F: "mem_encodes F v bs v'" and a: "a \<noteq> 0" and l: "length bs \<le> 8800"
  obtains x where "F (xdrmem_create m a UDPMSGSIZE_raw XDR_ENCODE) v = Some (True, x, v')" and "buf_stream a x"
    and "rd (x_mem x) a (length bs) = bs"
proof -
  let ?x0 = "xdrmem_create m a UDPMSGSIZE_raw XDR_ENCODE"
  have l': "length (mem_out (xst ?x0)) + length bs \<le> unat UDPMSGSIZE_raw" using l by (simp add: fresh_stream)
  obtain x where x: "F ?x0 v = Some (True, x, v')" "mem_stream m a UDPMSGSIZE_raw x" "mem_out (xst x) = mem_out (xst ?x0) @ bs"
    by (rule encode_at [OF F mem_stream_create [OF a] fresh_stream(3) l'])
  have "rd (x_mem x) a (length bs) = bs" using mem_out_rd [OF x(2)] x(3) by (simp add: fresh_stream)
  with x(1) mem_stream_buf [OF x(2)] show thesis by (rule that)
qed

lemma buf_decode:
  assumes F: "mem_decodes F bs v0 v" and a: "a \<noteq> 0" and r: "rd m a (length (bs @ cs)) = bs @ cs" and l: "length (bs @ cs) \<le> 8800"
  obtains x rest where "F (xdrmem_create m a UDPMSGSIZE_raw XDR_DECODE) v0 = Some (True, x, v)" and "buf_stream a x"
    and "x_op x = XDR_DECODE" and "mem_rest (xst x) = cs @ rest"
proof -
  let ?x0 = "xdrmem_create m a UDPMSGSIZE_raw XDR_DECODE" and ?n = "length (bs @ cs)"
  have le: "unat UDPMSGSIZE_raw = ?n + (8800 - ?n)" using l by simp
  have rest: "mem_rest (xst ?x0) = bs @ cs @ rd m (a + ?n) (8800 - ?n)"
    unfolding fresh_stream(2) le rd_add r by simp
  obtain x where x: "F ?x0 v0 = Some (True, x, v)" "mem_stream m a UDPMSGSIZE_raw x" "x_op x = XDR_DECODE"
    "mem_rest (xst x) = cs @ rd m (a + ?n) (8800 - ?n)"
    by (rule decode_at [OF F mem_stream_create [OF a] fresh_stream(3) rest])
  show thesis by (rule that [OF x(1) mem_stream_buf [OF x(2)] x(3,4)])
qed

text \<open>Decoding from where the stream is.\<close>

lemma buf_decode_at:
  assumes F: "mem_decodes F bs v0 v" and s: "buf_stream a xdrs" "x_op xdrs = XDR_DECODE" and p: "mem_rest (xst xdrs) = bs @ rest"
  obtains x where "F xdrs v0 = Some (True, x, v)" and "buf_stream a x" and "x_op x = XDR_DECODE" and "mem_rest (xst x) = rest"
proof -
  have s': "mem_stream (x_mem xdrs) a UDPMSGSIZE_raw xdrs" using s(1) by (simp add: buf_stream_def)
  obtain x where x: "F xdrs v0 = Some (True, x, v)" "mem_stream (x_mem xdrs) a UDPMSGSIZE_raw x" "x_op x = XDR_DECODE"
    "mem_rest (xst x) = rest"
    by (rule decode_at [OF F s' s(2) p])
  show thesis by (rule that [OF x(1) mem_stream_buf [OF x(2)] x(3,4)])
qed

section \<open>Authenticators of either flavor\<close>

definition AUTH_cred :: "AUTH \<Rightarrow> opaque_auth" where
  "AUTH_cred auth = (case auth of Auth_none _ \<Rightarrow> null_auth | Auth_unix au \<Rightarrow> ah_cred au)"

definition AUTH_inv :: "auth_env \<Rightarrow> byte list \<Rightarrow> 32 word \<Rightarrow> 32 word \<Rightarrow> 32 word list \<Rightarrow> AUTH \<Rightarrow> bool" where
  "AUTH_inv ae s uid gid gs auth = (case auth of
     Auth_none priv \<Rightarrow> none_inv priv
   | Auth_unix au \<Rightarrow> auth_env_ok ae \<and> auth_of s uid gid gs au)"

interpretation client_auth: authenticator AUTH_MARSHALL "AUTH_VALIDATE ae" "AUTH_REFRESH ae" "AUTH_inv ae s uid gid gs" AUTH_cred
  for ae s uid gid gs
proof (unfold_locales, goal_cases)
  case (1 a)
  then show ?case
    using sys.cred_valid [of ae s uid gid gs] by (auto simp: AUTH_inv_def AUTH_cred_def none.cred_valid split: AUTH.splits)
next
  case (2 a)
  show ?case
  proof (cases a)
    case (Auth_none priv)
    with 2 have "none_inv priv" by (simp add: AUTH_inv_def)
    from none.marshal_wire [OF this] show ?thesis by (simp add: Auth_none AUTH_MARSHALL_def AUTH_cred_def)
  next
    case (Auth_unix au)
    with 2 have "auth_env_ok ae \<and> auth_of s uid gid gs au" by (simp add: AUTH_inv_def)
    from sys.marshal_wire [OF this] show ?thesis by (simp add: Auth_unix AUTH_MARSHALL_def AUTH_cred_def)
  qed
next
  case (3 a v)
  then show ?case
    using sys.validate_plain [of ae s uid gid gs _ v] none.validate_plain [of _ v]
    by (auto simp: AUTH_inv_def AUTH_VALIDATE_def split: AUTH.splits)
next
  case (4 a)
  then show ?case
    using sys.refresh_inv [of ae s uid gid gs] none.refresh_inv
    by (auto simp: AUTH_inv_def AUTH_REFRESH_def split: AUTH.splits) blast+
qed

end
