(* ===== verification/Raw_Exchange.thy ===== *)
theory Raw_Exchange
  imports Raw_Stream
begin

text \<open>
  A call from the client through the shared buffer to the server and back: each step of it, and
  the whole for a server that answers with any reply.
\<close>

section \<open>The state between two steps\<close>

definition raw_ready :: "addr \<Rightarrow> xptr \<Rightarrow> 32 word \<Rightarrow> 32 word \<Rightarrow> AUTH \<Rightarrow> ('d, 'o) raw_state \<Rightarrow> bool" where
  "raw_ready a xp prog vers auth st \<longleftrightarrow> a \<noteq> 0 \<and>
     (\<exists>srp. svc_raw_private (svc_world st) = Some srp \<and> buf_stream a (srp_stream srp)) \<and>
     (\<exists>clp xid rest. clntraw_private (svc_world st) = Some clp \<and> buf_stream a (clp_stream clp) \<and> clp_mcnt clp = 20 \<and>
        mashl_callmsg clp = be32 xid @ be32 CALL @ be32 RPC_MSG_VERSION @ be32 prog @ be32 vers @ rest \<and> cl_auth clp = Some auth) \<and>
     alive xp st \<noteq> None \<and> xport_at FD_SETSIZE st = Some (Some xp)"

text \<open>What the streams do not touch.\<close>

definition raw_frame :: "('d, 'o) raw_state \<Rightarrow> _" where
  "raw_frame st = (svc_head st, xprts st, svc_xports st, rw_other (svc_world st))"

definition raw_pending :: "('d, 'o) raw_state \<Rightarrow> byte list \<Rightarrow> bool" where
  "raw_pending st bs \<longleftrightarrow> (\<exists>srp rest. svc_raw_private (svc_world st) = Some srp \<and> x_op (srp_stream srp) = XDR_DECODE \<and>
     mem_rest (xst (srp_run srp st)) = bs @ rest)"

definition raw_holds :: "addr \<Rightarrow> ('d, 'o) raw_state \<Rightarrow> byte list \<Rightarrow> bool" where
  "raw_holds a st bs \<longleftrightarrow> rd (rw_mem (svc_world st)) a (length bs) = bs \<and> length bs \<le> 8800"

lemma xport_at_frame: "svc_xports st = svc_xports st' \<Longrightarrow> xport_at fd st = xport_at fd st'"
  by (simp add: xport_at_def)

lemma srp_back_simps [simp]:
  "raw_frame (srp_back srp xdrs st) = raw_frame st" "clntraw_private (svc_world (srp_back srp xdrs st)) = clntraw_private (svc_world st)"
  "svc_raw_private (svc_world (srp_back srp xdrs st)) = Some (srp\<lparr>srp_stream := xdrs\<rparr>)"
  "rw_mem (svc_world (srp_back srp xdrs st)) = x_mem xdrs" "srp_run (srp\<lparr>srp_stream := xdrs\<rparr>) (srp_back srp xdrs st) = xdrs"
  "alive xp (srp_back srp xdrs st) = alive xp st" "xport_at fd (srp_back srp xdrs st) = xport_at fd st"
  by (simp_all add: srp_back_def raw_frame_def srp_run_def alive_def xport_at_def)

lemma clp_back_simps [simp]:
  "raw_frame (clp_back clp xdrs st) = raw_frame st" "svc_raw_private (svc_world (clp_back clp xdrs st)) = svc_raw_private (svc_world st)"
  "clntraw_private (svc_world (clp_back clp xdrs st)) = Some (clp\<lparr>clp_stream := xdrs\<rparr>)"
  "rw_mem (svc_world (clp_back clp xdrs st)) = x_mem xdrs"
  "alive xp (clp_back clp xdrs st) = alive xp st" "xport_at fd (clp_back clp xdrs st) = xport_at fd st"
  by (simp_all add: clp_back_def raw_frame_def alive_def xport_at_def)

lemma raw_ready_srp:
  "raw_ready a xp prog vers auth st \<Longrightarrow> buf_stream a xdrs \<Longrightarrow> raw_ready a xp prog vers auth (srp_back srp xdrs st)"
  by (simp add: raw_ready_def)

lemma raw_readyE:
  assumes "raw_ready a xp prog vers auth st"
  obtains srp where "svc_raw_private (svc_world st) = Some srp" and "buf_stream a (srp_stream srp)"
  using assms by (auto simp: raw_ready_def)

section \<open>The client's request\<close>

definition raw_call_bytes :: "32 word \<Rightarrow> 32 word \<Rightarrow> 32 word \<Rightarrow> 32 word \<Rightarrow> opaque_auth \<Rightarrow> byte list" where
  "raw_call_bytes xid prog vers proc cred = be32 xid @ be32 CALL @ be32 RPC_MSG_VERSION @ be32 prog @ be32 vers @
     be32 proc @ auth_bytes cred @ auth_bytes null_auth"

definition raw_call_msg :: "(memstrm, 'v) trpc_msg \<Rightarrow> 32 word \<Rightarrow> 32 word \<Rightarrow> 32 word \<Rightarrow> 32 word \<Rightarrow> opaque_auth \<Rightarrow> (memstrm, 'v) trpc_msg" where
  "raw_call_msg msg0 xid prog vers proc cred = msg0\<lparr>trm_xid := xid, trm_direction := CALL,
     trm_call := \<lparr>tcb_rpcvers = RPC_MSG_VERSION, tcb_prog = prog, tcb_vers = vers,
       tcb_proc = proc, tcb_cred = cred, tcb_verf = null_auth\<rparr>\<rparr>"

lemma raw_call_msg_ok: "valid_auth cred \<Longrightarrow> call_ok (raw_call_msg msg0 xid prog vers proc cred)"
  by (simp add: call_ok_def raw_call_msg_def null_auth_wire)

lemma raw_call_msg_bytes: "tcallmsg_bytes (raw_call_msg msg0 xid prog vers proc cred) = raw_call_bytes xid prog vers proc cred"
  by (simp add: tcallmsg_bytes_def tcallmsg_head_def raw_call_msg_def raw_call_bytes_def)

lemma incr_xid_be32: "\<exists>xid'. incr_xid (be32 xid @ bs) = be32 xid' @ bs"
proof -
  let ?w = "of_le32 (be32 xid) + 1"
  have "le32 ?w = be32 (htonl ?w)" by (simp add: be32_def htonl_def)
  then show ?thesis by (auto simp: incr_xid_def)
qed

text \<open>Bytes and words put on the stream by hand, as filters that leave their object alone.\<close>

definition putting :: "('s XDR \<Rightarrow> (bool \<times> 's XDR) option) \<Rightarrow> ('s, 'a) xdrproc_t" where
  "putting P xdrs v = do { (ok, xdrs) \<leftarrow> P xdrs; Some (ok, xdrs, v) }"

context xdr_sink
begin

lemma encodes_putting_bytes:
  assumes bs: "take (unat len) buf = bs" and len: "unat len = length bs"
  shows "encodes (putting (\<lambda>xdrs. XDR_PUTBYTES xdrs buf len)) v bs v"
proof (rule encodesI)
  fix xdrs k
  assume s: "sinks xdrs" and "room xdrs (length bs + k)"
  then have r: "room xdrs (unat len + k)" by (simp add: len)
  have l: "unat len \<le> length buf" using arg_cong [OF bs, of length] len by simp
  show "\<exists>xdrs'. putting (\<lambda>xdrs. XDR_PUTBYTES xdrs buf len) xdrs v = Some (True, xdrs', v) \<and> sinks xdrs' \<and>
      sent xdrs' = sent xdrs @ bs \<and> room xdrs' k"
    by (rule XDR_PUTBYTES_ok [OF s r l]) (simp add: bs putting_def)
qed

lemma encodes_putting_word: "encodes (putting (\<lambda>xdrs. XDR_PUTLONG xdrs (scast w))) v (be32 w) v"
proof (rule encodesI)
  fix xdrs k
  assume s: "sinks xdrs" and "room xdrs (length (be32 w) + k)"
  then have r: "room xdrs (4 + k)" by simp
  show "\<exists>xdrs'. putting (\<lambda>xdrs. XDR_PUTLONG xdrs (scast w)) xdrs v = Some (True, xdrs', v) \<and> sinks xdrs' \<and>
      sent xdrs' = sent xdrs @ be32 w \<and> room xdrs' k"
    by (rule XDR_PUTLONG_ok [OF s r, of "scast w"]) (simp add: putting_def)
qed

end

lemma mem_encodes_and_then:
  "mem_encodes F v bs v1 \<Longrightarrow> mem_encodes G v1 cs v2 \<Longrightarrow> mem_encodes (\<lambda>xdrs v. and_then (F xdrs v) G) v (bs @ cs) v2"
  unfolding mem_encodes_def by (blast intro: al.encodes_and_then un.encodes_and_then)

lemma mem_encodes_putting_bytes:
  "take (unat len) buf = bs \<Longrightarrow> unat len = length bs \<Longrightarrow> mem_encodes (putting (\<lambda>xdrs. XDR_PUTBYTES xdrs buf len)) v bs v"
  by (simp only: mem_encodes_def al.encodes_putting_bytes un.encodes_putting_bytes simp_thms)

lemma mem_encodes_putting_word: "mem_encodes (putting (\<lambda>xdrs. XDR_PUTLONG xdrs (scast w))) v (be32 w) v"
  by (simp only: mem_encodes_def al.encodes_putting_word un.encodes_putting_word simp_thms)

lemma raw_request_steps:
  "raw_request clp auth proc xargs = (\<lambda>xdrs v. and_then (and_then (and_then
     (putting (\<lambda>xdrs. XDR_PUTBYTES xdrs (mashl_callmsg clp) (clp_mcnt clp)) xdrs v)
     (putting (\<lambda>xdrs. XDR_PUTLONG xdrs (scast proc))))
     (putting (AUTH_MARSHALL auth))) xargs)"
  by (intro ext) (auto simp: raw_request_def putting_def and_then_def split: option.split bind_split)

lemma client_sends:
  assumes r: "raw_ready a xp prog vers auth st" and auth: "AUTH_inv ae s uid gid gs auth"
    and args: "mem_encodes xargs argsp bs argsp'" and len: "length bs \<le> 7900"
  obtains clp xid x0 x where "clntraw_private (svc_world st) = Some clp" and "cl_auth clp = Some auth"
    and "XDR_SETPOS ((clp_run clp st)\<lparr>x_op := XDR_ENCODE\<rparr>) 0 = Some (True, x0)"
    and "raw_request (clp\<lparr>mashl_callmsg := incr_xid (mashl_callmsg clp)\<rparr>) auth proc xargs x0 argsp = Some (True, x, argsp')"
    and "raw_ready a xp prog vers auth (clp_back (clp\<lparr>mashl_callmsg := incr_xid (mashl_callmsg clp)\<rparr>) x st)"
    and "raw_holds a (clp_back (clp\<lparr>mashl_callmsg := incr_xid (mashl_callmsg clp)\<rparr>) x st)
      (raw_call_bytes xid prog vers proc (AUTH_cred auth) @ bs)"
proof -
  obtain clp xid0 rest where clp: "clntraw_private (svc_world st) = Some clp" "buf_stream a (clp_stream clp)" "clp_mcnt clp = 20"
      "mashl_callmsg clp = be32 xid0 @ be32 CALL @ be32 RPC_MSG_VERSION @ be32 prog @ be32 vers @ rest" "cl_auth clp = Some auth"
    and a: "a \<noteq> 0" using r by (auto simp: raw_ready_def)
  let ?clp = "clp\<lparr>mashl_callmsg := incr_xid (mashl_callmsg clp)\<rparr>"
  let ?cred = "AUTH_cred auth"
  obtain xid where h: "mashl_callmsg ?clp = be32 xid @ be32 CALL @ be32 RPC_MSG_VERSION @ be32 prog @ be32 vers @ rest"
    using incr_xid_be32 [of xid0] by (auto simp: clp(4))
  let ?h = "be32 xid @ be32 CALL @ be32 RPC_MSG_VERSION @ be32 prog @ be32 vers"
  have h1: "take (unat (clp_mcnt ?clp)) (mashl_callmsg ?clp) = ?h" "unat (clp_mcnt ?clp) = length ?h"
    unfolding h by (simp_all add: clp(3))
  obtain buf n where m: "\<And>xdrs :: memstrm XDR. AUTH_MARSHALL auth xdrs = XDR_PUTBYTES xdrs buf n"
    "unat n = length (auth_bytes ?cred @ auth_bytes null_auth)" "take (unat n) buf = auth_bytes ?cred @ auth_bytes null_auth"
    using client_auth.marshal_E [OF auth, where ?'a = memstrm] by blast
  have m': "AUTH_MARSHALL auth = (\<lambda>xdrs :: memstrm XDR. XDR_PUTBYTES xdrs buf n)" by (rule ext) (rule m(1))
  let ?bs = "((?h @ be32 proc) @ (auth_bytes ?cred @ auth_bytes null_auth)) @ bs"
  have req: "mem_encodes (raw_request ?clp auth proc xargs) argsp ?bs argsp'"
    unfolding raw_request_steps m'
    by (rule mem_encodes_and_then [OF mem_encodes_and_then [OF mem_encodes_and_then [OF
          mem_encodes_putting_bytes [OF h1] mem_encodes_putting_word] mem_encodes_putting_bytes [OF m(3,2)]] args])
  have bs: "?bs = raw_call_bytes xid prog vers proc ?cred @ bs"
    by (simp add: raw_call_bytes_def)
  have "valid_auth ?cred" by (rule client_auth.cred_valid [OF auth])
  then have l: "length ?bs \<le> 8800"
    using len auth_bytes_le [of ?cred] by (simp add: null_auth_wire)
  obtain x where x: "raw_request ?clp auth proc xargs (xdrmem_create (rw_mem (svc_world st)) a UDPMSGSIZE_raw XDR_ENCODE) argsp = Some (True, x, argsp')"
    "buf_stream a x" "rd (x_mem x) a (length ?bs) = ?bs"
    by (rule buf_encode [OF req a l])
  have set0: "XDR_SETPOS ((clp_run clp st)\<lparr>x_op := XDR_ENCODE\<rparr>) 0 = Some (True, xdrmem_create (rw_mem (svc_world st)) a UDPMSGSIZE_raw XDR_ENCODE)"
    using buf_stream_rewind [of a "clp_run clp st" XDR_ENCODE] clp(2) by (simp add: clp_run_def)
  have ready: "raw_ready a xp prog vers auth (clp_back ?clp x st)"
    using r x(2) clp h by (auto simp: raw_ready_def)
  have holds: "raw_holds a (clp_back ?clp x st) (raw_call_bytes xid prog vers proc ?cred @ bs)"
    using x(3) l unfolding bs raw_holds_def by simp
  show thesis by (rule that [OF clp(1,5) set0 x(1) ready holds])
qed

section \<open>The server\<close>

text \<open>The message as the server has it: \<open>msg0\<close>, into which the call was decoded.\<close>

definition raw_received :: "(nat \<Rightarrow> bool) \<Rightarrow> (memstrm, 'v) trpc_msg \<Rightarrow> 32 word \<Rightarrow> 32 word \<Rightarrow> 32 word \<Rightarrow> 32 word \<Rightarrow> opaque_auth \<Rightarrow> (memstrm, 'v) trpc_msg" where
  "raw_received avail msg0 xid prog vers proc cred = msg_decoded avail msg0 (raw_call_msg msg0 xid prog vers proc cred)"

lemma server_receives:
  assumes r: "raw_ready a xp prog vers auth st" and c: "valid_auth cred"
    and h: "raw_holds a st (raw_call_bytes xid p v proc cred @ bs)"
    and room: "auth_room avail (tcb_cred (trm_call msg0)) cred"
  obtains st' where "svc_raw_recv avail msg0 st = Some (True, raw_received avail msg0 xid p v proc cred, st')"
    and "raw_ready a xp prog vers auth st'" and "raw_frame st' = raw_frame st" and "raw_pending st' bs"
proof -
  let ?m = "raw_call_msg msg0 xid p v proc cred"
  have a: "a \<noteq> 0" using r by (simp add: raw_ready_def)
  obtain srp where srp: "svc_raw_private (svc_world st) = Some srp" "buf_stream a (srp_stream srp)"
    by (rule raw_readyE [OF r])
  have "msg_room avail msg0 ?m"
    using room by (simp add: msg_room_def raw_call_msg_def) (simp add: auth_room_def null_auth_def)
  then have d: "mem_decodes (xdr_callmsg avail) (raw_call_bytes xid p v proc cred) msg0 (raw_received avail msg0 xid p v proc cred)"
    unfolding raw_call_msg_bytes [symmetric, of _ _ _ _ _ msg0] raw_received_def
    by (simp only: mem_decodes_def ald.decodes_tcallmsg und.decodes_tcallmsg raw_call_msg_ok [OF c] simp_thms)
  have m: "rd (rw_mem (svc_world st)) a (length (raw_call_bytes xid p v proc cred @ bs)) = raw_call_bytes xid p v proc cred @ bs"
    "length (raw_call_bytes xid p v proc cred @ bs) \<le> 8800"
    using h unfolding raw_holds_def by blast+
  obtain x rest where x: "xdr_callmsg avail (xdrmem_create (rw_mem (svc_world st)) a UDPMSGSIZE_raw XDR_DECODE) msg0 =
      Some (True, x, raw_received avail msg0 xid p v proc cred)" "buf_stream a x" "x_op x = XDR_DECODE" "mem_rest (xst x) = bs @ rest"
    by (rule buf_decode [OF d a m])
  have set0: "XDR_SETPOS ((srp_run srp st)\<lparr>x_op := XDR_DECODE\<rparr>) 0 = Some (True, xdrmem_create (rw_mem (svc_world st)) a UDPMSGSIZE_raw XDR_DECODE)"
    using buf_stream_rewind [of a "srp_run srp st" XDR_DECODE] srp(2) by (simp add: srp_run_def)
  have "svc_raw_recv avail msg0 st = Some (True, raw_received avail msg0 xid p v proc cred, srp_back srp x st)"
    by (simp add: svc_raw_recv_def srp(1) Let_def set0 x(1))
  moreover have "raw_pending (srp_back srp x st) bs"
    using x(3,4) by (simp add: raw_pending_def)
  ultimately show thesis using raw_ready_srp [OF r x(2)] by (intro that) simp_all
qed

lemma server_getargs:
  assumes r: "raw_ready a xp prog vers auth st" and p: "raw_pending st bs" and F: "mem_decodes F bs v0 v"
  obtains st' where "svc_raw_getargs F v0 st = Some (True, v, st')" and "raw_ready a xp prog vers auth st'"
    and "raw_frame st' = raw_frame st"
proof -
  obtain srp rest where srp: "svc_raw_private (svc_world st) = Some srp" "x_op (srp_stream srp) = XDR_DECODE" "mem_rest (xst (srp_run srp st)) = bs @ rest"
    using p by (auto simp: raw_pending_def)
  have b: "buf_stream a (srp_run srp st)" "x_op (srp_run srp st) = XDR_DECODE"
    using r srp(1,2) by (auto simp: raw_ready_def srp_run_def)
  obtain x where x: "F (srp_run srp st) v0 = Some (True, x, v)" "buf_stream a x"
    by (rule buf_decode_at [OF F b srp(3)])
  show thesis
    using raw_ready_srp [OF r x(2), of srp] x(1) srp(1)
    by (intro that [of "srp_back srp x st"]) (simp_all add: svc_raw_getargs_def)
qed

lemma server_replies:
  assumes r: "raw_ready a xp prog vers auth st" and ok: "treply_ok msg" and l: "length (treply_bytes msg bs) \<le> 8800"
    and res: "accepted_succeeded msg \<Longrightarrow> \<exists>proc. tar_proc (trp_acpt (trm_reply msg)) = Some proc \<and>
      mem_encodes proc (tar_where (trp_acpt (trm_reply msg))) bs (tar_where (trp_acpt (trm_reply msg)))"
  obtains st' where "svc_raw_reply avail msg st = Some (True, st')" and "raw_ready a xp prog vers auth st'"
    and "raw_frame st' = raw_frame st" and "raw_holds a st' (treply_bytes msg bs)"
proof -
  have a: "a \<noteq> 0" using r by (simp add: raw_ready_def)
  obtain srp where srp: "svc_raw_private (svc_world st) = Some srp" "buf_stream a (srp_stream srp)"
    by (rule raw_readyE [OF r])
  have "mem_encodes (xdr_replymsg avail) msg (treply_bytes msg bs) msg"
    unfolding mem_encodes_def
  proof (intro allI conjI)
    fix m b n
    show "al.encodes m b n (xdr_replymsg avail) msg (treply_bytes msg bs) msg"
      by (rule al.encodes_treplymsg [OF ok]) (use res in \<open>auto dest: mem_encodesD\<close>)
    show "un.encodes m b n (xdr_replymsg avail) msg (treply_bytes msg bs) msg"
      by (rule un.encodes_treplymsg [OF ok]) (use res in \<open>auto dest: mem_encodesD\<close>)
  qed
  then obtain x where x: "xdr_replymsg avail (xdrmem_create (rw_mem (svc_world st)) a UDPMSGSIZE_raw XDR_ENCODE) msg = Some (True, x, msg)"
    "buf_stream a x" "rd (x_mem x) a (length (treply_bytes msg bs)) = treply_bytes msg bs"
    by (rule buf_encode [OF _ a l])
  have set0: "XDR_SETPOS ((srp_run srp st)\<lparr>x_op := XDR_ENCODE\<rparr>) 0 = Some (True, xdrmem_create (rw_mem (svc_world st)) a UDPMSGSIZE_raw XDR_ENCODE)"
    using buf_stream_rewind [of a "srp_run srp st" XDR_ENCODE] srp(2) by (simp add: srp_run_def)
  have "svc_raw_reply avail msg st = Some (True, srp_back srp x st)"
    by (simp add: svc_raw_reply_def srp(1) Let_def set0 x(1))
  moreover have "raw_holds a (srp_back srp x st) (treply_bytes msg bs)" using x(3) l by (simp add: raw_holds_def)
  ultimately show thesis using raw_ready_srp [OF r x(2)] by (intro that) simp_all
qed

section \<open>The client's answer\<close>

lemma seterr_success: "re_status (seterr_reply msg error) = RPC_SUCCESS \<longleftrightarrow> accepted_succeeded msg"
  by (auto simp: seterr_reply_def seterr_details_def accepted_def rejected_def accepted_succeeded_def msg_enums
      split: clnt_stat.splits if_splits)

lemma client_receives:
  assumes r: "raw_ready a xp prog vers auth st" and auth: "AUTH_inv ae s uid gid gs auth" "AUTH_REFRESH ae auth = Some (False, auth)"
    and h: "raw_holds a st (treply_bytes msg rs)" and ok: "treply_ok msg"
    and verf: "oa_length (tar_verf (trp_acpt (trm_reply msg))) = 0" "oa_flavor (tar_verf (trp_acpt (trm_reply msg))) \<noteq> AUTH_SHORT"
    and res: "accepted_succeeded msg \<Longrightarrow> mem_decodes xresults rs resultsp res"
  obtains clp x0 x msg' where "clntraw_private (svc_world st) = Some clp" and "cl_auth clp = Some auth"
    and "XDR_SETPOS ((clp_run clp st)\<lparr>x_op := XDR_DECODE\<rparr>) 0 = Some (True, x0)"
    and "raw_answer avail ae msg0 error0 auth xresults resultsp x0 = Some (False, re_status (seterr_reply msg error0), msg', auth, x)"
    and "tar_where (trp_acpt (trm_reply msg')) = (if accepted_succeeded msg then res else resultsp)"
    and "raw_ready a xp prog vers auth (clp_back (clp\<lparr>cl_auth := Some auth\<rparr>) x st)"
proof -
  obtain clp where clp: "clntraw_private (svc_world st) = Some clp" "buf_stream a (clp_stream clp)" "cl_auth clp = Some auth"
    and a: "a \<noteq> 0" using r by (auto simp: raw_ready_def)
  let ?old = "msg0\<lparr>trm_reply := (trm_reply msg0)\<lparr>trp_acpt := (trp_acpt (trm_reply msg0))\<lparr>
           tar_verf := null_auth, tar_where := resultsp, tar_proc := Some xresults\<rparr>\<rparr>\<rparr>"
  define w where "w = (if accepted_succeeded msg then res else resultsp)"
  let ?msg = "reply_decoded avail ?old msg w"
  have d: "mem_decodes (xdr_replymsg avail) (treply_bytes msg rs) ?old ?msg"
    unfolding mem_decodes_def
  proof (intro allI conjI)
    fix m b n
    show "ald.decodes m b n (xdr_replymsg avail) (treply_bytes msg rs) ?old ?msg"
      by (rule ald.decodes_treplymsg [OF ok]) (use res verf in \<open>auto simp: auth_room_def w_def dest: mem_decodesD\<close>)
    show "und.decodes m b n (xdr_replymsg avail) (treply_bytes msg rs) ?old ?msg"
      by (rule und.decodes_treplymsg [OF ok]) (use res verf in \<open>auto simp: auth_room_def w_def dest: mem_decodesD\<close>)
  qed
  have m: "rd (rw_mem (svc_world st)) a (length (treply_bytes msg rs @ [])) = treply_bytes msg rs @ []"
    "length (treply_bytes msg rs @ []) \<le> 8800"
    using h by (simp_all add: raw_holds_def)
  let ?start = "xdrmem_create (rw_mem (svc_world st)) a UDPMSGSIZE_raw XDR_DECODE"
  obtain x where x: "xdr_replymsg avail ?start ?old = Some (True, x, ?msg)" "buf_stream a x"
    by (rule buf_decode [OF d a m])
  have set0: "XDR_SETPOS ((clp_run clp st)\<lparr>x_op := XDR_DECODE\<rparr>) 0 = Some (True, ?start)"
    using buf_stream_rewind [of a "clp_run clp st" XDR_DECODE] clp(2) by (simp add: clp_run_def)
  have st: "re_status (seterr_reply ?msg error0) = re_status (seterr_reply msg error0)"
    by (simp add: seterr_reply_decoded [OF ok])
  have v: "tar_verf (trp_acpt (trm_reply ?msg)) = (tar_verf (trp_acpt (trm_reply msg)))\<lparr>oa_base := None\<rparr>" if "accepted_succeeded msg"
    using that verf(1) by (simp add: accepted_succeeded_def reply_decoded_def accepted_decoded_def auth_decoded_def null_auth_def Let_def)
  have val: "AUTH_VALIDATE ae auth v = Some (True, auth)" if "oa_flavor v \<noteq> AUTH_SHORT" for v
    by (rule client_auth.validate_plain [OF auth(1) that])
  have ans: "raw_answer avail ae msg0 error0 auth xresults resultsp ?start = Some (False, re_status (seterr_reply msg error0), ?msg, auth, x)"
  proof (cases "accepted_succeeded msg")
    case True
    then show ?thesis
      unfolding raw_answer_def Let_def x(1) bind.bind_lunit prod.case st
      using seterr_success [of msg error0] verf(2) by (simp add: v [OF True] val)
  next
    case False
    then show ?thesis
      unfolding raw_answer_def Let_def x(1) bind.bind_lunit prod.case st
      using seterr_success [of msg error0] by (simp add: auth(2))
  qed
  have at: "tar_where (trp_acpt (trm_reply ?msg)) = w"
    using ok by (auto simp: w_def accepted_succeeded_def reply_decoded_def accepted_decoded_def Let_def)
  have ready: "raw_ready a xp prog vers auth (clp_back (clp\<lparr>cl_auth := Some auth\<rparr>) x st)"
    using r x(2) clp by (auto simp: raw_ready_def)
  show thesis by (rule that [OF clp(1,3) set0 ans trans [OF at w_def] ready])
qed

section \<open>The whole call\<close>

text \<open>A server that answers every call it receives with some reply answers this one.\<close>

lemma raw_exchange:
  assumes r: "raw_ready a xp prog vers auth st" and auth: "AUTH_inv (ae 0) s uid gid gs auth" "AUTH_REFRESH (ae 0) auth = Some (False, auth)"
    and args: "mem_encodes xargs argsp bs argsp'" "length bs \<le> 7900"
    and E: "E = svc_raw_ops xp E0" and room: "auth_room (sv_avail E) (tcb_cred (trm_call (local_msg E))) (AUTH_cred auth)"
    and served: "\<And>xid st1. raw_ready a xp prog vers auth st1 \<Longrightarrow> raw_frame st1 = raw_frame st \<Longrightarrow> raw_pending st1 bs \<Longrightarrow>
      \<exists>skip st2 rmsg rs. serve_call E xp (raw_received (sv_avail E) (local_msg E) xid prog vers proc (AUTH_cred auth)) st1 = Some (skip, st2) \<and>
        raw_ready a xp prog vers auth st2 \<and> raw_holds a st2 (treply_bytes (rmsg :: (memstrm, 'v) trpc_msg) rs) \<and> treply_ok rmsg \<and>
        oa_length (tar_verf (trp_acpt (trm_reply rmsg))) = 0 \<and> oa_flavor (tar_verf (trp_acpt (trm_reply rmsg))) \<noteq> AUTH_SHORT \<and>
        (accepted_succeeded rmsg \<longrightarrow> mem_decodes xresults rs resultsp res) \<and>
        status = re_status (seterr_reply rmsg error0) \<and> (status = RPC_SUCCESS \<longleftrightarrow> success) \<and> Q (raw_frame st2)"
  shows "\<exists>st'. clnt_raw_call E ae msg0 error0 proc xargs argsp xresults resultsp st =
      Some (status, if success then res else resultsp, st') \<and> raw_ready a xp prog vers auth st' \<and> Q (raw_frame st')"
proof -
  have ops: "xp_recv E xp = svc_raw_recv (sv_avail E)" "xp_stat E xp = svc_raw_stat" by (simp_all add: E svc_raw_ops_def)
  obtain clp xid x0 x where c: "clntraw_private (svc_world st) = Some clp" "cl_auth clp = Some auth"
    "XDR_SETPOS ((clp_run clp st)\<lparr>x_op := XDR_ENCODE\<rparr>) 0 = Some (True, x0)"
    "raw_request (clp\<lparr>mashl_callmsg := incr_xid (mashl_callmsg clp)\<rparr>) auth proc xargs x0 argsp = Some (True, x, argsp')"
    and r1: "raw_ready a xp prog vers auth (clp_back (clp\<lparr>mashl_callmsg := incr_xid (mashl_callmsg clp)\<rparr>) x st)" (is "raw_ready _ _ _ _ _ ?st1")
    and h1: "raw_holds a (clp_back (clp\<lparr>mashl_callmsg := incr_xid (mashl_callmsg clp)\<rparr>) x st) (raw_call_bytes xid prog vers proc (AUTH_cred auth) @ bs)"
    by (rule client_sends [OF r auth(1) args])
  obtain st2 where s2: "svc_raw_recv (sv_avail E) (local_msg E) ?st1 = Some (True, raw_received (sv_avail E) (local_msg E) xid prog vers proc (AUTH_cred auth), st2)"
    "raw_ready a xp prog vers auth st2" "raw_frame st2 = raw_frame ?st1" "raw_pending st2 bs"
    by (rule server_receives [OF r1 client_auth.cred_valid [OF auth(1)] h1 room])
  have fr: "raw_frame st2 = raw_frame st" using s2(3) by simp
  obtain skip st3 rmsg rs where s3: "serve_call E xp (raw_received (sv_avail E) (local_msg E) xid prog vers proc (AUTH_cred auth)) st2 = Some (skip, st3)"
    "raw_ready a xp prog vers auth st3" "raw_holds a st3 (treply_bytes rmsg rs)" "treply_ok rmsg"
    "oa_length (tar_verf (trp_acpt (trm_reply rmsg))) = 0" "oa_flavor (tar_verf (trp_acpt (trm_reply rmsg))) \<noteq> AUTH_SHORT"
    "accepted_succeeded rmsg \<longrightarrow> mem_decodes xresults rs resultsp res" "status = re_status (seterr_reply (rmsg :: (memstrm, 'v) trpc_msg) error0)"
    "status = RPC_SUCCESS \<longleftrightarrow> success" "Q (raw_frame st3)"
    using served [OF s2(2) fr s2(4), of xid] by (elim exE conjE) (rule that)
  have at: "xport_at FD_SETSIZE ?st1 = Some (Some xp)" "xport_at FD_SETSIZE st3 = Some (Some xp)" "alive xp ?st1 \<noteq> None" "alive xp st3 \<noteq> None"
    using r1 s3(2) by (simp_all add: raw_ready_def del: clp_back_simps)
  have get: "svc_getreq_common E FD_SETSIZE ?st1 = Some st3"
    using at by (auto simp: svc_getreq_common_def getreq_loop.simps SVC_RECV_def SVC_STAT_def ops s2(1) s3(1) svc_raw_stat_def
        simp del: clp_back_simps)
  obtain clp' x0' x' msg' where d: "clntraw_private (svc_world st3) = Some clp'" "cl_auth clp' = Some auth"
    "XDR_SETPOS ((clp_run clp' st3)\<lparr>x_op := XDR_DECODE\<rparr>) 0 = Some (True, x0')"
    "raw_answer (sv_avail E) (ae 0) msg0 error0 auth xresults resultsp x0' = Some (False, re_status (seterr_reply rmsg error0), msg', auth, x')"
    "tar_where (trp_acpt (trm_reply msg')) = (if accepted_succeeded rmsg then res else resultsp)"
    "raw_ready a xp prog vers auth (clp_back (clp'\<lparr>cl_auth := Some auth\<rparr>) x' st3)"
    by (rule client_receives [OF s3(2) auth s3(3,4,5,6) s3(7) [rule_format]])
  have suc: "accepted_succeeded rmsg \<longleftrightarrow> success" using s3(8,9) seterr_success by blast
  have "clnt_raw_call E ae msg0 error0 proc xargs argsp xresults resultsp st =
      Some (status, if success then res else resultsp, clp_back (clp'\<lparr>cl_auth := Some auth\<rparr>) x' st3)"
    unfolding clnt_raw_call_def raw_call_again.simps [of E ae 0]
    by (simp add: c get d Let_def s3(8) suc del: clp_back_simps)
  then show ?thesis using d(6) s3(10) by (auto simp del: clp_back_simps) (simp only: clp_back_simps)
qed

end
