(* ===== verification/Msg_Prog.thy ===== *)
theory Msg_Prog
  imports Raw
begin

text \<open>
  The example rpcgen made of \<open>msg.x\<close>: the dispatch routine of \<open>msg_svc.c\<close>, the stub of \<open>msg_clnt.c\<close>
  and the procedure of \<open>msg_proc.c\<close>, which prints a message on the console.
\<close>

definition NULLPROC :: "32 word" where "NULLPROC = 0"
definition PRINTMESSAGE_msg :: "32 word" where "PRINTMESSAGE_msg = 1"
definition MESSAGEPROG :: "32 word" where "MESSAGEPROG = 0x20000001"
definition PRINTMESSAGEVERS :: "32 word" where "PRINTMESSAGEVERS = 1"

text \<open>\<open>/dev/console\<close>: whether it opens, and the lines printed on it.\<close>

record console =
  con_opens :: bool
  con_lines :: "byte list list"

definition printmessage_1_svc :: "byte list option \<Rightarrow> console \<Rightarrow> (32 word \<times> console) option" where
  "printmessage_1_svc msg con =
    (if \<not> con_opens con then Some (0, con)
     else do { s \<leftarrow> msg; Some (1, con\<lparr>con_lines := con_lines con @ [cstr s]\<rparr>) })"

text \<open>
  The routine gets the operations for the arguments from its transport; a request whose arguments
  cannot be freed ends the process.
\<close>

type_synonym ('d, 'a) args_op =
  "(memstrm, 'a) xdrproc_t \<Rightarrow> 'a \<Rightarrow> ('d, console) raw_state \<Rightarrow> (bool \<times> 'a \<times> ('d, console) raw_state) option"

definition messageprog_1 ::
    "('d, memstrm, 32 word, console raw_world) svc_env \<Rightarrow> ('d, byte list option) args_op \<Rightarrow> ('d, byte list option) args_op \<Rightarrow>
     svc_request \<Rightarrow> xptr \<Rightarrow> ('d, console) raw_state \<Rightarrow> ('d, console) raw_state option" where
  "messageprog_1 E svc_getargs svc_freeargs rqstp xprt st =
    (if sr_proc rqstp = NULLPROC then do {
       (_, st) \<leftarrow> svc_sendreply E xprt xdr_void 0 st;
       Some st }
     else if sr_proc rqstp = PRINTMESSAGE_msg then do {
       (ok, argument, st) \<leftarrow> svc_getargs (xdr_wrapstring (sv_avail E)) None st;
       if \<not> ok then svcerr_decode E xprt st
       else do {
         (result, con) \<leftarrow> printmessage_1_svc argument (rw_other (svc_world st));
         let st = st\<lparr>svc_world := (svc_world st)\<lparr>rw_other := con\<rparr>\<rparr>;
         (ok, st) \<leftarrow> svc_sendreply E xprt xdr_int result st;
         st \<leftarrow> (if ok then Some st else svcerr_systemerr E xprt st);
         (ok, argument, st) \<leftarrow> svc_freeargs (xdr_wrapstring (sv_avail E)) argument st;
         if ok then Some st else None } }
     else svcerr_noproc E xprt st)"

text \<open>The stub; \<open>None\<close> is the null pointer of a failed call.\<close>

definition printmessage_1 ::
    "(32 word \<Rightarrow> (memstrm, byte list option) xdrproc_t \<Rightarrow> byte list option \<Rightarrow> (memstrm, 32 word) xdrproc_t \<Rightarrow> 32 word \<Rightarrow>
       's \<Rightarrow> (clnt_stat \<times> 32 word \<times> 's) option) \<Rightarrow> (nat \<Rightarrow> bool) \<Rightarrow> byte list option \<Rightarrow> 's \<Rightarrow> (32 word option \<times> 's) option" where
  "printmessage_1 clnt_call avail argp st = do {
     (status, clnt_res, st) \<leftarrow> clnt_call PRINTMESSAGE_msg (xdr_wrapstring avail) argp xdr_int 0 st;
     Some (if status \<noteq> RPC_SUCCESS then None else Some clnt_res, st) }"

text \<open>
  A process that is both: the raw transport serves the program with \<open>messageprog_1\<close> (the parts of
  \<open>main\<close> that create and register, for this transport), and the client is made for it.
\<close>

definition msg_env ::
    "xptr \<Rightarrow> ('d, memstrm, 32 word, console raw_world) svc_env \<Rightarrow> ('d, memstrm, 32 word, console raw_world) svc_env" where
  "msg_env xp E = svc_raw_ops xp (E\<lparr>run_dispatch :=
     (\<lambda>_. messageprog_1 (svc_raw_ops xp E) svc_raw_getargs svc_raw_freeargs)\<rparr>)"

definition msg_start ::
    "('d, memstrm, 32 word, console raw_world) svc_env \<Rightarrow> raw_env \<Rightarrow> xptr \<Rightarrow> 'd \<Rightarrow> ('d, console) raw_state \<Rightarrow>
     ('d, console) raw_state option" where
  "msg_start E re xp d st = do {
     (server, st) \<leftarrow> svc_raw_create E re xp st;
     srv \<leftarrow> server;
     (ok, st) \<leftarrow> svc_register E srv (ucast MESSAGEPROG) (ucast PRINTMESSAGEVERS) d 0 st;
     (made, w) \<leftarrow> clnt_raw_create re MESSAGEPROG PRINTMESSAGEVERS (svc_world st);
     if ok \<and> made then Some (st\<lparr>svc_world := w\<rparr>) else None }"

fun print_all ::
    "('d, memstrm, 32 word, console raw_world) svc_env \<Rightarrow> (nat \<Rightarrow> auth_env) \<Rightarrow> (memstrm, 32 word) trpc_msg \<Rightarrow> rpc_err \<Rightarrow>
     byte list list \<Rightarrow> ('d, console) raw_state \<Rightarrow> (32 word option list \<times> ('d, console) raw_state) option" where
  "print_all E ae msg0 err0 [] st = Some ([], st)"
| "print_all E ae msg0 err0 (m # ms) st = do {
     (r, st) \<leftarrow> printmessage_1 (clnt_raw_call E ae msg0 err0) (sv_avail E) (Some m) st;
     (rs, st) \<leftarrow> print_all E ae msg0 err0 ms st;
     Some (r # rs, st) }"

end
