(* ===== verification/Raw_Msg.thy ===== *)
theory Raw_Msg
  imports Raw_Exchange Msg_Prog
begin

text \<open>
  The example over the raw transport: what the server does with a call that carries the null
  credential, the set-up of the process, and any sequence of messages.
\<close>

section \<open>Serving a call\<close>

text \<open>The authentication of the null credential empties the verifier of the reply.\<close>

definition blank_verf :: "opaque_auth \<Rightarrow> opaque_auth" where
  "blank_verf v = v\<lparr>oa_flavor := 0, oa_length := 0\<rparr>"

lemma blank_verf: "valid_auth (blank_verf v)" "oa_length (blank_verf v) = 0" "oa_flavor (blank_verf v) \<noteq> AUTH_SHORT"
  "auth_bytes (blank_verf v) = be32 0 @ be32 0"
  by (simp_all add: blank_verf_def valid_auth_def auth_body_def auth_bytes_def padded_def pad_def AUTH_SHORT_def split: option.split)

lemma raw_received_call:
  "tcb_prog (trm_call (raw_received avail msg0 xid prog vers proc cred)) = prog"
  "tcb_vers (trm_call (raw_received avail msg0 xid prog vers proc cred)) = vers"
  "tcb_proc (trm_call (raw_received avail msg0 xid prog vers proc cred)) = proc"
  "oa_flavor (tcb_cred (trm_call (raw_received avail msg0 xid prog vers proc null_auth))) = AUTH_NONE"
  by (simp_all add: raw_received_def msg_decoded_def raw_call_msg_def auth_decoded_def null_auth_def AUTH_NONE_def)

lemma serve_null:
  assumes x: "alive xp st = Some x"
  obtains r where "serve_call E xp (raw_received avail msg0 xid prog vers proc null_auth) st =
    (case find (\<lambda>s. sc_prog s = prog \<and> sc_vers s = vers) (svc_head st) of
       Some s \<Rightarrow> map_option (Pair True) (run_dispatch E (sc_dispatch s)
           \<lparr>sr_prog = prog, sr_vers = vers, sr_proc = proc, sr_auth = r, sr_xprt = xp\<rparr> xp
           (st\<lparr>xprts := (xprts st)(xp \<mapsto> x\<lparr>sx_verf := blank_verf (sx_verf x)\<rparr>)\<rparr>))
     | None \<Rightarrow> map_option (\<lambda>(_, st). (False, st)) (SVC_REPLY E xp (accepted_msg E (x\<lparr>sx_verf := blank_verf (sx_verf x)\<rparr>)
           (if versions prog (svc_head st) = {} then tar_stat_update (\<lambda>_. PROG_UNAVAIL)
            else (\<lambda>ar. ar\<lparr>tar_stat := PROG_MISMATCH, tar_low := Min (versions prog (svc_head st)),
                   tar_high := Max (versions prog (svc_head st))\<rparr>)))
           (st\<lparr>xprts := (xprts st)(xp \<mapsto> x\<lparr>sx_verf := blank_verf (sx_verf x)\<rparr>)\<rparr>)))"
proof -
  let ?m = "raw_received avail msg0 xid prog vers proc null_auth"
  let ?q = "\<lparr>rq_cred = tcb_cred (trm_call ?m), rq_clntcred = cred_room E, xp_verf = sx_verf x, xp_auth_none = False\<rparr>"
  let ?r = "?q\<lparr>xp_auth_none := True, xp_verf := blank_verf (sx_verf x)\<rparr>"
  have a: "gss_authenticate (gss E) (sv_avail E) (cred_mem E) (cred_at E) (auths E) ?q ?m = Some (AUTH_OK, False, ?r)"
    unfolding gss_authenticate_def Let_def
    by (simp add: raw_received_call svcauth_none_def blank_verf_def) (simp add: null_auth_def)
  have v: "xp_verf ?r = blank_verf (sx_verf x)" by simp
  show thesis by (rule that) (rule serve_authenticated [OF x refl a refl refl, unfolded raw_received_call(1-3) v])
qed

text \<open>An accepted reply of any status but a success goes into the buffer.\<close>

lemma accepted_msg_reply:
  "trm_direction (accepted_msg E x f) = REPLY" "trp_stat (trm_reply (accepted_msg E x f)) = MSG_ACCEPTED"
  "trp_acpt (trm_reply (accepted_msg E x f)) = f ((trp_acpt (trm_reply (local_msg E)))\<lparr>tar_verf := sx_verf x\<rparr>)"
  by (simp_all add: accepted_msg_def)

lemma reply_accepted:
  assumes r: "raw_ready a xp prog vers auth st" and x: "alive xp st = Some x" "sx_verf x = blank_verf v"
    and E: "xp_reply E xp = svc_raw_reply (sv_avail E)"
    and f: "\<And>ar. tar_verf (f ar) = tar_verf ar" and l: "length bs \<le> 8700"
    and res: "accepted_succeeded (accepted_msg E x f) \<Longrightarrow> \<exists>proc. tar_proc (trp_acpt (trm_reply (accepted_msg E x f))) = Some proc \<and>
      mem_encodes proc (tar_where (trp_acpt (trm_reply (accepted_msg E x f)))) bs (tar_where (trp_acpt (trm_reply (accepted_msg E x f))))"
  obtains st' where "SVC_REPLY E xp (accepted_msg E x f) st = Some (True, st')" and "raw_ready a xp prog vers auth st'"
    and "raw_frame st' = raw_frame st" and "raw_holds a st' (treply_bytes (accepted_msg E x f) bs)"
    and "treply_ok (accepted_msg E x f)" and "oa_length (tar_verf (trp_acpt (trm_reply (accepted_msg E x f)))) = 0"
    and "oa_flavor (tar_verf (trp_acpt (trm_reply (accepted_msg E x f)))) \<noteq> AUTH_SHORT"
proof -
  let ?m = "accepted_msg E x f"
  have v: "tar_verf (trp_acpt (trm_reply ?m)) = blank_verf v" by (simp add: accepted_msg_reply f x(2))
  have ok: "treply_ok ?m" by (simp add: treply_ok_def accepted_msg_reply(1,2) v blank_verf)
  have len: "length (treply_bytes ?m bs) \<le> 8800"
    using l by (simp add: treply_bytes_def accepted_bytes_def accepted_msg_reply(2) v blank_verf)
  obtain st' where s: "svc_raw_reply (sv_avail E) ?m st = Some (True, st')" "raw_ready a xp prog vers auth st'"
    "raw_frame st' = raw_frame st" "raw_holds a st' (treply_bytes ?m bs)"
    by (rule server_replies [OF r ok len res])
  have "SVC_REPLY E xp ?m st = Some (True, st')" by (simp add: SVC_REPLY_def x(1) E s(1))
  then show thesis by (rule that) (use s ok v in \<open>simp_all add: blank_verf\<close>)
qed

lemma raw_ready_frame:
  "raw_ready a xp prog vers auth st \<Longrightarrow> raw_ready a xp prog vers auth (st\<lparr>xprts := (xprts st)(xp \<mapsto> x)\<rparr>)"
  "raw_ready a xp prog vers auth st \<Longrightarrow> raw_ready a xp prog vers auth (st\<lparr>svc_world := (svc_world st)\<lparr>rw_other := o'\<rparr>\<rparr>)"
  by (simp_all add: raw_ready_def alive_def xport_at_def)

section \<open>Strings and their storage\<close>

lemma encodes_wrapstring:
  assumes "0 \<in> set m" and "strlen m \<le> 7890"
  shows "mem_encodes (xdr_wrapstring avail) (Some m) (be32 (of_nat (strlen m)) @ padded (cstr m)) (Some m)"
proof -
  have l: "strlen m \<le> unat RPC_MAXDATASIZE" "strlen m + 1 < 2 ^ 32" using assms(2) by (simp_all add: RPC_MAXDATASIZE_def)
  have w: "xdr_wrapstring avail = xdr_string avail RPC_MAXDATASIZE" by (intro ext) (simp add: xdr_wrapstring_def)
  show ?thesis unfolding w mem_encodes_def
    by (intro allI conjI al.encodes_xdr_string [OF assms(1) l] un.encodes_xdr_string [OF assms(1) l])
qed

lemma decodes_wrapstring:
  assumes "strlen m \<le> 7890" and "avail (strlen m + 1)"
  shows "mem_decodes (xdr_wrapstring avail) (be32 (of_nat (strlen m)) @ padded (cstr m)) None (Some (cstr m @ [0]))"
proof -
  have l: "length (cstr m) < 2 ^ 32 - 1" "length (cstr m) \<le> unat RPC_MAXDATASIZE" "avail (length (cstr m) + 1)"
    using assms by (simp_all add: RPC_MAXDATASIZE_def strlen_def)
  have w: "xdr_wrapstring avail = xdr_string avail RPC_MAXDATASIZE" by (intro ext) (simp add: xdr_wrapstring_def)
  show ?thesis unfolding w strlen_def mem_decodes_def
    by (intro allI conjI ald.decodes_xdr_string_alloc und.decodes_xdr_string_alloc l)
qed

lemma wrapstring_length:
  assumes "strlen m \<le> 7890"
  shows "length (be32 (of_nat (strlen m)) @ padded (cstr m)) \<le> 7900"
proof -
  have "pad (length (cstr m)) \<le> 3" unfolding pad_def by presburger
  then show ?thesis using assms by (simp add: strlen_def padded_def)
qed

text \<open>Freeing a string leaves the stream as it was.\<close>

lemma free_wrapstring:
  assumes "x_op xdrs = XDR_FREE" and "strlen m \<le> 7890"
  shows "xdr_wrapstring avail xdrs (Some (cstr m @ [0])) = Some (True, xdrs, None)"
proof -
  have l: "strlen (cstr m @ [0]) = strlen m"
    by (simp add: strlen_def cstr_terminated cstr_no_zero)
  have w: "unat (of_nat (strlen m) :: 32 word) = strlen m" using assms(2) by (intro unat_of_nat32) simp
  then have "\<not> (of_nat (strlen m) :: 32 word) > RPC_MAXDATASIZE"
    using assms(2) by (simp add: word_less_nat_alt RPC_MAXDATASIZE_def)
  moreover have "(of_nat (strlen m) :: 32 word) + 1 \<noteq> 0"
    using assms(2) w unat_word_ariths(1) [of "of_nat (strlen m) :: 32 word" 1] by (auto simp: unat_eq_0 [symmetric])
  ultimately show ?thesis using assms(1) l by (simp add: xdr_wrapstring_def xdr_string_def xdr_u_int_def xdr_via_long_def Let_def)
qed

lemma server_freeargs:
  assumes r: "raw_ready a xp prog vers auth st" and h: "raw_holds a st bs" and l: "strlen m \<le> 7890"
  obtains st' where "svc_raw_freeargs (xdr_wrapstring avail) (Some (cstr m @ [0])) st = Some (True, None, st')"
    and "raw_ready a xp prog vers auth st'" and "raw_frame st' = raw_frame st" and "raw_holds a st' bs"
proof -
  obtain srp where srp: "svc_raw_private (svc_world st) = Some srp" "buf_stream a (srp_stream srp)"
    by (rule raw_readyE [OF r])
  let ?x = "(srp_run srp st)\<lparr>x_op := XDR_FREE\<rparr>"
  have "xdr_wrapstring avail ?x (Some (cstr m @ [0])) = Some (True, ?x, None)"
    by (rule free_wrapstring [OF _ l]) simp
  then have f: "svc_raw_freeargs (xdr_wrapstring avail) (Some (cstr m @ [0])) st = Some (True, None, srp_back srp ?x st)"
    by (simp add: svc_raw_freeargs_def srp(1))
  have b: "buf_stream a ?x" using srp(2) by (simp add: srp_run_def)
  have "raw_holds a (srp_back srp ?x st) bs" using h by (simp add: raw_holds_def) (simp add: srp_run_def)
  with f raw_ready_srp [OF r b] show thesis by (intro that) simp_all
qed

section \<open>One message\<close>

lemma messageprog_prints:
  assumes r: "raw_ready a xp MESSAGEPROG PRINTMESSAGEVERS auth st" and x: "alive xp st = Some x" "sx_verf x = blank_verf v"
    and E: "xp_reply E xp = svc_raw_reply (sv_avail E)" and m: "strlen m \<le> 7890" "\<And>n. n \<le> 7900 \<Longrightarrow> sv_avail E n"
    and p: "raw_pending st (be32 (of_nat (strlen m)) @ padded (cstr m))" and q: "sr_proc req = PRINTMESSAGE_msg"
    and con: "con = rw_other (svc_world st)"
  obtains st' rmsg res where "messageprog_1 E svc_raw_getargs svc_raw_freeargs req xp st = Some st'"
    and "raw_ready a xp MESSAGEPROG PRINTMESSAGEVERS auth st'" and "raw_holds a st' (treply_bytes rmsg (be32 res))"
    and "treply_ok rmsg" and "oa_length (tar_verf (trp_acpt (trm_reply rmsg))) = 0"
    and "oa_flavor (tar_verf (trp_acpt (trm_reply rmsg))) \<noteq> AUTH_SHORT" and "accepted_succeeded (rmsg :: (memstrm, 32 word) trpc_msg)"
    and "res = (if con_opens con then 1 else 0)"
    and "raw_frame st' = (svc_head st, xprts st, svc_xports st, if con_opens con then con\<lparr>con_lines := con_lines con @ [cstr m]\<rparr> else con)"
proof -
  have av: "sv_avail E (strlen m + 1)" using m by simp
  obtain st1 where s1: "svc_raw_getargs (xdr_wrapstring (sv_avail E)) None st = Some (True, Some (cstr m @ [0]), st1)"
    "raw_ready a xp MESSAGEPROG PRINTMESSAGEVERS auth st1" "raw_frame st1 = raw_frame st"
    by (rule server_getargs [OF r p decodes_wrapstring [OF m(1), of "sv_avail E", OF av]])
  define res :: "32 word" where "res = (if con_opens con then 1 else 0)"
  define con' where "con' = (if con_opens con then con\<lparr>con_lines := con_lines con @ [cstr m]\<rparr> else con)"
  have cs: "cstr (cstr m @ [0]) = cstr m"
    by (simp add: cstr_terminated cstr_no_zero)
  have con1: "rw_other (svc_world st1) = con" using s1(3) con by (simp add: raw_frame_def)
  have pr: "printmessage_1_svc (Some (cstr m @ [0])) con = Some (res, con')"
    by (simp add: printmessage_1_svc_def cs res_def con'_def)
  let ?st2 = "st1\<lparr>svc_world := (svc_world st1)\<lparr>rw_other := con'\<rparr>\<rparr>"
  have r2: "raw_ready a xp MESSAGEPROG PRINTMESSAGEVERS auth ?st2" by (rule raw_ready_frame(2) [OF s1(2)])
  have x2: "alive xp ?st2 = Some x" using s1(3) x(1) by (simp add: raw_frame_def alive_def)
  let ?f = "\<lambda>ar :: (memstrm, 32 word) taccepted_reply. ar\<lparr>tar_stat := SUCCESS, tar_where := res, tar_proc := Some xdr_int\<rparr>"
  have e: "mem_encodes xdr_int w (be32 w) w" for w
    unfolding mem_encodes_def by (intro allI conjI al.encodes_xdr_int un.encodes_xdr_int)
  obtain st3 where s3: "SVC_REPLY E xp (accepted_msg E x ?f) ?st2 = Some (True, st3)" "raw_ready a xp MESSAGEPROG PRINTMESSAGEVERS auth st3"
    "raw_frame st3 = raw_frame ?st2" "raw_holds a st3 (treply_bytes (accepted_msg E x ?f) (be32 res))" "treply_ok (accepted_msg E x ?f)"
    "oa_length (tar_verf (trp_acpt (trm_reply (accepted_msg E x ?f)))) = 0"
    "oa_flavor (tar_verf (trp_acpt (trm_reply (accepted_msg E x ?f)))) \<noteq> AUTH_SHORT"
    by (rule reply_accepted [OF r2 x2 x(2) E, of ?f "be32 res"]) (simp_all add: accepted_msg_reply e)
  obtain st4 where s4: "svc_raw_freeargs (xdr_wrapstring (sv_avail E)) (Some (cstr m @ [0])) st3 = Some (True, None, st4)"
    "raw_ready a xp MESSAGEPROG PRINTMESSAGEVERS auth st4" "raw_frame st4 = raw_frame st3"
    "raw_holds a st4 (treply_bytes (accepted_msg E x ?f) (be32 res))"
    by (rule server_freeargs [OF s3(2,4) m(1)])
  have send: "svc_sendreply E xp xdr_int res ?st2 = Some (True, st3)" by (simp add: svc_sendreply_def x2 s3(1))
  have "messageprog_1 E svc_raw_getargs svc_raw_freeargs req xp st = Some st4"
    by (simp add: messageprog_1_def q PRINTMESSAGE_msg_def NULLPROC_def s1(1) con1 pr send s4(1) Let_def)
  moreover have "accepted_succeeded (accepted_msg E x ?f)" by (simp add: accepted_succeeded_def accepted_msg_reply)
  moreover have "raw_frame st4 = (svc_head st, xprts st, svc_xports st, con')"
    using s4(3) s3(3) s1(3) by (simp add: raw_frame_def)
  ultimately show thesis using s4(2,4) s3(5-7) by (intro that) (assumption | simp add: res_def con'_def)+
qed

lemma decodes_int: "mem_decodes xdr_int (be32 w) v0 w"
  unfolding mem_decodes_def by (intro allI conjI ald.decodes_xdr_int und.decodes_xdr_int)

lemma msg_env_simps:
  "sv_avail (msg_env xp E) = sv_avail E" "local_msg (msg_env xp E) = local_msg E"
  "run_dispatch (msg_env xp E) d = messageprog_1 (svc_raw_ops xp E) svc_raw_getargs svc_raw_freeargs"
  "msg_env xp E = svc_raw_ops xp (E\<lparr>run_dispatch := (\<lambda>_. messageprog_1 (svc_raw_ops xp E) svc_raw_getargs svc_raw_freeargs)\<rparr>)"
  by (simp_all add: msg_env_def svc_raw_ops_def)

text \<open>The process is ready for calls, and its service is registered.\<close>

definition msg_ready :: "addr \<Rightarrow> xptr \<Rightarrow> AUTH \<Rightarrow> ('d, console) raw_state \<Rightarrow> bool" where
  "msg_ready a xp auth st \<longleftrightarrow> raw_ready a xp MESSAGEPROG PRINTMESSAGEVERS auth st \<and>
     find (\<lambda>s. sc_prog s = MESSAGEPROG \<and> sc_vers s = PRINTMESSAGEVERS) (svc_head st) \<noteq> None"

lemma printmessage_served:
  assumes r: "msg_ready a xp (Auth_none priv) st" and priv: "none_inv priv" and m: "0 \<in> set m" "strlen m \<le> 7890"
    and av: "\<And>n. n \<le> 7900 \<Longrightarrow> sv_avail E n"
    and con: "con = rw_other (svc_world st)"
  obtains st' where "printmessage_1 (clnt_raw_call (msg_env xp E) ae msg0 err0) (sv_avail (msg_env xp E)) (Some m) st =
      Some (Some (if con_opens con then 1 else 0), st')"
    and "msg_ready a xp (Auth_none priv) st'"
    and "rw_other (svc_world st') = (if con_opens con then con\<lparr>con_lines := con_lines con @ [cstr m]\<rparr> else con)"
proof -
  let ?E = "msg_env xp E" and ?auth = "Auth_none priv"
  define res :: "32 word" where "res = (if con_opens con then 1 else 0)"
  define con' where "con' = (if con_opens con then con\<lparr>con_lines := con_lines con @ [cstr m]\<rparr> else con)"
  obtain d where d: "find (\<lambda>s. sc_prog s = MESSAGEPROG \<and> sc_vers s = PRINTMESSAGEVERS) (svc_head st) = Some d"
    and ready: "raw_ready a xp MESSAGEPROG PRINTMESSAGEVERS ?auth st" using r by (auto simp: msg_ready_def)
  have auth: "AUTH_inv (ae 0) [] 0 0 [] ?auth" "AUTH_REFRESH (ae 0) ?auth = Some (False, ?auth)"
    using priv by (simp_all add: AUTH_inv_def AUTH_REFRESH_def authnone_refresh_def)
  have c: "AUTH_cred ?auth = null_auth" by (simp add: AUTH_cred_def)
  have served: "\<exists>skip st2 rmsg rs. serve_call ?E xp (raw_received (sv_avail ?E) (local_msg ?E) xid MESSAGEPROG PRINTMESSAGEVERS PRINTMESSAGE_msg (AUTH_cred ?auth)) st1 = Some (skip, st2) \<and>
        raw_ready a xp MESSAGEPROG PRINTMESSAGEVERS ?auth st2 \<and> raw_holds a st2 (treply_bytes (rmsg :: (memstrm, 32 word) trpc_msg) rs) \<and> treply_ok rmsg \<and>
        oa_length (tar_verf (trp_acpt (trm_reply rmsg))) = 0 \<and> oa_flavor (tar_verf (trp_acpt (trm_reply rmsg))) \<noteq> AUTH_SHORT \<and>
        (accepted_succeeded rmsg \<longrightarrow> mem_decodes xdr_int rs 0 res) \<and>
        RPC_SUCCESS = re_status (seterr_reply rmsg err0) \<and> (RPC_SUCCESS = RPC_SUCCESS \<longleftrightarrow> True) \<and>
        (fst (raw_frame st2) = svc_head st \<and> snd (snd (snd (raw_frame st2))) = con')"
    if r1: "raw_ready a xp MESSAGEPROG PRINTMESSAGEVERS ?auth st1" and f1: "raw_frame st1 = raw_frame st"
      and p1: "raw_pending st1 (be32 (of_nat (strlen m)) @ padded (cstr m))" for xid st1
  proof -
    obtain x where x: "alive xp st1 = Some x" using r1 by (auto simp: raw_ready_def)
    have d1: "find (\<lambda>s. sc_prog s = MESSAGEPROG \<and> sc_vers s = PRINTMESSAGEVERS) (svc_head st1) = Some d"
      and con1: "con = rw_other (svc_world st1)" using f1 d con by (simp_all add: raw_frame_def)
    obtain q where q: "serve_call ?E xp (raw_received (sv_avail ?E) (local_msg ?E) xid MESSAGEPROG PRINTMESSAGEVERS PRINTMESSAGE_msg null_auth) st1 =
      map_option (Pair True) (run_dispatch ?E (sc_dispatch d)
           \<lparr>sr_prog = MESSAGEPROG, sr_vers = PRINTMESSAGEVERS, sr_proc = PRINTMESSAGE_msg, sr_auth = q, sr_xprt = xp\<rparr> xp
           (st1\<lparr>xprts := (xprts st1)(xp \<mapsto> x\<lparr>sx_verf := blank_verf (sx_verf x)\<rparr>)\<rparr>))"
      by (rule serve_null [OF x, of ?E "sv_avail ?E" "local_msg ?E" xid MESSAGEPROG PRINTMESSAGEVERS PRINTMESSAGE_msg, unfolded d1 option.case])
    let ?st = "st1\<lparr>xprts := (xprts st1)(xp \<mapsto> x\<lparr>sx_verf := blank_verf (sx_verf x)\<rparr>)\<rparr>"
    have r2: "raw_ready a xp MESSAGEPROG PRINTMESSAGEVERS ?auth ?st" by (rule raw_ready_frame(1) [OF r1])
    have p2: "raw_pending ?st (be32 (of_nat (strlen m)) @ padded (cstr m))" using p1 by (simp add: raw_pending_def srp_run_def)
    have x2: "alive xp ?st = Some (x\<lparr>sx_verf := blank_verf (sx_verf x)\<rparr>)" "sx_verf (x\<lparr>sx_verf := blank_verf (sx_verf x)\<rparr>) = blank_verf (sx_verf x)"
      by (simp_all add: alive_def)
    have E': "xp_reply (svc_raw_ops xp E) xp = svc_raw_reply (sv_avail (svc_raw_ops xp E))" "\<And>n. n \<le> 7900 \<Longrightarrow> sv_avail (svc_raw_ops xp E) n"
      using av by (simp_all add: svc_raw_ops_def)
    have q2: "sr_proc \<lparr>sr_prog = MESSAGEPROG, sr_vers = PRINTMESSAGEVERS, sr_proc = PRINTMESSAGE_msg, sr_auth = q, sr_xprt = xp\<rparr> = PRINTMESSAGE_msg"
      and con2: "con = rw_other (svc_world ?st)" using con1 by simp_all
    obtain st2 rmsg w where s2: "messageprog_1 (svc_raw_ops xp E) svc_raw_getargs svc_raw_freeargs
        \<lparr>sr_prog = MESSAGEPROG, sr_vers = PRINTMESSAGEVERS, sr_proc = PRINTMESSAGE_msg, sr_auth = q, sr_xprt = xp\<rparr> xp ?st = Some st2"
      "raw_ready a xp MESSAGEPROG PRINTMESSAGEVERS ?auth st2" "raw_holds a st2 (treply_bytes rmsg (be32 w))" "treply_ok rmsg"
      "oa_length (tar_verf (trp_acpt (trm_reply rmsg))) = 0" "oa_flavor (tar_verf (trp_acpt (trm_reply rmsg))) \<noteq> AUTH_SHORT"
      "accepted_succeeded (rmsg :: (memstrm, 32 word) trpc_msg)" "w = (if con_opens con then 1 else 0)"
      "raw_frame st2 = (svc_head ?st, xprts ?st, svc_xports ?st, if con_opens con then con\<lparr>con_lines := con_lines con @ [cstr m]\<rparr> else con)"
      by (rule messageprog_prints [OF r2 x2 E'(1) m(2) E'(2) p2 q2 con2])
    have "serve_call ?E xp (raw_received (sv_avail ?E) (local_msg ?E) xid MESSAGEPROG PRINTMESSAGEVERS PRINTMESSAGE_msg (AUTH_cred ?auth)) st1 = Some (True, st2)"
      unfolding c q msg_env_simps(3) s2(1) by simp
    moreover have "svc_head st1 = svc_head st" using f1 by (simp add: raw_frame_def)
    ultimately show ?thesis
      using s2(2-9) seterr_success [of rmsg err0] decodes_int [of w 0]
      by (intro exI [of _ True] exI [of _ st2] exI [of _ rmsg] exI [of _ "be32 w"] conjI) (simp_all add: res_def con'_def)
  qed
  have e: "mem_encodes (xdr_wrapstring (sv_avail ?E)) (Some m) (be32 (of_nat (strlen m)) @ padded (cstr m)) (Some m)"
    by (rule encodes_wrapstring [OF m])
  have room: "auth_room (sv_avail ?E) (tcb_cred (trm_call (local_msg ?E))) (AUTH_cred ?auth)"
    by (simp add: c auth_room_def null_auth_def)
  obtain st' where s': "clnt_raw_call ?E ae msg0 err0 PRINTMESSAGE_msg (xdr_wrapstring (sv_avail ?E)) (Some m) xdr_int 0 st =
      Some (RPC_SUCCESS, res, st')" "raw_ready a xp MESSAGEPROG PRINTMESSAGEVERS ?auth st'"
      "svc_head st' = svc_head st" "rw_other (svc_world st') = con'"
    using raw_exchange [where ae = ae and ?msg0.0 = msg0 and ?error0.0 = err0 and xresults = xdr_int and resultsp = 0 and res = res
        and status = RPC_SUCCESS and success = True and Q = "\<lambda>f. fst f = svc_head st \<and> snd (snd (snd f)) = con'",
        OF ready auth e wrapstring_length [OF m(2)] msg_env_simps(4) room served]
    by (auto simp: raw_frame_def)
  have "printmessage_1 (clnt_raw_call ?E ae msg0 err0) (sv_avail ?E) (Some m) st = Some (Some res, st')"
    by (simp add: printmessage_1_def s'(1))
  then show thesis using s'(2-4) d by (intro that) (simp_all add: res_def con'_def msg_ready_def)
qed

end
