(* ===== verification/Raw_Session.thy ===== *)
theory Raw_Session
  imports Raw_Msg
begin

text \<open>
  The process set up, and the example run in it: any sequence of messages from the client's stub to
  the console and back.
\<close>

section \<open>Setting up\<close>

text \<open>
  A process that has not used the raw transport yet, with room for everything, and a descriptor
  table that has the slot \<open>FD_SETSIZE\<close>.
\<close>

definition fresh_process ::
    "('d, memstrm, 32 word, console raw_world) svc_env \<Rightarrow> raw_env \<Rightarrow> ('d, console) raw_state \<Rightarrow> bool" where
  "fresh_process E re st \<longleftrightarrow>
     svc_raw_private (svc_world st) = None \<and> clntraw_private (svc_world st) = None \<and> rw_authnone (svc_world st) = None \<and>
     rpc_rawcombuf (svc_world st) = 0 \<and>
     1024 < dtablesize E \<and> svc_xports st = None \<and> svc_head st = [] \<and>
     (\<forall>n. sv_avail E n) \<and> (\<forall>n. re_avail re n) \<and> re_buf re \<noteq> 0 \<and> re_hdr re \<noteq> 0 \<and>
     ae_marshed (re_auth re) \<noteq> 0 \<and> ae_avail (re_auth re) 136"

lemma xprt_register_first:
  assumes "svc_xports st = None" and "alive xp st = Some x" and "sx_fd x = FD_SETSIZE" and "1024 < dtablesize E" and "\<forall>n. sv_avail E n"
  obtains st' where "xprt_register E xp st = Some st'" and "xport_at FD_SETSIZE st' = Some (Some xp)"
    and "svc_head st' = svc_head st" and "xprts st' = xprts st" and "svc_world st' = svc_world st"
  using assms
  by (cases "poll_slot FD_SETSIZE (svc_pollfd st)")
    (auto simp: xprt_register_def FD_SETSIZE_def xport_at_def Let_def)

lemma header_encoded:
  assumes "re_hdr re \<noteq> 0"
  obtains x c where "xdr_callhdr (stream_on ae (re_hdr re) bs MCALL_MSG_SIZE XDR_ENCODE) msg = Some (True, x, c)"
    and "XDR_GETPOS x = Some 20"
    and "take 20 (rd (x_mem x) (re_hdr re) 24) = be32 (trm_xid msg) @ be32 CALL @ be32 RPC_MSG_VERSION @
      be32 (tcb_prog (trm_call msg)) @ be32 (tcb_vers (trm_call msg))"
proof -
  let ?bs = "be32 (trm_xid msg) @ be32 CALL @ be32 RPC_MSG_VERSION @ be32 (tcb_prog (trm_call msg)) @ be32 (tcb_vers (trm_call msg))"
  have l: "length ?bs \<le> unat MCALL_MSG_SIZE" by (simp add: MCALL_MSG_SIZE_def)
  obtain x where "xdr_callhdr (stream_on ae (re_hdr re) bs MCALL_MSG_SIZE XDR_ENCODE) msg =
      Some (True, x, msg\<lparr>trm_direction := CALL, trm_call := (trm_call msg)\<lparr>tcb_rpcvers := RPC_MSG_VERSION\<rparr>\<rparr>)"
    "rd (x_mem x) (re_hdr re) (length ?bs) = ?bs" "XDR_GETPOS x = Some (of_nat (length ?bs))"
    unfolding stream_on_def by (rule xdrmem_encode_pos [OF al.encodes_tcallhdr un.encodes_tcallhdr assms l])
  then show thesis by (intro that) (simp_all add: take_rd)
qed

lemma msg_start_ready:
  assumes f: "fresh_process E re st"
  obtains st' priv where "msg_start (msg_env xp E) re xp d st = Some st'" and "none_inv priv"
    and "msg_ready (re_buf re) xp (Auth_none priv) st'" and "rw_other (svc_world st') = rw_other (svc_world st)"
proof -
  let ?E = "msg_env xp E" and ?a = "re_buf re"
  have E: "sv_avail ?E = sv_avail E" "dtablesize ?E = dtablesize E" by (simp_all add: msg_env_def svc_raw_ops_def)
  have f': "svc_raw_private (svc_world st) = None" "clntraw_private (svc_world st) = None" "rw_authnone (svc_world st) = None"
    "rpc_rawcombuf (svc_world st) = 0" "1024 < dtablesize E" "svc_xports st = None" "svc_head st = []" "\<forall>n. sv_avail E n" "\<forall>n. re_avail re n"
    "?a \<noteq> 0" "re_hdr re \<noteq> 0" "ae_marshed (re_auth re) \<noteq> 0" "ae_avail (re_auth re) 136"
    using f by (simp_all add: fresh_process_def)
  define w1 where "w1 = share_buf re (svc_world st)"
  define v where "v = \<lparr>oa_flavor = 0, oa_base = Some (replicate 400 (0 :: byte)), oa_length = 0 :: 32 word\<rparr>"
  define x where "x = \<lparr>sx_fd = FD_SETSIZE, sx_port = 0, sx_netid = None, sx_verf = v\<rparr>"
  define srp where "srp = \<lparr>srp_buf = ?a, srp_server = xp, srp_stream = xdrmem_create (rw_mem w1) ?a UDPMSGSIZE_raw XDR_DECODE, srp_verf_body = replicate 400 (0 :: byte)\<rparr>"
  define st1 where "st1 = st\<lparr>xprts := (xprts st)(xp \<mapsto> x), svc_world := w1\<lparr>svc_raw_private := Some srp\<rparr>\<rparr>"
  have w1: "rpc_rawcombuf w1 = ?a" "clntraw_private w1 = None" "rw_authnone w1 = None" "rw_other w1 = rw_other (svc_world st)"
    using f' by (simp_all add: w1_def share_buf_def)
  have s1: "svc_xports st1 = None" "alive xp st1 = Some x" "sx_fd x = FD_SETSIZE" by (simp_all add: st1_def alive_def f' x_def)
  obtain st2 where s2: "xprt_register ?E xp st1 = Some st2" "xport_at FD_SETSIZE st2 = Some (Some xp)"
    "svc_head st2 = svc_head st1" "xprts st2 = xprts st1" "svc_world st2 = svc_world st1"
    by (rule xprt_register_first [OF s1, of ?E]) (use f' E in auto)
  have c: "svc_raw_create ?E re xp st = Some (Some xp, st2)"
    using s2(1) f' w1(1)
    by (simp add: svc_raw_create_def w1_def [symmetric] alive_def Let_def MAX_AUTH_BYTES_def v_def x_def srp_def st1_def)
  define st3 where "st3 = st2\<lparr>svc_head := [\<lparr>sc_prog = MESSAGEPROG, sc_vers = PRINTMESSAGEVERS, sc_netid = None, sc_dispatch = d\<rparr>]\<rparr>"
  have h2: "svc_head st2 = []" using s2(3) f' by (simp add: st1_def)
  have reg: "svc_register ?E xp (ucast MESSAGEPROG) (ucast PRINTMESSAGEVERS) d 0 st2 = Some (True, st3)"
    using s2(4) f'(8) h2 E(1)
    by (simp add: svc_register_def alive_def st1_def st3_def MESSAGEPROG_def PRINTMESSAGEVERS_def Let_def)
  define cm where "cm = (re_call re)\<lparr>trm_direction := CALL, trm_call := (trm_call (re_call re))\<lparr>
               tcb_rpcvers := RPC_MSG_VERSION, tcb_prog := MESSAGEPROG, tcb_vers := PRINTMESSAGEVERS\<rparr>\<rparr>"
  obtain y cc where y: "xdr_callhdr (stream_on (re_auth re) (re_hdr re) (replicate 24 0) MCALL_MSG_SIZE XDR_ENCODE) cm = Some (True, y, cc)"
    "XDR_GETPOS y = Some 20"
    "take 20 (rd (x_mem y) (re_hdr re) 24) = be32 (trm_xid cm) @ be32 CALL @ be32 RPC_MSG_VERSION @ be32 MESSAGEPROG @ be32 PRINTMESSAGEVERS"
    using header_encoded [OF f'(11), of "re_auth re" "replicate 24 0" cm] by (auto simp: cm_def)
  obtain priv where p: "authnone_create (re_auth re) None = Some (True, priv)" "none_inv priv"
    by (rule authnone_create_ok [OF f'(12), of None]) (use f'(13) in auto)
  have w2: "svc_world st3 = w1\<lparr>svc_raw_private := Some srp\<rparr>" by (simp add: st3_def s2(5) st1_def)
  define clp where "clp = \<lparr>clp_buf = ?a, clp_stream = xdrmem_create (rw_mem w1) ?a UDPMSGSIZE_raw XDR_FREE,
           mashl_callmsg = rd (x_mem y) (re_hdr re) 24, clp_mcnt = 20, cl_auth = Some (Auth_none priv)\<rparr>"
  define w3 where "w3 = w1\<lparr>svc_raw_private := Some srp, rw_authnone := priv, clntraw_private := Some clp\<rparr>"
  have shared: "share_buf re (w1\<lparr>svc_raw_private := Some srp\<rparr>) = w1\<lparr>svc_raw_private := Some srp\<rparr>"
    using w1(1) f'(10) by (simp add: share_buf_def)
  have cl: "clnt_raw_create re MESSAGEPROG PRINTMESSAGEVERS (svc_world st3) = Some (True, w3)"
    using f'(9) w1 y(1,2) p(1)
    by (simp add: clnt_raw_create_def w2 shared cm_def [symmetric] MCALL_MSG_SIZE_def Let_def w3_def clp_def)
  let ?st = "st3\<lparr>svc_world := w3\<rparr>"
  have start: "msg_start ?E re xp d st = Some ?st" by (simp add: msg_start_def c reg cl)
  have b: "rd (x_mem y) (re_hdr re) 24 = be32 (trm_xid cm) @ be32 CALL @ be32 RPC_MSG_VERSION @ be32 MESSAGEPROG @ be32 PRINTMESSAGEVERS @
      drop 20 (rd (x_mem y) (re_hdr re) 24)"
    using append_take_drop_id [of 20 "rd (x_mem y) (re_hdr re) 24"] y(3) by simp
  have buf: "buf_stream ?a (srp_stream srp)" "buf_stream ?a (clp_stream clp)"
    by (simp_all add: srp_def clp_def buf_stream_create f'(10))
  have at: "xport_at FD_SETSIZE ?st = Some (Some xp)" "alive xp ?st = Some x"
    using s2(2,4) by (simp_all add: st3_def xport_at_def alive_def st1_def)
  have cx: "clp_mcnt clp = 20" "cl_auth clp = Some (Auth_none priv)" "mashl_callmsg clp = be32 (trm_xid cm) @ be32 CALL @ be32 RPC_MSG_VERSION @
      be32 MESSAGEPROG @ be32 PRINTMESSAGEVERS @ drop 20 (rd (x_mem y) (re_hdr re) 24)"
    by (simp_all add: clp_def b [symmetric])
  have wp: "svc_raw_private (svc_world ?st) = Some srp" "clntraw_private (svc_world ?st) = Some clp" by (simp_all add: w3_def)
  have "raw_ready ?a xp MESSAGEPROG PRINTMESSAGEVERS (Auth_none priv) ?st"
    unfolding raw_ready_def at wp using f'(10) buf cx by blast
  then have "msg_ready ?a xp (Auth_none priv) ?st" by (simp add: msg_ready_def st3_def)
  with start p(2) show thesis by (rule that) (simp add: w3_def w1(4))
qed



text \<open>A process for the witnesses.\<close>

definition raw_demo_env :: "(nat, memstrm, 32 word, console raw_world) svc_env" where
  "raw_demo_env = \<lparr>dtablesize = 2048, sv_avail = \<lambda>_. True, rpcgettp = \<lambda>_. None,
    rpcb_set_call = \<lambda>_ _ _ _ st. (True, st), rpcb_unset_call = \<lambda>_ _ st. st,
    pmap_set_call = \<lambda>_ _ _ _ st. (True, st), pmap_unset_call = \<lambda>_ _ st. st,
    xp_recv = \<lambda>_ _ _. None, xp_reply = \<lambda>_ _ _. None, xp_stat = \<lambda>_ _. None, xp_destroy = \<lambda>_ _. None,
    run_dispatch = \<lambda>_ _ _ _. None, gss = \<lambda>_ _ _. None, auths = [], cred_mem = \<lambda>_. 0, cred_at = 8192,
    cred_room = rq_clntcred rqst0,
    local_msg = trm_call_update (tcb_cred_update (oa_base_update (\<lambda>_. Some (replicate 400 0)))) (zero_tmsg 0)\<rparr>"

definition raw_demo_re :: raw_env where
  "raw_demo_re = \<lparr>re_avail = \<lambda>_. True, re_buf = 65536, re_hdr = 4096, re_auth = env0, re_call = zero_tmsg ()\<rparr>"

definition raw_demo_state :: "(nat, console) raw_state" where
  "raw_demo_state = \<lparr>svc_xports = None, svc_fdset = {}, svc_maxfd = -1, svc_pollfd = [], svc_head = [], svc_maxrec = 0,
     xprts = Map.empty, svc_world = \<lparr>rw_mem = \<lambda>_. 0, rpc_rawcombuf = 0, svc_raw_private = None, clntraw_private = None,
       rw_authnone = None, rw_other = \<lparr>con_opens = True, con_lines = []\<rparr>\<rparr>\<rparr>"

definition raw_demo_err :: rpc_err where
  "raw_demo_err = \<lparr>re_status = RPC_FAILED, re_why = 0, re_vers_low = 0, re_vers_high = 0, re_lb_s1 = 0, re_lb_s2 = 0\<rparr>"

lemma raw_demo_fresh: "fresh_process raw_demo_env raw_demo_re raw_demo_state"
  by (simp add: fresh_process_def raw_demo_env_def raw_demo_re_def raw_demo_state_def env0_def)


text \<open>
  C15: A call over the raw transport, with the null authenticator that \<open>clnt_raw_create\<close> gives a
  client, to a program that is not registered returns \<open>RPC_PROGUNAVAIL\<close>, one to a version of it that
  is not, \<open>RPC_PROGVERSMISMATCH\<close>; the results are as the caller left them and the next call can be
  made.  The services, the table of transports, every other transport and what lies outside the raw
  transport are as before; of the server's transport only the verifier of its replies has changed,
  to one of the null flavor without a body.
\<close>

theorem raw_call_refused:
  fixes E :: "('d, memstrm, 'v, 'o raw_world) svc_env"
  assumes r: "raw_ready a xp prog vers (Auth_none priv) st" and priv: "none_inv priv"
    and args: "mem_encodes xargs argsp bs argsp'" "length bs \<le> 7900"
    and E: "E = svc_raw_ops xp E0"
    and none: "find (\<lambda>s. sc_prog s = prog \<and> sc_vers s = vers) (svc_head st) = None"
  shows "\<exists>st'. clnt_raw_call E ae msg0 err0 proc xargs argsp xresults resultsp st =
      Some (if versions prog (svc_head st) = {} then RPC_PROGUNAVAIL else RPC_PROGVERSMISMATCH, resultsp, st')
    \<and> raw_ready a xp prog vers (Auth_none priv) st'
    \<and> svc_head st' = svc_head st \<and> svc_xports st' = svc_xports st \<and> rw_other (svc_world st') = rw_other (svc_world st)
    \<and> (\<exists>x. alive xp st = Some x \<and>
         xprts st' = (xprts st)(xp \<mapsto> x\<lparr>sx_verf := (sx_verf x)\<lparr>oa_flavor := AUTH_NONE, oa_length := 0\<rparr>\<rparr>))"
proof -
  let ?auth = "Auth_none priv"
  define status where "status = (if versions prog (svc_head st) = {} then RPC_PROGUNAVAIL else RPC_PROGVERSMISMATCH)"
  have auth: "AUTH_inv (ae 0) [] 0 0 [] ?auth" "AUTH_REFRESH (ae 0) ?auth = Some (False, ?auth)"
    using priv by (simp_all add: AUTH_inv_def AUTH_REFRESH_def authnone_refresh_def)
  have c: "AUTH_cred ?auth = null_auth" by (simp add: AUTH_cred_def)
  have room: "auth_room (sv_avail E) (tcb_cred (trm_call (local_msg E))) (AUTH_cred ?auth)"
    by (simp add: c auth_room_def null_auth_def)
  obtain x where x: "alive xp st = Some x" using r by (auto simp: raw_ready_def)
  let ?q = "(svc_head st, (xprts st)(xp \<mapsto> x\<lparr>sx_verf := blank_verf (sx_verf x)\<rparr>), svc_xports st, rw_other (svc_world st))"
  have reply: "xp_reply E xp = svc_raw_reply (sv_avail E)" by (simp add: E svc_raw_ops_def)
  define f :: "(memstrm, 'v) taccepted_reply \<Rightarrow> (memstrm, 'v) taccepted_reply"
    where "f = (if versions prog (svc_head st) = {} then tar_stat_update (\<lambda>_. PROG_UNAVAIL)
            else (\<lambda>ar. ar\<lparr>tar_stat := PROG_MISMATCH, tar_low := Min (versions prog (svc_head st)),
                   tar_high := Max (versions prog (svc_head st))\<rparr>))"
  have served: "\<exists>skip st2 rmsg rs. serve_call E xp (raw_received (sv_avail E) (local_msg E) xid prog vers proc (AUTH_cred ?auth)) st1 = Some (skip, st2) \<and>
        raw_ready a xp prog vers ?auth st2 \<and> raw_holds a st2 (treply_bytes (rmsg :: (memstrm, 'v) trpc_msg) rs) \<and> treply_ok rmsg \<and>
        oa_length (tar_verf (trp_acpt (trm_reply rmsg))) = 0 \<and> oa_flavor (tar_verf (trp_acpt (trm_reply rmsg))) \<noteq> AUTH_SHORT \<and>
        (accepted_succeeded rmsg \<longrightarrow> mem_decodes xresults rs resultsp resultsp) \<and>
        status = re_status (seterr_reply rmsg err0) \<and> (status = RPC_SUCCESS \<longleftrightarrow> False) \<and> raw_frame st2 = ?q"
    if r1: "raw_ready a xp prog vers ?auth st1" and f1: "raw_frame st1 = raw_frame st" for xid st1
  proof -
    have x: "alive xp st1 = Some x" using x f1 by (simp add: raw_frame_def alive_def)
    have h1: "svc_head st1 = svc_head st" using f1 by (simp add: raw_frame_def)
    let ?x = "x\<lparr>sx_verf := blank_verf (sx_verf x)\<rparr>"
    let ?st = "st1\<lparr>xprts := (xprts st1)(xp \<mapsto> ?x)\<rparr>"
    have q: "serve_call E xp (raw_received (sv_avail E) (local_msg E) xid prog vers proc null_auth) st1 =
      map_option (\<lambda>(_, st). (False, st)) (SVC_REPLY E xp (accepted_msg E ?x f) ?st)"
      by (rule serve_null [OF x, of E "sv_avail E" "local_msg E" xid prog vers proc, unfolded h1 none option.case, folded f_def])
    have r2: "raw_ready a xp prog vers ?auth ?st" by (rule raw_ready_frame(1) [OF r1])
    have x2: "alive xp ?st = Some ?x" "sx_verf ?x = blank_verf (sx_verf x)" by (simp_all add: alive_def)
    have f: "tar_verf (f ar) = tar_verf ar" for ar by (simp add: f_def)
    have no: "\<not> accepted_succeeded (accepted_msg E ?x f)" by (simp add: accepted_succeeded_def accepted_msg_reply msg_enums f_def status_def)
    obtain st2 where s2: "SVC_REPLY E xp (accepted_msg E ?x f) ?st = Some (True, st2)" "raw_ready a xp prog vers ?auth st2"
      "raw_frame st2 = raw_frame ?st" "raw_holds a st2 (treply_bytes (accepted_msg E ?x f) [])" "treply_ok (accepted_msg E ?x f)"
      "oa_length (tar_verf (trp_acpt (trm_reply (accepted_msg E ?x f)))) = 0"
      "oa_flavor (tar_verf (trp_acpt (trm_reply (accepted_msg E ?x f)))) \<noteq> AUTH_SHORT"
      by (rule reply_accepted [OF r2 x2 reply f, of "[]"]) (use no in simp_all)
    have st: "status = re_status (seterr_reply (accepted_msg E ?x f) err0)"
      by (simp add: seterr_reply_def seterr_details_def accepted_def accepted_msg_reply msg_enums f_def status_def)
    have ns: "(status = RPC_SUCCESS) = False" by (simp add: status_def)
    have "serve_call E xp (raw_received (sv_avail E) (local_msg E) xid prog vers proc (AUTH_cred ?auth)) st1 = Some (False, st2)"
      unfolding c q s2(1) by simp
    moreover have "raw_frame st2 = ?q"
      using s2(3) f1 by (simp add: raw_frame_def)
    ultimately show ?thesis
      using s2(2,4-7) no st ns
      by (intro exI [of _ False] exI [of _ st2] exI [of _ "accepted_msg E ?x f"] exI [of _ "[]"] conjI) (assumption | simp)+
  qed
  obtain st' where s': "clnt_raw_call E ae msg0 err0 proc xargs argsp xresults resultsp st = Some (status, resultsp, st')"
    "raw_ready a xp prog vers ?auth st'" "raw_frame st' = ?q"
    using raw_exchange [where ae = ae and ?msg0.0 = msg0 and ?error0.0 = err0 and xresults = xresults and resultsp = resultsp and res = resultsp
        and status = status and success = False
        and Q = "\<lambda>f. f = ?q", OF r auth args E room served] by auto
  then show ?thesis using x
    by (intro exI [of _ st'] conjI exI [of _ x]) (simp_all add: raw_frame_def status_def blank_verf_def AUTH_NONE_def)
qed

theorem raw_call_refused_witness:
  "\<exists>st1 st2. msg_start (msg_env 1 raw_demo_env) raw_demo_re 1 0 raw_demo_state = Some st1 \<and>
    clnt_raw_call (msg_env 1 raw_demo_env) (\<lambda>_. env0) (zero_tmsg 0) raw_demo_err 0 xdr_int 5 xdr_int 7 (st1\<lparr>svc_head := []\<rparr>) =
      Some (RPC_PROGUNAVAIL, 7, st2)"
proof -
  obtain st1 priv where s: "msg_start (msg_env 1 raw_demo_env) raw_demo_re 1 0 raw_demo_state = Some st1" "none_inv priv"
    "msg_ready (re_buf raw_demo_re) 1 (Auth_none priv) st1"
    by (rule msg_start_ready [OF raw_demo_fresh])
  have r: "raw_ready (re_buf raw_demo_re) 1 MESSAGEPROG PRINTMESSAGEVERS (Auth_none priv) (st1\<lparr>svc_head := []\<rparr>)"
    using s(3) by (simp add: msg_ready_def raw_ready_def alive_def xport_at_def)
  have e: "mem_encodes xdr_int 5 (be32 5) 5" "length (be32 5) \<le> 7900"
    by (simp_all add: mem_encodes_def al.encodes_xdr_int un.encodes_xdr_int)
  have none: "find (\<lambda>s. sc_prog s = MESSAGEPROG \<and> sc_vers s = PRINTMESSAGEVERS) (svc_head (st1\<lparr>svc_head := []\<rparr>)) = None"
    "versions MESSAGEPROG (svc_head (st1\<lparr>svc_head := []\<rparr>)) = {}" by (simp_all add: versions_def)
  obtain st2 where "clnt_raw_call (msg_env 1 raw_demo_env) (\<lambda>_. env0) (zero_tmsg 0) raw_demo_err 0 xdr_int 5 xdr_int 7 (st1\<lparr>svc_head := []\<rparr>) =
      Some (if versions MESSAGEPROG (svc_head (st1\<lparr>svc_head := []\<rparr>)) = {} then RPC_PROGUNAVAIL else RPC_PROGVERSMISMATCH, 7, st2)"
    using raw_call_refused [OF r s(2) e msg_env_simps(4) [of 1 raw_demo_env] none(1), of "\<lambda>_. env0" "zero_tmsg 0" raw_demo_err 0 xdr_int 7]
    by (elim exE conjE) (rule that)
  then show ?thesis using s(1) none(2) by auto
qed

end
