(* ===== verification/Des.thy ===== *)
theory Des
  imports Base
begin

text \<open>
  The DES routines that secure RPC uses: the cipher (\<open>des_impl.c\<close>), the entry points that check
  their arguments (\<open>des_crypt.c\<close>) and the parity of a key (\<open>des_soft.c\<close>).  \<open>unsigned long\<close>
  has 64 bits and the halves of a block only 32, so every shift is at 64 bits and every mask of
  the code is kept.  The lemmas of \<open>Des_Cipher\<close> are about these definitions.
\<close>

section \<open>Tables\<close>

definition des_SPtrans :: "32 word list list" where
  "des_SPtrans = [
   [0x00820200, 0x00020000, 0x80800000, 0x80820200, 0x00800000, 0x80020200, 0x80020000, 0x80800000,
    0x80020200, 0x00820200, 0x00820000, 0x80000200, 0x80800200, 0x00800000, 0x00000000, 0x80020000,
    0x00020000, 0x80000000, 0x00800200, 0x00020200, 0x80820200, 0x00820000, 0x80000200, 0x00800200,
    0x80000000, 0x00000200, 0x00020200, 0x80820000, 0x00000200, 0x80800200, 0x80820000, 0x00000000,
    0x00000000, 0x80820200, 0x00800200, 0x80020000, 0x00820200, 0x00020000, 0x80000200, 0x00800200,
    0x80820000, 0x00000200, 0x00020200, 0x80800000, 0x80020200, 0x80000000, 0x80800000, 0x00820000,
    0x80820200, 0x00020200, 0x00820000, 0x80800200, 0x00800000, 0x80000200, 0x80020000, 0x00000000,
    0x00020000, 0x00800000, 0x80800200, 0x00820200, 0x80000000, 0x80820000, 0x00000200, 0x80020200],
   [0x10042004, 0x00000000, 0x00042000, 0x10040000, 0x10000004, 0x00002004, 0x10002000, 0x00042000,
    0x00002000, 0x10040004, 0x00000004, 0x10002000, 0x00040004, 0x10042000, 0x10040000, 0x00000004,
    0x00040000, 0x10002004, 0x10040004, 0x00002000, 0x00042004, 0x10000000, 0x00000000, 0x00040004,
    0x10002004, 0x00042004, 0x10042000, 0x10000004, 0x10000000, 0x00040000, 0x00002004, 0x10042004,
    0x00040004, 0x10042000, 0x10002000, 0x00042004, 0x10042004, 0x00040004, 0x10000004, 0x00000000,
    0x10000000, 0x00002004, 0x00040000, 0x10040004, 0x00002000, 0x10000000, 0x00042004, 0x10002004,
    0x10042000, 0x00002000, 0x00000000, 0x10000004, 0x00000004, 0x10042004, 0x00042000, 0x10040000,
    0x10040004, 0x00040000, 0x00002004, 0x10002000, 0x10002004, 0x00000004, 0x10040000, 0x00042000],
   [0x41000000, 0x01010040, 0x00000040, 0x41000040, 0x40010000, 0x01000000, 0x41000040, 0x00010040,
    0x01000040, 0x00010000, 0x01010000, 0x40000000, 0x41010040, 0x40000040, 0x40000000, 0x41010000,
    0x00000000, 0x40010000, 0x01010040, 0x00000040, 0x40000040, 0x41010040, 0x00010000, 0x41000000,
    0x41010000, 0x01000040, 0x40010040, 0x01010000, 0x00010040, 0x00000000, 0x01000000, 0x40010040,
    0x01010040, 0x00000040, 0x40000000, 0x00010000, 0x40000040, 0x40010000, 0x01010000, 0x41000040,
    0x00000000, 0x01010040, 0x00010040, 0x41010000, 0x40010000, 0x01000000, 0x41010040, 0x40000000,
    0x40010040, 0x41000000, 0x01000000, 0x41010040, 0x00010000, 0x01000040, 0x41000040, 0x00010040,
    0x01000040, 0x00000000, 0x41010000, 0x40000040, 0x41000000, 0x40010040, 0x00000040, 0x01010000],
   [0x00100402, 0x04000400, 0x00000002, 0x04100402, 0x00000000, 0x04100000, 0x04000402, 0x00100002,
    0x04100400, 0x04000002, 0x04000000, 0x00000402, 0x04000002, 0x00100402, 0x00100000, 0x04000000,
    0x04100002, 0x00100400, 0x00000400, 0x00000002, 0x00100400, 0x04000402, 0x04100000, 0x00000400,
    0x00000402, 0x00000000, 0x00100002, 0x04100400, 0x04000400, 0x04100002, 0x04100402, 0x00100000,
    0x04100002, 0x00000402, 0x00100000, 0x04000002, 0x00100400, 0x04000400, 0x00000002, 0x04100000,
    0x04000402, 0x00000000, 0x00000400, 0x00100002, 0x00000000, 0x04100002, 0x04100400, 0x00000400,
    0x04000000, 0x04100402, 0x00100402, 0x00100000, 0x04100402, 0x00000002, 0x04000400, 0x00100402,
    0x00100002, 0x00100400, 0x04100000, 0x04000402, 0x00000402, 0x04000000, 0x04000002, 0x04100400],
   [0x02000000, 0x00004000, 0x00000100, 0x02004108, 0x02004008, 0x02000100, 0x00004108, 0x02004000,
    0x00004000, 0x00000008, 0x02000008, 0x00004100, 0x02000108, 0x02004008, 0x02004100, 0x00000000,
    0x00004100, 0x02000000, 0x00004008, 0x00000108, 0x02000100, 0x00004108, 0x00000000, 0x02000008,
    0x00000008, 0x02000108, 0x02004108, 0x00004008, 0x02004000, 0x00000100, 0x00000108, 0x02004100,
    0x02004100, 0x02000108, 0x00004008, 0x02004000, 0x00004000, 0x00000008, 0x02000008, 0x02000100,
    0x02000000, 0x00004100, 0x02004108, 0x00000000, 0x00004108, 0x02000000, 0x00000100, 0x00004008,
    0x02000108, 0x00000100, 0x00000000, 0x02004108, 0x02004008, 0x02004100, 0x00000108, 0x00004000,
    0x00004100, 0x02004008, 0x02000100, 0x00000108, 0x00000008, 0x00004108, 0x02004000, 0x02000008],
   [0x20000010, 0x00080010, 0x00000000, 0x20080800, 0x00080010, 0x00000800, 0x20000810, 0x00080000,
    0x00000810, 0x20080810, 0x00080800, 0x20000000, 0x20000800, 0x20000010, 0x20080000, 0x00080810,
    0x00080000, 0x20000810, 0x20080010, 0x00000000, 0x00000800, 0x00000010, 0x20080800, 0x20080010,
    0x20080810, 0x20080000, 0x20000000, 0x00000810, 0x00000010, 0x00080800, 0x00080810, 0x20000800,
    0x00000810, 0x20000000, 0x20000800, 0x00080810, 0x20080800, 0x00080010, 0x00000000, 0x20000800,
    0x20000000, 0x00000800, 0x20080010, 0x00080000, 0x00080010, 0x20080810, 0x00080800, 0x00000010,
    0x20080810, 0x00080800, 0x00080000, 0x20000810, 0x20000010, 0x20080000, 0x00080810, 0x00000000,
    0x00000800, 0x20000010, 0x20000810, 0x20080800, 0x20080000, 0x00000810, 0x00000010, 0x20080010],
   [0x00001000, 0x00000080, 0x00400080, 0x00400001, 0x00401081, 0x00001001, 0x00001080, 0x00000000,
    0x00400000, 0x00400081, 0x00000081, 0x00401000, 0x00000001, 0x00401080, 0x00401000, 0x00000081,
    0x00400081, 0x00001000, 0x00001001, 0x00401081, 0x00000000, 0x00400080, 0x00400001, 0x00001080,
    0x00401001, 0x00001081, 0x00401080, 0x00000001, 0x00001081, 0x00401001, 0x00000080, 0x00400000,
    0x00001081, 0x00401000, 0x00401001, 0x00000081, 0x00001000, 0x00000080, 0x00400000, 0x00401001,
    0x00400081, 0x00001081, 0x00001080, 0x00000000, 0x00000080, 0x00400001, 0x00000001, 0x00400080,
    0x00000000, 0x00400081, 0x00400080, 0x00001080, 0x00000081, 0x00001000, 0x00401081, 0x00400000,
    0x00401080, 0x00000001, 0x00001001, 0x00401081, 0x00400001, 0x00401080, 0x00401000, 0x00001001],
   [0x08200020, 0x08208000, 0x00008020, 0x00000000, 0x08008000, 0x00200020, 0x08200000, 0x08208020,
    0x00000020, 0x08000000, 0x00208000, 0x00008020, 0x00208020, 0x08008020, 0x08000020, 0x08200000,
    0x00008000, 0x00208020, 0x00200020, 0x08008000, 0x08208020, 0x08000020, 0x00000000, 0x00208000,
    0x08000000, 0x00200000, 0x08008020, 0x08200020, 0x00200000, 0x00008000, 0x08208000, 0x00000020,
    0x00200000, 0x00008000, 0x08000020, 0x08208020, 0x00008020, 0x08000000, 0x00000000, 0x00208000,
    0x08200020, 0x08008020, 0x08008000, 0x00200020, 0x08208000, 0x00000020, 0x00200020, 0x08008000,
    0x08208020, 0x00200000, 0x08200000, 0x08000020, 0x00208000, 0x00008020, 0x08008020, 0x08200000,
    0x00000020, 0x08208000, 0x00208020, 0x00000000, 0x08000000, 0x08200020, 0x00008000, 0x00208020]]"

definition des_skb :: "32 word list list" where
  "des_skb = [
   [0x00000000, 0x00000010, 0x20000000, 0x20000010, 0x00010000, 0x00010010, 0x20010000, 0x20010010,
    0x00000800, 0x00000810, 0x20000800, 0x20000810, 0x00010800, 0x00010810, 0x20010800, 0x20010810,
    0x00000020, 0x00000030, 0x20000020, 0x20000030, 0x00010020, 0x00010030, 0x20010020, 0x20010030,
    0x00000820, 0x00000830, 0x20000820, 0x20000830, 0x00010820, 0x00010830, 0x20010820, 0x20010830,
    0x00080000, 0x00080010, 0x20080000, 0x20080010, 0x00090000, 0x00090010, 0x20090000, 0x20090010,
    0x00080800, 0x00080810, 0x20080800, 0x20080810, 0x00090800, 0x00090810, 0x20090800, 0x20090810,
    0x00080020, 0x00080030, 0x20080020, 0x20080030, 0x00090020, 0x00090030, 0x20090020, 0x20090030,
    0x00080820, 0x00080830, 0x20080820, 0x20080830, 0x00090820, 0x00090830, 0x20090820, 0x20090830],
   [0x00000000, 0x02000000, 0x00002000, 0x02002000, 0x00200000, 0x02200000, 0x00202000, 0x02202000,
    0x00000004, 0x02000004, 0x00002004, 0x02002004, 0x00200004, 0x02200004, 0x00202004, 0x02202004,
    0x00000400, 0x02000400, 0x00002400, 0x02002400, 0x00200400, 0x02200400, 0x00202400, 0x02202400,
    0x00000404, 0x02000404, 0x00002404, 0x02002404, 0x00200404, 0x02200404, 0x00202404, 0x02202404,
    0x10000000, 0x12000000, 0x10002000, 0x12002000, 0x10200000, 0x12200000, 0x10202000, 0x12202000,
    0x10000004, 0x12000004, 0x10002004, 0x12002004, 0x10200004, 0x12200004, 0x10202004, 0x12202004,
    0x10000400, 0x12000400, 0x10002400, 0x12002400, 0x10200400, 0x12200400, 0x10202400, 0x12202400,
    0x10000404, 0x12000404, 0x10002404, 0x12002404, 0x10200404, 0x12200404, 0x10202404, 0x12202404],
   [0x00000000, 0x00000001, 0x00040000, 0x00040001, 0x01000000, 0x01000001, 0x01040000, 0x01040001,
    0x00000002, 0x00000003, 0x00040002, 0x00040003, 0x01000002, 0x01000003, 0x01040002, 0x01040003,
    0x00000200, 0x00000201, 0x00040200, 0x00040201, 0x01000200, 0x01000201, 0x01040200, 0x01040201,
    0x00000202, 0x00000203, 0x00040202, 0x00040203, 0x01000202, 0x01000203, 0x01040202, 0x01040203,
    0x08000000, 0x08000001, 0x08040000, 0x08040001, 0x09000000, 0x09000001, 0x09040000, 0x09040001,
    0x08000002, 0x08000003, 0x08040002, 0x08040003, 0x09000002, 0x09000003, 0x09040002, 0x09040003,
    0x08000200, 0x08000201, 0x08040200, 0x08040201, 0x09000200, 0x09000201, 0x09040200, 0x09040201,
    0x08000202, 0x08000203, 0x08040202, 0x08040203, 0x09000202, 0x09000203, 0x09040202, 0x09040203],
   [0x00000000, 0x00100000, 0x00000100, 0x00100100, 0x00000008, 0x00100008, 0x00000108, 0x00100108,
    0x00001000, 0x00101000, 0x00001100, 0x00101100, 0x00001008, 0x00101008, 0x00001108, 0x00101108,
    0x04000000, 0x04100000, 0x04000100, 0x04100100, 0x04000008, 0x04100008, 0x04000108, 0x04100108,
    0x04001000, 0x04101000, 0x04001100, 0x04101100, 0x04001008, 0x04101008, 0x04001108, 0x04101108,
    0x00020000, 0x00120000, 0x00020100, 0x00120100, 0x00020008, 0x00120008, 0x00020108, 0x00120108,
    0x00021000, 0x00121000, 0x00021100, 0x00121100, 0x00021008, 0x00121008, 0x00021108, 0x00121108,
    0x04020000, 0x04120000, 0x04020100, 0x04120100, 0x04020008, 0x04120008, 0x04020108, 0x04120108,
    0x04021000, 0x04121000, 0x04021100, 0x04121100, 0x04021008, 0x04121008, 0x04021108, 0x04121108],
   [0x00000000, 0x10000000, 0x00010000, 0x10010000, 0x00000004, 0x10000004, 0x00010004, 0x10010004,
    0x20000000, 0x30000000, 0x20010000, 0x30010000, 0x20000004, 0x30000004, 0x20010004, 0x30010004,
    0x00100000, 0x10100000, 0x00110000, 0x10110000, 0x00100004, 0x10100004, 0x00110004, 0x10110004,
    0x20100000, 0x30100000, 0x20110000, 0x30110000, 0x20100004, 0x30100004, 0x20110004, 0x30110004,
    0x00001000, 0x10001000, 0x00011000, 0x10011000, 0x00001004, 0x10001004, 0x00011004, 0x10011004,
    0x20001000, 0x30001000, 0x20011000, 0x30011000, 0x20001004, 0x30001004, 0x20011004, 0x30011004,
    0x00101000, 0x10101000, 0x00111000, 0x10111000, 0x00101004, 0x10101004, 0x00111004, 0x10111004,
    0x20101000, 0x30101000, 0x20111000, 0x30111000, 0x20101004, 0x30101004, 0x20111004, 0x30111004],
   [0x00000000, 0x08000000, 0x00000008, 0x08000008, 0x00000400, 0x08000400, 0x00000408, 0x08000408,
    0x00020000, 0x08020000, 0x00020008, 0x08020008, 0x00020400, 0x08020400, 0x00020408, 0x08020408,
    0x00000001, 0x08000001, 0x00000009, 0x08000009, 0x00000401, 0x08000401, 0x00000409, 0x08000409,
    0x00020001, 0x08020001, 0x00020009, 0x08020009, 0x00020401, 0x08020401, 0x00020409, 0x08020409,
    0x02000000, 0x0A000000, 0x02000008, 0x0A000008, 0x02000400, 0x0A000400, 0x02000408, 0x0A000408,
    0x02020000, 0x0A020000, 0x02020008, 0x0A020008, 0x02020400, 0x0A020400, 0x02020408, 0x0A020408,
    0x02000001, 0x0A000001, 0x02000009, 0x0A000009, 0x02000401, 0x0A000401, 0x02000409, 0x0A000409,
    0x02020001, 0x0A020001, 0x02020009, 0x0A020009, 0x02020401, 0x0A020401, 0x02020409, 0x0A020409],
   [0x00000000, 0x00000100, 0x00080000, 0x00080100, 0x01000000, 0x01000100, 0x01080000, 0x01080100,
    0x00000010, 0x00000110, 0x00080010, 0x00080110, 0x01000010, 0x01000110, 0x01080010, 0x01080110,
    0x00200000, 0x00200100, 0x00280000, 0x00280100, 0x01200000, 0x01200100, 0x01280000, 0x01280100,
    0x00200010, 0x00200110, 0x00280010, 0x00280110, 0x01200010, 0x01200110, 0x01280010, 0x01280110,
    0x00000200, 0x00000300, 0x00080200, 0x00080300, 0x01000200, 0x01000300, 0x01080200, 0x01080300,
    0x00000210, 0x00000310, 0x00080210, 0x00080310, 0x01000210, 0x01000310, 0x01080210, 0x01080310,
    0x00200200, 0x00200300, 0x00280200, 0x00280300, 0x01200200, 0x01200300, 0x01280200, 0x01280300,
    0x00200210, 0x00200310, 0x00280210, 0x00280310, 0x01200210, 0x01200310, 0x01280210, 0x01280310],
   [0x00000000, 0x04000000, 0x00040000, 0x04040000, 0x00000002, 0x04000002, 0x00040002, 0x04040002,
    0x00002000, 0x04002000, 0x00042000, 0x04042000, 0x00002002, 0x04002002, 0x00042002, 0x04042002,
    0x00000020, 0x04000020, 0x00040020, 0x04040020, 0x00000022, 0x04000022, 0x00040022, 0x04040022,
    0x00002020, 0x04002020, 0x00042020, 0x04042020, 0x00002022, 0x04002022, 0x00042022, 0x04042022,
    0x00000800, 0x04000800, 0x00040800, 0x04040800, 0x00000802, 0x04000802, 0x00040802, 0x04040802,
    0x00002800, 0x04002800, 0x00042800, 0x04042800, 0x00002802, 0x04002802, 0x00042802, 0x04042802,
    0x00000820, 0x04000820, 0x00040820, 0x04040820, 0x00000822, 0x04000822, 0x00040822, 0x04040822,
    0x00002820, 0x04002820, 0x00042820, 0x04042820, 0x00002822, 0x04002822, 0x00042822, 0x04042822]]"

section \<open>Words and bytes of a block\<close>

text \<open>Both macros move their pointer: \<open>c2l\<close> returns what is left to read.\<close>

fun c2l :: "byte list \<Rightarrow> (64 word \<times> byte list) option" where
  "c2l (c0 # c1 # c2 # c3 # c) =
     Some (ucast c0 OR push_bit 8 (ucast c1) OR push_bit 16 (ucast c2) OR push_bit 24 (ucast c3), c)"
| "c2l _ = None"

definition l2c :: "64 word \<Rightarrow> byte list" where
  "l2c l = [ucast (l AND 0xff), ucast (drop_bit 8 l AND 0xff), ucast (drop_bit 16 l AND 0xff),
            ucast (drop_bit 24 l AND 0xff)]"

section \<open>One block\<close>

definition PERM_OP :: "nat \<Rightarrow> 64 word \<Rightarrow> 64 word \<times> 64 word \<Rightarrow> 64 word \<times> 64 word" where
  "PERM_OP n m = (\<lambda>(a, b). let t = (drop_bit n a XOR b) AND m in (a XOR push_bit n t, b XOR t))"

text \<open>The code's \<open>n\<close> is always -2, the shift \<open>16 - n\<close> is \<open>k\<close>.\<close>

definition HPERM_OP :: "nat \<Rightarrow> 64 word \<Rightarrow> 64 word \<Rightarrow> 64 word" where
  "HPERM_OP k m a = (let t = (push_bit k a XOR a) AND m in a XOR t XOR drop_bit k t)"

definition SP :: "nat \<Rightarrow> 64 word \<Rightarrow> 32 word" where
  "SP n w = des_SPtrans ! n ! unat (w AND 0x3f)"

definition D_ENCRYPT :: "64 word list \<Rightarrow> 64 word \<Rightarrow> 64 word \<Rightarrow> nat \<Rightarrow> 64 word" where
  "D_ENCRYPT s L R S =
     (let u = R XOR s ! S;
          t = R XOR s ! (S + 1);
          t = drop_bit 4 t + push_bit 28 t
      in L XOR ucast (SP 1 t OR SP 3 (drop_bit 8 t) OR SP 5 (drop_bit 16 t) OR SP 7 (drop_bit 24 t)
           OR SP 0 u OR SP 2 (drop_bit 8 u) OR SP 4 (drop_bit 16 u) OR SP 6 (drop_bit 24 u)))"

definition ITERATIONS :: nat where "ITERATIONS = 16"

definition shifts2 :: "byte list" where
  "shifts2 = [0, 0, 1, 1, 1, 1, 1, 1, 0, 1, 1, 1, 1, 1, 1, 0]"

definition skb :: "nat \<Rightarrow> 64 word \<Rightarrow> 64 word" where
  "skb n w = ucast (des_skb ! n ! unat w)"

text \<open>One turn of the loop of \<open>des_set_key\<close>: the halves of the key it leaves, and two words.\<close>

definition set_key_step :: "64 word \<times> 64 word \<Rightarrow> nat \<Rightarrow> (64 word \<times> 64 word) \<times> 64 word list" where
  "set_key_step cd i =
     (let (c, d) = cd;
          (c, d) = (if shifts2 ! i \<noteq> 0
            then (drop_bit 2 c OR push_bit 26 c, drop_bit 2 d OR push_bit 26 d)
            else (drop_bit 1 c OR push_bit 27 c, drop_bit 1 d OR push_bit 27 d));
          c = c AND 0x0fffffff;
          d = d AND 0x0fffffff;
          s = skb 0 (c AND 0x3f)
            OR skb 1 ((drop_bit 6 c AND 0x03) OR (drop_bit 7 c AND 0x3c))
            OR skb 2 ((drop_bit 13 c AND 0x0f) OR (drop_bit 14 c AND 0x30))
            OR skb 3 ((drop_bit 20 c AND 0x01) OR (drop_bit 21 c AND 0x06) OR (drop_bit 22 c AND 0x38));
          t = skb 4 (d AND 0x3f)
            OR skb 5 ((drop_bit 7 d AND 0x03) OR (drop_bit 8 d AND 0x3c))
            OR skb 6 (drop_bit 15 d AND 0x3f)
            OR skb 7 ((drop_bit 21 d AND 0x0f) OR (drop_bit 22 d AND 0x30));
          k0 = (push_bit 16 t OR (s AND 0x0000ffff)) AND 0xffffffff;
          s = drop_bit 16 s OR (t AND 0xffff0000);
          s = push_bit 4 s OR drop_bit 28 s;
          k1 = s AND 0xffffffff
      in ((c, d), [k0, k1]))"

fun set_key_loop :: "nat list \<Rightarrow> 64 word \<times> 64 word \<Rightarrow> 64 word list" where
  "set_key_loop [] cd = []"
| "set_key_loop (i # is) cd = (let (cd, ks) = set_key_step cd i in ks @ set_key_loop is cd)"

definition set_key_start :: "64 word \<Rightarrow> 64 word \<Rightarrow> 64 word \<times> 64 word" where
  "set_key_start c d =
     (let (d, c) = PERM_OP 4 0x0f0f0f0f (d, c);
          c = HPERM_OP 18 0xcccc0000 c;
          d = HPERM_OP 18 0xcccc0000 d;
          (d, c) = PERM_OP 1 0x55555555 (d, c);
          (c, d) = PERM_OP 8 0x00ff00ff (c, d);
          (d, c) = PERM_OP 1 0x55555555 (d, c);
          d = push_bit 16 (d AND 0x000000ff) OR (d AND 0x0000ff00)
            OR drop_bit 16 (d AND 0x00ff0000) OR drop_bit 4 (c AND 0xf0000000);
          c = c AND 0x0fffffff
      in (c, d))"

definition des_set_key :: "byte list \<Rightarrow> 64 word list option" where
  "des_set_key key = do {
     (c, key1) \<leftarrow> c2l key;
     (d, _) \<leftarrow> c2l key1;
     Some (set_key_loop [0 ..< ITERATIONS] (set_key_start c d))
   }"

text \<open>\<open>des_encrypt\<close>: the permutation \<open>IP\<close>, its way back, and the loop of each direction.\<close>

definition IP :: "64 word \<times> 64 word \<Rightarrow> 64 word \<times> 64 word" where
  "IP = (\<lambda>(l, r).
     let (r, l) = PERM_OP 4 0x0f0f0f0f (r, l);
         (l, r) = PERM_OP 16 0x0000ffff (l, r);
         (r, l) = PERM_OP 2 0x33333333 (r, l);
         (l, r) = PERM_OP 8 0x00ff00ff (l, r);
         (r, l) = PERM_OP 1 0x55555555 (r, l)
     in (l, r))"

definition FP :: "64 word \<times> 64 word \<Rightarrow> 64 word \<times> 64 word" where
  "FP = (\<lambda>(l, r).
     let (r, l) = PERM_OP 1 0x55555555 (r, l);
         (l, r) = PERM_OP 8 0x00ff00ff (l, r);
         (r, l) = PERM_OP 2 0x33333333 (r, l);
         (l, r) = PERM_OP 16 0x0000ffff (l, r);
         (r, l) = PERM_OP 4 0x0f0f0f0f (r, l)
     in (l, r))"

fun encrypt_rounds :: "64 word list \<Rightarrow> nat list \<Rightarrow> 64 word \<times> 64 word \<Rightarrow> 64 word \<times> 64 word" where
  "encrypt_rounds s [] (l, r) = (l, r)"
| "encrypt_rounds s (i # is) (l, r) =
     (let l = D_ENCRYPT s l r (i + 0); r = D_ENCRYPT s r l (i + 2) in encrypt_rounds s is (l, r))"

fun decrypt_rounds :: "64 word list \<Rightarrow> nat list \<Rightarrow> 64 word \<times> 64 word \<Rightarrow> 64 word \<times> 64 word" where
  "decrypt_rounds s [] (l, r) = (l, r)"
| "decrypt_rounds s (i # is) (l, r) =
     (let l = D_ENCRYPT s l r (i - 0); r = D_ENCRYPT s r l (i - 2) in decrypt_rounds s is (l, r))"

definition des_encrypt :: "64 word list \<Rightarrow> bool \<Rightarrow> 64 word \<times> 64 word \<Rightarrow> 64 word \<times> 64 word" where
  "des_encrypt s encrypt buf =
     (let (l, r) = IP buf;
          t = push_bit 1 r OR drop_bit 31 r;
          r = push_bit 1 l OR drop_bit 31 l;
          l = t AND 0xffffffff;
          r = r AND 0xffffffff;
          (l, r) = (if encrypt then encrypt_rounds s [0, 4, 8, 12, 16, 20, 24, 28] (l, r)
            else decrypt_rounds s [30, 26, 22, 18, 14, 10, 6, 2] (l, r));
          l = (drop_bit 1 l OR push_bit 31 l) AND 0xffffffff;
          r = (drop_bit 1 r OR push_bit 31 r) AND 0xffffffff
      in FP (l, r))"

section \<open>A buffer\<close>

datatype desdir = ENCRYPT | DECRYPT

datatype desmode = CBC | ECB

text \<open>The union of the parameters is for hardware: the routines do not touch it, nor \<open>des_len\<close>.\<close>

record desparams =
  des_key :: "byte list"
  des_dir :: desdir
  des_mode :: desmode
  des_ivec :: "byte list"
  des_len :: "32 word"

text \<open>
  The loops of \<open>_des_crypt\<close>.  \<open>len\<close> goes down by 8 and wraps: of a buffer whose length is not a
  multiple of 8 the loop reads past the end, and there is no result.  The blocks are written over
  those that were read; the bytes after \<open>len\<close> stay.
\<close>

function des_loop_encrypt ::
    "64 word list \<Rightarrow> bool \<Rightarrow> 32 word \<Rightarrow> byte list \<Rightarrow> 64 word \<times> 64 word \<Rightarrow>
     (byte list \<times> (64 word \<times> 64 word)) option" where
  "des_loop_encrypt s cbc_mode len buf tout =
     (if len = 0 then Some (buf, tout)
      else case c2l buf of None \<Rightarrow> None
      | Some (tin0, buf1) \<Rightarrow> (case c2l buf1 of None \<Rightarrow> None
      | Some (tin1, buf2) \<Rightarrow>
          let tbuf = (if cbc_mode then (tin0 XOR fst tout, tin1 XOR snd tout) else (tin0, tin1));
              tout = des_encrypt s True tbuf
          in map_option (apfst ((@) (l2c (fst tout) @ l2c (snd tout))))
               (des_loop_encrypt s cbc_mode (len - 8) buf2 tout)))"
  by auto

function des_loop_decrypt ::
    "64 word list \<Rightarrow> bool \<Rightarrow> 32 word \<Rightarrow> byte list \<Rightarrow> 64 word \<times> 64 word \<Rightarrow> 64 word \<times> 64 word \<Rightarrow>
     (byte list \<times> (64 word \<times> 64 word)) option" where
  "des_loop_decrypt s cbc_mode len buf xor0 tin =
     (if len = 0 then Some (buf, tin)
      else case c2l buf of None \<Rightarrow> None
      | Some (tin0, buf1) \<Rightarrow> (case c2l buf1 of None \<Rightarrow> None
      | Some (tin1, buf2) \<Rightarrow>
          let tbuf = des_encrypt s False (tin0, tin1);
              (tout, xor0) = (if cbc_mode
                then ((fst tbuf XOR fst xor0, snd tbuf XOR snd xor0), (tin0, tin1))
                else (tbuf, xor0))
          in map_option (apfst ((@) (l2c (fst tout) @ l2c (snd tout))))
               (des_loop_decrypt s cbc_mode (len - 8) buf2 xor0 (tin0, tin1))))"
  by auto

lemma c2l_length: "c2l bs = Some (w, bs') \<Longrightarrow> length bs = length bs' + 4"
  by (cases bs rule: c2l.cases) auto

termination des_loop_encrypt
  by (relation "measure (\<lambda>(s, m, len, buf, tout). length buf)") (auto dest!: c2l_length)

termination des_loop_decrypt
  by (relation "measure (\<lambda>(s, m, len, buf, x, tin). length buf)") (auto dest!: c2l_length)

declare des_loop_encrypt.simps [simp del] des_loop_decrypt.simps [simp del]

definition des_crypt :: "byte list \<Rightarrow> 32 word \<Rightarrow> desparams \<Rightarrow> (32 word \<times> byte list \<times> desparams) option"
  where
  "des_crypt buf len desp = do {
     let cbc_mode = (des_mode desp = CBC);
     schedule \<leftarrow> des_set_key (des_key desp);
     (iv0, iv) \<leftarrow> c2l (des_ivec desp);
     (iv1, iv) \<leftarrow> c2l iv;
     (buf, last) \<leftarrow> (if des_dir desp = ENCRYPT
        then des_loop_encrypt schedule cbc_mode len buf (iv0, iv1)
        else des_loop_decrypt schedule cbc_mode len buf (iv0, iv1) (0, 0));
     Some (1, buf, desp\<lparr>des_ivec := l2c (fst last) @ l2c (snd last) @ iv\<rparr>)
   }"

section \<open>The library routines\<close>

definition DES_MAXDATA :: "32 word" where "DES_MAXDATA = 8192"
definition DES_DIRMASK :: "32 word" where "DES_DIRMASK = push_bit 0 1"
definition DES_ENCRYPT :: "32 word" where "DES_ENCRYPT = 0 * DES_DIRMASK"
definition DES_DECRYPT :: "32 word" where "DES_DECRYPT = 1 * DES_DIRMASK"
definition DES_DEVMASK :: "32 word" where "DES_DEVMASK = push_bit 1 1"
definition DES_HW :: "32 word" where "DES_HW = 0 * DES_DEVMASK"
definition DES_SW :: "32 word" where "DES_SW = 1 * DES_DEVMASK"
definition DESERR_NONE :: "32 word" where "DESERR_NONE = 0"
definition DESERR_NOHWDEVICE :: "32 word" where "DESERR_NOHWDEVICE = 1"
definition DESERR_HWERROR :: "32 word" where "DESERR_HWERROR = 2"
definition DESERR_BADPARAM :: "32 word" where "DESERR_BADPARAM = 3"

lemmas des_constants =
  DES_MAXDATA_def DES_DIRMASK_def DES_ENCRYPT_def DES_DECRYPT_def DES_DEVMASK_def DES_HW_def
  DES_SW_def DESERR_NONE_def DESERR_NOHWDEVICE_def DESERR_HWERROR_def DESERR_BADPARAM_def

definition DES_FAILED :: "32 word \<Rightarrow> bool" where
  "DES_FAILED err \<longleftrightarrow> sint err > sint DESERR_NOHWDEVICE"

definition common_crypt ::
    "byte list \<Rightarrow> byte list \<Rightarrow> 32 word \<Rightarrow> 32 word \<Rightarrow> desparams \<Rightarrow>
     (32 word \<times> byte list \<times> desparams) option" where
  "common_crypt key buf len mode desp =
     (if len mod 8 \<noteq> 0 \<or> len > DES_MAXDATA then Some (DESERR_BADPARAM, buf, desp)
      else do {
        let desp = desp\<lparr>des_dir := (if mode AND DES_DIRMASK = DES_ENCRYPT then ENCRYPT else DECRYPT)\<rparr>;
        let desdev = mode AND DES_DEVMASK;
        let desp = desp\<lparr>des_key := take 8 key\<rparr>;
        (r, buf, desp) \<leftarrow> des_crypt buf len desp;
        if r = 0 then Some (DESERR_HWERROR, buf, desp)
        else Some (if desdev = DES_SW then DESERR_NONE else DESERR_NOHWDEVICE, buf, desp)
      })"

text \<open>\<open>dp\<close> is the local structure as it was before its fields were set.\<close>

definition cbc_crypt ::
    "desparams \<Rightarrow> byte list \<Rightarrow> byte list \<Rightarrow> 32 word \<Rightarrow> 32 word \<Rightarrow> byte list \<Rightarrow>
     (32 word \<times> byte list \<times> byte list) option" where
  "cbc_crypt dp key buf len mode ivec =
     map_option (\<lambda>(err, buf, dp). (err, buf, take 8 (des_ivec dp) @ drop 8 ivec))
       (common_crypt key buf len mode (dp\<lparr>des_mode := CBC, des_ivec := take 8 ivec\<rparr>))"

definition ecb_crypt ::
    "desparams \<Rightarrow> byte list \<Rightarrow> byte list \<Rightarrow> 32 word \<Rightarrow> 32 word \<Rightarrow> (32 word \<times> byte list) option" where
  "ecb_crypt dp key buf len mode =
     map_option (\<lambda>(err, buf, dp). (err, buf)) (common_crypt key buf len mode (dp\<lparr>des_mode := ECB\<rparr>))"

section \<open>Parity\<close>

definition partab :: "byte list" where
  "partab = [
   0x01, 0x01, 0x02, 0x02, 0x04, 0x04, 0x07, 0x07, 0x08, 0x08, 0x0b, 0x0b, 0x0d, 0x0d, 0x0e, 0x0e,
   0x10, 0x10, 0x13, 0x13, 0x15, 0x15, 0x16, 0x16, 0x19, 0x19, 0x1a, 0x1a, 0x1c, 0x1c, 0x1f, 0x1f,
   0x20, 0x20, 0x23, 0x23, 0x25, 0x25, 0x26, 0x26, 0x29, 0x29, 0x2a, 0x2a, 0x2c, 0x2c, 0x2f, 0x2f,
   0x31, 0x31, 0x32, 0x32, 0x34, 0x34, 0x37, 0x37, 0x38, 0x38, 0x3b, 0x3b, 0x3d, 0x3d, 0x3e, 0x3e,
   0x40, 0x40, 0x43, 0x43, 0x45, 0x45, 0x46, 0x46, 0x49, 0x49, 0x4a, 0x4a, 0x4c, 0x4c, 0x4f, 0x4f,
   0x51, 0x51, 0x52, 0x52, 0x54, 0x54, 0x57, 0x57, 0x58, 0x58, 0x5b, 0x5b, 0x5d, 0x5d, 0x5e, 0x5e,
   0x61, 0x61, 0x62, 0x62, 0x64, 0x64, 0x67, 0x67, 0x68, 0x68, 0x6b, 0x6b, 0x6d, 0x6d, 0x6e, 0x6e,
   0x70, 0x70, 0x73, 0x73, 0x75, 0x75, 0x76, 0x76, 0x79, 0x79, 0x7a, 0x7a, 0x7c, 0x7c, 0x7f, 0x7f]"

definition des_setparity :: "byte list \<Rightarrow> byte list" where
  "des_setparity p = map (\<lambda>c. partab ! unat (c AND 0x7f)) (take 8 p) @ drop 8 p"

end
