(* ===== verification/Des_Cipher.thy ===== *)
theory Des_Cipher
  imports Des
begin

text \<open>
  Why the cipher can be undone.  \<open>PERM_OP\<close> swaps bits between the halves and is its own inverse,
  so \<open>FP\<close> takes \<open>IP\<close> back; a round changes one half by a function of the other, so the same
  round takes it back; the two loops run the same rounds in opposite orders.  A block is two
  words whose top 32 bits are clear, \<open>half\<close>.
\<close>

section \<open>Halves\<close>

definition half :: "64 word \<Rightarrow> bool" where
  "half w \<longleftrightarrow> w AND 0xffffffff = w"

lemma low32: "(w :: 64 word) AND 0xffffffff = take_bit 32 w"
  by (simp add: take_bit_eq_mask mask_eq_exp_minus_1)

lemma low8: "(w :: 64 word) AND 0xff = take_bit 8 w"
  by (simp add: take_bit_eq_mask mask_eq_exp_minus_1)

lemma half_iff: "half w \<longleftrightarrow> (\<forall>n. bit w n \<longrightarrow> n < 32)"
proof
  assume "half w"
  then have "take_bit 32 w = w" by (simp add: half_def low32)
  then show "\<forall>n. bit w n \<longrightarrow> n < 32" by (metis bit_take_bit_iff)
next
  assume "\<forall>n. bit w n \<longrightarrow> n < 32"
  then have "take_bit 32 w = w" by (intro bit_word_eqI) (auto simp: bit_take_bit_iff)
  then show "half w" by (simp add: half_def low32)
qed

lemma half_simps [simp, intro]:
  "half (w AND 0xffffffff)"
  "half u \<Longrightarrow> half v \<Longrightarrow> half (u XOR v)"
  "half u \<Longrightarrow> half v \<Longrightarrow> half (u OR v)"
  "half u \<Longrightarrow> half (u AND v)"
  "half v \<Longrightarrow> half (u AND v)"
  by (auto simp: half_iff low32 bit_simps)

lemma half_ucast [simp]: "half (ucast (x :: 32 word))"
  by (auto simp: half_iff bit_simps dest: bit_imp_le_length)

lemma half_D_ENCRYPT [simp]: "half L \<Longrightarrow> half (D_ENCRYPT s L R S)"
  by (simp add: D_ENCRYPT_def Let_def)

section \<open>The permutations\<close>

text \<open>A mask whose bits do not leave the word when they are shifted.\<close>

lemma PERM_OP_twice:
  assumes "drop_bit n (push_bit n m) = m"
  shows "PERM_OP n m (PERM_OP n m p) = p"
proof -
  obtain a b where p: "p = (a, b)" by fastforce
  define t where "t = (drop_bit n a XOR b) AND m"
  have room: "n + j < LENGTH(64)" if "bit m j" for j
    using that assms by (metis bit_drop_bit_eq bit_imp_le_length comp_apply)
  have shifted: "drop_bit n (push_bit n t) = t"
  proof (rule bit_word_eqI)
    fix j :: nat
    assume "j < LENGTH(64)"
    have "bit m j" if "bit t j" using that by (simp add: t_def bit_and_iff)
    then show "bit (drop_bit n (push_bit n t)) j = bit t j"
      using room [of j] by (auto simp: bit_drop_bit_eq bit_push_bit_iff)
  qed
  have "(drop_bit n (a XOR push_bit n t)) XOR (b XOR t) = drop_bit n a XOR b"
    by (simp add: drop_bit_xor shifted xor.assoc xor.left_commute [of t])
  then have again: "(drop_bit n (a XOR push_bit n t) XOR (b XOR t)) AND m = t"
    by (simp add: t_def)
  have "PERM_OP n m p = (a XOR push_bit n t, b XOR t)"
    by (simp only: PERM_OP_def Let_def prod.case p t_def)
  moreover have "PERM_OP n m (a XOR push_bit n t, b XOR t)
      = ((a XOR push_bit n t) XOR push_bit n t, (b XOR t) XOR t)"
    by (simp only: PERM_OP_def Let_def prod.case again)
  ultimately show ?thesis by (simp add: p xor.assoc)
qed

lemma PERM_OP_half:
  assumes "half (push_bit n m)" and "half m" and "half a" "half b"
  shows "half (fst (PERM_OP n m (a, b)))" "half (snd (PERM_OP n m (a, b)))"
  using assms by (auto simp: PERM_OP_def Let_def push_bit_and)

lemma masks [simp]:
  "drop_bit 4 (push_bit 4 (0x0f0f0f0f :: 64 word)) = 0x0f0f0f0f"
  "drop_bit 16 (push_bit 16 (0x0000ffff :: 64 word)) = 0x0000ffff"
  "drop_bit 2 (push_bit 2 (0x33333333 :: 64 word)) = 0x33333333"
  "drop_bit 8 (push_bit 8 (0x00ff00ff :: 64 word)) = 0x00ff00ff"
  "drop_bit 1 (push_bit 1 (0x55555555 :: 64 word)) = 0x55555555"
  by simp_all

lemma half_masks [simp]:
  "half (push_bit 4 0x0f0f0f0f)" "half 0x0f0f0f0f"
  "half (push_bit 16 0x0000ffff)" "half 0x0000ffff"
  "half (push_bit 2 0x33333333)" "half 0x33333333"
  "half (push_bit 8 0x00ff00ff)" "half 0x00ff00ff"
  "half (push_bit 1 0x55555555)" "half 0x55555555"
  by (simp_all add: half_def)

text \<open>The operation with the roles of the halves as the code has them in turn.\<close>

definition swap_op :: "nat \<Rightarrow> 64 word \<Rightarrow> 64 word \<times> 64 word \<Rightarrow> 64 word \<times> 64 word" where
  "swap_op n m p = prod.swap (PERM_OP n m (prod.swap p))"

lemma swap_op_twice:
  "drop_bit n (push_bit n m) = m \<Longrightarrow> swap_op n m (swap_op n m p) = p"
  by (simp add: swap_op_def PERM_OP_twice)

lemma IP_steps:
  "IP p = swap_op 1 0x55555555 (PERM_OP 8 0x00ff00ff (swap_op 2 0x33333333
     (PERM_OP 16 0x0000ffff (swap_op 4 0x0f0f0f0f p))))"
  by (simp add: IP_def swap_op_def Let_def split: prod.split)

lemma FP_steps:
  "FP p = swap_op 4 0x0f0f0f0f (PERM_OP 16 0x0000ffff (swap_op 2 0x33333333
     (PERM_OP 8 0x00ff00ff (swap_op 1 0x55555555 p))))"
  by (simp add: FP_def swap_op_def Let_def split: prod.split)

lemma FP_IP [simp]: "FP (IP p) = p"
  by (simp only: IP_steps FP_steps PERM_OP_twice swap_op_twice masks)

lemma IP_FP [simp]: "IP (FP p) = p"
  by (simp only: IP_steps FP_steps PERM_OP_twice swap_op_twice masks)

abbreviation halves :: "64 word \<times> 64 word \<Rightarrow> bool" where
  "halves p \<equiv> half (fst p) \<and> half (snd p)"

lemma halves_PERM_OP:
  "half (push_bit n m) \<Longrightarrow> half m \<Longrightarrow> halves p \<Longrightarrow> halves (PERM_OP n m p)"
  by (cases p) (simp add: PERM_OP_half)

lemma halves_swap_op:
  "half (push_bit n m) \<Longrightarrow> half m \<Longrightarrow> halves p \<Longrightarrow> halves (swap_op n m p)"
  using halves_PERM_OP [of n m "prod.swap p"] by (simp add: swap_op_def)

lemma halves_IP [simp]: "halves p \<Longrightarrow> halves (IP p)"
  unfolding IP_steps by (intro halves_swap_op halves_PERM_OP half_masks)

lemma halves_FP [simp]: "halves p \<Longrightarrow> halves (FP p)"
  unfolding FP_steps by (intro halves_swap_op halves_PERM_OP half_masks)

section \<open>The rotations\<close>

definition rotl32 :: "nat \<Rightarrow> 64 word \<Rightarrow> 64 word" where
  "rotl32 k w = (push_bit k w OR drop_bit (32 - k) w) AND 0xffffffff"

lemma half_rotl32 [simp]: "half (rotl32 k w)"
  by (simp add: rotl32_def)

lemma bit_rotl32:
  assumes "half w" and "k < 32"
  shows "bit (rotl32 k w) n \<longleftrightarrow> n < 32 \<and> bit w (if k \<le> n then n - k else n + (32 - k))"
  using assms by (auto simp: rotl32_def low32 bit_take_bit_iff bit_or_iff bit_push_bit_iff
    bit_drop_bit_eq half_iff add.commute)

lemma rotl32_back:
  assumes "half w" and "0 < k" and "k < 32"
  shows "rotl32 (32 - k) (rotl32 k w) = w"
proof (rule bit_word_eqI)
  fix n :: nat
  have "\<not> bit w n" if "32 \<le> n"
    using assms that by (auto simp: half_iff)
  then show "bit (rotl32 (32 - k) (rotl32 k w)) n = bit w n"
    using assms by (auto simp: bit_rotl32 not_less)
qed

abbreviation rotl1 :: "64 word \<Rightarrow> 64 word" where
  "rotl1 \<equiv> rotl32 1"

abbreviation rotr1 :: "64 word \<Rightarrow> 64 word" where
  "rotr1 \<equiv> rotl32 31"

lemma rotations:
  "(push_bit 1 w OR drop_bit 31 w) AND 0xffffffff = rotl1 w"
  "(drop_bit 1 w OR push_bit 31 w) AND 0xffffffff = rotr1 w"
  by (simp_all add: rotl32_def or.commute)

lemma rot1_inverse:
  "half w \<Longrightarrow> rotr1 (rotl1 w) = w"
  "half w \<Longrightarrow> rotl1 (rotr1 w) = w"
  using rotl32_back [of w 1] rotl32_back [of w 31] by simp_all

section \<open>The rounds\<close>

lemma D_ENCRYPT_twice [simp]: "D_ENCRYPT s (D_ENCRYPT s L R S) R S = L"
  by (simp add: D_ENCRYPT_def Let_def xor.assoc)

lemma encrypt_rounds_append:
  "encrypt_rounds s (js @ ks) p = encrypt_rounds s ks (encrypt_rounds s js p)"
  by (induction s js p rule: encrypt_rounds.induct) (simp_all add: Let_def)

lemma decrypt_rounds_append:
  "decrypt_rounds s (js @ ks) p = decrypt_rounds s ks (decrypt_rounds s js p)"
  by (induction s js p rule: decrypt_rounds.induct) (simp_all add: Let_def)

lemma halves_rounds [simp]:
  "halves p \<Longrightarrow> halves (encrypt_rounds s js p)"
  "halves p \<Longrightarrow> halves (decrypt_rounds s js p)"
  by (induction s js p rule: encrypt_rounds.induct; simp add: Let_def)
    (induction s js p rule: decrypt_rounds.induct; simp add: Let_def)

lemma decrypt_encrypt_rounds:
  "decrypt_rounds s (map (\<lambda>i. i + 2) (rev js)) (prod.swap (encrypt_rounds s js p)) = prod.swap p"
  by (induction s js p rule: encrypt_rounds.induct)
     (simp_all add: Let_def decrypt_rounds_append)

lemma encrypt_decrypt_rounds:
  "encrypt_rounds s js (prod.swap (decrypt_rounds s (map (\<lambda>i. i + 2) (rev js)) p)) = prod.swap p"
proof (induction js arbitrary: p rule: rev_induct)
  case Nil
  then show ?case by (cases p) simp
next
  case (snoc i js)
  show ?case
    using snoc.IH [of "(D_ENCRYPT s (fst p) (snd p) (i + 2), D_ENCRYPT s (snd p) (D_ENCRYPT s (fst p) (snd p) (i + 2)) i)"]
    by (cases p) (simp add: Let_def encrypt_rounds_append)
qed

lemma round_orders:
  "[30, 26, 22, 18, 14, 10, 6, 2] = map (\<lambda>i. i + 2) (rev [0, 4, 8, 12, 16, 20, 24, 28 :: nat])"
  by simp

section \<open>A block\<close>

text \<open>What \<open>des_encrypt\<close> is in the terms above: the rounds start from the swapped halves.\<close>

abbreviation (input) rots :: "(64 word \<Rightarrow> 64 word) \<Rightarrow> 64 word \<times> 64 word \<Rightarrow> 64 word \<times> 64 word" where
  "rots f \<equiv> map_prod f f"

lemma des_encrypt_eq:
  "des_encrypt s True p =
     FP (rots rotr1 (encrypt_rounds s [0, 4, 8, 12, 16, 20, 24, 28] (prod.swap (rots rotl1 (IP p)))))"
  "des_encrypt s False p =
     FP (rots rotr1 (decrypt_rounds s (map (\<lambda>i. i + 2) (rev [0, 4, 8, 12, 16, 20, 24, 28]))
       (prod.swap (rots rotl1 (IP p)))))"
  by (simp_all only: des_encrypt_def rotations map_prod_def split_def Let_def if_True if_False
        prod.swap_def fst_conv snd_conv prod.collapse flip: round_orders)

lemma rots_inverse [simp]:
  "halves p \<Longrightarrow> rots rotl1 (rots rotr1 p) = p"
  "halves p \<Longrightarrow> rots rotr1 (rots rotl1 p) = p"
  by (cases p; simp only: map_prod_simp fst_conv snd_conv rot1_inverse)+

lemma halves_swap [simp]: "halves (prod.swap p) = halves p"
  by (cases p) auto

lemma halves_rots [simp]: "halves (rots rotl1 p)" "halves (rots rotr1 p)"
  by simp_all

lemma swap_rots: "prod.swap (rots f p) = rots f (prod.swap p)"
  by (cases p) simp

lemma halves_des_encrypt: "halves p \<Longrightarrow> halves (des_encrypt s e p)"
  by (cases e) (simp_all only: des_encrypt_eq halves_FP halves_rots)

lemma decrypt_encrypt:
  assumes "halves p"
  shows "des_encrypt s False (des_encrypt s True p) = p"
proof -
  define js where "js = [0, 4, 8, 12, 16, 20, 24, 28 :: nat]"
  define q where "q = prod.swap (rots rotl1 (IP p))"
  have q: "halves q" by (simp only: q_def halves_swap halves_rots)
  have "des_encrypt s True p = FP (rots rotr1 (encrypt_rounds s js q))"
    by (simp only: des_encrypt_eq js_def q_def)
  moreover have "rots rotl1 (rots rotr1 (encrypt_rounds s js q)) = encrypt_rounds s js q"
    using q by (intro rots_inverse halves_rounds)
  ultimately have "des_encrypt s False (des_encrypt s True p)
      = FP (rots rotr1 (decrypt_rounds s (map (\<lambda>i. i + 2) (rev js)) (prod.swap (encrypt_rounds s js q))))"
    by (simp only: des_encrypt_eq(2) IP_FP flip: js_def)
  also have "\<dots> = FP (rots rotr1 (prod.swap q))"
    by (simp only: decrypt_encrypt_rounds)
  also have "\<dots> = FP (rots rotr1 (rots rotl1 (IP p)))"
    by (simp add: q_def)
  finally show ?thesis using assms by (simp only: rots_inverse halves_IP FP_IP)
qed

lemma encrypt_decrypt:
  assumes "halves p"
  shows "des_encrypt s True (des_encrypt s False p) = p"
proof -
  define js where "js = [0, 4, 8, 12, 16, 20, 24, 28 :: nat]"
  define q where "q = prod.swap (rots rotl1 (IP p))"
  define d where "d = decrypt_rounds s (map (\<lambda>i. i + 2) (rev js)) q"
  have "halves q" by (simp only: q_def halves_swap halves_rots)
  then have "halves d" unfolding d_def by (intro halves_rounds)
  moreover have "des_encrypt s False p = FP (rots rotr1 d)"
    by (simp only: des_encrypt_eq js_def q_def d_def)
  ultimately have "des_encrypt s True (des_encrypt s False p)
      = FP (rots rotr1 (encrypt_rounds s js (prod.swap d)))"
    by (simp only: des_encrypt_eq(1) IP_FP rots_inverse flip: js_def)
  also have "\<dots> = FP (rots rotr1 (prod.swap q))"
    by (simp only: d_def encrypt_decrypt_rounds)
  also have "\<dots> = FP (rots rotr1 (rots rotl1 (IP p)))"
    by (simp add: q_def)
  finally show ?thesis using assms by (simp only: rots_inverse halves_IP FP_IP)
qed

end
