(* ===== verification/Des_Crypt.thy ===== *)
theory Des_Crypt
  imports Des_Cipher
begin

text \<open>
  Buffers: what the loops of \<open>_des_crypt\<close> do to one of any length, in both modes, and the
  routines of \<open>des_crypt.c\<close> and \<open>des_soft.c\<close> over them.
\<close>

section \<open>Bytes\<close>

lemma l2c_length [simp]: "length (l2c w) = 4"
  by (simp add: l2c_def)

lemma c2l_SomeD:
  assumes "c2l bs = Some (w, cs)"
  shows "half w" and "bs = l2c w @ cs"
proof -
  obtain a b c d where bs: "bs = a # b # c # d # cs"
    and w: "w = ucast a OR push_bit 8 (ucast b) OR push_bit 16 (ucast c) OR push_bit 24 (ucast d)"
    using assms by (cases bs rule: c2l.cases) auto
  show "half w"
    by (auto simp: half_iff w bit_or_iff bit_push_bit_iff bit_ucast_iff dest: bit_imp_le_length)
  have "ucast (w AND 0xff) = a" "ucast (drop_bit 8 w AND 0xff) = b"
    "ucast (drop_bit 16 w AND 0xff) = c" "ucast (drop_bit 24 w AND 0xff) = d"
    by (rule bit_word_eqI, auto simp: w low8 bit_simps dest: bit_imp_le_length)+
  then show "bs = l2c w @ cs" by (simp add: l2c_def bs)
qed

lemma c2l_l2c [simp]:
  assumes "half w"
  shows "c2l (l2c w @ cs) = Some (w, cs)"
proof -
  have hi: "\<not> bit w k" if "32 \<le> k" for k
    using assms that by (auto simp: half_iff)
  let ?v = "ucast (ucast (w AND 0xff) :: byte) OR push_bit 8 (ucast (ucast (drop_bit 8 w AND 0xff) :: byte))
      OR push_bit 16 (ucast (ucast (drop_bit 16 w AND 0xff) :: byte))
      OR push_bit 24 (ucast (ucast (drop_bit 24 w AND 0xff) :: byte)) :: 64 word"
  have "?v = w"
  proof (rule bit_word_eqI)
    fix n :: nat
    consider "n < 8" | "8 \<le> n" "n < 16" | "16 \<le> n" "n < 24" | "24 \<le> n" "n < 32" | "32 \<le> n"
      by linarith
    then show "bit ?v n = bit w n"
      by cases (auto simp: low8 bit_simps hi)
  qed
  then show ?thesis by (simp add: l2c_def)
qed

text \<open>A block of a buffer: two words and the rest.\<close>

definition block :: "64 word \<times> 64 word \<Rightarrow> byte list" where
  "block p = l2c (fst p) @ l2c (snd p)"

lemma block_length [simp]: "length (block p) = 8"
  by (simp add: block_def)

definition c2l2 :: "byte list \<Rightarrow> ((64 word \<times> 64 word) \<times> byte list) option" where
  "c2l2 bs = do { (w0, cs) \<leftarrow> c2l bs; (w1, ds) \<leftarrow> c2l cs; Some ((w0, w1), ds) }"

lemma c2l2_SomeD:
  assumes "c2l2 bs = Some (p, cs)"
  shows "halves p" and "bs = block p @ cs"
proof -
  obtain w0 w1 bs1 where w: "c2l bs = Some (w0, bs1)" "c2l bs1 = Some (w1, cs)" "p = (w0, w1)"
    using assms by (auto simp: c2l2_def split: Option.bind_splits)
  show "halves p" using w c2l_SomeD(1) [OF w(1)] c2l_SomeD(1) [OF w(2)] by simp
  show "bs = block p @ cs" using w c2l_SomeD(2) [OF w(1)] c2l_SomeD(2) [OF w(2)] by (simp add: block_def)
qed

lemma c2l2_block [simp]: "halves p \<Longrightarrow> c2l2 (block p @ cs) = Some (p, cs)"
  by (simp add: c2l2_def block_def)

lemma c2l_short: "c2l bs = None \<longleftrightarrow> length bs < 4"
  by (cases bs rule: c2l.cases) auto

lemma c2l2_long:
  assumes "8 \<le> length bs"
  obtains p cs where "c2l2 bs = Some (p, cs)"
proof -
  obtain w0 cs where w0: "c2l bs = Some (w0, cs)" using assms c2l_short [of bs] by (cases "c2l bs") auto
  moreover have "length bs = length cs + 4" using w0 by (rule c2l_length)
  ultimately obtain w1 ds where "c2l cs = Some (w1, ds)"
    using assms c2l_short [of cs] by (cases "c2l cs") auto
  with w0 that show thesis by (simp add: c2l2_def)
qed

section \<open>The loops\<close>

definition mix :: "bool \<Rightarrow> 64 word \<times> 64 word \<Rightarrow> 64 word \<times> 64 word \<Rightarrow> 64 word \<times> 64 word" where
  "mix cbc p v = (if cbc then (fst p XOR fst v, snd p XOR snd v) else p)"

lemma mix_simps [simp]:
  "halves p \<Longrightarrow> halves v \<Longrightarrow> halves (mix cbc p v)"
  "mix cbc (mix cbc p v) v = p"
  by (simp_all add: mix_def xor.assoc)

lemma map_option_bind: "map_option (map_prod f id) r = r \<bind> (\<lambda>(x, y). Some (f x, y))"
  by (cases r) auto

lemma encrypt_step:
  "des_loop_encrypt s cbc len buf v =
     (if len = 0 then Some (buf, v)
      else do { (p, cs) \<leftarrow> c2l2 buf;
                let c = des_encrypt s True (mix cbc p v);
                (ds, last) \<leftarrow> des_loop_encrypt s cbc (len - 8) cs c;
                Some (block c @ ds, last) })"
  by (subst des_loop_encrypt.simps)
     (auto simp: c2l2_def mix_def block_def Let_def apfst_def map_option_bind split: option.splits prod.splits)

lemma decrypt_step:
  "des_loop_decrypt s cbc len buf v tin =
     (if len = 0 then Some (buf, tin)
      else do { (c, cs) \<leftarrow> c2l2 buf;
                (ds, last) \<leftarrow> des_loop_decrypt s cbc (len - 8) cs (if cbc then c else v) c;
                Some (block (mix cbc (des_encrypt s False c) v) @ ds, last) })"
  by (subst des_loop_decrypt.simps)
     (auto simp: c2l2_def mix_def block_def Let_def apfst_def map_option_bind split: option.splits prod.splits)

lemma loops_0 [simp]:
  "des_loop_encrypt s cbc 0 buf v = Some (buf, v)"
  "des_loop_decrypt s cbc 0 buf v tin = Some (buf, tin)"
  by (simp_all add: encrypt_step decrypt_step)

lemma encrypt_stepE:
  assumes "des_loop_encrypt s cbc len buf v = Some (ds, w)" and "len \<noteq> 0"
  obtains p cs es where "halves p" and "buf = block p @ cs" and "ds = block (des_encrypt s True (mix cbc p v)) @ es"
    and "des_loop_encrypt s cbc (len - 8) cs (des_encrypt s True (mix cbc p v)) = Some (es, w)"
proof -
  obtain p cs es where p: "c2l2 buf = Some (p, cs)" and ds: "ds = block (des_encrypt s True (mix cbc p v)) @ es"
    and es: "des_loop_encrypt s cbc (len - 8) cs (des_encrypt s True (mix cbc p v)) = Some (es, w)"
    using assms encrypt_step [of s cbc len buf v] by (auto simp: Let_def split: Option.bind_splits)
  show thesis using that [OF c2l2_SomeD [OF p] ds es] .
qed

lemma decrypt_stepE:
  assumes "des_loop_decrypt s cbc len buf v tin = Some (ds, w)" and "len \<noteq> 0"
  obtains c cs es where "halves c" and "buf = block c @ cs" and "ds = block (mix cbc (des_encrypt s False c) v) @ es"
    and "des_loop_decrypt s cbc (len - 8) cs (if cbc then c else v) c = Some (es, w)"
proof -
  obtain c cs es where c: "c2l2 buf = Some (c, cs)" and ds: "ds = block (mix cbc (des_encrypt s False c) v) @ es"
    and es: "des_loop_decrypt s cbc (len - 8) cs (if cbc then c else v) c = Some (es, w)"
    using assms decrypt_step [of s cbc len buf v tin] by (auto simp: Let_def split: Option.bind_splits)
  show thesis using that [OF c2l2_SomeD [OF c] ds es] .
qed

text \<open>What one loop writes, the other takes back; the vector each leaves is the last block enciphered.\<close>

lemma decrypt_of_encrypt:
  assumes "des_loop_encrypt s cbc len buf v = Some (ds, w)" and "halves v" and "cbc \<longrightarrow> u = v"
  shows "halves w \<and> length ds = length buf
    \<and> des_loop_decrypt s cbc len ds u tin = Some (buf, if len = 0 then tin else w)"
  using assms
proof (induction "length buf" arbitrary: len buf v u ds tin rule: less_induct)
  case less
  show ?case
  proof (cases "len = 0")
    case True
    then show ?thesis using less.prems by simp
  next
    case False
    obtain p cs es where p: "halves p" and buf: "buf = block p @ cs"
      and ds: "ds = block (des_encrypt s True (mix cbc p v)) @ es"
      and rest: "des_loop_encrypt s cbc (len - 8) cs (des_encrypt s True (mix cbc p v)) = Some (es, w)"
      by (rule encrypt_stepE [OF less.prems(1) False])
    define c where "c = des_encrypt s True (mix cbc p v)"
    have c: "halves c" using p less.prems(2) by (simp only: c_def halves_des_encrypt mix_simps)
    have undone: "mix cbc (des_encrypt s False c) u = p"
    proof -
      have "mix cbc q u = mix cbc q v" for q using less.prems(3) by (cases cbc) (simp_all add: mix_def)
      then show ?thesis
        using decrypt_encrypt [OF mix_simps(1) [OF p less.prems(2)]] by (simp only: c_def mix_simps)
    qed
    have ih: "halves w \<and> length es = length cs
        \<and> des_loop_decrypt s cbc (len - 8) es (if cbc then c else u) c = Some (cs, if len - 8 = 0 then c else w)"
      using less.hyps [OF _ rest, of "if cbc then c else u" c] c buf by (simp add: c_def)
    have "w = c" if "len - 8 = 0"
      using rest unfolding that c_def by simp
    with ih have "des_loop_decrypt s cbc (len - 8) es (if cbc then c else u) c = Some (cs, w)" by auto
    then have "des_loop_decrypt s cbc len ds u tin = Some (buf, w)"
      using False c undone by (subst decrypt_step) (simp add: ds buf flip: c_def)
    then show ?thesis using False ih by (simp add: ds buf)
  qed
qed

lemma encrypt_of_decrypt:
  assumes "des_loop_decrypt s cbc len buf v tin = Some (ds, w)" and "halves v" and "cbc \<longrightarrow> u = v"
  shows "length ds = length buf
    \<and> des_loop_encrypt s cbc len ds u = Some (buf, if len = 0 then u else w)"
  using assms
proof (induction "length buf" arbitrary: len buf v u ds tin rule: less_induct)
  case less
  show ?case
  proof (cases "len = 0")
    case True
    then show ?thesis using less.prems by simp
  next
    case False
    obtain c cs es where c: "halves c" and buf: "buf = block c @ cs"
      and ds: "ds = block (mix cbc (des_encrypt s False c) v) @ es"
      and rest: "des_loop_decrypt s cbc (len - 8) cs (if cbc then c else v) c = Some (es, w)"
      by (rule decrypt_stepE [OF less.prems(1) False])
    define p where "p = mix cbc (des_encrypt s False c) v"
    have p: "halves p" using c less.prems(2) by (simp only: p_def halves_des_encrypt mix_simps)
    have undone: "des_encrypt s True (mix cbc p u) = c"
    proof -
      have "mix cbc q u = mix cbc q v" for q using less.prems(3) by (cases cbc) (simp_all add: mix_def)
      then show ?thesis using encrypt_decrypt [OF c] by (simp only: p_def mix_simps)
    qed
    have "halves (if cbc then c else v)" using c less.prems(2) by simp
    then have ih: "length es = length cs
        \<and> des_loop_encrypt s cbc (len - 8) es c = Some (cs, if len - 8 = 0 then c else w)"
      using less.hyps [OF _ rest, of c] buf by simp
    have "w = c" if "len - 8 = 0"
      using rest unfolding that by simp
    with ih have "des_loop_encrypt s cbc (len - 8) es c = Some (cs, w)" by auto
    then have "des_loop_encrypt s cbc len ds u = Some (buf, w)"
      using False p undone by (subst encrypt_step) (simp add: ds buf flip: p_def)
    then show ?thesis using False ih by (simp add: ds buf)
  qed
qed

text \<open>A loop whose length is a multiple of 8 and within the buffer ends, and leaves the bytes after it.\<close>

lemma unat_minus_8:
  assumes "8 dvd unat (len :: 32 word)" and "len \<noteq> 0"
  shows "unat (len - 8) = unat len - 8" and "8 \<le> unat len" and "8 dvd unat (len - 8)"
proof -
  show 8: "8 \<le> unat len"
    using assms by (intro dvd_imp_le) (auto simp: unat_eq_0 intro: gr0I)
  then show "unat (len - 8) = unat len - 8"
    by (simp add: unat_sub word_le_nat_alt)
  then show "8 dvd unat (len - 8)" using assms(1) 8 by (simp add: dvd_diff_nat)
qed

lemma encrypt_ends:
  assumes "8 dvd unat len" and "unat len \<le> length buf"
  obtains ds w where "des_loop_encrypt s cbc len buf v = Some (ds, w)"
    and "drop (unat len) ds = drop (unat len) buf"
proof -
  have "\<exists>ds w. des_loop_encrypt s cbc len buf v = Some (ds, w) \<and> drop (unat len) ds = drop (unat len) buf"
    using assms
  proof (induction "length buf" arbitrary: len buf v rule: less_induct)
    case less
    show ?case
    proof (cases "len = 0")
      case False
      note len = unat_minus_8 [OF less.prems(1) False]
      obtain p cs where p: "c2l2 buf = Some (p, cs)"
        by (rule c2l2_long [OF order_trans [OF len(2) less.prems(2)]])
      have buf: "buf = block p @ cs" using p by (rule c2l2_SomeD)
      have "length cs < length buf" and "unat (len - 8) \<le> length cs"
        using less.prems(2) by (simp_all add: buf len(1))
      note ih = less.hyps [OF this(1) len(3) this(2)]
      obtain es w where es: "des_loop_encrypt s cbc (len - 8) cs (des_encrypt s True (mix cbc p v)) = Some (es, w)"
        and d: "drop (unat (len - 8)) es = drop (unat (len - 8)) cs"
        using ih by blast
      have "des_loop_encrypt s cbc len buf v = Some (block (des_encrypt s True (mix cbc p v)) @ es, w)"
        using False p es by (subst encrypt_step) (simp add: Let_def)
      then show ?thesis using d len(2) by (simp add: buf len(1))
    qed simp
  qed
  then show thesis using that by blast
qed

lemma decrypt_ends:
  assumes "8 dvd unat len" and "unat len \<le> length buf"
  obtains ds w where "des_loop_decrypt s cbc len buf v tin = Some (ds, w)"
    and "drop (unat len) ds = drop (unat len) buf"
proof -
  have "\<exists>ds w. des_loop_decrypt s cbc len buf v tin = Some (ds, w) \<and> drop (unat len) ds = drop (unat len) buf"
    using assms
  proof (induction "length buf" arbitrary: len buf v tin rule: less_induct)
    case less
    show ?case
    proof (cases "len = 0")
      case False
      note len = unat_minus_8 [OF less.prems(1) False]
      obtain c cs where c: "c2l2 buf = Some (c, cs)"
        by (rule c2l2_long [OF order_trans [OF len(2) less.prems(2)]])
      have buf: "buf = block c @ cs" using c by (rule c2l2_SomeD)
      have "length cs < length buf" and "unat (len - 8) \<le> length cs"
        using less.prems(2) by (simp_all add: buf len(1))
      note ih = less.hyps [OF this(1) len(3) this(2)]
      obtain es w where es: "des_loop_decrypt s cbc (len - 8) cs (if cbc then c else v) c = Some (es, w)"
        and d: "drop (unat (len - 8)) es = drop (unat (len - 8)) cs"
        using ih by blast
      have "des_loop_decrypt s cbc len buf v tin = Some (block (mix cbc (des_encrypt s False c) v) @ es, w)"
        using False c es by (subst decrypt_step) (simp add: Let_def)
      then show ?thesis using d len(2) by (simp add: buf len(1))
    qed simp
  qed
  then show thesis using that by blast
qed

section \<open>The library routines\<close>

lemma exact_block:
  assumes "length bs = 8"
  obtains v where "c2l2 bs = Some (v, [])" and "halves v" and "bs = block v"
proof -
  obtain v cs where v: "c2l2 bs = Some (v, cs)" using c2l2_long [of bs] assms by auto
  moreover have "cs = []" using assms c2l2_SomeD(2) [OF v] by simp
  ultimately show thesis using that c2l2_SomeD [OF v] by simp
qed

lemma set_key_some:
  assumes "8 \<le> length key"
  obtains s where "des_set_key key = Some s"
proof -
  obtain p cs where "c2l2 key = Some (p, cs)" using c2l2_long assms by blast
  then show thesis using that by (auto simp: des_set_key_def c2l2_def split: Option.bind_splits)
qed

definition crypt_status :: "32 word \<Rightarrow> 32 word" where
  "crypt_status mode = (if mode AND DES_DEVMASK = DES_SW then DESERR_NONE else DESERR_NOHWDEVICE)"

lemma crypt_status_ok: "\<not> DES_FAILED (crypt_status mode)"
  by (simp add: crypt_status_def DES_FAILED_def DESERR_NONE_def DESERR_NOHWDEVICE_def)

definition run_loop ::
    "64 word list \<Rightarrow> bool \<Rightarrow> 32 word \<Rightarrow> 32 word \<Rightarrow> byte list \<Rightarrow> 64 word \<times> 64 word \<Rightarrow>
     (byte list \<times> (64 word \<times> 64 word)) option" where
  "run_loop s cbc mode len buf v =
     (if mode AND DES_DIRMASK = DES_ENCRYPT then des_loop_encrypt s cbc len buf v
      else des_loop_decrypt s cbc len buf v (0, 0))"

lemma common_crypt_eq:
  assumes "len mod 8 = 0" and "len \<le> DES_MAXDATA" and "des_set_key (take 8 key) = Some s"
    and "c2l2 (des_ivec desp) = Some (v, rest)"
  shows "map_option (\<lambda>(err, buf, dp). (err, buf, des_ivec dp)) (common_crypt key buf len mode desp)
    = map_option (\<lambda>(ds, w). (crypt_status mode, ds, block w @ rest))
        (run_loop s (des_mode desp = CBC) mode len buf v)"
proof -
  obtain v0 iv v1 where "c2l (des_ivec desp) = Some (v0, iv)" and "c2l iv = Some (v1, rest)" and "v = (v0, v1)"
    using assms(4) by (auto simp: c2l2_def split: Option.bind_splits)
  then show ?thesis
    using assms
    by (auto simp: common_crypt_def des_crypt_def run_loop_def block_def crypt_status_def Let_def
        split: Option.bind_splits split: option.split)
qed

lemma cbc_crypt_eq:
  assumes "len mod 8 = 0" and "len \<le> DES_MAXDATA" and "des_set_key (take 8 key) = Some s"
    and "c2l2 ivec = Some (v, [])"
  shows "cbc_crypt dp key buf len mode ivec
    = map_option (\<lambda>(ds, w). (crypt_status mode, ds, block w)) (run_loop s True mode len buf v)"
proof -
  have ivec: "length ivec = 8" using c2l2_SomeD(2) [OF assms(4)] by simp
  let ?dp = "dp\<lparr>des_mode := CBC, des_ivec := take 8 ivec\<rparr>"
  have "cbc_crypt dp key buf len mode ivec
      = map_option (\<lambda>(err, buf, iv). (err, buf, take 8 iv @ drop 8 ivec))
          (map_option (\<lambda>(err, buf, dp). (err, buf, des_ivec dp)) (common_crypt key buf len mode ?dp))"
    by (simp add: cbc_crypt_def option.map_comp comp_def split_def)
  also have "map_option (\<lambda>(err, buf, dp). (err, buf, des_ivec dp)) (common_crypt key buf len mode ?dp)
      = map_option (\<lambda>(ds, w). (crypt_status mode, ds, block w @ [])) (run_loop s True mode len buf v)"
    using common_crypt_eq [OF assms(1-3), of ?dp v "[]" buf mode] assms(4) ivec by simp
  finally show ?thesis by (simp add: option.map_comp comp_def split_def ivec)
qed

lemma ecb_crypt_eq:
  assumes "len mod 8 = 0" and "len \<le> DES_MAXDATA" and "des_set_key (take 8 key) = Some s"
    and "c2l2 (des_ivec dp) = Some (v, rest)"
  shows "ecb_crypt dp key buf len mode
    = map_option (\<lambda>(ds, w). (crypt_status mode, ds)) (run_loop s False mode len buf v)"
proof -
  have "ecb_crypt dp key buf len mode
      = map_option (\<lambda>(err, buf, iv). (err, buf))
          (map_option (\<lambda>(err, buf, dp). (err, buf, des_ivec dp)) (common_crypt key buf len mode (dp\<lparr>des_mode := ECB\<rparr>)))"
    by (simp add: ecb_crypt_def option.map_comp comp_def split_def)
  also have "\<dots> = map_option (\<lambda>(ds, w). (crypt_status mode, ds)) (run_loop s False mode len buf v)"
    using common_crypt_eq [OF assms(1-3), of "dp\<lparr>des_mode := ECB\<rparr>" v rest buf mode] assms(4)
    by (simp add: option.map_comp comp_def split_def)
  finally show ?thesis .
qed

lemma directions:
  "e AND DES_DIRMASK = DES_ENCRYPT \<Longrightarrow> run_loop s cbc e len buf v = des_loop_encrypt s cbc len buf v"
  "d AND DES_DIRMASK = DES_DECRYPT \<Longrightarrow> run_loop s cbc d len buf v = des_loop_decrypt s cbc len buf v (0, 0)"
  by (simp_all add: run_loop_def DES_DIRMASK_def DES_ENCRYPT_def DES_DECRYPT_def)

lemma block_0: "block (0, 0) = replicate 8 0"
  by (simp add: block_def l2c_def numeral_eq_Suc)

lemma dvd_of_mod:
  assumes "len mod 8 = (0 :: 32 word)"
  shows "8 dvd unat len"
proof -
  have "unat (len mod 8) = unat len mod 8" by (simp add: unat_mod_distrib)
  then show ?thesis using assms by (simp add: mod_0_imp_dvd)
qed

lemma round_trip:
  assumes "len mod 8 = 0" and "unat len \<le> length buf" and "halves v"
    and "e AND DES_DIRMASK = DES_ENCRYPT" and "d AND DES_DIRMASK = DES_DECRYPT"
  obtains cipher iv where "run_loop s cbc e len buf v = Some (cipher, iv)" and "length cipher = length buf"
    and "drop (unat len) cipher = drop (unat len) buf"
    and "run_loop s cbc d len cipher v = Some (buf, if len = 0 then (0, 0) else iv)"
proof -
  obtain cipher iv where c: "des_loop_encrypt s cbc len buf v = Some (cipher, iv)"
    and rest: "drop (unat len) cipher = drop (unat len) buf"
    using encrypt_ends [OF dvd_of_mod [OF assms(1)] assms(2)] by blast
  from decrypt_of_encrypt [OF c assms(3), of v "(0, 0)"] that c rest assms(4,5)
  show thesis by (simp add: directions)
qed

lemma inverse_trip:
  assumes "len mod 8 = 0" and "unat len \<le> length buf" and "halves v"
    and "e AND DES_DIRMASK = DES_ENCRYPT" and "d AND DES_DIRMASK = DES_DECRYPT"
  obtains plain iv where "run_loop s cbc d len buf v = Some (plain, iv)" and "length plain = length buf"
    and "drop (unat len) plain = drop (unat len) buf"
    and "run_loop s cbc e len plain v = Some (buf, if len = 0 then v else iv)"
proof -
  obtain plain iv where c: "des_loop_decrypt s cbc len buf v (0, 0) = Some (plain, iv)"
    and rest: "drop (unat len) plain = drop (unat len) buf"
    using decrypt_ends [OF dvd_of_mod [OF assms(1)] assms(2)] by blast
  from encrypt_of_decrypt [OF c assms(3), of v] that c rest assms(4,5)
  show thesis by (simp add: directions)
qed

section \<open>Properties\<close>

text \<open>
  C22: \<open>cbc_crypt\<close> of a whole number of blocks within the buffer, at most \<open>DES_MAXDATA\<close>, which is 8192
  bytes, with a key and a vector of eight bytes, does not fail, whichever device was asked for; it keeps the length of the buffer and the bytes after \<open>len\<close>.  Decryption with the same
  key and vector gives the buffer back, and encryption gives back one that was decrypted.  The vector
  that either leaves is the same, so both sides can go on, but for a length of 0: there encryption
  keeps the vector and decryption leaves it zero.
\<close>

theorem cbc_round_trip:
  assumes "8 \<le> length key" and "length ivec = 8" and "unat len \<le> length buf" and "len mod 8 = 0"
    and "len \<le> DES_MAXDATA"
    and "e AND DES_DIRMASK = DES_ENCRYPT" and "d AND DES_DIRMASK = DES_DECRYPT"
  shows "\<exists>err err' cipher plain iv iv'.
    cbc_crypt dp key buf len e ivec = Some (err, cipher, iv)
    \<and> cbc_crypt dp' key cipher len d ivec = Some (err', buf, if len = 0 then replicate 8 0 else iv)
    \<and> cbc_crypt dp' key buf len d ivec = Some (err', plain, iv')
    \<and> cbc_crypt dp key plain len e ivec = Some (err, buf, if len = 0 then ivec else iv')
    \<and> length cipher = length buf \<and> length plain = length buf
    \<and> drop (unat len) cipher = drop (unat len) buf \<and> drop (unat len) plain = drop (unat len) buf
    \<and> \<not> DES_FAILED err \<and> \<not> DES_FAILED err'"
proof -
  obtain s where s: "des_set_key (take 8 key) = Some s" using set_key_some [of "take 8 key"] assms(1) by auto
  obtain v where v: "c2l2 ivec = Some (v, [])" and hv: "halves v" and iv: "ivec = block v"
    using exact_block assms(2) by blast
  note eq = cbc_crypt_eq [OF assms(4,5) s v]
  obtain cipher w where c: "run_loop s True e len buf v = Some (cipher, w)" "length cipher = length buf"
      "drop (unat len) cipher = drop (unat len) buf"
      "run_loop s True d len cipher v = Some (buf, if len = 0 then (0, 0) else w)"
    by (rule round_trip [OF assms(4,3) hv assms(6,7)])
  obtain plain u where p: "run_loop s True d len buf v = Some (plain, u)" "length plain = length buf"
      "drop (unat len) plain = drop (unat len) buf"
      "run_loop s True e len plain v = Some (buf, if len = 0 then v else u)"
    by (rule inverse_trip [OF assms(4,3) hv assms(6,7)])
  have "cbc_crypt dp key buf len e ivec = Some (crypt_status e, cipher, block w)"
    and "cbc_crypt dp' key cipher len d ivec
      = Some (crypt_status d, buf, if len = 0 then replicate 8 0 else block w)"
    and "cbc_crypt dp' key buf len d ivec = Some (crypt_status d, plain, block u)"
    and "cbc_crypt dp key plain len e ivec = Some (crypt_status e, buf, if len = 0 then ivec else block u)"
    unfolding eq by (simp_all add: c p block_0 iv)
  with c(2,3) p(2,3) crypt_status_ok show ?thesis by blast
qed

lemma ecb_round_trip:
  assumes "8 \<le> length key" and "8 \<le> length (des_ivec dp)" and "8 \<le> length (des_ivec dp')"
    and "unat len \<le> length buf" and "len mod 8 = 0" and "len \<le> DES_MAXDATA"
    and "e AND DES_DIRMASK = DES_ENCRYPT" and "d AND DES_DIRMASK = DES_DECRYPT"
  obtains cipher where "ecb_crypt dp key buf len e = Some (crypt_status e, cipher)"
    and "ecb_crypt dp' key cipher len d = Some (crypt_status d, buf)"
proof -
  obtain s where s: "des_set_key (take 8 key) = Some s" using set_key_some [of "take 8 key"] assms(1) by auto
  obtain v cs where v: "c2l2 (des_ivec dp) = Some (v, cs)" using c2l2_long assms(2) by blast
  obtain v' cs' where v': "c2l2 (des_ivec dp') = Some (v', cs')" using c2l2_long assms(3) by blast
  obtain cipher w where c: "des_loop_encrypt s False len buf v = Some (cipher, w)"
    using encrypt_ends [OF dvd_of_mod [OF assms(5)] assms(4)] by blast
  have "des_loop_decrypt s False len cipher v' (0, 0) = Some (buf, if len = 0 then (0, 0) else w)"
    using decrypt_of_encrypt [OF c c2l2_SomeD(1) [OF v], of v' "(0, 0)"] by simp
  with c show thesis
    by (intro that [of cipher])
      (simp_all add: ecb_crypt_eq [OF assms(5,6) s v] ecb_crypt_eq [OF assms(5,6) s v'] directions assms(7,8))
qed

text \<open>
  The message in pieces: enciphered in two calls, the second with the vector the first left, it is
  enciphered as in one call, and the vector is the same.
\<close>

lemma encrypt_append:
  assumes "8 dvd unat len" and "length buf = unat len" and "unat len + unat len' < 2 ^ 32"
    and "des_loop_encrypt s cbc len buf v = Some (ds, w)"
    and "des_loop_encrypt s cbc len' buf' w = Some (ds', w')"
  shows "des_loop_encrypt s cbc (len + len') (buf @ buf') v = Some (ds @ ds', w')"
  using assms
proof (induction "length buf" arbitrary: len buf v ds rule: less_induct)
  case less
  show ?case
  proof (cases "len = 0")
    case True
    then show ?thesis using less.prems by simp
  next
    case False
    note len = unat_minus_8 [OF less.prems(1) False]
    obtain p cs es where p: "halves p" "buf = block p @ cs" "ds = block (des_encrypt s True (mix cbc p v)) @ es"
      and rest: "des_loop_encrypt s cbc (len - 8) cs (des_encrypt s True (mix cbc p v)) = Some (es, w)"
      by (rule encrypt_stepE [OF less.prems(4) False])
    have "des_loop_encrypt s cbc (len - 8 + len') (cs @ buf') (des_encrypt s True (mix cbc p v))
        = Some (es @ ds', w')"
      using less.prems(2,3,5) by (intro less.hyps len(3) rest) (simp_all add: p(2) len(1))
    moreover have "len - 8 + len' = len + len' - 8" by simp
    moreover have "len + len' \<noteq> 0"
    proof
      assume "len + len' = 0"
      moreover have "unat (len + len') = unat len + unat len'"
        using less.prems(3) by (simp add: unat_word_ariths)
      ultimately show False using False by (simp add: unat_eq_0)
    qed
    ultimately show ?thesis
      using p by (subst encrypt_step) (simp add: Let_def)
  qed
qed

theorem cbc_encrypt_chained:
  assumes "8 \<le> length key" and "length ivec = 8"
    and "length buf = unat len" and "len mod 8 = 0" and "len' mod 8 = 0" and "unat len' \<le> length buf'"
    and "unat len + unat len' \<le> unat DES_MAXDATA" and "e AND DES_DIRMASK = DES_ENCRYPT"
  shows "\<exists>err c iv c' iv'. cbc_crypt dp key buf len e ivec = Some (err, c, iv)
    \<and> cbc_crypt dp' key buf' len' e iv = Some (err, c', iv')
    \<and> cbc_crypt dp'' key (buf @ buf') (len + len') e ivec = Some (err, c @ c', iv')"
proof -
  have sum: "unat (len + len') = unat len + unat len'"
    using assms(7) by (simp add: unat_word_ariths DES_MAXDATA_def)
  have max: "len \<le> DES_MAXDATA" "len' \<le> DES_MAXDATA" "len + len' \<le> DES_MAXDATA"
    using assms(7) sum by (simp_all add: word_le_nat_alt)
  have "8 dvd unat (len + len')"
    using dvd_of_mod [OF assms(4)] dvd_of_mod [OF assms(5)] by (simp add: sum)
  moreover have "unat ((len + len') mod 8) = unat (len + len') mod 8" by (simp add: unat_mod_distrib)
  ultimately have mod8: "(len + len') mod 8 = 0" by (simp add: unat_eq_0 flip: unat_eq_zero)
  obtain s where s: "des_set_key (take 8 key) = Some s" using set_key_some [of "take 8 key"] assms(1) by auto
  obtain v where v: "c2l2 ivec = Some (v, [])" and hv: "halves v" using exact_block assms(2) by blast
  obtain c w where c: "des_loop_encrypt s True len buf v = Some (c, w)"
    by (rule encrypt_ends [OF dvd_of_mod [OF assms(4)], of buf]) (use assms(3) in auto)
  have w: "c2l2 (block w) = Some (w, [])"
    using decrypt_of_encrypt [OF c hv, of v] c2l2_block [of w "[]"] by simp
  obtain c' w' where c': "des_loop_encrypt s True len' buf' w = Some (c', w')"
    by (rule encrypt_ends [OF dvd_of_mod [OF assms(5)] assms(6)])
  have "des_loop_encrypt s True (len + len') (buf @ buf') v = Some (c @ c', w')"
    using encrypt_append [OF dvd_of_mod [OF assms(4)] assms(3) _ c c'] assms(7) by (simp add: DES_MAXDATA_def)
  then show ?thesis
    unfolding cbc_crypt_eq [OF assms(4) max(1) s v] cbc_crypt_eq [OF mod8 max(3) s v]
    using c c' by (simp add: cbc_crypt_eq [OF assms(5) max(2) s w] directions assms(8))
qed

text \<open>A length that is not a whole number of blocks, or too long, is refused, and nothing is changed.\<close>

theorem crypt_bad_length:
  assumes "len mod 8 \<noteq> 0 \<or> len > DES_MAXDATA" and "length ivec = 8"
  shows "cbc_crypt dp key buf len mode ivec = Some (DESERR_BADPARAM, buf, ivec)
    \<and> ecb_crypt dp key buf len mode = Some (DESERR_BADPARAM, buf) \<and> DES_FAILED DESERR_BADPARAM"
  using assms
  by (simp add: cbc_crypt_def ecb_crypt_def common_crypt_def DES_FAILED_def DESERR_BADPARAM_def DESERR_NOHWDEVICE_def)

section \<open>Parity\<close>

definition odd_parity :: "byte \<Rightarrow> bool" where
  "odd_parity b \<longleftrightarrow> odd (length (filter (bit b) [0 ..< 8]))"

lemma partab_entries:
  "list_all (\<lambda>i. odd_parity (partab ! i) \<and> drop_bit 1 (partab ! i) = drop_bit 1 (word_of_nat i)
    \<and> partab ! unat (partab ! i AND 0x7f) = partab ! i) [0 ..< 128]"
  by code_simp

lemma partab_at:
  fixes c :: byte
  defines "b \<equiv> partab ! unat (c AND 0x7f)"
  shows "odd_parity b" and "drop_bit 1 b = drop_bit 1 (c AND 0x7f)"
    and "partab ! unat (b AND 0x7f) = b"
proof -
  have "unat (c AND 0x7f) \<le> unat (0x7f :: byte)"
    by (rule word_and_le1 [THEN word_le_nat_alt [THEN iffD1]])
  then have "odd_parity b \<and> drop_bit 1 b = drop_bit 1 (word_of_nat (unat (c AND 0x7f)))
      \<and> partab ! unat (b AND 0x7f) = b"
    using partab_entries by (simp add: list_all_iff b_def)
  then show "odd_parity b" and "drop_bit 1 b = drop_bit 1 (c AND 0x7f)" and "partab ! unat (b AND 0x7f) = b"
    by simp_all
qed

text \<open>
  C39: \<open>des_setparity\<close> gives each of the eight bytes of a key odd parity by its low bit and leaves the
  six bits above as they are, but it clears the top one; the memory after the key it leaves, and a
  key it has set it does not change.
\<close>

theorem des_setparity_odd:
  assumes "8 \<le> length p"
  shows "length (des_setparity p) = length p
    \<and> list_all odd_parity (take 8 (des_setparity p))
    \<and> map (drop_bit 1) (take 8 (des_setparity p)) = map (\<lambda>c. drop_bit 1 (c AND 0x7f)) (take 8 p)
    \<and> drop 8 (des_setparity p) = drop 8 p
    \<and> des_setparity (des_setparity p) = des_setparity p"
proof -
  have "map (drop_bit 1) (take 8 (des_setparity p)) = map (\<lambda>c. drop_bit 1 (c AND 0x7f)) (take 8 p)"
    using assms by (simp add: des_setparity_def comp_def partab_at(2) min_def del: One_nat_def drop_bit_and)
  then show ?thesis
    using assms by (simp add: des_setparity_def list_all_iff partab_at min_def)
qed

section \<open>Concrete input\<close>

definition demo_key :: "byte list" where
  "demo_key = [0x13, 0x34, 0x57, 0x79, 0x9b, 0xbc, 0xdf, 0xf1]"

definition demo_dp :: desparams where
  "demo_dp = \<lparr>des_key = [], des_dir = ENCRYPT, des_mode = ECB, des_ivec = [], des_len = 0\<rparr>"

lemma cbc_round_trip_witness:
  "\<exists>err err' cipher plain iv iv'.
    cbc_crypt demo_dp demo_key (replicate 17 7) 16 2 (replicate 8 1) = Some (err, cipher, iv)
    \<and> cbc_crypt demo_dp demo_key cipher 16 3 (replicate 8 1) = Some (err', replicate 17 7, iv)
    \<and> cbc_crypt demo_dp demo_key (replicate 17 7) 16 3 (replicate 8 1) = Some (err', plain, iv')
    \<and> cbc_crypt demo_dp demo_key plain 16 2 (replicate 8 1) = Some (err, replicate 17 7, iv')
    \<and> length cipher = 17 \<and> length plain = 17 \<and> drop 16 cipher = [7] \<and> drop 16 plain = [7]
    \<and> \<not> DES_FAILED err \<and> \<not> DES_FAILED err'"
  using cbc_round_trip [of demo_key "replicate 8 1" 16 "replicate 17 7" 2 3 demo_dp demo_dp]
  by (simp add: demo_key_def des_constants)

lemma cbc_encrypt_chained_witness:
  "\<exists>err c iv c' iv'. cbc_crypt demo_dp demo_key (replicate 8 5) 8 2 (replicate 8 1) = Some (err, c, iv)
    \<and> cbc_crypt demo_dp demo_key (replicate 16 6) 16 2 iv = Some (err, c', iv')
    \<and> cbc_crypt demo_dp demo_key (replicate 8 5 @ replicate 16 6) 24 2 (replicate 8 1) = Some (err, c @ c', iv')"
  using cbc_encrypt_chained [of demo_key "replicate 8 1" "replicate 8 5" 8 16 "replicate 16 6" 2 demo_dp demo_dp demo_dp]
  by (simp add: demo_key_def des_constants)

lemma crypt_bad_length_witness:
  "cbc_crypt demo_dp demo_key [1, 2, 3] 3 2 (replicate 8 1) = Some (DESERR_BADPARAM, [1, 2, 3], replicate 8 1)
    \<and> ecb_crypt demo_dp demo_key [1, 2, 3] 3 2 = Some (DESERR_BADPARAM, [1, 2, 3]) \<and> DES_FAILED DESERR_BADPARAM"
  by (rule crypt_bad_length) (simp_all add: unsigned_of_nat)

lemma des_setparity_odd_witness:
  "length (des_setparity demo_key) = 8 \<and> list_all odd_parity (take 8 (des_setparity demo_key))
    \<and> map (drop_bit 1) (take 8 (des_setparity demo_key)) = map (\<lambda>c. drop_bit 1 (c AND 0x7f)) (take 8 demo_key)
    \<and> drop 8 (des_setparity demo_key) = [] \<and> des_setparity (des_setparity demo_key) = des_setparity demo_key"
proof -
  have "length demo_key = 8" and "drop 8 demo_key = []" by (simp_all add: demo_key_def)
  with des_setparity_odd [of demo_key] show ?thesis by (simp only: order_refl simp_thms)
qed

end
