(* ===== verification/Svc_Dg.thy ===== *)
theory Svc_Dg
  imports Svc Xdr_Rewind
begin

text \<open>
  The server's transport over datagrams (\<open>svc_dg.c\<close>) with its cache of replies, and the sizes and
  socket look-ups of \<open>rpc_generic.c\<close> it is created with.  A \<open>SVCXPRT *\<close> is its address, as in
  \<open>Svc\<close>; what the transport keeps behind \<open>xp_p1\<close>, \<open>xp_p2\<close> and in its addresses is a record of its
  own.  A \<open>netbuf\<close> and a \<open>sockaddr\<close> are the list of their bytes.  The socket calls and the allocator
  are functions of an environment.
\<close>

section \<open>State\<close>

type_synonym cache_ptr = addr

record cache_node =
  cache_xid :: "32 word"
  cache_proc :: "32 word"
  cache_vers :: "32 word"
  cache_prog :: "32 word"
  cache_addr :: "byte list"
  cache_reply :: addr
  cache_replylen :: "64 word"

text \<open>A chain of the hash table is the list of its nodes: \<open>cache_next\<close> is the order of the list.\<close>

record cl_cache =
  uc_size :: "32 word"
  uc_entries :: "cache_ptr list list"
  uc_fifo :: "cache_ptr option list"
  uc_nextvictim :: "32 word"
  uc_prog :: "32 word"
  uc_vers :: "32 word"
  uc_proc :: "32 word"

record cmsg =
  cm_level :: int
  cm_type :: int
  cm_len :: nat
  cm_data :: "byte list"

text \<open>\<open>rpc_buffer\<close> is \<open>xp_p1\<close>, \<open>dg_p2\<close> and \<open>dg_p3\<close> are the addresses of \<open>xp_p2\<close> and \<open>xp_p3\<close>; \<open>su_control\<close> is what \<open>msg_control\<close> of \<open>su_msghdr\<close> holds.\<close>

record svc_dg_data =
  rpc_buffer :: addr
  dg_p2 :: addr
  dg_p3 :: addr
  su_iosz :: "64 word"
  su_xid :: "32 word"
  su_xdrs :: "memstrm XDR"
  su_cache :: "cl_cache option"
  su_control :: "cmsg list"
  dg_rtaddr :: "byte list"
  dg_ltaddr :: "byte list"
  dg_raddr :: "byte list"

record 'o dg_world =
  dw_mem :: mem
  dw_blocks :: "(addr \<times> nat) list"
  dw_nodes :: "cache_ptr \<rightharpoonup> cache_node"
  dw_data :: "xptr \<rightharpoonup> svc_dg_data"
  dw_other :: 'o

type_synonym ('d, 'o) dg_state = "('d, 'o dg_world) svc_state"

text \<open>What \<open>recvmsg\<close> gives: the bytes, the address of the sender, \<open>MSG_CTRUNC\<close>, the control messages.\<close>

datatype recv_result = Recv_eintr | Recv_error | Recv_data "byte list" "byte list" bool "cmsg list"

record 'o dg_env =
  dg_getsockname :: "int \<Rightarrow> 'o \<Rightarrow> byte list option"
  dg_getsotype :: "int \<Rightarrow> 'o \<Rightarrow> int option"
  dg_set_pktinfo :: "int \<Rightarrow> int \<Rightarrow> int \<Rightarrow> 'o \<Rightarrow> 'o"
  dg_recvmsg :: "int \<Rightarrow> nat \<Rightarrow> 'o \<Rightarrow> recv_result \<times> 'o"
  dg_sendmsg :: "int \<Rightarrow> byte list \<Rightarrow> byte list \<Rightarrow> cmsg list \<Rightarrow> 'o \<Rightarrow> int \<times> 'o"
  dg_close :: "int \<Rightarrow> 'o \<Rightarrow> 'o"
  dg_alloc :: "(addr \<times> nat) list \<Rightarrow> nat \<Rightarrow> addr"

definition dg_mem_alloc :: "'o dg_env \<Rightarrow> nat \<Rightarrow> 'o dg_world \<Rightarrow> addr \<times> 'o dg_world" where
  "dg_mem_alloc N n w = (let a = dg_alloc N (dw_blocks w) n
     in (a, if a = 0 then w else w\<lparr>dw_blocks := (a, n) # dw_blocks w\<rparr>))"

definition dg_mem_free :: "addr \<Rightarrow> nat \<Rightarrow> 'o dg_world \<Rightarrow> 'o dg_world" where
  "dg_mem_free a n w = w\<lparr>dw_blocks := filter (\<lambda>b. fst b \<noteq> a) (dw_blocks w)\<rparr>"

definition dw_upd :: "('o dg_world \<Rightarrow> 'o dg_world) \<Rightarrow> ('d, 'o) dg_state \<Rightarrow> ('d, 'o) dg_state" where
  "dw_upd f st = st\<lparr>svc_world := f (svc_world st)\<rparr>"

definition set_data :: "xptr \<Rightarrow> svc_dg_data \<Rightarrow> 'o dg_world \<Rightarrow> 'o dg_world" where
  "set_data xprt su w = w\<lparr>dw_data := (dw_data w)(xprt \<mapsto> su)\<rparr>"

section \<open>Socket look-ups\<close>

text \<open>\<open>AF_*\<close>, \<open>SOCK_*\<close> and \<open>IPPROTO_*\<close> as Linux has them.\<close>

definition AF_UNSPEC :: int where "AF_UNSPEC = 0"
definition AF_LOCAL :: int where "AF_LOCAL = 1"
definition AF_INET :: int where "AF_INET = 2"
definition AF_INET6 :: int where "AF_INET6 = 10"
definition SOCK_STREAM :: int where "SOCK_STREAM = 1"
definition SOCK_DGRAM :: int where "SOCK_DGRAM = 2"
definition ipproto_tcp :: int where "ipproto_tcp = 6"
definition ipproto_udp :: int where "ipproto_udp = 17"

text \<open>The first two bytes of any \<open>sockaddr\<close> are its family, in the order of the host.\<close>

definition sa_family :: "byte list \<Rightarrow> int" where
  "sa_family ss = uint (of_le32 (take 2 (ss @ [0, 0]) @ [0, 0]))"

definition UDPMSGSIZE :: "32 word" where "UDPMSGSIZE = 8800"
definition RPC_MAXDATASIZE :: "32 word" where "RPC_MAXDATASIZE = 9000"

definition rpc_get_t_size :: "int \<Rightarrow> int \<Rightarrow> 32 word \<Rightarrow> 32 word" where
  "rpc_get_t_size af proto sz =
     (let maxsize = 256 * 1024;
          defsize = (if proto = ipproto_tcp then 64 * 1024
            else if proto = ipproto_udp then UDPMSGSIZE else RPC_MAXDATASIZE)
      in if sz = 0 then defsize
         else if sint sz > sint maxsize then maxsize else sz)"

record sockinfo =
  si_af :: int
  si_proto :: int
  si_alen :: nat
  si_socktype :: int

definition rpc_fd2sockinfo :: "'o dg_env \<Rightarrow> int \<Rightarrow> 'o \<Rightarrow> sockinfo option" where
  "rpc_fd2sockinfo N fd w = do {
     ss \<leftarrow> dg_getsockname N fd w;
     type \<leftarrow> dg_getsotype N fd w;
     proto \<leftarrow> (if sa_family ss \<noteq> AF_LOCAL then
         if type = SOCK_STREAM then Some ipproto_tcp
         else if type = SOCK_DGRAM then Some ipproto_udp
         else None
       else Some 0);
     Some \<lparr>si_af = sa_family ss, si_proto = proto, si_alen = length ss, si_socktype = type\<rparr>
   }"

text \<open>\<open>__xprt_set_raddr\<close>: the address callers of the older interface read.\<close>

definition xprt_set_raddr :: "byte list \<Rightarrow> svc_dg_data \<Rightarrow> svc_dg_data" where
  "xprt_set_raddr ss su = su\<lparr>dg_raddr := (if sa_family ss = AF_INET6 then take 28 ss
     else if sa_family ss = AF_INET then take 16 ss
     else [0, 0])\<rparr>"

section \<open>Packet information\<close>

definition SOL_IP :: int where "SOL_IP = 0"
definition IP_PKTINFO :: int where "IP_PKTINFO = 8"
definition SOL_IPV6 :: int where "SOL_IPV6 = 41"
definition IPV6_RECVPKTINFO :: int where "IPV6_RECVPKTINFO = 49"
definition IPV6_PKTINFO :: int where "IPV6_PKTINFO = 50"

definition CMSG_LEN :: "nat \<Rightarrow> nat" where "CMSG_LEN n = 16 + n"

definition svc_dg_enable_pktinfo :: "'o dg_env \<Rightarrow> int \<Rightarrow> sockinfo \<Rightarrow> 'o \<Rightarrow> 'o" where
  "svc_dg_enable_pktinfo N fd si w =
     (if si_af si = AF_INET then dg_set_pktinfo N fd SOL_IP IP_PKTINFO w
      else if si_af si = AF_INET6 then dg_set_pktinfo N fd SOL_IPV6 IPV6_RECVPKTINFO w
      else w)"

text \<open>
  The control messages with the index of the interface cleared, if there is just one and it has the
  form of the family; \<open>ipi_ifindex\<close> comes first in \<open>in_pktinfo\<close>, \<open>ipi6_ifindex\<close> last in \<open>in6_pktinfo\<close>.
\<close>

definition svc_dg_valid_pktinfo :: "byte list \<Rightarrow> bool \<Rightarrow> cmsg list \<Rightarrow> cmsg list option" where
  "svc_dg_valid_pktinfo name ctrunc ctl =
     (if ctrunc then None
      else case ctl of
        [c] \<Rightarrow>
          if sa_family name = AF_INET then
            if cm_level c \<noteq> SOL_IP \<or> cm_type c \<noteq> IP_PKTINFO \<or> cm_len c < CMSG_LEN 12 then None
            else Some [c\<lparr>cm_data := replicate 4 0 @ drop 4 (cm_data c)\<rparr>]
          else if sa_family name = AF_INET6 then
            if cm_level c \<noteq> SOL_IPV6 \<or> cm_type c \<noteq> IPV6_PKTINFO \<or> cm_len c < CMSG_LEN 20 then None
            else Some [c\<lparr>cm_data := take 16 (cm_data c) @ replicate 4 0 @ drop 20 (cm_data c)\<rparr>]
          else None
      | _ \<Rightarrow> None)"

section \<open>The cache of replies\<close>

definition SPARSENESS :: "32 word" where "SPARSENESS = 4"

text \<open>The hash, and the division by zero it is for a table of no chains.\<close>

definition CACHE_LOC :: "cl_cache \<Rightarrow> 32 word \<Rightarrow> nat option" where
  "CACHE_LOC uc xid = (if SPARSENESS * uc_size uc = 0 then None
     else Some (unat (xid mod (SPARSENESS * uc_size uc))))"

definition sizeof_cl_cache :: nat where "sizeof_cl_cache = 40"
definition sizeof_cache_node :: nat where "sizeof_cache_node = 56"

definition svc_dg_enablecache :: "'o dg_env \<Rightarrow> xptr \<Rightarrow> 32 word \<Rightarrow> 'o dg_world \<Rightarrow> (bool \<times> 'o dg_world) option" where
  "svc_dg_enablecache N xprt sz w = do {
     su \<leftarrow> dw_data w xprt;
     if su_cache su \<noteq> None then Some (False, w)
     else let (uc, w) = dg_mem_alloc N sizeof_cl_cache w in
       if uc = 0 then Some (False, w)
       else let (entries, w) = dg_mem_alloc N (8 * unat (sz * SPARSENESS)) w in
         if entries = 0 then Some (False, dg_mem_free uc sizeof_cl_cache w)
         else let (fifo, w) = dg_mem_alloc N (8 * unat sz) w in
           if fifo = 0 then Some (False, dg_mem_free uc sizeof_cl_cache (dg_mem_free entries (8 * unat (sz * SPARSENESS)) w))
           else Some (True, set_data xprt (su\<lparr>su_cache := Some
             \<lparr>uc_size = sz, uc_entries = replicate (unat (sz * SPARSENESS)) [],
              uc_fifo = replicate (unat sz) None, uc_nextvictim = 0, uc_prog = 0, uc_vers = 0, uc_proc = 0\<rparr>\<rparr>) w)
   }"

text \<open>
  \<open>cache_get\<close>: the first node of the chain that has the call's transaction id, procedure, version,
  program and address; when there is none, the call is remembered for \<open>cache_set\<close>.
\<close>

definition cache_hit :: "svc_dg_data \<Rightarrow> tcall_body \<Rightarrow> cache_node \<Rightarrow> bool" where
  "cache_hit su call ent \<longleftrightarrow>
     cache_xid ent = su_xid su \<and> cache_proc ent = tcb_proc call \<and> cache_vers ent = tcb_vers call \<and>
     cache_prog ent = tcb_prog call \<and> length (cache_addr ent) = length (dg_rtaddr su) \<and>
     cache_addr ent = dg_rtaddr su"

fun cache_search :: "(cache_ptr \<rightharpoonup> cache_node) \<Rightarrow> svc_dg_data \<Rightarrow> tcall_body \<Rightarrow> cache_ptr list \<Rightarrow> cache_node option option" where
  "cache_search nodes su call [] = Some None"
| "cache_search nodes su call (p # ps) = do {
     ent \<leftarrow> nodes p;
     if cache_hit su call ent then Some (Some ent) else cache_search nodes su call ps }"

definition cache_get ::
    "xptr \<Rightarrow> ('s, 'v) trpc_msg \<Rightarrow> 'o dg_world \<Rightarrow> ((addr \<times> 64 word) option \<times> 'o dg_world) option" where
  "cache_get xprt msg w = do {
     su \<leftarrow> dw_data w xprt;
     uc \<leftarrow> su_cache su;
     loc \<leftarrow> CACHE_LOC uc (su_xid su);
     r \<leftarrow> cache_search (dw_nodes w) su (trm_call msg) (uc_entries uc ! loc);
     case r of
       Some ent \<Rightarrow> Some (Some (cache_reply ent, cache_replylen ent), w)
     | None \<Rightarrow> Some (None, set_data xprt (su\<lparr>su_cache := Some (uc\<lparr>uc_proc := tcb_proc (trm_call msg),
         uc_vers := tcb_vers (trm_call msg), uc_prog := tcb_prog (trm_call msg)\<rparr>)\<rparr>) w)
   }"

text \<open>
  \<open>cache_set\<close> first finds a node and a buffer: those of the oldest entry, taken out of its chain, or
  new ones.  It then gives the buffer with the reply to the node and the other one to the transport.
\<close>

definition cache_victim ::
    "'o dg_env \<Rightarrow> svc_dg_data \<Rightarrow> cl_cache \<Rightarrow> 'o dg_world \<Rightarrow> ((cache_ptr \<times> addr \<times> cl_cache) option \<times> 'o dg_world) option" where
  "cache_victim N su uc w = (case uc_fifo uc ! unat (uc_nextvictim uc) of
     Some victim \<Rightarrow> do {
       ent \<leftarrow> dw_nodes w victim;
       loc \<leftarrow> CACHE_LOC uc (cache_xid ent);
       if victim \<notin> set (uc_entries uc ! loc) then Some (None, w)
       else Some (Some (victim, cache_reply ent,
         uc\<lparr>uc_entries := (uc_entries uc)[loc := remove1 victim (uc_entries uc ! loc)]\<rparr>), w) }
   | None \<Rightarrow>
       let (victim, w) = dg_mem_alloc N sizeof_cache_node w in
       if victim = 0 then Some (None, w)
       else let (newbuf, w) = dg_mem_alloc N (unat (su_iosz su)) w in
         if newbuf = 0 then Some (None, dg_mem_free victim sizeof_cache_node w)
         else Some (Some (victim, newbuf, uc), w))"

definition cache_set :: "'o dg_env \<Rightarrow> xptr \<Rightarrow> 64 word \<Rightarrow> 'o dg_world \<Rightarrow> 'o dg_world option" where
  "cache_set N xprt replylen w = do {
     su \<leftarrow> dw_data w xprt;
     uc \<leftarrow> su_cache su;
     (v, w) \<leftarrow> cache_victim N su uc w;
     case v of
       None \<Rightarrow> Some w
     | Some (victim, newbuf, uc) \<Rightarrow> do {
         let ent = \<lparr>cache_xid = su_xid su, cache_proc = uc_proc uc, cache_vers = uc_vers uc,
           cache_prog = uc_prog uc, cache_addr = dg_rtaddr su, cache_reply = rpc_buffer su,
           cache_replylen = replylen\<rparr>;
         loc \<leftarrow> CACHE_LOC uc (su_xid su);
         let uc = uc\<lparr>uc_entries := (uc_entries uc)[loc := victim # uc_entries uc ! loc],
           uc_fifo := (uc_fifo uc)[unat (uc_nextvictim uc) := Some victim],
           uc_nextvictim := (uc_nextvictim uc + 1) mod uc_size uc\<rparr>;
         let su = su\<lparr>rpc_buffer := newbuf,
           su_xdrs := xdrmem_create (dw_mem w) newbuf (ucast (su_iosz su)) XDR_ENCODE, su_cache := Some uc\<rparr>;
         Some (set_data xprt su (w\<lparr>dw_nodes := (dw_nodes w)(victim \<mapsto> ent)\<rparr>)) } }"

section \<open>The transport\<close>

definition svc_dg_stat :: "('d, 'o) dg_state \<Rightarrow> (xprt_stat \<times> ('d, 'o) dg_state) option" where
  "svc_dg_stat st = Some (XPRT_IDLE, st)"

partial_function (option) recv_again :: "'o dg_env \<Rightarrow> int \<Rightarrow> nat \<Rightarrow> 'o \<Rightarrow> (recv_result \<times> 'o) option" where
  "recv_again N fd n w = (case dg_recvmsg N fd n w of
     (Recv_eintr, w) \<Rightarrow> recv_again N fd n w
   | r \<Rightarrow> Some r)"

definition svc_dg_recv ::
    "(nat \<Rightarrow> bool) \<Rightarrow> 'o dg_env \<Rightarrow> xptr \<Rightarrow> (memstrm, 'v) trpc_msg \<Rightarrow> ('d, 'o) dg_state \<Rightarrow>
     (bool \<times> (memstrm, 'v) trpc_msg \<times> ('d, 'o) dg_state) option" where
  "svc_dg_recv avail N xprt msg st = do {
     x \<leftarrow> alive xprt st;
     su \<leftarrow> dw_data (svc_world st) xprt;
     (r, o') \<leftarrow> recv_again N (sx_fd x) (unat (su_iosz su)) (dw_other (svc_world st));
     let st = dw_upd (\<lambda>w. w\<lparr>dw_other := o'\<rparr>) st;
     case r of
       Recv_data data name ctrunc ctl \<Rightarrow>
         let data = take (unat (su_iosz su)) data;
             st = dw_upd (\<lambda>w. w\<lparr>dw_mem := wr (dw_mem w) (rpc_buffer su) data\<rparr>) st;
             su = su\<lparr>su_control := ctl\<rparr> in
         if length data < 4 * 4 then Some (False, msg, dw_upd (set_data xprt su) st)
         else do {
           let su = su\<lparr>dg_rtaddr := name,
             su_control := (case svc_dg_valid_pktinfo name ctrunc ctl of None \<Rightarrow> [] | Some ctl \<Rightarrow> ctl)\<rparr>;
           let su = xprt_set_raddr name su;
           let xdrs = (su_xdrs su)\<lparr>x_mem := dw_mem (svc_world st), x_op := XDR_DECODE\<rparr>;
           (_, xdrs) \<leftarrow> XDR_SETPOS xdrs 0;
           (ok, xdrs, msg) \<leftarrow> xdr_callmsg avail xdrs msg;
           let st = dw_upd (\<lambda>w. w\<lparr>dw_mem := x_mem xdrs\<rparr>) st;
           let su = su\<lparr>su_xdrs := xdrs\<rparr>;
           if \<not> ok then Some (False, msg, dw_upd (set_data xprt su) st)
           else do {
             let su = su\<lparr>su_xid := trm_xid msg\<rparr>;
             let st = dw_upd (set_data xprt su) st;
             if su_cache su = None then Some (True, msg, st)
             else do {
               (r, w) \<leftarrow> cache_get xprt msg (svc_world st);
               let st = st\<lparr>svc_world := w\<rparr>;
               case r of
                 Some (reply, replylen) \<Rightarrow>
                   let (_, o') = dg_sendmsg N (sx_fd x) (rd (dw_mem w) reply (unat replylen)) name (su_control su) (dw_other w)
                   in Some (False, msg, dw_upd (\<lambda>w. w\<lparr>dw_other := o'\<rparr>) st)
               | None \<Rightarrow> Some (True, msg, st) } } }
     | _ \<Rightarrow> Some (False, msg, st)
   }"

text \<open>\<open>SVCAUTH_WRAP\<close> and \<open>SVCAUTH_UNWRAP\<close> of the flavors without GSS.\<close>

definition svcauth_none_wrap :: "(memstrm, 'a) xdrproc_t \<Rightarrow> (memstrm, 'a) xdrproc_t" where
  "svcauth_none_wrap xdr_func xdrs xdr_ptr = xdr_func xdrs xdr_ptr"

definition svc_dg_reply ::
    "(nat \<Rightarrow> bool) \<Rightarrow> 'o dg_env \<Rightarrow> xptr \<Rightarrow> (memstrm, 'v) trpc_msg \<Rightarrow> ('d, 'o) dg_state \<Rightarrow>
     (bool \<times> ('d, 'o) dg_state) option" where
  "svc_dg_reply avail N xprt msg st = do {
     x \<leftarrow> alive xprt st;
     su \<leftarrow> dw_data (svc_world st) xprt;
     let acpt = trp_acpt (trm_reply msg);
     let has_args = (trp_stat (trm_reply msg) = MSG_ACCEPTED \<and> tar_stat acpt = SUCCESS);
     let msg = (if has_args then msg\<lparr>trm_reply := (trm_reply msg)\<lparr>trp_acpt := acpt\<lparr>tar_proc := Some xdr_void\<rparr>\<rparr>\<rparr> else msg);
     let xdrs = (su_xdrs su)\<lparr>x_mem := dw_mem (svc_world st), x_op := XDR_ENCODE\<rparr>;
     (_, xdrs) \<leftarrow> XDR_SETPOS xdrs 0;
     let msg = msg\<lparr>trm_xid := su_xid su\<rparr>;
     (ok, xdrs, _) \<leftarrow> xdr_replymsg avail xdrs msg;
     (ok, xdrs) \<leftarrow> (if \<not> ok \<or> \<not> has_args then Some (ok, xdrs)
       else do {
         xdr_results \<leftarrow> tar_proc acpt;
         (ok, xdrs, _) \<leftarrow> svcauth_none_wrap xdr_results xdrs (tar_where acpt);
         Some (ok, xdrs) });
     let st = dw_upd (\<lambda>w. set_data xprt (su\<lparr>su_xdrs := xdrs\<rparr>) (w\<lparr>dw_mem := x_mem xdrs\<rparr>)) st;
     if \<not> ok then Some (False, st)
     else do {
       slen \<leftarrow> XDR_GETPOS xdrs;
       let (n, o') = dg_sendmsg N (sx_fd x) (rd (dw_mem (svc_world st)) (rpc_buffer su) (unat slen)) (dg_rtaddr su)
         (su_control su) (dw_other (svc_world st));
       let st = dw_upd (\<lambda>w. w\<lparr>dw_other := o'\<rparr>) st;
       if n \<noteq> int (unat slen) then Some (False, st)
       else if su_cache su = None then Some (True, st)
       else do {
         w \<leftarrow> cache_set N xprt (ucast slen) (svc_world st);
         Some (True, st\<lparr>svc_world := w\<rparr>) } } }"

definition dg_run :: "xptr \<Rightarrow> (memstrm, 'a) xdrproc_t \<Rightarrow> (memstrm XDR \<Rightarrow> memstrm XDR) \<Rightarrow> 'a \<Rightarrow> ('d, 'o) dg_state \<Rightarrow>
     (bool \<times> 'a \<times> ('d, 'o) dg_state) option" where
  "dg_run xprt xdr_args f args st = do {
     su \<leftarrow> dw_data (svc_world st) xprt;
     (ok, xdrs, args) \<leftarrow> xdr_args (f ((su_xdrs su)\<lparr>x_mem := dw_mem (svc_world st)\<rparr>)) args;
     Some (ok, args, dw_upd (\<lambda>w. set_data xprt (su\<lparr>su_xdrs := xdrs\<rparr>) (w\<lparr>dw_mem := x_mem xdrs\<rparr>)) st) }"

definition svc_dg_getargs ::
    "xptr \<Rightarrow> (memstrm, 'a) xdrproc_t \<Rightarrow> 'a \<Rightarrow> ('d, 'o) dg_state \<Rightarrow> (bool \<times> 'a \<times> ('d, 'o) dg_state) option" where
  "svc_dg_getargs xprt xdr_args args_ptr st = dg_run xprt (svcauth_none_wrap xdr_args) id args_ptr st"

definition svc_dg_freeargs ::
    "xptr \<Rightarrow> (memstrm, 'a) xdrproc_t \<Rightarrow> 'a \<Rightarrow> ('d, 'o) dg_state \<Rightarrow> (bool \<times> 'a \<times> ('d, 'o) dg_state) option" where
  "svc_dg_freeargs xprt xdr_args args_ptr st = dg_run xprt xdr_args (\<lambda>xdrs. xdrs\<lparr>x_op := XDR_FREE\<rparr>) args_ptr st"

definition sizeof_SVCXPRT :: nat where "sizeof_SVCXPRT = 160"
definition sizeof_SVCXPRT_EXT :: nat where "sizeof_SVCXPRT_EXT = 48"
definition sizeof_svc_dg_data :: nat where "sizeof_svc_dg_data = 592"

definition svc_dg_destroy ::
    "('d, memstrm, 'v, 'o dg_world) svc_env \<Rightarrow> 'o dg_env \<Rightarrow> xptr \<Rightarrow> ('d, 'o) dg_state \<Rightarrow> ('d, 'o) dg_state option" where
  "svc_dg_destroy E N xprt st = do {
     su \<leftarrow> dw_data (svc_world st) xprt;
     st \<leftarrow> xprt_unregister E xprt st;
     x \<leftarrow> alive xprt st;
     let st = (if sx_fd x \<noteq> -1 then dw_upd (\<lambda>w. w\<lparr>dw_other := dg_close N (sx_fd x) (dw_other w)\<rparr>) st else st);
     let w = dg_mem_free (rpc_buffer su) (unat (su_iosz su)) (svc_world st);
     let w = dg_mem_free (dg_p2 su) sizeof_svc_dg_data w;
     let w = dg_mem_free (dg_p3 su) sizeof_SVCXPRT_EXT w;
     let w = dg_mem_free xprt sizeof_SVCXPRT w;
     Some (st\<lparr>xprts := (xprts st)(xprt := None), svc_world := w\<lparr>dw_data := (dw_data w)(xprt := None)\<rparr>\<rparr>) }"

text \<open>The vector of operations, put into the environment of the server.\<close>

definition svc_dg_ops ::
    "'o dg_env \<Rightarrow> xptr \<Rightarrow> ('d, memstrm, 'v, 'o dg_world) svc_env \<Rightarrow> ('d, memstrm, 'v, 'o dg_world) svc_env" where
  "svc_dg_ops N xprt E = E\<lparr>
     xp_recv := (\<lambda>p. if p = xprt then svc_dg_recv (sv_avail E) N xprt else xp_recv E p),
     xp_reply := (\<lambda>p. if p = xprt then svc_dg_reply (sv_avail E) N xprt else xp_reply E p),
     xp_stat := (\<lambda>p. if p = xprt then svc_dg_stat else xp_stat E p),
     xp_destroy := (\<lambda>p. if p = xprt then svc_dg_destroy E N xprt else xp_destroy E p)\<rparr>"

text \<open>
  \<open>svc_dg_create\<close>.  \<open>body\<close> is what the new \<open>su_verfbody\<close> holds; \<open>xp_p2\<close> and \<open>xp_p3\<close> are blocks
  that are only allocated and freed.  A transport whose address cannot be found is given up with
  its buffer.
\<close>

definition dg_iosz :: "32 word \<Rightarrow> 32 word \<Rightarrow> 64 word" where
  "dg_iosz sendsize recvsize = ucast (((if sendsize > recvsize then sendsize else recvsize) + 3) div 4 * 4)"

definition svc_dg_create ::
    "('d, memstrm, 'v, 'o dg_world) svc_env \<Rightarrow> 'o dg_env \<Rightarrow> byte list \<Rightarrow> int \<Rightarrow> 32 word \<Rightarrow> 32 word \<Rightarrow> ('d, 'o) dg_state \<Rightarrow>
     (xptr option \<times> ('d, 'o) dg_state) option" where
  "svc_dg_create E N body fd sendsize recvsize st =
    (case rpc_fd2sockinfo N fd (dw_other (svc_world st)) of None \<Rightarrow> Some (None, st)
     | Some si \<Rightarrow>
       let sendsize = rpc_get_t_size (si_af si) (si_proto si) sendsize;
           recvsize = rpc_get_t_size (si_af si) (si_proto si) recvsize in
       if sendsize = 0 \<or> recvsize = 0 then Some (None, st)
       else let (xprt, w) = dg_mem_alloc N sizeof_SVCXPRT (svc_world st) in
       if xprt = 0 then Some (None, st\<lparr>svc_world := w\<rparr>)
       else let (ext, w) = dg_mem_alloc N sizeof_SVCXPRT_EXT w in
       if ext = 0 then Some (None, st\<lparr>svc_world := dg_mem_free xprt sizeof_SVCXPRT w\<rparr>)
       else let (su, w) = dg_mem_alloc N sizeof_svc_dg_data w;
                free = (\<lambda>w. dg_mem_free xprt sizeof_SVCXPRT (dg_mem_free ext sizeof_SVCXPRT_EXT w)) in
       if su = 0 then Some (None, st\<lparr>svc_world := free w\<rparr>)
       else let iosz = dg_iosz sendsize recvsize;
                free = (\<lambda>w. free (dg_mem_free su sizeof_svc_dg_data w));
                (buf, w) = dg_mem_alloc N (unat iosz) w in
       if buf = 0 then Some (None, st\<lparr>svc_world := free w\<rparr>)
       else case dg_getsockname N fd (dw_other w) of None \<Rightarrow> Some (None, st\<lparr>svc_world := free w\<rparr>)
       | Some ss \<Rightarrow> do {
           let data = \<lparr>rpc_buffer = buf, dg_p2 = su, dg_p3 = ext, su_iosz = iosz, su_xid = 0,
             su_xdrs = xdrmem_create (dw_mem w) buf (ucast iosz) XDR_DECODE, su_cache = None,
             su_control = [], dg_rtaddr = [], dg_ltaddr = ss, dg_raddr = []\<rparr>;
           let x = \<lparr>sx_fd = fd, sx_port = 0, sx_netid = None,
             sx_verf = \<lparr>oa_flavor = 0, oa_base = Some body, oa_length = 0\<rparr>\<rparr>;
           let w = (set_data xprt data w)\<lparr>dw_other := svc_dg_enable_pktinfo N fd si (dw_other w)\<rparr>;
           st \<leftarrow> xprt_register E xprt (st\<lparr>svc_world := w, xprts := (xprts st)(xprt \<mapsto> x)\<rparr>);
           Some (Some xprt, st) })"

end
