(* ===== verification/Dg_Cache.thy ===== *)
theory Dg_Cache
  imports Svc_Dg
begin

text \<open>
  What the cache of replies holds: the last replies, newest first, each under the transaction id,
  procedure, version, program and address of its call.  The ring \<open>uc_fifo\<close> has the nodes in the
  order of their age, the chains of the hash table are parts of the same list, and the buffers of
  the nodes and of the transport do not overlap, so that a reply stays as it was sent.
\<close>

section \<open>The ring\<close>

lemma hd_rotate:
  assumes "v < length xs"
  shows "hd (rotate v xs) = xs ! v"
  using assms by (subst hd_rotate_conv_nth) auto

lemma rotate_update:
  assumes "v < length xs"
  shows "rotate (Suc v) (xs[v := x]) = tl (rotate v xs) @ [x]"
proof -
  have "rotate v xs = drop v xs @ take v xs" using assms by (simp add: rotate_drop_take)
  moreover have "drop v xs = xs ! v # drop (Suc v) xs" using assms by (simp add: Cons_nth_drop_Suc)
  moreover have "rotate v (xs[v := x]) = drop v (xs[v := x]) @ take v (xs[v := x])"
    using assms by (simp add: rotate_drop_take)
  moreover have "drop v (xs[v := x]) = x # drop (Suc v) xs"
    using assms by (simp add: drop_update_swap Cons_nth_drop_Suc [symmetric])
  ultimately show ?thesis by (simp add: rotate1_hd_tl)
qed

section \<open>The contents\<close>

type_synonym dg_key = "32 word \<times> 32 word \<times> 32 word \<times> 32 word \<times> byte list"

definition node :: "'o dg_world \<Rightarrow> cache_ptr \<Rightarrow> cache_node" where
  "node w p = the (dw_nodes w p)"

definition node_key :: "cache_node \<Rightarrow> dg_key" where
  "node_key ent = (cache_xid ent, cache_proc ent, cache_vers ent, cache_prog ent, cache_addr ent)"

definition node_reply :: "'o dg_world \<Rightarrow> cache_node \<Rightarrow> byte list" where
  "node_reply w ent = rd (dw_mem w) (cache_reply ent) (unat (cache_replylen ent))"

definition contents :: "'o dg_world \<Rightarrow> cache_ptr list \<Rightarrow> (dg_key \<times> byte list) list" where
  "contents w hist = map (\<lambda>p. (node_key (node w p), node_reply w (node w p))) hist"

definition call_key :: "svc_dg_data \<Rightarrow> tcall_body \<Rightarrow> dg_key" where
  "call_key su call = (su_xid su, tcb_proc call, tcb_vers call, tcb_prog call, dg_rtaddr su)"

lemma cache_hit_key: "cache_hit su call ent \<longleftrightarrow> node_key ent = call_key su call"
  by (auto simp: cache_hit_def node_key_def call_key_def)

definition chain_of :: "cl_cache \<Rightarrow> cache_node \<Rightarrow> nat" where
  "chain_of uc ent = unat (cache_xid ent mod (SPARSENESS * uc_size uc))"

definition apart :: "nat \<Rightarrow> addr \<Rightarrow> addr \<Rightarrow> bool" where
  "apart n a b \<longleftrightarrow> a + n \<le> b \<or> b + n \<le> a"

definition buffers :: "'o dg_world \<Rightarrow> svc_dg_data \<Rightarrow> cache_ptr list \<Rightarrow> addr list" where
  "buffers w su hist = rpc_buffer su # map (\<lambda>p. cache_reply (node w p)) hist"

definition table_ok :: "cl_cache \<Rightarrow> bool" where
  "table_ok uc \<longleftrightarrow> uc_size uc \<noteq> 0 \<and> unat (SPARSENESS * uc_size uc) = 4 * unat (uc_size uc) \<and>
     length (uc_fifo uc) = unat (uc_size uc) \<and> length (uc_entries uc) = 4 * unat (uc_size uc) \<and>
     uc_nextvictim uc < uc_size uc"

definition ring_ok :: "cl_cache \<Rightarrow> cache_ptr list \<Rightarrow> bool" where
  "ring_ok uc hist \<longleftrightarrow> length hist \<le> unat (uc_size uc) \<and> distinct hist \<and>
     rotate (unat (uc_nextvictim uc)) (uc_fifo uc) =
       replicate (unat (uc_size uc) - length hist) None @ map Some (rev hist)"

definition chains_ok :: "'o dg_world \<Rightarrow> cl_cache \<Rightarrow> cache_ptr list \<Rightarrow> bool" where
  "chains_ok w uc hist \<longleftrightarrow> (\<forall>p \<in> set hist. dw_nodes w p \<noteq> None) \<and>
     (\<forall>b < length (uc_entries uc). uc_entries uc ! b = filter (\<lambda>p. chain_of uc (node w p) = b) hist)"

definition buffers_ok :: "'o dg_world \<Rightarrow> svc_dg_data \<Rightarrow> cache_ptr list \<Rightarrow> bool" where
  "buffers_ok w su hist \<longleftrightarrow> 0 < su_iosz su \<and> su_iosz su < 2 ^ 32 \<and> rpc_buffer su \<noteq> 0 \<and>
     sorted_wrt (apart (unat (su_iosz su))) (buffers w su hist) \<and>
     (\<forall>a \<in> set (buffers w su hist). a \<noteq> 0 \<and> (a, unat (su_iosz su)) \<in> set (dw_blocks w)) \<and>
     (\<forall>p \<in> set hist. (p, sizeof_cache_node) \<in> set (dw_blocks w) \<and>
        unat (cache_replylen (node w p)) \<le> unat (su_iosz su))"

definition cache_ok :: "'o dg_world \<Rightarrow> svc_dg_data \<Rightarrow> cl_cache \<Rightarrow> cache_ptr list \<Rightarrow> bool" where
  "cache_ok w su uc hist \<longleftrightarrow> su_cache su = Some uc \<and> table_ok uc \<and> ring_ok uc hist \<and> chains_ok w uc hist \<and>
     buffers_ok w su hist"

text \<open>An allocator that does not fail, and gives blocks apart from those it gave before.\<close>

definition good_alloc :: "'o dg_env \<Rightarrow> bool" where
  "good_alloc N \<longleftrightarrow> (\<forall>bs n. dg_alloc N bs n \<noteq> 0 \<and>
     (\<forall>(b, k) \<in> set bs. b + k \<le> dg_alloc N bs n \<or> dg_alloc N bs n + n \<le> b))"

section \<open>Searching\<close>

lemma CACHE_LOC_ok:
  assumes "table_ok uc"
  shows "CACHE_LOC uc xid = Some (unat (xid mod (SPARSENESS * uc_size uc)))"
    and "unat (xid mod (SPARSENESS * uc_size uc)) < length (uc_entries uc)"
proof -
  have "unat (uc_size uc) \<noteq> 0" using assms by (simp add: table_ok_def unat_eq_0)
  then have pos: "0 < unat (SPARSENESS * uc_size uc)" using assms by (simp add: table_ok_def)
  then show "CACHE_LOC uc xid = Some (unat (xid mod (SPARSENESS * uc_size uc)))"
    by (auto simp: CACHE_LOC_def)
  have "unat (xid mod (SPARSENESS * uc_size uc)) = unat xid mod unat (SPARSENESS * uc_size uc)"
    by (rule unat_mod_distrib)
  then show "unat (xid mod (SPARSENESS * uc_size uc)) < length (uc_entries uc)"
    using pos assms by (simp add: table_ok_def)
qed

lemma cache_search_find:
  "\<forall>p \<in> set ps. dw_nodes w p \<noteq> None \<Longrightarrow>
   cache_search (dw_nodes w) su call ps = Some (find (\<lambda>ent. node_key ent = call_key su call) (map (node w) ps))"
  by (induction ps) (auto simp: cache_hit_key node_def)

lemma find_filter: "(\<And>x. P x \<Longrightarrow> Q x) \<Longrightarrow> find P (filter Q xs) = find P xs"
  by (induction xs) auto

lemma map_of_find:
  "map_of (map (\<lambda>p. (k (f p), r (f p))) ps) key = map_option r (find (\<lambda>x. k x = key) (map f ps))"
  by (induction ps) auto

lemma cache_get_contents:
  assumes w: "dw_data w xprt = Some su" and ok: "cache_ok w su uc hist"
  shows "cache_get xprt msg w = Some (case find (\<lambda>ent. node_key ent = call_key su (trm_call msg)) (map (node w) hist) of
      Some ent \<Rightarrow> (Some (cache_reply ent, cache_replylen ent), w)
    | None \<Rightarrow> (None, set_data xprt (su\<lparr>su_cache := Some (uc\<lparr>uc_proc := tcb_proc (trm_call msg),
         uc_vers := tcb_vers (trm_call msg), uc_prog := tcb_prog (trm_call msg)\<rparr>)\<rparr>) w))"
proof -
  let ?P = "\<lambda>ent. node_key ent = call_key su (trm_call msg)"
  define loc where "loc = unat (su_xid su mod (SPARSENESS * uc_size uc))"
  have t: "table_ok uc" and c: "chains_ok w uc hist" and uc: "su_cache su = Some uc"
    using ok by (simp_all add: cache_ok_def)
  have loc: "CACHE_LOC uc (su_xid su) = Some loc" "loc < length (uc_entries uc)"
    using CACHE_LOC_ok [OF t] by (simp_all add: loc_def)
  then have chain: "uc_entries uc ! loc = filter (\<lambda>p. chain_of uc (node w p) = loc) hist"
    using c by (simp add: chains_ok_def)
  have "cache_search (dw_nodes w) su (trm_call msg) (uc_entries uc ! loc)
      = Some (find ?P (map (node w) (uc_entries uc ! loc)))"
    by (rule cache_search_find) (use c in \<open>auto simp: chain chains_ok_def\<close>)
  also have "map (node w) (uc_entries uc ! loc) = filter (\<lambda>ent. chain_of uc ent = loc) (map (node w) hist)"
    by (simp add: chain filter_map comp_def)
  also have "find ?P \<dots> = find ?P (map (node w) hist)"
    by (rule find_filter) (simp add: node_key_def call_key_def chain_of_def loc_def)
  finally show ?thesis
    by (simp add: cache_get_def w uc loc split: option.split)
qed

section \<open>Storing\<close>

text \<open>The list of nodes that is left when the oldest makes room.\<close>

definition keep :: "cl_cache \<Rightarrow> cache_ptr list \<Rightarrow> cache_ptr list" where
  "keep uc hist = take (unat (uc_size uc) - 1) hist"

lemma size_pos: "table_ok uc \<Longrightarrow> 0 < unat (uc_size uc)"
  by (simp add: table_ok_def unat_gt_0)

lemma ring_next:
  assumes "ring_ok uc hist" and t: "table_ok uc"
  shows "uc_fifo uc ! unat (uc_nextvictim uc) = (if length hist = unat (uc_size uc) then Some (last hist) else None)"
proof -
  let ?v = "unat (uc_nextvictim uc)" and ?n = "unat (uc_size uc)"
  have r: "rotate ?v (uc_fifo uc) = replicate (?n - length hist) None @ map Some (rev hist)" and le: "length hist \<le> ?n"
    using assms by (simp_all add: ring_ok_def)
  have v: "?v < length (uc_fifo uc)" using t by (simp add: table_ok_def word_less_nat_alt)
  show ?thesis
  proof (cases "length hist = ?n")
    case True
    then have "hist \<noteq> []" using size_pos [OF t] by auto
    then have "hd (map Some (rev hist)) = Some (last hist)" by (simp add: hd_map hd_rev)
    then show ?thesis using hd_rotate [OF v] r True by simp
  next
    case False
    then have "replicate (?n - length hist) None = None # replicate (?n - length hist - 1) (None :: cache_ptr option)"
      using le by (cases "?n - length hist") auto
    then show ?thesis using hd_rotate [OF v] r False by simp
  qed
qed

lemma ring_push:
  assumes r: "ring_ok uc hist" and t: "table_ok uc" and new: "victim \<notin> set (keep uc hist)"
  shows "ring_ok (uc\<lparr>uc_entries := es, uc_fifo := (uc_fifo uc)[unat (uc_nextvictim uc) := Some victim],
      uc_nextvictim := (uc_nextvictim uc + 1) mod uc_size uc\<rparr>) (victim # keep uc hist)"
proof -
  let ?v = "unat (uc_nextvictim uc)" and ?n = "unat (uc_size uc)"
  have ring: "rotate ?v (uc_fifo uc) = replicate (?n - length hist) None @ map Some (rev hist)"
    and le: "length hist \<le> ?n" and d: "distinct hist"
    using r by (simp_all add: ring_ok_def)
  have v: "?v < ?n" "length (uc_fifo uc) = ?n" using t by (simp_all add: table_ok_def word_less_nat_alt)
  have n: "0 < ?n" by (rule size_pos [OF t])
  have "?v + 1 < 2 ^ LENGTH(32)" proof -
    have "unat (uc_size uc) < 2 ^ LENGTH(32)" by (rule unsigned_less)
    then show ?thesis using v(1) by linarith
  qed
  then have "unat (uc_nextvictim uc + 1) = ?v + 1" by (simp add: unat_word_ariths)
  then have next_v: "unat ((uc_nextvictim uc + 1) mod uc_size uc) = Suc ?v mod ?n"
    by (simp add: unat_mod_distrib)
  have "rotate (Suc ?v mod ?n) ((uc_fifo uc)[?v := Some victim]) = rotate (Suc ?v) ((uc_fifo uc)[?v := Some victim])"
    using v(2) by (metis length_list_update rotate_conv_mod)
  also have "\<dots> = tl (rotate ?v (uc_fifo uc)) @ [Some victim]"
    using v by (intro rotate_update) simp
  also have "tl (rotate ?v (uc_fifo uc)) = replicate (?n - length (victim # keep uc hist)) None @ map Some (rev (keep uc hist))"
  proof (cases "length hist = ?n")
    case True
    then have "tl (map Some (rev hist)) = map Some (rev (take (?n - 1) hist))"
    proof -
      have "take (?n - 1) hist = butlast hist" using True by (simp add: butlast_conv_take)
      moreover have "tl (rev hist) = rev (butlast hist)" by (metis butlast_rev rev_rev_ident)
      ultimately show ?thesis by (simp flip: map_tl)
    qed
    then show ?thesis using ring True n by (simp add: keep_def)
  next
    case False
    then have "keep uc hist = hist" using le by (simp add: keep_def)
    moreover have "tl (replicate (?n - length hist) (None :: cache_ptr option)) = replicate (?n - Suc (length hist)) None"
      by (simp add: tl_replicate)
    ultimately show ?thesis using ring False le by simp
  qed
  finally show ?thesis
    using n new d by (simp add: ring_ok_def next_v keep_def distinct_take)
qed

lemma keep_full:
  assumes "length hist = unat (uc_size uc)" and "hist \<noteq> []"
  shows "hist = keep uc hist @ [last hist]"
proof -
  have "keep uc hist = butlast hist" using assms(1) by (simp add: keep_def butlast_conv_take)
  then show ?thesis using assms(2) by simp
qed

lemma keep_all: "length hist < unat (uc_size uc) \<Longrightarrow> keep uc hist = hist"
  by (simp add: keep_def)

lemma set_keep: "set (keep uc hist) \<subseteq> set hist"
  by (simp add: keep_def set_take_subset)

lemma remove1_filter_last:
  assumes "distinct (xs @ [x])" and "P x"
  shows "remove1 x (filter P (xs @ [x])) = filter P xs"
  using assms by (simp add: remove1_append remove1_idem)

lemma mem_alloc_good:
  assumes "good_alloc N"
  obtains a where "dg_mem_alloc N n w = (a, w\<lparr>dw_blocks := (a, n) # dw_blocks w\<rparr>)" and "a \<noteq> 0"
    and "\<forall>(b, k) \<in> set (dw_blocks w). b + k \<le> a \<or> a + n \<le> b"
proof -
  let ?a = "dg_alloc N (dw_blocks w) n"
  have "?a \<noteq> 0" and "\<forall>(b, k) \<in> set (dw_blocks w). b + k \<le> ?a \<or> ?a + n \<le> b"
    using assms by (simp_all add: good_alloc_def)
  then show thesis by (intro that [of ?a]) (auto simp: dg_mem_alloc_def Let_def)
qed

lemma sorted_wrt_take: "sorted_wrt R xs \<Longrightarrow> sorted_wrt R (take n xs)"
  by (metis append_take_drop_id sorted_wrt_append)

text \<open>What \<open>cache_victim\<close> delivers: a node and a buffer that nothing else uses.\<close>

definition victim_ok :: "svc_dg_data \<Rightarrow> cl_cache \<Rightarrow> cache_ptr list \<Rightarrow> 'o dg_world \<Rightarrow> cache_ptr \<Rightarrow> addr \<Rightarrow> cache_ptr list list \<Rightarrow>
    'o dg_world \<Rightarrow> bool" where
  "victim_ok su uc hist w victim newbuf es w1 \<longleftrightarrow>
     victim \<notin> set (keep uc hist) \<and> newbuf \<noteq> 0 \<and>
     (\<forall>a \<in> set (buffers w su (keep uc hist)). apart (unat (su_iosz su)) newbuf a) \<and>
     (newbuf, unat (su_iosz su)) \<in> set (dw_blocks w1) \<and> (victim, sizeof_cache_node) \<in> set (dw_blocks w1) \<and>
     length es = length (uc_entries uc) \<and>
     (\<forall>b < length es. es ! b = filter (\<lambda>p. chain_of uc (node w p) = b) (keep uc hist)) \<and>
     w1 = w\<lparr>dw_blocks := dw_blocks w1\<rparr> \<and> set (dw_blocks w) \<subseteq> set (dw_blocks w1)"

lemma cache_victim_oldest:
  assumes ok: "cache_ok w su uc hist" and full: "length hist = unat (uc_size uc)"
  obtains victim newbuf es where "cache_victim N su uc w = Some (Some (victim, newbuf, uc\<lparr>uc_entries := es\<rparr>), w)"
    and "victim_ok su uc hist w victim newbuf es w"
proof -
  have t: "table_ok uc" and r: "ring_ok uc hist" and c: "chains_ok w uc hist" and b: "buffers_ok w su hist"
    using ok by (simp_all add: cache_ok_def)
  define v where "v = last hist"
  define loc where "loc = chain_of uc (node w v)"
  have ne: "hist \<noteq> []" using full size_pos [OF t] by auto
  then have hist: "hist = keep uc hist @ [v]" using keep_full [OF full] by (simp add: v_def)
  have d: "distinct (keep uc hist @ [v])" using r hist by (simp add: ring_ok_def)
  have v: "v \<in> set hist" using ne by (simp add: v_def)
  obtain ent where ent: "dw_nodes w v = Some ent" using c v by (auto simp: chains_ok_def)
  have loc: "CACHE_LOC uc (cache_xid ent) = Some loc" "loc < length (uc_entries uc)"
    using CACHE_LOC_ok [OF t] by (simp_all add: loc_def chain_of_def node_def ent)
  have entries: "uc_entries uc ! b = filter (\<lambda>p. chain_of uc (node w p) = b) (keep uc hist @ [v])"
    if "b < length (uc_entries uc)" for b
    using c that hist by (simp add: chains_ok_def)
  define es where "es = (uc_entries uc)[loc := remove1 v (uc_entries uc ! loc)]"
  have "uc_fifo uc ! unat (uc_nextvictim uc) = Some v" using ring_next [OF r t] full by (simp add: v_def)
  moreover have "v \<in> set (uc_entries uc ! loc)" unfolding entries [OF loc(2)] by (simp add: loc_def)
  ultimately have run: "cache_victim N su uc w = Some (Some (v, cache_reply ent, uc\<lparr>uc_entries := es\<rparr>), w)"
    by (simp add: cache_victim_def ent loc es_def)
  have "es ! b = filter (\<lambda>p. chain_of uc (node w p) = b) (keep uc hist)" if "b < length es" for b
  proof (cases "b = loc")
    case True
    then show ?thesis
      using that remove1_filter_last [OF d, of "\<lambda>p. chain_of uc (node w p) = loc"]
      by (simp add: es_def entries loc_def)
  next
    case False
    then show ?thesis using that entries [of b] by (simp add: es_def loc_def)
  qed
  moreover have "buffers w su hist = buffers w su (keep uc hist) @ [cache_reply ent]"
    by (subst hist) (simp add: buffers_def node_def ent)
  ultimately have "victim_ok su uc hist w v (cache_reply ent) es w"
    using b d v by (auto simp: victim_ok_def buffers_ok_def sorted_wrt_append es_def apart_def buffers_def)
  then show thesis using that run by blast
qed

lemma cache_victim_new:
  assumes ok: "cache_ok w su uc hist" and room: "length hist < unat (uc_size uc)" and N: "good_alloc N"
  obtains victim newbuf w1 where "cache_victim N su uc w = Some (Some (victim, newbuf, uc), w1)"
    and "victim_ok su uc hist w victim newbuf (uc_entries uc) w1"
proof -
  have t: "table_ok uc" and r: "ring_ok uc hist" and c: "chains_ok w uc hist" and b: "buffers_ok w su hist"
    using ok by (simp_all add: cache_ok_def)
  obtain v where v: "dg_mem_alloc N sizeof_cache_node w = (v, w\<lparr>dw_blocks := (v, sizeof_cache_node) # dw_blocks w\<rparr>)" "v \<noteq> 0"
    "\<forall>(a, k) \<in> set (dw_blocks w). a + k \<le> v \<or> v + sizeof_cache_node \<le> a"
    by (rule mem_alloc_good [OF N, of sizeof_cache_node w])
  let ?w = "w\<lparr>dw_blocks := (v, sizeof_cache_node) # dw_blocks w\<rparr>"
  obtain a where a: "dg_mem_alloc N (unat (su_iosz su)) ?w = (a, ?w\<lparr>dw_blocks := (a, unat (su_iosz su)) # dw_blocks ?w\<rparr>)" "a \<noteq> 0"
    "\<forall>(b, k) \<in> set (dw_blocks ?w). b + k \<le> a \<or> a + unat (su_iosz su) \<le> b"
    by (rule mem_alloc_good [OF N, of "unat (su_iosz su)" ?w])
  let ?w1 = "?w\<lparr>dw_blocks := (a, unat (su_iosz su)) # dw_blocks ?w\<rparr>"
  have "uc_fifo uc ! unat (uc_nextvictim uc) = None" using ring_next [OF r t] room by simp
  then have run: "cache_victim N su uc w = Some (Some (v, a, uc), ?w1)"
    by (simp add: cache_victim_def v(1,2) a(1,2))
  have "v \<notin> set hist"
  proof
    assume "v \<in> set hist"
    then have "(v, sizeof_cache_node) \<in> set (dw_blocks w)" using b by (simp add: buffers_ok_def)
    with v(3) have "v + sizeof_cache_node \<le> v" by fastforce
    then show False by (simp add: sizeof_cache_node_def)
  qed
  moreover have "apart (unat (su_iosz su)) a x" if "x \<in> set (buffers w su hist)" for x
  proof -
    have "(x, unat (su_iosz su)) \<in> set (dw_blocks ?w)" using b that by (auto simp: buffers_ok_def)
    with a(3) show ?thesis by (fastforce simp: apart_def)
  qed
  ultimately have "victim_ok su uc hist w v a (uc_entries uc) ?w1"
    using a(2) c by (auto simp: victim_ok_def keep_all [OF room] chains_ok_def)
  then show thesis using that run by blast
qed

lemma cache_victim_ok:
  assumes ok: "cache_ok w su uc hist" and N: "good_alloc N"
  obtains victim newbuf es w1 where "cache_victim N su uc w = Some (Some (victim, newbuf, uc\<lparr>uc_entries := es\<rparr>), w1)"
    and "victim_ok su uc hist w victim newbuf es w1"
proof (cases "length hist = unat (uc_size uc)")
  case True
  show thesis by (rule cache_victim_oldest [OF ok True]) (rule that)
next
  case False
  then have "length hist < unat (uc_size uc)" using ok by (simp add: cache_ok_def ring_ok_def)
  from cache_victim_new [OF ok this N] show thesis using that [of _ _ "uc_entries uc"] by auto
qed

text \<open>Storing a reply puts it in front of the newest, all but the last \<open>uc_size\<close> being dropped.\<close>

definition stored_node :: "svc_dg_data \<Rightarrow> cl_cache \<Rightarrow> 64 word \<Rightarrow> cache_node" where
  "stored_node su uc replylen = \<lparr>cache_xid = su_xid su, cache_proc = uc_proc uc, cache_vers = uc_vers uc,
     cache_prog = uc_prog uc, cache_addr = dg_rtaddr su, cache_reply = rpc_buffer su, cache_replylen = replylen\<rparr>"

lemma cache_set_contents:
  assumes w: "dw_data w xprt = Some su" and ok: "cache_ok w su uc hist" and N: "good_alloc N"
    and len: "unat replylen \<le> unat (su_iosz su)"
  obtains w' newbuf uc' hist' where "cache_set N xprt replylen w = Some w'"
    and "dw_data w' = (dw_data w)(xprt \<mapsto> su\<lparr>rpc_buffer := newbuf,
      su_xdrs := xdrmem_create (dw_mem w) newbuf (ucast (su_iosz su)) XDR_ENCODE, su_cache := Some uc'\<rparr>)"
    and "cache_ok w' (su\<lparr>rpc_buffer := newbuf,
      su_xdrs := xdrmem_create (dw_mem w) newbuf (ucast (su_iosz su)) XDR_ENCODE, su_cache := Some uc'\<rparr>) uc' hist'"
    and "uc_size uc' = uc_size uc" and "dw_mem w' = dw_mem w" and "dw_other w' = dw_other w"
    and "contents w' hist' = (node_key (stored_node su uc replylen), node_reply w (stored_node su uc replylen))
      # take (unat (uc_size uc) - 1) (contents w hist)"
proof -
  have t: "table_ok uc" and r: "ring_ok uc hist" and c: "chains_ok w uc hist" and b: "buffers_ok w su hist"
    and uc: "su_cache su = Some uc"
    using ok by (simp_all add: cache_ok_def)
  obtain v nb es w1 where run: "cache_victim N su uc w = Some (Some (v, nb, uc\<lparr>uc_entries := es\<rparr>), w1)"
    and v: "victim_ok su uc hist w v nb es w1"
    by (rule cache_victim_ok [OF ok N])
  define ent where "ent = stored_node su uc replylen"
  define loc where "loc = chain_of uc ent"
  have "CACHE_LOC (uc\<lparr>uc_entries := es\<rparr>) (su_xid su) = CACHE_LOC uc (su_xid su)"
    by (simp add: CACHE_LOC_def)
  then have loc: "CACHE_LOC (uc\<lparr>uc_entries := es\<rparr>) (su_xid su) = Some loc" "loc < length (uc_entries uc)"
    using CACHE_LOC_ok [OF t, of "su_xid su"] by (simp_all add: loc_def chain_of_def ent_def stored_node_def)
  define uc' where "uc' = uc\<lparr>uc_entries := es[loc := v # es ! loc],
    uc_fifo := (uc_fifo uc)[unat (uc_nextvictim uc) := Some v], uc_nextvictim := (uc_nextvictim uc + 1) mod uc_size uc\<rparr>"
  define su' where "su' = su\<lparr>rpc_buffer := nb, su_xdrs := xdrmem_create (dw_mem w) nb (ucast (su_iosz su)) XDR_ENCODE,
    su_cache := Some uc'\<rparr>"
  define w' where "w' = set_data xprt su' (w1\<lparr>dw_nodes := (dw_nodes w1)(v \<mapsto> ent)\<rparr>)"
  define hist' where "hist' = v # keep uc hist"
  have w1: "dw_mem w1 = dw_mem w" "dw_nodes w1 = dw_nodes w" "dw_data w1 = dw_data w" "dw_other w1 = dw_other w"
    using v unfolding victim_ok_def by (metis dg_world.select_convs dg_world.update_convs(2) dg_world.surjective)+
  have "cache_set N xprt replylen w = Some w'"
    by (simp add: cache_set_def w uc run loc w'_def su'_def uc'_def ent_def stored_node_def w1)
  moreover have data: "dw_data w' = (dw_data w)(xprt \<mapsto> su')" and "dw_mem w' = dw_mem w" and "dw_other w' = dw_other w"
    by (simp_all add: w'_def set_data_def w1)
  moreover have nv: "v \<notin> set (keep uc hist)" using v by (simp add: victim_ok_def)
  then have nodes: "node w' v = ent" "\<And>p. p \<in> set (keep uc hist) \<Longrightarrow> node w' p = node w p"
    by (auto simp: w'_def set_data_def node_def w1)
  have "contents w' hist' = (node_key ent, node_reply w ent) # take (unat (uc_size uc) - 1) (contents w hist)"
    using nodes by (simp add: contents_def hist'_def keep_def take_map node_reply_def \<open>dw_mem w' = dw_mem w\<close>)
  moreover have "cache_ok w' su' uc' hist'"
  proof -
    have size: "uc_size uc' = uc_size uc" "chain_of uc' = chain_of uc"
      by (simp_all add: uc'_def chain_of_def fun_eq_iff)
    have es: "length es = length (uc_entries uc)"
      "\<And>b. b < length es \<Longrightarrow> es ! b = filter (\<lambda>p. chain_of uc (node w p) = b) (keep uc hist)"
      using v by (simp_all add: victim_ok_def)
    have "unat ((uc_nextvictim uc + 1) mod uc_size uc) < unat (uc_size uc)"
      using size_pos [OF t] by (simp add: unat_mod_distrib)
    then have "table_ok uc'"
      using t es(1) by (simp add: table_ok_def uc'_def word_less_nat_alt)
    moreover have "ring_ok uc' hist'"
      using ring_push [OF r t nv, of "es[loc := v # es ! loc]"] by (simp add: uc'_def hist'_def)
    moreover have "chains_ok w' uc' hist'"
    proof -
      have "dw_nodes w' p \<noteq> None" if "p \<in> set hist'" for p
        using that c set_keep [of uc hist] by (auto simp: hist'_def w'_def set_data_def w1 chains_ok_def)
      moreover have "filter (\<lambda>p. chain_of uc (node w' p) = b) (keep uc hist) = filter (\<lambda>p. chain_of uc (node w p) = b) (keep uc hist)" for b
        using nodes(2) by (intro filter_cong) auto
      moreover have "uc_entries uc' = es[loc := v # es ! loc]" by (simp add: uc'_def)
      ultimately show ?thesis
        using es loc(2) by (simp add: chains_ok_def size hist'_def nodes(1) nth_list_update flip: loc_def)
    qed
    moreover have "buffers_ok w' su' hist'"
    proof -
      have bufs: "buffers w' su' hist' = nb # buffers w su (keep uc hist)"
        using nodes by (simp add: buffers_def hist'_def su'_def ent_def stored_node_def)
      have sub: "buffers w su (keep uc hist) = take (Suc (unat (uc_size uc) - 1)) (buffers w su hist)"
        by (simp add: buffers_def keep_def take_map)
      have "sorted_wrt (apart (unat (su_iosz su))) (buffers w' su' hist')"
        using v b unfolding bufs by (simp add: victim_ok_def buffers_ok_def sub sorted_wrt_take)
      moreover have "set (buffers w su (keep uc hist)) \<subseteq> set (buffers w su hist)"
        unfolding sub by (rule set_take_subset)
      moreover have "dw_blocks w' = dw_blocks w1" by (simp add: w'_def set_data_def)
      moreover have "su_iosz su' = su_iosz su" "rpc_buffer su' = nb" by (simp_all add: su'_def)
      moreover have "a \<noteq> 0 \<and> (a, unat (su_iosz su)) \<in> set (dw_blocks w1)"
        if "a = nb \<or> a \<in> set (buffers w su hist)" for a
        using that v b by (auto simp: victim_ok_def buffers_ok_def)
      moreover have "(p, sizeof_cache_node) \<in> set (dw_blocks w1) \<and> unat (cache_replylen (node w' p)) \<le> unat (su_iosz su)"
        if "p = v \<or> p \<in> set (keep uc hist)" for p
        using that v b len nodes set_keep [of uc hist]
        by (auto simp: victim_ok_def buffers_ok_def ent_def stored_node_def)
      moreover have "0 < su_iosz su" "su_iosz su < 2 ^ 32" "nb \<noteq> 0" using v b by (simp_all add: victim_ok_def buffers_ok_def)
      ultimately show ?thesis unfolding buffers_ok_def bufs by (auto simp: hist'_def)
    qed
    ultimately show ?thesis by (simp add: cache_ok_def su'_def)
  qed
  moreover have "uc_size uc' = uc_size uc" by (simp add: uc'_def)
  ultimately show thesis by (intro that [of w' uc' nb hist']) (simp_all add: su'_def ent_def)
qed

end
