(* ===== verification/Dg_Server.thy ===== *)
theory Dg_Server
  imports Dg_Cache Buf_Stream
begin

text \<open>
  The datagram transport with its cache as a client sees it: a call that comes again while its reply
  is cached is answered with the same bytes, and the service does not run for it.
\<close>

section \<open>States\<close>

text \<open>The network as the transport's socket has it, and the state of the service.\<close>

record 's net =
  in_q :: "(byte list \<times> byte list) list"
  out_q :: "(byte list \<times> byte list) list"
  app :: 's

text \<open>A socket whose queue is not empty gives the datagram in front, and sends what it is given.\<close>

definition net_ok :: "'s net dg_env \<Rightarrow> int \<Rightarrow> bool" where
  "net_ok N fd \<longleftrightarrow>
     (\<forall>n w d a ds. in_q w = (d, a) # ds \<longrightarrow>
        (\<exists>ctrunc ctl. dg_recvmsg N fd n w = (Recv_data d a ctrunc ctl, w\<lparr>in_q := ds\<rparr>))) \<and>
     (\<forall>d a ctl w. dg_sendmsg N fd d a ctl w = (int (length d), w\<lparr>out_q := out_q w @ [(d, a)]\<rparr>))"

definition dg_ready ::
    "xptr \<Rightarrow> int \<Rightarrow> nat \<Rightarrow> nat \<Rightarrow> svc_dg_data \<Rightarrow> cl_cache \<Rightarrow> cache_ptr list \<Rightarrow> ('d, 'o) dg_state \<Rightarrow> bool" where
  "dg_ready xprt fd sz n su uc hist st \<longleftrightarrow>
     map_option sx_fd (alive xprt st) = Some fd \<and> dw_data (svc_world st) xprt = Some su \<and>
     cache_ok (svc_world st) su uc hist \<and> unat (su_iosz su) = sz \<and> unat (uc_size uc) = n \<and>
     mem_stream (x_mem (su_xdrs su)) (rpc_buffer su) (ucast (su_iosz su)) (su_xdrs su)"

lemma unat_iosz:
  assumes "cache_ok w su uc hist"
  shows "unat (ucast (su_iosz su) :: 32 word) = unat (su_iosz su)"
proof -
  have "unat (su_iosz su) < 2 ^ 32"
    using assms by (simp add: cache_ok_def buffers_ok_def word_less_nat_alt)
  then show ?thesis by (simp add: unsigned_ucast_eq take_bit_nat_eq_self)
qed

text \<open>Nothing of the cache is in the transport's own buffer.\<close>

lemma contents_frame:
  assumes ok: "cache_ok w su uc hist" and nodes: "dw_nodes w' = dw_nodes w"
    and frame: "\<And>x. x < rpc_buffer su \<or> rpc_buffer su + unat (su_iosz su) \<le> x \<Longrightarrow> dw_mem w' x = dw_mem w x"
  shows "contents w' hist = contents w hist"
proof -
  have "node_reply w' (node w' p) = node_reply w (node w p)" if p: "p \<in> set hist" for p
  proof -
    let ?r = "cache_reply (node w p)" and ?n = "unat (cache_replylen (node w p))"
    have b: "buffers_ok w su hist" using ok by (simp add: cache_ok_def)
    then have "apart (unat (su_iosz su)) (rpc_buffer su) ?r" and "?n \<le> unat (su_iosz su)"
      using p by (auto simp: buffers_ok_def buffers_def)
    then have "rd (dw_mem w') ?r ?n = rd (dw_mem w) ?r ?n"
      by (intro rd_cong frame) (auto simp: apart_def)
    then show ?thesis by (simp add: node_reply_def node_def nodes)
  qed
  then show ?thesis by (simp add: contents_def node_def nodes)
qed

lemma cache_ok_cong:
  assumes ok: "cache_ok w su uc hist"
    and "dw_nodes w' = dw_nodes w" "dw_blocks w' = dw_blocks w"
    and "su_iosz su' = su_iosz su" "rpc_buffer su' = rpc_buffer su" "su_cache su' = Some uc'"
    and "uc_size uc' = uc_size uc" "uc_entries uc' = uc_entries uc" "uc_fifo uc' = uc_fifo uc"
      "uc_nextvictim uc' = uc_nextvictim uc"
  shows "cache_ok w' su' uc' hist"
proof -
  have "node w' = node w" by (simp add: fun_eq_iff node_def assms)
  moreover have "chain_of uc' = chain_of uc" by (simp add: fun_eq_iff chain_of_def assms)
  ultimately show ?thesis
    using ok by (simp add: cache_ok_def table_ok_def ring_ok_def chains_ok_def buffers_ok_def buffers_def assms)
qed

text \<open>\<open>recvmsg\<close> returns at once when it has a datagram.\<close>

lemma recv_again_data:
  assumes "net_ok N fd" and "in_q w = (d, a) # ds"
  obtains ctrunc ctl where "recv_again N fd n w = Some (Recv_data d a ctrunc ctl, w\<lparr>in_q := ds\<rparr>)"
proof -
  obtain ctrunc ctl where "dg_recvmsg N fd n w = (Recv_data d a ctrunc ctl, w\<lparr>in_q := ds\<rparr>)"
    using assms unfolding net_ok_def by blast
  then show thesis by (intro that [of ctrunc ctl]) (subst recv_again.simps, simp)
qed

lemma contents_cong:
  "dw_nodes w' = dw_nodes w \<Longrightarrow> dw_mem w' = dw_mem w \<Longrightarrow> contents w' hist = contents w hist"
  by (simp add: contents_def node_def node_reply_def)

lemma map_of_contents:
  "map_of (contents w hist) key = map_option (node_reply w) (find (\<lambda>ent. node_key ent = key) (map (node w) hist))"
  unfolding contents_def by (rule map_of_find)

section \<open>Receiving\<close>

definition msg_key :: "('s, 'v) trpc_msg \<Rightarrow> byte list \<Rightarrow> dg_key" where
  "msg_key msg addr = (trm_xid msg, tcb_proc (trm_call msg), tcb_vers (trm_call msg), tcb_prog (trm_call msg), addr)"

lemma msg_key_decoded [simp]: "msg_key (msg_decoded avail msg0 cm) addr = msg_key cm addr"
  by (simp add: msg_key_def msg_decoded_def)

text \<open>A call was received and not found: what \<open>cache_set\<close> is to use, and the arguments behind the call.\<close>

definition remembered :: "svc_dg_data \<Rightarrow> cl_cache \<Rightarrow> dg_key \<Rightarrow> bool" where
  "remembered su uc key \<longleftrightarrow> key = (su_xid su, uc_proc uc, uc_vers uc, uc_prog uc, dg_rtaddr su)"

definition args_pending :: "svc_dg_data \<Rightarrow> mem \<Rightarrow> byte list \<Rightarrow> bool" where
  "args_pending su m bs \<longleftrightarrow> x_mem (su_xdrs su) = m \<and> x_op (su_xdrs su) = XDR_DECODE \<and>
     (\<exists>rest. mem_rest (xst (su_xdrs su)) = bs @ rest)"

lemma tcallmsg_long: "4 * 4 \<le> length (tcallmsg_bytes msg)"
  by (simp add: tcallmsg_bytes_def tcallmsg_head_def)

lemma mem_decodes_call: "call_ok cm \<Longrightarrow> msg_room avail msg0 cm \<Longrightarrow>
    mem_decodes (xdr_callmsg avail) (tcallmsg_bytes cm) msg0 (msg_decoded avail msg0 cm)"
  by (simp add: mem_decodes_def ald.decodes_tcallmsg und.decodes_tcallmsg)

lemma dg_recv_call:
  assumes N: "net_ok N fd" and r: "dg_ready xprt fd sz n su uc hist st"
    and q: "in_q (dw_other (svc_world st)) = (tcallmsg_bytes cm @ bs, addr) # ds"
    and cm: "call_ok cm" "msg_room avail msg0 cm" and l: "length (tcallmsg_bytes cm @ bs) \<le> sz"
  obtains su' uc' st' where
    "svc_dg_recv avail N xprt msg0 st = Some (map_of (contents (svc_world st) hist) (msg_key cm addr) = None, msg_decoded avail msg0 cm, st')"
    and "dg_ready xprt fd sz n su' uc' hist st'" and "contents (svc_world st') hist = contents (svc_world st) hist"
    and "dw_other (svc_world st') = (dw_other (svc_world st))\<lparr>in_q := ds, out_q := out_q (dw_other (svc_world st)) @
      (case map_of (contents (svc_world st) hist) (msg_key cm addr) of None \<Rightarrow> [] | Some reply \<Rightarrow> [(reply, addr)])\<rparr>"
    and "map_of (contents (svc_world st) hist) (msg_key cm addr) = None \<Longrightarrow>
      remembered su' uc' (msg_key cm addr) \<and> args_pending su' (dw_mem (svc_world st')) bs"
proof -
  obtain xp where xp: "alive xprt st = Some xp" "sx_fd xp = fd" and su: "dw_data (svc_world st) xprt = Some su"
    and ok: "cache_ok (svc_world st) su uc hist" and sz: "unat (su_iosz su) = sz" and n: "unat (uc_size uc) = n"
    and ms: "mem_stream (x_mem (su_xdrs su)) (rpc_buffer su) (ucast (su_iosz su)) (su_xdrs su)"
    using r by (auto simp: dg_ready_def)
  let ?buf = "rpc_buffer su" and ?w = "svc_world st" and ?data = "tcallmsg_bytes cm @ bs" 
  define msg where "msg = msg_decoded avail msg0 cm"
  define m1 where "m1 = wr (dw_mem ?w) ?buf ?data"
  obtain ctrunc ctl where recv: "recv_again N fd sz (dw_other ?w) = Some (Recv_data ?data addr ctrunc ctl, (dw_other ?w)\<lparr>in_q := ds\<rparr>)"
    by (rule recv_again_data [OF N q])
  define ctl' where "ctl' = (case svc_dg_valid_pktinfo addr ctrunc ctl of None \<Rightarrow> [] | Some ctl \<Rightarrow> ctl)"
  have buf: "?buf \<noteq> 0" using ok by (simp add: cache_ok_def buffers_ok_def)
  have usz: "unat (ucast (su_iosz su) :: 32 word) = sz" using unat_iosz [OF ok] sz by simp
  have rewind: "XDR_SETPOS ((su_xdrs su)\<lparr>x_mem := m1, x_op := XDR_DECODE\<rparr>) 0 = Some (True, xdrmem_create m1 ?buf (ucast (su_iosz su)) XDR_DECODE)"
    using xdrmem_rewind [OF mem_stream_on [OF ms, of m1], of XDR_DECODE] by simp
  have "rd m1 ?buf sz = ?data @ rd m1 (?buf + length ?data) (sz - length ?data)"
  proof -
    have "rd m1 ?buf (length ?data + (sz - length ?data)) = ?data @ rd m1 (?buf + length ?data) (sz - length ?data)"
      unfolding rd_add by (simp only: m1_def rd_wr_same)
    then show ?thesis using l by simp
  qed
  then have rest: "mem_rest (xst (xdrmem_create m1 ?buf (ucast (su_iosz su)) XDR_DECODE))
      = tcallmsg_bytes cm @ bs @ rd m1 (?buf + length ?data) (sz - length ?data)"
    unfolding fresh_stream(2) usz by simp
  obtain x where x: "xdr_callmsg avail (xdrmem_create m1 ?buf (ucast (su_iosz su)) XDR_DECODE) msg0 = Some (True, x, msg)"
    "mem_stream m1 ?buf (ucast (su_iosz su)) x" "x_op x = XDR_DECODE"
    "mem_rest (xst x) = bs @ rd m1 (?buf + length ?data) (sz - length ?data)"
    by (rule decode_at [OF mem_decodes_call [OF cm] mem_stream_create [OF buf] fresh_stream(3) rest, folded msg_def])
  have msg: "trm_xid msg = trm_xid cm" by (simp add: msg_def msg_decoded_def)
  have frame: "x_mem x y = dw_mem ?w y" if "y < ?buf \<or> ?buf + unat (su_iosz su) \<le> y" for y
  proof -
    have "x_mem x y = m1 y" using mem_stream_frame [OF x(2)] that usz sz by simp
    also have "m1 y = dw_mem ?w y" unfolding m1_def by (rule wr_outside) (use that l sz in auto)
    finally show ?thesis .
  qed
  define raddr where "raddr = dg_raddr (xprt_set_raddr addr su)"
  have raddr: "xprt_set_raddr addr s = s\<lparr>dg_raddr := raddr\<rparr>" for s
    by (simp add: raddr_def xprt_set_raddr_def)
  have uc: "su_cache su = Some uc" using ok by (simp add: cache_ok_def)
  define su1 where "su1 = su\<lparr>dg_rtaddr := addr, su_control := ctl', dg_raddr := raddr, su_xdrs := x, su_xid := trm_xid cm\<rparr>"
  define w1 where "w1 = set_data xprt su1 (?w\<lparr>dw_other := (dw_other ?w)\<lparr>in_q := ds\<rparr>, dw_mem := x_mem x\<rparr>)"
  have su1: "su_iosz su1 = su_iosz su" "rpc_buffer su1 = ?buf" "su_cache su1 = Some uc" "su_xdrs su1 = x"
      "su_control su1 = ctl'" "call_key su1 (trm_call msg) = msg_key cm addr" "dg_rtaddr su1 = addr"
    by (simp_all add: su1_def uc call_key_def msg_key_def msg_def msg_decoded_def)
  have w1: "dw_nodes w1 = dw_nodes ?w" "dw_blocks w1 = dw_blocks ?w" "dw_mem w1 = x_mem x" "dw_data w1 xprt = Some su1"
    by (simp_all add: w1_def set_data_def)
  have ok1: "cache_ok w1 su1 uc hist"
    by (rule cache_ok_cong [OF ok]) (simp_all add: w1 su1)
  have same: "contents w1 hist = contents ?w hist"
    by (rule contents_frame [OF ok]) (simp_all add: w1 frame)
  have run: "svc_dg_recv avail N xprt msg0 st = do {
      (r, w) \<leftarrow> cache_get xprt msg w1;
      case r of
        Some (reply, replylen) \<Rightarrow>
          let (_, o') = dg_sendmsg N fd (rd (dw_mem w) reply (unat replylen)) addr ctl' (dw_other w)
          in Some (False, msg, st\<lparr>svc_world := w\<lparr>dw_other := o'\<rparr>\<rparr>)
      | None \<Rightarrow> Some (True, msg, st\<lparr>svc_world := w\<rparr>) }"
  proof -
    have take_data: "take sz ?data = ?data" using l by simp
    have "\<not> length ?data < 4 * 4" using tcallmsg_long [of cm] by simp
    then show ?thesis
      using take_data
      by (simp add: svc_dg_recv_def xp su sz recv dw_upd_def ctl'_def [symmetric] raddr m1_def [symmetric] msg uc
          rewind x(1) set_data_def w1_def su1_def Let_def cong: option.case_cong)
  qed
  let ?key = "msg_key cm addr"
  define hit where "hit = find (\<lambda>ent. node_key ent = ?key) (map (node w1) hist)"
  note get = cache_get_contents [OF w1(4) ok1, of msg, unfolded su1(6), folded hit_def]
  have found: "map_of (contents ?w hist) ?key = map_option (node_reply w1) hit"
    by (simp only: same [symmetric] map_of_contents hit_def)
  have stream: "mem_stream (x_mem x) ?buf (ucast (su_iosz su)) x" by (rule mem_stream_self [OF x(2)])
  show thesis
  proof (cases hit)
    case None
    define uc2 where "uc2 = uc\<lparr>uc_proc := tcb_proc (trm_call msg), uc_vers := tcb_vers (trm_call msg), uc_prog := tcb_prog (trm_call msg)\<rparr>"
    define su2 where "su2 = su1\<lparr>su_cache := Some uc2\<rparr>"
    define st2 where "st2 = st\<lparr>svc_world := set_data xprt su2 w1\<rparr>"
    have su2: "su_iosz su2 = su_iosz su" "rpc_buffer su2 = ?buf" "su_cache su2 = Some uc2" "su_xdrs su2 = x"
      by (simp_all add: su2_def su1)
    have w2: "dw_nodes (svc_world st2) = dw_nodes ?w" "dw_blocks (svc_world st2) = dw_blocks ?w" "dw_mem (svc_world st2) = x_mem x"
      "dw_data (svc_world st2) xprt = Some su2" "dw_other (svc_world st2) = (dw_other ?w)\<lparr>in_q := ds\<rparr>" "alive xprt st2 = Some xp"
      by (simp_all add: st2_def set_data_def w1_def alive_def [of xprt] xp(1) [unfolded alive_def])
    have "cache_ok (svc_world st2) su2 uc2 hist"
      by (rule cache_ok_cong [OF ok]) (simp_all add: w2 su2 uc2_def)
    then have "dg_ready xprt fd sz n su2 uc2 hist st2"
      using stream by (simp add: dg_ready_def w2 su2 xp(2) sz n uc2_def)
    moreover have "svc_dg_recv avail N xprt msg0 st = Some (map_of (contents ?w hist) ?key = None, msg, st2)"
      by (simp add: run get None found st2_def su2_def uc2_def)
    moreover have "contents (svc_world st2) hist = contents ?w hist"
      using same contents_cong [of "svc_world st2" w1 hist] by (simp add: w2 w1)
    moreover have "remembered su2 uc2 ?key \<and> args_pending su2 (dw_mem (svc_world st2)) bs"
      using x(3,4) by (simp add: remembered_def args_pending_def w2 su2_def su1_def uc2_def msg_key_def msg_def msg_decoded_def)
    ultimately show thesis
      using None w2(5) by (intro that [of st2 su2 uc2]) (simp_all add: found msg_def)
  next
    case (Some ent)
    define o2 where "o2 = (dw_other ?w)\<lparr>in_q := ds, out_q := out_q (dw_other ?w) @ [(node_reply w1 ent, addr)]\<rparr>"
    define st2 where "st2 = st\<lparr>svc_world := w1\<lparr>dw_other := o2\<rparr>\<rparr>"
    have send: "dg_sendmsg N fd d addr ctl' w = (int (length d), w\<lparr>out_q := out_q w @ [(d, addr)]\<rparr>)" for d w
      using N by (simp add: net_ok_def)
    have o1: "dw_other w1 = (dw_other ?w)\<lparr>in_q := ds\<rparr>" by (simp add: w1_def set_data_def)
    have w2: "dw_nodes (svc_world st2) = dw_nodes ?w" "dw_blocks (svc_world st2) = dw_blocks ?w" "dw_mem (svc_world st2) = x_mem x"
      "dw_data (svc_world st2) xprt = Some su1" "dw_other (svc_world st2) = o2" "alive xprt st2 = Some xp"
      by (simp_all add: st2_def w1 alive_def [of xprt] xp(1) [unfolded alive_def])
    have "cache_ok (svc_world st2) su1 uc hist"
      by (rule cache_ok_cong [OF ok]) (simp_all add: w2 su1)
    then have "dg_ready xprt fd sz n su1 uc hist st2"
      using stream by (simp add: dg_ready_def w2 su1 xp(2) sz n)
    moreover have "svc_dg_recv avail N xprt msg0 st = Some (map_of (contents ?w hist) ?key = None, msg, st2)"
      by (simp add: run get Some found st2_def send o2_def o1 node_reply_def)
    moreover have "contents (svc_world st2) hist = contents ?w hist"
      using same contents_cong [of "svc_world st2" w1 hist] by (simp add: w2 w1)
    ultimately show thesis
      using Some by (intro that [of st2 su1 uc]) (simp_all add: found msg_def w2(5) o2_def)
  qed
qed

lemma dg_getargs:
  assumes r: "dg_ready xprt fd sz n su uc hist st" and p: "args_pending su (dw_mem (svc_world st)) bs"
    and F: "mem_decodes F bs v0 v"
  obtains su' st' where "svc_dg_getargs xprt F v0 st = Some (True, v, st')" and "dg_ready xprt fd sz n su' uc hist st'"
    and "contents (svc_world st') hist = contents (svc_world st) hist" and "dw_other (svc_world st') = dw_other (svc_world st)"
    and "remembered su' uc key = remembered su uc key"
proof -
  let ?w = "svc_world st" and ?buf = "rpc_buffer su"
  obtain xp where xp: "alive xprt st = Some xp" "sx_fd xp = fd" and su: "dw_data ?w xprt = Some su"
    and ok: "cache_ok ?w su uc hist" and sz: "unat (su_iosz su) = sz" and n: "unat (uc_size uc) = n"
    and ms: "mem_stream (x_mem (su_xdrs su)) ?buf (ucast (su_iosz su)) (su_xdrs su)"
    using r by (auto simp: dg_ready_def)
  obtain rest where xs: "x_mem (su_xdrs su) = dw_mem ?w" "x_op (su_xdrs su) = XDR_DECODE" "mem_rest (xst (su_xdrs su)) = bs @ rest"
    using p by (auto simp: args_pending_def)
  obtain x where x: "F (su_xdrs su) v0 = Some (True, x, v)" "mem_stream (x_mem (su_xdrs su)) ?buf (ucast (su_iosz su)) x"
    by (rule decode_at [OF F ms xs(2,3)])
  define su' where "su' = su\<lparr>su_xdrs := x\<rparr>"
  define st' where "st' = dw_upd (\<lambda>w. set_data xprt su' (w\<lparr>dw_mem := x_mem x\<rparr>)) st"
  have w': "dw_nodes (svc_world st') = dw_nodes ?w" "dw_blocks (svc_world st') = dw_blocks ?w" "dw_mem (svc_world st') = x_mem x"
    "dw_data (svc_world st') xprt = Some su'" "dw_other (svc_world st') = dw_other ?w" "alive xprt st' = Some xp"
    by (simp_all add: st'_def dw_upd_def set_data_def alive_def [of xprt] xp(1) [unfolded alive_def])
  have su': "su_iosz su' = su_iosz su" "rpc_buffer su' = ?buf" "su_cache su' = Some uc" "su_xdrs su' = x"
    using ok by (simp_all add: su'_def cache_ok_def)
  have "x_mem x y = dw_mem ?w y" if "y < ?buf \<or> ?buf + unat (su_iosz su) \<le> y" for y
    using mem_stream_frame [OF x(2)] that unat_iosz [OF ok] xs(1) by simp
  then have "contents (svc_world st') hist = contents ?w hist"
    by (intro contents_frame [OF ok]) (simp_all add: w')
  moreover have "cache_ok (svc_world st') su' uc hist"
    by (rule cache_ok_cong [OF ok]) (simp_all add: w' su')
  then have "dg_ready xprt fd sz n su' uc hist st'"
    using mem_stream_self [OF x(2)] by (simp add: dg_ready_def w' su' xp(2) sz n)
  moreover have "(su_xdrs su)\<lparr>x_mem := dw_mem ?w\<rparr> = su_xdrs su" using xs(1) by (simp flip: xs(1))
  then have "svc_dg_getargs xprt F v0 st = Some (True, v, st')"
    using x(1) by (simp add: svc_dg_getargs_def dg_run_def svcauth_none_wrap_def su st'_def su'_def)
  moreover have "remembered su' uc key = remembered su uc key" by (simp add: remembered_def su'_def)
  ultimately show thesis using w'(5) by (intro that [of st' su']) simp_all
qed

section \<open>Replying\<close>

text \<open>The reply as it is sent: under the transaction id of the call.\<close>

definition sent_bytes :: "(memstrm, 'v) trpc_msg \<Rightarrow> 32 word \<Rightarrow> byte list \<Rightarrow> byte list" where
  "sent_bytes reply xid bs = treply_bytes (reply\<lparr>trm_xid := xid\<rparr>) bs"

definition reply_ok :: "(memstrm, 'v) trpc_msg \<Rightarrow> byte list \<Rightarrow> bool" where
  "reply_ok reply bs \<longleftrightarrow> treply_ok reply \<and> (accepted_succeeded reply \<longrightarrow>
     (\<exists>proc. tar_proc (trp_acpt (trm_reply reply)) = Some proc \<and>
        mem_encodes proc (tar_where (trp_acpt (trm_reply reply))) bs (tar_where (trp_acpt (trm_reply reply)))))"

lemma mem_encodes_reply:
  assumes ok: "treply_ok msg"
    and res: "accepted_succeeded msg \<Longrightarrow> \<exists>proc. tar_proc (trp_acpt (trm_reply msg)) = Some proc \<and>
      mem_encodes proc (tar_where (trp_acpt (trm_reply msg))) bs (tar_where (trp_acpt (trm_reply msg)))"
  shows "mem_encodes (xdr_replymsg avail) msg (treply_bytes msg bs) msg"
  unfolding mem_encodes_def
proof (intro allI conjI)
  fix m b n
  show "al.encodes m b n (xdr_replymsg avail) msg (treply_bytes msg bs) msg"
    by (rule al.encodes_treplymsg [OF ok]) (use res in \<open>auto dest: mem_encodesD\<close>)
  show "un.encodes m b n (xdr_replymsg avail) msg (treply_bytes msg bs) msg"
    by (rule un.encodes_treplymsg [OF ok]) (use res in \<open>auto dest: mem_encodesD\<close>)
qed

lemma mem_encodes_void: "mem_encodes xdr_void v [] v"
  by (simp add: mem_encodes_def al.encodes_def un.encodes_def xdr_void_def)

definition void_results :: "(memstrm, 'v) trpc_msg \<Rightarrow> (memstrm, 'v) trpc_msg" where
  "void_results msg = (if accepted_succeeded msg
     then msg\<lparr>trm_reply := (trm_reply msg)\<lparr>trp_acpt := (trp_acpt (trm_reply msg))\<lparr>tar_proc := Some xdr_void\<rparr>\<rparr>\<rparr> else msg)"

lemma encodes_void_results:
  assumes "treply_ok msg"
  shows "mem_encodes (xdr_replymsg avail) ((void_results msg)\<lparr>trm_xid := xid\<rparr>) (treply_bytes (msg\<lparr>trm_xid := xid\<rparr>) [])
    ((void_results msg)\<lparr>trm_xid := xid\<rparr>)"
proof -
  let ?m = "(void_results msg)\<lparr>trm_xid := xid\<rparr>"
  have "treply_ok ?m" using assms by (auto simp: treply_ok_def void_results_def split: if_splits)
  moreover have "accepted_succeeded ?m \<Longrightarrow> tar_proc (trp_acpt (trm_reply ?m)) = Some xdr_void"
    by (simp add: accepted_succeeded_def void_results_def split: if_splits)
  ultimately have "mem_encodes (xdr_replymsg avail) ?m (treply_bytes ?m []) ?m"
    by (intro mem_encodes_reply) (auto intro: mem_encodes_void)
  moreover have "treply_bytes ?m [] = treply_bytes (msg\<lparr>trm_xid := xid\<rparr>) []"
    by (simp add: treply_bytes_def void_results_def accepted_bytes_def)
  ultimately show ?thesis by simp
qed

lemma sent_bytes_results:
  "sent_bytes msg xid bs = treply_bytes (msg\<lparr>trm_xid := xid\<rparr>) [] @ (if accepted_succeeded msg then bs else [])"
  by (auto simp: sent_bytes_def treply_bytes_def accepted_bytes_def accepted_succeeded_def)

lemma dg_reply:
  assumes N: "net_ok N fd" "good_alloc N" and r: "dg_ready xprt fd sz n su uc hist st"
    and key: "remembered su uc (xid, p, v, g, addr)" and rep: "reply_ok reply bs" and l: "length (sent_bytes reply xid bs) \<le> sz"
  obtains su' uc' hist' st' where "svc_dg_reply avail N xprt reply st = Some (True, st')"
    and "dg_ready xprt fd sz n su' uc' hist' st'"
    and "contents (svc_world st') hist' = ((xid, p, v, g, addr), sent_bytes reply xid bs) # take (n - 1) (contents (svc_world st) hist)"
    and "dw_other (svc_world st') = (dw_other (svc_world st))\<lparr>out_q := out_q (dw_other (svc_world st)) @ [(sent_bytes reply xid bs, addr)]\<rparr>"
proof -
  let ?w = "svc_world st" and ?buf = "rpc_buffer su" and ?ar = "trp_acpt (trm_reply reply)" and ?bytes = "sent_bytes reply xid bs"
  obtain xp where xp: "alive xprt st = Some xp" "sx_fd xp = fd" and su: "dw_data ?w xprt = Some su"
    and ok: "cache_ok ?w su uc hist" and sz: "unat (su_iosz su) = sz" and n: "unat (uc_size uc) = n"
    and ms: "mem_stream (x_mem (su_xdrs su)) ?buf (ucast (su_iosz su)) (su_xdrs su)"
    using r by (auto simp: dg_ready_def)
  have buf: "?buf \<noteq> 0" and uc: "su_cache su = Some uc" using ok by (simp_all add: cache_ok_def buffers_ok_def)
  have usz: "unat (ucast (su_iosz su) :: 32 word) = sz" using unat_iosz [OF ok] sz by simp
  have k: "su_xid su = xid" "uc_proc uc = p" "uc_vers uc = v" "uc_prog uc = g" "dg_rtaddr su = addr"
    using key by (auto simp: remembered_def)
  let ?x0 = "xdrmem_create (dw_mem ?w) ?buf (ucast (su_iosz su)) XDR_ENCODE"
  have rewind: "XDR_SETPOS ((su_xdrs su)\<lparr>x_mem := dw_mem ?w, x_op := XDR_ENCODE\<rparr>) 0 = Some (True, ?x0)"
    using xdrmem_rewind [OF mem_stream_on [OF ms, of "dw_mem ?w"], of XDR_ENCODE] by simp
  define head where "head = treply_bytes (reply\<lparr>trm_xid := xid\<rparr>) []"
  have bytes: "?bytes = head @ (if accepted_succeeded reply then bs else [])"
    unfolding head_def by (rule sent_bytes_results)
  have l0: "length (mem_out (xst ?x0)) + length head \<le> unat (ucast (su_iosz su) :: 32 word)"
    using l unfolding usz by (simp add: fresh_stream bytes)
  have ok_reply: "treply_ok reply" using rep by (simp add: reply_ok_def)
  obtain x1 where x1: "xdr_replymsg avail ?x0 ((void_results reply)\<lparr>trm_xid := xid\<rparr>) = Some (True, x1, (void_results reply)\<lparr>trm_xid := xid\<rparr>)"
    "mem_stream (dw_mem ?w) ?buf (ucast (su_iosz su)) x1" "x_op x1 = XDR_ENCODE" "mem_out (xst x1) = head"
    by (rule encode_at [OF encodes_void_results [OF ok_reply, of avail xid, folded head_def] mem_stream_create [OF buf] fresh_stream(3) l0])
      (rule that, simp_all add: fresh_stream)
  obtain x2 where x2: "(if \<not> accepted_succeeded reply then Some (True, x1)
       else do { xdr_results \<leftarrow> tar_proc ?ar; (ok, xdrs, _) \<leftarrow> svcauth_none_wrap xdr_results x1 (tar_where ?ar); Some (ok, xdrs) })
      = Some (True, x2)"
    "mem_stream (dw_mem ?w) ?buf (ucast (su_iosz su)) x2" "mem_out (xst x2) = ?bytes"
  proof (cases "accepted_succeeded reply")
    case False
    with x1 show thesis by (intro that [of x1]) (simp_all add: bytes)
  next
    case True
    then obtain proc where proc: "tar_proc ?ar = Some proc" "mem_encodes proc (tar_where ?ar) bs (tar_where ?ar)"
      using rep by (auto simp: reply_ok_def)
    have l1: "length (mem_out (xst x1)) + length bs \<le> unat (ucast (su_iosz su) :: 32 word)"
      using l True unfolding usz by (simp add: x1(4) bytes)
    obtain y where y: "proc x1 (tar_where ?ar) = Some (True, y, tar_where ?ar)"
      "mem_stream (dw_mem ?w) ?buf (ucast (su_iosz su)) y" "mem_out (xst y) = mem_out (xst x1) @ bs"
      by (rule encode_at [OF proc(2) x1(2,3) l1])
    then show thesis using True proc(1) by (intro that [of y]) (simp_all add: svcauth_none_wrap_def bytes x1(4))
  qed
  define su1 where "su1 = su\<lparr>su_xdrs := x2\<rparr>"
  define w1 where "w1 = (set_data xprt su1 (?w\<lparr>dw_mem := x_mem x2\<rparr>))\<lparr>dw_other := (dw_other ?w)\<lparr>out_q := out_q (dw_other ?w) @ [(?bytes, addr)]\<rparr>\<rparr>"
  have su1: "su_iosz su1 = su_iosz su" "rpc_buffer su1 = ?buf" "su_cache su1 = Some uc" "dg_rtaddr su1 = addr" "su_xid su1 = xid"
    by (simp_all add: su1_def uc k)
  have w1: "dw_nodes w1 = dw_nodes ?w" "dw_blocks w1 = dw_blocks ?w" "dw_mem w1 = x_mem x2" "dw_data w1 xprt = Some su1"
    by (simp_all add: w1_def set_data_def)
  have ok1: "cache_ok w1 su1 uc hist" by (rule cache_ok_cong [OF ok]) (simp_all add: w1 su1)
  have "x_mem x2 y = dw_mem ?w y" if "y < ?buf \<or> ?buf + unat (su_iosz su) \<le> y" for y
    using mem_stream_frame [OF x2(2)] that usz sz by simp
  then have same: "contents w1 hist = contents ?w hist" by (intro contents_frame [OF ok]) (simp_all add: w1)
  define slen where "slen = (of_nat (length ?bytes) :: 32 word)"
  have pos: "XDR_GETPOS x2 = Some slen" using mem_stream_pos(1) [OF x2(2)] by (simp add: x2(3) slen_def)
  have "length ?bytes < 2 ^ 32"
  proof -
    have "unat (ucast (su_iosz su) :: 32 word) < 2 ^ LENGTH(32)" by (rule unsigned_less)
    with l usz show ?thesis by simp
  qed
  then have slen: "unat slen = length ?bytes" "unat (ucast slen :: 64 word) = length ?bytes"
    by (simp_all add: slen_def unat_of_nat take_bit_nat_eq_self unsigned_ucast_eq)
  have out: "rd (x_mem x2) ?buf (length ?bytes) = ?bytes" using mem_out_rd [OF x2(2)] by (simp add: x2(3))
  have len: "unat (ucast slen :: 64 word) \<le> unat (su_iosz su1)" using l sz by (simp add: slen(2) su1)
  obtain w2 nb uc2 hist2 where w2: "cache_set N xprt (ucast slen) w1 = Some w2"
    "dw_data w2 = (dw_data w1)(xprt \<mapsto> su1\<lparr>rpc_buffer := nb,
      su_xdrs := xdrmem_create (dw_mem w1) nb (ucast (su_iosz su1)) XDR_ENCODE, su_cache := Some uc2\<rparr>)"
    "cache_ok w2 (su1\<lparr>rpc_buffer := nb,
      su_xdrs := xdrmem_create (dw_mem w1) nb (ucast (su_iosz su1)) XDR_ENCODE, su_cache := Some uc2\<rparr>) uc2 hist2"
    "uc_size uc2 = uc_size uc" "dw_mem w2 = dw_mem w1" "dw_other w2 = dw_other w1"
    "contents w2 hist2 = (node_key (stored_node su1 uc (ucast slen)), node_reply w1 (stored_node su1 uc (ucast slen)))
      # take (unat (uc_size uc) - 1) (contents w1 hist)"
    by (rule cache_set_contents [OF w1(4) ok1 N(2) len])
  have send: "dg_sendmsg N fd d a c w = (int (length d), w\<lparr>out_q := out_q w @ [(d, a)]\<rparr>)" for d a c w
    using N(1) by (simp add: net_ok_def)
  have "svc_dg_reply avail N xprt reply st = do {
      (_, xdrs) \<leftarrow> XDR_SETPOS ((su_xdrs su)\<lparr>x_mem := dw_mem ?w, x_op := XDR_ENCODE\<rparr>) 0;
      (ok, xdrs, _) \<leftarrow> xdr_replymsg avail xdrs ((void_results reply)\<lparr>trm_xid := xid\<rparr>);
      (ok, xdrs) \<leftarrow> (if \<not> ok \<or> \<not> accepted_succeeded reply then Some (ok, xdrs)
        else do { xdr_results \<leftarrow> tar_proc ?ar; (ok, xdrs, _) \<leftarrow> svcauth_none_wrap xdr_results xdrs (tar_where ?ar); Some (ok, xdrs) });
      let st = dw_upd (\<lambda>w. set_data xprt (su\<lparr>su_xdrs := xdrs\<rparr>) (w\<lparr>dw_mem := x_mem xdrs\<rparr>)) st;
      if \<not> ok then Some (False, st)
      else do {
        slen \<leftarrow> XDR_GETPOS xdrs;
        let (n, o') = dg_sendmsg N fd (rd (dw_mem (svc_world st)) ?buf (unat slen)) addr (su_control su) (dw_other (svc_world st));
        let st = dw_upd (\<lambda>w. w\<lparr>dw_other := o'\<rparr>) st;
        if n \<noteq> int (unat slen) then Some (False, st)
        else do { w \<leftarrow> cache_set N xprt (ucast slen) (svc_world st); Some (True, st\<lparr>svc_world := w\<rparr>) } } }"
    unfolding svc_dg_reply_def void_results_def accepted_succeeded_def
    by (simp only: xp su k uc Let_def Option.bind.simps option.distinct if_False)
  also have "\<dots> = Some (True, st\<lparr>svc_world := w2\<rparr>)"
    using x2(1) by (simp add: rewind x1(1) pos dw_upd_def set_data_def slen out send Let_def w2(1) [unfolded w1_def set_data_def su1_def, simplified] cong: if_cong)
  finally have run: "svc_dg_reply avail N xprt reply st = Some (True, st\<lparr>svc_world := w2\<rparr>)" .
  define su2 where "su2 = su1\<lparr>rpc_buffer := nb, su_xdrs := xdrmem_create (dw_mem w1) nb (ucast (su_iosz su1)) XDR_ENCODE,
    su_cache := Some uc2\<rparr>"
  have su2: "su_iosz su2 = su_iosz su" "rpc_buffer su2 = nb" "su_xdrs su2 = xdrmem_create (dw_mem w1) nb (ucast (su_iosz su)) XDR_ENCODE"
    by (simp_all add: su2_def su1)
  have ok2: "cache_ok w2 su2 uc2 hist2" using w2(3) by (simp only: su2_def)
  have "nb \<noteq> 0" using ok2 su2(2) by (simp add: cache_ok_def buffers_ok_def)
  then have "mem_stream (x_mem (su_xdrs su2)) nb (ucast (su_iosz su)) (su_xdrs su2)"
    unfolding su2(3) by (intro mem_stream_self [OF mem_stream_create])
  moreover have "dw_data w2 xprt = Some su2" by (simp add: w2(2) su2_def)
  moreover have "alive xprt (st\<lparr>svc_world := w2\<rparr>) = Some xp" using xp(1) by (simp add: alive_def)
  ultimately have "dg_ready xprt fd sz n su2 uc2 hist2 (st\<lparr>svc_world := w2\<rparr>)"
    using ok2 by (simp add: dg_ready_def xp(2) su2(1,2) sz n w2(4))
  moreover have "contents w2 hist2 = ((xid, p, v, g, addr), ?bytes) # take (n - 1) (contents ?w hist)"
    using w2(7) by (simp add: node_key_def node_reply_def stored_node_def su1 k w1 slen out same n)
  moreover have "dw_other w2 = (dw_other ?w)\<lparr>out_q := out_q (dw_other ?w) @ [(?bytes, addr)]\<rparr>"
    by (simp add: w2(6) w1_def)
  ultimately show thesis using run by (intro that [of "st\<lparr>svc_world := w2\<rparr>"]) simp_all
qed

section \<open>Rounds\<close>

text \<open>
  One round of a server: a datagram is received; if it is a new call its arguments are decoded, the
  service \<open>f\<close> runs on them and its state, and its reply is sent.
\<close>

definition dg_round ::
    "(nat \<Rightarrow> bool) \<Rightarrow> 's net dg_env \<Rightarrow> xptr \<Rightarrow> (memstrm, 'a) xdrproc_t \<Rightarrow>
     ((memstrm, 'v) trpc_msg \<Rightarrow> 'a \<Rightarrow> 's \<Rightarrow> (memstrm, 'v) trpc_msg \<times> 's) \<Rightarrow> (memstrm, 'v) trpc_msg \<Rightarrow> 'a \<Rightarrow>
     ('d, 's net) dg_state \<Rightarrow> ('d, 's net) dg_state option" where
  "dg_round avail N xprt xdr_args f msg0 args0 st = do {
     (ok, msg, st) \<leftarrow> svc_dg_recv avail N xprt msg0 st;
     if \<not> ok then Some st
     else do {
       (_, args, st) \<leftarrow> svc_dg_getargs xprt xdr_args args0 st;
       let (reply, s) = f msg args (app (dw_other (svc_world st)));
       (_, st) \<leftarrow> svc_dg_reply avail N xprt reply (dw_upd (\<lambda>w. w\<lparr>dw_other := (dw_other w)\<lparr>app := s\<rparr>\<rparr>) st);
       Some st } }"

text \<open>
  What it implements: a list of the last \<open>n\<close> replies by key; a request whose key is in it gets the
  reply that is there, any other is served.
\<close>

definition dedup_step :: "nat \<Rightarrow> ('q \<Rightarrow> 's \<Rightarrow> 'r \<times> 's) \<Rightarrow> 'k \<Rightarrow> 'q \<Rightarrow> ('k \<times> 'r) list \<times> 's \<Rightarrow> 'r \<times> ('k \<times> 'r) list \<times> 's" where
  "dedup_step n serve k q cs = (case map_of (fst cs) k of
     Some r \<Rightarrow> (r, cs)
   | None \<Rightarrow> let (r, s) = serve q (snd cs) in (r, (k, r) # take (n - 1) (fst cs), s))"

fun dedup_run :: "nat \<Rightarrow> ('q \<Rightarrow> 's \<Rightarrow> 'r \<times> 's) \<Rightarrow> ('k \<times> 'q) list \<Rightarrow> ('k \<times> 'r) list \<times> 's \<Rightarrow> 'r list \<times> ('k \<times> 'r) list \<times> 's" where
  "dedup_run n serve [] cs = ([], cs)"
| "dedup_run n serve ((k, q) # qs) cs =
     (let (r, cs) = dedup_step n serve k q cs; (rs, cs) = dedup_run n serve qs cs in (r # rs, cs))"

text \<open>A request as it is sent: a call, the bytes and the value of its arguments, the client's address.\<close>

record ('v, 'a) dg_request =
  q_call :: "(memstrm, 'v) trpc_msg"
  q_bytes :: "byte list"
  q_args :: 'a
  q_addr :: "byte list"

definition q_key :: "('v, 'a) dg_request \<Rightarrow> dg_key" where
  "q_key q = msg_key (q_call q) (q_addr q)"

definition request_ok ::
    "(nat \<Rightarrow> bool) \<Rightarrow> nat \<Rightarrow> (memstrm, 'v) trpc_msg \<Rightarrow> (memstrm, 'a) xdrproc_t \<Rightarrow> 'a \<Rightarrow> ('v, 'a) dg_request \<Rightarrow> bool" where
  "request_ok avail sz msg0 xdr_args args0 q \<longleftrightarrow> call_ok (q_call q) \<and> msg_room avail msg0 (q_call q) \<and>
     length (tcallmsg_bytes (q_call q) @ q_bytes q) \<le> sz \<and> mem_decodes xdr_args (q_bytes q) args0 (q_args q)"

definition datagram :: "('v, 'a) dg_request \<Rightarrow> byte list \<times> byte list" where
  "datagram q = (tcallmsg_bytes (q_call q) @ q_bytes q, q_addr q)"

text \<open>The service as \<open>dedup_run\<close> has it: \<open>res\<close> are the bytes of the results of a reply.\<close>

definition serve ::
    "(nat \<Rightarrow> bool) \<Rightarrow> (memstrm, 'v) trpc_msg \<Rightarrow> ((memstrm, 'v) trpc_msg \<Rightarrow> 'a \<Rightarrow> 's \<Rightarrow> (memstrm, 'v) trpc_msg \<times> 's) \<Rightarrow>
     ((memstrm, 'v) trpc_msg \<Rightarrow> byte list) \<Rightarrow> ('v, 'a) dg_request \<Rightarrow> 's \<Rightarrow> byte list \<times> 's" where
  "serve avail msg0 f res q s = (let (reply, s) = f (msg_decoded avail msg0 (q_call q)) (q_args q) s
     in (sent_bytes reply (trm_xid (q_call q)) (res reply), s))"

definition service_ok ::
    "nat \<Rightarrow> ((memstrm, 'v) trpc_msg \<Rightarrow> 'a \<Rightarrow> 's \<Rightarrow> (memstrm, 'v) trpc_msg \<times> 's) \<Rightarrow> ((memstrm, 'v) trpc_msg \<Rightarrow> byte list) \<Rightarrow> bool" where
  "service_ok sz f res \<longleftrightarrow> (\<forall>msg args s xid. reply_ok (fst (f msg args s)) (res (fst (f msg args s))) \<and>
     length (sent_bytes (fst (f msg args s)) xid (res (fst (f msg args s)))) \<le> sz)"

definition dg_holds ::
    "xptr \<Rightarrow> int \<Rightarrow> nat \<Rightarrow> nat \<Rightarrow> ('d, 's net) dg_state \<Rightarrow> (dg_key \<times> byte list) list \<times> 's \<Rightarrow> bool" where
  "dg_holds xprt fd sz n st cs \<longleftrightarrow> (\<exists>su uc hist. dg_ready xprt fd sz n su uc hist st \<and>
     contents (svc_world st) hist = fst cs) \<and> app (dw_other (svc_world st)) = snd cs"

lemma dg_ready_other:
  "dg_ready xprt fd sz n su uc hist (dw_upd (\<lambda>w. w\<lparr>dw_other := o'\<rparr>) st) = dg_ready xprt fd sz n su uc hist st"
proof -
  have "cache_ok (w\<lparr>dw_other := o'\<rparr>) su uc hist = cache_ok w su uc hist" for w
    by (simp add: cache_ok_def chains_ok_def buffers_ok_def buffers_def node_def)
  then show ?thesis by (simp add: dg_ready_def dw_upd_def alive_def)
qed

lemma dg_round_step:
  assumes N: "net_ok N fd" "good_alloc N" and h: "dg_holds xprt fd sz n st cs"
    and q: "in_q (dw_other (svc_world st)) = datagram q # ds" and ok: "request_ok avail sz msg0 F args0 q"
    and f: "service_ok sz f res"
  obtains st' where "dg_round avail N xprt F f msg0 args0 st = Some st'"
    and "dg_holds xprt fd sz n st' (snd (dedup_step n (serve avail msg0 f res) (q_key q) q cs))"
    and "in_q (dw_other (svc_world st')) = ds"
    and "out_q (dw_other (svc_world st')) = out_q (dw_other (svc_world st))
      @ [(fst (dedup_step n (serve avail msg0 f res) (q_key q) q cs), q_addr q)]"
proof -
  let ?cm = "q_call q" and ?c = "fst cs"
  obtain su uc hist where r: "dg_ready xprt fd sz n su uc hist st" and c: "contents (svc_world st) hist = ?c"
    and s: "app (dw_other (svc_world st)) = snd cs"
    using h by (auto simp: dg_holds_def)
  have cm: "call_ok ?cm" "msg_room avail msg0 ?cm" and l: "length (tcallmsg_bytes ?cm @ q_bytes q) \<le> sz"
    and F: "mem_decodes F (q_bytes q) args0 (q_args q)"
    using ok by (simp_all add: request_ok_def)
  have q': "in_q (dw_other (svc_world st)) = (tcallmsg_bytes ?cm @ q_bytes q, q_addr q) # ds"
    using q by (simp add: datagram_def)
  obtain su1 uc1 st1 where st1: "svc_dg_recv avail N xprt msg0 st = Some (map_of ?c (q_key q) = None, msg_decoded avail msg0 ?cm, st1)"
    "dg_ready xprt fd sz n su1 uc1 hist st1" "contents (svc_world st1) hist = ?c"
    "dw_other (svc_world st1) = (dw_other (svc_world st))\<lparr>in_q := ds, out_q := out_q (dw_other (svc_world st)) @
      (case map_of ?c (q_key q) of None \<Rightarrow> [] | Some reply \<Rightarrow> [(reply, q_addr q)])\<rparr>"
    "map_of ?c (q_key q) = None \<Longrightarrow> remembered su1 uc1 (q_key q) \<and> args_pending su1 (dw_mem (svc_world st1)) (q_bytes q)"
    by (rule dg_recv_call [OF N(1) r q' cm l, unfolded c, folded q_key_def]) (rule that)
  show thesis
  proof (cases "map_of ?c (q_key q)")
    case (Some reply)
    have "dg_round avail N xprt F f msg0 args0 st = Some st1"
      by (simp add: dg_round_def st1(1) Some)
    moreover have "dg_holds xprt fd sz n st1 cs"
      using st1(2,3) s by (auto simp: dg_holds_def st1(4))
    ultimately show thesis using Some by (intro that [of st1]) (simp_all add: dedup_step_def st1(4))
  next
    case None
    obtain su2 st2 where st2: "svc_dg_getargs xprt F args0 st1 = Some (True, q_args q, st2)" "dg_ready xprt fd sz n su2 uc1 hist st2"
      "contents (svc_world st2) hist = ?c" "dw_other (svc_world st2) = dw_other (svc_world st1)"
      "remembered su2 uc1 (q_key q) = remembered su1 uc1 (q_key q)"
      by (rule dg_getargs [OF st1(2) _ F, of "q_key q", unfolded st1(3)]) (use st1(5) None in blast, rule that)
    obtain reply s' where f': "f (msg_decoded avail msg0 ?cm) (q_args q) (snd cs) = (reply, s')" by fastforce
    have rep: "reply_ok reply (res reply)" "length (sent_bytes reply (trm_xid ?cm) (res reply)) \<le> sz"
      using f f' unfolding service_ok_def by (metis fst_conv)+
    define st3 where "st3 = dw_upd (\<lambda>w. w\<lparr>dw_other := (dw_other (svc_world st2))\<lparr>app := s'\<rparr>\<rparr>) st2"
    have r3: "dg_ready xprt fd sz n su2 uc1 hist st3" using st2(2) by (simp add: st3_def dg_ready_other)
    have c3: "contents (svc_world st3) hist = ?c"
      using st2(3) by (simp add: st3_def dw_upd_def contents_def node_def node_reply_def)
    have key: "remembered su2 uc1 (trm_xid ?cm, tcb_proc (trm_call ?cm), tcb_vers (trm_call ?cm), tcb_prog (trm_call ?cm), q_addr q)"
      using st1(5) None st2(5) by (simp add: q_key_def msg_key_def)
    obtain su4 uc4 hist4 st4 where st4: "svc_dg_reply avail N xprt reply st3 = Some (True, st4)" "dg_ready xprt fd sz n su4 uc4 hist4 st4"
      "contents (svc_world st4) hist4 = (q_key q, sent_bytes reply (trm_xid ?cm) (res reply)) # take (n - 1) ?c"
      "dw_other (svc_world st4) = (dw_other (svc_world st3))\<lparr>out_q := out_q (dw_other (svc_world st3)) @ [(sent_bytes reply (trm_xid ?cm) (res reply), q_addr q)]\<rparr>"
      by (rule dg_reply [OF N r3 key rep, unfolded c3, folded msg_key_def q_key_def]) (rule that)
    have app: "app (dw_other (svc_world st2)) = snd cs" by (simp add: st2(4) st1(4) s)
    have "dg_round avail N xprt F f msg0 args0 st = Some st4"
    proof -
      have "dw_upd (\<lambda>w. w\<lparr>dw_other := (dw_other w)\<lparr>app := s'\<rparr>\<rparr>) st2 = st3" by (simp add: st3_def dw_upd_def)
      then show ?thesis by (simp add: dg_round_def st1(1) None st2(1) app f' st4(1))
    qed
    moreover have "dw_other (svc_world st3) = (dw_other (svc_world st))\<lparr>in_q := ds, app := s'\<rparr>"
      using st2(4) None by (simp add: st3_def dw_upd_def st1(4))
    ultimately show thesis
      using None st4(2,3)
      by (intro that [of st4]) (auto simp: dg_holds_def dedup_step_def serve_def f' st4(4))
  qed
qed

fun dg_rounds where
  "dg_rounds avail N xprt F f msg0 args0 0 st = Some st"
| "dg_rounds avail N xprt F f msg0 args0 (Suc k) st = do {
     st \<leftarrow> dg_round avail N xprt F f msg0 args0 st; dg_rounds avail N xprt F f msg0 args0 k st }"

lemma dg_rounds_dedup:
  assumes N: "net_ok N fd" "good_alloc N" and f: "service_ok sz f res"
    and "dg_holds xprt fd sz n st cs" and "in_q (dw_other (svc_world st)) = map datagram qs @ rest"
    and "list_all (request_ok avail sz msg0 F args0) qs"
    and "dedup_run n (serve avail msg0 f res) (map (\<lambda>q. (q_key q, q)) qs) cs = (replies, cs')"
  shows "\<exists>st'. dg_rounds avail N xprt F f msg0 args0 (length qs) st = Some st' \<and> dg_holds xprt fd sz n st' cs' \<and>
    in_q (dw_other (svc_world st')) = rest \<and>
    out_q (dw_other (svc_world st')) = out_q (dw_other (svc_world st)) @ zip replies (map q_addr qs)"
  using assms(4-)
proof (induction qs arbitrary: st cs replies)
  case Nil
  then show ?case by auto
next
  case (Cons q qs)
  obtain r cs1 where step: "dedup_step n (serve avail msg0 f res) (q_key q) q cs = (r, cs1)"
    by (cases "dedup_step n (serve avail msg0 f res) (q_key q) q cs")
  obtain rs where rs: "dedup_run n (serve avail msg0 f res) (map (\<lambda>q. (q_key q, q)) qs) cs1 = (rs, cs')" "replies = r # rs"
    using Cons.prems(4) step by (auto split: prod.splits)
  have q: "in_q (dw_other (svc_world st)) = datagram q # map datagram qs @ rest" "request_ok avail sz msg0 F args0 q"
    "list_all (request_ok avail sz msg0 F args0) qs"
    using Cons.prems(2,3) by simp_all
  obtain st1 where st1: "dg_round avail N xprt F f msg0 args0 st = Some st1" "dg_holds xprt fd sz n st1 cs1"
    "in_q (dw_other (svc_world st1)) = map datagram qs @ rest"
    "out_q (dw_other (svc_world st1)) = out_q (dw_other (svc_world st)) @ [(r, q_addr q)]"
    by (rule dg_round_step [OF N Cons.prems(1) q(1,2) f, unfolded step fst_conv snd_conv]) (rule that)
  from Cons.IH [OF st1(2,3) q(3) rs(1)] show ?case
    by (auto simp: st1(1,4) rs(2))
qed

section \<open>From the creation of the transport on\<close>

definition dg_fresh :: "xptr \<Rightarrow> int \<Rightarrow> svc_dg_data \<Rightarrow> ('d, 'o) dg_state \<Rightarrow> bool" where
  "dg_fresh xprt fd su st \<longleftrightarrow> map_option sx_fd (alive xprt st) = Some fd \<and> dw_data (svc_world st) xprt = Some su \<and>
     su_cache su = None \<and> 0 < su_iosz su \<and> su_iosz su < 2 ^ 32 \<and> rpc_buffer su \<noteq> 0 \<and>
     (rpc_buffer su, unat (su_iosz su)) \<in> set (dw_blocks (svc_world st)) \<and>
     mem_stream (x_mem (su_xdrs su)) (rpc_buffer su) (ucast (su_iosz su)) (su_xdrs su)"

lemma xprt_register_frame:
  assumes "xprt_register E xprt st = Some st'"
  shows "svc_world st' = svc_world st" and "xprts st' = xprts st"
  using assms
  by (auto simp: xprt_register_def Let_def split: Option.bind_splits option.splits if_splits)

lemma dg_iosz_less: "dg_iosz ss rs < 2 ^ 32"
proof -
  have "unat (ucast w :: 64 word) < 2 ^ 32" for w :: "32 word"
  proof -
    have "unat w < 2 ^ LENGTH(32)" by (rule unsigned_less)
    then show ?thesis by (simp add: unsigned_ucast_eq take_bit_nat_eq_self)
  qed
  then show ?thesis unfolding dg_iosz_def by (simp add: word_less_nat_alt)
qed

lemma good_alloc_simps:
  assumes "good_alloc N"
  shows "dg_alloc N bs n \<noteq> 0"
    and "dg_mem_alloc N n w = (dg_alloc N (dw_blocks w) n, w\<lparr>dw_blocks := (dg_alloc N (dw_blocks w) n, n) # dw_blocks w\<rparr>)"
proof -
  show nonzero: "dg_alloc N bs n \<noteq> 0" for bs n using assms by (simp add: good_alloc_def)
  show "dg_mem_alloc N n w = (dg_alloc N (dw_blocks w) n, w\<lparr>dw_blocks := (dg_alloc N (dw_blocks w) n, n) # dw_blocks w\<rparr>)"
    by (simp add: dg_mem_alloc_def Let_def nonzero del: neq0_conv)
qed

lemma alloc_step:
  assumes "good_alloc N"
  obtains a w' where "dg_mem_alloc N n w = (a, w')" and "a \<noteq> 0" and "(a, n) \<in> set (dw_blocks w')"
    and "dw_other w' = dw_other w" and "dw_mem w' = dw_mem w"
  using that good_alloc_simps(1) [OF assms, of "dw_blocks w" n] by (auto simp: good_alloc_simps(2) [OF assms])

lemma svc_dg_create_fresh:
  assumes "svc_dg_create E N body fd ss rs st = Some (Some xprt, st')" and N: "good_alloc N"
    and su: "dw_data (svc_world st') xprt = Some su" and pos: "0 < su_iosz su"
  shows "dg_fresh xprt fd su st'"
proof -
  let ?w = "svc_world st"
  obtain si addr where si: "rpc_fd2sockinfo N fd (dw_other ?w) = Some si" and addr: "dg_getsockname N fd (dw_other ?w) = Some addr"
    and sizes: "rpc_get_t_size (si_af si) (si_proto si) ss \<noteq> 0" "rpc_get_t_size (si_af si) (si_proto si) rs \<noteq> 0"
    using assms(1) by (auto simp: svc_dg_create_def Let_def good_alloc_simps [OF N] split: option.splits if_splits)
  define iosz where "iosz = dg_iosz (rpc_get_t_size (si_af si) (si_proto si) ss) (rpc_get_t_size (si_af si) (si_proto si) rs)"
  obtain x w1 where x: "dg_mem_alloc N sizeof_SVCXPRT ?w = (x, w1)" "x \<noteq> 0" "dw_other w1 = dw_other ?w"
    by (rule alloc_step [OF N])
  obtain e w2 where e: "dg_mem_alloc N sizeof_SVCXPRT_EXT w1 = (e, w2)" "e \<noteq> 0" "dw_other w2 = dw_other w1"
    by (rule alloc_step [OF N])
  obtain d w3 where d: "dg_mem_alloc N sizeof_svc_dg_data w2 = (d, w3)" "d \<noteq> 0" "dw_other w3 = dw_other w2"
    by (rule alloc_step [OF N])
  obtain b w4 where b: "dg_mem_alloc N (unat iosz) w3 = (b, w4)" "b \<noteq> 0" "(b, unat iosz) \<in> set (dw_blocks w4)" "dw_other w4 = dw_other w3"
    by (rule alloc_step [OF N])
  define data where "data = \<lparr>rpc_buffer = b, dg_p2 = d, dg_p3 = e, su_iosz = iosz, su_xid = 0,
    su_xdrs = xdrmem_create (dw_mem w4) b (ucast iosz) XDR_DECODE, su_cache = None,
    su_control = [], dg_rtaddr = [], dg_ltaddr = addr, dg_raddr = []\<rparr>"
  define sx where "sx = \<lparr>sx_fd = fd, sx_port = 0, sx_netid = None, sx_verf = \<lparr>oa_flavor = 0, oa_base = Some body, oa_length = 0\<rparr>\<rparr>"
  define st1 where "st1 = st\<lparr>svc_world := (set_data x data w4)\<lparr>dw_other := svc_dg_enable_pktinfo N fd si (dw_other w4)\<rparr>,
    xprts := (xprts st)(x \<mapsto> sx)\<rparr>"
  have other: "dw_other w4 = dw_other ?w" using x e d b by simp
  have "svc_dg_create E N body fd ss rs st = do { st \<leftarrow> xprt_register E x st1; Some (Some x, st) }"
    using sizes x(2) e(2) d(2) b(2)
    by (simp add: svc_dg_create_def si x(1) e(1) d(1) b(1) iosz_def [symmetric] addr other data_def sx_def st1_def Let_def)
  then have reg: "xprt_register E x st1 = Some st'" and x': "x = xprt"
    using assms(1) by (auto split: Option.bind_splits)
  have st': "svc_world st' = svc_world st1" "xprts st' = xprts st1" by (rule xprt_register_frame [OF reg])+
  then have "data = su" using su by (simp add: st1_def set_data_def x')
  then show ?thesis
    using pos b dg_iosz_less [of "rpc_get_t_size (si_af si) (si_proto si) ss" "rpc_get_t_size (si_af si) (si_proto si) rs", folded iosz_def]
      mem_stream_create [of b "dw_mem w4" "ucast iosz" XDR_DECODE]
    by (auto simp: dg_fresh_def alive_def st' st1_def set_data_def x' sx_def data_def mem_stream_self)
qed

lemma enablecache_holds:
  assumes fresh: "dg_fresh xprt fd su st" and N: "good_alloc N" and n: "0 < n" "unat (n * SPARSENESS) = 4 * unat n"
    and run: "svc_dg_enablecache N xprt n (svc_world st) = Some (True, w)"
  shows "dg_holds xprt fd (unat (su_iosz su)) (unat n) (st\<lparr>svc_world := w\<rparr>) ([], app (dw_other (svc_world st)))"
    and "dw_other w = dw_other (svc_world st)"
proof -
  note alloc = good_alloc_simps(2) [OF N] and nonzero = good_alloc_simps(1) [OF N]
  define uc where "uc = \<lparr>uc_size = n, uc_entries = replicate (unat (n * SPARSENESS)) [],
    uc_fifo = replicate (unat n) None, uc_nextvictim = 0, uc_prog = 0, uc_vers = 0, uc_proc = 0\<rparr>"
  define su' where "su' = su\<lparr>su_cache := Some uc\<rparr>"
  have w: "dw_data w xprt = Some su'" "set (dw_blocks (svc_world st)) \<subseteq> set (dw_blocks w)" "dw_other w = dw_other (svc_world st)"
    using run fresh
    by (auto simp: svc_dg_enablecache_def dg_fresh_def alloc nonzero Let_def set_data_def uc_def su'_def)
  have "table_ok uc" "ring_ok uc []" "chains_ok w uc []"
    using n by (simp_all add: table_ok_def ring_ok_def chains_ok_def uc_def mult.commute word_less_nat_alt unat_gt_0)
  moreover have "buffers_ok w su' []"
    using fresh w(2) by (auto simp: buffers_ok_def buffers_def su'_def dg_fresh_def)
  ultimately have "cache_ok w su' uc []" by (simp add: cache_ok_def su'_def)
  moreover have "map_option sx_fd (alive xprt (st\<lparr>svc_world := w\<rparr>)) = Some fd"
    using fresh by (simp add: dg_fresh_def alive_def)
  ultimately have "dg_ready xprt fd (unat (su_iosz su)) (unat n) su' uc [] (st\<lparr>svc_world := w\<rparr>)"
    using fresh w(1) by (simp add: dg_ready_def dg_fresh_def su'_def uc_def)
  then show "dg_holds xprt fd (unat (su_iosz su)) (unat n) (st\<lparr>svc_world := w\<rparr>) ([], app (dw_other (svc_world st)))"
    using w(3) by (auto simp: dg_holds_def contents_def)
  show "dw_other w = dw_other (svc_world st)" by (rule w(3))
qed

section \<open>Properties\<close>

lemma dedup_step_keeps:
  assumes "map_of (take j (fst cs)) k = Some r" and "j < n"
  shows "map_of (take (Suc j) (fst (snd (dedup_step n g k' q cs)))) k = Some r"
proof (cases "map_of (fst cs) k'")
  case (Some r')
  have "take (Suc j) (fst cs) = take j (fst cs) @ take 1 (drop j (fst cs))"
    by (metis Suc_eq_plus1 take_add)
  then show ?thesis using Some assms(1) by (simp add: dedup_step_def map_add_Some_iff)
next
  case None
  have "k \<noteq> k'"
  proof
    assume "k = k'"
    then have "k \<notin> fst ` set (fst cs)" using None by (simp add: map_of_eq_None_iff)
    moreover have "k \<in> fst ` set (take j (fst cs))" using assms(1) by (metis map_of_eq_None_iff option.distinct(1))
    ultimately show False using set_take_subset [of j "fst cs"] by blast
  qed
  moreover have "take j (take (n - 1) (fst cs)) = take j (fst cs)" using assms(2) by (simp add: min.absorb1)
  ultimately show ?thesis using None assms(1) by (simp add: dedup_step_def split_def Let_def)
qed

lemma dedup_run_keeps:
  assumes "dedup_run n g qs cs = (rs, cs')" and "map_of (take j (fst cs)) k = Some r" and "j + length qs \<le> n"
  shows "map_of (take (j + length qs) (fst cs')) k = Some r"
  using assms
proof (induction qs arbitrary: j cs rs)
  case (Cons kq qs)
  obtain k' q where kq: "kq = (k', q)" by fastforce
  obtain r1 cs1 where step: "dedup_step n g k' q cs = (r1, cs1)" by (cases "dedup_step n g k' q cs")
  obtain rs1 where rs1: "dedup_run n g qs cs1 = (rs1, cs')" using Cons.prems(1) kq step by (auto split: prod.splits)
  have "map_of (take (Suc j) (fst cs1)) k = Some r"
    using dedup_step_keeps [OF Cons.prems(2), of n g k' q] Cons.prems(3) step by simp
  from Cons.IH [OF rs1 this] Cons.prems(3) show ?case by simp
qed simp

lemma map_of_take: "map_of (take j xs) k = Some r \<Longrightarrow> map_of xs k = Some r"
  by (metis append_take_drop_id map_add_Some_iff map_of_append)

text \<open>
  C4: A transport that \<open>svc_dg_create\<close> made, with a cache of \<open>n\<close> replies: the replies it sends to a
  queue of datagrams, and what is left of the service's state, are those of the server that looks up
  each request among the last \<open>n\<close> replies before it runs the service.
\<close>

theorem datagrams_answered_once:
  assumes "net_ok N fd" and "good_alloc N" and "svc_dg_create E N body fd ss rs st0 = Some (Some xprt, st)"
    and "dw_data (svc_world st) xprt = Some su" and "0 < su_iosz su" and "service_ok (unat (su_iosz su)) f res"
    and "0 < n" and "unat (n * SPARSENESS) = 4 * unat n"
    and "svc_dg_enablecache N xprt n (svc_world st) = Some (True, w)"
    and "in_q (dw_other w) = map datagram qs"
    and "list_all (request_ok avail (unat (su_iosz su)) msg0 F args0) qs"
    and "dedup_run (unat n) (serve avail msg0 f res) (map (\<lambda>q. (q_key q, q)) qs) ([], app (dw_other w)) = (replies, cache, s)"
  shows "\<exists>st'. dg_rounds avail N xprt F f msg0 args0 (length qs) (st\<lparr>svc_world := w\<rparr>) = Some st' \<and>
    in_q (dw_other (svc_world st')) = [] \<and> app (dw_other (svc_world st')) = s \<and>
    out_q (dw_other (svc_world st')) = out_q (dw_other w) @ zip replies (map q_addr qs)"
proof -
  have fresh: "dg_fresh xprt fd su st" by (rule svc_dg_create_fresh [OF assms(3,2,4,5)])
  note start = enablecache_holds [OF fresh assms(2,7,8,9)]
  have q: "in_q (dw_other (svc_world (st\<lparr>svc_world := w\<rparr>))) = map datagram qs @ []" using assms(10) by simp
  have h: "dg_holds xprt fd (unat (su_iosz su)) (unat n) (st\<lparr>svc_world := w\<rparr>) ([], app (dw_other w))"
    using start by simp
  from dg_rounds_dedup [OF assms(1,2,6) h q assms(11,12)] show ?thesis
    by (auto simp: dg_holds_def)
qed

text \<open>
  C3: A retransmitted call is answered with the bytes of its first reply, and the service does not run
  for it, while fewer than \<open>n\<close> other calls came in between.
\<close>

theorem retransmission_answered:
  assumes "net_ok N fd" and "good_alloc N" and "svc_dg_create E N body fd ss rs st0 = Some (Some xprt, st)"
    and "dw_data (svc_world st) xprt = Some su" and "0 < su_iosz su" and "service_ok (unat (su_iosz su)) f res"
    and "0 < n" and "unat (n * SPARSENESS) = 4 * unat n"
    and "svc_dg_enablecache N xprt n (svc_world st) = Some (True, w)"
    and "in_q (dw_other w) = map datagram (q # between @ [q])" and "length between < unat n"
    and "list_all (request_ok avail (unat (su_iosz su)) msg0 F args0) (q # between)"
  shows "\<exists>r replies st1 st2. dg_rounds avail N xprt F f msg0 args0 (length (q # between)) (st\<lparr>svc_world := w\<rparr>) = Some st1 \<and>
    dg_round avail N xprt F f msg0 args0 st1 = Some st2 \<and>
    out_q (dw_other (svc_world st1)) = out_q (dw_other w) @ (r, q_addr q) # zip replies (map q_addr between) \<and>
    out_q (dw_other (svc_world st2)) = out_q (dw_other (svc_world st1)) @ [(r, q_addr q)] \<and>
    app (dw_other (svc_world st2)) = app (dw_other (svc_world st1))"
proof -
  let ?g = "serve avail msg0 f res" and ?sz = "unat (su_iosz su)"
  have fresh: "dg_fresh xprt fd su st" by (rule svc_dg_create_fresh [OF assms(3,2,4,5)])
  note start = enablecache_holds [OF fresh assms(2,7,8,9)]
  have h: "dg_holds xprt fd ?sz (unat n) (st\<lparr>svc_world := w\<rparr>) ([], app (dw_other w))" using start by simp
  have q: "in_q (dw_other (svc_world (st\<lparr>svc_world := w\<rparr>))) = map datagram (q # between) @ [datagram q]"
    using assms(10) by simp
  obtain r s1 where r: "?g q (app (dw_other w)) = (r, s1)" by fastforce
  have first: "dedup_step (unat n) ?g (q_key q) q ([], app (dw_other w)) = (r, [(q_key q, r)], s1)"
    by (simp add: dedup_step_def r)
  obtain replies cs where rest: "dedup_run (unat n) ?g (map (\<lambda>q. (q_key q, q)) between) ([(q_key q, r)], s1) = (replies, cs)"
    by (cases "dedup_run (unat n) ?g (map (\<lambda>q. (q_key q, q)) between) ([(q_key q, r)], s1)")
  have run: "dedup_run (unat n) ?g (map (\<lambda>q. (q_key q, q)) (q # between)) ([], app (dw_other w)) = (r # replies, cs)"
    by (simp add: first rest)
  obtain st1 where st1: "dg_rounds avail N xprt F f msg0 args0 (length (q # between)) (st\<lparr>svc_world := w\<rparr>) = Some st1"
    "dg_holds xprt fd ?sz (unat n) st1 cs" "in_q (dw_other (svc_world st1)) = [datagram q]"
    "out_q (dw_other (svc_world st1)) = out_q (dw_other w) @ zip (r # replies) (map q_addr (q # between))"
    using dg_rounds_dedup [OF assms(1,2,6) h q assms(12) run] by auto
  have "map_of (take (1 + length (map (\<lambda>q. (q_key q, q)) between)) (fst cs)) (q_key q) = Some r"
    by (rule dedup_run_keeps [OF rest]) (use assms(11) in simp_all)
  from map_of_take [OF this] have hit: "dedup_step (unat n) ?g (q_key q) q cs = (r, cs)"
    by (simp add: dedup_step_def)
  have ok: "request_ok avail ?sz msg0 F args0 q" using assms(12) by simp
  obtain st2 where st2: "dg_round avail N xprt F f msg0 args0 st1 = Some st2" "dg_holds xprt fd ?sz (unat n) st2 cs"
    "out_q (dw_other (svc_world st2)) = out_q (dw_other (svc_world st1)) @ [(r, q_addr q)]"
    by (rule dg_round_step [OF assms(1,2) st1(2,3) ok assms(6), unfolded hit fst_conv snd_conv]) (rule that)
  have "app (dw_other (svc_world st2)) = app (dw_other (svc_world st1))" using st1(2) st2(2) by (simp add: dg_holds_def)
  with st1(1,4) st2(1,3) show ?thesis by auto
qed

end
