(* ===== verification/Dg_Demo.thy ===== *)
theory Dg_Demo
  imports Dg_Server Svc_Demo
begin

text \<open>A datagram server that counts its calls, for the witnesses of \<open>Dg_Server\<close>.\<close>

definition bump_alloc :: "(addr \<times> nat) list \<Rightarrow> nat \<Rightarrow> addr" where
  "bump_alloc bs n = Suc (sum_list (map (\<lambda>(b, k). b + k) bs))"

lemma bump_alloc_apart: "(b, k) \<in> set bs \<Longrightarrow> b + k \<le> bump_alloc bs n"
  by (induction bs) (auto simp: bump_alloc_def)

definition dg_N :: "nat net dg_env" where
  "dg_N = \<lparr>dg_getsockname = \<lambda>_ _. Some [2, 0], dg_getsotype = \<lambda>_ _. Some SOCK_DGRAM, dg_set_pktinfo = \<lambda>_ _ _ w. w,
     dg_recvmsg = \<lambda>_ _ w. (case in_q w of [] \<Rightarrow> (Recv_error, w) | (d, a) # ds \<Rightarrow> (Recv_data d a False [], w\<lparr>in_q := ds\<rparr>)),
     dg_sendmsg = \<lambda>_ d a _ w. (int (length d), w\<lparr>out_q := out_q w @ [(d, a)]\<rparr>), dg_close = \<lambda>_ w. w,
     dg_alloc = bump_alloc\<rparr>"

lemma dg_N_ok: "net_ok dg_N fd" "good_alloc dg_N"
  using bump_alloc_apart by (auto simp: net_ok_def good_alloc_def dg_N_def) (simp add: bump_alloc_def)

definition dg_E :: "(nat, memstrm, 32 word, nat net dg_world) svc_env" where
  "dg_E = \<lparr>dtablesize = 4, sv_avail = \<lambda>_. True, rpcgettp = \<lambda>_. None,
    rpcb_set_call = \<lambda>_ _ _ _ st. (True, st), rpcb_unset_call = \<lambda>_ _ st. st,
    pmap_set_call = \<lambda>_ _ _ _ st. (True, st), pmap_unset_call = \<lambda>_ _ st. st,
    xp_recv = \<lambda>_ _ _. None, xp_reply = \<lambda>_ _ _. None, xp_stat = \<lambda>_ st. Some (XPRT_IDLE, st), xp_destroy = \<lambda>_ st. Some st,
    run_dispatch = \<lambda>_ _ _ st. Some st, gss = \<lambda>_ _ _. None, auths = [], cred_mem = \<lambda>_. 0, cred_at = 8192,
    cred_room = rq_clntcred rqst0, local_msg = zero_tmsg 0\<rparr>"

definition dg_call :: "32 word \<Rightarrow> (memstrm, 32 word) trpc_msg" where
  "dg_call xid = (zero_tmsg 0)\<lparr>trm_xid := xid, trm_direction := CALL, trm_call := \<lparr>tcb_rpcvers = RPC_MSG_VERSION,
     tcb_prog = 7, tcb_vers = 1, tcb_proc = 0, tcb_cred = null_auth, tcb_verf = null_auth\<rparr>\<rparr>"

definition dg_q :: "32 word \<Rightarrow> (32 word, unit) dg_request" where
  "dg_q xid = \<lparr>q_call = dg_call xid, q_bytes = [], q_args = (), q_addr = [2, 0, 1, 1]\<rparr>"

text \<open>The service replies with the number of calls before.\<close>

definition dg_f :: "(memstrm, 32 word) trpc_msg \<Rightarrow> unit \<Rightarrow> nat \<Rightarrow> (memstrm, 32 word) trpc_msg \<times> nat" where
  "dg_f msg args s = ((zero_tmsg 0)\<lparr>trm_direction := REPLY, trm_reply := (trm_reply (zero_tmsg 0))\<lparr>trp_stat := MSG_ACCEPTED,
     trp_acpt := (trp_acpt (trm_reply (zero_tmsg 0)))\<lparr>tar_verf := null_auth, tar_stat := SUCCESS, tar_where := of_nat s, tar_proc := Some xdr_u_int\<rparr>\<rparr>\<rparr>, Suc s)"

definition dg_start :: "byte list list \<Rightarrow> (nat, nat net) dg_state" where
  "dg_start ds = \<lparr>svc_xports = Some (replicate 4 None), svc_fdset = {}, svc_maxfd = -1, svc_pollfd = [], svc_head = [],
     svc_maxrec = 0, xprts = Map.empty, svc_world = \<lparr>dw_mem = (\<lambda>_. 0), dw_blocks = [], dw_nodes = Map.empty,
       dw_data = Map.empty, dw_other = \<lparr>in_q = map (\<lambda>d. (d, [2, 0, 1, 1])) ds, out_q = [], app = 0\<rparr>\<rparr>\<rparr>"

definition dg_res :: "(memstrm, 32 word) trpc_msg \<Rightarrow> byte list" where
  "dg_res msg = be32 (tar_where (trp_acpt (trm_reply msg)))"

lemma dg_service_ok: "service_ok 100 dg_f dg_res"
proof -
  have "mem_encodes xdr_u_int v (be32 v) v" for v
    by (simp add: mem_encodes_def al.encodes_xdr_u_int un.encodes_xdr_u_int)
  then show ?thesis
    by (simp add: service_ok_def dg_f_def dg_res_def reply_ok_def treply_ok_def sent_bytes_def treply_bytes_def accepted_bytes_def
        null_auth_def valid_auth_def auth_body_def auth_bytes_def msg_enums)
qed

lemma dg_q_ok: "request_ok (\<lambda>_. True) 100 (zero_tmsg 0) xdr_void () (dg_q xid)"
  by (simp add: request_ok_def dg_q_def dg_call_def call_ok_def valid_auth_def null_auth_def auth_body_def msg_room_def auth_room_def
      tcallmsg_bytes_def tcallmsg_head_def auth_bytes_def mem_decodes_def ald.decodes_def und.decodes_def xdr_void_def)

definition dg_st :: "byte list list \<Rightarrow> (nat, nat net) dg_state" where
  "dg_st ds = snd (the (svc_dg_create dg_E dg_N [] 3 100 100 (dg_start ds)))"

definition dg_xprt :: xptr where "dg_xprt = 1"

lemma dg_sockinfo: "rpc_fd2sockinfo dg_N 3 w = Some \<lparr>si_af = AF_INET, si_proto = ipproto_udp, si_alen = 2, si_socktype = SOCK_DGRAM\<rparr>"
  by (simp add: rpc_fd2sockinfo_def dg_N_def sa_family_def AF_LOCAL_def AF_INET_def SOCK_DGRAM_def SOCK_STREAM_def)

lemma dg_iosz_100: "dg_iosz 100 100 = 100"
  by (simp add: dg_iosz_def)

lemma dg_t_size_100: "rpc_get_t_size af proto 100 = 100"
  by (simp add: rpc_get_t_size_def)

lemma dg_created:
  obtains su where "svc_dg_create dg_E dg_N [] 3 100 100 (dg_start ds) = Some (Some dg_xprt, dg_st ds)"
    and "dw_data (svc_world (dg_st ds)) dg_xprt = Some su" and "su_iosz su = 100" and "su_cache su = None"
    and "dw_other (svc_world (dg_st ds)) = dw_other (svc_world (dg_start ds))"
proof -
  have a: "dg_mem_alloc dg_N n w = (bump_alloc (dw_blocks w) n, w\<lparr>dw_blocks := (bump_alloc (dw_blocks w) n, n) # dw_blocks w\<rparr>)" for n w
    using good_alloc_simps(2) [OF dg_N_ok(2), of n w] by (simp add: dg_N_def)
  have b: "bump_alloc [] n = 1" "bump_alloc bs n \<noteq> 0" for bs n
    by (simp_all add: bump_alloc_def)
  have c: "dg_getsockname dg_N 3 w = Some [2, 0]" "svc_dg_enable_pktinfo dg_N 3 si w = w" for si w
    by (simp_all add: dg_N_def svc_dg_enable_pktinfo_def)
  have "\<exists>st su. svc_dg_create dg_E dg_N [] 3 100 100 (dg_start ds) = Some (Some dg_xprt, st) \<and>
      dw_data (svc_world st) dg_xprt = Some su \<and> su_iosz su = 100 \<and> su_cache su = None \<and>
      dw_other (svc_world st) = dw_other (svc_world (dg_start ds))"
    by (simp add: svc_dg_create_def dg_sockinfo dg_t_size_100 dg_iosz_100 a b c Let_def dg_start_def xprt_register_def alive_def
        set_data_def dg_E_def FD_SETSIZE_def dg_xprt_def)
  then obtain st su where st: "svc_dg_create dg_E dg_N [] 3 100 100 (dg_start ds) = Some (Some dg_xprt, st)"
      "dw_data (svc_world st) dg_xprt = Some su \<and> su_iosz su = 100 \<and> su_cache su = None \<and>
      dw_other (svc_world st) = dw_other (svc_world (dg_start ds))"
    by blast
  moreover have "dg_st ds = st" using st(1) by (simp add: dg_st_def)
  ultimately show thesis using that by simp
qed

lemma dg_enabled:
  assumes "dw_data w dg_xprt = Some su" and "su_cache su = None"
  obtains w' where "svc_dg_enablecache dg_N dg_xprt 2 w = Some (True, w')" and "dw_other w' = dw_other w"
  using that assms good_alloc_simps [OF dg_N_ok(2)]
  by (auto simp: svc_dg_enablecache_def Let_def set_data_def simp del: neq0_conv)

abbreviation dg_input :: "byte list list" where
  "dg_input \<equiv> map (\<lambda>x. fst (datagram (dg_q x))) [5, 6, 5]"

lemma dg_ready:
  obtains su w where "svc_dg_create dg_E dg_N [] 3 100 100 (dg_start dg_input) = Some (Some dg_xprt, dg_st dg_input)"
    and "dw_data (svc_world (dg_st dg_input)) dg_xprt = Some su" and "su_iosz su = 100"
    and "svc_dg_enablecache dg_N dg_xprt 2 (svc_world (dg_st dg_input)) = Some (True, w)"
    and "in_q (dw_other w) = map datagram [dg_q 5, dg_q 6, dg_q 5]" and "app (dw_other w) = 0"
proof -
  obtain su where su: "svc_dg_create dg_E dg_N [] 3 100 100 (dg_start dg_input) = Some (Some dg_xprt, dg_st dg_input)"
    "dw_data (svc_world (dg_st dg_input)) dg_xprt = Some su" "su_iosz su = 100" "su_cache su = None"
    "dw_other (svc_world (dg_st dg_input)) = dw_other (svc_world (dg_start dg_input))"
    by (rule dg_created)
  obtain w where w: "svc_dg_enablecache dg_N dg_xprt 2 (svc_world (dg_st dg_input)) = Some (True, w)"
    "dw_other w = dw_other (svc_world (dg_st dg_input))"
    by (rule dg_enabled [OF su(2,4)])
  have o: "dw_other w = dw_other (svc_world (dg_start dg_input))"
    by (rule trans [OF w(2) su(5)])
  have "in_q (dw_other w) = map datagram [dg_q 5, dg_q 6, dg_q 5]" "app (dw_other w) = 0"
    unfolding o by (simp_all add: dg_start_def datagram_def dg_q_def)
  with su(1-3) w(1) show thesis by (rule that)
qed

lemma retransmission_answered_witness:
  "\<exists>w r replies st1 st2. svc_dg_enablecache dg_N dg_xprt 2 (svc_world (dg_st dg_input)) = Some (True, w) \<and>
    dg_rounds (\<lambda>_. True) dg_N dg_xprt xdr_void dg_f (zero_tmsg 0) () (length [dg_q 5, dg_q 6])
      ((dg_st dg_input)\<lparr>svc_world := w\<rparr>) = Some st1 \<and>
    dg_round (\<lambda>_. True) dg_N dg_xprt xdr_void dg_f (zero_tmsg 0) () st1 = Some st2 \<and>
    out_q (dw_other (svc_world st1)) = out_q (dw_other w) @ (r, q_addr (dg_q 5)) # zip replies (map q_addr [dg_q 6]) \<and>
    out_q (dw_other (svc_world st2)) = out_q (dw_other (svc_world st1)) @ [(r, q_addr (dg_q 5))] \<and>
    app (dw_other (svc_world st2)) = app (dw_other (svc_world st1))"
proof -
  obtain su w where d: "svc_dg_create dg_E dg_N [] 3 100 100 (dg_start dg_input) = Some (Some dg_xprt, dg_st dg_input)"
    "dw_data (svc_world (dg_st dg_input)) dg_xprt = Some su" "su_iosz su = 100"
    "svc_dg_enablecache dg_N dg_xprt 2 (svc_world (dg_st dg_input)) = Some (True, w)"
    "in_q (dw_other w) = map datagram [dg_q 5, dg_q 6, dg_q 5]" "app (dw_other w) = 0"
    by (rule dg_ready)
  have sz: "unat (su_iosz su) = 100" "0 < su_iosz su" by (simp_all add: d(3))
  have q: "in_q (dw_other w) = map datagram (dg_q 5 # [dg_q 6] @ [dg_q 5])" by (simp add: d(5))
  have n: "(0::32 word) < 2" "unat (2 * SPARSENESS) = 4 * unat (2::32 word)" "length [dg_q 6] < unat (2::32 word)"
    by (simp_all add: SPARSENESS_def)
  have ok: "list_all (request_ok (\<lambda>_. True) (unat (su_iosz su)) (zero_tmsg 0) xdr_void ()) (dg_q 5 # [dg_q 6])"
    by (simp add: sz(1) dg_q_ok)
  from retransmission_answered [OF dg_N_ok d(1,2) sz(2) dg_service_ok [folded sz(1)] n(1,2) d(4) q n(3) ok] d(4)
  show ?thesis by blast
qed

lemma datagrams_answered_once_witness:
  "\<exists>w replies cache st'. svc_dg_enablecache dg_N dg_xprt 2 (svc_world (dg_st dg_input)) = Some (True, w) \<and>
    dedup_run (unat (2::32 word)) (serve (\<lambda>_. True) (zero_tmsg 0) dg_f dg_res) (map (\<lambda>q. (q_key q, q)) [dg_q 5, dg_q 6, dg_q 5])
      ([], 0) = (replies, cache, 2) \<and>
    dg_rounds (\<lambda>_. True) dg_N dg_xprt xdr_void dg_f (zero_tmsg 0) () (length [dg_q 5, dg_q 6, dg_q 5])
      ((dg_st dg_input)\<lparr>svc_world := w\<rparr>) = Some st' \<and>
    in_q (dw_other (svc_world st')) = [] \<and> app (dw_other (svc_world st')) = 2 \<and>
    out_q (dw_other (svc_world st')) = out_q (dw_other w) @ zip replies (map q_addr [dg_q 5, dg_q 6, dg_q 5])"
proof -
  obtain su w where d: "svc_dg_create dg_E dg_N [] 3 100 100 (dg_start dg_input) = Some (Some dg_xprt, dg_st dg_input)"
    "dw_data (svc_world (dg_st dg_input)) dg_xprt = Some su" "su_iosz su = 100"
    "svc_dg_enablecache dg_N dg_xprt 2 (svc_world (dg_st dg_input)) = Some (True, w)"
    "in_q (dw_other w) = map datagram [dg_q 5, dg_q 6, dg_q 5]" "app (dw_other w) = 0"
    by (rule dg_ready)
  have sz: "unat (su_iosz su) = 100" "0 < su_iosz su" by (simp_all add: d(3))
  have n: "(0::32 word) < 2" "unat (2 * SPARSENESS) = 4 * unat (2::32 word)"
    by (simp_all add: SPARSENESS_def)
  have ok: "list_all (request_ok (\<lambda>_. True) (unat (su_iosz su)) (zero_tmsg 0) xdr_void ()) [dg_q 5, dg_q 6, dg_q 5]"
    by (simp add: sz(1) dg_q_ok)
  have k: "q_key (dg_q x) = q_key (dg_q y) \<longleftrightarrow> x = y" for x y
    by (auto simp: q_key_def dg_q_def dg_call_def msg_key_def)
  have g: "snd (serve (\<lambda>_. True) (zero_tmsg 0) dg_f dg_res (dg_q x) s) = Suc s" for x s
    by (simp add: serve_def dg_f_def dg_q_def Let_def split_beta)
  obtain replies cache where r: "dedup_run (unat (2::32 word)) (serve (\<lambda>_. True) (zero_tmsg 0) dg_f dg_res)
      (map (\<lambda>q. (q_key q, q)) [dg_q 5, dg_q 6, dg_q 5]) ([], 0) = (replies, cache, 2)"
    by (auto simp: dedup_step_def k split_beta g)
  from datagrams_answered_once [OF dg_N_ok d(1,2) sz(2) dg_service_ok [folded sz(1)] n d(4,5) ok r [folded d(6)]] d(4) r
  show ?thesis by blast
qed

end
