(* ===== verification/Spec2Isabelle.thy ===== *)
theory Spec2Isabelle
  imports Cf_Oats Rpc_Msg Xdr_Compound Flex_Rec Mem_Safety Rpcb_Service Rec_Rpc Rec_Nonblock Bind_Rmt
    Auth_Accept Svc_Demo Raw_Session Des_Crypt Dg_Demo
begin

text \<open>
  \<^bold>\<open>cornflakes\<close>.  The repository is an RPC system in three layers: libtirpc, the ONC RPC library
  (\<open>lib/libtirpc\<close>); \<open>rpcbind\<close>, the process that binds programs to addresses
  (\<open>lib/rpcbind\<close>); and the project's own code, a small copy of the XDR and message layer
  (\<open>src/flexrpc\<close>) with the service registry \<open>cornflakes\<close> (\<open>src/cornflakes\<close>) and an example
  client and server on top of it.  The model is of the LP64 build on a little-endian host,
  with \<open>PORTMAP\<close> defined.

  \<^bold>\<open>Data representation.\<close>  A filter of C, \<open>bool_t xdr_x(XDR *, x *)\<close>, is a function from a
  handle and a value to the result, the new handle and the new value, in the option type:
  \<open>None\<close> is a run to which C gives no meaning (a null pointer called, a block overrun).  The blocks
  of callers are lists of bytes; \<open>XDR_GETBYTES\<close> and the in-line copies of \<open>get_auth_body\<close> see to it that
  no list is filled beyond its length, \<open>XDR_PUTBYTES\<close> that none is read beyond it.  Machine
  integers are words of their width; the memory that the streams' pointers point into is a
  map from addresses to bytes.

  \<^item> \<open>Base\<close>: bytes, network order, memory.  \<open>Xdr_Handle\<close>: the handle and the macros of
    \<open>rpc/xdr.h\<close> and \<open>flexxdr.h\<close>.  \<open>Xdr_Stream\<close>: the interfaces of a stream to encode into and
    of one to decode from, as locales, and the contracts of filters over them.
  \<^item> \<open>Xdr_Mem\<close>, \<open>Flex_Mem\<close>: the memory streams of \<open>xdr_mem.c\<close> and \<open>flexxdr_mem.c\<close>; they
    interpret the interfaces.  \<open>Mem_Safety\<close>: no sequence of operations leaves the buffer.
    \<open>Flex_Rec\<close>: the record stream of \<open>flexxdr_rec.c\<close>, with fuel for the loops of its input
    side and the proof that the fuel suffices.
  \<^item> \<open>Xdr_Generic\<close> and \<open>Xdr_Codec\<close>: the filters of \<open>xdr.c\<close> and what each puts on and takes off
    the wire, proved once in the interfaces and used for every stream.  \<open>Xdr_Compound\<close>: arrays,
    references and pointers (\<open>xdr_array.c\<close>, \<open>xdr_reference.c\<close>).  \<open>Flex_Xdr\<close>: the filters of
    \<open>flexxdr.c\<close>, most of them equal to the library's.
  \<^item> \<open>Msg_Enums\<close>, \<open>Rpc_Msg\<close>: the messages of ONC RPC (\<open>rpc_prot.c\<close>, \<open>rpc_callmsg.c\<close>), the
    in-line paths of \<open>xdr_callmsg\<close> included.  \<open>Flex_Msg\<close>: flexrpc's messages
    (\<open>flexrpc_prot.c\<close>, \<open>flexrpc_cmsg.c\<close>).
  \<^item> \<open>Xdr_Rec\<close>: the record stream of the connection transports (\<open>xdr_rec.c\<close>); its loops are
    partial functions, \<open>None\<close> being a loop that does not end.  \<open>Rec_Sink\<close> and \<open>Rec_Source\<close>: the
    stream interprets the two interfaces of \<open>Xdr_Stream\<close> over any transport, so that every filter
    works on it as it does in memory.  \<open>Rec_Rpc\<close>: its two ends together, and the messages over
    it.  \<open>Rec_Nonblock\<close>: \<open>__xdrrec_getrec\<close>.
  \<^item> \<open>Cornflake\<close>: registration, serialisation and deserialisation (\<open>cornflake.c\<close>).
    \<open>Cf_Oats\<close>: the example (\<open>oats.c\<close>, \<open>cf_client.c\<close>, \<open>cf_server.c\<close>).
  \<^item> \<open>Rpcb_List\<close>: the two registration lists of \<open>rpcbind\<close> and what searches and changes them
    (\<open>rpcb_svc_com.c\<close>, \<open>pmap_svc.c\<close>, \<open>check_bound.c\<close>); both searches interpret one lookup
    interface.  \<open>Rpcb_Registry\<close>: the abstract map the lists implement, and runs of requests.
    \<open>Rpcb_Stats\<close>: \<open>rpcb_stat.c\<close>.  \<open>Rpcb_Forward\<close>: the table of forwarded calls.
    \<open>Rpcb_Callit\<close>: the process state, \<open>security.c\<close> and the calls made for others.
    \<open>Rpcb_Service\<close>: the services of versions 2, 3 and 4 (\<open>pmap_svc.c\<close>, \<open>rpcb_svc.c\<close>,
    \<open>rpcb_svc_4.c\<close>).
  \<^item> \<open>Bind_Prot\<close>, \<open>Bind_Codec\<close>, \<open>Bind_Rmt\<close>: the filters of the binder protocols, in the library
    (\<open>pmap_prot.c\<close>, \<open>pmap_prot2.c\<close>, \<open>pmap_rmt.c\<close>, \<open>rpcb_prot.c\<close>, \<open>rpcb_st_xdr.c\<close>) and in rpcbind
    (\<open>rpcb_svc_com.c\<close>), what they put on the wire, and the remote call from its client to the
    binder and back.
  \<^item> \<open>Auth_Sys\<close>, \<open>Svc_Auth\<close>: authentication of the client (\<open>auth_unix.c\<close>, \<open>auth_none.c\<close>,
    \<open>authunix_prot.c\<close>) and in the server (\<open>svc_auth.c\<close>, \<open>svc_auth_unix.c\<close>, \<open>svc_auth_none.c\<close>).
    \<open>Xdr_Rewind\<close>: memory streams written once and rewound.  \<open>Mem_Total\<close>: the filters of
    credentials return on every memory stream.  \<open>Auth_Codec\<close>, \<open>Auth_Exchange\<close>,
    \<open>Auth_Accept\<close>: what the credentials are on the wire, the handles of both flavors as
    interpretations of one interface, and client and server together.
  \<^item> \<open>Svc\<close>: the server side of the library (\<open>svc.c\<close>).  \<open>Svc_Table\<close>: the table of transports
    against a map.  \<open>Svc_Serve\<close>: the list of services and the calls served.  \<open>Svc_Demo\<close>: a small
    server for the witnesses.
  \<^item> \<open>Raw\<close>, \<open>Msg_Prog\<close>: RPC within one process (\<open>clnt_raw.c\<close>, \<open>svc_raw.c\<close>) and the example of
    rpcgen (\<open>msg_clnt.c\<close>, \<open>msg_svc.c\<close>, \<open>msg_proc.c\<close>).  \<open>Buf_Stream\<close>, \<open>Raw_Stream\<close>, \<open>Raw_Exchange\<close>: the shared
    buffer and one call over it; both flavors of handles interpret the interface of authenticators.
    \<open>Raw_Msg\<close>, \<open>Raw_Session\<close>: whole sessions of the example.
  \<^item> \<open>Svc_Dg\<close>: the datagram transport of servers (\<open>svc_dg.c\<close>) with its cache of replies, and what it
    uses of \<open>rpc_generic.c\<close>.  \<open>Dg_Cache\<close>: the hash table, its queue and the buffers as a list of the
    latest replies.  \<open>Dg_Server\<close>: a server's loop over any network refines a service that answers
    repeated calls from that list.  \<open>Dg_Demo\<close>: a server that counts, for the witnesses.
  \<^item> \<open>Des\<close>: the cipher of secure RPC (\<open>des_impl.c\<close>, \<open>des_crypt.c\<close>, \<open>des_soft.c\<close>), its shifts at
    the 64 bits of \<open>unsigned long\<close>.  \<open>Des_Cipher\<close>: why a block can be deciphered.  \<open>Des_Crypt\<close>:
    buffers in both modes, their vectors, and the parity of keys.

  \<^bold>\<open>What is shown.\<close>  Round trips: what a filter encodes is decoded as it was, for integers,
  blocks, unions, arrays, pointers, ONC RPC and flexrpc calls and replies and, in this theory,
  for whole exchanges between the example's client and server.  Memory safety of the streams.
  The record stream refines lists of records, and every loop of it ends on a transport that
  delivers or fails.
  The registry of \<open>rpcbind\<close> refines a map from program, version and transport to address and
  owner; every service acts on it as a run of \<open>map_set\<close> and \<open>map_unset\<close> in the name of the
  caller, from which it follows that an owner's entries are safe from others and the registry
  from other hosts, that keys stay distinct and that the version 2 list stays in step.
  Forwarded calls keep the table consistent and are answered to the one who made them.
  A server knows an \<open>AUTH_SYS\<close> client by what it gave to \<open>authunix_create\<close>, keeps its transports
  and services unambiguous and answers each call as RPC asks.  Over datagrams it answers a
  repeated call with the reply it gave before, without running the service again.  In one process, client,
  authentication, dispatch, filters and procedure together carry any sequence of calls.  Where
  the code does not do what it means to, the theorem says what it does.

  \<^bold>\<open>Parameters.\<close>  The transports behind the record stream, the allocator, the clock, the system's
  answers about sockets and addresses, the operations of a server's transports, and the
  filters and routines of client programs are arguments of the
  definitions; what a theorem needs of them is a hypothesis of it, with a witness.

  \<^bold>\<open>Not modelled.\<close>  Sockets, threads and the poll loops (\<open>clnt_dg.c\<close>, \<open>clnt_vc.c\<close>,
  \<open>svc_vc.c\<close>, \<open>my_svc_run\<close>), whose behaviour is that of system calls; the authentication
  of \<open>auth_des.c\<close> and \<open>auth_gss.c\<close>, which rests on key servers and the GSS library; \<open>rpcinfo\<close> and \<open>rpcbind\<close>'s
  start-up; the \<open>main\<close> functions; \<open>printf\<close> and logging everywhere.
\<close>

section \<open>Values the witnesses use\<close>

text \<open>The memory and the structures as a zeroed process image has them.\<close>

definition zero_mem :: mem where
  "zero_mem = (\<lambda>_. 0)"

definition zero_accepted :: "'w \<Rightarrow> ('s, 'w) accepted_reply" where
  "zero_accepted w = \<lparr>ar_stat = 0, ar_low = 0, ar_high = 0, ar_where = w, ar_proc = None\<rparr>"

definition zero_msg :: "'w \<Rightarrow> ('s, 'w) rpc_msg" where
  "zero_msg w = \<lparr>rm_xid = 0, rm_direction = 0,
     rm_call = \<lparr>cb_rpcvers = 0, cb_prog = 0, cb_vers = 0, cb_proc = 0\<rparr>,
     rm_reply = \<lparr>rp_stat = 0, rp_acpt = zero_accepted w,
       rp_rjct = \<lparr>rj_stat = 0, rj_low = 0, rj_high = 0\<rparr>\<rparr>\<rparr>"

definition empty_cf_registry :: "(memstrm, oats_args, unit) cf_state" where
  "empty_cf_registry = \<lparr>rpc_registry = \<lparr>reg_prog = 0, reg_vers = 0, reg_proc = 0, cf_call_schema = None,
     cf_reply_schema = None, dispatch = ()\<rparr>, next_chain = [], malloced = []\<rparr>"

definition oats_registry :: "(memstrm, oats_args, unit) cf_state" where
  "oats_registry = empty_cf_registry\<lparr>rpc_registry := \<lparr>reg_prog = OATSPROGRAM, reg_vers = PRINTMESSAGEVER,
     reg_proc = PRINTMESSAGE, cf_call_schema = Some (printmessage_call (\<lambda>n. Some (replicate n 0))),
     cf_reply_schema = Some (printmessage_reply (\<lambda>n. Some (replicate n 0))), dispatch = ()\<rparr>\<rparr>"

lemma oats_registry_registered:
  "oats_register (\<lambda>n. Some (replicate n 0)) () empty_cf_registry = Some (True, oats_registry)"
  "reg_vers (rpc_registry empty_cf_registry) = 0"
  by (simp_all add: oats_register_def cornflake_register_def oats_registry_def empty_cf_registry_def)

definition null_registry :: "(memstrm, 32 word, unit) cf_state" where
  "null_registry = \<lparr>rpc_registry = \<lparr>reg_prog = 0, reg_vers = 0, reg_proc = 0, cf_call_schema = None,
     cf_reply_schema = None, dispatch = ()\<rparr>, next_chain = [], malloced = []\<rparr>"

definition int_reply :: "64 word \<Rightarrow> 32 word \<Rightarrow> (memstrm, 32 word) CFLAKE" where
  "int_reply xid v = \<lparr>cf_msg = (zero_msg 0)\<lparr>rm_xid := xid, rm_direction := REPLY, rm_reply :=
     (rm_reply (zero_msg 0))\<lparr>rp_acpt := (zero_accepted v)\<lparr>ar_proc := Some flexxdr_u_int\<rparr>\<rparr>\<rparr>, cf_args = 0\<rparr>"

text \<open>The bytes of "Innocent" and "CEO", the arguments of the example client.\<close>

definition name_Innocent :: "byte list" where
  "name_Innocent = [73, 110, 110, 111, 99, 101, 110, 116]"

definition title_CEO :: "byte list" where
  "title_CEO = [67, 69, 79]"

section \<open>cornflakes: calls and replies\<close>

lemma cstr_fill:
  assumes "strlen s < length b" and "b ! strlen s = 0"
  shows "cstr (fill b (cstr s)) = cstr s" and "0 \<in> set (fill b (cstr s))"
proof -
  have "drop (length (cstr s)) b = 0 # drop (Suc (strlen s)) b"
    using assms by (metis Cons_nth_drop_Suc strlen_def)
  then have f: "fill b (cstr s) = cstr s @ 0 # drop (Suc (strlen s)) b"
    by (simp add: fill_def)
  then show "cstr (fill b (cstr s)) = cstr s" and "0 \<in> set (fill b (cstr s))"
    using cstr_terminated [OF cstr_no_zero] by simp_all
qed

lemma length_cstr: "length (cstr s) = strlen s"
  by (simp add: strlen_def)

lemma length_call_bytes:
  "length (call_bytes xid name title) = 24 + length (string_bytes name) + length (string_bytes title)"
  by (simp add: call_bytes_def)

lemma length_reply_bytes: "length (reply_bytes xid name result) = 20 + length (string_bytes name)"
  by (simp add: reply_bytes_def)

text \<open>
  C2: The example client and server, each with the service registered in an empty registry,
  exchange a call and its reply through 80-byte buffers: whatever the name and title (zero
  terminated, at most 255 bytes, the call within 80 bytes), the server finds the name and the
  title at the front of its blocks and the client finds the name at the front of its block
  and the result 1, provided the name fits the blocks of server and client, the title the
  server's, and the server's block for the name holds a zero byte where the name ends.
\<close>

theorem oats_exchange:
  assumes client: "oats_register cmalloc cd cst0 = Some (True, cst)" "reg_vers (rpc_registry cst0) = 0"
    and server: "oats_register smalloc sd sst0 = Some (True, sst)" "reg_vers (rpc_registry sst0) = 0"
    and addrs: "a \<noteq> 0" "b \<noteq> 0" and xid: "fits32 xid"
    and name: "0 \<in> set name" "strlen name \<le> 255" and title: "0 \<in> set title" "strlen title \<le> 255"
    and fits: "length (call_bytes xid (cstr name) (cstr title)) \<le> 80"
    and block: "strlen name < length nblock" "nblock ! strlen name = 0"
    and blocks: "strlen title \<le> length tblock" "strlen name \<le> length rblock"
  shows "\<exists>x y reply.
    prepare_call cst (flexxdrmem_create m a 80 XDR_ENCODE) (Some name) (Some title) xid msg0 = Some x \<and>
    server_func sst (flexxdrmem_create m' b 80 XDR_DECODE) b (outgoing x) (Some nblock) (Some tblock)
      cmsg0 rply0 = Some (reply, Some (fill nblock (cstr name)), Some (fill tblock (cstr title))) \<and>
    client_func cst x a reply (Some rblock) result0 reply0 =
      Some (y, Some (fill rblock (cstr name)), 1)"
proof -
  have c: "oats_registered cmalloc cst" and s: "oats_registered smalloc sst"
    using oats_register_registered client server by metis+
  have lens: "length (cstr name) \<le> 255" "length (cstr title) \<le> 255"
    using name title by (simp_all add: length_cstr)
  have blks: "length (cstr name) \<le> length nblock" "length (cstr title) \<le> length tblock" "length (cstr name) \<le> length rblock"
    using block(1) blocks by (simp_all add: strlen_def)
  have rfits: "length (reply_bytes xid (cstr name) 1) \<le> 80"
    using fits by (simp add: length_call_bytes length_reply_bytes length_string_bytes)
  note bl = cstr_fill [OF block]
  have st: "strlen (fill nblock (cstr name)) \<le> 255"
    using bl lens by (simp add: strlen_def)
  obtain x where x: "prepare_call cst (flexxdrmem_create m a 80 XDR_ENCODE) (Some name) (Some title)
      xid msg0 = Some x" "outgoing x = call_bytes xid (cstr name) (cstr title)"
    and h: "x_ops x = flexxdrmem_ops" "m_base (x_private x) = a"
    by (rule prepare_call_sends [OF c addrs(1) xid name title fits])
  have r: "server_func sst (flexxdrmem_create m' b 80 XDR_DECODE) b (outgoing x) (Some nblock)
      (Some tblock) cmsg0 rply0 =
      Some (reply_bytes xid (cstr name) 1, Some (fill nblock (cstr name)), Some (fill tblock (cstr title)))"
    using server_func_replies [OF s addrs(2) xid lens(1) blks(1) lens(2) blks(2) fits bl(2) st] rfits bl(1) x(2) by simp
  obtain y where "client_func cst x a (reply_bytes xid (cstr name) 1) (Some rblock) result0 reply0 =
      Some (y, Some (fill rblock (cstr name)), 1)"
    by (rule client_func_receives [OF c addrs(1) h lens(1) blks(3) rfits])
  with x(1) r show ?thesis by blast
qed

theorem oats_exchange_witness:
  "\<exists>x y reply.
    prepare_call oats_registry (flexxdrmem_create zero_mem 4096 80 XDR_ENCODE)
      (Some (name_Innocent @ [0])) (Some (title_CEO @ [0])) 22 (zero_msg Other_object) = Some x \<and>
    server_func oats_registry (flexxdrmem_create zero_mem 8192 80 XDR_DECODE) 8192 (outgoing x)
      (Some (replicate 36 0)) (Some (replicate 16 0)) (zero_msg Other_object) (zero_msg Other_object) =
      Some (reply, Some (name_Innocent @ replicate 28 0), Some (title_CEO @ replicate 13 0)) \<and>
    client_func oats_registry x 4096 reply (Some (replicate 36 0)) 0 (zero_msg Other_object) =
      Some (y, Some (name_Innocent @ replicate 28 0), 1)"
proof -
  have c: "cstr (name_Innocent @ [0]) = name_Innocent" "cstr (title_CEO @ [0]) = title_CEO"
    by (simp_all add: cstr_def name_Innocent_def title_CEO_def)
  have f: "fill (replicate 36 0) name_Innocent = name_Innocent @ replicate 28 0"
    "fill (replicate 16 0) title_CEO = title_CEO @ replicate 13 0"
    by (simp_all add: fill_def name_Innocent_def title_CEO_def)
  have l: "length name_Innocent = 8" "length title_CEO = 3"
    by (simp_all add: name_Innocent_def title_CEO_def)
  show ?thesis
    using oats_exchange [where name = "name_Innocent @ [0]" and title = "title_CEO @ [0]"
        and nblock = "replicate 36 0" and tblock = "replicate 16 0" and rblock = "replicate 36 0"
        and a = 4096 and b = 8192 and xid = 22 and m = zero_mem and m' = zero_mem
        and ?msg0.0 = "zero_msg Other_object" and ?cmsg0.0 = "zero_msg Other_object"
        and ?rply0.0 = "zero_msg Other_object" and ?reply0.0 = "zero_msg Other_object"
        and ?result0.0 = 0, OF oats_registry_registered oats_registry_registered]
    by (simp add: c f l strlen_def fits32_def length_call_bytes length_string_bytes pad_def)
qed

text \<open>
  C5: Over the memory stream, whatever service is registered: if its call filter encodes the
  client's arguments as \<open>bs\<close> and decodes \<open>bs\<close> into the server's, then serialising a call and
  deserialising the bytes anywhere else succeeds, and the server gets the xid, the program,
  version and procedure and the arguments.
\<close>

theorem cornflake_call_roundtrip:
  fixes cf :: "(memstrm, 'w) CFLAKE" and cf0 :: "(memstrm, 'v) CFLAKE"
  assumes dir: "rm_direction (cf_msg cf) = CALL" and c: "rm_call (cf_msg cf) = c"
    and fits: "fits32 (rm_xid (cf_msg cf))" "fits32 (cb_prog c)" "fits32 (cb_vers c)" "fits32 (cb_proc c)"
    and client: "cornflake_get_schema (cb_prog c) (cb_vers c) (cb_proc c) CALL st = Some enc"
    and server: "cornflake_get_schema (cb_prog c) (cb_vers c) (cb_proc c) CALL st' = Some dec"
    and enc: "\<And>m a n. fm.encodes m a n enc (cf_args cf) bs args'"
    and dec: "\<And>m a n. fmd.decodes m a n dec bs (cf_args cf0) args"
    and bufs: "a \<noteq> 0" "b \<noteq> 0" "24 + length bs \<le> unat sz" "24 + length bs \<le> unat sz'"
  shows "\<exists>x cf' y cf''.
    cornflake_serialize st (flexxdrmem_create m a sz XDR_ENCODE) cf = Some (True, x, cf') \<and>
    cornflake_deserialize st' (flexxdrmem_create (wr m' b (outgoing x)) b sz' XDR_DECODE) cf0 =
      Some (True, y, cf'') \<and>
    rm_xid (cf_msg cf'') = rm_xid (cf_msg cf) \<and> rm_direction (cf_msg cf'') = CALL \<and>
    rm_call (cf_msg cf'') = c\<lparr>cb_rpcvers := 8\<rparr> \<and> cf_args cf'' = args"
proof -
  let ?bs = "callhdr_bytes (rm_xid (cf_msg cf)) (cb_prog c) (cb_vers c) @ be32 (ucast (cb_proc c)) @ bs"
  have bs: "?bs = be32 (ucast (rm_xid (cf_msg cf))) @ be32 CALL @
      callmsg_bytes (cb_prog c) (cb_vers c) (cb_proc c) @ bs"
    by (simp add: callhdr_bytes_def callmsg_bytes_def)
  have "length ?bs = 24 + length bs" by (simp add: callhdr_bytes_def)
  then have l: "length ?bs \<le> unat sz" "length ?bs \<le> unat sz'" using bufs by simp_all
  have ser: "fm.encodes m a (unat sz) (cornflake_serialize st) cf ?bs
      (cf\<lparr>cf_msg := (cf_msg cf)\<lparr>rm_call := c\<lparr>cb_rpcvers := FLEXRPC_MSG_VERSION\<rparr>\<rparr>, cf_args := args'\<rparr>)"
    by (rule fm.encodes_serialize_call [OF dir c fits(1-3) client enc])
  obtain x where x: "cornflake_serialize st (flexxdrmem_create m a sz XDR_ENCODE) cf = Some (True, x,
      cf\<lparr>cf_msg := (cf_msg cf)\<lparr>rm_call := c\<lparr>cb_rpcvers := FLEXRPC_MSG_VERSION\<rparr>\<rparr>, cf_args := args'\<rparr>)"
    and out: "rd (x_mem x) a (length ?bs) = ?bs" "m_base (x_private x) = a"
      "m_private (x_private x) = a + length ?bs"
    by (rule flexxdrmem_encode [OF ser refl bufs(1) l(1)]) blast
  have o: "outgoing x = ?bs" by (rule outgoingI [OF out(2,3,1)])
  have rd: "rd (wr m' b ?bs) b (length ?bs) = ?bs" by simp
  let ?cf = "cf0\<lparr>cf_msg := (cf_msg cf0)\<lparr>rm_xid := ucast (ucast (rm_xid (cf_msg cf)) :: 32 word),
        rm_direction := CALL, rm_call := \<lparr>cb_rpcvers = FLEXRPC_MSG_VERSION, cb_prog = cb_prog c,
          cb_vers = cb_vers c, cb_proc = cb_proc c\<rparr>\<rparr>, cf_args := args\<rparr>"
  have d: "fmd.decodes (wr m' b ?bs) b (unat sz') (cornflake_deserialize st') ?bs cf0 ?cf"
    unfolding bs by (rule fmd.decodes_deserialize_call [OF fits(2-4) server dec])
  obtain y where "cornflake_deserialize st' (flexxdrmem_create (wr m' b ?bs) b sz' XDR_DECODE) cf0 =
      Some (True, y, ?cf)"
    by (rule flexxdrmem_decode [OF d refl bufs(2) l(2) rd]) blast
  with x o fits(1) show ?thesis
    by (cases c) (simp add: FLEXRPC_MSG_VERSION_def)
qed

theorem cornflake_call_roundtrip_witness:
  "\<exists>x cf' y cf''.
    cornflake_serialize oats_registry (flexxdrmem_create zero_mem 4096 80 XDR_ENCODE)
      \<lparr>cf_msg = (zero_msg Other_object)\<lparr>rm_xid := 22, rm_call :=
         \<lparr>cb_rpcvers = 8, cb_prog = OATSPROGRAM, cb_vers = PRINTMESSAGEVER, cb_proc = PRINTMESSAGE\<rparr>\<rparr>,
       cf_args = Printmessage_call_args (Some (name_Innocent @ [0])) (Some (title_CEO @ [0]))\<rparr> =
      Some (True, x, cf') \<and>
    cornflake_deserialize oats_registry
      (flexxdrmem_create (wr zero_mem 8192 (outgoing x)) 8192 80 XDR_DECODE)
      \<lparr>cf_msg = zero_msg Other_object,
       cf_args = Printmessage_call_args (Some (replicate 36 0)) (Some (replicate 16 0))\<rparr> =
      Some (True, y, cf'') \<and>
    rm_xid (cf_msg cf'') = 22 \<and>
    cf_args cf'' = Printmessage_call_args (Some (name_Innocent @ replicate 28 0))
      (Some (title_CEO @ replicate 13 0))"
proof -
  have c: "cstr (name_Innocent @ [0]) = name_Innocent" "cstr (title_CEO @ [0]) = title_CEO"
    by (simp_all add: cstr_def name_Innocent_def title_CEO_def)
  have f: "fill (replicate 36 0) name_Innocent = name_Innocent @ replicate 28 0"
    "fill (replicate 16 0) title_CEO = title_CEO @ replicate 13 0"
    by (simp_all add: fill_def name_Innocent_def title_CEO_def)
  have l: "length name_Innocent = 8" "length title_CEO = 3"
    by (simp_all add: name_Innocent_def title_CEO_def)
  let ?c = "\<lparr>cb_rpcvers = 8, cb_prog = OATSPROGRAM, cb_vers = PRINTMESSAGEVER, cb_proc = PRINTMESSAGE\<rparr>"
  let ?cf = "\<lparr>cf_msg = (zero_msg Other_object :: (memstrm, oats_args) rpc_msg)\<lparr>rm_xid := 22, rm_call := ?c\<rparr>,
    cf_args = Printmessage_call_args (Some (name_Innocent @ [0])) (Some (title_CEO @ [0]))\<rparr>"
  have reg: "cornflake_get_schema OATSPROGRAM PRINTMESSAGEVER PRINTMESSAGE CALL oats_registry =
      Some (printmessage_call (\<lambda>n. Some (replicate n 0)))"
    using oats_register_registered [OF oats_registry_registered(2,1)]
    by (simp add: oats_registered_def)
  have enc: "fm.encodes m a n (printmessage_call malloc) (cf_args ?cf)
      (string_bytes name_Innocent @ string_bytes title_CEO) (cf_args ?cf)" for m a n malloc
    using fm.encodes_printmessage_call [of "name_Innocent @ [0]" "title_CEO @ [0]" m a n malloc]
    by (simp add: c l strlen_def)
  have dec: "fmd.decodes m a n (printmessage_call malloc)
      (string_bytes name_Innocent @ string_bytes title_CEO)
      (Printmessage_call_args (Some (replicate 36 0)) (Some (replicate 16 0)))
      (Printmessage_call_args (Some (name_Innocent @ replicate 28 0))
        (Some (title_CEO @ replicate 13 0)))" for m a n malloc
    using fmd.decodes_printmessage_call [of name_Innocent "replicate 36 0" title_CEO "replicate 16 0" m a n malloc]
    by (simp add: f l)
  let ?srv = "\<lparr>cf_msg = zero_msg Other_object :: (memstrm, oats_args) rpc_msg,
    cf_args = Printmessage_call_args (Some (replicate 36 0)) (Some (replicate 16 0))\<rparr>"
  have hyps: "rm_direction (cf_msg ?cf) = CALL" "rm_call (cf_msg ?cf) = ?c" "rm_xid (cf_msg ?cf) = 22"
    by (simp_all add: zero_msg_def CALL_def)
  have dec': "fmd.decodes m a n (printmessage_call (\<lambda>n. Some (replicate n 0)))
      (string_bytes name_Innocent @ string_bytes title_CEO) (cf_args ?srv)
      (Printmessage_call_args (Some (name_Innocent @ replicate 28 0))
        (Some (title_CEO @ replicate 13 0)))" for m a n
    using dec by simp
  have f22: "fits32 22" by (simp add: fits32_def)
  have bufs: "24 + length (string_bytes name_Innocent @ string_bytes title_CEO) \<le> unat (80 :: 32 word)"
    by (simp add: length_string_bytes l pad_def)
  have "\<exists>x cf' y cf''.
    cornflake_serialize oats_registry (flexxdrmem_create zero_mem 4096 80 XDR_ENCODE) ?cf =
      Some (True, x, cf') \<and>
    cornflake_deserialize oats_registry
      (flexxdrmem_create (wr zero_mem 8192 (outgoing x)) 8192 80 XDR_DECODE) ?srv = Some (True, y, cf'') \<and>
    rm_xid (cf_msg cf'') = rm_xid (cf_msg ?cf) \<and> rm_direction (cf_msg cf'') = CALL \<and>
    rm_call (cf_msg cf'') = ?c\<lparr>cb_rpcvers := 8\<rparr> \<and>
    cf_args cf'' = Printmessage_call_args (Some (name_Innocent @ replicate 28 0))
      (Some (title_CEO @ replicate 13 0))"
  proof (rule cornflake_call_roundtrip [where enc = "printmessage_call (\<lambda>n. Some (replicate n 0))"
        and dec = "printmessage_call (\<lambda>n. Some (replicate n 0))", OF hyps(1,2)])
    show "fm.encodes m a n (printmessage_call (\<lambda>n. Some (replicate n 0))) (cf_args ?cf)
      (string_bytes name_Innocent @ string_bytes title_CEO) (cf_args ?cf)" for m a n
      by (rule enc)
    show "(4096 :: nat) \<noteq> 0" "(8192 :: nat) \<noteq> 0" by simp_all
  qed (simp_all only: hyps(3) f22 fits32_oats call_body.simps reg dec' bufs)
  then show ?thesis unfolding hyps(3) by blast
qed

text \<open>
  C6: Over the memory stream, whatever result filters the two sides attached to their messages:
  if the server's encodes its result as \<open>bs\<close> and the client's decodes \<open>bs\<close>, then
  serialising a successful reply and deserialising the bytes anywhere else succeeds, and the
  client gets the xid, the success and the result.
\<close>

theorem cornflake_reply_roundtrip:
  fixes cf :: "(memstrm, 'w) CFLAKE" and cf0 :: "(memstrm, 'v) CFLAKE"
  assumes dir: "rm_direction (cf_msg cf) = REPLY" and xid: "fits32 (rm_xid (cf_msg cf))"
    and ok: "rp_stat (rm_reply (cf_msg cf)) = MSG_ACCEPTED" "ar_stat ar = SUCCESS"
    and ar: "ar = rp_acpt (rm_reply (cf_msg cf))" "ar0 = rp_acpt (rm_reply (cf_msg cf0))"
    and proc: "ar_proc ar = Some enc" "ar_proc ar0 = Some dec"
    and enc: "\<And>m a n. fm.encodes m a n enc (ar_where ar) bs w'"
    and dec: "\<And>m a n. fmd.decodes m a n dec bs (ar_where ar0) w"
    and bufs: "a \<noteq> 0" "b \<noteq> 0" "16 + length bs \<le> unat sz" "16 + length bs \<le> unat sz'"
  shows "\<exists>x cf' y cf''.
    cornflake_serialize st (flexxdrmem_create m a sz XDR_ENCODE) cf = Some (True, x, cf') \<and>
    cornflake_deserialize st' (flexxdrmem_create (wr m' b (outgoing x)) b sz' XDR_DECODE) cf0 =
      Some (True, y, cf'') \<and>
    rm_xid (cf_msg cf'') = rm_xid (cf_msg cf) \<and>
    rm_reply (cf_msg cf'') = (rm_reply (cf_msg cf0))\<lparr>rp_stat := MSG_ACCEPTED,
      rp_acpt := ar0\<lparr>ar_stat := SUCCESS, ar_where := w\<rparr>\<rparr>"
proof -
  let ?body = "be32 MSG_ACCEPTED @ be32 SUCCESS @ bs"
  let ?bs = "be32 (ucast (rm_xid (cf_msg cf))) @ be32 REPLY @ ?body"
  let ?rm = "(cf_msg cf)\<lparr>rm_reply := (rm_reply (cf_msg cf))\<lparr>rp_acpt := ar\<lparr>ar_where := w'\<rparr>\<rparr>\<rparr>"
  let ?cm = "(cf_msg cf0)\<lparr>rm_xid := ucast (ucast (rm_xid (cf_msg cf)) :: 32 word), rm_direction := REPLY\<rparr>"
  have l: "length ?bs \<le> unat sz" "length ?bs \<le> unat sz'" using bufs by simp_all
  have rep: "fm.encodes m a (unat sz) flexxdr_replymsg (cf_msg cf) ?body ?rm"
    by (rule fm.encodes_success_reply [OF proc(1) enc ar(1) ok(2,1) dir])
  obtain x where x: "cornflake_serialize st (flexxdrmem_create m a sz XDR_ENCODE) cf =
      Some (True, x, cf\<lparr>cf_msg := ?rm\<rparr>)"
    and out: "rd (x_mem x) a (length ?bs) = ?bs" "m_base (x_private x) = a"
      "m_private (x_private x) = a + length ?bs"
    by (rule flexxdrmem_encode [OF fm.encodes_serialize_reply [OF xid dir rep] refl bufs(1) l(1)]) blast
  have o: "outgoing x = ?bs" by (rule outgoingI [OF out(2,3,1)])
  have rd: "rd (wr m' b ?bs) b (length ?bs) = ?bs" by simp
  have "fmd.decodes (wr m' b ?bs) b (unat sz') flexxdr_replymsg ?body ?cm
      (?cm\<lparr>rm_reply := (rm_reply ?cm)\<lparr>rp_stat := MSG_ACCEPTED,
         rp_acpt := ar0\<lparr>ar_stat := SUCCESS, ar_where := w\<rparr>\<rparr>\<rparr>)"
    by (rule fmd.decodes_success_reply [OF proc(2) dec]) (simp_all add: ar)
  from flexxdrmem_decode [OF fmd.decodes_deserialize_reply [OF this] refl bufs(2) l(2) rd]
  obtain y where "cornflake_deserialize st' (flexxdrmem_create (wr m' b ?bs) b sz' XDR_DECODE) cf0 =
      Some (True, y, cf0\<lparr>cf_msg := ?cm\<lparr>rm_reply := (rm_reply ?cm)\<lparr>rp_stat := MSG_ACCEPTED,
         rp_acpt := ar0\<lparr>ar_stat := SUCCESS, ar_where := w\<rparr>\<rparr>\<rparr>\<rparr>)" by blast
  with x o xid show ?thesis by simp
qed

theorem cornflake_reply_roundtrip_witness:
  "\<exists>x cf' y cf''.
    cornflake_serialize null_registry (flexxdrmem_create zero_mem 4096 80 XDR_ENCODE) (int_reply 22 7) =
      Some (True, x, cf') \<and>
    cornflake_deserialize null_registry (flexxdrmem_create (wr zero_mem 64 (outgoing x)) 64 80 XDR_DECODE)
      (int_reply 0 0) = Some (True, y, cf'') \<and>
    rm_xid (cf_msg cf'') = 22 \<and> ar_where (rp_acpt (rm_reply (cf_msg cf''))) = 7"
proof -
  have ar: "rp_acpt (rm_reply (cf_msg (int_reply xid v))) = (zero_accepted v)\<lparr>ar_proc := Some flexxdr_u_int\<rparr>"
    and msg: "rm_xid (cf_msg (int_reply xid v)) = xid" "rm_direction (cf_msg (int_reply xid v)) = REPLY"
      "rp_stat (rm_reply (cf_msg (int_reply xid v))) = 0" for xid v
    by (simp_all add: int_reply_def zero_msg_def)
  have w: "ar_where ((zero_accepted v)\<lparr>ar_proc := p\<rparr>) = v" "ar_stat ((zero_accepted v)\<lparr>ar_proc := p\<rparr>) = 0" for v p
    by (simp_all add: zero_accepted_def)
  have "fits32 22" by (simp add: fits32_def)
  with cornflake_reply_roundtrip [where cf = "int_reply 22 7" and ?cf0.0 = "int_reply 0 0"
      and enc = flexxdr_u_int and dec = flexxdr_u_int and bs = "be32 7" and w = 7 and w' = 7
      and a = 4096 and b = 64 and sz = 80 and sz' = 80 and st = null_registry and st' = null_registry
      and m = zero_mem and m' = zero_mem, OF msg(2) _ _ _ refl refl]
  obtain x cf' y cf'' where "cornflake_serialize null_registry
      (flexxdrmem_create zero_mem 4096 80 XDR_ENCODE) (int_reply 22 7) = Some (True, x, cf')"
    "cornflake_deserialize null_registry (flexxdrmem_create (wr zero_mem 64 (outgoing x)) 64 80 XDR_DECODE)
      (int_reply 0 0) = Some (True, y, cf'')"
    "rm_xid (cf_msg cf'') = 22" and r: "rm_reply (cf_msg cf'') = (rm_reply (cf_msg (int_reply 0 0)))
      \<lparr>rp_stat := 0, rp_acpt := (zero_accepted 0)\<lparr>ar_proc := Some flexxdr_u_int, ar_stat := 0,
        ar_where := 7\<rparr>\<rparr>"
    by (simp add: ar msg w fm.encodes_flexxdr_u_int fmd.decodes_flexxdr_u_int
        MSG_ACCEPTED_def SUCCESS_def) blast
  moreover have "ar_where (rp_acpt (rm_reply (cf_msg cf''))) = 7" unfolding r by simp
  ultimately show ?thesis by blast
qed

text \<open>
  \<open>cornflake_serialize\<close> reports success for a call whose procedure and arguments did not
  fit: a buffer of 20 bytes holds the header only, and true is returned.
\<close>

theorem cornflake_serialize_hides_failure:
  fixes cf :: "(memstrm, 'w) CFLAKE"
  assumes dir: "rm_direction (cf_msg cf) = CALL" and c: "rm_call (cf_msg cf) = c"
    and fits: "fits32 (rm_xid (cf_msg cf))" "fits32 (cb_prog c)" "fits32 (cb_vers c)"
    and a: "a \<noteq> 0"
  shows "\<exists>x cf'. cornflake_serialize st (flexxdrmem_create m a 20 XDR_ENCODE) cf = Some (True, x, cf')"
proof -
  let ?x = "flexxdrmem_create m a 20 XDR_ENCODE"
  have s: "fm.sinks m a 20 ?x" and r: "fm.room ?x 20" and e: "fm.sent ?x = []"
    unfolding fm.sinks_def fm.room_def fm.sent_def using a
    by (simp_all add: flexxdrmem_create_def xst_def mem_stream_defs)
  show ?thesis
  proof (rule fm.serialize_header_only [OF dir c fits s r, where st = st])
    fix x1
    assume s1: "fm.sinks m a 20 x1" and o: "fm.sent x1 = fm.sent ?x @
        callhdr_bytes (rm_xid (cf_msg cf)) (cb_prog c) (cb_vers c)"
      and t: "\<not> fm.room x1 4 \<Longrightarrow> \<exists>x2 cf'. cornflake_serialize st ?x cf = Some (True, x2, cf')"
    have "mem_inv m a 20 (xst x1)" using s1 unfolding fm.sinks_def by simp
    moreover have "length (mem_out (xst x1)) = 20"
      using o unfolding e unfolding fm.sent_def by (simp add: callhdr_bytes_def)
    ultimately have "\<not> mem_fits (xst x1) 4" by (rule mem_full)
    then show ?thesis by (intro t) (simp add: fm.room_def)
  qed
qed

theorem cornflake_serialize_hides_failure_witness:
  "\<exists>x cf'. cornflake_serialize null_registry (flexxdrmem_create zero_mem 4096 20 XDR_ENCODE)
    \<lparr>cf_msg = zero_msg 0, cf_args = 0\<rparr> = Some (True, x, cf')"
  using cornflake_serialize_hides_failure [of "\<lparr>cf_msg = zero_msg 0, cf_args = 0\<rparr>" _ 4096 null_registry zero_mem]
  by (simp add: zero_msg_def CALL_def fits32_def)

text \<open>
  Serialising a call whose procedure is not registered encodes the header and the procedure
  and then calls a null filter.
\<close>

theorem cornflake_serialize_unregistered:
  fixes cf :: "(memstrm, 'w) CFLAKE"
  assumes dir: "rm_direction (cf_msg cf) = CALL" and c: "rm_call (cf_msg cf) = c"
    and fits: "fits32 (rm_xid (cf_msg cf))" "fits32 (cb_prog c)" "fits32 (cb_vers c)"
    and none: "cornflake_get_schema (cb_prog c) (cb_vers c) (cb_proc c) CALL st = None"
    and buf: "a \<noteq> 0" "24 \<le> unat sz"
  shows "cornflake_serialize st (flexxdrmem_create m a sz XDR_ENCODE) cf = None"
  by (rule fm.serialize_unregistered [OF dir c fits none, of m a "unat sz"])
    (unfold fm.sinks_def fm.room_def, use buf in \<open>simp_all add: flexxdrmem_create_def xst_def mem_stream_defs\<close>)

theorem cornflake_serialize_unregistered_witness:
  "cornflake_serialize null_registry (flexxdrmem_create zero_mem 4096 24 XDR_ENCODE)
    \<lparr>cf_msg = zero_msg 0, cf_args = 0\<rparr> = None"
  by (rule cornflake_serialize_unregistered [OF _ refl])
    (simp_all add: zero_msg_def CALL_def fits32_def cornflake_get_schema_def null_registry_def)

text \<open>
  The registry holds one service: once an entry with a version other than 0 is registered,
  every later registration reports success, allocates an entry, and leaves the result of
  every look-up, the one for the service just registered included, what it was.
\<close>

theorem cornflake_register_once:
  assumes "reg_vers (rpc_registry st) \<noteq> 0"
    and "cornflake_register True prog vers proc cs rs d st = Some (ok, st')"
  shows "ok \<and> length (malloced st') = Suc (length (malloced st)) \<and>
    (\<forall>p v q dir. cornflake_get_schema p v q dir st' = cornflake_get_schema p v q dir st)"
  using register_again [OF assms] by blast

theorem cornflake_register_once_witness:
  "\<exists>st'. cornflake_register True 7 1 1 None None () oats_registry = Some (True, st') \<and>
    cornflake_get_schema 7 1 1 CALL st' = cornflake_get_schema 7 1 1 CALL oats_registry"
proof -
  have nz: "reg_vers (rpc_registry oats_registry) \<noteq> 0"
    by (simp add: oats_registry_def PRINTMESSAGEVER_def)
  then obtain st' where "cornflake_register True 7 1 1 None None () oats_registry = Some (True, st')"
    by (simp add: cornflake_register_def)
  with cornflake_register_once [OF nz this] show ?thesis by blast
qed

text \<open>
  A look-up for a direction that is a call or a reply gives the filter of the first entry
  of the chain with that program, version and procedure, and nothing when the registry is
  empty or no entry matches; entries registered before a match do not hide it.
\<close>

theorem cornflake_get_schema_first:
  assumes nz: "reg_vers (rpc_registry st) \<noteq> 0" and split: "rpc_registry st # next_chain st = pre @ r # post"
    and here: "reg_prog r = prog" "reg_vers r = vers" "reg_proc r = proc"
    and none: "\<forall>q\<in>set pre. \<not> (reg_prog q = prog \<and> reg_vers q = vers \<and> reg_proc q = proc)"
  shows "cornflake_get_schema prog vers proc CALL st = cf_call_schema r \<and>
    cornflake_get_schema prog vers proc REPLY st = cf_reply_schema r"
proof -
  have "find_reg prog vers proc reg chain = Some r" if "reg # chain = pre @ r # post" for reg chain
    using that none
  proof (induction pre arbitrary: reg chain)
    case Nil
    then show ?case using here by (simp add: find_reg_here)
  next
    case (Cons q pre)
    then obtain reg' chain' where chain: "chain = reg' # chain'" "reg' # chain' = pre @ r # post"
      by (cases chain) auto
    have step: "find_reg prog vers proc reg' chain' = Some r"
      using Cons.IH [OF chain(2)] Cons.prems(2) by simp
    have "\<not> (reg_prog q = prog \<and> reg_vers q = vers \<and> reg_proc q = proc)" and "reg = q"
      using Cons.prems by simp_all
    with step show ?case unfolding chain(1) by auto
  qed
  then show ?thesis
    using nz split by (simp add: cornflake_get_schema_def CALL_def REPLY_def)
qed

theorem cornflake_get_schema_first_witness:
  "cornflake_get_schema OATSPROGRAM PRINTMESSAGEVER PRINTMESSAGE CALL oats_registry =
    Some (printmessage_call (\<lambda>n. Some (replicate n 0)))"
  using cornflake_get_schema_first [of oats_registry "[]" "rpc_registry oats_registry" "[]"]
  by (simp add: oats_registry_def empty_cf_registry_def PRINTMESSAGEVER_def)

text \<open>
  A reply that a server's 80-byte buffer cannot mend: when the server's block holds
  something else than a zero byte where the decoded name ends, the reply carries the name
  followed by what the block held before, up to its first zero byte, because
  \<open>flexxdr_string\<close> stores no terminator.
\<close>

theorem oats_reply_stale:
  assumes server: "oats_register smalloc sd sst0 = Some (True, sst)" "reg_vers (rpc_registry sst0) = 0"
    and b: "b \<noteq> 0" and xid: "fits32 xid" and nz: "0 \<notin> set name" "0 \<notin> set stale"
    and lens: "length (name @ stale) \<le> 255" "length title \<le> 255"
    and fits: "length (call_bytes xid name title) \<le> 80"
      "length (reply_bytes xid (name @ stale) 1) \<le> 80"
    and block: "drop (length name) nblock = stale @ 0 # tail" "length title \<le> length tblock"
  shows "\<exists>nb tb. server_func sst (flexxdrmem_create m' b 80 XDR_DECODE) b (call_bytes xid name title)
      (Some nblock) (Some tblock) cmsg0 rply0 = Some (reply_bytes xid (name @ stale) 1, nb, tb)"
proof -
  have s: "oats_registered smalloc sst"
    using oats_register_registered server by metis
  have f: "fill nblock name = (name @ stale) @ 0 # tail"
    using block(1) by (simp add: fill_def)
  have "0 \<notin> set (name @ stale)" using nz by simp
  from cstr_terminated [OF this, of tail]
  have c: "cstr (fill nblock name) = name @ stale" "0 \<in> set (fill nblock name)"
    unfolding f by simp_all
  then have l: "strlen (fill nblock name) \<le> 255" using lens by (simp add: strlen_def)
  have n: "length name \<le> 255" "length name \<le> length nblock"
    using lens arg_cong [OF block(1), of length] by simp_all
  from server_func_replies [OF s b xid n lens(2) block(2) fits(1) c(2) l] fits(2) c(1)
  show ?thesis by simp
qed

theorem oats_reply_stale_witness:
  "\<exists>nb tb. server_func oats_registry (flexxdrmem_create zero_mem 8192 80 XDR_DECODE) 8192
      (call_bytes 22 title_CEO title_CEO) (Some ([1, 1, 1, 88, 88] @ replicate 31 0)) (Some (replicate 16 0))
      (zero_msg Other_object) (zero_msg Other_object) =
    Some (reply_bytes 22 (title_CEO @ [88, 88]) 1, nb, tb)"
proof -
  have l: "length title_CEO = 3" by (simp add: title_CEO_def)
  have z: "0 \<notin> set title_CEO" "0 \<notin> set [88, 88 :: byte]" by (simp_all add: title_CEO_def)
  have x: "fits32 22" by (simp add: fits32_def)
  have d: "drop (length title_CEO) ([1, 1, 1, 88, 88 :: byte] @ replicate 31 0) =
      [88, 88] @ 0 # replicate 30 0"
  proof -
    have "replicate 31 (0 :: byte) = 0 # replicate 30 0" by (simp add: replicate_Suc [symmetric])
    then show ?thesis unfolding l by simp
  qed
  show ?thesis
    by (rule oats_reply_stale [OF oats_registry_registered _ x z _ _ _ _ d])
      (simp_all add: l length_call_bytes length_reply_bytes length_string_bytes pad_def)
qed

text \<open>
  The filter allows 255 bytes whatever the block holds: a call whose name is longer than the
  server's block makes the server write behind its end, so that there is no result.
\<close>

theorem oats_name_overflow:
  assumes reg: "oats_registered malloc sst" and a: "a \<noteq> 0" and name: "length name \<le> 255"
    and fits: "length (call_bytes xid name title) \<le> 80"
    and rd: "rd m a (length (call_bytes xid name title)) = call_bytes xid name title"
    and long: "length nblock < length name"
  shows "get_call sst (flexxdrmem_create m a 80 XDR_DECODE) (Some nblock) tblock msg0 = None"
proof -
  let ?cf = "\<lparr>cf_msg = msg0, cf_args = Printmessage_call_args (Some nblock) tblock\<rparr>"
  have "fmd.overruns m a (unat (80 :: 32 word)) (cornflake_deserialize sst) (call_bytes xid name title) ?cf"
    unfolding call_bytes_def
    by (rule fmd.overruns_deserialize_call [where sch = "printmessage_call malloc"])
      (use reg fmd.overruns_printmessage_call [OF name long] in \<open>simp_all add: oats_registered_def\<close>)
  from flexxdrmem_overrun [OF this refl a _ rd] fits show ?thesis by (simp add: get_call_def)
qed

theorem oats_name_overflow_witness:
  "get_call oats_registry
      (flexxdrmem_create (wr zero_mem 8192 (call_bytes 22 (replicate 40 65) [])) 8192 80 XDR_DECODE)
      (Some (replicate 36 0)) (Some (replicate 16 0)) (zero_msg Other_object) = None"
proof -
  have reg: "oats_registered (\<lambda>n. Some (replicate n 0)) oats_registry"
    by (rule oats_register_registered [OF oats_registry_registered(2,1)])
  show ?thesis
    by (rule oats_name_overflow [OF reg, where name = "replicate 40 65" and title = "[]" and xid = 22])
      (simp_all add: length_call_bytes length_string_bytes pad_def)
qed

section \<open>libtirpc: messages\<close>

text \<open>
  C10: A call message of version 2 with credential and verifier of at most 400 bytes each and a
  length that is a multiple of 4 goes through any memory buffers, aligned or not: the in-line
  path and the path through the filters put the same bytes, no byte outside the buffer is
  written, and decoding gives the xid, program, version, procedure and both authenticators,
  copied into the blocks the receiver supplies, which have room for them, or into fresh ones.
\<close>

theorem xdr_callmsg_transfers:
  assumes "call_ok msg" and "unat (oa_length (tcb_cred (trm_call msg))) mod 4 = 0"
    and "unat (oa_length (tcb_verf (trm_call msg))) mod 4 = 0" and "msg_room avail msg0 msg"
  shows "xdrmem_transfers (xdr_callmsg avail) msg (tcallmsg_bytes msg) msg0 (msg_decoded avail msg0 msg)"
  using assms
  by (intro xdrmem_transfersI al.encodes_tcallmsg un.encodes_tcallmsg ald.decodes_tcallmsg
      und.decodes_tcallmsg)

definition unix_call :: "(memstrm, unit) trpc_msg" where
  "unix_call = (zero_tmsg ())\<lparr>trm_xid := 7, trm_call :=
     \<lparr>tcb_rpcvers = 2, tcb_prog = 100000, tcb_vers = 2, tcb_proc = 3,
      tcb_cred = \<lparr>oa_flavor = 1, oa_base = Some [1, 2, 3, 4], oa_length = 4\<rparr>, tcb_verf = zero_auth\<rparr>\<rparr>"

theorem xdr_callmsg_transfers_witness:
  "xdrmem_transfers (xdr_callmsg (\<lambda>_. True)) unix_call (tcallmsg_bytes unix_call) (zero_tmsg ())
    (msg_decoded (\<lambda>_. True) (zero_tmsg ()) unix_call)"
  by (rule xdr_callmsg_transfers)
    (simp_all add: unix_call_def zero_tmsg_def zero_auth_def call_ok_def valid_auth_def auth_body_def
      msg_room_def auth_room_def auth_block_def mem_alloc_def CALL_def RPC_MSG_VERSION_def
      MAX_AUTH_BYTES_def)

text \<open>
  A call whose credential or verifier is longer than 400 bytes is refused before anything
  is encoded, on every stream.
\<close>

theorem xdr_callmsg_auth_bound:
  assumes "x_op xdrs = XDR_ENCODE"
    and "oa_length (tcb_cred (trm_call msg)) > 400 \<or> oa_length (tcb_verf (trm_call msg)) > 400"
  shows "xdr_callmsg avail xdrs msg = Some (False, xdrs, msg)"
  using assms by (auto simp: xdr_callmsg_def MAX_AUTH_BYTES_def Let_def)

definition long_cred_call :: "(memstrm, unit) trpc_msg" where
  "long_cred_call = (zero_tmsg ())\<lparr>trm_call :=
     \<lparr>tcb_rpcvers = 2, tcb_prog = 100000, tcb_vers = 2, tcb_proc = 3,
      tcb_cred = \<lparr>oa_flavor = 1, oa_base = None, oa_length = 401\<rparr>, tcb_verf = zero_auth\<rparr>\<rparr>"

theorem xdr_callmsg_auth_bound_witness:
  "xdr_callmsg (\<lambda>_. True) (xdrmem_create zero_mem 4096 80 XDR_ENCODE) long_cred_call =
    Some (False, xdrmem_create zero_mem 4096 80 XDR_ENCODE, long_cred_call)"
  by (rule xdr_callmsg_auth_bound) (simp_all add: long_cred_call_def xdrmem_create_def)

text \<open>
  C27: A reply that is not a success (a version mismatch of the program or of the protocol, an
  authentication error, any other status) goes through any memory buffers to a receiver with room for
  its verifier, and the error that
  \<open>_seterr_reply\<close> draws from the decoded message is the one it draws from the server's.
\<close>

theorem xdr_replymsg_error_transfers:
  assumes ok: "treply_ok msg" and err: "\<not> accepted_succeeded msg"
    and room: "auth_room avail (tar_verf (trp_acpt (trm_reply msg0))) (tar_verf (trp_acpt (trm_reply msg)))"
  shows "xdrmem_transfers (xdr_replymsg avail) msg (treply_bytes msg []) msg0 (reply_decoded avail msg0 msg w) \<and>
    seterr_reply (reply_decoded avail msg0 msg w) error = seterr_reply msg error"
proof (rule conjI)
  show "xdrmem_transfers (xdr_replymsg avail) msg (treply_bytes msg []) msg0 (reply_decoded avail msg0 msg w)"
    by (rule xdrmem_transfersI; rule al.encodes_treplymsg un.encodes_treplymsg ald.decodes_treplymsg
        und.decodes_treplymsg)
      (use assms in simp_all)
  show "seterr_reply (reply_decoded avail msg0 msg w) error = seterr_reply msg error"
    by (rule seterr_reply_decoded [OF ok])
qed

definition mismatch_reply :: "(memstrm, unit) trpc_msg" where
  "mismatch_reply = (zero_tmsg ())\<lparr>trm_xid := 7, trm_direction := REPLY, trm_reply :=
     (trm_reply (zero_tmsg ()))\<lparr>trp_stat := MSG_DENIED,
       trp_rjct := \<lparr>trj_stat = RPC_MISMATCH, trj_low = 2, trj_high = 4, trj_why = 0\<rparr>\<rparr>\<rparr>"

definition zero_err :: rpc_err where
  "zero_err = \<lparr>re_status = RPC_SUCCESS, re_why = 0, re_vers_low = 0, re_vers_high = 0,
     re_lb_s1 = 0, re_lb_s2 = 0\<rparr>"

theorem xdr_replymsg_error_transfers_witness:
  "seterr_reply (reply_decoded (\<lambda>_. True) (zero_tmsg () :: (memstrm, unit) trpc_msg)
      mismatch_reply ()) zero_err =
    zero_err\<lparr>re_status := RPC_VERSMISMATCH, re_vers_low := 2, re_vers_high := 4\<rparr>"
proof -
  have ok: "treply_ok mismatch_reply" "\<not> accepted_succeeded mismatch_reply"
    by (simp_all add: mismatch_reply_def treply_ok_def accepted_succeeded_def MSG_DENIED_def
        MSG_ACCEPTED_def)
  have "auth_room (\<lambda>_. True)
      (tar_verf (trp_acpt (trm_reply (zero_tmsg () :: (memstrm, unit) trpc_msg))))
      (tar_verf (trp_acpt (trm_reply mismatch_reply)))"
    by (simp add: mismatch_reply_def zero_tmsg_def zero_auth_def auth_room_def)
  from xdr_replymsg_error_transfers [OF ok this, of "()" zero_err]
  have "seterr_reply (reply_decoded (\<lambda>_. True) (zero_tmsg () :: (memstrm, unit) trpc_msg)
      mismatch_reply ()) zero_err =
      seterr_reply mismatch_reply zero_err" by (rule conjunct2)
  then show ?thesis
    by (simp add: mismatch_reply_def zero_tmsg_def seterr_reply_def seterr_details_def rejected_def
        msg_enums)
qed

text \<open>
  The status \<open>_seterr_reply\<close> sets is success for a reply that was accepted with
  \<open>SUCCESS\<close>, and for no other.
\<close>

theorem seterr_reply_success:
  "re_status (seterr_reply msg error) = RPC_SUCCESS \<longleftrightarrow> accepted_succeeded msg"
  by (auto simp: seterr_reply_def seterr_details_def accepted_succeeded_def accepted_def rejected_def
      split: clnt_stat.splits)

section \<open>flexrpc: records\<close>

text \<open>
  A call cannot be encoded to or decoded from a record stream: \<open>flexxdr_callmsg\<close> asks for
  an in-line buffer through a slot that is null in the stream's vector.
\<close>

theorem flexxdr_callmsg_over_records:
  assumes "x_ops xdrs = flexxdrrec_ops" and "x_op xdrs \<noteq> XDR_FREE"
  shows "flexxdr_callmsg xdrs msg = None"
  using assms
  by (cases "x_op xdrs") (simp_all add: flexxdr_callmsg_def XDR_INLINE_def flexxdrrec_ops_def)

theorem flexxdr_callmsg_over_records_witness:
  "flexxdr_callmsg (flexxdrrec_create True (Some 64) 400 400 [] list_read (\<lambda>h bs. (int (length bs), h))
    \<lparr>x_op = XDR_ENCODE, x_ops = flexxdrrec_ops, x_mem = zero_mem, x_private = idle_stream []\<rparr>)
    (zero_msg ()) = None"
  by (rule flexxdr_callmsg_over_records) (simp_all add: flexxdrrec_create_def Let_def)

end
